(* ===== verification/JS_Prelude.thy ===== *)
theory JS_Prelude
  imports Complex_Main "HOL-Library.Word" "HOL-Library.Sublist" "HOL-Library.AList"
begin

text \<open>
  Shared vocabulary of the development: JavaScript strings and byte arrays,
  results with errors as values, executions of event-driven components, and
  the interfaces (locales) that the component theories interpret.

  A JavaScript string is the list of its UTF-16 code units, a
  \<^verbatim>\<open>Uint8Array\<close> the list of its bytes.  A function that throws
  returns \<^verbatim>\<open>Inl error\<close>, one that returns gives \<^verbatim>\<open>Inr value\<close>.
\<close>

named_theorems comp_simps \<open>unfolding rules of the component operations\<close>
named_theorems inv_intros \<open>preservation lemmas of the component invariants\<close>

section \<open>Strings, bytes and results\<close>

type_synonym jstr = "16 word list"
type_synonym bytes = "8 word list"

definition js :: "string \<Rightarrow> jstr" where
  "js s = map of_char s"

lemma js_Nil [simp]: "js [] = []"
  by (simp add: js_def)

lemma js_append: "js (s @ t) = js s @ js t"
  by (simp add: js_def)

lemma js_length [simp]: "length (js s) = length s"
  by (simp add: js_def)

lemma of_char_lt_256: "(of_char c :: nat) < 256"
  using mod_less_divisor [of 256 "of_char c :: nat"] by (simp only: of_char_mod_256)

lemma unat_of_char16: "unat (of_char c :: 16 word) = of_char c"
proof -
  have "(of_char c :: 16 word) = word_of_nat (of_char c)"
    by (simp only: of_nat_of_char)
  then show ?thesis
    by (simp only: unat_of_nat) (rule mod_less, rule less_trans [OF of_char_lt_256], simp)
qed

lemma of_char_inj16: "(of_char c :: 16 word) = of_char d \<longleftrightarrow> c = d"
proof
  assume "(of_char c :: 16 word) = of_char d"
  then have "(of_char c :: nat) = of_char d"
    by (simp only: unat_of_char16 [symmetric])
  then show "c = d" by (simp only: of_char_eq_iff)
qed simp

lemma js_inject: "js s = js t \<longleftrightarrow> s = t"
proof
  assume "js s = js t"
  moreover have "inj (of_char :: char \<Rightarrow> 16 word)"
    by (rule injI) (simp add: of_char_inj16)
  ultimately show "s = t"
    by (simp add: js_def inj_map_eq_map)
qed simp

fun and_then :: "'e + 'a \<Rightarrow> ('a \<Rightarrow> 'e + 'b) \<Rightarrow> 'e + 'b" where
  "and_then (Inl e) f = Inl e"
| "and_then (Inr x) f = f x"

lemma and_then_Inr_iff:
  "and_then r f = Inr y \<longleftrightarrow> (\<exists>x. r = Inr x \<and> f x = Inr y)"
  by (cases r) auto

lemma and_then_Inl_iff:
  "and_then r f = Inl e \<longleftrightarrow> r = Inl e \<or> (\<exists>x. r = Inr x \<and> f x = Inl e)"
  by (cases r) auto

lemma and_then_InrE [elim!]:
  "and_then r f = Inr y \<Longrightarrow> (\<And>x. r = Inr x \<Longrightarrow> f x = Inr y \<Longrightarrow> P) \<Longrightarrow> P"
  by (cases r) auto

lemma and_then_InlE:
  "and_then r f = Inl e \<Longrightarrow> (r = Inl e \<Longrightarrow> P) \<Longrightarrow> (\<And>x. r = Inr x \<Longrightarrow> f x = Inl e \<Longrightarrow> P) \<Longrightarrow> P"
  by (cases r) auto

fun map_results :: "('a \<Rightarrow> 'e + 'b) \<Rightarrow> 'a list \<Rightarrow> 'e + 'b list" where
  "map_results f [] = Inr []"
| "map_results f (x # xs) =
     and_then (f x) (\<lambda>y. and_then (map_results f xs) (\<lambda>ys. Inr (y # ys)))"

section \<open>Executions of event-driven components\<close>

text \<open>
  A component whose operations are called by its clients, by timers and by
  promise callbacks is a step relation over events.  A trace is a finite run;
  JavaScript's event loop makes every handler between two awaits atomic, so a
  trace of handlers is any interleaving the runtime can produce.
\<close>

inductive trace :: "('s \<Rightarrow> 'e \<Rightarrow> 's \<Rightarrow> bool) \<Rightarrow> 's \<Rightarrow> 'e list \<Rightarrow> 's \<Rightarrow> bool"
  for step :: "'s \<Rightarrow> 'e \<Rightarrow> 's \<Rightarrow> bool" where
  trace_Nil: "trace step s [] s"
| trace_snoc: "trace step s es t \<Longrightarrow> step t e u \<Longrightarrow> trace step s (es @ [e]) u"

inductive_cases trace_NilE: "trace step s [] t"

lemma trace_single: "step s e t \<Longrightarrow> trace step s [e] t"
  using trace_snoc [OF trace_Nil, of step s e t] by simp

lemma trace_append:
  "trace step s es t \<Longrightarrow> trace step t fs u \<Longrightarrow> trace step s (es @ fs) u"
proof -
  assume st: "trace step s es t" and tu: "trace step t fs u"
  from tu st show ?thesis
  proof (induction rule: trace.induct)
    case (trace_Nil t)
    then show ?case by simp
  next
    case (trace_snoc t fs v f u)
    then have "trace step s ((es @ fs) @ [f]) u"
      by (blast intro: trace.trace_snoc)
    then show ?case by simp
  qed
qed

lemma trace_Cons: "step s e t \<Longrightarrow> trace step t es u \<Longrightarrow> trace step s (e # es) u"
  using trace_append [OF trace_single, of step s e t es u] by simp

text \<open>Concrete runs are computed with an executable form of the step relation.\<close>

fun exec_run :: "('s \<Rightarrow> 'e \<Rightarrow> 's option) \<Rightarrow> 's \<Rightarrow> 'e list \<Rightarrow> 's option" where
  "exec_run exec s [] = Some s"
| "exec_run exec s (e # es) = (case exec s e of None \<Rightarrow> None | Some t \<Rightarrow> exec_run exec t es)"

locale executable_system =
  fixes exec :: "'s \<Rightarrow> 'e \<Rightarrow> 's option"
    and step :: "'s \<Rightarrow> 'e \<Rightarrow> 's \<Rightarrow> bool"
  assumes exec_step: "exec s e = Some t \<Longrightarrow> step s e t"
begin

lemma trace_of_run: "exec_run exec s es = Some t \<Longrightarrow> trace step s es t"
proof (induction es arbitrary: s)
  case Nil
  then show ?case by (simp add: trace_Nil)
next
  case (Cons e es)
  then obtain u where "exec s e = Some u" "trace step u es t" by (auto split: option.splits)
  then show ?case using trace_Cons [where step = step] exec_step by blast
qed

lemma run_reaches:
  assumes "case exec_run exec s es of None \<Rightarrow> False | Some t \<Rightarrow> P t"
  shows "\<exists>t. trace step s es t \<and> P t"
proof (cases "exec_run exec s es")
  case (Some t)
  then show ?thesis using trace_of_run [of s es t] assms by auto
qed (use assms in simp)

end

locale event_system =
  fixes step :: "'s \<Rightarrow> 'e \<Rightarrow> 's \<Rightarrow> bool"
    and start :: "'s"
    and inv :: "'s \<Rightarrow> bool"
  assumes start_inv: "inv start"
    and step_inv: "inv s \<Longrightarrow> step s e t \<Longrightarrow> inv t"
begin

lemma trace_keeps: "trace step s es t \<Longrightarrow> inv s \<Longrightarrow> inv t"
  by (induction rule: trace.induct) (auto intro: step_inv)

lemma reachable_inv: "trace step start es s \<Longrightarrow> inv s"
  by (rule trace_keeps [OF _ start_inv])

end

text \<open>
  A component with a bounded resource: under the events that leave the bound
  alone, the load never exceeds it.
\<close>

locale capped_system = event_system +
  fixes load :: "'s \<Rightarrow> nat"
    and cap :: "'s \<Rightarrow> nat"
    and calm :: "'e \<Rightarrow> bool"
  assumes calm_cap: "step s e t \<Longrightarrow> calm e \<Longrightarrow> cap t = cap s"
    and calm_load: "inv s \<Longrightarrow> step s e t \<Longrightarrow> calm e \<Longrightarrow> load s \<le> cap s \<Longrightarrow> load t \<le> cap t"
begin

lemma capped_trace:
  "trace step s es t \<Longrightarrow> inv s \<Longrightarrow> load s \<le> cap s \<Longrightarrow> list_all calm es \<Longrightarrow>
   load t \<le> cap t \<and> cap t = cap s"
proof (induction rule: trace.induct)
  case (trace_Nil s)
  then show ?case by simp
next
  case (trace_snoc s es t e u)
  then have "inv t" "load t \<le> cap t" "cap t = cap s" "calm e"
    by (auto intro: trace_keeps)
  then show ?case
    using trace_snoc.hyps(2) calm_cap [of t e u] calm_load [of t e u] by auto
qed

end

text \<open>
  A component that serves what it was offered in order: what was served
  followed by what is pending is what was offered.
\<close>

locale fifo_system =
  fixes step :: "'s \<Rightarrow> 'e \<Rightarrow> 's \<Rightarrow> bool"
    and served :: "'s \<Rightarrow> 'a list"
    and pending :: "'s \<Rightarrow> 'a list"
    and offered :: "'e \<Rightarrow> 'a list"
    and keeps :: "'e \<Rightarrow> bool"
  assumes serve_step:
    "step s e t \<Longrightarrow> keeps e \<Longrightarrow> served t @ pending t = served s @ pending s @ offered e"
    and drop_step:
    "step s e t \<Longrightarrow> subseq (served t @ pending t) (served s @ pending s @ offered e)"
begin

lemma fifo_order:
  "trace step s es t \<Longrightarrow> list_all keeps es \<Longrightarrow>
   served t @ pending t = served s @ pending s @ concat (map offered es)"
  by (induction rule: trace.induct) (auto simp: serve_step)

lemma fifo_subseq:
  "trace step s es t \<Longrightarrow>
   subseq (served t @ pending t) (served s @ pending s @ concat (map offered es))"
proof (induction rule: trace.induct)
  case (trace_Nil s)
  then show ?case by simp
next
  case (trace_snoc s es t e u)
  have "subseq (served u @ pending u) ((served t @ pending t) @ offered e)"
    using drop_step [OF trace_snoc.hyps(2)] by simp
  moreover have "subseq ((served t @ pending t) @ offered e)
      ((served s @ pending s @ concat (map offered es)) @ offered e)"
    using trace_snoc.IH by (rule list_emb_append_mono) simp
  ultimately show ?case
    by (simp add: subseq_order.order_trans)
qed

end

text \<open>
  A component that implements a simpler specification: every step of the component is matched by
  some steps of the specification between the abstractions of its states.
\<close>

locale simulation = event_system +
  fixes spec :: "'t \<Rightarrow> 'f \<Rightarrow> 't \<Rightarrow> bool"
    and abstract :: "'s \<Rightarrow> 't"
  assumes refines: "inv s \<Longrightarrow> step s e t \<Longrightarrow> \<exists>fs. trace spec (abstract s) fs (abstract t)"
begin

lemma refines_trace: "trace step s es t \<Longrightarrow> inv s \<Longrightarrow> \<exists>fs. trace spec (abstract s) fs (abstract t)"
proof (induction rule: trace.induct)
  case (trace_Nil s)
  then show ?case by (blast intro: trace.trace_Nil)
next
  case (trace_snoc s es t e u)
  then have "inv t" by (blast intro: trace_keeps)
  then obtain fs gs where "trace spec (abstract s) fs (abstract t)" "trace spec (abstract t) gs (abstract u)"
    using trace_snoc refines by blast
  then show ?case by (blast intro: trace_append)
qed

lemma reachable_refines: "trace step start es t \<Longrightarrow> \<exists>fs. trace spec (abstract start) fs (abstract t)"
  by (rule refines_trace [OF _ start_inv])

end

end
