(* ===== verification/Workers.thy ===== *)
theory Workers
  imports JS_Prelude
begin

text \<open>
  The bounded task pool of \<^verbatim>\<open>tools/workers/workers.ts\<close>.

  The record holds the module variables \<^verbatim>\<open>limit\<close>, \<^verbatim>\<open>queue\<close>,
  \<^verbatim>\<open>active\<close>, \<^verbatim>\<open>running\<close> and \<^verbatim>\<open>parallel\<close>; the limit is
  a finite JavaScript number, read exactly (a rational).  Three history fields
  record what the runtime knows and the module does not store: the tasks the
  loop dispatched, in order, those of them that have not settled, and the
  tasks whose failure was logged.  A dispatched task runs in a promise job of its own, so
  \<^verbatim>\<open>pump\<close> never runs a task synchronously; its settling is the event
  \<^verbatim>\<open>Settle\<close>, which runs the \<^verbatim>\<open>finally\<close> callback.
\<close>

section \<open>State and operations\<close>

record 't workers =
  limit :: rat
  queue :: "'t list"
  active :: nat
  running :: bool
  parallel :: bool
  started :: "'t list"
  inflight :: "'t list"
  failures :: "'t list"

definition default_limit :: "nat \<Rightarrow> rat" where
  "default_limit cpus = of_nat (max 1 cpus)"

definition boot :: "nat \<Rightarrow> 't workers" where
  "boot cpus = \<lparr> limit = default_limit cpus, queue = [], active = 0, running = False,
     parallel = True, started = [], inflight = [], failures = [] \<rparr>"

definition slots :: "'t workers \<Rightarrow> rat" where
  "slots s = (if parallel s then limit s else min (limit s) 1)"

function pump :: "'t workers \<Rightarrow> 't workers" where
  "pump s =
     (case queue s of
        [] \<Rightarrow> s
      | task # rest \<Rightarrow>
          if running s \<and> of_nat (active s) < slots s
          then pump (s\<lparr> queue := rest, active := active s + 1,
                        started := started s @ [task], inflight := inflight s @ [task] \<rparr>)
          else s)"
  by auto
termination
  by (relation "measure (\<lambda>s. length (queue s))") auto

declare pump.simps [simp del]

definition pump_if_running :: "'t workers \<Rightarrow> 't workers" where
  "pump_if_running s = (if running s then pump s else s)"

definition addTask :: "'t \<Rightarrow> 't workers \<Rightarrow> 't workers" where
  "addTask task s = pump_if_running (s\<lparr> queue := queue s @ [task] \<rparr>)"

definition setWorkersLimit :: "rat \<Rightarrow> 't workers \<Rightarrow> 't workers" where
  "setWorkersLimit value s = pump_if_running (s\<lparr> limit := value \<rparr>)"

definition setParallelism :: "bool \<Rightarrow> 't workers \<Rightarrow> 't workers" where
  "setParallelism value s = pump_if_running (s\<lparr> parallel := value \<rparr>)"

definition runWorkers :: "'t workers \<Rightarrow> 't workers" where
  "runWorkers s = (if running s then s else pump (s\<lparr> running := True \<rparr>))"

definition stopWorkers :: "'t workers \<Rightarrow> 't workers" where
  "stopWorkers s = s\<lparr> running := False \<rparr>"

definition restartWorkers :: "'t workers \<Rightarrow> 't workers" where
  "restartWorkers s = runWorkers (stopWorkers s)"

definition resetWorkers :: "nat \<Rightarrow> 't workers \<Rightarrow> 't workers" where
  "resetWorkers cpus s =
     (stopWorkers s)\<lparr> queue := [], limit := default_limit cpus, parallel := True \<rparr>"

text \<open>The continuation of a dispatched task: \<^verbatim>\<open>catch\<close> logs a failure, \<^verbatim>\<open>finally\<close>
  gives the slot back and pulls the next task.\<close>

definition settle :: "'t \<Rightarrow> bool \<Rightarrow> 't workers \<Rightarrow> 't workers" where
  "settle task ok s =
     pump_if_running
       (s\<lparr> active := active s - 1, inflight := remove1 task (inflight s),
           failures := (if ok then failures s else failures s @ [task]) \<rparr>)"

datatype 't worker_event =
    AddTask 't
  | SetLimit rat
  | SetParallelism bool
  | Run
  | Stop
  | Restart
  | Reset
  | Settle 't bool

inductive worker_step :: "nat \<Rightarrow> 't workers \<Rightarrow> 't worker_event \<Rightarrow> 't workers \<Rightarrow> bool"
  for cpus :: nat where
  "worker_step cpus s (AddTask t) (addTask t s)"
| "worker_step cpus s (SetLimit v) (setWorkersLimit v s)"
| "worker_step cpus s (SetParallelism b) (setParallelism b s)"
| "worker_step cpus s Run (runWorkers s)"
| "worker_step cpus s Stop (stopWorkers s)"
| "worker_step cpus s Restart (restartWorkers s)"
| "worker_step cpus s Reset (resetWorkers cpus s)"
| "t \<in> set (inflight s) \<Longrightarrow> worker_step cpus s (Settle t ok) (settle t ok s)"

inductive_cases worker_stepE: "worker_step cpus s e t"

section \<open>The dispatch loop\<close>

lemma pump_frame [simp]:
  "limit (pump s) = limit s" "running (pump s) = running s" "parallel (pump s) = parallel s"
  "failures (pump s) = failures s"
  by (induction s rule: pump.induct; subst pump.simps; simp split: list.split)+

lemma slots_pump [simp]: "slots (pump s) = slots s"
  by (simp add: slots_def)

lemma slots_update [simp]:
  "slots (s\<lparr> queue := q \<rparr>) = slots s" "slots (s\<lparr> active := n \<rparr>) = slots s"
  "slots (s\<lparr> started := q \<rparr>) = slots s" "slots (s\<lparr> inflight := q \<rparr>) = slots s"
  "slots (s\<lparr> failures := q \<rparr>) = slots s" "slots (s\<lparr> running := b \<rparr>) = slots s"
  by (simp_all add: slots_def)

text \<open>The loop dispatches a prefix of the queue, and only while a slot is free.\<close>

lemma pump_dispatch:
  "\<exists>k \<le> length (queue s).
     pump s = s\<lparr> queue := drop k (queue s), active := active s + k,
                 started := started s @ take k (queue s),
                 inflight := inflight s @ take k (queue s) \<rparr> \<and>
     (k = 0 \<or> running s \<and> of_nat (active s + k) < slots s + 1)"
proof (induction s rule: pump.induct)
  case (1 s)
  show ?case
  proof (cases "queue s = [] \<or> \<not> (running s \<and> of_nat (active s) < slots s)")
    case True
    then have "pump s = s" by (subst pump.simps) (auto split: list.split)
    then show ?thesis by (intro exI [of _ 0]) simp
  next
    case False
    then obtain task rest where q: "queue s = task # rest"
      and g: "running s" "of_nat (active s) < slots s"
      by (cases "queue s") auto
    let ?s = "s\<lparr> queue := rest, active := active s + 1, started := started s @ [task],
                 inflight := inflight s @ [task] \<rparr>"
    have p: "pump s = pump ?s"
      by (subst pump.simps) (simp add: q g)
    obtain k where "k \<le> length rest"
      and "pump ?s = ?s\<lparr> queue := drop k rest, active := active ?s + k,
                 started := started ?s @ take k rest, inflight := inflight ?s @ take k rest \<rparr>"
      and "k = 0 \<or> of_nat (active ?s + k) < slots s + 1"
      using 1 [OF q] g by auto
    then show ?thesis
      unfolding p using g by (intro exI [of _ "Suc k"]) (auto simp: q)
  qed
qed

lemma pump_order: "started (pump s) @ queue (pump s) = started s @ queue s"
  using pump_dispatch [of s] by auto

lemma pump_active: "active s = length (inflight s) \<Longrightarrow> active (pump s) = length (inflight (pump s))"
  using pump_dispatch [of s] by (auto simp: min_def)

lemma pump_capacity:
  "active (pump s) = active s \<or> of_nat (active (pump s)) < slots s + 1"
  using pump_dispatch [of s] by auto

lemma pump_sum:
  "length (inflight (pump s)) + length (queue (pump s)) = length (inflight s) + length (queue s)"
  using pump_dispatch [of s] by (auto simp: min_def)

lemma pump_inflight: "prefix (inflight s) (inflight (pump s))"
  using pump_dispatch [of s] by auto

lemma pump_exhausts:
  "running s \<Longrightarrow> queue (pump s) = [] \<or> \<not> of_nat (active (pump s)) < slots s"
proof (induction s rule: pump.induct)
  case (1 s)
  then show ?case
    by (subst (1 2) pump.simps) (auto split: list.split)
qed

lemma pump_no_slot: "slots s \<le> 0 \<Longrightarrow> pump s = s"
  by (subst pump.simps)
     (auto split: list.split simp: not_less intro: order_trans [of _ 0])

lemma pump_stopped: "\<not> running s \<Longrightarrow> pump s = s"
  by (subst pump.simps) (auto split: list.split)

lemma pump_if_running_alt: "pump_if_running s = pump s"
  by (simp add: pump_if_running_def pump_stopped)

lemmas worker_ops = addTask_def setWorkersLimit_def setParallelism_def runWorkers_def
  stopWorkers_def restartWorkers_def resetWorkers_def settle_def pump_if_running_alt

section \<open>Invariants of the pool\<close>

definition worker_inv :: "'t workers \<Rightarrow> bool" where
  "worker_inv s \<longleftrightarrow>
     active s = length (inflight s) \<and>
     (running s \<longrightarrow> queue s = [] \<or> slots s \<le> of_nat (active s))"

lemma worker_inv_pump: "active s = length (inflight s) \<Longrightarrow> worker_inv (pump s)"
  using pump_exhausts [of s] by (auto simp: worker_inv_def pump_active not_less)

lemma worker_step_inv: "worker_inv s \<Longrightarrow> worker_step cpus s e t \<Longrightarrow> worker_inv t"
  by (erule worker_stepE)
     (auto simp: worker_ops length_remove1 intro!: worker_inv_pump;
      auto simp: worker_inv_def)+

interpretation wk: event_system "worker_step cpus" "boot cpus" worker_inv for cpus
proof
  show "worker_inv (boot cpus)"
    by (simp add: worker_inv_def boot_def)
qed (rule worker_step_inv)

text \<open>The events that leave the concurrency bound alone.\<close>

fun keeps_bound :: "'t worker_event \<Rightarrow> bool" where
  "keeps_bound (SetLimit v) = False"
| "keeps_bound (SetParallelism b) = False"
| "keeps_bound Reset = False"
| "keeps_bound _ = True"

definition slot_cap :: "'t workers \<Rightarrow> nat" where
  "slot_cap s = nat \<lceil>slots s\<rceil>"

lemma keeps_bound_slots: "worker_step cpus s e t \<Longrightarrow> keeps_bound e \<Longrightarrow> slots t = slots s"
  by (erule worker_stepE) (auto simp: worker_ops)

lemma slot_cap_bound: "of_nat n < slots s + 1 \<Longrightarrow> n \<le> slot_cap s"
  unfolding slot_cap_def by linarith

lemma pump_cap: "active s \<le> slot_cap s \<Longrightarrow> active (pump s) \<le> slot_cap s"
  using pump_capacity [of s] slot_cap_bound by fastforce

lemma slot_cap_cong: "slots s = slots t \<Longrightarrow> slot_cap s = slot_cap t"
  by (simp add: slot_cap_def)

lemma pump_cap_via:
  "active s \<le> slot_cap s \<Longrightarrow> slots s = slots t \<Longrightarrow> active (pump s) \<le> slot_cap t"
  using pump_cap [of s] by (simp add: slot_cap_def)

interpretation wk_cap: capped_system "worker_step cpus" "boot cpus" worker_inv
  active slot_cap keeps_bound for cpus
proof
  fix s t :: "'t workers" and e
  assume st: "worker_step cpus s e t" and calm: "keeps_bound e"
  have sl: "slots t = slots s" by (rule keeps_bound_slots [OF st calm])
  show "slot_cap t = slot_cap s" by (rule slot_cap_cong [OF sl])
  assume le: "active s \<le> slot_cap s"
  show "active t \<le> slot_cap t"
    using st calm
    by (cases rule: worker_step.cases)
       (use le in \<open>auto simp: worker_ops slot_cap_def intro!: pump_cap_via [unfolded slot_cap_def]\<close>)
qed

fun submitted :: "'t worker_event \<Rightarrow> 't list" where
  "submitted (AddTask t) = [t]"
| "submitted _ = []"

lemma not_reset_order:
  "worker_step cpus s e t \<Longrightarrow> e \<noteq> Reset \<Longrightarrow>
   started t @ queue t = started s @ queue s @ submitted e"
  by (erule worker_stepE) (auto simp: worker_ops pump_order)

interpretation wk_fifo: fifo_system "worker_step cpus" started queue submitted
  "\<lambda>e. e \<noteq> Reset" for cpus
proof
  fix s t :: "'t workers" and e
  assume st: "worker_step cpus s e t"
  { assume "e \<noteq> Reset"
    with st show "started t @ queue t = started s @ queue s @ submitted e"
      by (rule not_reset_order) }
  show "subseq (started t @ queue t) (started s @ queue s @ submitted e)"
  proof (cases "e = Reset")
    case True
    with st show ?thesis by (auto elim!: worker_stepE simp: worker_ops)
  next
    case False
    then show ?thesis using not_reset_order [OF st] by simp
  qed
qed

section \<open>Properties\<close>

text \<open>A dispatch happens only into a free slot: when the loop starts a task the counter ends
  within the bound, and when it starts none the counter does not move.\<close>

lemma pump_dispatches:
  "started (pump s) \<noteq> started s \<Longrightarrow> active (pump s) \<le> slot_cap (pump s)"
  "started (pump s) = started s \<Longrightarrow> active (pump s) = active s"
proof -
  obtain k where k: "k \<le> length (queue s)" "active (pump s) = active s + k"
      "started (pump s) = started s @ take k (queue s)"
      "k = 0 \<or> of_nat (active s + k) < slots s + 1"
    using pump_dispatch [of s] by auto
  show "active (pump s) \<le> slot_cap (pump s)" if "started (pump s) \<noteq> started s"
    using k that slot_cap_bound [of "active s + k" "pump s"] by auto
  show "active (pump s) = active s" if "started (pump s) = started s"
    using k that by auto
qed

lemma pump_dispatches_from:
  assumes "started s = started r" "active s \<le> active r"
  shows "if started (pump s) = started r then active (pump s) \<le> active r
         else active (pump s) \<le> slot_cap (pump s)"
  using pump_dispatches [of s] assms by auto

lemma step_dispatches:
  assumes "worker_step cpus s e t"
  shows "if started t = started s then active t \<le> active s else active t \<le> slot_cap t"
  using assms
  by (rule worker_stepE)
     (simp_all only: worker_ops, (rule pump_dispatches_from | simp add: pump_dispatches_from)+)

text \<open>
  C1: The concurrency bound.  After any history whatever, the counter \<^verbatim>\<open>active\<close> is the number
  of dispatched tasks that have not settled.  An event of any kind, a changed limit or mode and a
  reset included, that dispatches a task leaves no more tasks in flight than the slots it ends
  with (the limit in parallel mode, at most one in sequential mode); an event that dispatches
  none leaves no more in flight than before.  Lowering the limit cancels nothing, so more tasks
  than slots can be in flight then; but from a state whose in-flight tasks fit the slots, no
  interleaving of submissions, starts, stops, restarts and settled tasks ever exceeds them.
\<close>

theorem workers_bounded:
  assumes "trace (worker_step cpus) (boot cpus) es s" "trace (worker_step cpus) s fs t"
  shows "active t = length (inflight t) \<and>
    (active s \<le> nat \<lceil>slots s\<rceil> \<and> list_all keeps_bound fs \<longrightarrow> active t \<le> nat \<lceil>slots s\<rceil>) \<and>
    (\<forall>e u. worker_step cpus t e u \<longrightarrow>
      (if started u = started t then active u \<le> active t else active u \<le> nat \<lceil>slots u\<rceil>))"
proof (intro conjI allI impI)
  have i: "worker_inv s" by (rule wk.reachable_inv [OF assms(1)])
  have "worker_inv t" by (rule wk.trace_keeps [OF assms(2) i])
  then show "active t = length (inflight t)" by (simp add: worker_inv_def)
  show "active t \<le> nat \<lceil>slots s\<rceil>" if "active s \<le> nat \<lceil>slots s\<rceil> \<and> list_all keeps_bound fs"
    using wk_cap.capped_trace [OF assms(2) i] that by (simp add: slot_cap_def)
  show "if started u = started t then active u \<le> active t else active u \<le> nat \<lceil>slots u\<rceil>"
    if "worker_step cpus t e u" for e u
    using step_dispatches [OF that] by (simp only: slot_cap_def)
qed

lemma two_slots_run:
  "trace (worker_step 1) (boot 1) [SetLimit 2, Run] (boot 1\<lparr> limit := 2, running := True \<rparr>)"
proof -
  have "trace (worker_step 1) (boot 1) ([SetLimit 2] @ [Run])
      (runWorkers (setWorkersLimit 2 (boot 1)))"
    by (rule trace_append [OF trace_single trace_single]) (rule worker_step.intros)+
  then show ?thesis
    by (simp add: runWorkers_def setWorkersLimit_def pump_if_running_def boot_def pump.simps)
qed

theorem workers_bounded_witness:
  "active (addTask (7::nat) (boot 1\<lparr> limit := 2, running := True \<rparr>)) \<le> nat \<lceil>2::rat\<rceil> \<and>
   active (setWorkersLimit 0 (addTask (7::nat) (boot 1\<lparr> limit := 2, running := True \<rparr>))) \<le> 1"
proof -
  let ?s = "boot 1\<lparr> limit := 2, running := True \<rparr> :: nat workers"
  let ?t = "addTask 7 ?s"
  have a: "trace (worker_step 1) ?s [AddTask 7] ?t"
    by (rule trace_single) (rule worker_step.intros)
  have one: "active ?t \<le> nat \<lceil>slots ?s\<rceil>"
    using workers_bounded [OF two_slots_run a] by (simp add: boot_def)
  have "worker_step 1 ?t (SetLimit 0) (setWorkersLimit 0 ?t)"
    by (rule worker_step.intros)
  then have "if started (setWorkersLimit 0 ?t) = started ?t
      then active (setWorkersLimit 0 ?t) \<le> active ?t
      else active (setWorkersLimit 0 ?t) \<le> nat \<lceil>slots (setWorkersLimit 0 ?t)\<rceil>"
    using workers_bounded [OF two_slots_run a] by blast
  then have "active (setWorkersLimit 0 ?t) \<le> 1"
    by (simp add: addTask_def setWorkersLimit_def pump_if_running_def boot_def pump.simps
        slots_def)
  with one show ?thesis by (simp add: slots_def boot_def)
qed

text \<open>
  Submission order.  Along every run from the initial state the tasks dispatched, followed by
  those still queued, are a subsequence of the tasks submitted, in submission order; and as
  long as the pool is not reset they are exactly the tasks submitted: none is lost,
  duplicated or overtaken, whatever the limits and modes.
\<close>

theorem workers_fifo:
  assumes "trace (worker_step cpus) (boot cpus) es s"
  shows "subseq (started s @ queue s) (concat (map submitted es)) \<and>
    (Reset \<in> set es \<or> started s @ queue s = concat (map submitted es))"
  using wk_fifo.fifo_subseq [OF assms] wk_fifo.fifo_order [OF assms]
  by (auto simp: boot_def list_all_iff)

theorem workers_fifo_witness:
  "queue (addTask (7::nat) (boot 1)) = [7]"
proof -
  have "trace (worker_step 1) (boot 1) [AddTask 7] (addTask (7::nat) (boot 1))"
    by (rule trace_single) (rule worker_step.intros)
  from workers_fifo [OF this] show ?thesis
    by (simp add: addTask_def pump_if_running_def boot_def)
qed

lemma settle_count:
  assumes "worker_inv s" "running s" "worker_step cpus s (Settle x ok) t"
  shows "Suc (length (inflight t) + length (queue t)) = length (inflight s) + length (queue s) \<and>
    running t \<and> slots t = slots s"
proof -
  from assms(3) have x: "x \<in> set (inflight s)" and t: "t = settle x ok s"
    by (auto elim: worker_stepE)
  let ?u = "s\<lparr> active := active s - 1, inflight := remove1 x (inflight s),
       failures := (if ok then failures s else failures s @ [x]) \<rparr>"
  have "0 < length (inflight s)" using x by (cases "inflight s") auto
  then show ?thesis
    using x pump_sum [of ?u] assms(2) unfolding t settle_def pump_if_running_alt
    by (simp add: length_remove1)
qed

text \<open>
  C2: Work conservation and drain.  In every reachable state of a running pool either nothing is
  queued or every slot is taken; so when no task is in flight and there is a slot at all, the
  queue is empty, and settling tasks one after another from a reachable running state
  takes exactly as many steps as tasks were in flight or queued, however they are chosen.
\<close>

theorem workers_drain:
  assumes "trace (worker_step cpus) (boot cpus) es s" "running s" "0 < slots s"
    and "trace (worker_step cpus) s fs t" "list_all (\<lambda>e. \<exists>x ok. e = Settle x ok) fs"
  shows "length fs + length (inflight t) + length (queue t) = length (inflight s) + length (queue s) \<and>
    (queue t = [] \<or> slots t \<le> of_nat (active t)) \<and>
    (inflight t = [] \<longrightarrow> queue t = [])"
proof -
  have i: "worker_inv s" by (rule wk.reachable_inv [OF assms(1)])
  have "length fs + length (inflight t) + length (queue t) = length (inflight s) + length (queue s)
      \<and> running t \<and> slots t = slots s"
    using assms(4,5,2) i
  proof (induction rule: trace.induct)
    case (trace_snoc s fs t e u)
    then obtain x ok where e: "e = Settle x ok" by auto
    have "worker_inv t"
      using wk.trace_keeps [OF trace_snoc.hyps(1)] trace_snoc.prems by simp
    then show ?case
      using settle_count [of t cpus x ok u] trace_snoc e by auto
  qed simp
  moreover have "worker_inv t" by (rule wk.trace_keeps [OF assms(4) i])
  ultimately show ?thesis
    using assms(3) by (auto simp: worker_inv_def)
qed

theorem workers_drain_witness:
  "length (inflight (boot 1 :: nat workers)) + length (queue (boot 1 :: nat workers)) = 0"
  using workers_drain [OF two_slots_run _ _ trace_Nil]
  by (simp add: boot_def slots_def)

lemma pump_sequential:
  assumes "\<not> parallel s" "active s = length (inflight s)" "started (pump s) \<noteq> started s"
  shows "running s \<and> inflight s = [] \<and> queue s \<noteq> [] \<and>
    pump s = s\<lparr> queue := tl (queue s), active := 1, started := started s @ [hd (queue s)],
               inflight := [hd (queue s)] \<rparr>"
proof -
  obtain k where k: "k \<le> length (queue s)"
    "pump s = s\<lparr> queue := drop k (queue s), active := active s + k,
        started := started s @ take k (queue s), inflight := inflight s @ take k (queue s) \<rparr>"
    "k = 0 \<or> running s \<and> of_nat (active s + k) < slots s + 1"
    using pump_dispatch [of s] by blast
  have "k \<noteq> 0" using assms(3) k(2) by (cases k) auto
  then have r: "running s" and b: "of_nat (active s + k) < slots s + 1" using k(3) by auto
  have "of_nat (active s + k) < (2::rat)" using b assms(1) by (auto simp: slots_def)
  then have "active s + k < 2" using of_nat_less_iff [of _ 2, where 'a = rat] by simp
  then have "active s = 0" "k = 1" using \<open>k \<noteq> 0\<close> by auto
  moreover obtain x xs where "queue s = x # xs" using k(1) \<open>k = 1\<close> by (cases "queue s") auto
  ultimately show ?thesis using k(2) r assms(2) by simp
qed

text \<open>
  Sequential mode and stopping.  A step that dispatches a task in sequential mode leaves
  exactly that task in flight; a step from a stopped pool other than
  \<^verbatim>\<open>runWorkers\<close> or \<^verbatim>\<open>restartWorkers\<close> dispatches nothing, and no step ever
  cancels a task: the tasks in flight stay in flight until they settle.
\<close>

theorem workers_sequential:
  assumes "trace (worker_step cpus) (boot cpus) es s" "worker_step cpus s e t"
  shows "(started t = started s \<or> (running t \<and>
      (running s \<or> e \<in> {Run, Restart}) \<and>
      (parallel t \<or> (\<exists>x. started t = started s @ [x] \<and> inflight t = [x])))) \<and>
    (prefix (inflight s) (inflight t) \<or>
      (\<exists>x ok. e = Settle x ok \<and> prefix (remove1 x (inflight s)) (inflight t)))"
proof -
  have i: "active s = length (inflight s)"
    using wk.reachable_inv [OF assms(1)] by (simp add: worker_inv_def)
  have seq: "active u = length (inflight u) \<Longrightarrow> started (pump u) = started u \<or> running u \<and>
      (parallel u \<or> (\<exists>x. started (pump u) = started u @ [x] \<and> inflight (pump u) = [x]))"
    for u :: "'a workers"
    using pump_sequential [of u] pump_stopped [of u] by fastforce
  have act: "active s - Suc 0 = length (remove1 x (inflight s))" if "x \<in> set (inflight s)" for x
    using that i by (simp add: length_remove1)
  have "started t = started s \<or> (running t \<and> (running s \<or> e \<in> {Run, Restart}) \<and>
      (parallel t \<or> (\<exists>x. started t = started s @ [x] \<and> inflight t = [x])))"
    using assms(2)
  proof (cases rule: worker_step.cases)
    case (8 x ok)
    then show ?thesis
      using seq [of "s\<lparr> active := active s - 1, inflight := remove1 x (inflight s),
           failures := (if ok then failures s else failures s @ [x]) \<rparr>"] act [of x]
      by (auto simp: worker_ops)
  next
    case (1 x)
    then show ?thesis using seq [of "s\<lparr> queue := queue s @ [x] \<rparr>"] i by (auto simp: worker_ops)
  next
    case (2 v)
    then show ?thesis using seq [of "s\<lparr> limit := v \<rparr>"] i by (auto simp: worker_ops)
  next
    case (3 v)
    then show ?thesis using seq [of "s\<lparr> parallel := v \<rparr>"] i by (auto simp: worker_ops)
  next
    case 4
    then show ?thesis using seq [of "s\<lparr> running := True \<rparr>"] i by (auto simp: worker_ops)
  next
    case 6
    then show ?thesis
      using seq [of "s\<lparr> running := True \<rparr>"] i by (auto simp: worker_ops)
  qed (auto simp: worker_ops)
  moreover have "prefix (inflight s) (inflight t) \<or>
      (\<exists>x ok. e = Settle x ok \<and> prefix (remove1 x (inflight s)) (inflight t))"
    using assms(2) by (cases rule: worker_step.cases)
      (auto simp: worker_ops intro: pump_inflight [THEN prefix_order.trans [rotated]]
        pump_inflight [of "_\<lparr> queue := _ \<rparr>", simplified] pump_inflight [of "_\<lparr> limit := _ \<rparr>", simplified]
        pump_inflight [of "_\<lparr> parallel := _ \<rparr>", simplified] pump_inflight [of "_\<lparr> running := _ \<rparr>", simplified]
        pump_inflight [of "_\<lparr> active := _, inflight := _, failures := _ \<rparr>", simplified])
  ultimately show ?thesis by blast
qed

theorem workers_sequential_witness:
  "started (stopWorkers (boot 1)) = started (boot 1 :: nat workers)"
  using workers_sequential [OF trace_Nil worker_step.intros(5), of 1]
  by (auto simp: stopWorkers_def)

end
