(* ===== verification/Jobs.thy ===== *)
theory Jobs
  imports JS_Prelude
begin

text \<open>
  The interval and cron scheduler of \<^verbatim>\<open>tools/jobs/jobs.ts\<close> with the test-mode
  flag of \<^verbatim>\<open>tools/utilities/mode.ts\<close>.

  A \<^verbatim>\<open>JobControl\<close> is shared between the map of its instance and the closures
  of its timer and of its running execution, so controls live in a store
  \<^verbatim>\<open>objs\<close> addressed by reference and the map \<^verbatim>\<open>#controls\<close> (in insertion
  order) holds references.  The event loop supplies three events: a timer tick
  with the clock readings the closure makes, the job's promise settling, and the
  timeout of an execution.  A timer handle is represented by its period.
  \<^verbatim>\<open>runs\<close> and \<^verbatim>\<open>errlog\<close> are histories: the executions started and
  the failures written to the console.
\<close>

section \<open>Data\<close>

text \<open>A trigger component as JavaScript sees it: missing, null, or a number.\<close>

datatype component = Omitted | NullC | Num int

record cron_trigger =
  t_year :: component
  t_month :: component
  t_day :: component
  t_hour :: int
  t_minute :: int
  t_second :: int

record date =
  fullYear :: int
  month0 :: int
  dayOfMonth :: int
  hours :: int
  minutes :: int
  seconds :: int

datatype job_kind = Interval | Cron

record job_status =
  st_id :: jstr
  st_kind :: job_kind
  st_paused :: bool
  st_stopped :: bool
  st_running :: bool

record control =
  cid :: jstr
  kind :: job_kind
  timerIntervalMs :: rat
  paused :: bool
  stopped :: bool
  running :: bool
  timer :: "rat option"
  timeoutMs :: "rat option"
  trigger :: "cron_trigger option"
  gapMs :: rat
  lastFired :: int

record jobs =
  controls :: "(jstr \<times> nat) list"
  objs :: "nat \<Rightarrow> control"
  next_ref :: nat
  started :: bool
  execs :: "(nat \<times> bool) list"
  runs :: "nat list"
  errlog :: "jstr list"

datatype jobs_error = DuplicateJob jstr

definition CRON_RESOLUTION_MS :: rat where
  "CRON_RESOLUTION_MS = 1000"

definition interval_control :: "jstr \<Rightarrow> rat \<Rightarrow> rat option \<Rightarrow> control" where
  "interval_control jid ival tmo =
     \<lparr> cid = jid, kind = Interval, timerIntervalMs = ival, paused = False, stopped = False,
       running = False, timer = None, timeoutMs = tmo, trigger = None, gapMs = 0, lastFired = 0 \<rparr>"

definition cron_control :: "jstr \<Rightarrow> cron_trigger \<Rightarrow> rat \<Rightarrow> control" where
  "cron_control jid tr ival =
     \<lparr> cid = jid, kind = Cron, timerIntervalMs = CRON_RESOLUTION_MS, paused = False,
       stopped = False, running = False, timer = None, timeoutMs = None, trigger = Some tr,
       gapMs = ival, lastFired = 0 \<rparr>"

definition new_jobs :: jobs where
  "new_jobs = \<lparr> controls = [], objs = (\<lambda>_. interval_control [] 0 None), next_ref = 0,
     started = False, execs = [], runs = [], errlog = [] \<rparr>"

fun component_ok :: "component \<Rightarrow> int \<Rightarrow> bool" where
  "component_ok Omitted n = True"
| "component_ok NullC n = False"
| "component_ok (Num m) n = (n = m)"

definition matchesTrigger :: "date \<Rightarrow> cron_trigger \<Rightarrow> bool" where
  "matchesTrigger d tr =
     (if \<not> component_ok (t_year tr) (fullYear d) then False
      else if \<not> component_ok (t_month tr) (month0 d + 1) then False
      else if \<not> component_ok (t_day tr) (dayOfMonth d) then False
      else hours d = t_hour tr \<and> minutes d = t_minute tr \<and> seconds d = t_second tr)"

section \<open>Operations of one instance\<close>

definition with_obj :: "nat \<Rightarrow> (control \<Rightarrow> control) \<Rightarrow> jobs \<Rightarrow> jobs" where
  "with_obj r f s = s\<lparr> objs := (objs s)(r := f (objs s r)) \<rparr>"

definition arm_control :: "control \<Rightarrow> control" where
  "arm_control c = (if timer c \<noteq> None then c else c\<lparr> timer := Some (timerIntervalMs c) \<rparr>)"

definition disarm_control :: "control \<Rightarrow> control" where
  "disarm_control c = (if timer c \<noteq> None then c\<lparr> timer := None \<rparr> else c)"

definition arm :: "nat \<Rightarrow> jobs \<Rightarrow> jobs" where
  "arm r s = with_obj r arm_control s"

definition disarm :: "nat \<Rightarrow> jobs \<Rightarrow> jobs" where
  "disarm r s = with_obj r disarm_control s"

definition register :: "bool \<Rightarrow> control \<Rightarrow> jobs \<Rightarrow> jobs" where
  "register mode c s =
     (let r = next_ref s;
          s' = s\<lparr> objs := (objs s)(r := c), next_ref := r + 1,
                  controls := AList.update (cid c) r (controls s) \<rparr>
      in if started s' \<and> \<not> mode then arm r s' else s')"

definition registerInterval :: "bool \<Rightarrow> jstr \<Rightarrow> rat \<Rightarrow> rat option \<Rightarrow> jobs \<Rightarrow> jobs" where
  "registerInterval mode jid ival tmo s = register mode (interval_control jid ival tmo) s"

definition registerCron :: "bool \<Rightarrow> jstr \<Rightarrow> cron_trigger \<Rightarrow> rat \<Rightarrow> jobs \<Rightarrow> jobs" where
  "registerCron mode jid tr ival s = register mode (cron_control jid tr ival) s"

text \<open>The identifier \<^verbatim>\<open>uuid\<close> is what \<^verbatim>\<open>crypto.randomUUID()\<close> returned.\<close>

definition job :: "bool \<Rightarrow> jstr \<Rightarrow> rat \<Rightarrow> rat option \<Rightarrow> jobs \<Rightarrow> jstr \<times> jobs" where
  "job mode uuid ival tmo s = (uuid, registerInterval mode uuid ival tmo s)"

definition jobWithID :: "bool \<Rightarrow> jstr \<Rightarrow> rat \<Rightarrow> rat option \<Rightarrow> jobs \<Rightarrow> jobs_error + jobs" where
  "jobWithID mode jid ival tmo s =
     (if map_of (controls s) jid \<noteq> None then Inl (DuplicateJob jid)
      else Inr (registerInterval mode jid ival tmo s))"

definition cronJob :: "bool \<Rightarrow> jstr \<Rightarrow> cron_trigger \<Rightarrow> rat \<Rightarrow> jobs \<Rightarrow> jstr \<times> jobs" where
  "cronJob mode uuid tr ival s = (uuid, registerCron mode uuid tr ival s)"

definition cronJobWithID :: "bool \<Rightarrow> jstr \<Rightarrow> cron_trigger \<Rightarrow> rat \<Rightarrow> jobs \<Rightarrow> jobs_error + jobs" where
  "cronJobWithID mode jid tr ival s =
     (if map_of (controls s) jid \<noteq> None then Inl (DuplicateJob jid)
      else Inr (registerCron mode jid tr ival s))"

definition startJobs :: "bool \<Rightarrow> jobs \<Rightarrow> jobs" where
  "startJobs mode s =
     (if started s \<or> mode then s
      else fold arm (map snd (controls s)) (s\<lparr> started := True \<rparr>))"

definition stopTimers :: "jobs \<Rightarrow> jobs" where
  "stopTimers s = (fold disarm (map snd (controls s)) s)\<lparr> started := False \<rparr>"

definition restartJobs :: "bool \<Rightarrow> jobs \<Rightarrow> jobs" where
  "restartJobs mode s = startJobs mode (stopTimers s)"

definition stopJob :: "jstr \<Rightarrow> jobs \<Rightarrow> jobs" where
  "stopJob jid s =
     (case map_of (controls s) jid of
        None \<Rightarrow> s
      | Some r \<Rightarrow>
          (disarm r (with_obj r (\<lambda>c. c\<lparr> stopped := True \<rparr>) s))
            \<lparr> controls := AList.delete jid (controls s) \<rparr>)"

definition pauseJob :: "jstr \<Rightarrow> jobs \<Rightarrow> jobs" where
  "pauseJob jid s =
     (case map_of (controls s) jid of
        None \<Rightarrow> s
      | Some r \<Rightarrow> with_obj r (\<lambda>c. c\<lparr> paused := True \<rparr>) s)"

definition resumeJob :: "jstr \<Rightarrow> jobs \<Rightarrow> jobs" where
  "resumeJob jid s =
     (case map_of (controls s) jid of
        None \<Rightarrow> s
      | Some r \<Rightarrow> with_obj r (\<lambda>c. c\<lparr> paused := False \<rparr>) s)"

definition status_of :: "control \<Rightarrow> job_status" where
  "status_of c = \<lparr> st_id = cid c, st_kind = kind c, st_paused = paused c,
     st_stopped = stopped c, st_running = running c \<rparr>"

definition checkStatus :: "jobs \<Rightarrow> job_status list" where
  "checkStatus s = map (\<lambda>(_, r). status_of (objs s r)) (controls s)"

definition destroy :: "jobs \<Rightarrow> jobs" where
  "destroy s =
     (let s' = stopTimers s
      in fold stopJob (map (\<lambda>(_, r). cid (objs s' r)) (controls s')) s')"

section \<open>Events of the event loop\<close>

definition execute :: "nat \<Rightarrow> jobs \<Rightarrow> jobs" where
  "execute r s =
     (let c = objs s r
      in if paused c \<or> stopped c \<or> running c then s
         else (with_obj r (\<lambda>c. c\<lparr> running := True \<rparr>) s)
                \<lparr> execs := execs s @ [(r, False)], runs := runs s @ [r] \<rparr>)"

text \<open>
  One tick: \<^verbatim>\<open>d\<close> is the local date, \<^verbatim>\<open>n1\<close> and \<^verbatim>\<open>n2\<close> the two readings of
  \<^verbatim>\<open>Date.now()\<close>.
\<close>

definition tick :: "nat \<Rightarrow> date \<Rightarrow> int \<Rightarrow> int \<Rightarrow> jobs \<Rightarrow> jobs" where
  "tick r d n1 n2 s =
     (case trigger (objs s r) of
        None \<Rightarrow> execute r s
      | Some tr \<Rightarrow>
          if \<not> matchesTrigger d tr then s
          else if 0 < gapMs (objs s r) \<and> of_int (n1 - lastFired (objs s r)) < gapMs (objs s r) then s
          else execute r (with_obj r (\<lambda>c. c\<lparr> lastFired := n2 \<rparr>) s))"

definition has_timeout :: "control \<Rightarrow> bool" where
  "has_timeout c = (case timeoutMs c of None \<Rightarrow> False | Some t \<Rightarrow> 0 < t)"

text \<open>A timeout stops waiting and is logged; the running guard stays.\<close>

definition timeout_fires :: "nat \<Rightarrow> jobs \<Rightarrow> jobs" where
  "timeout_fires r s = s\<lparr> execs := map (\<lambda>(q, b). (q, b \<or> q = r)) (execs s),
                          errlog := errlog s @ [cid (objs s r)] \<rparr>"

definition settles :: "nat \<Rightarrow> bool \<Rightarrow> jobs \<Rightarrow> jobs" where
  "settles r ok s =
     (with_obj r (\<lambda>c. c\<lparr> running := False \<rparr>) s)
       \<lparr> execs := filter (\<lambda>(q, b). q \<noteq> r) (execs s),
         errlog := (if ok \<or> (r, True) \<in> set (execs s) then errlog s
                    else errlog s @ [cid (objs s r)]) \<rparr>"

datatype jobs_event =
    JobFresh jstr rat "rat option"
  | JobID jstr rat "rat option"
  | CronFresh jstr cron_trigger rat
  | CronID jstr cron_trigger rat
  | Start
  | Restart
  | StopJob jstr
  | Pause jstr
  | Resume jstr
  | Destroy
  | Tick nat date int int
  | Timeout nat
  | Settled nat bool

text \<open>
  Every step reads the test-mode flag afresh.  \<^verbatim>\<open>crypto.randomUUID()\<close> is
  assumed to return an identifier that is not in use.
\<close>

inductive jobs_step :: "jobs \<Rightarrow> jobs_event \<Rightarrow> jobs \<Rightarrow> bool" where
  "map_of (controls s) u = None \<Longrightarrow> jobs_step s (JobFresh u i t) (snd (job m u i t s))"
| "jobWithID m u i t s = Inr s' \<Longrightarrow> jobs_step s (JobID u i t) s'"
| "map_of (controls s) u = None \<Longrightarrow> jobs_step s (CronFresh u tr i) (snd (cronJob m u tr i s))"
| "cronJobWithID m u tr i s = Inr s' \<Longrightarrow> jobs_step s (CronID u tr i) s'"
| "jobs_step s Start (startJobs m s)"
| "jobs_step s Restart (restartJobs m s)"
| "jobs_step s (StopJob u) (stopJob u s)"
| "jobs_step s (Pause u) (pauseJob u s)"
| "jobs_step s (Resume u) (resumeJob u s)"
| "jobs_step s Destroy (destroy s)"
| "timer (objs s r) \<noteq> None \<Longrightarrow> jobs_step s (Tick r d n1 n2) (tick r d n1 n2 s)"
| "(r, False) \<in> set (execs s) \<Longrightarrow> has_timeout (objs s r) \<Longrightarrow>
     jobs_step s (Timeout r) (timeout_fires r s)"
| "r \<in> fst ` set (execs s) \<Longrightarrow> jobs_step s (Settled r ok) (settles r ok s)"

inductive_cases jobs_stepE: "jobs_step s e t"


section \<open>Frame lemmas\<close>

lemmas job_ops = job_def jobWithID_def cronJob_def cronJobWithID_def registerInterval_def
  registerCron_def register_def

lemma with_obj_simps [simp]:
  "controls (with_obj r f s) = controls s" "next_ref (with_obj r f s) = next_ref s"
  "started (with_obj r f s) = started s" "execs (with_obj r f s) = execs s"
  "runs (with_obj r f s) = runs s" "errlog (with_obj r f s) = errlog s"
  "objs (with_obj r f s) q = (if q = r then f (objs s r) else objs s q)"
  by (simp_all add: with_obj_def)

lemma control_simps [simp]:
  "cid (arm_control c) = cid c" "stopped (arm_control c) = stopped c"
  "running (arm_control c) = running c" "timer (arm_control c) \<noteq> None"
  "paused (arm_control c) = paused c" "trigger (arm_control c) = trigger c"
  "gapMs (arm_control c) = gapMs c" "lastFired (arm_control c) = lastFired c"
  "arm_control (arm_control c) = arm_control c"
  "cid (disarm_control c) = cid c" "stopped (disarm_control c) = stopped c"
  "running (disarm_control c) = running c" "timer (disarm_control c) = None"
  "paused (disarm_control c) = paused c" "trigger (disarm_control c) = trigger c"
  "gapMs (disarm_control c) = gapMs c" "lastFired (disarm_control c) = lastFired c"
  "disarm_control (disarm_control c) = disarm_control c"
  by (simp_all add: arm_control_def disarm_control_def)

lemma fold_with_obj:
  assumes "\<And>c. f (f c) = f c"
  shows "fold (\<lambda>r. with_obj r f) rs s =
    s\<lparr> objs := \<lambda>q. if q \<in> set rs then f (objs s q) else objs s q \<rparr>"
  by (induction rs arbitrary: s) (auto simp: with_obj_def assms fun_eq_iff intro!: ext)

lemma fold_arm:
  "fold arm rs s = s\<lparr> objs := \<lambda>q. if q \<in> set rs then arm_control (objs s q) else objs s q \<rparr>"
  using fold_with_obj [of arm_control rs s] by (simp add: arm_def [abs_def])

lemma fold_disarm:
  "fold disarm rs s = s\<lparr> objs := \<lambda>q. if q \<in> set rs then disarm_control (objs s q) else objs s q \<rparr>"
  using fold_with_obj [of disarm_control rs s] by (simp add: disarm_def [abs_def])

section \<open>The scheduler invariant\<close>

text \<open>
  The map holds live controls under their own identifiers, only listed controls are armed, and
  only while the instance is started; and the running flag of a control is set exactly
  while one execution of it is in flight.
\<close>

definition registry_ok :: "jobs \<Rightarrow> bool" where
  "registry_ok s \<longleftrightarrow>
     distinct (map fst (controls s)) \<and>
     (\<forall>(i, r) \<in> set (controls s). r < next_ref s \<and> cid (objs s r) = i \<and> \<not> stopped (objs s r))"

definition timers_ok :: "jobs \<Rightarrow> bool" where
  "timers_ok s \<longleftrightarrow>
     (\<forall>r. timer (objs s r) \<noteq> None \<longrightarrow> started s \<and> r \<in> snd ` set (controls s))"

definition execs_ok :: "jobs \<Rightarrow> bool" where
  "execs_ok s \<longleftrightarrow> distinct (map fst (execs s)) \<and>
     (\<forall>r. running (objs s r) \<longleftrightarrow> r \<in> fst ` set (execs s)) \<and>
     (\<forall>r \<ge> next_ref s. r \<notin> fst ` set (execs s))"

definition jobs_inv :: "jobs \<Rightarrow> bool" where
  "jobs_inv s \<longleftrightarrow> registry_ok s \<and> timers_ok s \<and> execs_ok s"

lemma controls_cid: "registry_ok s \<Longrightarrow> map_of (controls s) u = Some r \<Longrightarrow>
    cid (objs s r) = u \<and> r < next_ref s \<and> \<not> stopped (objs s r)"
  by (auto simp: registry_ok_def dest: map_of_SomeD)

lemma controls_mem:
  "registry_ok s \<Longrightarrow> (i, r) \<in> set (controls s) \<Longrightarrow>
   r < next_ref s \<and> cid (objs s r) = i \<and> \<not> stopped (objs s r)"
  unfolding registry_ok_def by (drule conjunct2, drule bspec, assumption) simp

lemma controls_ref_inj:
  "registry_ok s \<Longrightarrow> (i, r) \<in> set (controls s) \<Longrightarrow> (j, r) \<in> set (controls s) \<Longrightarrow> i = j"
  using controls_mem [of s i r] controls_mem [of s j r] by simp

lemma update_new: "map_of al u = None \<Longrightarrow> AList.update u v al = al @ [(u, v)]"
  by (induction al) (auto split: if_splits)

lemma register_inv:
  assumes "jobs_inv s" "map_of (controls s) (cid c) = None"
    and "\<not> running c" "\<not> stopped c" "timer c = None"
  shows "jobs_inv (register mode c s)"
proof -
  have fresh: "cid c \<notin> fst ` set (controls s)"
    using assms(2) by (simp add: map_of_eq_None_iff)
  have lt: "(i, r) \<in> set (controls s) \<Longrightarrow> r \<noteq> next_ref s" for i r
    using assms(1) by (auto simp: jobs_inv_def registry_ok_def)
  show ?thesis
    using assms fresh lt
    by (auto simp: jobs_inv_def registry_ok_def timers_ok_def execs_ok_def register_def Let_def
        arm_def update_new split: if_splits; force)
qed


lemma startJobs_inv: "jobs_inv s \<Longrightarrow> jobs_inv (startJobs mode s)"
  by (auto simp: jobs_inv_def registry_ok_def timers_ok_def execs_ok_def startJobs_def fold_arm
      split: if_splits)

lemma stopTimers_inv: "jobs_inv s \<Longrightarrow> jobs_inv (stopTimers s)"
  by (auto simp: jobs_inv_def registry_ok_def timers_ok_def execs_ok_def stopTimers_def fold_disarm
      split: if_splits)

lemma stopTimers_disarms: "jobs_inv s \<Longrightarrow> timer (objs (stopTimers s) r) = None"
  by (auto simp: jobs_inv_def timers_ok_def stopTimers_def fold_disarm)

lemma stopJob_inv:
  assumes "jobs_inv s"
  shows "jobs_inv (stopJob u s)"
proof (cases "map_of (controls s) u")
  case None
  then show ?thesis using assms by (simp add: stopJob_def)
next
  case (Some r)
  have inj: "(i, r) \<in> set (controls s) \<Longrightarrow> i = u" for i
    using assms Some controls_ref_inj [of s i r u] by (auto simp: jobs_inv_def dest: map_of_SomeD)
  have key: "(u, q) \<in> set (controls s) \<Longrightarrow> q = r" for q
    using assms Some by (auto simp: jobs_inv_def registry_ok_def)
  have del: "set (AList.delete u (controls s)) = {x \<in> set (controls s). fst x \<noteq> u}"
    by (auto simp: AList.delete_eq)
  have ks: "map fst (AList.delete u (controls s)) = [k \<leftarrow> map fst (controls s). k \<noteq> u]"
    by (simp add: AList.delete_eq filter_map o_def split_def eq_commute)
  have mem: "q \<in> snd ` {x \<in> set (controls s). fst x \<noteq> u} \<longleftrightarrow> q \<in> snd ` set (controls s) \<and> q \<noteq> r" for q
    using inj key by (auto simp: image_iff Bex_def)
  show ?thesis
    using assms inj unfolding jobs_inv_def registry_ok_def timers_ok_def execs_ok_def
    by (auto simp: stopJob_def Some disarm_def ks del mem)
qed

lemma stopJob_removes: "map_of (controls (stopJob u s)) u = None"
  by (auto simp: stopJob_def map_of_eq_None_iff AList.delete_eq split: option.splits)

lemma flag_inv:
  "jobs_inv s \<Longrightarrow> jobs_inv (pauseJob u s)" "jobs_inv s \<Longrightarrow> jobs_inv (resumeJob u s)"
  by (auto simp: jobs_inv_def registry_ok_def timers_ok_def execs_ok_def pauseJob_def resumeJob_def
      split: option.splits if_splits)

lemma destroy_inv: "jobs_inv s \<Longrightarrow> jobs_inv (destroy s)"
proof -
  have "jobs_inv s \<Longrightarrow> jobs_inv (fold stopJob us s)" for us s
    by (induction us arbitrary: s) (auto intro: stopJob_inv)
  then show "jobs_inv s \<Longrightarrow> jobs_inv (destroy s)"
    by (simp add: destroy_def Let_def stopTimers_inv)
qed

lemma execute_inv: "jobs_inv s \<Longrightarrow> r < next_ref s \<Longrightarrow> jobs_inv (execute r s)"
  by (auto simp: jobs_inv_def registry_ok_def timers_ok_def execs_ok_def execute_def Let_def
      split: if_splits)

lemma tick_inv:
  assumes "jobs_inv s" "timer (objs s r) \<noteq> None"
  shows "jobs_inv (tick r d n1 n2 s)"
proof -
  have lt: "r < next_ref s"
    using assms unfolding jobs_inv_def timers_ok_def registry_ok_def
    by (metis (no_types, lifting) case_prod_beta imageE)
  have "jobs_inv (with_obj r (\<lambda>c. c\<lparr> lastFired := n2 \<rparr>) s)"
    using assms(1) by (auto simp: jobs_inv_def registry_ok_def timers_ok_def execs_ok_def)
  then show ?thesis
    using assms(1) lt by (auto simp: tick_def execute_inv split: option.splits)
qed

lemma timeout_fst [simp]: "fst ` set (execs (timeout_fires r s)) = fst ` set (execs s)"
  by (force simp: timeout_fires_def)

lemma timeout_inv: "jobs_inv s \<Longrightarrow> jobs_inv (timeout_fires r s)"
proof -
  have "map fst (execs (timeout_fires r s)) = map fst (execs s)"
    by (auto simp: timeout_fires_def)
  then show "jobs_inv s \<Longrightarrow> jobs_inv (timeout_fires r s)"
    unfolding jobs_inv_def execs_ok_def
    by (simp only: timeout_fst) (simp add: registry_ok_def timers_ok_def timeout_fires_def)
qed

lemma settles_inv: "jobs_inv s \<Longrightarrow> jobs_inv (settles r ok s)"
proof -
  assume i: "jobs_inv s"
  have "fst ` set (execs (settles r ok s)) = fst ` set (execs s) - {r}"
    by (force simp: settles_def)
  moreover have "map fst (execs (settles r ok s)) = [q \<leftarrow> map fst (execs s). q \<noteq> r]"
    by (simp add: settles_def filter_map o_def split_def)
  ultimately show ?thesis
    using i unfolding jobs_inv_def execs_ok_def
    by (auto simp: registry_ok_def timers_ok_def settles_def)
qed

lemma jobs_step_inv: "jobs_inv s \<Longrightarrow> jobs_step s e t \<Longrightarrow> jobs_inv t"
proof (erule jobs_stepE, goal_cases)
  case 1
  then show ?case by (auto simp: job_ops(1,5) interval_control_def intro!: register_inv)
next
  case 2
  then show ?case
    by (auto simp: job_ops(2,5) interval_control_def intro!: register_inv split: if_splits)
next
  case 3
  then show ?case by (auto simp: job_ops(3,6) cron_control_def intro!: register_inv)
next
  case 4
  then show ?case
    by (auto simp: job_ops(4,6) cron_control_def intro!: register_inv split: if_splits)
qed (auto simp: restartJobs_def intro: startJobs_inv stopTimers_inv stopJob_inv flag_inv destroy_inv
      tick_inv timeout_inv settles_inv)

interpretation jb: event_system jobs_step new_jobs jobs_inv
proof
  show "jobs_inv new_jobs"
    by (simp add: jobs_inv_def registry_ok_def timers_ok_def execs_ok_def new_jobs_def
        interval_control_def)
qed (rule jobs_step_inv)


section \<open>Properties\<close>

text \<open>
  C3: Executions never overlap.  In every state the event loop can reach, each job has at most one
  execution in flight, its running flag says exactly whether it has one, also after a
  timeout, and a tick of a running, paused or stopped job starts nothing.
\<close>

theorem jobs_no_overlap:
  assumes "trace jobs_step new_jobs es s"
  shows "distinct (map fst (execs s)) \<and>
    (\<forall>r. running (objs s r) \<longleftrightarrow> r \<in> fst ` set (execs s)) \<and>
    (\<forall>r d n1 n2. (running (objs s r) \<or> paused (objs s r) \<or> stopped (objs s r)) =
        (runs (execute r s) = runs s))"
proof -
  have "jobs_inv s" by (rule jb.reachable_inv [OF assms])
  then show ?thesis
    by (auto simp: jobs_inv_def execs_ok_def execute_def Let_def)
qed

definition tick_job :: jobs where
  "tick_job = startJobs False (snd (job False (js ''j'') 10 (Some 5) new_jobs))"

lemma tick_job_trace:
  "trace jobs_step new_jobs [JobFresh (js ''j'') 10 (Some 5), Start] tick_job"
proof -
  have "trace jobs_step new_jobs ([JobFresh (js ''j'') 10 (Some 5)] @ [Start]) tick_job"
    unfolding tick_job_def
    by (rule trace_append [OF trace_single trace_single]; rule jobs_step.intros)
       (simp add: new_jobs_def)
  then show ?thesis by simp
qed

theorem jobs_no_overlap_witness:
  "runs (execute 0 (execute 0 tick_job)) = runs (execute 0 tick_job)"
proof -
  have "trace jobs_step new_jobs ([JobFresh (js ''j'') 10 (Some 5), Start] @ [Tick 0 d 1 1])
      (tick 0 d 1 1 tick_job)" for d
    by (rule trace_append [OF tick_job_trace trace_single], rule jobs_step.intros)
       (simp add: tick_job_def startJobs_def job_ops interval_control_def new_jobs_def fold_arm
          arm_def arm_control_def)
  moreover have "tick 0 d 1 1 tick_job = execute 0 tick_job" for d
    by (simp add: tick_def tick_job_def startJobs_def job_ops interval_control_def new_jobs_def
        fold_arm arm_def arm_control_def)
  ultimately have "trace jobs_step new_jobs ([JobFresh (js ''j'') 10 (Some 5), Start] @
      [Tick 0 undefined 1 1]) (execute 0 tick_job)" by metis
  from jobs_no_overlap [OF this] show ?thesis
    by (auto simp: execute_def Let_def split: if_splits)
qed

lemma destroy_controls:
  assumes "jobs_inv s"
  shows "controls (destroy s) = []" and "started (destroy s) = False"
proof -
  have keep: "set (controls (stopJob u t)) \<subseteq> set (controls t)" for u and t :: jobs
    by (auto simp: stopJob_def AList.delete_eq split: option.splits)
  have keeps: "set (controls (fold stopJob us t)) \<subseteq> set (controls t)" for us and t :: jobs
    using keep by (induction us arbitrary: t) (auto, blast)
  have gone: "u \<in> set us \<Longrightarrow> map_of (controls (fold stopJob us t)) u = None" for u us and t :: jobs
  proof (induction us arbitrary: t)
    case (Cons v us)
    show ?case
    proof (cases "u \<in> set us")
      case False
      then have "map_of (controls (stopJob u t)) u = None" using stopJob_removes by simp
      then show ?thesis
        using False Cons.prems keeps [of us "stopJob v t"] by (auto simp: map_of_eq_None_iff)
    qed (use Cons.IH in simp)
  qed simp
  let ?t = "stopTimers s"
  have t: "registry_ok ?t" using stopTimers_inv [OF assms] by (simp add: jobs_inv_def)
  let ?us = "map (\<lambda>(_, r). cid (objs ?t r)) (controls ?t)"
  have ids: "?us = map fst (controls ?t)"
    using t by (auto simp: registry_ok_def split: prod.splits)
  show "controls (destroy s) = []"
  proof (rule ccontr)
    assume "controls (destroy s) \<noteq> []"
    then obtain i r where m: "(i, r) \<in> set (controls (fold stopJob ?us ?t))"
      unfolding destroy_def Let_def by (cases "controls (fold stopJob ?us ?t)") auto
    then have "i \<in> set ?us" using keeps [of ?us ?t] unfolding ids by force
    from gone [OF this, of ?t] have "i \<notin> fst ` set (controls (fold stopJob ?us ?t))"
      by (simp only: map_of_eq_None_iff) simp
    then show False using m by force
  qed
  have st: "started (stopJob u t) = started t" for u and t :: jobs
    by (auto simp: stopJob_def disarm_def split: option.splits)
  have "started (fold stopJob us t) = started t" for us and t :: jobs
    by (induction us arbitrary: t) (auto simp: st)
  then show "started (destroy s) = False"
    by (simp add: destroy_def Let_def stopTimers_def)
qed

text \<open>
  C4: Timers follow the instance.  In every reachable state a control is armed only while the
  instance is started and the job is registered; starting in normal mode arms every registered
  job and in test mode changes nothing, and destroying the instance leaves no job, no timer
  and a stopped scheduler.
\<close>

theorem jobs_timers:
  assumes "trace jobs_step new_jobs es s"
  shows "(\<forall>r. timer (objs s r) = None \<or> started s \<and> r \<in> snd ` set (controls s)) \<and>
    startJobs True s = s \<and>
    (started s \<or> (\<forall>(i, r) \<in> set (controls s). timer (objs (startJobs False s) r) \<noteq> None)) \<and>
    controls (destroy s) = [] \<and> \<not> started (destroy s) \<and>
    (\<forall>r. timer (objs (destroy s) r) = None)"
proof -
  have i: "jobs_inv s" by (rule jb.reachable_inv [OF assms])
  have "started s \<or> (\<forall>(i, r) \<in> set (controls s). timer (objs (startJobs False s) r) \<noteq> None)"
  proof (cases "started s")
    case False
    have "timer (objs (startJobs False s) r) \<noteq> None" if "(i, r) \<in> set (controls s)" for i r
    proof -
      have "r \<in> set (map snd (controls s))" using that by force
      then show ?thesis using False by (simp add: startJobs_def fold_arm del: not_None_eq set_map)
    qed
    then show ?thesis by blast
  qed simp
  moreover have "timer (objs (destroy s) r) = None" for r
    using destroy_inv [OF i] destroy_controls(2) [OF i]
    by (auto simp: jobs_inv_def timers_ok_def)
  moreover have "timer (objs s r) = None \<or> started s \<and> r \<in> snd ` set (controls s)" for r
    using i by (auto simp: jobs_inv_def timers_ok_def)
  ultimately show ?thesis
    using destroy_controls [OF i] by (simp add: startJobs_def)
qed

theorem jobs_timers_witness: "controls (destroy tick_job) = []"
  using jobs_timers [OF tick_job_trace] by blast


text \<open>
  Once a job is stopped nothing of it ever runs again, whatever happens afterwards (its
  identifier may be registered again: that is a new job).
\<close>

lemma stopped_stays:
  assumes "jobs_inv s" "jobs_step s e t" "stopped (objs s r)" "r < next_ref s"
  shows "stopped (objs t r) \<and> r < next_ref t \<and>
    filter ((=) r) (runs t) = filter ((=) r) (runs s)"
proof -
  have sj: "stopped (objs (stopJob u v) r) \<and> next_ref (stopJob u v) = next_ref v \<and>
      runs (stopJob u v) = runs v" if "stopped (objs v r)" for u v
    using that by (auto simp: stopJob_def disarm_def split: option.splits)
  have sjs: "stopped (objs (fold stopJob us v) r) \<and> next_ref (fold stopJob us v) = next_ref v \<and>
      runs (fold stopJob us v) = runs v" if "stopped (objs v r)" for us v
    using that by (induction us arbitrary: v) (auto simp: sj)
  have st: "stopped (objs (stopTimers v) r) = stopped (objs v r)"
    "next_ref (stopTimers v) = next_ref v" "runs (stopTimers v) = runs v" for v
    by (simp_all add: stopTimers_def fold_disarm)
  have sta: "stopped (objs (startJobs m v) r) = stopped (objs v r)"
    "next_ref (startJobs m v) = next_ref v" "runs (startJobs m v) = runs v" for m v
    by (simp_all add: startJobs_def fold_arm)
  have ex: "stopped (objs (execute q v) r) \<and> next_ref (execute q v) = next_ref v \<and>
      filter ((=) r) (runs (execute q v)) = filter ((=) r) (runs v)"
    if "stopped (objs v r)" for q v
    using that by (auto simp: execute_def Let_def)
  have tk: "stopped (objs (tick q d n1 n2 s) r) \<and> next_ref (tick q d n1 n2 s) = next_ref s \<and>
      filter ((=) r) (runs (tick q d n1 n2 s)) = filter ((=) r) (runs s)" for q d n1 n2
  proof -
    have "stopped (objs (with_obj q (\<lambda>c. c\<lparr> lastFired := n2 \<rparr>) s) r)"
      using assms(3) by auto
    from ex [OF this, of q] show ?thesis
      using assms(3) ex [OF assms(3), of q] by (simp add: tick_def split: option.splits)
  qed
  from assms(2) show ?thesis
    using assms(3,4)
  proof (cases rule: jobs_step.cases)
    case 10
    then show ?thesis using assms(3,4) st [of s] sjs [of "stopTimers s"]
      by (simp add: destroy_def Let_def)
  qed (auto simp: job_ops Let_def arm_def sj st sta restartJobs_def pauseJob_def resumeJob_def tk
      timeout_fires_def settles_def split: option.splits if_splits)
qed

lemma stopped_trace:
  "trace jobs_step s es t \<Longrightarrow> jobs_inv s \<Longrightarrow> stopped (objs s r) \<Longrightarrow> r < next_ref s \<Longrightarrow>
   stopped (objs t r) \<and> filter ((=) r) (runs t) = filter ((=) r) (runs s)"
proof -
  have "trace jobs_step s es t \<Longrightarrow> jobs_inv s \<Longrightarrow> stopped (objs s r) \<Longrightarrow> r < next_ref s \<Longrightarrow>
     jobs_inv t \<and> stopped (objs t r) \<and> r < next_ref t \<and>
     filter ((=) r) (runs t) = filter ((=) r) (runs s)"
  proof (induction rule: trace.induct)
    case (trace_snoc s es t e u)
    then show ?case
      using stopped_stays [of t e u r] jobs_step_inv [of t e u] by auto
  qed simp
  then show "trace jobs_step s es t \<Longrightarrow> jobs_inv s \<Longrightarrow> stopped (objs s r) \<Longrightarrow> r < next_ref s \<Longrightarrow>
   stopped (objs t r) \<and> filter ((=) r) (runs t) = filter ((=) r) (runs s)" by blast
qed

text \<open>
  A stopped job never runs again.  After \<^verbatim>\<open>stopJob\<close> on a registered job, no
  continuation of the program (restarts, resumes, pending ticks, a new job under the same
  identifier) starts another execution of it, and an execution in flight is left to
  settle.
\<close>

theorem jobs_stop_final:
  assumes "trace jobs_step new_jobs es s" "map_of (controls s) u = Some r"
    and "trace jobs_step (stopJob u s) fs t"
  shows "filter ((=) r) (runs t) = filter ((=) r) (runs s) \<and>
    map_of (controls (stopJob u s)) u = None \<and> execs (stopJob u s) = execs s"
proof -
  have i: "jobs_inv s" by (rule jb.reachable_inv [OF assms(1)])
  then have r: "r < next_ref s" using assms(2) controls_cid by (auto simp: jobs_inv_def)
  have "stopped (objs t r) \<and> filter ((=) r) (runs t) = filter ((=) r) (runs (stopJob u s))"
    by (rule stopped_trace [OF assms(3) stopJob_inv [OF i]])
       (simp_all add: stopJob_def assms(2) disarm_def r)
  then show ?thesis
    using stopJob_removes [of u s] by (auto simp: stopJob_def assms(2) disarm_def)
qed


theorem jobs_stop_final_witness: "execs (stopJob (js ''j'') tick_job) = []"
proof -
  have m: "map_of (controls tick_job) (js ''j'') = Some 0"
    by (simp add: tick_job_def startJobs_def job_ops interval_control_def new_jobs_def fold_arm arm_def)
  show ?thesis
    using jobs_stop_final [OF tick_job_trace m trace_Nil]
    by (simp add: tick_job_def startJobs_def job_ops interval_control_def new_jobs_def fold_arm arm_def)
qed

definition clock_from :: "nat \<Rightarrow> int \<Rightarrow> jobs_event \<Rightarrow> bool" where
  "clock_from r m e = (case e of Tick q d n1 n2 \<Rightarrow> q = r \<longrightarrow> m \<le> n2 | _ \<Rightarrow> True)"

lemma lastFired_frame:
  "lastFired (objs (stopJob u v) r) = lastFired (objs v r)" "gapMs (objs (stopJob u v) r) = gapMs (objs v r)"
  "lastFired (objs (stopTimers v) r) = lastFired (objs v r)" "gapMs (objs (stopTimers v) r) = gapMs (objs v r)"
  "lastFired (objs (startJobs m v) r) = lastFired (objs v r)" "gapMs (objs (startJobs m v) r) = gapMs (objs v r)"
  "lastFired (objs (fold stopJob us v) r) = lastFired (objs v r)"
  "gapMs (objs (fold stopJob us v) r) = gapMs (objs v r)"
  "lastFired (objs (execute q v) r) = lastFired (objs v r)" "gapMs (objs (execute q v) r) = gapMs (objs v r)"
  "next_ref (stopJob u v) = next_ref v" "next_ref (stopTimers v) = next_ref v"
  "next_ref (startJobs m v) = next_ref v" "next_ref (fold stopJob us v) = next_ref v"
  "next_ref (execute q v) = next_ref v"
proof -
  have 1: "lastFired (objs (stopJob u v) r) = lastFired (objs v r) \<and>
      gapMs (objs (stopJob u v) r) = gapMs (objs v r) \<and> next_ref (stopJob u v) = next_ref v" for u v
    by (auto simp: stopJob_def disarm_def split: option.splits)
  then show "lastFired (objs (stopJob u v) r) = lastFired (objs v r)"
    "gapMs (objs (stopJob u v) r) = gapMs (objs v r)" "next_ref (stopJob u v) = next_ref v" by auto
  have "lastFired (objs (fold stopJob us v) r) = lastFired (objs v r) \<and>
      gapMs (objs (fold stopJob us v) r) = gapMs (objs v r) \<and>
      next_ref (fold stopJob us v) = next_ref v"
    by (induction us arbitrary: v) (auto simp: 1)
  then show "lastFired (objs (fold stopJob us v) r) = lastFired (objs v r)"
    "gapMs (objs (fold stopJob us v) r) = gapMs (objs v r)"
    "next_ref (fold stopJob us v) = next_ref v" by auto
qed (auto simp: stopTimers_def startJobs_def fold_arm fold_disarm execute_def Let_def)

lemma lastFired_step:
  "jobs_step s e t \<Longrightarrow> r < next_ref s \<Longrightarrow> m \<le> lastFired (objs s r) \<Longrightarrow> clock_from r m e \<Longrightarrow>
   m \<le> lastFired (objs t r) \<and> gapMs (objs t r) = gapMs (objs s r) \<and> r < next_ref t"
  by (erule jobs_stepE)
     (auto simp: job_ops Let_def arm_def lastFired_frame restartJobs_def destroy_def Let_def pauseJob_def
       resumeJob_def timeout_fires_def settles_def tick_def clock_from_def
       split: option.splits if_splits)

lemma lastFired_trace:
  "trace jobs_step s es t \<Longrightarrow> r < next_ref s \<Longrightarrow> m \<le> lastFired (objs s r) \<Longrightarrow>
   list_all (clock_from r m) es \<Longrightarrow>
   m \<le> lastFired (objs t r) \<and> gapMs (objs t r) = gapMs (objs s r) \<and> r < next_ref t"
proof (induction rule: trace.induct)
  case (trace_snoc s es t e u)
  then show ?case using lastFired_step [of t e u r m] by auto
qed simp

text \<open>
  Cron spacing.  Once a cron job with a minimum interval has fired at some clock reading, then
  whatever the program does next, and as long as the wall clock is not set back, no later tick
  starts an execution of it before that interval has passed; and no tick fires outside its trigger.
\<close>

theorem cron_spacing:
  assumes "r < next_ref s" "trace jobs_step s es t"
    and "list_all (clock_from r (lastFired (objs s r))) es"
    and "trigger (objs t r) = Some tr" "0 < gapMs (objs s r)"
    and "runs (tick r d n1 n2 t) \<noteq> runs t"
  shows "of_int (lastFired (objs s r)) + gapMs (objs s r) \<le> of_int n1 \<and> matchesTrigger d tr"
proof -
  have l: "lastFired (objs s r) \<le> lastFired (objs t r)" "gapMs (objs t r) = gapMs (objs s r)"
    using lastFired_trace [OF assms(2,1) order_refl assms(3)] by auto
  from assms(4,6) have m: "matchesTrigger d tr"
    and g: "\<not> (0 < gapMs (objs t r) \<and> of_int (n1 - lastFired (objs t r)) < gapMs (objs t r))"
    by (auto simp: tick_def split: if_splits)
  then show ?thesis using l assms(5) by (auto simp: not_less algebra_simps intro: order_trans)
qed

definition noon :: cron_trigger where
  "noon = \<lparr> t_year = Omitted, t_month = Omitted, t_day = Omitted, t_hour = 12, t_minute = 0,
     t_second = 0 \<rparr>"

definition noon_date :: date where
  "noon_date = \<lparr> fullYear = 2026, month0 = 0, dayOfMonth = 1, hours = 12, minutes = 0, seconds = 0 \<rparr>"

definition noon_job :: jobs where
  "noon_job = snd (cronJob False (js ''c'') noon 500 new_jobs)"

theorem cron_spacing_witness:
  "of_int (lastFired (objs noon_job 0)) + gapMs (objs noon_job 0) \<le> of_int 700 \<and>
   matchesTrigger noon_date noon"
proof -
  let ?s = noon_job and ?d = noon_date
  have "runs (tick 0 ?d 700 700 ?s) \<noteq> runs ?s"
    by (simp add: noon_job_def job_ops cron_control_def new_jobs_def tick_def noon_def matchesTrigger_def
        noon_date_def execute_def with_obj_def)
  then show ?thesis
    using cron_spacing [of 0 ?s "[]" ?s noon ?d 700 700]
    by (simp add: noon_job_def job_ops cron_control_def new_jobs_def trace_Nil)
qed

section \<open>The registry of instances\<close>

text \<open>
  The module state: the test-mode flag, the instances by number, the registry (a set in
  insertion order) and the default instance, which is number 0.
\<close>

record jobs_world =
  modeTest :: bool
  insts :: "nat \<Rightarrow> jobs"
  next_inst :: nat
  registry :: "nat list"

definition set_add :: "'a \<Rightarrow> 'a list \<Rightarrow> 'a list" where
  "set_add x xs = (if x \<in> set xs then xs else xs @ [x])"

definition construct :: "jobs_world \<Rightarrow> nat \<times> jobs_world" where
  "construct w =
     (next_inst w, w\<lparr> insts := (insts w)(next_inst w := new_jobs), next_inst := next_inst w + 1,
                      registry := set_add (next_inst w) (registry w) \<rparr>)"

definition load_module :: jobs_world where
  "load_module = snd (construct \<lparr> modeTest = False, insts = (\<lambda>_. new_jobs), next_inst = 0,
     registry = [] \<rparr>)"

definition on_instance :: "nat \<Rightarrow> (jobs \<Rightarrow> jobs) \<Rightarrow> jobs_world \<Rightarrow> jobs_world" where
  "on_instance n f w = w\<lparr> insts := (insts w)(n := f (insts w n)) \<rparr>"

definition destroyInstance :: "nat \<Rightarrow> jobs_world \<Rightarrow> jobs_world" where
  "destroyInstance n w =
     (on_instance n destroy w)\<lparr> registry := removeAll n (registry w) \<rparr>"

definition isModeTest :: "jobs_world \<Rightarrow> bool" where
  "isModeTest w = modeTest w"

definition enableModeTest :: "jobs_world \<Rightarrow> jobs_world" where
  "enableModeTest w = w\<lparr> modeTest := True \<rparr>"

definition disableModeTest :: "jobs_world \<Rightarrow> jobs_world" where
  "disableModeTest w = w\<lparr> modeTest := False \<rparr>"

definition setModeTest :: "jobs_world \<Rightarrow> jobs_world" where
  "setModeTest w = enableModeTest w"

definition default_job :: "jstr \<Rightarrow> rat \<Rightarrow> rat option \<Rightarrow> jobs_world \<Rightarrow> jstr \<times> jobs_world" where
  "default_job uuid ival tmo w =
     (uuid, on_instance 0 (\<lambda>j. snd (job (isModeTest w) uuid ival tmo j)) w)"

definition default_jobWithID ::
    "jstr \<Rightarrow> rat \<Rightarrow> rat option \<Rightarrow> jobs_world \<Rightarrow> jobs_error + jobs_world" where
  "default_jobWithID jid ival tmo w =
     and_then (jobWithID (isModeTest w) jid ival tmo (insts w 0))
       (\<lambda>j. Inr (on_instance 0 (\<lambda>_. j) w))"

definition default_cronJob :: "jstr \<Rightarrow> cron_trigger \<Rightarrow> rat \<Rightarrow> jobs_world \<Rightarrow> jstr \<times> jobs_world" where
  "default_cronJob uuid tr ival w =
     (uuid, on_instance 0 (\<lambda>j. snd (cronJob (isModeTest w) uuid tr ival j)) w)"

definition default_cronJobWithID ::
    "jstr \<Rightarrow> cron_trigger \<Rightarrow> rat \<Rightarrow> jobs_world \<Rightarrow> jobs_error + jobs_world" where
  "default_cronJobWithID jid tr ival w =
     and_then (cronJobWithID (isModeTest w) jid tr ival (insts w 0))
       (\<lambda>j. Inr (on_instance 0 (\<lambda>_. j) w))"

definition default_startJobs :: "jobs_world \<Rightarrow> jobs_world" where
  "default_startJobs w = on_instance 0 (startJobs (isModeTest w)) w"

definition default_restartJobs :: "jobs_world \<Rightarrow> jobs_world" where
  "default_restartJobs w = on_instance 0 (restartJobs (isModeTest w)) w"

definition default_pauseJob :: "jstr \<Rightarrow> jobs_world \<Rightarrow> jobs_world" where
  "default_pauseJob u w = on_instance 0 (pauseJob u) w"

definition default_resumeJob :: "jstr \<Rightarrow> jobs_world \<Rightarrow> jobs_world" where
  "default_resumeJob u w = on_instance 0 (resumeJob u) w"

definition default_stopJob :: "jstr \<Rightarrow> jobs_world \<Rightarrow> jobs_world" where
  "default_stopJob u w = on_instance 0 (stopJob u) w"

definition checkStatusJobs :: "jobs_world \<Rightarrow> job_status list" where
  "checkStatusJobs w = concat (map (\<lambda>n. checkStatus (insts w n)) (registry w))"

definition stopAllJobs :: "jobs_world \<Rightarrow> jobs_world" where
  "stopAllJobs w =
     (let w' = fold destroyInstance (registry w) w
      in w'\<lparr> registry := set_add 0 (registry w') \<rparr>)"

lemma fold_destroyInstance:
  "distinct ns \<Longrightarrow> fold destroyInstance ns w =
     w\<lparr> insts := \<lambda>n. if n \<in> set ns then destroy (insts w n) else insts w n,
        registry := filter (\<lambda>n. n \<notin> set ns) (registry w) \<rparr>"
proof (induction ns arbitrary: w)
  case (Cons n ns)
  have "fold destroyInstance (n # ns) w = fold destroyInstance ns (destroyInstance n w)"
    by simp
  also have "\<dots> = w\<lparr> insts := \<lambda>k. if k \<in> set (n # ns) then destroy (insts w k) else insts w k,
        registry := filter (\<lambda>k. k \<notin> set (n # ns)) (registry w) \<rparr>"
    using Cons.prems
    by (intro jobs_world.equality)
       (auto simp: Cons.IH destroyInstance_def on_instance_def removeAll_filter_not_eq fun_eq_iff
         intro!: filter_cong)
  finally show ?case .
qed simp

text \<open>
  Global shutdown.  When every instance is in a reachable state, \<^verbatim>\<open>stopAllJobs\<close> leaves exactly the
  default instance registered, no registered instance had a job or a live timer left, and the
  status report is empty; instances that were already unregistered are not touched.
\<close>

theorem stopAllJobs_clears:
  assumes "distinct (registry w)"
    and "\<And>n. n \<in> set (registry w) \<Longrightarrow> \<exists>es. trace jobs_step new_jobs es (insts w n)"
    and "0 \<notin> set (registry w) \<Longrightarrow> controls (insts w 0) = []"
  shows "registry (stopAllJobs w) = [0] \<and> checkStatusJobs (stopAllJobs w) = [] \<and>
    (\<forall>n \<in> set (registry w). controls (insts (stopAllJobs w) n) = [] \<and>
        (\<forall>r. timer (objs (insts (stopAllJobs w) n) r) = None)) \<and>
    (\<forall>n. n \<in> set (registry w) \<or> insts (stopAllJobs w) n = insts w n)"
proof -
  have inv: "jobs_inv (insts w n)" if "n \<in> set (registry w)" for n
    using assms(2) [OF that] jb.reachable_inv by blast
  have i: "insts (stopAllJobs w) n =
      (if n \<in> set (registry w) then destroy (insts w n) else insts w n)" for n
    by (simp add: stopAllJobs_def fold_destroyInstance [OF assms(1)])
  have r: "registry (stopAllJobs w) = [0]"
    by (simp add: stopAllJobs_def fold_destroyInstance [OF assms(1)] set_add_def)
  have none: "timer (objs (destroy (insts w n)) q) = None" if "n \<in> set (registry w)" for n q
    using destroy_inv [OF inv [OF that]] destroy_controls [OF inv [OF that]]
    by (auto simp: jobs_inv_def timers_ok_def)
  show ?thesis
    using r assms(3) by (auto simp: checkStatusJobs_def checkStatus_def i none
        destroy_controls [OF inv] not_None_eq)
qed

theorem stopAllJobs_clears_witness: "registry (stopAllJobs load_module) = [0]"
proof -
  have "\<exists>es. trace jobs_step new_jobs es (insts load_module n)" for n
    by (rule exI [of _ "[]"]) (simp add: load_module_def construct_def trace_Nil)
  then show ?thesis
    using stopAllJobs_clears [of load_module]
    by (auto simp: load_module_def construct_def set_add_def)
qed

text \<open>
  A null component never matches.  The comment of \<^verbatim>\<open>CronTrigger\<close> gives null the meaning
  of a wildcard; the comparison reads only an omitted component that way, so a
  trigger with a null year, month or day never fires.
\<close>

theorem null_component_never_fires:
  "t_year tr = NullC \<or> t_month tr = NullC \<or> t_day tr = NullC \<Longrightarrow>
   trigger (objs s r) = Some tr \<Longrightarrow> \<not> matchesTrigger d tr \<and> tick r d n1 n2 s = s"
  by (auto simp: matchesTrigger_def tick_def)

theorem null_component_never_fires_witness:
  "\<not> matchesTrigger noon_date (noon\<lparr> t_year := NullC \<rparr>)"
  using null_component_never_fires [of "noon\<lparr> t_year := NullC \<rparr>"
      "snd (cronJob False [] (noon\<lparr> t_year := NullC \<rparr>) 0 new_jobs)" 0]
  by (simp add: job_ops cron_control_def new_jobs_def noon_def)

end
