(* ===== verification/JS_Text.thy ===== *)
theory JS_Text
  imports JS_Prelude
begin

text \<open>
  The string operations of JavaScript that the source uses, on lists of UTF-16
  code units: trimming, case mapping, splitting, searching and number syntax.

  Case mapping is the Unicode one for the code units below U+0100 and leaves
  the other code units alone.  Numbers are read exactly, as rationals: the
  rounding of a literal to a double is not modelled, its overflow to infinity
  is.
\<close>

section \<open>Code units\<close>

definition cu :: "char \<Rightarrow> 16 word" where
  "cu c = of_char c"

definition is_space :: "16 word \<Rightarrow> bool" where
  "is_space c \<longleftrightarrow>
     (9 \<le> c \<and> c \<le> 13) \<or> c = 32 \<or> c = 0xA0 \<or> c = 0x1680 \<or> (0x2000 \<le> c \<and> c \<le> 0x200A) \<or>
     c = 0x2028 \<or> c = 0x2029 \<or> c = 0x202F \<or> c = 0x205F \<or> c = 0x3000 \<or> c = 0xFEFF"

definition is_digit :: "16 word \<Rightarrow> bool" where
  "is_digit c \<longleftrightarrow> 48 \<le> c \<and> c \<le> 57"

definition is_upper :: "16 word \<Rightarrow> bool" where
  "is_upper c \<longleftrightarrow> 65 \<le> c \<and> c \<le> 90"

definition is_lower :: "16 word \<Rightarrow> bool" where
  "is_lower c \<longleftrightarrow> 97 \<le> c \<and> c \<le> 122"

definition is_alpha :: "16 word \<Rightarrow> bool" where
  "is_alpha c \<longleftrightarrow> is_upper c \<or> is_lower c"

definition lower_unit :: "16 word \<Rightarrow> 16 word" where
  "lower_unit c = (if is_upper c \<or> (0xC0 \<le> c \<and> c \<le> 0xDE \<and> c \<noteq> 0xD7) then c + 32 else c)"

definition upper_unit :: "16 word \<Rightarrow> jstr" where
  "upper_unit c =
     (if is_lower c \<or> (0xE0 \<le> c \<and> c \<le> 0xFE \<and> c \<noteq> 0xF7) then [c - 32]
      else if c = 0xDF then [83, 83]
      else if c = 0xB5 then [0x39C]
      else if c = 0xFF then [0x178]
      else [c])"

definition lower :: "jstr \<Rightarrow> jstr" where
  "lower s = map lower_unit s"

definition upper :: "jstr \<Rightarrow> jstr" where
  "upper s = concat (map upper_unit s)"

lemma lower_unit_idem [simp]: "lower_unit (lower_unit c) = lower_unit c"
proof -
  have up: "\<not> is_upper (c + 32) \<and> \<not> (0xC0 \<le> c + 32 \<and> c + 32 \<le> 0xDE)" if "65 \<le> c" "c \<le> 90"
    using that unfolding is_upper_def by (auto simp: word_le_nat_alt unat_word_ariths)
  have lat: "\<not> is_upper (c + 32) \<and> \<not> (0xC0 \<le> c + 32 \<and> c + 32 \<le> 0xDE)" if "0xC0 \<le> c" "c \<le> 0xDE"
    using that unfolding is_upper_def by (auto simp: word_le_nat_alt unat_word_ariths)
  show ?thesis
    using up lat by (auto simp: lower_unit_def is_upper_def)
qed

lemma lower_idem [simp]: "lower (lower s) = lower s"
  by (simp add: lower_def)

lemma lower_length [simp]: "length (lower s) = length s"
  by (simp add: lower_def)

lemma lower_append: "lower (s @ t) = lower s @ lower t"
  by (simp add: lower_def)

lemma lower_Nil_iff [simp]: "lower s = [] \<longleftrightarrow> s = []" "lower [] = []"
  by (simp_all add: lower_def)

lemma space_lower: "is_space c \<Longrightarrow> lower_unit c = c"
  by (auto simp: is_space_def lower_unit_def is_upper_def word_le_nat_alt)

lemma lower_space: "is_space (lower_unit c) \<longleftrightarrow> is_space c"
proof (cases "lower_unit c = c")
  case False
  then have "is_upper c \<or> (0xC0 \<le> c \<and> c \<le> 0xDE)" and l: "lower_unit c = c + 32"
    by (auto simp: lower_unit_def split: if_splits)
  then have "unat (c + 32) = unat c + 32" "\<not> is_space c" "97 \<le> unat c + 32"
    "unat c + 32 \<le> 122 \<or> (224 \<le> unat c + 32 \<and> unat c + 32 \<le> 254)"
    by (auto simp: is_upper_def is_space_def word_le_nat_alt unat_word_ariths)
  then show ?thesis
    unfolding l by (auto simp: is_space_def word_le_nat_alt word_unat_eq_iff)
qed simp

section \<open>Trimming, splitting, searching\<close>

definition trim_start :: "jstr \<Rightarrow> jstr" where
  "trim_start s = dropWhile is_space s"

definition trim_end :: "jstr \<Rightarrow> jstr" where
  "trim_end s = rev (dropWhile is_space (rev s))"

definition trim :: "jstr \<Rightarrow> jstr" where
  "trim s = trim_end (trim_start s)"

fun split_on :: "16 word \<Rightarrow> jstr \<Rightarrow> jstr list" where
  "split_on d [] = [[]]"
| "split_on d (c # s) =
     (if c = d then [] # split_on d s
      else (case split_on d s of [] \<Rightarrow> [[c]] | p # ps \<Rightarrow> (c # p) # ps))"

fun join :: "jstr \<Rightarrow> jstr list \<Rightarrow> jstr" where
  "join sep [] = []"
| "join sep [p] = p"
| "join sep (p # q # ps) = p @ sep @ join sep (q # ps)"

fun index_of :: "16 word \<Rightarrow> jstr \<Rightarrow> nat option" where
  "index_of d [] = None"
| "index_of d (c # s) = (if c = d then Some 0 else map_option Suc (index_of d s))"

definition starts_with :: "jstr \<Rightarrow> jstr \<Rightarrow> bool" where
  "starts_with p s \<longleftrightarrow> take (length p) s = p"

definition ends_with :: "jstr \<Rightarrow> jstr \<Rightarrow> bool" where
  "ends_with p s \<longleftrightarrow> length p \<le> length s \<and> drop (length s - length p) s = p"

text \<open>\<^verbatim>\<open>split(/\r?\n/)\<close>: a line feed ends a line, with the carriage return before it.\<close>

definition drop_cr :: "jstr \<Rightarrow> jstr" where
  "drop_cr l = (if l \<noteq> [] \<and> last l = 13 then butlast l else l)"

definition split_lines :: "jstr \<Rightarrow> jstr list" where
  "split_lines s = (let ls = split_on 10 s in map drop_cr (butlast ls) @ [last ls])"

lemma split_on_nonempty [simp]: "split_on d s \<noteq> []"
  by (induction s) (auto split: list.splits)

lemma split_on_no_sep: "d \<notin> set s \<Longrightarrow> split_on d s = [s]"
  by (induction s) auto

lemma split_on_parts: "p \<in> set (split_on d s) \<Longrightarrow> d \<notin> set p"
proof (induction s arbitrary: p)
  case (Cons c s)
  then show ?case by (cases "split_on d s") (auto split: if_splits)
qed simp

lemma split_on_append: "d \<notin> set s \<Longrightarrow> split_on d (s @ d # t) = s # split_on d t"
  by (induction s) auto

lemma split_join:
  "ps \<noteq> [] \<Longrightarrow> \<forall>p \<in> set ps. d \<notin> set p \<Longrightarrow> split_on d (join [d] ps) = ps"
proof (induction "[d]" ps rule: join.induct)
  case (3 p q ps)
  then show ?case using split_on_append [of d p "join [d] (q # ps)"] by simp
qed (simp_all add: split_on_no_sep)

lemma join_split [simp]: "join [d] (split_on d s) = s"
proof (induction s)
  case (Cons c s)
  obtain p ps where s: "split_on d s = p # ps" by (cases "split_on d s") auto
  then show ?case
    using Cons by (cases ps) auto
qed simp

lemma set_join: "p \<in> set ps \<Longrightarrow> set p \<subseteq> set (join sep ps)"
  by (induction sep ps rule: join.induct) auto

lemma split_on_sub: "p \<in> set (split_on d s) \<Longrightarrow> x \<in> set p \<Longrightarrow> x \<in> set s"
  using set_join [of p "split_on d s" "[d]"] by auto

lemma index_of_Some: "index_of d s = Some i \<Longrightarrow> i < length s \<and> s ! i = d \<and> d \<notin> set (take i s)"
proof (induction s arbitrary: i)
  case (Cons c s)
  then show ?case by (cases i) (auto split: if_splits)
qed simp

lemma index_of_None [simp]: "index_of d s = None \<longleftrightarrow> d \<notin> set s"
  by (induction s) auto

lemma index_of_append: "d \<notin> set s \<Longrightarrow> index_of d (s @ d # t) = Some (length s)"
  by (induction s) auto

lemma index_of_split: "index_of d s = Some i \<Longrightarrow> s = take i s @ d # drop (Suc i) s"
  using index_of_Some [of d s i] by (auto simp: id_take_nth_drop)

lemma trim_Nil [simp]: "trim [] = []"
  by (simp add: trim_def trim_start_def trim_end_def)

lemma trim_end_prefix: "trim_end s = take (length (trim_end s)) s"
proof -
  obtain k where "dropWhile is_space (rev s) = drop k (rev s)"
    using dropWhile_eq_drop by blast
  then have "trim_end s = take (length s - k) s"
    by (simp add: trim_end_def drop_rev)
  then show ?thesis by (metis length_take min.commute take_all_iff take_take nle_le)
qed

definition trimmed :: "jstr \<Rightarrow> bool" where
  "trimmed s \<longleftrightarrow> (s = [] \<or> (\<not> is_space (hd s) \<and> \<not> is_space (last s)))"

lemma trimmed_trim: "trimmed s \<Longrightarrow> trim s = s"
proof -
  assume t: "trimmed s"
  have "dropWhile is_space s = s" "dropWhile is_space (rev s) = rev s"
    using t by (auto simp: trimmed_def dropWhile_eq_self_iff hd_rev)
  then show ?thesis by (simp add: trim_def trim_start_def trim_end_def)
qed

lemma trim_trimmed [simp]: "trimmed (trim s)"
proof (cases "trim s = []")
  case False
  let ?t = "trim_start s"
  have ne: "trim_end ?t \<noteq> []" using False by (simp add: trim_def)
  then have "dropWhile is_space (rev ?t) \<noteq> []" by (simp add: trim_end_def)
  then have l: "\<not> is_space (last (trim_end ?t))"
    by (simp add: trim_end_def last_rev hd_dropWhile)
  have "?t \<noteq> []" using ne by (auto simp: trim_end_def)
  then have "\<not> is_space (hd ?t)" unfolding trim_start_def by (rule hd_dropWhile)
  moreover have "hd (trim_end ?t) = hd ?t"
    using ne \<open>?t \<noteq> []\<close> trim_end_prefix [of ?t]
    by (metis hd_conv_nth length_greater_0_conv nth_take)
  ultimately show ?thesis using l False by (simp add: trim_def trimmed_def)
qed (simp add: trimmed_def)

lemma trim_idem [simp]: "trim (trim s) = trim s"
  by (rule trimmed_trim) simp

lemma trim_lower: "trim (lower s) = lower (trim s)"
  by (simp add: trim_def trim_start_def trim_end_def lower_def dropWhile_map o_def lower_space
      rev_map)

lemma trim_sub: "set (trim s) \<subseteq> set s"
proof -
  have "set (trim_end t) \<subseteq> set t" for t
    using set_dropWhileD [of _ is_space "rev t"] by (auto simp: trim_end_def)
  moreover have "set (trim_start s) \<subseteq> set s"
    using set_dropWhileD [of _ is_space s] by (auto simp: trim_start_def)
  ultimately show ?thesis by (auto simp: trim_def)
qed

end
