(* ===== verification/JS_Values.thy ===== *)
theory JS_Values
  imports JS_Text
begin

text \<open>
  JavaScript values, their number syntax (\<^verbatim>\<open>Number(string)\<close> and
  \<^verbatim>\<open>String(number)\<close>) and JSON.

  Objects are lists of properties in insertion order.  Two features of real
  objects are outside the model: keys that look like array indices come first in
  the real order, and \<^verbatim>\<open>__proto__\<close> or an inherited name such as
  \<^verbatim>\<open>constructor\<close> reads the prototype.
\<close>

section \<open>Numbers\<close>

definition digit_value :: "16 word \<Rightarrow> int" where
  "digit_value c =
     (if is_digit c then uint c - 48
      else if is_lower c then uint c - 87
      else if is_upper c then uint c - 55
      else 36)"

definition digits_int :: "int \<Rightarrow> jstr \<Rightarrow> int" where
  "digits_int base s = foldl (\<lambda>n c. n * base + digit_value c) 0 s"

definition digit_unit :: "int \<Rightarrow> 16 word" where
  "digit_unit d = word_of_int (if d < 10 then 48 + d else 87 + d)"

text \<open>The digits of a non-negative integer, most significant first.\<close>

function int_digits :: "int \<Rightarrow> int \<Rightarrow> jstr" where
  "int_digits base n =
     (if base < 2 \<or> n < base then [digit_unit n]
      else int_digits base (n div base) @ [digit_unit (n mod base)])"
  by auto
termination
  by (relation "measure (\<lambda>(base, n). nat n)") (auto simp: int_div_less_self)

declare int_digits.simps [simp del]

definition is_radix_digit :: "int \<Rightarrow> 16 word \<Rightarrow> bool" where
  "is_radix_digit base c \<longleftrightarrow> digit_value c < base"

definition pow10 :: "int \<Rightarrow> rat" where
  "pow10 e = (if 0 \<le> e then 10 ^ nat e else 1 / 10 ^ nat (- e))"

text \<open>The optional exponent part, to the end of the text.\<close>

definition exponent :: "jstr \<Rightarrow> int option" where
  "exponent s =
     (case s of
        [] \<Rightarrow> Some 0
      | c # t \<Rightarrow>
          if c = 101 \<or> c = 69 then
            (let (sgn, ds) = (case t of
                 [] \<Rightarrow> (1, [])
               | d # u \<Rightarrow> if d = 43 then (1, u) else if d = 45 then (- 1, u) else (1, t))
             in if ds \<noteq> [] \<and> list_all is_digit ds then Some (sgn * digits_int 10 ds) else None)
          else None)"

text \<open>The literal \<^verbatim>\<open>[+-]?(\d+\.?\d*|\.\d+)(e[+-]?\d+)?\<close>, whole text.\<close>

definition unsigned_literal :: "jstr \<Rightarrow> rat option" where
  "unsigned_literal s =
     (let d1 = takeWhile is_digit s;
          r1 = dropWhile is_digit s;
          (d2, r2) = (case r1 of
              [] \<Rightarrow> ([], [])
            | c # t \<Rightarrow> if c = 46 then (takeWhile is_digit t, dropWhile is_digit t) else ([], r1))
      in if d1 = [] \<and> d2 = [] then None
         else (case exponent r2 of
                 None \<Rightarrow> None
               | Some e \<Rightarrow> Some (of_int (digits_int 10 (d1 @ d2)) * pow10 (e - int (length d2)))))"

definition decimal_literal :: "jstr \<Rightarrow> rat option" where
  "decimal_literal s =
     (case s of
        [] \<Rightarrow> None
      | c # t \<Rightarrow> if c = 43 then unsigned_literal t
                 else if c = 45 then map_option uminus (unsigned_literal t)
                 else unsigned_literal s)"

text \<open>A literal at or above this bound rounds to infinity.\<close>

definition finite_bound :: rat where
  "finite_bound = 2 ^ 1024 - 2 ^ 970"

definition finite_only :: "rat \<Rightarrow> rat option" where
  "finite_only r = (if \<bar>r\<bar> < finite_bound then Some r else None)"

definition radix_literal :: "int \<Rightarrow> jstr \<Rightarrow> rat option" where
  "radix_literal base s =
     (if s \<noteq> [] \<and> list_all (is_radix_digit base) s then Some (of_int (digits_int base s)) else None)"

text \<open>\<^verbatim>\<open>Number(s)\<close> when finite; None for NaN and the infinities.\<close>

definition js_number :: "jstr \<Rightarrow> rat option" where
  "js_number raw =
     (let s = trim raw
      in if s = [] then Some 0
         else Option.bind
           (if take 2 (lower s) = js ''0x'' then radix_literal 16 (drop 2 s)
            else if take 2 (lower s) = js ''0o'' then radix_literal 8 (drop 2 s)
            else if take 2 (lower s) = js ''0b'' then radix_literal 2 (drop 2 s)
            else decimal_literal s) finite_only)"

definition rat_is_int :: "rat \<Rightarrow> bool" where
  "rat_is_int r = (of_int \<lfloor>r\<rfloor> = r)"

text \<open>Decimal places of a rational with a finite expansion; a double has at most 1074.\<close>

fun decimal_scale :: "nat \<Rightarrow> rat \<Rightarrow> nat" where
  "decimal_scale 0 r = 0"
| "decimal_scale (Suc n) r = (if rat_is_int r then 0 else Suc (decimal_scale n (r * 10)))"

definition number_text :: "rat \<Rightarrow> jstr" where
  "number_text r =
     (if r = 0 then js ''0''
      else
        (let k = decimal_scale 1074 \<bar>r\<bar>;
             digits = int_digits 10 \<lfloor>\<bar>r\<bar> * 10 ^ k\<rfloor>;
             n = int (length digits) - int k;
             s = rev (dropWhile (\<lambda>c. c = 48) (rev digits));
             body =
               (if int (length s) \<le> n \<and> n \<le> 21 then s @ replicate (nat n - length s) 48
                else if 0 < n \<and> n \<le> 21 then take (nat n) s @ 46 # drop (nat n) s
                else if -6 < n \<and> n \<le> 0 then js ''0.'' @ replicate (nat (- n)) 48 @ s
                else
                  (let e = n - 1
                   in take 1 s @ (if length s = 1 then [] else 46 # drop 1 s) @
                      101 # (if e < 0 then 45 else 43) # int_digits 10 \<bar>e\<bar>))
         in if r < 0 then 45 # body else body))"

section \<open>Values\<close>

datatype jval =
    JUndef
  | JNull
  | JBool bool
  | JNum rat
  | JStr jstr
  | JArr "jval list"
  | JObj "(jstr \<times> jval) list"

type_synonym jobj = "(jstr \<times> jval) list"

definition obj_get :: "jobj \<Rightarrow> jstr \<Rightarrow> jval" where
  "obj_get ob k = (case map_of ob k of None \<Rightarrow> JUndef | Some v \<Rightarrow> v)"

definition obj_set :: "jstr \<Rightarrow> jval \<Rightarrow> jobj \<Rightarrow> jobj" where
  "obj_set k v ob = AList.update k v ob"

definition bool_text :: "bool \<Rightarrow> jstr" where
  "bool_text b = (if b then js ''true'' else js ''false'')"

text \<open>\<^verbatim>\<open>String(v)\<close>\<close>

fun to_text :: "jval \<Rightarrow> jstr" where
  "to_text JUndef = js ''undefined''"
| "to_text JNull = js ''null''"
| "to_text (JBool b) = bool_text b"
| "to_text (JNum r) = number_text r"
| "to_text (JStr s) = s"
| "to_text (JArr vs) =
     join [44] (map (\<lambda>v. case v of JUndef \<Rightarrow> [] | JNull \<Rightarrow> [] | _ \<Rightarrow> to_text v) vs)"
| "to_text (JObj ob) = js ''[object Object]''"

section \<open>JSON\<close>

definition json_space :: "16 word \<Rightarrow> bool" where
  "json_space c \<longleftrightarrow> c = 32 \<or> c = 9 \<or> c = 10 \<or> c = 13"

definition skip :: "jstr \<Rightarrow> jstr" where
  "skip s = dropWhile json_space s"

definition hex4 :: "jstr \<Rightarrow> (16 word \<times> jstr) option" where
  "hex4 s =
     (if 4 \<le> length s \<and> list_all (is_radix_digit 16) (take 4 s)
      then Some (word_of_int (digits_int 16 (take 4 s)), drop 4 s) else None)"

definition simple_escape :: "16 word \<Rightarrow> 16 word option" where
  "simple_escape c =
     (if c = 34 \<or> c = 92 \<or> c = 47 then Some c
      else if c = 98 then Some 8
      else if c = 102 then Some 12
      else if c = 110 then Some 10
      else if c = 114 then Some 13
      else if c = 116 then Some 9
      else None)"

text \<open>The text of a string after its opening quote.\<close>

function string_body :: "jstr \<Rightarrow> (jstr \<times> jstr) option" where
  "string_body [] = None"
| "string_body (c # s) =
     (if c = 34 then Some ([], s)
      else if c < 32 then None
      else if c = 92 then
        (case s of
           [] \<Rightarrow> None
         | d # t \<Rightarrow>
             if d = 117 then
               (case hex4 t of
                  None \<Rightarrow> None
                | Some (u, r) \<Rightarrow> map_option (apfst ((#) u)) (string_body (drop 4 t)))
             else
               (case simple_escape d of
                  None \<Rightarrow> None
                | Some u \<Rightarrow> map_option (apfst ((#) u)) (string_body t)))
      else map_option (apfst ((#) c)) (string_body s))"
  by pat_completeness auto
termination
  by (relation "measure length") auto

text \<open>A number at the head of the text: sign, integer part, fraction, exponent.\<close>

definition opt_head :: "(16 word \<Rightarrow> bool) \<Rightarrow> jstr \<Rightarrow> jstr \<times> jstr" where
  "opt_head P s = (case s of [] \<Rightarrow> ([], []) | c # t \<Rightarrow> if P c then ([c], t) else ([], s))"

definition json_fraction :: "jstr \<Rightarrow> jstr \<times> jstr" where
  "json_fraction s =
     (case opt_head (\<lambda>c. c = 46) s of
        ([], t) \<Rightarrow> ([], t)
      | (dot, t) \<Rightarrow> (dot @ takeWhile is_digit t, dropWhile is_digit t))"

definition json_exponent :: "jstr \<Rightarrow> jstr \<times> jstr" where
  "json_exponent s =
     (case opt_head (\<lambda>c. c = 101 \<or> c = 69) s of
        ([], t) \<Rightarrow> ([], t)
      | (e, t) \<Rightarrow>
          (case opt_head (\<lambda>c. c = 43 \<or> c = 45) t of
             (sg, u) \<Rightarrow> (e @ sg @ takeWhile is_digit u, dropWhile is_digit u)))"

definition json_number :: "jstr \<Rightarrow> (rat \<times> jstr) option" where
  "json_number s =
     (case opt_head (\<lambda>c. c = 45) s of (sg, t) \<Rightarrow>
      case json_fraction (dropWhile is_digit t) of (fr, r2) \<Rightarrow>
      case json_exponent r2 of (ex, r3) \<Rightarrow>
        let d1 = takeWhile is_digit t
        in if d1 = [] \<or> (hd d1 = 48 \<and> length d1 \<noteq> 1) \<or> length fr = 1 then None
           else map_option (\<lambda>r. (r, r3)) (decimal_literal (sg @ d1 @ fr @ ex)))"

fun json_value :: "nat \<Rightarrow> jstr \<Rightarrow> (jval \<times> jstr) option"
and json_elems :: "nat \<Rightarrow> jstr \<Rightarrow> (jval list \<times> jstr) option"
and json_members :: "nat \<Rightarrow> jobj \<Rightarrow> jstr \<Rightarrow> (jobj \<times> jstr) option" where
  "json_value 0 s = None"
| "json_value (Suc n) s =
     (case s of
        [] \<Rightarrow> None
      | c # t \<Rightarrow>
          if c = 123 then
            (case skip t of
               [] \<Rightarrow> None
             | d # u \<Rightarrow> if d = 125 then Some (JObj [], u)
                        else map_option (apfst JObj) (json_members n [] (skip t)))
          else if c = 91 then
            (case skip t of
               [] \<Rightarrow> None
             | d # u \<Rightarrow> if d = 93 then Some (JArr [], u)
                        else map_option (apfst JArr) (json_elems n (skip t)))
          else if c = 34 then map_option (apfst JStr) (string_body t)
          else if take 4 s = js ''true'' then Some (JBool True, drop 4 s)
          else if take 5 s = js ''false'' then Some (JBool False, drop 5 s)
          else if take 4 s = js ''null'' then Some (JNull, drop 4 s)
          else map_option (apfst JNum) (json_number s))"
| "json_elems 0 s = None"
| "json_elems (Suc n) s =
     (case json_value n s of
        None \<Rightarrow> None
      | Some (v, r) \<Rightarrow>
          (case skip r of
             [] \<Rightarrow> None
           | c # t \<Rightarrow> if c = 93 then Some ([v], t)
                      else if c = 44 then map_option (apfst ((#) v)) (json_elems n (skip t))
                      else None))"
| "json_members 0 ob s = None"
| "json_members (Suc n) ob s =
     (case s of
        [] \<Rightarrow> None
      | q # s' \<Rightarrow>
          if q \<noteq> 34 then None
          else (case string_body s' of
             None \<Rightarrow> None
           | Some (k, r) \<Rightarrow>
               (case skip r of
                  [] \<Rightarrow> None
                | c # t \<Rightarrow>
                    if c \<noteq> 58 then None
                    else (case json_value n (skip t) of
                        None \<Rightarrow> None
                      | Some (v, w) \<Rightarrow>
                          (case skip w of
                             [] \<Rightarrow> None
                           | d # u \<Rightarrow>
                               if d = 125 then Some (obj_set k v ob, u)
                               else if d = 44 then json_members n (obj_set k v ob) (skip u)
                               else None)))))"

text \<open>\<^verbatim>\<open>JSON.parse\<close>; None is a SyntaxError.\<close>

definition json_parse :: "jstr \<Rightarrow> jval option" where
  "json_parse s =
     (case json_value (2 * length s + 2) (skip s) of
        None \<Rightarrow> None
      | Some (v, r) \<Rightarrow> if skip r = [] then Some v else None)"


lemma skip_length: "length (skip s) \<le> length s"
  by (simp add: skip_def length_dropWhile_le)

lemma string_body_shorter: "string_body s = Some (b, r) \<Longrightarrow> length r < length s"
proof (induction s arbitrary: b r rule: string_body.induct)
  case (2 c s)
  then show ?case
    by (fastforce split: if_splits list.splits option.splits)
qed simp

lemma opt_head_append: "opt_head P s = (h, t) \<Longrightarrow> s = h @ t"
  by (auto simp: opt_head_def split: list.splits if_splits)

lemma json_fraction_append: "json_fraction s = (h, t) \<Longrightarrow> s = h @ t"
  by (auto simp: json_fraction_def split: prod.splits list.splits dest!: opt_head_append)

lemma json_exponent_append: "json_exponent s = (h, t) \<Longrightarrow> s = h @ t"
  by (auto simp: json_exponent_def split: prod.splits list.splits dest!: opt_head_append)

lemma json_number_shorter: "json_number s = Some (x, r) \<Longrightarrow> length r < length s"
proof -
  assume a: "json_number s = Some (x, r)"
  obtain sg t where t: "opt_head (\<lambda>c. c = 45) s = (sg, t)" by (metis surj_pair)
  obtain fr r2 where f: "json_fraction (dropWhile is_digit t) = (fr, r2)" by (metis surj_pair)
  obtain ex r3 where e: "json_exponent r2 = (ex, r3)" by (metis surj_pair)
  have d: "takeWhile is_digit t \<noteq> []" and r: "r = r3"
    using a by (auto simp: json_number_def t f e Let_def split: if_splits)
  have "s = sg @ takeWhile is_digit t @ fr @ ex @ r3"
    using opt_head_append [OF t] json_fraction_append [OF f] json_exponent_append [OF e]
    by (metis append.assoc takeWhile_dropWhile_id)
  then have "length s = length sg + length (takeWhile is_digit t) + length fr + length ex + length r"
    using r by simp
  moreover have "0 < length (takeWhile is_digit t)" using d by simp
  ultimately show ?thesis by linarith
qed

lemma json_shorter:
  "json_value n s = Some (v, r) \<Longrightarrow> length r < length s"
  "json_elems n s = Some (vs, r) \<Longrightarrow> length r < length s"
  "json_members n ob s = Some (ob', r) \<Longrightarrow> length r < length s"
proof (induction n s and n s and n ob s arbitrary: v r and vs r and ob' r
    rule: json_value_json_elems_json_members.induct)
  case (2 n s)
  show ?case
  proof (cases s)
    case (Cons c t)
    have sk: "length (skip t) \<le> length t" by (rule skip_length)
    consider (ob) "c = 123" | (arr) "c = 91" | (str) "c = 34"
      | (lit) "c \<noteq> 123" "c \<noteq> 91" "c \<noteq> 34" by blast
    then show ?thesis
    proof cases
      case ob
      then obtain d u where u: "skip t = d # u" using 2(3) Cons by (auto split: list.splits)
      show ?thesis
      proof (cases "d = 125")
        case True
        then show ?thesis using 2(3) Cons ob u sk by simp
      next
        case False
        then obtain ob' where "json_members n [] (skip t) = Some (ob', r)"
          using 2(3) Cons ob u by (auto split: prod.splits)
        then have "length r < length (skip t)" by (rule 2(1) [OF Cons ob u False])
        then show ?thesis using sk Cons by simp
      qed
    next
      case arr
      then obtain d u where u: "skip t = d # u" using 2(3) Cons by (auto split: list.splits)
      show ?thesis
      proof (cases "d = 93")
        case True
        then show ?thesis using 2(3) Cons arr u sk by simp
      next
        case False
        then obtain vs where "json_elems n (skip t) = Some (vs, r)"
          using 2(3) Cons arr u by (auto split: prod.splits)
        moreover have "c \<noteq> 123" using arr by simp
        ultimately have "length r < length (skip t)" using 2(2) [OF Cons _ arr u False] by blast
        then show ?thesis using sk Cons by simp
      qed
    next
      case str
      then show ?thesis using 2(3) Cons string_body_shorter [of t] by fastforce
    next
      case lit
      then show ?thesis
        using 2(3) Cons json_number_shorter [of s] by (auto split: if_splits)
    qed
  qed (use 2 in simp)
next
  case (4 n s)
  then obtain w q where a: "json_value n s = Some (w, q)" by (auto split: option.splits)
  then have q: "length q < length s" using 4(1) by blast
  obtain c t where sq: "skip q = c # t" using 4(3) a by (auto split: list.splits)
  then have t: "length t < length q" using skip_length [of q] by simp
  show ?case
    using 4(3) 4(2) [OF a refl sq] a q sq t skip_length [of t]
    by (fastforce split: if_splits)
next
  case (6 n ob s)
  obtain c s' where s: "s = c # s'" and c: "c = 34" using 6(3) by (auto split: list.splits if_splits)
  obtain k r1 where b: "string_body s' = Some (k, r1)" using 6(3) s by (auto split: option.splits if_splits)
  obtain t where sr: "skip r1 = 58 # t" using 6(3) s b c by (auto split: list.splits if_splits)
  obtain v w where v: "json_value n (skip t) = Some (v, w)"
    using 6(3) s b c sr by (auto split: option.splits)
  obtain d u where sw: "skip w = d # u" using 6(3) s b c sr v by (auto split: list.splits)
  have "length r1 < length s'" by (rule string_body_shorter [OF b])
  moreover have "length t < length r1" using skip_length [of r1] sr by simp
  moreover have "length w < length (skip t)" using 6(1) s b c sr v by simp
  moreover have "length u < length w" using skip_length [of w] sw by simp
  ultimately have u: "length u < length s'" using skip_length [of t] by linarith
  show ?case
  proof (cases "d = 125")
    case True
    then show ?thesis using 6(3) s b c sr v sw u by auto
  next
    case False
    then have "json_members n (obj_set k v ob) (skip u) = Some (ob', r)"
      using 6(3) s b c sr v sw by (auto split: if_splits)
    moreover have "d = 44" using False 6(3) s b c sr v sw by (auto split: if_splits)
    ultimately have "length r < length (skip u)"
      using 6(2) [OF s _ b refl sr _ v refl sw False] c by simp
    then show ?thesis using u s skip_length [of u] by simp
  qed
qed simp_all


text \<open>Enough fuel: more of it changes nothing, so \<^verbatim>\<open>json_parse\<close> never runs out.\<close>

lemma json_fuel_step:
  "2 * length s + 1 \<le> n \<Longrightarrow> json_value (Suc n) s = json_value n s"
  "2 * length s + 2 \<le> n \<Longrightarrow> json_elems (Suc n) s = json_elems n s"
  "2 * length s + 2 \<le> n \<Longrightarrow> json_members (Suc n) ob s = json_members n ob s"
proof (induction n s and n s and n ob s rule: json_value_json_elems_json_members.induct)
  case (2 n s)
  note unf = json_value.simps(2) [of "Suc n" s] json_value.simps(2) [of n s]
  show ?case
  proof (cases s)
    case (Cons c t)
    have b: "2 * length (skip t) + 2 \<le> n" using 2(3) skip_length [of t] Cons by simp
    show ?thesis
    proof (cases "skip t")
      case Nil
      then show ?thesis unfolding unf by (simp add: Cons)
    next
      case sk: (Cons d u)
      have "c = 123 \<Longrightarrow> d \<noteq> 125 \<Longrightarrow> json_members (Suc n) [] (skip t) = json_members n [] (skip t)"
        using 2(1) [OF Cons _ sk _ b] by blast
      moreover have "c = 91 \<Longrightarrow> d \<noteq> 93 \<Longrightarrow> json_elems (Suc n) (skip t) = json_elems n (skip t)"
        using 2(2) [OF Cons _ _ sk _ b] by auto
      ultimately show ?thesis unfolding unf
        by (auto simp: Cons sk simp del: json_value.simps json_elems.simps json_members.simps)
    qed
  qed simp
next
  case (4 n s)
  note unf = json_elems.simps(2) [of "Suc n" s] json_elems.simps(2) [of n s]
  have v: "json_value (Suc n) s = json_value n s" using 4(1,3) by simp
  show ?case
  proof (cases "json_value n s")
    case None
    then show ?thesis unfolding unf v by simp
  next
    case (Some p)
    then obtain w q where a: "json_value n s = Some (w, q)" by (cases p) auto
    have q: "length q < length s" by (rule json_shorter(1) [OF a])
    show ?thesis
    proof (cases "skip q")
      case Nil
      then show ?thesis unfolding unf v by (simp add: a)
    next
      case sk: (Cons c t)
      have "2 * length (skip t) + 2 \<le> n"
        using 4(3) q skip_length [of q] skip_length [of t] sk by simp
      then have "c \<noteq> 93 \<Longrightarrow> c = 44 \<Longrightarrow> json_elems (Suc n) (skip t) = json_elems n (skip t)"
        using 4(2) [OF a refl sk] by blast
      then show ?thesis unfolding unf v
        by (simp add: a sk del: json_value.simps json_elems.simps)
    qed
  qed
next
  case (6 n ob s)
  note unf = json_members.simps(2) [of "Suc n" ob s] json_members.simps(2) [of n ob s]
  show ?case
  proof (cases s)
    case (Cons c s')
    show ?thesis
    proof (cases "c = 34 \<and> string_body s' \<noteq> None")
      case False
      then show ?thesis unfolding unf by (auto simp: Cons split: option.split)
    next
      case True
      then obtain k r1 where c: "c = 34" and b: "string_body s' = Some (k, r1)" by auto
      have r1: "length r1 < length s'" by (rule string_body_shorter [OF b])
      show ?thesis
      proof (cases "skip r1")
        case Nil
        then show ?thesis unfolding unf by (simp add: Cons c b)
      next
        case sr: (Cons e t)
        have lt: "length (skip t) < length s'"
          using r1 skip_length [of r1] skip_length [of t] sr by simp
        show ?thesis
        proof (cases "e = 58")
          case False
          then show ?thesis unfolding unf by (simp add: Cons c b sr)
        next
          case e: True
          have v: "json_value (Suc n) (skip t) = json_value n (skip t)"
            using 6(1) [OF Cons _ b refl sr] c e lt 6(3) Cons by simp
          show ?thesis
          proof (cases "json_value n (skip t)")
            case None
            then show ?thesis unfolding unf by (simp add: Cons c b sr e v del: json_value.simps)
          next
            case (Some p)
            then obtain w q where a: "json_value n (skip t) = Some (w, q)" by (cases p) auto
            have q: "length q < length (skip t)" by (rule json_shorter(1) [OF a])
            show ?thesis
            proof (cases "skip q")
              case Nil
              then show ?thesis unfolding unf by (simp add: Cons c b sr e v a del: json_value.simps)
            next
              case sw: (Cons d u)
              have "2 * length (skip u) + 2 \<le> n"
                using q lt skip_length [of q] skip_length [of u] sw 6(3) Cons by simp
              then have "d \<noteq> 125 \<Longrightarrow> d = 44 \<Longrightarrow>
                  json_members (Suc n) (obj_set k w ob) (skip u) =
                  json_members n (obj_set k w ob) (skip u)"
                using 6(2) [OF Cons _ b refl sr _ a refl sw] c e by simp
              then show ?thesis
                unfolding unf
                by (simp add: Cons c b sr e v a sw del: json_value.simps json_members.simps)
            qed
          qed
        qed
      qed
    qed
  qed simp
qed simp_all

lemma json_fuel:
  assumes "2 * length s + 1 \<le> n"
  shows "json_value (n + k) s = json_value n s"
  by (induction k) (use assms in \<open>simp_all add: json_fuel_step(1) del: json_value.simps\<close>)

declare json_value.simps [simp del] json_elems.simps [simp del] json_members.simps [simp del]

lemmas json_parse_simps = json_value.simps json_elems.simps json_members.simps json_parse_def

section \<open>Printing\<close>

definition hex_digits4 :: "16 word \<Rightarrow> jstr" where
  "hex_digits4 c =
     (let ds = int_digits 16 (uint c) in replicate (4 - length ds) 48 @ ds)"

definition is_high :: "16 word \<Rightarrow> bool" where
  "is_high c \<longleftrightarrow> 0xD800 \<le> c \<and> c \<le> 0xDBFF"

definition is_low :: "16 word \<Rightarrow> bool" where
  "is_low c \<longleftrightarrow> 0xDC00 \<le> c \<and> c \<le> 0xDFFF"

definition quote_unit :: "16 word \<Rightarrow> jstr" where
  "quote_unit c =
     (if c = 34 \<or> c = 92 then [92, c]
      else if c = 8 then [92, 98]
      else if c = 12 then [92, 102]
      else if c = 10 then [92, 110]
      else if c = 13 then [92, 114]
      else if c = 9 then [92, 116]
      else if c < 32 then [92, 117] @ hex_digits4 c
      else [c])"

fun quote_body :: "jstr \<Rightarrow> jstr" where
  "quote_body [] = []"
| "quote_body [c] =
     (if is_high c \<or> is_low c then [92, 117] @ hex_digits4 c else quote_unit c)"
| "quote_body (c # d # s) =
     (if is_high c \<and> is_low d then c # d # quote_body s
      else (if is_high c \<or> is_low c then [92, 117] @ hex_digits4 c else quote_unit c) @
           quote_body (d # s))"

definition json_quote :: "jstr \<Rightarrow> jstr" where
  "json_quote s = 34 # quote_body s @ [34]"

text \<open>\<^verbatim>\<open>JSON.stringify\<close> of a value that is not undefined.\<close>

fun json_print :: "jval \<Rightarrow> jstr" where
  "json_print JUndef = js ''null''"
| "json_print JNull = js ''null''"
| "json_print (JBool b) = bool_text b"
| "json_print (JNum r) = number_text r"
| "json_print (JStr s) = json_quote s"
| "json_print (JArr vs) = 91 # join [44] (map json_print vs) @ [93]"
| "json_print (JObj ob) =
     123 # join [44] (map (\<lambda>(k, v). json_quote k @ 58 # json_print v)
       (filter (\<lambda>(k, v). v \<noteq> JUndef) ob)) @ [125]"

end
