(* ===== verification/Settings.thy ===== *)
theory Settings
  imports JS_Values
begin

text \<open>
  The value typing and key-path helpers of \<^verbatim>\<open>tools/utilities/values.ts\<close>.  A
  settings tree is a property list; reading and writing a key path are functions
  on it (the code writes in place), interpreted as a \<^verbatim>\<open>path_store\<close>.
\<close>

section \<open>Typing of raw text\<close>

definition splitCommaSeparated :: "jstr \<Rightarrow> jstr list" where
  "splitCommaSeparated raw =
     (if raw = [] then [] else filter (\<lambda>p. p \<noteq> []) (map trim (split_on 44 raw)))"

definition parseBoolean :: "jstr \<Rightarrow> bool option" where
  "parseBoolean value =
     (let v = lower (trim value)
      in if v = js ''1'' \<or> v = js ''t'' \<or> v = js ''true'' then Some True
         else if v = js ''0'' \<or> v = js ''f'' \<or> v = js ''false'' then Some False
         else None)"

definition inferScalar :: "jstr \<Rightarrow> jval" where
  "inferScalar raw =
     (let value = trim raw
      in if value = [] then JStr []
         else if lower value = js ''true'' then JBool True
         else if lower value = js ''false'' then JBool False
         else (case Option.bind (decimal_literal value) finite_only of
                 Some r \<Rightarrow> JNum r
               | None \<Rightarrow> JStr value))"

definition typed_items :: "bool \<Rightarrow> jstr list \<Rightarrow> jval list" where
  "typed_items stringsOnly items = map (if stringsOnly then JStr else inferScalar) items"

definition parseList :: "jstr \<Rightarrow> bool \<Rightarrow> jval list" where
  "parseList value stringsOnly =
     (if starts_with [91] value then
        (case json_parse value of
           Some (JArr decoded) \<Rightarrow>
             if stringsOnly then map (\<lambda>item. JStr (to_text item)) decoded else decoded
         | _ \<Rightarrow>
             if ends_with [93] value
             then typed_items stringsOnly (splitCommaSeparated (butlast (tl value)))
             else typed_items stringsOnly (splitCommaSeparated value))
      else typed_items stringsOnly (splitCommaSeparated value))"

fun is_str :: "jval \<Rightarrow> bool" where
  "is_str (JStr s) = True"
| "is_str _ = False"

definition parseEnvValue :: "jstr \<Rightarrow> jval \<Rightarrow> jval" where
  "parseEnvValue raw template =
     (let value = trim raw
      in case template of
           JBool _ \<Rightarrow> (case parseBoolean value of None \<Rightarrow> JStr value | Some b \<Rightarrow> JBool b)
         | JNum _ \<Rightarrow> (case js_number value of None \<Rightarrow> JStr value | Some r \<Rightarrow> JNum r)
         | JArr items \<Rightarrow> JArr (parseList value (list_all is_str items))
         | _ \<Rightarrow> JStr value)"

section \<open>Key paths\<close>

definition envNameFromPath :: "jstr list \<Rightarrow> jstr" where
  "envNameFromPath path = join [95] (map upper (filter (\<lambda>p. p \<noteq> []) (map trim path)))"

definition splitKey :: "jstr \<Rightarrow> jstr list" where
  "splitKey key = filter (\<lambda>p. p \<noteq> []) (map (\<lambda>p. lower (trim p)) (split_on 46 key))"

fun isSettings :: "jval \<Rightarrow> bool" where
  "isSettings (JObj _) = True"
| "isSettings _ = False"

fun read_node :: "jval \<Rightarrow> jstr list \<Rightarrow> jval" where
  "read_node node [] = node"
| "read_node node (part # path) =
     (case node of JObj ob \<Rightarrow> read_node (obj_get ob part) path | _ \<Rightarrow> JUndef)"

definition readPath :: "jobj \<Rightarrow> jstr list \<Rightarrow> jval" where
  "readPath settings path = read_node (JObj settings) path"

fun writePath :: "jobj \<Rightarrow> jstr list \<Rightarrow> jval \<Rightarrow> jobj" where
  "writePath settings [] value = settings"
| "writePath settings [part] value = obj_set part value settings"
| "writePath settings (part # q # path) value =
     (case obj_get settings part of
        JObj child \<Rightarrow> obj_set part (JObj (writePath child (q # path) value)) settings
      | _ \<Rightarrow> obj_set part (JObj (writePath [] (q # path) value)) settings)"

function mergeSettings :: "jobj \<Rightarrow> jobj \<Rightarrow> jobj" where
  "mergeSettings target [] = target"
| "mergeSettings target ((key, value) # source) =
     mergeSettings
       (case (obj_get target key, value) of
          (JObj existing, JObj nested) \<Rightarrow> obj_set key (JObj (mergeSettings existing nested)) target
        | _ \<Rightarrow> obj_set key value target)
       source"
  by pat_completeness auto
termination
  by (relation "measure (\<lambda>(_, source). size_list (size_prod (\<lambda>_. 0) size) source)")
     (auto simp: size_list_conv_sum_list)

fun leaves_from :: "jstr list \<Rightarrow> jval \<Rightarrow> (jstr list \<times> jval) list" where
  "leaves_from path (JObj ob) = concat (map (\<lambda>(k, v). leaves_from (path @ [k]) v) ob)"
| "leaves_from path v = [(path, v)]"

text \<open>What \<^verbatim>\<open>forEachLeaf\<close> visits, in order.\<close>

definition leaves :: "jobj \<Rightarrow> (jstr list \<times> jval) list" where
  "leaves settings = leaves_from [] (JObj settings)"

fun insensitive :: "jval \<Rightarrow> jval" where
  "insensitive (JArr items) = JArr (map insensitive items)"
| "insensitive (JObj ob) =
     JObj (fold (\<lambda>(k, v) acc. obj_set (lower k) v acc) (map (\<lambda>(k, v). (k, insensitive v)) ob) [])"
| "insensitive v = v"


section \<open>Well-formed trees\<close>

text \<open>Every record of a tree has distinct keys, as an object has.\<close>

fun wf_val :: "jval \<Rightarrow> bool" where
  "wf_val (JArr items) = list_all wf_val items"
| "wf_val (JObj ob) = (distinct (map fst ob) \<and> list_all (\<lambda>(k, v). wf_val v) ob)"
| "wf_val v = True"

lemma map_of_obj_set: "map_of (obj_set k v ob) = (map_of ob)(k \<mapsto> v)"
  by (simp add: obj_set_def AList.update_conv')

lemma obj_get_set [simp]: "obj_get (obj_set k v ob) q = (if q = k then v else obj_get ob q)"
  by (simp add: obj_get_def map_of_obj_set)

lemma set_obj_set: "set (obj_set k v ob) \<subseteq> insert (k, v) (set ob)"
  unfolding obj_set_def by (induction ob) auto

lemma wf_obj_set: "wf_val (JObj ob) \<Longrightarrow> wf_val v \<Longrightarrow> wf_val (JObj (obj_set k v ob))"
  using set_obj_set [of k v ob]
  by (auto simp: obj_set_def AList.distinct_update list_all_iff)

lemma wf_obj_get: "wf_val (JObj ob) \<Longrightarrow> wf_val (obj_get ob k)"
  by (auto simp: obj_get_def list_all_iff dest: map_of_SomeD split: option.splits)

lemma wf_writePath: "wf_val (JObj s) \<Longrightarrow> wf_val v \<Longrightarrow> wf_val (JObj (writePath s p v))"
proof (induction s p v rule: writePath.induct)
  case (3 s part q path v)
  have "wf_val (obj_get s part)" using 3 by (intro wf_obj_get) simp
  moreover have e: "wf_val (JObj [])" by simp
  ultimately show ?case
    using 3 by (auto split: jval.splits intro!: wf_obj_set simp del: wf_val.simps)
qed (simp_all add: wf_obj_set del: wf_val.simps(2))

section \<open>Reading what was written\<close>

text \<open>
  A store addressed by paths, as the configuration uses it: a write is read back, and a
  write elsewhere is not seen.
\<close>

locale path_store =
  fixes get :: "'m \<Rightarrow> 'p \<Rightarrow> 'v"
    and put :: "'m \<Rightarrow> 'p \<Rightarrow> 'v \<Rightarrow> 'm"
    and apart :: "'p \<Rightarrow> 'p \<Rightarrow> bool"
    and valid :: "'p \<Rightarrow> bool"
  assumes get_put: "valid p \<Longrightarrow> get (put m p v) p = v"
    and get_put_apart: "apart p q \<Longrightarrow> get (put m p v) q = get m q"
begin

definition put_all :: "'m \<Rightarrow> ('p \<times> 'v) list \<Rightarrow> 'm" where
  "put_all m ws = foldl (\<lambda>m (p, v). put m p v) m ws"

lemma put_all_elsewhere:
  "list_all (\<lambda>(p, v). apart p q) ws \<Longrightarrow> get (put_all m ws) q = get m q"
  by (induction ws arbitrary: m) (auto simp: put_all_def get_put_apart)

lemma put_all_reads:
  "sorted_wrt (\<lambda>(p, v) (q, w). apart q p) ws \<Longrightarrow> (p, v) \<in> set ws \<Longrightarrow> valid p \<Longrightarrow>
   get (put_all m ws) p = v"
proof (induction ws arbitrary: m)
  case (Cons w ws)
  obtain q u where w: "w = (q, u)" by (cases w)
  show ?case
  proof (cases "(p, v) \<in> set ws")
    case True
    then show ?thesis using Cons w by (simp add: put_all_def)
  next
    case False
    then have "p = q" "u = v" using Cons.prems w by auto
    moreover have "list_all (\<lambda>(r, v). apart r q) ws"
      using Cons.prems(1) w by (auto simp: list_all_iff)
    ultimately show ?thesis
      using put_all_elsewhere [of q ws "put m q v"] Cons.prems(3) w
      by (simp add: put_all_def get_put)
  qed
qed simp

end

definition paths_apart :: "jstr list \<Rightarrow> jstr list \<Rightarrow> bool" where
  "paths_apart p q \<longleftrightarrow> \<not> prefix p q \<and> \<not> prefix q p"

lemma read_write_same: "p \<noteq> [] \<Longrightarrow> readPath (writePath s p v) (p @ q) = read_node v q"
  unfolding readPath_def
  by (induction s p v rule: writePath.induct) (auto split: jval.splits)

lemma read_write_apart: "paths_apart p q \<Longrightarrow> readPath (writePath s p v) q = readPath s q"
proof (induction s p v arbitrary: q rule: writePath.induct)
  case (2 s part v)
  then show ?case
    by (cases q) (auto simp: paths_apart_def readPath_def)
next
  case (3 s part k path v)
  obtain c r where q: "q = c # r" using "3.prems" by (cases q) (auto simp: paths_apart_def)
  show ?case
  proof (cases "c = part")
    case True
    then have a: "paths_apart (k # path) r" using "3.prems" q by (simp add: paths_apart_def)
    then obtain d r' where r: "r = d # r'" by (cases r) (auto simp: paths_apart_def)
    have e: "obj_get [] d = JUndef" "read_node JUndef r' = JUndef"
      by (simp add: obj_get_def) (cases r', simp_all)
    show ?thesis
      using True q r e "3.IH" [OF _ a]
      by (cases "obj_get s part") (simp_all add: readPath_def)
  qed (use q in \<open>auto simp: readPath_def split: jval.splits\<close>)
qed (simp add: paths_apart_def)

interpretation settings_store: path_store readPath writePath paths_apart "\<lambda>p. p \<noteq> []"
proof
  show "p \<noteq> [] \<Longrightarrow> readPath (writePath m p v) p = v" for m p v
    using read_write_same [of p m v "[]"] by simp
qed (rule read_write_apart)


section \<open>Leaves\<close>

lemma leaves_from_path:
  "leaves_from path v = map (\<lambda>(p, w). (path @ p, w)) (leaves_from [] v)"
proof (induction v arbitrary: path)
  case (JObj ob)
  have "leaves_from (path @ [k]) v = map (\<lambda>(p, w). (path @ p, w)) (leaves_from [k] v)"
    if "(k, v) \<in> set ob" for k v
    using JObj [of "(k, v)" v "path @ [k]"] JObj [of "(k, v)" v "[k]"] that
    by (simp add: split_def)
  then show ?case
    by (auto simp: map_concat intro!: arg_cong [of _ _ concat])
qed auto

lemma leaves_Obj:
  "leaves ob = concat (map (\<lambda>(k, v). map (\<lambda>(p, w). (k # p, w)) (leaves_from [] v)) ob)"
  unfolding leaves_def
  by (simp add: leaves_from_path [of "[_]"] split_def)

lemma leaves_from_nonobj: "\<not> isSettings v \<Longrightarrow> leaves_from p v = [(p, v)]"
  by (cases v) auto

lemma leaf_not_settings: "(p, v) \<in> set (leaves_from q w) \<Longrightarrow> \<not> isSettings v"
  by (induction q w rule: leaves_from.induct) auto

lemma obj_get_mem: "distinct (map fst ob) \<Longrightarrow> (k, v) \<in> set ob \<Longrightarrow> obj_get ob k = v"
  by (simp add: obj_get_def)

lemma read_leaf_from:
  "wf_val w \<Longrightarrow> (p, v) \<in> set (leaves_from [] w) \<Longrightarrow> read_node w p = v"
proof (induction w arbitrary: p v)
  case (JObj ob)
  then have "(p, v) \<in> set (leaves ob)" by (simp add: leaves_def)
  then obtain k w q where m: "(k, w) \<in> set ob" "p = k # q" "(q, v) \<in> set (leaves_from [] w)"
    by (auto simp: leaves_Obj)
  moreover have "wf_val w" "obj_get ob k = w"
    using JObj.prems(1) m(1) by (auto simp: list_all_iff obj_get_mem)
  ultimately show ?case using JObj.IH [of "(k, w)" w q v] by simp
qed auto

lemma leaf_path_nonempty: "(p, v) \<in> set (leaves ob) \<Longrightarrow> p \<noteq> []"
  by (auto simp: leaves_Obj)

text \<open>The leaf paths of a tree are pairwise apart: writing one is not seen at another.\<close>

lemma leaves_apart_from:
  "wf_val w \<Longrightarrow> sorted_wrt (\<lambda>(p, v) (q, u). paths_apart q p) (leaves_from [] w)"
proof (induction w)
  case (JObj ob)
  have "sorted_wrt (\<lambda>(p, v) (q, u). paths_apart q p) (leaves ob)"
    using JObj unfolding leaves_Obj
  proof (induction ob)
    case (Cons kv ob)
    obtain k v where kv: "kv = (k, v)" by (cases kv)
    have "sorted_wrt (\<lambda>(p, v) (q, u). paths_apart q p) (leaves_from [] v)"
      using Cons.prems(1) [of kv v] Cons.prems(2) kv by simp
    then have 1: "sorted_wrt (\<lambda>(p, v) (q, u). paths_apart q p)
        (map (\<lambda>(p, w). (k # p, w)) (leaves_from [] v))"
      by (simp add: sorted_wrt_map split_def paths_apart_def)
    have 2: "sorted_wrt (\<lambda>(p, v) (q, u). paths_apart q p)
        (concat (map (\<lambda>(k, v). map (\<lambda>(p, w). (k # p, w)) (leaves_from [] v)) ob))"
      using Cons.prems by (intro Cons.IH) auto
    have "(k, u) \<notin> set ob" for u
      using Cons.prems(2) kv by force
    then have "\<forall>x \<in> set (map (\<lambda>(p, w). (k # p, w)) (leaves_from [] v)).
        \<forall>y \<in> set (concat (map (\<lambda>(k, v). map (\<lambda>(p, w). (k # p, w)) (leaves_from [] v)) ob)).
          paths_apart (fst y) (fst x)"
      by (auto simp: paths_apart_def)
    then show ?case
      using 1 2 unfolding kv by (simp add: sorted_wrt_append split_def)
  qed simp
  then show ?case by (simp only: leaves_def)
qed simp_all

lemmas leaves_apart = leaves_apart_from [of "JObj ob" for ob, folded leaves_def]
lemmas read_leaf = read_leaf_from [of "JObj ob" for ob, folded leaves_def readPath_def]


section \<open>Merging\<close>

definition merge_value :: "jval \<Rightarrow> jval \<Rightarrow> jval" where
  "merge_value old new =
     (case (old, new) of
        (JObj a, JObj b) \<Rightarrow> JObj (mergeSettings a b)
      | _ \<Rightarrow> new)"

lemma merge_Cons:
  "mergeSettings t ((k, v) # s) = mergeSettings (obj_set k (merge_value (obj_get t k) v) t) s"
  by (cases "obj_get t k"; cases v) (simp_all add: merge_value_def)

lemma merge_lookup:
  "distinct (map fst s) \<Longrightarrow>
   map_of (mergeSettings t s) k =
     (case map_of s k of
        None \<Rightarrow> map_of t k
      | Some v \<Rightarrow> Some (merge_value (obj_get t k) v))"
proof (induction s arbitrary: t)
  case (Cons kv s)
  obtain k' v where kv: "kv = (k', v)" by (cases kv)
  have "k = k' \<Longrightarrow> map_of s k = None"
    using Cons.prems kv by (simp add: map_of_eq_None_iff)
  then show ?case
    using Cons unfolding kv merge_Cons by (auto simp: map_of_obj_set split: option.splits)
qed simp

lemma wf_merge:
  "wf_val (JObj t) \<Longrightarrow> wf_val (JObj s) \<Longrightarrow> wf_val (JObj (mergeSettings t s))"
proof (induction t s rule: mergeSettings.induct)
  case (2 t k v s)
  have g: "wf_val (obj_get t k)" by (rule wf_obj_get [OF "2.prems"(1)])
  have v: "wf_val v" "wf_val (JObj s)" using "2.prems"(2) by auto
  have m: "wf_val (merge_value (obj_get t k) v)"
    using 2(1) [of _ _] g v by (cases "obj_get t k"; cases v) (simp_all add: merge_value_def)
  have "wf_val (JObj (obj_set k (merge_value (obj_get t k) v) t))"
    by (rule wf_obj_set [OF "2.prems"(1) m])
  moreover have "(case (obj_get t k, v) of
          (JObj existing, JObj nested) \<Rightarrow> obj_set k (JObj (mergeSettings existing nested)) t
        | _ \<Rightarrow> obj_set k v t) = obj_set k (merge_value (obj_get t k) v) t"
    by (cases "obj_get t k"; cases v) (simp_all add: merge_value_def)
  ultimately show ?case using "2.IH"(2) v(2) by simp
qed simp

text \<open>A path the source says nothing about: some record on the way lacks the next key.\<close>

fun unset_in :: "jobj \<Rightarrow> jstr list \<Rightarrow> bool" where
  "unset_in s [] = False"
| "unset_in s (k # p) =
     (case map_of s k of
        None \<Rightarrow> True
      | Some (JObj b) \<Rightarrow> unset_in b p
      | Some _ \<Rightarrow> False)"

lemma unset_read: "unset_in s p \<Longrightarrow> readPath s p = JUndef"
proof (induction s p rule: unset_in.induct)
  case (2 s k p)
  then show ?case
    by (cases p) (auto simp: readPath_def obj_get_def split: option.splits jval.splits)
qed simp

lemma merge_unset:
  "wf_val (JObj s) \<Longrightarrow> unset_in s p \<Longrightarrow> readPath (mergeSettings t s) p = readPath t p"
proof (induction s p arbitrary: t rule: unset_in.induct)
  case (2 s k p)
  have d: "distinct (map fst s)" using "2.prems" by simp
  show ?case
  proof (cases "map_of s k")
    case None
    then show ?thesis
      by (simp add: readPath_def obj_get_def merge_lookup [OF d])
  next
    case (Some v)
    then obtain b where b: "v = JObj b" "unset_in b p" using "2.prems"(2) by (auto split: jval.splits)
    have "wf_val (JObj b)" using wf_obj_get [OF "2.prems"(1), of k] Some b(1) by (simp add: obj_get_def)
    then have ih: "readPath (mergeSettings a b) p = readPath a p" for a
      using "2.IH" Some b by simp
    obtain c q where p: "p = c # q" using b(2) by (cases p) auto
    have "readPath b p = JUndef" by (rule unset_read [OF b(2)])
    then show ?thesis
      using ih b(1) p
      by (cases "obj_get t k")
         (auto simp: readPath_def obj_get_def [of "mergeSettings t s"] merge_lookup [OF d] Some
           merge_value_def)
  qed
qed simp

lemma merge_leaf:
  "wf_val (JObj s) \<Longrightarrow> readPath s p = v \<Longrightarrow> \<not> isSettings v \<Longrightarrow> \<not> unset_in s p \<Longrightarrow>
   readPath (mergeSettings t s) p = v"
proof (induction p arbitrary: s t)
  case (Cons k p)
  have d: "distinct (map fst s)" using Cons.prems by simp
  obtain w where w: "map_of s k = Some w"
    using Cons.prems(4) by (cases "map_of s k") auto
  have g: "obj_get (mergeSettings t s) k = merge_value (obj_get t k) w"
    by (simp add: obj_get_def [of "mergeSettings t s"] merge_lookup [OF d] w)
  show ?case
  proof (cases w)
    case (JObj b)
    have wf: "wf_val (JObj b)" using wf_obj_get [OF Cons.prems(1), of k] w JObj by (simp add: obj_get_def)
    have r: "readPath b p = v" "\<not> unset_in b p"
      using Cons.prems(2,4) w JObj by (auto simp: readPath_def obj_get_def)
    show ?thesis
      using Cons.IH [OF wf r(1) Cons.prems(3) r(2)] r(1) g JObj
      by (cases "obj_get t k") (auto simp: readPath_def merge_value_def)
  qed (use Cons.prems(2) w g in \<open>auto simp: readPath_def obj_get_def merge_value_def split: jval.splits\<close>)
qed (auto simp: readPath_def)

lemma wf_insensitive: "wf_val (insensitive v)"
proof (induction v rule: insensitive.induct)
  case (2 ob)
  have f: "\<forall>kv \<in> set kvs. wf_val (snd kv) \<Longrightarrow> wf_val (JObj acc) \<Longrightarrow>
      wf_val (JObj (fold (\<lambda>(k, v) acc. obj_set (lower k) v acc) kvs acc))" for kvs acc
  proof (induction kvs arbitrary: acc)
    case (Cons kv kvs)
    then show ?case
      using wf_obj_set [of acc "snd kv" "lower (fst kv)"] by (cases kv) auto
  qed simp
  have "\<forall>kv \<in> set (map (\<lambda>(k, v). (k, insensitive v)) ob). wf_val (snd kv)"
    using 2 by auto
  then show ?case using f [of "map (\<lambda>(k, v). (k, insensitive v)) ob" "[]"]
    by (simp only: insensitive.simps) simp
qed (simp_all add: list_all_iff)


section \<open>Properties\<close>

text \<open>
  Key paths behave as a store.  A value written at a key path is read back there and below
  it, a path that is neither above nor below sees no change, and writing keeps the tree
  well formed (no record gets a duplicate key).
\<close>

theorem write_then_read:
  assumes "p \<noteq> []" "wf_val (JObj s)" "wf_val v"
  shows "readPath (writePath s p v) (p @ q) = read_node v q \<and>
    (\<forall>r. \<not> paths_apart p r \<or> readPath (writePath s p v) r = readPath s r) \<and>
    wf_val (JObj (writePath s p v))"
  using read_write_same [OF assms(1)] read_write_apart wf_writePath [OF assms(2,3)] by blast

theorem write_then_read_witness:
  "readPath (writePath [] [js ''a'', js ''b''] (JNum 1)) [js ''a'', js ''b''] = JNum 1"
  using write_then_read [of "[js ''a'', js ''b'']" "[]" "JNum 1" "[]"] by simp

text \<open>
  Merging two trees.  Every leaf of the winning source is what the merged tree reads at its path,
  every path the source says nothing about reads as before, and the result is well formed.
\<close>

theorem merge_source_wins:
  assumes "wf_val (JObj t)" "wf_val (JObj s)"
  shows "(\<forall>(p, v) \<in> set (leaves s). readPath (mergeSettings t s) p = v) \<and>
    (\<forall>p. \<not> unset_in s p \<or> readPath (mergeSettings t s) p = readPath t p) \<and>
    wf_val (JObj (mergeSettings t s))"
proof -
  have set_leaf: "(p, v) \<in> set (leaves_from [] w) \<Longrightarrow> w = JObj b \<Longrightarrow> wf_val w \<Longrightarrow> \<not> unset_in b p"
    for p v w b
  proof (induction w arbitrary: p v b)
    case (JObj ob)
    then have "(p, v) \<in> set (leaves ob)" by (simp add: leaves_def)
    then obtain k w q where m: "(k, w) \<in> set ob" "p = k # q" "(q, v) \<in> set (leaves_from [] w)"
      by (auto simp: leaves_Obj)
    moreover have "map_of ob k = Some w" "wf_val w"
      using JObj.prems(2,3) m(1) by (auto simp: list_all_iff)
    ultimately show ?case
      using JObj.IH [of "(k, w)" w q v] JObj.prems(2) by (auto split: jval.splits)
  qed auto
  have "readPath (mergeSettings t s) p = v" if "(p, v) \<in> set (leaves s)" for p v
  proof (rule merge_leaf [OF assms(2)])
    show "readPath s p = v" by (rule read_leaf [OF assms(2) that])
    show "\<not> isSettings v" using that leaf_not_settings by (auto simp: leaves_def)
    show "\<not> unset_in s p" using set_leaf [of p v "JObj s" s] that assms(2) by (simp add: leaves_def)
  qed
  then show ?thesis using merge_unset [OF assms(2)] wf_merge [OF assms] by blast
qed

theorem merge_source_wins_witness:
  "readPath (mergeSettings [(js ''a'', JObj [(js ''b'', JNum 1), (js ''c'', JNum 2)])]
     [(js ''a'', JObj [(js ''b'', JBool True)])]) [js ''a'', js ''c''] = JNum 2"
proof -
  let ?t = "[(js ''a'', JObj [(js ''b'', JNum 1), (js ''c'', JNum 2)])]"
  let ?s = "[(js ''a'', JObj [(js ''b'', JBool True)])]" and ?p = "[js ''a'', js ''c'']"
  have "wf_val (JObj ?t)" "wf_val (JObj ?s)" "unset_in ?s ?p" by (simp_all add: js_inject)
  then have "readPath (mergeSettings ?t ?s) ?p = readPath ?t ?p"
    using merge_source_wins [of ?t ?s] by blast
  also have "\<dots> = JNum 2" by (simp add: readPath_def obj_get_def js_inject)
  finally show ?thesis .
qed

text \<open>
  An overlay never changes the type of a setting.  A raw value typed against a declared boolean, number or
  list has that type, or stays the trimmed text when it cannot be read that way; a declared list
  always stays a list, and a list of strings a list of strings.
\<close>

theorem overlay_keeps_type:
  "(case template of
      JBool _ \<Rightarrow> (\<exists>b. parseEnvValue raw template = JBool b) \<or> parseEnvValue raw template = JStr (trim raw)
    | JNum _ \<Rightarrow> (\<exists>r. parseEnvValue raw template = JNum r) \<or> parseEnvValue raw template = JStr (trim raw)
    | JArr items \<Rightarrow> (\<exists>vs. parseEnvValue raw template = JArr vs \<and>
        (if list_all is_str items then list_all is_str vs else True))
    | _ \<Rightarrow> parseEnvValue raw template = JStr (trim raw))"
proof -
  have "list_all is_str (parseList v True)" for v
    by (auto simp: parseList_def typed_items_def list_all_iff split: option.splits jval.splits)
  then show ?thesis
    by (cases template) (auto simp: parseEnvValue_def Let_def split: option.splits)
qed

text \<open>
  Key normal form.  The segments of a key are non-empty, trimmed, lower case and free of
  dots, so a key and its canonical spelling (the segments joined by dots) address the same setting,
  whatever case and padding the caller wrote.
\<close>

theorem splitKey_normal:
  "list_all (\<lambda>p. p \<noteq> [] \<and> trimmed p \<and> lower p = p \<and> 46 \<notin> set p) (splitKey key) \<and>
   splitKey (join [46] (splitKey key)) = splitKey key \<and>
   splitKey (lower key) = splitKey key"
proof -
  have lower46: "lower_unit c = 46 \<longleftrightarrow> c = 46" for c
  proof (cases "lower_unit c = c")
    case False
    then have "is_upper c \<or> (0xC0 \<le> c \<and> c \<le> 0xDE)" and l: "lower_unit c = c + 32"
      by (auto simp: lower_unit_def split: if_splits)
    then have "unat (c + 32) = unat c + 32" "65 \<le> unat c"
      by (auto simp: is_upper_def word_le_nat_alt unat_word_ariths)
    then show ?thesis unfolding l using False l by (auto simp: word_unat_eq_iff)
  qed simp
  have no46: "46 \<notin> set (lower (trim q))" if "46 \<notin> set q" for q
    using that trim_sub [of q] lower46 by (auto simp: lower_def)
  have tl: "trimmed (lower (trim q))" for q
    using trim_trimmed [of "lower q"] by (simp only: trim_lower)
  have norm: "p \<noteq> [] \<and> trimmed p \<and> lower p = p \<and> 46 \<notin> set p" if "p \<in> set (splitKey k)" for p k
  proof -
    from that obtain q where q: "q \<in> set (split_on 46 k)" "p = lower (trim q)" "p \<noteq> []"
      by (auto simp: splitKey_def)
    then show ?thesis using no46 [OF split_on_parts [OF q(1)]] tl [of q] by simp
  qed
  have canon: "splitKey (join [46] ps) = ps"
    if "\<forall>p \<in> set ps. p \<noteq> [] \<and> trimmed p \<and> lower p = p \<and> 46 \<notin> set p" for ps
  proof (cases "ps = []")
    case False
    have "map (\<lambda>p. lower (trim p)) ps = ps"
      using that by (intro map_idI) (simp add: trimmed_trim)
    moreover have "filter (\<lambda>p. p \<noteq> []) ps = ps" using that by (intro filter_True) simp
    ultimately show ?thesis
      using that by (simp only: splitKey_def split_join [OF False])
        (simp add: split_join [OF False])
  qed (simp add: splitKey_def)
  have sl: "split_on 46 (lower k) = map lower (split_on 46 k)" for k
  proof (induction k)
    case (Cons c k)
    obtain p ps where "split_on 46 k = p # ps" by (cases "split_on 46 k") auto
    then show ?case using Cons lower46 by (auto simp: lower_def)
  qed simp
  have "splitKey (lower key) = splitKey key"
    by (simp add: splitKey_def sl trim_lower o_def)
  then show ?thesis using norm canon [of "splitKey key"] unfolding list_all_iff by blast
qed

end
