(* ===== verification/Ini.thy ===== *)
theory Ini
  imports Settings
begin

text \<open>
  The INI reader of \<^verbatim>\<open>tools/utilities/ini.ts\<close>: one recursion over the lines
  that carries the section and the tree being built, with a located error for
  each kind of malformed line.
\<close>

datatype ini_fault =
    ExpectedSectionOrKey jstr
  | MissingKeyName jstr
  | UnterminatedSection jstr
  | UnexpectedAfterSection jstr

record ini_error =
  ie_source :: "jstr option"
  ie_line :: int
  ie_fault :: ini_fault

fun fault_text :: "ini_fault \<Rightarrow> jstr" where
  "fault_text (ExpectedSectionOrKey t) = js ''expected [section] or key = value, got '' @ json_quote t"
| "fault_text (MissingKeyName t) = js ''missing key name in '' @ json_quote t"
| "fault_text (UnterminatedSection t) = js ''unterminated section header '' @ json_quote t"
| "fault_text (UnexpectedAfterSection t) =
     js ''unexpected '' @ json_quote t @ js '' after section header''"

text \<open>The message of the error the reader throws.\<close>

definition iniError :: "ini_error \<Rightarrow> jstr" where
  "iniError e =
     (let at_line = js ''line '' @ int_digits 10 (ie_line e);
          at_file = (case ie_source e of None \<Rightarrow> at_line | Some f \<Rightarrow> f @ js '': '' @ at_line)
      in at_file @ js '': '' @ fault_text (ie_fault e))"

definition is_comment :: "jstr \<Rightarrow> bool" where
  "is_comment t \<longleftrightarrow> starts_with (js '';'') t \<or> starts_with (js ''#'') t"

definition parseSection :: "jstr \<Rightarrow> ini_fault + jstr list" where
  "parseSection text =
     (case index_of 93 text of
        None \<Rightarrow> Inl (UnterminatedSection text)
      | Some e \<Rightarrow>
          (let rest = trim (drop (e + 1) text)
           in if rest \<noteq> [] \<and> \<not> is_comment rest then Inl (UnexpectedAfterSection rest)
              else Inr (splitKey (drop 1 (take e text)))))"

fun asList :: "jval \<Rightarrow> jval list" where
  "asList (JArr vs) = vs"
| "asList v = [v]"

definition readExisting :: "jobj \<Rightarrow> jstr list \<Rightarrow> jval" where
  "readExisting settings path = read_node (JObj settings) path"

definition setIniValue :: "jobj \<Rightarrow> jstr list \<Rightarrow> jval \<Rightarrow> jobj" where
  "setIniValue settings path value =
     (case readExisting settings path of
        JUndef \<Rightarrow> writePath settings path value
      | existing \<Rightarrow> writePath settings path (JArr (asList existing @ asList value)))"

text \<open>The text before a comment marker that follows a blank.\<close>

fun strip_from :: "16 word \<Rightarrow> jstr \<Rightarrow> jstr" where
  "strip_from previous [] = []"
| "strip_from previous (c # s) =
     (if (c = 59 \<or> c = 35) \<and> (previous = 32 \<or> previous = 9) then [] else c # strip_from c s)"

definition stripComment :: "jstr \<Rightarrow> jstr" where
  "stripComment value = (case value of [] \<Rightarrow> [] | c # s \<Rightarrow> c # strip_from c s)"

definition trimIniValue :: "jstr \<Rightarrow> jstr \<times> bool" where
  "trimIniValue raw =
     (let value = trim raw
      in case value of
           [] \<Rightarrow> ([], False)
         | quote # rest \<Rightarrow>
             (case (if quote = 34 \<or> quote = 39 then index_of quote rest else None) of
                Some e \<Rightarrow> (take e rest, True)
              | None \<Rightarrow> (trim (stripComment value), False)))"

definition parseIniValue :: "jstr \<Rightarrow> jval \<Rightarrow> jval" where
  "parseIniValue raw template =
     (let (value, quoted) = trimIniValue raw
      in if quoted then JStr value
         else if starts_with [91] value \<and> ends_with [93] value then JArr (parseList value False)
         else if template \<noteq> JUndef \<and> template \<noteq> JNull then parseEnvValue value template
         else inferScalar value)"

text \<open>One line: the section and the tree after it.\<close>

definition ini_line ::
    "(jstr \<Rightarrow> jval) \<Rightarrow> jstr list \<times> jobj \<Rightarrow> jstr \<Rightarrow> ini_fault + (jstr list \<times> jobj)" where
  "ini_line declared st line =
     (case st of (section, settings) \<Rightarrow>
      let text = trim line
      in if text = [] \<or> is_comment text then Inr (section, settings)
         else if starts_with [91] text then
           and_then (parseSection text) (\<lambda>section'. Inr (section', settings))
         else
           (case index_of 61 text of
              None \<Rightarrow> Inl (ExpectedSectionOrKey text)
            | Some separator \<Rightarrow>
                (let leaf = splitKey (take separator text)
                 in if leaf = [] then Inl (MissingKeyName text)
                    else
                      (let path = section @ leaf;
                           value = parseIniValue (drop (separator + 1) text) (declared (join [46] path))
                       in Inr (section, setIniValue settings path value)))))"

fun ini_lines ::
    "(jstr \<Rightarrow> jval) \<Rightarrow> jstr option \<Rightarrow> int \<Rightarrow> jstr list \<times> jobj \<Rightarrow> jstr list \<Rightarrow>
     ini_error + (jstr list \<times> jobj)" where
  "ini_lines declared src n st [] = Inr st"
| "ini_lines declared src n st (l # ls) =
     (case ini_line declared st l of
        Inl f \<Rightarrow> Inl \<lparr> ie_source = src, ie_line = n, ie_fault = f \<rparr>
      | Inr st' \<Rightarrow> ini_lines declared src (n + 1) st' ls)"

definition parseIni :: "(jstr \<Rightarrow> jval) \<Rightarrow> jstr option \<Rightarrow> jstr \<Rightarrow> ini_error + jobj" where
  "parseIni declared src content =
     and_then (ini_lines declared src 1 ([], []) (split_lines content)) (\<lambda>st. Inr (snd st))"

section \<open>Well-formedness\<close>

lemma wf_json:
  "json_value n s = Some (v, r) \<Longrightarrow> wf_val v"
  "json_elems n s = Some (vs, r) \<Longrightarrow> list_all wf_val vs"
  "json_members n ob s = Some (ob', r) \<Longrightarrow> wf_val (JObj ob) \<Longrightarrow> wf_val (JObj ob')"
proof (induction n s and n s and n ob s arbitrary: v r and vs r and ob' r
    rule: json_value_json_elems_json_members.induct)
  case (2 n s)
  then show ?case
    by (auto simp: json_value.simps(2) split: list.splits if_splits)
next
  case (4 n s)
  then show ?case
    by (auto simp: json_elems.simps(2) split: list.splits if_splits option.splits)
next
  case (6 n ob s)
  note j = "6.prems"(1)
  obtain s' where s: "s = 34 # s'" using j by (auto simp: json_members.simps(2) split: list.splits if_splits)
  obtain k r1 where b: "string_body s' = Some (k, r1)"
    using j s by (auto simp: json_members.simps(2) split: option.splits)
  obtain t where sr: "skip r1 = 58 # t"
    using j s b by (auto simp: json_members.simps(2) split: list.splits if_splits)
  obtain v w where v: "json_value n (skip t) = Some (v, w)"
    using j s b sr by (auto simp: json_members.simps(2) split: option.splits)
  obtain d u where sw: "skip w = d # u"
    using j s b sr v by (auto simp: json_members.simps(2) split: list.splits)
  have wfv: "wf_val (JObj (obj_set k v ob))"
    using 6(1) [OF s _ b refl sr _ v] "6.prems"(2) by (intro wf_obj_set) simp_all
  show ?case
  proof (cases "d = 125")
    case True
    then show ?thesis using j s b sr v sw wfv by (simp add: json_members.simps(2))
  next
    case False
    then have d: "d = 44" "json_members n (obj_set k v ob) (skip u) = Some (ob', r)"
      using j s b sr v sw by (auto simp: json_members.simps(2) split: if_splits)
    show ?thesis
      using 6(2) [OF s _ b refl sr _ v refl sw False d(1) d(2) wfv] by simp
  qed
qed (simp_all add: json_parse_simps)

lemma wf_json_parse: "json_parse s = Some v \<Longrightarrow> wf_val v"
  by (auto simp: json_parse_def split: option.splits if_splits dest: wf_json(1))

lemma wf_inferScalar [simp]: "wf_val (inferScalar s)"
  by (auto simp: inferScalar_def Let_def split: option.split)

lemma wf_parseList: "list_all wf_val (parseList s b)"
  by (auto simp: parseList_def typed_items_def list_all_iff dest!: wf_json_parse
      split: option.splits jval.splits)

lemma wf_parseEnvValue: "wf_val (parseEnvValue raw t)"
  using wf_parseList by (auto simp: parseEnvValue_def Let_def split: jval.split option.split)

lemma wf_parseIniValue: "wf_val (parseIniValue raw t)"
  using wf_parseList wf_parseEnvValue by (auto simp: parseIniValue_def split: prod.splits)


lemma wf_asList: "wf_val v \<Longrightarrow> list_all wf_val (asList v)"
  by (cases v) auto

lemma wf_setIniValue:
  "wf_val (JObj s) \<Longrightarrow> wf_val v \<Longrightarrow> wf_val (JObj (setIniValue s p v))"
proof -
  assume s: "wf_val (JObj s)" and v: "wf_val v"
  have "wf_val w \<Longrightarrow> wf_val (read_node w q)" for w q
    by (induction w q rule: read_node.induct)
       (auto split: jval.splits simp del: wf_val.simps(2) dest: wf_obj_get)
  then have "wf_val (readExisting s p)" using s by (simp add: readExisting_def)
  then have "wf_val (JArr (asList (readExisting s p) @ asList v))"
    using wf_asList v by simp
  then show ?thesis
    using s v by (auto simp: setIniValue_def split: jval.split simp del: wf_val.simps
        intro!: wf_writePath)
qed

lemma wf_ini_lines:
  "ini_lines d src n st ls = Inr st' \<Longrightarrow> wf_val (JObj (snd st)) \<Longrightarrow> wf_val (JObj (snd st'))"
proof (induction d src n st ls arbitrary: st' rule: ini_lines.induct)
  case (2 d src n st l ls)
  then obtain st1 where l: "ini_line d st l = Inr st1" by (auto split: sum.splits)
  have "wf_val (JObj (snd st1))"
    using l "2.prems"(2)
    by (cases st) (auto simp: ini_line_def Let_def and_then_Inr_iff simp del: wf_val.simps(2)
        split: if_splits option.splits intro!: wf_setIniValue wf_parseIniValue)
  then show ?case using 2 l by (auto simp del: wf_val.simps(2))
qed simp

lemma wf_parseIni: "parseIni d src c = Inr s \<Longrightarrow> wf_val (JObj s)"
  by (auto simp: parseIni_def and_then_Inr_iff dest!: wf_ini_lines)

section \<open>Properties\<close>

text \<open>A key or section text that is a plain dotted name: no markers of the format in it.\<close>

definition plain_name :: "jstr \<Rightarrow> bool" where
  "plain_name s \<longleftrightarrow> splitKey s \<noteq> [] \<and> trimmed s \<and> s \<noteq> [] \<and> 61 \<notin> set s \<and> 91 \<notin> set s \<and>
     93 \<notin> set s \<and> 59 \<notin> set s \<and> 35 \<notin> set s"

lemma splitKey_dotted: "splitKey (s @ 46 # k) = splitKey s @ splitKey k"
proof -
  have "split_on 46 (s @ 46 # k) = split_on 46 s @ split_on 46 k"
  proof (induction s)
    case (Cons c s)
    obtain p ps where "split_on 46 s = p # ps" by (cases "split_on 46 s") auto
    then show ?case using Cons by auto
  qed simp
  then show ?thesis by (simp add: splitKey_def)
qed

lemma trim_non_space: "\<not> is_space c \<Longrightarrow> trim (c # s) = c # trim_end s"
proof -
  assume c: "\<not> is_space c"
  have "dropWhile is_space (rev s @ [c]) = dropWhile is_space (rev s) @ [c]"
    using c by (induction "rev s" rule: rev_induct) (auto simp: dropWhile_append)
  then show ?thesis using c by (simp add: trim_def trim_start_def trim_end_def)
qed

lemma plain_not_special: "plain_name s \<Longrightarrow> \<exists>c r. s = c # r \<and> c \<noteq> 91 \<and> c \<noteq> 59 \<and> c \<noteq> 35 \<and> \<not> is_space c"
  by (cases s) (auto simp: plain_name_def trimmed_def)

lemma ini_key_line:
  assumes "plain_name k"
  shows "ini_line d (sec, st) (k @ 61 # v) =
    Inr (sec, setIniValue st (sec @ splitKey k)
      (parseIniValue (trim_end v) (d (join [46] (sec @ splitKey k)))))"
proof -
  obtain c r where k: "k = c # r" "c \<noteq> 91" "c \<noteq> 59" "c \<noteq> 35" "\<not> is_space c"
    using plain_not_special [OF assms] by blast
  have k61: "61 \<notin> set k" and ke: "splitKey k \<noteq> []" using assms by (auto simp: plain_name_def)
  have s61: "\<not> is_space 61" by (simp add: is_space_def)
  have te: "trim_end (a @ 61 # v) = a @ 61 # trim_end v" for a
  proof -
    have "dropWhile is_space (rev v @ 61 # b) = dropWhile is_space (rev v) @ 61 # b" for b
      using s61 by (simp add: dropWhile_append dropWhile_eq_Nil_conv)
    then show ?thesis by (simp add: trim_end_def)
  qed
  have t: "trim (k @ 61 # v) = k @ 61 # trim_end v"
    using trim_non_space [OF k(5), of "r @ 61 # v"] te k(1) by simp
  have ix: "index_of 61 (k @ 61 # trim_end v) = Some (length k)"
    by (rule index_of_append [OF k61])
  have nc: "\<not> is_comment (k @ 61 # trim_end v)" "\<not> starts_with [91] (k @ 61 # trim_end v)"
    using k by (auto simp: is_comment_def starts_with_def js_def)
  show ?thesis
    unfolding ini_line_def split t Let_def ix using nc ke by simp
qed

lemma ini_section_line:
  assumes "93 \<notin> set s"
  shows "ini_line d (sec, st) (91 # s @ [93]) = Inr (splitKey s, st)"
proof -
  have sp: "\<not> is_space 91" "\<not> is_space 93" by (simp_all add: is_space_def)
  then have "trimmed (91 # s @ [93])" by (simp add: trimmed_def)
  then have t: "trim (91 # s @ [93]) = 91 # s @ [93]" by (rule trimmed_trim)
  have ix: "index_of 93 (91 # s @ [93]) = Some (Suc (length s))"
    using index_of_append [of 93 "91 # s" "[]"] assms by simp
  have nc: "\<not> is_comment (91 # s @ [93])" "starts_with [91] (91 # s @ [93])"
    by (auto simp: is_comment_def starts_with_def js_def)
  have p: "parseSection (91 # s @ [93]) = Inr (splitKey s)"
    unfolding parseSection_def ix by simp
  show ?thesis
    unfolding ini_line_def split t Let_def using nc by (simp add: p)
qed

text \<open>
  Sections are dotted keys.  A section header followed by a key line stores the same value under
  the same path, typed against the same declared value, as one line with the dotted key, wherever the
  two appear in a file; only the current section differs afterwards.
\<close>

theorem ini_section_is_dotted:
  assumes "plain_name s" "plain_name k"
  shows "ini_lines d src n (sec, st) [91 # s @ [93], k @ 61 # v] =
      and_then (ini_lines d src m ([], st) [s @ 46 # k @ 61 # v]) (\<lambda>(_, st'). Inr (splitKey s, st'))"
proof -
  have s: "93 \<notin> set s" using assms(1) by (simp add: plain_name_def)
  have "plain_name (s @ 46 # k)"
    using assms by (auto simp: plain_name_def splitKey_dotted trimmed_def split: if_splits)
  from ini_key_line [OF this] show ?thesis
    by (simp add: ini_section_line [OF s] ini_key_line [OF assms(2)] splitKey_dotted)
qed

theorem ini_section_is_dotted_witness:
  "ini_lines (\<lambda>_. JUndef) None 1 ([], []) [js ''[server.gin]'', js ''port=80''] =
   and_then (ini_lines (\<lambda>_. JUndef) None 1 ([], []) [js ''server.gin.port=80''])
     (\<lambda>(_, st). Inr ([js ''server'', js ''gin''], st))"
proof -
  have p: "plain_name (js ''server.gin'')" "plain_name (js ''port'')"
    "splitKey (js ''server.gin'') = [js ''server'', js ''gin'']"
    by code_simp+
  have e: "91 # js ''server.gin'' @ [93] = js ''[server.gin]''"
    "js ''port'' @ 61 # js ''80'' = js ''port=80''"
    "js ''server.gin'' @ 46 # js ''port=80'' = js ''server.gin.port=80''"
    by (simp_all add: js_def)
  show ?thesis
    using ini_section_is_dotted [OF p(1,2), of "\<lambda>_. JUndef" None 1 "[]" "[]" "js ''80''" 1]
    unfolding p(3) e .
qed


lemma ini_lines_append:
  "ini_lines d src n st (ls @ ms) =
     and_then (ini_lines d src n st ls) (\<lambda>st'. ini_lines d src (n + int (length ls)) st' ms)"
  by (induction d src n st ls rule: ini_lines.induct) (auto split: sum.splits simp: algebra_simps)

subsection \<open>Which lines are malformed\<close>

text \<open>
  The grammar of malformed lines, read off the line alone: after the surrounding white space is
  dropped, a line that is no comment and holds neither a section bracket in front nor an equals
  sign; a key line with nothing but blanks and dots before its first equals sign; a section
  header without a closing bracket; and a section header followed by something other than a
  comment.
\<close>

inductive malformed :: "jstr \<Rightarrow> ini_fault \<Rightarrow> bool" where
  no_equals: "trim line = c # t \<Longrightarrow> c \<notin> {59, 35, 91} \<Longrightarrow> 61 \<notin> set (c # t) \<Longrightarrow>
    malformed line (ExpectedSectionOrKey (c # t))"
| no_name: "trim line = name @ 61 # v \<Longrightarrow> \<forall>c\<in>set name. is_space c \<or> c = 46 \<Longrightarrow>
    malformed line (MissingKeyName (name @ 61 # v))"
| no_bracket: "trim line = 91 # t \<Longrightarrow> 93 \<notin> set t \<Longrightarrow> malformed line (UnterminatedSection (91 # t))"
| after_bracket: "trim line = 91 # name @ 93 # rest \<Longrightarrow> 93 \<notin> set name \<Longrightarrow> trim rest = c # t \<Longrightarrow>
    c \<notin> {59, 35} \<Longrightarrow> malformed line (UnexpectedAfterSection (c # t))"

lemma trim_empty: "trim s = [] \<longleftrightarrow> (\<forall>c\<in>set s. is_space c)"
  by (auto simp: trim_def trim_start_def trim_end_def dropWhile_eq_Nil_conv
      dest: set_dropWhileD split: if_splits)
     (metis dropWhile_eq_Nil_conv hd_dropWhile hd_in_set list.set_sel(1))

lemma split_on_set: "c \<in> set s \<Longrightarrow> c \<noteq> d \<Longrightarrow> \<exists>p\<in>set (split_on d s). c \<in> set p"
proof (induction s)
  case (Cons x s)
  then show ?case by (cases "split_on d s") auto
qed simp

lemma splitKey_empty: "splitKey s = [] \<longleftrightarrow> (\<forall>c\<in>set s. is_space c \<or> c = 46)"
proof -
  have "splitKey s = [] \<longleftrightarrow> (\<forall>p\<in>set (split_on 46 s). trim p = [])"
    by (auto simp: splitKey_def filter_empty_conv lower_def)
  also have "\<dots> \<longleftrightarrow> (\<forall>c\<in>set s. is_space c \<or> c = 46)"
    unfolding trim_empty using split_on_set [of _ s 46] split_on_parts [of _ 46 s]
      split_on_sub [of _ 46 s] by blast
  finally show ?thesis .
qed

lemma comment_head: "is_comment t \<longleftrightarrow> (\<exists>c r. t = c # r \<and> c \<in> {59, 35})"
  by (cases t) (auto simp: is_comment_def starts_with_def js_def)

lemma section_head: "starts_with [91] t \<longleftrightarrow> (\<exists>r. t = 91 # r)"
  by (cases t) (auto simp: starts_with_def)

lemma name_head:
  "\<forall>c\<in>set name. is_space c \<or> c = 46 \<Longrightarrow> name @ 61 # v = c # t \<Longrightarrow> c \<noteq> 59 \<and> c \<noteq> 35 \<and> c \<noteq> 91"
  by (cases name) (auto simp: is_space_def)

lemmas name_heads = name_head name_head [OF _ sym]

lemma first_split:
  fixes d :: "16 word"
  assumes "d \<notin> set a" "d \<notin> set b"
  shows "a @ d # x = b @ d # y \<longleftrightarrow> a = b \<and> x = y"
proof
  assume e: "a @ d # x = b @ d # y"
  have "Some (length a) = Some (length b)"
    using index_of_append [OF assms(1), of x] index_of_append [OF assms(2), of y] e by simp
  then show "a = b \<and> x = y" using e by simp
qed simp

lemma malformed_header:
  assumes "trim line = 91 # t"
  shows "parseSection (91 # t) = Inl f \<longleftrightarrow> malformed line f"
proof (cases "93 \<in> set t")
  case False
  then have "index_of 93 (91 # t) = None" by simp
  then have "parseSection (91 # t) = Inl f \<longleftrightarrow> f = UnterminatedSection (91 # t)"
    unfolding parseSection_def \<open>index_of 93 (91 # t) = None\<close> option.case by auto
  then show ?thesis
    using assms False by (auto elim!: malformed.cases dest: name_heads intro: no_bracket)
next
  case True
  then obtain name rest where t: "t = name @ 93 # rest" "93 \<notin> set name"
    by (meson split_list_first)
  have ix: "index_of 93 (91 # t) = Some (Suc (length name))"
    using index_of_append [of 93 "91 # name" rest] t by simp
  have dr: "drop (Suc (length name) + 1) (91 # t) = rest" using t by simp
  have p: "parseSection (91 # t) = Inl f \<longleftrightarrow>
      trim rest \<noteq> [] \<and> \<not> is_comment (trim rest) \<and> f = UnexpectedAfterSection (trim rest)"
    unfolding parseSection_def ix option.case dr Let_def by auto
  have "malformed line f \<longleftrightarrow>
      (\<exists>c u. trim rest = c # u \<and> c \<notin> {59, 35} \<and> f = UnexpectedAfterSection (c # u))"
  proof
    assume "malformed line f"
    then show "\<exists>c u. trim rest = c # u \<and> c \<notin> {59, 35} \<and> f = UnexpectedAfterSection (c # u)"
      by (cases rule: malformed.cases)
         (use assms t in \<open>auto simp: first_split dest: name_heads\<close>)
  qed (use assms t in \<open>auto intro: after_bracket\<close>)
  then show ?thesis unfolding p comment_head by (cases "trim rest") auto
qed

lemma malformed_key:
  assumes "trim line = c # t" "c \<notin> {59, 35, 91}"
  shows "ini_line d st line = Inl f \<longleftrightarrow> malformed line f"
proof (cases "61 \<in> set (c # t)")
  case False
  then have "index_of 61 (c # t) = None" by simp
  then have "ini_line d st line = Inl f \<longleftrightarrow> f = ExpectedSectionOrKey (c # t)"
    using assms by (auto simp: ini_line_def comment_head section_head split: prod.split)
  moreover have "malformed line f \<longleftrightarrow> f = ExpectedSectionOrKey (c # t)"
  proof
    assume "malformed line f"
    then show "f = ExpectedSectionOrKey (c # t)"
    proof (cases rule: malformed.cases)
      case (no_name name v)
      then have "c # t = name @ 61 # v" using assms by simp
      then have "61 \<in> set (c # t)" by (metis in_set_conv_decomp)
      then show ?thesis using False by blast
    qed (use assms in auto)
  qed (use assms False in \<open>auto intro: no_equals\<close>)
  ultimately show ?thesis by simp
next
  case True
  then obtain name v where t: "c # t = name @ 61 # v" "61 \<notin> set name"
    by (meson split_list_first)
  have ix: "index_of 61 (c # t) = Some (length name)"
    unfolding t by (rule index_of_append [OF t(2)])
  have "ini_line d st line = Inl f \<longleftrightarrow> splitKey name = [] \<and> f = MissingKeyName (c # t)"
    unfolding ini_line_def assms(1) Let_def ix option.case
    using assms(2) t(1) by (auto simp: comment_head section_head split: prod.split)
  moreover have "malformed line f \<longleftrightarrow> splitKey name = [] \<and> f = MissingKeyName (c # t)"
  proof
    assume "malformed line f"
    then show "splitKey name = [] \<and> f = MissingKeyName (c # t)"
    proof (cases rule: malformed.cases)
      case (no_name name' v')
      have "61 \<notin> set name'" using no_name(3) by (auto simp: is_space_def)
      then have "name' = name" using first_split [OF _ t(2)] no_name(2) assms(1) t(1) by metis
      then show ?thesis using no_name assms(1) by (simp add: splitKey_empty)
    qed (use assms True in auto)
  next
    assume "splitKey name = [] \<and> f = MissingKeyName (c # t)"
    then show "malformed line f"
      using no_name [of line name v] assms(1) t(1) by (simp add: splitKey_empty)
  qed
  ultimately show ?thesis by simp
qed

text \<open>The reader rejects a line exactly when it is malformed, whatever it read before.\<close>

lemma malformed_line: "ini_line d st line = Inl f \<longleftrightarrow> malformed line f"
proof (cases "trim line")
  case Nil
  then show ?thesis by (auto simp: ini_line_def split: prod.split elim: malformed.cases)
next
  case t: (Cons c t)
  consider (comment) "c \<in> {59, 35}" | (header) "c = 91" | (key) "c \<notin> {59, 35, 91}" by blast
  then show ?thesis
  proof cases
    case comment
    then have "ini_line d st line = Inr st"
      using t by (auto simp: ini_line_def comment_head split: prod.split)
    then show ?thesis
      using comment t by (auto elim!: malformed.cases dest: name_heads)
  next
    case header
    have "ini_line d st line = Inl f \<longleftrightarrow> parseSection (91 # t) = Inl f"
      using header t by (auto simp: ini_line_def comment_head section_head and_then_Inl_iff
          split: prod.split)
    then show ?thesis using malformed_header [of line t f] header t by simp
  next
    case key
    then show ?thesis by (rule malformed_key [OF t])
  qed
qed

lemma malformed_unique: "malformed l f \<Longrightarrow> malformed l g \<Longrightarrow> f = g"
  using malformed_line [of "\<lambda>_. JUndef" "([], [])" l] by (metis sum.inject(1))

lemma ini_lines_error:
  "ini_lines d src n st ls = Inl e \<longleftrightarrow>
     (\<exists>k < length ls. malformed (ls ! k) (ie_fault e) \<and>
        (\<forall>j < k. \<forall>f. \<not> malformed (ls ! j) f) \<and> ie_line e = n + int k \<and> ie_source e = src)"
proof (induction d src n st ls rule: ini_lines.induct)
  case (2 d src n st l ls)
  show ?case
  proof (cases "ini_line d st l")
    case (Inl f)
    then have m: "malformed l f" using malformed_line [of d st l f] by simp
    have u: "malformed l g \<Longrightarrow> g = f" for g by (rule malformed_unique [OF _ m])
    have g: "malformed l g \<longleftrightarrow> g = f" for g using m u by blast
    have "ini_lines d src n st (l # ls) = Inl e \<longleftrightarrow> e = \<lparr> ie_source = src, ie_line = n, ie_fault = f \<rparr>"
      using Inl by auto
    also have "\<dots> \<longleftrightarrow> ie_fault e = f \<and> ie_line e = n \<and> ie_source e = src"
      by (cases e) auto
    finally show ?thesis
      by (simp add: Ex_less_Suc2 All_less_Suc2 g)
  next
    case (Inr st1)
    then have good: "\<not> malformed l f" for f using malformed_line [of d st l f] by simp
    have "ini_lines d src n st (l # ls) = Inl e \<longleftrightarrow> ini_lines d src (n + 1) st1 ls = Inl e"
      using Inr by simp
    then show ?thesis
      unfolding 2 [OF Inr] using good
      by (simp add: Ex_less_Suc2 All_less_Suc2 algebra_simps)
  qed
qed simp

text \<open>
  C5: A malformed file raises.  Parsing fails exactly when some line of the file is malformed, and
  the error is that of the first such line: it carries the line number (counted from one), the
  file and what is wrong with which text.  Which lines are malformed is said by a grammar
  of its own; every other file is read.
\<close>

theorem ini_rejects_first_bad_line:
  "parseIni d src content = Inl e \<longleftrightarrow>
     (\<exists>k < length (split_lines content).
        malformed (split_lines content ! k) (ie_fault e) \<and>
        (\<forall>j < k. \<forall>f. \<not> malformed (split_lines content ! j) f) \<and>
        ie_line e = 1 + int k \<and> ie_source e = src)"
proof -
  have "parseIni d src content = Inl e \<longleftrightarrow>
      ini_lines d src 1 ([], []) (split_lines content) = Inl e"
    by (auto simp: parseIni_def and_then_Inl_iff)
  then show ?thesis by (simp only: ini_lines_error)
qed

theorem ini_rejects_first_bad_line_witness:
  "parseIni (\<lambda>_. JUndef) (Some (js ''default.ini'')) (js ''a=1'' @ 10 # js '' [x'' @ 10 # js ''.='') =
     Inl \<lparr> ie_source = Some (js ''default.ini''), ie_line = 2, ie_fault = UnterminatedSection (js ''[x'') \<rparr>"
proof -
  let ?c = "js ''a=1'' @ 10 # js '' [x'' @ 10 # js ''.=''"
  have ls: "split_lines ?c = [js ''a=1'', js '' [x'', js ''.='']" by code_simp
  have t: "trim (js ''a=1'') = 97 # [61, 49]" "trim (js '' [x'') = 91 # [120]" by code_simp+
  have good: "\<not> malformed (js ''a=1'') f" for f
  proof
    assume "malformed (js ''a=1'') f"
    then show False
      by (cases rule: malformed.cases) (auto simp: t is_space_def Cons_eq_append_conv)
  qed
  have bad: "malformed (js '' [x'') (UnterminatedSection (js ''[x''))"
    using no_bracket [OF t(2)] by (simp add: js_def)
  show ?thesis
    using good bad
    by (intro ini_rejects_first_bad_line [THEN iffD2] exI [of _ "1 :: nat"]) (simp add: ls)
qed

text \<open>
  Quoting and repetition.  A quoted value is stored as the text between its quotes whatever was
  declared for the key, and a key given twice in one file stores the list of both values.
\<close>

theorem ini_quotes_and_repeats:
  assumes "quote = 34 \<or> quote = 39" "quote \<notin> set x"
    and "p \<noteq> []" "readExisting st p = JUndef" "v \<noteq> JUndef"
  shows "parseIniValue (quote # x @ quote # rest) template = JStr x \<and>
    readPath (setIniValue (setIniValue st p v) p w) p = JArr (asList v @ asList w)"
proof
  have sp: "\<not> is_space quote" using assms(1) by (auto simp: is_space_def)
  have "dropWhile is_space (rev rest @ quote # b) = dropWhile is_space (rev rest) @ quote # b" for b
    using sp by (simp add: dropWhile_append dropWhile_eq_Nil_conv)
  then have "trim (quote # x @ quote # rest) = quote # x @ quote # trim_end rest"
    by (simp add: trim_non_space [OF sp] trim_end_def)
  moreover have "index_of quote (x @ quote # trim_end rest) = Some (length x)"
    by (rule index_of_append [OF assms(2)])
  ultimately have "trimIniValue (quote # x @ quote # rest) = (x, True)"
    using assms(1) by (auto simp: trimIniValue_def)
  then show "parseIniValue (quote # x @ quote # rest) template = JStr x"
    by (simp add: parseIniValue_def)
  have "readPath (setIniValue st p v) p = v"
    using assms(4) by (simp add: setIniValue_def settings_store.get_put [OF assms(3)])
  then have r: "readExisting (setIniValue st p v) p = v"
    by (simp add: readExisting_def readPath_def)
  have "setIniValue (setIniValue st p v) p w =
      writePath (setIniValue st p v) p (JArr (asList v @ asList w))"
    using assms(5) r by (simp add: setIniValue_def [of "setIniValue st p v" p w] split: jval.split)
  then show "readPath (setIniValue (setIniValue st p v) p w) p = JArr (asList v @ asList w)"
    by (simp add: settings_store.get_put [OF assms(3)])
qed

theorem ini_quotes_and_repeats_witness:
  "parseIniValue (34 # js ''80'' @ 34 # js '' ; port'') (JNum 1) = JStr (js ''80'')"
proof -
  have "(34 :: 16 word) \<notin> set (js ''80'')" by (simp add: js_def)
  moreover have "readExisting [] [js ''port''] = JUndef" by (simp add: readExisting_def obj_get_def)
  ultimately show ?thesis
    using ini_quotes_and_repeats [of 34 "js ''80''" "[js ''port'']" "[]" JNull] by blast
qed

end
