(* ===== verification/Config.thy ===== *)
theory Config
  imports Ini
begin

text \<open>
  The configuration loader of \<^verbatim>\<open>tools/utilities/config.ts\<close>.

  The process outside the loader (environment variables, files, the working
  directory) is the record \<^verbatim>\<open>world\<close>; a missing permission reads as an unset
  variable, as the code's handlers make it.  The YAML and dotenv parsers are
  packages, so they are arguments: \<^verbatim>\<open>yaml\<close> gives the parsed value or
  None when it throws, \<^verbatim>\<open>dotenv\<close> the entries in order or None.  What the
  loader writes to the process environment is returned as a list of assignments.
\<close>

section \<open>The process\<close>

datatype file_read = NotFound | Content jstr | ReadFails

record world =
  w_env :: "jstr \<Rightarrow> jstr option"
  w_read :: "jstr \<Rightarrow> file_read"
  w_is_file :: "jstr \<Rightarrow> bool"
  w_cwd :: jstr

datatype config_error =
    NoConfiguration jstr
  | MalformedFile jstr
  | NotAMapping jstr
  | IniFailure ini_error
  | ReadFailure jstr

definition APPLICATION_FILES :: "(jstr \<times> bool) list" where
  "APPLICATION_FILES =
     [(js ''application.yml'', True), (js ''application.yaml'', True),
      (js ''application.json'', False)]"

definition DEFAULT_INI :: jstr where "DEFAULT_INI = js ''default.ini''"

definition RESOURCES_DIR :: jstr where "RESOURCES_DIR = js ''resources''"

definition APP_NAME_KEY :: jstr where "APP_NAME_KEY = js ''app.name''"

definition APP_NAME_ENV :: jstr where "APP_NAME_ENV = js ''APP_NAME''"

section \<open>Paths\<close>

definition is_sep :: "16 word \<Rightarrow> bool" where
  "is_sep c \<longleftrightarrow> c = 47 \<or> c = 92"

definition strip_seps :: "jstr \<Rightarrow> jstr" where
  "strip_seps p = rev (dropWhile is_sep (rev p))"

definition joinPath :: "jstr \<Rightarrow> jstr \<Rightarrow> jstr" where
  "joinPath directory name = (if directory = [] then name else strip_seps directory @ 47 # name)"

text \<open>The text before the last separator, if there is one.\<close>

definition before_last_sep :: "jstr \<Rightarrow> jstr option" where
  "before_last_sep p =
     (case dropWhile (\<lambda>c. \<not> is_sep c) (rev p) of [] \<Rightarrow> None | _ # r \<Rightarrow> Some (rev r))"

definition parentPath :: "jstr \<Rightarrow> jstr" where
  "parentPath directory =
     (let trimmed = strip_seps directory
      in case before_last_sep trimmed of
           None \<Rightarrow> trimmed
         | Some d \<Rightarrow> if d = [] then [47] else d)"

definition isAbsolutePath :: "jstr \<Rightarrow> bool" where
  "isAbsolutePath path \<longleftrightarrow>
     starts_with [47] path \<or> starts_with [92] path \<or>
     (case path of c # d # e # _ \<Rightarrow> is_alpha c \<and> d = 58 \<and> is_sep e | _ \<Rightarrow> False)"

lemma strip_seps_length: "length (strip_seps p) \<le> length p"
  using length_dropWhile_le [of is_sep "rev p"] by (simp add: strip_seps_def)

lemma strip_seps_last: "strip_seps p \<noteq> [] \<Longrightarrow> \<not> is_sep (last (strip_seps p))"
  by (simp add: strip_seps_def last_rev hd_dropWhile)

lemma before_last_sep_length: "before_last_sep p = Some d \<Longrightarrow> length d < length p"
proof -
  assume "before_last_sep p = Some d"
  then obtain c r where "dropWhile (\<lambda>c. \<not> is_sep c) (rev p) = c # r" "d = rev r"
    by (auto simp: before_last_sep_def split: list.splits)
  then show ?thesis
    using length_dropWhile_le [of "\<lambda>c. \<not> is_sep c" "rev p"] by simp
qed

text \<open>Going up never lengthens a path, and stays put only on a path without separators.\<close>

lemma parentPath_shorter: "parentPath p \<noteq> p \<Longrightarrow> length (parentPath p) < length p"
proof -
  assume ne: "parentPath p \<noteq> p"
  let ?t = "strip_seps p"
  have le: "length ?t \<le> length p" by (rule strip_seps_length)
  show ?thesis
  proof (cases "before_last_sep ?t")
    case None
    then have "parentPath p = ?t" by (simp add: parentPath_def)
    moreover have "length ?t = length p \<Longrightarrow> ?t = p"
      unfolding strip_seps_def
      by (metis append_eq_conv_conj dropWhile_eq_drop length_rev rev_rev_ident
          append_self_conv2 length_append add_cancel_left_left takeWhile_dropWhile_id length_0_conv)
    ultimately show ?thesis using ne le by (cases "length ?t = length p") auto
  next
    case (Some d)
    have l: "length d < length ?t" by (rule before_last_sep_length [OF Some])
    show ?thesis
    proof (cases "d = []")
      case True
      have "?t \<noteq> [x]" for x
      proof
        assume t: "?t = [x]"
        then have "\<not> is_sep x" using strip_seps_last [of p] by simp
        then show False using Some t by (simp add: before_last_sep_def)
      qed
      then have "2 \<le> length ?t" using l by (cases ?t rule: list.exhaust; cases "tl ?t") auto
      then show ?thesis using le Some True by (simp add: parentPath_def)
    next
      case False
      then show ?thesis using l le Some by (simp add: parentPath_def)
    qed
  qed
qed

section \<open>Finding the configuration directory\<close>

definition iniFileName :: "jstr option \<Rightarrow> jstr option" where
  "iniFileName appName =
     (let name = (case appName of None \<Rightarrow> [] | Some n \<Rightarrow> trim n)
      in if name = [] \<or> name = js ''.'' \<or> name = js ''..'' then None
         else if 47 \<in> set name \<or> 92 \<in> set name then None
         else
           (let file = name @ js ''.ini''
            in if lower file = DEFAULT_INI then None else Some file))"

definition hasIniFile :: "world \<Rightarrow> jstr \<Rightarrow> bool" where
  "hasIniFile w directory =
     (if w_is_file w (joinPath directory DEFAULT_INI) then True
      else (case iniFileName (w_env w APP_NAME_ENV) of
              None \<Rightarrow> False
            | Some name \<Rightarrow> w_is_file w (joinPath directory name)))"

definition hasConfigFiles :: "world \<Rightarrow> jstr \<Rightarrow> bool" where
  "hasConfigFiles w directory \<longleftrightarrow>
     list_ex (\<lambda>(name, _). w_is_file w (joinPath directory name)) APPLICATION_FILES \<or>
     hasIniFile w directory"

function search_up :: "world \<Rightarrow> jstr \<Rightarrow> jstr option" where
  "search_up w directory =
     (if directory = [] then None
      else
        (let candidate = joinPath directory RESOURCES_DIR
         in if hasConfigFiles w candidate then Some candidate
            else if parentPath directory = directory then None
            else search_up w (parentPath directory)))"
  by auto
termination
  by (relation "measure (\<lambda>(w, d). length d)") (auto simp: parentPath_shorter)

declare search_up.simps [simp del]

definition findResourcesDir :: "world \<Rightarrow> jstr \<Rightarrow> jstr option" where
  "findResourcesDir w start =
     search_up w (if isAbsolutePath start then start else joinPath (w_cwd w) start)"

definition resolveConfigDir :: "world \<Rightarrow> jstr \<Rightarrow> jstr" where
  "resolveConfigDir w prefixPath =
     (let start = (if trim prefixPath = [] then w_cwd w else prefixPath)
      in if hasConfigFiles w start then start
         else (case findResourcesDir w start of
                 Some resources \<Rightarrow> resources
               | None \<Rightarrow> joinPath start RESOURCES_DIR))"

section \<open>Loading\<close>

definition readOptionalFile :: "world \<Rightarrow> jstr \<Rightarrow> config_error + jstr option" where
  "readOptionalFile w path =
     (case w_read w path of
        NotFound \<Rightarrow> Inr None
      | Content c \<Rightarrow> Inr (Some c)
      | ReadFails \<Rightarrow> Inl (ReadFailure path))"

definition parseYaml :: "(jstr \<Rightarrow> jval option) \<Rightarrow> jstr \<Rightarrow> jstr \<Rightarrow> config_error + jval" where
  "parseYaml yaml content src =
     (case yaml content of
        None \<Rightarrow> Inl (MalformedFile src)
      | Some JUndef \<Rightarrow> Inr (JObj [])
      | Some JNull \<Rightarrow> Inr (JObj [])
      | Some v \<Rightarrow> Inr v)"

definition parseJson :: "jstr \<Rightarrow> jstr \<Rightarrow> config_error + jval" where
  "parseJson content src =
     (case json_parse content of None \<Rightarrow> Inl (MalformedFile src) | Some v \<Rightarrow> Inr v)"

fun first_application ::
    "world \<Rightarrow> (jstr \<Rightarrow> jval option) \<Rightarrow> jstr \<Rightarrow> (jstr \<times> bool) list \<Rightarrow> config_error + jobj option" where
  "first_application w yaml dir [] = Inr None"
| "first_application w yaml dir ((name, is_yaml) # rest) =
     and_then (readOptionalFile w (joinPath dir name))
       (\<lambda>content. case content of
          None \<Rightarrow> first_application w yaml dir rest
        | Some c \<Rightarrow>
            and_then (if is_yaml then parseYaml yaml c name else parseJson c name)
              (\<lambda>v. case insensitive v of
                     JObj ob \<Rightarrow> Inr (Some ob)
                   | _ \<Rightarrow> Inl (NotAMapping name)))"

definition readApplicationFile :: "world \<Rightarrow> (jstr \<Rightarrow> jval option) \<Rightarrow> jstr \<Rightarrow> config_error + jobj" where
  "readApplicationFile w yaml dir =
     and_then (first_application w yaml dir APPLICATION_FILES)
       (\<lambda>found. case found of
          Some ob \<Rightarrow> Inr ob
        | None \<Rightarrow> if hasIniFile w dir then Inr [] else Inl (NoConfiguration dir))"

definition mergeIniFile :: "world \<Rightarrow> jstr \<Rightarrow> jstr \<Rightarrow> jobj \<Rightarrow> config_error + jobj" where
  "mergeIniFile w path src settings =
     and_then (readOptionalFile w path)
       (\<lambda>content. case content of
          None \<Rightarrow> Inr settings
        | Some c \<Rightarrow>
            (case parseIni (\<lambda>key. readPath settings (splitKey key)) (Some src) c of
               Inl e \<Rightarrow> Inl (IniFailure e)
             | Inr parsed \<Rightarrow> Inr (mergeSettings settings parsed)))"

definition applicationIniName :: "world \<Rightarrow> jobj \<Rightarrow> jstr option" where
  "applicationIniName w settings =
     (case iniFileName (w_env w APP_NAME_ENV) of
        Some f \<Rightarrow> Some f
      | None \<Rightarrow>
          iniFileName (case readPath settings (splitKey APP_NAME_KEY) of
                         JStr s \<Rightarrow> Some s | _ \<Rightarrow> None))"

definition loadIniFiles :: "world \<Rightarrow> jstr \<Rightarrow> jobj \<Rightarrow> config_error + jobj" where
  "loadIniFiles w dir settings =
     and_then (mergeIniFile w (joinPath dir DEFAULT_INI) DEFAULT_INI settings)
       (\<lambda>settings'. case applicationIniName w settings' of
          None \<Rightarrow> Inr settings'
        | Some name \<Rightarrow> mergeIniFile w (joinPath dir name) name settings')"

definition env_file_list :: "jobj \<Rightarrow> jstr list" where
  "env_file_list settings =
     (case readPath settings [js ''env'', js ''files''] of
        JArr items \<Rightarrow> map to_text items
      | JStr s \<Rightarrow> splitCommaSeparated s
      | _ \<Rightarrow> [])"

type_synonym env_overlay = "(jstr \<times> jstr) list"

fun load_env_list ::
    "world \<Rightarrow> (jstr \<Rightarrow> env_overlay option) \<Rightarrow> jstr \<Rightarrow> bool \<Rightarrow> jstr list \<Rightarrow>
     env_overlay \<times> env_overlay \<Rightarrow> config_error + (env_overlay \<times> env_overlay)" where
  "load_env_list w dotenv dir export [] acc = Inr acc"
| "load_env_list w dotenv dir export (file # files) (overlay, exported) =
     (let name = trim file
      in if name = [] then load_env_list w dotenv dir export files (overlay, exported)
         else
           and_then (readOptionalFile w (if isAbsolutePath name then name else joinPath dir name))
             (\<lambda>content. case content of
                None \<Rightarrow> load_env_list w dotenv dir export files (overlay, exported)
              | Some c \<Rightarrow>
                  (case dotenv c of
                     None \<Rightarrow> Inl (MalformedFile name)
                   | Some entries \<Rightarrow>
                       load_env_list w dotenv dir export files
                         (fold (\<lambda>(k, v) m. AList.update k v m) entries overlay,
                          exported @ (if export then entries else [])))))"

definition loadEnvFiles ::
    "world \<Rightarrow> (jstr \<Rightarrow> env_overlay option) \<Rightarrow> jstr \<Rightarrow> jobj \<Rightarrow> bool \<Rightarrow>
     config_error + (env_overlay \<times> env_overlay)" where
  "loadEnvFiles w dotenv dir settings export =
     load_env_list w dotenv dir export (env_file_list settings) ([], [])"

text \<open>The variable a leaf is overridden by: the overlay is consulted before the process.\<close>

definition env_lookup :: "world \<Rightarrow> env_overlay \<Rightarrow> jstr list \<Rightarrow> jstr option" where
  "env_lookup w overlay path =
     (case map_of overlay (envNameFromPath path) of
        Some v \<Rightarrow> Some v
      | None \<Rightarrow> w_env w (envNameFromPath path))"

text \<open>
  \<^verbatim>\<open>forEachLeaf\<close> takes a snapshot of each record before it visits it and the
  visitor only writes the leaf it was given, so the values visited are those of the tree it started from.
\<close>

definition applyEnvOverrides :: "world \<Rightarrow> env_overlay \<Rightarrow> jobj \<Rightarrow> jobj" where
  "applyEnvOverrides w overlay settings =
     foldl (\<lambda>s (path, value).
         case env_lookup w overlay path of
           None \<Rightarrow> s
         | Some raw \<Rightarrow> writePath s path (parseEnvValue raw value))
       settings (leaves settings)"

record load_options =
  environmentOverrides :: bool
  exportEnvFiles :: bool

definition default_options :: load_options where
  "default_options = \<lparr> environmentOverrides = True, exportEnvFiles = True \<rparr>"

definition loadEnv ::
    "world \<Rightarrow> (jstr \<Rightarrow> jval option) \<Rightarrow> (jstr \<Rightarrow> env_overlay option) \<Rightarrow> jstr \<Rightarrow> load_options \<Rightarrow>
     config_error + (jobj \<times> env_overlay)" where
  "loadEnv w yaml dotenv prefixPath opts =
     (let dir = resolveConfigDir w prefixPath
      in and_then (readApplicationFile w yaml dir) (\<lambda>base.
         and_then (loadIniFiles w dir base) (\<lambda>settings.
         and_then (loadEnvFiles w dotenv dir settings (exportEnvFiles opts)) (\<lambda>(overlay, exported).
         Inr (if environmentOverrides opts then applyEnvOverrides w overlay settings else settings,
              exported)))))"

section \<open>The view\<close>

definition config_get :: "jobj \<Rightarrow> jstr \<Rightarrow> jval" where
  "config_get settings key = readPath settings (splitKey key)"

definition config_getString :: "jobj \<Rightarrow> jstr \<Rightarrow> jstr \<Rightarrow> jstr" where
  "config_getString settings key fallback =
     (case readPath settings (splitKey key) of
        JStr s \<Rightarrow> s
      | JNum r \<Rightarrow> number_text r
      | JBool b \<Rightarrow> bool_text b
      | _ \<Rightarrow> fallback)"

definition config_getNumber :: "jobj \<Rightarrow> jstr \<Rightarrow> rat \<Rightarrow> rat" where
  "config_getNumber settings key fallback =
     (case readPath settings (splitKey key) of
        JNum r \<Rightarrow> r
      | JBool b \<Rightarrow> (if b then 1 else 0)
      | JStr s \<Rightarrow>
          (case js_number (trim s) of
             Some r \<Rightarrow> if trim s \<noteq> [] then r else fallback
           | None \<Rightarrow> fallback)
      | _ \<Rightarrow> fallback)"

definition config_getBoolean :: "jobj \<Rightarrow> jstr \<Rightarrow> bool \<Rightarrow> bool" where
  "config_getBoolean settings key fallback =
     (case readPath settings (splitKey key) of
        JBool b \<Rightarrow> b
      | JNum r \<Rightarrow> r \<noteq> 0
      | JStr s \<Rightarrow> (case parseBoolean s of Some b \<Rightarrow> b | None \<Rightarrow> fallback)
      | _ \<Rightarrow> fallback)"

definition config_getStringList :: "jobj \<Rightarrow> jstr \<Rightarrow> jstr list \<Rightarrow> jstr list" where
  "config_getStringList settings key fallback =
     (case readPath settings (splitKey key) of
        JArr items \<Rightarrow> map to_text items
      | JStr s \<Rightarrow> splitCommaSeparated s
      | _ \<Rightarrow> fallback)"

definition config_has :: "jobj \<Rightarrow> jstr \<Rightarrow> bool" where
  "config_has settings key \<longleftrightarrow> readPath settings (splitKey key) \<noteq> JUndef"

definition config_set :: "jobj \<Rightarrow> jstr \<Rightarrow> jval \<Rightarrow> jobj" where
  "config_set settings key value = writePath settings (splitKey key) value"


section \<open>Properties\<close>

lemma override_foldl:
  "foldl (\<lambda>s (path, value).
       case env_lookup w ov path of
         None \<Rightarrow> s
       | Some raw \<Rightarrow> writePath s path (parseEnvValue raw value)) s ls =
   settings_store.put_all s
     (map (\<lambda>(p, v). (p, parseEnvValue (the (env_lookup w ov p)) v))
       (filter (\<lambda>(p, v). env_lookup w ov p \<noteq> None) ls))"
  by (induction ls arbitrary: s) (auto simp: settings_store.put_all_def split: option.splits)

text \<open>
  Environment overrides.  After the overrides every leaf of the merged files reads as the value of
  its environment variable typed like the leaf, when the variable is set (in a loaded env
  file first, then in the process), and as before when it is not; a path apart from
  every leaf is untouched.
\<close>

theorem env_overrides_leaves:
  assumes "wf_val (JObj settings)" "(p, v) \<in> set (leaves settings)"
  shows "readPath (applyEnvOverrides w ov settings) p =
      (case env_lookup w ov p of None \<Rightarrow> v | Some raw \<Rightarrow> parseEnvValue raw v) \<and>
    (\<forall>q. (\<exists>(l, u) \<in> set (leaves settings). \<not> paths_apart l q) \<or>
        readPath (applyEnvOverrides w ov settings) q = readPath settings q)"
proof -
  let ?sel = "filter (\<lambda>(p, v). env_lookup w ov p \<noteq> None) (leaves settings)"
  let ?ws = "map (\<lambda>(p, v). (p, parseEnvValue (the (env_lookup w ov p)) v)) ?sel"
  have app: "applyEnvOverrides w ov settings = settings_store.put_all settings ?ws"
    by (simp add: applyEnvOverrides_def override_foldl)
  have srt: "sorted_wrt (\<lambda>(p, v) (q, u). paths_apart q p) (leaves settings)"
    by (rule leaves_apart [OF assms(1)])
  then have "sorted_wrt (\<lambda>(p, v) (q, u). paths_apart q p) ?sel"
    by (rule sorted_wrt_filter)
  then have srt_ws: "sorted_wrt (\<lambda>(p, v) (q, u). paths_apart q p) ?ws"
    by (simp add: sorted_wrt_map split_def)
  have ne: "p \<noteq> []" by (rule leaf_path_nonempty [OF assms(2)])
  have old: "readPath settings p = v" by (rule read_leaf [OF assms(1,2)])
  have sym: "paths_apart a b = paths_apart b a" for a b by (auto simp: paths_apart_def)
  have other: "paths_apart l p" if "(l, u) \<in> set (leaves settings)" "l \<noteq> p" for l u
  proof -
    from that assms(2) obtain i j where "i < length (leaves settings)" "leaves settings ! i = (l, u)"
      "j < length (leaves settings)" "leaves settings ! j = (p, v)" "i \<noteq> j"
      by (metis in_set_conv_nth prod.inject)
    then show ?thesis
      using sorted_wrt_nth_less [OF srt, of i j] sorted_wrt_nth_less [OF srt, of j i] sym [of l p]
      by (cases "i < j") simp_all
  qed
  have "readPath (applyEnvOverrides w ov settings) p =
      (case env_lookup w ov p of None \<Rightarrow> v | Some raw \<Rightarrow> parseEnvValue raw v)"
  proof (cases "env_lookup w ov p")
    case None
    have "list_all (\<lambda>(l, u). paths_apart l p) ?ws"
      using None by (auto simp: list_all_iff intro!: other)
    then show ?thesis
      unfolding app using None old by (simp add: settings_store.put_all_elsewhere)
  next
    case (Some raw)
    then have "(p, parseEnvValue raw v) \<in> set ?ws" using assms(2) by force
    from settings_store.put_all_reads [OF srt_ws this ne] Some show ?thesis
      unfolding app by simp
  qed
  moreover have "readPath (applyEnvOverrides w ov settings) q = readPath settings q"
    if "\<forall>(l, u) \<in> set (leaves settings). paths_apart l q" for q
    unfolding app by (rule settings_store.put_all_elsewhere) (use that in \<open>auto simp: list_all_iff\<close>)
  ultimately show ?thesis by blast
qed

text \<open>
  An application name cannot leave the configuration directory.  The INI file selected by a
  name is a single path component: it has no separator, is not a dot entry, ends in
  \<^verbatim>\<open>.ini\<close> and is never the shared overlay again.
\<close>

theorem iniFileName_contained:
  assumes "iniFileName n = Some f"
  shows "47 \<notin> set f \<and> 92 \<notin> set f \<and> lower f \<noteq> DEFAULT_INI \<and>
    (\<exists>name. n = Some name \<and> f = trim name @ js ''.ini'' \<and> trim name \<notin> {[], js ''.'', js ''..''})"
proof -
  obtain name where n: "n = Some name" and f: "f = trim name @ js ''.ini''"
    and c: "trim name \<noteq> []" "trim name \<noteq> js ''.''" "trim name \<noteq> js ''..''"
      "47 \<notin> set (trim name)" "92 \<notin> set (trim name)" "lower f \<noteq> DEFAULT_INI"
    using assms by (cases n) (auto simp: iniFileName_def Let_def split: if_splits)
  have "47 \<notin> set (js ''.ini'')" "92 \<notin> set (js ''.ini'')" by (simp_all add: js_def)
  then show ?thesis using n f c by auto
qed

theorem iniFileName_contained_witness:
  "iniFileName (Some (js '' shop '')) = Some (js ''shop.ini'') \<and> 47 \<notin> set (js ''shop.ini'')"
proof -
  have "iniFileName (Some (js '' shop '')) = Some (js ''shop.ini'')" by code_simp
  with iniFileName_contained [OF this] show ?thesis by blast
qed

text \<open>The directories the search visits, nearest first.\<close>

fun ancestors :: "nat \<Rightarrow> jstr \<Rightarrow> jstr list" where
  "ancestors 0 d = []"
| "ancestors (Suc n) d =
     (if d = [] then []
      else d # (if parentPath d = d then [] else ancestors n (parentPath d)))"

lemma search_up_ancestors:
  "length d < n \<Longrightarrow>
   search_up w d = find (hasConfigFiles w) (map (\<lambda>a. joinPath a RESOURCES_DIR) (ancestors n d))"
proof (induction n arbitrary: d)
  case (Suc n)
  have "parentPath d \<noteq> d \<Longrightarrow> length (parentPath d) < n"
    using parentPath_shorter [of d] Suc.prems by simp
  then show ?case
    using Suc.IH [of "parentPath d"] by (subst search_up.simps) (simp add: Let_def)
qed simp


lemma wf_first_application:
  "first_application w yaml dir fs = Inr (Some ob) \<Longrightarrow> wf_val (JObj ob)"
proof (induction w yaml dir fs rule: first_application.induct)
  case (2 w yaml dir name y rest)
  obtain content where r: "readOptionalFile w (joinPath dir name) = Inr content"
    using "2.prems" by auto
  show ?case
  proof (cases content)
    case None
    then show ?thesis using 2 r by simp
  next
    case (Some c)
    then obtain v where "(case insensitive v of JObj ob \<Rightarrow> Inr (Some ob) | _ \<Rightarrow> Inl (NotAMapping name)) =
        Inr (Some ob)"
      using "2.prems" r by auto
    then have "insensitive v = JObj ob" by (auto split: jval.splits)
    then show ?thesis using wf_insensitive [of v] by metis
  qed
qed simp

lemma wf_mergeIniFile:
  "mergeIniFile w path src s = Inr s' \<Longrightarrow> wf_val (JObj s) \<Longrightarrow> wf_val (JObj s')"
proof -
  assume m: "mergeIniFile w path src s = Inr s'" and s: "wf_val (JObj s)"
  then obtain content where r: "readOptionalFile w path = Inr content"
    by (auto simp: mergeIniFile_def)
  show ?thesis
    using m s r
    by (cases content) (auto simp: mergeIniFile_def simp del: wf_val.simps split: sum.splits
        intro: wf_merge wf_parseIni)
qed

lemma wf_put_all:
  "wf_val (JObj s) \<Longrightarrow> \<forall>(p, v) \<in> set ws. wf_val v \<Longrightarrow> wf_val (JObj (settings_store.put_all s ws))"
  unfolding settings_store.put_all_def
  by (induction ws arbitrary: s) (auto simp del: wf_val.simps intro: wf_writePath)

subsection \<open>The layers of a load\<close>

text \<open>The application file: the first of the three names that exists, in their order, read with lower
  case keys; without one, nothing, provided an INI file is there.\<close>

definition application_layer ::
    "world \<Rightarrow> (jstr \<Rightarrow> jval option) \<Rightarrow> jstr \<Rightarrow> jobj \<Rightarrow> bool" where
  "application_layer w yaml dir base \<longleftrightarrow>
     (\<exists>earlier name is_yaml later c v.
        APPLICATION_FILES = earlier @ (name, is_yaml) # later \<and>
        list_all (\<lambda>(n, _). w_read w (joinPath dir n) = NotFound) earlier \<and>
        w_read w (joinPath dir name) = Content c \<and>
        (if is_yaml then parseYaml yaml c name else parseJson c name) = Inr v \<and>
        insensitive v = JObj base) \<or>
     (list_all (\<lambda>(n, _). w_read w (joinPath dir n) = NotFound) APPLICATION_FILES \<and>
        hasIniFile w dir \<and> base = [])"

text \<open>What an INI file says, typed against the tree below it; a missing file says nothing.\<close>

definition ini_layer :: "world \<Rightarrow> jstr \<Rightarrow> jstr \<Rightarrow> jobj \<Rightarrow> jobj \<Rightarrow> bool" where
  "ini_layer w dir name below t \<longleftrightarrow>
     (case w_read w (joinPath dir name) of
        NotFound \<Rightarrow> t = []
      | Content c \<Rightarrow> parseIni (\<lambda>key. readPath below (splitKey key)) (Some name) c = Inr t
      | ReadFails \<Rightarrow> False)"

text \<open>One tree over another, read path by path: the upper one wins where it has a leaf and is
  transparent where it says nothing.\<close>

definition lies_over :: "jobj \<Rightarrow> jobj \<Rightarrow> jobj \<Rightarrow> bool" where
  "lies_over hi lo both \<longleftrightarrow>
     (\<forall>(p, v) \<in> set (leaves hi). readPath both p = v) \<and>
     (\<forall>p. unset_in hi p \<longrightarrow> readPath both p = readPath lo p)"

text \<open>The assignments of the dotenv files that exist, in the order the settings list them.\<close>

definition env_entries ::
    "world \<Rightarrow> (jstr \<Rightarrow> env_overlay option) \<Rightarrow> jstr \<Rightarrow> jstr list \<Rightarrow> env_overlay" where
  "env_entries w dotenv dir files =
     concat (map (\<lambda>name.
         case w_read w (if isAbsolutePath name then name else joinPath dir name) of
           Content c \<Rightarrow> (case dotenv c of Some es \<Rightarrow> es | None \<Rightarrow> [])
         | _ \<Rightarrow> [])
       (filter (\<lambda>name. name \<noteq> []) (map trim files)))"

text \<open>The variable that overrides a path: the last assignment in the dotenv files, then the process.\<close>

definition env_value :: "world \<Rightarrow> env_overlay \<Rightarrow> jstr list \<Rightarrow> jstr option" where
  "env_value w entries p =
     (case map_of (rev entries) (envNameFromPath p) of
        Some v \<Rightarrow> Some v
      | None \<Rightarrow> w_env w (envNameFromPath p))"

lemma readOptionalFile_Inr:
  "readOptionalFile w path = Inr None \<longleftrightarrow> w_read w path = NotFound"
  "readOptionalFile w path = Inr (Some c) \<longleftrightarrow> w_read w path = Content c"
  by (auto simp: readOptionalFile_def split: file_read.splits)

lemma first_application_layer:
  "first_application w yaml dir fs = Inr found \<Longrightarrow>
   (case found of
      None \<Rightarrow> list_all (\<lambda>(n, _). w_read w (joinPath dir n) = NotFound) fs
    | Some base \<Rightarrow>
        (\<exists>earlier name is_yaml later c v. fs = earlier @ (name, is_yaml) # later \<and>
          list_all (\<lambda>(n, _). w_read w (joinPath dir n) = NotFound) earlier \<and>
          w_read w (joinPath dir name) = Content c \<and>
          (if is_yaml then parseYaml yaml c name else parseJson c name) = Inr v \<and>
          insensitive v = JObj base))"
proof (induction w yaml dir fs rule: first_application.induct)
  case (2 w yaml dir name y rest)
  obtain content where r: "readOptionalFile w (joinPath dir name) = Inr content"
    using "2.prems" by auto
  show ?case
  proof (cases content)
    case None
    then have nf: "w_read w (joinPath dir name) = NotFound"
      using r by (simp add: readOptionalFile_Inr)
    have "first_application w yaml dir rest = Inr found" using "2.prems" r None by simp
    note ih = "2.IH" [OF this]
    show ?thesis
    proof (cases found)
      case None
      then show ?thesis using ih nf by simp
    next
      case (Some base)
      then obtain earlier n is_yaml later c v where
        "rest = earlier @ (n, is_yaml) # later"
        "list_all (\<lambda>(n, _). w_read w (joinPath dir n) = NotFound) earlier"
        "w_read w (joinPath dir n) = Content c"
        "(if is_yaml then parseYaml yaml c n else parseJson c n) = Inr v"
        "insensitive v = JObj base"
        using ih by auto
      then show ?thesis
        unfolding Some option.case using nf
        by (intro exI [of _ "(name, y) # earlier"] exI [of _ n] exI [of _ is_yaml]
            exI [of _ later] exI [of _ c] exI [of _ v]) simp
    qed
  next
    case (Some c)
    then have nf: "w_read w (joinPath dir name) = Content c"
      using r by (simp add: readOptionalFile_Inr)
    obtain v where v: "(if y then parseYaml yaml c name else parseJson c name) = Inr v"
      "(case insensitive v of JObj ob \<Rightarrow> Inr (Some ob) | _ \<Rightarrow> Inl (NotAMapping name)) = Inr found"
      using "2.prems" r Some by auto
    then obtain base where b: "found = Some base" "insensitive v = JObj base"
      by (auto split: jval.splits)
    show ?thesis
      unfolding b(1) option.case using nf v(1) b(2)
      by (intro exI [of _ "[]"] exI [of _ name] exI [of _ y] exI [of _ rest] exI [of _ c]
          exI [of _ v]) simp
  qed
qed simp

lemma application_layer:
  "readApplicationFile w yaml dir = Inr base \<Longrightarrow> application_layer w yaml dir base"
proof -
  assume r: "readApplicationFile w yaml dir = Inr base"
  then obtain found where f: "first_application w yaml dir APPLICATION_FILES = Inr found"
    by (auto simp: readApplicationFile_def)
  show ?thesis
    using r f first_application_layer [OF f]
    by (cases found) (auto simp: readApplicationFile_def application_layer_def split: if_splits)
qed

lemma wf_application:
  "readApplicationFile w yaml dir = Inr base \<Longrightarrow> wf_val (JObj base)"
proof -
  assume r: "readApplicationFile w yaml dir = Inr base"
  then obtain found where f: "first_application w yaml dir APPLICATION_FILES = Inr found"
    by (auto simp: readApplicationFile_def)
  then show ?thesis
    using r wf_first_application [of w yaml dir APPLICATION_FILES]
    by (cases found) (auto simp: readApplicationFile_def split: if_splits)
qed

lemma lies_over_nothing: "lies_over [] s s"
  by (simp add: lies_over_def leaves_def)

lemma lies_over_merge:
  "wf_val (JObj s) \<Longrightarrow> wf_val (JObj t) \<Longrightarrow> lies_over t s (mergeSettings s t)"
  using merge_source_wins [of s t] by (auto simp: lies_over_def simp del: wf_val.simps)

lemma mergeIniFile_layer:
  assumes "mergeIniFile w (joinPath dir name) name s = Inr s'" "wf_val (JObj s)"
  shows "\<exists>t. ini_layer w dir name s t \<and> lies_over t s s'"
proof -
  obtain content where r: "readOptionalFile w (joinPath dir name) = Inr content"
    using assms(1) by (auto simp: mergeIniFile_def)
  show ?thesis
  proof (cases content)
    case None
    have "s' = s" using assms(1) r None by (simp add: mergeIniFile_def)
    moreover have "ini_layer w dir name s []"
      using r None by (simp add: ini_layer_def readOptionalFile_Inr)
    ultimately show ?thesis using lies_over_nothing by blast
  next
    case (Some c)
    then obtain t where t: "parseIni (\<lambda>key. readPath s (splitKey key)) (Some name) c = Inr t"
      "s' = mergeSettings s t"
      using r assms(1) by (auto simp: mergeIniFile_def split: sum.splits)
    then have "ini_layer w dir name s t"
      using r Some by (simp add: ini_layer_def readOptionalFile_Inr)
    then show ?thesis
      using t lies_over_merge [OF assms(2) wf_parseIni [OF t(1)]] by blast
  qed
qed

lemma map_of_fold_update:
  "map_of (fold (\<lambda>(k, v) m. AList.update k v m) es ov) n =
     (case map_of (rev es) n of Some v \<Rightarrow> Some v | None \<Rightarrow> map_of ov n)"
  by (induction es arbitrary: ov)
     (auto simp: AList.update_conv' map_add_def split: option.splits)

lemma load_env_list_layer:
  "load_env_list w dotenv dir export files (ov, ex) = Inr (ov', ex') \<Longrightarrow>
   (\<forall>n. map_of ov' n =
      (case map_of (rev (env_entries w dotenv dir files)) n of Some v \<Rightarrow> Some v | None \<Rightarrow> map_of ov n)) \<and>
   ex' = ex @ (if export then env_entries w dotenv dir files else [])"
proof (induction files arbitrary: ov ex)
  case Nil
  then show ?case by (simp add: env_entries_def)
next
  case (Cons entry files)
  let ?path = "if isAbsolutePath (trim entry) then trim entry else joinPath dir (trim entry)"
  show ?case
  proof (cases "trim entry = []")
    case True
    then have e: "env_entries w dotenv dir (entry # files) = env_entries w dotenv dir files"
      by (simp add: env_entries_def)
    have l: "load_env_list w dotenv dir export files (ov, ex) = Inr (ov', ex')"
      using Cons.prems True by simp
    show ?thesis unfolding e by (rule Cons.IH [OF l])
  next
    case False
    then obtain content where r: "readOptionalFile w ?path = Inr content"
      using Cons.prems by (auto simp: Let_def)
    show ?thesis
    proof (cases content)
      case None
      then have "w_read w ?path = NotFound" using r by (simp only: readOptionalFile_Inr)
      then have e: "env_entries w dotenv dir (entry # files) = env_entries w dotenv dir files"
        using False by (simp add: env_entries_def)
      have l: "load_env_list w dotenv dir export files (ov, ex) = Inr (ov', ex')"
        using Cons.prems r None False by (simp add: Let_def)
      show ?thesis unfolding e by (rule Cons.IH [OF l])
    next
      case (Some c)
      then have rd: "w_read w ?path = Content c" using r by (simp only: readOptionalFile_Inr)
      obtain es where es: "dotenv c = Some es"
        and l: "load_env_list w dotenv dir export files
          (fold (\<lambda>(k, v) m. AList.update k v m) es ov, ex @ (if export then es else [])) = Inr (ov', ex')"
        using Cons.prems r Some False by (auto simp: Let_def split: option.splits)
      have e: "env_entries w dotenv dir (entry # files) = es @ env_entries w dotenv dir files"
        using False rd es by (simp add: env_entries_def)
      note ih = Cons.IH [OF l]
      have "ex' = ex @ (if export then env_entries w dotenv dir (entry # files) else [])"
        using ih unfolding e by simp
      moreover have "map_of ov' n = (case map_of (rev (env_entries w dotenv dir (entry # files))) n of
          Some v \<Rightarrow> Some v | None \<Rightarrow> map_of ov n)" for n
        using ih unfolding e by (simp add: map_of_fold_update map_add_def split: option.split)
      ultimately show ?thesis by blast
    qed
  qed
qed

text \<open>
  C6: Loading order.  A successful load is layered: the first application file that exists, over it
  \<^verbatim>\<open>default.ini\<close>, over that the INI file named after the application (the name read from the
  environment or from the tree so far), each typed against what lies below it, the upper layer winning
  wherever it has a leaf and the lower showing through wherever the upper says nothing.  Over every leaf of the
  files lies, when overrides are on, its environment variable: the last assignment in the existing dotenv files
  the settings list, else the process variable, typed like the leaf.  What is exported to
  the process are the assignments of those dotenv files, in order.  The tree stays well formed, so every key path
  names one value, and a key set in memory is read back under any spelling of the same path.
\<close>

theorem load_layers:
  assumes "loadEnv w yaml dotenv prefixPath opts = Inr (settings, exported)"
  shows "\<exists>base shared middle named files.
    (let dir = resolveConfigDir w prefixPath;
         entries = env_entries w dotenv dir (env_file_list files)
     in application_layer w yaml dir base \<and>
        ini_layer w dir DEFAULT_INI base shared \<and> lies_over shared base middle \<and>
        (case applicationIniName w middle of
           None \<Rightarrow> named = []
         | Some n \<Rightarrow> ini_layer w dir n middle named) \<and> lies_over named middle files \<and>
        (\<forall>(p, v) \<in> set (leaves files). readPath settings p =
           (if environmentOverrides opts
            then (case env_value w entries p of None \<Rightarrow> v | Some raw \<Rightarrow> parseEnvValue raw v)
            else v)) \<and>
        exported = (if exportEnvFiles opts then entries else []) \<and>
        wf_val (JObj files) \<and> wf_val (JObj settings) \<and>
        (\<forall>key value spelling. splitKey spelling \<noteq> splitKey key \<or> splitKey key = [] \<or>
            config_get (config_set settings key value) spelling = value))"
proof -
  let ?dir = "resolveConfigDir w prefixPath"
  obtain base files overlay where l: "readApplicationFile w yaml ?dir = Inr base"
    "loadIniFiles w ?dir base = Inr files"
    and env: "loadEnvFiles w dotenv ?dir files (exportEnvFiles opts) = Inr (overlay, exported)"
    and st: "settings = (if environmentOverrides opts then applyEnvOverrides w overlay files else files)"
    using assms by (auto simp: loadEnv_def Let_def)
  have 1: "wf_val (JObj base)" by (rule wf_application [OF l(1)])
  obtain middle where s1: "mergeIniFile w (joinPath ?dir DEFAULT_INI) DEFAULT_INI base = Inr middle"
    and s2: "(case applicationIniName w middle of None \<Rightarrow> Inr middle
      | Some n \<Rightarrow> mergeIniFile w (joinPath ?dir n) n middle) = Inr files"
    using l(2) by (auto simp: loadIniFiles_def)
  have m: "wf_val (JObj middle)" by (rule wf_mergeIniFile [OF s1 1])
  have 2: "wf_val (JObj files)"
    using s2 m wf_mergeIniFile by (cases "applicationIniName w middle") fastforce+
  obtain shared where sh: "ini_layer w ?dir DEFAULT_INI base shared" "lies_over shared base middle"
    using mergeIniFile_layer [OF s1 1] by blast
  obtain named where na: "case applicationIniName w middle of None \<Rightarrow> named = []
      | Some n \<Rightarrow> ini_layer w ?dir n middle named" "lies_over named middle files"
    using s2 mergeIniFile_layer [OF _ m] lies_over_nothing
    by (cases "applicationIniName w middle") fastforce+
  let ?entries = "env_entries w dotenv ?dir (env_file_list files)"
  have ov: "env_lookup w overlay p = env_value w ?entries p"
    and ex: "exported = (if exportEnvFiles opts then ?entries else [])" for p
    using load_env_list_layer [OF env [unfolded loadEnvFiles_def]]
    by (auto simp: env_lookup_def env_value_def split: option.splits)
  have leaf: "readPath settings p =
      (if environmentOverrides opts
       then (case env_value w ?entries p of None \<Rightarrow> v | Some raw \<Rightarrow> parseEnvValue raw v) else v)"
    if "(p, v) \<in> set (leaves files)" for p v
    using env_overrides_leaves [OF 2 that, of w overlay] read_leaf [OF 2 that] st
    by (simp add: ov)
  have 3: "wf_val (JObj settings)"
    using st 2 wf_put_all wf_parseEnvValue
    by (auto simp: applyEnvOverrides_def override_foldl simp del: wf_val.simps)
  have "splitKey spelling \<noteq> splitKey key \<or> splitKey key = [] \<or>
      config_get (config_set settings key v) spelling = v" for key v spelling
    using settings_store.get_put [of "splitKey key" settings v]
    by (auto simp: config_get_def config_set_def)
  then show ?thesis
    unfolding Let_def using application_layer [OF l(1)] sh na leaf ex 2 3
    by (intro exI [of _ base] exI [of _ shared] exI [of _ middle] exI [of _ named]
        exI [of _ files]) blast
qed


definition json_world :: world where
  "json_world = \<lparr> w_env = (\<lambda>_. None),
     w_read = (\<lambda>p. if p = js ''/r/application.json'' then Content (js ''{\"App\":{\"Port\":80}}'') else NotFound),
     w_is_file = (\<lambda>p. p = js ''/r/application.json''), w_cwd = js ''/'' \<rparr>"

theorem load_layers_witness:
  "config_get (config_set [(js ''app'', JObj [(js ''port'', JNum 80)])] (js ''app.port'') (JNum 81))
     (js ''APP . Port'') = JNum 81"
proof -
  have "loadEnv json_world (\<lambda>_. None) (\<lambda>_. None) (js ''/r'') default_options =
      Inr ([(js ''app'', JObj [(js ''port'', JNum 80)])], [])"
    by code_simp
  moreover have "splitKey (js ''APP . Port'') = splitKey (js ''app.port'')" "splitKey (js ''app.port'') \<noteq> []"
    by code_simp+
  ultimately show ?thesis
    using load_layers [of json_world "\<lambda>_. None" "\<lambda>_. None" "js ''/r''" default_options]
    unfolding Let_def by blast
qed

theorem env_overrides_leaves_witness:
  "readPath (applyEnvOverrides (json_world\<lparr> w_env := \<lambda>n. if n = js ''A'' then Some (js ''5'') else None \<rparr>) []
     [(js ''a'', JNum 1)]) [js ''a''] = JNum 5"
proof -
  let ?w = "json_world\<lparr> w_env := \<lambda>n. if n = js ''A'' then Some (js ''5'') else None \<rparr>"
  have "env_lookup ?w [] [js ''a''] = Some (js ''5'')" "parseEnvValue (js ''5'') (JNum 1) = JNum 5"
    by code_simp+
  moreover have "wf_val (JObj [(js ''a'', JNum 1)])" "([js ''a''], JNum 1) \<in> set (leaves [(js ''a'', JNum 1)])"
    by (simp_all add: leaves_def)
  ultimately show ?thesis
    using env_overrides_leaves [of "[(js ''a'', JNum 1)]" "[js ''a'']" "JNum 1" ?w "[]"] by simp
qed

end
