(* ===== verification/Wasm_Abi.thy ===== *)
theory Wasm_Abi
  imports JS_Values
begin

text \<open>
  The error classes of \<^verbatim>\<open>src/wasm/errors.ts\<close> and the contract constants and
  envelopes of \<^verbatim>\<open>src/wasm/contracts.ts\<close>.  An error value keeps the class
  name, the code, the stage, the message and the retry flag; causes are dropped.
\<close>

section \<open>Errors\<close>

datatype wasm_error_code =
    ManifestInvalid
  | IntegrityFailed
  | Incompatible
  | CodecInvalid
  | ClosedCode
  | CancelledCode
  | DeadlineExceeded
  | PoolUnavailable
  | AdapterRejected
  | InvocationFailed
  | GuestFailed
  | CapabilityDenied

fun code_text :: "wasm_error_code \<Rightarrow> jstr" where
  "code_text ManifestInvalid = js ''WASM_MANIFEST_INVALID''"
| "code_text IntegrityFailed = js ''WASM_INTEGRITY_FAILED''"
| "code_text Incompatible = js ''WASM_INCOMPATIBLE''"
| "code_text CodecInvalid = js ''WASM_CODEC_INVALID''"
| "code_text ClosedCode = js ''WASM_CLOSED''"
| "code_text CancelledCode = js ''WASM_CANCELLED''"
| "code_text DeadlineExceeded = js ''WASM_DEADLINE_EXCEEDED''"
| "code_text PoolUnavailable = js ''WASM_POOL_UNAVAILABLE''"
| "code_text AdapterRejected = js ''WASM_ADAPTER_REJECTED''"
| "code_text InvocationFailed = js ''WASM_INVOCATION_FAILED''"
| "code_text GuestFailed = js ''WASM_GUEST_FAILED''"
| "code_text CapabilityDenied = js ''WASM_CAPABILITY_DENIED''"

datatype wasm_stage =
    SManifest | SIntegrity | SCompatibility | SCodec | SLifecycle | SPool | SAdapter | SInvoke
  | SGuest | SCapability

datatype wasm_class =
    RuntimeErr | ManifestErr | IntegrityErr | CompatibilityErr | CodecErr | ClosedErr | CancelledErr
  | DeadlineErr | PoolErr | AdapterErr | InvocationErr | CapabilityDeniedErr | GuestErr

record wasm_error =
  we_class :: wasm_class
  we_code :: jstr
  we_stage :: wasm_stage
  we_message :: jstr
  we_retryable :: bool
  we_field :: "jstr option"
  we_capability :: "jstr option"

definition runtime_error :: "wasm_class \<Rightarrow> jstr \<Rightarrow> wasm_stage \<Rightarrow> jstr \<Rightarrow> bool option \<Rightarrow> wasm_error" where
  "runtime_error cls code stage msg retryable =
     \<lparr> we_class = cls, we_code = code, we_stage = stage, we_message = msg,
       we_retryable = (case retryable of None \<Rightarrow> False | Some b \<Rightarrow> b),
       we_field = None, we_capability = None \<rparr>"

definition manifest_error :: "jstr \<Rightarrow> wasm_error" where
  "manifest_error m = runtime_error ManifestErr (code_text ManifestInvalid) SManifest m None"

definition integrity_error :: "jstr \<Rightarrow> wasm_error" where
  "integrity_error m = runtime_error IntegrityErr (code_text IntegrityFailed) SIntegrity m None"

definition compatibility_error :: "jstr \<Rightarrow> wasm_error" where
  "compatibility_error m =
     runtime_error CompatibilityErr (code_text Incompatible) SCompatibility m None"

definition codec_error :: "jstr \<Rightarrow> wasm_error" where
  "codec_error m = runtime_error CodecErr (code_text CodecInvalid) SCodec m None"

definition closed_error :: "jstr option \<Rightarrow> wasm_error" where
  "closed_error m = runtime_error ClosedErr (code_text ClosedCode) SLifecycle
     (case m of None \<Rightarrow> js ''the GoForge component runtime is closed'' | Some t \<Rightarrow> t) None"

definition cancelled_error :: wasm_error where
  "cancelled_error = runtime_error CancelledErr (code_text CancelledCode) SLifecycle
     (js ''the GoForge component call was cancelled'') None"

definition deadline_error :: wasm_error where
  "deadline_error = runtime_error DeadlineErr (code_text DeadlineExceeded) SLifecycle
     (js ''the GoForge component call exceeded its deadline'') None"

definition pool_error :: "jstr \<Rightarrow> bool option \<Rightarrow> wasm_error" where
  "pool_error m r = runtime_error PoolErr (code_text PoolUnavailable) SPool m r"

definition adapter_error :: "jstr \<Rightarrow> bool option \<Rightarrow> wasm_error" where
  "adapter_error m r = runtime_error AdapterErr (code_text AdapterRejected) SAdapter m r"

definition invocation_error :: "jstr \<Rightarrow> bool option \<Rightarrow> wasm_error" where
  "invocation_error m r = runtime_error InvocationErr (code_text InvocationFailed) SInvoke m r"

definition capability_denied_error :: "jstr \<Rightarrow> wasm_error" where
  "capability_denied_error cap =
     (runtime_error CapabilityDeniedErr (code_text CapabilityDenied) SCapability
        (js ''the GoForge component host denies the '' @ cap @ js '' capability'') None)
       \<lparr> we_capability := Some cap \<rparr>"

definition guest_error :: "jstr \<Rightarrow> jstr \<Rightarrow> bool option \<Rightarrow> jstr option \<Rightarrow> wasm_error" where
  "guest_error code msg retryable field =
     (runtime_error GuestErr (if code = [] then code_text GuestFailed else code) SGuest msg retryable)
       \<lparr> we_field := field \<rparr>"

section \<open>Contract constants\<close>

definition GOFORGE_ABI_V1 :: jstr where "GOFORGE_ABI_V1 = js ''goforge.abi.v1''"

definition GOFORGE_PORTABLE_PACKAGE :: jstr where
  "GOFORGE_PORTABLE_PACKAGE = js ''pointerbyte:goforge''"

definition GOFORGE_PORTABLE_VERSION :: jstr where "GOFORGE_PORTABLE_VERSION = js ''0.1.0''"

definition GOFORGE_PORTABLE_MANIFEST_SCHEMA_V1 :: jstr where
  "GOFORGE_PORTABLE_MANIFEST_SCHEMA_V1 = js ''goforge.manifest.v1''"

definition GOFORGE_BUNDLE_MANIFEST_SCHEMA_V1 :: jstr where
  "GOFORGE_BUNDLE_MANIFEST_SCHEMA_V1 = js ''goforge.bundle-manifest.v1''"

definition GOFORGE_ABI_V1_OPERATIONS :: "jstr list" where
  "GOFORGE_ABI_V1_OPERATIONS =
     [js ''text.normalize'', js ''text.validate'', js ''crypto.sha256'', js ''crypto.hmac-sha256'',
      js ''crypto.aes-gcm.encrypt'', js ''crypto.aes-gcm.decrypt'', js ''encoding.base64.encode'',
      js ''encoding.base64.decode'']"

definition GOFORGE_ABI_V1_OPERATION_CAPABILITIES :: "(jstr \<times> jstr) list" where
  "GOFORGE_ABI_V1_OPERATION_CAPABILITIES =
     [(js ''text.normalize'', js ''portable.normalize''),
      (js ''text.validate'', js ''portable.validate''),
      (js ''crypto.sha256'', js ''crypto.sha256''),
      (js ''crypto.hmac-sha256'', js ''crypto.hmac-sha256''),
      (js ''crypto.aes-gcm.encrypt'', js ''crypto.aes-gcm''),
      (js ''crypto.aes-gcm.decrypt'', js ''crypto.aes-gcm''),
      (js ''encoding.base64.encode'', js ''encoding.base64''),
      (js ''encoding.base64.decode'', js ''encoding.base64'')]"

section \<open>Envelopes\<close>

record abi_metadata =
  deadline_unix_ms :: "rat option"
  cancellation_token :: "jstr option"
  required_capabilities :: "jstr list option"

record abi_request =
  rq_abi :: jstr
  rq_id :: jstr
  rq_operation :: jstr
  rq_metadata :: "jval option"
  rq_payload :: jval

record execution_state =
  clockChecked :: bool
  nowUnixMilliseconds :: rat
  cancellationChecked :: bool
  cancellationToken :: jstr
  cancellationRequested :: bool

text \<open>The message and the flag of an error are None where the code leaves them undefined.\<close>

record abi_error =
  ae_code :: jstr
  ae_message :: "jstr option"
  ae_retryable :: "bool option"
  ae_field :: "jstr option"

datatype abi_response =
    AbiSuccess jstr jval
  | AbiFailure jstr abi_error

record artifact =
  ar_path :: jstr
  ar_sha256 :: jstr

record operation_contract =
  oc_capability :: jstr
  oc_retrySafe :: bool
  oc_securitySensitive :: bool
  oc_nativeAdapters :: "jstr list option"

record bundle_manifest =
  bm_schema :: jstr
  bm_abi :: jstr
  bm_componentVersion :: jstr
  bm_witPackage :: jstr
  bm_source :: artifact
  bm_glue :: artifact
  bm_coreModules :: "(jstr \<times> artifact) list"
  bm_capabilities :: "jstr list"
  bm_operations :: "(jstr \<times> operation_contract) list"

record compatibility =
  cp_componentVersion :: jstr
  cp_witPackage :: jstr
  cp_abi :: "jstr option"
  cp_bundleSchema :: "jstr option"
  cp_abiVersion :: "jstr option"
  cp_schemaVersion :: "jstr option"

record bundle_locator =
  bl_manifestPath :: jstr
  bl_manifestSha256 :: jstr

record verified_bundle =
  vb_manifest :: bundle_manifest
  vb_manifestBytes :: bytes
  vb_sourceBytes :: bytes
  vb_glueBytes :: bytes
  vb_coreModuleBytes :: "(jstr \<times> bytes) list"

datatype execution_target = ComponentTarget | NativeTarget jstr

text \<open>A number the caller supplies: finite, or one of NaN and the infinities.\<close>

datatype js_num = Finite rat | NonFinite

record call_options =
  co_timeoutMs :: "js_num option"
  co_deadline :: "js_num option"
  co_target :: "execution_target option"
  co_requestId :: "jstr option"
  co_cancellationToken :: "jstr option"
  co_requiredCapabilities :: "jstr list option"
  co_allowRetry :: bool

record retry_policy =
  rp_maxAttempts :: rat
  rp_initialDelayMs :: rat
  rp_maxDelayMs :: rat
  rp_transientCodes :: "jstr list"

datatype runtime_state = Idle | Loading | Ready | Degraded | Closing | Closed

record runtime_health =
  rh_state :: runtime_state
  rh_verified :: bool
  rh_activeInstances :: nat
  rh_totalInstances :: nat
  rh_queuedCalls :: nat
  rh_poolSize :: nat
  rh_lastErrorCode :: "jstr option"

datatype event_type =
    LoadStart | LoadSuccess | LoadFailure | CallQueued | CallStart | CallSuccess | CallFailure
  | CallRetry | RuntimeClose

record runtime_event =
  ev_type :: event_type
  ev_timestamp :: rat
  ev_requestId :: "jstr option"
  ev_operation :: "jstr option"
  ev_target :: "jstr option"
  ev_attempt :: "nat option"
  ev_durationMs :: "rat option"
  ev_errorCode :: "jstr option"

lemma wasm_error_codes:
  "we_code (manifest_error m) = code_text ManifestInvalid"
  "we_code (integrity_error m) = code_text IntegrityFailed"
  "we_code (compatibility_error m) = code_text Incompatible"
  "we_code (codec_error m) = code_text CodecInvalid"
  "we_code (closed_error o') = code_text ClosedCode"
  "we_code cancelled_error = code_text CancelledCode"
  "we_code deadline_error = code_text DeadlineExceeded"
  "we_code (pool_error m r) = code_text PoolUnavailable"
  "we_code (adapter_error m r) = code_text AdapterRejected"
  "we_code (invocation_error m r) = code_text InvocationFailed"
  by (simp_all add: manifest_error_def integrity_error_def compatibility_error_def codec_error_def
      closed_error_def cancelled_error_def deadline_error_def pool_error_def adapter_error_def
      invocation_error_def runtime_error_def)

lemma wasm_error_classes [simp]:
  "we_class (manifest_error m) = ManifestErr"
  "we_class (integrity_error m) = IntegrityErr"
  "we_class (compatibility_error m) = CompatibilityErr"
  "we_class (codec_error m) = CodecErr"
  "we_class (closed_error o') = ClosedErr"
  "we_class cancelled_error = CancelledErr"
  "we_class deadline_error = DeadlineErr"
  "we_class (pool_error m r) = PoolErr"
  "we_class (adapter_error m r) = AdapterErr"
  "we_class (invocation_error m r) = InvocationErr"
  "we_class (guest_error c m r f) = GuestErr"
  by (simp_all add: manifest_error_def integrity_error_def compatibility_error_def codec_error_def
      closed_error_def cancelled_error_def deadline_error_def pool_error_def adapter_error_def
      invocation_error_def guest_error_def runtime_error_def)

end
