(* ===== verification/Wasm_Pool.thy ===== *)
theory Wasm_Pool
  imports Wasm_Abi
begin

text \<open>
  The component instance pool of \<^verbatim>\<open>src/wasm/runtime.ts\<close> (\<^verbatim>\<open>InstancePool\<close> and
  \<^verbatim>\<open>InstanceLease\<close>).

  Every handler that runs between two awaits is one operation on the pool's state: the calls of the
  runtime (acquire, release, close), the abort listeners, and the settlements of the promises the pool
  waits for (instance creation, an instance's close, the final close of all instances).  An acquire
  promise is known by a number, and so is the lease it is fulfilled with.  The factory is taken not to
  call back into the pool synchronously.
\<close>

section \<open>State\<close>

record pool_entry =
  pe_id :: nat
  pe_busy :: bool

record pool_waiter =
  wt_id :: nat
  wt_signal :: nat

datatype outcome = Granted nat | Refused wasm_error

datatype close_result = NotClosing | Pending | Resolved | Rejected

record pool =
  po_max :: nat
  po_entries :: "pool_entry list"
  po_waiters :: "pool_waiter list"
  po_creating :: "nat list"
  po_nextId :: nat
  po_closed :: bool
  po_finalizing :: bool
  po_closeFailures :: nat
  po_closePromise :: close_result
  po_aborted :: "(nat \<times> wasm_error option) list"
  po_outcomes :: "(nat \<times> outcome) list"
  po_released :: "nat list"
  po_created :: "nat list"
  po_closeCalls :: "nat list"
  po_closing :: "nat list"
  po_late :: "nat list"

definition newPool :: "nat \<Rightarrow> pool" where
  "newPool m = \<lparr> po_max = m, po_entries = [], po_waiters = [], po_creating = [], po_nextId = 1,
     po_closed = False, po_finalizing = False, po_closeFailures = 0, po_closePromise = NotClosing,
     po_aborted = [], po_outcomes = [], po_released = [], po_created = [], po_closeCalls = [],
     po_closing = [], po_late = [] \<rparr>"

record pool_stats =
  ps_active :: nat
  ps_total :: nat
  ps_queued :: nat

definition pool_stats_of :: "pool \<Rightarrow> pool_stats" where
  "pool_stats_of p = \<lparr> ps_active = length (filter pe_busy (po_entries p)),
     ps_total = length (po_entries p), ps_queued = length (po_waiters p) \<rparr>"

definition abort_error :: "wasm_error option \<Rightarrow> wasm_error" where
  "abort_error r = (case r of None \<Rightarrow> cancelled_error | Some e \<Rightarrow> e)"

definition settle_waiter :: "nat \<Rightarrow> outcome \<Rightarrow> pool \<Rightarrow> pool" where
  "settle_waiter w r p = p \<lparr> po_outcomes := po_outcomes p @ [(w, r)] \<rparr>"

definition set_busy :: "nat \<Rightarrow> bool \<Rightarrow> pool_entry list \<Rightarrow> pool_entry list" where
  "set_busy i b es = map (\<lambda>e. if pe_id e = i then e \<lparr> pe_busy := b \<rparr> else e) es"

section \<open>Operations\<close>

definition maybeFinishClose :: "pool \<Rightarrow> pool" where
  "maybeFinishClose p =
     (if \<not> po_closed p \<or> po_finalizing p \<or> po_creating p \<noteq> [] then p
      else if list_ex pe_busy (po_entries p) then p
      else p \<lparr> po_finalizing := True, po_entries := [],
               po_closeCalls := po_closeCalls p @ map pe_id (po_entries p) \<rparr>)"

definition startCreate :: "pool \<Rightarrow> pool" where
  "startCreate p = p \<lparr> po_nextId := po_nextId p + 1, po_creating := po_creating p @ [po_nextId p] \<rparr>"

definition grant :: "pool_waiter \<Rightarrow> pool_entry \<Rightarrow> pool \<Rightarrow> pool" where
  "grant w e p = settle_waiter (wt_id w) (Granted (pe_id e))
     (p \<lparr> po_entries := set_busy (pe_id e) True (po_entries p) \<rparr>)"

function pump_loop :: "pool \<Rightarrow> pool" where
  "pump_loop p =
     (case po_waiters p of
        [] \<Rightarrow> p
      | w # ws \<Rightarrow>
          (case find (\<lambda>e. \<not> pe_busy e) (po_entries p) of
             Some e \<Rightarrow>
               (case map_of (po_aborted p) (wt_signal w) of
                  Some r \<Rightarrow> pump_loop (settle_waiter (wt_id w) (Refused (abort_error r)) (p \<lparr> po_waiters := ws \<rparr>))
                | None \<Rightarrow> pump_loop (grant w e (p \<lparr> po_waiters := ws \<rparr>)))
           | None \<Rightarrow>
               if length (po_waiters p) \<le> length (po_creating p) then p
               else if po_max p \<le> length (po_entries p) + length (po_creating p) then p
               else pump_loop (startCreate p)))"
  by auto
termination
  by (relation "measure (\<lambda>p. length (po_waiters p) +
        (po_max p - (length (po_entries p) + length (po_creating p))))")
     (auto simp: settle_waiter_def grant_def startCreate_def set_busy_def)

definition pump :: "pool \<Rightarrow> pool" where
  "pump p = (if po_closed p then maybeFinishClose p else pump_loop p)"

definition acquire :: "nat \<Rightarrow> nat \<Rightarrow> pool \<Rightarrow> pool" where
  "acquire w signal p =
     (if po_closed p then settle_waiter w (Refused (closed_error None)) p
      else
        (case map_of (po_aborted p) signal of
           Some r \<Rightarrow> settle_waiter w (Refused (abort_error r)) p
         | None \<Rightarrow> pump (p \<lparr> po_waiters := po_waiters p @ [\<lparr> wt_id = w, wt_signal = signal \<rparr>] \<rparr>)))"

text \<open>The abort listeners of a signal, in registration order; one that was removed does not run.\<close>

definition onAbort :: "wasm_error option \<Rightarrow> pool_waiter \<Rightarrow> pool \<Rightarrow> pool" where
  "onAbort reason w p =
     (if w \<in> set (po_waiters p) then
        pump (settle_waiter (wt_id w) (Refused (abort_error reason))
          (p \<lparr> po_waiters := remove1 w (po_waiters p) \<rparr>))
      else p)"

definition abortSignal :: "nat \<Rightarrow> wasm_error option \<Rightarrow> pool \<Rightarrow> pool" where
  "abortSignal signal reason p =
     (if map_of (po_aborted p) signal \<noteq> None then p
      else fold (onAbort reason) (filter (\<lambda>w. wt_signal w = signal) (po_waiters p))
             (p \<lparr> po_aborted := (signal, reason) # po_aborted p \<rparr>))"

definition poolRelease :: "nat \<Rightarrow> bool \<Rightarrow> pool \<Rightarrow> pool" where
  "poolRelease i discard p =
     (if i \<notin> set (map pe_id (po_entries p)) then p
      else if discard \<or> po_closed p then
        p \<lparr> po_entries := filter (\<lambda>e. pe_id e \<noteq> i) (po_entries p),
            po_closeCalls := po_closeCalls p @ [i], po_closing := po_closing p @ [i] \<rparr>
      else pump (p \<lparr> po_entries := set_busy i False (po_entries p) \<rparr>))"

definition leaseRelease :: "nat \<Rightarrow> bool \<Rightarrow> pool \<Rightarrow> pool" where
  "leaseRelease w discard p =
     (if w \<in> set (po_released p) then p
      else
        (case map_of (po_outcomes p) w of
           Some (Granted i) \<Rightarrow> poolRelease i discard (p \<lparr> po_released := w # po_released p \<rparr>)
         | _ \<Rightarrow> p))"

definition closeSettled :: "nat \<Rightarrow> bool \<Rightarrow> pool \<Rightarrow> pool" where
  "closeSettled i ok p =
     maybeFinishClose (pump (p \<lparr> po_closing := remove1 i (po_closing p),
       po_closeFailures := po_closeFailures p + (if \<not> ok \<and> po_closed p then 1 else 0) \<rparr>))"

definition createDone :: "nat \<Rightarrow> pool \<Rightarrow> pool" where
  "createDone i p =
     (let q = p \<lparr> po_creating := remove1 i (po_creating p), po_created := po_created p @ [i] \<rparr>
      in if po_closed p then q \<lparr> po_closeCalls := po_closeCalls q @ [i], po_late := po_late q @ [i] \<rparr>
         else pump (q \<lparr> po_entries := po_entries q @ [\<lparr> pe_id = i, pe_busy = False \<rparr>] \<rparr>))"

definition lateClosed :: "nat \<Rightarrow> bool \<Rightarrow> pool \<Rightarrow> pool" where
  "lateClosed i ok p =
     maybeFinishClose (p \<lparr> po_late := remove1 i (po_late p),
       po_closeFailures := po_closeFailures p + (if ok then 0 else 1) \<rparr>)"

definition createFailed :: "nat \<Rightarrow> wasm_error option \<Rightarrow> pool \<Rightarrow> pool" where
  "createFailed i cause p =
     (let q = p \<lparr> po_creating := remove1 i (po_creating p) \<rparr>;
          error = (case cause of Some e \<Rightarrow> e
                   | None \<Rightarrow> pool_error (js ''component instance creation failed'') None)
      in maybeFinishClose (pump
           (case po_waiters q of
              [] \<Rightarrow> q
            | w # ws \<Rightarrow> settle_waiter (wt_id w) (Refused error) (q \<lparr> po_waiters := ws \<rparr>))))"

definition closePool :: "pool \<Rightarrow> pool" where
  "closePool p =
     (if po_closePromise p \<noteq> NotClosing then p
      else maybeFinishClose (p \<lparr> po_closed := True, po_waiters := [],
             po_outcomes := po_outcomes p @ map (\<lambda>w. (wt_id w, Refused (closed_error None))) (po_waiters p),
             po_closePromise := Pending \<rparr>))"

text \<open>The final closes have settled, \<^term>\<open>n\<close> of them with a failure.\<close>

definition finalized :: "nat \<Rightarrow> pool \<Rightarrow> pool" where
  "finalized n p = p \<lparr> po_closePromise := (if po_closeFailures p + n > 0 then Rejected else Resolved) \<rparr>"

section \<open>Executions\<close>

datatype pool_event =
    Acquire nat nat
  | AcquireRefused nat nat
  | Abort nat "wasm_error option"
  | Release nat bool
  | CloseSettled nat bool
  | Created nat
  | CreateFailed nat "wasm_error option"
  | LateClosed nat bool
  | ClosePool
  | Finalized nat

definition fresh_request :: "nat \<Rightarrow> pool \<Rightarrow> bool" where
  "fresh_request w p \<longleftrightarrow> w \<notin> set (map fst (po_outcomes p)) \<and> w \<notin> set (map wt_id (po_waiters p))"

definition can_queue :: "nat \<Rightarrow> pool \<Rightarrow> bool" where
  "can_queue signal p \<longleftrightarrow> \<not> po_closed p \<and> map_of (po_aborted p) signal = None"

inductive pool_step :: "pool \<Rightarrow> pool_event \<Rightarrow> pool \<Rightarrow> bool" where
  "fresh_request w p \<Longrightarrow> can_queue s p \<Longrightarrow> pool_step p (Acquire w s) (acquire w s p)"
| "fresh_request w p \<Longrightarrow> \<not> can_queue s p \<Longrightarrow> pool_step p (AcquireRefused w s) (acquire w s p)"
| "pool_step p (Abort s r) (abortSignal s r p)"
| "pool_step p (Release w d) (leaseRelease w d p)"
| "i \<in> set (po_closing p) \<Longrightarrow> pool_step p (CloseSettled i ok) (closeSettled i ok p)"
| "i \<in> set (po_creating p) \<Longrightarrow> pool_step p (Created i) (createDone i p)"
| "i \<in> set (po_creating p) \<Longrightarrow> pool_step p (CreateFailed i c) (createFailed i c p)"
| "i \<in> set (po_late p) \<Longrightarrow> pool_step p (LateClosed i ok) (lateClosed i ok p)"
| "pool_step p ClosePool (closePool p)"
| "po_finalizing p \<Longrightarrow> po_closePromise p = Pending \<Longrightarrow> pool_step p (Finalized n) (finalized n p)"

inductive_cases pool_stepE: "pool_step p e q"
inductive_simps acquire_step: "pool_step p (Acquire w s) q"
inductive_simps created_step: "pool_step p (Created i) q"

section \<open>The invariant\<close>

text \<open>The instances held by leases that were granted and not released, in the order of the grants.\<close>

fun live_ids :: "nat list \<Rightarrow> (nat \<times> outcome) list \<Rightarrow> nat list" where
  "live_ids rel [] = []"
| "live_ids rel ((w, Granted i) # os) = (if w \<in> set rel then live_ids rel os else i # live_ids rel os)"
| "live_ids rel ((w, Refused e) # os) = live_ids rel os"

definition leased :: "pool \<Rightarrow> nat list" where
  "leased p = live_ids (po_released p) (po_outcomes p)"

definition busy_ids :: "pool_entry list \<Rightarrow> nat list" where
  "busy_ids es = map pe_id (filter pe_busy es)"

definition pool_ids :: "pool \<Rightarrow> bool" where
  "pool_ids p \<longleftrightarrow>
     distinct (map pe_id (po_entries p) @ po_creating p @ po_closeCalls p) \<and>
     (\<forall>i \<in> set (map pe_id (po_entries p) @ po_creating p @ po_closeCalls p). i < po_nextId p) \<and>
     set (po_created p) = set (map pe_id (po_entries p)) \<union> set (po_closeCalls p)"

definition pool_leases :: "pool \<Rightarrow> bool" where
  "pool_leases p \<longleftrightarrow>
     distinct (map fst (po_outcomes p) @ map wt_id (po_waiters p)) \<and>
     set (po_released p) \<subseteq> set (map fst (po_outcomes p)) \<and>
     distinct (leased p) \<and> set (leased p) = set (busy_ids (po_entries p))"

definition pool_closing :: "pool \<Rightarrow> bool" where
  "pool_closing p \<longleftrightarrow>
     (po_closed p \<longrightarrow> po_waiters p = []) \<and>
     (po_finalizing p \<longrightarrow> po_closed p \<and> po_entries p = [] \<and> po_creating p = []) \<and>
     (po_closePromise p = NotClosing \<longleftrightarrow> \<not> po_closed p) \<and>
     (po_closePromise p = Resolved \<or> po_closePromise p = Rejected \<longrightarrow> po_finalizing p)"

definition pool_core :: "pool \<Rightarrow> bool" where
  "pool_core p \<longleftrightarrow>
     length (po_entries p) + length (po_creating p) \<le> po_max p \<and>
     pool_ids p \<and> pool_leases p \<and> pool_closing p"

lemma live_append: "live_ids rel (os @ os') = live_ids rel os @ live_ids rel os'"
  by (induction rel os rule: live_ids.induct) auto

lemma live_refused [simp]: "live_ids rel (map (\<lambda>w. (f w, Refused (g w))) ws) = []"
  by (induction ws) auto

lemma live_release_other: "w \<notin> set (map fst os) \<Longrightarrow> live_ids (w # rel) os = live_ids rel os"
  by (induction rel os rule: live_ids.induct) auto

lemma live_release:
  "distinct (map fst os) \<Longrightarrow> map_of os w = Some (Granted i) \<Longrightarrow> w \<notin> set rel \<Longrightarrow>
   distinct (live_ids rel os) \<Longrightarrow>
   i \<in> set (live_ids rel os) \<and> distinct (live_ids (w # rel) os) \<and>
   set (live_ids (w # rel) os) = set (live_ids rel os) - {i}"
proof (induction os)
  case (Cons x os)
  obtain v r where x: "x = (v, r)" by fastforce
  show ?case
  proof (cases "v = w")
    case True
    then have "r = Granted i" "w \<notin> set (map fst os)" using Cons.prems x by auto
    then show ?thesis
      using True Cons.prems x by (simp add: live_release_other)
  next
    case False
    then have m: "map_of os w = Some (Granted i)" using Cons.prems x by auto
    have d: "distinct (live_ids rel os)" using Cons.prems(4) x by (cases r) (auto split: if_splits)
    have "set (live_ids rel os) = insert i (set (live_ids (w # rel) os))"
      "i \<in> set (live_ids rel os)" "distinct (live_ids (w # rel) os)"
      "set (live_ids (w # rel) os) = set (live_ids rel os) - {i}"
      using Cons.IH [OF _ m Cons.prems(3) d] Cons.prems(1) by auto
    then show ?thesis
      using Cons.prems(4) x False by (cases r) (auto split: if_splits)
  qed
qed simp

lemma set_busy_ids [simp]: "map pe_id (set_busy i b es) = map pe_id es"
  by (induction es) (auto simp: set_busy_def)

lemma set_busy_length [simp]: "length (set_busy i b es) = length es"
  by (simp add: set_busy_def)

lemma set_busy_id_set [simp]: "pe_id ` set (set_busy i b es) = pe_id ` set es"
  by (metis set_busy_ids list.set_map)

lemma busy_set_True:
  "i \<in> set (map pe_id es) \<Longrightarrow> set (busy_ids (set_busy i True es)) = insert i (set (busy_ids es))"
  by (induction es) (auto simp: set_busy_def busy_ids_def)

lemma busy_set_False: "set (busy_ids (set_busy i False es)) = set (busy_ids es) - {i}"
  by (induction es) (auto simp: set_busy_def busy_ids_def)

lemma busy_removed:
  "set (busy_ids (filter (\<lambda>e. pe_id e \<noteq> i) es)) = set (busy_ids es) - {i}"
  by (induction es) (auto simp: busy_ids_def)

lemma busy_none: "\<not> list_ex pe_busy es \<Longrightarrow> busy_ids es = []"
  by (induction es) (auto simp: busy_ids_def)

lemma find_idle:
  "find (\<lambda>e. \<not> pe_busy e) es = Some e \<Longrightarrow> e \<in> set es \<and> \<not> pe_busy e"
  by (auto simp: find_Some_iff)

lemma idle_not_busy:
  "distinct (map pe_id es) \<Longrightarrow> e \<in> set es \<Longrightarrow> \<not> pe_busy e \<Longrightarrow> pe_id e \<notin> set (busy_ids es)"
  by (auto simp: busy_ids_def distinct_map dest: inj_onD)

lemma core_refuse:
  "pool_core p \<Longrightarrow> po_waiters p = w # ws \<Longrightarrow>
   pool_core (settle_waiter (wt_id w) (Refused r) (p \<lparr> po_waiters := ws \<rparr>))"
  by (auto simp: pool_core_def pool_ids_def pool_leases_def pool_closing_def settle_waiter_def
      leased_def live_append)

lemma core_grant:
  assumes c: "pool_core p" and w: "po_waiters p = w # ws"
    and f: "find (\<lambda>e. \<not> pe_busy e) (po_entries p) = Some e"
  shows "pool_core (grant w e (p \<lparr> po_waiters := ws \<rparr>))"
proof -
  have e: "e \<in> set (po_entries p)" "\<not> pe_busy e" using find_idle [OF f] by auto
  have i: "pe_id e \<in> set (map pe_id (po_entries p))" using e by simp
  have n: "pe_id e \<notin> set (busy_ids (po_entries p))"
    using c idle_not_busy [OF _ e] by (simp add: pool_core_def pool_ids_def)
  have r: "wt_id w \<notin> set (po_released p)"
    using c w by (auto simp: pool_core_def pool_leases_def)
  show ?thesis
    using c w i n r
    by (auto simp: pool_core_def pool_ids_def pool_leases_def pool_closing_def settle_waiter_def
        grant_def leased_def live_append busy_set_True)
qed

lemma core_startCreate:
  "pool_core p \<Longrightarrow> \<not> po_max p \<le> length (po_entries p) + length (po_creating p) \<Longrightarrow>
   \<not> po_finalizing p \<Longrightarrow> pool_core (startCreate p)"
  by (auto simp: pool_core_def pool_ids_def pool_leases_def pool_closing_def startCreate_def leased_def
      less_Suc_eq)

lemma pump_loop_keeps:
  "pool_core p \<Longrightarrow> \<not> po_closed p \<Longrightarrow> pool_core (pump_loop p)"
proof (induction p rule: pump_loop.induct)
  case (1 p)
  have nf: "\<not> po_finalizing p" using "1.prems" by (auto simp: pool_core_def pool_closing_def)
  show ?case
  proof (cases "po_waiters p")
    case Nil
    then show ?thesis using 1 by simp
  next
    case (Cons w ws)
    then show ?thesis
      using "1.prems" "1.IH" (1,2) [OF Cons] "1.IH" (3) [OF Cons] core_refuse [OF "1.prems"(1) Cons]
        core_grant [OF "1.prems"(1) Cons] core_startCreate [OF "1.prems"(1) _ nf]
      by (subst pump_loop.simps)
         (auto simp: settle_waiter_def grant_def startCreate_def split: option.splits simp del: pump_loop.simps)
  qed
qed

declare pump_loop.simps [simp del]

lemma core_finish: "pool_core p \<Longrightarrow> pool_core (maybeFinishClose p)"
  by (auto simp: pool_core_def pool_ids_def pool_leases_def pool_closing_def maybeFinishClose_def
      leased_def busy_none)

lemma core_pump: "pool_core p \<Longrightarrow> pool_core (pump p)"
  by (simp add: pump_def core_finish pump_loop_keeps)

section \<open>No starvation\<close>

text \<open>
  While requests wait in an open pool no instance is idle, and either a creation is under way for
  each of them or the pool is full, counting the instances it is waiting to close.
\<close>

definition work_conserving :: "pool \<Rightarrow> bool" where
  "work_conserving p \<longleftrightarrow>
     po_closed p \<or> po_waiters p = [] \<or>
     (list_all pe_busy (po_entries p) \<and>
      (length (po_waiters p) \<le> length (po_creating p) \<or>
       po_max p \<le> length (po_entries p) + length (po_creating p) + length (po_closing p)))"

lemma pump_loop_serves:
  "work_conserving (pump_loop p)"
proof (induction p rule: pump_loop.induct)
  case (1 p)
  show ?case
  proof (cases "po_waiters p")
    case Nil
    then show ?thesis by (subst pump_loop.simps) (simp add: work_conserving_def)
  next
    case (Cons w ws)
    show ?thesis
      using "1.IH" [OF Cons] Cons
      by (subst pump_loop.simps)
         (auto simp: work_conserving_def find_None_iff list_all_iff split: option.splits)
  qed
qed

lemma pump_serves: "work_conserving (pump p)"
proof (cases "po_closed p")
  case True
  then show ?thesis by (simp add: pump_def maybeFinishClose_def work_conserving_def)
next
  case False
  then show ?thesis using pump_loop_serves [of p] by (simp add: pump_def)
qed

lemma finish_serves: "work_conserving p \<Longrightarrow> work_conserving (maybeFinishClose p)"
  by (auto simp: maybeFinishClose_def work_conserving_def)

text \<open>A closed pool that has not finished closing is waiting for something that will settle.\<close>

definition close_pending :: "pool \<Rightarrow> bool" where
  "close_pending p \<longleftrightarrow>
     \<not> po_closed p \<or> po_finalizing p \<or> po_creating p \<noteq> [] \<or> list_ex pe_busy (po_entries p) \<or>
     po_closing p \<noteq> [] \<or> po_late p \<noteq> []"

lemma finish_pending: "close_pending (maybeFinishClose p)"
  by (auto simp: maybeFinishClose_def close_pending_def)

definition signals_calm :: "pool \<Rightarrow> bool" where
  "signals_calm p \<longleftrightarrow> (\<forall>w \<in> set (po_waiters p). map_of (po_aborted p) (wt_signal w) = None)"

definition pool_inv :: "pool \<Rightarrow> bool" where
  "pool_inv p \<longleftrightarrow> pool_core p \<and> work_conserving p \<and> close_pending p \<and> signals_calm p"

lemma finish_frame [simp]:
  "po_waiters (maybeFinishClose p) = po_waiters p" "po_aborted (maybeFinishClose p) = po_aborted p"
  "po_closed (maybeFinishClose p) = po_closed p" "po_max (maybeFinishClose p) = po_max p"
  "po_outcomes (maybeFinishClose p) = po_outcomes p"
  "po_creating (maybeFinishClose p) = po_creating p" "po_closing (maybeFinishClose p) = po_closing p"
  "po_late (maybeFinishClose p) = po_late p"
  "po_released (maybeFinishClose p) = po_released p"
  by (simp_all add: maybeFinishClose_def)

lemma pump_loop_frame [simp]:
  "po_aborted (pump_loop p) = po_aborted p \<and> po_closed (pump_loop p) = po_closed p \<and>
   po_max (pump_loop p) = po_max p \<and> po_closing (pump_loop p) = po_closing p \<and>
   po_late (pump_loop p) = po_late p \<and> set (po_waiters (pump_loop p)) \<subseteq> set (po_waiters p) \<and>
   po_finalizing (pump_loop p) = po_finalizing p \<and> po_closePromise (pump_loop p) = po_closePromise p"
proof (induction p rule: pump_loop.induct)
  case (1 p)
  show ?case
  proof (cases "po_waiters p")
    case Nil
    then show ?thesis by (subst (1 2 3 4 5 6 7 8) pump_loop.simps) simp
  next
    case (Cons w ws)
    show ?thesis
    proof (cases "find (\<lambda>e. \<not> pe_busy e) (po_entries p)")
      case None
      then show ?thesis
        using Cons "1.IH"(1) [OF Cons None] pump_loop.simps [of p]
        by (auto simp: startCreate_def)
    next
      case (Some e)
      then show ?thesis
        using Cons "1.IH"(2,3) [OF Cons Some] pump_loop.simps [of p]
        by (auto simp: grant_def settle_waiter_def split: option.splits)
    qed
  qed
qed

lemma pool_pump_frame [simp]:
  "po_aborted (pump p) = po_aborted p" "po_closed (pump p) = po_closed p" "po_max (pump p) = po_max p"
  "po_closing (pump p) = po_closing p" "po_late (pump p) = po_late p"
  by (simp_all add: pump_def)

lemma pump_waiters: "set (po_waiters (pump p)) \<subseteq> set (po_waiters p)"
  by (auto simp: pump_def dest: set_mp [OF pump_loop_frame [THEN conjunct2, THEN conjunct2, THEN conjunct2,
        THEN conjunct2, THEN conjunct2, THEN conjunct1]])

lemma calm_pump: "signals_calm p \<Longrightarrow> signals_calm (pump p)"
  using pump_waiters [of p] by (auto simp: signals_calm_def)

lemma calm_finish [simp]: "signals_calm (maybeFinishClose p) = signals_calm p"
  by (simp add: signals_calm_def)

lemma pending_pump: "close_pending (pump p)"
proof (cases "po_closed p")
  case True
  then show ?thesis using finish_pending [of p] by (simp add: pump_def)
next
  case False
  then show ?thesis by (simp add: pump_def close_pending_def)
qed

lemma inv_pump: "pool_core p \<Longrightarrow> signals_calm p \<Longrightarrow> pool_inv (pump p)"
  by (simp add: pool_inv_def core_pump pump_serves pending_pump calm_pump)

lemma inv_finish: "pool_inv p \<Longrightarrow> pool_inv (maybeFinishClose p)"
  by (simp add: pool_inv_def core_finish finish_serves finish_pending)

section \<open>Every operation keeps the invariant\<close>

lemma inv_acquire: "pool_inv p \<Longrightarrow> fresh_request w p \<Longrightarrow> pool_inv (acquire w s p)"
proof -
  assume p: "pool_inv p" and f: "fresh_request w p"
  show ?thesis
  proof (cases "can_queue s p")
    case True
    let ?q = "p \<lparr> po_waiters := po_waiters p @ [\<lparr> wt_id = w, wt_signal = s \<rparr>] \<rparr>"
    have "pool_core ?q" "signals_calm ?q"
      using p f True by (auto simp: pool_inv_def pool_core_def pool_ids_def pool_leases_def pool_closing_def
          fresh_request_def can_queue_def signals_calm_def leased_def)
    then show ?thesis using True inv_pump by (simp add: acquire_def can_queue_def)
  next
    case False
    then obtain e where "acquire w s p = settle_waiter w (Refused e) p"
      by (cases "po_closed p") (auto simp: acquire_def can_queue_def)
    then show ?thesis
      using p f by (auto simp: pool_inv_def pool_core_def pool_ids_def pool_leases_def pool_closing_def
          settle_waiter_def fresh_request_def leased_def live_append work_conserving_def
          close_pending_def signals_calm_def)
  qed
qed

lemma core_onAbort: "pool_core p \<Longrightarrow> pool_core (onAbort r w p)"
proof -
  assume p: "pool_core p"
  let ?q = "settle_waiter (wt_id w) (Refused (abort_error r)) (p \<lparr> po_waiters := remove1 w (po_waiters p) \<rparr>)"
  have "pool_core ?q" if w: "w \<in> set (po_waiters p)"
  proof -
    have d: "distinct (map wt_id (po_waiters p))" using p by (simp add: pool_core_def pool_leases_def)
    obtain as bs where s: "po_waiters p = as @ w # bs" "w \<notin> set as"
      using split_list_first [OF w] by blast
    then have "remove1 w (po_waiters p) = as @ bs" by (simp add: remove1_append)
    then show ?thesis using p s
      by (auto simp: pool_core_def pool_ids_def pool_leases_def pool_closing_def settle_waiter_def
          leased_def live_append)
  qed
  then show ?thesis using p by (simp add: onAbort_def core_pump)
qed


lemma onAbort_frame [simp]:
  "po_aborted (onAbort r w p) = po_aborted p" "po_closed (onAbort r w p) = po_closed p"
  by (simp_all add: onAbort_def settle_waiter_def)

lemma onAbort_waiters: "set (po_waiters (onAbort r w p)) \<subseteq> set (po_waiters p)"
proof -
  let ?q = "settle_waiter (wt_id w) (Refused (abort_error r)) (p \<lparr> po_waiters := remove1 w (po_waiters p) \<rparr>)"
  have "set (po_waiters ?q) \<subseteq> set (po_waiters p)" by (simp add: settle_waiter_def set_remove1_subset)
  then show ?thesis using pump_waiters [of ?q] unfolding onAbort_def by (auto simp del: pool_pump_frame)
qed

lemma onAbort_removes: "pool_core p \<Longrightarrow> w \<notin> set (po_waiters (onAbort r w p))"
proof -
  assume p: "pool_core p"
  let ?q = "settle_waiter (wt_id w) (Refused (abort_error r)) (p \<lparr> po_waiters := remove1 w (po_waiters p) \<rparr>)"
  have "distinct (po_waiters p)"
    using p by (auto simp: pool_core_def pool_leases_def distinct_map)
  then have "w \<notin> set (po_waiters ?q)" by (simp add: settle_waiter_def)
  then show ?thesis using pump_waiters [of ?q] by (auto simp: onAbort_def simp del: pool_pump_frame)
qed

lemma abort_fold:
  "pool_core p \<Longrightarrow>
   pool_core (fold (onAbort r) ws p) \<and> po_aborted (fold (onAbort r) ws p) = po_aborted p \<and>
   set (po_waiters (fold (onAbort r) ws p)) \<subseteq> set (po_waiters p) - set ws"
proof (induction ws arbitrary: p)
  case (Cons w ws)
  have "pool_core (onAbort r w p)" by (rule core_onAbort [OF Cons.prems])
  from Cons.IH [OF this] show ?case
    using onAbort_waiters [of r w p] onAbort_removes [OF Cons.prems, of w r] by auto
qed simp

lemma abort_fold_serves:
  "work_conserving p \<Longrightarrow> close_pending p \<Longrightarrow>
   work_conserving (fold (onAbort r) ws p) \<and> close_pending (fold (onAbort r) ws p)"
proof (induction ws arbitrary: p)
  case (Cons w ws)
  have "work_conserving (onAbort r w p)" "close_pending (onAbort r w p)"
    using Cons.prems by (simp_all add: onAbort_def pump_serves pending_pump)
  then show ?case using Cons.IH by simp
qed simp

lemma inv_abort: "pool_inv p \<Longrightarrow> pool_inv (abortSignal s r p)"
proof (cases "map_of (po_aborted p) s = None")
  case True
  assume p: "pool_inv p"
  let ?q = "p \<lparr> po_aborted := (s, r) # po_aborted p \<rparr>"
  let ?ws = "filter (\<lambda>w. wt_signal w = s) (po_waiters p)"
  have q: "pool_core ?q" "work_conserving ?q" "close_pending ?q"
    using p by (auto simp: pool_inv_def pool_core_def pool_ids_def pool_leases_def pool_closing_def
        leased_def work_conserving_def close_pending_def)
  have "signals_calm (fold (onAbort r) ?ws ?q)"
    using abort_fold [OF q(1), of r ?ws] p by (auto simp: signals_calm_def pool_inv_def)
  then show ?thesis
    using abort_fold [OF q(1), of r ?ws] abort_fold_serves [OF q(2,3), of r ?ws] True
    by (simp add: abortSignal_def pool_inv_def)
qed (simp add: abortSignal_def)


lemma granted_live:
  assumes p: "pool_core p" and w: "w \<notin> set (po_released p)" "map_of (po_outcomes p) w = Some (Granted i)"
  shows "i \<in> set (busy_ids (po_entries p))"
    "set (live_ids (w # po_released p) (po_outcomes p)) = set (busy_ids (po_entries p)) - {i}"
    "distinct (live_ids (w # po_released p) (po_outcomes p))"
    "w \<in> set (map fst (po_outcomes p))"
proof -
  have "distinct (map fst (po_outcomes p))" "distinct (leased p)"
    "set (leased p) = set (busy_ids (po_entries p))"
    using p by (auto simp: pool_core_def pool_leases_def)
  then show "i \<in> set (busy_ids (po_entries p))"
    "set (live_ids (w # po_released p) (po_outcomes p)) = set (busy_ids (po_entries p)) - {i}"
    "distinct (live_ids (w # po_released p) (po_outcomes p))"
    using live_release [OF _ w(2,1)] by (simp_all add: leased_def)
  show "w \<in> set (map fst (po_outcomes p))" using map_of_SomeD [OF w(2)] by force
qed

lemma busy_ids_entry: "i \<in> set (busy_ids es) \<Longrightarrow> i \<in> set (map pe_id es)"
  by (auto simp: busy_ids_def)

lemma length_filter_id:
  "distinct (map pe_id es) \<Longrightarrow> i \<in> set (map pe_id es) \<Longrightarrow>
   length es = Suc (length (filter (\<lambda>e. pe_id e \<noteq> i) es))"
proof (induction es)
  case (Cons e es)
  show ?case
  proof (cases "pe_id e = i")
    case True
    then have "i \<notin> pe_id ` set es" using Cons.prems by auto
    then have "filter (\<lambda>e. pe_id e \<noteq> i) es = es" by (intro filter_True) auto
    then show ?thesis using True by simp
  qed (use Cons in auto)
qed simp

lemma distinct_ids_filter: "distinct (map pe_id es) \<Longrightarrow> distinct (map pe_id (filter P es))"
  by (induction es) auto

lemma core_evict:
  assumes p: "pool_core p" and w: "w \<notin> set (po_released p)" "map_of (po_outcomes p) w = Some (Granted i)"
  shows "pool_core (p \<lparr> po_released := w # po_released p,
      po_entries := filter (\<lambda>e. pe_id e \<noteq> i) (po_entries p),
      po_closeCalls := po_closeCalls p @ [i], po_closing := po_closing p @ [i] \<rparr>)"
proof -
  note g = granted_live [OF p w]
  have d: "distinct (map pe_id (po_entries p))" and i: "i \<in> set (map pe_id (po_entries p))"
    using p busy_ids_entry [OF g(1)] by (simp_all add: pool_core_def pool_ids_def)
  have nf: "\<not> po_finalizing p" using i p by (auto simp: pool_core_def pool_closing_def)
  let ?es = "filter (\<lambda>e. pe_id e \<noteq> i) (po_entries p)"
  let ?q = "p \<lparr> po_released := w # po_released p, po_entries := ?es,
      po_closeCalls := po_closeCalls p @ [i], po_closing := po_closing p @ [i] \<rparr>"
  have es: "set (map pe_id ?es) = set (map pe_id (po_entries p)) - {i}" by auto
  have "distinct (map pe_id ?es @ po_creating p @ po_closeCalls p @ [i])"
    using p i distinct_ids_filter [OF d] es unfolding pool_core_def pool_ids_def distinct_append by auto
  moreover have "set (map pe_id (po_entries p)) \<union> set (po_closeCalls p) =
      set (map pe_id ?es) \<union> set (po_closeCalls p @ [i])"
    using i es by auto
  moreover have "\<forall>j \<in> set (map pe_id ?es @ po_creating p @ po_closeCalls p @ [i]). j < po_nextId p"
  proof -
    have "set (map pe_id ?es @ po_creating p @ po_closeCalls p @ [i]) \<subseteq>
        set (map pe_id (po_entries p) @ po_creating p @ po_closeCalls p)"
      using i es by auto
    then show ?thesis using p unfolding pool_core_def pool_ids_def by blast
  qed
  moreover have "set (po_created p) = set (map pe_id (po_entries p)) \<union> set (po_closeCalls p)"
    using p unfolding pool_core_def pool_ids_def by blast
  ultimately have "pool_ids ?q" unfolding pool_ids_def by simp
  moreover have "pool_leases ?q"
    using p g unfolding pool_core_def pool_leases_def leased_def by (simp add: busy_removed)
  moreover have "pool_closing ?q"
    using p nf unfolding pool_core_def pool_closing_def by simp
  moreover have "length ?es + length (po_creating p) \<le> po_max p"
    using p length_filter_id [OF d i] unfolding pool_core_def by linarith
  ultimately show ?thesis
    using p unfolding pool_core_def by simp
qed

lemma core_idle:
  assumes p: "pool_core p" and w: "w \<notin> set (po_released p)" "map_of (po_outcomes p) w = Some (Granted i)"
  shows "pool_core (p \<lparr> po_released := w # po_released p, po_entries := set_busy i False (po_entries p) \<rparr>)"
proof -
  note g = granted_live [OF p w]
  have i: "i \<in> set (map pe_id (po_entries p))" by (rule busy_ids_entry [OF g(1)])
  have nf: "\<not> po_finalizing p" using i p by (auto simp: pool_core_def pool_closing_def)
  show ?thesis
    using p g i nf
    by (auto simp: pool_core_def pool_ids_def pool_leases_def pool_closing_def leased_def busy_set_False)
qed

lemma inv_release: "pool_inv p \<Longrightarrow> pool_inv (leaseRelease w d p)"
proof (cases "w \<notin> set (po_released p) \<and> (\<exists>i. map_of (po_outcomes p) w = Some (Granted i))")
  case True
  assume p: "pool_inv p"
  then have c: "pool_core p" by (simp add: pool_inv_def)
  obtain i where w: "w \<notin> set (po_released p)" "map_of (po_outcomes p) w = Some (Granted i)"
    using True by blast
  note g = granted_live [OF c w]
  have i: "i \<in> set (map pe_id (po_entries p))" by (rule busy_ids_entry [OF g(1)])
  show ?thesis
  proof (cases "d \<or> po_closed p")
    case True
    have "distinct (map pe_id (po_entries p))" using c by (simp add: pool_core_def pool_ids_def)
    from length_filter_id [OF this i] show ?thesis
      using p w i True core_evict [OF c w]
      by (auto simp: leaseRelease_def poolRelease_def pool_inv_def work_conserving_def
          close_pending_def signals_calm_def list_all_iff)
  next
    case False
    have "signals_calm (p \<lparr> po_released := w # po_released p, po_entries := set_busy i False (po_entries p) \<rparr>)"
      using p by (simp add: pool_inv_def signals_calm_def)
    then show ?thesis
      using w i False inv_pump [OF core_idle [OF c w]] by (simp add: leaseRelease_def poolRelease_def)
  qed
qed (auto simp: leaseRelease_def split: option.splits outcome.splits)

lemma inv_closeSettled: "pool_inv p \<Longrightarrow> pool_inv (closeSettled i ok p)"
  unfolding closeSettled_def
  by (intro inv_finish inv_pump)
     (auto simp: pool_inv_def pool_core_def pool_ids_def pool_leases_def pool_closing_def leased_def
        signals_calm_def)

lemma inv_createDone:
  assumes p: "pool_inv p" and i: "i \<in> set (po_creating p)"
  shows "pool_inv (createDone i p)"
proof -
  have d: "distinct (po_creating p)" and nf: "\<not> po_finalizing p"
    and l: "length (po_creating p) = Suc (length (remove1 i (po_creating p)))"
    using p i by (auto simp: pool_inv_def pool_core_def pool_ids_def pool_closing_def length_remove1
        dest: length_pos_if_in_set)
  let ?q = "p \<lparr> po_creating := remove1 i (po_creating p), po_created := po_created p @ [i] \<rparr>"
  show ?thesis
  proof (cases "po_closed p")
    case True
    have "pool_core (?q \<lparr> po_closeCalls := po_closeCalls p @ [i], po_late := po_late p @ [i] \<rparr>)"
      using p i d nf l by (auto simp: pool_inv_def pool_core_def pool_ids_def pool_leases_def pool_closing_def
          leased_def)
    then show ?thesis using p True
      by (auto simp: createDone_def pool_inv_def work_conserving_def close_pending_def signals_calm_def)
  next
    case False
    have "pool_core (?q \<lparr> po_entries := po_entries p @ [\<lparr> pe_id = i, pe_busy = False \<rparr>] \<rparr>)"
      using p i d nf l by (auto simp: pool_inv_def pool_core_def pool_ids_def pool_leases_def pool_closing_def
          leased_def busy_ids_def)
    moreover have "signals_calm (?q \<lparr> po_entries := po_entries p @ [\<lparr> pe_id = i, pe_busy = False \<rparr>] \<rparr>)"
      using p by (simp add: pool_inv_def signals_calm_def)
    ultimately show ?thesis using False inv_pump by (simp add: createDone_def)
  qed
qed

lemma inv_lateClosed: "pool_inv p \<Longrightarrow> pool_inv (lateClosed i ok p)"
proof -
  assume p: "pool_inv p"
  let ?q = "p \<lparr> po_late := remove1 i (po_late p),
       po_closeFailures := po_closeFailures p + (if ok then 0 else 1) \<rparr>"
  have "pool_core ?q" "work_conserving ?q" "signals_calm ?q"
    using p by (auto simp: pool_inv_def pool_core_def pool_ids_def pool_leases_def pool_closing_def
        leased_def work_conserving_def signals_calm_def)
  then show ?thesis
    unfolding lateClosed_def pool_inv_def by (simp add: core_finish finish_serves finish_pending)
qed

lemma inv_createFailed:
  assumes p: "pool_inv p" and i: "i \<in> set (po_creating p)"
  shows "pool_inv (createFailed i c p)"
proof -
  let ?q = "p \<lparr> po_creating := remove1 i (po_creating p) \<rparr>"
  have nf: "\<not> po_finalizing p" and d: "distinct (po_creating p)"
    using p i by (auto simp: pool_inv_def pool_core_def pool_ids_def pool_closing_def)
  have l: "length (remove1 i (po_creating p)) \<le> length (po_creating p)" by (simp add: length_remove1)
  have q: "pool_core ?q" "signals_calm ?q"
    using p nf d l by (auto simp: pool_inv_def pool_core_def pool_ids_def pool_leases_def
        pool_closing_def leased_def signals_calm_def)
  show ?thesis
  proof (cases "po_waiters p")
    case Nil
    then show ?thesis using inv_finish [OF inv_pump [OF q]] by (simp add: createFailed_def)
  next
    case (Cons w ws)
    have "pool_core (settle_waiter (wt_id w) (Refused r) (?q \<lparr> po_waiters := ws \<rparr>))"
      "signals_calm (settle_waiter (wt_id w) (Refused r) (?q \<lparr> po_waiters := ws \<rparr>))" for r
      using core_refuse [OF q(1), of w ws r] q(2) Cons by (simp_all add: signals_calm_def settle_waiter_def)
    then show ?thesis using inv_finish [OF inv_pump] Cons by (simp add: createFailed_def Let_def)
  qed
qed

lemma inv_close: "pool_inv p \<Longrightarrow> pool_inv (closePool p)"
proof (cases "po_closePromise p = NotClosing")
  case True
  assume p: "pool_inv p"
  let ?q = "p \<lparr> po_closed := True, po_waiters := [],
      po_outcomes := po_outcomes p @ map (\<lambda>w. (wt_id w, Refused (closed_error None))) (po_waiters p),
      po_closePromise := Pending \<rparr>"
  have "pool_core ?q" "work_conserving ?q" "signals_calm ?q"
    using p True by (auto simp: pool_inv_def pool_core_def pool_ids_def pool_leases_def pool_closing_def
        leased_def live_append work_conserving_def signals_calm_def o_def)
  then show ?thesis
    using True unfolding closePool_def pool_inv_def by (simp add: core_finish finish_serves finish_pending)
qed (simp add: closePool_def)

lemma inv_finalized: "pool_inv p \<Longrightarrow> po_finalizing p \<Longrightarrow> pool_inv (finalized n p)"
  by (auto simp: finalized_def pool_inv_def pool_core_def pool_ids_def pool_leases_def pool_closing_def
        leased_def work_conserving_def close_pending_def signals_calm_def)

lemmas pool_op_invs = inv_acquire inv_abort inv_release inv_closeSettled inv_createDone inv_lateClosed
  inv_createFailed inv_close inv_finalized

lemma pool_step_inv: "pool_inv p \<Longrightarrow> pool_step p e q \<Longrightarrow> pool_inv q"
  by (erule pool_stepE) (simp_all add: pool_op_invs)

lemma newPool_inv: "pool_inv (newPool m)"
  by (simp add: newPool_def pool_inv_def pool_core_def pool_ids_def pool_leases_def pool_closing_def
      leased_def busy_ids_def work_conserving_def close_pending_def signals_calm_def)

interpretation ip: event_system pool_step "newPool m" pool_inv for m
  by unfold_locales (rule newPool_inv, rule pool_step_inv)


section \<open>Bounds and order as interpretations\<close>

lemma startCreate_max [simp]: "po_max (startCreate p) = po_max p"
  by (simp add: startCreate_def)

lemma fold_onAbort_max: "po_max (fold (onAbort r) ws p) = po_max p"
  by (induction ws arbitrary: p) (simp_all add: onAbort_def settle_waiter_def)

lemma pool_step_max: "pool_step p e q \<Longrightarrow> po_max q = po_max p"
  by (erule pool_stepE)
     (simp_all add: acquire_def settle_waiter_def abortSignal_def fold_onAbort_max leaseRelease_def
       poolRelease_def closeSettled_def createDone_def Let_def createFailed_def lateClosed_def
       closePool_def finalized_def split: option.splits outcome.splits list.splits)

definition pool_load :: "pool \<Rightarrow> nat" where
  "pool_load p = length (po_entries p) + length (po_creating p)"

interpretation ip_cap: capped_system pool_step "newPool m" pool_inv pool_load po_max "\<lambda>_. True" for m
proof
  fix p e q
  assume "pool_step p e q"
  then show "po_max q = po_max p" by (rule pool_step_max)
  assume "pool_inv p"
  then have "pool_inv q" using \<open>pool_step p e q\<close> by (rule pool_step_inv)
  then show "pool_load q \<le> po_max q" by (simp add: pool_load_def pool_inv_def pool_core_def)
qed

fun is_granted :: "outcome \<Rightarrow> bool" where
  "is_granted (Granted i) = True"
| "is_granted (Refused e) = False"

definition granted :: "pool \<Rightarrow> nat list" where
  "granted p = map fst (filter (\<lambda>(w, r). is_granted r) (po_outcomes p))"

definition queued :: "pool \<Rightarrow> nat list" where
  "queued p = map wt_id (po_waiters p)"

fun requested :: "pool_event \<Rightarrow> nat list" where
  "requested (Acquire w s) = [w]"
| "requested _ = []"

fun no_refusal :: "pool_event \<Rightarrow> bool" where
  "no_refusal (AcquireRefused w s) = False"
| "no_refusal (Abort s r) = False"
| "no_refusal (CreateFailed i c) = False"
| "no_refusal ClosePool = False"
| "no_refusal _ = True"

lemmas order_defs = granted_def queued_def settle_waiter_def

lemma subseq_skip: "subseq (xs @ ys) (xs @ y # ys)"
  by (rule list_emb_append_mono) auto

lemma subseq_removed: "subseq (remove1 x xs) xs"
  by (induction xs) auto

lemma pump_loop_order:
  "subseq (granted (pump_loop p) @ queued (pump_loop p)) (granted p @ queued p) \<and>
   (signals_calm p \<longrightarrow> granted (pump_loop p) @ queued (pump_loop p) = granted p @ queued p)"
proof (induction p rule: pump_loop.induct)
  case (1 p)
  show ?case
  proof (cases "po_waiters p")
    case Nil
    then show ?thesis by (simp add: pump_loop.simps [of p])
  next
    case (Cons w ws)
    show ?thesis
    proof (cases "find (\<lambda>e. \<not> pe_busy e) (po_entries p)")
      case None
      have "granted (startCreate p) @ queued (startCreate p) = granted p @ queued p"
        "signals_calm (startCreate p) = signals_calm p"
        by (simp_all add: order_defs startCreate_def signals_calm_def)
      then show ?thesis
        using Cons None "1.IH"(1) [OF Cons None] by (simp add: pump_loop.simps [of p])
    next
      case (Some e)
      show ?thesis
      proof (cases "map_of (po_aborted p) (wt_signal w)")
        case None
        let ?q = "grant w e (p \<lparr> po_waiters := ws \<rparr>)"
        have "granted ?q @ queued ?q = granted p @ queued p" "signals_calm p \<longrightarrow> signals_calm ?q"
          using Cons by (simp_all add: order_defs grant_def signals_calm_def)
        then show ?thesis
          using Cons Some None "1.IH"(2) [OF Cons Some None] by (simp add: pump_loop.simps [of p])
      next
        case (Some r)
        let ?q = "settle_waiter (wt_id w) (Refused (abort_error r)) (p \<lparr> po_waiters := ws \<rparr>)"
        have "subseq (granted ?q @ queued ?q) (granted p @ queued p)"
          using Cons by (simp add: order_defs subseq_skip)
        moreover have "\<not> signals_calm p" using Some Cons by (simp add: signals_calm_def)
        ultimately show ?thesis
          using Cons Some \<open>find _ _ = Some e\<close> "1.IH"(3) [OF Cons \<open>find _ _ = Some e\<close> Some]
          by (auto simp: pump_loop.simps [of p] intro: subseq_order.order_trans)
      qed
    qed
  qed
qed

lemma pool_pump_order:
  "subseq (granted (pump p) @ queued (pump p)) (granted p @ queued p)"
  "signals_calm p \<Longrightarrow> granted (pump p) @ queued (pump p) = granted p @ queued p"
  using pump_loop_order [of p] by (simp_all add: pump_def granted_def queued_def)

lemma order_cong:
  "po_outcomes q = po_outcomes p \<Longrightarrow> po_waiters q = po_waiters p \<Longrightarrow>
   granted q @ queued q = granted p @ queued p"
  by (simp add: order_defs)

lemma finish_order [simp]: "granted (maybeFinishClose p) = granted p" "queued (maybeFinishClose p) = queued p"
  by (simp_all add: order_defs)

lemma abort_order:
  "subseq (granted (fold (onAbort r) ws p) @ queued (fold (onAbort r) ws p)) (granted p @ queued p)"
proof (induction ws arbitrary: p)
  case (Cons w ws)
  let ?q = "settle_waiter (wt_id w) (Refused (abort_error r)) (p \<lparr> po_waiters := remove1 w (po_waiters p) \<rparr>)"
  have "subseq (queued ?q) (queued p)"
    by (simp add: order_defs subseq_map subseq_removed)
  then have "subseq (granted ?q @ queued ?q) (granted p @ queued p)"
    by (simp add: order_defs list_emb_append_mono)
  then have "subseq (granted (onAbort r w p) @ queued (onAbort r w p)) (granted p @ queued p)"
    using pool_pump_order(1) [of ?q] by (auto simp: onAbort_def intro: subseq_order.order_trans)
  then show ?case using Cons [of "onAbort r w p"] by (auto intro: subseq_order.order_trans)
qed simp


definition in_order :: "pool \<Rightarrow> pool_event \<Rightarrow> pool \<Rightarrow> bool" where
  "in_order p e q \<longleftrightarrow>
     subseq (granted q @ queued q) (granted p @ queued p @ requested e) \<and>
     (no_refusal e \<longrightarrow> granted q @ queued q = granted p @ queued p @ requested e)"

lemma pump_in_order:
  assumes "granted r @ queued r = granted p @ queued p @ requested e" "signals_calm r"
  shows "in_order p e (pump r)" "in_order p e (maybeFinishClose (pump r))"
  using assms pool_pump_order(2) [OF assms(2)] by (simp_all add: in_order_def)

lemma same_in_order:
  "granted q @ queued q = granted p @ queued p \<Longrightarrow> requested e = [] \<Longrightarrow> in_order p e q"
  by (simp add: in_order_def)

lemma release_in_order: "signals_calm p \<Longrightarrow> in_order p (Release w d) (leaseRelease w d p)"
proof (cases "w \<notin> set (po_released p) \<and> (\<exists>i. map_of (po_outcomes p) w = Some (Granted i))")
  case True
  assume c: "signals_calm p"
  obtain i where w: "w \<notin> set (po_released p)" "map_of (po_outcomes p) w = Some (Granted i)"
    using True by blast
  let ?q = "p \<lparr> po_released := w # po_released p \<rparr>"
  have eq: "leaseRelease w d p = poolRelease i d ?q" using w by (simp add: leaseRelease_def)
  show ?thesis
  proof (cases "i \<notin> set (map pe_id (po_entries p)) \<or> d \<or> po_closed p")
    case True
    then have "granted (poolRelease i d ?q) @ queued (poolRelease i d ?q) = granted p @ queued p"
      by (auto simp: poolRelease_def order_defs)
    then show ?thesis unfolding eq by (intro same_in_order) simp_all
  next
    case False
    then have "poolRelease i d ?q = pump (?q \<lparr> po_entries := set_busy i False (po_entries p) \<rparr>)"
      by (simp add: poolRelease_def)
    then show ?thesis unfolding eq
      using c by (simp only:) (intro pump_in_order, simp_all add: order_defs signals_calm_def)
  qed
qed (auto simp: leaseRelease_def intro!: same_in_order split: option.splits outcome.splits)

lemma refused_none: "filter (\<lambda>(w, r). is_granted r) (map (\<lambda>w. (f w, Refused (g w))) ws) = []"
  by (induction ws) auto

lemma step_in_order:
  assumes i: "pool_inv p" and s: "pool_step p e q"
  shows "in_order p e q"
  using s
proof (cases rule: pool_step.cases)
  case (1 w s)
  have "signals_calm (p \<lparr> po_waiters := po_waiters p @ [\<lparr> wt_id = w, wt_signal = s \<rparr>] \<rparr>)"
    using i 1(4) by (auto simp: signals_calm_def pool_inv_def can_queue_def)
  then show ?thesis
    using 1 by (auto simp: acquire_def can_queue_def order_defs intro!: pump_in_order)
next
  case (2 w s)
  then show ?thesis by (auto simp: acquire_def can_queue_def order_defs in_order_def)
next
  case (3 s r)
  then show ?thesis
    using abort_order [of r "filter (\<lambda>w. wt_signal w = s) (po_waiters p)" "p \<lparr> po_aborted := (s, r) # po_aborted p \<rparr>"]
    by (auto simp: in_order_def abortSignal_def order_defs)
next
  case (4 w d)
  then show ?thesis using i release_in_order by (simp add: pool_inv_def)
next
  case (5 j ok)
  then show ?thesis
    using i by (auto simp: closeSettled_def pool_inv_def signals_calm_def order_defs intro!: pump_in_order)
next
  case (6 j)
  show ?thesis
  proof (cases "po_closed p")
    case True
    then show ?thesis using 6 by (auto simp: createDone_def Let_def order_defs intro!: same_in_order)
  next
    case False
    then show ?thesis
      using 6 i by (auto simp: createDone_def Let_def pool_inv_def signals_calm_def order_defs intro!: pump_in_order)
  qed
next
  case (7 j c)
  let ?q = "p \<lparr> po_creating := remove1 j (po_creating p) \<rparr>"
  show ?thesis
  proof (cases "po_waiters p")
    case Nil
    then show ?thesis using 7 i
      by (auto simp: createFailed_def Let_def pool_inv_def signals_calm_def order_defs intro!: pump_in_order)
  next
    case (Cons w ws)
    let ?r = "settle_waiter (wt_id w) (Refused (case c of Some e \<Rightarrow> e
        | None \<Rightarrow> pool_error (js ''component instance creation failed'') None)) (?q \<lparr> po_waiters := ws \<rparr>)"
    have "subseq (granted ?r @ queued ?r) (granted p @ queued p)"
      using Cons by (simp add: order_defs subseq_skip)
    then show ?thesis
      using 7 Cons pool_pump_order(1) [of ?r]
      by (auto simp: createFailed_def Let_def in_order_def intro: subseq_order.order_trans)
  qed
next
  case (8 j ok)
  then show ?thesis by (simp add: lateClosed_def same_in_order) (simp add: in_order_def order_defs)
next
  case 9
  then show ?thesis by (auto simp: closePool_def in_order_def order_defs refused_none)
next
  case (10 n)
  then show ?thesis by (auto simp: finalized_def order_defs intro!: same_in_order)
qed

interpretation ip_fifo: fifo_system "\<lambda>p e q. pool_inv p \<and> pool_step p e q" granted queued requested no_refusal
  using step_in_order by unfold_locales (auto simp: in_order_def)

lemma guarded_trace:
  "trace pool_step p es q \<Longrightarrow> pool_inv p \<Longrightarrow> trace (\<lambda>p e q. pool_inv p \<and> pool_step p e q) p es q"
proof (induction rule: trace.induct)
  case (trace_snoc p es t e u)
  then have "pool_inv t" by (blast intro: ip.trace_keeps)
  then show ?case using trace_snoc by (blast intro: trace.trace_snoc)
qed (rule trace_Nil)

section \<open>Properties\<close>

text \<open>
  Capacity and exclusive leases.  In every execution the instances that exist or are being created
  never exceed the pool size, two leases that are held at the same time never share an instance, and the
  busy instances are exactly the leased ones.
\<close>

theorem pool_exclusive:
  assumes "trace pool_step (newPool m) es p"
  shows "length (po_entries p) + length (po_creating p) \<le> m \<and>
    ps_active (pool_stats_of p) \<le> ps_total (pool_stats_of p) \<and> ps_total (pool_stats_of p) \<le> m \<and>
    distinct (leased p) \<and> set (leased p) = set (busy_ids (po_entries p)) \<and>
    length (leased p) = ps_active (pool_stats_of p)"
proof -
  have "pool_load (newPool m) \<le> po_max (newPool m)" "po_max (newPool m) = m"
    by (simp_all add: pool_load_def newPool_def)
  then have c: "length (po_entries p) + length (po_creating p) \<le> m"
    using ip_cap.capped_trace [OF assms newPool_inv] by (simp add: pool_load_def list_all_iff)
  have "pool_core p" using ip.reachable_inv [OF assms] by (simp add: pool_inv_def)
  then have l: "distinct (leased p)" "set (leased p) = set (busy_ids (po_entries p))"
    "distinct (map pe_id (po_entries p))"
    by (auto simp: pool_core_def pool_leases_def pool_ids_def)
  then have "length (leased p) = length (busy_ids (po_entries p))"
    by (metis busy_ids_def distinct_card distinct_ids_filter)
  then show ?thesis using c l by (simp add: pool_stats_of_def busy_ids_def)
qed

text \<open>
  C11: No starvation.  In every execution of an open pool of positive size, while a request waits no
  instance is idle, and something is under way that will serve it: an instance is being created, leased
  or closed.
\<close>

theorem pool_progress:
  assumes "trace pool_step (newPool m) es p" "po_waiters p \<noteq> []" "0 < m"
  shows "\<not> po_closed p \<and> list_all pe_busy (po_entries p) \<and>
    (po_creating p \<noteq> [] \<or> leased p \<noteq> [] \<or> po_closing p \<noteq> [])"
proof -
  have i: "pool_inv p" by (rule ip.reachable_inv [OF assms(1)])
  have "pool_load (newPool m) \<le> po_max (newPool m)" "po_max (newPool m) = m"
    by (simp_all add: pool_load_def newPool_def)
  then have m: "po_max p = m"
    using ip_cap.capped_trace [OF assms(1) newPool_inv] by (simp add: list_all_iff)
  have o': "\<not> po_closed p" using i assms(2) by (auto simp: pool_inv_def pool_core_def pool_closing_def)
  then have b: "list_all pe_busy (po_entries p)" "length (po_waiters p) \<le> length (po_creating p) \<or>
      m \<le> length (po_entries p) + length (po_creating p) + length (po_closing p)"
    using i assms(2) m by (auto simp: pool_inv_def work_conserving_def)
  have "leased p \<noteq> []" if "po_entries p \<noteq> []"
  proof -
    have "busy_ids (po_entries p) \<noteq> []"
      using b(1) that by (cases "po_entries p") (auto simp: busy_ids_def)
    moreover have "set (leased p) = set (busy_ids (po_entries p))"
      using i by (simp add: pool_inv_def pool_core_def pool_leases_def)
    ultimately show ?thesis by auto
  qed
  then show ?thesis using o' b assms(2,3) by (cases "po_creating p"; cases "po_entries p"; cases "po_closing p") auto
qed

text \<open>
  First come, first served.  Instances are granted in the order of the requests, whatever the order in
  which instances are created, released and discarded; requests that are refused (aborted, failed creation,
  closed pool) drop out without changing the order of the others.
\<close>

theorem pool_fifo:
  assumes "trace pool_step (newPool m) es p"
  shows "subseq (granted p @ queued p) (concat (map requested es)) \<and>
    (\<not> list_all no_refusal es \<or> granted p @ queued p = concat (map requested es))"
proof -
  have n: "granted (newPool m) = []" "queued (newPool m) = []" by (simp_all add: newPool_def order_defs)
  note t = guarded_trace [OF assms newPool_inv]
  show ?thesis
    using ip_fifo.fifo_subseq [OF t] ip_fifo.fifo_order [OF t] unfolding n by auto
qed

lemma closed_step:
  "pool_inv p \<Longrightarrow> po_closed p \<Longrightarrow> pool_step p e q \<Longrightarrow> po_closed q \<and> granted q = granted p"
proof -
  assume p: "pool_inv p" and c: "po_closed p" and s: "pool_step p e q"
  have w: "po_waiters p = []" using p c by (simp add: pool_inv_def pool_core_def pool_closing_def)
  from s show ?thesis
    by (rule pool_stepE)
       (use w c in \<open>auto simp: order_defs acquire_def abortSignal_def leaseRelease_def poolRelease_def pump_def
         closeSettled_def createDone_def createFailed_def lateClosed_def closePool_def finalized_def Let_def refused_none
         split: option.splits outcome.splits\<close>)
qed

lemma closed_trace:
  "trace pool_step p es q \<Longrightarrow> pool_inv p \<Longrightarrow> po_closed p \<Longrightarrow> po_closed q \<and> granted q = granted p"
proof (induction rule: trace.induct)
  case (trace_snoc p es t e u)
  then have "pool_inv t" by (blast intro: ip.trace_keeps)
  then show ?case using closed_step [OF _ _ trace_snoc.hyps(2)] trace_snoc by auto
qed simp

text \<open>
  Orderly close.  Once the pool has been closed no request waits, no instance is granted any more, and
  until it finishes something it waits for is pending; when its close promise settles, every instance that
  was ever created has been told to close exactly once and no lease is held.
\<close>

theorem pool_closes:
  assumes "trace pool_step (newPool m) es p" "trace pool_step (closePool p) fs q"
  shows "po_waiters q = [] \<and> granted q = granted p \<and>
    (po_finalizing q \<or> po_creating q \<noteq> [] \<or> leased q \<noteq> [] \<or> po_closing q \<noteq> [] \<or> po_late q \<noteq> []) \<and>
    distinct (po_closeCalls q) \<and>
    (\<not> po_finalizing q \<or> (leased q = [] \<and> po_creating q = [] \<and> set (po_closeCalls q) = set (po_created q)))"
proof -
  have p: "pool_inv p" by (rule ip.reachable_inv [OF assms(1)])
  then have c: "pool_inv (closePool p)" by (rule inv_close)
  have cl: "po_closed (closePool p)"
    using p by (auto simp: closePool_def pool_inv_def pool_core_def pool_closing_def)
  have g: "granted (closePool p) = granted p"
    by (simp add: closePool_def order_defs refused_none)
  have q: "pool_inv q" by (rule ip.trace_keeps [OF assms(2) c])
  have k: "po_closed q" "granted q = granted p"
    using closed_trace [OF assms(2) c cl] g by auto
  have l: "set (leased q) = set (busy_ids (po_entries q))"
    using q by (simp add: pool_inv_def pool_core_def pool_leases_def)
  have b: "busy_ids (po_entries q) \<noteq> []" if "list_ex pe_busy (po_entries q)"
    using that by (auto simp: busy_ids_def list_ex_iff filter_empty_conv)
  have w: "po_waiters q = []" using q k by (simp add: pool_inv_def pool_core_def pool_closing_def)
  have pend: "po_finalizing q \<or> po_creating q \<noteq> [] \<or> leased q \<noteq> [] \<or> po_closing q \<noteq> [] \<or> po_late q \<noteq> []"
    using q k(1) b l by (auto simp: pool_inv_def close_pending_def)
  have d: "distinct (po_closeCalls q)" using q by (auto simp: pool_inv_def pool_core_def pool_ids_def)
  have f: "leased q = [] \<and> po_creating q = [] \<and> set (po_closeCalls q) = set (po_created q)"
    if "po_finalizing q"
    using q l that by (auto simp: pool_inv_def pool_core_def pool_closing_def pool_ids_def busy_ids_def)
  show ?thesis using w k(2) pend d f by blast
qed

section \<open>A concrete run\<close>

text \<open>One instance, two requests: the first is served, the second waits for the release.\<close>

definition run1 :: pool where "run1 = acquire 1 1 (newPool 1)"
definition run2 :: pool where "run2 = createDone 1 run1"
definition run3 :: pool where "run3 = acquire 2 2 run2"

lemma run_trace: "trace pool_step (newPool 1) [Acquire 1 1, Created 1, Acquire 2 2] run3"
proof -
  have a: "pool_step (newPool 1) (Acquire 1 1) run1"
    unfolding run1_def by (rule pool_step.intros) (simp_all add: newPool_def fresh_request_def can_queue_def)
  have "1 \<in> set (po_creating run1)" by code_simp
  then have b: "pool_step run1 (Created 1) run2" unfolding run2_def by (rule pool_step.intros)
  have "fresh_request 2 run2" "can_queue 2 run2" by code_simp+
  then have c: "pool_step run2 (Acquire 2 2) run3" unfolding run3_def by (rule pool_step.intros)
  show ?thesis by (rule trace_Cons [where step = pool_step, OF a trace_Cons [where step = pool_step, OF b trace_single [where step = pool_step, OF c]]])
qed

theorem pool_exclusive_witness: "leased run3 = [1] \<and> length (po_entries run3) + length (po_creating run3) \<le> 1"
proof -
  have "leased run3 = [1]" by code_simp
  then show ?thesis using pool_exclusive [OF run_trace] by simp
qed

theorem pool_progress_witness: "po_waiters run3 \<noteq> [] \<and> list_all pe_busy (po_entries run3)"
proof -
  have "po_waiters run3 \<noteq> []" by code_simp
  then show ?thesis using pool_progress [OF run_trace] by simp
qed

theorem pool_fifo_witness: "granted run3 @ queued run3 = [1, 2]"
  using pool_fifo [OF run_trace] by simp

theorem pool_closes_witness: "po_waiters (closePool run3) = [] \<and> granted (closePool run3) = granted run3"
  using pool_closes [OF run_trace trace_Nil] by simp

end
