(* ===== verification/Utf.thy ===== *)
theory Utf
  imports JS_Values
begin

text \<open>
  \<^verbatim>\<open>TextEncoder\<close> and the fatal \<^verbatim>\<open>TextDecoder\<close>: UTF-16 code units to
  UTF-8 bytes and back.  A lone surrogate is encoded as U+FFFD; the decoder rejects
  overlong forms, surrogates and values above U+10FFFF, and drops a leading byte-order
  mark.
\<close>

definition is_surrogate :: "16 word \<Rightarrow> bool" where
  "is_surrogate c \<longleftrightarrow> is_high c \<or> is_low c"

fun code_points :: "jstr \<Rightarrow> int list" where
  "code_points [] = []"
| "code_points [c] = [if is_surrogate c then 0xFFFD else uint c]"
| "code_points (c # d # s) =
     (if is_high c \<and> is_low d
      then (0x10000 + (uint c - 0xD800) * 0x400 + (uint d - 0xDC00)) # code_points s
      else (if is_surrogate c then 0xFFFD else uint c) # code_points (d # s))"

definition utf8_point :: "int \<Rightarrow> bytes" where
  "utf8_point p =
     (if p < 0x80 then [word_of_int p]
      else if p < 0x800 then [word_of_int (0xC0 + p div 64), word_of_int (0x80 + p mod 64)]
      else if p < 0x10000 then
        [word_of_int (0xE0 + p div 4096), word_of_int (0x80 + p div 64 mod 64),
         word_of_int (0x80 + p mod 64)]
      else
        [word_of_int (0xF0 + p div 262144), word_of_int (0x80 + p div 4096 mod 64),
         word_of_int (0x80 + p div 64 mod 64), word_of_int (0x80 + p mod 64)])"

definition utf8_encode :: "jstr \<Rightarrow> bytes" where
  "utf8_encode s = concat (map utf8_point (code_points s))"

definition utf8_length :: "jstr \<Rightarrow> nat" where
  "utf8_length s = length (utf8_encode s)"

definition cont :: "int \<Rightarrow> int \<Rightarrow> 8 word \<Rightarrow> bool" where
  "cont lo hi b \<longleftrightarrow> lo \<le> uint b \<and> uint b \<le> hi"

text \<open>One code point at the head of the bytes.\<close>

definition take_point :: "bytes \<Rightarrow> (int \<times> bytes) option" where
  "take_point bs =
     (case bs of
        [] \<Rightarrow> None
      | b0 # r0 \<Rightarrow>
          (let a = uint b0
           in if a < 0x80 then Some (a, r0)
              else if 0xC2 \<le> a \<and> a \<le> 0xDF then
                (case r0 of b1 # r1 \<Rightarrow>
                   if cont 0x80 0xBF b1 then Some ((a - 0xC0) * 64 + (uint b1 - 0x80), r1) else None
                 | _ \<Rightarrow> None)
              else if 0xE0 \<le> a \<and> a \<le> 0xEF then
                (case r0 of b1 # b2 # r2 \<Rightarrow>
                   if cont (if a = 0xE0 then 0xA0 else 0x80) (if a = 0xED then 0x9F else 0xBF) b1 \<and>
                      cont 0x80 0xBF b2
                   then Some ((a - 0xE0) * 4096 + (uint b1 - 0x80) * 64 + (uint b2 - 0x80), r2)
                   else None
                 | _ \<Rightarrow> None)
              else if 0xF0 \<le> a \<and> a \<le> 0xF4 then
                (case r0 of b1 # b2 # b3 # r3 \<Rightarrow>
                   if cont (if a = 0xF0 then 0x90 else 0x80) (if a = 0xF4 then 0x8F else 0xBF) b1 \<and>
                      cont 0x80 0xBF b2 \<and> cont 0x80 0xBF b3
                   then Some ((a - 0xF0) * 262144 + (uint b1 - 0x80) * 4096 + (uint b2 - 0x80) * 64 +
                              (uint b3 - 0x80), r3)
                   else None
                 | _ \<Rightarrow> None)
              else None))"

lemma take_point_shorter: "take_point bs = Some (p, r) \<Longrightarrow> length r < length bs"
  by (auto simp: take_point_def Let_def split: list.splits if_splits)

function decode_points :: "bytes \<Rightarrow> int list option" where
  "decode_points bs =
     (if bs = [] then Some []
      else (case take_point bs of
              None \<Rightarrow> None
            | Some (p, r) \<Rightarrow> map_option ((#) p) (decode_points r)))"
  by auto
termination
  by (relation "measure length") (auto dest: take_point_shorter)

declare decode_points.simps [simp del]

definition utf16_point :: "int \<Rightarrow> jstr" where
  "utf16_point p =
     (if p < 0x10000 then [word_of_int p]
      else [word_of_int (0xD800 + (p - 0x10000) div 0x400),
            word_of_int (0xDC00 + (p - 0x10000) mod 0x400)])"

definition strip_bom :: "bytes \<Rightarrow> bytes" where
  "strip_bom bs = (if take 3 bs = [0xEF, 0xBB, 0xBF] then drop 3 bs else bs)"

text \<open>\<^verbatim>\<open>new TextDecoder("utf-8", { fatal: true }).decode(bytes)\<close>; None throws.\<close>

definition utf8_decode_fatal :: "bytes \<Rightarrow> jstr option" where
  "utf8_decode_fatal bs =
     map_option (\<lambda>ps. concat (map utf16_point ps)) (decode_points (strip_bom bs))"

section \<open>Round trip\<close>

definition scalar :: "int \<Rightarrow> bool" where
  "scalar p \<longleftrightarrow> 0 \<le> p \<and> p \<le> 0x10FFFF \<and> \<not> (0xD800 \<le> p \<and> p \<le> 0xDFFF)"

lemma uint_byte: "0 \<le> x \<Longrightarrow> x < 256 \<Longrightarrow> uint (word_of_int x :: 8 word) = x"
  by (simp add: uint_word_of_int)

lemma split3: "p div 4096 * 4096 + p div 64 mod 64 * 64 + p mod 64 = (p :: int)"
proof -
  have "p div 4096 = p div 64 div 64" by (simp add: zdiv_zmult2_eq [symmetric])
  moreover have "p div 64 div 64 * 64 + p div 64 mod 64 = p div 64" "p div 64 * 64 + p mod 64 = p"
    by simp_all
  ultimately show ?thesis by linarith
qed

lemma split4:
  "p div 262144 * 262144 + p div 4096 mod 64 * 4096 + p div 64 mod 64 * 64 + p mod 64 = (p :: int)"
proof -
  have "p div 262144 = p div 4096 div 64" by (simp add: zdiv_zmult2_eq [symmetric])
  moreover have "p div 4096 div 64 * 64 + p div 4096 mod 64 = p div 4096" by simp
  ultimately show ?thesis using split3 [of p] by linarith
qed

lemma take_point3:
  assumes "0 \<le> a" "a < 16" "0 \<le> m" "m < 64" "0 \<le> r" "r < 64"
    and "a = 0 \<Longrightarrow> 32 \<le> m" "a = 13 \<Longrightarrow> m < 32"
  shows "take_point (word_of_int (0xE0 + a) # word_of_int (0x80 + m) # word_of_int (0x80 + r) # rest) =
    Some (a * 4096 + m * 64 + r, rest)"
proof -
  have u: "uint (word_of_int (0xE0 + a) :: 8 word) = 0xE0 + a"
    "uint (word_of_int (0x80 + m) :: 8 word) = 0x80 + m"
    "uint (word_of_int (0x80 + r) :: 8 word) = 0x80 + r"
    by (rule uint_byte; use assms in simp)+
  have c: "cont (if 0xE0 + a = 0xE0 then 0xA0 else 0x80) (if 0xE0 + a = 0xED then 0x9F else 0xBF)
      (word_of_int (0x80 + m))" "cont 0x80 0xBF (word_of_int (0x80 + r))"
    using assms by (auto simp: cont_def u simp del: of_int_add)
  show ?thesis
    unfolding take_point_def list.case Let_def u using c assms by (simp add: u del: of_int_add)
qed

lemma take_point4:
  assumes "0 \<le> h" "h \<le> 4" "0 \<le> a" "a < 64" "0 \<le> m" "m < 64" "0 \<le> r" "r < 64"
    and "h = 0 \<Longrightarrow> 16 \<le> a" "h = 4 \<Longrightarrow> a < 16"
  shows "take_point (word_of_int (0xF0 + h) # word_of_int (0x80 + a) # word_of_int (0x80 + m) #
      word_of_int (0x80 + r) # rest) = Some (h * 262144 + a * 4096 + m * 64 + r, rest)"
proof -
  have u: "uint (word_of_int (0xF0 + h) :: 8 word) = 0xF0 + h"
    "uint (word_of_int (0x80 + a) :: 8 word) = 0x80 + a"
    "uint (word_of_int (0x80 + m) :: 8 word) = 0x80 + m"
    "uint (word_of_int (0x80 + r) :: 8 word) = 0x80 + r"
    by (rule uint_byte; use assms in simp)+
  have c: "cont (if 0xF0 + h = 0xF0 then 0x90 else 0x80) (if 0xF0 + h = 0xF4 then 0x8F else 0xBF)
      (word_of_int (0x80 + a))" "cont 0x80 0xBF (word_of_int (0x80 + m))"
    "cont 0x80 0xBF (word_of_int (0x80 + r))"
    using assms by (auto simp: cont_def u simp del: of_int_add)
  show ?thesis
    unfolding take_point_def list.case Let_def u using c assms by (simp add: u del: of_int_add)
qed

lemma take_utf8_point: "scalar p \<Longrightarrow> take_point (utf8_point p @ r) = Some (p, r)"
proof -
  assume s: "scalar p"
  then have p: "0 \<le> p" "p \<le> 0x10FFFF" by (auto simp: scalar_def)
  consider (1) "p < 0x80" | (2) "0x80 \<le> p" "p < 0x800" | (3) "0x800 \<le> p" "p < 0x10000"
    | (4) "0x10000 \<le> p" by linarith
  then show ?thesis
  proof cases
    case 1
    then show ?thesis using p by (simp add: utf8_point_def take_point_def uint_byte)
  next
    case 2
    then have u: "uint (word_of_int (0xC0 + p div 64) :: 8 word) = 0xC0 + p div 64"
      "uint (word_of_int (0x80 + p mod 64) :: 8 word) = 0x80 + p mod 64"
      by (auto intro!: uint_byte simp del: of_int_add)
    have b: "2 \<le> p div 64" "p div 64 < 32" "0 \<le> p mod 64" "p mod 64 < 64" using 2 by auto
    have "p div 64 * 64 + p mod 64 = p" by simp
    then show ?thesis
      using 2 b by (simp add: utf8_point_def take_point_def u cont_def del: div_mult_mod_eq of_int_add)
  next
    case 3
    have b: "p div 4096 < 16" "0 \<le> p div 4096" "0 \<le> p div 64 mod 64" "p div 64 mod 64 < 64"
      "0 \<le> p mod 64" "p mod 64 < 64" using 3 by auto
    have e: "p div 4096 * 4096 + p div 64 mod 64 * 64 + p mod 64 = p" by (rule split3)
    have z: "p div 4096 = 0 \<Longrightarrow> 32 \<le> p div 64 mod 64" using 3 b e by linarith
    have d: "p div 4096 = 13 \<Longrightarrow> p div 64 mod 64 < 32"
      using s b e unfolding scalar_def by linarith
    have n: "(p < 0x80) = False" "(p < 0x800) = False" "(p < 0x10000) = True" using 3 by simp_all
    show ?thesis
      unfolding utf8_point_def n if_False if_True append.simps
      by (subst take_point3) (fact b(2), fact b(1), fact b(3), fact b(4), fact b(5), fact b(6),
          erule z, erule d, simp only: e)
  next
    case 4
    have b: "p div 262144 \<le> 4" "0 \<le> p div 262144" "0 \<le> p div 4096 mod 64" "p div 4096 mod 64 < 64"
      "0 \<le> p div 64 mod 64" "p div 64 mod 64 < 64" "0 \<le> p mod 64" "p mod 64 < 64"
      using 4 p by auto
    have e: "p div 262144 * 262144 + p div 4096 mod 64 * 4096 + p div 64 mod 64 * 64 + p mod 64 = p"
      by (rule split4)
    have z: "p div 262144 = 0 \<Longrightarrow> 16 \<le> p div 4096 mod 64" using 4 b e by linarith
    have d: "p div 262144 = 4 \<Longrightarrow> p div 4096 mod 64 < 16" using p b e by linarith
    have n: "(p < 0x80) = False" "(p < 0x800) = False" "(p < 0x10000) = False" using 4 by simp_all
    show ?thesis
      unfolding utf8_point_def n if_False append.simps
      by (subst take_point4) (fact b(2), fact b(1), fact b(3), fact b(4), fact b(5), fact b(6),
          fact b(7), fact b(8), erule z, erule d, simp only: e)
  qed
qed

lemma decode_points_encode:
  "list_all scalar ps \<Longrightarrow> decode_points (concat (map utf8_point ps)) = Some ps"
proof (induction ps)
  case (Cons p ps)
  have "utf8_point p \<noteq> []" by (simp add: utf8_point_def)
  then show ?case
    using Cons by (subst decode_points.simps) (simp add: take_utf8_point)
qed (simp add: decode_points.simps)

end
