(* ===== verification/Wasm_Codec.thy ===== *)
theory Wasm_Codec
  imports Wasm_Abi Utf
begin

text \<open>
  The JSON ABI codec of \<^verbatim>\<open>src/wasm/codec.ts\<close>.  Values are JSON trees, so
  reference cycles, typed arrays and exotic prototypes, which the code also rejects, cannot be
  written down; \<^verbatim>\<open>undefined\<close> can.  The Base64 routines are a package and
  are arguments of the two functions that call them.
\<close>

section \<open>Limits, patterns and the error catalog\<close>

definition MAX_REQUEST_BYTES :: int where "MAX_REQUEST_BYTES = 2 ^ 20"
definition MAX_RESPONSE_BYTES :: int where "MAX_RESPONSE_BYTES = 2 ^ 20"
definition MAX_BINARY_BYTES :: int where "MAX_BINARY_BYTES = 512 * 2 ^ 10"
definition MAX_ID_BYTES :: int where "MAX_ID_BYTES = 128"
definition MAX_CANCELLATION_TOKEN_BYTES :: int where "MAX_CANCELLATION_TOKEN_BYTES = 256"
definition MAX_REQUIRED_CAPABILITIES :: nat where "MAX_REQUIRED_CAPABILITIES = 32"
definition MAX_JSON_DEPTH :: nat where "MAX_JSON_DEPTH = 32"

definition byte_length :: "jstr \<Rightarrow> int" where
  "byte_length s = int (utf8_length s)"

definition is_name_char :: "16 word \<Rightarrow> bool" where
  "is_name_char c \<longleftrightarrow> is_lower c \<or> is_digit c"

text \<open>\<^verbatim>\<open>[a-z][a-z0-9]*(?:SEP[a-z0-9]+)*\<close>, whole text, for a class of separators.\<close>

fun name_rest :: "(16 word \<Rightarrow> bool) \<Rightarrow> bool \<Rightarrow> jstr \<Rightarrow> bool" where
  "name_rest sep after_sep [] = (\<not> after_sep)"
| "name_rest sep after_sep (c # s) =
     (if is_name_char c then name_rest sep False s
      else if sep c \<and> \<not> after_sep then name_rest sep True s
      else False)"

definition segmented_name :: "(16 word \<Rightarrow> bool) \<Rightarrow> jstr \<Rightarrow> bool" where
  "segmented_name sep s = (case s of [] \<Rightarrow> False | c # t \<Rightarrow> is_lower c \<and> name_rest sep False t)"

definition errorCodePattern :: "jstr \<Rightarrow> bool" where
  "errorCodePattern s = segmented_name (\<lambda>c. c = 95) s"

definition codecCapabilityPattern :: "jstr \<Rightarrow> bool" where
  "codecCapabilityPattern s \<longleftrightarrow> s \<noteq> [] \<and> list_all (\<lambda>c. is_name_char c \<or> c = 46 \<or> c = 45) s"

definition is_b64 :: "16 word \<Rightarrow> bool" where
  "is_b64 c \<longleftrightarrow> is_alpha c \<or> is_digit c \<or> c = 43 \<or> c = 47"

fun base64Pattern :: "jstr \<Rightarrow> bool" where
  "base64Pattern [] = True"
| "base64Pattern [a, b, c, d] =
     (is_b64 a \<and> is_b64 b \<and> ((is_b64 c \<and> is_b64 d) \<or> (c = 61 \<and> d = 61) \<or> (is_b64 c \<and> d = 61)))"
| "base64Pattern (a # b # c # d # s) = (list_all is_b64 [a, b, c, d] \<and> base64Pattern s)"
| "base64Pattern _ = False"

definition GOFORGE_ABI_V1_ERROR_CODES :: "jstr list" where
  "GOFORGE_ABI_V1_ERROR_CODES =
     [js ''invalid_json'', js ''unknown_field'', js ''duplicate_field'', js ''request_too_large'',
      js ''response_too_large'', js ''invalid_abi'', js ''invalid_request'', js ''unknown_operation'',
      js ''capability_unavailable'', js ''execution_state_required'', js ''deadline_exceeded'',
      js ''cancellation_requested'', js ''invalid_base64'', js ''invalid_utf8'',
      js ''input_too_large'', js ''invalid_key'', js ''invalid_nonce'',
      js ''authentication_failed'', js ''internal'']"

definition GOFORGE_ABI_ERROR_CATALOG :: "(jstr \<times> (jstr \<times> bool)) list" where
  "GOFORGE_ABI_ERROR_CATALOG =
     [(js ''invalid_json'', (js ''JSON is malformed or not canonical ABI input'', False)),
      (js ''unknown_field'', (js ''JSON contains an unknown field'', False)),
      (js ''duplicate_field'', (js ''JSON contains a duplicate object field'', False)),
      (js ''request_too_large'', (js ''request exceeds the configured byte limit'', False)),
      (js ''response_too_large'', (js ''response exceeds the configured byte limit'', False)),
      (js ''invalid_abi'', (js ''request ABI version is unsupported'', False)),
      (js ''invalid_request'', (js ''request does not satisfy the ABI contract'', False)),
      (js ''unknown_operation'', (js ''operation is unsupported'', False)),
      (js ''capability_unavailable'', (js ''required capability is unavailable'', False)),
      (js ''execution_state_required'', (js ''host did not provide checked execution state'', False)),
      (js ''deadline_exceeded'', (js ''request deadline has been exceeded'', True)),
      (js ''cancellation_requested'', (js ''request cancellation was requested'', False)),
      (js ''invalid_base64'', (js ''value is not canonical standard padded Base64'', False)),
      (js ''invalid_utf8'', (js ''value is not valid UTF-8'', False)),
      (js ''input_too_large'', (js ''operation input exceeds the configured byte limit'', False)),
      (js ''invalid_key'', (js ''cryptographic key has an invalid length'', False)),
      (js ''invalid_nonce'', (js ''AES-GCM nonce must be exactly 12 bytes'', False)),
      (js ''authentication_failed'', (js ''AES-GCM authentication failed'', False)),
      (js ''internal'', (js ''portable operation failed without a safe public detail'', False))]"

text \<open>
  The catalog is an object literal, so indexing it with a code also finds the names it inherits from
  \<^verbatim>\<open>Object.prototype\<close> (the runtime removes \<^verbatim>\<open>__proto__\<close>): functions, whose
  \<^verbatim>\<open>message\<close> and \<^verbatim>\<open>retryable\<close> are undefined.
\<close>

definition OBJECT_PROTOTYPE :: "jstr list" where
  "OBJECT_PROTOTYPE =
     [js ''constructor'', js ''__defineGetter__'', js ''__defineSetter__'', js ''hasOwnProperty'',
      js ''__lookupGetter__'', js ''__lookupSetter__'', js ''isPrototypeOf'',
      js ''propertyIsEnumerable'', js ''toString'', js ''valueOf'', js ''toLocaleString'']"

definition catalog_entry :: "jstr \<Rightarrow> (jstr option \<times> bool option) option" where
  "catalog_entry code =
     (case map_of GOFORGE_ABI_ERROR_CATALOG code of
        Some (msg, retry) \<Rightarrow> Some (Some msg, Some retry)
      | None \<Rightarrow> if code \<in> set OBJECT_PROTOTYPE then Some (None, None) else None)"

fun text_value :: "jstr option \<Rightarrow> jval" where
  "text_value None = JUndef"
| "text_value (Some s) = JStr s"

fun flag_value :: "bool option \<Rightarrow> jval" where
  "flag_value None = JUndef"
| "flag_value (Some b) = JBool b"

section \<open>Checks\<close>

definition is_control :: "16 word \<Rightarrow> bool" where
  "is_control c \<longleftrightarrow> c < 0x20 \<or> (0x7F \<le> c \<and> c \<le> 0x9F)"

definition bounded_text :: "int \<Rightarrow> jval \<Rightarrow> bool" where
  "bounded_text limit v =
     (case v of
        JStr s \<Rightarrow> s \<noteq> [] \<and> byte_length s \<le> limit \<and> \<not> list_ex is_control s
      | _ \<Rightarrow> False)"

definition assertIdentifier :: "jval \<Rightarrow> jstr \<Rightarrow> wasm_error + unit" where
  "assertIdentifier v path =
     (if bounded_text MAX_ID_BYTES v then Inr ()
      else Inl (codec_error (path @
        js '' must be a non-empty control-free UTF-8 string of at most 128 bytes'')))"

definition assertToken :: "jval \<Rightarrow> wasm_error + unit" where
  "assertToken v =
     (if bounded_text MAX_CANCELLATION_TOKEN_BYTES v then Inr ()
      else Inl (codec_error (js ''metadata.cancellation_token is invalid'')))"

definition assertErrorField :: "jval \<Rightarrow> wasm_error + unit" where
  "assertErrorField v =
     (if bounded_text 512 v then Inr ()
      else Inl (codec_error (js ''response.error.field is invalid'')))"

definition requireRecord :: "jval \<Rightarrow> jstr \<Rightarrow> wasm_error + jobj" where
  "requireRecord v path =
     (case v of
        JObj ob \<Rightarrow> Inr ob
      | _ \<Rightarrow> Inl (codec_error (path @ js '' must be an object'')))"

definition keys_of :: "jobj \<Rightarrow> jstr list" where
  "keys_of ob = map fst ob"

text \<open>Sorting both lists and comparing them position by position compares them as multisets.\<close>

fun same_keys :: "jstr list \<Rightarrow> jstr list \<Rightarrow> bool" where
  "same_keys [] ws = (ws = [])"
| "same_keys (k # ks) ws = (k \<in> set ws \<and> same_keys ks (remove1 k ws))"

definition requireExactKeys :: "jobj \<Rightarrow> jstr list \<Rightarrow> jstr \<Rightarrow> wasm_error + unit" where
  "requireExactKeys ob expected path =
     (if same_keys (keys_of ob) expected then Inr ()
      else Inl (codec_error (path @ js '' has unsupported or missing fields'')))"

definition reserved_key :: "jstr \<Rightarrow> bool" where
  "reserved_key k \<longleftrightarrow> k = js ''__proto__'' \<or> k = js ''constructor'' \<or> k = js ''prototype''"

section \<open>Copying a value\<close>

fun copyAbiValue :: "jstr \<Rightarrow> nat \<Rightarrow> jval \<Rightarrow> wasm_error + jval"
and copy_items :: "jstr \<Rightarrow> int \<Rightarrow> nat \<Rightarrow> jval list \<Rightarrow> wasm_error + jval list"
and copy_fields :: "jstr \<Rightarrow> nat \<Rightarrow> (jstr \<times> jval) list \<Rightarrow> wasm_error + jobj" where
  "copyAbiValue path depth v =
     (if MAX_JSON_DEPTH < depth then
        Inl (codec_error (js ''ABI data exceeds maximum nesting depth 32''))
      else
        (case v of
           JUndef \<Rightarrow> Inl (codec_error (path @ js '' contains unsupported undefined data''))
         | JArr items \<Rightarrow> and_then (copy_items path 0 (Suc depth) items) (\<lambda>r. Inr (JArr r))
         | JObj props \<Rightarrow> and_then (copy_fields path (Suc depth) props) (\<lambda>r. Inr (JObj r))
         | _ \<Rightarrow> Inr v))"
| "copy_items path i depth [] = Inr []"
| "copy_items path i depth (v # vs) =
     and_then (copyAbiValue (path @ 91 # int_digits 10 i @ [93]) depth v) (\<lambda>w.
       and_then (copy_items path (i + 1) depth vs) (\<lambda>ws. Inr (w # ws)))"
| "copy_fields path depth [] = Inr []"
| "copy_fields path depth ((k, v) # kvs) =
     (if reserved_key k then Inl (codec_error (path @ js '' contains a reserved object key''))
      else
        and_then (copyAbiValue (path @ 46 # k) depth v) (\<lambda>w.
          and_then (copy_fields path depth kvs) (\<lambda>ws. Inr ((k, w) # ws))))"

definition encodeAbiValue :: "jval \<Rightarrow> wasm_error + jval" where
  "encodeAbiValue v = copyAbiValue (js ''$'') 0 v"

definition decodeAbiValue :: "jval \<Rightarrow> wasm_error + jval" where
  "decodeAbiValue v = copyAbiValue (js ''$'') 0 v"

section \<open>Binary fields\<close>

definition encodeAbiBase64 :: "(bytes \<Rightarrow> jstr) \<Rightarrow> bytes \<Rightarrow> wasm_error + jstr" where
  "encodeAbiBase64 b64enc bs =
     (if int (length bs) > MAX_BINARY_BYTES
      then Inl (codec_error (js ''Base64 input exceeds the ABI binary limit''))
      else Inr (b64enc bs))"

definition assertCanonicalBase64 ::
    "(bytes \<Rightarrow> jstr) \<Rightarrow> (jstr \<Rightarrow> bytes option) \<Rightarrow> jstr \<Rightarrow> jstr \<Rightarrow> wasm_error + unit" where
  "assertCanonicalBase64 b64enc b64dec s path =
     (if length s mod 4 \<noteq> 0 \<or> \<not> base64Pattern s then
        Inl (codec_error (path @ js '' is not canonical RFC 4648 padded Base64''))
      else
        (case b64dec s of
           None \<Rightarrow> Inl (codec_error (path @ js '' is invalid Base64''))
         | Some bs \<Rightarrow>
             if b64enc bs \<noteq> s then Inl (codec_error (path @ js '' is invalid Base64'')) else Inr ()))"

definition decodeAbiBase64 ::
    "(bytes \<Rightarrow> jstr) \<Rightarrow> (jstr \<Rightarrow> bytes option) \<Rightarrow> jstr \<Rightarrow> wasm_error + bytes" where
  "decodeAbiBase64 b64enc b64dec s =
     and_then (assertCanonicalBase64 b64enc b64dec s (js ''Base64 value'')) (\<lambda>_.
       (case b64dec s of
          None \<Rightarrow> Inl (codec_error (js ''Base64 value is invalid Base64''))
        | Some bs \<Rightarrow>
            if int (length bs) > MAX_BINARY_BYTES
            then Inl (codec_error (js ''Base64 value exceeds the ABI binary limit''))
            else Inr bs))"


section \<open>Requests\<close>

definition safe_integer :: "rat \<Rightarrow> bool" where
  "safe_integer r \<longleftrightarrow> rat_is_int r \<and> \<bar>r\<bar> \<le> 2 ^ 53 - 1"

definition known_capabilities :: "jstr list" where
  "known_capabilities = map snd GOFORGE_ABI_V1_OPERATION_CAPABILITIES @
     [js ''control.deadline'', js ''control.cancellation'']"

fun check_capabilities :: "jstr list \<Rightarrow> jval list \<Rightarrow> wasm_error + jval list" where
  "check_capabilities seen [] = Inr []"
| "check_capabilities seen (v # vs) =
     (case v of
        JStr c \<Rightarrow>
          if \<not> codecCapabilityPattern c \<or> c \<in> set seen then
            Inl (codec_error (js ''metadata.required_capabilities is invalid or duplicated''))
          else if c \<notin> set known_capabilities then
            Inl (codec_error (js ''required capability '' @ json_quote c @ js '' is unavailable''))
          else and_then (check_capabilities (c # seen) vs) (\<lambda>ws. Inr (JStr c # ws))
      | _ \<Rightarrow> Inl (codec_error (js ''metadata.required_capabilities is invalid or duplicated'')))"

definition metadata_keys :: "jstr list" where
  "metadata_keys =
     [js ''deadline_unix_ms'', js ''cancellation_token'', js ''required_capabilities'']"

fun unknown_key :: "jstr list \<Rightarrow> jstr list \<Rightarrow> jstr option" where
  "unknown_key allowed [] = None"
| "unknown_key allowed (k # ks) = (if k \<in> set allowed then unknown_key allowed ks else Some k)"

definition check_deadline :: "jval \<Rightarrow> wasm_error + jobj" where
  "check_deadline v =
     (case v of
        JUndef \<Rightarrow> Inr []
      | JNum r \<Rightarrow>
          if safe_integer r \<and> 0 < r then Inr [(js ''deadline_unix_ms'', v)]
          else Inl (codec_error (js ''metadata.deadline_unix_ms must be a positive safe integer''))
      | _ \<Rightarrow> Inl (codec_error (js ''metadata.deadline_unix_ms must be a positive safe integer'')))"

definition check_token :: "jval \<Rightarrow> wasm_error + jobj" where
  "check_token v =
     (if v = JUndef then Inr []
      else and_then (assertToken v) (\<lambda>_. Inr [(js ''cancellation_token'', v)]))"

definition check_required :: "jval \<Rightarrow> wasm_error + jobj" where
  "check_required v =
     (case v of
        JUndef \<Rightarrow> Inr []
      | JArr items \<Rightarrow>
          if MAX_REQUIRED_CAPABILITIES < length items
          then Inl (codec_error (js ''metadata.required_capabilities exceeds the ABI limit''))
          else and_then (check_capabilities [] items)
                 (\<lambda>ws. Inr [(js ''required_capabilities'', JArr ws)])
      | _ \<Rightarrow> Inl (codec_error (js ''metadata.required_capabilities exceeds the ABI limit'')))"

definition normalizeMetadata :: "jval \<Rightarrow> wasm_error + jval" where
  "normalizeMetadata v =
     and_then (requireRecord v (js ''metadata'')) (\<lambda>ob.
       (case unknown_key metadata_keys (keys_of ob) of
          Some k \<Rightarrow> Inl (codec_error (js ''metadata contains unknown field '' @ k))
        | None \<Rightarrow>
            and_then (check_deadline (obj_get ob (js ''deadline_unix_ms''))) (\<lambda>d.
            and_then (check_token (obj_get ob (js ''cancellation_token''))) (\<lambda>t.
            and_then (check_required (obj_get ob (js ''required_capabilities''))) (\<lambda>r.
            Inr (JObj (d @ t @ r)))))))"

fun optional :: "('a \<Rightarrow> 'e + 'b) \<Rightarrow> 'a option \<Rightarrow> 'e + 'b option" where
  "optional f None = Inr None"
| "optional f (Some x) = and_then (f x) (\<lambda>y. Inr (Some y))"

definition createAbiRequest ::
    "jstr \<Rightarrow> jstr \<Rightarrow> jval \<Rightarrow> jval option \<Rightarrow> wasm_error + abi_request" where
  "createAbiRequest rid operation payload metadata =
     and_then (assertIdentifier (JStr rid) (js ''id'')) (\<lambda>_.
       if operation \<notin> set GOFORGE_ABI_V1_OPERATIONS then
         Inl (codec_error (js ''unsupported ABI operation '' @ json_quote operation))
       else
         and_then (optional normalizeMetadata metadata) (\<lambda>m.
         and_then (encodeAbiValue payload) (\<lambda>p.
         Inr \<lparr> rq_abi = GOFORGE_ABI_V1, rq_id = rid, rq_operation = operation, rq_metadata = m,
                rq_payload = p \<rparr>)))"

text \<open>The properties of a request object, in the order Go serializes them.\<close>

definition request_object :: "abi_request \<Rightarrow> jobj" where
  "request_object rq =
     [(js ''abi'', JStr (rq_abi rq)), (js ''id'', JStr (rq_id rq)),
      (js ''operation'', JStr (rq_operation rq))] @
     (case rq_metadata rq of None \<Rightarrow> [] | Some m \<Rightarrow> [(js ''metadata'', m)]) @
     [(js ''payload'', rq_payload rq)]"

definition validateRequestEnvelope :: "abi_request \<Rightarrow> wasm_error + unit" where
  "validateRequestEnvelope rq =
     and_then (requireExactKeys (request_object rq)
         (if rq_metadata rq = None
          then [js ''abi'', js ''id'', js ''operation'', js ''payload'']
          else [js ''abi'', js ''id'', js ''operation'', js ''metadata'', js ''payload''])
         (js ''request'')) (\<lambda>_.
       if rq_abi rq \<noteq> GOFORGE_ABI_V1 then Inl (codec_error (js ''request ABI is unsupported''))
       else
         and_then (assertIdentifier (JStr (rq_id rq)) (js ''id'')) (\<lambda>_.
           if rq_operation rq \<notin> set GOFORGE_ABI_V1_OPERATIONS
           then Inl (codec_error (js ''request operation is unsupported''))
           else
             and_then (optional normalizeMetadata (rq_metadata rq)) (\<lambda>_.
             and_then (encodeAbiValue (rq_payload rq)) (\<lambda>_. Inr ()))))"

definition serializeAbiRequest :: "abi_request \<Rightarrow> wasm_error + jstr" where
  "serializeAbiRequest rq =
     and_then (validateRequestEnvelope rq) (\<lambda>_.
       (let json = json_print (JObj (request_object rq))
        in if MAX_REQUEST_BYTES < byte_length json
           then Inl (codec_error (js ''request exceeds the ABI byte limit''))
           else Inr json))"

section \<open>Responses\<close>

definition createAbiSuccessResponse :: "jstr \<Rightarrow> jval \<Rightarrow> wasm_error + abi_response" where
  "createAbiSuccessResponse rid result =
     and_then (assertIdentifier (JStr rid) (js ''id'')) (\<lambda>_.
     and_then (encodeAbiValue result) (\<lambda>r. Inr (AbiSuccess rid r)))"

definition createAbiFailureResponse ::
    "jstr \<Rightarrow> jstr \<Rightarrow> jstr option \<Rightarrow> jstr option \<Rightarrow> bool option \<Rightarrow> wasm_error + abi_response" where
  "createAbiFailureResponse rid code field message retryable =
     and_then (assertIdentifier (JStr rid) (js ''id'')) (\<lambda>_.
       (case catalog_entry code of
          None \<Rightarrow> Inl (codec_error (js ''unknown ABI error code '' @ json_quote code))
        | Some (msg, retry) \<Rightarrow>
            if message \<noteq> None \<and> message \<noteq> msg then
              Inl (codec_error (js ''ABI error message does not match the GoForge v1 catalog''))
            else if retryable \<noteq> None \<and> retryable \<noteq> retry then
              Inl (codec_error (js ''ABI error retryability does not match the GoForge v1 catalog''))
            else
              and_then (case field of None \<Rightarrow> Inr () | Some f \<Rightarrow> assertErrorField (JStr f)) (\<lambda>_.
                Inr (AbiFailure rid \<lparr> ae_code = code, ae_message = msg, ae_retryable = retry,
                                      ae_field = field \<rparr>))))"

fun response_object :: "abi_response \<Rightarrow> jval" where
  "response_object (AbiSuccess rid r) =
     JObj [(js ''abi'', JStr GOFORGE_ABI_V1), (js ''id'', JStr rid), (js ''ok'', JBool True),
           (js ''result'', r)]"
| "response_object (AbiFailure rid e) =
     JObj [(js ''abi'', JStr GOFORGE_ABI_V1), (js ''id'', JStr rid), (js ''ok'', JBool False),
           (js ''error'', JObj ([(js ''code'', JStr (ae_code e)), (js ''message'', text_value (ae_message e)),
              (js ''retryable'', flag_value (ae_retryable e))] @
              (case ae_field e of None \<Rightarrow> [] | Some f \<Rightarrow> [(js ''field'', JStr f)])))]"

definition validate_error :: "jval \<Rightarrow> wasm_error + abi_error" where
  "validate_error v =
     and_then (requireRecord v (js ''response.error'')) (\<lambda>er.
     and_then (requireExactKeys er
         ([js ''code'', js ''message'', js ''retryable''] @
          (if js ''field'' \<in> set (keys_of er) then [js ''field''] else []))
         (js ''response.error'')) (\<lambda>_.
       (case obj_get er (js ''code'') of
          JStr code \<Rightarrow>
            if \<not> errorCodePattern code then
              Inl (codec_error (js ''response.error.code must be lowercase snake_case''))
            else
              (case catalog_entry code of
                 None \<Rightarrow> Inl (codec_error (js ''response.error.code '' @ code @ js '' is not in ABI v1''))
               | Some (msg, retry) \<Rightarrow>
                   if obj_get er (js ''message'') \<noteq> text_value msg then
                     Inl (codec_error (js ''response.error.message does not match the ABI v1 catalog''))
                   else if obj_get er (js ''retryable'') \<noteq> flag_value retry then
                     Inl (codec_error (js ''response.error.retryable does not match the ABI v1 catalog''))
                   else if js ''field'' \<in> set (keys_of er) then
                     and_then (assertErrorField (obj_get er (js ''field''))) (\<lambda>_.
                       Inr \<lparr> ae_code = code, ae_message = msg, ae_retryable = retry,
                              ae_field = (case obj_get er (js ''field'') of JStr f \<Rightarrow> Some f | _ \<Rightarrow> None) \<rparr>)
                   else Inr \<lparr> ae_code = code, ae_message = msg, ae_retryable = retry, ae_field = None \<rparr>)
        | _ \<Rightarrow> Inl (codec_error (js ''response.error.code must be lowercase snake_case'')))))"

definition validateAbiResponse :: "jval \<Rightarrow> jstr \<Rightarrow> wasm_error + abi_response" where
  "validateAbiResponse v expectedId =
     and_then (assertIdentifier (JStr expectedId) (js ''id'')) (\<lambda>_.
     and_then (requireRecord v (js ''response'')) (\<lambda>ob.
     and_then (requireExactKeys ob
         (if obj_get ob (js ''ok'') = JBool True
          then [js ''abi'', js ''id'', js ''ok'', js ''result'']
          else [js ''abi'', js ''id'', js ''ok'', js ''error''])
         (js ''response'')) (\<lambda>_.
       if obj_get ob (js ''abi'') \<noteq> JStr GOFORGE_ABI_V1 then
         Inl (codec_error (js ''unsupported response ABI '' @ json_print (obj_get ob (js ''abi''))))
       else if obj_get ob (js ''id'') \<noteq> JStr expectedId then
         Inl (codec_error (js ''component response id does not match the request''))
       else if obj_get ob (js ''ok'') = JBool True then
         and_then (encodeAbiValue (obj_get ob (js ''result''))) (\<lambda>r. Inr (AbiSuccess expectedId r))
       else if obj_get ob (js ''ok'') \<noteq> JBool False then
         Inl (codec_error (js ''response.ok must be a boolean discriminator''))
       else
         and_then (validate_error (obj_get ob (js ''error''))) (\<lambda>e. Inr (AbiFailure expectedId e)))))"

section \<open>Duplicate fields\<close>

datatype scan_error = DuplicateField | TooDeep | UnterminatedString | BadString | ScanFuel

fun scan_error_codec :: "scan_error \<Rightarrow> wasm_error" where
  "scan_error_codec DuplicateField =
     codec_error (js ''component response contains a duplicate object field'')"
| "scan_error_codec TooDeep = codec_error (js ''response exceeds maximum JSON depth 32'')"
| "scan_error_codec UnterminatedString =
     codec_error (js ''component response contains an unterminated string'')"
| "scan_error_codec _ = codec_error (js ''component response is not valid JSON'')"

text \<open>The raw text of a token up to its closing quote.\<close>

fun scan_quote :: "jstr \<Rightarrow> (jstr \<times> jstr) option" where
  "scan_quote [] = None"
| "scan_quote (c # s) =
     (if c = 92 then
        (case s of [] \<Rightarrow> None | d # t \<Rightarrow> map_option (apfst (\<lambda>b. c # d # b)) (scan_quote t))
      else if c = 34 then Some ([c], s)
      else map_option (apfst ((#) c)) (scan_quote s))"

definition string_token :: "jstr \<Rightarrow> scan_error + (jstr \<times> jstr)" where
  "string_token s =
     (case s of
        [] \<Rightarrow> Inl UnterminatedString
      | c # t \<Rightarrow>
          (case scan_quote t of
             None \<Rightarrow> Inl UnterminatedString
           | Some (body, r) \<Rightarrow>
               (case json_parse (c # body) of Some (JStr k) \<Rightarrow> Inr (k, r) | _ \<Rightarrow> Inl BadString)))"

definition ends_scalar :: "16 word \<Rightarrow> bool" where
  "ends_scalar c \<longleftrightarrow> is_space c \<or> c = 44 \<or> c = 125 \<or> c = 93"

fun scan_value :: "nat \<Rightarrow> nat \<Rightarrow> jstr \<Rightarrow> scan_error + jstr"
and scan_object :: "nat \<Rightarrow> nat \<Rightarrow> jstr list \<Rightarrow> jstr \<Rightarrow> scan_error + jstr"
and scan_array :: "nat \<Rightarrow> nat \<Rightarrow> jstr \<Rightarrow> scan_error + jstr" where
  "scan_value 0 depth s = Inl ScanFuel"
| "scan_value (Suc n) depth s =
     (if MAX_JSON_DEPTH < depth then Inl TooDeep
      else
        (case skip s of
           [] \<Rightarrow> Inr []
         | c # t \<Rightarrow>
             if c = 123 then
               (case skip t of
                  d # u \<Rightarrow> if d = 125 then Inr u else scan_object n (Suc depth) [] (d # u)
                | [] \<Rightarrow> Inr [])
             else if c = 91 then
               (case skip t of
                  d # u \<Rightarrow> if d = 93 then Inr u else scan_array n (Suc depth) (d # u)
                | [] \<Rightarrow> Inr [])
             else if c = 34 then and_then (string_token (c # t)) (\<lambda>(_, r). Inr r)
             else Inr (dropWhile (\<lambda>x. \<not> ends_scalar x) (c # t))))"
| "scan_object 0 depth seen s = Inl ScanFuel"
| "scan_object (Suc n) depth seen s =
     (if s = [] then Inr []
      else
        and_then (string_token (skip s)) (\<lambda>(k, r).
          if k \<in> set seen then Inl DuplicateField
          else
            and_then (scan_value n depth (drop 1 (skip r))) (\<lambda>q.
              (case skip q of
                 [] \<Rightarrow> Inr []
               | c # t \<Rightarrow> if c = 125 then Inr t else scan_object n depth (k # seen) t))))"
| "scan_array 0 depth s = Inl ScanFuel"
| "scan_array (Suc n) depth s =
     (if s = [] then Inr []
      else
        and_then (scan_value n depth s) (\<lambda>q.
          (case skip q of
             [] \<Rightarrow> Inr []
           | c # t \<Rightarrow> if c = 93 then Inr t else scan_array n depth t)))"

definition assertUniqueAbiJsonObjectFields :: "jstr \<Rightarrow> scan_error + unit" where
  "assertUniqueAbiJsonObjectFields json =
     and_then (scan_value (2 * length json + 2) 0 json) (\<lambda>_. Inr ())"

definition parseAbiResponse :: "jstr \<Rightarrow> jstr \<Rightarrow> wasm_error + abi_response" where
  "parseAbiResponse json expectedId =
     (if MAX_RESPONSE_BYTES < byte_length json then
        Inl (codec_error (js ''component response exceeds the ABI byte limit''))
      else
        (case json_parse json of
           None \<Rightarrow> Inl (codec_error (js ''component response is not valid JSON''))
         | Some v \<Rightarrow>
             (case assertUniqueAbiJsonObjectFields json of
                Inl e \<Rightarrow> Inl (scan_error_codec e)
              | Inr _ \<Rightarrow> validateAbiResponse v expectedId)))"

declare scan_value.simps [simp del] scan_object.simps [simp del] scan_array.simps [simp del]


section \<open>The scan always ends\<close>

lemma scan_quote_shorter: "scan_quote s = Some (b, r) \<Longrightarrow> length r < length s"
proof (induction s arbitrary: b r rule: scan_quote.induct)
  case (2 c s)
  show ?case
  proof (cases "c = 92")
    case True
    then obtain d t where s: "s = d # t" using "2.prems" by (cases s) auto
    then obtain b' where "scan_quote t = Some (b', r)" using "2.prems" True by auto
    then show ?thesis using 2(1) [OF True s] s by fastforce
  next
    case False
    then show ?thesis
      using "2.prems" 2(2) [OF False] by (cases "c = 34") fastforce+
  qed
qed simp

lemma string_token_shorter: "string_token s = Inr (k, r) \<Longrightarrow> length r < length s"
  using scan_quote_shorter
  by (fastforce simp: string_token_def split: list.splits option.splits jval.splits)

lemma string_token_fuel: "string_token s \<noteq> Inl ScanFuel"
  by (auto simp: string_token_def split: list.splits option.splits jval.splits)

lemma scan_no_longer:
  "scan_value n depth s = Inr r \<Longrightarrow> length r \<le> length s"
  "scan_object n depth seen s = Inr r \<Longrightarrow> length r \<le> length s"
  "scan_array n depth s = Inr r \<Longrightarrow> length r \<le> length s"
proof (induction n depth s and n depth seen s and n depth s arbitrary: r and r and r
    rule: scan_value_scan_object_scan_array.induct)
  case (2 n depth s)
  note j = "2.prems"
  show ?case
  proof (cases "skip s")
    case Nil
    then show ?thesis using j by (auto simp: scan_value.simps split: if_splits)
  next
    case (Cons c t)
    have st: "Suc (length t) \<le> length s" using skip_length [of s] Cons by simp
    have d: "\<not> MAX_JSON_DEPTH < depth" using j by (auto simp: scan_value.simps)
    consider (ob) "c = 123" | (ar) "c = 91" "c \<noteq> 123" | (st) "c = 34" | (sc) "c \<notin> {123, 91, 34}"
      by blast
    then show ?thesis
    proof cases
      case ob
      show ?thesis
      proof (cases "skip t")
        case Nil
        then show ?thesis using j Cons ob d by (simp add: scan_value.simps)
      next
        case u: (Cons e u)
        then show ?thesis
          using 2(1) [OF d Cons ob u] j Cons ob d st skip_length [of t]
          by (fastforce simp: scan_value.simps split: if_splits)
      qed
    next
      case ar
      show ?thesis
      proof (cases "skip t")
        case Nil
        then show ?thesis using j Cons ar d by (simp add: scan_value.simps)
      next
        case u: (Cons e u)
        then show ?thesis
          using 2(2) [OF d Cons ar(2,1) u] j Cons ar d st skip_length [of t]
          by (fastforce simp: scan_value.simps split: if_splits)
      qed
    next
      case st
      then show ?thesis
        using j Cons d string_token_shorter [of "c # t"] skip_length [of s]
        by (fastforce simp: scan_value.simps)
    next
      case sc
      have "r = dropWhile (\<lambda>x. \<not> ends_scalar x) (c # t)"
        using sc j Cons d by (simp add: scan_value.simps)
      then show ?thesis
        using length_dropWhile_le [of "\<lambda>x. \<not> ends_scalar x" "c # t"] st by (simp only: list.size)
    qed
  qed
next
  case (4 n depth seen s)
  note j = "4.prems"
  show ?case
  proof (cases "s = []")
    case True
    then show ?thesis using j by (simp add: scan_object.simps)
  next
    case False
    obtain k q0 where t: "string_token (skip s) = Inr (k, q0)"
      using j False by (auto simp: scan_object.simps)
    have ns: "k \<notin> set seen" using j False t by (auto simp: scan_object.simps)
    obtain q where v: "scan_value n depth (drop 1 (skip q0)) = Inr q"
      using j False t ns by (auto simp: scan_object.simps)
    have q: "length q < length s"
      using 4(1) [OF False ns v] string_token_shorter [OF t] skip_length [of s] skip_length [of q0]
      by simp
    show ?thesis
    proof (cases "skip q")
      case Nil
      then show ?thesis using j False t ns v by (simp add: scan_object.simps)
    next
      case (Cons c u)
      then show ?thesis
        using j False t ns v q 4(2) [OF False ns Cons] skip_length [of q]
        by (fastforce simp: scan_object.simps split: if_splits)
    qed
  qed
next
  case (6 n depth s)
  note j = "6.prems"
  show ?case
  proof (cases "s = []")
    case True
    then show ?thesis using j by (simp add: scan_array.simps)
  next
    case False
    obtain q where v: "scan_value n depth s = Inr q" using j False by (auto simp: scan_array.simps)
    have q: "length q \<le> length s" by (rule 6(1) [OF False v])
    show ?thesis
    proof (cases "skip q")
      case Nil
      then show ?thesis using j False v by (simp add: scan_array.simps)
    next
      case (Cons c u)
      then show ?thesis
        using j False v q 6(2) [OF False Cons] skip_length [of q]
        by (fastforce simp: scan_array.simps split: if_splits)
    qed
  qed
qed (simp_all add: scan_value.simps scan_object.simps scan_array.simps)


lemma scan_fuel:
  "2 * length s + 1 \<le> n \<Longrightarrow> scan_value n depth s \<noteq> Inl ScanFuel"
  "2 * length s + 2 \<le> n \<Longrightarrow> scan_object n depth seen s \<noteq> Inl ScanFuel"
  "2 * length s + 2 \<le> n \<Longrightarrow> scan_array n depth s \<noteq> Inl ScanFuel"
proof (induction n depth s and n depth seen s and n depth s
    rule: scan_value_scan_object_scan_array.induct)
  case (2 n depth s)
  show ?case
  proof (cases "MAX_JSON_DEPTH < depth \<or> skip s = []")
    case True
    then show ?thesis by (auto simp: scan_value.simps)
  next
    case False
    then have d: "\<not> MAX_JSON_DEPTH < depth" by simp
    obtain c t where Cons: "skip s = c # t" using False by (cases "skip s") auto
    have st: "Suc (length t) \<le> length s" using skip_length [of s] Cons by simp
    show ?thesis
    proof (cases "skip t")
      case Nil
      then show ?thesis
        using d Cons string_token_fuel [of "c # t"]
        by (auto simp: scan_value.simps elim!: and_then_InlE)
    next
      case u: (Cons e u)
      have b: "2 * length (e # u) + 2 \<le> n" using 2(3) st skip_length [of t] u by simp
      have 1: "c = 123 \<Longrightarrow> e \<noteq> 125 \<Longrightarrow> scan_object n (Suc depth) [] (e # u) \<noteq> Inl ScanFuel"
        using 2(1) [OF d Cons _ u _ b] by blast
      have 2: "c = 91 \<Longrightarrow> e \<noteq> 93 \<Longrightarrow> scan_array n (Suc depth) (e # u) \<noteq> Inl ScanFuel"
        using 2(2) [OF d Cons _ _ u _ b] by auto
      show ?thesis
        using d Cons u 1 2 string_token_fuel [of "c # t"]
        by (auto simp: scan_value.simps elim!: and_then_InlE)
    qed
  qed
next
  case (4 n depth seen s)
  show ?case
  proof (cases "s = []")
    case True
    then show ?thesis by (simp add: scan_object.simps)
  next
    case False
    show ?thesis
    proof (cases "string_token (skip s)")
      case (Inl e)
      then show ?thesis using False string_token_fuel [of "skip s"] by (auto simp: scan_object.simps)
    next
      case (Inr p)
      then obtain k r where t: "string_token (skip s) = Inr (k, r)" by (cases p) auto
      have r: "length (drop 1 (skip r)) < length s"
        using string_token_shorter [OF t] skip_length [of s] skip_length [of r] by simp
      then have v: "k \<notin> set seen \<Longrightarrow> scan_value n depth (drop 1 (skip r)) \<noteq> Inl ScanFuel"
        using 4(1) [OF False, of k r] 4(3) by auto
      have o: "scan_object n depth (k # seen) u \<noteq> Inl ScanFuel"
        if "k \<notin> set seen" "scan_value n depth (drop 1 (skip r)) = Inr q" "skip q = c # u" "c \<noteq> 125" for q c u
      proof -
        have "length u < length s"
          using scan_no_longer(1) [OF that(2)] r that(3) skip_length [of q] by simp
        then show ?thesis using 4(2) [OF False that(1) that(3,4)] 4(3) by simp
      qed
      show ?thesis
        using False t v o
        by (auto simp: scan_object.simps elim!: and_then_InlE split: list.splits if_splits)
    qed
  qed
next
  case (6 n depth s)
  show ?case
  proof (cases "s = []")
    case True
    then show ?thesis by (simp add: scan_array.simps)
  next
    case False
    have v: "scan_value n depth s \<noteq> Inl ScanFuel" using 6(1) [OF False] 6(3) by simp
    have a: "scan_array n depth u \<noteq> Inl ScanFuel"
      if "scan_value n depth s = Inr q" "skip q = c # u" "c \<noteq> 93" for q c u
    proof -
      have "length u < length s" using scan_no_longer(1) [OF that(1)] that(2) skip_length [of q] by simp
      then show ?thesis using 6(2) [OF False that(2,3)] 6(3) by simp
    qed
    show ?thesis
      using False v a
      by (auto simp: scan_array.simps elim!: and_then_InlE split: list.splits if_splits)
  qed
qed (simp_all)

section \<open>Properties\<close>

text \<open>What the copy accepts: no undefined, no reserved key, at most 32 levels.\<close>

fun abi_ok :: "nat \<Rightarrow> jval \<Rightarrow> bool" where
  "abi_ok depth JUndef = False"
| "abi_ok depth (JArr items) = (depth \<le> MAX_JSON_DEPTH \<and> (\<forall>v \<in> set items. abi_ok (Suc depth) v))"
| "abi_ok depth (JObj ob) =
     (depth \<le> MAX_JSON_DEPTH \<and> (\<forall>kv \<in> set ob. \<not> reserved_key (fst kv) \<and> abi_ok (Suc depth) (snd kv)))"
| "abi_ok depth v = (depth \<le> MAX_JSON_DEPTH)"

declare copyAbiValue.simps [simp del]

lemma copy_abi_iff:
  "copyAbiValue path depth v = Inr w \<longleftrightarrow> w = v \<and> abi_ok depth v"
  "copy_items path i depth vs = Inr ws \<longleftrightarrow> ws = vs \<and> (\<forall>v \<in> set vs. abi_ok depth v)"
  "copy_fields path depth kvs = Inr kws \<longleftrightarrow>
     kws = kvs \<and> (\<forall>kv \<in> set kvs. \<not> reserved_key (fst kv) \<and> abi_ok depth (snd kv))"
proof (induction path depth v and path i depth vs and path depth kvs
    arbitrary: w and ws and kws rule: copyAbiValue_copy_items_copy_fields.induct)
  case (1 path depth v)
  then show ?case
    by (cases v) (auto simp: copyAbiValue.simps and_then_Inr_iff)
qed (auto simp: and_then_Inr_iff)

text \<open>
  ABI values.  Encoding a value returns that same value, and succeeds exactly when the value has no
  undefined part, no reserved object key and at most 32 levels of nesting.
\<close>

theorem encodeAbiValue_exact:
  "encodeAbiValue v = (if abi_ok 0 v then Inr v else Inl (projl (encodeAbiValue v)))"
  using copy_abi_iff(1) [of "js ''$''" 0 v v] copy_abi_iff(1) [of "js ''$''" 0 v]
  by (cases "encodeAbiValue v") (auto simp: encodeAbiValue_def)


lemma key_facts:
  "js ''abi'' \<noteq> js ''id''" "js ''abi'' \<noteq> js ''ok''" "js ''abi'' \<noteq> js ''result''"
  "js ''abi'' \<noteq> js ''error''" "js ''id'' \<noteq> js ''ok''" "js ''id'' \<noteq> js ''result''"
  "js ''id'' \<noteq> js ''error''" "js ''ok'' \<noteq> js ''result''" "js ''ok'' \<noteq> js ''error''"
  "js ''code'' \<noteq> js ''message''" "js ''code'' \<noteq> js ''retryable''" "js ''code'' \<noteq> js ''field''"
  "js ''message'' \<noteq> js ''retryable''" "js ''message'' \<noteq> js ''field''"
  "js ''retryable'' \<noteq> js ''field''"
  by (simp_all add: js_inject)

lemmas key_simps = key_facts key_facts [symmetric]

lemma catalog_codes: "map_of GOFORGE_ABI_ERROR_CATALOG code = Some d \<Longrightarrow> errorCodePattern code"
proof -
  have "list_all (\<lambda>x. errorCodePattern (fst x)) GOFORGE_ABI_ERROR_CATALOG" by code_simp
  then show "map_of GOFORGE_ABI_ERROR_CATALOG code = Some d \<Longrightarrow> errorCodePattern code"
    by (auto simp: list_all_iff dest!: map_of_SomeD)
qed

text \<open>The one inherited name that looks like an error code.\<close>

lemma inherited_codes: "code \<in> set OBJECT_PROTOTYPE \<and> errorCodePattern code \<longleftrightarrow> code = js ''constructor''"
proof -
  have "filter errorCodePattern OBJECT_PROTOTYPE = [js ''constructor'']" by code_simp
  then have "set (filter errorCodePattern OBJECT_PROTOTYPE) = {js ''constructor''}" by simp
  then show ?thesis by auto
qed

text \<open>An error that is an entry of the catalog; and the error the inherited name lets through.\<close>

definition catalogued :: "abi_error \<Rightarrow> bool" where
  "catalogued e \<longleftrightarrow>
     (\<exists>msg retry. map_of GOFORGE_ABI_ERROR_CATALOG (ae_code e) = Some (msg, retry) \<and>
        ae_message e = Some msg \<and> ae_retryable e = Some retry)"

definition inherited_error :: "abi_error \<Rightarrow> bool" where
  "inherited_error e \<longleftrightarrow>
     ae_code e = js ''constructor'' \<and> ae_message e = None \<and> ae_retryable e = None"

lemma constructor_uncatalogued: "map_of GOFORGE_ABI_ERROR_CATALOG (js ''constructor'') = None"
  by (simp add: GOFORGE_ABI_ERROR_CATALOG_def js_inject)

lemma catalog_entry_iff:
  "catalog_entry (ae_code e) = Some (ae_message e, ae_retryable e) \<and> errorCodePattern (ae_code e) \<longleftrightarrow>
   catalogued e \<or> inherited_error e"
  using inherited_codes [of "ae_code e"] catalog_codes [of "ae_code e"] constructor_uncatalogued
  by (auto simp: catalog_entry_def catalogued_def inherited_error_def split: option.splits)

definition response_ok :: "jstr \<Rightarrow> abi_response \<Rightarrow> bool" where
  "response_ok rid r \<longleftrightarrow>
     bounded_text MAX_ID_BYTES (JStr rid) \<and>
     (case r of
        AbiSuccess i v \<Rightarrow> i = rid \<and> abi_ok 0 v
      | AbiFailure i e \<Rightarrow> i = rid \<and> (catalogued e \<or> inherited_error e) \<and>
          (case ae_field e of None \<Rightarrow> True | Some f \<Rightarrow> bounded_text 512 (JStr f)))"

lemma bounded_text_str: "bounded_text n v \<Longrightarrow> \<exists>s. v = JStr s"
  by (cases v) (auto simp: bounded_text_def)

lemma validate_error_parts:
  assumes "validate_error v = Inr e"
  obtains er where "v = JObj er"
    "same_keys (keys_of er) ([js ''code'', js ''message'', js ''retryable''] @
       (if js ''field'' \<in> set (keys_of er) then [js ''field''] else []))"
    "errorCodePattern (ae_code e)" "catalog_entry (ae_code e) = Some (ae_message e, ae_retryable e)"
    "obj_get er (js ''message'') = text_value (ae_message e)"
    "case ae_field e of None \<Rightarrow> True | Some f \<Rightarrow> bounded_text 512 (JStr f)"
proof -
  obtain er where r: "v = JObj er"
    using assms by (cases v) (simp_all add: validate_error_def requireRecord_def)
  have k: "same_keys (keys_of er) ([js ''code'', js ''message'', js ''retryable''] @
       (if js ''field'' \<in> set (keys_of er) then [js ''field''] else []))"
    by (rule ccontr) (use assms in \<open>simp add: r validate_error_def requireRecord_def requireExactKeys_def\<close>)
  obtain code where code: "obj_get er (js ''code'') = JStr code"
    using assms k by (cases "obj_get er (js ''code'')")
      (simp_all add: r validate_error_def requireRecord_def requireExactKeys_def)
  have p: "errorCodePattern code"
    by (rule ccontr) (use assms k in \<open>simp add: r code validate_error_def requireRecord_def requireExactKeys_def\<close>)
  obtain msg retry where c: "catalog_entry code = Some (msg, retry)"
    using assms k p by (cases "catalog_entry code")
      (auto simp: r code validate_error_def requireRecord_def requireExactKeys_def)
  note known = r code p c validate_error_def requireRecord_def requireExactKeys_def
  have m: "obj_get er (js ''message'') = text_value msg"
    by (rule ccontr) (use assms k in \<open>simp add: known\<close>)
  have t: "obj_get er (js ''retryable'') = flag_value retry"
    by (rule ccontr) (use assms k m in \<open>simp add: known\<close>)
  show thesis
  proof (cases "js ''field'' \<in> set (keys_of er)")
    case False
    then have "e = \<lparr> ae_code = code, ae_message = msg, ae_retryable = retry, ae_field = None \<rparr>"
      using assms k m t by (simp add: known)
    then show thesis using that [OF r k] p c m by simp
  next
    case True
    have b: "bounded_text 512 (obj_get er (js ''field''))"
      by (rule ccontr) (use assms k m t True in \<open>simp add: known assertErrorField_def\<close>)
    then obtain f where f: "obj_get er (js ''field'') = JStr f" using bounded_text_str by blast
    have "e = \<lparr> ae_code = code, ae_message = msg, ae_retryable = retry, ae_field = Some f \<rparr>"
      using assms k m t True b f by (simp add: known assertErrorField_def)
    then show thesis using that [OF r k] p c m b f by simp
  qed
qed

lemma validate_error_sound:
  assumes "validate_error v = Inr e"
  shows "(catalogued e \<or> inherited_error e) \<and>
    (case ae_field e of None \<Rightarrow> True | Some f \<Rightarrow> bounded_text 512 (JStr f))"
  by (rule validate_error_parts [OF assms]) (use catalog_entry_iff in blast)

text \<open>An inherited name passes only when message and flag are present as undefined values, which no JSON
  text holds.\<close>

lemma same_keys_set: "same_keys ks ws \<Longrightarrow> set ks = set ws"
proof (induction ks ws rule: same_keys.induct)
  case (2 k ks ws)
  then have k: "set ks = set (remove1 k ws)" "k \<in> set ws" by auto
  have "x = k \<or> x \<in> set (remove1 k ws)" if "x \<in> set ws" for x
    using that by (cases "x = k") (simp_all add: in_set_remove1)
  then show ?case using k set_remove1_subset [of k ws] by auto
qed simp

lemma inherited_undefined:
  assumes "validate_error v = Inr e" "inherited_error e"
  shows "\<exists>ob. v = JObj ob \<and> js ''message'' \<in> fst ` set ob \<and> obj_get ob (js ''message'') = JUndef"
proof (rule validate_error_parts [OF assms(1)])
  fix er
  assume er: "v = JObj er" "obj_get er (js ''message'') = text_value (ae_message e)"
    and k: "same_keys (keys_of er) ([js ''code'', js ''message'', js ''retryable''] @
       (if js ''field'' \<in> set (keys_of er) then [js ''field''] else []))"
  have "js ''message'' \<in> fst ` set er" using same_keys_set [OF k] by (auto simp: keys_of_def)
  then show ?thesis using er assms(2) by (simp add: inherited_error_def)
qed

fun all_defined :: "jval \<Rightarrow> bool" where
  "all_defined JUndef = False"
| "all_defined (JArr vs) = list_all all_defined vs"
| "all_defined (JObj ob) = list_all (\<lambda>(k, v). all_defined v) ob"
| "all_defined v = True"

lemma all_defined_obj_set:
  "all_defined (JObj ob) \<Longrightarrow> all_defined v \<Longrightarrow> all_defined (JObj (obj_set k v ob))"
  unfolding obj_set_def by (induction ob) auto

lemma all_defined_json:
  "json_value n s = Some (v, r) \<Longrightarrow> all_defined v"
  "json_elems n s = Some (vs, r) \<Longrightarrow> list_all all_defined vs"
  "json_members n ob s = Some (ob', r) \<Longrightarrow> all_defined (JObj ob) \<Longrightarrow> all_defined (JObj ob')"
proof (induction n s and n s and n ob s arbitrary: v r and vs r and ob' r
    rule: json_value_json_elems_json_members.induct)
  case (2 n s)
  then show ?case
    by (auto simp: json_value.simps(2) split: list.splits if_splits)
next
  case (4 n s)
  then show ?case
    by (auto simp: json_elems.simps(2) split: list.splits if_splits option.splits)
next
  case (6 n ob s)
  note j = "6.prems"(1)
  obtain s' where s: "s = 34 # s'" using j by (auto simp: json_members.simps(2) split: list.splits if_splits)
  obtain k r1 where b: "string_body s' = Some (k, r1)"
    using j s by (auto simp: json_members.simps(2) split: option.splits)
  obtain t where sr: "skip r1 = 58 # t"
    using j s b by (auto simp: json_members.simps(2) split: list.splits if_splits)
  obtain v w where v: "json_value n (skip t) = Some (v, w)"
    using j s b sr by (auto simp: json_members.simps(2) split: option.splits)
  obtain d u where sw: "skip w = d # u"
    using j s b sr v by (auto simp: json_members.simps(2) split: list.splits)
  have dv: "all_defined (JObj (obj_set k v ob))"
    using 6(1) [OF s _ b refl sr _ v] "6.prems"(2) by (intro all_defined_obj_set) simp_all
  show ?case
  proof (cases "d = 125")
    case True
    then show ?thesis using j s b sr v sw dv by (simp add: json_members.simps(2))
  next
    case False
    then have d: "d = 44" "json_members n (obj_set k v ob) (skip u) = Some (ob', r)"
      using j s b sr v sw by (auto simp: json_members.simps(2) split: if_splits)
    show ?thesis
      using 6(2) [OF s _ b refl sr _ v refl sw False d(1) d(2) dv] by simp
  qed
qed (simp_all add: json_parse_simps)

lemma all_defined_parse: "json_parse s = Some v \<Longrightarrow> all_defined v"
  by (auto simp: json_parse_def split: option.splits if_splits dest: all_defined_json(1))

lemma all_defined_get:
  assumes "all_defined (JObj ob)" "k \<in> fst ` set ob"
  shows "all_defined (obj_get ob k)"
proof -
  obtain v where "map_of ob k = Some v" using assms(2) map_of_eq_None_iff [of ob k] by auto
  then show ?thesis
    using assms(1) by (auto simp: obj_get_def list_all_iff dest!: map_of_SomeD)
qed

lemma validate_error_complete:
  assumes "catalogued e \<or> inherited_error e"
    and "case ae_field e of None \<Rightarrow> True | Some f \<Rightarrow> bounded_text 512 (JStr f)"
  shows "validate_error (JObj ([(js ''code'', JStr (ae_code e)), (js ''message'', text_value (ae_message e)),
      (js ''retryable'', flag_value (ae_retryable e))] @
      (case ae_field e of None \<Rightarrow> [] | Some f \<Rightarrow> [(js ''field'', JStr f)]))) = Inr e"
proof -
  have c: "catalog_entry (ae_code e) = Some (ae_message e, ae_retryable e)" "errorCodePattern (ae_code e)"
    using catalog_entry_iff [of e] assms(1) by auto
  show ?thesis
  proof (cases "ae_field e")
    case None
    then show ?thesis
      using assms(2) c
      by (cases e) (simp add: validate_error_def requireRecord_def requireExactKeys_def keys_of_def
          obj_get_def key_simps)
  next
    case (Some f)
    then show ?thesis
      using assms(2) c
      by (cases e) (simp add: validate_error_def requireRecord_def requireExactKeys_def keys_of_def
          obj_get_def key_simps assertErrorField_def)
  qed
qed

lemma encode_ok: "encodeAbiValue v = Inr w \<longleftrightarrow> w = v \<and> abi_ok 0 v"
  by (simp add: encodeAbiValue_def copy_abi_iff)

lemma response_accepted:
  assumes ok: "response_ok rid q"
  shows "validateAbiResponse (response_object q) rid = Inr q"
proof (cases q)
  case (AbiSuccess i w)
  have "abi_ok 0 w" using ok AbiSuccess by (simp add: response_ok_def)
  then have "encodeAbiValue w = Inr w" by (simp add: encode_ok)
  then show ?thesis
    using ok AbiSuccess by (simp add: validateAbiResponse_def response_ok_def assertIdentifier_def
        requireRecord_def requireExactKeys_def keys_of_def obj_get_def key_simps)
next
  case (AbiFailure i e)
  then have "validate_error (JObj ([(js ''code'', JStr (ae_code e)), (js ''message'', text_value (ae_message e)),
    (js ''retryable'', flag_value (ae_retryable e))] @
    (case ae_field e of None \<Rightarrow> [] | Some f \<Rightarrow> [(js ''field'', JStr f)]))) = Inr e"
    using ok by (intro validate_error_complete) (auto simp: response_ok_def)
  then show ?thesis
    using ok AbiFailure by (simp add: validateAbiResponse_def response_ok_def
        assertIdentifier_def requireRecord_def requireExactKeys_def keys_of_def obj_get_def key_simps)
qed

text \<open>The code does accept the inherited name, from an adapter that answers with undefined parts.\<close>

lemma inherited_code_accepted:
  assumes "bounded_text MAX_ID_BYTES (JStr rid)"
  shows "\<exists>e. inherited_error e \<and> validateAbiResponse (response_object (AbiFailure rid e)) rid = Inr (AbiFailure rid e)"
proof -
  let ?e = "\<lparr> ae_code = js ''constructor'', ae_message = None, ae_retryable = None, ae_field = None \<rparr>"
  have "inherited_error ?e" by (simp add: inherited_error_def)
  moreover from this have "validateAbiResponse (response_object (AbiFailure rid ?e)) rid = Inr (AbiFailure rid ?e)"
    using assms by (intro response_accepted) (simp add: response_ok_def)
  ultimately show ?thesis by blast
qed

lemma parsed_catalogued:
  assumes "parseAbiResponse json rid = Inr (AbiFailure i e)"
  shows "catalogued e"
proof -
  obtain v where v: "json_parse json = Some v" "validateAbiResponse v rid = Inr (AbiFailure i e)"
    using assms by (auto simp: parseAbiResponse_def split: if_splits option.splits sum.splits)
  then obtain ob where ob: "v = JObj ob" "validate_error (obj_get ob (js ''error'')) = Inr e"
    by (auto simp: validateAbiResponse_def requireRecord_def split: if_splits jval.splits)
  have "\<not> inherited_error e"
  proof
    assume "inherited_error e"
    from inherited_undefined [OF ob(2) this] obtain er where er: "obj_get ob (js ''error'') = JObj er"
      "js ''message'' \<in> fst ` set er" "obj_get er (js ''message'') = JUndef"
      by blast
    have "js ''error'' \<in> fst ` set ob"
      using er(1) map_of_eq_None_iff [of ob "js ''error''"] by (auto simp: obj_get_def split: option.splits)
    then have "all_defined (JObj er)"
      using all_defined_get [of ob "js ''error''"] all_defined_parse [OF v(1)] ob(1) er(1) by simp
    from all_defined_get [OF this er(2)] show False using er(3) by simp
  qed
  then show ?thesis using validate_error_sound [OF ob(2)] by blast
qed


lemma created_ok:
  "createAbiSuccessResponse rid v = Inr r \<Longrightarrow> response_ok rid r"
  "createAbiFailureResponse rid code field message retryable = Inr q \<Longrightarrow>
   map_of GOFORGE_ABI_ERROR_CATALOG code \<noteq> None \<Longrightarrow> response_ok rid q"
  by (auto simp: createAbiSuccessResponse_def createAbiFailureResponse_def response_ok_def catalog_entry_def
      catalogued_def assertIdentifier_def assertErrorField_def encode_ok split: if_splits option.splits)



lemma check_capabilities_id:
  "check_capabilities seen vs = Inr ws \<Longrightarrow> ws = vs \<and> check_capabilities seen ws = Inr ws"
proof (induction seen vs arbitrary: ws rule: check_capabilities.induct)
  case (2 seen v vs)
  show ?case
  proof (cases v)
    case (JStr c)
    then have ok: "\<not> (\<not> codecCapabilityPattern c \<or> c \<in> set seen)" "\<not> c \<notin> set known_capabilities"
      using "2.prems" by (auto split: if_splits)
    then obtain us where us: "check_capabilities (c # seen) vs = Inr us" "ws = JStr c # us"
      using "2.prems" JStr by auto
    then show ?thesis using 2(1) [OF JStr ok us(1)] JStr ok by simp
  qed (use "2.prems" in auto)
qed simp

lemma metadata_key_facts:
  "js ''deadline_unix_ms'' \<noteq> js ''cancellation_token''"
  "js ''deadline_unix_ms'' \<noteq> js ''required_capabilities''"
  "js ''cancellation_token'' \<noteq> js ''required_capabilities''"
  by (simp_all add: js_inject)

lemma normalizeMetadata_idem:
  assumes "normalizeMetadata m = Inr m'"
  shows "normalizeMetadata m' = Inr m'"
proof -
  obtain ob d t r where p: "m' = JObj (d @ t @ r)"
    "check_deadline (obj_get ob (js ''deadline_unix_ms'')) = Inr d"
    "check_token (obj_get ob (js ''cancellation_token'')) = Inr t"
    "check_required (obj_get ob (js ''required_capabilities'')) = Inr r"
    using assms by (auto simp: normalizeMetadata_def split: option.splits)
  have d: "d = [] \<or> (\<exists>v. d = [(js ''deadline_unix_ms'', v)] \<and> check_deadline v = Inr d)"
    using p(2) by (auto simp: check_deadline_def split: jval.splits if_splits)
  have t: "t = [] \<or> (\<exists>v. t = [(js ''cancellation_token'', v)] \<and> check_token v = Inr t)"
  proof (cases "obj_get ob (js ''cancellation_token'') = JUndef")
    case True
    then show ?thesis using p(3) by (simp add: check_token_def)
  next
    case False
    then have "t = [(js ''cancellation_token'', obj_get ob (js ''cancellation_token''))]"
      using p(3) by (auto simp: check_token_def)
    then show ?thesis using p(3) by blast
  qed
  have r: "r = [] \<or> (\<exists>v. r = [(js ''required_capabilities'', v)] \<and> check_required v = Inr r)"
  proof (cases "obj_get ob (js ''required_capabilities'')")
    case (JArr items)
    then obtain ws where l: "\<not> MAX_REQUIRED_CAPABILITIES < length items"
      and ws: "check_capabilities [] items = Inr ws" "r = [(js ''required_capabilities'', JArr ws)]"
      using p(4) by (auto simp: check_required_def split: if_splits)
    then have "check_required (JArr ws) = Inr r"
      using check_capabilities_id [OF ws(1)] by (simp add: check_required_def)
    then show ?thesis using ws(2) by blast
  qed (use p(4) in \<open>simp_all add: check_required_def\<close>)
  have u: "check_deadline JUndef = Inr []" "check_token JUndef = Inr []" "check_required JUndef = Inr []"
    by (simp_all add: check_deadline_def check_token_def check_required_def)
  have k: "unknown_key metadata_keys (map fst (d @ t @ r)) = None"
    using d t r by (auto simp: metadata_keys_def)
  have g: "check_deadline (obj_get (d @ t @ r) (js ''deadline_unix_ms'')) = Inr d"
    "check_token (obj_get (d @ t @ r) (js ''cancellation_token'')) = Inr t"
    "check_required (obj_get (d @ t @ r) (js ''required_capabilities'')) = Inr r"
    using d t r u metadata_key_facts metadata_key_facts [symmetric]
    by (auto simp: obj_get_def)
  show ?thesis
    using k g by (simp add: p(1) normalizeMetadata_def requireRecord_def keys_of_def)
qed

text \<open>
  Request envelopes.  A request the codec creates carries the id, the operation and the payload it was
  given and normal metadata, passes the codec's own envelope check, and is serialized unless its JSON text exceeds
  the byte limit.
\<close>

theorem created_request_serializes:
  assumes "createAbiRequest rid operation payload metadata = Inr rq"
  shows "rq_id rq = rid \<and> rq_operation rq = operation \<and> rq_payload rq = payload \<and>
    operation \<in> set GOFORGE_ABI_V1_OPERATIONS \<and> validateRequestEnvelope rq = Inr () \<and>
    (serializeAbiRequest rq = Inr (json_print (JObj (request_object rq))) \<or>
     MAX_REQUEST_BYTES < byte_length (json_print (JObj (request_object rq))))"
proof -
  obtain m where m: "optional normalizeMetadata metadata = Inr m"
    and rq: "rq = \<lparr> rq_abi = GOFORGE_ABI_V1, rq_id = rid, rq_operation = operation, rq_metadata = m,
                rq_payload = payload \<rparr>"
    and i: "assertIdentifier (JStr rid) (js ''id'') = Inr ()"
    and o: "operation \<in> set GOFORGE_ABI_V1_OPERATIONS" and p: "encodeAbiValue payload = Inr payload"
    using assms by (auto simp: createAbiRequest_def encode_ok split: if_splits)
  have "optional normalizeMetadata m = Inr m"
    using m normalizeMetadata_idem by (cases metadata) auto
  moreover have "requireExactKeys (request_object rq)
         (if rq_metadata rq = None
          then [js ''abi'', js ''id'', js ''operation'', js ''payload'']
          else [js ''abi'', js ''id'', js ''operation'', js ''metadata'', js ''payload''])
         (js ''request'') = Inr ()"
    by (cases m) (simp_all add: rq request_object_def requireExactKeys_def keys_of_def js_inject)
  ultimately have "validateRequestEnvelope rq = Inr ()"
    using i o p by (simp add: validateRequestEnvelope_def rq)
  then show ?thesis using o by (simp add: rq serializeAbiRequest_def Let_def)
qed

theorem created_request_serializes_witness:
  "serializeAbiRequest \<lparr> rq_abi = GOFORGE_ABI_V1, rq_id = js ''r1'', rq_operation = js ''crypto.sha256'',
     rq_metadata = None, rq_payload = JNull \<rparr> =
   Inr (js ''{\"abi\":\"goforge.abi.v1\",\"id\":\"r1\",\"operation\":\"crypto.sha256\",\"payload\":null}'')"
proof -
  let ?rq = "\<lparr> rq_abi = GOFORGE_ABI_V1, rq_id = js ''r1'', rq_operation = js ''crypto.sha256'',
     rq_metadata = None, rq_payload = JNull \<rparr>"
  have "createAbiRequest (js ''r1'') (js ''crypto.sha256'') JNull None = Inr ?rq" by code_simp
  moreover have "json_print (JObj (request_object ?rq)) =
      js ''{\"abi\":\"goforge.abi.v1\",\"id\":\"r1\",\"operation\":\"crypto.sha256\",\"payload\":null}''"
    by code_simp
  moreover have "\<not> MAX_REQUEST_BYTES < byte_length
      (js ''{\"abi\":\"goforge.abi.v1\",\"id\":\"r1\",\"operation\":\"crypto.sha256\",\"payload\":null}'')"
    by code_simp
  ultimately show ?thesis using created_request_serializes by metis
qed

text \<open>
  Duplicate-field scan.  The hand-written scan of a response text ends on every input, also on
  texts that are not JSON, and never visits a value nested more than 32 levels deep.
\<close>

theorem scan_total:
  "assertUniqueAbiJsonObjectFields json \<noteq> Inl ScanFuel \<and>
   scan_value (Suc n) (Suc MAX_JSON_DEPTH) json = Inl TooDeep"
  using scan_fuel(1) [of json "2 * length json + 2" 0]
  by (auto simp: assertUniqueAbiJsonObjectFields_def scan_value.simps elim!: and_then_InlE)

end
