(* ===== verification/Wasm_Manifest.thy ===== *)
theory Wasm_Manifest
  imports Wasm_Codec
begin

text \<open>
  Release-bundle verification of \<^verbatim>\<open>src/wasm/manifest.ts\<close>.

  The artifact reader and the SHA-256 of Web Crypto are arguments; so is the
  collation order of \<^verbatim>\<open>localeCompare\<close>, which only decides the order in
  which core modules are read.  Freezing the manifest has no effect on values and
  is left out.
\<close>

datatype read_result = Bytes bytes | ReadIntegrity wasm_error | ReadOther

section \<open>Patterns\<close>

definition sha256Pattern :: "jstr \<Rightarrow> bool" where
  "sha256Pattern s \<longleftrightarrow> length s = 64 \<and> list_all (\<lambda>c. is_digit c \<or> (97 \<le> c \<and> c \<le> 102)) s"

text \<open>A numeric identifier without a leading zero, and the text after it.\<close>

definition strip_number :: "jstr \<Rightarrow> jstr option" where
  "strip_number s =
     (let d = takeWhile is_digit s
      in if d = [] \<or> (hd d = 48 \<and> length d \<noteq> 1) then None else Some (dropWhile is_digit s))"

definition strip_char :: "16 word \<Rightarrow> jstr \<Rightarrow> jstr option" where
  "strip_char c s = (case s of [] \<Rightarrow> None | d # t \<Rightarrow> if d = c then Some t else None)"

definition strip_triple :: "jstr \<Rightarrow> jstr option" where
  "strip_triple s =
     Option.bind (strip_number s) (\<lambda>a. Option.bind (strip_char 46 a) (\<lambda>b.
     Option.bind (strip_number b) (\<lambda>c. Option.bind (strip_char 46 c) strip_number)))"

definition is_tag_char :: "16 word \<Rightarrow> bool" where
  "is_tag_char c \<longleftrightarrow> is_digit c \<or> is_alpha c \<or> c = 46 \<or> c = 45"

text \<open>An optional part that starts with a mark and has at least one tag character.\<close>

definition strip_tag :: "16 word \<Rightarrow> jstr \<Rightarrow> jstr option" where
  "strip_tag mark s =
     (case s of
        [] \<Rightarrow> Some []
      | c # t \<Rightarrow>
          if c \<noteq> mark then Some s
          else if takeWhile is_tag_char t = [] then None
          else Some (dropWhile is_tag_char t))"

definition versionPattern :: "jstr \<Rightarrow> bool" where
  "versionPattern s \<longleftrightarrow>
     Option.bind (strip_triple s) (\<lambda>a. Option.bind (strip_tag 45 a) (strip_tag 43)) = Some []"

definition wit_name :: "jstr \<Rightarrow> bool" where
  "wit_name s \<longleftrightarrow> (case s of [] \<Rightarrow> False | c # t \<Rightarrow> is_lower c \<and> list_all (\<lambda>d. is_name_char d \<or> d = 45) t)"

definition witPattern :: "jstr \<Rightarrow> bool" where
  "witPattern s \<longleftrightarrow>
     (case index_of 58 s of
        None \<Rightarrow> False
      | Some i \<Rightarrow>
          (let r = drop (Suc i) s
           in case index_of 64 r of
                None \<Rightarrow> False
              | Some j \<Rightarrow> wit_name (take i s) \<and> wit_name (take j r) \<and>
                          strip_triple (drop (Suc j) r) = Some []))"

definition is_separator :: "16 word \<Rightarrow> bool" where
  "is_separator c \<longleftrightarrow> c = 46 \<or> c = 95 \<or> c = 47 \<or> c = 45"

definition operationPattern :: "jstr \<Rightarrow> bool" where
  "operationPattern s = segmented_name is_separator s"

definition capabilityPattern :: "jstr \<Rightarrow> bool" where
  "capabilityPattern s = segmented_name is_separator s"

section \<open>Shape checks\<close>

definition manifestRecord :: "jval \<Rightarrow> jstr \<Rightarrow> wasm_error + jobj" where
  "manifestRecord v path =
     (case v of
        JObj ob \<Rightarrow> Inr ob
      | _ \<Rightarrow> Inl (manifest_error (path @ js '' must be an object'')))"

definition manifestExactKeys :: "jobj \<Rightarrow> jstr list \<Rightarrow> jstr \<Rightarrow> wasm_error + unit" where
  "manifestExactKeys ob expected path =
     (if same_keys (keys_of ob) expected then Inr ()
      else Inl (manifest_error (path @ js '' has unsupported or missing fields'')))"

definition bad_segment :: "jstr \<Rightarrow> bool" where
  "bad_segment s \<longleftrightarrow> s = [] \<or> s = js ''.'' \<or> s = js ''..''"

definition assertRelativeArtifactPath :: "jstr \<Rightarrow> jstr \<Rightarrow> wasm_error + unit" where
  "assertRelativeArtifactPath v path =
     (if v = [] \<or> starts_with [47] v \<or> starts_with [92] v \<or> 58 \<in> set v \<or> 63 \<in> set v \<or> 35 \<in> set v \<or>
         37 \<in> set v \<or> 92 \<in> set v
      then Inl (manifest_error (path @ js '' must be a package-relative path''))
      else if list_ex bad_segment (split_on 47 v)
      then Inl (manifest_error (path @ js '' contains an invalid path segment''))
      else Inr ())"

definition assertSha256 :: "jstr \<Rightarrow> jstr \<Rightarrow> wasm_error + unit" where
  "assertSha256 v path =
     (if sha256Pattern v then Inr ()
      else Inl (manifest_error (path @ js '' must be a lowercase SHA-256 digest'')))"

definition validateDescriptor :: "artifact \<Rightarrow> jstr \<Rightarrow> wasm_error + unit" where
  "validateDescriptor d path =
     and_then (assertRelativeArtifactPath (ar_path d) (path @ js ''.path'')) (\<lambda>_.
       assertSha256 (ar_sha256 d) (path @ js ''.sha256''))"

definition parseDescriptor :: "jval \<Rightarrow> jstr \<Rightarrow> wasm_error + artifact" where
  "parseDescriptor v path =
     and_then (manifestRecord v path) (\<lambda>ob.
     and_then (manifestExactKeys ob [js ''path'', js ''sha256''] path) (\<lambda>_.
       (case (obj_get ob (js ''path''), obj_get ob (js ''sha256'')) of
          (JStr p, JStr h) \<Rightarrow>
            (let d = \<lparr> ar_path = p, ar_sha256 = h \<rparr>
             in and_then (validateDescriptor d path) (\<lambda>_. Inr d))
        | _ \<Rightarrow> Inl (manifest_error (path @ js '' path and sha256 must be strings'')))))"

fun unique_strings :: "jstr list \<Rightarrow> (jstr \<Rightarrow> bool) \<Rightarrow> jstr \<Rightarrow> jval list \<Rightarrow> wasm_error + jstr list" where
  "unique_strings seen pattern path [] = Inr []"
| "unique_strings seen pattern path (v # vs) =
     (case v of
        JStr s \<Rightarrow>
          if \<not> pattern s then Inl (manifest_error (path @ js '' contains an invalid name''))
          else if s \<in> set seen then Inl (manifest_error (path @ js '' contains duplicate '' @ s))
          else and_then (unique_strings (s # seen) pattern path vs) (\<lambda>ss. Inr (s # ss))
      | _ \<Rightarrow> Inl (manifest_error (path @ js '' contains an invalid name'')))"

definition parseUniqueStrings :: "jval list \<Rightarrow> (jstr \<Rightarrow> bool) \<Rightarrow> jstr \<Rightarrow> wasm_error + jstr list" where
  "parseUniqueStrings vs pattern path = unique_strings [] pattern path vs"

definition parseOperationContract :: "jval \<Rightarrow> jstr \<Rightarrow> wasm_error + operation_contract" where
  "parseOperationContract v path =
     and_then (manifestRecord v path) (\<lambda>ob.
     and_then (manifestExactKeys ob
         ([js ''capability'', js ''retrySafe'', js ''securitySensitive''] @
          (if js ''nativeAdapters'' \<in> set (keys_of ob) then [js ''nativeAdapters''] else [])) path) (\<lambda>_.
       (case (obj_get ob (js ''capability''), obj_get ob (js ''retrySafe''),
              obj_get ob (js ''securitySensitive'')) of
          (JStr c, JBool r, JBool s) \<Rightarrow>
            if \<not> capabilityPattern c
            then Inl (manifest_error (path @ js '' capability or flags are invalid''))
            else if js ''nativeAdapters'' \<in> set (keys_of ob) then
              (case obj_get ob (js ''nativeAdapters'') of
                 JArr vs \<Rightarrow>
                   and_then (parseUniqueStrings vs operationPattern (path @ js ''.nativeAdapters'')) (\<lambda>ns.
                     Inr \<lparr> oc_capability = c, oc_retrySafe = r, oc_securitySensitive = s,
                            oc_nativeAdapters = Some ns \<rparr>)
               | _ \<Rightarrow> Inl (manifest_error (path @ js ''.nativeAdapters must be an array'')))
            else Inr \<lparr> oc_capability = c, oc_retrySafe = r, oc_securitySensitive = s,
                        oc_nativeAdapters = None \<rparr>
        | _ \<Rightarrow> Inl (manifest_error (path @ js '' capability or flags are invalid'')))))"

fun parse_modules :: "jobj \<Rightarrow> wasm_error + (jstr \<times> artifact) list" where
  "parse_modules [] = Inr []"
| "parse_modules ((name, v) # rest) =
     (if \<not> ends_with (js ''.wasm'') name \<or> 47 \<in> set name \<or> 92 \<in> set name
      then Inl (manifest_error (js ''invalid generated core module name '' @ json_quote name))
      else
        and_then (parseDescriptor v (js ''coreModules.'' @ name)) (\<lambda>d.
        and_then (parse_modules rest) (\<lambda>ds. Inr ((name, d) # ds))))"

fun parse_operations ::
    "jobj \<Rightarrow> jstr list \<Rightarrow> (jstr \<times> jstr) list \<Rightarrow> wasm_error + (jstr \<times> operation_contract) list" where
  "parse_operations ob capabilities [] = Inr []"
| "parse_operations ob capabilities ((name, expected) # rest) =
     and_then (parseOperationContract (obj_get ob name) (js ''operations.'' @ name)) (\<lambda>c.
       if oc_capability c \<noteq> expected then
         Inl (manifest_error (js ''operations.'' @ name @ js ''.capability must be '' @ json_quote expected))
       else if oc_capability c \<notin> set capabilities then
         Inl (manifest_error (js ''operations.'' @ name @ js ''.capability is absent from capabilities''))
       else and_then (parse_operations ob capabilities rest) (\<lambda>cs. Inr ((name, c) # cs)))"

definition manifest_keys :: "jstr list" where
  "manifest_keys =
     [js ''schema'', js ''abi'', js ''componentVersion'', js ''witPackage'', js ''source'', js ''glue'',
      js ''coreModules'', js ''capabilities'', js ''operations'']"

definition manifest_json :: "bytes \<Rightarrow> wasm_error + jval" where
  "manifest_json bs =
     (let bad = Inl (manifest_error (js ''component manifest is not valid UTF-8 JSON''))
      in case utf8_decode_fatal bs of
           None \<Rightarrow> bad
         | Some text \<Rightarrow>
             (case assertUniqueAbiJsonObjectFields text of
                Inl _ \<Rightarrow> bad
              | Inr _ \<Rightarrow> (case json_parse text of None \<Rightarrow> bad | Some v \<Rightarrow> Inr v)))"

definition check_capability_list :: "jval \<Rightarrow> wasm_error + jstr list" where
  "check_capability_list v =
     (case v of
        JArr vs \<Rightarrow>
          if vs = [] then Inl (manifest_error (js ''capabilities must be a non-empty array''))
          else parseUniqueStrings vs capabilityPattern (js ''capabilities'')
      | _ \<Rightarrow> Inl (manifest_error (js ''capabilities must be a non-empty array'')))"

definition check_text :: "(jstr \<Rightarrow> bool) \<Rightarrow> jval \<Rightarrow> jstr \<Rightarrow> wasm_error + jstr" where
  "check_text pattern v message =
     (case v of
        JStr s \<Rightarrow> if pattern s then Inr s else Inl (manifest_error message)
      | _ \<Rightarrow> Inl (manifest_error message))"

definition parseManifest :: "bytes \<Rightarrow> wasm_error + bundle_manifest" where
  "parseManifest bs =
     and_then (manifest_json bs) (\<lambda>v.
     and_then (manifestRecord v (js ''manifest'')) (\<lambda>root.
     and_then (manifestExactKeys root manifest_keys (js ''manifest'')) (\<lambda>_.
       if obj_get root (js ''schema'') \<noteq> JStr GOFORGE_BUNDLE_MANIFEST_SCHEMA_V1 then
         Inl (compatibility_error
           (js ''unsupported release-bundle schema '' @ json_print (obj_get root (js ''schema''))))
       else if obj_get root (js ''abi'') \<noteq> JStr GOFORGE_ABI_V1 then
         Inl (compatibility_error
           (js ''unsupported portable ABI '' @ json_print (obj_get root (js ''abi''))))
       else
         and_then (check_text versionPattern (obj_get root (js ''componentVersion''))
           (js ''componentVersion must be a semantic version'')) (\<lambda>version.
         and_then (check_text witPattern (obj_get root (js ''witPackage''))
           (js ''witPackage must be a versioned namespace:name@x.y.z package'')) (\<lambda>wit.
         and_then (parseDescriptor (obj_get root (js ''source'')) (js ''source'')) (\<lambda>src.
         and_then (parseDescriptor (obj_get root (js ''glue'')) (js ''glue'')) (\<lambda>glue.
         and_then (manifestRecord (obj_get root (js ''coreModules'')) (js ''coreModules'')) (\<lambda>core.
           if core = [] then Inl (manifest_error (js ''coreModules must contain at least one module''))
           else
             and_then (parse_modules core) (\<lambda>modules.
             and_then (check_capability_list (obj_get root (js ''capabilities''))) (\<lambda>capabilities.
             and_then (manifestRecord (obj_get root (js ''operations'')) (js ''operations'')) (\<lambda>ops.
               if \<not> same_keys (keys_of ops) GOFORGE_ABI_V1_OPERATIONS then
                 Inl (manifest_error
                   (js ''operations must describe every canonical GoForge ABI v1 operation''))
               else
                 and_then (parse_operations ops capabilities GOFORGE_ABI_V1_OPERATION_CAPABILITIES)
                   (\<lambda>operations.
                 Inr \<lparr> bm_schema = GOFORGE_BUNDLE_MANIFEST_SCHEMA_V1, bm_abi = GOFORGE_ABI_V1,
                        bm_componentVersion = version, bm_witPackage = wit, bm_source = src,
                        bm_glue = glue, bm_coreModules = modules, bm_capabilities = capabilities,
                        bm_operations = operations \<rparr>))))))))))))"

section \<open>Compatibility\<close>

definition first_some :: "'a option \<Rightarrow> 'a option \<Rightarrow> 'a \<Rightarrow> 'a" where
  "first_some a b d = (case a of Some x \<Rightarrow> x | None \<Rightarrow> (case b of Some y \<Rightarrow> y | None \<Rightarrow> d))"

definition validateCompatibility :: "bundle_manifest \<Rightarrow> compatibility \<Rightarrow> wasm_error + unit" where
  "validateCompatibility m c =
     (let schema = first_some (cp_bundleSchema c) (cp_schemaVersion c) GOFORGE_BUNDLE_MANIFEST_SCHEMA_V1;
          abi = first_some (cp_abi c) (cp_abiVersion c) GOFORGE_ABI_V1
      in if bm_schema m \<noteq> schema then
           Inl (compatibility_error (js ''release-bundle schema '' @ bm_schema m @
             js '' does not match host schema '' @ schema))
         else if bm_abi m \<noteq> abi then
           Inl (compatibility_error (js ''component ABI '' @ bm_abi m @ js '' does not match host ABI '' @ abi))
         else if bm_componentVersion m \<noteq> cp_componentVersion c then
           Inl (compatibility_error (js ''component '' @ bm_componentVersion m @
             js '' does not match host '' @ cp_componentVersion c))
         else if bm_witPackage m \<noteq> cp_witPackage c then
           Inl (compatibility_error (js ''WIT package '' @ bm_witPackage m @
             js '' does not match host '' @ cp_witPackage c))
         else Inr ())"

section \<open>Verification\<close>

definition hex_byte :: "8 word \<Rightarrow> jstr" where
  "hex_byte b = (let ds = int_digits 16 (uint b) in replicate (2 - length ds) 48 @ ds)"

definition sha256Hex :: "(bytes \<Rightarrow> bytes) \<Rightarrow> bytes \<Rightarrow> jstr" where
  "sha256Hex digest bs = concat (map hex_byte (digest bs))"

definition verifyDigest :: "(bytes \<Rightarrow> bytes) \<Rightarrow> jstr \<Rightarrow> bytes \<Rightarrow> jstr \<Rightarrow> wasm_error + unit" where
  "verifyDigest digest path bs expected =
     (if sha256Hex digest bs \<noteq> expected
      then Inl (integrity_error (js ''SHA-256 mismatch for '' @ json_quote path @ js '': expected '' @
             expected @ js '', got '' @ sha256Hex digest bs))
      else Inr ())"

definition read_or :: "(jstr \<Rightarrow> read_result) \<Rightarrow> jstr \<Rightarrow> jstr \<Rightarrow> wasm_error + bytes" where
  "read_or readArtifact path message =
     (case readArtifact path of
        Bytes bs \<Rightarrow> Inr bs
      | ReadIntegrity e \<Rightarrow> Inl e
      | ReadOther \<Rightarrow> Inl (integrity_error message))"

fun insort_name :: "(jstr \<Rightarrow> jstr \<Rightarrow> bool) \<Rightarrow> jstr \<times> 'a \<Rightarrow> (jstr \<times> 'a) list \<Rightarrow> (jstr \<times> 'a) list" where
  "insort_name le x [] = [x]"
| "insort_name le x (y # ys) = (if le (fst x) (fst y) then x # y # ys else y # insort_name le x ys)"

definition sort_entries :: "(jstr \<Rightarrow> jstr \<Rightarrow> bool) \<Rightarrow> (jstr \<times> 'a) list \<Rightarrow> (jstr \<times> 'a) list" where
  "sort_entries le xs = foldr (insort_name le) xs []"

definition descriptors :: "(jstr \<Rightarrow> jstr \<Rightarrow> bool) \<Rightarrow> bundle_manifest \<Rightarrow> (jstr \<times> artifact) list" where
  "descriptors collate m =
     [(js ''source'', bm_source m), (js ''glue'', bm_glue m)] @
     map (\<lambda>(name, d). (js ''core module '' @ name, d)) (sort_entries collate (bm_coreModules m))"

fun check_descriptors :: "jstr list \<Rightarrow> (jstr \<times> artifact) list \<Rightarrow> wasm_error + unit" where
  "check_descriptors paths [] = Inr ()"
| "check_descriptors paths ((label, d) # rest) =
     (if ar_path d \<in> set paths
      then Inl (manifest_error (js ''multiple artifacts use path '' @ json_quote (ar_path d)))
      else
        and_then (validateDescriptor d label) (\<lambda>_. check_descriptors (ar_path d # paths) rest))"

fun read_verified ::
    "(bytes \<Rightarrow> bytes) \<Rightarrow> (jstr \<Rightarrow> read_result) \<Rightarrow> (jstr \<times> artifact) list \<Rightarrow>
     wasm_error + (jstr \<times> bytes) list" where
  "read_verified digest readArtifact [] = Inr []"
| "read_verified digest readArtifact ((label, d) # rest) =
     and_then (read_or readArtifact (ar_path d)
         (js ''unable to read component artifact '' @ json_quote (ar_path d))) (\<lambda>bs.
     and_then (verifyDigest digest (ar_path d) bs (ar_sha256 d)) (\<lambda>_.
     and_then (read_verified digest readArtifact rest) (\<lambda>vs. Inr ((ar_path d, bs) # vs))))"

definition requireVerified :: "(jstr \<times> bytes) list \<Rightarrow> jstr \<Rightarrow> wasm_error + bytes" where
  "requireVerified values path =
     (case map_of values path of
        None \<Rightarrow> Inl (integrity_error (js ''verified artifact '' @ json_quote path @ js '' is missing''))
      | Some bs \<Rightarrow> Inr bs)"

fun core_bytes :: "(jstr \<times> bytes) list \<Rightarrow> (jstr \<times> artifact) list \<Rightarrow> wasm_error + (jstr \<times> bytes) list" where
  "core_bytes values [] = Inr []"
| "core_bytes values ((name, d) # rest) =
     and_then (requireVerified values (ar_path d)) (\<lambda>bs.
     and_then (core_bytes values rest) (\<lambda>bss. Inr ((name, bs) # bss)))"

definition verifyWasmBundle ::
    "(bytes \<Rightarrow> bytes) \<Rightarrow> (jstr \<Rightarrow> jstr \<Rightarrow> bool) \<Rightarrow> bundle_locator \<Rightarrow> compatibility \<Rightarrow>
     (jstr \<Rightarrow> read_result) \<Rightarrow> wasm_error + verified_bundle" where
  "verifyWasmBundle digest collate locator host readArtifact =
     and_then (assertRelativeArtifactPath (bl_manifestPath locator) (js ''manifestPath'')) (\<lambda>_.
     and_then (assertSha256 (bl_manifestSha256 locator) (js ''manifestSha256'')) (\<lambda>_.
     and_then (read_or readArtifact (bl_manifestPath locator)
       (js ''unable to read the component manifest'')) (\<lambda>manifestBytes.
     and_then (verifyDigest digest (bl_manifestPath locator) manifestBytes (bl_manifestSha256 locator)) (\<lambda>_.
     and_then (parseManifest manifestBytes) (\<lambda>manifest.
     and_then (validateCompatibility manifest host) (\<lambda>_.
     and_then (check_descriptors [] (descriptors collate manifest)) (\<lambda>_.
     and_then (read_verified digest readArtifact (descriptors collate manifest)) (\<lambda>verified.
     and_then (core_bytes verified (bm_coreModules manifest)) (\<lambda>core.
     and_then (requireVerified verified (ar_path (bm_source manifest))) (\<lambda>src.
     and_then (requireVerified verified (ar_path (bm_glue manifest))) (\<lambda>glue.
       Inr \<lparr> vb_manifest = manifest, vb_manifestBytes = manifestBytes, vb_sourceBytes = src,
              vb_glueBytes = glue, vb_coreModuleBytes = core \<rparr>)))))))))))"


section \<open>The manifest the guest exports\<close>

definition portable_keys :: "jstr list" where
  "portable_keys =
     [js ''schema'', js ''package'', js ''version'', js ''abi'', js ''encoding'', js ''limits'',
      js ''operations'', js ''capabilities'', js ''errors'']"

fun check_portable_operations ::
    "bundle_manifest \<Rightarrow> int \<Rightarrow> (jstr \<times> jstr) list \<Rightarrow> jval list \<Rightarrow> wasm_error + unit" where
  "check_portable_operations bundle i [] vs = Inr ()"
| "check_portable_operations bundle i ((name, capability) # rest) [] =
     Inl (manifest_error (js ''portable manifest operations['' @ int_digits 10 i @ js ''] must be an object''))"
| "check_portable_operations bundle i ((name, capability) # rest) (v # vs) =
     (let path = js ''portable manifest operations['' @ int_digits 10 i @ js '']''
      in and_then (manifestRecord v path) (\<lambda>ob.
         and_then (manifestExactKeys ob [js ''name'', js ''capability''] path) (\<lambda>_.
           if obj_get ob (js ''name'') \<noteq> JStr name \<or> obj_get ob (js ''capability'') \<noteq> JStr capability then
             Inl (compatibility_error
               (js ''component portable operation '' @ json_quote name @ js '' is incompatible''))
           else if map_option oc_capability (map_of (bm_operations bundle) name) \<noteq> Some capability then
             Inl (compatibility_error
               (js ''release bundle operation '' @ json_quote name @ js '' drifted from GoForge''))
           else check_portable_operations bundle (i + 1) rest vs)))"

fun check_portable_errors :: "int \<Rightarrow> (jstr \<times> (jstr \<times> bool)) list \<Rightarrow> jval list \<Rightarrow> wasm_error + unit" where
  "check_portable_errors i [] vs = Inr ()"
| "check_portable_errors i ((code, message, retry) # rest) [] =
     Inl (manifest_error (js ''portable manifest errors['' @ int_digits 10 i @ js ''] must be an object''))"
| "check_portable_errors i ((code, message, retry) # rest) (v # vs) =
     (let path = js ''portable manifest errors['' @ int_digits 10 i @ js '']''
      in and_then (manifestRecord v path) (\<lambda>ob.
         and_then (manifestExactKeys ob [js ''code'', js ''message'', js ''retryable''] path) (\<lambda>_.
           if obj_get ob (js ''code'') \<noteq> JStr code \<or> obj_get ob (js ''message'') \<noteq> JStr message \<or>
              obj_get ob (js ''retryable'') \<noteq> JBool retry then
             Inl (compatibility_error
               (js ''component portable error '' @ json_quote code @ js '' drifted''))
           else check_portable_errors (i + 1) rest vs)))"

fun array_of_length :: "nat \<Rightarrow> jval \<Rightarrow> jstr \<Rightarrow> wasm_error + jval list" where
  "array_of_length n (JArr vs) message =
     (if length vs \<noteq> n then Inl (compatibility_error message) else Inr vs)"
| "array_of_length n _ message = Inl (compatibility_error message)"

fun is_array :: "jval \<Rightarrow> bool" where
  "is_array (JArr vs) = True"
| "is_array _ = False"

fun is_object :: "jval \<Rightarrow> bool" where
  "is_object (JObj ob) = True"
| "is_object _ = False"

definition assertPortableContractManifest :: "jstr \<Rightarrow> bundle_manifest \<Rightarrow> wasm_error + unit" where
  "assertPortableContractManifest json bundle =
     (let bad = Inl (compatibility_error (js ''component portable manifest is not valid JSON''))
      in case assertUniqueAbiJsonObjectFields json of
           Inl _ \<Rightarrow> bad
         | Inr _ \<Rightarrow>
             (case json_parse json of
                None \<Rightarrow> bad
              | Some v \<Rightarrow>
                  and_then (manifestRecord v (js ''portable manifest'')) (\<lambda>root.
                  and_then (manifestExactKeys root portable_keys (js ''portable manifest'')) (\<lambda>_.
                    if obj_get root (js ''schema'') \<noteq> JStr GOFORGE_PORTABLE_MANIFEST_SCHEMA_V1 \<or>
                       obj_get root (js ''package'') \<noteq> JStr GOFORGE_PORTABLE_PACKAGE \<or>
                       obj_get root (js ''version'') \<noteq> JStr GOFORGE_PORTABLE_VERSION \<or>
                       obj_get root (js ''abi'') \<noteq> JStr GOFORGE_ABI_V1 then
                      Inl (compatibility_error
                        (js ''component portable manifest identity is incompatible''))
                    else if bm_abi bundle \<noteq> GOFORGE_ABI_V1 \<or>
                       bm_witPackage bundle \<noteq> GOFORGE_PORTABLE_PACKAGE @ 64 # GOFORGE_PORTABLE_VERSION then
                      Inl (compatibility_error
                        (js ''release bundle and component portable manifest identify different contracts''))
                    else
                      and_then (array_of_length (length GOFORGE_ABI_V1_OPERATIONS)
                          (obj_get root (js ''operations''))
                          (js ''component portable manifest operation set is incomplete'')) (\<lambda>ops.
                      and_then (check_portable_operations bundle 0 GOFORGE_ABI_V1_OPERATION_CAPABILITIES ops)
                        (\<lambda>_.
                      and_then (array_of_length (length GOFORGE_ABI_ERROR_CATALOG)
                          (obj_get root (js ''errors''))
                          (js ''component portable error catalog is incomplete'')) (\<lambda>errs.
                      and_then (check_portable_errors 0 GOFORGE_ABI_ERROR_CATALOG errs) (\<lambda>_.
                        if \<not> is_object (obj_get root (js ''encoding'')) \<or>
                           \<not> is_object (obj_get root (js ''limits'')) \<or>
                           \<not> is_array (obj_get root (js ''capabilities''))
                        then Inl (compatibility_error
                          (js ''component portable manifest metadata is malformed''))
                        else Inr ()))))))))"

section \<open>Properties\<close>

definition safe_path :: "jstr \<Rightarrow> bool" where
  "safe_path p \<longleftrightarrow> p \<noteq> [] \<and> 58 \<notin> set p \<and> 92 \<notin> set p \<and> 37 \<notin> set p \<and> 63 \<notin> set p \<and> 35 \<notin> set p \<and>
     (\<forall>seg \<in> set (split_on 47 p). seg \<noteq> [] \<and> seg \<noteq> js ''.'' \<and> seg \<noteq> js ''..'')"

lemma relative_path_safe: "assertRelativeArtifactPath p l = Inr () \<Longrightarrow> safe_path p"
  by (auto simp: assertRelativeArtifactPath_def safe_path_def bad_segment_def list_ex_iff
      split: if_splits)

lemma check_descriptors_ok:
  "check_descriptors paths ds = Inr () \<Longrightarrow>
   distinct (map (\<lambda>(_, d). ar_path d) ds) \<and> (\<forall>(_, d) \<in> set ds. ar_path d \<notin> set paths \<and>
     safe_path (ar_path d) \<and> sha256Pattern (ar_sha256 d))"
proof (induction paths ds rule: check_descriptors.induct)
  case (2 paths label d rest)
  then show ?case
    by (auto simp: validateDescriptor_def assertSha256_def split: if_splits
        dest: relative_path_safe)
qed simp

lemma read_verified_ok:
  "read_verified digest rd ds = Inr vs \<Longrightarrow>
   map fst vs = map (\<lambda>(_, d). ar_path d) ds \<and>
   (\<forall>(l, d) \<in> set ds. \<exists>bs. (ar_path d, bs) \<in> set vs \<and> sha256Hex digest bs = ar_sha256 d)"
proof (induction digest rd ds arbitrary: vs rule: read_verified.induct)
  case (2 digest rd label d rest)
  then obtain bs ws where "vs = (ar_path d, bs) # ws" "read_verified digest rd rest = Inr ws"
    "sha256Hex digest bs = ar_sha256 d"
    by (auto simp: verifyDigest_def split: if_splits)
  then show ?case using 2(1) by fastforce
qed simp

lemma verified_lookup:
  assumes "check_descriptors [] ds = Inr ()" "read_verified digest rd ds = Inr vs"
    and "(l, d) \<in> set ds" "requireVerified vs (ar_path d) = Inr bs"
  shows "sha256Hex digest bs = ar_sha256 d"
proof -
  have "distinct (map fst vs)"
    using check_descriptors_ok [OF assms(1)] read_verified_ok [OF assms(2)] by simp
  moreover obtain bs' where "(ar_path d, bs') \<in> set vs" "sha256Hex digest bs' = ar_sha256 d"
    using read_verified_ok [OF assms(2)] assms(3) by blast
  ultimately show ?thesis using assms(4) by (auto simp: requireVerified_def split: option.splits)
qed

lemma core_bytes_ok:
  "core_bytes vs ds = Inr bss \<Longrightarrow> (name, bs) \<in> set bss \<Longrightarrow>
   \<exists>d. (name, d) \<in> set ds \<and> requireVerified vs (ar_path d) = Inr bs"
proof (induction vs ds arbitrary: bss rule: core_bytes.induct)
  case (2 vals name' d rest)
  then obtain bs' bss' where b: "requireVerified vals (ar_path d) = Inr bs'"
    "core_bytes vals rest = Inr bss'" "bss = (name', bs') # bss'" by auto
  show ?case
  proof (cases "(name, bs) \<in> set bss'")
    case True
    then show ?thesis using 2(1) [OF b(2) True] b(3) by auto
  next
    case False
    then have "name = name'" "bs = bs'" using "2.prems"(2) b(3) by auto
    then show ?thesis using b(1) by auto
  qed
qed simp

lemma insort_name_set: "set (insort_name le x xs) = insert x (set xs)"
  by (induction xs) auto

lemma sort_entries_set: "set (sort_entries le xs) = set xs"
  by (induction xs) (auto simp: sort_entries_def insort_name_set)

text \<open>What a host may rely on once a bundle has been accepted.\<close>

definition trusted_bundle ::
    "(bytes \<Rightarrow> bytes) \<Rightarrow> (jstr \<Rightarrow> jstr \<Rightarrow> bool) \<Rightarrow> bundle_locator \<Rightarrow> compatibility \<Rightarrow> verified_bundle \<Rightarrow> bool"
  where
  "trusted_bundle digest collate locator host b \<longleftrightarrow>
    sha256Hex digest (vb_manifestBytes b) = bl_manifestSha256 locator \<and>
    parseManifest (vb_manifestBytes b) = Inr (vb_manifest b) \<and>
    sha256Hex digest (vb_sourceBytes b) = ar_sha256 (bm_source (vb_manifest b)) \<and>
    sha256Hex digest (vb_glueBytes b) = ar_sha256 (bm_glue (vb_manifest b)) \<and>
    list_all (\<lambda>(name, bs). list_ex (\<lambda>(n, d). n = name \<and> sha256Hex digest bs = ar_sha256 d)
        (bm_coreModules (vb_manifest b))) (vb_coreModuleBytes b) \<and>
    map fst (vb_coreModuleBytes b) = map fst (bm_coreModules (vb_manifest b)) \<and>
    distinct (map (\<lambda>(_, d). ar_path d) (descriptors collate (vb_manifest b))) \<and>
    list_all (\<lambda>(_, d). safe_path (ar_path d)) (descriptors collate (vb_manifest b)) \<and>
    bm_componentVersion (vb_manifest b) = cp_componentVersion host \<and>
    bm_witPackage (vb_manifest b) = cp_witPackage host"

lemma core_bytes_names: "core_bytes vs ds = Inr bss \<Longrightarrow> map fst bss = map fst ds"
  by (induction vs ds arbitrary: bss rule: core_bytes.induct) auto

lemma accepted_trusted:
  assumes "verifyWasmBundle digest collate locator host rd = Inr b"
  shows "trusted_bundle digest collate locator host b"
proof -
  obtain mb m vs core src glue where
    d: "verifyDigest digest (bl_manifestPath locator) mb (bl_manifestSha256 locator) = Inr ()"
    and p: "parseManifest mb = Inr m" and c: "validateCompatibility m host = Inr ()"
    and k: "check_descriptors [] (descriptors collate m) = Inr ()"
    and r: "read_verified digest rd (descriptors collate m) = Inr vs"
    and co: "core_bytes vs (bm_coreModules m) = Inr core"
    and s: "requireVerified vs (ar_path (bm_source m)) = Inr src"
    and g: "requireVerified vs (ar_path (bm_glue m)) = Inr glue"
    and b: "b = \<lparr> vb_manifest = m, vb_manifestBytes = mb, vb_sourceBytes = src,
              vb_glueBytes = glue, vb_coreModuleBytes = core \<rparr>"
    using assms by (auto simp: verifyWasmBundle_def)
  have sd: "(js ''source'', bm_source m) \<in> set (descriptors collate m)"
    "(js ''glue'', bm_glue m) \<in> set (descriptors collate m)"
    by (simp_all add: descriptors_def)
  have cd: "(name, a) \<in> set (bm_coreModules m) \<Longrightarrow>
      (js ''core module '' @ name, a) \<in> set (descriptors collate m)" for name a
    by (force simp: descriptors_def sort_entries_set)
  have ex: "\<exists>a. (name, a) \<in> set (bm_coreModules m) \<and> sha256Hex digest bs = ar_sha256 a"
    if "(name, bs) \<in> set core" for name bs
    using core_bytes_ok [OF co that] verified_lookup [OF k r cd] by blast
  have "list_all (\<lambda>(name, bs). list_ex (\<lambda>(n, d). n = name \<and> sha256Hex digest bs = ar_sha256 d)
      (bm_coreModules m)) core"
    unfolding list_all_iff list_ex_iff using ex by fast
  moreover have "sha256Hex digest mb = bl_manifestSha256 locator"
    using d by (simp add: verifyDigest_def split: if_splits)
  moreover have "bm_componentVersion m = cp_componentVersion host \<and> bm_witPackage m = cp_witPackage host"
    using c by (auto simp: validateCompatibility_def Let_def split: if_splits)
  ultimately show ?thesis
    using verified_lookup [OF k r sd(1) s] verified_lookup [OF k r sd(2) g] check_descriptors_ok [OF k] p
      core_bytes_names [OF co]
    by (auto simp: b trusted_bundle_def list_all_iff)
qed

text \<open>
  C9: Only verified bytes leave the verifier.  When a bundle is accepted its manifest has the trusted digest,
  every artifact it hands out (source, glue and each core module) has the digest its descriptor
  declares, the artifact paths are distinct, package-relative and free of dot segments, and
  the versions are exactly the host's.
\<close>

theorem bundle_verified:
  "case verifyWasmBundle digest collate locator host rd of
     Inl e \<Rightarrow> True
   | Inr b \<Rightarrow> trusted_bundle digest collate locator host b"
  using accepted_trusted by (auto split: sum.splits)

text \<open>
  The manifest gate.  When the bytes read for the manifest do not have the trusted digest, verification
  fails with an integrity error that does not depend on any other artifact: nothing is parsed and no
  artifact is read before the manifest itself is trusted.
\<close>

theorem manifest_gate:
  assumes "rd (bl_manifestPath locator) = Bytes bs" "sha256Hex digest bs \<noteq> bl_manifestSha256 locator"
    and "rd' (bl_manifestPath locator) = Bytes bs"
  shows "\<exists>e. verifyWasmBundle digest collate locator host rd = Inl e \<and>
    verifyWasmBundle digest collate' locator host' rd' = Inl e \<and>
    we_class e \<in> {ManifestErr, IntegrityErr}"
  using assms
  by (cases "assertRelativeArtifactPath (bl_manifestPath locator) (js ''manifestPath'')";
      cases "assertSha256 (bl_manifestSha256 locator) (js ''manifestSha256'')")
     (auto simp: verifyWasmBundle_def read_or_def verifyDigest_def assertRelativeArtifactPath_def
       assertSha256_def split: if_splits)

theorem manifest_gate_witness:
  "\<exists>e. verifyWasmBundle (\<lambda>_. [0]) (\<lambda>_ _. True) \<lparr> bl_manifestPath = js ''m.json'', bl_manifestSha256 = [] \<rparr>
     \<lparr> cp_componentVersion = [], cp_witPackage = [], cp_abi = None, cp_bundleSchema = None,
       cp_abiVersion = None, cp_schemaVersion = None \<rparr> (\<lambda>_. Bytes []) = Inl e \<and>
     we_class e \<in> {ManifestErr, IntegrityErr}"
proof -
  have "sha256Hex (\<lambda>_. [0]) [] \<noteq> []" by code_simp
  then show ?thesis
    using manifest_gate [of "\<lambda>_. Bytes []"
        "\<lparr> bl_manifestPath = js ''m.json'', bl_manifestSha256 = [] \<rparr>" "[]" "\<lambda>_. [0]" "\<lambda>_. Bytes []"]
    by fastforce
qed

end
