(* ===== verification/Wasm_Adapters.thy ===== *)
theory Wasm_Adapters
  imports Wasm_Manifest "HOL-Library.List_Lexorder"
begin

text \<open>
  The native adapter registry of \<^verbatim>\<open>src/wasm/adapters.ts\<close>.

  An adapter object is known by its reference, so that a copy with the same fields is another
  adapter; the qualification ledger (a \<^verbatim>\<open>WeakSet\<close>) is a list of references.  The fields the
  code checks at run time, although its types declare them, are optional here.
\<close>

section \<open>State\<close>

record adapter =
  ad_ref :: nat
  ad_name :: jstr
  ad_operations :: "jstr list option"
  ad_parityQualified :: "bool option"
  ad_invokes :: bool
  ad_closes :: bool

record registry =
  rg_adapters :: "(jstr \<times> adapter) list"
  rg_closed :: bool
  rg_ledger :: "nat list"
  rg_closeCalls :: "nat list"

definition newRegistry :: "nat list \<Rightarrow> registry" where
  "newRegistry ledger = \<lparr> rg_adapters = [], rg_closed = False, rg_ledger = ledger, rg_closeCalls = [] \<rparr>"

definition adapterNamePattern :: "jstr \<Rightarrow> bool" where
  "adapterNamePattern s = segmented_name is_separator s"

definition portableOperation :: "jstr \<Rightarrow> bool" where
  "portableOperation s \<longleftrightarrow> s \<in> set GOFORGE_ABI_V1_OPERATIONS"

definition adapter_fails :: "jstr \<Rightarrow> jstr \<Rightarrow> wasm_error" where
  "adapter_fails name tail_text =
     adapter_error (js ''native adapter '' @ json_quote name @ js '' '' @ tail_text) None"

definition registry_closed :: wasm_error where
  "registry_closed = adapter_error (js ''native adapter registry is closed'') None"

section \<open>Operations\<close>

definition recordParityQualification :: "nat list \<Rightarrow> adapter \<Rightarrow> wasm_error + nat list" where
  "recordParityQualification ledger a =
     (if ad_parityQualified a \<noteq> Some True then
        Inl (adapter_fails (ad_name a)
          (js ''cannot be recorded as qualified because it does not declare parityQualified: true''))
      else Inr (List.insert (ad_ref a) ledger))"

definition isParityQualified :: "nat list \<Rightarrow> adapter \<Rightarrow> bool" where
  "isParityQualified ledger a \<longleftrightarrow> ad_ref a \<in> set ledger"

fun valid_operations :: "jstr list \<Rightarrow> jstr list \<Rightarrow> bool" where
  "valid_operations seen [] = True"
| "valid_operations seen (x # xs) =
     (if \<not> portableOperation x \<or> x \<in> set seen then False else valid_operations (x # seen) xs)"

definition validateAdapter :: "nat list \<Rightarrow> adapter \<Rightarrow> wasm_error + unit" where
  "validateAdapter ledger a =
     (if \<not> adapterNamePattern (ad_name a) then
        Inl (adapter_error (js ''invalid native adapter name '' @ json_quote (ad_name a)) None)
      else
        (case ad_operations a of
           None \<Rightarrow> Inl (adapter_fails (ad_name a) (js ''has no operations''))
         | Some ops \<Rightarrow>
             if ops = [] then Inl (adapter_fails (ad_name a) (js ''has no operations''))
             else if \<not> valid_operations [] ops then
               Inl (adapter_fails (ad_name a) (js ''has an invalid or duplicate operation''))
             else if ad_parityQualified a = None \<or> \<not> ad_invokes a then
               Inl (adapter_fails (ad_name a) (js ''is malformed''))
             else if ad_parityQualified a = Some True \<and> ad_ref a \<notin> set ledger then
               Inl (adapter_fails (ad_name a) (js ''claims parity qualification that was never performed; qualify it and record the result before registering it''))
             else Inr ()))"

definition register :: "registry \<Rightarrow> adapter \<Rightarrow> wasm_error + registry" where
  "register g a =
     (if rg_closed g then Inl registry_closed
      else
        and_then (validateAdapter (rg_ledger g) a) (\<lambda>_.
          if map_of (rg_adapters g) (ad_name a) \<noteq> None then
            Inl (adapter_fails (ad_name a) (js ''is already registered''))
          else Inr (g \<lparr> rg_adapters := rg_adapters g @ [(ad_name a, a)] \<rparr>)))"

definition unregister :: "registry \<Rightarrow> jstr \<Rightarrow> wasm_error + (registry \<times> bool)" where
  "unregister g name =
     (if rg_closed g then Inl registry_closed
      else Inr (g \<lparr> rg_adapters := AList.delete name (rg_adapters g) \<rparr>,
                map_of (rg_adapters g) name \<noteq> None))"

definition adapter_names :: "registry \<Rightarrow> jstr list" where
  "adapter_names g = sort (map fst (rg_adapters g))"

definition resolve :: "registry \<Rightarrow> jstr \<Rightarrow> jstr \<Rightarrow> jstr list \<Rightarrow> wasm_error + adapter" where
  "resolve g name operation manifestAllowlist =
     (if rg_closed g then Inl registry_closed
      else
        (case map_of (rg_adapters g) name of
           None \<Rightarrow> Inl (adapter_fails name (js ''is not registered''))
         | Some a \<Rightarrow>
             if name \<notin> set manifestAllowlist then
               Inl (adapter_fails name (js ''is not approved for operation '' @ json_quote operation))
             else if operation \<notin> set (case ad_operations a of None \<Rightarrow> [] | Some ops \<Rightarrow> ops) then
               Inl (adapter_fails name (js ''does not implement operation '' @ json_quote operation))
             else if ad_parityQualified a \<noteq> Some True \<or> \<not> isParityQualified (rg_ledger g) a then
               Inl (adapter_fails name (js ''has not passed shared parity qualification''))
             else Inr a))"

text \<open>
  Closing marks the registry first, so that no operation can interleave with the awaited
  adapter closes; the argument \<^term>\<open>fails\<close> says which adapters fail to close.
\<close>

definition closeRegistry ::
    "(jstr \<Rightarrow> jstr \<Rightarrow> bool) \<Rightarrow> (adapter \<Rightarrow> bool) \<Rightarrow> registry \<Rightarrow> registry \<times> (wasm_error + unit)" where
  "closeRegistry collate fails g =
     (if rg_closed g then (g, Inr ())
      else
        (let closing = filter ad_closes (map snd (sort_entries collate (rg_adapters g)))
         in (g \<lparr> rg_closed := True, rg_adapters := [], rg_closeCalls := rg_closeCalls g @ map ad_ref closing \<rparr>,
             if list_ex fails closing
             then Inl (adapter_error (js ''one or more native adapters failed to close'') None)
             else Inr ())))"

section \<open>Executions\<close>

datatype registry_event =
    Qualify adapter
  | Register adapter
  | Unregister jstr
  | CloseAll

text \<open>A call that throws leaves the registry as it was.\<close>

fun or_same :: "'s \<Rightarrow> 'e + 's \<Rightarrow> 's" where
  "or_same s (Inl e) = s"
| "or_same s (Inr t) = t"

fun registry_step ::
    "(jstr \<Rightarrow> jstr \<Rightarrow> bool) \<Rightarrow> (adapter \<Rightarrow> bool) \<Rightarrow> registry \<Rightarrow> registry_event \<Rightarrow> registry" where
  "registry_step collate fails g (Qualify a) =
     or_same g (and_then (recordParityQualification (rg_ledger g) a) (\<lambda>l. Inr (g \<lparr> rg_ledger := l \<rparr>)))"
| "registry_step collate fails g (Register a) = or_same g (register g a)"
| "registry_step collate fails g (Unregister name) =
     or_same g (and_then (unregister g name) (\<lambda>(h, _). Inr h))"
| "registry_step collate fails g CloseAll = fst (closeRegistry collate fails g)"

definition registry_inv :: "registry \<Rightarrow> bool" where
  "registry_inv g \<longleftrightarrow>
     distinct (map fst (rg_adapters g)) \<and>
     (\<forall>(name, a) \<in> set (rg_adapters g). ad_name a = name \<and> validateAdapter (rg_ledger g) a = Inr ()) \<and>
     (rg_closed g \<longrightarrow> rg_adapters g = [])"

lemma validate_mono:
  "validateAdapter l a = Inr () \<Longrightarrow> set l \<subseteq> set l' \<Longrightarrow> validateAdapter l' a = Inr ()"
  by (auto simp: validateAdapter_def split: if_splits option.splits)

lemma ledger_grows: "recordParityQualification l a = Inr l' \<Longrightarrow> set l \<subseteq> set l'"
  by (auto simp: recordParityQualification_def split: if_splits)

lemma registry_register_inv: "registry_inv g \<Longrightarrow> register g a = Inr h \<Longrightarrow> registry_inv h"
  by (auto simp: registry_inv_def register_def map_of_eq_None_iff split: if_splits)

lemma unregister_inv: "registry_inv g \<Longrightarrow> unregister g name = Inr (h, b) \<Longrightarrow> registry_inv h"
  by (auto simp: registry_inv_def unregister_def distinct_map_filter AList.delete_eq split: if_splits)

lemma registry_step_inv: "registry_inv g \<Longrightarrow> registry_inv (registry_step collate fails g e)"
proof (induction g e rule: registry_step.induct [of _ collate fails])
  case (1 _ _ g a)
  show ?case
  proof (cases "recordParityQualification (rg_ledger g) a")
    case (Inr l)
    then show ?thesis
      using 1 ledger_grows [OF Inr] validate_mono by (fastforce simp: registry_inv_def)
  qed (use 1 in simp)
next
  case (2 _ _ g a)
  then show ?case by (cases "register g a") (auto intro: registry_register_inv)
next
  case (3 _ _ g name)
  then show ?case by (cases "unregister g name") (auto intro: unregister_inv)
next
  case (4 _ _ g)
  then show ?case by (simp add: closeRegistry_def registry_inv_def Let_def)
qed

interpretation rg: event_system "\<lambda>g e h. h = registry_step collate fails g e" "newRegistry []" registry_inv
  for collate fails
  by unfold_locales (simp_all add: registry_step_inv, simp add: registry_inv_def newRegistry_def)

section \<open>Properties\<close>

text \<open>The adapter object with a given reference passed the qualification record: the call was made on that very
  object and was not refused.\<close>

definition qualified_in :: "registry_event list \<Rightarrow> nat \<Rightarrow> bool" where
  "qualified_in es r \<longleftrightarrow> (\<exists>q. Qualify q \<in> set es \<and> ad_ref q = r \<and> ad_parityQualified q = Some True)"

text \<open>The registration an entry of the registry comes from: not taken back since, and for an adapter that claims
  parity made after it was qualified.\<close>

definition registered_in :: "registry_event list \<Rightarrow> jstr \<Rightarrow> adapter \<Rightarrow> bool" where
  "registered_in es name a \<longleftrightarrow>
     (\<exists>before after. es = before @ Register a # after \<and> Unregister name \<notin> set after \<and>
        (ad_parityQualified a = Some True \<longrightarrow> qualified_in before (ad_ref a)))"

lemma qualified_snoc: "qualified_in es r \<Longrightarrow> qualified_in (es @ [e]) r"
  by (auto simp: qualified_in_def)

lemma registered_snoc:
  "registered_in es name a \<Longrightarrow> e \<noteq> Unregister name \<Longrightarrow> registered_in (es @ [e]) name a"
  unfolding registered_in_def by fastforce

lemma registered_last:
  "(ad_parityQualified a = Some True \<Longrightarrow> qualified_in es (ad_ref a)) \<Longrightarrow>
   registered_in (es @ [Register a]) name a"
  unfolding registered_in_def by fastforce

lemma registry_history:
  "trace (\<lambda>g e h. h = registry_step collate fails g e) (newRegistry []) es g \<Longrightarrow>
   (\<forall>r \<in> set (rg_ledger g). qualified_in es r) \<and>
   (\<forall>(name, a) \<in> set (rg_adapters g). registered_in es name a) \<and>
   (rg_closed g \<longleftrightarrow> CloseAll \<in> set es)"
proof (induction "newRegistry []" es g rule: trace.induct)
  case trace_Nil
  show ?case by (simp add: newRegistry_def)
next
  case (trace_snoc es t e u)
  then have IH: "\<And>r. r \<in> set (rg_ledger t) \<Longrightarrow> qualified_in es r"
    "\<And>n a. (n, a) \<in> set (rg_adapters t) \<Longrightarrow> registered_in es n a"
    "rg_closed t \<longleftrightarrow> CloseAll \<in> set es" by auto
  note snoc = qualified_snoc registered_snoc
  have u: "u = registry_step collate fails t e" using trace_snoc.hyps(3) .
  show ?case
  proof (cases e)
    case (Qualify a)
    show ?thesis
    proof (cases "recordParityQualification (rg_ledger t) a")
      case (Inr l)
      then have "ad_parityQualified a = Some True" "l = List.insert (ad_ref a) (rg_ledger t)"
        by (auto simp: recordParityQualification_def split: if_splits)
      moreover from this have "qualified_in (es @ [Qualify a]) (ad_ref a)"
        by (auto simp: qualified_in_def)
      ultimately show ?thesis
        using IH u Qualify Inr by (auto simp: snoc)
    qed (use IH u Qualify in \<open>auto simp: snoc\<close>)
  next
    case (Register a)
    show ?thesis
    proof (cases "register t a")
      case (Inr h)
      then have h: "h = t \<lparr> rg_adapters := rg_adapters t @ [(ad_name a, a)] \<rparr>"
        and v: "validateAdapter (rg_ledger t) a = Inr ()"
        by (auto simp: register_def split: if_splits)
      have "registered_in (es @ [Register a]) (ad_name a) a"
        by (rule registered_last)
           (use v IH(1) in \<open>auto simp: validateAdapter_def split: if_splits option.splits\<close>)
      then show ?thesis
        using IH u Register Inr h by (auto simp: snoc)
    qed (use IH u Register in \<open>auto simp: snoc\<close>)
  next
    case (Unregister name)
    show ?thesis
    proof (cases "unregister t name")
      case (Inl x)
      then have "rg_adapters t = [] \<or> rg_closed t" by (auto simp: unregister_def split: if_splits)
      moreover have "registry_inv t" by (rule rg.reachable_inv [OF trace_snoc.hyps(1)])
      ultimately have "rg_adapters t = []" by (auto simp: registry_inv_def)
      then show ?thesis using IH u Unregister Inl by (auto simp: snoc)
    next
      case (Inr hb)
      then obtain h b where hb: "hb = (h, b)" "h = t \<lparr> rg_adapters := AList.delete name (rg_adapters t) \<rparr>"
        by (auto simp: unregister_def split: if_splits)
      then show ?thesis using IH u Unregister Inr by (auto simp: snoc AList.delete_eq)
    qed
  next
    case CloseAll
    then show ?thesis using IH u by (auto simp: snoc closeRegistry_def Let_def)
  qed
qed

lemma valid_operations_iff:
  "valid_operations seen ops \<longleftrightarrow> list_all portableOperation ops \<and> distinct ops \<and> set ops \<inter> set seen = {}"
  by (induction seen ops rule: valid_operations.induct) auto

text \<open>
  C10: Explicit routing.  In every execution of a registry, an adapter that is resolved was registered
  under the requested name and not unregistered since; declares parity, and this very object (a copy of a
  qualified adapter is another) was accepted by the qualification record before it was registered; is on the
  manifest's allowlist; lists the operation asked for, a portable one, among its own operations; and the registry
  has not been closed.  Once it is closed every operation is refused.
\<close>

theorem adapters_explicit:
  assumes "trace (\<lambda>g e h. h = registry_step collate fails g e) (newRegistry []) es g"
  shows "(case resolve g name operation allowlist of
       Inl e \<Rightarrow> we_class e = AdapterErr
     | Inr a \<Rightarrow> ad_name a = name \<and>
         (\<exists>before after. es = before @ Register a # after \<and> Unregister name \<notin> set after \<and>
            (\<exists>q. Qualify q \<in> set before \<and> ad_ref q = ad_ref a \<and> ad_parityQualified q = Some True)) \<and>
         ad_parityQualified a = Some True \<and> name \<in> set allowlist \<and>
         (\<exists>ops. ad_operations a = Some ops \<and> operation \<in> set ops) \<and> portableOperation operation \<and>
         CloseAll \<notin> set es) \<and>
    (CloseAll \<notin> set es \<or> (resolve g name operation allowlist = Inl registry_closed \<and>
       register g b = Inl registry_closed \<and> unregister g name = Inl registry_closed \<and>
       closeRegistry collate fails g = (g, Inr ())))"
proof -
  note h = registry_history [OF assms]
  have inv: "registry_inv g" by (rule rg.reachable_inv [OF assms])
  have "ad_name a = name \<and>
      (\<exists>before after. es = before @ Register a # after \<and> Unregister name \<notin> set after \<and>
         (\<exists>q. Qualify q \<in> set before \<and> ad_ref q = ad_ref a \<and> ad_parityQualified q = Some True)) \<and>
      ad_parityQualified a = Some True \<and> name \<in> set allowlist \<and>
      (\<exists>ops. ad_operations a = Some ops \<and> operation \<in> set ops) \<and> portableOperation operation \<and>
      CloseAll \<notin> set es"
    if "resolve g name operation allowlist = Inr a" for a
  proof -
    have m: "map_of (rg_adapters g) name = Some a" and al: "name \<in> set allowlist"
      and q: "ad_parityQualified a = Some True" and c: "\<not> rg_closed g"
      and o: "operation \<in> set (case ad_operations a of None \<Rightarrow> [] | Some ops \<Rightarrow> ops)"
      using that by (auto simp: resolve_def split: if_splits option.splits)
    have mem: "(name, a) \<in> set (rg_adapters g)" by (rule map_of_SomeD [OF m])
    then have v: "ad_name a = name" "validateAdapter (rg_ledger g) a = Inr ()"
      using inv by (auto simp: registry_inv_def)
    obtain ops where ops: "ad_operations a = Some ops" "operation \<in> set ops"
      using o by (cases "ad_operations a") auto
    have "portableOperation operation"
      using v(2) ops by (auto simp: validateAdapter_def valid_operations_iff list_all_iff split: if_splits)
    moreover have "registered_in es name a" using h mem by auto
    ultimately show ?thesis
      using v(1) al q c h ops by (auto simp: registered_in_def qualified_in_def)
  qed
  moreover have "we_class e = AdapterErr" if "resolve g name operation allowlist = Inl e" for e
    using that by (auto simp: resolve_def adapter_fails_def registry_closed_def split: if_splits option.splits)
  ultimately show ?thesis
    using h by (auto simp: resolve_def register_def unregister_def closeRegistry_def split: sum.splits)
qed

definition sample_adapter :: adapter where
  "sample_adapter = \<lparr> ad_ref = 1, ad_name = js ''native'', ad_operations = Some [js ''crypto.sha256''],
     ad_parityQualified = Some True, ad_invokes = True, ad_closes = True \<rparr>"

definition sample_registry :: registry where
  "sample_registry = registry_step (\<lambda>_ _. True) (\<lambda>_. False)
     (registry_step (\<lambda>_ _. True) (\<lambda>_. False) (newRegistry []) (Qualify sample_adapter))
     (Register sample_adapter)"

lemma sample_registry_trace:
  "trace (\<lambda>g e h. h = registry_step (\<lambda>_ _. True) (\<lambda>_. False) g e) (newRegistry [])
     [Qualify sample_adapter, Register sample_adapter] sample_registry"
  unfolding sample_registry_def by (rule trace_Cons, rule refl, rule trace_single, rule refl)

theorem adapters_explicit_witness:
  "resolve sample_registry (js ''native'') (js ''crypto.sha256'') [js ''native''] = Inr sample_adapter \<and>
   (\<exists>ops. ad_operations sample_adapter = Some ops \<and> js ''crypto.sha256'' \<in> set ops) \<and>
   CloseAll \<notin> set [Qualify sample_adapter, Register sample_adapter]"
proof -
  have r: "resolve sample_registry (js ''native'') (js ''crypto.sha256'') [js ''native''] = Inr sample_adapter"
    by code_simp
  show ?thesis
    using adapters_explicit [OF sample_registry_trace,
        where name = "js ''native''" and operation = "js ''crypto.sha256''" and allowlist = "[js ''native'']"]
    unfolding r sum.case by blast
qed

end
