(* ===== verification/Wasm_Runtime.thy ===== *)
theory Wasm_Runtime
  imports Wasm_Pool Wasm_Adapters
begin

text \<open>
  The runtime of \<^verbatim>\<open>src/wasm/runtime.ts\<close>: option handling, abort scopes, one component or
  adapter call, the retry loop of \<^verbatim>\<open>invoke\<close>, and the lifecycle of open, loading and closing.

  Times are rational milliseconds.  What the outside world does during a call (the guest's reply, the
  adapter's reply, when a signal fires) is an argument of the definitions.
\<close>

section \<open>Options\<close>

text \<open>The exceptions a call can end with: a range or type error of the options, or a runtime error.\<close>

datatype call_failure = RangeErr jstr | TypeErr jstr | Wasm wasm_error

definition requireInteger :: "js_num \<Rightarrow> jstr \<Rightarrow> rat \<Rightarrow> rat \<Rightarrow> call_failure + rat" where
  "requireInteger v name minimum maximum =
     (case v of
        Finite r \<Rightarrow> if rat_is_int r \<and> minimum \<le> r \<and> r \<le> maximum then Inr r else Inl (RangeErr name)
      | NonFinite \<Rightarrow> Inl (RangeErr name))"

definition requireFinite :: "js_num \<Rightarrow> jstr \<Rightarrow> rat \<Rightarrow> call_failure + rat" where
  "requireFinite v name minimum =
     (case v of
        Finite r \<Rightarrow> if minimum \<le> r then Inr r else Inl (RangeErr name)
      | NonFinite \<Rightarrow> Inl (RangeErr name))"

record partial_policy =
  pp_maxAttempts :: "js_num option"
  pp_initialDelayMs :: "js_num option"
  pp_maxDelayMs :: "js_num option"
  pp_transientCodes :: "jstr list option"

definition defaultRetryPolicy :: retry_policy where
  "defaultRetryPolicy = \<lparr> rp_maxAttempts = 2, rp_initialDelayMs = 25, rp_maxDelayMs = 250,
     rp_transientCodes = [] \<rparr>"

definition num_or :: "js_num option \<Rightarrow> rat \<Rightarrow> js_num" where
  "num_or v d = (case v of None \<Rightarrow> Finite d | Some n \<Rightarrow> n)"

definition normalizeRetryPolicy :: "partial_policy option \<Rightarrow> call_failure + retry_policy" where
  "normalizeRetryPolicy v =
     (let p = (case v of None \<Rightarrow> \<lparr> pp_maxAttempts = None, pp_initialDelayMs = None, pp_maxDelayMs = None,
                                    pp_transientCodes = None \<rparr> | Some q \<Rightarrow> q);
          codes = (case pp_transientCodes p of None \<Rightarrow> rp_transientCodes defaultRetryPolicy | Some cs \<Rightarrow> cs)
      in and_then (requireInteger (num_or (pp_maxAttempts p) (rp_maxAttempts defaultRetryPolicy))
           (js ''retryPolicy.maxAttempts'') 1 10) (\<lambda>attempts.
         and_then (requireFinite (num_or (pp_initialDelayMs p) (rp_initialDelayMs defaultRetryPolicy))
           (js ''retryPolicy.initialDelayMs'') 0) (\<lambda>initial.
         and_then (requireFinite (num_or (pp_maxDelayMs p) (rp_maxDelayMs defaultRetryPolicy))
           (js ''retryPolicy.maxDelayMs'') initial) (\<lambda>limit.
           if list_ex (\<lambda>c. \<not> errorCodePattern c) codes then
             Inl (TypeErr (js ''retryPolicy.transientCodes must contain lowercase snake_case error codes''))
           else Inr \<lparr> rp_maxAttempts = attempts, rp_initialDelayMs = initial, rp_maxDelayMs = limit,
                       rp_transientCodes = rev (remdups (rev codes)) \<rparr>))))"

definition resolveDeadline :: "call_options \<Rightarrow> rat option \<Rightarrow> rat \<Rightarrow> call_failure + rat option" where
  "resolveDeadline opts defaultTimeoutMs now =
     (let relative = (case co_timeoutMs opts of Some t \<Rightarrow> Some t | None \<Rightarrow> map_option Finite defaultTimeoutMs)
      in and_then
           (case relative of
              None \<Rightarrow> Inr None
            | Some t \<Rightarrow> and_then (requireFinite t (js ''timeoutMs'') 0) (\<lambda>r. Inr (Some (of_int \<lfloor>now + r\<rfloor>))))
           (\<lambda>deadline.
              (case co_deadline opts of
                 None \<Rightarrow> Inr deadline
               | Some d \<Rightarrow>
                   and_then (requireFinite d (js ''deadline'') 0) (\<lambda>r.
                     (let n = of_int \<lfloor>r\<rfloor>
                      in Inr (Some (case deadline of None \<Rightarrow> n | Some d' \<Rightarrow> min d' n)))))))"

definition requestMetadata :: "call_options \<Rightarrow> rat option \<Rightarrow> jval option" where
  "requestMetadata opts deadline =
     (let ob = (case deadline of None \<Rightarrow> [] | Some d \<Rightarrow> [(js ''deadline_unix_ms'', JNum d)]) @
               (case co_cancellationToken opts of None \<Rightarrow> [] | Some t \<Rightarrow> [(js ''cancellation_token'', JStr t)]) @
               (case co_requiredCapabilities opts of None \<Rightarrow> []
                | Some cs \<Rightarrow> [(js ''required_capabilities'', JArr (map JStr cs))])
      in if ob = [] then None else Some (JObj ob))"

definition executionState :: "call_options \<Rightarrow> rat option \<Rightarrow> rat \<Rightarrow> bool \<Rightarrow> execution_state" where
  "executionState opts deadline now aborted =
     (let token = (case co_cancellationToken opts of None \<Rightarrow> [] | Some t \<Rightarrow> t)
      in \<lparr> clockChecked = (deadline \<noteq> None), nowUnixMilliseconds = of_int \<lfloor>now\<rfloor>,
           cancellationChecked = (token \<noteq> []), cancellationToken = token,
           cancellationRequested = (token \<noteq> [] \<and> aborted) \<rparr>)"

section \<open>Abort scopes\<close>

text \<open>
  The signal of a call combines the caller's signal, the shutdown of the runtime and the deadline.
  Its state is the reason of the first of them that fired.
\<close>

datatype scope_event = CallerAborts | ShutdownAborts | DeadlineFires

fun scope_reason :: "scope_event \<Rightarrow> wasm_error" where
  "scope_reason CallerAborts = cancelled_error"
| "scope_reason ShutdownAborts = closed_error None"
| "scope_reason DeadlineFires = deadline_error"

definition createAbortScope :: "bool \<Rightarrow> bool \<Rightarrow> rat option \<Rightarrow> rat \<Rightarrow> wasm_error option" where
  "createAbortScope callerAborted shutdownAborted deadline now =
     (if callerAborted then Some (scope_reason CallerAborts)
      else if shutdownAborted then Some (scope_reason ShutdownAborts)
      else (case deadline of
              None \<Rightarrow> None
            | Some d \<Rightarrow> if d \<le> now then Some (scope_reason DeadlineFires) else None))"

definition scope_fire :: "scope_event \<Rightarrow> wasm_error option \<Rightarrow> wasm_error option" where
  "scope_fire e s = (case s of None \<Rightarrow> Some (scope_reason e) | Some r \<Rightarrow> Some r)"

section \<open>One call\<close>

text \<open>A thrown value: a runtime error of this library, or anything else.\<close>

datatype cause = RuntimeCause wasm_error | OtherCause

definition normalizeLoadError :: "cause \<Rightarrow> wasm_error" where
  "normalizeLoadError c =
     (case c of RuntimeCause e \<Rightarrow> e
      | OtherCause \<Rightarrow> invocation_error (js ''component bundle verification failed'') None)"

definition normalizeCallError :: "cause \<Rightarrow> execution_target \<Rightarrow> wasm_error option \<Rightarrow> wasm_error" where
  "normalizeCallError c target signal =
     (case signal of
        Some reason \<Rightarrow> reason
      | None \<Rightarrow>
          (case c of
             RuntimeCause e \<Rightarrow> e
           | OtherCause \<Rightarrow>
               (case target of
                  NativeTarget _ \<Rightarrow> adapter_error (js ''native adapter invocation failed'') None
                | ComponentTarget \<Rightarrow> invocation_error (js ''component invocation failed'') None)))"

text \<open>
  What happens to a component call: the pool refuses a lease, the instance throws on dispatch, or it
  replies (with a JSON text or a rejection).  The signal may fire before the dispatch or before the
  reply, and closing a discarded instance may fail.
\<close>

datatype reply = Replies jstr | Rejects

datatype component_call =
    AcquireFails wasm_error
  | DispatchThrows
  | Dispatched reply

record component_run =
  cr_call :: component_call
  cr_abortBefore :: "wasm_error option"
  cr_abortAfter :: "wasm_error option"
  cr_closeFails :: bool

text \<open>The outcome for the caller, and how the lease is released (discarded or kept), if there was one.\<close>

definition discarded :: "component_run \<Rightarrow> cause \<Rightarrow> (cause + abi_response) \<times> bool option" where
  "discarded run c = (Inl (if cr_closeFails run then OtherCause else c), Some True)"

definition dispatch_failed :: cause where
  "dispatch_failed = RuntimeCause (invocation_error (js ''component invocation failed'') None)"

definition invokeComponent :: "jstr \<Rightarrow> component_run \<Rightarrow> (cause + abi_response) \<times> bool option" where
  "invokeComponent rid run =
     (case cr_call run of
        AcquireFails e \<Rightarrow> (Inl (RuntimeCause e), None)
      | c \<Rightarrow>
          if cr_abortBefore run \<noteq> None then discarded run dispatch_failed
          else
            (case c of
               Dispatched r \<Rightarrow>
                 (case cr_abortAfter run of
                    Some reason \<Rightarrow> (Inl (RuntimeCause reason), Some True)
                  | None \<Rightarrow>
                      (case r of
                         Rejects \<Rightarrow> discarded run dispatch_failed
                       | Replies json \<Rightarrow>
                           (case parseAbiResponse json rid of
                              Inl e \<Rightarrow> discarded run (RuntimeCause e)
                            | Inr response \<Rightarrow> (Inr response, Some False))))
             | _ \<Rightarrow> discarded run dispatch_failed))"

datatype adapter_reply = AdapterReplies jval | AdapterRejects cause

record adapter_run =
  xr_reply :: adapter_reply
  xr_abort :: "wasm_error option"

definition invokeAdapter ::
    "registry \<Rightarrow> jstr \<Rightarrow> jstr list \<Rightarrow> abi_request \<Rightarrow> adapter_run \<Rightarrow> cause + abi_response" where
  "invokeAdapter g name allowlist request run =
     (case resolve g name (rq_operation request) allowlist of
        Inl e \<Rightarrow> Inl (RuntimeCause e)
      | Inr a \<Rightarrow>
          (case xr_abort run of
             Some reason \<Rightarrow> Inl (RuntimeCause reason)
           | None \<Rightarrow>
               (case xr_reply run of
                  AdapterRejects (RuntimeCause e) \<Rightarrow> Inl (RuntimeCause e)
                | AdapterRejects OtherCause \<Rightarrow>
                    Inl (RuntimeCause (adapter_error (js ''native adapter invocation failed'') None))
                | AdapterReplies v \<Rightarrow>
                    (case validateAbiResponse v (rq_id request) of
                       Inl e \<Rightarrow> Inl (RuntimeCause e)
                     | Inr response \<Rightarrow> Inr response))))"

section \<open>The retry loop\<close>

definition isSafeTransient :: "retry_policy \<Rightarrow> wasm_error \<Rightarrow> bool" where
  "isSafeTransient policy e \<longleftrightarrow>
     we_class e = GuestErr \<and> we_code e \<noteq> js ''deadline_exceeded'' \<and>
     we_code e \<noteq> js ''cancellation_requested'' \<and> we_retryable e \<and> we_code e \<in> set (rp_transientCodes policy)"

definition retryDelay :: "retry_policy \<Rightarrow> nat \<Rightarrow> rat" where
  "retryDelay policy attempt = min (rp_maxDelayMs policy) (rp_initialDelayMs policy * 2 ^ (attempt - 1))"

text \<open>
  One attempt as the loop sees it: what the target returned or threw, the state of the call's signal
  when it did, and the signal's state at the end of the sleep that follows a retry.
\<close>

record attempt_run =
  at_result :: "cause + abi_response"
  at_signal :: "wasm_error option"
  at_sleepSignal :: "wasm_error option"

fun answer :: "cause + abi_response \<Rightarrow> cause + jval" where
  "answer (Inl c) = Inl c"
| "answer (Inr (AbiSuccess rid v)) = Inr v"
| "answer (Inr (AbiFailure rid e)) =
     Inl (RuntimeCause (guest_error (ae_code e) (case ae_message e of None \<Rightarrow> [] | Some m \<Rightarrow> m) (ae_retryable e) (ae_field e)))"

text \<open>The events of the loop; a failure keeps the whole error, of which the code's observer is told the code.\<close>

datatype loop_event =
    EvStart nat
  | EvSuccess nat
  | EvFailure nat wasm_error
  | EvRetry nat
  | EvSleep rat

text \<open>
  The attempts from number \<^term>\<open>k\<close> on; the first argument counts the attempts left after
  this one, so that the loop of the code is a structural recursion.
\<close>

fun attempts ::
    "nat \<Rightarrow> nat \<Rightarrow> retry_policy \<Rightarrow> execution_target \<Rightarrow> (nat \<Rightarrow> attempt_run) \<Rightarrow>
     loop_event list \<times> (wasm_error + jval)" where
  "attempts left k policy target run =
     (case answer (at_result (run k)) of
        Inr v \<Rightarrow> ([EvStart k, EvSuccess k], Inr v)
      | Inl c \<Rightarrow>
          (let e = normalizeCallError c target (at_signal (run k));
               evs = [EvStart k, EvFailure k e]
           in case left of
                0 \<Rightarrow> (evs, Inl e)
              | Suc n \<Rightarrow>
                  if \<not> isSafeTransient policy e then (evs, Inl e)
                  else
                    (let waits = evs @ [EvRetry (k + 1), EvSleep (retryDelay policy k)]
                     in case at_sleepSignal (run k) of
                          Some reason \<Rightarrow> (waits, Inl reason)
                        | None \<Rightarrow>
                            (case attempts n (k + 1) policy target run of
                               (later, r) \<Rightarrow> (waits @ later, r)))))"

definition attempt_limit :: "retry_policy \<Rightarrow> bool \<Rightarrow> operation_contract \<Rightarrow> nat" where
  "attempt_limit policy allowRetry contract =
     (if allowRetry \<and> oc_retrySafe contract then nat \<lfloor>rp_maxAttempts policy\<rfloor> else 1)"


declare attempts.simps [simp del]

section \<open>A whole call\<close>

text \<open>
  The environment of a call: the state of the runtime when it starts, what loading the bundle gives,
  and for each attempt what the target does and the state of the call's signal.
\<close>

record call_env =
  ce_state :: runtime_state
  ce_now :: rat
  ce_callerAborted :: bool
  ce_shutdown :: bool
  ce_load :: "cause + bundle_manifest"
  ce_loadSignal :: "wasm_error option"
  ce_registry :: registry
  ce_component :: "nat \<Rightarrow> component_run"
  ce_adapter :: "nat \<Rightarrow> adapter_run"
  ce_signal :: "nat \<Rightarrow> wasm_error option"
  ce_sleepSignal :: "nat \<Rightarrow> wasm_error option"

definition attempt_of ::
    "call_env \<Rightarrow> execution_target \<Rightarrow> operation_contract \<Rightarrow> abi_request \<Rightarrow> nat \<Rightarrow> attempt_run" where
  "attempt_of env target contract request k =
     \<lparr> at_result =
         (case target of
            ComponentTarget \<Rightarrow>
              (case serializeAbiRequest request of
                 Inl e \<Rightarrow> Inl (RuntimeCause e)
               | Inr json \<Rightarrow> fst (invokeComponent (rq_id request) (ce_component env k)))
          | NativeTarget name \<Rightarrow>
              invokeAdapter (ce_registry env) name
                (case oc_nativeAdapters contract of None \<Rightarrow> [] | Some ns \<Rightarrow> ns) request (ce_adapter env k)),
       at_signal = ce_signal env k, at_sleepSignal = ce_sleepSignal env k \<rparr>"

definition target_of :: "call_options \<Rightarrow> execution_target" where
  "target_of opts = (case co_target opts of None \<Rightarrow> ComponentTarget | Some t \<Rightarrow> t)"

text \<open>The body of the call inside its try block: no event before the first attempt.\<close>

definition call_body ::
    "retry_policy \<Rightarrow> jstr \<Rightarrow> jstr \<Rightarrow> jval \<Rightarrow> call_options \<Rightarrow> rat option \<Rightarrow> call_env \<Rightarrow>
     loop_event list \<times> (wasm_error + jval)" where
  "call_body policy rid operation payload opts deadline env =
     (case createAbortScope (ce_callerAborted env) (ce_shutdown env) deadline (ce_now env) of
        Some reason \<Rightarrow> ([], Inl reason)
      | None \<Rightarrow>
          (case ce_loadSignal env of
             Some reason \<Rightarrow> ([], Inl reason)
           | None \<Rightarrow>
               (case ce_load env of
                  Inl c \<Rightarrow> ([], Inl (normalizeLoadError c))
                | Inr m \<Rightarrow>
                    (case map_of (bm_operations m) operation of
                       None \<Rightarrow> ([], Inl (compatibility_error (js ''operation '' @ json_quote operation @
                         js '' is not declared by the verified manifest'')))
                     | Some contract \<Rightarrow>
                         (case createAbiRequest rid operation payload (requestMetadata opts deadline) of
                            Inl e \<Rightarrow> ([], Inl e)
                          | Inr request \<Rightarrow>
                              attempts (attempt_limit policy (co_allowRetry opts) contract - 1) 1 policy
                                (target_of opts) (attempt_of env (target_of opts) contract request))))))"

definition runtime_open :: "runtime_state \<Rightarrow> bool" where
  "runtime_open s \<longleftrightarrow> s \<noteq> Closing \<and> s \<noteq> Closed"

text \<open>
  The result of \<^verbatim>\<open>invoke\<close>, and what it adds to the count of active calls once it has
  ended: the count is raised before the deadline is resolved and lowered only by the try block.
\<close>

definition invoke ::
    "retry_policy \<Rightarrow> rat option \<Rightarrow> jstr \<Rightarrow> jstr \<Rightarrow> jval \<Rightarrow> call_options \<Rightarrow> call_env \<Rightarrow>
     (loop_event list \<times> (call_failure + jval)) \<times> nat" where
  "invoke policy defaultTimeoutMs generatedId operation payload opts env =
     (if \<not> runtime_open (ce_state env) then (([], Inl (Wasm (closed_error None))), 0)
      else
        (case resolveDeadline opts defaultTimeoutMs (ce_now env) of
           Inl e \<Rightarrow> (([], Inl e), 1)
         | Inr deadline \<Rightarrow>
             (case call_body policy (case co_requestId opts of None \<Rightarrow> generatedId | Some i \<Rightarrow> i)
                     operation payload opts deadline env of
                (evs, Inl e) \<Rightarrow> ((evs, Inl (Wasm e)), 0)
              | (evs, Inr v) \<Rightarrow> ((evs, Inr v), 0))))"

section \<open>Lifecycle\<close>

datatype load_state = NotLoaded | LoadPending | Loaded bool

record runtime =
  rt_state :: runtime_state
  rt_load :: load_state
  rt_lastErrorCode :: "jstr option"
  rt_activeCalls :: nat
  rt_inflight :: "(nat \<times> bool) list"
  rt_leaked :: nat
  rt_closePromise :: bool
  rt_closeWaits :: bool

definition newRuntime :: runtime where
  "newRuntime = \<lparr> rt_state = Idle, rt_load = NotLoaded, rt_lastErrorCode = None, rt_activeCalls = 0,
     rt_inflight = [], rt_leaked = 0, rt_closePromise = False, rt_closeWaits = False \<rparr>"

text \<open>
  A call with valid options is in flight until its try block ends; it keeps the record whether the
  runtime had begun to close when it started, because its signal is then aborted from the start.
\<close>

definition startCall :: "nat \<Rightarrow> runtime \<Rightarrow> runtime" where
  "startCall c s = s \<lparr> rt_activeCalls := rt_activeCalls s + 1,
     rt_inflight := rt_inflight s @ [(c, \<not> rt_closePromise s)] \<rparr>"

definition startInvalidCall :: "runtime \<Rightarrow> runtime" where
  "startInvalidCall s = s \<lparr> rt_activeCalls := rt_activeCalls s + 1,
     rt_leaked := (if rt_closePromise s then rt_leaked s else rt_leaked s + 1) \<rparr>"

definition ensureLoaded :: "runtime \<Rightarrow> runtime" where
  "ensureLoaded s =
     (if rt_load s \<noteq> NotLoaded then s else s \<lparr> rt_state := Loading, rt_load := LoadPending \<rparr>)"

definition loadSettles :: "bool \<Rightarrow> jstr \<Rightarrow> runtime \<Rightarrow> runtime" where
  "loadSettles ok code s =
     (if ok \<and> \<not> rt_closePromise s then s \<lparr> rt_load := Loaded True, rt_state := Ready \<rparr>
      else s \<lparr> rt_load := Loaded False, rt_lastErrorCode := Some code,
               rt_state := (if runtime_open (rt_state s) then Degraded else rt_state s) \<rparr>)"

definition attemptSucceeds :: "runtime \<Rightarrow> runtime" where
  "attemptSucceeds s = s \<lparr> rt_state := Ready, rt_lastErrorCode := None \<rparr>"

definition attemptFails :: "jstr \<Rightarrow> runtime \<Rightarrow> runtime" where
  "attemptFails code s = s \<lparr> rt_lastErrorCode := Some code \<rparr>"

definition endCall :: "nat \<times> bool \<Rightarrow> runtime \<Rightarrow> runtime" where
  "endCall c s = s \<lparr> rt_activeCalls := rt_activeCalls s - 1, rt_inflight := remove1 c (rt_inflight s),
     rt_closeWaits := (rt_closeWaits s \<and> rt_activeCalls s \<noteq> 1) \<rparr>"

definition closeRuntime :: "runtime \<Rightarrow> runtime" where
  "closeRuntime s =
     (if rt_closePromise s then s
      else s \<lparr> rt_closePromise := True, rt_state := Closing, rt_closeWaits := (rt_activeCalls s > 0) \<rparr>)"

definition finishClose :: "runtime \<Rightarrow> runtime" where
  "finishClose s = s \<lparr> rt_state := Closed \<rparr>"

definition health :: "runtime \<Rightarrow> pool option \<Rightarrow> nat \<Rightarrow> runtime_health" where
  "health s p n =
     (let st = (case p of None \<Rightarrow> \<lparr> ps_active = 0, ps_total = 0, ps_queued = 0 \<rparr> | Some q \<Rightarrow> pool_stats_of q)
      in \<lparr> rh_state = rt_state s, rh_verified = (p \<noteq> None), rh_activeInstances = ps_active st,
           rh_totalInstances = ps_total st, rh_queuedCalls = ps_queued st, rh_poolSize = n,
           rh_lastErrorCode = rt_lastErrorCode s \<rparr>)"

datatype life_event =
    StartCall nat
  | StartInvalidCall
  | BeginLoad
  | LoadSettles bool jstr
  | AttemptSucceeds "nat \<times> bool"
  | AttemptFails "nat \<times> bool" jstr
  | EndCall "nat \<times> bool"
  | CloseRuntime
  | FinishClose

text \<open>
  A call that started after the shutdown signal was aborted never reaches an attempt.  Closing goes on
  once the active calls and the load it waits for have ended.
\<close>

inductive life_step :: "runtime \<Rightarrow> life_event \<Rightarrow> runtime \<Rightarrow> bool" where
  "runtime_open (rt_state s) \<Longrightarrow> life_step s (StartCall c) (startCall c s)"
| "runtime_open (rt_state s) \<Longrightarrow> life_step s StartInvalidCall (startInvalidCall s)"
| "runtime_open (rt_state s) \<Longrightarrow> rt_closePromise s = False \<Longrightarrow> life_step s BeginLoad (ensureLoaded s)"
| "rt_load s = LoadPending \<Longrightarrow> life_step s (LoadSettles ok code) (loadSettles ok code s)"
| "(c, True) \<in> set (rt_inflight s) \<Longrightarrow> life_step s (AttemptSucceeds (c, True)) (attemptSucceeds s)"
| "(c, True) \<in> set (rt_inflight s) \<Longrightarrow> life_step s (AttemptFails (c, True) code) (attemptFails code s)"
| "c \<in> set (rt_inflight s) \<Longrightarrow> life_step s (EndCall c) (endCall c s)"
| "life_step s CloseRuntime (closeRuntime s)"
| "rt_closePromise s \<Longrightarrow> \<not> rt_closeWaits s \<Longrightarrow> rt_load s \<noteq> LoadPending \<Longrightarrow>
   life_step s FinishClose (finishClose s)"

inductive_cases life_stepE: "life_step s e t"
inductive_simps finish_step: "life_step s FinishClose t"

lemmas life_defs = startCall_def startInvalidCall_def ensureLoaded_def loadSettles_def attemptSucceeds_def
  attemptFails_def endCall_def closeRuntime_def finishClose_def

definition life_inv :: "runtime \<Rightarrow> bool" where
  "life_inv s \<longleftrightarrow>
     length (rt_inflight s) + rt_leaked s \<le> rt_activeCalls s \<and>
     (rt_closeWaits s \<longrightarrow> rt_closePromise s \<and> 0 < rt_activeCalls s) \<and>
     (rt_closePromise s \<and> \<not> rt_closeWaits s \<longrightarrow> rt_leaked s = 0 \<and> (\<forall>c. (c, True) \<notin> set (rt_inflight s))) \<and>
     (rt_state s = Closing \<longrightarrow> rt_closePromise s) \<and>
     (rt_state s = Closed \<longrightarrow> rt_closePromise s \<and> \<not> rt_closeWaits s \<and> rt_load s \<noteq> LoadPending)"

lemma endCall_inv:
  assumes i: "life_inv s" and c: "c \<in> set (rt_inflight s)"
  shows "life_inv (endCall c s)"
proof -
  let ?r = "remove1 c (rt_inflight s)"
  have l: "length (rt_inflight s) = Suc (length ?r)"
    using c by (simp add: length_remove1, cases "rt_inflight s") auto
  have n: "length (rt_inflight s) + rt_leaked s \<le> rt_activeCalls s"
    and w: "rt_closeWaits s \<Longrightarrow> rt_closePromise s \<and> 0 < rt_activeCalls s"
    and q: "rt_closePromise s \<Longrightarrow> \<not> rt_closeWaits s \<Longrightarrow> rt_leaked s = 0 \<and> (\<forall>c. (c, True) \<notin> set (rt_inflight s))"
    and st: "rt_state s = Closing \<Longrightarrow> rt_closePromise s"
      "rt_state s = Closed \<Longrightarrow> rt_closePromise s \<and> \<not> rt_closeWaits s \<and> rt_load s \<noteq> LoadPending"
    using i by (auto simp: life_inv_def)
  have "rt_leaked s = 0 \<and> (\<forall>d. (d, True) \<notin> set ?r)"
    if p: "rt_closePromise s" "\<not> (rt_closeWaits s \<and> rt_activeCalls s \<noteq> 1)"
  proof (cases "rt_closeWaits s")
    case True
    then have "rt_activeCalls s = 1" using p by simp
    then have "rt_leaked s = 0 \<and> length ?r = 0" using n l by linarith
    then show ?thesis by simp
  next
    case False
    then show ?thesis using q p(1) by (meson notin_set_remove1)
  qed
  then show ?thesis
    using n w st l by (auto simp: life_inv_def endCall_def)
qed

lemma life_step_inv: "life_inv s \<Longrightarrow> life_step s e t \<Longrightarrow> life_inv t"
  by (erule life_stepE)
     (simp_all add: endCall_inv, auto simp: life_inv_def life_defs runtime_open_def)

interpretation rt: event_system life_step newRuntime life_inv
  by unfold_locales (simp add: life_inv_def newRuntime_def, rule life_step_inv)


section \<open>Properties\<close>

fun starts :: "loop_event list \<Rightarrow> nat list" where
  "starts [] = []"
| "starts (EvStart k # es) = k # starts es"
| "starts (_ # es) = starts es"

fun sleeps :: "loop_event list \<Rightarrow> rat list" where
  "sleeps [] = []"
| "sleeps (EvSleep d # es) = d # sleeps es"
| "sleeps (_ # es) = sleeps es"

text \<open>The failures that were followed by a retry.\<close>

fun retried :: "loop_event list \<Rightarrow> wasm_error list" where
  "retried (EvFailure k e # EvRetry j # es) = e # retried es"
| "retried (e # es) = retried es"
| "retried [] = []"

text \<open>An error after which an attempt may be repeated: the guest's own, marked retryable, with a code
  the policy lists, and neither a deadline nor a cancellation.\<close>

definition transient_guest_error :: "retry_policy \<Rightarrow> wasm_error \<Rightarrow> bool" where
  "transient_guest_error policy e \<longleftrightarrow>
     we_class e = GuestErr \<and> we_retryable e \<and> we_code e \<in> set (rp_transientCodes policy) \<and>
     we_code e \<notin> {js ''deadline_exceeded'', js ''cancellation_requested''}"

text \<open>The attempts are numbered consecutively, each but the first follows such a failure, and each repetition
  waits within the policy's bounds.\<close>

definition disciplined :: "retry_policy \<Rightarrow> nat \<Rightarrow> nat \<Rightarrow> loop_event list \<Rightarrow> bool" where
  "disciplined policy k limit es \<longleftrightarrow>
     starts es = [k ..< k + length (starts es)] \<and> length (starts es) \<le> limit \<and>
     length (starts es) \<le> Suc (length (retried es)) \<and>
     list_all (transient_guest_error policy) (retried es) \<and>
     list_all (\<lambda>d. 0 \<le> d \<and> d \<le> rp_maxDelayMs policy) (sleeps es) \<and>
     length (sleeps es) = length (retried es)"

text \<open>Both the caller and the verified manifest allow the operation to be repeated.\<close>

definition retry_allowed :: "call_options \<Rightarrow> jstr \<Rightarrow> call_env \<Rightarrow> bool" where
  "retry_allowed opts operation env \<longleftrightarrow>
     co_allowRetry opts \<and>
     (case ce_load env of
        Inl _ \<Rightarrow> False
      | Inr m \<Rightarrow>
          (case map_of (bm_operations m) operation of
             None \<Rightarrow> False
           | Some contract \<Rightarrow> oc_retrySafe contract))"

lemma delay_bounds:
  "0 \<le> rp_initialDelayMs policy \<Longrightarrow> rp_initialDelayMs policy \<le> rp_maxDelayMs policy \<Longrightarrow>
   0 \<le> retryDelay policy k \<and> retryDelay policy k \<le> rp_maxDelayMs policy"
  by (auto simp: retryDelay_def min_def)

lemma attempts_disciplined:
  assumes "0 \<le> rp_initialDelayMs policy" "rp_initialDelayMs policy \<le> rp_maxDelayMs policy"
  shows "attempts left k policy target run = (es, r) \<Longrightarrow>
    disciplined policy k (Suc left) es \<and> hd es = EvStart k \<and> es \<noteq> []"
proof (induction left arbitrary: k es r)
  case 0
  then show ?case
    by (subst (asm) attempts.simps) (auto simp: disciplined_def Let_def split: sum.splits)
next
  case (Suc n)
  show ?case
  proof (cases "answer (at_result (run k))")
    case (Inr v)
    then show ?thesis using Suc.prems
      by (subst (asm) attempts.simps) (auto simp: disciplined_def)
  next
    case (Inl c)
    let ?e = "normalizeCallError c target (at_signal (run k))"
    let ?w = "[EvStart k, EvFailure k ?e, EvRetry (k + 1), EvSleep (retryDelay policy k)]"
    note d = delay_bounds [OF assms, of k]
    show ?thesis
    proof (cases "isSafeTransient policy ?e \<and> at_sleepSignal (run k) = None")
      case False
      then show ?thesis using Suc.prems Inl d
        by (subst (asm) attempts.simps)
           (auto simp: disciplined_def Let_def isSafeTransient_def transient_guest_error_def
             split: if_splits option.splits)
    next
      case True
      obtain es' r' where a: "attempts n (k + 1) policy target run = (es', r')" by fastforce
      then have es: "es = ?w @ es'" using Suc.prems Inl True
        by (subst (asm) attempts.simps) (simp add: Let_def)
      have ih: "disciplined policy (k + 1) (Suc n) es'" "es' \<noteq> []" "hd es' = EvStart (k + 1)"
        using Suc.IH [OF a] by auto
      let ?m = "length (starts es')"
      have se: "starts es = k # starts es'" by (simp add: es)
      have up: "[k..<k + Suc ?m] = k # [k + 1..<k + 1 + ?m]" by (subst upt_conv_Cons) auto
      have "starts es' = [k + 1..<k + 1 + ?m]" using ih(1) by (simp only: disciplined_def)
      then have st: "starts es = [k..<k + length (starts es)]" using up by (simp only: se list.size add_Suc_right add_0_right)
      have "list_all (transient_guest_error policy) (retried es) \<and> length (sleeps es) = length (retried es) \<and>
          list_all (\<lambda>d. 0 \<le> d \<and> d \<le> rp_maxDelayMs policy) (sleeps es) \<and> length (starts es) \<le> Suc (Suc n) \<and>
          length (starts es) \<le> Suc (length (retried es))"
        using ih(1) d True by (simp add: disciplined_def es isSafeTransient_def transient_guest_error_def)
      then show ?thesis using st by (auto simp: disciplined_def es)
    qed
  qed
qed

lemma normalized_policy:
  assumes "normalizeRetryPolicy v = Inr policy"
  shows "1 \<le> rp_maxAttempts policy" "rp_maxAttempts policy \<le> 10" "rat_is_int (rp_maxAttempts policy)"
    "0 \<le> rp_initialDelayMs policy" "rp_initialDelayMs policy \<le> rp_maxDelayMs policy"
  using assms
  by (auto simp: normalizeRetryPolicy_def Let_def requireInteger_def requireFinite_def
      split: js_num.splits if_splits)

text \<open>
  C12: Bounded, opt-in retries.  With any accepted retry policy a call makes at most the policy's number of
  attempts, itself at most ten, numbered consecutively from one; and a single one unless the caller
  allowed retries and the verified manifest declares the operation safe to repeat.  An attempt is repeated only
  after an error of the guest that is marked retryable and whose code the policy lists as transient (never
  a deadline or a cancellation), and the waits in between lie between zero and the policy's maximum.
\<close>

theorem invoke_retries:
  assumes "normalizeRetryPolicy v = Inr policy"
  shows "case invoke policy timeout gid operation payload opts env of ((es, r), n) \<Rightarrow>
    nat \<lfloor>rp_maxAttempts policy\<rfloor> \<le> 10 \<and>
    disciplined policy 1
      (if retry_allowed opts operation env then nat \<lfloor>rp_maxAttempts policy\<rfloor> else 1) es"
proof -
  note p = normalized_policy [OF assms]
  have ten: "nat \<lfloor>rp_maxAttempts policy\<rfloor> \<le> 10" and pos: "1 \<le> nat \<lfloor>rp_maxAttempts policy\<rfloor>"
    using p(1,2) by linarith+
  let ?l = "if retry_allowed opts operation env then nat \<lfloor>rp_maxAttempts policy\<rfloor> else 1"
  have nil: "disciplined policy k l []" for k l by (simp add: disciplined_def)
  have loop: "disciplined policy 1 ?l
      (fst (attempts (attempt_limit policy (co_allowRetry opts) c - 1) 1 policy t run))"
    if "ce_load env = Inr m" "map_of (bm_operations m) operation = Some c" for m c t run
  proof -
    have "Suc (attempt_limit policy (co_allowRetry opts) c - 1) = ?l"
      using that pos by (auto simp: attempt_limit_def retry_allowed_def)
    then show ?thesis
      using attempts_disciplined [OF p(4,5)] by (metis prod.collapse)
  qed
  have body: "disciplined policy 1 ?l (fst (call_body policy rid operation payload opts deadline env))"
    for rid deadline
    using loop by (auto simp: call_body_def nil split: option.splits sum.splits)
  show ?thesis
    using ten body by (auto simp: invoke_def nil split: sum.splits prod.splits) (metis fst_conv)+
qed

text \<open>
  Lease discipline.  A component call that gets no lease releases none; otherwise it releases its lease
  once, and the instance goes back to the pool exactly when the call returns a response: a reply that parses
  as the response to this request, with no abort on the way.  In every other case the instance is discarded.
\<close>

theorem lease_discipline:
  "(case invokeComponent rid run of
      (Inl c, None) \<Rightarrow> (\<exists>e. cr_call run = AcquireFails e \<and> c = RuntimeCause e)
    | (Inl c, Some d) \<Rightarrow> d \<and> (case cr_call run of AcquireFails e \<Rightarrow> False | _ \<Rightarrow> True)
    | (Inr response, None) \<Rightarrow> False
    | (Inr response, Some d) \<Rightarrow> \<not> d \<and> cr_abortBefore run = None \<and> cr_abortAfter run = None \<and>
        (\<exists>json. cr_call run = Dispatched (Replies json) \<and> parseAbiResponse json rid = Inr response))"
  by (auto simp: invokeComponent_def discarded_def
      split: component_call.splits option.splits reply.splits sum.splits)

lemma closed_stays: "life_inv s \<Longrightarrow> rt_state s = Closed \<Longrightarrow> life_step s e t \<Longrightarrow>
   rt_state t = Closed \<and> set (rt_inflight t) \<subseteq> set (rt_inflight s)"
  by (erule life_stepE) (auto simp: life_defs runtime_open_def life_inv_def dest: set_mp [OF set_remove1_subset])

text \<open>
  Closing is final and waits for the work.  Once the runtime is closed it stays closed and takes no call;
  when it closed, no call that was accepted before the close was still in flight; and as long as no call was
  made with invalid time options, the close can finish as soon as the calls and the load have ended.
\<close>

theorem runtime_closes:
  assumes "trace life_step newRuntime es s" "trace life_step s fs t"
  shows "(if rt_state s = Closed then rt_state t = Closed \<and> set (rt_inflight t) \<subseteq> set (rt_inflight s) \<and>
      (\<forall>c. (c, True) \<notin> set (rt_inflight t)) else True) \<and>
    (if rt_closePromise s \<and> rt_inflight s = [] \<and> rt_load s \<noteq> LoadPending \<and>
        rt_activeCalls s = 0 then \<exists>u. life_step s FinishClose u \<and> rt_state u = Closed else True)"
proof -
  have i: "life_inv s" by (rule rt.reachable_inv [OF assms(1)])
  have "rt_state t = Closed \<and> set (rt_inflight t) \<subseteq> set (rt_inflight s)" if "rt_state s = Closed"
    using assms(2) i that
  proof (induction rule: trace.induct)
    case (trace_snoc s es t e u)
    then have "life_inv t" "rt_state t = Closed" by (auto intro: rt.trace_keeps)
    from closed_stays [OF this trace_snoc.hyps(2)] trace_snoc show ?case by auto
  qed simp
  moreover have "rt_state s = Closed \<Longrightarrow> (c, True) \<notin> set (rt_inflight s)" for c
    using i by (auto simp: life_inv_def)
  moreover have "\<not> rt_closeWaits s" if "rt_activeCalls s = 0" using i that by (auto simp: life_inv_def)
  ultimately show ?thesis by (auto simp: finish_step finishClose_def)
qed

lemma leaked_grows: "life_step s e t \<Longrightarrow> rt_leaked s \<le> rt_leaked t"
  by (erule life_stepE) (auto simp: life_defs)

text \<open>
  A call with an invalid timeout or deadline blocks the close for ever.  The count of active calls is
  raised before the options are checked and such a call never lowers it, so after one of them, made while
  the runtime was open, no execution reaches the closed state.
\<close>

theorem invalid_call_blocks_close:
  assumes "trace life_step newRuntime es s" "rt_closePromise s = False"
    and "trace life_step (startInvalidCall s) fs t"
  shows "rt_state t \<noteq> Closed"
proof -
  have i: "life_inv s" by (rule rt.reachable_inv [OF assms(1)])
  then have "life_inv (startInvalidCall s)" using assms(2)
    by (auto simp: life_inv_def startInvalidCall_def)
  then have t: "life_inv t" by (rule rt.trace_keeps [OF assms(3)])
  have "0 < rt_leaked (startInvalidCall s)" using assms(2) by (simp add: startInvalidCall_def)
  with assms(3) have "0 < rt_leaked t"
    by (induction rule: trace.induct) (auto dest: leaked_grows)
  then show ?thesis using t by (auto simp: life_inv_def)
qed

definition negative_timeout :: call_options where
  "negative_timeout = \<lparr> co_timeoutMs = Some (Finite (- 1)), co_deadline = None, co_target = None,
     co_requestId = None, co_cancellationToken = None, co_requiredCapabilities = None, co_allowRetry = False \<rparr>"

definition sample_manifest :: bundle_manifest where
  "sample_manifest = \<lparr> bm_schema = [], bm_abi = [], bm_componentVersion = [], bm_witPackage = [],
     bm_source = \<lparr> ar_path = [], ar_sha256 = [] \<rparr>, bm_glue = \<lparr> ar_path = [], ar_sha256 = [] \<rparr>,
     bm_coreModules = [], bm_capabilities = [],
     bm_operations = [(js ''crypto.sha256'', \<lparr> oc_capability = [], oc_retrySafe = True,
       oc_securitySensitive = False, oc_nativeAdapters = Some [js ''native''] \<rparr>)] \<rparr>"

text \<open>A native target that fails once with a transient guest error and then answers.\<close>

definition sample_env :: call_env where
  "sample_env = \<lparr> ce_state = Ready, ce_now = 0, ce_callerAborted = False, ce_shutdown = False,
     ce_load = Inr sample_manifest, ce_loadSignal = None, ce_registry = sample_registry,
     ce_component = (\<lambda>_. \<lparr> cr_call = DispatchThrows, cr_abortBefore = None, cr_abortAfter = None,
       cr_closeFails = False \<rparr>),
     ce_adapter = (\<lambda>k. \<lparr> xr_reply = (if k = 1
         then AdapterRejects (RuntimeCause (guest_error (js ''busy'') [] (Some True) None))
         else AdapterReplies (JObj [(js ''abi'', JStr GOFORGE_ABI_V1), (js ''id'', JStr (js ''r'')),
           (js ''ok'', JBool True), (js ''result'', JNull)])), xr_abort = None \<rparr>),
     ce_signal = (\<lambda>_. None), ce_sleepSignal = (\<lambda>_. None) \<rparr>"

theorem invalid_call_blocks_close_witness:
  "snd (invoke defaultRetryPolicy None [] [] JNull negative_timeout sample_env) = 1 \<and>
   rt_state (closeRuntime (startInvalidCall newRuntime)) \<noteq> Closed"
proof -
  have "life_step (startInvalidCall newRuntime) CloseRuntime (closeRuntime (startInvalidCall newRuntime))"
    by (rule life_step.intros)
  then have "trace life_step (startInvalidCall newRuntime) [CloseRuntime]
      (closeRuntime (startInvalidCall newRuntime))"
    by (rule trace_single)
  then have "rt_state (closeRuntime (startInvalidCall newRuntime)) \<noteq> Closed"
    by (rule invalid_call_blocks_close [OF trace_Nil, rotated]) (simp add: newRuntime_def)
  moreover have "snd (invoke defaultRetryPolicy None [] [] JNull negative_timeout sample_env) = 1"
    by code_simp
  ultimately show ?thesis by blast
qed

theorem runtime_closes_witness:
  "rt_state (finishClose (closeRuntime newRuntime)) = Closed \<and>
   (\<exists>u. life_step (closeRuntime newRuntime) FinishClose u \<and> rt_state u = Closed)"
proof -
  have "life_step newRuntime CloseRuntime (closeRuntime newRuntime)" by (rule life_step.intros)
  then have t: "trace life_step newRuntime [CloseRuntime] (closeRuntime newRuntime)" by (rule trace_single)
  show ?thesis
    using runtime_closes [OF t trace_Nil] by (simp add: closeRuntime_def newRuntime_def finishClose_def)
qed

definition transient_policy :: retry_policy where
  "transient_policy = defaultRetryPolicy \<lparr> rp_transientCodes := [js ''busy''] \<rparr>"

definition retry_options :: call_options where
  "retry_options = negative_timeout \<lparr> co_timeoutMs := None, co_requestId := Some (js ''r''),
     co_target := Some (NativeTarget (js ''native'')), co_allowRetry := True \<rparr>"

definition sample_call :: "loop_event list" where
  "sample_call = fst (fst (invoke transient_policy None [] (js ''crypto.sha256'') JNull retry_options sample_env))"

theorem invoke_retries_witness:
  "starts sample_call = [1, 2] \<and> disciplined transient_policy 1 2 sample_call"
proof -
  have p: "normalizeRetryPolicy (Some \<lparr> pp_maxAttempts = None, pp_initialDelayMs = None,
      pp_maxDelayMs = None, pp_transientCodes = Some [js ''busy''] \<rparr>) = Inr transient_policy"
    by code_simp
  have "retry_allowed retry_options (js ''crypto.sha256'') sample_env"
    by (simp add: retry_allowed_def retry_options_def sample_env_def sample_manifest_def)
  moreover have "nat \<lfloor>rp_maxAttempts transient_policy\<rfloor> = 2" by code_simp
  ultimately have "disciplined transient_policy 1 2 sample_call"
    using invoke_retries [OF p, where timeout = None and gid = "[]" and operation = "js ''crypto.sha256''"
        and payload = JNull and opts = retry_options and env = sample_env]
    by (simp add: sample_call_def split: prod.splits)
  moreover have "starts sample_call = [1, 2]" by code_simp
  ultimately show ?thesis by blast
qed

end
