(* ===== verification/Lease_Spec.thy ===== *)
theory Lease_Spec
  imports JS_Prelude
begin

text \<open>
  What a pool of reusable resources promises its callers, whatever it does inside: a request gets a resource
  that nobody else holds, at most \<open>ls_cap\<close> resources are held at once, a request is answered once, and only
  the holder gives a resource back.  The instance pool of the WASM runtime and the PKCS#11 session pool both
  implement it.
\<close>

record lease_state =
  ls_cap :: nat
  ls_granted :: "(nat \<times> nat) list"
  ls_returned :: "nat list"

definition lease_start :: "nat \<Rightarrow> lease_state" where
  "lease_start c = \<lparr> ls_cap = c, ls_granted = [], ls_returned = [] \<rparr>"

definition held_after :: "nat list \<Rightarrow> (nat \<times> nat) list \<Rightarrow> (nat \<times> nat) list" where
  "held_after returned = filter (\<lambda>(w, r). w \<notin> set returned)"

definition held :: "lease_state \<Rightarrow> (nat \<times> nat) list" where
  "held s = held_after (ls_returned s) (ls_granted s)"

datatype lease_event = Lease nat nat | Return nat

inductive lease_step :: "lease_state \<Rightarrow> lease_event \<Rightarrow> lease_state \<Rightarrow> bool" where
  lease: "w \<notin> set (map fst (ls_granted s)) \<Longrightarrow> w \<notin> set (ls_returned s) \<Longrightarrow> r \<notin> set (map snd (held s)) \<Longrightarrow>
    length (held s) < ls_cap s \<Longrightarrow>
    lease_step s (Lease w r) (s\<lparr>ls_granted := ls_granted s @ [(w, r)]\<rparr>)"
| return: "w \<in> set (map fst (held s)) \<Longrightarrow> lease_step s (Return w) (s\<lparr>ls_returned := w # ls_returned s\<rparr>)"

inductive_cases lease_stepE: "lease_step s e t"

definition lease_inv :: "lease_state \<Rightarrow> bool" where
  "lease_inv s \<longleftrightarrow> distinct (map fst (ls_granted s)) \<and> distinct (map snd (held s)) \<and> length (held s) \<le> ls_cap s"

section \<open>Facts about held resources\<close>

lemma held_simps [simp]:
  "held_after rel [] = []"
  "held_after rel (xs @ ys) = held_after rel xs @ held_after rel ys"
  "held_after [] xs = xs"
  by (simp_all add: held_after_def case_prod_unfold)

lemma held_single: "held_after rel [(w, r)] = (if w \<in> set rel then [] else [(w, r)])"
  by (simp add: held_after_def)

lemma held_fresh: "set rel \<inter> set (map fst xs) = {} \<Longrightarrow> held_after rel xs = xs"
  by (force simp: held_after_def filter_id_conv)

lemma held_return: "held_after (w # rel) xs = filter (\<lambda>(v, r). v \<noteq> w) (held_after rel xs)"
  by (auto simp: held_after_def intro: filter_cong)

lemma distinct_snd_filter: "distinct (map snd xs) \<Longrightarrow> distinct (map snd (filter P xs))"
  by (induction xs) auto

lemma lease_inv_step:
  assumes i: "lease_inv s" and step: "lease_step s e t"
  shows "lease_inv t"
  using step
proof cases
  case (lease w r)
  then show ?thesis using i by (auto simp: lease_inv_def held_def held_single)
next
  case (return w)
  have h: "held t = filter (\<lambda>(v, r). v \<noteq> w) (held s)" by (simp add: held_def return(2) held_return)
  have "length (held t) \<le> length (held s)" unfolding h by (rule length_filter_le)
  moreover have "distinct (map snd (held t))" using i unfolding h by (simp add: distinct_snd_filter lease_inv_def)
  ultimately show ?thesis using i by (auto simp: lease_inv_def return(2))
qed

lemma lease_inv_start: "lease_inv (lease_start c)"
  by (simp add: lease_inv_def lease_start_def held_def)

interpretation lease: event_system lease_step "lease_start c" lease_inv
  by unfold_locales (auto intro: lease_inv_step lease_inv_start)

lemma lease_cap_step: "lease_step s e t \<Longrightarrow> ls_cap t = ls_cap s"
  by (erule lease_stepE) simp_all

lemma lease_cap_trace: "trace lease_step s es t \<Longrightarrow> ls_cap t = ls_cap s"
  by (induction rule: trace.induct) (simp_all add: lease_cap_step)

lemma lease_safe:
  assumes "trace lease_step (lease_start c) es s"
  shows "distinct (map fst (ls_granted s)) \<and> distinct (map snd (held s)) \<and> length (held s) \<le> c"
  using lease.reachable_inv [OF assms] lease_cap_trace [OF assms] by (simp add: lease_inv_def lease_start_def)

text \<open>Granting several requests one after the other: what the final state allows, every prefix allows.\<close>

lemma lease_many:
  assumes "distinct (map fst (ls_granted s @ gs))" "set (map fst gs) \<inter> set (ls_returned s) = {}"
    and "distinct (map snd (held s @ gs))" "length (held s) + length gs \<le> ls_cap s"
  shows "\<exists>es. trace lease_step s es (s\<lparr>ls_granted := ls_granted s @ gs\<rparr>)"
  using assms
proof (induction gs rule: rev_induct)
  case Nil
  then show ?case using trace_Nil [of lease_step s] by auto
next
  case (snoc g gs)
  obtain w r where g: "g = (w, r)" by fastforce
  let ?t = "s\<lparr>ls_granted := ls_granted s @ gs\<rparr>"
  have "\<exists>es. trace lease_step s es ?t" using snoc by auto
  then obtain es where es: "trace lease_step s es ?t" by blast
  have h: "held ?t = held s @ gs"
    using snoc.prems(2) by (simp add: held_def) (rule held_fresh, auto)
  have "lease_step ?t (Lease w r) (?t\<lparr>ls_granted := ls_granted ?t @ [(w, r)]\<rparr>)"
    by (rule lease_step.lease) (use snoc.prems g h in auto)
  then show ?case using trace_snoc [OF es] g by fastforce
qed


text \<open>
  How a component shows that it implements the specification: between two of its states it gave back at most
  one resource and then granted some, and both states are within the specification.
\<close>

lemma lease_grants:
  assumes "lease_inv s" "lease_inv t" "ls_cap t = ls_cap s" "ls_granted t = ls_granted s @ gs"
    and "ls_returned t = ls_returned s" "set (map fst gs) \<inter> set (ls_returned s) = {}"
  shows "\<exists>es. trace lease_step s es t"
proof -
  have t: "t = s\<lparr>ls_granted := ls_granted s @ gs\<rparr>" using assms(3-5) by (cases s; cases t) simp
  have d: "distinct (map fst (ls_granted s @ gs))" using assms(2,4) by (simp add: lease_inv_def)
  moreover note n = assms(6)
  moreover have "held t = held s @ gs"
    using n by (simp add: held_def t) (rule held_fresh, auto)
  then have "distinct (map snd (held s @ gs))" "length (held s) + length gs \<le> ls_cap s"
    using assms(2,3) by (simp_all add: lease_inv_def)
  ultimately show ?thesis unfolding t by (rule lease_many)
qed

lemma lease_refines:
  assumes "lease_inv s" "lease_inv t" "ls_cap t = ls_cap s" "ls_granted t = ls_granted s @ gs"
    and "ls_returned t = ls_returned s \<or> (\<exists>w \<in> set (map fst (held s)). ls_returned t = w # ls_returned s)"
    and "set (map fst gs) \<inter> set (ls_returned s) = {}"
  shows "\<exists>es. trace lease_step s es t"
  using assms(5)
proof
  assume "ls_returned t = ls_returned s"
  then show ?thesis by (rule lease_grants [OF assms(1-4) _ assms(6)])
next
  assume "\<exists>w \<in> set (map fst (held s)). ls_returned t = w # ls_returned s"
  then obtain w where w: "w \<in> set (map fst (held s))" "ls_returned t = w # ls_returned s" by blast
  let ?r = "s\<lparr>ls_returned := w # ls_returned s\<rparr>"
  have "w \<in> set (map fst (ls_granted s))" using w(1) by (auto simp: held_def held_after_def)
  then have g: "w \<notin> set (map fst gs)" using assms(2,4) by (auto simp: lease_inv_def)
  have r: "lease_step s (Return w) ?r" by (rule lease_step.return [OF w(1)])
  then have "\<exists>es. trace lease_step ?r es t"
    by (intro lease_grants [OF lease_inv_step [OF assms(1)] assms(2)]) (use assms(3,4,6) w g in auto)
  then show ?thesis using r by (blast intro: trace_Cons)
qed

end
