(* ===== verification/Wasm_Pool_Refinement.thy ===== *)
theory Wasm_Pool_Refinement
  imports Wasm_Pool Lease_Spec
begin

text \<open>The instance pool of the WASM runtime implements the lease specification, as the session pool does.\<close>

section \<open>Abstraction\<close>

fun grants_of :: "(nat \<times> outcome) list \<Rightarrow> (nat \<times> nat) list" where
  "grants_of [] = []"
| "grants_of ((w, Granted i) # os) = (w, i) # grants_of os"
| "grants_of ((w, Refused e) # os) = grants_of os"

definition pool_abs :: "pool \<Rightarrow> lease_state" where
  "pool_abs p = \<lparr> ls_cap = po_max p, ls_granted = grants_of (po_outcomes p), ls_returned = po_released p \<rparr>"

lemma pool_abs_simps [simp]:
  "ls_cap (pool_abs p) = po_max p" "ls_granted (pool_abs p) = grants_of (po_outcomes p)"
  "ls_returned (pool_abs p) = po_released p"
  by (simp_all add: pool_abs_def)

lemma grants_append [simp]: "grants_of (os @ os') = grants_of os @ grants_of os'"
  by (induction os rule: grants_of.induct) simp_all

lemma grants_fst: "set (map fst (grants_of os)) \<subseteq> set (map fst os)"
  by (induction os rule: grants_of.induct) auto

lemma grants_distinct: "distinct (map fst os) \<Longrightarrow> distinct (map fst (grants_of os))"
  using grants_fst by (induction os rule: grants_of.induct) force+

lemma grants_member: "map_of os w = Some (Granted i) \<Longrightarrow> w \<in> set (map fst (grants_of os))"
  by (induction os rule: grants_of.induct) (auto split: if_splits)

lemma live_held: "live_ids rel os = map snd (held_after rel (grants_of os))"
  by (induction rel os rule: live_ids.induct) (auto simp: held_after_def)

lemma held_pool: "map snd (held (pool_abs p)) = leased p"
  by (simp add: held_def leased_def live_held)

lemma pool_abs_inv: "pool_inv p \<Longrightarrow> lease_inv (pool_abs p)"
proof -
  assume "pool_inv p"
  then have c: "pool_core p" by (simp add: pool_inv_def)
  then have l: "distinct (leased p)" "set (leased p) = set (busy_ids (po_entries p))" "distinct (map fst (po_outcomes p))"
    "length (po_entries p) \<le> po_max p"
    by (auto simp: pool_core_def pool_leases_def)
  have "card (set (busy_ids (po_entries p))) \<le> length (busy_ids (po_entries p))" by (rule card_length)
  also have "\<dots> \<le> length (po_entries p)" by (simp add: busy_ids_def)
  finally have "length (leased p) \<le> po_max p" using l by (simp add: distinct_card [symmetric])
  then have "length (map snd (held (pool_abs p))) \<le> po_max p" unfolding held_pool .
  then have "length (held (pool_abs p)) \<le> po_max p" by simp
  then show ?thesis using l grants_distinct unfolding lease_inv_def held_pool by simp
qed

section \<open>The outcomes only grow\<close>

definition grows :: "pool \<Rightarrow> pool \<Rightarrow> bool" where
  "grows p q \<longleftrightarrow> (\<exists>os. po_outcomes q = po_outcomes p @ os) \<and> po_released q = po_released p"

lemma grows_refl [intro]: "po_outcomes q = po_outcomes p \<Longrightarrow> po_released q = po_released p \<Longrightarrow> grows p q"
  by (simp add: grows_def)

lemma grows_trans: "grows p q \<Longrightarrow> grows q r \<Longrightarrow> grows p r"
  by (auto simp: grows_def)

lemma grows_settle [intro]: "grows p (settle_waiter w r (p\<lparr>po_waiters := ws\<rparr>))"
  by (simp add: grows_def settle_waiter_def)

lemma grows_finish [simp]: "grows p (maybeFinishClose p)"
  by (auto simp: maybeFinishClose_def)

lemma grows_pump_loop: "grows p (pump_loop p)"
proof (induction p rule: pump_loop.induct)
  case (1 p)
  show ?case
  proof (cases "po_waiters p")
    case Nil
    then show ?thesis by (subst pump_loop.simps) auto
  next
    case (Cons w ws)
    show ?thesis
    proof (cases "find (\<lambda>e. \<not> pe_busy e) (po_entries p)")
      case None
      have s: "grows p (startCreate p)" by (auto simp: startCreate_def)
      show ?thesis
        using "1.IH"(1) [OF Cons None] grows_trans [OF s] Cons None
        by (subst pump_loop.simps) auto
    next
      case (Some e)
      show ?thesis
      proof (cases "map_of (po_aborted p) (wt_signal w)")
        case None
        have "grows p (grant w e (p\<lparr>po_waiters := ws\<rparr>))" by (simp add: grant_def grows_def settle_waiter_def)
        then show ?thesis using "1.IH"(2) [OF Cons Some None] grows_trans Cons Some None
          by (subst pump_loop.simps) auto
      next
        case (Some r)
        then show ?thesis using "1.IH"(3) [OF Cons \<open>find _ _ = Some e\<close> Some] grows_trans grows_settle Cons \<open>find _ _ = Some e\<close>
          by (subst pump_loop.simps) auto
      qed
    qed
  qed
qed

lemma grows_pump [simp]: "grows p (pump p)"
  by (simp add: pump_def grows_pump_loop)


lemma grows_via: "po_outcomes q = po_outcomes p \<Longrightarrow> po_released q = po_released p \<Longrightarrow> grows q r \<Longrightarrow> grows p r"
  by (simp add: grows_def)

lemma grows_onAbort: "grows p (onAbort r w p)"
  using grows_trans [OF grows_settle [of p "wt_id w" "Refused (abort_error r)" "remove1 w (po_waiters p)"] grows_pump]
  by (auto simp: onAbort_def)

lemma grows_fold: "grows p (fold (onAbort r) ws p)"
proof (induction ws arbitrary: p)
  case (Cons w ws)
  then show ?case using grows_trans [OF grows_onAbort [of p r w]] by simp
qed auto

lemma grows_pump_via: "po_outcomes q = po_outcomes p \<Longrightarrow> po_released q = po_released p \<Longrightarrow> grows p (pump q)"
  by (rule grows_via [OF _ _ grows_pump])

lemma grows_finish_via: "grows p q \<Longrightarrow> grows p (maybeFinishClose q)"
  by (rule grows_trans [OF _ grows_finish])

lemma grows_refused: "grows p (settle_waiter w r p)"
  by (simp add: grows_def settle_waiter_def)

lemma grows_acquire: "grows p (acquire w s p)"
  unfolding acquire_def by (auto intro: grows_pump_via grows_refused split: option.split)

lemma grows_createFailed: "grows p (createFailed i c p)"
proof -
  let ?q = "p\<lparr>po_creating := remove1 i (po_creating p)\<rparr>"
  have "grows p (case po_waiters ?q of [] \<Rightarrow> ?q | w # ws \<Rightarrow> settle_waiter (wt_id w) (Refused e) (?q\<lparr>po_waiters := ws\<rparr>))" for e
    by (auto simp: grows_def settle_waiter_def split: list.split)
  then show ?thesis unfolding createFailed_def Let_def
    by (intro grows_finish_via grows_trans [OF _ grows_pump])
qed

lemma pool_log_step:
  assumes "pool_step p e q"
  shows "(\<exists>os. po_outcomes q = po_outcomes p @ os) \<and>
    (po_released q = po_released p \<or>
     (\<exists>w \<in> set (map fst (held (pool_abs p))). po_released q = w # po_released p))"
proof -
  have "grows p q \<Longrightarrow> ?thesis" by (simp add: grows_def)
  moreover have ?thesis if q: "q = leaseRelease w d p" for w d
  proof (cases "w \<notin> set (po_released p) \<and> (\<exists>i. map_of (po_outcomes p) w = Some (Granted i))")
    case True
    then obtain i where i: "w \<notin> set (po_released p)" "map_of (po_outcomes p) w = Some (Granted i)" by blast
    let ?p = "p\<lparr>po_released := w # po_released p\<rparr>"
    have "grows ?p (poolRelease i d ?p)" by (auto simp: poolRelease_def intro: grows_pump_via)
    moreover have "w \<in> set (map fst (held (pool_abs p)))"
      using grants_member [OF i(2)] i(1) by (force simp: held_def held_after_def)
    ultimately show ?thesis using i q by (auto simp: grows_def leaseRelease_def)
  next
    case False
    then show ?thesis using q by (auto simp: leaseRelease_def split: option.splits outcome.splits)
  qed
  moreover have "grows p q \<or> (\<exists>w d. q = leaseRelease w d p)"
    using assms
  proof cases
    case (3 s r)
    have "grows p (fold (onAbort r) ws (p\<lparr>po_aborted := x\<rparr>))" for ws x
      by (rule grows_via [OF _ _ grows_fold]) simp_all
    then show ?thesis using 3 by (auto simp: abortSignal_def)
  next
    case (5 i ok)
    have "grows p (closeSettled i ok p)"
      unfolding closeSettled_def by (rule grows_finish_via, rule grows_pump_via) simp_all
    then show ?thesis using 5 by blast
  next
    case (6 i)
    then show ?thesis by (auto simp: createDone_def Let_def intro: grows_pump_via)
  next
    case (8 i ok)
    then show ?thesis by (auto simp: lateClosed_def intro: grows_finish_via)
  next
    case 9
    then show ?thesis by (auto simp: closePool_def grows_def intro: grows_finish_via)
  next
    case (10 n)
    then show ?thesis by (auto simp: finalized_def)
  qed (auto intro: grows_acquire grows_createFailed)
  ultimately show ?thesis by blast
qed

interpretation pool_sim: simulation pool_step "newPool m" pool_inv lease_step pool_abs
proof
  fix p e q
  assume i: "pool_inv p" and s: "pool_step p e q"
  obtain os where os: "po_outcomes q = po_outcomes p @ os" using pool_log_step [OF s] by blast
  have q: "pool_inv q" by (rule pool_step_inv [OF i s])
  show "\<exists>fs. trace lease_step (pool_abs p) fs (pool_abs q)"
  proof (rule lease_refines [where gs = "grants_of os"])
    have "distinct (map fst (po_outcomes q))" "set (po_released p) \<subseteq> set (map fst (po_outcomes p))"
      using q i by (auto simp: pool_inv_def pool_core_def pool_leases_def)
    then show "set (map fst (grants_of os)) \<inter> set (ls_returned (pool_abs p)) = {}"
      using grants_fst [of os] os by auto
  qed (use pool_abs_inv [OF i] pool_abs_inv [OF q] os pool_log_step [OF s] pool_step_max [OF s] in auto)
qed

section \<open>Properties\<close>

text \<open>
  C18: The instance pool refines the lease specification.  Every execution corresponds to one of the
  specification with the same grants and releases, in the same order: an instance is leased to one request at a
  time, at most the pool size are leased, and every request is granted at most once.
\<close>

theorem pool_refines_leases:
  assumes "trace pool_step (newPool m) es p"
  shows "(\<exists>fs. trace lease_step (lease_start m) fs (pool_abs p)) \<and>
    map snd (held (pool_abs p)) = leased p \<and> distinct (leased p) \<and> length (leased p) \<le> m \<and>
    distinct (map fst (grants_of (po_outcomes p)))"
proof -
  have "pool_abs (newPool m) = lease_start m" by (simp add: pool_abs_def newPool_def lease_start_def)
  then obtain fs where fs: "trace lease_step (lease_start m) fs (pool_abs p)"
    using pool_sim.reachable_refines [OF assms] by auto
  have "length (map snd (held (pool_abs p))) \<le> m" using lease_safe [OF fs] by simp
  then show ?thesis using fs lease_safe [OF fs] by (auto simp: held_pool)
qed

theorem pool_refines_leases_witness: "leased run3 = [1] \<and> length (leased run3) \<le> 1"
proof -
  have "leased run3 = [1]" by code_simp
  then show ?thesis using pool_refines_leases [OF run_trace] by simp
qed

end
