(* ===== verification/Utf_Lossy.thy ===== *)
theory Utf_Lossy
  imports Utf
begin

text \<open>
  The default (not fatal) \<^verbatim>\<open>TextDecoder\<close>: every maximal ill-formed part becomes U+FFFD and
  a leading byte-order mark is dropped.  Well-formed UTF-16 text without one survives encoding and
  decoding.
\<close>

text \<open>How many bytes of an ill-formed head are replaced together.\<close>

definition bad_length :: "bytes \<Rightarrow> nat" where
  "bad_length bs =
     (case bs of
        b0 # b1 # r \<Rightarrow>
          (let a = uint b0
           in if 0xE0 \<le> a \<and> a \<le> 0xEF \<and>
                 cont (if a = 0xE0 then 0xA0 else 0x80) (if a = 0xED then 0x9F else 0xBF) b1 then 2
              else if 0xF0 \<le> a \<and> a \<le> 0xF4 \<and>
                 cont (if a = 0xF0 then 0x90 else 0x80) (if a = 0xF4 then 0x8F else 0xBF) b1 then
                (case r of b2 # _ \<Rightarrow> if cont 0x80 0xBF b2 then 3 else 2 | [] \<Rightarrow> 2)
              else 1)
      | _ \<Rightarrow> 1)"

lemma bad_length_pos: "0 < bad_length bs"
  by (auto simp: bad_length_def Let_def split: list.splits)

function lossy_points :: "bytes \<Rightarrow> int list" where
  "lossy_points bs =
     (if bs = [] then []
      else (case take_point bs of
              Some (p, r) \<Rightarrow> p # lossy_points r
            | None \<Rightarrow> 0xFFFD # lossy_points (drop (bad_length bs) bs)))"
  by auto
termination
  by (relation "measure length") (auto dest: take_point_shorter simp: bad_length_pos)

declare lossy_points.simps [simp del]

text \<open>\<^verbatim>\<open>new TextDecoder().decode(bytes)\<close>.\<close>

definition utf8_decode :: "bytes \<Rightarrow> jstr" where
  "utf8_decode bs = concat (map utf16_point (lossy_points (strip_bom bs)))"

section \<open>Round trip\<close>

text \<open>No lone surrogates.\<close>

fun well_formed :: "jstr \<Rightarrow> bool" where
  "well_formed [] = True"
| "well_formed [c] = (\<not> is_surrogate c)"
| "well_formed (c # d # s) =
     (if is_high c \<and> is_low d then well_formed s else \<not> is_surrogate c \<and> well_formed (d # s))"

lemma lossy_points_encode:
  "list_all scalar ps \<Longrightarrow> lossy_points (concat (map utf8_point ps)) = ps"
proof (induction ps)
  case (Cons p ps)
  have "utf8_point p \<noteq> []" by (simp add: utf8_point_def)
  then show ?case
    using Cons by (subst lossy_points.simps) (simp add: take_utf8_point)
qed (simp add: lossy_points.simps)

lemma uint16: "uint (c :: 16 word) < 65536" "0 \<le> uint c"
  using uint_lt2p [of c] by simp_all

lemma surrogate_iff: "is_surrogate c \<longleftrightarrow> 0xD800 \<le> uint c \<and> uint c \<le> 0xDFFF"
  by (auto simp: is_surrogate_def is_high_def is_low_def word_le_def)

lemma unit_point: "\<not> is_surrogate c \<Longrightarrow> utf16_point (uint c) = [c] \<and> scalar (uint c)"
  using uint16 [of c] by (auto simp: utf16_point_def scalar_def surrogate_iff)

lemma split_1024: "0 \<le> b \<Longrightarrow> b < 1024 \<Longrightarrow> (a * 1024 + b) div 1024 = a \<and> (a * 1024 + b) mod 1024 = (b :: int)"
  by simp

lemma pair_point:
  assumes "is_high c" "is_low d"
  defines "p \<equiv> 0x10000 + (uint c - 0xD800) * 0x400 + (uint d - 0xDC00)"
  shows "utf16_point p = [c, d] \<and> scalar p"
proof -
  have c: "0xD800 \<le> uint c" "uint c \<le> 0xDBFF" and d: "0xDC00 \<le> uint d" "uint d \<le> 0xDFFF"
    using assms by (auto simp: is_high_def is_low_def word_le_def)
  have "(p - 0x10000) div 0x400 = uint c - 0xD800" "(p - 0x10000) mod 0x400 = uint d - 0xDC00"
    using split_1024 [of "uint d - 0xDC00" "uint c - 0xD800"] d unfolding p_def
    by (simp_all only: add_diff_cancel_left' add.assoc)
  moreover have "0x10000 \<le> p" "p \<le> 0x10FFFF" unfolding p_def using c d by simp_all
  ultimately show ?thesis by (auto simp: utf16_point_def scalar_def)
qed

lemma code_points_utf16:
  "well_formed s \<Longrightarrow> concat (map utf16_point (code_points s)) = s \<and> list_all scalar (code_points s)"
proof (induction s rule: code_points.induct)
  case (2 c)
  then show ?case using unit_point [of c] by simp
next
  case (3 c d s)
  then show ?case using unit_point [of c] pair_point [of c d] by (auto split: if_splits)
qed simp

lemma utf8_point_bom: "scalar p \<Longrightarrow> take 3 (utf8_point p @ r) = [0xEF, 0xBB, 0xBF] \<Longrightarrow> p = 0xFEFF"
proof -
  assume s: "scalar p" and t: "take 3 (utf8_point p @ r) = [0xEF, 0xBB, 0xBF]"
  then have "utf8_point p @ r = 0xEF # 0xBB # 0xBF # drop 3 (utf8_point p @ r)"
    by (metis append_Cons append_Nil append_take_drop_id)
  then have "take_point (utf8_point p @ r) = Some (0xFEFF, drop 3 (utf8_point p @ r))"
    by (simp add: take_point_def cont_def)
  then show ?thesis using take_utf8_point [OF s, of r] by simp
qed

lemma code_points_head:
  "well_formed (c # s) \<Longrightarrow> c \<noteq> 0xFEFF \<Longrightarrow> \<exists>p ps. code_points (c # s) = p # ps \<and> p \<noteq> 0xFEFF"
proof (cases s)
  case Nil
  assume "c \<noteq> 0xFEFF"
  then have "uint c \<noteq> 0xFEFF" by (metis word_of_int_uint word_of_int_numeral)
  then show ?thesis using Nil by simp
next
  case (Cons d t)
  assume w: "well_formed (c # s)" and n: "c \<noteq> 0xFEFF"
  have u: "uint c \<noteq> 0xFEFF" using n by (metis word_of_int_uint word_of_int_numeral)
  have "0xD800 \<le> uint c" "0xDC00 \<le> uint d" if "is_high c" "is_low d"
    using that by (auto simp: is_high_def is_low_def word_le_def)
  then show ?thesis using Cons u w by (auto split: if_splits)
qed

lemma utf8_round_trip:
  assumes w: "well_formed s" and b: "s = [] \<or> hd s \<noteq> 0xFEFF"
  shows "utf8_decode (utf8_encode s) = s"
proof -
  have "strip_bom (utf8_encode s) = utf8_encode s"
  proof (cases s)
    case Nil
    then show ?thesis by (simp add: utf8_encode_def strip_bom_def)
  next
    case (Cons c t)
    then obtain p ps where p: "code_points s = p # ps" "p \<noteq> 0xFEFF"
      using code_points_head [of c t] w b by auto
    then have "scalar p" using code_points_utf16 [OF w] by simp
    then have "take 3 (utf8_encode s) \<noteq> [0xEF, 0xBB, 0xBF]"
      using utf8_point_bom [of p "concat (map utf8_point ps)"] p by (auto simp: utf8_encode_def)
    then show ?thesis by (simp add: strip_bom_def)
  qed
  then show ?thesis
    using code_points_utf16 [OF w] by (simp add: utf8_decode_def utf8_encode_def lossy_points_encode)
qed

end
