(* ===== verification/Pkcs11_Cryptoki.thy ===== *)
theory Pkcs11_Cryptoki
  imports Utf_Lossy
begin

text \<open>
  The Cryptoki constants and the attribute encoding of \<^verbatim>\<open>src/encrypt/pkcs11/cryptoki.ts\<close>.
  A \<^verbatim>\<open>CK_ULONG\<close> attribute holds eight little-endian bytes; the code reads it back as a
  number, exact here.
\<close>

section \<open>Constants\<close>

datatype mechanism =
    CkmRsaPkcsKeyPairGen
  | CkmRsaPkcs
  | CkmRsaPkcsOaep
  | CkmRsaPkcsPss
  | CkmSha256RsaPkcs
  | CkmSha256RsaPkcsPss
  | CkmSha256
  | CkmSha256Hmac
  | CkmGenericSecretKeyGen
  | CkmEcKeyPairGen
  | CkmEcdh1Derive
  | CkmEcEdwardsKeyPairGen
  | CkmEdDsa
  | CkmAesKeyGen
  | CkmAesGcm
  | CkmHkdfDerive

fun mechanism_code :: "mechanism \<Rightarrow> int" where
  "mechanism_code CkmRsaPkcsKeyPairGen = 0x00000000"
| "mechanism_code CkmRsaPkcs = 0x00000001"
| "mechanism_code CkmRsaPkcsOaep = 0x00000009"
| "mechanism_code CkmRsaPkcsPss = 0x0000000d"
| "mechanism_code CkmSha256RsaPkcs = 0x00000040"
| "mechanism_code CkmSha256RsaPkcsPss = 0x00000043"
| "mechanism_code CkmSha256 = 0x00000250"
| "mechanism_code CkmSha256Hmac = 0x00000251"
| "mechanism_code CkmGenericSecretKeyGen = 0x00000350"
| "mechanism_code CkmEcKeyPairGen = 0x00001040"
| "mechanism_code CkmEcdh1Derive = 0x00001050"
| "mechanism_code CkmEcEdwardsKeyPairGen = 0x00001055"
| "mechanism_code CkmEdDsa = 0x00001057"
| "mechanism_code CkmAesKeyGen = 0x00001080"
| "mechanism_code CkmAesGcm = 0x00001087"
| "mechanism_code CkmHkdfDerive = 0x0000402a"

definition MECHANISM_NAMES :: "(int \<times> jstr) list" where
  "MECHANISM_NAMES =
     [(mechanism_code CkmRsaPkcsKeyPairGen, js ''CKM_RSA_PKCS_KEY_PAIR_GEN''),
      (mechanism_code CkmRsaPkcs, js ''CKM_RSA_PKCS''),
      (mechanism_code CkmRsaPkcsOaep, js ''CKM_RSA_PKCS_OAEP''),
      (mechanism_code CkmRsaPkcsPss, js ''CKM_RSA_PKCS_PSS''),
      (mechanism_code CkmSha256RsaPkcs, js ''CKM_SHA256_RSA_PKCS''),
      (mechanism_code CkmSha256RsaPkcsPss, js ''CKM_SHA256_RSA_PKCS_PSS''),
      (mechanism_code CkmSha256, js ''CKM_SHA256''),
      (mechanism_code CkmSha256Hmac, js ''CKM_SHA256_HMAC''),
      (mechanism_code CkmGenericSecretKeyGen, js ''CKM_GENERIC_SECRET_KEY_GEN''),
      (mechanism_code CkmEcKeyPairGen, js ''CKM_EC_KEY_PAIR_GEN''),
      (mechanism_code CkmEcdh1Derive, js ''CKM_ECDH1_DERIVE''),
      (mechanism_code CkmEcEdwardsKeyPairGen, js ''CKM_EC_EDWARDS_KEY_PAIR_GEN''),
      (mechanism_code CkmEdDsa, js ''CKM_EDDSA''),
      (mechanism_code CkmAesKeyGen, js ''CKM_AES_KEY_GEN''),
      (mechanism_code CkmAesGcm, js ''CKM_AES_GCM''),
      (mechanism_code CkmHkdfDerive, js ''CKM_HKDF_DERIVE'')]"

datatype attribute_type =
    CkaClass
  | CkaToken
  | CkaPrivate
  | CkaLabel
  | CkaValue
  | CkaKeyType
  | CkaId
  | CkaSensitive
  | CkaEncrypt
  | CkaDecrypt
  | CkaWrap
  | CkaUnwrap
  | CkaSign
  | CkaVerify
  | CkaDerive
  | CkaModulus
  | CkaModulusBits
  | CkaPublicExponent
  | CkaPrivateExponent
  | CkaValueLen
  | CkaExtractable
  | CkaEcParams
  | CkaEcPoint

fun attribute_type_code :: "attribute_type \<Rightarrow> int" where
  "attribute_type_code CkaClass = 0x00000000"
| "attribute_type_code CkaToken = 0x00000001"
| "attribute_type_code CkaPrivate = 0x00000002"
| "attribute_type_code CkaLabel = 0x00000003"
| "attribute_type_code CkaValue = 0x00000011"
| "attribute_type_code CkaKeyType = 0x00000100"
| "attribute_type_code CkaId = 0x00000102"
| "attribute_type_code CkaSensitive = 0x00000103"
| "attribute_type_code CkaEncrypt = 0x00000104"
| "attribute_type_code CkaDecrypt = 0x00000105"
| "attribute_type_code CkaWrap = 0x00000106"
| "attribute_type_code CkaUnwrap = 0x00000107"
| "attribute_type_code CkaSign = 0x00000108"
| "attribute_type_code CkaVerify = 0x0000010a"
| "attribute_type_code CkaDerive = 0x0000010c"
| "attribute_type_code CkaModulus = 0x00000120"
| "attribute_type_code CkaModulusBits = 0x00000121"
| "attribute_type_code CkaPublicExponent = 0x00000122"
| "attribute_type_code CkaPrivateExponent = 0x00000123"
| "attribute_type_code CkaValueLen = 0x00000161"
| "attribute_type_code CkaExtractable = 0x00000162"
| "attribute_type_code CkaEcParams = 0x00000180"
| "attribute_type_code CkaEcPoint = 0x00000181"

datatype key_type =
    CkkRsa
  | CkkEc
  | CkkGenericSecret
  | CkkAes
  | CkkEcEdwards

fun key_type_code :: "key_type \<Rightarrow> int" where
  "key_type_code CkkRsa = 0x00000000"
| "key_type_code CkkEc = 0x00000003"
| "key_type_code CkkGenericSecret = 0x00000010"
| "key_type_code CkkAes = 0x0000001f"
| "key_type_code CkkEcEdwards = 0x00000040"

datatype return_value =
    CkrOk
  | CkrAttributeSensitive
  | CkrAttributeTypeInvalid
  | CkrArgumentsBad
  | CkrBufferTooSmall
  | CkrCryptokiAlreadyInitialized
  | CkrDeviceRemoved
  | CkrKeyHandleInvalid
  | CkrKeyUnextractable
  | CkrMechanismInvalid
  | CkrMechanismParamInvalid
  | CkrSessionClosed
  | CkrSessionHandleInvalid
  | CkrSignatureInvalid
  | CkrUserAlreadyLoggedIn
  | CkrUserNotLoggedIn

fun return_value_code :: "return_value \<Rightarrow> int" where
  "return_value_code CkrOk = 0x00000000"
| "return_value_code CkrAttributeSensitive = 0x00000011"
| "return_value_code CkrAttributeTypeInvalid = 0x00000012"
| "return_value_code CkrArgumentsBad = 0x00000007"
| "return_value_code CkrBufferTooSmall = 0x00000150"
| "return_value_code CkrCryptokiAlreadyInitialized = 0x00000191"
| "return_value_code CkrDeviceRemoved = 0x00000032"
| "return_value_code CkrKeyHandleInvalid = 0x00000060"
| "return_value_code CkrKeyUnextractable = 0x0000006a"
| "return_value_code CkrMechanismInvalid = 0x00000070"
| "return_value_code CkrMechanismParamInvalid = 0x00000071"
| "return_value_code CkrSessionClosed = 0x000000b0"
| "return_value_code CkrSessionHandleInvalid = 0x000000b3"
| "return_value_code CkrSignatureInvalid = 0x000000c0"
| "return_value_code CkrUserAlreadyLoggedIn = 0x00000100"
| "return_value_code CkrUserNotLoggedIn = 0x00000101"

definition CKR_NAMES :: "(int \<times> jstr) list" where
  "CKR_NAMES =
     [(0x00000001, js ''CKR_CANCEL''),
      (0x00000002, js ''CKR_HOST_MEMORY''),
      (0x00000003, js ''CKR_SLOT_ID_INVALID''),
      (0x00000005, js ''CKR_GENERAL_ERROR''),
      (0x00000006, js ''CKR_FUNCTION_FAILED''),
      (0x00000007, js ''CKR_ARGUMENTS_BAD''),
      (0x00000010, js ''CKR_ATTRIBUTE_READ_ONLY''),
      (0x00000011, js ''CKR_ATTRIBUTE_SENSITIVE''),
      (0x00000012, js ''CKR_ATTRIBUTE_TYPE_INVALID''),
      (0x00000013, js ''CKR_ATTRIBUTE_VALUE_INVALID''),
      (0x00000020, js ''CKR_DATA_INVALID''),
      (0x00000021, js ''CKR_DATA_LEN_RANGE''),
      (0x00000030, js ''CKR_DEVICE_ERROR''),
      (0x00000031, js ''CKR_DEVICE_MEMORY''),
      (0x00000032, js ''CKR_DEVICE_REMOVED''),
      (0x00000040, js ''CKR_ENCRYPTED_DATA_INVALID''),
      (0x00000041, js ''CKR_ENCRYPTED_DATA_LEN_RANGE''),
      (0x00000060, js ''CKR_KEY_HANDLE_INVALID''),
      (0x00000062, js ''CKR_KEY_SIZE_RANGE''),
      (0x00000063, js ''CKR_KEY_TYPE_INCONSISTENT''),
      (0x00000068, js ''CKR_KEY_FUNCTION_NOT_PERMITTED''),
      (0x00000069, js ''CKR_KEY_NOT_WRAPPABLE''),
      (0x0000006a, js ''CKR_KEY_UNEXTRACTABLE''),
      (0x00000070, js ''CKR_MECHANISM_INVALID''),
      (0x00000071, js ''CKR_MECHANISM_PARAM_INVALID''),
      (0x00000082, js ''CKR_OBJECT_HANDLE_INVALID''),
      (0x00000090, js ''CKR_OPERATION_ACTIVE''),
      (0x00000091, js ''CKR_OPERATION_NOT_INITIALIZED''),
      (0x000000a0, js ''CKR_PIN_INCORRECT''),
      (0x000000a1, js ''CKR_PIN_INVALID''),
      (0x000000a2, js ''CKR_PIN_LEN_RANGE''),
      (0x000000a3, js ''CKR_PIN_EXPIRED''),
      (0x000000a4, js ''CKR_PIN_LOCKED''),
      (0x000000b0, js ''CKR_SESSION_CLOSED''),
      (0x000000b1, js ''CKR_SESSION_COUNT''),
      (0x000000b3, js ''CKR_SESSION_HANDLE_INVALID''),
      (0x000000b5, js ''CKR_SESSION_READ_ONLY''),
      (0x000000c0, js ''CKR_SIGNATURE_INVALID''),
      (0x000000c1, js ''CKR_SIGNATURE_LEN_RANGE''),
      (0x000000d0, js ''CKR_TEMPLATE_INCOMPLETE''),
      (0x000000d1, js ''CKR_TEMPLATE_INCONSISTENT''),
      (0x000000e0, js ''CKR_TOKEN_NOT_PRESENT''),
      (0x000000e1, js ''CKR_TOKEN_NOT_RECOGNIZED''),
      (0x000000e2, js ''CKR_TOKEN_WRITE_PROTECTED''),
      (0x00000100, js ''CKR_USER_ALREADY_LOGGED_IN''),
      (0x00000101, js ''CKR_USER_NOT_LOGGED_IN''),
      (0x00000102, js ''CKR_USER_PIN_NOT_INITIALIZED''),
      (0x00000103, js ''CKR_USER_TYPE_INVALID''),
      (0x00000150, js ''CKR_BUFFER_TOO_SMALL''),
      (0x00000190, js ''CKR_CRYPTOKI_NOT_INITIALIZED''),
      (0x00000191, js ''CKR_CRYPTOKI_ALREADY_INITIALIZED'')]"

definition SHA256_DIGEST_INFO_PREFIX :: bytes where
  "SHA256_DIGEST_INFO_PREFIX = [48, 49, 48, 13, 6, 9, 96, 134, 72, 1, 101, 3, 4, 2, 1, 5, 0, 4, 32]"

definition EC_PARAMS :: "(jstr \<times> bytes) list" where
  "EC_PARAMS =
     [(js ''P-256'', [0x06, 0x08, 0x2a, 0x86, 0x48, 0xce, 0x3d, 0x03, 0x01, 0x07]),
      (js ''P-384'', [0x06, 0x05, 0x2b, 0x81, 0x04, 0x00, 0x22]),
      (js ''P-521'', [0x06, 0x05, 0x2b, 0x81, 0x04, 0x00, 0x23]),
      (js ''Ed25519'', [0x06, 0x03, 0x2b, 0x65, 0x70])]"

definition CKG_MGF1_SHA256 :: int where "CKG_MGF1_SHA256 = 2"
definition CKZ_DATA_SPECIFIED :: int where "CKZ_DATA_SPECIFIED = 1"
definition CKD_NULL :: int where "CKD_NULL = 1"
definition CKF_HKDF_SALT_NULL :: int where "CKF_HKDF_SALT_NULL = 1"
definition GCM_NONCE_BYTES :: int where "GCM_NONCE_BYTES = 12"
definition GCM_TAG_BITS :: int where "GCM_TAG_BITS = 128"

section \<open>Names\<close>

definition hex8 :: "int \<Rightarrow> jstr" where
  "hex8 n = (let ds = upper (int_digits 16 n) in replicate (8 - length ds) 48 @ ds)"

definition mechanismName :: "int \<Rightarrow> jstr" where
  "mechanismName v =
     (case map_of MECHANISM_NAMES v of Some n \<Rightarrow> n | None \<Rightarrow> js ''CKM_0x'' @ hex8 v)"

definition returnValueName :: "int \<Rightarrow> jstr" where
  "returnValueName v =
     (case map_of CKR_NAMES v of Some n \<Rightarrow> n | None \<Rightarrow> js ''CKR_0x'' @ hex8 v)"

section \<open>Attributes\<close>

record attribute =
  at_type :: int
  at_value :: bytes
  at_present :: bool

definition boolAttribute :: "int \<Rightarrow> bool \<Rightarrow> attribute" where
  "boolAttribute t b = \<lparr> at_type = t, at_value = [if b then 1 else 0], at_present = True \<rparr>"

fun le_bytes :: "nat \<Rightarrow> int \<Rightarrow> bytes" where
  "le_bytes 0 n = []"
| "le_bytes (Suc k) n = word_of_int (n mod 256) # le_bytes k (n div 256)"

fun le_value :: "bytes \<Rightarrow> int" where
  "le_value [] = 0"
| "le_value (b # bs) = uint b + 256 * le_value bs"

text \<open>\<^verbatim>\<open>setBigUint64\<close> keeps the value modulo 2^64.\<close>

definition ulongAttribute :: "int \<Rightarrow> int \<Rightarrow> attribute" where
  "ulongAttribute t v = \<lparr> at_type = t, at_value = le_bytes 8 v, at_present = True \<rparr>"

definition bytesAttribute :: "int \<Rightarrow> bytes \<Rightarrow> attribute" where
  "bytesAttribute t v = \<lparr> at_type = t, at_value = v, at_present = True \<rparr>"

definition textAttribute :: "int \<Rightarrow> jstr \<Rightarrow> attribute" where
  "textAttribute t v = \<lparr> at_type = t, at_value = utf8_encode v, at_present = True \<rparr>"

definition ulongValue :: "bytes \<Rightarrow> int option" where
  "ulongValue v = (if length v \<noteq> 8 then None else Some (le_value v))"

definition boolValue :: "bytes \<Rightarrow> bool option" where
  "boolValue v = (if length v \<noteq> 1 then None else Some (hd v \<noteq> 0))"

definition findAttribute :: "attribute list \<Rightarrow> int \<Rightarrow> bytes option" where
  "findAttribute as t = map_option at_value (find (\<lambda>a. at_type a = t \<and> at_present a) as)"

definition hasAttribute :: "attribute list \<Rightarrow> int \<Rightarrow> bool" where
  "hasAttribute as t \<longleftrightarrow> findAttribute as t \<noteq> None"

section \<open>Round trips\<close>

lemma le_bytes_length [simp]: "length (le_bytes k n) = k"
  by (induction k arbitrary: n) simp_all

lemma le_round_trip: "le_value (le_bytes k n) = n mod 256 ^ k"
proof (induction k arbitrary: n)
  case (Suc k)
  have "uint (word_of_int (n mod 256) :: 8 word) = n mod 256"
    by (simp add: uint_word_of_int)
  moreover have "n mod 256 + 256 * (n div 256 mod 256 ^ k) = n mod (256 * 256 ^ k)"
    by (simp add: zmod_zmult2_eq)
  ultimately show ?case using Suc by simp
qed simp

lemma ulong_round_trip: "ulongValue (at_value (ulongAttribute t v)) = Some (v mod 2 ^ 64)"
  by (simp add: ulongValue_def ulongAttribute_def le_round_trip del: le_bytes.simps)

lemma bool_round_trip: "boolValue (at_value (boolAttribute t b)) = Some b"
  by (simp add: boolValue_def boolAttribute_def)

end
