(* ===== verification/Pkcs11_Session.thy ===== *)
theory Pkcs11_Session
  imports Pkcs11_Cryptoki Lease_Spec "HOL-Library.Multiset"
begin

text \<open>
  The session pool of a token (\<^verbatim>\<open>SessionPool\<close> in \<^verbatim>\<open>src/encrypt/pkcs11/session.ts\<close>).  Requests and
  session handles are numbers.  An operation that awaits is cut into its synchronous pieces, one event each:
  \<open>sp_opening\<close> holds the requests inside \<^verbatim>\<open>openSession\<close>, \<open>sp_woken\<close> those whose waiting promise is resolved and
  that have not run yet, \<open>sp_closing\<close> the closers, each with the sessions it still has to close.
\<close>

section \<open>State and operations\<close>

record session_pool =
  sp_size :: rat
  sp_open :: int
  sp_idle :: "nat list"
  sp_waiters :: "nat list"
  sp_opening :: "nat list"
  sp_woken :: "nat list"
  sp_closing :: "nat list list"
  sp_aborted :: "nat list"
  sp_granted :: "(nat \<times> nat) list"
  sp_returned :: "nat list"
  sp_refused :: "nat list"

definition newSessionPool :: "rat \<Rightarrow> session_pool" where
  "newSessionPool n =
     \<lparr> sp_size = max n 1, sp_open = 0, sp_idle = [], sp_waiters = [], sp_opening = [], sp_woken = [],
       sp_closing = [], sp_aborted = [], sp_granted = [], sp_returned = [], sp_refused = [] \<rparr>"

text \<open>A failure is what \<^verbatim>\<open>release\<close> looks at: the \<^verbatim>\<open>ckr\<close> property of the thrown value, if it has one.\<close>

definition sessionIsDead :: "jstr option \<Rightarrow> bool" where
  "sessionIsDead ckr \<longleftrightarrow>
     ckr = Some (js ''CKR_SESSION_CLOSED'') \<or> ckr = Some (js ''CKR_SESSION_HANDLE_INVALID'') \<or>
     ckr = Some (js ''CKR_DEVICE_REMOVED'') \<or> ckr = Some (js ''CKR_CRYPTOKI_NOT_INITIALIZED'')"

definition wake :: "session_pool \<Rightarrow> session_pool" where
  "wake p = (case sp_waiters p of [] \<Rightarrow> p | w # ws \<Rightarrow> p\<lparr>sp_waiters := ws, sp_woken := sp_woken p @ [w]\<rparr>)"

definition acquire_turn :: "nat \<Rightarrow> session_pool \<Rightarrow> session_pool" where
  "acquire_turn w p =
     (if sp_idle p \<noteq> [] then
        p\<lparr>sp_idle := butlast (sp_idle p), sp_granted := sp_granted p @ [(w, last (sp_idle p))]\<rparr>
      else if of_int (sp_open p) < sp_size p then
        p\<lparr>sp_open := sp_open p + 1, sp_opening := sp_opening p @ [w]\<rparr>
      else p\<lparr>sp_waiters := sp_waiters p @ [w]\<rparr>)"

definition acquireSession :: "nat \<Rightarrow> session_pool \<Rightarrow> session_pool" where
  "acquireSession w p =
     (if w \<in> set (sp_aborted p) then p\<lparr>sp_refused := sp_refused p @ [w]\<rparr> else acquire_turn w p)"

definition resumeWaiter :: "nat \<Rightarrow> session_pool \<Rightarrow> session_pool" where
  "resumeWaiter w p = acquireSession w (p\<lparr>sp_woken := remove1 w (sp_woken p)\<rparr>)"

definition sessionOpened :: "nat \<Rightarrow> nat \<Rightarrow> session_pool \<Rightarrow> session_pool" where
  "sessionOpened w h p = p\<lparr>sp_opening := remove1 w (sp_opening p), sp_granted := sp_granted p @ [(w, h)]\<rparr>"

definition sessionRefused :: "nat \<Rightarrow> session_pool \<Rightarrow> session_pool" where
  "sessionRefused w p =
     wake (p\<lparr>sp_opening := remove1 w (sp_opening p), sp_open := sp_open p - 1,
             sp_refused := sp_refused p @ [w]\<rparr>)"

definition held_sessions :: "session_pool \<Rightarrow> (nat \<times> nat) list" where
  "held_sessions p = held_after (sp_returned p) (sp_granted p)"

definition releaseSession :: "nat \<Rightarrow> nat \<Rightarrow> jstr option option \<Rightarrow> session_pool \<Rightarrow> session_pool" where
  "releaseSession w h failure p =
     (let q = p\<lparr>sp_returned := w # sp_returned p\<rparr>
      in if (case failure of Some ckr \<Rightarrow> sessionIsDead ckr | None \<Rightarrow> False)
         then q\<lparr>sp_open := sp_open p - 1, sp_closing := sp_closing p @ [[h]]\<rparr>
         else wake (q\<lparr>sp_idle := sp_idle p @ [h]\<rparr>))"

text \<open>The closer of the event closes its next session, successfully or not, and wakes a waiter after the last.\<close>

definition closerStep :: "nat \<Rightarrow> session_pool \<Rightarrow> session_pool" where
  "closerStep k p =
     (case sp_closing p ! k of
        s # t # rest \<Rightarrow> p\<lparr>sp_closing := (sp_closing p)[k := t # rest]\<rparr>
      | _ \<Rightarrow> wake (p\<lparr>sp_closing := take k (sp_closing p) @ drop (Suc k) (sp_closing p)\<rparr>))"

definition drain :: "session_pool \<Rightarrow> session_pool" where
  "drain p =
     (let q = p\<lparr>sp_idle := [], sp_open := sp_open p - int (length (sp_idle p))\<rparr>
      in if sp_idle p = [] then wake q else q\<lparr>sp_closing := sp_closing p @ [sp_idle p]\<rparr>)"

definition abortRequest :: "nat \<Rightarrow> session_pool \<Rightarrow> session_pool" where
  "abortRequest w p = p\<lparr>sp_aborted := w # sp_aborted p\<rparr>"

section \<open>Executions\<close>

datatype session_event =
    Acquire nat
  | Resume nat
  | Opened nat nat
  | OpenFailed nat
  | Release nat "jstr option option"
  | CloserStep nat
  | Drain
  | Abort nat

definition session_requests :: "session_pool \<Rightarrow> nat list" where
  "session_requests p = map fst (sp_granted p) @ sp_opening p @ sp_woken p @ sp_waiters p @ sp_refused p"

definition live_handles :: "session_pool \<Rightarrow> nat list" where
  "live_handles p = map snd (held_sessions p) @ sp_idle p @ concat (sp_closing p)"

text \<open>A token never hands out a handle that is still open.\<close>

inductive session_step :: "session_pool \<Rightarrow> session_event \<Rightarrow> session_pool \<Rightarrow> bool" where
  "w \<notin> set (session_requests p) \<Longrightarrow> session_step p (Acquire w) (acquireSession w p)"
| "w \<in> set (sp_woken p) \<Longrightarrow> session_step p (Resume w) (resumeWaiter w p)"
| "w \<in> set (sp_opening p) \<Longrightarrow> h \<notin> set (live_handles p) \<Longrightarrow> session_step p (Opened w h) (sessionOpened w h p)"
| "w \<in> set (sp_opening p) \<Longrightarrow> session_step p (OpenFailed w) (sessionRefused w p)"
| "(w, h) \<in> set (held_sessions p) \<Longrightarrow> session_step p (Release w f) (releaseSession w h f p)"
| "k < length (sp_closing p) \<Longrightarrow> session_step p (CloserStep k) (closerStep k p)"
| "session_step p Drain (drain p)"
| "session_step p (Abort w) (abortRequest w p)"

inductive_cases session_stepE: "session_step p e q"
inductive_simps session_step_simps:
  "session_step p (Acquire w) q" "session_step p (Resume w) q" "session_step p (Opened w h) q"
  "session_step p (Release w f) q" "session_step p (Abort w) q" "session_step p Drain q"

fun session_exec :: "session_pool \<Rightarrow> session_event \<Rightarrow> session_pool option" where
  "session_exec p (Acquire w) = (if w \<in> set (session_requests p) then None else Some (acquireSession w p))"
| "session_exec p (Resume w) = (if w \<in> set (sp_woken p) then Some (resumeWaiter w p) else None)"
| "session_exec p (Opened w h) =
     (if w \<in> set (sp_opening p) \<and> h \<notin> set (live_handles p) then Some (sessionOpened w h p) else None)"
| "session_exec p (OpenFailed w) = (if w \<in> set (sp_opening p) then Some (sessionRefused w p) else None)"
| "session_exec p (Release w f) =
     (case map_of (held_sessions p) w of Some h \<Rightarrow> Some (releaseSession w h f p) | None \<Rightarrow> None)"
| "session_exec p (CloserStep k) = (if k < length (sp_closing p) then Some (closerStep k p) else None)"
| "session_exec p Drain = Some (drain p)"
| "session_exec p (Abort w) = Some (abortRequest w p)"

lemma session_exec_step: "session_exec p e = Some q \<Longrightarrow> session_step p e q"
  by (induction p e rule: session_exec.induct)
     (auto intro: session_step.intros map_of_SomeD split: if_splits option.splits)

interpretation sess_exec: executable_system session_exec session_step
  by unfold_locales (rule session_exec_step)

section \<open>Invariant\<close>

definition session_capacity :: "session_pool \<Rightarrow> nat" where
  "session_capacity p = nat \<lceil>sp_size p\<rceil>"

definition session_inv :: "session_pool \<Rightarrow> bool" where
  "session_inv p \<longleftrightarrow>
     1 \<le> sp_size p \<and> sp_open p \<le> int (session_capacity p) \<and>
     sp_open p = int (length (sp_idle p) + length (held_sessions p) + length (sp_opening p)) \<and>
     distinct (live_handles p) \<and> distinct (session_requests p) \<and>
     distinct (sp_returned p) \<and> set (sp_returned p) \<subseteq> set (map fst (sp_granted p)) \<and>
     list_all (\<lambda>c. c \<noteq> []) (sp_closing p)"

lemmas session_frame = held_sessions_def session_requests_def live_handles_def

lemma capacity_update [simp]:
  "session_capacity (p\<lparr>sp_open := x0\<rparr>) = session_capacity p"
  "session_capacity (p\<lparr>sp_idle := x1\<rparr>) = session_capacity p"
  "session_capacity (p\<lparr>sp_waiters := x2\<rparr>) = session_capacity p"
  "session_capacity (p\<lparr>sp_opening := x3\<rparr>) = session_capacity p"
  "session_capacity (p\<lparr>sp_woken := x4\<rparr>) = session_capacity p"
  "session_capacity (p\<lparr>sp_closing := x5\<rparr>) = session_capacity p"
  "session_capacity (p\<lparr>sp_aborted := x6\<rparr>) = session_capacity p"
  "session_capacity (p\<lparr>sp_granted := x7\<rparr>) = session_capacity p"
  "session_capacity (p\<lparr>sp_returned := x8\<rparr>) = session_capacity p"
  "session_capacity (p\<lparr>sp_refused := x9\<rparr>) = session_capacity p"
  by (simp_all add: session_capacity_def)

lemma wake_frame [simp]:
  "sp_size (wake p) = sp_size p" "sp_open (wake p) = sp_open p" "sp_idle (wake p) = sp_idle p"
  "sp_opening (wake p) = sp_opening p" "sp_closing (wake p) = sp_closing p"
  "sp_granted (wake p) = sp_granted p" "sp_returned (wake p) = sp_returned p"
  "sp_refused (wake p) = sp_refused p" "sp_aborted (wake p) = sp_aborted p"
  "sp_woken (wake p) @ sp_waiters (wake p) = sp_woken p @ sp_waiters p"
  "held_sessions (wake p) = held_sessions p" "session_capacity (wake p) = session_capacity p"
  "live_handles (wake p) = live_handles p"
  by (simp_all add: wake_def session_frame session_capacity_def split: list.splits)

lemma wake_requests [simp]: "session_requests (wake p) = session_requests p"
  unfolding session_requests_def wake_frame(6,4,8) using wake_frame(10) [of p] by (metis append_assoc)

lemma wake_inv [simp]: "session_inv (wake p) = session_inv p"
  by (simp add: session_inv_def)

lemma below_capacity: "of_int n < (r :: rat) \<longleftrightarrow> n < \<lceil>r\<rceil>"
  by (simp add: less_ceiling_iff)


lemma capacity_spec: "1 \<le> sp_size p \<Longrightarrow> of_int n < sp_size p \<longleftrightarrow> n < int (session_capacity p)"
  by (simp add: below_capacity session_capacity_def)

lemma new_session_inv: "session_inv (newSessionPool n)"
  by (simp add: session_inv_def session_frame session_capacity_def newSessionPool_def)

text \<open>Every handler moves requests and handles around: up to order, it leaves or adds one of each.\<close>

lemma session_invI:
  assumes "session_inv p" "sp_size q = sp_size p" "sp_open q \<le> int (session_capacity p)"
    and "sp_open q = int (length (sp_idle q) + length (held_sessions q) + length (sp_opening q))"
    and "mset (live_handles q) = mset hs" "distinct hs"
    and "mset (session_requests q) = mset ws" "distinct ws"
    and "sp_returned q = sp_returned p" "sp_closing q = sp_closing p"
    and "set (map fst (sp_granted p)) \<subseteq> set (map fst (sp_granted q))"
  shows "session_inv q"
  using assms mset_eq_imp_distinct_iff [OF assms(5)] mset_eq_imp_distinct_iff [OF assms(7)]
  by (auto simp: session_inv_def session_capacity_def)

lemma request_not_returned: "session_inv p \<Longrightarrow> w \<notin> set (map fst (sp_granted p)) \<Longrightarrow> w \<notin> set (sp_returned p)"
  by (auto simp: session_inv_def)

lemma session_inv_facts:
  assumes "session_inv p"
  shows "sp_open p \<le> int (session_capacity p)" "distinct (live_handles p)" "distinct (session_requests p)"
    "sp_open p = int (length (sp_idle p) + length (held_sessions p) + length (sp_opening p))" "1 \<le> sp_size p"
  using assms by (simp_all add: session_inv_def)

lemma acquire_turn_inv:
  assumes i: "session_inv p" and w: "w \<notin> set (session_requests p)"
  shows "session_inv (acquire_turn w p)"
proof -
  note f = session_inv_facts [OF i]
  have r: "w \<notin> set (sp_returned p)" using request_not_returned [OF i] w by (simp add: session_requests_def)
  have ws: "distinct (w # session_requests p)" using f(3) w by simp
  consider (idle) hs h where "sp_idle p = hs @ [h]" | (room) "sp_idle p = []" "of_int (sp_open p) < sp_size p"
    | (wait) "sp_idle p = []" "\<not> of_int (sp_open p) < sp_size p"
    by (metis rev_exhaust)
  then show ?thesis
  proof cases
    case idle
    show ?thesis
      by (rule session_invI [OF i _ _ _ _ f(2) _ ws])
         (use f idle in \<open>simp_all add: acquire_turn_def session_frame held_single r subset_insertI\<close>)
  next
    case room
    then have c: "sp_open p + 1 \<le> int (session_capacity p)" using capacity_spec [OF f(5)] by simp
    show ?thesis
      by (rule session_invI [OF i _ _ _ _ f(2) _ ws])
         (use f c room in \<open>simp_all add: acquire_turn_def session_frame\<close>)
  next
    case wait
    show ?thesis
      by (rule session_invI [OF i _ _ _ _ f(2) _ ws]) (use f wait in \<open>simp_all add: acquire_turn_def session_frame\<close>)
  qed
qed

lemma acquire_session_inv:
  assumes i: "session_inv p" and w: "w \<notin> set (session_requests p)"
  shows "session_inv (acquireSession w p)"
proof -
  note f = session_inv_facts [OF i]
  have ws: "distinct (w # session_requests p)" using f(3) w by simp
  have "session_inv (p\<lparr>sp_refused := sp_refused p @ [w]\<rparr>)"
    by (rule session_invI [OF i _ _ _ _ f(2) _ ws]) (use f in \<open>simp_all add: session_frame\<close>)
  then show ?thesis using acquire_turn_inv [OF assms] by (simp add: acquireSession_def)
qed

lemma resume_inv:
  assumes i: "session_inv p" and "w \<in> set (sp_woken p)"
  shows "session_inv (resumeWaiter w p)"
proof -
  note f = session_inv_facts [OF i]
  obtain xs ys where s: "sp_woken p = xs @ w # ys" "w \<notin> set xs" using assms(2) by (metis split_list_first)
  let ?q = "p\<lparr>sp_woken := xs @ ys\<rparr>"
  have "mset (w # session_requests ?q) = mset (session_requests p)" by (simp add: session_requests_def s)
  then have ws: "distinct (w # session_requests ?q)" using f(3) by (metis mset_eq_imp_distinct_iff)
  then have "session_inv ?q"
    by (intro session_invI [OF i _ _ _ _ f(2), where ws = "session_requests ?q"])
       (use f in \<open>simp_all add: session_frame\<close>)
  then show ?thesis using acquire_session_inv [of ?q w] ws s by (simp add: resumeWaiter_def remove1_append)
qed

lemma opened_inv:
  assumes i: "session_inv p" and "w \<in> set (sp_opening p)" "h \<notin> set (live_handles p)"
  shows "session_inv (sessionOpened w h p)"
proof -
  note f = session_inv_facts [OF i]
  obtain xs ys where s: "sp_opening p = xs @ w # ys" "w \<notin> set xs" using assms(2) by (metis split_list_first)
  have "w \<notin> set (map fst (sp_granted p))" using f(3) s by (auto simp: session_requests_def)
  then have r: "w \<notin> set (sp_returned p)" by (rule request_not_returned [OF i])
  have hs: "distinct (h # live_handles p)" using f(2) assms(3) by simp
  show ?thesis
    by (rule session_invI [OF i _ _ _ _ hs _ f(3)])
       (use f s in \<open>auto simp: sessionOpened_def session_frame remove1_append held_single r\<close>)
qed

lemma refused_inv:
  assumes i: "session_inv p" and "w \<in> set (sp_opening p)"
  shows "session_inv (sessionRefused w p)"
proof -
  note f = session_inv_facts [OF i]
  obtain xs ys where s: "sp_opening p = xs @ w # ys" "w \<notin> set xs" using assms(2) by (metis split_list_first)
  show ?thesis unfolding sessionRefused_def wake_inv
    by (rule session_invI [OF i _ _ _ _ f(2) _ f(3)])
       (use f s in \<open>auto simp: session_frame remove1_append\<close>)
qed

lemma filter_other: "w \<notin> fst ` set xs \<Longrightarrow> filter (\<lambda>(v, r). v \<noteq> w) xs = xs"
  by (induction xs) auto

lemma held_split:
  assumes "session_inv p" "(w, h) \<in> set (held_sessions p)"
  obtains xs ys where "held_sessions p = xs @ (w, h) # ys"
    "held_sessions (p\<lparr>sp_returned := w # sp_returned p\<rparr>) = xs @ ys" "w \<notin> set (sp_returned p)"
    "w \<in> set (map fst (sp_granted p))"
proof -
  obtain xs ys where s: "held_sessions p = xs @ (w, h) # ys" using split_list [OF assms(2)] by blast
  have "distinct (map fst (sp_granted p))" using assms(1) by (simp add: session_inv_def session_requests_def)
  then have "distinct (map fst (held_sessions p))"
    by (simp add: held_sessions_def held_after_def distinct_map_filter)
  then have "w \<notin> fst ` set (xs @ ys)" unfolding s by auto
  then have "filter (\<lambda>(v, r). v \<noteq> w) (xs @ (w, h) # ys) = xs @ ys"
    by (simp add: filter_other image_Un)
  moreover have "w \<notin> set (sp_returned p)" "w \<in> set (map fst (sp_granted p))"
    using assms(2) by (force simp: held_sessions_def held_after_def)+
  ultimately show thesis using that s by (simp add: held_sessions_def held_return)
qed


lemma release_inv:
  assumes i: "session_inv p" and m: "(w, h) \<in> set (held_sessions p)"
  shows "session_inv (releaseSession w h failure p)"
proof -
  note f = session_inv_facts [OF i]
  obtain xs ys where s: "held_sessions p = xs @ (w, h) # ys" and
    s': "held_sessions (p\<lparr>sp_returned := w # sp_returned p\<rparr>) = xs @ ys" and
    w: "w \<notin> set (sp_returned p)" "w \<in> set (map fst (sp_granted p))"
    by (rule held_split [OF assms])
  have h: "held_after (w # sp_returned p) (sp_granted p) = xs @ ys" using s' by (simp add: held_sessions_def)
  have g: "held_after (sp_returned p) (sp_granted p) = xs @ (w, h) # ys" using s by (simp add: held_sessions_def)
  let ?dead = "p\<lparr>sp_returned := w # sp_returned p, sp_open := sp_open p - 1, sp_closing := sp_closing p @ [[h]]\<rparr>"
  and ?free = "p\<lparr>sp_returned := w # sp_returned p, sp_idle := sp_idle p @ [h]\<rparr>"
  have l: "mset (live_handles ?dead) = mset (live_handles p)" "mset (live_handles ?free) = mset (live_handles p)"
    by (simp_all add: session_frame h g)
  have "session_inv ?dead" "session_inv ?free"
    using i w mset_eq_imp_distinct_iff [OF l(1)] mset_eq_imp_distinct_iff [OF l(2)]
    unfolding session_inv_def by (simp_all add: held_sessions_def session_requests_def h g)
  then show ?thesis by (simp add: releaseSession_def Let_def split: option.split)
qed

lemma closer_inv:
  assumes i: "session_inv p" and k: "k < length (sp_closing p)"
  shows "session_inv (closerStep k p)"
proof -
  let ?c = "sp_closing p ! k"
  have c: "sp_closing p = take k (sp_closing p) @ ?c # drop (Suc k) (sp_closing p)"
    using k by (rule id_take_nth_drop)
  have "?c \<noteq> []" using i k by (simp add: session_inv_def list_all_length)
  then consider (last) x where "?c = [x]" | (more) x y zs where "?c = x # y # zs" by (metis list.exhaust)
  then show ?thesis
  proof cases
    case last
    let ?q = "p\<lparr>sp_closing := take k (sp_closing p) @ drop (Suc k) (sp_closing p)\<rparr>"
    have "mset (x # live_handles ?q) = mset (live_handles p)"
      by (subst (2) live_handles_def, subst (1) c) (simp add: last live_handles_def held_sessions_def)
    then have "distinct (live_handles ?q)" using i by (metis distinct.simps(2) mset_eq_imp_distinct_iff session_inv_def)
    moreover have "list_all (\<lambda>c. c \<noteq> []) (sp_closing ?q)"
      using i by (auto simp: session_inv_def list_all_iff dest: in_set_takeD in_set_dropD)
    ultimately show ?thesis using i
      by (simp add: closerStep_def last) (simp add: session_inv_def session_frame)
  next
    case more
    let ?q = "p\<lparr>sp_closing := (sp_closing p)[k := y # zs]\<rparr>"
    have "mset (x # live_handles ?q) = mset (live_handles p)"
      by (subst (2) live_handles_def, subst (1) c)
         (simp add: more live_handles_def held_sessions_def upd_conv_take_nth_drop [OF k])
    then have "distinct (live_handles ?q)" using i by (metis distinct.simps(2) mset_eq_imp_distinct_iff session_inv_def)
    moreover have "list_all (\<lambda>c. c \<noteq> []) (sp_closing ?q)"
      using i k by (auto simp: session_inv_def list_all_iff dest: set_update_subset_insert [THEN subsetD])
    ultimately show ?thesis using i by (simp add: closerStep_def more) (simp add: session_inv_def session_frame)
  qed
qed

lemma drain_inv: "session_inv p \<Longrightarrow> session_inv (drain p)"
  by (auto simp: drain_def Let_def) (auto simp: session_inv_def session_frame)

lemma abort_inv: "session_inv p \<Longrightarrow> session_inv (abortRequest w p)"
  by (simp add: abortRequest_def session_inv_def session_frame)

lemmas session_op_invs = acquire_session_inv resume_inv opened_inv refused_inv release_inv closer_inv drain_inv
  abort_inv

lemma session_step_inv: "session_inv p \<Longrightarrow> session_step p e q \<Longrightarrow> session_inv q"
  by (erule session_stepE) (auto intro: session_op_invs)

interpretation sess: event_system session_step "newSessionPool n" session_inv
  by unfold_locales (auto intro: session_step_inv new_session_inv)


section \<open>The pool implements the lease specification\<close>

definition session_abs :: "session_pool \<Rightarrow> lease_state" where
  "session_abs p = \<lparr> ls_cap = session_capacity p, ls_granted = sp_granted p, ls_returned = sp_returned p \<rparr>"

lemma session_abs_simps [simp]:
  "ls_cap (session_abs p) = session_capacity p" "ls_granted (session_abs p) = sp_granted p"
  "ls_returned (session_abs p) = sp_returned p" "held (session_abs p) = held_sessions p"
  by (simp_all add: session_abs_def held_def held_sessions_def)

lemma session_abs_inv: "session_inv p \<Longrightarrow> lease_inv (session_abs p)"
  by (auto simp: lease_inv_def session_inv_def live_handles_def session_requests_def)

lemma session_size_step: "session_step p e q \<Longrightarrow> sp_size q = sp_size p"
  by (erule session_stepE)
     (auto simp: acquireSession_def acquire_turn_def resumeWaiter_def sessionOpened_def sessionRefused_def
       releaseSession_def closerStep_def drain_def abortRequest_def Let_def split: list.splits option.splits)

lemma acquire_log:
  "\<exists>gs. sp_granted (acquireSession w p) = sp_granted p @ gs \<and> sp_returned (acquireSession w p) = sp_returned p"
  by (auto simp: acquireSession_def acquire_turn_def)

lemma session_log_step:
  assumes "session_step p e q"
  shows "\<exists>gs. sp_granted q = sp_granted p @ gs \<and>
    (sp_returned q = sp_returned p \<or> (\<exists>w \<in> set (map fst (held_sessions p)). sp_returned q = w # sp_returned p))"
  using assms
proof cases
  case (1 w)
  then show ?thesis using acquire_log [of w p] by auto
next
  case (2 w)
  then show ?thesis using acquire_log [of w "p\<lparr>sp_woken := remove1 w (sp_woken p)\<rparr>"]
    by (auto simp: resumeWaiter_def)
next
  case (5 w h f)
  then have "w \<in> set (map fst (held_sessions p))" by force
  then show ?thesis using 5 by (auto simp: releaseSession_def Let_def split: option.splits)
qed (auto simp: sessionOpened_def sessionRefused_def closerStep_def drain_def abortRequest_def Let_def split: list.splits)

interpretation sess_sim: simulation session_step "newSessionPool n" session_inv lease_step session_abs
proof
  fix p e q
  assume i: "session_inv p" and s: "session_step p e q"
  obtain gs where gs: "sp_granted q = sp_granted p @ gs"
    "sp_returned q = sp_returned p \<or> (\<exists>w \<in> set (map fst (held_sessions p)). sp_returned q = w # sp_returned p)"
    using session_log_step [OF s] by blast
  show "\<exists>fs. trace lease_step (session_abs p) fs (session_abs q)"
  proof (rule lease_refines [where gs = gs])
    have "distinct (map fst (sp_granted q))" "set (sp_returned p) \<subseteq> set (map fst (sp_granted p))"
      using session_step_inv [OF i s] i by (auto simp: session_inv_def session_requests_def)
    then show "set (map fst gs) \<inter> set (ls_returned (session_abs p)) = {}" using gs(1) by auto
  qed (use session_abs_inv [OF i] session_abs_inv [OF session_step_inv [OF i s]] gs session_size_step [OF s]
         in \<open>auto simp: session_capacity_def\<close>)
qed

section \<open>Progress\<close>

text \<open>What a waiting request could take at once, and the wake-ups that are on their way.\<close>

definition spare :: "session_pool \<Rightarrow> int" where
  "spare p = int (length (sp_idle p)) + int (session_capacity p) - sp_open p"

definition coming :: "session_pool \<Rightarrow> int" where
  "coming p = int (length (sp_woken p) + length (sp_closing p))"

definition session_serves :: "session_pool \<Rightarrow> bool" where
  "session_serves p \<longleftrightarrow> sp_aborted p = [] \<and> (sp_waiters p = [] \<or> spare p \<le> coming p)"

fun not_abort :: "session_event \<Rightarrow> bool" where
  "not_abort (Abort w) = False"
| "not_abort _ = True"

lemma wake_serves: "sp_aborted p = [] \<Longrightarrow> sp_waiters p = [] \<or> spare p \<le> coming p + 1 \<Longrightarrow> session_serves (wake p)"
  by (auto simp: session_serves_def wake_def spare_def coming_def split: list.splits)

lemma session_serves_step:
  assumes i: "session_inv p" and s: "session_step p e q" "not_abort e" "session_serves p"
  shows "session_serves q"
  using s(1)
proof cases
  case (1 w)
  have c: "\<not> of_int (sp_open p) < sp_size p \<Longrightarrow> int (session_capacity p) \<le> sp_open p"
    using capacity_spec [of p "sp_open p"] i by (simp add: session_inv_def not_less)
  show ?thesis using s(3) c
    by (auto simp: 1 acquireSession_def acquire_turn_def session_serves_def spare_def coming_def)
next
  case (2 w)
  have c: "\<not> of_int (sp_open p) < sp_size p \<Longrightarrow> int (session_capacity p) \<le> sp_open p"
    using capacity_spec [of p "sp_open p"] i by (simp add: session_inv_def not_less)
  have "length (sp_woken p) = Suc (length (remove1 w (sp_woken p)))"
    using 2(3) by (simp add: length_remove1) (metis Suc_pred length_pos_if_in_set)
  moreover have "sp_idle p \<noteq> [] \<Longrightarrow> int (length (sp_idle p) - Suc 0) = int (length (sp_idle p)) - 1"
    by (cases "sp_idle p") auto
  ultimately show ?thesis using s(3) c
    by (auto simp: 2 resumeWaiter_def acquireSession_def acquire_turn_def session_serves_def spare_def coming_def)
next
  case (3 w h)
  then show ?thesis using s(3) by (simp add: sessionOpened_def session_serves_def spare_def coming_def)
next
  case (4 w)
  show ?thesis unfolding 4 sessionRefused_def
    by (rule wake_serves) (use s(3) in \<open>auto simp: session_serves_def spare_def coming_def\<close>)
next
  case (5 w h f)
  let ?r = "p\<lparr>sp_returned := w # sp_returned p\<rparr>"
  have "session_serves (wake (?r\<lparr>sp_idle := sp_idle p @ [h]\<rparr>))"
    by (rule wake_serves) (use s(3) in \<open>auto simp: session_serves_def spare_def coming_def\<close>)
  moreover have "session_serves (?r\<lparr>sp_open := sp_open p - 1, sp_closing := sp_closing p @ [[h]]\<rparr>)"
    using s(3) by (auto simp: session_serves_def spare_def coming_def)
  ultimately show ?thesis by (simp add: 5 releaseSession_def Let_def split: option.split)
next
  case (6 k)
  then have "length (take k (sp_closing p) @ drop (Suc k) (sp_closing p)) = length (sp_closing p) - 1" by simp
  then have "session_serves (wake (p\<lparr>sp_closing := take k (sp_closing p) @ drop (Suc k) (sp_closing p)\<rparr>))"
    by (intro wake_serves) (use s(3) 6 in \<open>auto simp: session_serves_def spare_def coming_def\<close>)
  moreover have "session_serves (p\<lparr>sp_closing := (sp_closing p)[k := cs]\<rparr>)" for cs
    using s(3) by (simp add: session_serves_def spare_def coming_def)
  ultimately show ?thesis by (simp add: 6 closerStep_def split: list.split)
next
  case 7
  let ?q = "p\<lparr>sp_idle := [], sp_open := sp_open p - int (length (sp_idle p))\<rparr>"
  have a: "session_serves (wake ?q)"
    by (rule wake_serves) (use s(3) in \<open>auto simp: session_serves_def spare_def coming_def\<close>)
  have b: "session_serves (?q\<lparr>sp_closing := sp_closing p @ [sp_idle p]\<rparr>)"
    using s(3) by (auto simp: session_serves_def spare_def coming_def)
  have "drain p = wake ?q \<or> drain p = ?q\<lparr>sp_closing := sp_closing p @ [sp_idle p]\<rparr>" by (simp add: drain_def Let_def)
  then show ?thesis using a b 7 by metis
next
  case (8 w)
  then show ?thesis using s(2) by simp
qed

lemma new_session_serves: "session_serves (newSessionPool n)"
  by (simp add: session_serves_def newSessionPool_def)

text \<open>Runs without an abort.\<close>

interpretation sess_calm: event_system "\<lambda>p e q. session_step p e q \<and> not_abort e" "newSessionPool n"
    "\<lambda>p. session_inv p \<and> session_serves p"
  by unfold_locales (blast intro: session_step_inv session_serves_step new_session_inv new_session_serves)+

lemma calm_trace:
  "trace step s es t \<Longrightarrow> list_all c es \<Longrightarrow> trace (\<lambda>s e t. step s e t \<and> c e) s es t"
  by (induction rule: trace.induct) (auto intro: trace.intros)

section \<open>Properties\<close>

text \<open>
  C19: The session pool refines the lease specification.  Every execution corresponds to one of the
  specification with the same grants and the same returns; so no two callers ever hold the same session, and
  at most the rounded-up session bound is held at once, whatever fails, is cancelled or drained.
\<close>

theorem sessions_refine_leases:
  assumes "trace session_step (newSessionPool n) es p"
  shows "(\<exists>fs. trace lease_step (lease_start (nat \<lceil>max n 1\<rceil>)) fs (session_abs p)) \<and>
    distinct (map snd (held_sessions p)) \<and> length (held_sessions p) \<le> nat \<lceil>max n 1\<rceil> \<and>
    sp_open p = int (length (sp_idle p) + length (held_sessions p) + length (sp_opening p))"
proof -
  have "session_abs (newSessionPool n) = lease_start (nat \<lceil>max n 1\<rceil>)"
    by (simp add: session_abs_def lease_start_def newSessionPool_def session_capacity_def)
  then obtain fs where fs: "trace lease_step (lease_start (nat \<lceil>max n 1\<rceil>)) fs (session_abs p)"
    using sess_sim.reachable_refines [OF assms] by auto
  then show ?thesis
    using lease_safe [OF fs] session_inv_facts(4) [OF sess.reachable_inv [OF assms]] by auto
qed

text \<open>
  C20: No lost capacity without cancellation.  As long as no signal is aborted, a request that waits is either
  about to be woken, or every session is taken: none is idle, the bound is reached, and someone holds or is
  opening a session, whose return will wake it.
\<close>

theorem sessions_progress:
  assumes "trace session_step (newSessionPool n) es p" "list_all not_abort es" "sp_waiters p \<noteq> []"
  shows "if sp_woken p = [] \<and> sp_closing p = []
    then sp_idle p = [] \<and> sp_size p \<le> of_int (sp_open p) \<and> (held_sessions p \<noteq> [] \<or> sp_opening p \<noteq> [])
    else True"
proof -
  have i: "session_inv p" "session_serves p"
    using sess_calm.reachable_inv [OF calm_trace [OF assms(1,2)]] by auto
  note f = session_inv_facts [OF i(1)]
  have c: "spare p \<le> coming p" using i(2) assms(3) by (simp add: session_serves_def)
  have "sp_idle p = [] \<and> int (session_capacity p) \<le> sp_open p" if "sp_woken p = []" "sp_closing p = []"
  proof -
    have "int (length (sp_idle p)) + int (session_capacity p) \<le> sp_open p"
      using c that by (simp add: spare_def coming_def)
    then have "int (length (sp_idle p)) \<le> 0" "int (session_capacity p) \<le> sp_open p" using f(1) by linarith+
    then show ?thesis by simp
  qed
  moreover have "0 < session_capacity p" using f(5) by (simp add: session_capacity_def)
  ultimately show ?thesis
    using f(4) capacity_spec [OF f(5), of "sp_open p"] by (auto simp: not_less)
qed

text \<open>
  C21: A cancelled waiter swallows its wake-up.  In any reachable state with two or more requests waiting and no
  wake-up under way, give a session back and cancel the first waiter, before or after it is woken but before
  it runs again: the wake-up goes to the cancelled request, which throws without passing it on, and the next
  one waits on while the session lies idle.  When that session was the only one in use, nothing that
  is under way ever serves it: only a new request, a drain or another cancellation can happen at all.
\<close>

theorem sessions_lost_wakeup:
  assumes "trace session_step (newSessionPool n) es p"
    and "sp_idle p = []" "sp_woken p = []" "sp_waiters p = w # v # rest" "(x, h) \<in> set (held_sessions p)"
    and "order = [Release x None, Abort w, Resume w] \<or> order = [Abort w, Release x None, Resume w]"
  shows "\<exists>q. trace session_step p order q \<and>
    sp_waiters q = v # rest \<and> sp_idle q = [h] \<and> sp_woken q = [] \<and> w \<in> set (sp_refused q) \<and>
    (held_sessions p = [(x, h)] \<and> sp_opening p = [] \<and> sp_closing p = [] \<longrightarrow>
      (\<forall>e r. session_step q e r \<longrightarrow>
         (case e of Acquire _ \<Rightarrow> True | Drain \<Rightarrow> True | Abort _ \<Rightarrow> True | _ \<Rightarrow> False)))"
proof -
  have i: "session_inv p" by (rule sess.reachable_inv [OF assms(1)])
  obtain xs ys where hs: "held_sessions p = xs @ (x, h) # ys"
    and hr: "held_sessions (p\<lparr>sp_returned := x # sp_returned p\<rparr>) = xs @ ys"
    using held_split [OF i assms(5)] by metis
  let ?q = "resumeWaiter w (abortRequest w (releaseSession x h None p))"
  have st: "session_step p (Release x None) (releaseSession x h None p)"
    by (rule session_step.intros) (rule assms(5))
  have st': "session_step (abortRequest w p) (Release x None) (releaseSession x h None (abortRequest w p))"
    by (rule session_step.intros) (use assms(5) in \<open>simp add: abortRequest_def held_sessions_def\<close>)
  have swap: "releaseSession x h None (abortRequest w p) = abortRequest w (releaseSession x h None p)"
    using assms(4) by (simp add: releaseSession_def abortRequest_def wake_def)
  have woken: "w \<in> set (sp_woken (abortRequest w (releaseSession x h None p)))"
    using assms(4) by (simp add: releaseSession_def abortRequest_def wake_def)
  have run: "session_step (abortRequest w (releaseSession x h None p)) (Resume w) ?q"
    by (rule session_step.intros) (rule woken)
  have "trace session_step p [Release x None, Abort w, Resume w] ?q"
    by (rule trace_Cons [of session_step, OF st],
        rule trace_Cons [of session_step, OF session_step.intros(8)], rule trace_single [of session_step, OF run])
  moreover have "trace session_step p [Abort w, Release x None, Resume w] ?q"
    by (rule trace_Cons [of session_step, OF session_step.intros(8)],
        rule trace_Cons [of session_step, OF st' [unfolded swap]],
        rule trace_single [of session_step, OF run])
  ultimately have tr: "trace session_step p order ?q" using assms(6) by blast
  have q: "sp_waiters ?q = v # rest" "sp_idle ?q = [h]" "sp_woken ?q = []" "w \<in> set (sp_refused ?q)"
    "sp_opening ?q = sp_opening p" "sp_closing ?q = sp_closing p"
    "held_sessions ?q = held_sessions (p\<lparr>sp_returned := x # sp_returned p\<rparr>)"
    using assms(2-4)
    by (simp_all add: resumeWaiter_def acquireSession_def releaseSession_def abortRequest_def wake_def
        held_sessions_def)
  have "case e of Acquire _ \<Rightarrow> True | Drain \<Rightarrow> True | Abort _ \<Rightarrow> True | _ \<Rightarrow> False"
    if "held_sessions p = [(x, h)]" "sp_opening p = []" "sp_closing p = []" "session_step ?q e r" for e r
  proof -
    have "held_sessions ?q = []"
      using that(1) hs hr q(7) by (auto simp: append_eq_Cons_conv)
    then show ?thesis using that(2-4) q by (auto elim: session_stepE)
  qed
  with tr q(1-4) show ?thesis by (intro exI [of _ ?q]) blast
qed

section \<open>Concrete runs\<close>

definition busy_run :: "session_event list" where
  "busy_run = [Acquire 1, Opened 1 7, Acquire 2, Acquire 3]"

definition busy_pool :: session_pool where
  "busy_pool = the (exec_run session_exec (newSessionPool 1) busy_run)"

lemma busy_trace: "trace session_step (newSessionPool 1) busy_run busy_pool"
proof (rule sess_exec.trace_of_run)
  have "exec_run session_exec (newSessionPool 1) busy_run \<noteq> None" by code_simp
  then show "exec_run session_exec (newSessionPool 1) busy_run = Some busy_pool" by (auto simp: busy_pool_def)
qed

theorem sessions_lost_wakeup_witness:
  "\<exists>q. trace session_step busy_pool [Release 1 None, Abort 2, Resume 2] q \<and> sp_waiters q = [3] \<and>
    sp_idle q = [7] \<and> sp_woken q = []"
proof -
  have "sp_idle busy_pool = []" "sp_woken busy_pool = []" "sp_waiters busy_pool = [2, 3]"
    "held_sessions busy_pool = [(1, 7)]" by code_simp+
  then show ?thesis
    using sessions_lost_wakeup [OF busy_trace, of 2 3 "[]" 1 7 "[Release 1 None, Abort 2, Resume 2]"]
    by auto
qed

theorem sessions_refine_leases_witness: "held_sessions busy_pool = [(1, 7)] \<and> sp_open busy_pool = 1"
proof -
  have "held_sessions busy_pool = [(1, 7)]" "sp_idle busy_pool = []" "sp_opening busy_pool = []" by code_simp+
  then show ?thesis using sessions_refine_leases [OF busy_trace] by simp
qed

theorem sessions_progress_witness: "sp_waiters busy_pool = [2, 3] \<and> sp_idle busy_pool = []"
proof -
  have "sp_waiters busy_pool = [2, 3]" "sp_woken busy_pool = []" "sp_closing busy_pool = []"
    "list_all not_abort busy_run" by code_simp+
  then show ?thesis using sessions_progress [OF busy_trace] by simp
qed

text \<open>
  Draining gives the capacity back before the sessions are closed: a request opens a second session on the
  token while the drained one still exists.
\<close>

lemma drain_exceeds_bound:
  "\<exists>p. trace session_step (newSessionPool 1)
      [Acquire 1, Opened 1 7, Release 1 None, Drain, Acquire 2, Opened 2 8] p \<and>
    length (live_handles p) = 2"
proof -
  let ?es = "[Acquire 1, Opened 1 7, Release 1 None, Drain, Acquire 2, Opened 2 8]"
  have "case exec_run session_exec (newSessionPool 1) ?es of None \<Rightarrow> False | Some p \<Rightarrow> length (live_handles p) = 2"
    by code_simp
  then show ?thesis by (rule sess_exec.run_reaches)
qed

end
