(* ===== verification/Pkcs11_Uri.thy ===== *)
theory Pkcs11_Uri
  imports Utf_Lossy
begin

text \<open>
  PKCS#11 key URIs (\<^verbatim>\<open>src/encrypt/pkcs11/uri.ts\<close>), the errors of
  \<^verbatim>\<open>errors.ts\<close> and the options of \<^verbatim>\<open>config.ts\<close>.
\<close>

section \<open>Errors\<close>

datatype pkcs11_error =
    Pkcs11Error jstr
  | UnavailableError jstr
  | ModuleRequired
  | TokenRequired
  | PinRequired
  | KeyUriRequired
  | KeyNotFound jstr jstr
  | OaepHashUnsupported
  | SecretNotExtractable
  | UnsupportedMechanism jstr
  | TokenError jstr int jstr

fun pkcs11_message :: "pkcs11_error \<Rightarrow> jstr" where
  "pkcs11_message (Pkcs11Error m) = m"
| "pkcs11_message (UnavailableError reason) =
     js ''pkcs11: FFI is not available in this runtime'' @ (if reason = [] then [] else js '': '' @ reason) @
     js ''; run with --allow-ffi on a Deno runtime that supports Deno.dlopen''"
| "pkcs11_message ModuleRequired = js ''pkcs11: module path is required''"
| "pkcs11_message TokenRequired = js ''pkcs11: token label or slot id is required''"
| "pkcs11_message PinRequired = js ''pkcs11: pin provider is required''"
| "pkcs11_message KeyUriRequired = js ''pkcs11: key uri is required''"
| "pkcs11_message (KeyNotFound uri detail) =
     js ''pkcs11: no object matches the key uri: '' @ (if detail = [] then [] else detail @ js '': '') @ uri"
| "pkcs11_message OaepHashUnsupported =
     js ''pkcs11: token does not accept RSA-OAEP with SHA-256; the parameters are fixed for cross-backend compatibility''"
| "pkcs11_message SecretNotExtractable =
     js ''pkcs11: token policy forbids extracting the derived secret; ECDH is unavailable on this token''"
| "pkcs11_message (UnsupportedMechanism m) = js ''pkcs11: token does not support mechanism '' @ m"
| "pkcs11_message (TokenError fn code ckr) = js ''pkcs11: '' @ fn @ js '' failed: '' @ ckr"

section \<open>Key URIs\<close>

definition URI_SCHEME :: jstr where "URI_SCHEME = js ''pkcs11:''"

datatype object_class = Data | Certificate | PublicKey | PrivateKey | SecretKey

fun class_code :: "object_class \<Rightarrow> int" where
  "class_code Data = 0"
| "class_code Certificate = 1"
| "class_code PublicKey = 2"
| "class_code PrivateKey = 3"
| "class_code SecretKey = 4"

record key_uri =
  ku_token :: "jstr option"
  ku_object :: "jstr option"
  ku_id :: "bytes option"
  ku_class :: "object_class option"

definition TYPE_TO_CLASS :: "(jstr \<times> object_class) list" where
  "TYPE_TO_CLASS = [(js ''private'', PrivateKey), (js ''public'', PublicKey), (js ''secret-key'', SecretKey),
     (js ''cert'', Certificate), (js ''data'', Data)]"

definition CLASS_TO_TYPE :: "(object_class \<times> jstr) list" where
  "CLASS_TO_TYPE = map (\<lambda>(n, c). (c, n)) TYPE_TO_CLASS"

definition isKeyUri :: "jstr \<Rightarrow> bool" where
  "isKeyUri r \<longleftrightarrow> starts_with URI_SCHEME (trim r)"

definition classFromType :: "jstr \<Rightarrow> pkcs11_error + object_class" where
  "classFromType v =
     (case map_of TYPE_TO_CLASS v of
        None \<Rightarrow> Inl (Pkcs11Error (js ''pkcs11: unsupported object type '' @ json_quote v @ js '' in key uri''))
      | Some c \<Rightarrow> Inr c)"

definition typeFromClass :: "object_class \<Rightarrow> pkcs11_error + jstr" where
  "typeFromClass c =
     (case map_of CLASS_TO_TYPE c of
        None \<Rightarrow> Inl (Pkcs11Error (js ''pkcs11: unsupported object class '' @ int_digits 10 (class_code c)))
      | Some t \<Rightarrow> Inr t)"

definition pin_attribute :: "jstr \<Rightarrow> bool" where
  "pin_attribute n \<longleftrightarrow> n = js ''pin-value'' \<or> n = js ''pin-source''"

definition rejectPinAttributes :: "jstr \<Rightarrow> pkcs11_error + unit" where
  "rejectPinAttributes query =
     (if query = [] then Inr ()
      else
        (case find pin_attribute (map (\<lambda>seg. hd (split_on 61 seg)) (split_on 38 query)) of
           Some n \<Rightarrow> Inl (Pkcs11Error (js ''pkcs11: key uri must not carry '' @ json_quote n @
                js ''; supply the pin with the pin option''))
         | None \<Rightarrow> Inr ()))"

text \<open>One attribute value to bytes: \<^verbatim>\<open>%XX\<close> is a byte, any other code unit its own UTF-8 encoding.\<close>

definition is_hex :: "16 word \<Rightarrow> bool" where
  "is_hex c \<longleftrightarrow> is_radix_digit 16 c"

fun unescape_units :: "jstr \<Rightarrow> jstr \<Rightarrow> pkcs11_error + bytes" where
  "unescape_units name [] = Inr []"
| "unescape_units name (c # s) =
     (if c \<noteq> 37 then and_then (unescape_units name s) (\<lambda>bs. Inr (utf8_encode [c] @ bs))
      else
        (case s of
           a # b # t \<Rightarrow>
             if is_hex a \<and> is_hex b
             then and_then (unescape_units name t) (\<lambda>bs. Inr (word_of_int (digits_int 16 [a, b]) # bs))
             else Inl (Pkcs11Error (js ''pkcs11: decode attribute '' @ json_quote name @
                    js '' in key uri: invalid escape '' @ json_quote [c, a, b]))
         | _ \<Rightarrow> Inl (Pkcs11Error (js ''pkcs11: decode attribute '' @ json_quote name @
                    js '' in key uri: invalid escape '' @ json_quote (c # s)))))"

definition unescapeAttribute :: "jstr \<Rightarrow> jstr \<Rightarrow> pkcs11_error + bytes" where
  "unescapeAttribute name raw = unescape_units name raw"

definition empty_uri :: key_uri where
  "empty_uri = \<lparr> ku_token = None, ku_object = None, ku_id = None, ku_class = None \<rparr>"

definition parse_attribute :: "jstr \<Rightarrow> key_uri \<Rightarrow> pkcs11_error + key_uri" where
  "parse_attribute segment u =
     (if segment = [] then Inr u
      else
        (case index_of 61 segment of
           None \<Rightarrow> Inl (Pkcs11Error (js ''pkcs11: malformed attribute '' @ json_quote segment @ js '' in key uri''))
         | Some i \<Rightarrow>
             (let name = take i segment
              in and_then (unescapeAttribute name (drop (Suc i) segment)) (\<lambda>v.
                   if name = js ''token'' then Inr (u \<lparr> ku_token := Some (utf8_decode v) \<rparr>)
                   else if name = js ''object'' then Inr (u \<lparr> ku_object := Some (utf8_decode v) \<rparr>)
                   else if name = js ''id'' then Inr (u \<lparr> ku_id := Some v \<rparr>)
                   else if name = js ''type'' then
                     and_then (classFromType (utf8_decode v)) (\<lambda>c. Inr (u \<lparr> ku_class := Some c \<rparr>))
                   else Inr u))))"

fun parse_attributes :: "jstr list \<Rightarrow> key_uri \<Rightarrow> pkcs11_error + key_uri" where
  "parse_attributes [] u = Inr u"
| "parse_attributes (seg # segs) u = and_then (parse_attribute seg u) (parse_attributes segs)"

definition some_text :: "'a list option \<Rightarrow> bool" where
  "some_text v \<longleftrightarrow> v \<noteq> None \<and> v \<noteq> Some []"

definition parseKeyUri :: "jstr \<Rightarrow> pkcs11_error + key_uri" where
  "parseKeyUri reference =
     (let trimmed = trim reference
      in if \<not> isKeyUri trimmed then
           Inl (Pkcs11Error (js ''pkcs11: '' @ json_quote trimmed @ js '' is not a pkcs11 uri''))
         else
           (let rest = drop (length URI_SCHEME) trimmed;
                query = (case index_of 63 rest of None \<Rightarrow> [] | Some i \<Rightarrow> drop (Suc i) rest);
                body = (case index_of 63 rest of None \<Rightarrow> rest | Some i \<Rightarrow> take i rest)
            in and_then (rejectPinAttributes query) (\<lambda>_.
                 if body = [] then
                   Inl (Pkcs11Error (js ''pkcs11: key uri '' @ json_quote trimmed @ js '' has no attributes''))
                 else
                   and_then (parse_attributes (split_on 59 body) empty_uri) (\<lambda>u.
                     if \<not> some_text (ku_object u) \<and> \<not> some_text (ku_id u) then
                       Inl (Pkcs11Error (js ''pkcs11: key uri '' @ json_quote trimmed @
                         js '' must set object or id''))
                     else Inr u))))"

definition unreservedAttributeByte :: "8 word \<Rightarrow> bool" where
  "unreservedAttributeByte b \<longleftrightarrow>
     (let c = (ucast b :: 16 word)
      in is_alpha c \<or> is_digit c \<or> c \<in> set (js ''-._~:[]@!$'' @ [39] @ js ''()*+,''))"

definition upper_hex :: "8 word \<Rightarrow> jstr" where
  "upper_hex b = (let ds = upper (int_digits 16 (uint b)) in replicate (2 - length ds) 48 @ ds)"

definition escape_byte :: "8 word \<Rightarrow> jstr" where
  "escape_byte b = (if unreservedAttributeByte b then [ucast b] else 37 # upper_hex b)"

definition escapeAttribute :: "bytes \<Rightarrow> jstr" where
  "escapeAttribute bs = concat (map escape_byte bs)"

definition formatKeyUri :: "key_uri \<Rightarrow> pkcs11_error + jstr" where
  "formatKeyUri u =
     and_then (case ku_class u of None \<Rightarrow> Inr [] | Some c \<Rightarrow> and_then (typeFromClass c) (\<lambda>t. Inr [js ''type='' @ t]))
       (\<lambda>types.
         Inr (URI_SCHEME @ join [59]
           ((case ku_token u of Some t \<Rightarrow> if t = [] then [] else [js ''token='' @ escapeAttribute (utf8_encode t)]
             | None \<Rightarrow> []) @
            (case ku_object u of Some t \<Rightarrow> if t = [] then [] else [js ''object='' @ escapeAttribute (utf8_encode t)]
             | None \<Rightarrow> []) @
            (case ku_id u of Some i \<Rightarrow> if i = [] then [] else [js ''id='' @ escapeAttribute i] | None \<Rightarrow> []) @
            types)))"

definition hex2 :: "8 word \<Rightarrow> jstr" where
  "hex2 b = (let ds = int_digits 16 (uint b) in replicate (2 - length ds) 48 @ ds)"

definition keyUriHexId :: "key_uri \<Rightarrow> jstr" where
  "keyUriHexId u = (case ku_id u of None \<Rightarrow> [] | Some i \<Rightarrow> concat (map hex2 i))"


section \<open>Options\<close>

definition DEFAULT_MAX_SESSIONS :: rat where "DEFAULT_MAX_SESSIONS = 8"

text \<open>The PIN provider and an injected module are only tested for presence here.\<close>

record pkcs11_options =
  po_modulePath :: "jstr option"
  po_tokenLabel :: "jstr option"
  po_slotId :: "rat option"
  po_keyUri :: "jstr option"
  po_maxSessions :: "rat option"
  po_pin :: bool
  po_allowSecretExtraction :: "bool option"
  po_deactivateDestroys :: "bool option"
  po_rotateDisablesPrevious :: "bool option"
  po_module :: bool

record resolved_options =
  ro_modulePath :: jstr
  ro_tokenLabel :: jstr
  ro_slotId :: "rat option"
  ro_keyUri :: jstr
  ro_maxSessions :: rat
  ro_pin :: bool
  ro_allowSecretExtraction :: bool
  ro_deactivateDestroys :: bool
  ro_rotateDisablesPrevious :: bool
  ro_module :: bool

definition or_default :: "'a option \<Rightarrow> 'a \<Rightarrow> 'a" where
  "or_default v d = (case v of None \<Rightarrow> d | Some x \<Rightarrow> x)"

definition resolveOptions :: "pkcs11_options \<Rightarrow> resolved_options" where
  "resolveOptions c =
     \<lparr> ro_modulePath = trim (or_default (po_modulePath c) []),
       ro_tokenLabel = trim (or_default (po_tokenLabel c) []),
       ro_slotId = po_slotId c,
       ro_keyUri = trim (or_default (po_keyUri c) []),
       ro_maxSessions = (case po_maxSessions c of Some n \<Rightarrow> if 0 < n then n else DEFAULT_MAX_SESSIONS
                         | None \<Rightarrow> DEFAULT_MAX_SESSIONS),
       ro_pin = po_pin c,
       ro_allowSecretExtraction = or_default (po_allowSecretExtraction c) True,
       ro_deactivateDestroys = or_default (po_deactivateDestroys c) False,
       ro_rotateDisablesPrevious = or_default (po_rotateDisablesPrevious c) False,
       ro_module = po_module c \<rparr>"

definition validateOptions :: "resolved_options \<Rightarrow> pkcs11_error + unit" where
  "validateOptions c =
     (if \<not> ro_module c \<and> ro_modulePath c = [] then Inl ModuleRequired
      else if ro_tokenLabel c = [] \<and> ro_slotId c = None then Inl TokenRequired
      else if \<not> ro_pin c then Inl PinRequired
      else Inr ())"

definition resolveKeyUri :: "resolved_options \<Rightarrow> jstr \<Rightarrow> pkcs11_error + key_uri" where
  "resolveKeyUri c reference =
     (if trim reference \<noteq> [] then parseKeyUri (trim reference)
      else if ro_keyUri c \<noteq> [] then parseKeyUri (ro_keyUri c)
      else Inl KeyUriRequired)"

section \<open>Round trip\<close>

lemma low_hex_digit:
  assumes "0 \<le> d" "d < 16"
  shows "\<exists>u. upper_unit (digit_unit d) = [u] \<and> is_hex u \<and> digit_value u = d \<and> u \<noteq> 59 \<and> u \<noteq> 61 \<and> u \<noteq> 63 \<and>
    \<not> is_space u"
proof -
  have "d \<in> set [0, 1, 2, 3, 4, 5, 6, 7, 8, 9, 10, 11, 12, 13, 14, 15]" using assms by (simp, presburger)
  moreover have "list_all (\<lambda>d. case upper_unit (digit_unit d) of
      [u] \<Rightarrow> is_hex u \<and> digit_value u = d \<and> u \<noteq> 59 \<and> u \<noteq> 61 \<and> u \<noteq> 63 \<and> \<not> is_space u | _ \<Rightarrow> False)
      [0, 1, 2, 3, 4, 5, 6, 7, 8, 9, 10, 11, 12, 13, 14, 15]"
    by code_simp
  ultimately have "case upper_unit (digit_unit d) of
      [u] \<Rightarrow> is_hex u \<and> digit_value u = d \<and> u \<noteq> 59 \<and> u \<noteq> 61 \<and> u \<noteq> 63 \<and> \<not> is_space u | _ \<Rightarrow> False"
    unfolding list_all_iff by blast
  then show ?thesis by (simp split: list.splits)
qed

definition plain_unit :: "16 word \<Rightarrow> bool" where
  "plain_unit c \<longleftrightarrow> c \<noteq> 59 \<and> c \<noteq> 61 \<and> c \<noteq> 63 \<and> \<not> is_space c"

lemma upper_hex_pair:
  "\<exists>x y. upper_hex b = [x, y] \<and> is_hex x \<and> is_hex y \<and> word_of_int (digits_int 16 [x, y]) = b \<and>
     plain_unit x \<and> plain_unit y"
proof -
  let ?n = "uint b"
  have n: "0 \<le> ?n" "?n < 256" using uint_lt2p [of b] by simp_all
  then have q: "0 \<le> ?n div 16" "?n div 16 < 16" "0 \<le> ?n mod 16" "?n mod 16 < 16"
    by (simp_all add: pos_imp_zdiv_nonneg_iff)
  obtain x where x: "upper_unit (digit_unit (?n div 16)) = [x]" "is_hex x" "digit_value x = ?n div 16" "plain_unit x"
    using low_hex_digit [OF q(1,2)] unfolding plain_unit_def by blast
  obtain y where y: "upper_unit (digit_unit (?n mod 16)) = [y]" "is_hex y" "digit_value y = ?n mod 16" "plain_unit y"
    using low_hex_digit [OF q(3,4)] unfolding plain_unit_def by blast
  have "upper_hex b = [x, y]"
  proof (cases "?n < 16")
    case True
    then have "int_digits 16 ?n = [digit_unit ?n]" "?n div 16 = 0" "?n mod 16 = ?n"
      using n by (simp_all add: int_digits.simps)
    moreover from this x(1) have "x = 48"
      by (simp add: digit_unit_def upper_unit_def is_lower_def)
    ultimately show ?thesis using y(1) by (simp add: upper_hex_def upper_def)
  next
    case False
    then have "int_digits 16 ?n = [digit_unit (?n div 16), digit_unit (?n mod 16)]"
      using n by (subst int_digits.simps) (simp add: int_digits.simps)
    then show ?thesis using x(1) y(1) by (simp add: upper_hex_def upper_def)
  qed
  moreover have "digits_int 16 [x, y] = ?n"
    by (simp add: digits_int_def x(3) y(3))
  ultimately show ?thesis using x y by (auto simp: word_of_int_uint)
qed

lemma unreserved_plain:
  "unreservedAttributeByte b \<Longrightarrow> uint b < 128 \<and> plain_unit (ucast b) \<and> (ucast b :: 16 word) \<noteq> 37"
proof -
  have u: "uint (ucast b :: 16 word) = uint b" by (simp add: uint_up_ucast is_up)
  have e: "(ucast b :: 16 word) = c \<longleftrightarrow> uint b = uint c" for c by (metis u word_uint_eqI)
  show "unreservedAttributeByte b \<Longrightarrow> ?thesis"
    by (auto simp: unreservedAttributeByte_def Let_def plain_unit_def is_alpha_def is_upper_def is_lower_def
        is_digit_def is_space_def js_def word_le_def u e)
qed

lemma literal_byte:
  "uint b < 128 \<Longrightarrow> utf8_encode [ucast b] = [b]"
proof -
  assume b: "uint b < 128"
  have u: "uint (ucast b :: 16 word) = uint b" by (simp add: uint_up_ucast is_up)
  have "\<not> is_surrogate (ucast b)" using b by (auto simp: surrogate_iff u)
  then show ?thesis using b by (simp add: utf8_encode_def u utf8_point_def)
qed

lemma escape_plain: "list_all plain_unit (escapeAttribute bs)"
proof (induction bs)
  case (Cons b bs)
  have "list_all plain_unit (escape_byte b)"
    using unreserved_plain [of b] upper_hex_pair [of b]
    by (auto simp: escape_byte_def plain_unit_def is_space_def word_le_def)
  then show ?case using Cons by (simp add: escapeAttribute_def)
qed (simp add: escapeAttribute_def)

lemma unescape_escape: "unescape_units name (escapeAttribute bs) = Inr bs"
proof (induction bs)
  case (Cons b bs)
  have e: "escapeAttribute (b # bs) = escape_byte b @ escapeAttribute bs" by (simp add: escapeAttribute_def)
  show ?case
  proof (cases "unreservedAttributeByte b")
    case True
    then show ?thesis
      using unreserved_plain [OF True] Cons by (simp add: e escape_byte_def literal_byte)
  next
    case False
    obtain x y where "upper_hex b = [x, y]" "is_hex x" "is_hex y" "word_of_int (digits_int 16 [x, y]) = b"
      using upper_hex_pair [of b] by blast
    then show ?thesis using False Cons by (simp add: e escape_byte_def)
  qed
qed (simp add: escapeAttribute_def)


text \<open>
  The URIs in the scope of the round trip: a label or token, when present, is non-empty, well-formed text that does
  not start with U+FEFF (the decoder drops a leading byte-order mark, replaces ill-formed text, and an
  empty attribute is read as an absent one); an id, when present, is non-empty; and one of object and id is set.
\<close>

definition text_ok :: "jstr option \<Rightarrow> bool" where
  "text_ok v \<longleftrightarrow> (case v of None \<Rightarrow> True | Some t \<Rightarrow> t \<noteq> [] \<and> well_formed t \<and> hd t \<noteq> 0xFEFF)"

definition uri_ok :: "key_uri \<Rightarrow> bool" where
  "uri_ok u \<longleftrightarrow> text_ok (ku_token u) \<and> text_ok (ku_object u) \<and> ku_id u \<noteq> Some [] \<and>
     (ku_object u \<noteq> None \<or> ku_id u \<noteq> None)"

definition plain_text :: "jstr \<Rightarrow> bool" where
  "plain_text s \<longleftrightarrow> list_all (\<lambda>c. c \<noteq> 59 \<and> c \<noteq> 63 \<and> \<not> is_space c) s"

lemma plain_escape: "plain_text (escapeAttribute bs)" "61 \<notin> set (escapeAttribute bs)"
  using escape_plain [of bs] by (auto simp: plain_text_def list_all_iff plain_unit_def)

lemma attribute_parses:
  assumes "61 \<notin> set name" "name \<noteq> []"
  shows "parse_attribute (name @ 61 # escapeAttribute bs) u =
    (if name = js ''token'' then Inr (u \<lparr> ku_token := Some (utf8_decode bs) \<rparr>)
     else if name = js ''object'' then Inr (u \<lparr> ku_object := Some (utf8_decode bs) \<rparr>)
     else if name = js ''id'' then Inr (u \<lparr> ku_id := Some bs \<rparr>)
     else if name = js ''type'' then and_then (classFromType (utf8_decode bs)) (\<lambda>c. Inr (u \<lparr> ku_class := Some c \<rparr>))
     else Inr u)"
  using assms by (simp add: parse_attribute_def index_of_append unescapeAttribute_def unescape_escape Let_def)

definition token_part :: "key_uri \<Rightarrow> jstr list" where
  "token_part u = (case ku_token u of Some t \<Rightarrow> [js ''token'' @ 61 # escapeAttribute (utf8_encode t)] | None \<Rightarrow> [])"

definition object_part :: "key_uri \<Rightarrow> jstr list" where
  "object_part u = (case ku_object u of Some t \<Rightarrow> [js ''object'' @ 61 # escapeAttribute (utf8_encode t)] | None \<Rightarrow> [])"

definition id_part :: "key_uri \<Rightarrow> jstr list" where
  "id_part u = (case ku_id u of Some i \<Rightarrow> [js ''id'' @ 61 # escapeAttribute i] | None \<Rightarrow> [])"

definition type_part :: "key_uri \<Rightarrow> jstr list" where
  "type_part u = (case ku_class u of Some c \<Rightarrow> [js ''type'' @ 61 # projr (typeFromClass c)] | None \<Rightarrow> [])"

definition uri_parts :: "key_uri \<Rightarrow> jstr list" where
  "uri_parts u = token_part u @ object_part u @ id_part u @ type_part u"

lemmas part_defs = token_part_def object_part_def id_part_def type_part_def

lemma names_plain: "61 \<notin> set (js ''token'')" "61 \<notin> set (js ''object'')" "61 \<notin> set (js ''id'')"
  "61 \<notin> set (js ''type'')" "plain_text (js ''token'')" "plain_text (js ''object'')" "plain_text (js ''id'')"
  "plain_text (js ''type'')" "plain_text URI_SCHEME" "js ''token'' \<noteq> []" "js ''object'' \<noteq> []"
  "js ''id'' \<noteq> []" "js ''type'' \<noteq> []"
  by code_simp+

lemma plain_append: "plain_text (s @ t) \<longleftrightarrow> plain_text s \<and> plain_text t" "plain_text [61]"
  "plain_text (61 # s) \<longleftrightarrow> plain_text s"
  by (auto simp: plain_text_def is_space_def)

lemma type_text: "\<exists>t. typeFromClass c = Inr t \<and> plain_text t \<and> t \<noteq> [] \<and> unescape_units n t = Inr (utf8_encode t) \<and>
    classFromType (utf8_decode (utf8_encode t)) = Inr c"
proof -
  have "list_all (\<lambda>c. case typeFromClass c of Inr t \<Rightarrow> plain_text t \<and> t \<noteq> [] \<and> 37 \<notin> set t \<and>
      list_all (\<lambda>u. \<not> is_surrogate u) t \<and>
      classFromType (utf8_decode (utf8_encode t)) = Inr c | _ \<Rightarrow> False)
      [Data, Certificate, PublicKey, PrivateKey, SecretKey]"
    by code_simp
  moreover have "c \<in> set [Data, Certificate, PublicKey, PrivateKey, SecretKey]" by (cases c) simp_all
  ultimately obtain t where t: "typeFromClass c = Inr t" "plain_text t" "t \<noteq> []" "37 \<notin> set t"
    "list_all (\<lambda>u. \<not> is_surrogate u) t" "classFromType (utf8_decode (utf8_encode t)) = Inr c"
    unfolding list_all_iff by (fastforce split: sum.splits)
  have "37 \<notin> set s \<Longrightarrow> list_all (\<lambda>u. \<not> is_surrogate u) s \<Longrightarrow> unescape_units n s = Inr (utf8_encode s)" for s
  proof (induction s)
    case (Cons a s)
    have "code_points (a # s) = uint a # code_points s"
      using Cons.prems by (cases s) (auto simp: is_surrogate_def)
    then show ?case using Cons by (simp add: utf8_encode_def)
  qed (simp add: utf8_encode_def)
  then show ?thesis using t by blast
qed

lemma type_proj: "typeFromClass c = Inr (projr (typeFromClass c))" "plain_text (projr (typeFromClass c))"
  using type_text [of c] by (metis sum.sel(2))+

lemma format_parts: "uri_ok u \<Longrightarrow> formatKeyUri u = Inr (URI_SCHEME @ join [59] (uri_parts u))"
proof -
  assume u: "uri_ok u"
  have eqs: "js ''token='' = js ''token'' @ [61]" "js ''object='' = js ''object'' @ [61]"
    "js ''id='' = js ''id'' @ [61]" "js ''type='' = js ''type'' @ [61]" by code_simp+
  have c: "(case ku_class u of None \<Rightarrow> Inr [] | Some c \<Rightarrow>
      and_then (typeFromClass c) (\<lambda>t. Inr [js ''type='' @ t])) = Inr (type_part u)"
    using type_proj by (cases "ku_class u") (simp_all add: type_part_def eqs, metis and_then.simps(2))
  show ?thesis using u
    by (auto simp: formatKeyUri_def c uri_parts_def token_part_def object_part_def id_part_def uri_ok_def
        text_ok_def eqs split: option.splits)
qed

lemma parts_plain: "p \<in> set (uri_parts u) \<Longrightarrow> plain_text p \<and> p \<noteq> []"
  using type_proj by (auto simp: uri_parts_def part_defs plain_append names_plain plain_escape split: option.splits)

lemma empty_fields: "ku_token empty_uri = None" "ku_object empty_uri = None" "ku_id empty_uri = None"
  "ku_class empty_uri = None"
  by (simp_all add: empty_uri_def)

lemma parts_parse:
  assumes "uri_ok u"
  shows "parse_attributes (uri_parts u) empty_uri = Inr u"
proof -
  have n: "js ''object'' \<noteq> js ''token''" "js ''id'' \<noteq> js ''token''" "js ''id'' \<noteq> js ''object''"
    "js ''type'' \<noteq> js ''token''" "js ''type'' \<noteq> js ''object''" "js ''type'' \<noteq> js ''id''"
    by (simp_all add: js_inject)
  have app: "parse_attributes (ps @ qs) v = and_then (parse_attributes ps v) (parse_attributes qs)" for ps qs v
  proof (induction ps arbitrary: v)
    case (Cons p ps)
    then show ?case by (cases "parse_attribute p v") simp_all
  qed simp
  have rt: "utf8_decode (utf8_encode t) = t" if "text_ok (Some t)" for t
    using that utf8_round_trip [of t] by (auto simp: text_ok_def)
  have 1: "parse_attributes (token_part u) empty_uri = Inr (empty_uri \<lparr> ku_token := ku_token u \<rparr>)"
    using assms rt by (auto simp: token_part_def attribute_parses names_plain uri_ok_def empty_uri_def split: option.splits)
  have 2: "parse_attributes (object_part u) v = Inr (v \<lparr> ku_object := ku_object u \<rparr>)" if "ku_object v = None" for v
    using assms rt n that by (auto simp: object_part_def attribute_parses names_plain uri_ok_def split: option.splits)
  have 3: "parse_attributes (id_part u) v = Inr (v \<lparr> ku_id := ku_id u \<rparr>)" if "ku_id v = None" for v
    using n that by (auto simp: id_part_def attribute_parses names_plain split: option.splits)
  have 4: "parse_attributes (type_part u) v = Inr (v \<lparr> ku_class := ku_class u \<rparr>)" if "ku_class v = None" for v
  proof (cases "ku_class u")
    case (Some c)
    obtain t where t: "typeFromClass c = Inr t" "unescape_units (js ''type'') t = Inr (utf8_encode t)"
      "classFromType (utf8_decode (utf8_encode t)) = Inr c" using type_text by metis
    then show ?thesis using n Some
      by (simp add: type_part_def parse_attribute_def index_of_append names_plain unescapeAttribute_def Let_def)
  qed (use that in \<open>simp add: type_part_def\<close>)
  show ?thesis
    unfolding uri_parts_def by (simp add: app 1 2 3 4 empty_fields)
qed

lemma uri_reads:
  assumes "uri_ok u"
  shows "\<exists>s. formatKeyUri u = Inr s \<and> isKeyUri s \<and> trim s = s \<and> parseKeyUri s = Inr u"
proof -
  let ?body = "join [59] (uri_parts u)" and ?s = "URI_SCHEME @ join [59] (uri_parts u)"
  have ne: "uri_parts u \<noteq> []"
    using assms by (auto simp: uri_parts_def part_defs uri_ok_def split: option.splits)
  have sp: "split_on 59 ?body = uri_parts u"
    using parts_plain by (intro split_join [OF ne]) (auto simp: plain_text_def list_all_iff)
  have plain: "c \<in> set ?body \<Longrightarrow> c = 59 \<or> (c \<noteq> 63 \<and> \<not> is_space c)" for c
  proof -
    assume c: "c \<in> set ?body"
    have "set (join [59] ps) \<subseteq> insert 59 (\<Union> (set ` set ps))" for ps :: "jstr list"
      by (induction "[59 :: 16 word]" ps rule: join.induct) auto
    with c have "c = 59 \<or> (\<exists>p \<in> set (uri_parts u). c \<in> set p)" by fastforce
    then show ?thesis using parts_plain by (auto simp: plain_text_def list_all_iff)
  qed
  have q: "63 \<notin> set ?body" using plain by force
  have b: "?body \<noteq> []" using sp ne parts_plain [of "[]" u] by (metis list.set_intros(1) split_on.simps(1))
  have "\<not> is_space (59 :: 16 word)" by code_simp
  then have ns: "\<not> is_space c" if "c \<in> set ?s" for c
    using that plain names_plain(9) by (auto simp: plain_text_def list_all_iff)
  have "?s \<noteq> []" using b by simp
  then have "trimmed ?s" using ns [OF hd_in_set] ns [OF last_in_set] unfolding trimmed_def by blast
  then have t: "trim ?s = ?s" by (rule trimmed_trim)
  then have k: "isKeyUri ?s" by (simp add: isKeyUri_def starts_with_def)
  have i: "index_of 63 ?body = None" using q by (simp add: index_of_None)
  have "some_text (ku_object u) \<or> some_text (ku_id u)"
    using assms by (auto simp: uri_ok_def some_text_def text_ok_def)
  then have "parseKeyUri ?s = Inr u"
    using k b by (simp add: parseKeyUri_def Let_def rejectPinAttributes_def t i sp parts_parse [OF assms])
  then show ?thesis using k t format_parts [OF assms] by blast
qed

text \<open>
  C16: URI round trip.  A key URI whose label and token are absent or non-empty, well-formed text
  without a leading U+FEFF, whose id is absent or non-empty bytes (arbitrary binary), and which has a label or
  an id, is formatted to a text that is recognised as a PKCS#11 URI and parses back to the same token,
  object, id and class.  Outside this scope the code does not round-trip.
\<close>

theorem uri_round_trip:
  assumes "uri_ok u"
  shows "\<exists>s. formatKeyUri u = Inr s \<and> isKeyUri s \<and> parseKeyUri s = Inr u"
  using uri_reads [OF assms] by blast

theorem uri_round_trip_witness:
  "\<exists>s. formatKeyUri \<lparr> ku_token = Some (js ''slot''), ku_object = None, ku_id = Some [0, 255], ku_class = Some PrivateKey \<rparr> = Inr s \<and>
     parseKeyUri s = Inr \<lparr> ku_token = Some (js ''slot''), ku_object = None, ku_id = Some [0, 255], ku_class = Some PrivateKey \<rparr>"
proof -
  have "uri_ok \<lparr> ku_token = Some (js ''slot''), ku_object = None, ku_id = Some [0, 255], ku_class = Some PrivateKey \<rparr>"
    by code_simp
  from uri_round_trip [OF this] show ?thesis by blast
qed

end
