(* ===== verification/Pkcs11_Slot.thy ===== *)
theory Pkcs11_Slot
  imports Pkcs11_Session Pkcs11_Uri
begin

text \<open>
  What surrounds the session pool in \<^verbatim>\<open>src/encrypt/pkcs11/session.ts\<close>: the caches of in-flight promises
  (the module registry, the injected modules and the slots of a module are one pattern), the selection of a
  slot, and the login that the sessions of a slot share.
\<close>

section \<open>Promise caches\<close>

text \<open>
  A cache maps a key to a promise, created on first use.  A promise that rejects removes the entry of its
  key, whatever entry is there by then.
\<close>

datatype promise_state = Loading | Loaded | LoadFailed

record 'k promise_cache =
  pc_entries :: "('k \<times> nat) list"
  pc_promises :: "('k \<times> promise_state) list"
  pc_answers :: "('k \<times> nat) list"

definition newCache :: "'k promise_cache" where
  "newCache = \<lparr> pc_entries = [], pc_promises = [], pc_answers = [] \<rparr>"

definition cache_delete :: "'k \<Rightarrow> 'k promise_cache \<Rightarrow> 'k promise_cache" where
  "cache_delete k c = c\<lparr>pc_entries := filter (\<lambda>(l, i). l \<noteq> k) (pc_entries c)\<rparr>"

definition cache_get :: "'k \<Rightarrow> 'k promise_cache \<Rightarrow> 'k promise_cache" where
  "cache_get k c =
     (case map_of (pc_entries c) k of
        Some i \<Rightarrow> c\<lparr>pc_answers := pc_answers c @ [(k, i)]\<rparr>
      | None \<Rightarrow>
          (let i = length (pc_promises c)
           in c\<lparr>pc_entries := (k, i) # pc_entries c, pc_promises := pc_promises c @ [(k, Loading)],
                pc_answers := pc_answers c @ [(k, i)]\<rparr>))"

definition cache_settle :: "nat \<Rightarrow> bool \<Rightarrow> 'k promise_cache \<Rightarrow> 'k promise_cache" where
  "cache_settle i ok c =
     (let k = fst (pc_promises c ! i);
          d = c\<lparr>pc_promises := (pc_promises c)[i := (k, if ok then Loaded else LoadFailed)]\<rparr>
      in if ok then d else cache_delete k d)"

datatype 'k cache_event = Get 'k | Settle nat bool | Forget 'k

fun cache_exec :: "'k promise_cache \<Rightarrow> 'k cache_event \<Rightarrow> 'k promise_cache option" where
  "cache_exec c (Get k) = Some (cache_get k c)"
| "cache_exec c (Settle i ok) =
     (if i < length (pc_promises c) \<and> snd (pc_promises c ! i) = Loading then Some (cache_settle i ok c) else None)"
| "cache_exec c (Forget k) = Some (cache_delete k c)"

fun keeps_entries :: "'k cache_event \<Rightarrow> bool" where
  "keeps_entries (Forget k) = False"
| "keeps_entries _ = True"

text \<open>Without a release, the entries are exactly the promises that did not fail, one per key.\<close>

definition cache_inv :: "'k promise_cache \<Rightarrow> bool" where
  "cache_inv c \<longleftrightarrow>
     distinct (map fst (pc_entries c)) \<and>
     set (pc_entries c) = {(k, i). i < length (pc_promises c) \<and> fst (pc_promises c ! i) = k \<and>
       snd (pc_promises c ! i) \<noteq> LoadFailed} \<and>
     (\<forall>(k, i) \<in> set (pc_answers c). i < length (pc_promises c) \<and> fst (pc_promises c ! i) = k)"

lemma cache_get_inv:
  assumes c: "cache_inv c"
  shows "cache_inv (cache_get k c)"
proof (cases "map_of (pc_entries c) k")
  case (Some i)
  then have "(k, i) \<in> set (pc_entries c)" by (rule map_of_SomeD)
  then show ?thesis using c Some by (auto simp: cache_inv_def cache_get_def)
next
  case None
  then have "k \<notin> fst ` set (pc_entries c)" by (simp add: map_of_eq_None_iff)
  moreover have "set (pc_entries c) = {(l, i). i < length (pc_promises c) \<and> fst (pc_promises c ! i) = l \<and>
      snd (pc_promises c ! i) \<noteq> LoadFailed}"
    using c by (simp add: cache_inv_def)
  moreover have "{(l, i). i < length (pc_promises c @ [(k, Loading)]) \<and>
        fst ((pc_promises c @ [(k, Loading)]) ! i) = l \<and> snd ((pc_promises c @ [(k, Loading)]) ! i) \<noteq> LoadFailed} =
      insert (k, length (pc_promises c)) {(l, i). i < length (pc_promises c) \<and> fst (pc_promises c ! i) = l \<and>
        snd (pc_promises c ! i) \<noteq> LoadFailed}"
    by (auto simp: nth_append less_Suc_eq)
  ultimately show ?thesis using c unfolding cache_inv_def cache_get_def None
    by (auto simp: Let_def nth_append)
qed

lemma cache_settle_inv:
  assumes c: "cache_inv c" and i: "i < length (pc_promises c)" "snd (pc_promises c ! i) = Loading"
  shows "cache_inv (cache_settle i ok c)"
proof -
  let ?k = "fst (pc_promises c ! i)"
  have own: "(?k, i) \<in> set (pc_entries c)" using c i by (simp add: cache_inv_def)
  have only: "j = i" if "(?k, j) \<in> set (pc_entries c)" for j
    using c own that by (metis cache_inv_def eq_key_imp_eq_value)
  have "distinct (map fst (filter (\<lambda>(l, i). l \<noteq> ?k) (pc_entries c)))"
    using c by (simp add: cache_inv_def distinct_map_filter)
  moreover have "set (filter (\<lambda>(l, j). l \<noteq> ?k) (pc_entries c)) =
      {(k, j). j < length (pc_promises c) \<and> fst ((pc_promises c)[i := (?k, LoadFailed)] ! j) = k \<and>
        snd ((pc_promises c)[i := (?k, LoadFailed)] ! j) \<noteq> LoadFailed}"
    using c only i by (auto simp: cache_inv_def nth_list_update)
  ultimately show ?thesis
    using c i by (auto simp: cache_settle_def cache_delete_def cache_inv_def Let_def nth_list_update split: if_splits)
qed

interpretation cache: event_system "\<lambda>c e d. cache_exec c e = Some d \<and> keeps_entries e" newCache cache_inv
proof
  show "cache_inv newCache" by (simp add: cache_inv_def newCache_def)
next
  fix c d :: "'k promise_cache" and e
  assume "cache_inv c" "cache_exec c e = Some d \<and> keeps_entries e"
  then show "cache_inv d" by (cases e) (auto intro: cache_get_inv cache_settle_inv split: if_splits)
qed

section \<open>Choosing a slot\<close>

record slot_info =
  si_id :: rat
  si_tokenLabel :: jstr
  si_tokenPresent :: bool
  si_maxSessions :: rat

record slot_state =
  sl_id :: rat
  sl_mechanisms :: "int list"
  sl_pool :: session_pool

definition newSlotState :: "rat \<Rightarrow> int list \<Rightarrow> rat \<Rightarrow> slot_state" where
  "newSlotState i mechanisms maxSessions =
     \<lparr> sl_id = i, sl_mechanisms = mechanisms, sl_pool = newSessionPool maxSessions \<rparr>"

definition supports :: "slot_state \<Rightarrow> int \<Rightarrow> bool" where
  "supports slot m \<longleftrightarrow> m \<in> set (sl_mechanisms slot)"

definition requireMechanism :: "slot_state \<Rightarrow> int \<Rightarrow> pkcs11_error + unit" where
  "requireMechanism slot m = (if supports slot m then Inr () else Inl (UnsupportedMechanism (mechanismName m)))"

text \<open>Numbers and JSON texts are printed by the runtime: \<open>show_number\<close> and \<open>json_text\<close> are arguments.\<close>

definition slot_key :: "(rat option \<Rightarrow> jstr) \<Rightarrow> resolved_options \<Rightarrow> jstr" where
  "slot_key show_number c =
     (if ro_tokenLabel c \<noteq> [] then js ''label:'' @ ro_tokenLabel c else js ''slot:'' @ show_number (ro_slotId c))"

definition select_slot ::
  "(rat option \<Rightarrow> jstr) \<Rightarrow> (jstr \<Rightarrow> jstr) \<Rightarrow> resolved_options \<Rightarrow> slot_info list \<Rightarrow> pkcs11_error + slot_info" where
  "select_slot show_number json_text c slots =
     (case (if ro_tokenLabel c \<noteq> [] then find (\<lambda>s. si_tokenLabel s = ro_tokenLabel c) slots
            else find (\<lambda>s. Some (si_id s) = ro_slotId c) slots) of
        Some s \<Rightarrow> Inr s
      | None \<Rightarrow>
          Inl (Pkcs11Error (if ro_tokenLabel c \<noteq> []
                 then js ''pkcs11: no token with label '' @ json_text (ro_tokenLabel c)
                 else js ''pkcs11: no token in slot '' @ show_number (ro_slotId c))))"

definition session_bound :: "resolved_options \<Rightarrow> slot_info \<Rightarrow> rat" where
  "session_bound c s = (if 0 < si_maxSessions s then min (ro_maxSessions c) (si_maxSessions s) else ro_maxSessions c)"

definition resolveSlot ::
  "(rat option \<Rightarrow> jstr) \<Rightarrow> (jstr \<Rightarrow> jstr) \<Rightarrow> resolved_options \<Rightarrow> pkcs11_error + slot_info list \<Rightarrow>
   (rat \<Rightarrow> pkcs11_error + int list) \<Rightarrow> pkcs11_error + slot_state" where
  "resolveSlot show_number json_text c slots mechanisms =
     and_then slots (\<lambda>ss. and_then (select_slot show_number json_text c ss) (\<lambda>s.
       and_then (mechanisms (si_id s)) (\<lambda>ms. Inr (newSlotState (si_id s) ms (session_bound c s)))))"


section \<open>Shared login\<close>

text \<open>
  An attempt runs from the PIN prompt to the answer of \<^verbatim>\<open>C_Login\<close>; its handler clears the shared promise
  some microtasks after it settled.
\<close>

datatype login_attempt = Running | LoginOk | LoginFailed pkcs11_error

record login_state =
  lg_loggedIn :: bool
  lg_login :: "nat option"
  lg_attempts :: "login_attempt list"
  lg_cleared :: "nat list"
  lg_joined :: "(nat \<times> nat) list"
  lg_passed :: "nat list"

definition newLogin :: login_state where
  "newLogin = \<lparr> lg_loggedIn = False, lg_login = None, lg_attempts = [], lg_cleared = [], lg_joined = [], lg_passed = [] \<rparr>"

definition login :: "nat \<Rightarrow> login_state \<Rightarrow> login_state" where
  "login c s =
     (if lg_loggedIn s then s\<lparr>lg_passed := lg_passed s @ [c]\<rparr>
      else
        (case lg_login s of
           Some a \<Rightarrow> s\<lparr>lg_joined := lg_joined s @ [(c, a)]\<rparr>
         | None \<Rightarrow>
             (let a = length (lg_attempts s)
              in s\<lparr>lg_login := Some a, lg_attempts := lg_attempts s @ [Running],
                   lg_joined := lg_joined s @ [(c, a)]\<rparr>)))"

definition attemptSettles :: "nat \<Rightarrow> pkcs11_error option \<Rightarrow> login_state \<Rightarrow> login_state" where
  "attemptSettles a failure s =
     (case failure of
        None \<Rightarrow> s\<lparr>lg_attempts := (lg_attempts s)[a := LoginOk], lg_loggedIn := True\<rparr>
      | Some e \<Rightarrow> s\<lparr>lg_attempts := (lg_attempts s)[a := LoginFailed e]\<rparr>)"

definition loginCleared :: "nat \<Rightarrow> login_state \<Rightarrow> login_state" where
  "loginCleared a s = s\<lparr>lg_login := None, lg_cleared := a # lg_cleared s\<rparr>"

definition resetLogin :: "login_state \<Rightarrow> login_state" where
  "resetLogin s = s\<lparr>lg_loggedIn := False\<rparr>"

datatype login_event = Login nat | AttemptSettles nat "pkcs11_error option" | LoginCleared nat | ResetLogin

fun login_exec :: "login_state \<Rightarrow> login_event \<Rightarrow> login_state option" where
  "login_exec s (Login c) = Some (login c s)"
| "login_exec s (AttemptSettles a f) =
     (if a < length (lg_attempts s) \<and> lg_attempts s ! a = Running then Some (attemptSettles a f s) else None)"
| "login_exec s (LoginCleared a) =
     (if a < length (lg_attempts s) \<and> lg_attempts s ! a \<noteq> Running \<and> a \<notin> set (lg_cleared s)
      then Some (loginCleared a s) else None)"
| "login_exec s ResetLogin = Some (resetLogin s)"

fun not_reset :: "login_event \<Rightarrow> bool" where
  "not_reset ResetLogin = False"
| "not_reset _ = True"

definition failed :: "login_attempt \<Rightarrow> bool" where
  "failed a \<longleftrightarrow> (case a of LoginFailed e \<Rightarrow> True | _ \<Rightarrow> False)"

text \<open>Attempts run one after the other: only the last can be running, and the shared promise is the last.\<close>

definition login_inv :: "login_state \<Rightarrow> bool" where
  "login_inv s \<longleftrightarrow>
     list_all failed (butlast (lg_attempts s)) \<and>
     (lg_loggedIn s \<longleftrightarrow> lg_attempts s \<noteq> [] \<and> last (lg_attempts s) = LoginOk) \<and>
     (\<forall>a < length (lg_attempts s). a \<notin> set (lg_cleared s) \<longrightarrow> lg_login s = Some a) \<and>
     (case lg_login s of Some a \<Rightarrow> a < length (lg_attempts s) \<and> a \<notin> set (lg_cleared s) | None \<Rightarrow> True) \<and>
     (\<forall>a \<in> set (lg_cleared s). a < length (lg_attempts s) \<and> lg_attempts s ! a \<noteq> Running) \<and>
     (\<forall>(c, a) \<in> set (lg_joined s). a < length (lg_attempts s))"

lemma last_attempt:
  assumes "list_all failed (butlast as)" "a < length as" "\<not> failed (as ! a)"
  shows "a = length as - 1"
proof (rule ccontr)
  assume "a \<noteq> length as - 1"
  then have "a < length (butlast as)" using assms(2) by simp
  then show False using assms(1,3) by (auto simp: list_all_length nth_butlast)
qed

lemma login_starts_inv:
  assumes i: "login_inv s" and n: "\<not> lg_loggedIn s" "lg_login s = None"
  shows "list_all failed (lg_attempts s)"
proof (cases "lg_attempts s = []")
  case False
  then obtain as x where s: "lg_attempts s = as @ [x]" by (metis rev_exhaust)
  have "length as \<in> set (lg_cleared s)" using i n s by (auto simp: login_inv_def)
  then have "x \<noteq> Running" using i s by (fastforce simp: login_inv_def)
  moreover have "x \<noteq> LoginOk" using i n s by (simp add: login_inv_def)
  ultimately have "failed x" by (cases x) (simp_all add: failed_def)
  then show ?thesis using i s by (simp add: login_inv_def)
qed simp

lemma login_op_inv: "login_inv s \<Longrightarrow> login_inv (login c s)"
  using login_starts_inv [of s]
  by (cases "lg_login s")
     (auto simp: login_def login_inv_def Let_def nth_append less_Suc_eq failed_def split: if_splits)

lemma attempt_settles_inv:
  assumes i: "login_inv s" and a: "a < length (lg_attempts s)" "lg_attempts s ! a = Running"
  shows "login_inv (attemptSettles a f s)"
proof -
  have l: "a = length (lg_attempts s) - 1"
    using i a by (intro last_attempt) (auto simp: login_inv_def failed_def)
  then obtain as where s: "lg_attempts s = as @ [Running]" "a = length as"
    using a by (metis append_butlast_last_id last_conv_nth length_butlast list.size(3) not_less_zero)
  have "lg_login s = Some a" "a \<notin> set (lg_cleared s)" using i a by (auto simp: login_inv_def)
  moreover note s(2)
  moreover have "\<not> lg_loggedIn s" using i s by (simp add: login_inv_def)
  moreover have u: "(lg_attempts s)[a := x] = as @ [x]" for x using s by simp
  moreover have "list_all failed as" using i s by (simp add: login_inv_def)
  moreover have "\<forall>b \<in> set (lg_cleared s). b < length as"
  proof
    fix b assume b: "b \<in> set (lg_cleared s)"
    then have "b < length (lg_attempts s)" "lg_attempts s ! b \<noteq> Running" using i by (auto simp: login_inv_def)
    then show "b < length as" using s by (cases "b = length as") auto
  qed
  moreover have "\<forall>b < length as. b \<notin> set (lg_cleared s) \<longrightarrow> lg_login s = Some b" "\<forall>(c, b) \<in> set (lg_joined s). b < Suc (length as)"
    "\<forall>b \<in> set (lg_cleared s). as ! b \<noteq> Running"
    using i s calculation(7) by (auto simp: login_inv_def nth_append)
  ultimately show ?thesis
    by (cases f) (simp_all add: attemptSettles_def login_inv_def nth_append less_Suc_eq all_conj_distrib)
qed

lemma cleared_inv:
  assumes i: "login_inv s" and a: "a < length (lg_attempts s)" "lg_attempts s ! a \<noteq> Running" "a \<notin> set (lg_cleared s)"
  shows "login_inv (loginCleared a s)"
proof -
  have o: "\<forall>b < length (lg_attempts s). b \<notin> set (lg_cleared s) \<longrightarrow> lg_login s = Some b"
    using i by (simp add: login_inv_def)
  then have "lg_login s = Some a" using a by blast
  then have "\<forall>b < length (lg_attempts s). b \<in> set (a # lg_cleared s)" using o by auto
  moreover have "\<forall>b \<in> set (a # lg_cleared s). b < length (lg_attempts s) \<and> lg_attempts s ! b \<noteq> Running"
    using i a by (simp add: login_inv_def)
  ultimately show ?thesis using i unfolding login_inv_def loginCleared_def by simp
qed

interpretation login: event_system "\<lambda>s e t. login_exec s e = Some t \<and> not_reset e" newLogin login_inv
proof
  show "login_inv newLogin" by (simp add: login_inv_def newLogin_def)
next
  fix s t e
  assume "login_inv s" "login_exec s e = Some t \<and> not_reset e"
  then show "login_inv t" by (cases e) (auto intro: login_op_inv attempt_settles_inv cleared_inv split: if_splits)
qed


section \<open>Properties\<close>

text \<open>
  One promise per key.  Until a module is released, all the calls that name the same key share one promise,
  as long as it does not fail: of two answers for a key, one failed or they are the same.  A failed promise is
  not replayed: the entries are exactly the promises that did not fail.
\<close>

theorem promise_cache_shares:
  assumes "trace (\<lambda>c e d. cache_exec c e = Some d \<and> keeps_entries e) newCache es c"
    and "(k, i) \<in> set (pc_answers c)" "(k, j) \<in> set (pc_answers c)"
    and "snd (pc_promises c ! i) \<noteq> LoadFailed" "snd (pc_promises c ! j) \<noteq> LoadFailed"
  shows "i = j \<and> map_of (pc_entries c) k = Some i"
proof -
  have inv: "cache_inv c" by (rule cache.reachable_inv [OF assms(1)])
  then have "(k, i) \<in> set (pc_entries c)" "(k, j) \<in> set (pc_entries c)" "distinct (map fst (pc_entries c))"
    using assms(2-5) by (auto simp: cache_inv_def)
  then show ?thesis by (metis eq_key_imp_eq_value map_of_eq_Some_iff)
qed

theorem promise_cache_shares_witness:
  "\<exists>c. trace (\<lambda>c e d. cache_exec c e = Some d \<and> keeps_entries e) newCache
      [Get (1 :: nat), Settle 0 False, Get 1, Get 1] c \<and> map_of (pc_entries c) 1 = Some 1"
proof -
  let ?step = "\<lambda>c e d. cache_exec c e = Some d \<and> keeps_entries e"
  let ?c = "cache_get (1 :: nat) (cache_get 1 (cache_settle 0 False (cache_get 1 newCache)))"
  have t: "trace ?step newCache [Get (1 :: nat), Settle 0 False, Get 1, Get 1] ?c"
    by (rule trace_Cons [where step = ?step and t = "cache_get 1 newCache"], simp,
        rule trace_Cons [where step = ?step and t = "cache_settle 0 False (cache_get 1 newCache)"],
        simp add: newCache_def cache_get_def Let_def,
        rule trace_Cons [where step = ?step and t = "cache_get 1 (cache_settle 0 False (cache_get 1 newCache))"], simp,
        rule trace_single [where step = ?step], simp)
  have "pc_answers ?c = [(1, 0), (1, 1), (1, 1)]" "pc_promises ?c = [(1, LoadFailed), (1, Loading)]"
    by (simp_all add: newCache_def cache_get_def cache_settle_def cache_delete_def Let_def)
  then have "map_of (pc_entries ?c) 1 = Some 1"
    using promise_cache_shares [OF t, of 1 1 1] by simp
  then show ?thesis using t by blast
qed

text \<open>
  One login per token.  Until the login is reset, login attempts run one after the other, every attempt
  before the last has failed, and the token counts as logged in exactly when the last attempt succeeded;
  callers that wait for the attempt under way all share it.
\<close>

theorem login_once:
  assumes "trace (\<lambda>s e t. login_exec s e = Some t \<and> not_reset e) newLogin es s"
  shows "list_all failed (butlast (lg_attempts s)) \<and>
    (lg_loggedIn s \<longleftrightarrow> lg_attempts s \<noteq> [] \<and> last (lg_attempts s) = LoginOk) \<and>
    list_all (\<lambda>(c, a). if lg_attempts s ! a = Running then lg_login s = Some a else True) (lg_joined s)"
proof -
  have i: "login_inv s" by (rule login.reachable_inv [OF assms])
  have "lg_login s = Some a" if "(c, a) \<in> set (lg_joined s)" "lg_attempts s ! a = Running" for c a
    using i that by (auto simp: login_inv_def)
  then show ?thesis using i by (auto simp: login_inv_def list_all_iff)
qed

theorem login_once_witness:
  "\<exists>s. trace (\<lambda>s e t. login_exec s e = Some t \<and> not_reset e) newLogin [Login 1, Login 2] s \<and>
    lg_joined s = [(1, 0), (2, 0)] \<and> lg_login s = Some 0 \<and> \<not> lg_loggedIn s"
proof -
  let ?step = "\<lambda>s e t. login_exec s e = Some t \<and> not_reset e"
  let ?s = "login 2 (login 1 newLogin)"
  have t: "trace ?step newLogin [Login 1, Login 2] ?s"
    by (rule trace_Cons [where step = ?step and t = "login 1 newLogin"], simp, rule trace_single [where step = ?step], simp)
  have "lg_joined ?s = [(1, 0), (2, 0)]" "lg_attempts ?s = [Running]"
    by (simp_all add: newLogin_def login_def Let_def)
  then show ?thesis using login_once [OF t] t by auto
qed

text \<open>
  A shared attempt fails for everybody: cancelling the PIN prompt of one caller fails the caller that joined.
\<close>

lemma login_failure_shared:
  "lg_joined (attemptSettles 0 (Some e) (login 2 (login 1 newLogin))) = [(1, 0), (2, 0)]"
  "lg_attempts (attemptSettles 0 (Some e) (login 2 (login 1 newLogin))) = [LoginFailed e]"
  by (simp_all add: newLogin_def login_def attemptSettles_def Let_def)

text \<open>A token named by its label and by its slot gets two cache entries, so two pools and two logins.\<close>

lemma two_selectors_two_states:
  assumes "ro_tokenLabel c = si_tokenLabel s" "si_tokenLabel s \<noteq> []" "ro_tokenLabel d = []" "ro_slotId d = Some (si_id s)"
  shows "select_slot show_number json_text c [s] = Inr s \<and> select_slot show_number json_text d [s] = Inr s \<and>
    slot_key show_number c \<noteq> slot_key show_number d"
  using assms by (simp add: select_slot_def slot_key_def js_def)

end
