(* ===== verification/Pkcs11_Keys.thy ===== *)
theory Pkcs11_Keys
  imports Pkcs11_Uri Pkcs11_Cryptoki
begin

text \<open>
  Object lookup and public-key reconstruction of \<^verbatim>\<open>src/encrypt/pkcs11/keys.ts\<close>: the DER
  writer and reader, elliptic-curve points, SPKI keys and the walk through a certificate.

  Offsets are integers and may be NaN (None), because the reader accumulates a length in signed 32-bit
  arithmetic and an index outside the array reads as undefined.  The token's search and the Base64 encoder
  are arguments.
\<close>

unbundle bit_operations_syntax

section \<open>Writing DER\<close>

function be_bytes :: "nat \<Rightarrow> bytes" where
  "be_bytes n = (if n = 0 then [] else be_bytes (n div 256) @ [word_of_nat (n mod 256)])"
  by auto
termination by (relation "measure id") auto

declare be_bytes.simps [simp del]

definition derLength :: "nat \<Rightarrow> bytes" where
  "derLength n =
     (if n < 0x80 then [word_of_nat n]
      else (0x80 OR word_of_nat (length (be_bytes n))) # be_bytes n)"

definition tagged :: "8 word \<Rightarrow> bytes \<Rightarrow> bytes" where
  "tagged tag content = [tag] @ derLength (length content) @ content"

definition sequence :: "bytes \<Rightarrow> bytes" where
  "sequence content = tagged 0x30 content"

definition bitString :: "bytes \<Rightarrow> bytes" where
  "bitString content = tagged 0x03 (0 # content)"

fun strip_zeros :: "bytes \<Rightarrow> bytes" where
  "strip_zeros (a # b # s) = (if a = 0 then strip_zeros (b # s) else a # b # s)"
| "strip_zeros s = s"

definition der_integer :: "bytes \<Rightarrow> bytes" where
  "der_integer magnitude =
     (let t = strip_zeros magnitude
      in tagged 0x02 (if t \<noteq> [] \<and> hd t AND 0x80 \<noteq> 0 then 0 # t else t))"

definition OID_RSA_ENCRYPTION :: bytes where
  "OID_RSA_ENCRYPTION = [0x06, 0x09, 0x2a, 0x86, 0x48, 0x86, 0xf7, 0x0d, 0x01, 0x01, 0x01]"

definition OID_EC_PUBLIC_KEY :: bytes where
  "OID_EC_PUBLIC_KEY = [0x06, 0x07, 0x2a, 0x86, 0x48, 0xce, 0x3d, 0x02, 0x01]"

definition DER_NULL :: bytes where "DER_NULL = [0x05, 0x00]"

section \<open>Reading DER\<close>

record der_element =
  de_tag :: "8 word option"
  de_start :: "int option"
  de_end :: "int option"

definition byte_at :: "bytes \<Rightarrow> int \<Rightarrow> 8 word option" where
  "byte_at bs i = (if 0 \<le> i \<and> i < int (length bs) then Some (bs ! nat i) else None)"

text \<open>\<^verbatim>\<open>(length << 8) | byte\<close> is a signed 32-bit number.\<close>

definition length32 :: "bytes \<Rightarrow> int" where
  "length32 bs = sint (foldl (\<lambda>acc b. push_bit 8 acc OR ucast b) (0 :: 32 word) bs)"

definition readElement :: "bytes \<Rightarrow> int option \<Rightarrow> der_element option" where
  "readElement bs offset =
     (case offset of
        None \<Rightarrow> Some \<lparr> de_tag = None, de_start = None, de_end = None \<rparr>
      | Some i \<Rightarrow>
          if i + 2 > int (length bs) then None
          else
            (case byte_at bs (i + 1) of
               None \<Rightarrow> Some \<lparr> de_tag = byte_at bs i, de_start = Some (i + 2), de_end = None \<rparr>
             | Some l \<Rightarrow>
                 if l AND 0x80 = 0 then
                   if i + 2 + uint l > int (length bs) then None
                   else Some \<lparr> de_tag = byte_at bs i, de_start = Some (i + 2), de_end = Some (i + 2 + uint l) \<rparr>
                 else
                   (let count = uint (l AND 0x7f);
                        start = i + 2 + count
                    in if count = 0 \<or> count > 4 \<or> start > int (length bs) then None
                       else
                         (let len = length32 (take (nat count) (drop (nat (i + 2)) bs))
                          in if start + len > int (length bs) then None
                             else Some \<lparr> de_tag = byte_at bs i, de_start = Some start,
                                         de_end = Some (start + len) \<rparr>))))"

definition readOctetString :: "bytes \<Rightarrow> bytes option" where
  "readOctetString v =
     (case readElement v (Some 0) of
        Some e \<Rightarrow>
          if de_tag e \<noteq> Some 0x04 \<or> de_end e \<noteq> Some (int (length v)) then None
          else Some (drop (nat (the (de_start e))) v)
      | None \<Rightarrow> None)"

text \<open>\<^verbatim>\<open>slice\<close> counts a negative end from the end of the array and takes NaN as zero.\<close>

definition slice_index :: "int option \<Rightarrow> bytes \<Rightarrow> nat" where
  "slice_index i bs =
     (case i of
        None \<Rightarrow> 0
      | Some n \<Rightarrow> if n < 0 then nat (int (length bs) + n) else nat n)"

definition slice :: "bytes \<Rightarrow> int option \<Rightarrow> int option \<Rightarrow> bytes" where
  "slice bs a b = drop (slice_index a bs) (take (slice_index b bs) bs)"

section \<open>Elliptic-curve points\<close>

definition ED25519_PUBLIC_KEY_BYTES :: nat where "ED25519_PUBLIC_KEY_BYTES = 32"

definition isPlausibleEcPoint :: "bytes \<Rightarrow> bool" where
  "isPlausibleEcPoint v \<longleftrightarrow>
     length v = ED25519_PUBLIC_KEY_BYTES \<or> (1 < length v \<and> v ! 0 = 0x04 \<and> (length v - 1) mod 2 = 0)"

definition decodeEcPoint :: "bytes \<Rightarrow> pkcs11_error + bytes" where
  "decodeEcPoint v =
     (if v = [] then Inl (Pkcs11Error (js ''pkcs11: empty CKA_EC_POINT''))
      else
        (case readOctetString v of
           Some u \<Rightarrow>
             if isPlausibleEcPoint u then Inr u
             else if isPlausibleEcPoint v then Inr v
             else Inl (Pkcs11Error (js ''pkcs11: CKA_EC_POINT is neither a wrapped nor a bare point''))
         | None \<Rightarrow>
             if isPlausibleEcPoint v then Inr v
             else Inl (Pkcs11Error (js ''pkcs11: CKA_EC_POINT is neither a wrapped nor a bare point''))))"

definition ec_params_of :: "string \<Rightarrow> bytes" where
  "ec_params_of n = (case map_of EC_PARAMS (js n) of Some p \<Rightarrow> p | None \<Rightarrow> [])"

definition curveFromEcParams :: "bytes \<Rightarrow> pkcs11_error + jstr" where
  "curveFromEcParams params =
     (case find (\<lambda>n. params = ec_params_of n) [''P-256'', ''P-384'', ''P-521''] of
        Some n \<Rightarrow> Inr (js n)
      | None \<Rightarrow> Inl (Pkcs11Error (js ''pkcs11: unsupported curve in CKA_EC_PARAMS'')))"

definition ecPointFrom :: "attribute list \<Rightarrow> pkcs11_error + bytes" where
  "ecPointFrom as =
     (case findAttribute as (attribute_type_code CkaEcPoint) of
        None \<Rightarrow> Inl (Pkcs11Error (js ''pkcs11: object has no CKA_EC_POINT''))
      | Some raw \<Rightarrow> decodeEcPoint raw)"

section \<open>Public keys\<close>

definition isZero :: "bytes \<Rightarrow> bool" where
  "isZero v \<longleftrightarrow> list_all (\<lambda>b. b = 0) v"

definition rsa_spki :: "bytes \<Rightarrow> bytes \<Rightarrow> bytes" where
  "rsa_spki modulus e =
     sequence (sequence (OID_RSA_ENCRYPTION @ DER_NULL) @
       bitString (sequence (der_integer modulus @ der_integer e)))"

definition rsaPublicKeyFrom :: "(bytes \<Rightarrow> jstr) \<Rightarrow> attribute list \<Rightarrow> pkcs11_error + jstr" where
  "rsaPublicKeyFrom toBase64 as =
     (case findAttribute as (attribute_type_code CkaModulus) of
        None \<Rightarrow> Inl (Pkcs11Error (js ''pkcs11: object has no CKA_MODULUS''))
      | Some modulus \<Rightarrow>
          (case findAttribute as (attribute_type_code CkaPublicExponent) of
             None \<Rightarrow> Inl (Pkcs11Error (js ''pkcs11: object has no CKA_PUBLIC_EXPONENT''))
           | Some e \<Rightarrow>
               if isZero modulus \<or> isZero e
               then Inl (Pkcs11Error (js ''pkcs11: object has an unusable rsa public key''))
               else Inr (toBase64 (rsa_spki modulus e))))"

definition ecdhPublicKeyFrom :: "(bytes \<Rightarrow> jstr) \<Rightarrow> attribute list \<Rightarrow> pkcs11_error + jstr" where
  "ecdhPublicKeyFrom toBase64 as =
     and_then (ecPointFrom as) (\<lambda>point.
       (case findAttribute as (attribute_type_code CkaEcParams) of
          None \<Rightarrow> Inl (Pkcs11Error (js ''pkcs11: object has no CKA_EC_PARAMS''))
        | Some params \<Rightarrow>
            and_then (curveFromEcParams params) (\<lambda>_.
              Inr (toBase64 (sequence (sequence (OID_EC_PUBLIC_KEY @ params) @ bitString point))))))"

definition ed25519PublicKeyFrom :: "(bytes \<Rightarrow> jstr) \<Rightarrow> attribute list \<Rightarrow> pkcs11_error + jstr" where
  "ed25519PublicKeyFrom toBase64 as =
     and_then (ecPointFrom as) (\<lambda>point.
       if length point \<noteq> ED25519_PUBLIC_KEY_BYTES
       then Inl (Pkcs11Error (js ''pkcs11: ed25519 public key has '' @ int_digits 10 (int (length point)) @
              js '' bytes, want 32''))
       else Inr (toBase64 (sequence (sequence (ec_params_of ''Ed25519'') @ bitString point))))"

definition parse_error :: "string \<Rightarrow> pkcs11_error" where
  "parse_error m = Pkcs11Error (js ''pkcs11: parse certificate: '' @ js m)"

fun skip_elements :: "nat \<Rightarrow> bytes \<Rightarrow> int option \<Rightarrow> pkcs11_error + int option" where
  "skip_elements 0 cert cursor = Inr cursor"
| "skip_elements (Suc n) cert cursor =
     (case readElement cert cursor of
        None \<Rightarrow> Inl (parse_error ''truncated tbsCertificate'')
      | Some e \<Rightarrow> skip_elements n cert (de_end e))"

definition key_element :: "bytes \<Rightarrow> int option \<Rightarrow> pkcs11_error + bytes" where
  "key_element cert cursor =
     (case readElement cert cursor of
        None \<Rightarrow> Inl (parse_error ''no subjectPublicKeyInfo'')
      | Some spki \<Rightarrow>
          if de_tag spki \<noteq> Some 0x30
          then Inl (parse_error ''no subjectPublicKeyInfo'')
          else Inr (slice cert cursor (de_end spki)))"

definition subjectPublicKeyInfo :: "bytes \<Rightarrow> pkcs11_error + bytes" where
  "subjectPublicKeyInfo cert =
     (case readElement cert (Some 0) of
        None \<Rightarrow> Inl (parse_error ''not a DER SEQUENCE'')
      | Some outer \<Rightarrow>
          if de_tag outer \<noteq> Some 0x30 then Inl (parse_error ''not a DER SEQUENCE'')
          else
            (case readElement cert (de_start outer) of
               None \<Rightarrow> Inl (parse_error ''no tbsCertificate'')
             | Some tbs \<Rightarrow>
                 if de_tag tbs \<noteq> Some 0x30 then Inl (parse_error ''no tbsCertificate'')
                 else
                   (case readElement cert (de_start tbs) of
                      None \<Rightarrow> Inl (parse_error ''truncated tbsCertificate'')
                    | Some first \<Rightarrow>
                        and_then (if de_tag first = Some 0xa0
                                  then skip_elements 5 cert (de_end first)
                                  else skip_elements 4 cert (de_start tbs)) (key_element cert))))"

definition certificatePublicKey :: "(bytes \<Rightarrow> jstr) \<Rightarrow> attribute list \<Rightarrow> pkcs11_error + jstr" where
  "certificatePublicKey toBase64 as =
     (case findAttribute as (attribute_type_code CkaValue) of
        None \<Rightarrow> Inl (Pkcs11Error (js ''pkcs11: certificate object has no CKA_VALUE''))
      | Some der \<Rightarrow> and_then (subjectPublicKeyInfo der) (\<lambda>spki. Inr (toBase64 spki)))"

section \<open>Object lookup\<close>

text \<open>The token's search: the handles that match a template, or an error.\<close>

type_synonym token_search = "attribute list \<Rightarrow> pkcs11_error + nat list"

definition uri_text :: "key_uri \<Rightarrow> jstr" where
  "uri_text u = (case formatKeyUri u of Inr s \<Rightarrow> s | Inl e \<Rightarrow> [])"

definition lookup_template :: "key_uri \<Rightarrow> object_class option \<Rightarrow> attribute list" where
  "lookup_template u c =
     (case c of None \<Rightarrow> [] | Some k \<Rightarrow> [ulongAttribute (attribute_type_code CkaClass) (class_code k)]) @
     (case ku_object u of Some t \<Rightarrow> if t = [] then [] else [bytesAttribute (attribute_type_code CkaLabel) (utf8_encode t)]
      | None \<Rightarrow> []) @
     (case ku_id u of Some i \<Rightarrow> if i = [] then [] else [bytesAttribute (attribute_type_code CkaId) i] | None \<Rightarrow> [])"

definition findObject :: "token_search \<Rightarrow> key_uri \<Rightarrow> object_class option \<Rightarrow> pkcs11_error + nat" where
  "findObject search u c =
     and_then (search (lookup_template u c)) (\<lambda>hs.
       case hs of [] \<Rightarrow> Inl (KeyNotFound (uri_text u) []) | h # _ \<Rightarrow> Inr h)"

definition resolveObject :: "token_search \<Rightarrow> key_uri \<Rightarrow> object_class \<Rightarrow> pkcs11_error + nat" where
  "resolveObject search u fallback =
     (case ku_class u of
        Some c \<Rightarrow> findObject search u (Some c)
      | None \<Rightarrow>
          (case findObject search u (Some fallback) of
             Inr h \<Rightarrow> Inr h
           | Inl _ \<Rightarrow> findObject search u None))"

definition public_candidates :: "key_uri \<Rightarrow> (key_uri \<times> object_class) list" where
  "public_candidates u =
     [(u, PublicKey)] @
     (case ku_id u of
        Some i \<Rightarrow>
          if i = [] then []
          else
            (let by_id = \<lparr> ku_token = ku_token u, ku_object = None, ku_id = Some i, ku_class = None \<rparr>
             in [(by_id, PublicKey), (by_id, Certificate)])
      | None \<Rightarrow> []) @
     [(u, Certificate)]"

fun first_object :: "token_search \<Rightarrow> (key_uri \<times> object_class) list \<Rightarrow> (nat \<times> object_class) option" where
  "first_object search [] = None"
| "first_object search ((u, c) # rest) =
     (case findObject search u (Some c) of
        Inr h \<Rightarrow> Some (h, c)
      | Inl _ \<Rightarrow> first_object search rest)"

definition publicObjectFor :: "token_search \<Rightarrow> key_uri \<Rightarrow> pkcs11_error + (nat \<times> object_class)" where
  "publicObjectFor search u =
     (case first_object search (public_candidates u) of
        Some r \<Rightarrow> Inr r
      | None \<Rightarrow> Inl (KeyNotFound (uri_text u) (js ''no public key or certificate'')))"


section \<open>Reading back what was written\<close>

lemma push_or_add: "push_bit 8 w OR ucast (b :: 8 word) = push_bit 8 (w :: 32 word) + ucast b"
proof (rule disjunctive_add_eq_or [symmetric])
  show "push_bit 8 w AND ucast b = 0"
    by (rule bit_word_eqI) (auto simp: bit_simps dest: bit_imp_le_length)
qed

lemma length32_fold:
  "foldl (\<lambda>acc b. push_bit 8 acc OR ucast b) (word_of_nat a :: 32 word) bs =
   word_of_nat (foldl (\<lambda>a (b :: 8 word). a * 256 + unat b) a bs)"
proof (induction bs arbitrary: a)
  case (Cons b bs)
  have "push_bit 8 (word_of_nat a :: 32 word) OR ucast b = word_of_nat (a * 256 + unat b)"
    by (simp only: push_or_add) (simp add: push_bit_eq_mult mult.commute)
  then show ?case using Cons [of "a * 256 + unat b"] by simp
qed simp

lemma be_value: "foldl (\<lambda>a (b :: 8 word). a * 256 + unat b) 0 (be_bytes n) = n"
proof (induction n rule: be_bytes.induct)
  case (1 n)
  show ?case
  proof (cases "n = 0")
    case False
    have "unat (word_of_nat (n mod 256) :: 8 word) = n mod 256" by (simp add: unat_of_nat)
    then show ?thesis using 1 False by (subst be_bytes.simps) simp
  qed (simp add: be_bytes.simps)
qed

lemma length32_be: "n < 2 ^ 31 \<Longrightarrow> length32 (be_bytes n) = int n"
proof -
  assume n: "n < 2 ^ 31"
  have "length32 (be_bytes n) = sint (word_of_nat n :: 32 word)"
    using length32_fold [of 0 "be_bytes n"] by (simp add: length32_def be_value)
  then show ?thesis using n by (simp add: signed_of_nat signed_take_bit_int_eq_self)
qed

lemma be_length: "n < 256 ^ k \<Longrightarrow> length (be_bytes n) \<le> k"
proof (induction k arbitrary: n)
  case 0
  then show ?case by (simp add: be_bytes.simps)
next
  case (Suc k)
  have "n div 256 < 256 ^ k" using Suc.prems by (simp add: less_mult_imp_div_less mult.commute)
  then show ?case using Suc.IH [of "n div 256"] by (subst be_bytes.simps) simp
qed

lemma be_nonempty: "n \<noteq> 0 \<Longrightarrow> be_bytes n \<noteq> []"
  by (subst be_bytes.simps) simp

definition header_length :: "nat \<Rightarrow> nat" where
  "header_length n = 1 + length (derLength n)"

lemma byte_at_append [simp]:
  "byte_at (pre @ b # post) (int (length pre)) = Some b"
  "byte_at (pre @ a # b # post) (int (length pre) + 1) = Some b"
  by (simp_all add: byte_at_def nth_append nat_add_distrib)

lemma length_byte:
  assumes "k \<in> {1, 2, 3, 4}"
  shows "(0x80 OR word_of_nat k) AND 0x80 \<noteq> (0 :: 8 word)" "uint ((0x80 OR word_of_nat k) AND (0x7f :: 8 word)) = int k"
  using assms by auto

lemma read_tagged:
  assumes n: "length content < 2 ^ 31"
  shows "readElement (pre @ tagged t content @ post) (Some (int (length pre))) =
    Some \<lparr> de_tag = Some t, de_start = Some (int (length pre + header_length (length content))),
           de_end = Some (int (length pre + length (tagged t content))) \<rparr>"
proof (cases "length content < 0x80")
  case True
  let ?l = "word_of_nat (length content) :: 8 word"
  have u: "uint ?l = int (length content)" using True by (simp add: uint_nat unat_of_nat)
  have "?l AND 0x80 = 0"
  proof (rule bit_word_eqI)
    fix k assume "k < LENGTH(8)"
    have "\<not> bit ?l 7" using True by (simp add: bit_iff_odd_drop_bit drop_bit_eq_div word_arith_nat_div unat_of_nat)
    moreover have "(0x80 :: 8 word) = 2 ^ 7" by simp
    ultimately show "bit (?l AND 0x80) k = bit 0 k" by (simp only: bit_and_iff bit_exp_iff) auto
  qed
  then show ?thesis
    using True u by (simp add: readElement_def tagged_def derLength_def header_length_def)
next
  case False
  let ?n = "length content" and ?bs = "be_bytes (length content)"
  have "?bs \<noteq> []" using False by (intro be_nonempty) auto
  moreover have "length ?bs \<le> 4" using n by (intro be_length) simp
  ultimately have "length ?bs \<noteq> 0" "length ?bs \<le> 4" by simp_all
  then have k: "length ?bs \<in> {1, 2, 3, 4}" unfolding insert_iff empty_iff by linarith
  have tk: "take (length ?bs) (drop (nat (int (length pre) + 2)) (pre @ t # l # ?bs @ content @ post)) = ?bs" for l
    by (simp add: nat_add_distrib)
  show ?thesis
    using False length_byte [OF k] k tk
    by (auto simp: readElement_def tagged_def derLength_def header_length_def Let_def length32_be [OF n] simp del: One_nat_def)
qed


lemma tagged_split: "tagged t c = (t # derLength (length c)) @ c" "length (t # derLength n) = header_length n"
  by (simp_all add: tagged_def header_length_def)

lemma tagged_length: "length (tagged t c) = header_length (length c) + length c"
  by (simp add: tagged_def header_length_def)

lemma header_bound: "n < 2 ^ 31 \<Longrightarrow> header_length n \<le> 6"
proof -
  assume "n < 2 ^ 31"
  then have "length (be_bytes n) \<le> 4" by (intro be_length) simp
  then show ?thesis by (simp add: header_length_def derLength_def)
qed

lemma drop_header: "drop (header_length (length c)) (tagged t c @ post) = c @ post"
  by (simp add: tagged_def header_length_def)

section \<open>Properties\<close>

text \<open>
  Elliptic-curve points.  A plausible point wrapped in an OCTET STRING is unwrapped, whatever its length,
  and a bare P-521 point is returned as it is.
\<close>

theorem ec_point_unwraps:
  assumes "isPlausibleEcPoint p" "length p < 2 ^ 31"
    and "length q = 133" "q ! 0 = 0x04" "q ! 1 \<in> {0, 1}"
  shows "decodeEcPoint (tagged 0x04 p) = Inr p \<and> decodeEcPoint q = Inr q"
proof -
  have r: "readElement (tagged 0x04 p) (Some 0) =
      Some \<lparr> de_tag = Some 0x04, de_start = Some (int (header_length (length p))),
             de_end = Some (int (length (tagged 0x04 p))) \<rparr>"
    using read_tagged [OF assms(2), of "[]" "0x04" "[]"] by simp
  have "readOctetString (tagged 0x04 p) = Some p"
    using drop_header [of p "0x04" "[]"] by (simp add: readOctetString_def r)
  moreover have "tagged 0x04 p \<noteq> []" by (simp add: tagged_def)
  ultimately have w: "decodeEcPoint (tagged 0x04 p) = Inr p"
    using assms(1) by (simp add: decodeEcPoint_def)
  obtain a b q' where q: "q = a # b # q'" using assms(3) by (cases q; cases "tl q") auto
  have b: "b = 0 \<or> b = 1" "length q' = 131" using assms(3,5) q by auto
  then have "readOctetString q = None"
    by (auto simp: readOctetString_def readElement_def byte_at_def q)
  moreover have "isPlausibleEcPoint q" using assms(3,4) by (simp add: isPlausibleEcPoint_def)
  ultimately have "decodeEcPoint q = Inr q" using q by (simp add: decodeEcPoint_def)
  with w show ?thesis by simp
qed

theorem ec_point_unwraps_witness:
  "decodeEcPoint (tagged 0x04 [0x04, 1, 2]) = Inr [0x04, 1, 2] \<and>
   decodeEcPoint (0x04 # replicate 132 0) = Inr (0x04 # replicate 132 0)"
  by (rule ec_point_unwraps) (simp_all add: isPlausibleEcPoint_def)

text \<open>
  The bare P-256 points whose abscissa starts with the bytes 3F 04 are misread: they are taken for a wrapped
  point and lose their first two bytes, although 63 bytes are no point of any supported curve.
\<close>

theorem ec_point_ambiguous:
  assumes "length xs = 62"
  shows "isPlausibleEcPoint (0x04 # 0x3f # 0x04 # xs) \<and>
    decodeEcPoint (0x04 # 0x3f # 0x04 # xs) = Inr (0x04 # xs)"
  using assms
  by (simp add: decodeEcPoint_def readOctetString_def readElement_def byte_at_def isPlausibleEcPoint_def)

theorem ec_point_ambiguous_witness:
  "decodeEcPoint (0x04 # 0x3f # 0x04 # replicate 62 7) = Inr (0x04 # replicate 62 7)"
  using ec_point_ambiguous [of "replicate 62 7"] by simp

text \<open>A reader of SPKI keys, as a specification: one element of a given tag and what follows it.\<close>

definition der_open :: "8 word \<Rightarrow> bytes \<Rightarrow> (bytes \<times> bytes) option" where
  "der_open t bs =
     (case readElement bs (Some 0) of
        None \<Rightarrow> None
      | Some e \<Rightarrow>
          if de_tag e \<noteq> Some t then None
          else (case (de_start e, de_end e) of
                  (Some i, Some j) \<Rightarrow> if i \<le> j then Some (drop (nat i) (take (nat j) bs), drop (nat j) bs) else None
                | _ \<Rightarrow> None))"

definition magnitude :: "bytes \<Rightarrow> nat" where
  "magnitude bs = foldl (\<lambda>a (b :: 8 word). a * 256 + unat b) 0 bs"

text \<open>A non-negative INTEGER has its high bit clear.\<close>

definition read_natural :: "bytes \<Rightarrow> (nat \<times> bytes) option" where
  "read_natural bs =
     Option.bind (der_open 0x02 bs) (\<lambda>(c, r).
       if c \<noteq> [] \<and> hd c AND 0x80 = 0 then Some (magnitude c, r) else None)"

definition read_rsa_spki :: "bytes \<Rightarrow> (nat \<times> nat) option" where
  "read_rsa_spki bs =
     Option.bind (der_open 0x30 bs) (\<lambda>(body, r0).
     Option.bind (der_open 0x30 body) (\<lambda>(alg, r1).
     Option.bind (der_open 0x03 r1) (\<lambda>(bits, r2).
     Option.bind (der_open 0x30 (drop 1 bits)) (\<lambda>(key, r3).
     Option.bind (read_natural key) (\<lambda>(m, r4).
     Option.bind (read_natural r4) (\<lambda>(e, r5).
       if r0 = [] \<and> alg = OID_RSA_ENCRYPTION @ DER_NULL \<and> r2 = [] \<and> take 1 bits = [0] \<and> r3 = [] \<and> r5 = []
       then Some (m, e) else None))))))"

lemma der_open_tagged:
  assumes "length c < 2 ^ 31"
  shows "der_open t (tagged t c @ r) = Some (c, r)"
proof -
  have "readElement (tagged t c @ r) (Some 0) =
      Some \<lparr> de_tag = Some t, de_start = Some (int (header_length (length c))),
             de_end = Some (int (length (tagged t c))) \<rparr>"
    using read_tagged [OF assms, of "[]" t r] by simp
  moreover have "header_length (length c) \<le> length (tagged t c)" by (simp add: tagged_length)
  ultimately show ?thesis
    using drop_header [of c t "[]"] by (simp add: der_open_def)
qed

lemma magnitude_zero: "magnitude (0 # s) = magnitude s"
  by (simp add: magnitude_def)

lemma magnitude_strip: "magnitude (strip_zeros s) = magnitude s"
  by (induction s rule: strip_zeros.induct) (auto simp: magnitude_zero)

lemma strip_length: "length (strip_zeros s) \<le> length s"
  by (induction s rule: strip_zeros.induct) auto

lemma strip_nonempty: "s \<noteq> [] \<Longrightarrow> strip_zeros s \<noteq> []"
  by (induction s rule: strip_zeros.induct) auto

lemma read_integer:
  assumes "s \<noteq> []" "length s < 2 ^ 20"
  shows "read_natural (der_integer s @ r) = Some (magnitude s, r)" "length (der_integer s) \<le> length s + 7"
proof -
  let ?t = "strip_zeros s"
  let ?c = "if ?t \<noteq> [] \<and> hd ?t AND 0x80 \<noteq> 0 then 0 # ?t else ?t"
  have l: "length ?c < 2 ^ 31" "length ?c \<le> length s + 1"
    using strip_length [of s] assms(2) by auto
  have d: "der_integer s = tagged 0x02 ?c" by (simp add: der_integer_def Let_def)
  have "?c \<noteq> []" "hd ?c AND 0x80 = 0" "magnitude ?c = magnitude s"
    using strip_nonempty [OF assms(1)] by (auto simp: magnitude_zero magnitude_strip)
  then show "read_natural (der_integer s @ r) = Some (magnitude s, r)"
    unfolding d read_natural_def der_open_tagged [OF l(1)] by simp
  show "length (der_integer s) \<le> length s + 7"
    unfolding d tagged_length using header_bound [OF l(1)] l(2) by linarith
qed

text \<open>
  C17: RSA keys survive the trip.  From an object with a non-zero modulus and exponent the provider reports a
  SubjectPublicKeyInfo that reads back as exactly that modulus and that exponent, leading zero bytes or a
  high bit notwithstanding.
\<close>

theorem rsa_spki_round_trip:
  assumes "findAttribute as (attribute_type_code CkaModulus) = Some m" "\<not> isZero m" "length m < 2 ^ 20"
    and "findAttribute as (attribute_type_code CkaPublicExponent) = Some e" "\<not> isZero e" "length e < 2 ^ 20"
  shows "\<exists>der. rsaPublicKeyFrom toBase64 as = Inr (toBase64 der) \<and>
    read_rsa_spki der = Some (magnitude m, magnitude e)"
proof -
  have ne: "m \<noteq> []" "e \<noteq> []" using assms(2,5) by (auto simp: isZero_def)
  note m = read_integer [OF ne(1) assms(3)] and e = read_integer [OF ne(2) assms(6)]
  let ?key = "der_integer m @ der_integer e" and ?alg = "OID_RSA_ENCRYPTION @ DER_NULL"
  have k: "length ?key < 2 ^ 22" using m(2) e(2) assms(3,6) by simp
  have b: "length (0 # sequence ?key) < 2 ^ 23"
    using header_bound [of "length ?key"] k by (simp add: sequence_def tagged_length)
  have a: "length ?alg = 13" by (simp add: OID_RSA_ENCRYPTION_def DER_NULL_def)
  have o': "length (sequence ?alg @ bitString (sequence ?key)) < 2 ^ 24"
    using header_bound [of "length ?alg"] header_bound [of "length (0 # sequence ?key)"] b a
    by (simp add: sequence_def bitString_def tagged_length)
  have e0: "read_natural (der_integer e) = Some (magnitude e, [])" using e(1) [of "[]"] by simp
  have seq: "der_open 0x30 (sequence c) = Some (c, [])" if "length c < 2 ^ 31" for c
    using der_open_tagged [OF that, of "0x30" "[]"] by (simp add: sequence_def)
  have alg: "der_open 0x30 (sequence ?alg @ r) = Some (?alg, r)" for r
    using der_open_tagged [of ?alg "0x30" r] a by (simp add: sequence_def)
  have bits: "der_open 0x03 (bitString (sequence ?key)) = Some (0 # sequence ?key, [])"
    using der_open_tagged [of "0 # sequence ?key" "0x03" "[]"] b by (simp add: bitString_def)
  have "read_rsa_spki (rsa_spki m e) = Some (magnitude m, magnitude e)"
    using k o' by (simp add: read_rsa_spki_def rsa_spki_def seq alg bits m(1) e0 del: append_assoc)
  then show ?thesis using assms by (auto simp: rsaPublicKeyFrom_def)
qed

theorem rsa_spki_round_trip_witness:
  "\<exists>der. rsaPublicKeyFrom (map ucast) [bytesAttribute 0x120 [0, 0, 200, 1], bytesAttribute 0x122 [1, 0, 1]] = Inr (map ucast der) \<and>
     read_rsa_spki der = Some (magnitude [0, 0, 200, 1], magnitude [1, 0, 1])"
  by (rule rsa_spki_round_trip) (simp_all add: findAttribute_def bytesAttribute_def isZero_def)


text \<open>The elements of a certificate body, written out.\<close>

definition elements :: "(8 word \<times> bytes) list \<Rightarrow> bytes" where
  "elements es = concat (map (\<lambda>(t, c). tagged t c) es)"

lemma elements_simps [simp]: "elements [] = []" "elements ((t, c) # es) = tagged t c @ elements es"
  by (simp_all add: elements_def)

lemma skip_tagged:
  "length (elements es) < 2 ^ 31 \<Longrightarrow>
   skip_elements (length es) (pre @ elements es @ post) (Some (int (length pre))) =
     Inr (Some (int (length pre + length (elements es))))"
proof (induction es arbitrary: pre)
  case (Cons x es)
  obtain t c where x: "x = (t, c)" by fastforce
  have c: "length c < 2 ^ 31" "length (elements es) < 2 ^ 31"
    using Cons.prems by (simp_all add: x tagged_length)
  have "readElement (pre @ tagged t c @ elements es @ post) (Some (int (length pre))) =
      Some \<lparr> de_tag = Some t, de_start = Some (int (length pre + header_length (length c))),
             de_end = Some (int (length pre + length (tagged t c))) \<rparr>"
    by (rule read_tagged [OF c(1)])
  then show ?case
    using Cons.IH [OF c(2), of "pre @ tagged t c"] by (simp add: x add.assoc)
qed simp

lemma walk_to_key:
  assumes n: "length (elements es) < 2 ^ 31" and k: "length key < 2 ^ 31"
    and bs: "bs = pre @ elements es @ sequence key @ post"
  shows "and_then (skip_elements (length es) bs (Some (int (length pre)))) (key_element bs) = Inr (sequence key)"
proof -
  have s: "skip_elements (length es) bs (Some (int (length pre))) =
      Inr (Some (int (length (pre @ elements es))))"
    using skip_tagged [OF n, of pre "sequence key @ post"] by (simp add: bs)
  have r: "readElement bs (Some (int (length (pre @ elements es)))) =
      Some \<lparr> de_tag = Some 0x30, de_start = Some (int (length (pre @ elements es) + header_length (length key))),
             de_end = Some (int (length (pre @ elements es) + length (sequence key))) \<rparr>"
    using read_tagged [OF k, of "pre @ elements es" "0x30" post] by (simp add: sequence_def bs)
  have "slice bs (Some (int (length (pre @ elements es))))
      (Some (int (length (pre @ elements es) + length (sequence key)))) = sequence key"
    by (simp add: bs slice_def slice_index_def nat_add_distrib)
  then show ?thesis by (simp only: s r and_then.simps option.case der_element.simps key_element_def) simp
qed

lemma derLength_mono: "m \<le> n \<Longrightarrow> length (derLength m) \<le> length (derLength n)"
proof -
  have be: "m \<le> n \<Longrightarrow> length (be_bytes m) \<le> length (be_bytes n)" for m n
  proof (induction n arbitrary: m rule: be_bytes.induct)
    case (1 n)
    show ?case
    proof (cases "m = 0")
      case False
      then have "length (be_bytes (m div 256)) \<le> length (be_bytes (n div 256))"
        using 1 by (intro "1.IH") (auto intro: div_le_mono)
      then show ?thesis using False 1 by (subst (1 2) be_bytes.simps) auto
    qed (simp add: be_bytes.simps)
  qed
  show "m \<le> n \<Longrightarrow> length (derLength m) \<le> length (derLength n)"
    using be [of m n] by (simp add: derLength_def)
qed

lemma sequence_mono: "length a \<le> length b \<Longrightarrow> length (sequence a) \<le> length (sequence b)"
  using derLength_mono [of "length a" "length b"] by (simp add: sequence_def tagged_def)

definition certificate :: "(8 word \<times> bytes) list \<Rightarrow> bytes \<Rightarrow> bytes \<Rightarrow> bytes" where
  "certificate es later signature = sequence (sequence (elements es @ later) @ signature)"

text \<open>The walk up to the element that follows the version, for a certificate with a first element.\<close>

definition walk_from :: "bytes \<Rightarrow> nat \<Rightarrow> 8 word \<Rightarrow> bytes \<Rightarrow> pkcs11_error + bytes" where
  "walk_from cert n t c =
     and_then (if t = 0xa0 then skip_elements 5 cert (Some (int (n + length (tagged t c))))
               else skip_elements 4 cert (Some (int n))) (key_element cert)"

lemma certificate_body:
  assumes small: "length (certificate ((t, c) # es) later signature) < 2 ^ 31"
  obtains pre where
    "certificate ((t, c) # es) later signature = pre @ tagged t c @ elements es @ later @ signature"
    "subjectPublicKeyInfo (certificate ((t, c) # es) later signature) =
       walk_from (certificate ((t, c) # es) later signature) (length pre) t c"
proof -
  let ?body = "tagged t c @ elements es @ later" and ?c = "certificate ((t, c) # es) later signature"
  let ?outer = "sequence ?body @ signature"
  have l: "length ?outer < 2 ^ 31" "length ?body < 2 ^ 31" "length c < 2 ^ 31"
    using small by (simp_all add: certificate_def sequence_def tagged_length)
  let ?h1 = "0x30 # derLength (length ?outer)" and ?h2 = "0x30 # derLength (length ?body)"
  have c1: "?c = ?h1 @ tagged 0x30 ?body @ signature"
    by (simp add: certificate_def sequence_def tagged_def)
  have c2: "?c = (?h1 @ ?h2) @ tagged t c @ elements es @ later @ signature"
    by (simp add: c1 tagged_def)
  have h: "header_length (length ?outer) = length ?h1" "header_length (length ?body) = length ?h2"
    by (simp_all only: header_length_def list.size One_nat_def add_Suc add_0 add_Suc_right add_0_right)
  have e2: "length (?h1 @ ?h2) = length ?h1 + header_length (length ?body)"
    by (simp add: header_length_def)
  have c0: "?c = [] @ tagged 0x30 ?outer @ []" by (simp add: certificate_def sequence_def)
  have r1: "readElement ?c (Some 0) = Some \<lparr> de_tag = Some 0x30, de_start = Some (int (length ?h1)),
      de_end = Some (int (length (tagged 0x30 ?outer))) \<rparr>"
    unfolding c0 using read_tagged [OF l(1), of "[]" "0x30" "[]"] by (simp only: h) simp
  have r2: "readElement ?c (Some (int (length ?h1))) = Some \<lparr> de_tag = Some 0x30,
      de_start = Some (int (length (?h1 @ ?h2))), de_end = Some (int (length ?h1 + length (tagged 0x30 ?body))) \<rparr>"
    unfolding c1 e2 by (rule read_tagged [OF l(2)])
  have r3: "readElement ?c (Some (int (length (?h1 @ ?h2)))) = Some \<lparr> de_tag = Some t,
      de_start = Some (int (length (?h1 @ ?h2) + header_length (length c))),
      de_end = Some (int (length (?h1 @ ?h2) + length (tagged t c))) \<rparr>"
    unfolding c2 by (rule read_tagged [OF l(3)])
  show ?thesis
  proof (rule that [OF c2])
    show "subjectPublicKeyInfo ?c = walk_from ?c (length (?h1 @ ?h2)) t c"
      unfolding subjectPublicKeyInfo_def walk_from_def
      by (simp only: r1 r2 r3 option.case der_element.simps option.inject length_append [of _ "tagged t c"]
          simp_thms if_False if_True)
  qed
qed

text \<open>
  Certificates.  From a certificate with an explicit version the walk extracts exactly the
  SubjectPublicKeyInfo, whatever follows it.  From a certificate without one (X.509 version 1) it stops one
  element early and returns the subject name in its place.
\<close>

theorem certificate_walk:
  assumes "fst f1 \<noteq> 0xa0"
    and "length (certificate [(0xa0, v), f1, f2, f3, f4, (0x30, subject)] (sequence key @ ext) sig) < 2 ^ 31"
  shows "subjectPublicKeyInfo (certificate [(0xa0, v), f1, f2, f3, f4, (0x30, subject)] (sequence key @ ext) sig) =
      Inr (sequence key) \<and>
    subjectPublicKeyInfo (certificate [f1, f2, f3, f4, (0x30, subject)] (sequence key @ ext) sig) =
      Inr (sequence subject)"
proof
  let ?es = "[f1, f2, f3, f4, (0x30, subject)]" and ?l = "sequence key @ ext"
  let ?c3 = "certificate ((0xa0, v) # ?es) ?l sig"
  have len: "length (elements ?es) < 2 ^ 31" "length key < 2 ^ 31"
    using assms(2) by (simp_all add: certificate_def sequence_def tagged_length)
  obtain pre where c: "?c3 = pre @ tagged 0xa0 v @ elements ?es @ ?l @ sig" and
    w: "subjectPublicKeyInfo ?c3 = walk_from ?c3 (length pre) 0xa0 v"
    using certificate_body [OF assms(2)] by blast
  have c': "?c3 = (pre @ tagged 0xa0 v) @ elements ?es @ sequence key @ ext @ sig" by (simp only: c append_assoc)
  have n: "length ?es = 5" by simp
  show "subjectPublicKeyInfo ?c3 = Inr (sequence key)"
    using walk_to_key [OF len c'] unfolding w walk_from_def n by (simp only: length_append if_True refl)
next
  obtain t1 c1 where f1: "f1 = (t1, c1)" by fastforce
  let ?es = "[f2, f3, f4, (0x30, subject)]" and ?l = "sequence key @ ext"
  let ?c1 = "certificate (f1 # ?es) ?l sig"
  have "length ?c1 \<le> length (certificate ((0xa0, v) # f1 # ?es) ?l sig)"
    unfolding certificate_def
    by (intro sequence_mono, simp only: length_append, intro add_right_mono sequence_mono) simp
  then have small: "length ?c1 < 2 ^ 31" using assms(2) by linarith
  then have len: "length (elements [f1, f2, f3, f4]) < 2 ^ 31" "length subject < 2 ^ 31"
    by (simp_all add: certificate_def sequence_def tagged_length elements_def f1)
  obtain pre where c: "?c1 = pre @ tagged t1 c1 @ elements ?es @ ?l @ sig" and
    w: "subjectPublicKeyInfo ?c1 = walk_from ?c1 (length pre) t1 c1"
    using certificate_body [OF small [unfolded f1]] unfolding f1 by blast
  have c': "?c1 = pre @ elements [f1, f2, f3, f4] @ sequence subject @ ?l @ sig"
    unfolding c by (simp add: f1 elements_def sequence_def)
  have n: "length [f1, f2, f3, f4] = 4" and h: "t1 \<noteq> 0xa0" using assms(1) f1 by simp_all
  show "subjectPublicKeyInfo ?c1 = Inr (sequence subject)"
    using walk_to_key [OF len c'] h unfolding w walk_from_def n by (simp only: if_False)
qed

theorem certificate_walk_witness:
  "subjectPublicKeyInfo (certificate [(0xa0, [2, 1, 2]), (2, [1]), (0x30, []), (0x30, []), (0x30, []), (0x30, [5])]
      (sequence [9] @ []) []) = Inr (sequence [9]) \<and>
   subjectPublicKeyInfo (certificate [(2, [1]), (0x30, []), (0x30, []), (0x30, []), (0x30, [5])]
      (sequence [9] @ []) []) = Inr (sequence [5])"
  by (rule certificate_walk)
     (simp_all add: certificate_def sequence_def tagged_def derLength_def elements_def)

text \<open>
  A four-byte length above 2^31 - 1 reads as a negative number and so passes the bounds check of the reader.
\<close>

lemma negative_length_accepted:
  "length32 [0xff, 0xff, 0xff, 0xf0] = -16"
  "readElement [0x30, 0x84, 0xff, 0xff, 0xff, 0xf0, 1, 2] (Some 0) \<noteq> None"
  by code_simp+

end
