(* ===== verification/Json_Round_Trip.thy ===== *)
theory Json_Round_Trip
  imports JS_Values
begin

text \<open>
  Printing and parsing JSON are inverse on the values the library exchanges: strings, booleans, null, whole
  numbers below the range that is printed with an exponent, arrays and objects without repeated keys.
\<close>

section \<open>Hexadecimal escapes\<close>

lemma digits_int_snoc: "digits_int b (s @ [c]) = digits_int b s * b + digit_value c"
  by (simp add: digits_int_def)

lemma hex_digit_value:
  assumes "0 \<le> d" "d < 16"
  shows "digit_value (digit_unit d) = d"
proof -
  have "d \<in> set [0, 1, 2, 3, 4, 5, 6, 7, 8, 9, 10, 11, 12, 13, 14, 15]" using assms by (simp, presburger)
  moreover have "list_all (\<lambda>d. digit_value (digit_unit d) = d) [0, 1, 2, 3, 4, 5, 6, 7, 8, 9, 10, 11, 12, 13, 14, 15]"
    by code_simp
  ultimately show ?thesis unfolding list_all_iff by blast
qed

lemma digits_value:
  "2 \<le> b \<Longrightarrow> b \<le> 16 \<Longrightarrow> 0 \<le> n \<Longrightarrow>
    digits_int b (int_digits b n) = n \<and> list_all (is_radix_digit b) (int_digits b n)"
proof (induction "nat n" arbitrary: n rule: less_induct)
  case less
  show ?case
  proof (cases "n < b")
    case True
    then show ?thesis using less.prems hex_digit_value [of n]
      by (simp add: int_digits.simps [of b n] digits_int_def is_radix_digit_def)
  next
    case False
    have "nat (n div b) < nat n" "0 \<le> n div b"
      using False less.prems int_div_less_self [of n b] by (auto simp: pos_imp_zdiv_nonneg_iff)
    then have "digits_int b (int_digits b (n div b)) = n div b \<and> list_all (is_radix_digit b) (int_digits b (n div b))"
      using less by blast
    moreover have m: "0 \<le> n mod b" "n mod b < b" using less.prems by simp_all
    moreover have "digit_value (digit_unit (n mod b)) = n mod b"
      by (rule hex_digit_value) (use m less.prems in linarith)+
    ultimately show ?thesis using False less.prems
      by (simp add: int_digits.simps [of b n] digits_int_snoc is_radix_digit_def)
  qed
qed

lemma digits_length: "2 \<le> b \<Longrightarrow> 0 \<le> n \<Longrightarrow> n < b ^ Suc k \<Longrightarrow> length (int_digits b n) \<le> Suc k"
proof (induction k arbitrary: n)
  case 0
  then show ?case by (simp add: int_digits.simps [of b n])
next
  case (Suc k)
  show ?case
  proof (cases "n < b")
    case False
    have "n div b < b ^ Suc k"
    proof (rule ccontr)
      assume "\<not> n div b < b ^ Suc k"
      then have "b ^ Suc k * b \<le> n div b * b" using Suc.prems by (intro mult_right_mono) simp_all
      also have "\<dots> \<le> n" using Suc.prems by (simp add: minus_mod_eq_div_mult [symmetric])
      finally show False using Suc.prems by (simp add: ac_simps)
    qed
    then show ?thesis
      using Suc.IH [of "n div b"] Suc.prems False by (simp add: int_digits.simps [of b n] pos_imp_zdiv_nonneg_iff)
  qed (simp add: int_digits.simps [of b n])
qed

lemma digits_int_zeros: "digits_int 16 (replicate k 48 @ s) = digits_int 16 s"
proof -
  have "digit_value 48 = 0" by (simp add: digit_value_def is_digit_def)
  then have "foldl (\<lambda>n c. n * 16 + digit_value c) 0 (replicate k 48) = (0 :: int)" by (induction k) simp_all
  then show ?thesis by (simp add: digits_int_def)
qed

lemma hex_digits4_length: "length (hex_digits4 c) = 4"
proof -
  have "uint c < 16 ^ Suc 3" using uint_lt2p [of c] by simp
  then have "length (int_digits 16 (uint c)) \<le> 4" using digits_length [of 16 "uint c" 3] by simp
  then show ?thesis by (simp add: hex_digits4_def Let_def)
qed

lemma hex4_digits: "hex4 (hex_digits4 c @ r) = Some (c, r)"
proof -
  have z: "is_radix_digit 16 48" by code_simp
  have "digits_int 16 (hex_digits4 c) = uint c" "list_all (is_radix_digit 16) (hex_digits4 c)"
    using digits_value [of 16 "uint c"] z
    by (simp_all add: hex_digits4_def Let_def digits_int_zeros list_all_iff ball_Un)
  then show ?thesis by (simp add: hex4_def hex_digits4_length)
qed

section \<open>Strings\<close>

declare string_body.simps [simp del]

lemma escape_unit: "string_body (92 # 117 # hex_digits4 c @ r) = map_option (apfst ((#) c)) (string_body r)"
  by (subst string_body.simps) (simp add: hex4_digits hex_digits4_length)

lemma plain_unit_body:
  "32 \<le> c \<Longrightarrow> c \<noteq> 34 \<Longrightarrow> c \<noteq> 92 \<Longrightarrow> string_body (c # r) = map_option (apfst ((#) c)) (string_body r)"
  by (subst string_body.simps) (simp add: not_le [symmetric])

lemma quote_unit_body: "string_body (quote_unit c @ r) = map_option (apfst ((#) c)) (string_body r)"
proof -
  have "string_body (92 # d # r) = map_option (apfst ((#) c)) (string_body r)"
    if "d \<noteq> 117" "simple_escape d = Some c" for d
    using that by (subst string_body.simps) simp
  then show ?thesis
    by (simp add: quote_unit_def escape_unit plain_unit_body simple_escape_def not_less)
qed

lemma surrogate_body:
  "is_high c \<or> is_low c \<Longrightarrow> string_body (c # r) = map_option (apfst ((#) c)) (string_body r)"
  by (rule plain_unit_body) (auto simp: is_high_def is_low_def word_le_nat_alt)

lemma string_round_trip: "string_body (quote_body s @ 34 # r) = Some (s, r)"
proof (induction s rule: quote_body.induct)
  case 1
  then show ?case by (simp add: string_body.simps)
next
  case (2 c)
  then show ?case by (simp add: quote_unit_body escape_unit string_body.simps(2) [of 34 r])
next
  case (3 c d s)
  show ?case
  proof (cases "is_high c \<and> is_low d")
    case True
    then show ?thesis using 3(1) by (simp add: surrogate_body)
  next
    case False
    then show ?thesis using 3(2) by (auto simp: quote_unit_body escape_unit)
  qed
qed


section \<open>Whole numbers\<close>

lemma decimal_digit: "is_radix_digit 10 c \<longleftrightarrow> is_digit c"
proof -
  have "uint c - 87 \<ge> 10" if "is_lower c" using that by (simp add: is_lower_def word_le_def)
  moreover have "uint c - 55 \<ge> 10" if "is_upper c" using that by (simp add: is_upper_def word_le_def)
  moreover have "uint c - 48 < 10" if "is_digit c" using that by (simp add: is_digit_def word_le_def)
  ultimately show ?thesis by (auto simp: is_radix_digit_def digit_value_def)
qed

lemma decimal_digits:
  assumes "0 \<le> n"
  shows "digits_int 10 (int_digits 10 n) = n" "list_all is_digit (int_digits 10 n)" "int_digits 10 n \<noteq> []"
  using digits_value [of 10 n] assms by (auto simp: decimal_digit list_all_iff int_digits.simps [of 10 n])

lemma decimal_head: "0 < n \<Longrightarrow> hd (int_digits 10 n) \<noteq> 48"
proof (induction "nat n" arbitrary: n rule: less_induct)
  case less
  show ?case
  proof (cases "n < 10")
    case True
    then have "n \<in> set [1, 2, 3, 4, 5, 6, 7, 8, 9]" using less.prems by (simp, presburger)
    moreover have "list_all (\<lambda>n. hd (int_digits 10 n) \<noteq> 48) [1, 2, 3, 4, 5, 6, 7, 8, 9]" by code_simp
    ultimately show ?thesis unfolding list_all_iff by blast
  next
    case False
    then have "nat (n div 10) < nat n" "0 < n div 10" by linarith+
    then show ?thesis using less.hyps [of "n div 10"] False decimal_digits(3) [of "n div 10"]
      by (simp add: int_digits.simps [of 10 n])
  qed
qed

lemma decimal_length: "0 \<le> n \<Longrightarrow> n < 10 ^ 21 \<Longrightarrow> length (int_digits 10 n) \<le> 21"
  using digits_length [of 10 n 20] by simp

definition int_text :: "int \<Rightarrow> jstr" where
  "int_text n = (if n < 0 then 45 # int_digits 10 (- n) else int_digits 10 n)"

lemma rat_is_int_of_int [simp]: "rat_is_int (of_int n)"
  by (simp add: rat_is_int_def)

lemma int_scale: "decimal_scale k (of_int n) = 0"
  by (cases k) simp_all

lemma strip_pad:
  "rev (dropWhile P (rev s)) @ replicate (length s - length (dropWhile P (rev s))) c = s" if "\<And>x. P x \<Longrightarrow> x = c"
proof -
  have t: "takeWhile P (rev s) = replicate (length (takeWhile P (rev s))) c"
    by (rule replicate_eqI) (auto dest: set_takeWhileD that)
  have "length s = length (takeWhile P (rev s)) + length (dropWhile P (rev s))"
    by (metis length_append length_rev takeWhile_dropWhile_id)
  moreover have "s = rev (dropWhile P (rev s)) @ rev (takeWhile P (rev s))"
    by (metis rev_append rev_rev_ident takeWhile_dropWhile_id)
  ultimately show ?thesis using t by (metis add_diff_cancel_right' rev_replicate)
qed

lemma number_text_pos:
  assumes "0 < n" "n < 10 ^ 21"
  shows "number_text (of_int n) = int_digits 10 n"
proof -
  obtain d where d: "int_digits 10 n = d" by blast
  have l: "length d \<le> 21" using assms d by (auto intro: decimal_length)
  obtain z where z: "dropWhile (\<lambda>c. c = 48) (rev d) = z" by blast
  have s: "rev z @ replicate (length d - length z) 48 = d"
    using strip_pad [of "\<lambda>c. c = 48" 48 d] z by simp
  have "length z \<le> length d" using z by (metis length_dropWhile_le length_rev)
  then show ?thesis using assms l s by (simp add: number_text_def int_scale Let_def d z)
qed

lemma number_text_neg: "0 < r \<Longrightarrow> number_text (- r) = 45 # number_text r"
  by (simp add: number_text_def Let_def)

lemma number_text_int:
  assumes "\<bar>n\<bar> < 10 ^ 21"
  shows "number_text (of_int n) = int_text n"
proof -
  consider "n = 0" | "0 < n" | "n < 0" by linarith
  then show ?thesis
  proof cases
    case 1
    then show ?thesis by (simp add: number_text_def int_text_def int_digits.simps [of 10 0] digit_unit_def js_def)
  next
    case 2
    then show ?thesis using number_text_pos [of n] assms by (simp add: int_text_def)
  next
    case 3
    then show ?thesis
      using number_text_pos [of "- n"] number_text_neg [of "of_int (- n)"] assms by (simp add: int_text_def)
  qed
qed

text \<open>What may follow a number: not another of its characters.\<close>

definition number_ends :: "jstr \<Rightarrow> bool" where
  "number_ends r \<longleftrightarrow> (case r of [] \<Rightarrow> True | c # t \<Rightarrow> \<not> is_digit c \<and> c \<noteq> 46 \<and> c \<noteq> 101 \<and> c \<noteq> 69)"

lemma span_digits:
  assumes "list_all is_digit ds" "number_ends r"
  shows "takeWhile is_digit (ds @ r) = ds" "dropWhile is_digit (ds @ r) = r"
  using assms by (auto simp: list_all_iff number_ends_def takeWhile_append dropWhile_append split: list.splits)

lemma unsigned_digits:
  assumes "list_all is_digit ds" "ds \<noteq> []"
  shows "unsigned_literal ds = Some (of_int (digits_int 10 ds))"
proof -
  have t: "takeWhile is_digit ds = ds" "dropWhile is_digit ds = []"
    using span_digits [OF assms(1), of "[]"] by (simp_all add: number_ends_def)
  then show ?thesis using assms(2) by (simp add: unsigned_literal_def Let_def t exponent_def pow10_def)
qed

lemma digit_bounds: "is_digit c \<Longrightarrow> c \<noteq> 43 \<and> c \<noteq> 45"
  by (auto simp: is_digit_def)

lemma decimal_int: "decimal_literal (int_text n) = Some (of_int n)"
proof (cases "n < 0")
  case True
  then show ?thesis using decimal_digits [of "- n"] by (simp add: int_text_def decimal_literal_def unsigned_digits)
next
  case False
  note d = decimal_digits [of n]
  obtain c t where c: "int_digits 10 n = c # t" using d(3) False by (cases "int_digits 10 n") auto
  then have "is_digit c" using d(2) False by simp
  then show ?thesis using False d unsigned_digits [of "c # t"] digit_bounds [of c] c
    by (simp add: int_text_def decimal_literal_def)
qed

lemma json_number_int:
  assumes "number_ends r"
  shows "json_number (int_text n @ r) = Some (of_int n, r)"
proof -
  obtain sg ds where parts: "int_text n = sg @ ds" "ds = int_digits 10 \<bar>n\<bar>" "sg = (if n < 0 then [45] else [])"
    by (simp add: int_text_def)
  have d: "list_all is_digit ds" "ds \<noteq> []" using decimal_digits [of "\<bar>n\<bar>"] parts by simp_all
  have head: "opt_head (\<lambda>c. c = 45) (int_text n @ r) = (sg, ds @ r)"
  proof (cases ds)
    case (Cons c t)
    then have "c \<noteq> 45" using d(1) digit_bounds [of c] by simp
    then show ?thesis using parts(1,3) Cons by (cases "n < 0") (simp_all add: opt_head_def)
  qed (use d in simp)
  have zero: "\<not> (hd ds = 48 \<and> length ds \<noteq> 1)"
  proof (cases "n = 0")
    case True
    then show ?thesis using parts by (simp add: int_digits.simps [of 10 0])
  next
    case False
    then show ?thesis using decimal_head [of "\<bar>n\<bar>"] parts by simp
  qed
  have "json_fraction r = ([], r)" "json_exponent r = ([], r)"
    using assms by (auto simp: json_fraction_def json_exponent_def opt_head_def number_ends_def split: list.splits)
  then show ?thesis
    using head zero d span_digits [OF d(1) assms] decimal_int [of n] parts(1)
    by (simp add: json_number_def)
qed

section \<open>Values\<close>

lemma int_text_head: "\<exists>c t. int_text n = c # t \<and> (is_digit c \<or> c = 45)"
  using decimal_digits [of n] by (cases "n < 0"; cases "int_digits 10 n") (simp_all add: int_text_def)

lemma plain_number:
  assumes "rat_is_int r" "\<bar>r\<bar> < 10 ^ 21"
  obtains n where "r = of_int n" "number_text r = int_text n"
proof -
  have r: "r = of_int \<lfloor>r\<rfloor>" using assms(1) unfolding rat_is_int_def by (rule sym)
  then have "\<bar>of_int \<lfloor>r\<rfloor> :: rat\<bar> < of_int (10 ^ 21)" using assms(2) by simp
  then have "\<bar>\<lfloor>r\<rfloor>\<bar> < 10 ^ 21" by linarith
  then have "number_text (of_int \<lfloor>r\<rfloor>) = int_text \<lfloor>r\<rfloor>" by (rule number_text_int)
  then show thesis using that [of "\<lfloor>r\<rfloor>"] r by simp
qed

fun json_plain :: "jval \<Rightarrow> bool" where
  "json_plain JUndef = False"
| "json_plain JNull = True"
| "json_plain (JBool b) = True"
| "json_plain (JNum n) = (rat_is_int n \<and> \<bar>n\<bar> < 10 ^ 21)"
| "json_plain (JStr s) = True"
| "json_plain (JArr vs) = list_all json_plain vs"
| "json_plain (JObj ob) = (distinct (map fst ob) \<and> list_all (\<lambda>(k, v). json_plain v) ob)"

lemma json_print_head:
  assumes "json_plain v"
  obtains c t where "json_print v = c # t" "\<not> json_space c" "c \<noteq> 93" "c \<noteq> 125"
proof (cases "\<exists>r. v = JNum r")
  case True
  then obtain r where r: "v = JNum r" by blast
  then obtain n where "number_text r = int_text n" using assms by (auto elim: plain_number)
  moreover obtain c u where c: "int_text n = c # u" "is_digit c \<or> c = 45" using int_text_head [of n] by blast
  moreover have "\<not> json_space c \<and> c \<noteq> 93 \<and> c \<noteq> 125" using c(2) by (auto simp: json_space_def is_digit_def)
  ultimately show thesis using that r by simp
next
  case False
  then have "\<exists>c t. json_print v = c # t \<and> c \<in> {34, 91, 102, 110, 116, 123}"
    using assms by (cases v) (simp_all add: bool_text_def js_def json_quote_def)
  then show thesis using that by (auto simp: json_space_def)
qed

lemma skip_print: "json_plain v \<Longrightarrow> skip (json_print v @ r) = json_print v @ r"
  by (erule json_print_head) (simp add: skip_def)

lemma skip_mark [simp]: "\<not> json_space c \<Longrightarrow> skip (c # r) = c # r"
  by (simp add: skip_def)

lemma not_space_marks [simp]:
  "\<not> json_space 93" "\<not> json_space 44" "\<not> json_space 125" "\<not> json_space 58" "\<not> json_space 34" "\<not> json_space 123" "\<not> json_space 91"
  by code_simp+

text \<open>With enough fuel a printed value is read back, whatever follows it.\<close>

definition reads :: "jval \<Rightarrow> bool" where
  "reads v \<longleftrightarrow> (\<forall>r. number_ends r \<longrightarrow> (\<exists>n0. \<forall>n \<ge> n0. json_value n (json_print v @ r) = Some (v, r)))"

lemma number_ends_marks [simp]:
  "number_ends []" "number_ends (44 # r)" "number_ends (93 # r)" "number_ends (125 # r)"
  by (simp_all add: number_ends_def is_digit_def)

lemma readsD: "reads v \<Longrightarrow> number_ends r \<Longrightarrow> \<exists>n0. \<forall>n \<ge> n0. json_value n (json_print v @ r) = Some (v, r)"
  by (simp add: reads_def)

lemma read_elems:
  assumes "vs \<noteq> []" "list_all reads vs" "list_all json_plain vs"
  shows "\<exists>n0. \<forall>n \<ge> n0. json_elems n (join [44] (map json_print vs) @ 93 # r) = Some (vs, r)"
  using assms
proof (induction vs)
  case (Cons v vs)
  show ?case
  proof (cases vs)
    case Nil
    obtain n0 where n0: "\<And>n. n0 \<le> n \<Longrightarrow> json_value n (json_print v @ 93 # r) = Some (v, 93 # r)"
      using readsD [of v "93 # r"] Cons.prems(2) by auto
    have "json_elems n (json_print v @ 93 # r) = Some ([v], r)" if "Suc n0 \<le> n" for n
      using that n0 [of "n - 1"] by (cases n) (simp_all add: json_elems.simps)
    then show ?thesis using Nil by auto
  next
    case (Cons w ws)
    let ?t = "join [44] (map json_print vs) @ 93 # r"
    obtain n0 where n0: "\<And>n. n0 \<le> n \<Longrightarrow> json_value n (json_print v @ 44 # ?t) = Some (v, 44 # ?t)"
      using readsD [of v "44 # ?t"] Cons.prems(2) by auto
    obtain n1 where n1: "\<And>n. n1 \<le> n \<Longrightarrow> json_elems n ?t = Some (vs, r)"
      using Cons.IH Cons.prems Cons by auto
    have "skip ?t = ?t"
      using skip_print [of w "(if ws = [] then [] else 44 # join [44] (map json_print ws)) @ 93 # r"] Cons.prems(3) Cons
      by (cases ws) simp_all
    then have "json_elems n (json_print v @ 44 # ?t) = Some (v # vs, r)" if "Suc (n0 + n1) \<le> n" for n
      using that n0 [of "n - 1"] n1 [of "n - 1"] by (cases n) (simp_all add: json_elems.simps)
    then have "\<exists>m. \<forall>n \<ge> m. json_elems n (json_print v @ 44 # ?t) = Some (v # vs, r)" by blast
    then show ?thesis using Cons by simp
  qed
qed simp

definition member_text :: "jstr \<times> jval \<Rightarrow> jstr" where
  "member_text kv = json_quote (fst kv) @ 58 # json_print (snd kv)"

lemma obj_set_new: "k \<notin> fst ` set ob \<Longrightarrow> obj_set k v ob = ob @ [(k, v)]"
  by (induction ob) (auto simp: obj_set_def)

lemma read_members:
  assumes "ob \<noteq> []" "list_all (\<lambda>(k, v). reads v) ob" "list_all (\<lambda>(k, v). json_plain v) ob"
    and "distinct (map fst (acc @ ob))"
  shows "\<exists>n0. \<forall>n \<ge> n0. json_members n acc (join [44] (map member_text ob) @ 125 # r) = Some (acc @ ob, r)"
  using assms
proof (induction ob arbitrary: acc)
  case (Cons kv ob)
  obtain k v where kv: "kv = (k, v)" by fastforce
  have new: "obj_set k v acc = acc @ [(k, v)]" using Cons.prems(4) kv by (auto intro: obj_set_new)
  have v: "reads v" "json_plain v" using Cons.prems kv by simp_all
  show ?case
  proof (cases ob)
    case Nil
    obtain n0 where n0: "\<And>n. n0 \<le> n \<Longrightarrow> json_value n (json_print v @ 125 # r) = Some (v, 125 # r)"
      using readsD [OF v(1), of "125 # r"] by auto
    have "json_members n acc (member_text (k, v) @ 125 # r) = Some (acc @ [(k, v)], r)" if "Suc n0 \<le> n" for n
      using that n0 [of "n - 1"]
      by (cases n) (simp_all add: json_members.simps member_text_def json_quote_def string_round_trip
        skip_print [OF v(2)] new)
    then have "\<exists>m. \<forall>n \<ge> m. json_members n acc (member_text (k, v) @ 125 # r) = Some (acc @ [(k, v)], r)" by blast
    then show ?thesis using Nil kv by simp
  next
    case (Cons x xs)
    let ?t = "join [44] (map member_text ob) @ 125 # r"
    obtain n0 where n0: "\<And>n. n0 \<le> n \<Longrightarrow> json_value n (json_print v @ 44 # ?t) = Some (v, 44 # ?t)"
      using readsD [OF v(1), of "44 # ?t"] by auto
    obtain n1 where n1: "\<And>n. n1 \<le> n \<Longrightarrow> json_members n (acc @ [(k, v)]) ?t = Some ((acc @ [(k, v)]) @ ob, r)"
      using Cons.IH [of "acc @ [(k, v)]"] Cons.prems Cons kv by auto
    have "skip ?t = ?t" using Cons by (cases xs) (simp_all add: member_text_def json_quote_def)
    then have "json_members n acc (member_text (k, v) @ 44 # ?t) = Some (acc @ (k, v) # ob, r)" if "Suc (n0 + n1) \<le> n" for n
      using that n0 [of "n - 1"] n1 [of "n - 1"]
      by (cases n) (simp_all add: json_members.simps member_text_def json_quote_def string_round_trip
        skip_print [OF v(2)] new)
    then have "\<exists>m. \<forall>n \<ge> m. json_members n acc (member_text (k, v) @ 44 # ?t) = Some (acc @ (k, v) # ob, r)" by blast
    then show ?thesis using Cons kv by simp
  qed
qed simp

lemma plain_reads: "json_plain v \<Longrightarrow> reads v"
proof (induction v)
  case (JArr vs)
  then have vs: "list_all reads vs" "list_all json_plain vs" by (auto simp: list_all_iff)
  show ?case unfolding reads_def
  proof (intro allI impI)
    fix r
    assume "number_ends r"
    show "\<exists>n0. \<forall>n \<ge> n0. json_value n (json_print (JArr vs) @ r) = Some (JArr vs, r)"
    proof (cases "vs = []")
      case True
      then have "json_value n (json_print (JArr vs) @ r) = Some (JArr vs, r)" if "1 \<le> n" for n
        using that by (cases n) (simp_all add: json_value.simps)
      then show ?thesis by blast
    next
      case False
      obtain n0 where n0: "\<And>n. n0 \<le> n \<Longrightarrow> json_elems n (join [44] (map json_print vs) @ 93 # r) = Some (vs, r)"
        using read_elems [OF False vs] by blast
      obtain v ws where w: "vs = v # ws" using False by (cases vs) auto
      obtain c t where c: "json_print v = c # t" "\<not> json_space c" "c \<noteq> 93" "c \<noteq> 125"
        using json_print_head [of v] vs(2) w by auto
      obtain u where u: "join [44] (map json_print vs) @ 93 # r = c # u" using w c by (cases ws) simp_all
      have "json_value n (json_print (JArr vs) @ r) = Some (JArr vs, r)" if "Suc n0 \<le> n" for n
        using that n0 [of "n - 1"] c u by (cases n) (simp_all add: json_value.simps)
      then show ?thesis by blast
    qed
  qed
next
  case (JObj ob)
  then have ob: "list_all (\<lambda>(k, v). reads v) ob" "list_all (\<lambda>(k, v). json_plain v) ob" "distinct (map fst ob)"
    by (auto simp: list_all_iff)
  have keep: "filter (\<lambda>kv. snd kv \<noteq> JUndef) ob = ob"
    using ob(2) by (auto simp: filter_id_conv list_all_iff)
  have p: "json_print (JObj ob) @ r = 123 # join [44] (map member_text ob) @ 125 # r" for r
    by (simp add: keep member_text_def [abs_def] case_prod_unfold)
  show ?case unfolding reads_def
  proof (intro allI impI)
    fix r
    assume "number_ends r"
    show "\<exists>n0. \<forall>n \<ge> n0. json_value n (json_print (JObj ob) @ r) = Some (JObj ob, r)"
    proof (cases "ob = []")
      case True
      then have "json_value n (json_print (JObj ob) @ r) = Some (JObj ob, r)" if "1 \<le> n" for n
        using that unfolding p by (cases n) (simp_all add: json_value.simps)
      then show ?thesis by blast
    next
      case False
      obtain n0 where n0: "\<And>n. n0 \<le> n \<Longrightarrow> json_members n [] (join [44] (map member_text ob) @ 125 # r) = Some (ob, r)"
        using read_members [OF False ob(1,2), of "[]" r] ob(3) by auto
      obtain u where u: "join [44] (map member_text ob) @ 125 # r = 34 # u"
        using False by (cases ob; cases "tl ob") (simp_all add: member_text_def json_quote_def)
      have "json_value n (json_print (JObj ob) @ r) = Some (JObj ob, r)" if "Suc n0 \<le> n" for n
        using that n0 [of "n - 1"] u unfolding p by (cases n) (simp_all add: json_value.simps)
      then show ?thesis by blast
    qed
  qed
next
  case (JNum r)
  then obtain k where k: "r = of_int k" "number_text r = int_text k" by (auto elim: plain_number)
  obtain c t where c: "int_text k = c # t" "is_digit c \<or> c = 45" using int_text_head [of k] by auto
  have "json_value n (json_print (JNum r) @ rest) = Some (JNum r, rest)" if "1 \<le> n" "number_ends rest" for n rest
  proof -
    have "take 4 (c # t @ rest) \<noteq> js ''true''" "take 5 (c # t @ rest) \<noteq> js ''false''" "take 4 (c # t @ rest) \<noteq> js ''null''"
      using c(2) by (auto simp: js_def is_digit_def)
    moreover have "c \<noteq> 123 \<and> c \<noteq> 91 \<and> c \<noteq> 34" using c(2) by (auto simp: is_digit_def)
    ultimately show ?thesis using that json_number_int [of rest k] c k by (cases n) (simp_all add: json_value.simps)
  qed
  then show ?case unfolding reads_def by blast
next
  case (JStr s)
  have "json_value n (json_print (JStr s) @ r) = Some (JStr s, r)" if "1 \<le> n" for n r
    using that by (cases n) (simp_all add: json_value.simps json_quote_def string_round_trip)
  then show ?case unfolding reads_def by blast
next
  case (JBool b)
  have "json_value n (json_print (JBool b) @ r) = Some (JBool b, r)" if "1 \<le> n" for n r
    using that by (cases n) (simp_all add: json_value.simps bool_text_def js_def)
  then show ?case unfolding reads_def by blast
next
  case JNull
  have "json_value n (json_print JNull @ r) = Some (JNull, r)" if "1 \<le> n" for n r
    using that by (cases n) (simp_all add: json_value.simps js_def)
  then show ?case unfolding reads_def by blast
qed simp_all

lemma json_round_trip:
  assumes "json_plain v"
  shows "json_parse (json_print v) = Some v"
proof -
  let ?s = "json_print v"
  obtain n0 where n0: "\<And>n. n0 \<le> n \<Longrightarrow> json_value n ?s = Some (v, [])"
    using readsD [OF plain_reads [OF assms], of "[]"] by auto
  have "json_value (2 * length ?s + 2 + n0) ?s = json_value (2 * length ?s + 2) ?s" by (rule json_fuel) simp
  then have "json_value (2 * length ?s + 2) ?s = Some (v, [])" using n0 by simp
  then show ?thesis using skip_print [OF assms, of "[]"] by (simp add: json_parse_def skip_def)
qed

end
