(* ===== verification/Encrypt_Common.thy ===== *)
theory Encrypt_Common
  imports Pkcs11_Uri Json_Round_Trip
begin

text \<open>
  What the providers of \<^verbatim>\<open>src/encrypt\<close> share: the failures an operation can end with, cancellation
  (\<^verbatim>\<open>runWithSignal\<close>), the enums and the ECC cipher payload of \<^verbatim>\<open>utilities/utilities.ts\<close>.  Web Crypto and
  Base64 are the runtime's: records of functions, arguments of the operations that use them.
\<close>

section \<open>Failures and cancellation\<close>

datatype failure =
    TokenFailure pkcs11_error
  | EncryptFailure jstr
  | Unsupported jstr
  | OtherFailure jstr

fun failure_message :: "failure \<Rightarrow> jstr" where
  "failure_message (TokenFailure e) = pkcs11_message e"
| "failure_message (EncryptFailure m) = m"
| "failure_message (Unsupported operation) = js ''encrypt: operation not supported by this provider: '' @ operation"
| "failure_message (OtherFailure m) = m"

fun normalizeEncryptError :: "failure \<Rightarrow> failure" where
  "normalizeEncryptError (OtherFailure m) = EncryptFailure m"
| "normalizeEncryptError e = e"

text \<open>An operation takes the state of the world (a token, say) and answers with a result and the next state.\<close>

type_synonym ('s, 'a) operation = "'s \<Rightarrow> (failure + 'a) \<times> 's"

definition settled :: "failure + 'a \<Rightarrow> ('s, 'a) operation" where
  "settled r s = (r, s)"

definition on_success :: "('a \<Rightarrow> ('s, 'b) operation) \<Rightarrow> failure + 'a \<Rightarrow> ('s, 'b) operation" where
  "on_success f r = (case r of Inl e \<Rightarrow> settled (Inl e) | Inr x \<Rightarrow> f x)"

definition chain :: "('s, 'a) operation \<Rightarrow> ('a \<Rightarrow> ('s, 'b) operation) \<Rightarrow> ('s, 'b) operation" where
  "chain m f s = (case m s of (r, t) \<Rightarrow> on_success f r t)"

definition handle :: "('s, 'a) operation \<Rightarrow> (failure \<Rightarrow> ('s, 'a) operation) \<Rightarrow> ('s, 'a) operation" where
  "handle m h s = (case m s of (Inl e, t) \<Rightarrow> h e t | (Inr x, t) \<Rightarrow> (Inr x, t))"

text \<open>\<^verbatim>\<open>finally\<close> with a clean-up whose own failure is swallowed.\<close>

definition finally_quiet :: "('s, 'a) operation \<Rightarrow> ('s, unit) operation \<Rightarrow> ('s, 'a) operation" where
  "finally_quiet m cleanup s = (case m s of (r, t) \<Rightarrow> (r, snd (cleanup t)))"

text \<open>
  The signal of a call, as the call meets it: absent, aborted before the call, aborted while the operation runs,
  or never aborted.  An abort carries its reason, if it has one.
\<close>

datatype signal = NoSignal | AbortedBefore "failure option" | AbortedDuring "failure option" | Quiet

definition abort_reason :: "failure option \<Rightarrow> failure" where
  "abort_reason r = normalizeEncryptError (case r of Some e \<Rightarrow> e | None \<Rightarrow> EncryptFailure (js ''operation aborted''))"

definition runEncryptOperation :: "('s, 'a) operation \<Rightarrow> ('s, 'a) operation" where
  "runEncryptOperation m = handle m (\<lambda>e. settled (Inl (normalizeEncryptError e)))"

definition runWithSignal :: "signal \<Rightarrow> ('s, 'a) operation \<Rightarrow> ('s, 'a) operation" where
  "runWithSignal sig m s =
     (case sig of
        AbortedBefore r \<Rightarrow> (Inl (abort_reason r), s)
      | AbortedDuring r \<Rightarrow> (Inl (abort_reason r), snd (runEncryptOperation m s))
      | _ \<Rightarrow> runEncryptOperation m s)"

section \<open>Enums\<close>

definition Key128Bits :: int where "Key128Bits = 16"
definition Key256Bits :: int where "Key256Bits = 32"
definition Key2048Bits :: int where "Key2048Bits = 2048"
definition Key3072Bits :: int where "Key3072Bits = 3072"
definition Key4096Bits :: int where "Key4096Bits = 4096"
definition CurveP256 :: int where "CurveP256 = 256"
definition CurveP384 :: int where "CurveP384 = 384"
definition CurveP521 :: int where "CurveP521 = 521"

definition curveName :: "int \<Rightarrow> jstr" where
  "curveName curve =
     (if curve = CurveP256 then js ''P-256''
      else if curve = CurveP384 then js ''P-384''
      else if curve = CurveP521 then js ''P-521''
      else js ''unknown'')"

section \<open>Runtime services\<close>

record base64 =
  b64_encode :: "bytes \<Rightarrow> jstr"
  b64_decode :: "jstr \<Rightarrow> jstr + bytes"

datatype algorithm =
    Aes
  | AesGcm bytes "bytes option"
  | RsaOaep
  | RsaPss int
  | RsaPkcs1
  | Hmac
  | Ed25519
  | Ecdh jstr
  | Hkdf

datatype key_format = Raw | Spki | Pkcs8

datatype key_usage = Encrypt | Decrypt | Sign | Verify | DeriveBits | DeriveKey

record 'k web_crypto =
  wc_importKey :: "key_format \<Rightarrow> bytes \<Rightarrow> algorithm \<Rightarrow> key_usage list \<Rightarrow> jstr + 'k"
  wc_exportKey :: "key_format \<Rightarrow> 'k \<Rightarrow> jstr + bytes"
  wc_generateKey :: "nat \<Rightarrow> algorithm \<Rightarrow> int \<Rightarrow> key_usage list \<Rightarrow> jstr + ('k \<times> 'k)"
  wc_encrypt :: "algorithm \<Rightarrow> 'k \<Rightarrow> bytes \<Rightarrow> jstr + bytes"
  wc_decrypt :: "algorithm \<Rightarrow> 'k \<Rightarrow> bytes \<Rightarrow> jstr + bytes"
  wc_sign :: "algorithm \<Rightarrow> 'k \<Rightarrow> bytes \<Rightarrow> jstr + bytes"
  wc_verify :: "algorithm \<Rightarrow> 'k \<Rightarrow> bytes \<Rightarrow> bytes \<Rightarrow> jstr + bool"
  wc_digest :: "bytes \<Rightarrow> jstr + bytes"
  wc_deriveBits :: "'k \<Rightarrow> 'k \<Rightarrow> int \<Rightarrow> jstr + bytes"
  wc_deriveKey :: "'k \<Rightarrow> bytes \<Rightarrow> key_usage list \<Rightarrow> jstr + 'k"

text \<open>What the runtime throws is not an \<^verbatim>\<open>EncryptError\<close>.\<close>

fun thrown :: "jstr + 'a \<Rightarrow> failure + 'a" where
  "thrown (Inl m) = Inl (OtherFailure m)"
| "thrown (Inr x) = Inr x"

section \<open>Helpers of utilities.ts\<close>

definition bytesOf :: "jstr \<Rightarrow> bytes" where "bytesOf = utf8_encode"

definition textOf :: "bytes \<Rightarrow> jstr" where "textOf = utf8_decode"

definition toBase64 :: "base64 \<Rightarrow> bytes \<Rightarrow> jstr" where "toBase64 = b64_encode"

definition fromBase64 :: "base64 \<Rightarrow> jstr \<Rightarrow> failure + bytes" where
  "fromBase64 b v = thrown (b64_decode b v)"

definition decimal_text :: "int \<Rightarrow> jstr" where
  "decimal_text n = number_text (of_int n)"

definition resolveECDHCurve :: "int \<Rightarrow> failure + jstr" where
  "resolveECDHCurve curve =
     (if curveName curve = js ''unknown'' then Inl (EncryptFailure (js ''unsupported ECDH curve: '' @ decimal_text curve))
      else Inr (curveName curve))"

definition isLocalAESKey :: "base64 \<Rightarrow> jstr \<Rightarrow> bool" where
  "isLocalAESKey b secretKey =
     (case fromBase64 b secretKey of Inr raw \<Rightarrow> length raw = 16 \<or> length raw = 32 | Inl _ \<Rightarrow> False)"

definition importRSAPublicKey ::
  "base64 \<Rightarrow> 'k web_crypto \<Rightarrow> jstr \<Rightarrow> algorithm \<Rightarrow> key_usage list \<Rightarrow> failure + 'k" where
  "importRSAPublicKey b wc key alg usages =
     and_then (fromBase64 b key) (\<lambda>der. thrown (wc_importKey wc Spki der alg usages))"

definition importRSAPrivateKey ::
  "base64 \<Rightarrow> 'k web_crypto \<Rightarrow> jstr \<Rightarrow> algorithm \<Rightarrow> key_usage list \<Rightarrow> failure + 'k" where
  "importRSAPrivateKey b wc key alg usages =
     and_then (fromBase64 b key) (\<lambda>der. thrown (wc_importKey wc Pkcs8 der alg usages))"

definition importECDHPrivateKey :: "base64 \<Rightarrow> 'k web_crypto \<Rightarrow> jstr \<Rightarrow> jstr \<Rightarrow> failure + 'k" where
  "importECDHPrivateKey b wc key curve =
     and_then (fromBase64 b key) (\<lambda>der. thrown (wc_importKey wc Pkcs8 der (Ecdh curve) [DeriveBits]))"

definition bit_lengths :: "(jstr \<times> int) list" where
  "bit_lengths = [(js ''P-256'', 256), (js ''P-384'', 384), (js ''P-521'', 528)]"

definition ecdh_info :: "jstr \<Rightarrow> bytes" where
  "ecdh_info curve = bytesOf (js ''denoforge/ecdh/'' @ curve)"

definition deriveECCAESKey :: "'k web_crypto \<Rightarrow> 'k \<Rightarrow> 'k \<Rightarrow> jstr \<Rightarrow> failure + 'k" where
  "deriveECCAESKey wc privateKey publicKey curve =
     (case map_of bit_lengths curve of
        None \<Rightarrow> Inl (EncryptFailure (js ''unsupported ECDH curve: '' @ curve))
      | Some n \<Rightarrow>
          and_then (thrown (wc_deriveBits wc privateKey publicKey n)) (\<lambda>shared.
          and_then (thrown (wc_importKey wc Raw shared Hkdf [DeriveKey])) (\<lambda>hkdf.
            thrown (wc_deriveKey wc hkdf (ecdh_info curve) [Encrypt, Decrypt]))))"

section \<open>ECC cipher payload\<close>

record ecc_payload =
  ec_curve :: jstr
  ec_ephemeralPublicKey :: jstr
  ec_nonce :: jstr
  ec_cipherText :: jstr

definition payload_fields :: "ecc_payload \<Rightarrow> jobj" where
  "payload_fields p =
     [(js ''curve'', JStr (ec_curve p)), (js ''ephemeralPublicKey'', JStr (ec_ephemeralPublicKey p)),
      (js ''nonce'', JStr (ec_nonce p)), (js ''cipherText'', JStr (ec_cipherText p))]"

definition encodeECCCipherPayload :: "base64 \<Rightarrow> ecc_payload \<Rightarrow> jstr" where
  "encodeECCCipherPayload b p = toBase64 b (bytesOf (json_print (JObj (payload_fields p))))"

text \<open>
  The decoder only tests that the four fields are truthy.  The consumers hand them to functions of strings; the
  text a field that is not a string would be read as is its conversion.  \<open>null\<close> throws a TypeError at the first
  field, outside the \<^verbatim>\<open>try\<close>; a primitive has no fields.
\<close>

fun truthy :: "jval \<Rightarrow> bool" where
  "truthy JUndef = False"
| "truthy JNull = False"
| "truthy (JBool b) = b"
| "truthy (JNum n) = (n \<noteq> 0)"
| "truthy (JStr s) = (s \<noteq> [])"
| "truthy (JArr vs) = True"
| "truthy (JObj ob) = True"

fun payload_field :: "jval \<Rightarrow> jstr \<Rightarrow> jval" where
  "payload_field (JObj ob) k = obj_get ob k"
| "payload_field _ k = JUndef"

definition payload_names :: "jstr list" where
  "payload_names = [js ''curve'', js ''ephemeralPublicKey'', js ''nonce'', js ''cipherText'']"

definition decodeECCCipherPayload :: "base64 \<Rightarrow> jstr \<Rightarrow> failure + ecc_payload" where
  "decodeECCCipherPayload b encoded =
     (case fromBase64 b encoded of
        Inl _ \<Rightarrow> Inl (EncryptFailure (js ''invalid ECC cipher payload''))
      | Inr raw \<Rightarrow>
          (case json_parse (textOf raw) of
             None \<Rightarrow> Inl (EncryptFailure (js ''invalid ECC cipher payload''))
           | Some JNull \<Rightarrow> Inl (OtherFailure (js ''Cannot read properties of null''))
           | Some v \<Rightarrow>
               (case find (\<lambda>k. \<not> truthy (payload_field v k)) payload_names of
                  Some k \<Rightarrow> Inl (EncryptFailure (js ''ECC cipher payload missing field: '' @ k))
                | None \<Rightarrow>
                    Inr \<lparr> ec_curve = to_text (payload_field v (js ''curve'')),
                          ec_ephemeralPublicKey = to_text (payload_field v (js ''ephemeralPublicKey'')),
                          ec_nonce = to_text (payload_field v (js ''nonce'')),
                          ec_cipherText = to_text (payload_field v (js ''cipherText'')) \<rparr>)))"

section \<open>Facts\<close>

lemmas operation_defs = settled_def on_success_def chain_def handle_def finally_quiet_def runEncryptOperation_def
  runWithSignal_def

lemma thrown_Inr_iff [simp]: "thrown r = Inr x \<longleftrightarrow> r = Inr x"
  by (cases r) simp_all

lemma payload_plain: "json_plain (JObj (payload_fields p))"
  by (simp add: payload_fields_def js_def)

lemma payload_get:
  "obj_get (payload_fields p) (js ''curve'') = JStr (ec_curve p)"
  "obj_get (payload_fields p) (js ''ephemeralPublicKey'') = JStr (ec_ephemeralPublicKey p)"
  "obj_get (payload_fields p) (js ''nonce'') = JStr (ec_nonce p)"
  "obj_get (payload_fields p) (js ''cipherText'') = JStr (ec_cipherText p)"
  by (simp_all add: obj_get_def payload_fields_def js_def)

text \<open>\<^verbatim>\<open>JSON.stringify\<close> escapes lone surrogates, so its text survives the UTF-8 encoder.\<close>

lemma surrogate_halves: "is_surrogate c \<longleftrightarrow> is_high c \<or> is_low c"
  by (auto simp: is_surrogate_def is_high_def is_low_def word_le_nat_alt)

lemma well_formed_Cons: "\<not> is_surrogate c \<Longrightarrow> well_formed (c # s) = well_formed s"
  by (cases s) (simp_all add: surrogate_halves)

lemma well_formed_plain: "list_all (\<lambda>c. \<not> is_surrogate c) xs \<Longrightarrow> well_formed (xs @ ys) = well_formed ys"
  by (induction xs) (simp_all add: well_formed_Cons)

lemma radix_digit_plain: "is_radix_digit 16 c \<Longrightarrow> \<not> is_surrogate c"
  by (auto simp: is_radix_digit_def digit_value_def is_surrogate_def is_high_def is_low_def is_digit_def is_lower_def is_upper_def
    word_le_nat_alt split: if_splits)

lemma hex_digits4_plain: "list_all (\<lambda>c. \<not> is_surrogate c) (hex_digits4 c)"
proof -
  have "list_all (is_radix_digit 16) (hex_digits4 c)" using hex4_digits [of c "[]"] by (simp add: hex4_def split: if_splits)
  then show ?thesis by (auto simp: list_all_iff dest: radix_digit_plain)
qed

lemma quote_unit_plain: "\<not> is_surrogate c \<Longrightarrow> list_all (\<lambda>c. \<not> is_surrogate c) (quote_unit c)"
  using hex_digits4_plain [of c] by (auto simp: quote_unit_def is_surrogate_def is_high_def is_low_def word_le_nat_alt)

lemma escaped_plain: "list_all (\<lambda>c. \<not> is_surrogate c) (92 # 117 # hex_digits4 c)"
  using hex_digits4_plain [of c] by (simp add: is_surrogate_def is_high_def is_low_def word_le_nat_alt)

lemma quote_well_formed: "well_formed (quote_body s @ 34 # r) = well_formed r"
proof (induction s rule: quote_body.induct)
  case 1
  then show ?case by (simp add: well_formed_Cons is_surrogate_def is_high_def is_low_def word_le_nat_alt)
next
  case (2 c)
  have q: "\<not> is_surrogate 34" by (simp add: is_surrogate_def is_high_def is_low_def word_le_nat_alt)
  show ?case using well_formed_plain [OF escaped_plain, of c "34 # r"] well_formed_plain [OF quote_unit_plain, of c "34 # r"]
    by (auto simp: surrogate_halves [symmetric] well_formed_Cons [OF q])
next
  case (3 c d s)
  show ?case
  proof (cases "is_high c \<and> is_low d")
    case True
    then show ?thesis using 3(1) by simp
  next
    case False
    then show ?thesis using 3(2) well_formed_plain [OF escaped_plain, of c "quote_body (d # s) @ 34 # r"]
        well_formed_plain [OF quote_unit_plain, of c "quote_body (d # s) @ 34 # r"]
      by (auto simp: surrogate_halves [symmetric])
  qed
qed

lemma quoted_well_formed: "well_formed (json_quote s @ r) = well_formed r"
proof -
  have "\<not> is_surrogate 34" by (simp add: is_surrogate_def is_high_def is_low_def word_le_nat_alt)
  then show ?thesis by (simp add: json_quote_def quote_well_formed well_formed_Cons)
qed

lemma payload_text:
  "json_print (JObj (payload_fields p)) =
     js ''{'' @ json_quote (js ''curve'') @ js '':'' @ json_quote (ec_curve p) @ js '','' @
     json_quote (js ''ephemeralPublicKey'') @ js '':'' @ json_quote (ec_ephemeralPublicKey p) @ js '','' @
     json_quote (js ''nonce'') @ js '':'' @ json_quote (ec_nonce p) @ js '','' @
     json_quote (js ''cipherText'') @ js '':'' @ json_quote (ec_cipherText p) @ js ''}''"
  by (simp add: payload_fields_def js_def del: json_quote_def)

lemma payload_well_formed: "well_formed (json_print (JObj (payload_fields p)))"
proof -
  have "list_all (\<lambda>c. \<not> is_surrogate c) (js ''{,:}'')" by code_simp
  then have m: "well_formed (js ''{'' @ s) = well_formed s" "well_formed (js '':'' @ s) = well_formed s"
    "well_formed (js '','' @ s) = well_formed s" "well_formed (js ''}'') = True" for s
    by (simp_all add: js_def well_formed_Cons)
  show ?thesis unfolding payload_text by (simp only: quoted_well_formed m)
qed

lemma payload_round_trip:
  assumes "\<And>x. b64_decode b (b64_encode b x) = Inr x"
    and "ec_curve p \<noteq> []" "ec_ephemeralPublicKey p \<noteq> []" "ec_nonce p \<noteq> []" "ec_cipherText p \<noteq> []"
  shows "decodeECCCipherPayload b (encodeECCCipherPayload b p) = Inr p"
proof -
  let ?t = "json_print (JObj (payload_fields p))"
  have "hd ?t \<noteq> 0xFEFF" unfolding payload_text by (simp add: js_def)
  then have t: "textOf (bytesOf ?t) = ?t"
    unfolding textOf_def bytesOf_def by (intro utf8_round_trip payload_well_formed) simp
  have "json_parse ?t = Some (JObj (payload_fields p))" by (rule json_round_trip [OF payload_plain])
  moreover have "find (\<lambda>k. \<not> truthy (payload_field (JObj (payload_fields p)) k)) payload_names = None"
    using assms(2-5) by (simp add: payload_names_def payload_get)
  ultimately show ?thesis
    using assms(1) by (simp add: decodeECCCipherPayload_def encodeECCCipherPayload_def fromBase64_def toBase64_def t payload_get
      del: json_print.simps)
qed

end
