(* ===== verification/Encrypt_Local.thy ===== *)
theory Encrypt_Local
  imports Encrypt_Common
begin

text \<open>
  The local provider (\<^verbatim>\<open>src/encrypt/local/repository.ts\<close>).  What the runtime draws at random (nonces, keys,
  identifiers) is an argument of the operation that draws it.
\<close>

section \<open>State and helpers\<close>

definition LOCAL_PROVIDER :: jstr where "LOCAL_PROVIDER = js ''local''"

definition NONCE_BYTES :: nat where "NONCE_BYTES = 12"

definition PSS_SALT_BYTES :: int where "PSS_SALT_BYTES = 32"

record key_data =
  kd_publicKey :: jstr
  kd_keyId :: jstr
  kd_keyRef :: jstr
  kd_provider :: jstr

record 'k local_provider =
  lp_crypto :: "'k web_crypto"
  lp_base64 :: base64
  lp_encodeHex :: "bytes \<Rightarrow> jstr"
  lp_blake3 :: "bytes \<Rightarrow> bytes"

definition exportPair :: "'k local_provider \<Rightarrow> 'k \<times> 'k \<Rightarrow> failure + (jstr \<times> jstr)" where
  "exportPair lp pair =
     and_then (thrown (wc_exportKey (lp_crypto lp) Spki (fst pair))) (\<lambda>spki.
     and_then (thrown (wc_exportKey (lp_crypto lp) Pkcs8 (snd pair))) (\<lambda>pkcs8.
       Inr (toBase64 (lp_base64 lp) spki, toBase64 (lp_base64 lp) pkcs8)))"

fun import_first_curve :: "'k web_crypto \<Rightarrow> bytes \<Rightarrow> jstr list \<Rightarrow> failure + ('k \<times> jstr)" where
  "import_first_curve wc der [] =
     Inl (OtherFailure (js ''encrypt/local: unable to import ECDH public key on any supported curve''))"
| "import_first_curve wc der (curve # curves) =
     (case wc_importKey wc Spki der (Ecdh curve) [] of
        Inr key \<Rightarrow> Inr (key, curve)
      | Inl _ \<Rightarrow> import_first_curve wc der curves)"

definition importECDHPublicKeyAuto :: "'k local_provider \<Rightarrow> jstr \<Rightarrow> failure + ('k \<times> jstr)" where
  "importECDHPublicKeyAuto lp publicKey =
     and_then (fromBase64 (lp_base64 lp) publicKey) (\<lambda>der.
       import_first_curve (lp_crypto lp) der [js ''P-256'', js ''P-384'', js ''P-521''])"

definition generated_pair ::
  "'k local_provider \<Rightarrow> nat \<Rightarrow> jstr \<Rightarrow> algorithm \<Rightarrow> int \<Rightarrow> key_usage list \<Rightarrow> failure + key_data" where
  "generated_pair lp seed uuid alg bits usages =
     and_then (thrown (wc_generateKey (lp_crypto lp) seed alg bits usages)) (\<lambda>pair.
     and_then (exportPair lp pair) (\<lambda>(pub, priv).
       Inr \<lparr> kd_publicKey = pub, kd_keyId = uuid, kd_keyRef = priv, kd_provider = LOCAL_PROVIDER \<rparr>))"

section \<open>Symmetric keys\<close>

definition generateSymmetricKeys :: "'k local_provider \<Rightarrow> bytes \<Rightarrow> jstr \<Rightarrow> signal \<Rightarrow> ('s, key_data) operation" where
  "generateSymmetricKeys lp raw uuid sig =
     runWithSignal sig (settled (Inr
       \<lparr> kd_publicKey = [], kd_keyId = uuid, kd_keyRef = toBase64 (lp_base64 lp) raw, kd_provider = LOCAL_PROVIDER \<rparr>))"

definition aes_import :: "'k local_provider \<Rightarrow> jstr \<Rightarrow> key_usage \<Rightarrow> failure + 'k" where
  "aes_import lp secretKey usage =
     and_then (fromBase64 (lp_base64 lp) secretKey) (\<lambda>raw. thrown (wc_importKey (lp_crypto lp) Raw raw Aes [usage]))"

definition encryptAES ::
  "'k local_provider \<Rightarrow> bytes \<Rightarrow> jstr \<Rightarrow> jstr \<Rightarrow> jstr option \<Rightarrow> signal \<Rightarrow> ('s, jstr) operation" where
  "encryptAES lp nonce secretKey v additional sig =
     runWithSignal sig (settled
       (and_then (aes_import lp secretKey Encrypt) (\<lambda>key.
        and_then (thrown (wc_encrypt (lp_crypto lp) (AesGcm nonce (map_option bytesOf additional)) key (bytesOf v)))
          (\<lambda>cipher. Inr (toBase64 (lp_base64 lp) (nonce @ cipher))))))"

definition decryptAES ::
  "'k local_provider \<Rightarrow> jstr \<Rightarrow> jstr \<Rightarrow> jstr option \<Rightarrow> signal \<Rightarrow> ('s, jstr) operation" where
  "decryptAES lp secretKey cipherValue additional sig =
     runWithSignal sig (settled
       (and_then (aes_import lp secretKey Decrypt) (\<lambda>key.
        and_then (fromBase64 (lp_base64 lp) cipherValue) (\<lambda>blob.
        and_then (thrown (wc_decrypt (lp_crypto lp)
            (AesGcm (take NONCE_BYTES blob) (map_option bytesOf additional)) key (drop NONCE_BYTES blob)))
          (\<lambda>plain. Inr (textOf plain))))))"

section \<open>Asymmetric keys\<close>

definition generateRSAKeys ::
  "'k local_provider \<Rightarrow> nat \<Rightarrow> jstr \<Rightarrow> int \<Rightarrow> signal \<Rightarrow> ('s, key_data) operation" where
  "generateRSAKeys lp seed uuid bits sig =
     runWithSignal sig (settled (generated_pair lp seed uuid (RsaPss PSS_SALT_BYTES) bits [Sign, Verify]))"

definition generateECDHCurveKeys ::
  "'k local_provider \<Rightarrow> nat \<Rightarrow> jstr \<Rightarrow> int \<Rightarrow> signal \<Rightarrow> ('s, key_data) operation" where
  "generateECDHCurveKeys lp seed uuid curve sig =
     runWithSignal sig (settled
       (and_then (resolveECDHCurve curve) (\<lambda>name. generated_pair lp seed uuid (Ecdh name) 0 [DeriveBits, DeriveKey])))"

definition rsaOaepEncode :: "'k local_provider \<Rightarrow> jstr \<Rightarrow> jstr \<Rightarrow> signal \<Rightarrow> ('s, jstr) operation" where
  "rsaOaepEncode lp publicKey txt sig =
     runWithSignal sig (settled
       (and_then (importRSAPublicKey (lp_base64 lp) (lp_crypto lp) publicKey RsaOaep [Encrypt]) (\<lambda>key.
        and_then (thrown (wc_encrypt (lp_crypto lp) RsaOaep key (bytesOf txt))) (\<lambda>cipher.
          Inr (toBase64 (lp_base64 lp) cipher)))))"

definition rsaOaepDecode :: "'k local_provider \<Rightarrow> jstr \<Rightarrow> jstr \<Rightarrow> signal \<Rightarrow> ('s, jstr) operation" where
  "rsaOaepDecode lp privateKey cipherText sig =
     runWithSignal sig (settled
       (and_then (importRSAPrivateKey (lp_base64 lp) (lp_crypto lp) privateKey RsaOaep [Decrypt]) (\<lambda>key.
        and_then (fromBase64 (lp_base64 lp) cipherText) (\<lambda>blob.
        and_then (thrown (wc_decrypt (lp_crypto lp) RsaOaep key blob)) (\<lambda>plain. Inr (textOf plain))))))"

definition ecdhEncode :: "'k local_provider \<Rightarrow> nat \<Rightarrow> bytes \<Rightarrow> jstr \<Rightarrow> jstr \<Rightarrow> signal \<Rightarrow> ('s, jstr) operation" where
  "ecdhEncode lp seed nonce publicKey txt sig =
     runWithSignal sig (settled
       (and_then (importECDHPublicKeyAuto lp publicKey) (\<lambda>(recipient, curve).
        and_then (thrown (wc_generateKey (lp_crypto lp) seed (Ecdh curve) 0 [DeriveBits])) (\<lambda>(pub, priv).
        and_then (deriveECCAESKey (lp_crypto lp) priv recipient curve) (\<lambda>key.
        and_then (thrown (wc_encrypt (lp_crypto lp) (AesGcm nonce None) key (bytesOf txt))) (\<lambda>cipher.
        and_then (thrown (wc_exportKey (lp_crypto lp) Spki pub)) (\<lambda>spki.
          Inr (encodeECCCipherPayload (lp_base64 lp)
            \<lparr> ec_curve = curve, ec_ephemeralPublicKey = toBase64 (lp_base64 lp) spki,
              ec_nonce = toBase64 (lp_base64 lp) nonce, ec_cipherText = toBase64 (lp_base64 lp) cipher \<rparr>))))))))"

definition ecdhDecode :: "'k local_provider \<Rightarrow> jstr \<Rightarrow> jstr \<Rightarrow> signal \<Rightarrow> ('s, jstr) operation" where
  "ecdhDecode lp privateKey cipherText sig =
     runWithSignal sig (settled
       (and_then (decodeECCCipherPayload (lp_base64 lp) cipherText) (\<lambda>p.
        and_then (importECDHPrivateKey (lp_base64 lp) (lp_crypto lp) privateKey (ec_curve p)) (\<lambda>priv.
        and_then (fromBase64 (lp_base64 lp) (ec_ephemeralPublicKey p)) (\<lambda>der.
        and_then (thrown (wc_importKey (lp_crypto lp) Spki der (Ecdh (ec_curve p)) [])) (\<lambda>pub.
        and_then (deriveECCAESKey (lp_crypto lp) priv pub (ec_curve p)) (\<lambda>key.
        and_then (fromBase64 (lp_base64 lp) (ec_nonce p)) (\<lambda>nonce.
        and_then (fromBase64 (lp_base64 lp) (ec_cipherText p)) (\<lambda>cipher.
        and_then (thrown (wc_decrypt (lp_crypto lp) (AesGcm nonce None) key cipher)) (\<lambda>plain.
          Inr (textOf plain)))))))))))"

section \<open>Key management\<close>

definition local_rotateKey :: "('s, key_data) operation" where
  "local_rotateKey = settled (Inl (Unsupported (js ''rotateKey'')))"

definition local_getKey :: "('s, key_data) operation" where
  "local_getKey = settled (Inl (Unsupported (js ''getKey'')))"

definition local_deactivateKey :: "('s, unit) operation" where
  "local_deactivateKey = settled (Inl (Unsupported (js ''deactivateKey'')))"

section \<open>Hashing\<close>

definition hmac :: "'k local_provider \<Rightarrow> jstr \<Rightarrow> jstr \<Rightarrow> signal \<Rightarrow> ('s, jstr) operation" where
  "hmac lp secretKey message sig =
     runWithSignal sig (settled
       (and_then (thrown (wc_importKey (lp_crypto lp) Raw (bytesOf secretKey) Hmac [Sign])) (\<lambda>key.
        and_then (thrown (wc_sign (lp_crypto lp) Hmac key (bytesOf message))) (\<lambda>sg.
          Inr (toBase64 (lp_base64 lp) sg)))))"

definition sha256Hex :: "'k local_provider \<Rightarrow> jstr \<Rightarrow> signal \<Rightarrow> ('s, jstr) operation" where
  "sha256Hex lp message sig =
     runWithSignal sig (settled
       (and_then (thrown (wc_digest (lp_crypto lp) (bytesOf message))) (\<lambda>d. Inr (lp_encodeHex lp d))))"

definition blake3 :: "'k local_provider \<Rightarrow> jstr \<Rightarrow> signal \<Rightarrow> ('s, jstr) operation" where
  "blake3 lp message sig =
     runWithSignal sig (settled (Inr (toBase64 (lp_base64 lp) (lp_blake3 lp (bytesOf message)))))"

section \<open>Signatures\<close>

definition generateEd25519Keys :: "'k local_provider \<Rightarrow> nat \<Rightarrow> jstr \<Rightarrow> signal \<Rightarrow> ('s, key_data) operation" where
  "generateEd25519Keys lp seed uuid sig =
     runWithSignal sig (settled (generated_pair lp seed uuid Ed25519 0 [Sign, Verify]))"

definition signed_text :: "'k local_provider \<Rightarrow> algorithm \<Rightarrow> failure + 'k \<Rightarrow> jstr \<Rightarrow> failure + jstr" where
  "signed_text lp alg key txt =
     and_then key (\<lambda>k. and_then (thrown (wc_sign (lp_crypto lp) alg k (bytesOf txt))) (\<lambda>sg.
       Inr (toBase64 (lp_base64 lp) sg)))"

definition checked_text ::
  "'k local_provider \<Rightarrow> algorithm \<Rightarrow> failure + 'k \<Rightarrow> jstr \<Rightarrow> jstr \<Rightarrow> string \<Rightarrow> failure + unit" where
  "checked_text lp alg key txt signature complaint =
     and_then key (\<lambda>k.
     and_then (fromBase64 (lp_base64 lp) signature) (\<lambda>sg.
     and_then (thrown (wc_verify (lp_crypto lp) alg k sg (bytesOf txt))) (\<lambda>ok.
       if ok then Inr () else Inl (OtherFailure (js complaint)))))"

definition ed25519_import :: "'k local_provider \<Rightarrow> key_format \<Rightarrow> jstr \<Rightarrow> key_usage \<Rightarrow> failure + 'k" where
  "ed25519_import lp fmt key usage =
     and_then (fromBase64 (lp_base64 lp) key) (\<lambda>der. thrown (wc_importKey (lp_crypto lp) fmt der Ed25519 [usage]))"

definition signEd25519 :: "'k local_provider \<Rightarrow> jstr \<Rightarrow> jstr \<Rightarrow> signal \<Rightarrow> ('s, jstr) operation" where
  "signEd25519 lp privateKey txt sig =
     runWithSignal sig (settled (signed_text lp Ed25519 (ed25519_import lp Pkcs8 privateKey Sign) txt))"

definition verifyEd25519 :: "'k local_provider \<Rightarrow> jstr \<Rightarrow> jstr \<Rightarrow> jstr \<Rightarrow> signal \<Rightarrow> ('s, unit) operation" where
  "verifyEd25519 lp publicKey txt signature sig =
     runWithSignal sig (settled (checked_text lp Ed25519 (ed25519_import lp Spki publicKey Verify) txt signature
       ''encrypt/local: Ed25519 signature verification failed''))"

definition signRSAPSS :: "'k local_provider \<Rightarrow> jstr \<Rightarrow> jstr \<Rightarrow> signal \<Rightarrow> ('s, jstr) operation" where
  "signRSAPSS lp privateKey txt sig =
     runWithSignal sig (settled (signed_text lp (RsaPss PSS_SALT_BYTES)
       (importRSAPrivateKey (lp_base64 lp) (lp_crypto lp) privateKey (RsaPss PSS_SALT_BYTES) [Sign]) txt))"

definition verifyRSAPSS :: "'k local_provider \<Rightarrow> jstr \<Rightarrow> jstr \<Rightarrow> jstr \<Rightarrow> signal \<Rightarrow> ('s, unit) operation" where
  "verifyRSAPSS lp publicKey txt signature sig =
     runWithSignal sig (settled (checked_text lp (RsaPss PSS_SALT_BYTES)
       (importRSAPublicKey (lp_base64 lp) (lp_crypto lp) publicKey (RsaPss PSS_SALT_BYTES) [Verify]) txt signature
       ''encrypt/local: RSA-PSS signature verification failed''))"

definition signRSAPKCS1v15SHA256 :: "'k local_provider \<Rightarrow> jstr \<Rightarrow> jstr \<Rightarrow> signal \<Rightarrow> ('s, jstr) operation" where
  "signRSAPKCS1v15SHA256 lp privateKey txt sig =
     runWithSignal sig (settled (signed_text lp RsaPkcs1
       (importRSAPrivateKey (lp_base64 lp) (lp_crypto lp) privateKey RsaPkcs1 [Sign]) txt))"

definition verifyRSAPKCS1v15SHA256 ::
  "'k local_provider \<Rightarrow> jstr \<Rightarrow> jstr \<Rightarrow> jstr \<Rightarrow> signal \<Rightarrow> ('s, unit) operation" where
  "verifyRSAPKCS1v15SHA256 lp txt publicKey signature sig =
     runWithSignal sig (settled (checked_text lp RsaPkcs1
       (importRSAPublicKey (lp_base64 lp) (lp_crypto lp) publicKey RsaPkcs1 [Verify]) txt signature
       ''encrypt/local: RSA PKCS1v15 signature verification failed''))"

section \<open>Properties\<close>

lemma run_ok: "runWithSignal sig (settled r) s = (Inr x, t) \<Longrightarrow> r = Inr x \<and> t = s \<and> (sig = NoSignal \<or> sig = Quiet)"
  by (cases r) (auto simp: operation_defs split: signal.splits)

lemma run_quiet: "runWithSignal Quiet (settled (Inr x)) s = (Inr x, s)"
  by (simp add: operation_defs)

text \<open>
  What is encrypted is decrypted.  If AES-GCM of the runtime undoes itself under the same key, nonce and
  additional data, and Base64 decodes what it encoded, then the text of \<open>encryptAES\<close> decrypts under the same key
  and additional data to the original, for any text without lone surrogates or a leading byte-order mark.
\<close>

theorem aes_round_trip:
  assumes base64: "\<And>x. b64_decode (lp_base64 lp) (b64_encode (lp_base64 lp) x) = Inr x"
    and gcm: "\<And>raw k iv aad p c. wc_importKey (lp_crypto lp) Raw raw Aes [Encrypt] = Inr k \<Longrightarrow>
      wc_encrypt (lp_crypto lp) (AesGcm iv aad) k p = Inr c \<Longrightarrow>
      \<exists>d. wc_importKey (lp_crypto lp) Raw raw Aes [Decrypt] = Inr d \<and> wc_decrypt (lp_crypto lp) (AesGcm iv aad) d c = Inr p"
    and encrypted: "encryptAES lp nonce key v additional sig s = (Inr cipher, t)"
    and "length nonce = NONCE_BYTES" "well_formed v" "v = [] \<or> hd v \<noteq> 0xFEFF"
  shows "decryptAES lp key cipher additional Quiet s = (Inr v, s)"
proof -
  have v: "textOf (bytesOf v) = v" using assms(5,6) by (simp add: textOf_def bytesOf_def utf8_round_trip)
  obtain raw k c where raw: "fromBase64 (lp_base64 lp) key = Inr raw" and
    k: "wc_importKey (lp_crypto lp) Raw raw Aes [Encrypt] = Inr k" and
    c: "wc_encrypt (lp_crypto lp) (AesGcm nonce (map_option bytesOf additional)) k (bytesOf v) = Inr c" and
    out: "cipher = toBase64 (lp_base64 lp) (nonce @ c)"
    using run_ok [OF encrypted [unfolded encryptAES_def]] by (auto simp: aes_import_def)
  obtain d where d: "wc_importKey (lp_crypto lp) Raw raw Aes [Decrypt] = Inr d"
    "wc_decrypt (lp_crypto lp) (AesGcm nonce (map_option bytesOf additional)) d c = Inr (bytesOf v)"
    using gcm [OF k c] by blast
  have "fromBase64 (lp_base64 lp) cipher = Inr (nonce @ c)" by (simp add: out toBase64_def fromBase64_def base64)
  then show ?thesis
    by (simp add: decryptAES_def aes_import_def raw d assms(4) v run_quiet)
qed

text \<open>
  C28: ECDH payloads reach their recipient.  If the agreement of the runtime is symmetric (the bits derived from
  the ephemeral private and the recipient's public key are those derived from the recipient's private and the
  ephemeral public key), and its key derivation and AES-GCM are functions of their inputs, then the recipient
  decodes what was encoded for its public key, if that is well-formed text that does not begin with U+FEFF:
  decoding the plaintext drops a leading one, and encoding replaces unpaired surrogates.
\<close>

theorem ecdh_round_trip:
  assumes base64: "\<And>x. b64_decode (lp_base64 lp) (b64_encode (lp_base64 lp) x) = Inr x"
      "\<And>x. x \<noteq> [] \<Longrightarrow> b64_encode (lp_base64 lp) x \<noteq> []"
    and agree: "\<And>curve recipient seed pub priv spki.
      wc_importKey (lp_crypto lp) Spki recipient_der (Ecdh curve) [] = Inr recipient \<Longrightarrow>
      wc_generateKey (lp_crypto lp) seed (Ecdh curve) 0 [DeriveBits] = Inr (pub, priv) \<Longrightarrow>
      wc_exportKey (lp_crypto lp) Spki pub = Inr spki \<Longrightarrow>
      spki \<noteq> [] \<and> (\<exists>mine theirs. wc_importKey (lp_crypto lp) Pkcs8 recipient_pkcs8 (Ecdh curve) [DeriveBits] = Inr mine \<and>
        wc_importKey (lp_crypto lp) Spki spki (Ecdh curve) [] = Inr theirs \<and>
        (\<forall>n. wc_deriveBits (lp_crypto lp) mine theirs n = wc_deriveBits (lp_crypto lp) priv recipient n))"
    and gcm: "\<And>iv k p c. wc_encrypt (lp_crypto lp) (AesGcm iv None) k p = Inr c \<Longrightarrow>
      c \<noteq> [] \<and> wc_decrypt (lp_crypto lp) (AesGcm iv None) k c = Inr p"
    and keys: "fromBase64 (lp_base64 lp) publicKey = Inr recipient_der" "fromBase64 (lp_base64 lp) privateKey = Inr recipient_pkcs8"
    and encoded: "ecdhEncode lp seed nonce publicKey v sig s = (Inr payload, t)"
    and "nonce \<noteq> []" "well_formed v" "v = [] \<or> hd v \<noteq> 0xFEFF"
  shows "ecdhDecode lp privateKey payload Quiet s = (Inr v, s)"
proof -
  have v: "textOf (bytesOf v) = v" using assms(9,10) by (simp add: textOf_def bytesOf_def utf8_round_trip)
  obtain recipient curve pub priv key c spki where
    auto_import: "import_first_curve (lp_crypto lp) recipient_der [js ''P-256'', js ''P-384'', js ''P-521''] = Inr (recipient, curve)" and
    gen: "wc_generateKey (lp_crypto lp) seed (Ecdh curve) 0 [DeriveBits] = Inr (pub, priv)" and
    key: "deriveECCAESKey (lp_crypto lp) priv recipient curve = Inr key" and
    c: "wc_encrypt (lp_crypto lp) (AesGcm nonce None) key (bytesOf v) = Inr c" and
    spki: "wc_exportKey (lp_crypto lp) Spki pub = Inr spki" and
    out: "payload = encodeECCCipherPayload (lp_base64 lp)
      \<lparr> ec_curve = curve, ec_ephemeralPublicKey = toBase64 (lp_base64 lp) spki,
        ec_nonce = toBase64 (lp_base64 lp) nonce, ec_cipherText = toBase64 (lp_base64 lp) c \<rparr>"
    using run_ok [OF encoded [unfolded ecdhEncode_def]] keys(1) by (auto simp: importECDHPublicKeyAuto_def)
  have rec: "wc_importKey (lp_crypto lp) Spki recipient_der (Ecdh curve) [] = Inr recipient" "curve \<noteq> []"
    using auto_import by (auto simp: js_def split: sum.splits)
  obtain mine theirs where m: "wc_importKey (lp_crypto lp) Pkcs8 recipient_pkcs8 (Ecdh curve) [DeriveBits] = Inr mine"
    "wc_importKey (lp_crypto lp) Spki spki (Ecdh curve) [] = Inr theirs"
    "\<And>n. wc_deriveBits (lp_crypto lp) mine theirs n = wc_deriveBits (lp_crypto lp) priv recipient n" and "spki \<noteq> []"
    using agree [OF rec(1) gen spki] by blast
  have same: "deriveECCAESKey (lp_crypto lp) mine theirs curve = Inr key" using key
    by (simp add: deriveECCAESKey_def m(3) split: option.splits)
  have "decodeECCCipherPayload (lp_base64 lp) payload = Inr
      \<lparr> ec_curve = curve, ec_ephemeralPublicKey = toBase64 (lp_base64 lp) spki,
        ec_nonce = toBase64 (lp_base64 lp) nonce, ec_cipherText = toBase64 (lp_base64 lp) c \<rparr>"
    unfolding out
    by (rule payload_round_trip)
       (use base64 rec(2) \<open>spki \<noteq> []\<close> assms(8) gcm [OF c] in \<open>simp_all add: toBase64_def\<close>)
  then show ?thesis
    using gcm [OF c] m(1,2) same
    by (simp add: ecdhDecode_def importECDHPrivateKey_def keys(2) [unfolded fromBase64_def] toBase64_def fromBase64_def base64(1) v run_quiet)
qed


section \<open>A concrete runtime\<close>

text \<open>Keys are their bytes, a ciphertext is its plaintext behind one byte, and every agreement gives the same bits.\<close>

definition plain_base64 :: base64 where
  "plain_base64 = \<lparr> b64_encode = map ucast, b64_decode = (\<lambda>s. Inr (map ucast s)) \<rparr>"

definition plain_crypto :: "bytes web_crypto" where
  "plain_crypto =
     \<lparr> wc_importKey = (\<lambda>_ raw _ _. Inr raw), wc_exportKey = (\<lambda>_ k. Inr (1 # k)),
       wc_generateKey = (\<lambda>seed _ _ _. Inr ([of_nat seed], [of_nat seed])),
       wc_encrypt = (\<lambda>_ _ p. Inr (7 # p)), wc_decrypt = (\<lambda>_ _ c. Inr (tl c)),
       wc_sign = (\<lambda>_ k m. Inr (k @ m)), wc_verify = (\<lambda>_ k sg m. Inr (sg = k @ m)),
       wc_digest = (\<lambda>m. Inr m), wc_deriveBits = (\<lambda>_ _ _. Inr [42]), wc_deriveKey = (\<lambda>k _ _. Inr k) \<rparr>"

definition plain_local :: "bytes local_provider" where
  "plain_local = \<lparr> lp_crypto = plain_crypto, lp_base64 = plain_base64, lp_encodeHex = map ucast, lp_blake3 = id \<rparr>"

lemma byte_unit [simp]: "(ucast (ucast (w :: 8 word) :: 16 word) :: 8 word) = w"
  by (rule bit_word_eqI) (simp add: bit_simps)

lemma plain_base64_inverse: "b64_decode plain_base64 (b64_encode plain_base64 x) = Inr x"
  by (simp add: plain_base64_def comp_def)

definition twelve :: bytes where "twelve = [1, 2, 3, 4, 5, 6, 7, 8, 9, 10, 11, 12]"

theorem aes_round_trip_witness:
  "\<exists>c. encryptAES plain_local twelve (js ''key'') (js ''hi'') (Some (js ''ad'')) Quiet () = (Inr c, ()) \<and>
    decryptAES plain_local (js ''key'') c (Some (js ''ad'')) Quiet () = (Inr (js ''hi''), ())"
proof -
  have "\<exists>c. encryptAES plain_local twelve (js ''key'') (js ''hi'') (Some (js ''ad'')) Quiet () = (Inr c, ())"
    by (simp add: encryptAES_def aes_import_def plain_local_def plain_crypto_def plain_base64_def fromBase64_def run_quiet)
  then obtain c where c: "encryptAES plain_local twelve (js ''key'') (js ''hi'') (Some (js ''ad'')) Quiet () = (Inr c, ())"
    by blast
  have "decryptAES plain_local (js ''key'') c (Some (js ''ad'')) Quiet () = (Inr (js ''hi''), ())"
    by (rule aes_round_trip [OF _ _ c])
       (auto simp: plain_local_def plain_base64_inverse plain_crypto_def twelve_def NONCE_BYTES_def js_def
         is_surrogate_def is_high_def is_low_def)
  then show ?thesis using c by blast
qed

theorem ecdh_round_trip_witness:
  "\<exists>c. ecdhEncode plain_local 5 twelve (js ''pub'') (js ''hi'') Quiet () = (Inr c, ()) \<and>
    ecdhDecode plain_local (js ''priv'') c Quiet () = (Inr (js ''hi''), ())"
proof -
  have "map_of bit_lengths (js ''P-256'') = Some 256" by (simp add: bit_lengths_def)
  then have "\<exists>c. ecdhEncode plain_local 5 twelve (js ''pub'') (js ''hi'') Quiet () = (Inr c, ())"
    by (simp add: ecdhEncode_def importECDHPublicKeyAuto_def plain_local_def plain_crypto_def plain_base64_def
      fromBase64_def run_quiet deriveECCAESKey_def)
  then obtain c where c: "ecdhEncode plain_local 5 twelve (js ''pub'') (js ''hi'') Quiet () = (Inr c, ())" by blast
  have "ecdhDecode plain_local (js ''priv'') c Quiet () = (Inr (js ''hi''), ())"
  proof (rule ecdh_round_trip [OF _ _ _ _ _ _ c])
    show "fromBase64 (lp_base64 plain_local) (js ''pub'') = Inr (map ucast (js ''pub''))"
      "fromBase64 (lp_base64 plain_local) (js ''priv'') = Inr (map ucast (js ''priv''))"
      by (simp_all add: plain_local_def plain_base64_def fromBase64_def)
  qed (auto simp: plain_local_def plain_base64_inverse plain_crypto_def twelve_def js_def is_surrogate_def is_high_def
      is_low_def plain_base64_def comp_def)
  then show ?thesis using c by blast
qed

end
