(* ===== verification/Pkcs11_Token.thy ===== *)
theory Pkcs11_Token
  imports Pkcs11_Slot Pkcs11_Keys Encrypt_Local
begin

text \<open>
  What an operation of the PKCS#11 provider does to a token: the calls of the module interface
  (\<^verbatim>\<open>interface.ts\<close>) over an abstract token state \<open>'t\<close>, a log of the calls made, and \<^verbatim>\<open>withSession\<close> of
  \<^verbatim>\<open>session.ts\<close>.  The module itself (the vendor library behind \<^verbatim>\<open>ffi.ts\<close>) is a record of functions.
\<close>

section \<open>The module interface\<close>

datatype mechanism_params =
    Gcm bytes bytes int
  | Oaep int int int
  | Pss int int int
  | Ecdh1 int bytes bytes
  | HkdfParams bool bool int int bytes
  | Eddsa bool

text \<open>An entry of the log; a derivation also records the handle it produced, and a destruction whether it succeeded.\<close>

datatype token_call =
    SessionAcquired nat
  | SessionReleased nat "jstr option option"
  | LoginReset
  | GetAttributes nat "int list"
  | SetAttributes nat "attribute list"
  | DestroyObject nat bool
  | GenerateKey int "attribute list"
  | GenerateKeyPair int "attribute list" "attribute list"
  | DeriveObject int mechanism_params nat "attribute list" "nat option"
  | EncryptCall int "mechanism_params option" nat bytes
  | DecryptCall int "mechanism_params option" nat bytes
  | SignCall int "mechanism_params option" nat bytes

record 't pkcs11_module =
  pm_findObjects :: "nat \<Rightarrow> attribute list \<Rightarrow> 't \<Rightarrow> pkcs11_error + nat list"
  pm_getAttributes :: "nat \<Rightarrow> nat \<Rightarrow> int list \<Rightarrow> 't \<Rightarrow> (pkcs11_error + attribute list) \<times> 't"
  pm_setAttributes :: "nat \<Rightarrow> nat \<Rightarrow> attribute list \<Rightarrow> 't \<Rightarrow> (pkcs11_error + unit) \<times> 't"
  pm_destroyObject :: "nat \<Rightarrow> nat \<Rightarrow> 't \<Rightarrow> (pkcs11_error + unit) \<times> 't"
  pm_generateKey :: "nat \<Rightarrow> int \<Rightarrow> attribute list \<Rightarrow> 't \<Rightarrow> (pkcs11_error + nat) \<times> 't"
  pm_generateKeyPair :: "nat \<Rightarrow> int \<Rightarrow> attribute list \<Rightarrow> attribute list \<Rightarrow> 't \<Rightarrow> (pkcs11_error + nat \<times> nat) \<times> 't"
  pm_deriveKey :: "nat \<Rightarrow> int \<Rightarrow> mechanism_params \<Rightarrow> nat \<Rightarrow> attribute list \<Rightarrow> 't \<Rightarrow> (pkcs11_error + nat) \<times> 't"
  pm_encrypt :: "nat \<Rightarrow> int \<Rightarrow> mechanism_params option \<Rightarrow> nat \<Rightarrow> bytes \<Rightarrow> 't \<Rightarrow> (pkcs11_error + bytes) \<times> 't"
  pm_decrypt :: "nat \<Rightarrow> int \<Rightarrow> mechanism_params option \<Rightarrow> nat \<Rightarrow> bytes \<Rightarrow> 't \<Rightarrow> (pkcs11_error + bytes) \<times> 't"
  pm_sign :: "nat \<Rightarrow> int \<Rightarrow> mechanism_params option \<Rightarrow> nat \<Rightarrow> bytes \<Rightarrow> 't \<Rightarrow> (pkcs11_error + bytes) \<times> 't"

text \<open>The sessions: opening covers the module entry, the slot and the pool.\<close>

record 't session_service =
  ss_open :: "'t \<Rightarrow> (pkcs11_error + slot_state \<times> nat) \<times> 't"
  ss_login :: "nat \<Rightarrow> 't \<Rightarrow> (pkcs11_error + unit) \<times> 't"
  ss_release :: "nat \<Rightarrow> jstr option option \<Rightarrow> 't \<Rightarrow> 't"
  ss_resetLogin :: "'t \<Rightarrow> 't"

record 't world =
  w_token :: 't
  w_calls :: "token_call list"

section \<open>Calls\<close>

fun from_token :: "pkcs11_error + 'a \<Rightarrow> failure + 'a" where
  "from_token (Inl e) = Inl (TokenFailure e)"
| "from_token (Inr x) = Inr x"

definition perform ::
  "(pkcs11_error + 'a \<Rightarrow> token_call) \<Rightarrow> ('t \<Rightarrow> (pkcs11_error + 'a) \<times> 't) \<Rightarrow> ('t world, 'a) operation" where
  "perform entry f w =
     (case f (w_token w) of (r, t) \<Rightarrow> (from_token r, \<lparr> w_token = t, w_calls = w_calls w @ [entry r] \<rparr>))"

definition produced :: "pkcs11_error + nat \<Rightarrow> nat option" where
  "produced r = (case r of Inr h \<Rightarrow> Some h | Inl _ \<Rightarrow> None)"

definition succeeded :: "pkcs11_error + 'a \<Rightarrow> bool" where
  "succeeded r = (case r of Inr _ \<Rightarrow> True | Inl _ \<Rightarrow> False)"

definition getAttributes where
  "getAttributes m s obj types = perform (\<lambda>_. GetAttributes obj types) (pm_getAttributes m s obj types)"

definition setAttributes where
  "setAttributes m s obj template = perform (\<lambda>_. SetAttributes obj template) (pm_setAttributes m s obj template)"

definition destroyObject where
  "destroyObject m s obj = perform (\<lambda>r. DestroyObject obj (succeeded r)) (pm_destroyObject m s obj)"

definition generateKey where
  "generateKey m s mech template = perform (\<lambda>_. GenerateKey mech template) (pm_generateKey m s mech template)"

definition generateKeyPair where
  "generateKeyPair m s mech pub priv =
     perform (\<lambda>_. GenerateKeyPair mech pub priv) (pm_generateKeyPair m s mech pub priv)"

definition deriveKey where
  "deriveKey m s mech params base template =
     perform (\<lambda>r. DeriveObject mech params base template (produced r)) (pm_deriveKey m s mech params base template)"

definition token_encrypt where
  "token_encrypt m s mech params key bs = perform (\<lambda>_. EncryptCall mech params key bs) (pm_encrypt m s mech params key bs)"

definition token_decrypt where
  "token_decrypt m s mech params key bs = perform (\<lambda>_. DecryptCall mech params key bs) (pm_decrypt m s mech params key bs)"

definition token_sign where
  "token_sign m s mech params key bs = perform (\<lambda>_. SignCall mech params key bs) (pm_sign m s mech params key bs)"

text \<open>A search changes nothing the operations can see: it reads the token.\<close>

definition lookup :: "'t pkcs11_module \<Rightarrow> nat \<Rightarrow> (token_search \<Rightarrow> pkcs11_error + 'a) \<Rightarrow> ('t world, 'a) operation" where
  "lookup m s f w = settled (from_token (f (\<lambda>template. pm_findObjects m s template (w_token w)))) w"

section \<open>Sessions around operations\<close>

fun failure_ckr :: "failure \<Rightarrow> jstr option" where
  "failure_ckr (TokenFailure (TokenError fn code ckr)) = Some ckr"
| "failure_ckr _ = None"

fun failure_code :: "failure \<Rightarrow> int option" where
  "failure_code (TokenFailure (TokenError fn code ckr)) = Some code"
| "failure_code _ = None"

definition release_session :: "'t session_service \<Rightarrow> nat \<Rightarrow> jstr option option \<Rightarrow> 't world \<Rightarrow> 't world" where
  "release_session ss s f w =
     \<lparr> w_token = ss_release ss s f (w_token w), w_calls = w_calls w @ [SessionReleased s f] \<rparr>"

definition reset_login :: "'t session_service \<Rightarrow> 't world \<Rightarrow> 't world" where
  "reset_login ss w = \<lparr> w_token = ss_resetLogin ss (w_token w), w_calls = w_calls w @ [LoginReset] \<rparr>"

definition session_login :: "'t session_service \<Rightarrow> nat \<Rightarrow> ('t world, unit) operation" where
  "session_login ss s w =
     (case ss_login ss s (w_token w) of (r, t) \<Rightarrow> (from_token r, w\<lparr>w_token := t\<rparr>))"

definition withSession ::
  "'t session_service \<Rightarrow> (slot_state \<Rightarrow> nat \<Rightarrow> ('t world, 'a) operation) \<Rightarrow> ('t world, 'a) operation" where
  "withSession ss f w =
     (case ss_open ss (w_token w) of
        (Inl e, t) \<Rightarrow> (Inl (TokenFailure e), w\<lparr>w_token := t\<rparr>)
      | (Inr (slot, s), t) \<Rightarrow>
          (case chain (session_login ss s) (\<lambda>_. f slot s)
                  \<lparr> w_token = t, w_calls = w_calls w @ [SessionAcquired s] \<rparr> of
             (Inr x, u) \<Rightarrow> (Inr x, release_session ss s None u)
           | (Inl e, u) \<Rightarrow>
               (let v = release_session ss s (Some (failure_ckr e)) u
                in (Inl e, if sessionIsDead (failure_ckr e) then reset_login ss v else v))))"

section \<open>What an operation logs\<close>

text \<open>Every run of the operation appends to the log, and what it appends satisfies the predicate.\<close>

definition appends :: "(token_call list \<Rightarrow> bool) \<Rightarrow> ('t world, 'a) operation \<Rightarrow> bool" where
  "appends Q m \<longleftrightarrow> (\<forall>w. \<exists>cs. w_calls (snd (m w)) = w_calls w @ cs \<and> Q cs)"

abbreviation logs :: "(token_call \<Rightarrow> bool) \<Rightarrow> ('t world, 'a) operation \<Rightarrow> bool" where
  "logs P \<equiv> appends (list_all P)"

named_theorems log_rules

lemma appendsI: "(\<And>w. \<exists>cs. w_calls (snd (m w)) = w_calls w @ cs \<and> Q cs) \<Longrightarrow> appends Q m"
  by (simp add: appends_def)

lemma appendsE:
  assumes "appends Q m" "m w = (r, u)"
  obtains cs where "w_calls u = w_calls w @ cs" "Q cs"
  using assms by (metis appends_def snd_conv)

lemma appends_if [log_rules]: "(b \<Longrightarrow> appends Q m) \<Longrightarrow> (\<not> b \<Longrightarrow> appends Q n) \<Longrightarrow> appends Q (if b then m else n)"
  by simp

lemma appends_Let [log_rules]: "(\<And>x. appends Q (f x)) \<Longrightarrow> appends Q (Let v f)"
  by simp

lemma appends_option [log_rules]:
  "appends Q m \<Longrightarrow> (\<And>x. appends Q (f x)) \<Longrightarrow> appends Q (case r of None \<Rightarrow> m | Some x \<Rightarrow> f x)"
  by (simp split: option.split)

lemma appends_pair [log_rules]: "(\<And>x y. appends Q (f x y)) \<Longrightarrow> appends Q (case p of (x, y) \<Rightarrow> f x y)"
  by (simp split: prod.split)

lemma appends_perform: "(\<And>r. Q [entry r]) \<Longrightarrow> appends Q (perform entry f)"
  by (auto simp: appends_def perform_def split: prod.split)

lemmas call_defs = getAttributes_def setAttributes_def destroyObject_def generateKey_def generateKeyPair_def
  deriveKey_def token_encrypt_def token_decrypt_def token_sign_def

lemma appends_calls [log_rules]:
  "Q [GetAttributes obj types] \<Longrightarrow> appends Q (getAttributes m s obj types)"
  "Q [SetAttributes obj t] \<Longrightarrow> appends Q (setAttributes m s obj t)"
  "(\<And>ok. Q [DestroyObject obj ok]) \<Longrightarrow> appends Q (destroyObject m s obj)"
  "Q [GenerateKey mech t] \<Longrightarrow> appends Q (generateKey m s mech t)"
  "Q [GenerateKeyPair mech pub t] \<Longrightarrow> appends Q (generateKeyPair m s mech pub t)"
  "Q [EncryptCall mech ps' obj bs] \<Longrightarrow> appends Q (token_encrypt m s mech ps' obj bs)"
  "Q [DecryptCall mech ps' obj bs] \<Longrightarrow> appends Q (token_decrypt m s mech ps' obj bs)"
  "Q [SignCall mech ps' obj bs] \<Longrightarrow> appends Q (token_sign m s mech ps' obj bs)"
  by (simp_all add: call_defs appends_perform)

lemma appends_derive: "(\<And>r. Q [DeriveObject mech ps obj t r]) \<Longrightarrow> appends Q (deriveKey m s mech ps obj t)"
  by (simp add: call_defs appends_perform)

text \<open>A property of logs that the empty log has and concatenation keeps is kept by every way to compose operations.\<close>

locale closed_log =
  fixes Q :: "token_call list \<Rightarrow> bool"
  assumes closed_Nil: "Q []"
    and closed_append: "Q cs \<Longrightarrow> Q ds \<Longrightarrow> Q (cs @ ds)"
begin

lemma appends_settled: "appends Q (settled r)"
  using closed_Nil by (auto simp: appends_def settled_def)

lemma appends_lookup: "appends Q (lookup m s f)"
  using closed_Nil by (auto simp: appends_def lookup_def settled_def)

lemma appends_login: "appends Q (session_login ss s)"
  using closed_Nil by (auto simp: appends_def session_login_def split: prod.split)

lemma appends_chain: "appends Q m \<Longrightarrow> (\<And>x. appends Q (f x)) \<Longrightarrow> appends Q (chain m f)"
proof (rule appendsI)
  fix w
  assume m: "appends Q m" and f: "\<And>x. appends Q (f x)"
  obtain r u where r: "m w = (r, u)" by fastforce
  obtain cs where cs: "w_calls u = w_calls w @ cs" "Q cs" using m r by (rule appendsE)
  show "\<exists>cs. w_calls (snd (chain m f w)) = w_calls w @ cs \<and> Q cs"
  proof (cases r)
    case (Inl e)
    then show ?thesis using cs r by (simp add: chain_def on_success_def settled_def)
  next
    case (Inr x)
    obtain y v where v: "f x u = (y, v)" by fastforce
    obtain ds where "w_calls v = w_calls u @ ds" "Q ds" using f v by (rule appendsE)
    then show ?thesis using cs r Inr v closed_append by (simp add: chain_def on_success_def)
  qed
qed

lemma appends_handle: "appends Q m \<Longrightarrow> (\<And>e. appends Q (h e)) \<Longrightarrow> appends Q (handle m h)"
proof (rule appendsI)
  fix w
  assume m: "appends Q m" and h: "\<And>e. appends Q (h e)"
  obtain r u where r: "m w = (r, u)" by fastforce
  obtain cs where cs: "w_calls u = w_calls w @ cs" "Q cs" using m r by (rule appendsE)
  show "\<exists>cs. w_calls (snd (handle m h w)) = w_calls w @ cs \<and> Q cs"
  proof (cases r)
    case (Inr x)
    then show ?thesis using cs r by (simp add: handle_def)
  next
    case (Inl e)
    obtain y v where v: "h e u = (y, v)" by fastforce
    obtain ds where "w_calls v = w_calls u @ ds" "Q ds" using h v by (rule appendsE)
    then show ?thesis using cs r Inl v closed_append by (simp add: handle_def)
  qed
qed

lemma appends_finally: "appends Q m \<Longrightarrow> appends Q c \<Longrightarrow> appends Q (finally_quiet m c)"
proof (rule appendsI)
  fix w
  assume m: "appends Q m" and c: "appends Q c"
  obtain r u where r: "m w = (r, u)" by fastforce
  obtain y v where v: "c u = (y, v)" by fastforce
  obtain cs where cs: "w_calls u = w_calls w @ cs" "Q cs" using m r by (rule appendsE)
  obtain ds where "w_calls v = w_calls u @ ds" "Q ds" using c v by (rule appendsE)
  then show "\<exists>cs. w_calls (snd (finally_quiet m c w)) = w_calls w @ cs \<and> Q cs"
    using cs r v closed_append by (simp add: finally_quiet_def)
qed

lemma appends_signal: "appends Q m \<Longrightarrow> appends Q (runWithSignal sig m)"
proof -
  assume "appends Q m"
  then have "appends Q (runEncryptOperation m)"
    unfolding runEncryptOperation_def by (intro appends_handle appends_settled)
  then show ?thesis using closed_Nil by (cases sig) (auto simp: appends_def runWithSignal_def)
qed

lemma appends_withSession:
  assumes "\<And>slot s. appends Q (f slot s)" "\<And>s. Q [SessionAcquired s]" "\<And>s x. Q [SessionReleased s x]" "Q [LoginReset]"
  shows "appends Q (withSession ss f)"
proof (rule appendsI)
  fix w
  show "\<exists>cs. w_calls (snd (withSession ss f w)) = w_calls w @ cs \<and> Q cs"
  proof (cases "ss_open ss (w_token w)")
    case (Pair r t)
    show ?thesis
    proof (cases r)
      case (Inl e)
      then show ?thesis using Pair closed_Nil by (simp add: withSession_def)
    next
      case (Inr p)
      obtain slot s where p: "p = (slot, s)" by fastforce
      let ?w = "\<lparr> w_token = t, w_calls = w_calls w @ [SessionAcquired s] \<rparr>"
      let ?m = "chain (session_login ss s) (\<lambda>_. f slot s)"
      have m: "appends Q ?m" by (intro appends_chain appends_login assms)
      obtain x u where x: "?m ?w = (x, u)" by fastforce
      obtain cs where cs: "w_calls u = w_calls ?w @ cs" "Q cs" using m x by (rule appendsE)
      then have q: "Q ([SessionAcquired s] @ cs @ [SessionReleased s y])" "Q ([SessionAcquired s] @ cs @ [SessionReleased s y] @ [LoginReset])" for y
        using assms(2-4) by (blast intro: closed_append)+
      show ?thesis using x Pair Inr p cs q
        by (cases x) (simp_all add: withSession_def release_session_def reset_login_def Let_def)
    qed
  qed
qed

lemmas closed_rules = appends_settled appends_lookup appends_login appends_chain appends_handle appends_finally
  appends_signal appends_withSession

end

interpretation all_calls: closed_log "list_all P" for P
  by unfold_locales simp_all

lemmas logs_rules = log_rules all_calls.closed_rules

fun session_entry :: "token_call \<Rightarrow> bool" where
  "session_entry (SessionAcquired s) = True"
| "session_entry (SessionReleased s f) = True"
| "session_entry LoginReset = True"
| "session_entry _ = False"

text \<open>
  Every session comes back exactly once.  When no session can be opened, nothing is logged; otherwise the
  log is the acquisition, the calls of the operation, and one release of the same session, which carries the
  failure when there was one, followed by a reset of the login exactly when the failure says the session is dead.
\<close>

theorem session_discipline:
  assumes "\<And>slot s. logs (\<lambda>c. \<not> session_entry c) (f slot s)"
  shows "case ss_open ss (w_token w) of
      (Inl e, t) \<Rightarrow> withSession ss f w = (Inl (TokenFailure e), w\<lparr>w_token := t\<rparr>)
    | (Inr (slot, s), t) \<Rightarrow>
        (\<exists>cs. list_all (\<lambda>c. \<not> session_entry c) cs \<and>
          w_calls (snd (withSession ss f w)) = w_calls w @ [SessionAcquired s] @ cs @
            (case fst (withSession ss f w) of
               Inr x \<Rightarrow> [SessionReleased s None]
             | Inl e \<Rightarrow> [SessionReleased s (Some (failure_ckr e))] @
                 (if sessionIsDead (failure_ckr e) then [LoginReset] else [])))"
proof (cases "ss_open ss (w_token w)")
  case (Pair r t)
  show ?thesis
  proof (cases r)
    case (Inl e)
    then show ?thesis using Pair by (simp add: withSession_def)
  next
    case (Inr p)
    obtain slot s where p: "p = (slot, s)" by fastforce
    let ?w = "\<lparr> w_token = t, w_calls = w_calls w @ [SessionAcquired s] \<rparr>"
    let ?m = "chain (session_login ss s) (\<lambda>_. f slot s)"
    have m: "logs (\<lambda>c. \<not> session_entry c) ?m" by (intro all_calls.closed_rules assms)
    obtain x u where x: "?m ?w = (x, u)" by fastforce
    obtain cs where cs: "w_calls u = w_calls ?w @ cs" "list_all (\<lambda>c. \<not> session_entry c) cs"
      using m x by (rule appendsE)
    then show ?thesis using x Pair Inr p
      by (cases x) (auto simp: withSession_def release_session_def reset_login_def Let_def)
  qed
qed

end
