(* ===== verification/Pkcs11_Repository.thy ===== *)
theory Pkcs11_Repository
  imports Pkcs11_Token
begin

text \<open>
  The PKCS#11 provider (\<^verbatim>\<open>src/encrypt/pkcs11/repository.ts\<close>): every operation of \<^verbatim>\<open>Pkcs11Provider\<close>, the
  signature plans, the key templates, the two ECDH paths, rotation and deactivation.  Identifiers, nonces and
  the clock are arguments of the operations that draw them.
\<close>

section \<open>Provider state and constants\<close>

record ('t, 'k) provider =
  pr_options :: resolved_options
  pr_module :: "'t pkcs11_module"
  pr_sessions :: "'t session_service"
  pr_local :: "'k local_provider"

definition b64 :: "('t, 'k) provider \<Rightarrow> bytes \<Rightarrow> jstr" where
  "b64 pr = toBase64 (lp_base64 (pr_local pr))"

definition RSA_PUBLIC_EXPONENT :: bytes where "RSA_PUBLIC_EXPONENT = [1, 0, 1]"

definition SHA256_BYTES :: int where "SHA256_BYTES = 32"

definition PKCS11_PROVIDER :: jstr where "PKCS11_PROVIDER = js ''pkcs11''"

definition SymmetricPrefix :: jstr where "SymmetricPrefix = js ''GoForge-symmetric''"
definition RsaPrefix :: jstr where "RsaPrefix = js ''GoForge-rsa''"
definition EcdhPrefix :: jstr where "EcdhPrefix = js ''GoForge-ecdh''"
definition Ed25519Prefix :: jstr where "Ed25519Prefix = js ''GoForge-ed25519''"
definition HmacPrefix :: jstr where "HmacPrefix = js ''GoForge-hmac''"

definition KeyLabelPrefixes :: "jstr list" where
  "KeyLabelPrefixes = [SymmetricPrefix, RsaPrefix, EcdhPrefix, Ed25519Prefix, HmacPrefix]"

definition ECDH_HKDF_INFO_PREFIX :: jstr where "ECDH_HKDF_INFO_PREFIX = js ''denoforge/ecdh/''"

abbreviation cka :: "attribute_type \<Rightarrow> int" where "cka \<equiv> attribute_type_code"
abbreviation ckm :: "mechanism \<Rightarrow> int" where "ckm \<equiv> mechanism_code"

definition DEACTIVATABLE_ATTRIBUTES :: "int list" where
  "DEACTIVATABLE_ATTRIBUTES =
     map cka [CkaEncrypt, CkaDecrypt, CkaSign, CkaVerify, CkaWrap, CkaUnwrap, CkaDerive]"

section \<open>Signature plans\<close>

text \<open>What a plan feeds the mechanism: the message, its digest, or the digest behind the \<^verbatim>\<open>DigestInfo\<close> header.\<close>

datatype preparation = IdentityMessage | Sha256Digest | Sha256DigestInfo

record sign_plan =
  sp_mechanism :: int
  sp_params :: "mechanism_params option"
  sp_retryParams :: "mechanism_params option"
  sp_prepare :: preparation

definition prepare :: "('t, 'k) provider \<Rightarrow> preparation \<Rightarrow> jstr \<Rightarrow> failure + bytes" where
  "prepare pr p message =
     (case p of
        IdentityMessage \<Rightarrow> Inr (bytesOf message)
      | Sha256Digest \<Rightarrow> thrown (wc_digest (lp_crypto (pr_local pr)) (bytesOf message))
      | Sha256DigestInfo \<Rightarrow>
          and_then (thrown (wc_digest (lp_crypto (pr_local pr)) (bytesOf message))) (\<lambda>d.
            Inr (SHA256_DIGEST_INFO_PREFIX @ d)))"

definition plain_plan :: "mechanism \<Rightarrow> mechanism_params option \<Rightarrow> preparation \<Rightarrow> sign_plan" where
  "plain_plan m ps p = \<lparr> sp_mechanism = ckm m, sp_params = ps, sp_retryParams = None, sp_prepare = p \<rparr>"

definition planRsaPkcs1v15 :: "slot_state \<Rightarrow> pkcs11_error + sign_plan" where
  "planRsaPkcs1v15 slot =
     (if supports slot (ckm CkmSha256RsaPkcs) then Inr (plain_plan CkmSha256RsaPkcs None IdentityMessage)
      else if supports slot (ckm CkmRsaPkcs) then Inr (plain_plan CkmRsaPkcs None Sha256DigestInfo)
      else Inl (UnsupportedMechanism (mechanismName (ckm CkmSha256RsaPkcs))))"

definition pss_params :: mechanism_params where
  "pss_params = Pss (ckm CkmSha256) CKG_MGF1_SHA256 SHA256_BYTES"

definition planRsaPss :: "slot_state \<Rightarrow> pkcs11_error + sign_plan" where
  "planRsaPss slot =
     (if supports slot (ckm CkmSha256RsaPkcsPss) then Inr (plain_plan CkmSha256RsaPkcsPss (Some pss_params) IdentityMessage)
      else if supports slot (ckm CkmRsaPkcsPss) then Inr (plain_plan CkmRsaPkcsPss (Some pss_params) Sha256Digest)
      else Inl (UnsupportedMechanism (mechanismName (ckm CkmSha256RsaPkcsPss))))"

definition planEd25519 :: "slot_state \<Rightarrow> pkcs11_error + sign_plan" where
  "planEd25519 slot =
     and_then (requireMechanism slot (ckm CkmEdDsa)) (\<lambda>_.
       Inr \<lparr> sp_mechanism = ckm CkmEdDsa, sp_params = None, sp_retryParams = Some (Eddsa False),
             sp_prepare = IdentityMessage \<rparr>)"

definition supportsInHardwareEcdh :: "slot_state \<Rightarrow> bool" where
  "supportsInHardwareEcdh slot \<longleftrightarrow>
     supports slot (ckm CkmEcdh1Derive) \<and> supports slot (ckm CkmHkdfDerive) \<and> supports slot (ckm CkmAesGcm)"

definition isMechanismParamError :: "failure \<Rightarrow> bool" where
  "isMechanismParamError e \<longleftrightarrow>
     failure_code e = Some (return_value_code CkrMechanismParamInvalid) \<or>
     failure_code e = Some (return_value_code CkrArgumentsBad)"

section \<open>Templates and descriptors\<close>

definition newObjectLabel :: "jstr \<Rightarrow> jstr option \<Rightarrow> jstr \<Rightarrow> jstr" where
  "newObjectLabel pre uid now =
     pre @ js ''-'' @ (case uid of Some u \<Rightarrow> if u \<noteq> [] then u else now | None \<Rightarrow> now)"

definition tokenKeyTemplate :: "jstr \<Rightarrow> bytes \<Rightarrow> attribute list" where
  "tokenKeyTemplate label i =
     [boolAttribute (cka CkaToken) True, boolAttribute (cka CkaPrivate) True, boolAttribute (cka CkaSensitive) True,
      boolAttribute (cka CkaExtractable) False, textAttribute (cka CkaLabel) label, bytesAttribute (cka CkaId) i]"

definition publicKeyTemplate :: "jstr \<Rightarrow> bytes \<Rightarrow> attribute list" where
  "publicKeyTemplate label i =
     [boolAttribute (cka CkaToken) True, boolAttribute (cka CkaPrivate) False,
      textAttribute (cka CkaLabel) label, bytesAttribute (cka CkaId) i]"

definition aesValueLen :: "int \<Rightarrow> pkcs11_error + int" where
  "aesValueLen n =
     (if n = Key128Bits \<or> n = Key256Bits then Inr n
      else Inl (Pkcs11Error (js ''pkcs11: unsupported symmetric key size: '' @ decimal_text n)))"

definition rsaModulusBits :: "int \<Rightarrow> pkcs11_error + int" where
  "rsaModulusBits n =
     (if n = Key2048Bits \<or> n = Key3072Bits \<or> n = Key4096Bits then Inr n
      else Inl (Pkcs11Error (js ''pkcs11: unsupported rsa key size: '' @ decimal_text n)))"

definition ecParamsForCurve :: "int \<Rightarrow> pkcs11_error + bytes" where
  "ecParamsForCurve curve =
     (case map_of EC_PARAMS (curveName curve) of
        Some ps \<Rightarrow> Inr ps
      | None \<Rightarrow> Inl (Pkcs11Error (js ''pkcs11: unsupported ecc curve: '' @ decimal_text curve)))"

definition keyDataFor :: "key_uri \<Rightarrow> jstr \<Rightarrow> pkcs11_error + key_data" where
  "keyDataFor u pub =
     and_then (formatKeyUri u) (\<lambda>ref.
       Inr \<lparr> kd_publicKey = pub, kd_keyId = keyUriHexId u, kd_keyRef = ref, kd_provider = PKCS11_PROVIDER \<rparr>)"

definition new_uri :: "jstr \<Rightarrow> bytes \<Rightarrow> object_class \<Rightarrow> key_uri" where
  "new_uri label i c = \<lparr> ku_token = None, ku_object = Some label, ku_id = Some i, ku_class = Some c \<rparr>"

definition publicKeyFromAttributes :: "('t, 'k) provider \<Rightarrow> attribute list \<Rightarrow> pkcs11_error + jstr" where
  "publicKeyFromAttributes pr as =
     (case findAttribute as (cka CkaKeyType) of
        None \<Rightarrow> Inl (Pkcs11Error (js ''pkcs11: object has no CKA_KEY_TYPE''))
      | Some raw \<Rightarrow>
          (case ulongValue raw of
             None \<Rightarrow> Inl (Pkcs11Error (js ''pkcs11: CKA_KEY_TYPE is not a CK_ULONG''))
           | Some n \<Rightarrow>
               if n = key_type_code CkkRsa then rsaPublicKeyFrom (b64 pr) as
               else if n = key_type_code CkkEc then ecdhPublicKeyFrom (b64 pr) as
               else if n = key_type_code CkkEcEdwards then ed25519PublicKeyFrom (b64 pr) as
               else Inl (Pkcs11Error (js ''pkcs11: unsupported key type '' @ decimal_text n))))"

definition rotationLabelBase :: "attribute list \<Rightarrow> key_uri \<Rightarrow> jstr" where
  "rotationLabelBase as u =
     (let label = (case findAttribute as (cka CkaLabel) of
                     Some raw \<Rightarrow> if raw \<noteq> [] then textOf raw else or_default (ku_object u) []
                   | None \<Rightarrow> or_default (ku_object u) [])
      in case find (\<lambda>p. starts_with p label) KeyLabelPrefixes of Some p \<Rightarrow> p | None \<Rightarrow> label)"

definition gcm :: "bytes \<Rightarrow> jstr option \<Rightarrow> mechanism_params" where
  "gcm iv additional =
     Gcm iv (case additional of Some a \<Rightarrow> if a \<noteq> [] then bytesOf a else [] | None \<Rightarrow> []) GCM_TAG_BITS"

section \<open>Running on the token\<close>

definition onToken ::
  "('t, 'k) provider \<Rightarrow> signal \<Rightarrow> (slot_state \<Rightarrow> nat \<Rightarrow> ('t world, 'a) operation) \<Rightarrow> ('t world, 'a) operation" where
  "onToken pr sig f =
     runWithSignal sig (chain (settled (from_token (validateOptions (pr_options pr)))) (\<lambda>_.
       withSession (pr_sessions pr) f))"

definition routesToToken :: "('t, 'k) provider \<Rightarrow> jstr \<Rightarrow> bool" where
  "routesToToken pr reference \<longleftrightarrow>
     isKeyUri reference \<or> (trim reference = [] \<and> ro_keyUri (pr_options pr) \<noteq> [])"

definition the_uri :: "('t, 'k) provider \<Rightarrow> jstr \<Rightarrow> ('t world, key_uri) operation" where
  "the_uri pr reference = settled (from_token (resolveKeyUri (pr_options pr) reference))"

definition needs :: "slot_state \<Rightarrow> mechanism \<Rightarrow> ('t world, unit) operation" where
  "needs slot m = settled (from_token (requireMechanism slot (ckm m)))"

definition object_for :: "('t, 'k) provider \<Rightarrow> nat \<Rightarrow> key_uri \<Rightarrow> object_class \<Rightarrow> ('t world, nat) operation" where
  "object_for pr s u fallback = lookup (pr_module pr) s (\<lambda>search. resolveObject search u fallback)"

definition described :: "key_uri \<Rightarrow> jstr \<Rightarrow> ('t world, key_data) operation" where
  "described u pub = settled (from_token (keyDataFor u pub))"

definition fetchPublicKey :: "('t, 'k) provider \<Rightarrow> key_uri \<Rightarrow> signal \<Rightarrow> ('t world, jstr) operation" where
  "fetchPublicKey pr u sig =
     onToken pr sig (\<lambda>slot s.
       chain (lookup (pr_module pr) s (\<lambda>search. publicObjectFor search u)) (\<lambda>(obj, cls).
         if cls = Certificate then
           chain (getAttributes (pr_module pr) s obj [cka CkaValue]) (\<lambda>as.
             settled (from_token (certificatePublicKey (b64 pr) as)))
         else
           chain (getAttributes (pr_module pr) s obj
               (map cka [CkaKeyType, CkaModulus, CkaPublicExponent, CkaEcPoint, CkaEcParams])) (\<lambda>as.
             settled (from_token (publicKeyFromAttributes pr as)))))"

text \<open>The reference is resolved before the promise chain, in an \<^verbatim>\<open>async\<close> caller: a failure is not normalized.\<close>

definition fetchVerificationKey :: "('t, 'k) provider \<Rightarrow> jstr \<Rightarrow> signal \<Rightarrow> ('t world, jstr) operation" where
  "fetchVerificationKey pr reference sig = chain (the_uri pr reference) (\<lambda>u. fetchPublicKey pr u sig)"


section \<open>Symmetric keys\<close>

definition aes_template :: "jstr \<Rightarrow> bytes \<Rightarrow> int \<Rightarrow> attribute list" where
  "aes_template label i n =
     tokenKeyTemplate label i @
     [ulongAttribute (cka CkaKeyType) (key_type_code CkkAes), ulongAttribute (cka CkaClass) (class_code SecretKey),
      ulongAttribute (cka CkaValueLen) n, boolAttribute (cka CkaEncrypt) True, boolAttribute (cka CkaDecrypt) True]"

definition generateSymmetricKeys ::
  "('t, 'k) provider \<Rightarrow> bytes \<Rightarrow> jstr \<Rightarrow> int \<Rightarrow> jstr option \<Rightarrow> signal \<Rightarrow> ('t world, key_data) operation" where
  "generateSymmetricKeys pr i now n uid sig =
     (let label = newObjectLabel SymmetricPrefix uid now
      in onToken pr sig (\<lambda>slot s.
           chain (settled (from_token (aesValueLen n))) (\<lambda>len.
           chain (needs slot CkmAesKeyGen) (\<lambda>_.
           chain (generateKey (pr_module pr) s (ckm CkmAesKeyGen) (aes_template label i len)) (\<lambda>_.
             described (new_uri label i SecretKey) [])))))"

definition encryptAES ::
  "('t, 'k) provider \<Rightarrow> bytes \<Rightarrow> jstr \<Rightarrow> jstr \<Rightarrow> jstr option \<Rightarrow> signal \<Rightarrow> ('t world, jstr) operation" where
  "encryptAES pr nonce secretKey v additional sig =
     (if \<not> routesToToken pr secretKey then Encrypt_Local.encryptAES (pr_local pr) nonce secretKey v additional sig
      else onToken pr sig (\<lambda>slot s.
        chain (the_uri pr secretKey) (\<lambda>u.
        chain (needs slot CkmAesGcm) (\<lambda>_.
        chain (object_for pr s u SecretKey) (\<lambda>obj.
        chain (token_encrypt (pr_module pr) s (ckm CkmAesGcm) (Some (gcm nonce additional)) obj (bytesOf v)) (\<lambda>c.
          settled (Inr (b64 pr (nonce @ c)))))))))"

definition decryptAES ::
  "('t, 'k) provider \<Rightarrow> jstr \<Rightarrow> jstr \<Rightarrow> jstr option \<Rightarrow> signal \<Rightarrow> ('t world, jstr) operation" where
  "decryptAES pr secretKey cipherValue additional sig =
     (if \<not> routesToToken pr secretKey then Encrypt_Local.decryptAES (pr_local pr) secretKey cipherValue additional sig
      else onToken pr sig (\<lambda>slot s.
        chain (the_uri pr secretKey) (\<lambda>u.
        chain (needs slot CkmAesGcm) (\<lambda>_.
        chain (settled (fromBase64 (lp_base64 (pr_local pr)) cipherValue)) (\<lambda>raw.
        if int (length raw) \<le> GCM_NONCE_BYTES
        then settled (Inl (TokenFailure (Pkcs11Error (js ''pkcs11: ciphertext is shorter than the nonce''))))
        else
        chain (object_for pr s u SecretKey) (\<lambda>obj.
        chain (token_decrypt (pr_module pr) s (ckm CkmAesGcm) (Some (gcm (take (nat GCM_NONCE_BYTES) raw) additional)) obj
            (drop (nat GCM_NONCE_BYTES) raw)) (\<lambda>plain.
          settled (Inr (textOf plain)))))))))"

section \<open>Asymmetric keys\<close>

definition generateRSAKeys ::
  "('t, 'k) provider \<Rightarrow> bytes \<Rightarrow> jstr \<Rightarrow> int \<Rightarrow> jstr option \<Rightarrow> signal \<Rightarrow> ('t world, key_data) operation" where
  "generateRSAKeys pr i now n uid sig =
     (let label = newObjectLabel RsaPrefix uid now
      in onToken pr sig (\<lambda>slot s.
           chain (settled (from_token (rsaModulusBits n))) (\<lambda>bits.
           chain (needs slot CkmRsaPkcsKeyPairGen) (\<lambda>_.
           chain (generateKeyPair (pr_module pr) s (ckm CkmRsaPkcsKeyPairGen)
               (publicKeyTemplate label i @
                [ulongAttribute (cka CkaModulusBits) bits, bytesAttribute (cka CkaPublicExponent) RSA_PUBLIC_EXPONENT,
                 boolAttribute (cka CkaEncrypt) True, boolAttribute (cka CkaVerify) True, boolAttribute (cka CkaWrap) True])
               (tokenKeyTemplate label i @
                [boolAttribute (cka CkaDecrypt) True, boolAttribute (cka CkaSign) True,
                 boolAttribute (cka CkaUnwrap) True])) (\<lambda>(pub, _).
           chain (getAttributes (pr_module pr) s pub (map cka [CkaModulus, CkaPublicExponent])) (\<lambda>as.
           chain (settled (from_token (rsaPublicKeyFrom (b64 pr) as))) (\<lambda>key.
             described (new_uri label i PrivateKey) key)))))))"

definition generateECDHCurveKeys ::
  "('t, 'k) provider \<Rightarrow> bytes \<Rightarrow> jstr \<Rightarrow> int \<Rightarrow> jstr option \<Rightarrow> signal \<Rightarrow> ('t world, key_data) operation" where
  "generateECDHCurveKeys pr i now curve uid sig =
     (let label = newObjectLabel EcdhPrefix uid now
      in onToken pr sig (\<lambda>slot s.
           chain (settled (from_token (ecParamsForCurve curve))) (\<lambda>ps.
           chain (needs slot CkmEcKeyPairGen) (\<lambda>_.
           chain (generateKeyPair (pr_module pr) s (ckm CkmEcKeyPairGen)
               (publicKeyTemplate label i @ [bytesAttribute (cka CkaEcParams) ps])
               (tokenKeyTemplate label i @ [boolAttribute (cka CkaDerive) True])) (\<lambda>(pub, _).
           chain (getAttributes (pr_module pr) s pub (map cka [CkaEcPoint, CkaEcParams])) (\<lambda>as.
           chain (settled (from_token (ecdhPublicKeyFrom (b64 pr) as))) (\<lambda>key.
             described (new_uri label i PrivateKey) key)))))))"

definition rsaOaepEncode :: "('t, 'k) provider \<Rightarrow> jstr \<Rightarrow> jstr \<Rightarrow> signal \<Rightarrow> ('t world, jstr) operation" where
  "rsaOaepEncode pr publicKey txt sig =
     (if \<not> routesToToken pr publicKey then Encrypt_Local.rsaOaepEncode (pr_local pr) publicKey txt sig
      else chain (fetchVerificationKey pr publicKey sig) (\<lambda>key. Encrypt_Local.rsaOaepEncode (pr_local pr) key txt sig))"

definition oaep_params :: mechanism_params where
  "oaep_params = Oaep (ckm CkmSha256) CKG_MGF1_SHA256 CKZ_DATA_SPECIFIED"

definition rsaOaepDecode :: "('t, 'k) provider \<Rightarrow> jstr \<Rightarrow> jstr \<Rightarrow> signal \<Rightarrow> ('t world, jstr) operation" where
  "rsaOaepDecode pr privateKey cipherText sig =
     (if \<not> routesToToken pr privateKey then Encrypt_Local.rsaOaepDecode (pr_local pr) privateKey cipherText sig
      else onToken pr sig (\<lambda>slot s.
        chain (the_uri pr privateKey) (\<lambda>u.
        chain (needs slot CkmRsaPkcsOaep) (\<lambda>_.
        chain (object_for pr s u PrivateKey) (\<lambda>obj.
        handle
          (chain (settled (fromBase64 (lp_base64 (pr_local pr)) cipherText)) (\<lambda>raw.
           chain (token_decrypt (pr_module pr) s (ckm CkmRsaPkcsOaep) (Some oaep_params) obj raw) (\<lambda>plain.
             settled (Inr (textOf plain)))))
          (\<lambda>e. settled (Inl (if isMechanismParamError e then TokenFailure OaepHashUnsupported else e))))))))"

definition ecdhEncode :: "('t, 'k) provider \<Rightarrow> nat \<Rightarrow> bytes \<Rightarrow> jstr \<Rightarrow> jstr \<Rightarrow> signal \<Rightarrow> ('t world, jstr) operation" where
  "ecdhEncode pr seed nonce publicKey txt sig =
     (if \<not> routesToToken pr publicKey then Encrypt_Local.ecdhEncode (pr_local pr) seed nonce publicKey txt sig
      else chain (fetchVerificationKey pr publicKey sig) (\<lambda>key.
        Encrypt_Local.ecdhEncode (pr_local pr) seed nonce key txt sig))"

section \<open>ECDH decryption\<close>

definition ecdhPeerPoint :: "('t, 'k) provider \<Rightarrow> jstr \<Rightarrow> jstr \<Rightarrow> failure + bytes" where
  "ecdhPeerPoint pr encoded curve =
     and_then (fromBase64 (lp_base64 (pr_local pr)) encoded) (\<lambda>der.
     and_then (thrown (wc_importKey (lp_crypto (pr_local pr)) Spki der (Ecdh curve) [])) (\<lambda>key.
       thrown (wc_exportKey (lp_crypto (pr_local pr)) Raw key)))"

definition ecdh1_params :: "bytes \<Rightarrow> mechanism_params" where
  "ecdh1_params point = Ecdh1 CKD_NULL [] point"

definition secret_template :: "bool \<Rightarrow> attribute list" where
  "secret_template extractable =
     [ulongAttribute (cka CkaClass) (class_code SecretKey), ulongAttribute (cka CkaKeyType) (key_type_code CkkGenericSecret),
      boolAttribute (cka CkaToken) False, boolAttribute (cka CkaSensitive) (\<not> extractable),
      boolAttribute (cka CkaExtractable) extractable] @
     (if extractable then [] else [boolAttribute (cka CkaDerive) True])"

definition aes_session_template :: "attribute list" where
  "aes_session_template =
     [ulongAttribute (cka CkaClass) (class_code SecretKey), ulongAttribute (cka CkaKeyType) (key_type_code CkkAes),
      ulongAttribute (cka CkaValueLen) Key256Bits, boolAttribute (cka CkaToken) False,
      boolAttribute (cka CkaSensitive) True, boolAttribute (cka CkaExtractable) False, boolAttribute (cka CkaDecrypt) True]"

definition decryptEcdhInHardware ::
  "'t pkcs11_module \<Rightarrow> nat \<Rightarrow> nat \<Rightarrow> bytes \<Rightarrow> bytes \<Rightarrow> bytes \<Rightarrow> bytes \<Rightarrow> ('t world, bytes) operation" where
  "decryptEcdhInHardware m s privateKey point info nonce c =
     chain (deriveKey m s (ckm CkmEcdh1Derive) (ecdh1_params point) privateKey (secret_template False)) (\<lambda>secret.
       finally_quiet
         (chain (deriveKey m s (ckm CkmHkdfDerive)
             (HkdfParams True True (ckm CkmSha256) CKF_HKDF_SALT_NULL info) secret aes_session_template) (\<lambda>aes.
           finally_quiet
             (token_decrypt m s (ckm CkmAesGcm) (Some (gcm nonce None)) aes c)
             (destroyObject m s aes)))
         (destroyObject m s secret))"

definition deriveExtractableSecret ::
  "'t pkcs11_module \<Rightarrow> nat \<Rightarrow> nat \<Rightarrow> bytes \<Rightarrow> ('t world, bytes) operation" where
  "deriveExtractableSecret m s privateKey point =
     chain (deriveKey m s (ckm CkmEcdh1Derive) (ecdh1_params point) privateKey (secret_template True)) (\<lambda>obj.
       finally_quiet
         (chain (getAttributes m s obj [cka CkaValue]) (\<lambda>as.
           settled (case findAttribute as (cka CkaValue) of
               Some secret \<Rightarrow> if secret = [] then Inl (TokenFailure SecretNotExtractable) else Inr secret
             | None \<Rightarrow> Inl (TokenFailure SecretNotExtractable))))
         (destroyObject m s obj))"

definition decryptWithSharedSecret ::
  "('t, 'k) provider \<Rightarrow> bytes \<Rightarrow> jstr \<Rightarrow> bytes \<Rightarrow> bytes \<Rightarrow> bytes \<Rightarrow> failure + bytes" where
  "decryptWithSharedSecret pr shared curve info nonce c =
     (if map_of EC_PARAMS curve = None
      then Inl (TokenFailure (Pkcs11Error (js ''pkcs11: unsupported ECDH curve: '' @ curve)))
      else
        and_then (thrown (wc_importKey (lp_crypto (pr_local pr)) Raw shared Hkdf [DeriveKey])) (\<lambda>hkdf.
        and_then (thrown (wc_deriveKey (lp_crypto (pr_local pr)) hkdf info [Decrypt])) (\<lambda>key.
          thrown (wc_decrypt (lp_crypto (pr_local pr)) (AesGcm nonce None) key c))))"

text \<open>What the session leaves behind: the plaintext, or a secret to finish with.\<close>

datatype ecdh_outcome = Plaintext bytes | Shared bytes

definition ecdh_on_token ::
  "('t, 'k) provider \<Rightarrow> key_uri \<Rightarrow> bytes \<Rightarrow> bytes \<Rightarrow> bytes \<Rightarrow> bytes \<Rightarrow> slot_state \<Rightarrow> nat \<Rightarrow>
   ('t world, ecdh_outcome) operation" where
  "ecdh_on_token pr u point info nonce c slot s =
     chain (needs slot CkmEcdh1Derive) (\<lambda>_.
     chain (object_for pr s u PrivateKey) (\<lambda>key.
       (let extract =
              (if \<not> ro_allowSecretExtraction (pr_options pr) then settled (Inl (TokenFailure SecretNotExtractable))
               else chain (deriveExtractableSecret (pr_module pr) s key point) (\<lambda>x. settled (Inr (Shared x))))
        in if supportsInHardwareEcdh slot then
             handle
               (chain (decryptEcdhInHardware (pr_module pr) s key point info nonce c) (\<lambda>x. settled (Inr (Plaintext x))))
               (\<lambda>e. if \<not> ro_allowSecretExtraction (pr_options pr) then settled (Inl e) else extract)
           else extract)))"

definition ecdhDecode :: "('t, 'k) provider \<Rightarrow> jstr \<Rightarrow> jstr \<Rightarrow> signal \<Rightarrow> ('t world, jstr) operation" where
  "ecdhDecode pr privateKey cipherText sig =
     (if \<not> routesToToken pr privateKey then Encrypt_Local.ecdhDecode (pr_local pr) privateKey cipherText sig
      else runWithSignal sig (
        chain (the_uri pr privateKey) (\<lambda>u.
        chain (settled (decodeECCCipherPayload (lp_base64 (pr_local pr)) cipherText)) (\<lambda>p.
        chain (settled (ecdhPeerPoint pr (ec_ephemeralPublicKey p) (ec_curve p))) (\<lambda>point.
        chain (settled (fromBase64 (lp_base64 (pr_local pr)) (ec_nonce p))) (\<lambda>nonce.
        chain (settled (fromBase64 (lp_base64 (pr_local pr)) (ec_cipherText p))) (\<lambda>c.
        (let info = bytesOf (ECDH_HKDF_INFO_PREFIX @ ec_curve p)
         in chain (onToken pr sig (ecdh_on_token pr u point info nonce c)) (\<lambda>outcome.
              case outcome of
                Plaintext x \<Rightarrow> settled (Inr (textOf x))
              | Shared x \<Rightarrow> chain (settled (decryptWithSharedSecret pr x (ec_curve p) info nonce c)) (\<lambda>plain.
                  settled (Inr (textOf plain))))))))))))"


section \<open>Key management\<close>

definition replacement_size :: "attribute list \<Rightarrow> attribute_type \<Rightarrow> int \<Rightarrow> int" where
  "replacement_size as t fallback =
     (case findAttribute as (cka t) of
        None \<Rightarrow> fallback
      | Some raw \<Rightarrow> (case ulongValue raw of Some n \<Rightarrow> if 0 < n then n else fallback | None \<Rightarrow> fallback))"

definition replace_aes ::
  "('t, 'k) provider \<Rightarrow> slot_state \<Rightarrow> nat \<Rightarrow> attribute list \<Rightarrow> jstr \<Rightarrow> bytes \<Rightarrow> ('t world, key_data) operation" where
  "replace_aes pr slot s as label i =
     chain (needs slot CkmAesKeyGen) (\<lambda>_.
     chain (generateKey (pr_module pr) s (ckm CkmAesKeyGen)
         (aes_template label i (replacement_size as CkaValueLen Key256Bits))) (\<lambda>_.
       described (new_uri label i SecretKey) []))"

definition replace_rsa ::
  "('t, 'k) provider \<Rightarrow> slot_state \<Rightarrow> nat \<Rightarrow> attribute list \<Rightarrow> jstr \<Rightarrow> bytes \<Rightarrow> ('t world, key_data) operation" where
  "replace_rsa pr slot s as label i =
     chain (needs slot CkmRsaPkcsKeyPairGen) (\<lambda>_.
     chain (generateKeyPair (pr_module pr) s (ckm CkmRsaPkcsKeyPairGen)
         (publicKeyTemplate label i @
          [ulongAttribute (cka CkaModulusBits) (replacement_size as CkaModulusBits Key2048Bits),
           bytesAttribute (cka CkaPublicExponent) RSA_PUBLIC_EXPONENT,
           boolAttribute (cka CkaEncrypt) True, boolAttribute (cka CkaVerify) True])
         (tokenKeyTemplate label i @
          [boolAttribute (cka CkaDecrypt) True, boolAttribute (cka CkaSign) True])) (\<lambda>(pub, _).
     chain (getAttributes (pr_module pr) s pub (map cka [CkaModulus, CkaPublicExponent])) (\<lambda>fresh.
     chain (settled (from_token (rsaPublicKeyFrom (b64 pr) fresh))) (\<lambda>key.
       described (new_uri label i PrivateKey) key))))"

definition replace_ec ::
  "('t, 'k) provider \<Rightarrow> slot_state \<Rightarrow> nat \<Rightarrow> attribute list \<Rightarrow> jstr \<Rightarrow> bytes \<Rightarrow> bool \<Rightarrow> ('t world, key_data) operation" where
  "replace_ec pr slot s as label i edwards =
     (case findAttribute as (cka CkaEcParams) of
        None \<Rightarrow> settled (Inl (TokenFailure (Pkcs11Error (js ''pkcs11: cannot rotate an ec key without CKA_EC_PARAMS''))))
      | Some ps \<Rightarrow>
          (let mech = (if edwards then CkmEcEdwardsKeyPairGen else CkmEcKeyPairGen)
           in chain (needs slot mech) (\<lambda>_.
              chain (generateKeyPair (pr_module pr) s (ckm mech)
                  (publicKeyTemplate label i @ [bytesAttribute (cka CkaEcParams) ps])
                  (tokenKeyTemplate label i @
                   [boolAttribute (cka CkaDerive) (\<not> edwards), boolAttribute (cka CkaSign) edwards])) (\<lambda>(pub, _).
              chain (getAttributes (pr_module pr) s pub (map cka [CkaEcPoint, CkaEcParams])) (\<lambda>fresh.
              chain (settled (from_token (if edwards then ed25519PublicKeyFrom (b64 pr) fresh
                                          else ecdhPublicKeyFrom (b64 pr) fresh))) (\<lambda>key.
                described (new_uri label i PrivateKey) key))))))"

definition generateReplacement ::
  "('t, 'k) provider \<Rightarrow> slot_state \<Rightarrow> nat \<Rightarrow> attribute list \<Rightarrow> jstr \<Rightarrow> bytes \<Rightarrow> ('t world, key_data) operation" where
  "generateReplacement pr slot s as label i =
     (case findAttribute as (cka CkaKeyType) of
        None \<Rightarrow> settled (Inl (TokenFailure (Pkcs11Error (js ''pkcs11: cannot rotate an object without CKA_KEY_TYPE''))))
      | Some raw \<Rightarrow>
          (case ulongValue raw of
             None \<Rightarrow> settled (Inl (TokenFailure (Pkcs11Error (js ''pkcs11: CKA_KEY_TYPE is not a CK_ULONG''))))
           | Some n \<Rightarrow>
               if n = key_type_code CkkAes then replace_aes pr slot s as label i
               else if n = key_type_code CkkRsa then replace_rsa pr slot s as label i
               else if n = key_type_code CkkEc \<or> n = key_type_code CkkEcEdwards
               then replace_ec pr slot s as label i (n = key_type_code CkkEcEdwards)
               else settled (Inl (TokenFailure (Pkcs11Error (js ''pkcs11: cannot rotate key type '' @ decimal_text n))))))"

definition disable_template :: "attribute list \<Rightarrow> attribute list" where
  "disable_template present =
     map (\<lambda>t. boolAttribute t False) (filter (hasAttribute present) DEACTIVATABLE_ATTRIBUTES)"

definition disableObject :: "'t pkcs11_module \<Rightarrow> nat \<Rightarrow> nat \<Rightarrow> ('t world, unit) operation" where
  "disableObject m s obj =
     chain (getAttributes m s obj DEACTIVATABLE_ATTRIBUTES) (\<lambda>present.
       if disable_template present = []
       then settled (Inl (TokenFailure (Pkcs11Error (js ''pkcs11: object carries no usage attribute to clear''))))
       else setAttributes m s obj (disable_template present))"

definition rotateKey ::
  "('t, 'k) provider \<Rightarrow> bytes \<Rightarrow> jstr \<Rightarrow> jstr \<Rightarrow> jstr option \<Rightarrow> signal \<Rightarrow> ('t world, key_data) operation" where
  "rotateKey pr i now keyId uid sig =
     onToken pr sig (\<lambda>slot s.
       chain (the_uri pr keyId) (\<lambda>u.
       chain (object_for pr s u PrivateKey) (\<lambda>obj.
       chain (getAttributes (pr_module pr) s obj
           (map cka [CkaClass, CkaKeyType, CkaLabel, CkaValueLen, CkaModulusBits, CkaEcParams])) (\<lambda>as.
       chain (generateReplacement pr slot s as (newObjectLabel (rotationLabelBase as u) uid now) i) (\<lambda>rotated.
         if ro_rotateDisablesPrevious (pr_options pr)
         then chain (disableObject (pr_module pr) s obj) (\<lambda>_. settled (Inr rotated))
         else settled (Inr rotated))))))"

definition non_empty :: "'a list option \<Rightarrow> 'a list option \<Rightarrow> 'a list option" where
  "non_empty v fallback = (case v of Some x \<Rightarrow> if x \<noteq> [] then Some x else fallback | None \<Rightarrow> fallback)"

definition getKey :: "('t, 'k) provider \<Rightarrow> jstr \<Rightarrow> signal \<Rightarrow> ('t world, key_data) operation" where
  "getKey pr keyId sig =
     chain (onToken pr sig (\<lambda>slot s.
         chain (the_uri pr keyId) (\<lambda>u.
         chain (object_for pr s u PrivateKey) (\<lambda>obj.
         chain (getAttributes (pr_module pr) s obj (map cka [CkaLabel, CkaId, CkaClass])) (\<lambda>as.
           settled (Inr (u\<lparr>ku_object := (case non_empty (findAttribute as (cka CkaLabel)) None of
                                           Some l \<Rightarrow> Some (textOf l) | None \<Rightarrow> ku_object u),
                          ku_id := non_empty (findAttribute as (cka CkaId)) (ku_id u)\<rparr>))))))) (\<lambda>u.
     chain (handle (fetchPublicKey pr u sig) (\<lambda>_. settled (Inr []))) (\<lambda>pub.
       described u pub))"

definition deactivateKey :: "('t, 'k) provider \<Rightarrow> jstr \<Rightarrow> signal \<Rightarrow> ('t world, unit) operation" where
  "deactivateKey pr keyId sig =
     onToken pr sig (\<lambda>slot s.
       chain (the_uri pr keyId) (\<lambda>u.
       chain (object_for pr s u PrivateKey) (\<lambda>obj.
         handle (disableObject (pr_module pr) s obj) (\<lambda>e.
           if \<not> ro_deactivateDestroys (pr_options pr) then settled (Inl e)
           else destroyObject (pr_module pr) s obj))))"

section \<open>Hashing\<close>

definition hmac :: "('t, 'k) provider \<Rightarrow> jstr \<Rightarrow> jstr \<Rightarrow> signal \<Rightarrow> ('t world, jstr) operation" where
  "hmac pr secretKey message sig =
     (if \<not> routesToToken pr secretKey then Encrypt_Local.hmac (pr_local pr) secretKey message sig
      else onToken pr sig (\<lambda>slot s.
        chain (the_uri pr secretKey) (\<lambda>u.
        chain (needs slot CkmSha256Hmac) (\<lambda>_.
        chain (object_for pr s u SecretKey) (\<lambda>obj.
        chain (token_sign (pr_module pr) s (ckm CkmSha256Hmac) None obj (bytesOf message)) (\<lambda>sg.
          settled (Inr (b64 pr sg))))))))"

section \<open>Signatures\<close>

definition generateEd25519Keys :: "('t, 'k) provider \<Rightarrow> bytes \<Rightarrow> jstr \<Rightarrow> signal \<Rightarrow> ('t world, key_data) operation" where
  "generateEd25519Keys pr i now sig =
     (let label = newObjectLabel Ed25519Prefix None now
      in onToken pr sig (\<lambda>slot s.
           chain (needs slot CkmEcEdwardsKeyPairGen) (\<lambda>_.
           chain (generateKeyPair (pr_module pr) s (ckm CkmEcEdwardsKeyPairGen)
               (publicKeyTemplate label i @
                [bytesAttribute (cka CkaEcParams) (ec_params_of ''Ed25519''), boolAttribute (cka CkaVerify) True])
               (tokenKeyTemplate label i @ [boolAttribute (cka CkaSign) True])) (\<lambda>(pub, _).
           chain (getAttributes (pr_module pr) s pub [cka CkaEcPoint]) (\<lambda>as.
           chain (settled (from_token (ed25519PublicKeyFrom (b64 pr) as))) (\<lambda>key.
             described (new_uri label i PrivateKey) key))))))"

definition signWithToken ::
  "('t, 'k) provider \<Rightarrow> jstr \<Rightarrow> jstr \<Rightarrow> (slot_state \<Rightarrow> pkcs11_error + sign_plan) \<Rightarrow> signal \<Rightarrow> ('t world, jstr) operation" where
  "signWithToken pr reference message plan sig =
     onToken pr sig (\<lambda>slot s.
       chain (the_uri pr reference) (\<lambda>u.
       chain (settled (from_token (plan slot))) (\<lambda>chosen.
       chain (object_for pr s u PrivateKey) (\<lambda>obj.
       chain (settled (prepare pr (sp_prepare chosen) message)) (\<lambda>payload.
       chain
         (handle (token_sign (pr_module pr) s (sp_mechanism chosen) (sp_params chosen) obj payload) (\<lambda>e.
            if sp_retryParams chosen = None \<or> \<not> isMechanismParamError e then settled (Inl e)
            else token_sign (pr_module pr) s (sp_mechanism chosen) (sp_retryParams chosen) obj payload)) (\<lambda>sg.
         settled (Inr (b64 pr sg))))))))"

definition signEd25519 :: "('t, 'k) provider \<Rightarrow> jstr \<Rightarrow> jstr \<Rightarrow> signal \<Rightarrow> ('t world, jstr) operation" where
  "signEd25519 pr privateKey txt sig =
     (if \<not> routesToToken pr privateKey then Encrypt_Local.signEd25519 (pr_local pr) privateKey txt sig
      else signWithToken pr privateKey txt planEd25519 sig)"

definition signRSAPSS :: "('t, 'k) provider \<Rightarrow> jstr \<Rightarrow> jstr \<Rightarrow> signal \<Rightarrow> ('t world, jstr) operation" where
  "signRSAPSS pr privateKey txt sig =
     (if \<not> routesToToken pr privateKey then Encrypt_Local.signRSAPSS (pr_local pr) privateKey txt sig
      else signWithToken pr privateKey txt planRsaPss sig)"

definition signRSAPKCS1v15SHA256 :: "('t, 'k) provider \<Rightarrow> jstr \<Rightarrow> jstr \<Rightarrow> signal \<Rightarrow> ('t world, jstr) operation" where
  "signRSAPKCS1v15SHA256 pr privateKey txt sig =
     (if \<not> routesToToken pr privateKey then Encrypt_Local.signRSAPKCS1v15SHA256 (pr_local pr) privateKey txt sig
      else signWithToken pr privateKey txt planRsaPkcs1v15 sig)"

definition verifyEd25519 :: "('t, 'k) provider \<Rightarrow> jstr \<Rightarrow> jstr \<Rightarrow> jstr \<Rightarrow> signal \<Rightarrow> ('t world, unit) operation" where
  "verifyEd25519 pr publicKey txt signature sig =
     (if \<not> routesToToken pr publicKey then Encrypt_Local.verifyEd25519 (pr_local pr) publicKey txt signature sig
      else chain (fetchVerificationKey pr publicKey sig) (\<lambda>key.
        Encrypt_Local.verifyEd25519 (pr_local pr) key txt signature sig))"

definition verifyRSAPSS :: "('t, 'k) provider \<Rightarrow> jstr \<Rightarrow> jstr \<Rightarrow> jstr \<Rightarrow> signal \<Rightarrow> ('t world, unit) operation" where
  "verifyRSAPSS pr publicKey txt signature sig =
     (if \<not> routesToToken pr publicKey then Encrypt_Local.verifyRSAPSS (pr_local pr) publicKey txt signature sig
      else chain (fetchVerificationKey pr publicKey sig) (\<lambda>key.
        Encrypt_Local.verifyRSAPSS (pr_local pr) key txt signature sig))"

definition verifyRSAPKCS1v15SHA256 ::
  "('t, 'k) provider \<Rightarrow> jstr \<Rightarrow> jstr \<Rightarrow> jstr \<Rightarrow> signal \<Rightarrow> ('t world, unit) operation" where
  "verifyRSAPKCS1v15SHA256 pr txt publicKey signature sig =
     (if \<not> routesToToken pr publicKey
      then Encrypt_Local.verifyRSAPKCS1v15SHA256 (pr_local pr) txt publicKey signature sig
      else chain (fetchVerificationKey pr publicKey sig) (\<lambda>key.
        Encrypt_Local.verifyRSAPKCS1v15SHA256 (pr_local pr) txt key signature sig))"

section \<open>Which calls an operation makes\<close>

text \<open>Keys that stay on the token are sensitive and never extractable; only derived session objects are not persistent.\<close>

definition locked :: "attribute list \<Rightarrow> bool" where
  "locked t \<longleftrightarrow>
     boolAttribute (cka CkaSensitive) True \<in> set t \<and> boolAttribute (cka CkaExtractable) False \<in> set t \<and>
     boolAttribute (cka CkaSensitive) False \<notin> set t \<and> boolAttribute (cka CkaExtractable) True \<notin> set t"

fun keys_locked :: "bool \<Rightarrow> token_call \<Rightarrow> bool" where
  "keys_locked extraction (GenerateKey mech t) = locked t"
| "keys_locked extraction (GenerateKeyPair mech pub t) = locked t"
| "keys_locked extraction (DeriveObject mech ps obj t r) =
     (boolAttribute (cka CkaToken) False \<in> set t \<and> (locked t \<or> extraction))"
| "keys_locked extraction _ = True"



context closed_log begin

lemma appends_local:
  "appends Q (Encrypt_Local.encryptAES lp nonce key v ad sig)" "appends Q (Encrypt_Local.decryptAES lp key c ad sig)"
  "appends Q (Encrypt_Local.rsaOaepEncode lp key v sig)" "appends Q (Encrypt_Local.rsaOaepDecode lp key c sig)"
  "appends Q (Encrypt_Local.ecdhEncode lp seed nonce key v sig)" "appends Q (Encrypt_Local.ecdhDecode lp key c sig)"
  "appends Q (Encrypt_Local.hmac lp key v sig)" "appends Q (Encrypt_Local.signEd25519 lp key v sig)"
  "appends Q (Encrypt_Local.signRSAPSS lp key v sig)" "appends Q (Encrypt_Local.signRSAPKCS1v15SHA256 lp key v sig)"
  "appends Q (Encrypt_Local.verifyEd25519 lp key v sg sig)" "appends Q (Encrypt_Local.verifyRSAPSS lp key v sg sig)"
  "appends Q (Encrypt_Local.verifyRSAPKCS1v15SHA256 lp v key sg sig)"
  unfolding Encrypt_Local.encryptAES_def Encrypt_Local.decryptAES_def Encrypt_Local.rsaOaepEncode_def
    Encrypt_Local.rsaOaepDecode_def Encrypt_Local.ecdhEncode_def Encrypt_Local.ecdhDecode_def Encrypt_Local.hmac_def
    Encrypt_Local.signEd25519_def Encrypt_Local.signRSAPSS_def Encrypt_Local.signRSAPKCS1v15SHA256_def
    Encrypt_Local.verifyEd25519_def Encrypt_Local.verifyRSAPSS_def Encrypt_Local.verifyRSAPKCS1v15SHA256_def
  by (intro appends_signal appends_settled)+

lemma appends_steps:
  "appends Q (the_uri pr ref)" "appends Q (needs slot mech)" "appends Q (object_for pr s u c)" "appends Q (described u pub)"
  by (simp_all add: the_uri_def needs_def object_for_def described_def appends_settled appends_lookup)

end

text \<open>A predicate of logs that the bookkeeping of sessions satisfies.\<close>

locale session_log = closed_log +
  assumes closed_session: "Q [SessionAcquired s]" "Q [SessionReleased s x]" "Q [LoginReset]"
begin

lemma appends_onToken: "(\<And>slot s. appends Q (f slot s)) \<Longrightarrow> appends Q (onToken pr sig f)"
  unfolding onToken_def by (intro appends_signal appends_chain appends_settled appends_withSession closed_session)

lemmas session_rules = closed_rules appends_local appends_steps appends_onToken

end

interpretation key_log: session_log "list_all (keys_locked extraction)" for extraction
  by unfold_locales simp_all

lemmas key_rules = log_rules key_log.session_rules

lemma locked_templates:
  "locked (aes_template label i n)"
  "locked (tokenKeyTemplate label i @ [boolAttribute (cka CkaDecrypt) True, boolAttribute (cka CkaSign) True,
     boolAttribute (cka CkaUnwrap) True])"
  "locked (tokenKeyTemplate label i @ [boolAttribute (cka CkaDecrypt) True, boolAttribute (cka CkaSign) True])"
  "locked (tokenKeyTemplate label i @ [boolAttribute (cka CkaDerive) True])"
  "locked (tokenKeyTemplate label i @ [boolAttribute (cka CkaSign) True])"
  "locked (tokenKeyTemplate label i @ [boolAttribute (cka CkaDerive) d, boolAttribute (cka CkaSign) e])"
  "locked aes_session_template" "locked (secret_template False)"
  by (simp_all add: locked_def aes_template_def tokenKeyTemplate_def aes_session_template_def secret_template_def
    boolAttribute_def textAttribute_def bytesAttribute_def ulongAttribute_def)

lemma session_templates:
  "boolAttribute (cka CkaToken) False \<in> set aes_session_template"
  "boolAttribute (cka CkaToken) False \<in> set (secret_template e)"
  by (simp_all add: aes_session_template_def secret_template_def)

lemma fetch_logs: "logs (keys_locked e) (fetchPublicKey pr u sig)"
  unfolding fetchPublicKey_def by (intro key_rules) simp_all

lemma replacement_logs: "logs (keys_locked e) (generateReplacement pr slot s as label i)"
  unfolding generateReplacement_def replace_aes_def replace_rsa_def replace_ec_def
  by (intro key_rules) (simp_all add: locked_templates [simplified])

lemma disable_logs: "logs (keys_locked e) (disableObject m s obj)"
  unfolding disableObject_def by (intro key_rules) simp_all

lemma hardware_logs: "logs (keys_locked e) (decryptEcdhInHardware m s key point info nonce c)"
  unfolding decryptEcdhInHardware_def
  by (intro key_rules appends_derive) (simp_all add: locked_templates session_templates [simplified])

lemma extract_logs: "logs (keys_locked True) (deriveExtractableSecret m s key point)"
  unfolding deriveExtractableSecret_def
  by (intro key_rules appends_derive) (simp_all add: session_templates [simplified])

lemma ecdh_logs: "logs (keys_locked (ro_allowSecretExtraction (pr_options pr))) (ecdh_on_token pr u point info nonce c slot s)"
  unfolding ecdh_on_token_def Let_def
  by (cases "ro_allowSecretExtraction (pr_options pr)")
     (auto intro!: key_rules hardware_logs extract_logs)

definition protects :: "('t, 'k) provider \<Rightarrow> ('t world, 'a) operation \<Rightarrow> bool" where
  "protects pr m \<longleftrightarrow> logs (keys_locked (ro_allowSecretExtraction (pr_options pr))) m"

lemma protects_generate:
  "protects pr (generateSymmetricKeys pr i now n uid sig)" "protects pr (generateRSAKeys pr i now n uid sig)"
  "protects pr (generateECDHCurveKeys pr i now curve uid sig)" "protects pr (generateEd25519Keys pr i now sig)"
  unfolding protects_def generateSymmetricKeys_def generateRSAKeys_def generateECDHCurveKeys_def generateEd25519Keys_def
  by (intro key_rules; simp add: locked_templates [simplified])+

lemma protects_manage:
  "protects pr (rotateKey pr i now ref uid sig)" "protects pr (deactivateKey pr ref sig)" "protects pr (getKey pr ref sig)"
  unfolding protects_def rotateKey_def deactivateKey_def getKey_def
  by (intro key_rules replacement_logs disable_logs fetch_logs; simp)+

lemma protects_use:
  "protects pr (encryptAES pr nonce ref v ad sig)" "protects pr (decryptAES pr ref v ad sig)"
  "protects pr (rsaOaepDecode pr ref v sig)" "protects pr (hmac pr ref v sig)"
  unfolding protects_def encryptAES_def decryptAES_def rsaOaepDecode_def hmac_def
  by (intro key_rules; simp)+

lemma protects_sign: "protects pr (signWithToken pr ref v plan sig)"
  unfolding protects_def signWithToken_def by (intro key_rules; simp)+

lemma protects_ecdh: "protects pr (ecdhDecode pr ref v sig)"
  unfolding protects_def ecdhDecode_def
  by (intro key_rules ecdh_logs) (auto intro!: key_rules split: ecdh_outcome.split)

section \<open>Derived objects are destroyed\<close>

text \<open>The objects that were derived and that nobody tried to destroy since; and those that are still there, because
  no destruction of them succeeded.\<close>

fun abandoned :: "nat list \<Rightarrow> token_call list \<Rightarrow> nat list" where
  "abandoned acc [] = acc"
| "abandoned acc (DeriveObject mech ps base t (Some h) # cs) = abandoned (h # acc) cs"
| "abandoned acc (DestroyObject h ok # cs) = abandoned (removeAll h acc) cs"
| "abandoned acc (c # cs) = abandoned acc cs"

fun live_objects :: "nat list \<Rightarrow> token_call list \<Rightarrow> nat list" where
  "live_objects acc [] = acc"
| "live_objects acc (DeriveObject mech ps base t (Some h) # cs) = live_objects (h # acc) cs"
| "live_objects acc (DestroyObject h ok # cs) = live_objects (if ok then removeAll h acc else acc) cs"
| "live_objects acc (c # cs) = live_objects acc cs"

definition leaves_none :: "token_call list \<Rightarrow> bool" where
  "leaves_none cs \<longleftrightarrow> abandoned [] cs = []"

lemma abandoned_append: "abandoned acc (cs @ ds) = abandoned (abandoned acc cs) ds"
  by (induction acc cs rule: abandoned.induct) simp_all

lemma abandoned_subset: "set acc \<subseteq> A \<union> set acc' \<Longrightarrow> set (abandoned acc cs) \<subseteq> A \<union> set (abandoned acc' cs)"
proof (induction acc cs arbitrary: acc' rule: abandoned.induct)
  case (2 acc mech ps base t h cs)
  have "set (h # acc) \<subseteq> A \<union> set (h # acc')" using "2.prems" by auto
  from "2.IH" [OF this] show ?case by simp
next
  case (3 acc h ok cs)
  have "set (removeAll h acc) \<subseteq> A \<union> set (removeAll h acc')" using "3.prems" by auto
  from "3.IH" [OF this] show ?case by simp
qed simp_all

text \<open>An object that is still there was abandoned, or its destruction was tried and failed.\<close>

lemma live_abandoned:
  "set acc \<subseteq> set acc' \<union> F \<Longrightarrow>
   set (live_objects acc cs) \<subseteq> set (abandoned acc' cs) \<union> F \<union> {h. DestroyObject h False \<in> set cs}"
proof (induction acc cs arbitrary: acc' F rule: live_objects.induct)
  case (2 acc mech ps base t h cs)
  have "set (h # acc) \<subseteq> set (h # acc') \<union> F" using "2.prems" by auto
  from "2.IH" [OF this] show ?case by auto
next
  case (3 acc h ok cs)
  have "set (if ok then removeAll h acc else acc) \<subseteq> set (removeAll h acc') \<union> (F \<union> (if ok then {} else {h}))"
    using "3.prems" by auto
  from "3.IH" [OF this] show ?case by (auto split: if_splits)
qed (auto dest: meta_spec)

interpretation none_log: session_log leaves_none
  by unfold_locales (simp_all add: leaves_none_def abandoned_append)

lemmas none_rules = log_rules none_log.session_rules

lemma bracket_leaves_none:
  fixes m :: "'t pkcs11_module"
  assumes f: "\<And>h. appends leaves_none (f h)"
  shows "appends leaves_none (chain (deriveKey m s mech ps base t) (\<lambda>h. finally_quiet (f h) (destroyObject m s h)))"
proof (rule appendsI)
  fix w :: "'t world"
  obtain r u where r: "pm_deriveKey m s mech ps base t (w_token w) = (r, u)" by fastforce
  let ?w = "\<lparr> w_token = u, w_calls = w_calls w @ [DeriveObject mech ps base t (produced r)] \<rparr>"
  show "\<exists>cs. w_calls (snd (chain (deriveKey m s mech ps base t)
      (\<lambda>h. finally_quiet (f h) (destroyObject m s h)) w)) = w_calls w @ cs \<and> leaves_none cs"
  proof (cases r)
    case (Inl e)
    then show ?thesis using r
      by (simp add: chain_def call_defs perform_def on_success_def settled_def produced_def leaves_none_def)
  next
    case (Inr h)
    obtain x v where v: "f h ?w = (x, v)" by fastforce
    obtain cs where cs: "w_calls v = w_calls ?w @ cs" "leaves_none cs" using f v by (rule appendsE)
    have "set (abandoned [h] cs) \<subseteq> {h} \<union> set (abandoned [] cs)" by (rule abandoned_subset) simp
    then have "removeAll h (abandoned [h] cs) = []" using cs(2) by (auto simp: leaves_none_def removeAll_filter_not_eq filter_empty_conv)
    then have "leaves_none (DeriveObject mech ps base t (Some h) # cs @ [DestroyObject h ok])" for ok
      by (simp add: leaves_none_def abandoned_append)
    moreover obtain y z where d: "pm_destroyObject m s h (w_token v) = (y, z)" by fastforce
    moreover have "w_calls (snd (chain (deriveKey m s mech ps base t)
        (\<lambda>h. finally_quiet (f h) (destroyObject m s h)) w)) =
      w_calls w @ (DeriveObject mech ps base t (Some h) # cs @ [DestroyObject h (succeeded y)])"
      using r Inr v cs(1) d
      by (simp add: chain_def call_defs perform_def on_success_def produced_def finally_quiet_def split: prod.split)
    ultimately show ?thesis by blast
  qed
qed

lemma ecdh_leaves_none: "appends leaves_none (ecdh_on_token pr u point info nonce c slot s)"
  unfolding ecdh_on_token_def decryptEcdhInHardware_def deriveExtractableSecret_def Let_def
  by (intro none_rules bracket_leaves_none) (simp_all add: leaves_none_def)

text \<open>Any log at all: what an operation does first is what its log starts with.\<close>

interpretation any_log: session_log "\<lambda>_. True"
  by unfold_locales simp_all

lemmas any_rules = log_rules any_log.session_rules

lemma chain_settled: "chain (settled (Inr x)) f = f x"
  by (simp add: chain_def settled_def on_success_def fun_eq_iff)

lemma first_call:
  fixes w :: "'t world"
  assumes "\<And>x. appends (\<lambda>_. True) (f x)"
  shows "\<exists>cs. w_calls (snd (chain (perform (\<lambda>_. entry) g) f w)) = w_calls w @ entry # cs"
proof (cases "g (w_token w)")
  case (Pair r t)
  show ?thesis
  proof (cases r)
    case (Inl e)
    then show ?thesis using Pair by (simp add: chain_def perform_def on_success_def settled_def)
  next
    case (Inr x)
    let ?w = "\<lparr> w_token = t, w_calls = w_calls w @ [entry] \<rparr>"
    obtain y v where v: "f x ?w = (y, v)" by fastforce
    obtain cs where "w_calls v = w_calls ?w @ cs" using assms v by (rule appendsE)
    then show ?thesis using Pair Inr v by (simp add: chain_def perform_def on_success_def)
  qed
qed

section \<open>Software independence\<close>

lemma same_services:
  assumes "lp_base64 l = lp_base64 (pr_local pr)" "wc_digest (lp_crypto l) = wc_digest (lp_crypto (pr_local pr))"
  shows "b64 (pr\<lparr>pr_local := l\<rparr>) = b64 pr" "prepare (pr\<lparr>pr_local := l\<rparr>) = prepare pr"
    "routesToToken (pr\<lparr>pr_local := l\<rparr>) = routesToToken pr" "onToken (pr\<lparr>pr_local := l\<rparr>) = onToken pr"
    "the_uri (pr\<lparr>pr_local := l\<rparr>) = the_uri pr" "object_for (pr\<lparr>pr_local := l\<rparr>) = object_for pr"
proof -
  show "b64 (pr\<lparr>pr_local := l\<rparr>) = b64 pr" "routesToToken (pr\<lparr>pr_local := l\<rparr>) = routesToToken pr"
    "onToken (pr\<lparr>pr_local := l\<rparr>) = onToken pr" "the_uri (pr\<lparr>pr_local := l\<rparr>) = the_uri pr"
    "object_for (pr\<lparr>pr_local := l\<rparr>) = object_for pr"
    using assms by (auto simp: b64_def routesToToken_def onToken_def the_uri_def object_for_def fun_eq_iff)
  show "prepare (pr\<lparr>pr_local := l\<rparr>) = prepare pr"
    using assms by (auto simp: prepare_def fun_eq_iff split: preparation.split)
qed

section \<open>Properties\<close>

text \<open>
  C25: Private and secret keys stay in the token.  Whatever the token answers, every operation of the provider
  generates keys with templates that say sensitive and not extractable; the only extractable objects are
  session objects derived for one ECDH decryption, and those only where the options allow extraction.
\<close>

theorem keys_stay_in_token:
  "protects pr (generateSymmetricKeys pr i now n uid sig) \<and> protects pr (generateRSAKeys pr i now n uid sig) \<and>
   protects pr (generateECDHCurveKeys pr i now curve uid sig) \<and> protects pr (generateEd25519Keys pr i now sig) \<and>
   protects pr (rotateKey pr i now ref uid sig) \<and> protects pr (deactivateKey pr ref sig) \<and>
   protects pr (getKey pr ref sig) \<and> protects pr (ecdhDecode pr ref v sig) \<and>
   protects pr (encryptAES pr nonce ref v ad sig) \<and> protects pr (decryptAES pr ref v ad sig) \<and>
   protects pr (rsaOaepDecode pr ref v sig) \<and> protects pr (hmac pr ref v sig) \<and>
   protects pr (signEd25519 pr ref v sig) \<and> protects pr (signRSAPSS pr ref v sig) \<and>
   protects pr (signRSAPKCS1v15SHA256 pr ref v sig)"
  using protects_generate protects_manage protects_use protects_ecdh protects_sign
  by (auto simp: signEd25519_def signRSAPSS_def signRSAPKCS1v15SHA256_def protects_def all_calls.appends_local)


text \<open>
  Two software providers agree on importing and exporting public keys; on finishing a decryption from a
  shared secret.
\<close>

definition same_public_keys :: "'k web_crypto \<Rightarrow> 'k web_crypto \<Rightarrow> bool" where
  "same_public_keys c d \<longleftrightarrow>
     (\<forall>der a us. wc_importKey c Spki der a us = wc_importKey d Spki der a us) \<and> wc_exportKey c Raw = wc_exportKey d Raw"

definition same_finish :: "'k web_crypto \<Rightarrow> 'k web_crypto \<Rightarrow> bool" where
  "same_finish c d \<longleftrightarrow>
     (\<forall>raw a us. wc_importKey c Raw raw a us = wc_importKey d Raw raw a us) \<and>
     wc_deriveKey c = wc_deriveKey d \<and> wc_decrypt c = wc_decrypt d"

lemma chain_Inr: "chain m f w = (Inr y, u) \<longleftrightarrow> (\<exists>x v. m w = (Inr x, v) \<and> f x v = (Inr y, u))"
  by (auto simp: chain_def on_success_def settled_def split: prod.splits sum.splits)

lemma chain_same:
  assumes "\<And>w x u. m w = (Inr x, u) \<Longrightarrow> f x = g x"
  shows "chain m f = chain m g"
proof
  fix w
  obtain r u where r: "m w = (r, u)" by fastforce
  then show "chain m f w = chain m g w"
    using assms [of w _ u] by (cases r) (simp_all add: chain_def on_success_def settled_def)
qed

text \<open>An operation that cannot end with a value cannot do so within a session either.\<close>

lemma onToken_never:
  assumes "\<And>slot s w u. f slot s w \<noteq> (Inr x, u)"
  shows "onToken pr sig f w \<noteq> (Inr x, u)"
proof
  assume *: "onToken pr sig f w = (Inr x, u)"
  have "\<exists>w u. withSession (pr_sessions pr) f w = (Inr x, u)"
    using * unfolding onToken_def by (cases sig) (auto simp: runWithSignal_def runEncryptOperation_def chain_Inr settled_def
        on_success_def handle_def split: prod.splits sum.splits if_splits)
  then obtain w1 u1 where ws: "withSession (pr_sessions pr) f w1 = (Inr x, u1)" by blast
  obtain r t where o: "ss_open (pr_sessions pr) (w_token w1) = (r, t)" by fastforce
  show False
  proof (cases r)
    case (Inl e)
    then show False using ws o by (simp add: withSession_def)
  next
    case (Inr ps)
    obtain slot s where ps: "ps = (slot, s)" by fastforce
    let ?m = "chain (session_login (pr_sessions pr) s) (\<lambda>_. f slot s)"
    let ?w = "\<lparr> w_token = t, w_calls = w_calls w1 @ [SessionAcquired s] \<rparr>"
    obtain y v where y: "?m ?w = (y, v)" by fastforce
    then have "y = Inr x" using ws o Inr ps by (cases y) (simp_all add: withSession_def Let_def)
    then show False using y assms by (auto simp: chain_Inr)
  qed
qed

lemma never_shared:
  assumes "\<not> ro_allowSecretExtraction (pr_options pr)"
  shows "onToken pr sig (ecdh_on_token pr u point info nonce c) w \<noteq> (Inr (Shared x), v)"
  by (rule onToken_never)
     (auto simp: ecdh_on_token_def assms chain_Inr handle_def settled_def Let_def
       split: prod.splits sum.splits if_splits)

lemma ecdh_independent:
  assumes "routesToToken pr ref" "lp_base64 l = lp_base64 (pr_local pr)"
    "wc_digest (lp_crypto l) = wc_digest (lp_crypto (pr_local pr))"
    and p: "same_public_keys (lp_crypto l) (lp_crypto (pr_local pr))"
    and e: "ro_allowSecretExtraction (pr_options pr) \<Longrightarrow> same_finish (lp_crypto l) (lp_crypto (pr_local pr))"
  shows "ecdhDecode (pr\<lparr>pr_local := l\<rparr>) ref v sig = ecdhDecode pr ref v sig"
proof -
  note same = same_services [OF assms(2,3)]
  have pt: "ecdhPeerPoint (pr\<lparr>pr_local := l\<rparr>) = ecdhPeerPoint pr"
    using p assms(2) by (simp add: ecdhPeerPoint_def same_public_keys_def fun_eq_iff)
  have tok: "ecdh_on_token (pr\<lparr>pr_local := l\<rparr>) = ecdh_on_token pr"
    by (intro ext) (simp add: ecdh_on_token_def same Let_def cong: if_cong)
  have fin: "decryptWithSharedSecret (pr\<lparr>pr_local := l\<rparr>) = decryptWithSharedSecret pr"
    if "ro_allowSecretExtraction (pr_options pr)"
    using e [OF that] by (intro ext) (simp add: decryptWithSharedSecret_def same_finish_def cong: if_cong)
  have last: "chain (onToken pr sig (ecdh_on_token pr u point info nonce c)) (\<lambda>outcome. case outcome of
        Plaintext x \<Rightarrow> settled (Inr (textOf x))
      | Shared x \<Rightarrow> chain (settled (decryptWithSharedSecret (pr\<lparr>pr_local := l\<rparr>) x cv info nonce c)) (\<lambda>plain.
          settled (Inr (textOf plain)))) =
    chain (onToken pr sig (ecdh_on_token pr u point info nonce c)) (\<lambda>outcome. case outcome of
        Plaintext x \<Rightarrow> settled (Inr (textOf x))
      | Shared x \<Rightarrow> chain (settled (decryptWithSharedSecret pr x cv info nonce c)) (\<lambda>plain.
          settled (Inr (textOf plain))))" for u point info nonce c cv
  proof (rule chain_same)
    fix w outcome w'
    assume *: "onToken pr sig (ecdh_on_token pr u point info nonce c) w = (Inr outcome, w')"
    show "(case outcome of Plaintext x \<Rightarrow> settled (Inr (textOf x))
        | Shared x \<Rightarrow> chain (settled (decryptWithSharedSecret (pr\<lparr>pr_local := l\<rparr>) x cv info nonce c)) (\<lambda>plain.
            settled (Inr (textOf plain)))) =
      (case outcome of Plaintext x \<Rightarrow> settled (Inr (textOf x))
        | Shared x \<Rightarrow> chain (settled (decryptWithSharedSecret pr x cv info nonce c)) (\<lambda>plain.
            settled (Inr (textOf plain))))"
      using * never_shared [of pr sig u point info nonce c w _ w'] fin
      by (cases outcome; cases "ro_allowSecretExtraction (pr_options pr)") auto
  qed
  show ?thesis
    using assms(1,2) by (simp add: ecdhDecode_def same pt tok Let_def last)
qed

text \<open>
  C26: No silent software fallback.  For a reference that addresses the token, AES encryption and decryption,
  OAEP decryption, MACs and signatures are the same whatever the software provider is: of the runtime's
  cryptography they use at most the message digest (and Base64), never a cipher or a signature.  ECDH
  decryption uses of it only the conversion of the sender's public key, and, where the options
  allow the shared secret to leave the token, the steps that finish a decryption from that secret; it never
  imports a private key into it.  OAEP and ECDH encryption and the verifications do run in software, as they
  only need public keys: they hand it the key fetched from the token, never the reference.
\<close>

theorem no_software_fallback:
  assumes "routesToToken pr ref" "lp_base64 l = lp_base64 (pr_local pr)"
    "wc_digest (lp_crypto l) = wc_digest (lp_crypto (pr_local pr))"
  shows "encryptAES (pr\<lparr>pr_local := l\<rparr>) nonce ref v ad sig = encryptAES pr nonce ref v ad sig \<and>
    decryptAES (pr\<lparr>pr_local := l\<rparr>) ref v ad sig = decryptAES pr ref v ad sig \<and>
    rsaOaepDecode (pr\<lparr>pr_local := l\<rparr>) ref v sig = rsaOaepDecode pr ref v sig \<and>
    hmac (pr\<lparr>pr_local := l\<rparr>) ref v sig = hmac pr ref v sig \<and>
    signEd25519 (pr\<lparr>pr_local := l\<rparr>) ref v sig = signEd25519 pr ref v sig \<and>
    signRSAPSS (pr\<lparr>pr_local := l\<rparr>) ref v sig = signRSAPSS pr ref v sig \<and>
    signRSAPKCS1v15SHA256 (pr\<lparr>pr_local := l\<rparr>) ref v sig = signRSAPKCS1v15SHA256 pr ref v sig \<and>
    (same_public_keys (lp_crypto l) (lp_crypto (pr_local pr)) \<and>
     (ro_allowSecretExtraction (pr_options pr) \<longrightarrow> same_finish (lp_crypto l) (lp_crypto (pr_local pr))) \<longrightarrow>
     ecdhDecode (pr\<lparr>pr_local := l\<rparr>) ref v sig = ecdhDecode pr ref v sig) \<and>
    rsaOaepEncode (pr\<lparr>pr_local := l\<rparr>) ref v sig =
      chain (fetchVerificationKey pr ref sig) (\<lambda>key. Encrypt_Local.rsaOaepEncode l key v sig) \<and>
    ecdhEncode (pr\<lparr>pr_local := l\<rparr>) seed nonce ref v sig =
      chain (fetchVerificationKey pr ref sig) (\<lambda>key. Encrypt_Local.ecdhEncode l seed nonce key v sig) \<and>
    verifyEd25519 (pr\<lparr>pr_local := l\<rparr>) ref v sg sig =
      chain (fetchVerificationKey pr ref sig) (\<lambda>key. Encrypt_Local.verifyEd25519 l key v sg sig) \<and>
    verifyRSAPSS (pr\<lparr>pr_local := l\<rparr>) ref v sg sig =
      chain (fetchVerificationKey pr ref sig) (\<lambda>key. Encrypt_Local.verifyRSAPSS l key v sg sig) \<and>
    verifyRSAPKCS1v15SHA256 (pr\<lparr>pr_local := l\<rparr>) v ref sg sig =
      chain (fetchVerificationKey pr ref sig) (\<lambda>key. Encrypt_Local.verifyRSAPKCS1v15SHA256 l v key sg sig)"
proof -
  note same = same_services [OF assms(2,3)]
  have "publicKeyFromAttributes (pr\<lparr>pr_local := l\<rparr>) = publicKeyFromAttributes pr"
    by (intro ext) (simp add: publicKeyFromAttributes_def same cong: if_cong option.case_cong)
  then have "fetchPublicKey (pr\<lparr>pr_local := l\<rparr>) = fetchPublicKey pr"
    by (intro ext) (simp add: fetchPublicKey_def same cong: if_cong)
  then have fetch: "fetchVerificationKey (pr\<lparr>pr_local := l\<rparr>) ref sig = fetchVerificationKey pr ref sig"
    by (simp add: fetchVerificationKey_def same)
  show ?thesis
    using assms ecdh_independent [OF assms]
    by (simp add: same fetch encryptAES_def decryptAES_def rsaOaepDecode_def hmac_def signEd25519_def
      signRSAPSS_def signRSAPKCS1v15SHA256_def signWithToken_def rsaOaepEncode_def ecdhEncode_def
      verifyEd25519_def verifyRSAPSS_def verifyRSAPKCS1v15SHA256_def cong: if_cong)
qed


text \<open>
  Rotating an RSA key forgets its size.  CKA_MODULUS_BITS is an attribute of public RSA keys; rotation
  reads it from the private object.  Where the token does not report it there, the replacement has 2048 bits,
  whatever the size of the old key, and it loses the wrap and unwrap usages that generation gives.
\<close>

theorem rotation_defaults_rsa_size:
  assumes "findAttribute as (cka CkaKeyType) = Some (le_bytes 8 (key_type_code CkkRsa))"
    and "findAttribute as (cka CkaModulusBits) = None" "supports slot (ckm CkmRsaPkcsKeyPairGen)"
  shows "\<exists>pub priv cs. w_calls (snd (generateReplacement pr slot s as label i w)) =
      w_calls w @ GenerateKeyPair (ckm CkmRsaPkcsKeyPairGen) pub priv # cs \<and>
    ulongAttribute (cka CkaModulusBits) 2048 \<in> set pub \<and>
    boolAttribute (cka CkaWrap) True \<notin> set pub \<and> boolAttribute (cka CkaUnwrap) True \<notin> set priv"
proof -
  have "ulongValue (le_bytes 8 (key_type_code CkkRsa)) = Some 0"
    by (simp add: ulongValue_def le_round_trip)
  then have g: "generateReplacement pr slot s as label i = replace_rsa pr slot s as label i"
    using assms(1) by (simp add: generateReplacement_def)
  let ?pub = "publicKeyTemplate label i @
      [ulongAttribute (cka CkaModulusBits) 2048, bytesAttribute (cka CkaPublicExponent) RSA_PUBLIC_EXPONENT,
       boolAttribute (cka CkaEncrypt) True, boolAttribute (cka CkaVerify) True]"
  and ?priv = "tokenKeyTemplate label i @ [boolAttribute (cka CkaDecrypt) True, boolAttribute (cka CkaSign) True]"
  have "replacement_size as CkaModulusBits Key2048Bits = 2048"
    using assms(2) by (simp add: replacement_size_def Key2048Bits_def)
  then have "\<exists>cs. w_calls (snd (replace_rsa pr slot s as label i w)) =
      w_calls w @ GenerateKeyPair (ckm CkmRsaPkcsKeyPairGen) ?pub ?priv # cs"
    using assms(3) unfolding replace_rsa_def needs_def requireMechanism_def generateKeyPair_def
    by (simp add: chain_settled del: mechanism_code.simps attribute_type_code.simps)
       (rule first_call; intro any_rules; simp)
  moreover have "boolAttribute (cka CkaWrap) True \<notin> set ?pub" "boolAttribute (cka CkaUnwrap) True \<notin> set ?priv"
    by (simp_all add: publicKeyTemplate_def tokenKeyTemplate_def boolAttribute_def textAttribute_def bytesAttribute_def
      ulongAttribute_def)
  ultimately show ?thesis unfolding g by fastforce
qed


text \<open>A label outside the generated prefixes keeps every suffix of earlier rotations.\<close>

lemma rotation_label_accumulates:
  "rotationLabelBase [textAttribute (cka CkaLabel) (js ''mykey-1'')] (new_uri [] [] PrivateKey) = js ''mykey-1''"
  by code_simp

section \<open>A concrete token\<close>

definition plain_module :: "unit pkcs11_module" where
  "plain_module =
     \<lparr> pm_findObjects = (\<lambda>_ _ _. Inr [9]), pm_getAttributes = (\<lambda>_ _ _ t. (Inr [], t)),
       pm_setAttributes = (\<lambda>_ _ _ t. (Inr (), t)), pm_destroyObject = (\<lambda>_ _ t. (Inr (), t)),
       pm_generateKey = (\<lambda>_ _ _ t. (Inr 5, t)), pm_generateKeyPair = (\<lambda>_ _ _ _ t. (Inr (6, 7), t)),
       pm_deriveKey = (\<lambda>_ _ _ _ _ t. (Inr 8, t)), pm_encrypt = (\<lambda>_ _ _ _ bs t. (Inr (1 # bs), t)),
       pm_decrypt = (\<lambda>_ _ _ _ bs t. (Inr (tl bs), t)), pm_sign = (\<lambda>_ _ _ _ bs t. (Inr bs, t)) \<rparr>"

definition plain_slot :: slot_state where
  "plain_slot = newSlotState 0 [ckm CkmRsaPkcsKeyPairGen, ckm CkmAesGcm] 1"

definition plain_sessions :: "unit session_service" where
  "plain_sessions =
     \<lparr> ss_open = (\<lambda>t. (Inr (plain_slot, 4), t)), ss_login = (\<lambda>_ t. (Inr (), t)), ss_release = (\<lambda>_ _ t. t),
       ss_resetLogin = id \<rparr>"

definition plain_options :: resolved_options where
  "plain_options =
     \<lparr> ro_modulePath = js ''m'', ro_tokenLabel = js ''t'', ro_slotId = None, ro_keyUri = [], ro_maxSessions = 1, ro_pin = True,
       ro_allowSecretExtraction = True, ro_deactivateDestroys = False, ro_rotateDisablesPrevious = False,
       ro_module = False \<rparr>"

definition plain_provider :: "(unit, bytes) provider" where
  "plain_provider =
     \<lparr> pr_options = plain_options, pr_module = plain_module, pr_sessions = plain_sessions, pr_local = plain_local \<rparr>"

definition plain_world :: "unit world" where "plain_world = \<lparr> w_token = (), w_calls = [] \<rparr>"

text \<open>A software provider that can only hash.\<close>

definition hash_only :: "bytes local_provider" where
  "hash_only = plain_local\<lparr>lp_crypto := plain_crypto\<lparr>wc_importKey := (\<lambda>_ _ _ _. Inl [])\<rparr>\<rparr>"

theorem no_software_fallback_witness:
  "encryptAES (plain_provider\<lparr>pr_local := hash_only\<rparr>) twelve (js ''pkcs11:object=k'') (js ''hi'') None Quiet =
   encryptAES plain_provider twelve (js ''pkcs11:object=k'') (js ''hi'') None Quiet"
proof -
  have "isKeyUri (js ''pkcs11:object=k'')" by code_simp
  then have "routesToToken plain_provider (js ''pkcs11:object=k'')" by (simp add: routesToToken_def)
  then show ?thesis
    using no_software_fallback [of plain_provider "js ''pkcs11:object=k''" hash_only]
    by (simp add: hash_only_def plain_provider_def plain_local_def)
qed

definition dead_failure :: failure where
  "dead_failure = TokenFailure (TokenError [] 0 (js ''CKR_SESSION_CLOSED''))"

theorem session_discipline_witness:
  "\<exists>cs. w_calls (snd (withSession plain_sessions (\<lambda>_ _. settled (Inl dead_failure) :: (unit world, unit) operation) plain_world)) =
     [SessionAcquired 4] @ cs @ [SessionReleased 4 (Some (Some (js ''CKR_SESSION_CLOSED''))), LoginReset]"
proof -
  let ?f = "\<lambda>_ _. settled (Inl dead_failure) :: (unit world, unit) operation"
  have "fst (withSession plain_sessions ?f plain_world) = Inl dead_failure"
    by (simp add: withSession_def plain_sessions_def session_login_def operation_defs Let_def)
  moreover have "failure_ckr dead_failure = Some (js ''CKR_SESSION_CLOSED'')" by (simp add: dead_failure_def)
  moreover have "ss_open plain_sessions (w_token plain_world) = (Inr (plain_slot, 4), w_token plain_world)"
    by (simp add: plain_sessions_def)
  ultimately show ?thesis
    using session_discipline [of ?f plain_sessions plain_world] all_calls.appends_settled
    by (auto simp: sessionIsDead_def plain_world_def)
qed

theorem rotation_defaults_rsa_size_witness:
  "\<exists>pub priv cs. w_calls (snd (generateReplacement plain_provider plain_slot 4
       [ulongAttribute (cka CkaKeyType) 0, bytesAttribute (cka CkaModulus) (replicate 512 255)] (js ''k'') [1] plain_world)) =
     GenerateKeyPair 0 pub priv # cs \<and> ulongAttribute (cka CkaModulusBits) 2048 \<in> set pub"
proof -
  let ?as = "[ulongAttribute (cka CkaKeyType) 0, bytesAttribute (cka CkaModulus) (replicate 512 255)]"
  have "findAttribute ?as (cka CkaKeyType) = Some (le_bytes 8 (key_type_code CkkRsa))"
    "findAttribute ?as (cka CkaModulusBits) = None"
    by (simp_all add: findAttribute_def ulongAttribute_def bytesAttribute_def)
  moreover have "supports plain_slot (ckm CkmRsaPkcsKeyPairGen)"
    by (simp add: supports_def plain_slot_def newSlotState_def)
  ultimately show ?thesis
    using rotation_defaults_rsa_size [of ?as plain_slot plain_provider 4 "js ''k''" "[1]" plain_world]
    by (auto simp: plain_world_def)
qed

end
