(* ===== verification/Logger_Values.thy ===== *)
theory Logger_Values
  imports Json_Round_Trip "HOL-Library.List_Lexorder"
begin

text \<open>
  The values a log record is made of, its severities and its latencies: logger/common/enums.ts,
  logger/formatter/latency.ts and what JavaScript does with a value (truth, text, JSON).

  Log records are plain objects of any shape: a redacted field may hold a string where the type says
  otherwise, so an entry is modelled as the object it is, not as a record of typed fields.  Functions,
  symbols, class instances other than \<^verbatim>\<open>Headers\<close> and cyclic objects are outside the value type.
\<close>

section \<open>Values\<close>

datatype lnum = Finite rat | NotANumber | Infinite bool

datatype lval =
    LUndef
  | LNull
  | LBool bool
  | LNum lnum
  | LStr jstr
  | LArr "lval list"
  | LObj "(jstr \<times> lval) list"
  | LHeaders "(jstr \<times> jstr) list"

type_synonym lobj = "(jstr \<times> lval) list"

abbreviation number :: "rat \<Rightarrow> lval" where "number r \<equiv> LNum (Finite r)"
abbreviation ltext :: "string \<Rightarrow> lval" where "ltext s \<equiv> LStr (js s)"

definition get :: "lobj \<Rightarrow> jstr \<Rightarrow> lval" where
  "get ob k = (case map_of ob k of None \<Rightarrow> LUndef | Some v \<Rightarrow> v)"

definition set_prop :: "jstr \<Rightarrow> lval \<Rightarrow> lobj \<Rightarrow> lobj" where
  "set_prop k v ob = AList.update k v ob"

definition nullish :: "lval \<Rightarrow> bool" where
  "nullish v \<longleftrightarrow> v = LUndef \<or> v = LNull"

text \<open>\<^verbatim>\<open>v ?? d\<close>\<close>

definition default :: "lval \<Rightarrow> lval \<Rightarrow> lval" where
  "default v d = (if nullish v then d else v)"

fun truthy_value :: "lval \<Rightarrow> bool" where
  "truthy_value LUndef = False"
| "truthy_value LNull = False"
| "truthy_value (LBool b) = b"
| "truthy_value (LNum n) = (n \<noteq> Finite 0 \<and> n \<noteq> NotANumber)"
| "truthy_value (LStr s) = (s \<noteq> [])"
| "truthy_value _ = True"

fun lnum_text :: "lnum \<Rightarrow> jstr" where
  "lnum_text (Finite r) = number_text r"
| "lnum_text NotANumber = js ''NaN''"
| "lnum_text (Infinite p) = (if p then js ''Infinity'' else js ''-Infinity'')"

text \<open>\<^verbatim>\<open>String(v)\<close>, which a template literal applies to its parts.\<close>

fun text_of :: "lval \<Rightarrow> jstr" where
  "text_of LUndef = js ''undefined''"
| "text_of LNull = js ''null''"
| "text_of (LBool b) = bool_text b"
| "text_of (LNum n) = lnum_text n"
| "text_of (LStr s) = s"
| "text_of (LArr vs) = join [44] (map (\<lambda>v. if nullish v then [] else text_of v) vs)"
| "text_of (LObj ob) = js ''[object Object]''"
| "text_of (LHeaders hs) = js ''[object Headers]''"

text \<open>What \<^verbatim>\<open>JSON.stringify\<close> sees of a value: a number that is not finite is null, headers have no own properties.\<close>

fun plain :: "lval \<Rightarrow> jval" where
  "plain LUndef = JUndef"
| "plain LNull = JNull"
| "plain (LBool b) = JBool b"
| "plain (LNum n) = (case n of Finite r \<Rightarrow> JNum r | _ \<Rightarrow> JNull)"
| "plain (LStr s) = JStr s"
| "plain (LArr vs) = JArr (map plain vs)"
| "plain (LObj ob) = JObj (map (\<lambda>(k, v). (k, plain v)) ob)"
| "plain (LHeaders hs) = JObj []"

text \<open>The value \<^verbatim>\<open>JSON.parse\<close> returns.\<close>

fun parsed :: "jval \<Rightarrow> lval" where
  "parsed JUndef = LUndef"
| "parsed JNull = LNull"
| "parsed (JBool b) = LBool b"
| "parsed (JNum r) = number r"
| "parsed (JStr s) = LStr s"
| "parsed (JArr vs) = LArr (map parsed vs)"
| "parsed (JObj ob) = LObj (map (\<lambda>(k, v). (k, parsed v)) ob)"

lemma plain_parsed [simp]: "plain (parsed v) = v"
proof (induction v)
  case (JArr vs)
  then show ?case by (simp add: map_idI)
next
  case (JObj ob)
  then show ?case by (force simp: case_prod_unfold intro!: map_idI)
qed simp_all

definition stringify :: "lval \<Rightarrow> jstr" where
  "stringify v = json_print (plain v)"

definition parse_json :: "jstr \<Rightarrow> lval option" where
  "parse_json s = map_option parsed (json_parse s)"

lemma parse_stringify: "json_plain (plain v) \<Longrightarrow> parse_json (stringify v) = Some (parsed (plain v))"
  by (simp add: parse_json_def stringify_def json_round_trip)

lemma get_set [simp]: "get (set_prop k v ob) j = (if j = k then v else get ob j)"
  by (simp add: get_def set_prop_def update_conv)

lemma get_append: "get (ob @ ob') k = (if k \<in> fst ` set ob then get ob k else get ob' k)"
proof (cases "map_of ob k")
  case None
  then have "k \<notin> fst ` set ob" by (simp add: map_of_eq_None_iff)
  then show ?thesis by (simp add: get_def map_add_def None)
next
  case (Some v)
  then have "k \<in> fst ` set ob" by (metis map_of_eq_None_iff option.distinct(1))
  then show ?thesis using Some by (auto simp: get_def map_add_def split: option.splits)
qed

section \<open>Latency\<close>

text \<open>\<^verbatim>\<open>Math.round\<close> rounds halves up.\<close>

fun normalizeLatency :: "lval \<Rightarrow> lval" where
  "normalizeLatency (LNum (Finite r)) = (if r \<le> 0 then number 0 else number (of_int \<lfloor>r + 1 / 2\<rfloor>))"
| "normalizeLatency _ = number 0"

fun normalizeProcessLatency :: "lval \<Rightarrow> lval" where
  "normalizeProcessLatency (LObj ob) =
     (if js ''latency'' \<in> fst ` set ob
      then LObj (set_prop (js ''latency'') (normalizeLatency (get ob (js ''latency''))) ob) else LObj ob)"
| "normalizeProcessLatency v = v"

fun_cases normalizeLatencyE: "normalizeLatency v = w"

lemma latency_whole: "\<exists>n. normalizeLatency v = number (of_int n) \<and> 0 \<le> n"
proof (cases "\<exists>r. v = number r \<and> 0 < r")
  case True
  then obtain r where "v = number r" "0 < r" by blast
  then show ?thesis by (intro exI [of _ "\<lfloor>r + 1 / 2\<rfloor>"]) simp
next
  case False
  then have "normalizeLatency v = number (of_int 0)"
    by (cases v rule: normalizeLatency.cases) auto
  then show ?thesis by blast
qed

lemma latency_idem [simp]: "normalizeLatency (normalizeLatency v) = normalizeLatency v"
proof -
  obtain n :: int where n: "normalizeLatency v = number (of_int n)" "0 \<le> n" using latency_whole by blast
  have "\<lfloor>of_int n + 1 / 2 :: rat\<rfloor> = n" by linarith
  then show ?thesis using n by simp
qed

section \<open>Severities\<close>

datatype log_level = LevelDebug | LevelInfo | LevelWarn | LevelError

fun level_code :: "log_level \<Rightarrow> int" where
  "level_code LevelDebug = -4"
| "level_code LevelInfo = 0"
| "level_code LevelWarn = 4"
| "level_code LevelError = 8"

lemma level_code_inject: "level_code a = level_code b \<longleftrightarrow> a = b"
  by (cases a; cases b) simp_all

text \<open>Levels are compared as their numbers.\<close>

instantiation log_level :: linorder
begin

definition less_eq_log_level :: "log_level \<Rightarrow> log_level \<Rightarrow> bool" where
  "a \<le> b \<longleftrightarrow> level_code a \<le> level_code b"

definition less_log_level :: "log_level \<Rightarrow> log_level \<Rightarrow> bool" where
  "a < b \<longleftrightarrow> level_code a < level_code b"

instance
  by standard (auto simp: less_eq_log_level_def less_log_level_def level_code_inject [symmetric])

end

fun levelName :: "log_level \<Rightarrow> jstr" where
  "levelName LevelDebug = js ''DEBUG''"
| "levelName LevelWarn = js ''WARN''"
| "levelName LevelError = js ''ERROR''"
| "levelName LevelInfo = js ''INFO''"

definition parseLevel :: "jstr \<Rightarrow> log_level" where
  "parseLevel s =
     (let n = lower (trim s)
      in if n = js ''debug'' then LevelDebug
         else if n = js ''warn'' \<or> n = js ''warning'' then LevelWarn
         else if n = js ''error'' then LevelError
         else LevelInfo)"

lemma parse_level_name: "parseLevel (levelName l) = l"
proof -
  have "list_all (\<lambda>l. parseLevel (levelName l) = l) [LevelDebug, LevelInfo, LevelWarn, LevelError]" by code_simp
  then show ?thesis by (cases l) simp_all
qed

end
