(* ===== verification/Logger_Format.thy ===== *)
theory Logger_Format
  imports Logger_Values
begin

text \<open>
  Rendering log entries: the JSON and text layouts, the marshalling they share and the timestamps of
  logger/formatter/format.ts.  Templates are in theory Logger_Template.

  The conditional assignments of the code (\<^verbatim>\<open>if (d.client) out.client = d.client\<close>) are tables of slots: each
  slot has a name, a normalisation of the value it reads and a test that keeps it.
\<close>

datatype log_failure = TypeError | TemplateError jstr

section \<open>Slots\<close>

datatype slot = Slot (slot_name: jstr) (slot_norm: "lval \<Rightarrow> lval") (slot_keep: "lval \<Rightarrow> bool")

text \<open>\<^verbatim>\<open>out.k = v.k ?? ""\<close>, \<^verbatim>\<open>if (v.k) out.k = v.k\<close> and \<^verbatim>\<open>if (v.k != null) out.k = v.k\<close>\<close>

definition required :: "string \<Rightarrow> slot" where
  "required k = Slot (js k) (\<lambda>v. default v (LStr [])) (\<lambda>_. True)"

definition optional :: "string \<Rightarrow> slot" where
  "optional k = Slot (js k) (\<lambda>v. v) truthy_value"

definition present :: "string \<Rightarrow> slot" where
  "present k = Slot (js k) (\<lambda>v. v) (\<lambda>v. \<not> nullish v)"

definition fill_slot :: "(jstr \<Rightarrow> lval) \<Rightarrow> slot \<Rightarrow> lobj" where
  "fill_slot f s = (let v = slot_norm s (f (slot_name s)) in if slot_keep s v then [(slot_name s, v)] else [])"

definition fill :: "slot list \<Rightarrow> (jstr \<Rightarrow> lval) \<Rightarrow> lobj" where
  "fill slots f = concat (map (fill_slot f) slots)"

text \<open>A property of a value that is not null, and its own entries; strings and arrays have their elements.\<close>

fun field :: "lval \<Rightarrow> jstr \<Rightarrow> lval" where
  "field (LObj ob) k = get ob k"
| "field v k = LUndef"

definition indexed :: "lval list \<Rightarrow> lobj" where
  "indexed vs = zip (map (\<lambda>i. int_text (int i)) [0..<length vs]) vs"

fun entries_of :: "lval \<Rightarrow> lobj" where
  "entries_of (LObj ob) = ob"
| "entries_of (LArr vs) = indexed vs"
| "entries_of (LStr s) = indexed (map (\<lambda>c. LStr [c]) s)"
| "entries_of v = []"

definition has_entries :: "lval \<Rightarrow> bool" where
  "has_entries v \<longleftrightarrow> truthy_value v \<and> entries_of v \<noteq> []"

section \<open>Marshalling\<close>

definition DETAIL_SLOTS :: "jstr list" where
  "DETAIL_SLOTS = map js [''system'', ''client'', ''protocol'', ''method'', ''path'', ''headers'', ''request'', ''response'']"

definition detailExtras :: "lval \<Rightarrow> lobj" where
  "detailExtras d = filter (\<lambda>(k, v). k \<notin> set DETAIL_SLOTS) (entries_of d)"

definition detail_table :: "slot list" where
  "detail_table =
     [required ''system'', optional ''client'', optional ''protocol'', optional ''method'', optional ''path'',
      Slot (js ''headers'') (\<lambda>v. v) has_entries, present ''request'', present ''response'']"

definition marshalDetails :: "lval \<Rightarrow> lobj" where
  "marshalDetails d = fold (\<lambda>(k, v). set_prop k v) (detailExtras d) (fill detail_table (field d))"

definition process_table :: "slot list" where
  "process_table =
     [optional ''traceID'', optional ''spanID'', required ''system'', required ''process'', optional ''server'',
      present ''headers'', optional ''protocol'', optional ''method'', optional ''code'', optional ''path'',
      present ''request'', present ''response'', required ''status'',
      Slot (js ''latency'') normalizeLatency (\<lambda>_. True)]"

definition marshalProcess :: "lval \<Rightarrow> log_failure + lval" where
  "marshalProcess s = (if nullish s then Inl TypeError else Inr (LObj (fill process_table (field s))))"

definition no_details :: lval where "no_details = LObj [(js ''system'', LStr [])]"

definition entry_head :: "slot list" where
  "entry_head =
     [required ''level'', required ''timestamp'', required ''traceID'', optional ''spanID'', required ''message'',
      Slot (js ''details'') (\<lambda>d. LObj (marshalDetails (default d no_details))) (\<lambda>_. True)]"

definition entry_tail :: "slot list" where
  "entry_tail =
     [required ''method'', Slot (js ''line'') (\<lambda>v. default v (number 0)) (\<lambda>_. True),
      Slot (js ''latency'') normalizeLatency (\<lambda>_. True)]"

text \<open>The process of a normalised entry is an array.\<close>

definition entry_process :: "lobj \<Rightarrow> lval list" where
  "entry_process entry = (case get entry (js ''process'') of LArr vs \<Rightarrow> vs | _ \<Rightarrow> [])"

definition marshalEntry :: "lobj \<Rightarrow> log_failure + jstr" where
  "marshalEntry entry =
     and_then (map_results marshalProcess (entry_process entry)) (\<lambda>items.
       Inr (stringify (LObj (fill entry_head (get entry) @
         (if items = [] then [] else [(js ''process'', LArr items)]) @ fill entry_tail (get entry)))))"

text \<open>\<^verbatim>\<open>(log.process ?? []).map(...)\<close> needs an array.\<close>

definition normalizeLog :: "lobj \<Rightarrow> log_failure + lobj" where
  "normalizeLog entry =
     (case default (get entry (js ''process'')) (LArr []) of
        LArr vs \<Rightarrow>
          Inr (set_prop (js ''process'') (LArr (map normalizeProcessLatency vs))
            (set_prop (js ''latency'') (normalizeLatency (get entry (js ''latency''))) entry))
      | _ \<Rightarrow> Inl TypeError)"

definition formatJSON :: "lobj \<Rightarrow> log_failure + jstr" where
  "formatJSON entry = and_then (normalizeLog entry) marshalEntry"

section \<open>Text\<close>

definition toJSON :: "lval \<Rightarrow> jstr" where
  "toJSON v = (if nullish v then [] else stringify v)"

definition textValue :: "lval \<Rightarrow> jstr" where
  "textValue v = (if nullish v then [] else case v of LStr s \<Rightarrow> s | _ \<Rightarrow> toJSON v)"

definition labelled :: "string \<Rightarrow> bool \<Rightarrow> jstr \<Rightarrow> jstr list" where
  "labelled k b t = (if b then [js k @ js ''='' @ t] else [])"

definition plain_text :: "lval \<Rightarrow> string \<Rightarrow> jstr list" where
  "plain_text d k = labelled k (truthy_value (field d (js k))) (text_of (field d (js k)))"

definition json_text :: "lval \<Rightarrow> string \<Rightarrow> jstr list" where
  "json_text d k = labelled k (\<not> nullish (field d (js k))) (toJSON (field d (js k)))"

definition details_text :: "lval \<Rightarrow> jstr list" where
  "details_text d =
     concat (map (plain_text d) [''system'', ''client'', ''protocol'', ''method'', ''path'']) @
     labelled ''headers'' (has_entries (field d (js ''headers''))) (toJSON (field d (js ''headers''))) @
     concat (map (json_text d) [''request'', ''response'']) @
     map (\<lambda>(k, v). k @ js ''='' @ textValue v) (detailExtras d)"

definition process_text :: "lval \<Rightarrow> log_failure + jstr" where
  "process_text s =
     (if nullish s then Inl TypeError
      else Inr (js ''{'' @ join (js '', '')
        (concat (map (plain_text s)
           [''traceID'', ''spanID'', ''system'', ''process'', ''server'', ''protocol'', ''method'', ''path'', ''code'']) @
         concat (map (json_text s) [''request'', ''response'']) @
         plain_text s ''status'' @
         labelled ''latency'' (truthy_value (field s (js ''latency'')))
           (text_of (field s (js ''latency'')) @ js ''ms'')) @ js ''}''))"

definition positive :: "lval \<Rightarrow> bool" where
  "positive v \<longleftrightarrow> (case v of LNum (Finite r) \<Rightarrow> 0 < r | _ \<Rightarrow> False)"

text \<open>The code tests whether there are details to print; that is so exactly when a field is printed.\<close>

definition formatText :: "lobj \<Rightarrow> log_failure + jstr" where
  "formatText raw =
     and_then (normalizeLog raw) (\<lambda>entry.
     and_then (map_results process_text (entry_process entry)) (\<lambda>services.
       (let t = (\<lambda>k. text_of (get entry (js k)));
            details = details_text (default (get entry (js ''details'')) no_details)
        in Inr (js ''['' @ t ''timestamp'' @ js ''] ['' @ t ''level'' @ js ''] ['' @ t ''traceID'' @ js ''] '' @
             t ''method'' @ js '':'' @ t ''line'' @ js '' - '' @ t ''message'' @
             (if positive (get entry (js ''latency'')) then js '' latency='' @ t ''latency'' @ js ''ms'' else []) @
             (if details \<noteq> [] then js '' | details={'' @ join (js '', '') details @ js ''}'' else []) @
             (if services \<noteq> [] then js '' | process=['' @ join (js '', '') services @ js '']'' else [])))))"

section \<open>Timestamps\<close>

record date =
  d_year :: int
  d_month :: nat
  d_date :: int
  d_weekday :: nat
  d_hours :: int
  d_minutes :: int
  d_seconds :: int
  d_millis :: int
  d_offset :: int

definition MONTHS_SHORT :: "jstr list" where
  "MONTHS_SHORT = map js [''Jan'', ''Feb'', ''Mar'', ''Apr'', ''May'', ''Jun'', ''Jul'', ''Aug'', ''Sep'', ''Oct'', ''Nov'', ''Dec'']"

definition MONTHS_LONG :: "jstr list" where
  "MONTHS_LONG = map js [''January'', ''February'', ''March'', ''April'', ''May'', ''June'', ''July'', ''August'',
     ''September'', ''October'', ''November'', ''December'']"

definition DAYS_SHORT :: "jstr list" where
  "DAYS_SHORT = map js [''Sun'', ''Mon'', ''Tue'', ''Wed'', ''Thu'', ''Fri'', ''Sat'']"

definition DAYS_LONG :: "jstr list" where
  "DAYS_LONG = map js [''Sunday'', ''Monday'', ''Tuesday'', ''Wednesday'', ''Thursday'', ''Friday'', ''Saturday'']"

definition pad :: "int \<Rightarrow> nat \<Rightarrow> jstr" where
  "pad v w = replicate (w - length (int_text v)) 48 @ int_text v"

text \<open>\<^verbatim>\<open>d_offset\<close> is \<^verbatim>\<open>getTimezoneOffset()\<close>: minutes west of UTC.\<close>

definition tzOffset :: "date \<Rightarrow> bool \<Rightarrow> jstr" where
  "tzOffset d zulu =
     (let offset = - d_offset d
      in if offset = 0 \<and> zulu then js ''Z''
         else (if offset < 0 then js ''-'' else js ''+'') @ pad (\<bar>offset\<bar> div 60) 2 @ js '':'' @ pad (\<bar>offset\<bar> mod 60) 2)"

definition clock12 :: "int \<Rightarrow> int" where
  "clock12 h = (if h mod 12 = 0 then 12 else h mod 12)"

definition LAYOUT_TOKENS :: "(jstr \<times> (date \<Rightarrow> jstr)) list" where
  "LAYOUT_TOKENS =
     [(js ''2006'', \<lambda>d. pad (d_year d) 4),
      (js ''.000000'', \<lambda>d. js ''.'' @ pad (d_millis d) 3 @ js ''000''),
      (js ''.000'', \<lambda>d. js ''.'' @ pad (d_millis d) 3),
      (js ''January'', \<lambda>d. MONTHS_LONG ! d_month d),
      (js ''Monday'', \<lambda>d. DAYS_LONG ! d_weekday d),
      (js ''Z07:00'', \<lambda>d. tzOffset d True),
      (js ''-07:00'', \<lambda>d. tzOffset d False),
      (js ''Jan'', \<lambda>d. MONTHS_SHORT ! d_month d),
      (js ''Mon'', \<lambda>d. DAYS_SHORT ! d_weekday d),
      (js ''PM'', \<lambda>d. if d_hours d < 12 then js ''AM'' else js ''PM''),
      (js ''pm'', \<lambda>d. if d_hours d < 12 then js ''am'' else js ''pm''),
      (js ''15'', \<lambda>d. pad (d_hours d) 2),
      (js ''06'', \<lambda>d. pad (d_year d mod 100) 2),
      (js ''05'', \<lambda>d. pad (d_seconds d) 2),
      (js ''04'', \<lambda>d. pad (d_minutes d) 2),
      (js ''03'', \<lambda>d. pad (clock12 (d_hours d)) 2),
      (js ''02'', \<lambda>d. pad (d_date d) 2),
      (js ''01'', \<lambda>d. pad (int (d_month d) + 1) 2)]"

text \<open>No token is empty, so the rest of the layout after a token at its head drops one unit less from the tail.\<close>

function formatTimestamp :: "date \<Rightarrow> jstr \<Rightarrow> jstr" where
  "formatTimestamp d [] = []"
| "formatTimestamp d (c # s) =
     (case find (\<lambda>(token, render). starts_with token (c # s)) LAYOUT_TOKENS of
        Some (token, render) \<Rightarrow> render d @ formatTimestamp d (drop (length token - 1) s)
      | None \<Rightarrow> c # formatTimestamp d s)"
  by pat_completeness auto
termination
  by (relation "measure (length \<circ> snd)") auto

declare formatTimestamp.simps [simp del]

definition DEFAULT_FORMAT_DATE :: jstr where
  "DEFAULT_FORMAT_DATE = js ''2006-01-02T15:04:05.000''"

section \<open>Filling slots twice\<close>

definition stable :: "slot \<Rightarrow> bool" where
  "stable s \<longleftrightarrow> (\<forall>v. slot_keep s (slot_norm s v) \<longrightarrow> slot_norm s (slot_norm s v) = slot_norm s v) \<and>
     (slot_keep s (slot_norm s LUndef) \<longrightarrow> (\<forall>v. slot_keep s (slot_norm s v)))"

lemma default_idem [simp]: "default (default v d) d = default v d"
  by (simp add: default_def)

lemma stable_slots: "stable (required k)" "stable (optional k)" "stable (present k)"
  "stable (Slot n normalizeLatency (\<lambda>_. True))" "stable (Slot n (\<lambda>v. v) has_entries)"
  "stable (Slot n (\<lambda>v. default v d) (\<lambda>_. True))"
  by (simp_all add: stable_def required_def optional_def present_def nullish_def has_entries_def)

lemma fill_keys: "fst ` set (fill slots f) \<subseteq> slot_name ` set slots"
  by (auto simp: fill_def fill_slot_def Let_def split: if_splits)

lemma fill_distinct: "distinct (map slot_name slots) \<Longrightarrow> distinct (map fst (fill slots f))"
proof (induction slots)
  case (Cons s slots)
  have "slot_name s \<notin> fst ` set (fill slots f)" using fill_keys [of slots f] Cons.prems by auto
  then show ?case using Cons by (auto simp: fill_def fill_slot_def Let_def)
qed (simp add: fill_def)

lemma fill_Cons: "fill (s # slots) f = fill_slot f s @ fill slots f"
  by (simp add: fill_def)

lemma get_fill:
  assumes "distinct (map slot_name slots)" "s \<in> set slots"
  shows "get (fill slots f) (slot_name s) =
    (let v = slot_norm s (f (slot_name s)) in if slot_keep s v then v else LUndef)"
  using assms
proof (induction slots)
  case (Cons r slots)
  have other: "slot_name r \<notin> fst ` set (fill slots f)" using fill_keys [of slots f] Cons.prems by auto
  show ?case
  proof (cases "s = r")
    case True
    have "get (fill slots f) (slot_name r) = LUndef"
      using other by (simp add: get_def map_of_eq_None_iff [symmetric])
    then show ?thesis using True by (simp add: fill_Cons get_append fill_slot_def Let_def) (simp add: get_def)
  next
    case False
    then have "s \<in> set slots" "slot_name r \<notin> slot_name ` set slots" using Cons.prems by simp_all
    then have "slot_name s \<noteq> slot_name r" by (metis image_eqI)
    then show ?thesis using Cons False by (auto simp: fill_Cons get_append fill_slot_def Let_def)
  qed
qed simp

lemma fill_again:
  assumes "distinct (map slot_name slots)" "list_all stable slots"
    and "\<And>s. s \<in> set slots \<Longrightarrow> g (slot_name s) = get (fill slots f) (slot_name s)"
  shows "fill slots g = fill slots f"
proof -
  have "fill_slot g s = fill_slot f s" if s: "s \<in> set slots" for s
  proof -
    have st: "stable s" using assms(2) s by (simp add: list_all_iff)
    have "g (slot_name s) =
        (let v = slot_norm s (f (slot_name s)) in if slot_keep s v then v else LUndef)"
      using assms(3) [OF s] get_fill [OF assms(1) s, of f] by simp
    then show ?thesis using st unfolding stable_def
      by (auto simp: fill_slot_def Let_def split: if_splits)
  qed
  then show ?thesis by (simp add: fill_def cong: map_cong)
qed

end
