(* ===== verification/Logger_Template.thy ===== *)
theory Logger_Template
  imports Logger_Format
begin

text \<open>
  The template language of logger/formatter/format.ts, a subset of Go's text/template: actions between double
  braces, fields, and the helpers json, buildDetails and buildServices with parenthesised arguments.
  Inherited properties (a helper or a field named like a member of \<^verbatim>\<open>Object.prototype\<close>) are outside the model.
\<close>

section \<open>Helpers\<close>

definition sortKeys :: "lobj \<Rightarrow> lobj" where
  "sortKeys ob = sort_key fst ob"

definition buildDetails :: "lval \<Rightarrow> lval" where
  "buildDetails d = LObj (sortKeys (marshalDetails d))"

definition service_table :: "slot list" where
  "service_table =
     [optional ''traceID'', optional ''spanID'', optional ''system'', optional ''process'', optional ''server'',
      optional ''protocol'', optional ''method'', optional ''path'', optional ''code'',
      present ''request'', present ''response'', optional ''status'',
      Slot (js ''latency'') normalizeLatency positive]"

definition buildService :: "lval \<Rightarrow> log_failure + lval" where
  "buildService s = (if nullish s then Inl TypeError else Inr (LObj (sortKeys (fill service_table (field s)))))"

definition buildServices :: "lval \<Rightarrow> log_failure + lval" where
  "buildServices items =
     (case default items (LArr []) of
        LArr vs \<Rightarrow> and_then (map_results buildService vs) (\<lambda>rows. Inr (LArr rows))
      | _ \<Rightarrow> Inl TypeError)"

section \<open>Fields\<close>

text \<open>The entry itself is told apart from other values: the code compares object identities.\<close>

datatype tval = TheLog | Val lval

fun tval_value :: "lobj \<Rightarrow> tval \<Rightarrow> lval" where
  "tval_value entry TheLog = LObj entry"
| "tval_value entry (Val v) = v"

definition ROOT_ALIASES :: "(jstr \<times> jstr) list" where
  "ROOT_ALIASES = [(js ''Process'', js ''process'')]"

definition KNOWN_ZERO :: lobj where
  "KNOWN_ZERO =
     map (\<lambda>k. (js k, LStr [])) [''Timestamp'', ''TraceID'', ''Level'', ''Message'', ''Method''] @
     [(js ''Line'', number 0), (js ''Latency'', number 0), (js ''Details'', LObj []), (js ''Process'', LArr [])] @
     map (\<lambda>k. (js k, LStr [])) [''System'', ''Client'', ''Protocol'', ''Path''] @
     map (\<lambda>k. (js k, LUndef)) [''Headers'', ''Request'', ''Response''] @
     [(js ''SpanID'', LStr []), (js ''Server'', LStr []), (js ''Code'', number 0), (js ''Status'', LStr [])]"

text \<open>The properties a value has (\<^verbatim>\<open>segment in record\<close>); None where the value is not an object.\<close>

fun record_of :: "lval \<Rightarrow> lobj option" where
  "record_of (LObj ob) = Some ob"
| "record_of (LArr vs) = Some (indexed vs @ [(js ''length'', number (of_nat (length vs)))])"
| "record_of (LHeaders hs) = Some []"
| "record_of v = None"

definition field_error :: "jstr \<Rightarrow> string \<Rightarrow> log_failure" where
  "field_error segment more_text = TemplateError (js ''template: can't evaluate field '' @ segment @ js more_text)"

definition lower_first :: "jstr \<Rightarrow> jstr" where
  "lower_first s = lower (take 1 s) @ drop 1 s"

definition resolve_segment :: "bool \<Rightarrow> lval \<Rightarrow> jstr \<Rightarrow> log_failure + lval" where
  "resolve_segment at_log current segment =
     (case record_of current of
        None \<Rightarrow> Inl (field_error segment '' in non-object value'')
      | Some rec \<Rightarrow>
          if segment \<in> fst ` set rec then Inr (get rec segment)
          else if lower_first segment \<in> fst ` set rec then Inr (get rec (lower_first segment))
          else (case (if at_log then map_of ROOT_ALIASES segment else None) of
              Some alias \<Rightarrow> Inr (get rec alias)
            | None \<Rightarrow>
                if segment \<in> fst ` set KNOWN_ZERO then Inr (get KNOWN_ZERO segment)
                else Inl (field_error segment '''')))"

fun resolve_segments :: "bool \<Rightarrow> lval \<Rightarrow> jstr list \<Rightarrow> log_failure + lval" where
  "resolve_segments at_log current [] = Inr current"
| "resolve_segments at_log current (s # ss) =
     and_then (resolve_segment at_log current s) (\<lambda>v. resolve_segments False v ss)"

definition resolveField :: "jstr \<Rightarrow> lobj \<Rightarrow> log_failure + tval" where
  "resolveField path entry =
     (if path = js ''.'' then Inr TheLog
      else and_then (resolve_segments True (LObj entry) (split_on 46 (drop 1 path))) (\<lambda>v. Inr (Val v)))"

section \<open>Actions\<close>

definition paren_depth :: "16 word \<Rightarrow> int \<Rightarrow> int" where
  "paren_depth c depth = (if c = 40 then depth + 1 else if c = 41 then depth - 1 else depth)"

fun tokens_from :: "jstr \<Rightarrow> jstr \<Rightarrow> int \<Rightarrow> jstr \<Rightarrow> log_failure + jstr list" where
  "tokens_from action current depth [] =
     (if depth \<noteq> 0 then Inl (TemplateError (js ''template: unbalanced parenthesis in '' @ json_quote action))
      else Inr (if current = [] then [] else [current]))"
| "tokens_from action current depth (c # s) =
     (let depth' = paren_depth c depth
      in if depth' < 0 then Inl (TemplateError (js ''template: unbalanced parenthesis in '' @ json_quote action))
         else if c = 32 \<and> depth' = 0 then
           and_then (tokens_from action [] depth' s)
             (\<lambda>ts. Inr (if current = [] then ts else current # ts))
         else tokens_from action (current @ [c]) depth' s)"

definition tokenize :: "jstr \<Rightarrow> log_failure + jstr list" where
  "tokenize action = tokens_from action [] 0 action"

text \<open>The tokens of an action are not longer than it: evaluation of nested arguments ends.\<close>

lemma tokens_from_length:
  "tokens_from action current depth s = Inr ts \<Longrightarrow>
    sum_list (map length ts) \<le> length current + length s"
proof (induction action current depth s arbitrary: ts rule: tokens_from.induct)
  case (2 action current depth c s)
  let ?d = "paren_depth c depth"
  have d: "\<not> ?d < 0" using 2(3) by (auto simp: Let_def split: if_splits)
  show ?case
  proof (cases "c = 32 \<and> ?d = 0")
    case True
    then obtain us where us: "tokens_from action [] ?d s = Inr us" "ts = (if current = [] then us else current # us)"
      using 2(3) d by (auto simp: Let_def)
    then show ?thesis using 2(1) [OF refl d True us(1)] by simp
  next
    case False
    then have "tokens_from action (current @ [c]) ?d s = Inr ts"
      using 2(3) by (simp only: tokens_from.simps Let_def if_not_P [OF d] if_not_P [OF False] if_False)
    then show ?thesis using 2(2) [OF refl d False] by fastforce
  qed
qed (auto split: if_splits)

lemma tokenize_length: "tokenize action = Inr ts \<Longrightarrow> sum_list (map length ts) \<le> length action"
  unfolding tokenize_def by (drule tokens_from_length) simp

datatype helper = JsonHelper | BuildDetails | BuildServices

definition TEMPLATE_FUNCS :: "(jstr \<times> helper) list" where
  "TEMPLATE_FUNCS = [(js ''json'', JsonHelper), (js ''buildDetails'', BuildDetails), (js ''buildServices'', BuildServices)]"

fun apply_helper :: "helper \<Rightarrow> tval \<Rightarrow> lobj \<Rightarrow> log_failure + tval" where
  "apply_helper JsonHelper TheLog entry = and_then (marshalEntry entry) (\<lambda>s. Inr (Val (LStr s)))"
| "apply_helper JsonHelper (Val v) entry = Inr (Val (LStr (toJSON v)))"
| "apply_helper BuildDetails v entry = Inr (Val (buildDetails (default (tval_value entry v) no_details)))"
| "apply_helper BuildServices v entry =
     and_then (buildServices (default (tval_value entry v) (LArr []))) (\<lambda>w. Inr (Val w))"

definition parenthesised :: "jstr \<Rightarrow> bool" where
  "parenthesised arg \<longleftrightarrow> starts_with (js ''('') arg \<and> ends_with (js '')'') arg"

definition inner :: "jstr \<Rightarrow> jstr" where
  "inner arg = trim (drop 1 (butlast arg))"

lemma trim_length: "length (trim s) \<le> length s"
proof -
  have e: "length (trim_end s) \<le> length s" for s
    unfolding trim_end_def by (metis length_dropWhile_le length_rev)
  have "length (trim s) \<le> length (trim_start s)" using e [of "trim_start s"] by (simp add: trim_def)
  also have "\<dots> \<le> length s" by (simp add: trim_start_def length_dropWhile_le)
  finally show ?thesis .
qed

lemma inner_length: "parenthesised arg \<Longrightarrow> length (inner arg) < length arg"
  using trim_length [of "drop 1 (butlast arg)"]
  by (cases arg) (auto simp: parenthesised_def inner_def starts_with_def js_def)

text \<open>\<^verbatim>\<open>evalTokens\<close> and \<^verbatim>\<open>evalArg\<close>; an argument in parentheses is the same again.\<close>

function evalTokens :: "jstr list \<Rightarrow> lobj \<Rightarrow> log_failure + tval" where
  "evalTokens [] entry = Inl TypeError"
| "evalTokens (head # args) entry =
     (if starts_with (js ''.'') head then
        (if args \<noteq> [] then Inl (TemplateError (js ''template: unexpected arguments after '' @ head))
         else resolveField head entry)
      else (case map_of TEMPLATE_FUNCS head of
          None \<Rightarrow> Inl (TemplateError (js ''template: function '' @ json_quote head @ js '' not defined''))
        | Some fn \<Rightarrow>
            (case args of
               [arg] \<Rightarrow>
                 and_then
                   (if parenthesised arg then
                      (case tokenize (inner arg) of Inl e \<Rightarrow> Inl e | Inr ts \<Rightarrow> evalTokens ts entry)
                    else if starts_with (js ''.'') arg then resolveField arg entry
                    else Inl (TemplateError (js ''template: unexpected argument '' @ json_quote arg)))
                   (\<lambda>v. apply_helper fn v entry)
             | _ \<Rightarrow> Inl (TemplateError (js ''template: '' @ head @ js '' expects exactly one argument'')))))"
  by pat_completeness auto
termination
proof (relation "measure (\<lambda>(ts, entry). sum_list (map length ts))")
  fix head args entry fn arg rest ts
  assume a: "args = arg # rest" "rest = []" "parenthesised arg" "tokenize (inner arg) = Inr (ts :: jstr list)"
  have "sum_list (map length ts) \<le> length (inner arg)" using a(4) by (rule tokenize_length)
  then show "((ts, entry), head # args, entry) \<in> measure (\<lambda>(ts, entry). sum_list (map length ts))"
    using inner_length [OF a(3)] a(1) by simp
qed simp

declare evalTokens.simps [simp del]

definition evalAction :: "jstr \<Rightarrow> lobj \<Rightarrow> log_failure + tval" where
  "evalAction action entry =
     and_then (tokenize action) (\<lambda>ts.
       if ts = [] then Inl (TemplateError (js ''template: empty action'')) else evalTokens ts entry)"

section \<open>Templates\<close>

fun stringifyResult :: "lobj \<Rightarrow> tval \<Rightarrow> jstr" where
  "stringifyResult entry TheLog = toJSON (LObj entry)"
| "stringifyResult entry (Val v) =
     (if nullish v then [] else case v of
        LStr s \<Rightarrow> s | LObj _ \<Rightarrow> toJSON v | LArr _ \<Rightarrow> toJSON v | LHeaders _ \<Rightarrow> toJSON v | _ \<Rightarrow> text_of v)"

text \<open>The text before and after the first occurrence of a mark.\<close>

fun cut :: "jstr \<Rightarrow> jstr \<Rightarrow> (jstr \<times> jstr) option" where
  "cut p [] = (if p = [] then Some ([], []) else None)"
| "cut p (c # s) =
     (if starts_with p (c # s) then Some ([], drop (length p) (c # s)) else map_option (apfst ((#) c)) (cut p s))"

lemma cut_split: "cut p s = Some (a, b) \<Longrightarrow> s = a @ p @ b"
proof (induction s arbitrary: a)
  case (Cons c s)
  show ?case
  proof (cases "starts_with p (c # s)")
    case True
    then have "c # s = p @ drop (length p) (c # s)" by (metis append_take_drop_id starts_with_def)
    then show ?thesis using Cons.prems True by simp
  qed (use Cons in auto)
qed (auto split: if_splits)

definition OPEN :: jstr where "OPEN = js ''{{''"
definition CLOSE :: jstr where "CLOSE = js ''}}''"

function renderTemplate :: "jstr \<Rightarrow> jstr \<Rightarrow> lobj \<Rightarrow> log_failure + jstr" where
  "renderTemplate tpl s entry =
     (case cut OPEN s of
        None \<Rightarrow> Inr s
      | Some (before, r) \<Rightarrow>
          (case cut CLOSE r of
             None \<Rightarrow> Inl (TemplateError (js ''template: unclosed action in '' @ json_quote tpl))
           | Some (action, t) \<Rightarrow>
               and_then (evalAction (trim action) entry) (\<lambda>v.
               and_then (renderTemplate tpl t entry) (\<lambda>u.
                 Inr (before @ stringifyResult entry v @ u)))))"
  by pat_completeness auto
termination
  by (relation "measure (\<lambda>(tpl, s, entry). length s)")
    (auto dest!: cut_split simp: OPEN_def CLOSE_def)

declare renderTemplate.simps [simp del]

definition string_field :: "lobj \<Rightarrow> jstr \<Rightarrow> lval" where
  "string_field p k = (case get p k of LStr s \<Rightarrow> LStr s | _ \<Rightarrow> LStr [])"

definition coerceEntry :: "lobj \<Rightarrow> lobj" where
  "coerceEntry p =
     [(js ''level'', string_field p (js ''level'')), (js ''timestamp'', string_field p (js ''timestamp'')),
      (js ''traceID'', string_field p (js ''traceID''))] @
     (if string_field p (js ''spanID'') \<noteq> LStr [] then [(js ''spanID'', get p (js ''spanID''))] else []) @
     [(js ''message'', string_field p (js ''message'')),
      (js ''details'', case get p (js ''details'') of LObj ob \<Rightarrow> LObj ob | _ \<Rightarrow> no_details),
      (js ''process'', case get p (js ''process'') of LArr vs \<Rightarrow> LArr vs | _ \<Rightarrow> LArr []),
      (js ''method'', string_field p (js ''method'')),
      (js ''line'', case get p (js ''line'') of LNum n \<Rightarrow> LNum n | _ \<Rightarrow> number 0),
      (js ''latency'', normalizeLatency (get p (js ''latency'')))]"

definition executeTemplate :: "jstr \<Rightarrow> lobj \<Rightarrow> log_failure + jstr" where
  "executeTemplate tpl entry =
     and_then (renderTemplate tpl tpl entry) (\<lambda>out.
       (let rendered = trim out
        in case parse_json rendered of
             Some (LObj p) \<Rightarrow>
               (case marshalEntry (coerceEntry p) of Inr s \<Rightarrow> Inr s | Inl _ \<Rightarrow> Inr rendered)
           | _ \<Rightarrow> Inr rendered))"

definition formatTemplate :: "jstr \<Rightarrow> lobj \<Rightarrow> log_failure + jstr" where
  "formatTemplate tpl entry = and_then (normalizeLog entry) (executeTemplate tpl)"

definition format_entry :: "jstr \<Rightarrow> lobj \<Rightarrow> log_failure + jstr" where
  "format_entry tpl entry =
     (let t = lower (trim tpl)
      in if t = js ''json'' then formatJSON entry
         else if t = js ''text'' \<or> t = js ''txt'' \<or> t = [] then formatText entry
         else formatTemplate tpl entry)"

end
