(* ===== verification/Logger_Json_Template.thy ===== *)
theory Logger_Json_Template
  imports Logger_Template
begin

text \<open>
  JSON output is canonical: marshalling is idempotent on entries of JSON data, so the template of the whole
  entry, whose output is parsed, coerced and marshalled again, prints what the JSON layout prints.
\<close>

section \<open>JSON data\<close>

text \<open>Values that survive JSON: finite whole numbers below the exponent range, no undefined, no headers.\<close>

fun data :: "lval \<Rightarrow> bool" where
  "data LUndef = False"
| "data LNull = True"
| "data (LBool b) = True"
| "data (LNum n) = (case n of Finite r \<Rightarrow> rat_is_int r \<and> \<bar>r\<bar> < 10 ^ 21 | _ \<Rightarrow> False)"
| "data (LStr s) = True"
| "data (LArr vs) = list_all data vs"
| "data (LObj ob) = (distinct (map fst ob) \<and> list_all (\<lambda>(k, v). data v) ob)"
| "data (LHeaders hs) = False"

lemma data_plain: "data v \<Longrightarrow> json_plain (plain v) \<and> parsed (plain v) = v"
proof (induction v)
  case (LArr vs)
  then show ?case by (auto simp: list_all_iff intro!: map_idI)
next
  case (LObj ob)
  have ind: "json_plain (plain v) \<and> parsed (plain v) = v" if "(k, v) \<in> set ob" for k v
    using LObj that by (fastforce simp: list_all_iff)
  have "map (fst \<circ> (\<lambda>(k, v). (k, plain v))) ob = map fst ob" by (simp add: comp_def case_prod_unfold)
  then have "distinct (map fst (map (\<lambda>(k, v). (k, plain v)) ob))" using LObj.prems by (simp only: map_map data.simps)
  moreover have "list_all (\<lambda>(k, v). json_plain v) (map (\<lambda>(k, v). (k, plain v)) ob)"
    using ind by (auto simp: list_all_iff)
  moreover have "map (\<lambda>(k, v). (k, parsed v)) (map (\<lambda>(k, v). (k, plain v)) ob) = ob"
    using ind by (auto simp: comp_def case_prod_unfold intro!: map_idI)
  ultimately show ?case using LObj.prems by simp
qed (auto split: lnum.splits)

lemma data_get: "data (LObj ob) \<Longrightarrow> get ob k = LUndef \<or> data (get ob k)"
  by (auto simp: get_def list_all_iff split: option.split dest: map_of_SomeD)

text \<open>Slots that keep data only.\<close>

definition keeps_data :: "slot \<Rightarrow> bool" where
  "keeps_data s \<longleftrightarrow> (\<forall>v. v = LUndef \<or> data v \<longrightarrow> slot_keep s (slot_norm s v) \<longrightarrow> data (slot_norm s v))"

definition small_latency :: "lval \<Rightarrow> bool" where
  "small_latency v \<longleftrightarrow> data (normalizeLatency v)"

lemma latency_data: "v = LUndef \<or> data v \<Longrightarrow> data (normalizeLatency v)"
proof -
  assume v: "v = LUndef \<or> data v"
  show ?thesis
  proof (cases "\<exists>r. v = number r \<and> 0 < r")
    case True
    then obtain r where r: "v = number r" "0 < r" by blast
    then obtain n :: int where n: "r = of_int n" "\<bar>r\<bar> < 10 ^ 21"
      using v by (auto simp: rat_is_int_def)
    have "\<lfloor>of_int n + 1 / 2 :: rat\<rfloor> = n" by linarith
    then show ?thesis using r n by simp
  next
    case False
    then have "normalizeLatency v = number (of_int 0)"
      by (cases v rule: normalizeLatency.cases) auto
    then show ?thesis by (simp del: of_int_0)
  qed
qed

lemma keeps_slots: "keeps_data (required k)" "keeps_data (optional k)" "keeps_data (present k)"
  "keeps_data (Slot n normalizeLatency (\<lambda>_. True))" "keeps_data (Slot n (\<lambda>v. v) has_entries)"
  "keeps_data (Slot n (\<lambda>v. default v (number 0)) (\<lambda>_. True))"
  using latency_data
  by (auto simp: keeps_data_def required_def optional_def present_def default_def nullish_def has_entries_def rat_is_int_def)

lemma fill_data:
  assumes "list_all keeps_data slots" "\<And>s. s \<in> set slots \<Longrightarrow> f (slot_name s) = LUndef \<or> data (f (slot_name s))"
  shows "list_all (\<lambda>(k, v). data v) (fill slots f)"
  using assms
proof (induction slots)
  case (Cons s slots)
  have "keeps_data s" "f (slot_name s) = LUndef \<or> data (f (slot_name s))" using Cons.prems by simp_all
  then have "list_all (\<lambda>(k, v). data v) (fill_slot f s)"
    by (auto simp: keeps_data_def fill_slot_def Let_def)
  then show ?case using Cons by (simp add: fill_Cons)
qed (simp add: fill_def)

lemma slot_names: "slot_name (required k) = js k" "slot_name (optional k) = js k" "slot_name (present k) = js k"
  by (simp_all add: required_def optional_def present_def)

lemma field_data: "data v \<Longrightarrow> field v k = LUndef \<or> data (field v k)"
  using data_get by (cases v) auto

section \<open>Processes\<close>

lemma process_names: "distinct (map slot_name process_table)"
  by (simp add: process_table_def slot_names) (simp add: js_inject)

lemma process_stable: "list_all stable process_table" "list_all keeps_data process_table"
  by (simp_all add: process_table_def stable_slots keeps_slots)

lemma process_data: "data s \<Longrightarrow> marshalProcess s = Inr t \<Longrightarrow> data t"
  using fill_data [OF process_stable(2), of "field s"] fill_distinct [OF process_names, of "field s"] field_data
  by (auto simp: marshalProcess_def split: if_splits)

lemma process_again: "marshalProcess s = Inr t \<Longrightarrow> marshalProcess t = Inr t"
  using fill_again [OF process_names process_stable(1), of "field t" "field s"]
  by (auto simp: marshalProcess_def nullish_def split: if_splits)

lemma processes_again: "map_results marshalProcess vs = Inr ts \<Longrightarrow> map_results marshalProcess ts = Inr ts"
  by (induction vs arbitrary: ts) (auto simp: process_again)

lemma processes_data: "map_results marshalProcess vs = Inr ts \<Longrightarrow> list_all data vs \<Longrightarrow> list_all data ts"
  by (induction vs arbitrary: ts) (auto simp: process_data)

section \<open>Details\<close>

lemma detail_names: "map slot_name detail_table = DETAIL_SLOTS" "distinct DETAIL_SLOTS"
  by (simp_all add: detail_table_def DETAIL_SLOTS_def slot_names) (simp_all add: js_inject)

lemma detail_stable: "list_all stable detail_table" "list_all keeps_data detail_table"
  by (simp_all add: detail_table_def stable_slots keeps_slots)

lemma set_props_new:
  "distinct (map fst (ob @ es)) \<Longrightarrow> fold (\<lambda>(k, v). set_prop k v) es ob = ob @ es"
proof (induction es arbitrary: ob)
  case (Cons e es)
  obtain k v where e: "e = (k, v)" by fastforce
  have "k \<notin> fst ` set ob" using Cons.prems e by auto
  then have "set_prop k v ob = ob @ [(k, v)]"
    by (induction ob) (auto simp: set_prop_def)
  then show ?case using Cons.IH [of "ob @ [(k, v)]"] Cons.prems e by simp
qed simp

lemma details_shape:
  assumes "d = LObj ob" "distinct (map fst ob)"
  shows "marshalDetails d = fill detail_table (field d) @ detailExtras d"
proof -
  have e: "fst ` set (detailExtras d) \<inter> set DETAIL_SLOTS = {}" by (auto simp: detailExtras_def)
  have f: "fst ` set (fill detail_table (field d)) \<subseteq> set DETAIL_SLOTS"
    using fill_keys [of detail_table "field d"] detail_names(1) by (metis list.set_map)
  have "distinct (map fst (fill detail_table (field d)))" using fill_distinct detail_names by metis
  moreover have "distinct (map fst (detailExtras d))"
    using assms by (simp add: detailExtras_def distinct_map_filter)
  ultimately have "distinct (map fst (fill detail_table (field d) @ detailExtras d))" using e f by auto
  then show ?thesis by (simp add: marshalDetails_def set_props_new)
qed

lemma details_again:
  assumes "d = LObj ob" "distinct (map fst ob)"
  shows "marshalDetails (LObj (marshalDetails d)) = marshalDetails d"
proof -
  let ?F = "fill detail_table (field d)" and ?E = "detailExtras d"
  have m: "marshalDetails d = ?F @ ?E" by (rule details_shape [OF assms])
  have e: "fst ` set ?E \<inter> set DETAIL_SLOTS = {}" by (auto simp: detailExtras_def)
  have f: "fst ` set ?F \<subseteq> set DETAIL_SLOTS"
    using fill_keys [of detail_table "field d"] detail_names(1) by (metis list.set_map)
  have "distinct (map fst ?F)" using fill_distinct detail_names by metis
  moreover have "distinct (map fst ?E)" using assms by (simp add: detailExtras_def distinct_map_filter)
  ultimately have dist: "distinct (map fst (?F @ ?E))" using e f by auto
  have "get (?F @ ?E) (slot_name s) = get ?F (slot_name s)" if "s \<in> set detail_table" for s
  proof -
    have "slot_name s \<in> set DETAIL_SLOTS" using that detail_names(1) by (metis image_eqI list.set_map)
    then have "slot_name s \<notin> fst ` set ?E" using e by blast
    then have "map_of ?E (slot_name s) = None" by (simp add: map_of_eq_None_iff)
    then show ?thesis by (auto simp: get_def map_add_def split: option.split)
  qed
  then have "fill detail_table (field (LObj (?F @ ?E))) = ?F"
    using fill_again [of detail_table "field (LObj (?F @ ?E))" "field d"] detail_names detail_stable(1) by simp
  moreover have "detailExtras (LObj (?F @ ?E)) = ?E"
    using f e by (auto simp: detailExtras_def filter_empty_conv)
  ultimately show ?thesis using details_shape [OF refl dist] m by simp
qed

lemma details_data:
  assumes "d = LObj ob" "data d"
  shows "data (LObj (marshalDetails d))"
proof -
  have d: "distinct (map fst ob)" using assms by simp
  have "list_all (\<lambda>(k, v). data v) (fill detail_table (field d))"
    using fill_data [OF detail_stable(2)] field_data [OF assms(2)] by blast
  moreover have "list_all (\<lambda>(k, v). data v) (detailExtras d)"
    using assms by (auto simp: detailExtras_def list_all_iff)
  moreover have "distinct (map fst (marshalDetails d))"
  proof -
    have "fst ` set (detailExtras d) \<inter> set DETAIL_SLOTS = {}" by (auto simp: detailExtras_def)
    moreover have "fst ` set (fill detail_table (field d)) \<subseteq> set DETAIL_SLOTS"
      using fill_keys [of detail_table "field d"] detail_names(1) by (metis list.set_map)
    moreover have "distinct (map fst (fill detail_table (field d)))" using fill_distinct detail_names by metis
    moreover have "distinct (map fst (detailExtras d))" using assms by (simp add: detailExtras_def distinct_map_filter)
    ultimately show ?thesis by (auto simp: details_shape [OF assms(1) d])
  qed
  ultimately show ?thesis by (simp add: details_shape [OF assms(1) d])
qed

section \<open>Entries\<close>

text \<open>An entry whose fields have the types the interface declares, where they are present.\<close>

definition string_or_none :: "lval \<Rightarrow> bool" where
  "string_or_none v \<longleftrightarrow> (case v of LStr s \<Rightarrow> True | LUndef \<Rightarrow> True | LNull \<Rightarrow> True | _ \<Rightarrow> False)"

definition well_typed :: "lobj \<Rightarrow> bool" where
  "well_typed e \<longleftrightarrow> data (LObj e) \<and>
     list_all (\<lambda>k. string_or_none (get e (js k))) [''level'', ''timestamp'', ''traceID'', ''spanID'', ''message'', ''method''] \<and>
     (case get e (js ''line'') of LNum n \<Rightarrow> True | LUndef \<Rightarrow> True | LNull \<Rightarrow> True | _ \<Rightarrow> False) \<and>
     (case get e (js ''details'') of LObj d \<Rightarrow> True | LUndef \<Rightarrow> True | LNull \<Rightarrow> True | _ \<Rightarrow> False)"

lemma string_default: "string_or_none v \<Longrightarrow> \<exists>s. default v (LStr []) = LStr s"
  by (auto simp: string_or_none_def default_def nullish_def split: lval.splits)

lemma data_set: "data (LObj ob) \<Longrightarrow> data v \<Longrightarrow> data (LObj (set_prop k v ob))"
proof -
  assume ob: "data (LObj ob)" and v: "data v"
  have "list_all (\<lambda>(k, v). data v) (AList.update k v ob)" using ob v by (induction ob) auto
  then show ?thesis using ob by (simp add: set_prop_def distinct_update)
qed

text \<open>The object that is printed for an entry whose processes marshal to the given items.\<close>

definition printed_entry :: "lobj \<Rightarrow> lval list \<Rightarrow> lobj" where
  "printed_entry e items =
     fill entry_head (get e) @ (if items = [] then [] else [(js ''process'', LArr items)]) @ fill entry_tail (get e)"

lemma marshal_printed:
  "map_results marshalProcess (entry_process e) = Inr items \<Longrightarrow> marshalEntry e = Inr (stringify (LObj (printed_entry e items)))"
  by (simp add: marshalEntry_def printed_entry_def)

lemma printed_shape:
  assumes "well_typed e"
  obtains lv ts tr ms me l d where
    "printed_entry e items =
      [(js ''level'', LStr lv), (js ''timestamp'', LStr ts), (js ''traceID'', LStr tr)] @
      (if truthy_value (get e (js ''spanID'')) then [(js ''spanID'', get e (js ''spanID''))] else []) @
      [(js ''message'', LStr ms), (js ''details'', LObj (marshalDetails (LObj d)))] @
      (if items = [] then [] else [(js ''process'', LArr items)]) @
      [(js ''method'', LStr me), (js ''line'', LNum l), (js ''latency'', normalizeLatency (get e (js ''latency'')))]"
    "data (LObj d)" "data (LNum l)"
proof -
  have typed: "string_or_none (get e (js k))" if "k \<in> set [''level'', ''timestamp'', ''traceID'', ''message'', ''method'']" for k
    using assms that unfolding well_typed_def list_all_iff by auto
  obtain lv ts tr ms me where str: "default (get e (js ''level'')) (LStr []) = LStr lv"
    "default (get e (js ''timestamp'')) (LStr []) = LStr ts" "default (get e (js ''traceID'')) (LStr []) = LStr tr"
    "default (get e (js ''message'')) (LStr []) = LStr ms" "default (get e (js ''method'')) (LStr []) = LStr me"
    using string_default [OF typed] by (metis list.set_intros)
  have dat: "data (LObj e)" using assms by (simp add: well_typed_def)
  obtain l where l: "default (get e (js ''line'')) (number 0) = LNum l" "data (LNum l)"
    using assms data_get [OF dat, of "js ''line''"]
    by (fastforce simp: well_typed_def default_def nullish_def rat_is_int_def split: lval.splits)
  obtain d where d: "default (get e (js ''details'')) no_details = LObj d" "data (LObj d)"
    using assms data_get [OF dat, of "js ''details''"]
    by (fastforce simp: well_typed_def default_def nullish_def no_details_def split: lval.splits)
  show thesis
    by (rule that [of lv ts tr ms d me l]) (simp_all add: printed_entry_def entry_head_def entry_tail_def fill_def fill_slot_def
      required_def optional_def str l d del: data.simps)
qed

lemma printed_data:
  assumes "well_typed e" "list_all data items"
  shows "data (LObj (printed_entry e items))"
proof -
  have dat: "data (LObj e)" using assms(1) by (simp add: well_typed_def)
  have lat: "data (normalizeLatency (get e (js ''latency'')))" by (rule latency_data [OF data_get [OF dat]])
  have span: "truthy_value (get e (js ''spanID'')) \<Longrightarrow> data (get e (js ''spanID''))"
    using data_get [OF dat, of "js ''spanID''"] by auto
  show ?thesis
  proof (rule printed_shape [OF assms(1), of items])
    fix lv ts tr ms me l d
    assume p: "printed_entry e items =
      [(js ''level'', LStr lv), (js ''timestamp'', LStr ts), (js ''traceID'', LStr tr)] @
      (if truthy_value (get e (js ''spanID'')) then [(js ''spanID'', get e (js ''spanID''))] else []) @
      [(js ''message'', LStr ms), (js ''details'', LObj (marshalDetails (LObj d)))] @
      (if items = [] then [] else [(js ''process'', LArr items)]) @
      [(js ''method'', LStr me), (js ''line'', LNum l), (js ''latency'', normalizeLatency (get e (js ''latency'')))]"
      and d: "data (LObj d)" "data (LNum l)"
    have "distinct (map fst (printed_entry e items))" unfolding p by (simp add: js_inject)
    moreover have "list_all (\<lambda>(k, v). data v) (printed_entry e items)"
      unfolding p using details_data [OF refl d(1)] d(2) lat span assms(2)
      by (simp del: data.simps(7) data.simps(4))
    ultimately show ?thesis by simp
  qed
qed

lemma coerced_again:
  assumes "well_typed e" "map_results marshalProcess items = Inr items"
  shows "marshalEntry (coerceEntry (printed_entry e items)) = Inr (stringify (LObj (printed_entry e items)))"
proof (rule printed_shape [OF assms(1), of items])
  fix lv ts tr ms me l d
  assume p: "printed_entry e items =
      [(js ''level'', LStr lv), (js ''timestamp'', LStr ts), (js ''traceID'', LStr tr)] @
      (if truthy_value (get e (js ''spanID'')) then [(js ''spanID'', get e (js ''spanID''))] else []) @
      [(js ''message'', LStr ms), (js ''details'', LObj (marshalDetails (LObj d)))] @
      (if items = [] then [] else [(js ''process'', LArr items)]) @
      [(js ''method'', LStr me), (js ''line'', LNum l), (js ''latency'', normalizeLatency (get e (js ''latency'')))]"
    and d: "data (LObj d)" "data (LNum l)"
  let ?x = "printed_entry e items" and ?c = "coerceEntry (printed_entry e items)"
  let ?span = "if truthy_value (get e (js ''spanID'')) then [(js ''spanID'', get e (js ''spanID''))] else []"
  have again: "marshalDetails (LObj (marshalDetails (LObj d))) = marshalDetails (LObj d)"
    using details_again [OF refl] d(1) by simp
  have strings: "string_field ?x (js ''level'') = LStr lv" "string_field ?x (js ''timestamp'') = LStr ts"
    "string_field ?x (js ''traceID'') = LStr tr" "string_field ?x (js ''message'') = LStr ms"
    "string_field ?x (js ''method'') = LStr me"
    unfolding p by (simp_all add: string_field_def get_def js_inject)
  have others: "get ?x (js ''details'') = LObj (marshalDetails (LObj d))" "get ?x (js ''line'') = LNum l"
    "get ?x (js ''latency'') = normalizeLatency (get e (js ''latency''))"
    "get ?x (js ''process'') = (if items = [] then LUndef else LArr items)"
    "get ?x (js ''spanID'') = (if truthy_value (get e (js ''spanID'')) then get e (js ''spanID'') else LUndef)"
    unfolding p by (simp_all add: get_def js_inject)
  have span: "string_or_none (get e (js ''spanID''))" using assms(1) by (simp add: well_typed_def)
  have spans: "(if string_field ?x (js ''spanID'') \<noteq> LStr [] then [(js ''spanID'', get ?x (js ''spanID''))] else []) = ?span"
    using span by (cases "get e (js ''spanID'')") (simp_all add: string_field_def others string_or_none_def)
  have c: "?c = [(js ''level'', LStr lv), (js ''timestamp'', LStr ts), (js ''traceID'', LStr tr)] @ ?span @
      [(js ''message'', LStr ms), (js ''details'', LObj (marshalDetails (LObj d))), (js ''process'', LArr items),
       (js ''method'', LStr me), (js ''line'', LNum l), (js ''latency'', normalizeLatency (get e (js ''latency'')))]"
    unfolding coerceEntry_def spans by (simp add: strings others)
  obtain g where g: "?c = g" by blast
  have process: "entry_process g = items"
    unfolding g [symmetric] c by (simp add: entry_process_def get_def js_inject)
  have gets: "get g (js ''level'') = LStr lv" "get g (js ''timestamp'') = LStr ts" "get g (js ''traceID'') = LStr tr"
    "get g (js ''message'') = LStr ms" "get g (js ''method'') = LStr me" "get g (js ''line'') = LNum l"
    "get g (js ''details'') = LObj (marshalDetails (LObj d))"
    "get g (js ''latency'') = normalizeLatency (get e (js ''latency''))"
    "get g (js ''spanID'') = (if truthy_value (get e (js ''spanID'')) then get e (js ''spanID'') else LUndef)"
    unfolding g [symmetric] c by (simp_all add: get_def js_inject)
  have "printed_entry g items = ?x"
    unfolding p unfolding printed_entry_def entry_head_def entry_tail_def fill_def
    by (simp add: fill_slot_def required_def optional_def gets default_def nullish_def again)
  then show ?thesis using marshal_printed [of g items] assms(2) process g by simp
qed

lemma stringify_object: "stringify (LObj ob) = 123 # butlast (tl (stringify (LObj ob))) @ [125]"
  by (simp add: stringify_def)

lemma trim_object: "trim (stringify (LObj ob)) = stringify (LObj ob)"
proof -
  have "trimmed (123 # w @ [125])" for w by (simp add: trimmed_def is_space_def)
  then have "trimmed (stringify (LObj ob))" using stringify_object [of ob] by metis
  then show ?thesis by (rule trimmed_trim)
qed

lemma json_action: "renderTemplate tpl (js ''{{json .}}'') e = and_then (marshalEntry e) (\<lambda>s. Inr s)"
proof -
  have "cut OPEN (js ''{{json .}}'') = Some ([], js ''json .}}'')" "cut CLOSE (js ''json .}}'') = Some (js ''json .'', [])"
    "trim (js ''json .'') = js ''json .''" "tokenize (js ''json .'') = Inr [js ''json'', js ''.'']"
    "map_of TEMPLATE_FUNCS (js ''json'') = Some JsonHelper" "starts_with (js ''.'') (js ''json'') = False"
    "starts_with (js ''.'') (js ''.'') = True" "parenthesised (js ''.'') = False" "cut OPEN [] = None"
    by code_simp+
  then show ?thesis
    by (subst renderTemplate.simps, cases "marshalEntry e")
      (simp_all add: evalAction_def evalTokens.simps resolveField_def renderTemplate.simps [of tpl "[]"] nullish_def)
qed

lemma normalized_typed:
  assumes "well_typed e" "normalizeLog e = Inr n"
  shows "well_typed n \<and> list_all data (entry_process n)"
proof -
  have dat: "data (LObj e)" using assms(1) by (simp add: well_typed_def)
  obtain vs where vs: "default (get e (js ''process'')) (LArr []) = LArr vs" and
    n: "n = set_prop (js ''process'') (LArr (map normalizeProcessLatency vs))
        (set_prop (js ''latency'') (normalizeLatency (get e (js ''latency''))) e)"
    using assms(2) by (auto simp: normalizeLog_def split: lval.splits)
  have "list_all data vs"
    using vs data_get [OF dat, of "js ''process''"] by (auto simp: default_def nullish_def split: if_splits)
  moreover have "data (normalizeProcessLatency v)" if "data v" for v
    using that data_set latency_data data_get by (cases v) (auto simp del: data.simps(7))
  ultimately have items: "list_all data (map normalizeProcessLatency vs)" by (simp add: list_all_iff)
  have "data (LObj n)" unfolding n
    by (intro data_set) (use items dat latency_data [OF data_get [OF dat]] in simp_all)
  moreover have "entry_process n = map normalizeProcessLatency vs" by (simp add: n entry_process_def)
  ultimately show ?thesis using assms(1) items by (simp add: well_typed_def n js_inject)
qed

section \<open>Properties\<close>

text \<open>
  C30: The template of the whole entry is the JSON layout.  For an entry whose fields have their declared types
  and hold JSON data, the template \<open>{{json .}}\<close> prints what the JSON layout prints, although its output is
  parsed, coerced and printed again; and that text parses back to the marshalled entry.
\<close>

theorem json_template_is_json:
  assumes "well_typed e"
  shows "format_entry (js ''{{json .}}'') e = format_entry (js ''json'') e \<and>
    (case format_entry (js ''json'') e of Inl f \<Rightarrow> True
     | Inr s \<Rightarrow> (case parse_json s of Some (LObj ob) \<Rightarrow> marshalEntry (coerceEntry ob) = Inr s | _ \<Rightarrow> False))"
proof -
  have t: "lower (trim (js ''{{json .}}'')) = js ''{{json .}}''" "lower (trim (js ''json'')) = js ''json''" by code_simp+
  have f: "format_entry (js ''{{json .}}'') e = formatTemplate (js ''{{json .}}'') e" "format_entry (js ''json'') e = formatJSON e"
    unfolding format_entry_def t Let_def by (simp_all add: js_inject js_def)
  show ?thesis
  proof (cases "normalizeLog e")
    case (Inr n)
    have n: "well_typed n" "list_all data (entry_process n)" using normalized_typed [OF assms Inr] by simp_all
    show ?thesis
    proof (cases "map_results marshalProcess (entry_process n)")
      case (Inl x)
      then show ?thesis unfolding f formatTemplate_def formatJSON_def executeTemplate_def Inr
        by (simp add: json_action marshalEntry_def)
    next
      case (Inr items)
      let ?x = "printed_entry n items"
      have m: "marshalEntry n = Inr (stringify (LObj ?x))" by (rule marshal_printed [OF Inr])
      have "data (LObj ?x)" by (rule printed_data [OF n(1) processes_data [OF Inr n(2)]])
      then have "parse_json (stringify (LObj ?x)) = Some (LObj ?x)"
        using data_plain parse_stringify by metis
      moreover have "marshalEntry (coerceEntry ?x) = Inr (stringify (LObj ?x))"
        by (rule coerced_again [OF n(1) processes_again [OF Inr]])
      ultimately show ?thesis
        unfolding f formatTemplate_def formatJSON_def executeTemplate_def \<open>normalizeLog e = Inr n\<close>
        by (simp add: json_action m trim_object)
    qed
  qed (simp add: f formatTemplate_def formatJSON_def)
qed

definition sample_entry :: lobj where
  "sample_entry = [(js ''level'', ltext ''INFO''), (js ''message'', ltext ''hi''), (js ''line'', number 7),
     (js ''details'', LObj [(js ''user'', ltext ''ann''), (js ''system'', ltext ''api'')])]"

theorem json_template_is_json_witness:
  "well_typed sample_entry \<and> format_entry (js ''{{json .}}'') sample_entry = format_entry (js ''json'') sample_entry"
proof -
  have "well_typed sample_entry" by code_simp
  then show ?thesis using json_template_is_json [of sample_entry] by simp
qed

end
