(* ===== verification/Logger_Sanitizer.thy ===== *)
theory Logger_Sanitizer
  imports Logger_Values
begin

text \<open>
  Redaction of log values: logger/sanitizer/sanitizer.ts.  A sanitizer is its list of lower-case key
  fragments.  Depth is counted down from the maximum: \<open>redact ks n\<close> is the code at depth \<open>MAX_DEPTH - n\<close>.
  The code copies an object property by property with assignments; a property named \<^verbatim>\<open>__proto__\<close>
  is copied like any other, because Deno removes that accessor from \<^verbatim>\<open>Object.prototype\<close>.  Keys that
  look like array indices are outside the model where a document is parsed: JSON.parse moves them to the front.
\<close>

definition REDACTED :: jstr where "REDACTED = js ''[REDACTED]''"

definition MAX_DEPTH :: nat where "MAX_DEPTH = 32"

type_synonym sanitizer = "jstr list"

section \<open>Keys\<close>

definition addKey :: "jstr \<Rightarrow> jstr list \<Rightarrow> jstr list" where
  "addKey k ks = (let v = lower (trim k) in if v = [] \<or> v \<in> set ks then ks else ks @ [v])"

definition normalizeSensitiveKeys :: "jstr list \<Rightarrow> jstr list" where
  "normalizeSensitiveKeys ks = fold addKey ks []"

fun string_elems :: "lval list \<Rightarrow> jstr list option" where
  "string_elems [] = Some []"
| "string_elems (LStr s # vs) = map_option ((#) s) (string_elems vs)"
| "string_elems (v # vs) = None"

text \<open>The value of \<^verbatim>\<open>LOGGER_SENSIBLEKEYS\<close> is the argument; None where it is not set.\<close>

definition sensibleKeysFromEnv :: "jstr option \<Rightarrow> jstr list" where
  "sensibleKeysFromEnv var =
     (let raw = (case var of None \<Rightarrow> [] | Some v \<Rightarrow> trim v);
          separated = normalizeSensitiveKeys (split_on 44 raw)
      in if raw = [] then []
         else if starts_with (js ''['') raw then
           (case parse_json raw of
              Some (LArr vs) \<Rightarrow>
                (case string_elems vs of Some ks \<Rightarrow> normalizeSensitiveKeys ks | None \<Rightarrow> separated)
            | _ \<Rightarrow> separated)
         else separated)"

definition newSanitizer :: "jstr list option \<Rightarrow> jstr option \<Rightarrow> sanitizer" where
  "newSanitizer keys var = normalizeSensitiveKeys (case keys of None \<Rightarrow> sensibleKeysFromEnv var | Some ks \<Rightarrow> ks)"

fun has_part :: "jstr \<Rightarrow> jstr \<Rightarrow> bool" where
  "has_part [] p = (p = [])"
| "has_part (c # s) p = (starts_with p (c # s) \<or> has_part s p)"

definition isSensitive :: "sanitizer \<Rightarrow> jstr \<Rightarrow> bool" where
  "isSensitive ks key = list_ex (has_part (lower key)) ks"

section \<open>Redaction\<close>

definition headers :: "sanitizer \<Rightarrow> (jstr \<times> jstr) list \<Rightarrow> (jstr \<times> lval) list" where
  "headers ks hs = map (\<lambda>(k, v). (k, LStr (if isSensitive ks k then REDACTED else v))) hs"

text \<open>The JSON document a string holds, if it looks like one.\<close>

definition document :: "jstr \<Rightarrow> lval option" where
  "document s =
     (let t = trim s
      in if starts_with (js ''{'') t \<or> starts_with (js ''['') t then parse_json t else None)"

fun redact :: "sanitizer \<Rightarrow> nat \<Rightarrow> lval \<Rightarrow> lval" where
  "redact ks 0 v = v"
| "redact ks (Suc n) v =
     (case v of
        LHeaders hs \<Rightarrow> LObj (headers ks hs)
      | LArr vs \<Rightarrow> LArr (map (redact ks n) vs)
      | LStr s \<Rightarrow> (case document s of None \<Rightarrow> v | Some d \<Rightarrow> LStr (stringify (redact ks n d)))
      | LObj ob \<Rightarrow>
          LObj (map (\<lambda>(k, w). (k, if isSensitive ks k then LStr REDACTED else redact ks n w)) ob)
      | _ \<Rightarrow> v)"

definition sanitize :: "sanitizer \<Rightarrow> lval \<Rightarrow> lval" where
  "sanitize ks v = redact ks MAX_DEPTH v"

definition logFormat :: "sanitizer \<Rightarrow> jstr \<Rightarrow> jstr" where
  "logFormat ks line =
     (case document line of None \<Rightarrow> line | Some d \<Rightarrow> stringify (redact ks MAX_DEPTH d))"

section \<open>What redaction guarantees\<close>

text \<open>No secret to the given depth: under a sensitive key there is only the mark, and a string that holds a
  JSON document is the print of one without secrets.\<close>

fun secret_free :: "sanitizer \<Rightarrow> nat \<Rightarrow> lval \<Rightarrow> bool" where
  "secret_free ks 0 v = True"
| "secret_free ks (Suc n) v =
     (case v of
        LHeaders hs \<Rightarrow> False
      | LArr vs \<Rightarrow> list_all (secret_free ks n) vs
      | LStr s \<Rightarrow> (case document s of None \<Rightarrow> True | Some d \<Rightarrow> \<exists>w. s = stringify w \<and> secret_free ks n w)
      | LObj ob \<Rightarrow>
          list_all (\<lambda>(k, w). if isSensitive ks k then w = LStr REDACTED else secret_free ks n w) ob
      | _ \<Rightarrow> True)"

text \<open>Header values are not parsed: none of the values that are kept may hold a document.\<close>

fun quiet_headers :: "sanitizer \<Rightarrow> nat \<Rightarrow> lval \<Rightarrow> bool" where
  "quiet_headers ks 0 v = True"
| "quiet_headers ks (Suc n) v =
     (case v of
        LHeaders hs \<Rightarrow> list_all (\<lambda>(k, t). isSensitive ks k \<or> document t = None) hs
      | LArr vs \<Rightarrow> list_all (quiet_headers ks n) vs
      | LObj ob \<Rightarrow> list_all (\<lambda>(k, w). isSensitive ks k \<or> quiet_headers ks n w) ob
      | _ \<Rightarrow> True)"

lemma parsed_quiet: "quiet_headers ks n (parsed j)"
proof (induction n arbitrary: j)
  case (Suc n)
  then show ?case by (cases j) (auto simp: list_all_iff)
qed simp

lemma document_parsed: "document s = Some d \<Longrightarrow> \<exists>j. d = parsed j"
  by (auto simp: document_def parse_json_def Let_def split: if_splits)

lemma quiet_text_free: "document s = None \<Longrightarrow> secret_free ks n (LStr s)"
  by (cases n) simp_all

lemma redacted_secret_free: "quiet_headers ks n v \<Longrightarrow> secret_free ks n (redact ks n v)"
proof (induction ks n v rule: redact.induct)
  case (2 ks n v)
  show ?case
  proof (cases v)
    case (LStr s)
    show ?thesis
    proof (cases "document s")
      case (Some d)
      then have "secret_free ks n (redact ks n d)"
        using 2(1) [OF LStr Some] parsed_quiet document_parsed [OF Some] by blast
      then show ?thesis using LStr Some by (auto split: option.split)
    qed (use LStr in simp)
  next
    case (LArr vs)
    then show ?thesis using 2 by (auto simp: list_all_iff)
  next
    case (LObj ob)
    then show ?thesis using 2 by (fastforce simp: list_all_iff)
  next
    case (LHeaders hs)
    then show ?thesis using 2(4) by (auto simp: list_all_iff headers_def quiet_text_free)
  qed simp_all
qed simp

fun same_shape :: "nat \<Rightarrow> lval \<Rightarrow> lval \<Rightarrow> bool" where
  "same_shape 0 v w = (v = w)"
| "same_shape (Suc n) v w =
     (case (v, w) of
        (LArr vs, LArr ws) \<Rightarrow> list_all2 (same_shape n) vs ws
      | (LObj ob, LObj ob') \<Rightarrow> list_all2 (\<lambda>(k, v) (k', w). k = k' \<and> (w = LStr REDACTED \<or> same_shape n v w)) ob ob'
      | (LStr s, LStr t) \<Rightarrow> True
      | (LHeaders hs, LObj ob) \<Rightarrow> map fst hs = map fst ob
      | _ \<Rightarrow> v = w)"

lemma redact_same_shape: "same_shape n v (redact ks n v)"
proof (induction ks n v rule: redact.induct)
  case (2 ks n v)
  show ?case
  proof (cases v)
    case (LArr vs)
    then show ?thesis using 2(2) by (simp add: list.rel_map list_all2_same)
  next
    case (LObj ob)
    then show ?thesis using 2(3) by (auto simp: list.rel_map list_all2_same)
  next
    case (LHeaders hs)
    then show ?thesis by (simp add: headers_def case_prod_unfold)
  qed (auto split: option.splits)
qed simp

lemma keys_normal:
  assumes "k \<in> set (normalizeSensitiveKeys ks)"
  shows "k \<noteq> [] \<and> trimmed k \<and> lower k = k"
proof -
  let ?P = "\<lambda>k. k \<noteq> [] \<and> trimmed k \<and> lower k = k"
  have "?P v" if "v = lower (trim k)" "v \<noteq> []" for k v
    using that trim_trimmed [of "lower k"] by (simp add: trim_lower)
  then have add: "list_all ?P (addKey k acc)" if "list_all ?P acc" for k acc
    using that by (auto simp: addKey_def Let_def)
  have "list_all ?P (fold addKey ks acc)" if "list_all ?P acc" for acc
    using that by (induction ks arbitrary: acc) (simp_all add: add)
  then have "list_all ?P (normalizeSensitiveKeys ks)" by (simp add: normalizeSensitiveKeys_def)
  then show ?thesis using assms unfolding list_all_iff by blast
qed

lemma has_part_append: "has_part (s @ p @ t) p"
proof (induction s)
  case Nil
  then show ?case by (cases p; cases t) (auto simp: starts_with_def)
qed (auto simp: starts_with_def)

section \<open>The depth limit\<close>

fun nest :: "nat \<Rightarrow> lval \<Rightarrow> lval" where
  "nest 0 v = v"
| "nest (Suc n) v = LArr [nest n v]"

lemma redact_nested: "redact ks n (nest n v) = nest n v"
  by (induction n) simp_all

lemma deep_secrets_kept: "sanitize ks (nest 32 (LObj [(k, v)])) = nest 32 (LObj [(k, v)])"
  using redact_nested [of ks 32] by (simp add: sanitize_def MAX_DEPTH_def)

section \<open>Properties\<close>

text \<open>Two gaps: below the maximal depth nothing is redacted, and neither are documents in header values.\<close>

lemma header_documents_kept:
  "\<not> isSensitive ks k \<Longrightarrow> sanitize ks (LHeaders [(k, v)]) = LObj [(k, LStr v)]"
  by (simp add: sanitize_def MAX_DEPTH_def numeral_eq_Suc headers_def)

text \<open>
  C29: Nothing sensitive is logged down to depth 32.  When no header value that is kept holds a JSON document, the
  sanitized value holds, down to \<^verbatim>\<open>MAX_DEPTH\<close> levels, only the mark under any key that contains a
  configured name, whatever its case, in objects, arrays, headers and JSON documents inside strings (a document
  counts as one level); and except for redacted values and rewritten strings it has the shape of the
  original.  Below that depth, and in documents inside header values, secrets are kept
  (\<open>deep_secrets_kept\<close>, \<open>header_documents_kept\<close>).
\<close>

theorem sanitize_redacts:
  assumes "quiet_headers (newSanitizer keys var) MAX_DEPTH v"
  shows "secret_free (newSanitizer keys var) MAX_DEPTH (sanitize (newSanitizer keys var) v) \<and>
   same_shape MAX_DEPTH v (sanitize (newSanitizer keys var) v)"
  using assms by (simp add: sanitize_def redacted_secret_free redact_same_shape)

definition sample_headers :: lval where
  "sample_headers = LObj [(js ''User'', ltext ''ann''), (js ''API_Token'', ltext ''s3cret''),
     (js ''h'', LHeaders [(js ''x-token'', js ''a'')])]"

theorem sanitize_redacts_witness:
  "sanitize (newSanitizer (Some [js '' Token '']) None) sample_headers =
     LObj [(js ''User'', ltext ''ann''), (js ''API_Token'', LStr REDACTED), (js ''h'', LObj [(js ''x-token'', LStr REDACTED)])] \<and>
   secret_free (newSanitizer (Some [js '' Token '']) None) MAX_DEPTH
     (sanitize (newSanitizer (Some [js '' Token '']) None) sample_headers)"
proof -
  have "quiet_headers (newSanitizer (Some [js '' Token '']) None) MAX_DEPTH sample_headers" by code_simp
  then have "secret_free (newSanitizer (Some [js '' Token '']) None) MAX_DEPTH
      (sanitize (newSanitizer (Some [js '' Token '']) None) sample_headers)"
    using sanitize_redacts by blast
  moreover have "sanitize (newSanitizer (Some [js '' Token '']) None) sample_headers =
     LObj [(js ''User'', ltext ''ann''), (js ''API_Token'', LStr REDACTED), (js ''h'', LObj [(js ''x-token'', LStr REDACTED)])]"
    by code_simp
  ultimately show ?thesis by simp
qed

end
