(* ===== verification/Logger_Builder.thy ===== *)
theory Logger_Builder
  imports Logger_Json_Template Logger_Sanitizer
begin

text \<open>
  The structured logger: logger/builder/builder.ts.  A call returns the line it writes and the sink it writes
  it to, nothing when the record is not enabled, or the exception of the formatter.

  The clock, the active span and the stack are arguments.  The stack is given as the matches of the frame
  pattern, one per line below the first, with \<open>None\<close> for a line that does not match.
\<close>

section \<open>Options\<close>

record rotate_options =
  ro_enable :: "bool option"
  ro_maxSize :: "lval"
  ro_maxBackups :: "lval"
  ro_maxAge :: "lval"
  ro_compress :: "bool option"

text \<open>A sink given by the caller is known by a number.\<close>

datatype sink = CustomSink nat | FileSink jstr jstr rotate_options | ConsoleSink

record logger_options =
  lo_level :: "log_level option"
  lo_formatter :: "jstr option"
  lo_formatDate :: "jstr option"
  lo_sanitizer :: "sanitizer option"
  lo_ignoredHeaders :: "jstr list option"
  lo_sink :: "nat option"
  lo_dir :: "jstr option"
  lo_fileName :: "jstr option"
  lo_rotate :: "rotate_options option"
  lo_service :: "jstr option"
  lo_base :: "lobj option"

record logger =
  lg_level :: log_level
  lg_template :: jstr
  lg_formatDate :: jstr
  lg_sanitizer :: sanitizer
  lg_ignoredHeaders :: "jstr list"
  lg_sink :: sink
  lg_system :: jstr
  lg_base :: lobj

definition normalizeIgnoredHeaders :: "jstr list \<Rightarrow> jstr list" where
  "normalizeIgnoredHeaders hs = remdups (filter (\<lambda>h. h \<noteq> []) (map (\<lambda>h. lower (trim h)) hs))"

definition some_text :: "jstr option \<Rightarrow> jstr" where
  "some_text t = (case t of None \<Rightarrow> [] | Some s \<Rightarrow> s)"

definition resolveSink :: "logger_options \<Rightarrow> jstr \<Rightarrow> sink" where
  "resolveSink options serviceName =
     (case lo_sink options of
        Some k \<Rightarrow> CustomSink k
      | None \<Rightarrow>
          (case (lo_dir options, lo_rotate options) of
             (Some dir, Some policy) \<Rightarrow>
               if trim dir \<noteq> [] \<and> ro_enable policy = Some True then
                 FileSink dir
                   (let name = trim (some_text (lo_fileName options))
                    in if name \<noteq> [] then name
                       else (if serviceName \<noteq> [] then serviceName else js ''denoforge'') @ js ''.log'')
                   policy
               else ConsoleSink
           | _ \<Rightarrow> ConsoleSink))"

definition newLogger :: "logger_options \<Rightarrow> jstr option \<Rightarrow> logger" where
  "newLogger options sensibleKeys =
     (let system = some_text (lo_service options)
      in \<lparr> lg_level = case_option LevelInfo (\<lambda>l. l) (lo_level options),
           lg_template = some_text (lo_formatter options),
           lg_formatDate = case_option DEFAULT_FORMAT_DATE (\<lambda>t. t) (lo_formatDate options),
           lg_sanitizer = case_option (newSanitizer None sensibleKeys) (\<lambda>s. s) (lo_sanitizer options),
           lg_ignoredHeaders = normalizeIgnoredHeaders (case_option [] (\<lambda>h. h) (lo_ignoredHeaders options)),
           lg_sink = resolveSink options system,
           lg_system = system,
           lg_base = case_option [] (\<lambda>b. b) (lo_base options) \<rparr>)"

text \<open>\<^verbatim>\<open>{ ...a, ...b }\<close>\<close>

definition spread :: "lobj \<Rightarrow> lobj \<Rightarrow> lobj" where
  "spread a b = fold (\<lambda>(k, v). set_prop k v) b a"

definition with_attrs :: "logger \<Rightarrow> lobj \<Rightarrow> logger" where
  "with_attrs lg attrs = lg\<lparr>lg_base := spread (lg_base lg) attrs\<rparr>"

definition enabled :: "bool \<Rightarrow> logger \<Rightarrow> log_level \<Rightarrow> bool" where
  "enabled testMode lg level \<longleftrightarrow> \<not> testMode \<and> lg_level lg \<le> level"

section \<open>Ignored headers\<close>

definition filterHeaderEntries :: "lobj \<Rightarrow> jstr list \<Rightarrow> lobj" where
  "filterHeaderEntries es ignored = filter (\<lambda>(k, v). lower k \<notin> set ignored) es"

fun omitIgnoredHeadersValue :: "jstr list \<Rightarrow> bool \<Rightarrow> lval \<Rightarrow> lval" where
  "omitIgnoredHeadersValue ignored attr (LHeaders hs) =
     LObj (filterHeaderEntries (map (\<lambda>(k, t). (k, LStr t)) hs) ignored)"
| "omitIgnoredHeadersValue ignored attr (LArr vs) = LArr (map (omitIgnoredHeadersValue ignored False) vs)"
| "omitIgnoredHeadersValue ignored attr (LObj ob) =
     (if attr then LObj (filterHeaderEntries ob ignored)
      else LObj (map (\<lambda>(k, v). (k, omitIgnoredHeadersValue ignored (lower k = js ''headers'') v)) ob))"
| "omitIgnoredHeadersValue ignored attr v = v"

definition omitIgnoredHeaders :: "lobj \<Rightarrow> jstr list \<Rightarrow> lobj" where
  "omitIgnoredHeaders attrs ignored =
     (if ignored = [] then attrs else entries_of (omitIgnoredHeadersValue ignored False (LObj attrs)))"

fun normalizeHeaders :: "lval \<Rightarrow> lval" where
  "normalizeHeaders (LHeaders hs) = LObj (map (\<lambda>(k, t). (k, LStr t)) hs)"
| "normalizeHeaders v = v"

section \<open>The caller\<close>

record frame =
  fr_name :: "jstr option"
  fr_file :: jstr
  fr_line :: int

record caller =
  ca_method :: jstr
  ca_line :: int

definition isLoggerInternalFrame :: "jstr \<Rightarrow> bool" where
  "isLoggerInternalFrame file \<longleftrightarrow>
     has_part file (js ''/logger/builder/builder.ts'') \<or> has_part file ((92 # js ''logger'' @ 92 # js ''builder'' @ 92 # js ''builder.ts''))"

definition fileBaseName :: "jstr \<Rightarrow> jstr" where
  "fileBaseName file = last (split_on 47 (map (\<lambda>c. if c = 92 then 47 else c) file))"

definition shouldSkipCallerFile :: "jstr \<Rightarrow> bool" where
  "shouldSkipCallerFile file \<longleftrightarrow> fileBaseName file = js ''logging.ts''"

definition frame_caller :: "frame \<Rightarrow> caller" where
  "frame_caller f =
     \<lparr> ca_method = (case fr_name f of Some n \<Rightarrow> n | None \<Rightarrow> fileBaseName (fr_file f)), ca_line = fr_line f \<rparr>"

definition unknown_caller :: caller where
  "unknown_caller = \<lparr> ca_method = js ''unknown'', ca_line = 0 \<rparr>"

fun caller_of :: "caller option \<Rightarrow> frame option list \<Rightarrow> caller" where
  "caller_of fallback [] = case_option unknown_caller (\<lambda>c. c) fallback"
| "caller_of fallback (None # fs) = caller_of fallback fs"
| "caller_of fallback (Some f # fs) =
     (if isLoggerInternalFrame (fr_file f) then caller_of fallback fs
      else if shouldSkipCallerFile (fr_file f)
      then caller_of (Some (case_option (frame_caller f) (\<lambda>c. c) fallback)) fs
      else frame_caller f)"

definition traceCaller :: "frame option list option \<Rightarrow> caller" where
  "traceCaller stack = (case stack of None \<Rightarrow> unknown_caller | Some fs \<Rightarrow> caller_of None fs)"

section \<open>Records\<close>

record span_context =
  sc_traceId :: jstr
  sc_spanId :: jstr

record log_env =
  en_now :: date
  en_stack :: "frame option list option"
  en_span :: "span_context option"

definition TOP_LEVEL_ATTRS :: "jstr list" where
  "TOP_LEVEL_ATTRS = map js [''traceID'', ''spanID'', ''latency'', ''services'', ''process'']"

definition attr_details :: "jstr \<Rightarrow> lobj \<Rightarrow> lobj" where
  "attr_details system attrs =
     [(js ''system'', case get attrs (js ''system'') of LStr s \<Rightarrow> LStr (if s \<noteq> [] then s else system) | _ \<Rightarrow> LStr system)] @
     concat (map (\<lambda>k. if k = js ''system'' \<or> get attrs k = LUndef then []
         else [(k, if k = js ''headers'' then normalizeHeaders (get attrs k) else get attrs k)]) DETAIL_SLOTS)"

definition entry_details :: "jstr \<Rightarrow> lobj \<Rightarrow> lobj" where
  "entry_details system attrs =
     spread (attr_details system attrs)
       (filter (\<lambda>(k, v). k \<notin> set DETAIL_SLOTS \<and> k \<notin> set TOP_LEVEL_ATTRS) attrs)"

definition buildEntry :: "logger \<Rightarrow> log_level \<Rightarrow> jstr \<Rightarrow> lobj \<Rightarrow> caller \<Rightarrow> log_env \<Rightarrow> lobj" where
  "buildEntry lg level message attrs caller env =
     [(js ''level'', LStr (levelName level)),
      (js ''timestamp'', LStr (formatTimestamp (en_now env) (lg_formatDate lg))),
      (js ''traceID'', case get attrs (js ''traceID'') of LStr s \<Rightarrow> LStr s
         | _ \<Rightarrow> LStr (case en_span env of Some c \<Rightarrow> sc_traceId c | None \<Rightarrow> []))] @
     (case get attrs (js ''spanID'') of
        LStr s \<Rightarrow> if s \<noteq> [] then [(js ''spanID'', LStr s)] else []
      | _ \<Rightarrow> (case en_span env of
           Some c \<Rightarrow> if sc_spanId c \<noteq> [] then [(js ''spanID'', LStr (sc_spanId c))] else []
         | None \<Rightarrow> [])) @
     [(js ''message'', LStr message),
      (js ''details'', LObj (entry_details (lg_system lg) attrs)),
      (js ''process'', case default (get attrs (js ''services'')) (get attrs (js ''process'')) of
          LArr vs \<Rightarrow> LArr (map normalizeProcessLatency vs) | _ \<Rightarrow> LArr []),
      (js ''method'', LStr (ca_method caller)),
      (js ''line'', number (of_int (ca_line caller))),
      (js ''latency'', normalizeLatency (get attrs (js ''latency'')))]"

definition log_record :: "bool \<Rightarrow> log_env \<Rightarrow> logger \<Rightarrow> log_level \<Rightarrow> jstr \<Rightarrow> lobj \<Rightarrow> log_failure + (sink \<times> jstr) option" where
  "log_record testMode env lg level message attrs =
     (if \<not> enabled testMode lg level then Inr None
      else
        (let merged = omitIgnoredHeaders (spread (lg_base lg) attrs) (lg_ignoredHeaders lg);
             entry = buildEntry lg level message merged (traceCaller (en_stack env)) env;
             clean = entries_of (sanitize (lg_sanitizer lg) (LObj entry))
         in and_then (format_entry (lg_template lg) clean) (\<lambda>line. Inr (Some (lg_sink lg, line)))))"

definition debug :: "bool \<Rightarrow> log_env \<Rightarrow> logger \<Rightarrow> jstr \<Rightarrow> lobj \<Rightarrow> log_failure + (sink \<times> jstr) option" where
  "debug testMode env lg = log_record testMode env lg LevelDebug"

definition info :: "bool \<Rightarrow> log_env \<Rightarrow> logger \<Rightarrow> jstr \<Rightarrow> lobj \<Rightarrow> log_failure + (sink \<times> jstr) option" where
  "info testMode env lg = log_record testMode env lg LevelInfo"

definition warn :: "bool \<Rightarrow> log_env \<Rightarrow> logger \<Rightarrow> jstr \<Rightarrow> lobj \<Rightarrow> log_failure + (sink \<times> jstr) option" where
  "warn testMode env lg = log_record testMode env lg LevelWarn"

definition error :: "bool \<Rightarrow> log_env \<Rightarrow> logger \<Rightarrow> jstr \<Rightarrow> lobj \<Rightarrow> log_failure + (sink \<times> jstr) option" where
  "error testMode env lg = log_record testMode env lg LevelError"

section \<open>Merging attributes\<close>

lemma spread_Cons: "spread a ((k, v) # b) = spread (set_prop k v a) b"
  by (simp add: spread_def)

lemma set_prop_twice: "set_prop k v (set_prop k w a) = set_prop k v a"
  by (induction a) (auto simp: set_prop_def)

lemma set_prop_swap:
  "k \<noteq> j \<Longrightarrow> k \<in> fst ` set a \<Longrightarrow> set_prop j w (set_prop k v a) = set_prop k v (set_prop j w a)"
  by (induction a) (auto simp: set_prop_def)

lemma spread_keys: "fst ` set (spread a b) = fst ` set a \<union> fst ` set b"
proof (induction b arbitrary: a)
  case (Cons e b)
  obtain k v where e: "e = (k, v)" by fastforce
  have "fst ` set (set_prop k v a) = insert k (fst ` set a)" by (simp add: set_prop_def dom_update)
  then show ?case using Cons e by (simp add: spread_Cons)
qed (simp add: spread_def)

lemma spread_overwritten:
  "k \<in> fst ` set a \<Longrightarrow> k \<notin> fst ` set b \<Longrightarrow> set_prop k v (spread a b) = spread (set_prop k v a) b"
proof (induction b arbitrary: a)
  case (Cons e b)
  obtain j w where e: "e = (j, w)" by fastforce
  have "k \<in> fst ` set (set_prop j w a)" using Cons.prems by (simp add: set_prop_def dom_update)
  then show ?case
    using Cons.IH [of "set_prop j w a"] Cons.prems e set_prop_swap [of k j a w v] by (simp add: spread_Cons)
qed (simp add: spread_def)

lemma spread_set:
  "distinct (map fst b) \<Longrightarrow> spread a (set_prop k v b) = set_prop k v (spread a b)"
proof (induction b arbitrary: a)
  case (Cons e b)
  obtain j w where e: "e = (j, w)" by fastforce
  show ?case
  proof (cases "j = k")
    case True
    have "k \<notin> fst ` set b" using Cons.prems e True by auto
    moreover have "k \<in> fst ` set (set_prop k w a)" by (simp add: set_prop_def dom_update)
    ultimately have "set_prop k v (spread (set_prop k w a) b) = spread (set_prop k v (set_prop k w a)) b"
      by (intro spread_overwritten)
    then show ?thesis using e True by (simp add: spread_Cons set_prop_twice) (simp add: set_prop_def spread_def)
  next
    case False
    have "set_prop k v ((j, w) # b) = (j, w) # set_prop k v b" using False by (simp add: set_prop_def)
    then show ?thesis using Cons e by (simp add: spread_Cons)
  qed
qed (simp add: spread_def set_prop_def)

lemma spread_distinct: "distinct (map fst a) \<Longrightarrow> distinct (map fst (spread a b))"
  by (induction b arbitrary: a) (auto simp: spread_def set_prop_def distinct_update)

lemma spread_assoc:
  "distinct (map fst b) \<Longrightarrow> spread (spread a b) c = spread a (spread b c)"
proof (induction c arbitrary: b)
  case (Cons e c)
  obtain k v where e: "e = (k, v)" by fastforce
  have "distinct (map fst (set_prop k v b))" using Cons.prems by (simp add: set_prop_def distinct_update)
  then show ?case using Cons.IH [of "set_prop k v b"] spread_set [OF Cons.prems, of a k v] e
    by (simp add: spread_Cons)
qed (simp add: spread_def)

section \<open>Redacted entries\<close>

lemma sanitize_object: "\<exists>ob'. sanitize ks (LObj ob) = LObj ob' \<and>
    (\<forall>k. get ob' k = (if k \<notin> fst ` set ob then LUndef
      else if isSensitive ks k then LStr REDACTED else redact ks 31 (get ob k)))"
proof -
  let ?f = "\<lambda>(k, w). (k, if isSensitive ks k then LStr REDACTED else redact ks 31 w)"
  have m: "map_of (map ?f ob) k = map_option (\<lambda>w. if isSensitive ks k then LStr REDACTED else redact ks 31 w) (map_of ob k)" for k
    by (induction ob) auto
  have "sanitize ks (LObj ob) = LObj (map ?f ob)"
    using redact.simps(2) [of ks 31 "LObj ob"] by (simp add: sanitize_def MAX_DEPTH_def)
  moreover have "get (map ?f ob) k = (if k \<notin> fst ` set ob then LUndef
      else if isSensitive ks k then LStr REDACTED else redact ks 31 (get ob k))" for k
  proof -
    have "k \<notin> fst ` set ob \<longleftrightarrow> map_of ob k = None" by (simp only: map_of_eq_None_iff)
    then show ?thesis unfolding get_def m by (cases "map_of ob k") simp_all
  qed
  ultimately show ?thesis by blast
qed

lemma entry_has_process: "js ''process'' \<in> fst ` set (buildEntry lg level message attrs caller env)"
  by (simp add: buildEntry_def)

text \<open>A sensitive name that is part of \<open>process\<close> turns that field of the entry into a string, which no layout can map.\<close>

lemma sensitive_process_throws:
  assumes "isSensitive (lg_sanitizer lg) (js ''process'')" "enabled testMode lg level"
  shows "log_record testMode env lg level message attrs = Inl TypeError"
proof -
  let ?e = "buildEntry lg level message (omitIgnoredHeaders (spread (lg_base lg) attrs) (lg_ignoredHeaders lg)) (traceCaller (en_stack env)) env"
  obtain c where c: "sanitize (lg_sanitizer lg) (LObj ?e) = LObj c" "get c (js ''process'') = LStr REDACTED"
    using sanitize_object [of "lg_sanitizer lg" ?e] assms(1) entry_has_process by metis
  have "normalizeLog c = Inl TypeError" using c(2) by (simp add: normalizeLog_def default_def nullish_def)
  then have "format_entry (lg_template lg) c = Inl TypeError"
    by (simp add: format_entry_def Let_def formatJSON_def formatText_def formatTemplate_def)
  then show ?thesis using assms(2) c(1) by (simp add: log_record_def Let_def)
qed

section \<open>Properties\<close>

text \<open>
  C31: A child logger is a shorthand.  Logging through a child writes exactly what logging the merged attributes
  through its parent writes, with the attributes of the call over those of the child over those of the base; children
  of children merge in the same order; and a record is written exactly when its level reaches that of the logger.
\<close>

theorem child_logger_merges:
  assumes "distinct (map fst a)"
  shows "log_record t env (with_attrs lg a) level msg b = log_record t env lg level msg (spread a b) \<and>
    with_attrs (with_attrs lg a) b = with_attrs lg (spread a b) \<and>
    (log_record t env lg level msg b = Inr None \<longleftrightarrow> t \<or> level < lg_level lg)"
proof -
  have "spread (spread (lg_base lg) a) b = spread (lg_base lg) (spread a b)" by (rule spread_assoc [OF assms])
  then have "log_record t env (with_attrs lg a) level msg b = log_record t env lg level msg (spread a b)"
    "with_attrs (with_attrs lg a) b = with_attrs lg (spread a b)"
    by (simp_all add: log_record_def with_attrs_def enabled_def buildEntry_def Let_def)
  moreover have "log_record t env lg level msg b = Inr None \<longleftrightarrow> t \<or> level < lg_level lg"
    by (auto simp: log_record_def enabled_def Let_def not_le [symmetric] elim!: and_then_InrE)
  ultimately show ?thesis by blast
qed

definition sample_logger :: logger where
  "sample_logger = newLogger \<lparr> lo_level = Some LevelWarn, lo_formatter = Some (js ''json''), lo_formatDate = None,
     lo_sanitizer = None, lo_ignoredHeaders = None, lo_sink = Some 3, lo_dir = None, lo_fileName = None,
     lo_rotate = None, lo_service = Some (js ''api''), lo_base = Some [(js ''zone'', ltext ''eu'')] \<rparr> None"

definition sample_env :: log_env where
  "sample_env = \<lparr> en_now = \<lparr> d_year = 2026, d_month = 0, d_date = 2, d_weekday = 5, d_hours = 3, d_minutes = 4,
     d_seconds = 5, d_millis = 60, d_offset = 0 \<rparr>, en_stack = None, en_span = None \<rparr>"

theorem child_logger_merges_witness:
  "log_record False sample_env (with_attrs sample_logger [(js ''user'', ltext ''ann'')]) LevelWarn (js ''hi'') [(js ''zone'', ltext ''us'')] =
     log_record False sample_env sample_logger LevelWarn (js ''hi'') [(js ''user'', ltext ''ann''), (js ''zone'', ltext ''us'')] \<and>
   log_record False sample_env sample_logger LevelInfo (js ''hi'') [] = Inr None"
proof -
  have d: "distinct (map fst [(js ''user'', ltext ''ann'')])" by simp
  have s: "spread [(js ''user'', ltext ''ann'')] [(js ''zone'', ltext ''us'')] =
      [(js ''user'', ltext ''ann''), (js ''zone'', ltext ''us'')]" by code_simp
  have "LevelInfo < lg_level sample_logger" by code_simp
  then show ?thesis
    using child_logger_merges [OF d, of False sample_env sample_logger LevelWarn "js ''hi''" "[(js ''zone'', ltext ''us'')]"]
      child_logger_merges [OF d, of False sample_env sample_logger LevelInfo "js ''hi''" "[]"] s by simp
qed

end
