(* ===== verification/Logger_File.thy ===== *)
theory Logger_File
  imports Logger_Builder Utf_Lossy
begin

text \<open>
  The file sink with rotation: logger/sink/file.ts.  The state is that of the closure together with the files
  of its directory, known by name and kept in the order of their creation, and what went to the console and to
  the tee.  Any call on the file system may fail with a message: an event carries the faults of its calls.
  Files that are not regular, permissions and the file system beyond the directory are not modelled.
\<close>

section \<open>Options\<close>

definition DEFAULT_MAX_SIZE_MB :: rat where "DEFAULT_MAX_SIZE_MB = 10"
definition DEFAULT_MAX_BACKUPS :: int where "DEFAULT_MAX_BACKUPS = 5"
definition DEFAULT_MAX_AGE_DAYS :: int where "DEFAULT_MAX_AGE_DAYS = 30"
definition MILLIS_PER_DAY :: int where "MILLIS_PER_DAY = 24 * 60 * 60 * 1000"

record resolved_rotation =
  rr_enable :: bool
  rr_maxSizeBytes :: int
  rr_maxBackups :: int
  rr_maxAge :: int
  rr_compress :: bool

fun nonNegativeInteger :: "lval \<Rightarrow> int \<Rightarrow> int" where
  "nonNegativeInteger (LNum (Finite r)) fallback = (if 0 \<le> r then \<lfloor>r\<rfloor> else fallback)"
| "nonNegativeInteger v fallback = fallback"

fun positive_size :: "lval \<Rightarrow> rat" where
  "positive_size (LNum (Finite r)) = (if 0 < r then r else DEFAULT_MAX_SIZE_MB)"
| "positive_size v = DEFAULT_MAX_SIZE_MB"

definition no_rotation :: rotate_options where
  "no_rotation = \<lparr> ro_enable = None, ro_maxSize = LUndef, ro_maxBackups = LUndef, ro_maxAge = LUndef, ro_compress = None \<rparr>"

definition resolveRotation :: "rotate_options option \<Rightarrow> resolved_rotation" where
  "resolveRotation opts =
     (let ro = case_option no_rotation (\<lambda>r. r) opts
      in \<lparr> rr_enable = (ro_enable ro = Some True),
           rr_maxSizeBytes = max 1 \<lfloor>positive_size (ro_maxSize ro) * 1024 * 1024\<rfloor>,
           rr_maxBackups = nonNegativeInteger (ro_maxBackups ro) DEFAULT_MAX_BACKUPS,
           rr_maxAge = nonNegativeInteger (ro_maxAge ro) DEFAULT_MAX_AGE_DAYS,
           rr_compress = (ro_compress ro = Some True) \<rparr>)"

datatype tee = NoTee | ConsoleTee | CustomTee

definition normalizeFileName :: "jstr \<Rightarrow> jstr + jstr" where
  "normalizeFileName fileName =
     (let n = trim fileName
      in if n = [] \<or> n = js ''.'' \<or> n = js ''..'' \<or> 47 \<in> set n \<or> 92 \<in> set n
         then Inl (js ''fileName must be a file name inside dir'') else Inr n)"

definition joinPath :: "jstr \<Rightarrow> jstr \<Rightarrow> jstr + jstr" where
  "joinPath dir fileName =
     (if trim dir = [] then Inl (js ''dir must not be empty'')
      else Inr (if last dir = 47 \<or> last dir = 92 then dir @ fileName else dir @ js ''/'' @ fileName))"

definition stripLogExtension :: "jstr \<Rightarrow> jstr" where
  "stripLogExtension fileName =
     (if ends_with (js ''.log'') (lower fileName) then take (length fileName - 4) fileName else fileName)"

section \<open>The directory\<close>

record log_file =
  lf_bytes :: bytes
  lf_mtime :: "int option"
  lf_birthtime :: "int option"

type_synonym files = "(jstr \<times> log_file) list"

datatype io =
    IoMkdir | IoChmodDir | IoOpen jstr | IoChmod jstr | IoStat jstr | IoLstat jstr | IoWrite jstr
  | IoRename jstr jstr | IoReadDir | IoRemove jstr | IoRead jstr | IoWriteFile jstr

text \<open>The faults of an event, and how many bytes a failing write had written.\<close>

record io_env =
  io_now :: int
  io_fault :: "io \<Rightarrow> jstr option"
  io_partial :: nat

definition attempt :: "io_env \<Rightarrow> io \<Rightarrow> 'a \<Rightarrow> jstr + 'a" where
  "attempt env op x = (case io_fault env op of None \<Rightarrow> Inr x | Some e \<Rightarrow> Inl e)"

definition create :: "int \<Rightarrow> jstr \<Rightarrow> files \<Rightarrow> files" where
  "create now name fs =
     (if map_of fs name = None
      then fs @ [(name, \<lparr> lf_bytes = [], lf_mtime = Some now, lf_birthtime = Some now \<rparr>)] else fs)"

definition append_file :: "int \<Rightarrow> jstr \<Rightarrow> bytes \<Rightarrow> files \<Rightarrow> files" where
  "append_file now name bs fs =
     map (\<lambda>(n, f). if n = name then (n, f\<lparr>lf_bytes := lf_bytes f @ bs, lf_mtime := Some now\<rparr>) else (n, f)) fs"

definition remove_file :: "jstr \<Rightarrow> files \<Rightarrow> files" where
  "remove_file name fs = filter (\<lambda>(n, f). n \<noteq> name) fs"

text \<open>A rename replaces its target and keeps the contents and times of the file.\<close>

definition rename_file :: "jstr \<Rightarrow> jstr \<Rightarrow> files \<Rightarrow> files" where
  "rename_file old new fs =
     (case map_of fs old of None \<Rightarrow> fs
      | Some f \<Rightarrow> remove_file old (remove_file new fs) @ [(new, f)])"

section \<open>The sink\<close>

record sink_config =
  sf_dir :: jstr
  sf_name :: jstr
  sf_prefix :: jstr
  sf_rotation :: resolved_rotation
  sf_tee :: tee

record sink_state =
  ss_active :: bool
  ss_size :: int
  ss_last :: int
  ss_reported :: "jstr list"
  ss_files :: files
  ss_console :: "jstr list"
  ss_errors :: "jstr list"
  ss_teed :: "jstr list"
  ss_compressing :: "jstr list"

definition reportFailure :: "string \<Rightarrow> jstr \<Rightarrow> sink_state \<Rightarrow> sink_state" where
  "reportFailure operation detail s =
     (let message = js ''[denoforge/logger] '' @ js operation @ js '': '' @ detail
      in if message \<in> set (ss_reported s) then s
         else s\<lparr>ss_reported := ss_reported s @ [message], ss_errors := ss_errors s @ [message]\<rparr>)"

text \<open>\<^verbatim>\<open>prepareActiveFile\<close>; the files it leaves behind when it fails are those made so far.\<close>

definition prepareActiveFile :: "io_env \<Rightarrow> jstr \<Rightarrow> files \<Rightarrow> (jstr + unit) \<times> files" where
  "prepareActiveFile env name fs =
     (case and_then (attempt env IoMkdir ()) (\<lambda>_. and_then (attempt env IoChmodDir ()) (\<lambda>_. attempt env (IoOpen name) ())) of
        Inl e \<Rightarrow> (Inl e, fs)
      | Inr _ \<Rightarrow> (attempt env (IoChmod name) (), create (io_now env) name fs))"

definition appendBytes :: "io_env \<Rightarrow> jstr \<Rightarrow> bytes \<Rightarrow> files \<Rightarrow> (jstr + unit) \<times> files" where
  "appendBytes env name bs fs =
     (case attempt env (IoOpen name) () of
        Inl e \<Rightarrow> (Inl e, fs)
      | Inr _ \<Rightarrow>
          (let fs' = create (io_now env) name fs
           in case attempt env (IoWrite name) () of
                Inl e \<Rightarrow> (Inl e, append_file (io_now env) name (take (io_partial env) bs) fs')
              | Inr _ \<Rightarrow> (Inr (), append_file (io_now env) name bs fs')))"

section \<open>Backups\<close>

definition leap :: "nat \<Rightarrow> bool" where
  "leap y \<longleftrightarrow> y mod 4 = 0 \<and> (y mod 100 \<noteq> 0 \<or> y mod 400 = 0)"

definition month_days :: "nat \<Rightarrow> nat list" where
  "month_days y = [31, if leap y then 29 else 28, 31, 30, 31, 30, 31, 31, 30, 31, 30, 31]"

text \<open>Counting days down by years and by months.\<close>

fun month_of :: "nat list \<Rightarrow> nat \<Rightarrow> nat \<Rightarrow> nat \<times> nat" where
  "month_of [] m d = (m, d)"
| "month_of (l # ls) m d = (if d < l then (m, d) else month_of ls (Suc m) (d - l))"

function year_of :: "nat \<Rightarrow> nat \<Rightarrow> nat \<times> nat" where
  "year_of y d = (if d < (if leap y then 366 else 365) then (y, d) else year_of (Suc y) (d - (if leap y then 366 else 365)))"
  by auto
termination
  by (relation "measure snd") (auto split: if_splits)

declare year_of.simps [simp del]

text \<open>\<^verbatim>\<open>new Date(t).toISOString().replace("Z", "").replaceAll(":", "-")\<close> for a time from 1970 on.\<close>

definition stamp :: "int \<Rightarrow> jstr" where
  "stamp t =
     (let (y, yd) = year_of 1970 (nat (t div MILLIS_PER_DAY));
          (m, d) = month_of (month_days y) 1 yd;
          ms = t mod MILLIS_PER_DAY
      in (if y \<le> 9999 then pad (int y) 4 else js ''+'' @ pad (int y) 6) @ js ''-'' @ pad (int m) 2 @ js ''-'' @
         pad (int d + 1) 2 @ js ''T'' @ pad (ms div 3600000) 2 @ js ''-'' @ pad (ms div 60000 mod 60) 2 @ js ''-'' @
         pad (ms div 1000 mod 60) 2 @ js ''.'' @ pad (ms mod 1000) 3)"

definition backup_name :: "jstr \<Rightarrow> int \<Rightarrow> jstr" where
  "backup_name pre t = pre @ stamp t @ js ''.log''"

text \<open>
  The search for a free name, with fuel.  A name is free when \<^verbatim>\<open>lstat\<close> fails with NotFound, which it does
  for a missing file unless it fails otherwise.
\<close>

fun free_name :: "nat \<Rightarrow> io_env \<Rightarrow> jstr \<Rightarrow> files \<Rightarrow> int \<Rightarrow> ((jstr + unit) \<times> int) option" where
  "free_name 0 env pre fs t = None"
| "free_name (Suc n) env pre fs t =
     (case io_fault env (IoLstat (backup_name pre t)) of
        Some e \<Rightarrow> Some (Inl e, t)
      | None \<Rightarrow> if map_of fs (backup_name pre t) = None then Some (Inr (), t) else free_name n env pre fs (t + 1))"

definition nextBackupPath :: "io_env \<Rightarrow> jstr \<Rightarrow> sink_state \<Rightarrow> ((jstr + unit) \<times> int) option" where
  "nextBackupPath env pre s =
     free_name (Suc (length (ss_files s))) env pre (ss_files s) (max (io_now env) (ss_last s + 1))"

definition is_backup :: "jstr \<Rightarrow> jstr \<Rightarrow> bool" where
  "is_backup pre name \<longleftrightarrow> starts_with pre name \<and> (ends_with (js ''.log'') name \<or> ends_with (js ''.log.gz'') name)"

definition modified :: "log_file \<Rightarrow> int" where
  "modified f = (case lf_mtime f of Some t \<Rightarrow> t | None \<Rightarrow> (case lf_birthtime f of Some t \<Rightarrow> t | None \<Rightarrow> 0))"

definition listBackups :: "io_env \<Rightarrow> jstr \<Rightarrow> files \<Rightarrow> jstr + (jstr \<times> int) list" where
  "listBackups env pre fs =
     and_then (attempt env IoReadDir ()) (\<lambda>_.
       map_results (\<lambda>(n, f). attempt env (IoStat n) (n, modified f)) (filter (\<lambda>(n, f). is_backup pre n) fs))"

definition removeBackup :: "io_env \<Rightarrow> jstr \<Rightarrow> sink_state \<Rightarrow> bool \<times> sink_state" where
  "removeBackup env name s =
     (case attempt env (IoRemove name) () of
        Inl e \<Rightarrow> (False, reportFailure ''backup removal failed'' e s)
      | Inr _ \<Rightarrow> (True, s\<lparr>ss_files := remove_file name (ss_files s)\<rparr>))"

fun expire :: "io_env \<Rightarrow> int \<Rightarrow> (jstr \<times> int) list \<Rightarrow> (jstr \<times> int) list \<Rightarrow> sink_state \<Rightarrow> (jstr \<times> int) list \<times> sink_state" where
  "expire env cutoff [] kept s = (kept, s)"
| "expire env cutoff ((n, t) # bs) kept s =
     (if cutoff \<le> t then expire env cutoff bs kept s
      else (case removeBackup env n s of (removed, s') \<Rightarrow>
        expire env cutoff bs (if removed then filter (\<lambda>(m, u). m \<noteq> n) kept else kept) s'))"

fun remove_all :: "io_env \<Rightarrow> (jstr \<times> int) list \<Rightarrow> sink_state \<Rightarrow> sink_state" where
  "remove_all env [] s = s"
| "remove_all env ((n, t) # bs) s = remove_all env bs (snd (removeBackup env n s))"

definition pruneBackups :: "io_env \<Rightarrow> sink_config \<Rightarrow> sink_state \<Rightarrow> sink_state" where
  "pruneBackups env c s =
     (case listBackups env (sf_prefix c) (ss_files s) of
        Inl e \<Rightarrow> reportFailure ''backup retention scan failed'' e s
      | Inr backups \<Rightarrow>
          (let rot = sf_rotation c;
               (kept, s') =
                 (if 0 < rr_maxAge rot then expire env (io_now env - rr_maxAge rot * MILLIS_PER_DAY) backups backups s
                  else (backups, s))
           in if rr_maxBackups rot = 0 \<or> int (length kept) \<le> rr_maxBackups rot then s'
              else remove_all env (drop (nat (rr_maxBackups rot)) (sort_key (\<lambda>(n, t). - t) kept)) s'))"

text \<open>Rotation stops at the first failure, with what has been done so far.\<close>

definition rotateActiveFile :: "io_env \<Rightarrow> sink_config \<Rightarrow> sink_state \<Rightarrow> (jstr + unit) \<times> sink_state" where
  "rotateActiveFile env c s =
     (case nextBackupPath env (sf_prefix c) s of
        None \<Rightarrow> (Inr (), s)
      | Some (Inl e, t) \<Rightarrow> (Inl e, s\<lparr>ss_last := t\<rparr>)
      | Some (Inr _, t) \<Rightarrow>
          (let backup = backup_name (sf_prefix c) t; s1 = s\<lparr>ss_last := t\<rparr>
           in case attempt env (IoRename (sf_name c) backup) () of
                Inl e \<Rightarrow> (Inl e, s1)
              | Inr _ \<Rightarrow>
                  (let s2 = s1\<lparr>ss_files := rename_file (sf_name c) backup (ss_files s1)\<rparr>
                   in case prepareActiveFile env (sf_name c) (ss_files s2) of
                        (Inl e, fs) \<Rightarrow> (Inl e, s2\<lparr>ss_files := fs\<rparr>)
                      | (Inr _, fs) \<Rightarrow>
                          (let s3 = pruneBackups env c (s2\<lparr>ss_files := fs, ss_size := 0\<rparr>)
                           in (Inr (), if rr_compress (sf_rotation c)
                                then s3\<lparr>ss_compressing := ss_compressing s3 @ [backup]\<rparr> else s3)))))"

section \<open>Writing\<close>

definition line_bytes :: "jstr \<Rightarrow> bytes" where
  "line_bytes line = utf8_encode (line @ [10])"

definition must_rotate :: "sink_config \<Rightarrow> sink_state \<Rightarrow> bytes \<Rightarrow> bool" where
  "must_rotate c s bs \<longleftrightarrow> rr_enable (sf_rotation c) \<and> 0 < ss_size s \<and>
     rr_maxSizeBytes (sf_rotation c) < ss_size s + int (length bs)"

definition write_file :: "io_env \<Rightarrow> sink_config \<Rightarrow> bytes \<Rightarrow> sink_state \<Rightarrow> (jstr + unit) \<times> sink_state" where
  "write_file env c bs s =
     (case (if must_rotate c s bs then rotateActiveFile env c s else (Inr (), s)) of
        (Inl e, s1) \<Rightarrow> (Inl e, s1)
      | (Inr _, s1) \<Rightarrow>
          (case appendBytes env (sf_name c) bs (ss_files s1) of
             (Inl e, fs) \<Rightarrow> (Inl e, s1\<lparr>ss_files := fs\<rparr>)
           | (Inr _, fs) \<Rightarrow> (Inr (), s1\<lparr>ss_files := fs, ss_size := ss_size s1 + int (length bs)\<rparr>)))"

definition tee_line :: "tee \<Rightarrow> bool \<Rightarrow> jstr \<Rightarrow> sink_state \<Rightarrow> sink_state" where
  "tee_line t wrote line s =
     (case t of
        CustomTee \<Rightarrow> s\<lparr>ss_teed := ss_teed s @ [line]\<rparr>
      | ConsoleTee \<Rightarrow> s\<lparr>ss_console := ss_console s @ [line]\<rparr>
      | NoTee \<Rightarrow> if wrote then s else s\<lparr>ss_console := ss_console s @ [line]\<rparr>)"

definition write_line :: "sink_config \<Rightarrow> jstr \<Rightarrow> io_env \<Rightarrow> sink_state \<Rightarrow> sink_state" where
  "write_line c line env s =
     (if ss_active s then
        (case write_file env c (line_bytes line) s of
           (Inl e, s1) \<Rightarrow>
             tee_line (sf_tee c) False line (reportFailure ''file write failed; using stdout'' e (s1\<lparr>ss_active := False\<rparr>))
         | (Inr _, s1) \<Rightarrow> tee_line (sf_tee c) True line s1)
      else tee_line (sf_tee c) False line s)"

definition empty_sink :: "files \<Rightarrow> sink_state" where
  "empty_sink fs = \<lparr> ss_active = False, ss_size = 0, ss_last = 0, ss_reported = [], ss_files = fs, ss_console = [],
     ss_errors = [], ss_teed = [], ss_compressing = [] \<rparr>"

definition newFileSink :: "jstr \<Rightarrow> jstr \<Rightarrow> rotate_options option \<Rightarrow> tee \<Rightarrow> files \<Rightarrow> io_env \<Rightarrow> sink_config \<times> sink_state" where
  "newFileSink dir fileName rot t fs env =
     (let broken = \<lparr> sf_dir = dir, sf_name = [], sf_prefix = [], sf_rotation = resolveRotation rot, sf_tee = t \<rparr>;
          unavailable = reportFailure ''file sink unavailable; using stdout''
      in case and_then (normalizeFileName fileName) (\<lambda>name. and_then (joinPath dir name) (\<lambda>path. Inr name)) of
           Inl e \<Rightarrow> (broken, unavailable e (empty_sink fs))
         | Inr name \<Rightarrow>
             (let c = broken\<lparr>sf_name := name, sf_prefix := stripLogExtension name @ js ''-''\<rparr>
              in case prepareActiveFile env name fs of
                   (Inl e, fs') \<Rightarrow> (c, unavailable e (empty_sink fs'))
                 | (Inr _, fs') \<Rightarrow>
                     (case attempt env (IoStat name) () of
                        Inl e \<Rightarrow> (c, unavailable e (empty_sink fs'))
                      | Inr _ \<Rightarrow>
                          (c, (empty_sink fs')\<lparr>ss_active := True,
                             ss_size := (case map_of fs' name of Some f \<Rightarrow> int (length (lf_bytes f)) | None \<Rightarrow> 0)\<rparr>))))"

section \<open>Compression\<close>

text \<open>A queued compression runs later; \<open>gzip\<close> is the compression stream of the runtime.\<close>

definition compressBackup :: "(bytes \<Rightarrow> bytes) \<Rightarrow> io_env \<Rightarrow> jstr \<Rightarrow> files \<Rightarrow> (jstr + unit) \<times> files" where
  "compressBackup gzip env name fs =
     (let gz = name @ js ''.gz''; tmp = gz @ js ''.tmp''
      in case (case map_of fs name of None \<Rightarrow> Inl (js ''not found'') | Some f \<Rightarrow> attempt env (IoRead name) f) of
           Inl e \<Rightarrow> (Inl e, fs)
         | Inr f \<Rightarrow>
             (let cleanup = (\<lambda>e fs. (Inl e, case io_fault env (IoRemove tmp) of None \<Rightarrow> remove_file tmp fs | Some _ \<Rightarrow> fs))
              in case attempt env (IoWriteFile tmp) () of
                   Inl e \<Rightarrow> cleanup e fs
                 | Inr _ \<Rightarrow>
                     (let fs1 = append_file (io_now env) tmp (gzip (lf_bytes f)) (create (io_now env) tmp (remove_file tmp fs))
                      in case and_then (attempt env (IoChmod tmp) ()) (\<lambda>_. attempt env (IoRename tmp gz) ()) of
                           Inl e \<Rightarrow> cleanup e fs1
                         | Inr _ \<Rightarrow>
                             (let fs2 = rename_file tmp gz fs1
                              in case attempt env (IoRemove name) () of
                                   Inl e \<Rightarrow> cleanup e fs2
                                 | Inr _ \<Rightarrow> (Inr (), remove_file name fs2)))))"

definition compress_next :: "(bytes \<Rightarrow> bytes) \<Rightarrow> sink_config \<Rightarrow> jstr \<Rightarrow> io_env \<Rightarrow> sink_state \<Rightarrow> sink_state" where
  "compress_next gzip c name env s =
     (let s1 = s\<lparr>ss_compressing := remove1 name (ss_compressing s)\<rparr>
      in case compressBackup gzip env name (ss_files s1) of
           (Inl e, fs) \<Rightarrow> reportFailure ''backup compression failed; keeping plain backup'' e (s1\<lparr>ss_files := fs\<rparr>)
         | (Inr _, fs) \<Rightarrow> pruneBackups env c (s1\<lparr>ss_files := fs\<rparr>))"

end
