(* ===== verification/Logger_File_Facts.thy ===== *)
theory Logger_File_Facts
  imports Logger_File
begin

text \<open>
  Facts about the file sink: the names of backups are distinct, so the search for a free one ends; the active
  file is never pruned; and the properties of writing, retention and failure.
\<close>

section \<open>Names of backups are distinct\<close>

definition year_length :: "nat \<Rightarrow> nat" where "year_length y = (if leap y then 366 else 365)"

lemma year_of_spec:
  "year_of y d = (y', d') \<Longrightarrow> y \<le> y' \<and> d' < year_length y' \<and> d = sum year_length {y..<y'} + d'"
proof (induction y d rule: year_of.induct)
  case (1 y d)
  show ?case
  proof (cases "d < year_length y")
    case True
    then show ?thesis using 1(2) by (subst (asm) year_of.simps) (simp add: year_length_def)
  next
    case False
    then have "year_of (Suc y) (d - year_length y) = (y', d')"
      using 1(2) by (subst (asm) year_of.simps) (simp add: year_length_def split: if_splits)
    then have r: "Suc y \<le> y'" "d' < year_length y'" "d - year_length y = sum year_length {Suc y..<y'} + d'"
      using 1(1) False by (auto simp: year_length_def)
    have "sum year_length {y..<y'} = year_length y + sum year_length {Suc y..<y'}"
      using r(1) by (simp add: sum.atLeast_Suc_lessThan)
    then show ?thesis using r False by simp
  qed
qed

lemma month_of_spec:
  "month_of ls m d = (m', d') \<Longrightarrow> d < sum_list ls \<Longrightarrow>
    m \<le> m' \<and> m' - m < length ls \<and> d' < ls ! (m' - m) \<and> d = sum_list (take (m' - m) ls) + d'"
proof (induction ls arbitrary: m d)
  case (Cons l ls)
  show ?case
  proof (cases "d < l")
    case False
    then have "month_of ls (Suc m) (d - l) = (m', d')" "d - l < sum_list ls" using Cons.prems by simp_all
    from Cons.IH [OF this] have i: "Suc m \<le> m'" "m' - Suc m < length ls" "d' < ls ! (m' - Suc m)"
      "d - l = sum_list (take (m' - Suc m) ls) + d'" by simp_all
    moreover have "m' - m = Suc (m' - Suc m)" using i(1) by simp
    ultimately show ?thesis using False by simp
  qed (use Cons.prems in simp)
qed simp

lemma month_days_sum: "sum_list (month_days y) = year_length y" "length (month_days y) = 12"
  by (simp_all add: month_days_def year_length_def)

lemma month_days_bound: "i < 12 \<Longrightarrow> month_days y ! i \<le> 31"
proof -
  assume "i < 12"
  then have "month_days y ! i \<in> set (month_days y)" using month_days_sum(2) nth_mem by metis
  then show ?thesis by (auto simp: month_days_def split: if_splits)
qed

lemma digits_zeros10: "digits_int 10 (replicate k 48 @ s) = digits_int 10 s"
proof -
  have "digit_value 48 = 0" by (simp add: digit_value_def is_digit_def)
  then have "foldl (\<lambda>n c. n * 10 + digit_value c) 0 (replicate k 48) = (0 :: int)" by (induction k) simp_all
  then show ?thesis by (simp add: digits_int_def)
qed

lemma pad_value: "0 \<le> v \<Longrightarrow> digits_int 10 (pad v w) = v"
  by (simp add: pad_def digits_zeros10 int_text_def decimal_digits)

lemma pad_length: "0 \<le> v \<Longrightarrow> v < 10 ^ Suc k \<Longrightarrow> length (pad v (Suc k)) = Suc k"
  using digits_length [of 10 v k] by (simp add: pad_def int_text_def)

lemma pad_digits: "0 \<le> v \<Longrightarrow> list_all is_digit (pad v w)"
  using decimal_digits(2) [of v] by (auto simp: pad_def int_text_def list_all_iff is_digit_def)

lemma pad_eq:
  "0 \<le> v \<Longrightarrow> 0 \<le> v' \<Longrightarrow> v < 10 ^ Suc k \<Longrightarrow> v' < 10 ^ Suc k \<Longrightarrow>
    pad v (Suc k) @ r = pad v' (Suc k) @ r' \<longleftrightarrow> v = v' \<and> r = r'"
  using pad_length [of v k] pad_length [of v' k] pad_value by (metis append_eq_append_conv)

text \<open>The civil time a stamp shows: year, month, day and milliseconds of the day.\<close>

definition civil :: "int \<Rightarrow> nat \<times> nat \<times> nat \<times> int" where
  "civil t =
     (case year_of 1970 (nat (t div MILLIS_PER_DAY)) of (y, yd) \<Rightarrow>
      case month_of (month_days y) 1 yd of (m, d) \<Rightarrow> (y, m, d, t mod MILLIS_PER_DAY))"

lemma civil_spec:
  assumes "0 \<le> t" "civil t = (y, m, d, ms)"
  shows "t = int (sum year_length {1970..<y} + sum_list (take (m - 1) (month_days y)) + d) * MILLIS_PER_DAY + ms"
    "1970 \<le> y" "m \<le> 12" "d < 31" "0 \<le> ms" "ms < MILLIS_PER_DAY"
proof -
  obtain yd where y: "year_of 1970 (nat (t div MILLIS_PER_DAY)) = (y, yd)" and
    m: "month_of (month_days y) 1 yd = (m, d)" and ms: "ms = t mod MILLIS_PER_DAY"
    using assms(2) by (auto simp: civil_def split: prod.splits)
  note ys = year_of_spec [OF y]
  have "yd < sum_list (month_days y)" using ys by (simp add: month_days_sum)
  note mo = month_of_spec [OF m this]
  have pos: "0 \<le> t div MILLIS_PER_DAY" using assms(1) by (simp add: MILLIS_PER_DAY_def pos_imp_zdiv_nonneg_iff)
  have "int (nat (t div MILLIS_PER_DAY)) = t div MILLIS_PER_DAY" using pos by simp
  then have "t div MILLIS_PER_DAY = int (sum year_length {1970..<y} + sum_list (take (m - 1) (month_days y)) + d)"
    using ys mo by simp
  then show "t = int (sum year_length {1970..<y} + sum_list (take (m - 1) (month_days y)) + d) * MILLIS_PER_DAY + ms"
    using ms by (metis div_mult_mod_eq)
  have m12: "m - 1 < 12" using mo by (simp add: month_days_sum)
  then show "1970 \<le> y" "m \<le> 12" using ys by linarith+
  show "d < 31" using mo month_days_bound [OF m12, of y] by simp
  show "0 \<le> ms" "ms < MILLIS_PER_DAY" by (simp_all add: ms MILLIS_PER_DAY_def)
qed

definition year_text :: "nat \<Rightarrow> jstr" where
  "year_text y = (if y \<le> 9999 then pad (int y) 4 else js ''+'' @ pad (int y) 6)"

lemma year_text_eq: "year_text y = year_text y' \<Longrightarrow> y = y'"
proof -
  assume e: "year_text y = year_text y'"
  have n: "pad (int a) 4 \<noteq> js ''+'' @ r" for a r
  proof
    assume "pad (int a) 4 = js ''+'' @ r"
    then have "list_all is_digit (js ''+'' @ r)" using pad_digits [of "int a" 4] by simp
    then show False by (simp add: js_def is_digit_def)
  qed
  have same: "y = y'" if "pad (int y) w = pad (int y') w" for w
    using that by (metis pad_value of_nat_0_le_iff of_nat_eq_iff)
  consider "y \<le> 9999" "y' \<le> 9999" | "y \<le> 9999" "\<not> y' \<le> 9999" | "\<not> y \<le> 9999" "y' \<le> 9999"
    | "\<not> y \<le> 9999" "\<not> y' \<le> 9999" by blast
  then show ?thesis
  proof cases
    case 1
    then show ?thesis using e same [of 4] unfolding year_text_def by (simp only: if_True)
  next
    case 2
    then show ?thesis using e n [of y "pad (int y') 6"] unfolding year_text_def by (simp only: if_True if_False)
  next
    case 3
    then show ?thesis using e [symmetric] n [of y' "pad (int y) 6"] unfolding year_text_def by (simp only: if_True if_False)
  next
    case 4
    then show ?thesis using e same [of 6] unfolding year_text_def by (simp only: if_False append_same_eq same_append_eq)
  qed
qed

lemma stamp_civil:
  "civil t = (y, m, d, ms) \<Longrightarrow>
    stamp t = year_text y @ js ''-'' @ pad (int m) 2 @ js ''-'' @ pad (int d + 1) 2 @ js ''T'' @
      pad (ms div 3600000) 2 @ js ''-'' @ pad (ms div 60000 mod 60) 2 @ js ''-'' @
      pad (ms div 1000 mod 60) 2 @ js ''.'' @ pad (ms mod 1000) 3"
  by (auto simp: stamp_def civil_def year_text_def Let_def split: prod.splits)

lemma pad2_eq:
  "0 \<le> v \<Longrightarrow> v < 100 \<Longrightarrow> 0 \<le> v' \<Longrightarrow> v' < 100 \<Longrightarrow> pad v 2 @ q = pad v' 2 @ q' \<Longrightarrow> v = v' \<and> q = q'"
  using pad_eq [of v v' 1 q q'] by (simp add: numeral_2_eq_2)

lemma pad_width:
  "0 \<le> v \<Longrightarrow> v < 100 \<Longrightarrow> length (pad v 2) = 2" "0 \<le> v \<Longrightarrow> v < 1000 \<Longrightarrow> length (pad v 3) = 3"
  using pad_length [of v 1] pad_length [of v 2] by (simp_all add: numeral_2_eq_2 numeral_3_eq_3)

text \<open>The time of day and the day of the year, as the stamp shows them.\<close>

definition clock_text :: "int \<Rightarrow> jstr" where
  "clock_text ms = pad (ms div 3600000) 2 @ js ''-'' @ pad (ms div 60000 mod 60) 2 @ js ''-'' @
     pad (ms div 1000 mod 60) 2 @ js ''.'' @ pad (ms mod 1000) 3"

lemma hour_bound: "0 \<le> a \<Longrightarrow> a < MILLIS_PER_DAY \<Longrightarrow> 0 \<le> a div 3600000 \<and> a div 3600000 < 24"
  by (simp add: MILLIS_PER_DAY_def) linarith

lemma clock_eq:
  assumes "0 \<le> ms" "ms < MILLIS_PER_DAY" "0 \<le> ms'" "ms' < MILLIS_PER_DAY" "clock_text ms = clock_text ms'"
  shows "ms = ms'"
proof -
  note h = hour_bound [OF assms(1,2)] hour_bound [OF assms(3,4)]
  have 1: "ms div 3600000 = ms' div 3600000 \<and>
      js ''-'' @ pad (ms div 60000 mod 60) 2 @ js ''-'' @ pad (ms div 1000 mod 60) 2 @ js ''.'' @ pad (ms mod 1000) 3 =
      js ''-'' @ pad (ms' div 60000 mod 60) 2 @ js ''-'' @ pad (ms' div 1000 mod 60) 2 @ js ''.'' @ pad (ms' mod 1000) 3"
    by (rule pad2_eq) (use h assms(5) in \<open>simp_all add: clock_text_def\<close>)
  have 2: "ms div 60000 mod 60 = ms' div 60000 mod 60 \<and>
      js ''-'' @ pad (ms div 1000 mod 60) 2 @ js ''.'' @ pad (ms mod 1000) 3 =
      js ''-'' @ pad (ms' div 1000 mod 60) 2 @ js ''.'' @ pad (ms' mod 1000) 3"
    by (rule pad2_eq) (use conjunct2 [OF 1] in simp_all)
  have 3: "ms div 1000 mod 60 = ms' div 1000 mod 60 \<and> js ''.'' @ pad (ms mod 1000) 3 = js ''.'' @ pad (ms' mod 1000) 3"
    by (rule pad2_eq) (use conjunct2 [OF 2] in simp_all)
  then have "pad (ms mod 1000) 3 = pad (ms' mod 1000) 3" by simp
  then have milli: "ms mod 1000 = ms' mod 1000" by (metis pad_value pos_mod_sign zero_less_numeral)
  have split: "a = (a div 3600000) * 3600000 + (a div 60000 mod 60) * 60000 + (a div 1000 mod 60) * 1000 + a mod 1000" for a :: int
  proof -
    have "a div 60000 = a div 1000 div 60" "a div 3600000 = a div 60000 div 60"
      using zdiv_zmult2_eq [of 60 a 1000] zdiv_zmult2_eq [of 60 a 60000] by simp_all
    then show ?thesis
      using div_mult_mod_eq [of a 1000] div_mult_mod_eq [of "a div 1000" 60] div_mult_mod_eq [of "a div 60000" 60] by linarith
  qed
  show ?thesis
    using split [of ms] split [of ms'] conjunct1 [OF 1] conjunct1 [OF 2] conjunct1 [OF 3] milli by linarith
qed

lemma clock_length: "0 \<le> ms \<Longrightarrow> ms < MILLIS_PER_DAY \<Longrightarrow> length (clock_text ms) = 12"
proof -
  assume "0 \<le> ms" "ms < MILLIS_PER_DAY"
  then have "length (pad (ms div 3600000) 2) = 2" using hour_bound [of ms] by (intro pad_width) simp_all
  moreover have "length (pad (a mod 60) 2) = 2" for a
  proof (intro pad_width)
    have "a mod 60 < 60" by simp
    then show "a mod 60 < 100" by linarith
  qed simp
  moreover have "length (pad (ms mod 1000) 3) = 3" by (intro pad_width) simp_all
  ultimately show ?thesis by (simp add: clock_text_def)
qed

lemma stamp_inject:
  assumes "0 \<le> t" "0 \<le> u" "stamp t = stamp u"
  shows "t = u"
proof -
  obtain y m d ms where t: "civil t = (y, m, d, ms)" by (metis prod_cases4)
  obtain y' m' d' ms' where u: "civil u = (y', m', d', ms')" by (metis prod_cases4)
  note ts = civil_spec [OF assms(1) t] and us = civil_spec [OF assms(2) u]
  let ?r = "\<lambda>m d ms. js ''-'' @ pad (int m) 2 @ js ''-'' @ pad (int d + 1) 2 @ js ''T'' @ clock_text ms"
  have len: "length (?r m d ms) = 19" "length (?r m' d' ms') = 19"
    using ts(3-6) us(3-6) by (simp_all add: pad_width clock_length)
  have "year_text y @ ?r m d ms = year_text y' @ ?r m' d' ms'"
    using assms(3) stamp_civil [OF t] stamp_civil [OF u] by (simp add: clock_text_def)
  then have r: "year_text y = year_text y'" "?r m d ms = ?r m' d' ms'"
    using len by (metis append_eq_append_conv)+
  have y: "y = y'" by (rule year_text_eq [OF r(1)])
  have 1: "int m = int m' \<and> js ''-'' @ pad (int d + 1) 2 @ js ''T'' @ clock_text ms =
      js ''-'' @ pad (int d' + 1) 2 @ js ''T'' @ clock_text ms'"
    by (rule pad2_eq) (use r(2) ts(3) us(3) in simp_all)
  have 2: "int d + 1 = int d' + 1 \<and> js ''T'' @ clock_text ms = js ''T'' @ clock_text ms'"
    by (rule pad2_eq) (use conjunct2 [OF 1] ts(4) us(4) in simp_all)
  have "ms = ms'" by (rule clock_eq [OF ts(5,6) us(5,6)]) (use 2 in simp)
  then show ?thesis using ts(1) us(1) y 1 2 by simp
qed

lemma free_name_found:
  assumes "0 \<le> t" "length fs < n"
  shows "free_name n env pre fs t \<noteq> None"
proof
  assume none: "free_name n env pre fs t = None"
  have taken: "free_name n env pre fs t = None \<Longrightarrow> i < n \<Longrightarrow> backup_name pre (t + int i) \<in> fst ` set fs" for i n t
  proof (induction n arbitrary: t i)
    case (Suc n)
    have "backup_name pre t \<in> fst ` set fs \<and> free_name n env pre fs (t + 1) = None"
      using Suc.prems(1) by (auto simp: map_of_eq_None_iff split: option.splits if_splits)
    then show ?case using Suc.IH [of "t + 1" "i - 1"] Suc.prems(2) by (cases i) (auto simp: add.assoc)
  qed simp
  let ?f = "\<lambda>i. backup_name pre (t + int i)"
  have "inj_on ?f {..<n}"
  proof (rule inj_onI)
    fix i j
    assume "?f i = ?f j"
    then have "stamp (t + int i) = stamp (t + int j)" by (simp add: backup_name_def)
    then have "t + int i = t + int j" by (intro stamp_inject) (use assms(1) in simp_all)
    then show "i = j" by simp
  qed
  then have "card (?f ` {..<n}) = n" by (simp add: card_image)
  moreover have "?f ` {..<n} \<subseteq> fst ` set fs" using taken [OF none] by auto
  ultimately have "n \<le> card (fst ` set fs)" by (metis card_mono finite_imageI List.finite_set)
  also have "\<dots> \<le> length fs" by (metis card_image_le card_length le_trans List.finite_set)
  finally show False using assms(2) by simp
qed

lemma backup_found: "0 \<le> ss_last s \<or> 0 \<le> io_now env \<Longrightarrow> nextBackupPath env pre s \<noteq> None"
  unfolding nextBackupPath_def by (rule free_name_found) auto

section \<open>Runs without faults\<close>

definition calm :: "int \<Rightarrow> io_env" where
  "calm now = \<lparr> io_now = now, io_fault = (\<lambda>_. None), io_partial = 0 \<rparr>"

lemma calm_simps [simp]: "io_now (calm now) = now" "io_fault (calm now) op = None" "attempt (calm now) op x = Inr x"
  by (simp_all add: calm_def attempt_def)

definition archive :: "files \<Rightarrow> bytes" where
  "archive fs = concat (map (\<lambda>(n, f). lf_bytes f) fs)"

lemma append_other: "name \<notin> fst ` set fs \<Longrightarrow> append_file now name bs fs = fs"
  unfolding append_file_def by (rule map_idI) force

lemma append_last:
  "name \<notin> fst ` set fs \<Longrightarrow> append_file now name bs (fs @ [(name, f)]) =
    fs @ [(name, f\<lparr>lf_bytes := lf_bytes f @ bs, lf_mtime := Some now\<rparr>)]"
  using append_other [of name fs now bs] by (simp add: append_file_def)

lemma remove_other: "name \<notin> fst ` set fs \<Longrightarrow> remove_file name fs = fs"
  unfolding remove_file_def by (rule filter_True) force

lemma map_of_last: "name \<notin> fst ` set fs \<Longrightarrow> map_of (fs @ [(name, f)]) name = Some f"
  by (induction fs) auto

lemma backup_is_backup: "is_backup pre (backup_name pre t)"
  by (simp add: is_backup_def backup_name_def starts_with_def ends_with_def)

lemma active_not_backup: "\<not> is_backup (stripLogExtension name @ js ''-'') name"
proof
  assume "is_backup (stripLogExtension name @ js ''-'') name"
  then have p: "take (length (stripLogExtension name) + 1) name = stripLogExtension name @ js ''-''"
    and log: "ends_with (js ''.log'') name \<or> ends_with (js ''.log.gz'') name"
    by (simp_all add: is_backup_def starts_with_def)
  have len: "length (stripLogExtension name) < length name" using arg_cong [OF p, of length] by simp
  then have e: "ends_with (js ''.log'') (lower name)" and st: "stripLogExtension name = take (length name - 4) name"
    by (auto simp: stripLogExtension_def split: if_splits)
  have l4: "4 \<le> length name" using e by (simp add: ends_with_def)
  have "name ! (length name - 4) = 45"
  proof -
    have "(take (length (stripLogExtension name) + 1) name) ! (length name - 4) = 45"
      unfolding p using l4 by (simp add: st nth_append js_def)
    then show ?thesis using l4 by (simp add: st)
  qed
  moreover have "lower name ! (length name - 4) = 46"
  proof -
    have "drop (length name - 4) (lower name) = js ''.log''" using e by (simp add: ends_with_def numeral_eq_Suc)
    then have "drop (length name - 4) (lower name) ! 0 = 46" by (simp add: js_def)
    then show ?thesis using l4 by simp
  qed
  moreover have "lower name ! (length name - 4) = lower_unit (name ! (length name - 4))" using l4 by (simp add: lower_def)
  ultimately show False by (simp add: lower_unit_def is_upper_def)
qed

text \<open>The sink between writes: the active file is the last of the directory and its size is known.\<close>

definition sink_inv :: "sink_config \<Rightarrow> sink_state \<Rightarrow> bool" where
  "sink_inv c s \<longleftrightarrow> ss_active s \<and> 0 \<le> ss_last s \<and> distinct (map fst (ss_files s)) \<and> ss_files s \<noteq> [] \<and>
     fst (last (ss_files s)) = sf_name c \<and> ss_size s = int (length (lf_bytes (snd (last (ss_files s))))) \<and>
     \<not> is_backup (sf_prefix c) (sf_name c)"

lemma sink_invE:
  assumes "sink_inv c s"
  obtains old f where "ss_files s = old @ [(sf_name c, f)]" "sf_name c \<notin> fst ` set old" "distinct (map fst old)"
    "ss_size s = int (length (lf_bytes f))" "ss_active s" "\<not> is_backup (sf_prefix c) (sf_name c)" "0 \<le> ss_last s"
proof -
  obtain old nf where files: "ss_files s = old @ [nf]" using assms by (metis append_butlast_last_id sink_inv_def)
  then have "nf = (sf_name c, snd nf)" using assms by (simp add: sink_inv_def prod_eq_iff)
  then obtain f where nf: "nf = (sf_name c, f)" by blast
  show thesis
    by (rule that [of old f]) (use assms files nf in \<open>auto simp: sink_inv_def\<close>)
qed

lemma sink_invI:
  assumes "ss_files s = old @ [(sf_name c, f)]" "sf_name c \<notin> fst ` set old" "distinct (map fst old)"
    "ss_size s = int (length (lf_bytes f))" "ss_active s" "\<not> is_backup (sf_prefix c) (sf_name c)" "0 \<le> ss_last s"
  shows "sink_inv c s"
  using assms by (simp add: sink_inv_def)

section \<open>Retention\<close>

lemma listed: "listBackups (calm now) pre fs = Inr (map (\<lambda>(n, f). (n, modified f)) (filter (\<lambda>(n, f). is_backup pre n) fs))"
proof -
  have "map_results (\<lambda>(n, f). attempt (calm now) (IoStat n) (n, modified f)) xs = Inr (map (\<lambda>(n, f). (n, modified f)) xs)" for xs
    by (induction xs) auto
  then show ?thesis by (simp add: listBackups_def)
qed

lemma removed_calm: "removeBackup (calm now) n s = (True, s\<lparr>ss_files := remove_file n (ss_files s)\<rparr>)"
  by (simp add: removeBackup_def)

definition drop_names :: "jstr set \<Rightarrow> files \<Rightarrow> files" where
  "drop_names ns fs = filter (\<lambda>(n, f). n \<notin> ns) fs"

lemma drop_drop: "drop_names ns (remove_file n fs) = drop_names (insert n ns) fs"
  by (induction fs) (auto simp: drop_names_def remove_file_def)

lemma remove_all_calm: "remove_all (calm now) bs s = s\<lparr>ss_files := drop_names (fst ` set bs) (ss_files s)\<rparr>"
proof (induction bs arbitrary: s)
  case (Cons b bs)
  obtain n t where "b = (n, t)" by fastforce
  then show ?case using Cons by (simp add: removed_calm drop_drop)
qed (simp add: drop_names_def case_prod_unfold)

lemma expire_calm:
  "expire (calm now) cutoff bs kept s =
    (filter (\<lambda>(n, t). n \<notin> fst ` set (filter (\<lambda>(n, t). t < cutoff) bs)) kept,
     s\<lparr>ss_files := drop_names (fst ` set (filter (\<lambda>(n, t). t < cutoff) bs)) (ss_files s)\<rparr>)"
proof (induction bs arbitrary: kept s)
  case (Cons b bs)
  obtain n t where b: "b = (n, t)" by fastforce
  show ?case
  proof (cases "cutoff \<le> t")
    case False
    have "filter (\<lambda>(m, u). m \<notin> S) (filter (\<lambda>(m, u). m \<noteq> n) kept) = filter (\<lambda>(m, u). m \<notin> insert n S) kept" for S :: "jstr set"
      by (induction kept) auto
    then show ?thesis using Cons b False by (simp add: removed_calm drop_drop)
  qed (use Cons b in simp)
qed (simp add: drop_names_def case_prod_unfold)

definition expired :: "int \<Rightarrow> sink_config \<Rightarrow> files \<Rightarrow> jstr set" where
  "expired now c fs =
     (if 0 < rr_maxAge (sf_rotation c)
      then fst ` set (filter (\<lambda>(n, f). is_backup (sf_prefix c) n \<and> modified f < now - rr_maxAge (sf_rotation c) * MILLIS_PER_DAY) fs)
      else {})"

definition surplus :: "int \<Rightarrow> (jstr \<times> int) list \<Rightarrow> jstr set" where
  "surplus n kept = (if n = 0 \<or> int (length kept) \<le> n then {} else fst ` set (drop (nat n) (sort_key (\<lambda>(m, t). - t) kept)))"

definition kept_backups :: "int \<Rightarrow> sink_config \<Rightarrow> files \<Rightarrow> (jstr \<times> int) list" where
  "kept_backups now c fs =
     map (\<lambda>(n, f). (n, modified f)) (filter (\<lambda>(n, f). is_backup (sf_prefix c) n \<and> n \<notin> expired now c fs) fs)"

lemma prune_calm:
  "pruneBackups (calm now) c s = s\<lparr>ss_files :=
    drop_names (surplus (rr_maxBackups (sf_rotation c)) (kept_backups now c (ss_files s))) (drop_names (expired now c (ss_files s)) (ss_files s))\<rparr>"
proof -
  let ?bs = "map (\<lambda>(n, f). (n, modified f)) (filter (\<lambda>(n, f). is_backup (sf_prefix c) n) (ss_files s))"
  let ?cut = "now - rr_maxAge (sf_rotation c) * MILLIS_PER_DAY"
  have e: "fst ` set (filter (\<lambda>(n, t). t < ?cut) ?bs) =
      fst ` set (filter (\<lambda>(n, f). is_backup (sf_prefix c) n \<and> modified f < ?cut) (ss_files s))" by force
  have k: "filter (\<lambda>(n, t). n \<notin> S) (map (\<lambda>(n, f). (n, modified f)) (filter (\<lambda>(n, f). is_backup (sf_prefix c) n) fs)) =
      map (\<lambda>(n, f). (n, modified f)) (filter (\<lambda>(n, f). is_backup (sf_prefix c) n \<and> n \<notin> S) fs)" for S and fs :: files
    by (induction fs) auto
  have k0: "?bs = map (\<lambda>(n, f). (n, modified f)) (filter (\<lambda>(n, f). is_backup (sf_prefix c) n \<and> n \<notin> {}) (ss_files s))" by simp
  have none: "drop_names {} fs = fs" for fs by (simp add: drop_names_def case_prod_unfold)
  show ?thesis
  proof (cases "0 < rr_maxAge (sf_rotation c)")
    case True
    then have x: "expired now c (ss_files s) = fst ` set (filter (\<lambda>(n, t). t < ?cut) ?bs)" by (simp only: expired_def e if_True)
    have "expire (calm now) ?cut ?bs ?bs s =
        (kept_backups now c (ss_files s), s\<lparr>ss_files := drop_names (expired now c (ss_files s)) (ss_files s)\<rparr>)"
      by (simp only: expire_calm x [symmetric] k kept_backups_def)
    then show ?thesis using True
      by (simp add: pruneBackups_def listed Let_def remove_all_calm surplus_def none)
  next
    case False
    then have "expired now c (ss_files s) = {}" by (simp add: expired_def)
    then show ?thesis using False
      by (simp add: pruneBackups_def listed Let_def remove_all_calm surplus_def kept_backups_def none)
  qed
qed

lemma kept_names: "fst ` set (kept_backups now c fs) = {n \<in> fst ` set fs. is_backup (sf_prefix c) n \<and> n \<notin> expired now c fs}"
  by (force simp: kept_backups_def)

lemma kept_distinct: "distinct (map fst fs) \<Longrightarrow> distinct (map fst (kept_backups now c fs))"
  by (simp add: kept_backups_def case_prod_unfold comp_def distinct_map_filter)

lemma surplus_drop: "n \<in> surplus b K \<Longrightarrow> surplus b K = fst ` set (drop (nat b) (sort_key (\<lambda>(m, t). - t) K))"
  by (auto simp: surplus_def split: if_splits)

lemma surplus_sub: "surplus b K \<subseteq> fst ` set K"
proof
  fix n assume n: "n \<in> surplus b K"
  then have "n \<in> fst ` set (drop (nat b) (sort_key (\<lambda>(m, t). - t) K))" using surplus_drop [OF n] by simp
  then show "n \<in> fst ` set K" by (metis (no_types, lifting) image_iff in_set_dropD set_sort)
qed

text \<open>What the bound leaves fits it, and is not older than what the bound removes.\<close>

lemma surplus_count:
  assumes "distinct (map fst K)" "0 \<le> b"
  shows "length (filter (\<lambda>n. n \<notin> surplus b K) (map fst K)) = (if b = 0 then length K else min (nat b) (length K))"
proof (cases "b = 0 \<or> int (length K) \<le> b")
  case True
  then have "surplus b K = {}" by (simp add: surplus_def)
  then show ?thesis using True assms(2) by (auto simp: min_def)
next
  case False
  let ?S = "sort_key (\<lambda>(m, t). - t) K"
  have d: "surplus b K = fst ` set (drop (nat b) ?S)" using False by (simp add: surplus_def)
  have ds: "distinct (map fst ?S)" using assms(1) by (simp add: distinct_map)
  have u: "set ?S = set (take (nat b) ?S) \<union> set (drop (nat b) ?S)" by (metis append_take_drop_id set_append)
  have "distinct (map fst (take (nat b) ?S) @ map fst (drop (nat b) ?S))"
    using ds by (metis append_take_drop_id map_append)
  then have dt: "distinct (map fst (take (nat b) ?S))"
    and apart: "fst ` set (take (nat b) ?S) \<inter> fst ` set (drop (nat b) ?S) = {}" by auto
  have "fst ` set K = fst ` set (take (nat b) ?S) \<union> fst ` set (drop (nat b) ?S)"
    using u by (metis image_Un set_sort)
  then have "set (filter (\<lambda>n. n \<notin> surplus b K) (map fst K)) = set (map fst (take (nat b) ?S))"
    unfolding d using apart by auto
  then have "length (filter (\<lambda>n. n \<notin> surplus b K) (map fst K)) = length (map fst (take (nat b) ?S))"
    using distinct_card [OF distinct_filter [OF assms(1), of "\<lambda>n. n \<notin> surplus b K"]] distinct_card [OF dt] by simp
  then show ?thesis using False by simp
qed

lemma surplus_older:
  assumes K: "distinct (map fst K)" and n: "(n, t) \<in> set K" "n \<in> surplus b K" and m: "(m, u) \<in> set K" "m \<notin> surplus b K"
  shows "t \<le> u"
proof -
  let ?S = "sort_key (\<lambda>(m, t). - t) K"
  note d = surplus_drop [OF n(2)]
  have "(m, u) \<in> set ?S" using m by simp
  then have tk: "(m, u) \<in> set (take (nat b) ?S)" using m(2) d
    by (metis (no_types, lifting) Un_iff append_take_drop_id fst_conv image_eqI set_append)
  obtain t' where dr: "(n, t') \<in> set (drop (nat b) ?S)" using n(2) d by force
  then have "(n, t') \<in> set K" by (metis in_set_dropD set_sort)
  then have t: "t' = t" using eq_key_imp_eq_value [OF K] n(1) by blast
  have "sorted (map (\<lambda>(m, t). - t) (take (nat b) ?S @ drop (nat b) ?S))"
    unfolding append_take_drop_id by (rule sorted_sort_key)
  then have "x \<in> set (take (nat b) ?S) \<Longrightarrow> y \<in> set (drop (nat b) ?S) \<Longrightarrow>
      (case x of (m, t) \<Rightarrow> - t) \<le> (case y of (m, t) \<Rightarrow> - t)" for x y
    unfolding map_append sorted_append by (simp only: set_map ball_simps)
  from this [OF tk dr] show ?thesis using t by simp
qed

text \<open>
  C33: Retention removes the right files.  When no call fails, pruning touches only files whose name starts with the
  base name and a dash and ends in \<^verbatim>\<open>.log\<close> or \<^verbatim>\<open>.log.gz\<close>: that is the code's test for a
  backup, which every backup of this sink passes and which another log's file can pass too
  (\<open>prune_takes_other_log\<close>).  The active file and everything else in the directory stay.  Of these backups
  those older than the maximal age are removed, and of the others exactly as many stay as the bound allows,
  or all without a bound; one that was removed for the bound is not newer than any that was kept.
\<close>

theorem retention_keeps_newest:
  assumes "distinct (map fst (ss_files s))" "fs = ss_files s" "fs' = ss_files (pruneBackups (calm now) c s)"
    "b = rr_maxBackups (sf_rotation c)" "cutoff = now - rr_maxAge (sf_rotation c) * MILLIS_PER_DAY" "0 \<le> b"
    and old: "old = (\<lambda>f. 0 < rr_maxAge (sf_rotation c) \<and> modified f < cutoff)"
    and young: "young = length (filter (\<lambda>(n, f). is_backup (sf_prefix c) n \<and> \<not> old f) fs)"
  shows "filter (\<lambda>(n, f). \<not> is_backup (sf_prefix c) n) fs' = filter (\<lambda>(n, f). \<not> is_backup (sf_prefix c) n) fs \<and>
    set fs' \<subseteq> set fs \<and>
    list_all (\<lambda>(n, f). is_backup (sf_prefix c) n \<longrightarrow> \<not> old f) fs' \<and>
    length (filter (\<lambda>(n, f). is_backup (sf_prefix c) n) fs') = (if b = 0 then young else min (nat b) young) \<and>
    list_all (\<lambda>(n, f). (n, f) \<in> set fs' \<or> old f \<or>
      list_all (\<lambda>(m, g). is_backup (sf_prefix c) m \<longrightarrow> modified f \<le> modified g) fs') fs"
proof -
  let ?B = "is_backup (sf_prefix c)" and ?E = "expired now c fs" and ?K = "kept_backups now c fs"
  let ?D = "surplus b (kept_backups now c fs)"
  have fs': "fs' = drop_names ?D (drop_names ?E fs)" by (simp add: assms prune_calm)
  have E: "n \<in> ?E \<Longrightarrow> ?B n" for n by (auto simp: expired_def split: if_splits)
  have DB: "n \<in> ?D \<Longrightarrow> ?B n" for n using surplus_sub [of b ?K] kept_names [of now c fs] by auto
  have mem: "(n, f) \<in> set fs' \<longleftrightarrow> (n, f) \<in> set fs \<and> n \<notin> ?E \<and> n \<notin> ?D" for n f by (auto simp: fs' drop_names_def)
  have one: "filter (\<lambda>(n, f). \<not> ?B n) fs' = filter (\<lambda>(n, f). \<not> ?B n) fs"
    unfolding fs' drop_names_def filter_filter by (rule filter_cong) (auto dest: E DB)
  have names: "map fst (filter (\<lambda>(n, f). ?B n) fs') = filter (\<lambda>n. n \<notin> ?D) (map fst ?K)"
    unfolding fs' kept_backups_def drop_names_def filter_filter filter_map map_map
    by (simp add: comp_def case_prod_unfold) (rule arg_cong [where f = "map fst"], rule filter_cong, auto)
  have dist: "distinct (map fst ?K)" using kept_distinct assms(1,2) by simp
  have exp: "n \<in> ?E \<longleftrightarrow> old f" if "(n, f) \<in> set fs" "?B n" for n f
  proof
    show "old f" if "n \<in> ?E"
      using that \<open>(n, f) \<in> set fs\<close> assms(1,2,5) unfolding old
      by (auto simp: expired_def split: if_splits dest: eq_key_imp_eq_value)
    show "n \<in> ?E" if "old f"
      using that \<open>(n, f) \<in> set fs\<close> \<open>?B n\<close> assms(5) unfolding old
      by (auto simp: expired_def intro!: image_eqI [of _ _ "(n, f)"])
  qed
  have "length ?K = young"
    unfolding young kept_backups_def length_map
    by (rule arg_cong [where f = length], rule filter_cong) (auto simp: exp)
  then have two: "length (filter (\<lambda>(n, f). ?B n) fs') = (if b = 0 then young else min (nat b) young)"
    using surplus_count [OF dist assms(6)] arg_cong [OF names, of length] by (simp only: length_map)
  have three: "\<not> old f" if "(n, f) \<in> set fs'" "?B n" for n f
    using that mem [of n f] exp by blast
  have K: "(n, modified f) \<in> set ?K" if "(n, f) \<in> set fs" "?B n" "n \<notin> ?E" for n f
    using that by (force simp: kept_backups_def)
  have four: "modified f \<le> modified g"
    if "(n, f) \<in> set fs" "(n, f) \<notin> set fs'" "n \<notin> ?E" "(m, g) \<in> set fs'" "?B m" for n f m g
  proof -
    have "n \<in> ?D" "(m, g) \<in> set fs" "m \<notin> ?E" "m \<notin> ?D" using that mem [of n f] mem [of m g] by blast+
    then show ?thesis using surplus_older [OF dist K _ K] that DB by blast
  qed
  have five: "(n, f) \<in> set fs' \<or> old f \<or> list_all (\<lambda>(m, g). ?B m \<longrightarrow> modified f \<le> modified g) fs'"
    if f: "(n, f) \<in> set fs" for n f
  proof (cases "n \<in> ?E")
    case True
    then show ?thesis using exp [OF f E [OF True]] by blast
  next
    case False
    then show ?thesis using four [OF f] by (fastforce simp: list_all_iff)
  qed
  have "list_all (\<lambda>(n, f). ?B n \<longrightarrow> \<not> old f) fs'" using three by (auto simp: list_all_iff)
  moreover have "list_all (\<lambda>(n, f). (n, f) \<in> set fs' \<or> old f \<or>
      list_all (\<lambda>(m, g). ?B m \<longrightarrow> modified f \<le> modified g) fs') fs"
    unfolding list_all_iff [of _ fs] using five by fast
  moreover have "set fs' \<subseteq> set fs" using mem by auto
  ultimately show ?thesis using one two by blast
qed

section \<open>Writing without faults\<close>

definition keeps_all :: "sink_config \<Rightarrow> bool" where
  "keeps_all c \<longleftrightarrow> rr_maxBackups (sf_rotation c) = 0 \<and> rr_maxAge (sf_rotation c) = 0"

lemma keeps_all_prune: "keeps_all c \<Longrightarrow> pruneBackups (calm now) c s = s"
  by (simp add: keeps_all_def prune_calm surplus_def expired_def drop_names_def case_prod_unfold)

lemma append_calm:
  assumes "name \<notin> fst ` set fs"
  shows "appendBytes (calm now) name bs (fs @ [(name, f)]) =
    (Inr (), fs @ [(name, f\<lparr>lf_bytes := lf_bytes f @ bs, lf_mtime := Some now\<rparr>)])"
  using assms map_of_last [of name fs f] by (simp add: appendBytes_def create_def append_last Let_def)

lemma free_name_free: "free_name n env pre fs t = Some (Inr u, t') \<Longrightarrow> map_of fs (backup_name pre t') = None \<and> t \<le> t'"
  by (induction n arbitrary: t) (fastforce split: option.splits if_splits)+

lemma rotate_calm:
  assumes "sink_inv c s" "keeps_all c" "ss_files s = old @ [(sf_name c, f)]"
  obtains t s' where "rotateActiveFile (calm now) c s = (Inr (), s')" "ss_last s < t" "backup_name (sf_prefix c) t \<notin> fst ` set (ss_files s)"
    "ss_files s' = old @ [(backup_name (sf_prefix c) t, f), (sf_name c, \<lparr> lf_bytes = [], lf_mtime = Some now, lf_birthtime = Some now \<rparr>)]"
    "ss_size s' = 0" "ss_last s' = t" "ss_active s' = ss_active s" "ss_console s' = ss_console s" "ss_teed s' = ss_teed s"
proof -
  have inv: "sf_name c \<notin> fst ` set old" "\<not> is_backup (sf_prefix c) (sf_name c)" "0 \<le> ss_last s"
    using assms(1,3) by (auto simp: sink_inv_def)
  obtain r t where r: "nextBackupPath (calm now) (sf_prefix c) s = Some (r, t)"
    using backup_found [of s "calm now" "sf_prefix c"] inv(3) by auto
  have "r = Inr ()" using r unfolding nextBackupPath_def
  proof -
    have "free_name n (calm now) pre fs t0 = Some (r, t) \<Longrightarrow> r = Inr ()" for n pre fs t0
      by (induction n arbitrary: t0) (auto split: if_splits)
    then show ?thesis using r unfolding nextBackupPath_def by blast
  qed
  then have r: "nextBackupPath (calm now) (sf_prefix c) s = Some (Inr (), t)" using r by simp
  let ?b = "backup_name (sf_prefix c) t"
  have b: "map_of (ss_files s) ?b = None" "max now (ss_last s + 1) \<le> t"
    using free_name_free r unfolding nextBackupPath_def by (metis calm_simps(1))+
  then have nb: "?b \<notin> fst ` set (ss_files s)" by (simp add: map_of_eq_None_iff)
  have ne: "?b \<noteq> sf_name c" using inv(2) backup_is_backup by metis
  have "rename_file (sf_name c) ?b (ss_files s) = old @ [(?b, f)]"
    using nb inv(1) map_of_last [OF inv(1), of f] remove_other [of ?b "ss_files s"] remove_other [OF inv(1)]
    by (simp add: rename_file_def assms(3)) (simp add: remove_file_def)
  moreover have "map_of (old @ [(?b, f)]) (sf_name c) = None"
    using inv(1) ne by (auto simp: map_of_eq_None_iff map_add_def split: option.splits)
  ultimately have "rotateActiveFile (calm now) c s = (Inr (),
      (let s3 = s\<lparr>ss_last := t, ss_files := (old @ [(?b, f)]) @ [(sf_name c, \<lparr> lf_bytes = [], lf_mtime = Some now, lf_birthtime = Some now \<rparr>)], ss_size := 0\<rparr>
       in if rr_compress (sf_rotation c) then s3\<lparr>ss_compressing := ss_compressing s3 @ [?b]\<rparr> else s3))"
    by (simp add: rotateActiveFile_def r Let_def prepareActiveFile_def create_def keeps_all_prune [OF assms(2)])
  then obtain s' where s': "rotateActiveFile (calm now) c s = (Inr (), s')"
    "s' = (let s3 = s\<lparr>ss_last := t, ss_files := (old @ [(?b, f)]) @ [(sf_name c, \<lparr> lf_bytes = [], lf_mtime = Some now, lf_birthtime = Some now \<rparr>)], ss_size := 0\<rparr>
       in if rr_compress (sf_rotation c) then s3\<lparr>ss_compressing := ss_compressing s3 @ [?b]\<rparr> else s3)" by blast
  show thesis
    by (rule that [OF s'(1), where t = t]) (use nb b(2) in \<open>simp_all add: s'(2) Let_def\<close>)
qed

lemma write_calm:
  assumes "sink_inv c s" "keeps_all c"
  shows "sink_inv c (write_line c line (calm now) s) \<and>
    archive (ss_files (write_line c line (calm now) s)) = archive (ss_files s) @ line_bytes line \<and>
    (if rr_enable (sf_rotation c) \<and> rr_maxSizeBytes (sf_rotation c) < ss_size (write_line c line (calm now) s)
     then ss_size (write_line c line (calm now) s) = int (length (line_bytes line)) else True)"
proof -
  obtain old f where f: "ss_files s = old @ [(sf_name c, f)]" "sf_name c \<notin> fst ` set old" "distinct (map fst old)"
    "ss_size s = int (length (lf_bytes f))" "ss_active s" "\<not> is_backup (sf_prefix c) (sf_name c)" "0 \<le> ss_last s"
    using assms(1) by (rule sink_invE)
  let ?bs = "line_bytes line" and ?w = "write_line c line (calm now) s"
  have tee: "ss_files (tee_line t b line u) = ss_files u" "ss_size (tee_line t b line u) = ss_size u"
    "ss_active (tee_line t b line u) = ss_active u" "ss_last (tee_line t b line u) = ss_last u" for t b u
    by (simp_all add: tee_line_def split: tee.split)
  show ?thesis
  proof (cases "must_rotate c s ?bs")
    case False
    then have w: "?w = tee_line (sf_tee c) True line
        (s\<lparr>ss_files := old @ [(sf_name c, f\<lparr>lf_bytes := lf_bytes f @ ?bs, lf_mtime := Some now\<rparr>)], ss_size := ss_size s + int (length ?bs)\<rparr>)"
      using f(5) append_calm [OF f(2), of now ?bs f] f(1) by (simp add: write_line_def write_file_def)
    have "sink_inv c ?w"
      by (rule sink_invI [of _ old _ "f\<lparr>lf_bytes := lf_bytes f @ ?bs, lf_mtime := Some now\<rparr>"]) (use f in \<open>simp_all add: w tee\<close>)
    moreover have "archive (ss_files ?w) = archive (ss_files s) @ ?bs" by (simp add: w tee archive_def f(1))
    moreover have "ss_size ?w = ss_size s + int (length ?bs)" by (simp add: w tee)
    ultimately show ?thesis using False f(4) by (auto simp: must_rotate_def)
  next
    case True
    obtain t s' where r: "rotateActiveFile (calm now) c s = (Inr (), s')" "ss_last s < t"
      "backup_name (sf_prefix c) t \<notin> fst ` set (ss_files s)"
      "ss_files s' = old @ [(backup_name (sf_prefix c) t, f), (sf_name c, \<lparr> lf_bytes = [], lf_mtime = Some now, lf_birthtime = Some now \<rparr>)]"
      "ss_size s' = 0" "ss_last s' = t" "ss_active s' = ss_active s" "ss_console s' = ss_console s" "ss_teed s' = ss_teed s"
      using rotate_calm [OF assms f(1), of now] by metis
    let ?old = "old @ [(backup_name (sf_prefix c) t, f)]"
    let ?f = "\<lparr> lf_bytes = ?bs, lf_mtime = Some now, lf_birthtime = Some now \<rparr>"
    have ne: "backup_name (sf_prefix c) t \<noteq> sf_name c" using f(6) backup_is_backup by metis
    have fresh: "sf_name c \<notin> fst ` set ?old" "distinct (map fst ?old)" using f(1,2,3) r(3) ne by auto
    have "appendBytes (calm now) (sf_name c) ?bs (ss_files s') = (Inr (), ?old @ [(sf_name c, ?f)])"
      using append_calm [OF fresh(1), of now ?bs "\<lparr> lf_bytes = [], lf_mtime = Some now, lf_birthtime = Some now \<rparr>"] r(4) by simp
    then have w: "?w = tee_line (sf_tee c) True line (s'\<lparr>ss_files := ?old @ [(sf_name c, ?f)], ss_size := int (length ?bs)\<rparr>)"
      using f(5) True r(1,5) by (simp add: write_line_def write_file_def)
    have "sink_inv c ?w"
      by (rule sink_invI [of _ ?old _ ?f]) (use f r fresh in \<open>simp_all add: w tee\<close>)
    moreover have "archive (ss_files ?w) = archive (ss_files s) @ ?bs" by (simp add: w tee archive_def f(1))
    moreover have "ss_size ?w = int (length ?bs)" by (simp add: w tee)
    ultimately show ?thesis by simp
  qed
qed

definition write_all :: "sink_config \<Rightarrow> (jstr \<times> int) list \<Rightarrow> sink_state \<Rightarrow> sink_state" where
  "write_all c ws s = fold (\<lambda>(line, now) s. write_line c line (calm now) s) ws s"

lemma write_all_inv:
  assumes "sink_inv c s" "keeps_all c"
  shows "sink_inv c (write_all c ws s) \<and>
    archive (ss_files (write_all c ws s)) = archive (ss_files s) @ concat (map (\<lambda>(line, now). line_bytes line) ws)"
  using assms(1)
proof (induction ws arbitrary: s)
  case (Cons w ws)
  then show ?case using write_calm [OF Cons.prems assms(2)] by (cases w) (simp add: write_all_def)
qed (simp add: write_all_def)

lemma new_sink_inv:
  assumes "newFileSink dir name rot t fs (calm now) = (c, s)" "ss_active s" "distinct (map fst fs)" "trim name \<notin> fst ` set fs"
  shows "sink_inv c s \<and> archive (ss_files s) = archive fs \<and> sf_rotation c = resolveRotation rot \<and> sf_name c = trim name"
proof -
  obtain n where n: "and_then (normalizeFileName name) (\<lambda>name. and_then (joinPath dir name) (\<lambda>path. Inr name)) = Inr n"
  proof (cases "and_then (normalizeFileName name) (\<lambda>name. and_then (joinPath dir name) (\<lambda>path. Inr name))")
    case (Inl e)
    then have "s = reportFailure ''file sink unavailable; using stdout'' e (empty_sink fs)"
      using assms(1) by (simp add: newFileSink_def Let_def)
    then show ?thesis using assms(2) by (simp add: reportFailure_def empty_sink_def Let_def)
  qed
  then have nt: "n = trim name" by (auto simp: normalizeFileName_def Let_def split: if_splits)
  let ?f = "\<lparr> lf_bytes = [], lf_mtime = Some now, lf_birthtime = Some now \<rparr>"
  have m: "map_of fs (trim name) = None" using assms(4) by (simp add: map_of_eq_None_iff)
  have m': "map_of (fs @ [(trim name, ?f)]) (trim name) = Some ?f" by (rule map_of_last [OF assms(4)])
  have cs: "c = \<lparr> sf_dir = dir, sf_name = n, sf_prefix = stripLogExtension n @ js ''-'', sf_rotation = resolveRotation rot, sf_tee = t \<rparr>"
    "s = (empty_sink (fs @ [(n, ?f)]))\<lparr>ss_active := True, ss_size := 0\<rparr>"
    using assms(1) n m m' by (auto simp: newFileSink_def Let_def prepareActiveFile_def create_def nt)
  have "sink_inv c s"
    by (rule sink_invI [of _ fs _ ?f]) (use assms(3,4) active_not_backup [of n] in \<open>simp_all add: cs empty_sink_def nt\<close>)
  then show ?thesis by (simp add: cs nt archive_def empty_sink_def)
qed

lemma write_all_snoc: "write_all c (ws @ [(line, now)]) s = write_line c line (calm now) (write_all c ws s)"
  by (simp add: write_all_def)

text \<open>
  C32: No line is lost to rotation.  As long as the file system does not fail and retention is unlimited, the bytes of the
  directory, oldest backup first and the active file last, are what it held before followed by every line written,
  each ended by a line feed; and with rotation enabled the active file exceeds the bound only where a single line does.
\<close>

theorem file_sink_keeps_lines:
  assumes "newFileSink dir name rot t fs (calm now) = (c, s)" "ss_active s" "distinct (map fst fs)"
    "trim name \<notin> fst ` set fs" "keeps_all c"
  shows "archive (ss_files (write_all c ws s)) = archive fs @ concat (map (\<lambda>(line, now). line_bytes line) ws) \<and>
    (case map_of (ss_files (write_all c ws s)) (trim name) of None \<Rightarrow> False
     | Some f \<Rightarrow> if ws = [] \<or> \<not> rr_enable (sf_rotation c) then True
         else int (length (lf_bytes f)) \<le> max (rr_maxSizeBytes (sf_rotation c)) (int (length (line_bytes (fst (last ws))))))"
proof -
  have new: "sink_inv c s" "archive (ss_files s) = archive fs" "sf_name c = trim name"
    using new_sink_inv [OF assms(1-4)] by simp_all
  note w = write_all_inv [OF new(1) assms(5), of ws]
  obtain old f where f: "ss_files (write_all c ws s) = old @ [(sf_name c, f)]" "sf_name c \<notin> fst ` set old"
    "ss_size (write_all c ws s) = int (length (lf_bytes f))"
    using sink_invE [OF conjunct1 [OF w]] by metis
  have "map_of (ss_files (write_all c ws s)) (trim name) = Some f"
    using map_of_last [OF f(2), of f] f(1) new(3) by simp
  moreover have "int (length (lf_bytes f)) \<le> max (rr_maxSizeBytes (sf_rotation c)) (int (length (line_bytes (fst (last ws)))))"
    if ws: "ws \<noteq> []" "rr_enable (sf_rotation c)"
  proof -
    obtain vs line n where v: "ws = vs @ [(line, n)]" using ws(1) by (metis append_butlast_last_id surj_pair)
    have "sink_inv c (write_all c vs s)" using write_all_inv [OF new(1) assms(5), of vs] by simp
    from write_calm [OF this assms(5), of line n] have "if rr_maxSizeBytes (sf_rotation c) < ss_size (write_all c ws s)
        then ss_size (write_all c ws s) = int (length (line_bytes line)) else True"
      using ws(2) by (simp add: v write_all_snoc)
    then show ?thesis using f(3) v by (simp split: if_splits)
  qed
  ultimately show ?thesis using w new(2) by auto
qed

definition small_rotation :: rotate_options where
  "small_rotation = \<lparr> ro_enable = Some True, ro_maxSize = number (1 / 100000), ro_maxBackups = number 0, ro_maxAge = number 0,
     ro_compress = None \<rparr>"

abbreviation small_sink :: "sink_config \<times> sink_state" where
  "small_sink \<equiv> newFileSink (js ''logs'') (js ''api.log'') (Some small_rotation) NoTee [] (calm 0)"

theorem file_sink_keeps_lines_witness:
  "archive (ss_files (write_all (fst small_sink) [(js ''hello'', 0), (js ''world'', 1)] (snd small_sink))) =
     line_bytes (js ''hello'') @ line_bytes (js ''world'')"
proof -
  have "ss_active (snd small_sink)" "keeps_all (fst small_sink)" by code_simp+
  then show ?thesis
    using file_sink_keeps_lines [of "js ''logs''" "js ''api.log''" "Some small_rotation" NoTee "[]" 0 "fst small_sink" "snd small_sink"
      "[(js ''hello'', 0), (js ''world'', 1)]"] by (simp add: archive_def)
qed

definition one_backup :: sink_config where
  "one_backup = \<lparr> sf_dir = js ''logs'', sf_name = js ''api.log'', sf_prefix = js ''api-'',
     sf_rotation = \<lparr> rr_enable = True, rr_maxSizeBytes = 10, rr_maxBackups = 1, rr_maxAge = 0, rr_compress = False \<rparr>, sf_tee = NoTee \<rparr>"

definition three_files :: files where
  "three_files = map (\<lambda>(n, t). (n, \<lparr> lf_bytes = [], lf_mtime = Some t, lf_birthtime = None \<rparr>))
     [(js ''api-1.log'', 5), (js ''api-2.log'', 9), (js ''api.log'', 9)]"

theorem retention_keeps_newest_witness:
  "map fst (ss_files (pruneBackups (calm 10) one_backup (empty_sink three_files))) = [js ''api-2.log'', js ''api.log''] \<and>
   length (filter (\<lambda>(n, f). is_backup (js ''api-'') n) (ss_files (pruneBackups (calm 10) one_backup (empty_sink three_files)))) = 1"
proof -
  have d: "distinct (map fst (ss_files (empty_sink three_files)))" by code_simp
  have "map fst (ss_files (pruneBackups (calm 10) one_backup (empty_sink three_files))) = [js ''api-2.log'', js ''api.log'']"
    by code_simp
  moreover have "length (filter (\<lambda>(n, f). is_backup (js ''api-'') n \<and>
      \<not> (0 < rr_maxAge (sf_rotation one_backup) \<and> modified f < 10 - rr_maxAge (sf_rotation one_backup) * MILLIS_PER_DAY))
      (ss_files (empty_sink three_files))) = 2" by code_simp
  ultimately show ?thesis
    using retention_keeps_newest [OF d refl refl refl refl _ refl refl, where now = 10 and c = one_backup]
    by (simp add: one_backup_def)
qed

text \<open>The files of a service whose name extends that of another by a dash count as its backups.\<close>

lemma prune_takes_other_log:
  "map fst (ss_files (pruneBackups (calm 10) one_backup
     (empty_sink (map (\<lambda>(n, t). (n, \<lparr> lf_bytes = [], lf_mtime = Some t, lf_birthtime = None \<rparr>))
       [(js ''api-admin.log'', 5), (js ''api-2.log'', 9), (js ''api.log'', 9)])))) = [js ''api-2.log'', js ''api.log'']"
  by code_simp

section \<open>Failures\<close>

text \<open>What rotation and retention leave alone: the console, the tee and whether the file is in use.\<close>

definition same_output :: "sink_state \<Rightarrow> sink_state \<Rightarrow> bool" where
  "same_output s t \<longleftrightarrow> ss_console t = ss_console s \<and> ss_teed t = ss_teed s \<and> ss_active t = ss_active s"

lemma output_update [simp]:
  "same_output s (t\<lparr>ss_files := fs\<rparr>) = same_output s t" "same_output s (t\<lparr>ss_size := n\<rparr>) = same_output s t"
  "same_output s (t\<lparr>ss_last := n\<rparr>) = same_output s t" "same_output s (t\<lparr>ss_compressing := q\<rparr>) = same_output s t"
  "same_output s s"
  by (simp_all add: same_output_def)

lemma output_trans: "same_output s t \<Longrightarrow> same_output t u \<Longrightarrow> same_output s u"
  by (simp add: same_output_def)

lemma output_reported: "same_output s (reportFailure k e s)"
  by (simp add: reportFailure_def Let_def same_output_def)

lemma output_removed: "same_output s (snd (removeBackup env n s))"
  by (simp add: removeBackup_def output_reported split: sum.split)

lemma output_expire: "same_output s (snd (expire env cutoff bs kept s))"
proof (induction env cutoff bs kept s rule: expire.induct)
  case (2 env cutoff n t bs kept s)
  obtain r s' where r: "removeBackup env n s = (r, s')" by fastforce
  then have "same_output s s'" using output_removed [of s env n] by simp
  then show ?case using 2 r by (auto intro: output_trans)
qed simp

lemma output_remove_all: "same_output s (remove_all env bs s)"
  by (induction env bs s rule: remove_all.induct) (auto intro: output_trans output_removed)

lemma output_prune: "same_output s (pruneBackups env c s)"
proof (cases "listBackups env (sf_prefix c) (ss_files s)")
  case (Inr backups)
  obtain kept s' where k: "(if 0 < rr_maxAge (sf_rotation c)
      then expire env (io_now env - rr_maxAge (sf_rotation c) * MILLIS_PER_DAY) backups backups s else (backups, s)) = (kept, s')"
    by fastforce
  then have "same_output s s'"
    using output_expire [of s env "io_now env - rr_maxAge (sf_rotation c) * MILLIS_PER_DAY" backups backups] by (auto split: if_splits)
  then show ?thesis using Inr k output_trans [OF _ output_remove_all] by (simp add: pruneBackups_def Let_def)
qed (simp add: pruneBackups_def output_reported)

lemma output_rotate: "same_output s (snd (rotateActiveFile env c s))"
proof -
  have "same_output s (pruneBackups env c t)" if "same_output s t" for t
    using that output_prune output_trans by blast
  then show ?thesis by (simp add: rotateActiveFile_def Let_def split: option.split sum.split prod.split)
qed

lemma append_holds:
  assumes "appendBytes env name bs fs = (Inr u, fs')"
  shows "\<exists>f. map_of fs' name = Some f \<and> suffix bs (lf_bytes f)"
proof -
  have "map_of (append_file now name bs gs) name = map_option (\<lambda>f. f\<lparr>lf_bytes := lf_bytes f @ bs, lf_mtime := Some now\<rparr>) (map_of gs name)" for gs now
    by (induction gs) (auto simp: append_file_def)
  moreover have "map_of (create (io_now env) name fs) name \<noteq> None" by (auto simp: create_def map_add_def split: option.split)
  then obtain g where "map_of (create (io_now env) name fs) name = Some g" by blast
  moreover have "fs' = append_file (io_now env) name bs (create (io_now env) name fs)"
    using assms by (simp add: appendBytes_def Let_def split: sum.splits)
  ultimately show ?thesis by (simp add: suffix_def)
qed

text \<open>
  C34: A failing file system never costs a line.  Whatever calls fail while a line is written, it reaches the tee
  when there is one, and otherwise either the active file, whose contents then end with it, or the console; a failed
  write closes the file for good, and a sink that is not active leaves the directory alone.
\<close>

theorem file_sink_delivers:
  "(case sf_tee c of
      CustomTee \<Rightarrow> ss_teed (write_line c line env s) = ss_teed s @ [line]
    | ConsoleTee \<Rightarrow> ss_console (write_line c line env s) = ss_console s @ [line]
    | NoTee \<Rightarrow> ss_console (write_line c line env s) = ss_console s @ [line] \<or>
        ss_active s \<and> ss_active (write_line c line env s) = ss_active s \<and>
        (\<exists>f. map_of (ss_files (write_line c line env s)) (sf_name c) = Some f \<and> suffix (line_bytes line) (lf_bytes f))) \<and>
   (if ss_active s then True
    else ss_files (write_line c line env s) = ss_files s \<and> \<not> ss_active (write_line c line env s))"
proof (cases "ss_active s")
  case False
  then show ?thesis by (simp add: write_line_def tee_line_def split: tee.split)
next
  case True
  obtain r s1 where r: "(if must_rotate c s (line_bytes line) then rotateActiveFile env c s else (Inr (), s)) = (r, s1)" by fastforce
  then have s1: "ss_console s1 = ss_console s" "ss_teed s1 = ss_teed s" "ss_active s1 = ss_active s"
    using output_rotate [of s env c] by (auto simp: same_output_def split: if_splits)
  have reported_frame: "ss_console (reportFailure k e t) = ss_console t" "ss_teed (reportFailure k e t) = ss_teed t"
    "ss_files (reportFailure k e t) = ss_files t" "ss_active (reportFailure k e t) = ss_active t" for k e t
    by (simp_all add: reportFailure_def Let_def)
  show ?thesis
  proof (cases r)
    case (Inl e)
    then show ?thesis using True r s1
      by (simp add: write_line_def write_file_def tee_line_def reported_frame split: tee.split)
  next
    case (Inr u)
    obtain q fs where q: "appendBytes env (sf_name c) (line_bytes line) (ss_files s1) = (q, fs)" by fastforce
    show ?thesis
    proof (cases q)
      case (Inl e)
      then show ?thesis using True r s1 q \<open>r = Inr u\<close>
        by (simp add: write_line_def write_file_def tee_line_def reported_frame split: tee.split)
    next
      case (Inr v)
      then have "\<exists>f. map_of fs (sf_name c) = Some f \<and> suffix (line_bytes line) (lf_bytes f)" using append_holds q by metis
      then show ?thesis using True r s1 q \<open>r = Inr u\<close> Inr
        by (simp add: write_line_def write_file_def tee_line_def split: tee.split)
    qed
  qed
qed

end
