(* ===== verification/Http_Values.thy ===== *)
theory Http_Values
  imports JS_Values
begin

text \<open>
  The values the HTTP and gRPC code handles: thrown values, \<^verbatim>\<open>Headers\<close>, requests and responses, and the effects of
  a handler.  \<^verbatim>\<open>Headers\<close> and \<^verbatim>\<open>Response\<close> belong to the runtime's standard library; only what the source uses of
  them is described.
\<close>

section \<open>Thrown values and effects\<close>

datatype exn_kind = PlainError | GrpcErrorClass | HttpClientErrorClass | NotAnError

text \<open>What a \<^verbatim>\<open>catch\<close> can observe: the class, \<open>message\<close> (or \<^verbatim>\<open>String(e)\<close>) and the property \<open>code\<close>.\<close>

record exn =
  ex_kind :: exn_kind
  ex_text :: jstr
  ex_code :: jval

definition plain_error :: "jstr \<Rightarrow> exn" where
  "plain_error m = \<lparr>ex_kind = PlainError, ex_text = m, ex_code = JUndef\<rparr>"

text \<open>An effect takes the state of the process and answers with its outcome and the next state.\<close>

type_synonym ('w, 'a) effect = "'w \<Rightarrow> (exn + 'a) \<times> 'w"

definition effect_then :: "('w, 'a) effect \<Rightarrow> ('a \<Rightarrow> ('w, 'b) effect) \<Rightarrow> ('w, 'b) effect" where
  "effect_then m f w = (case m w of (Inl e, w') \<Rightarrow> (Inl e, w') | (Inr x, w') \<Rightarrow> f x w')"

definition lift_result :: "exn + 'a \<Rightarrow> ('w, 'a) effect" where
  "lift_result r w = (r, w)"

fun raise :: "jstr + 'a \<Rightarrow> exn + 'a" where
  "raise (Inl m) = Inl (plain_error m)"
| "raise (Inr x) = Inr x"

section \<open>Headers\<close>

text \<open>
  Names are kept in lower case, one combined text per name.  A name must be a token; a text must consist of bytes,
  loses the white space around it and may hold no NUL, CR or LF.
\<close>

type_synonym header_list = "(jstr \<times> jstr) list"

definition token_unit :: "16 word \<Rightarrow> bool" where
  "token_unit c \<longleftrightarrow> is_alpha c \<or> is_digit c \<or>
     c \<in> {33, 35, 36, 37, 38, 39, 42, 43, 45, 46, 94, 95, 96, 124, 126}"

definition header_name_ok :: "jstr \<Rightarrow> bool" where
  "header_name_ok n \<longleftrightarrow> n \<noteq> [] \<and> list_all token_unit n"

definition header_space :: "16 word \<Rightarrow> bool" where
  "header_space c \<longleftrightarrow> c = 9 \<or> c = 10 \<or> c = 13 \<or> c = 32"

definition header_text :: "jstr \<Rightarrow> jstr" where
  "header_text v = rev (dropWhile header_space (rev (dropWhile header_space v)))"

definition header_text_ok :: "jstr \<Rightarrow> bool" where
  "header_text_ok v \<longleftrightarrow> list_all (\<lambda>c. c < 256) v \<and> list_all (\<lambda>c. c \<noteq> 0 \<and> c \<noteq> 10 \<and> c \<noteq> 13) (header_text v)"

definition headers_get :: "header_list \<Rightarrow> jstr \<Rightarrow> exn + jstr option" where
  "headers_get hs n =
     (if header_name_ok n then Inr (map_of hs (lower n)) else Inl (plain_error (js ''Invalid header name'')))"

definition headers_set :: "jstr \<Rightarrow> jstr \<Rightarrow> header_list \<Rightarrow> exn + header_list" where
  "headers_set n v hs =
     (if \<not> header_name_ok n then Inl (plain_error (js ''Invalid header name''))
      else if \<not> header_text_ok v then Inl (plain_error (js ''Invalid header value''))
      else Inr (AList.update (lower n) (header_text v) hs))"

fun headers_set_all :: "(jstr \<times> jstr) list \<Rightarrow> header_list \<Rightarrow> exn + header_list" where
  "headers_set_all [] hs = Inr hs"
| "headers_set_all ((n, v) # nvs) hs = and_then (headers_set n v hs) (headers_set_all nvs)"

text \<open>\<^verbatim>\<open>{...a, ...b}\<close> on objects of strings.\<close>

definition spread_over :: "(jstr \<times> jstr) list \<Rightarrow> (jstr \<times> jstr) list \<Rightarrow> (jstr \<times> jstr) list" where
  "spread_over a b = foldl (\<lambda>m (k, v). AList.update k v m) a b"

section \<open>Requests and responses\<close>

text \<open>A request is an object: \<open>req_id\<close> is its identity, the key of the \<^verbatim>\<open>WeakMap\<close>s.\<close>

record request =
  req_id :: nat
  req_method :: jstr
  req_url :: jstr
  req_headers :: header_list

record response =
  res_status :: int
  res_statusText :: jstr
  res_headers :: header_list
  res_body :: jstr
  res_immutable :: bool

type_synonym 'w handler = "request \<Rightarrow> ('w, response) effect"
type_synonym 'w middleware = "'w handler \<Rightarrow> 'w handler"

text \<open>\<^verbatim>\<open>new Response(body, init)\<close>: a status outside 200..599 other than 101 is a \<open>RangeError\<close>.\<close>

definition new_response :: "jstr \<Rightarrow> int \<Rightarrow> jstr \<Rightarrow> header_list \<Rightarrow> exn + response" where
  "new_response body st stText hs =
     (if (200 \<le> st \<and> st \<le> 599) \<or> st = 101
      then Inr \<lparr>res_status = st, res_statusText = stText, res_headers = hs, res_body = body, res_immutable = False\<rparr>
      else Inl (plain_error (js ''The status provided is outside the range'')))"

definition json_response :: "jval \<Rightarrow> int \<Rightarrow> exn + response" where
  "json_response v st = new_response (json_print v) st [] [(js ''content-type'', js ''application/json'')]"

text \<open>\<^verbatim>\<open>list.reduceRight((next, mw) => mw(next), handler)\<close>\<close>

definition wrap_with :: "('h \<Rightarrow> 'h) list \<Rightarrow> 'h \<Rightarrow> 'h" where
  "wrap_with mws h = foldr (\<lambda>mw nxt. mw nxt) mws h"

section \<open>Facts\<close>

lemma wrap_with_simps [simp]:
  "wrap_with [] h = h" "wrap_with (m # ms) h = m (wrap_with ms h)"
  by (simp_all add: wrap_with_def)

lemma wrap_with_append [simp]: "wrap_with (ms @ ns) h = wrap_with ms (wrap_with ns h)"
  by (simp add: wrap_with_def)

lemma raise_Inr_iff [simp]: "raise r = Inr x \<longleftrightarrow> r = Inr x"
  by (cases r) simp_all

lemma headers_set_get:
  "headers_set n v hs = Inr ks \<Longrightarrow> map_of ks m = (if m = lower n then Some (header_text v) else map_of hs m)"
  by (auto simp: headers_set_def update_conv split: if_splits)

text \<open>After setting a list of headers each name has the text it was given last, or the one it had before.\<close>

lemma headers_set_all_get:
  "headers_set_all nvs hs = Inr ks \<Longrightarrow>
    map_of ks m = (case map_of (rev (map (\<lambda>(n, v). (lower n, header_text v)) nvs)) m of
      Some v \<Rightarrow> Some v | None \<Rightarrow> map_of hs m)"
proof (induction nvs arbitrary: hs)
  case (Cons nv nvs)
  obtain n v where nv: "nv = (n, v)" by (cases nv)
  then obtain hs' where step: "headers_set n v hs = Inr hs'" "headers_set_all nvs hs' = Inr ks"
    using Cons.prems by auto
  show ?case using Cons.IH [OF step(2)] headers_set_get [OF step(1), of m]
    by (simp add: nv map_add_def split: option.split)
qed simp

lemma headers_set_all_ok:
  "(\<exists>ks. headers_set_all nvs hs = Inr ks) \<longleftrightarrow> list_all (\<lambda>(n, v). header_name_ok n \<and> header_text_ok v) nvs"
proof (induction nvs arbitrary: hs)
  case (Cons nv nvs)
  obtain n v where "nv = (n, v)" by (cases nv)
  then show ?case using Cons.IH by (auto simp: headers_set_def)
qed simp

end
