(* ===== verification/Telemetry.thy ===== *)
theory Telemetry
  imports Http_Values Json_Round_Trip
begin

text \<open>
  The OpenTelemetry bridge of \<^verbatim>\<open>src/telemetry\<close>: span contexts and their W3C text, spans around operations and the
  instrumentation of unary gRPC calls.  The OpenTelemetry API itself is a record of functions over its opaque
  contexts; what the code tells its spans and instruments is kept as a log of calls.
\<close>

section \<open>The API\<close>

record span_context =
  sx_traceId :: jstr
  sx_spanId :: jstr
  sx_traceFlags :: int
  sx_isRemote :: bool

record 'o otel =
  ot_setSpan :: "'o \<Rightarrow> nat \<Rightarrow> 'o"
  ot_getSpan :: "'o \<Rightarrow> nat option"
  ot_spanContext :: "nat \<Rightarrow> span_context"
  ot_extract :: "'o \<Rightarrow> (jstr \<times> jstr list) list \<Rightarrow> 'o"
  ot_inject :: "'o \<Rightarrow> (jstr \<times> jstr) list"

datatype span_kind = InternalSpan | ServerSpan | ClientSpan

datatype span_status = StatusOk | StatusError jstr

datatype span_call =
    StartSpan jstr span_kind "(jstr \<times> jstr) list"
  | SetAttribute jstr jval
  | UpdateName jstr
  | SetStatus span_status
  | RecordException jstr
  | EndSpan

text \<open>
  The active context, the next span the API hands out, the calls made on spans, the durations recorded by
  instruments and the monotonic clock.
\<close>

record 'o telemetry =
  tel_context :: 'o
  tel_next :: nat
  tel_calls :: "(nat \<times> span_call) list"
  tel_durations :: "(jstr \<times> rat \<times> (jstr \<times> jstr) list) list"
  tel_now :: rat

definition span_call_on :: "nat \<Rightarrow> span_call \<Rightarrow> ('o, 'x) telemetry_scheme \<Rightarrow> ('o, 'x) telemetry_scheme" where
  "span_call_on i c w = w\<lparr>tel_calls := tel_calls w @ [(i, c)]\<rparr>"

definition startSpan ::
  "jstr \<Rightarrow> span_kind \<Rightarrow> (jstr \<times> jstr) list \<Rightarrow> ('o, 'x) telemetry_scheme \<Rightarrow> nat \<times> ('o, 'x) telemetry_scheme" where
  "startSpan nm k attrs w = (tel_next w, span_call_on (tel_next w) (StartSpan nm k attrs) (w\<lparr>tel_next := tel_next w + 1\<rparr>))"

definition calls_on :: "nat \<Rightarrow> ('o, 'x) telemetry_scheme \<Rightarrow> span_call list" where
  "calls_on i w = map snd (filter (\<lambda>c. fst c = i) (tel_calls w))"

section \<open>internal.ts\<close>

definition getActiveOtelSpan :: "'o otel \<Rightarrow> ('o, 'x) telemetry_scheme \<Rightarrow> nat option" where
  "getActiveOtelSpan ot w = ot_getSpan ot (tel_context w)"

text \<open>\<^verbatim>\<open>/^[0-9a-f]{n}$/\<close> and \<^verbatim>\<open>/^0+$/\<close>\<close>

definition is_low_hex :: "16 word \<Rightarrow> bool" where
  "is_low_hex c \<longleftrightarrow> is_digit c \<or> (97 \<le> c \<and> c \<le> 102)"

definition low_hex :: "nat \<Rightarrow> jstr \<Rightarrow> bool" where
  "low_hex n s \<longleftrightarrow> length s = n \<and> list_all is_low_hex s"

definition all_zero :: "jstr \<Rightarrow> bool" where
  "all_zero s \<longleftrightarrow> s \<noteq> [] \<and> list_all (\<lambda>c. c = 48) s"

definition isValidOtelSpanContext :: "span_context option \<Rightarrow> bool" where
  "isValidOtelSpanContext sx =
     (case sx of None \<Rightarrow> False
      | Some x \<Rightarrow> low_hex 32 (sx_traceId x) \<and> \<not> all_zero (sx_traceId x) \<and>
                 low_hex 16 (sx_spanId x) \<and> \<not> all_zero (sx_spanId x))"

text \<open>\<^verbatim>\<open>context.with(ctx, fn)\<close>: the context is active while the operation runs, and the former one after it.\<close>

definition with_context :: "'o \<Rightarrow> (('o, 'x) telemetry_scheme, 'a) effect \<Rightarrow> (('o, 'x) telemetry_scheme, 'a) effect" where
  "with_context c f w =
     (case f (w\<lparr>tel_context := c\<rparr>) of (r, w') \<Rightarrow> (r, w'\<lparr>tel_context := tel_context w\<rparr>))"

definition withOtelSpan ::
  "'o otel \<Rightarrow> nat \<Rightarrow> (('o, 'x) telemetry_scheme, 'a) effect \<Rightarrow> 'o \<Rightarrow> (('o, 'x) telemetry_scheme, 'a) effect" where
  "withOtelSpan ot i f parent = with_context (ot_setSpan ot parent i) f"

definition recordOtelError :: "nat option \<Rightarrow> exn \<Rightarrow> ('o, 'x) telemetry_scheme \<Rightarrow> ('o, 'x) telemetry_scheme" where
  "recordOtelError i e w =
     (case i of None \<Rightarrow> w
      | Some i \<Rightarrow> span_call_on i (SetStatus (StatusError (ex_text e))) (span_call_on i (RecordException (ex_text e)) w))"

definition recordOtelSuccess :: "nat option \<Rightarrow> ('o, 'x) telemetry_scheme \<Rightarrow> ('o, 'x) telemetry_scheme" where
  "recordOtelSuccess i w = (case i of None \<Rightarrow> w | Some i \<Rightarrow> span_call_on i (SetStatus StatusOk) w)"

definition setOtelHttpRoute ::
  "nat option \<Rightarrow> jstr \<Rightarrow> jstr \<Rightarrow> ('o, 'x) telemetry_scheme \<Rightarrow> ('o, 'x) telemetry_scheme" where
  "setOtelHttpRoute i method route w =
     (case i of None \<Rightarrow> w
      | Some i \<Rightarrow> span_call_on i (UpdateName (method @ 32 # route))
                 (span_call_on i (SetAttribute (js ''http.route'') (JStr route)) w))"

section \<open>mod.ts\<close>

definition activeSpan :: "'o otel \<Rightarrow> ('o, 'x) telemetry_scheme \<Rightarrow> nat option" where
  "activeSpan = getActiveOtelSpan"

definition activeSpanContext :: "'o otel \<Rightarrow> ('o, 'x) telemetry_scheme \<Rightarrow> span_context option" where
  "activeSpanContext ot w =
     (case getActiveOtelSpan ot w of
        None \<Rightarrow> None
      | Some i \<Rightarrow> if isValidOtelSpanContext (Some (ot_spanContext ot i)) then Some (ot_spanContext ot i) else None)"

definition isValidSpanContext :: "span_context option \<Rightarrow> bool" where
  "isValidSpanContext sx =
     (case sx of None \<Rightarrow> False
      | Some x \<Rightarrow> low_hex 32 (sx_traceId x) \<and> \<not> all_zero (sx_traceId x) \<and>
                 low_hex 16 (sx_spanId x) \<and> \<not> all_zero (sx_spanId x))"

text \<open>\<^verbatim>\<open>n.toString(16)\<close>, and \<^verbatim>\<open>padStart(n, "0")\<close>\<close>

definition hex_text :: "int \<Rightarrow> jstr" where
  "hex_text n = (if n < 0 then 45 # int_digits 16 (- n) else int_digits 16 n)"

definition pad_zeros :: "nat \<Rightarrow> jstr \<Rightarrow> jstr" where
  "pad_zeros n s = replicate (n - length s) 48 @ s"

definition traceparent :: "span_context option \<Rightarrow> jstr option" where
  "traceparent sx =
     (case sx of None \<Rightarrow> None
      | Some x \<Rightarrow>
          if isValidSpanContext sx
          then Some (js ''00-'' @ sx_traceId x @ 45 # sx_spanId x @ 45 # pad_zeros 2 (hex_text (sx_traceFlags x)))
          else None)"

definition setHttpRoute :: "nat option \<Rightarrow> jstr \<Rightarrow> jstr \<Rightarrow> ('o, 'x) telemetry_scheme \<Rightarrow> ('o, 'x) telemetry_scheme" where
  "setHttpRoute = setOtelHttpRoute"

definition runInSpan ::
  "'o otel \<Rightarrow> jstr \<Rightarrow> (nat \<Rightarrow> (('o, 'x) telemetry_scheme, 'a) effect) \<Rightarrow> (('o, 'x) telemetry_scheme, 'a) effect" where
  "runInSpan ot nm fn w =
     (case startSpan nm InternalSpan [] w of (i, w1) \<Rightarrow>
      case withOtelSpan ot i (fn i) (tel_context w1) w1 of
        (Inr x, w2) \<Rightarrow> (Inr x, span_call_on i EndSpan w2)
      | (Inl e, w2) \<Rightarrow> (Inl e, span_call_on i EndSpan (recordOtelError (Some i) e w2)))"

section \<open>grpc.ts\<close>

text \<open>Metadata as its contract describes it: all values of a key, in the order they were added.\<close>

datatype metadata_value = MdText jstr | MdBytes bytes

type_synonym metadata = "(jstr \<times> metadata_value list) list"

definition md_get :: "metadata \<Rightarrow> jstr \<Rightarrow> metadata_value list" where
  "md_get md k = (case map_of md k of Some vs \<Rightarrow> vs | None \<Rightarrow> [])"

definition md_set :: "jstr \<Rightarrow> metadata_value \<Rightarrow> metadata \<Rightarrow> metadata" where
  "md_set k v md = AList.update k [v] md"

fun md_text :: "(bytes \<Rightarrow> jstr) \<Rightarrow> metadata_value \<Rightarrow> jstr" where
  "md_text dec (MdText s) = s"
| "md_text dec (MdBytes b) = dec b"

text \<open>The carrier the propagator reads: every key of \<^verbatim>\<open>getMap()\<close> with its decoded values.\<close>

definition metadata_carrier :: "(bytes \<Rightarrow> jstr) \<Rightarrow> metadata \<Rightarrow> (jstr \<times> jstr list) list" where
  "metadata_carrier dec md = map (\<lambda>k. (k, map (md_text dec) (md_get md k))) (map fst md)"

definition inject_all :: "(jstr \<times> jstr) list \<Rightarrow> metadata \<Rightarrow> metadata" where
  "inject_all kvs md = foldl (\<lambda>m (k, v). md_set k (MdText v) m) md kvs"

definition last_index_of :: "16 word \<Rightarrow> jstr \<Rightarrow> nat option" where
  "last_index_of d s = map_option (\<lambda>i. length s - 1 - i) (index_of d (rev s))"

definition splitMethod :: "jstr \<Rightarrow> jstr option \<times> jstr" where
  "splitMethod method =
     (let n = (if starts_with (js ''/'') method then drop 1 method else method);
          or_unknown = (\<lambda>s. if s = [] then js ''unknown'' else s)
      in case last_index_of 47 n of
           None \<Rightarrow> (None, or_unknown n)
         | Some i \<Rightarrow> (if take i n = [] then None else Some (take i n), or_unknown (drop (i + 1) n)))"

definition rpcAttributes :: "jstr \<Rightarrow> jstr option \<Rightarrow> (jstr \<times> jstr) list" where
  "rpcAttributes operation service =
     [(js ''rpc.system'', js ''grpc''), (js ''rpc.method'', operation)] @
     (case service of Some s \<Rightarrow> if s = [] then [] else [(js ''rpc.service'', s)] | None \<Rightarrow> [])"

text \<open>A finite numeric \<open>code\<close>, else UNKNOWN.\<close>

definition grpcErrorCode :: "exn \<Rightarrow> rat" where
  "grpcErrorCode e = (case ex_code e of JNum n \<Rightarrow> n | _ \<Rightarrow> 2)"

definition record_duration :: "jstr \<Rightarrow> rat \<Rightarrow> (jstr \<times> jstr) list \<Rightarrow> ('o, 'x) telemetry_scheme \<Rightarrow> ('o, 'x) telemetry_scheme" where
  "record_duration nm started attrs w = w\<lparr>tel_durations := tel_durations w @ [(nm, tel_now w - started, attrs)]\<rparr>"

text \<open>The \<open>try\<close> around a call that both instrumentations share.\<close>

definition measured_call ::
  "jstr \<Rightarrow> nat \<Rightarrow> (jstr \<times> jstr) list \<Rightarrow> 'o \<Rightarrow> (('o, 'x) telemetry_scheme, 'a) effect \<Rightarrow> (('o, 'x) telemetry_scheme, 'a) effect" where
  "measured_call instrument i attrs active call w =
     (let status = (\<lambda>c. SetAttribute (js ''rpc.grpc.status_code'') (JNum c));
          done = (\<lambda>v. span_call_on i EndSpan (record_duration instrument (tel_now w) attrs v))
      in case with_context active call w of
           (Inr x, w') \<Rightarrow> (Inr x, done (recordOtelSuccess (Some i) (span_call_on i (status 0) w')))
         | (Inl e, w') \<Rightarrow> (Inl e, done (recordOtelError (Some i) e (span_call_on i (status (grpcErrorCode e)) w'))))"

definition grpcTelemetry ::
  "'o otel \<Rightarrow> (bytes \<Rightarrow> jstr) \<Rightarrow> jstr \<Rightarrow> metadata \<Rightarrow> (('o, 'x) telemetry_scheme, 'a) effect \<Rightarrow> (('o, 'x) telemetry_scheme, 'a) effect" where
  "grpcTelemetry ot dec ctx_method md nxt w =
     (let parent = ot_extract ot (tel_context w) (metadata_carrier dec md);
          method = (if ctx_method = [] then js ''grpc.unknown'' else ctx_method);
          attrs = rpcAttributes (snd (splitMethod method)) (fst (splitMethod method))
      in case startSpan method ServerSpan attrs w of (i, w1) \<Rightarrow>
           measured_call (js ''rpc.server.duration'') i attrs (ot_setSpan ot parent i) nxt w1)"

text \<open>The client call is handed the metadata with the propagator's entries.\<close>

definition withGrpcClientSpan ::
  "'o otel \<Rightarrow> jstr \<Rightarrow> jstr \<Rightarrow> metadata \<Rightarrow> (metadata \<Rightarrow> (('o, 'x) telemetry_scheme, 'a) effect) \<Rightarrow> (('o, 'x) telemetry_scheme, 'a) effect" where
  "withGrpcClientSpan ot method address md call w =
     (let operation = (if method = [] then js ''grpc.unknown'' else method);
          attrs = rpcAttributes operation None @ [(js ''server.address'', address)]
      in case startSpan method ClientSpan attrs w of (i, w1) \<Rightarrow>
           (let active = ot_setSpan ot (tel_context w) i
            in measured_call (js ''rpc.client.duration'') i attrs active (call (inject_all (ot_inject ot active) md)) w1))"

text \<open>An API without spans.\<close>

definition no_otel :: "unit otel" where
  "no_otel = \<lparr>ot_setSpan = (\<lambda>c i. c), ot_getSpan = (\<lambda>c. None),
     ot_spanContext = (\<lambda>i. \<lparr>sx_traceId = [], sx_spanId = [], sx_traceFlags = 0, sx_isRemote = False\<rparr>),
     ot_extract = (\<lambda>c h. c), ot_inject = (\<lambda>c. [])\<rparr>"

end
