(* ===== verification/Http_Server.thy ===== *)
theory Http_Server
  imports Telemetry
begin

text \<open>
  The HTTP server of \<^verbatim>\<open>src/config/server/http/server.ts\<close>: route registration, nested groups, the router and the
  composition of global middleware.  The global middleware of a server is the array of its options object, kept by
  reference; arrays and servers live in a store.  \<^verbatim>\<open>URLPattern\<close> belongs to the runtime.
\<close>

section \<open>Routes\<close>

record url_pattern =
  up_valid :: "jstr \<Rightarrow> bool"
  up_test :: "jstr \<Rightarrow> jstr \<Rightarrow> bool"

record 'w route_entry =
  rt_method :: jstr
  rt_path :: jstr
  rt_handler :: "'w handler"

definition joinPath :: "jstr \<Rightarrow> jstr \<Rightarrow> jstr" where
  "joinPath a b =
     (let left = rev (dropWhile (\<lambda>c. c = 47) (rev a));
          right = (if starts_with (js ''/'') b then b else js ''/'' @ b)
      in if left @ right = [] then js ''/'' else left @ right)"

definition not_found :: "exn + response" where
  "not_found = json_response (JObj [(js ''error'', JStr (js ''not found''))]) 404"

text \<open>\<open>#route\<close>: the first route whose method and pattern fit answers.\<close>

fun route_request ::
  "url_pattern \<Rightarrow> 'o otel \<Rightarrow> ('o, 'x) telemetry_scheme route_entry list \<Rightarrow> ('o, 'x) telemetry_scheme handler" where
  "route_request up ot [] req w = (not_found, w)"
| "route_request up ot (r # rs) req w =
     (if rt_method r = req_method req \<and> up_test up (rt_path r) (req_url req)
      then rt_handler r req (setHttpRoute (activeSpan ot w) (req_method req) (rt_path r) w)
      else route_request up ot rs req w)"

section \<open>Servers\<close>

text \<open>\<open>sv_root\<close> is the middleware composed by \<^verbatim>\<open>listen()\<close>.\<close>

record 'w http_server =
  sv_port :: int
  sv_hostname :: jstr
  sv_healthPath :: jstr
  sv_global :: nat
  sv_routes :: "'w route_entry list"
  sv_root :: "'w middleware list option"

record 'w http_store =
  st_arrays :: "'w middleware list list"
  st_servers :: "'w http_server list"

record 'w server_options =
  so_port :: "int option"
  so_hostname :: "jstr option"
  so_healthPath :: "jstr option"
  so_healthHandler :: "'w handler option"
  so_middleware :: "nat option"

definition server_of :: "nat \<Rightarrow> 'w http_store \<Rightarrow> 'w http_server" where
  "server_of sid st = st_servers st ! sid"

definition update_server :: "nat \<Rightarrow> ('w http_server \<Rightarrow> 'w http_server) \<Rightarrow> 'w http_store \<Rightarrow> 'w http_store" where
  "update_server sid f st = st\<lparr>st_servers := (st_servers st)[sid := f (server_of sid st)]\<rparr>"

definition handle_route ::
  "url_pattern \<Rightarrow> nat \<Rightarrow> jstr \<Rightarrow> jstr \<Rightarrow> 'w handler \<Rightarrow> 'w middleware list \<Rightarrow> 'w http_store \<Rightarrow> exn + 'w http_store" where
  "handle_route up sid method path h mws st =
     (if up_valid up path
      then Inr (update_server sid (\<lambda>s. s\<lparr>sv_routes := sv_routes s @
             [\<lparr>rt_method = method, rt_path = path, rt_handler = wrap_with mws h\<rparr>]\<rparr>) st)
      else Inl (plain_error (js ''Invalid pattern'')))"

definition default_health :: "'w handler" where
  "default_health req w = (json_response (JObj [(js ''status'', JStr (js ''ok''))]) 200, w)"

text \<open>The constructor; without a middleware option it makes an array of its own.\<close>

definition newHttpServer :: "url_pattern \<Rightarrow> 'w server_options \<Rightarrow> 'w http_store \<Rightarrow> exn + nat \<times> 'w http_store" where
  "newHttpServer up opts st =
     (let arrays = (case so_middleware opts of None \<Rightarrow> st_arrays st @ [[]] | Some r \<Rightarrow> st_arrays st);
          ref = (case so_middleware opts of None \<Rightarrow> length (st_arrays st) | Some r \<Rightarrow> r);
          health = (case so_healthPath opts of None \<Rightarrow> js ''/health'' | Some p \<Rightarrow> p);
          sid = length (st_servers st);
          server = \<lparr>sv_port = (case so_port opts of None \<Rightarrow> 8080 | Some p \<Rightarrow> p),
                    sv_hostname = (case so_hostname opts of None \<Rightarrow> js ''0.0.0.0'' | Some h \<Rightarrow> h),
                    sv_healthPath = health, sv_global = ref, sv_routes = [], sv_root = None\<rparr>;
          st' = st\<lparr>st_arrays := arrays, st_servers := st_servers st @ [server]\<rparr>
      in if health = [] then Inr (sid, st')
         else and_then (handle_route up sid (js ''GET'') health
                (case so_healthHandler opts of None \<Rightarrow> default_health | Some h \<Rightarrow> h) [] st') (\<lambda>st''. Inr (sid, st'')))"

definition use_middleware :: "nat \<Rightarrow> 'w middleware list \<Rightarrow> 'w http_store \<Rightarrow> 'w http_store" where
  "use_middleware sid mws st =
     (let ref = sv_global (server_of sid st)
      in st\<lparr>st_arrays := (st_arrays st)[ref := st_arrays st ! ref @ mws]\<rparr>)"

definition globals_of :: "nat \<Rightarrow> 'w http_store \<Rightarrow> 'w middleware list" where
  "globals_of sid st = st_arrays st ! sv_global (server_of sid st)"

text \<open>
  \<open>handler()\<close> composes the middleware of the moment around the router, which reads the routes when a request comes.
\<close>

definition http_handler ::
  "url_pattern \<Rightarrow> 'o otel \<Rightarrow> ('o, 'x) telemetry_scheme middleware list \<Rightarrow> nat \<Rightarrow> ('o, 'x) telemetry_scheme http_store \<Rightarrow>
    ('o, 'x) telemetry_scheme handler" where
  "http_handler up ot mws sid st = wrap_with mws (route_request up ot (sv_routes (server_of sid st)))"

definition root_handler ::
  "url_pattern \<Rightarrow> 'o otel \<Rightarrow> nat \<Rightarrow> ('o, 'x) telemetry_scheme http_store \<Rightarrow> ('o, 'x) telemetry_scheme handler" where
  "root_handler up ot sid st = http_handler up ot (globals_of sid st) sid st"

definition listen :: "nat \<Rightarrow> 'w http_store \<Rightarrow> 'w http_store" where
  "listen sid st = update_server sid (\<lambda>s. s\<lparr>sv_root := Some (globals_of sid st)\<rparr>) st"

definition serve ::
  "url_pattern \<Rightarrow> 'o otel \<Rightarrow> nat \<Rightarrow> ('o, 'x) telemetry_scheme http_store \<Rightarrow> ('o, 'x) telemetry_scheme handler option" where
  "serve up ot sid st = map_option (\<lambda>mws. http_handler up ot mws sid st) (sv_root (server_of sid st))"

section \<open>Groups\<close>

record 'w route_group =
  gr_server :: nat
  gr_prefix :: jstr
  gr_middleware :: "'w middleware list"

definition server_group :: "nat \<Rightarrow> jstr \<Rightarrow> 'w middleware list \<Rightarrow> 'w route_group" where
  "server_group sid p mws = \<lparr>gr_server = sid, gr_prefix = p, gr_middleware = mws\<rparr>"

definition nested_group :: "'w route_group \<Rightarrow> jstr \<Rightarrow> 'w middleware list \<Rightarrow> 'w route_group" where
  "nested_group g p mws =
     \<lparr>gr_server = gr_server g, gr_prefix = joinPath (gr_prefix g) p, gr_middleware = gr_middleware g @ mws\<rparr>"

definition group_handle ::
  "url_pattern \<Rightarrow> 'w route_group \<Rightarrow> jstr \<Rightarrow> jstr \<Rightarrow> 'w handler \<Rightarrow> 'w middleware list \<Rightarrow> 'w http_store \<Rightarrow> exn + 'w http_store" where
  "group_handle up g method path h mws st =
     handle_route up (gr_server g) method (joinPath (gr_prefix g) path) h (gr_middleware g @ mws) st"

text \<open>The verbs: registration under a fixed method.\<close>

datatype verb = VerbGet | VerbPost | VerbPut | VerbPatch | VerbDelete

fun verb_name :: "verb \<Rightarrow> jstr" where
  "verb_name VerbGet = js ''GET''"
| "verb_name VerbPost = js ''POST''"
| "verb_name VerbPut = js ''PUT''"
| "verb_name VerbPatch = js ''PATCH''"
| "verb_name VerbDelete = js ''DELETE''"

definition server_verb ::
  "url_pattern \<Rightarrow> verb \<Rightarrow> nat \<Rightarrow> jstr \<Rightarrow> 'w handler \<Rightarrow> 'w middleware list \<Rightarrow> 'w http_store \<Rightarrow> exn + 'w http_store" where
  "server_verb up v sid = handle_route up sid (verb_name v)"

definition group_verb ::
  "url_pattern \<Rightarrow> verb \<Rightarrow> 'w route_group \<Rightarrow> jstr \<Rightarrow> 'w handler \<Rightarrow> 'w middleware list \<Rightarrow> 'w http_store \<Rightarrow> exn + 'w http_store" where
  "group_verb up v g = group_handle up g (verb_name v)"

section \<open>Facts\<close>

definition no_tail :: "jstr \<Rightarrow> jstr" where
  "no_tail s = rev (dropWhile (\<lambda>c. c = 47) (rev s))"

definition rooted :: "jstr \<Rightarrow> jstr" where
  "rooted s = (if starts_with (js ''/'') s then s else js ''/'' @ s)"

lemma rooted_cons: "rooted (47 # t) = 47 # t" "hd s \<noteq> 47 \<Longrightarrow> rooted s = 47 # s" "rooted [] = [47]"
  by (cases s; simp add: rooted_def starts_with_def js_def)+

lemma rooted_cases:
  obtains t where "rooted s = 47 # t" "s = 47 # t" | "rooted s = 47 # s" "hd s \<noteq> 47" | "rooted s = [47]" "s = []"
  by (cases s; cases "hd s = 47") (auto simp: rooted_cons)

lemma joinPath_rooted: "joinPath a b = no_tail a @ rooted b"
  by (auto simp: joinPath_def Let_def rooted_def no_tail_def starts_with_def js_def)

lemma no_tail_append:
  "no_tail (xs @ 47 # ys) = (if list_all (\<lambda>c. c = 47) ys then no_tail xs else xs @ 47 # no_tail ys)"
  by (auto simp: no_tail_def dropWhile_append list_all_iff dropWhile_eq_Nil_conv)

lemma no_tail_all: "no_tail ys = [] \<longleftrightarrow> list_all (\<lambda>c. c = 47) ys"
  by (auto simp: no_tail_def list_all_iff dropWhile_eq_Nil_conv)

lemma no_tail_idem [simp]: "no_tail (no_tail s) = no_tail s"
  by (simp add: no_tail_def)

lemma no_tail_hd: "no_tail s \<noteq> [] \<Longrightarrow> hd (no_tail s) = hd s"
proof -
  assume n: "no_tail s \<noteq> []"
  have "no_tail s @ rev (takeWhile (\<lambda>c. c = 47) (rev s)) = s"
    unfolding no_tail_def rev_append [symmetric] takeWhile_dropWhile_id by simp
  then show ?thesis using n by (metis hd_append2)
qed

lemma no_tail_join: "no_tail (no_tail a @ 47 # t) @ r =
    (if list_all (\<lambda>c. c = 47) t then no_tail a @ r else no_tail a @ 47 # no_tail t @ r)"
  by (simp add: no_tail_append)

lemma joinPath_assoc: "joinPath (joinPath a b) c = joinPath a (joinPath b c)"
proof -
  have same: "rooted (rooted c) = rooted c" by (cases c rule: rooted_cases) (simp_all add: rooted_cons)
  show ?thesis
  proof (cases b rule: rooted_cases)
    case (1 t)
    have "no_tail b = (if list_all (\<lambda>c. c = 47) t then [] else 47 # no_tail t)"
      using no_tail_append [of "[]" t] no_tail_all [of "[]"] 1(2) by simp
    then show ?thesis using same by (simp add: joinPath_rooted 1(1) no_tail_join rooted_cons)
  next
    case 2
    show ?thesis
    proof (cases "no_tail b = []")
      case True
      then show ?thesis using same no_tail_all [of b] by (simp add: joinPath_rooted 2(1) no_tail_join)
    next
      case False
      then have "hd (no_tail b @ rooted c) \<noteq> 47" using 2(2) no_tail_hd by simp
      then show ?thesis using False no_tail_all [of b] by (simp add: joinPath_rooted 2(1) no_tail_join rooted_cons)
    qed
  next
    case 3
    then show ?thesis using same no_tail_all [of "[]"] by (simp add: joinPath_rooted no_tail_join)
  qed
qed

section \<open>Registration\<close>

text \<open>C38: Groups nested to any depth register what one flat registration does.\<close>

theorem nested_groups_flat:
  "group_handle up (foldl (\<lambda>g (p, ms). nested_group g p ms) (server_group sid p0 ms0) ns) method path h mws st =
    handle_route up sid method (joinPath p0 (foldr (\<lambda>(p, ms). joinPath p) ns path)) h (ms0 @ concat (map snd ns) @ mws) st"
proof -
  have "group_handle up (foldl (\<lambda>g (p, ms). nested_group g p ms) g ns) method path h mws st =
    handle_route up (gr_server g) method (joinPath (gr_prefix g) (foldr (\<lambda>(p, ms). joinPath p) ns path)) h
      (gr_middleware g @ concat (map snd ns) @ mws) st" for g
  proof (induction ns arbitrary: g)
    case Nil
    then show ?case by (simp add: group_handle_def)
  next
    case (Cons n ns)
    obtain p ms where n: "n = (p, ms)" by (cases n)
    show ?case using Cons.IH [of "nested_group g p ms"] by (simp add: n nested_group_def joinPath_assoc)
  qed
  from this [of "server_group sid p0 ms0"] show ?thesis by (simp add: server_group_def)
qed

definition fits :: "url_pattern \<Rightarrow> request \<Rightarrow> 'w route_entry \<Rightarrow> bool" where
  "fits up req r \<longleftrightarrow> rt_method r = req_method req \<and> up_test up (rt_path r) (req_url req)"

lemma route_append:
  "route_request up ot (rs @ rs') req w =
    (if list_ex (fits up req) rs then route_request up ot rs req w else route_request up ot rs' req w)"
  by (induction rs) (simp_all add: fits_def)

lemma route_skip: "\<not> list_ex (fits up req) rs \<Longrightarrow> route_request up ot rs req w = (not_found, w)"
  by (induction rs) (auto simp: fits_def)

text \<open>Every server has its array of global middleware, every array a store holds.\<close>

definition store_ok :: "'w http_store \<Rightarrow> bool" where
  "store_ok st \<longleftrightarrow> list_all (\<lambda>s. sv_global s < length (st_arrays st)) (st_servers st)"

lemma update_server_simps [simp]:
  "st_arrays (update_server sid f st) = st_arrays st"
  "length (st_servers (update_server sid f st)) = length (st_servers st)"
  "sid < length (st_servers st) \<Longrightarrow> server_of sid (update_server sid f st) = f (server_of sid st)"
  "sid' \<noteq> sid \<Longrightarrow> server_of sid' (update_server sid f st) = server_of sid' st"
  by (simp_all add: update_server_def server_of_def)

lemma handle_routes:
  assumes "handle_route up sid method path h mws st = Inr st'" "sid < length (st_servers st)"
  shows "sv_routes (server_of sid st') =
      sv_routes (server_of sid st) @ [\<lparr>rt_method = method, rt_path = path, rt_handler = wrap_with mws h\<rparr>]"
    "globals_of sid st' = globals_of sid st" "sv_root (server_of sid st') = sv_root (server_of sid st)"
    "sid' \<noteq> sid \<Longrightarrow> server_of sid' st' = server_of sid' st" "st_arrays st' = st_arrays st"
    "length (st_servers st') = length (st_servers st)"
  using assms by (auto simp: handle_route_def globals_of_def split: if_splits)

text \<open>A registration never changes the answer to a request an earlier route fits, and the other servers not at all.\<close>

theorem earlier_route_wins:
  assumes "handle_route up sid method path h mws st = Inr st'" "sid < length (st_servers st)"
    and "list_ex (fits up req) (sv_routes (server_of sid st))"
  shows "route_request up ot (sv_routes (server_of sid st')) req = route_request up ot (sv_routes (server_of sid st)) req"
  using assms by (simp add: fun_eq_iff handle_routes(1) route_append)

section \<open>Global middleware\<close>

lemma create_server:
  assumes "newHttpServer up opts st = Inr (sid, st')"
  shows "sid = length (st_servers st)" "length (st_servers st') = Suc sid"
    "sv_global (server_of sid st') = (case so_middleware opts of None \<Rightarrow> length (st_arrays st) | Some r \<Rightarrow> r)"
    "st_arrays st' = (case so_middleware opts of None \<Rightarrow> st_arrays st @ [[]] | Some r \<Rightarrow> st_arrays st)"
    "i < sid \<Longrightarrow> server_of i st' = server_of i st"
  using assms
  by (auto simp: newHttpServer_def Let_def handle_route_def server_of_def update_server_def nth_append
      and_then_Inr_iff split: if_splits option.splits)

text \<open>What \<open>use\<close> adds reaches exactly the servers that hold the same array.\<close>

lemma use_reaches:
  assumes "store_ok st" "a < length (st_servers st)" "b < length (st_servers st)"
  shows "globals_of b (use_middleware a mws st) =
    globals_of b st @ (if sv_global (server_of b st) = sv_global (server_of a st) then mws else [])"
  using assms by (auto simp: globals_of_def use_middleware_def server_of_def Let_def nth_list_update store_ok_def list_all_length)

text \<open>
  Two servers created from options objects with the same \<open>middleware\<close> array share it: what one of them is told to
  use reaches the other.
\<close>

theorem use_leaks_between_servers:
  assumes "store_ok st" "so_middleware opts = Some r" "r < length (st_arrays st)"
    and "newHttpServer up opts st = Inr (a, st1)" "newHttpServer up opts st1 = Inr (b, st2)"
  shows "a \<noteq> b \<and> globals_of b (use_middleware a mws st2) = globals_of b st2 @ mws"
proof -
  note ca = create_server [OF assms(4)] and cb = create_server [OF assms(5)]
  have "server_of a st2 = server_of a st1" using cb(1,5) ca(2) by simp
  then have g: "sv_global (server_of a st2) = r" "sv_global (server_of b st2) = r" "st_arrays st2 = st_arrays st"
    using ca(3,4) cb(3,4) assms(2) by simp_all
  have "a < length (st_servers st2)" "b < length (st_servers st2)" using ca(1,2) cb(1,2) by simp_all
  then show ?thesis using g assms(3) ca(1,2) cb(1)
    by (simp add: globals_of_def use_middleware_def server_of_def Let_def)
qed

text \<open>A listening server keeps the middleware it had when it began to listen; its routes it reads per request.\<close>

theorem use_after_listen_ignored:
  assumes "sid < length (st_servers st)"
  shows "serve up ot sid (use_middleware sid mws (listen sid st)) = serve up ot sid (listen sid st) \<and>
    serve up ot sid (listen sid st) = Some (root_handler up ot sid st)"
  using assms by (simp_all add: serve_def use_middleware_def listen_def server_of_def Let_def http_handler_def root_handler_def
    globals_of_def update_server_def)

end
