(* ===== verification/Security_Jwt.thy ===== *)
theory Security_Jwt
  imports Encrypt_Common
begin

text \<open>
  The JWT service of \<^verbatim>\<open>src/security/auth/jwt/jwt.ts\<close>: the signing strategies with their cached keys, the
  service that signs claims and verifies compact tokens, and \<^verbatim>\<open>createService\<close>.  Web Crypto and the Base64url codec
  of \<^verbatim>\<open>@std/encoding\<close> are records of functions, arguments of the operations that use them.
\<close>

section \<open>Runtime\<close>

record 'k jwt_runtime =
  jr_base64url :: base64
  jr_crypto :: "'k web_crypto"

datatype jwt_error = JwtError jstr | JwtThrown jstr

definition HS256 :: jstr where "HS256 = js ''HS256''"
definition RS256 :: jstr where "RS256 = js ''RS256''"
definition PS256 :: jstr where "PS256 = js ''PS256''"
definition EdDSA :: jstr where "EdDSA = js ''EdDSA''"

fun raised :: "jstr + 'a \<Rightarrow> jwt_error + 'a" where
  "raised (Inl m) = Inl (JwtThrown m)"
| "raised (Inr x) = Inr x"

text \<open>\<open>!key\<close>: absent or the empty string.\<close>

definition missing :: "jstr option \<Rightarrow> bool" where
  "missing k \<longleftrightarrow> k = None \<or> k = Some []"

definition toUrl :: "jstr \<Rightarrow> jstr" where
  "toUrl s = rev (dropWhile (\<lambda>c. c = 61) (rev (map (\<lambda>c. if c = 43 then 45 else if c = 47 then 95 else c) s)))"

definition der :: "'k jwt_runtime \<Rightarrow> jstr \<Rightarrow> jwt_error + bytes" where
  "der rt key = raised (b64_decode (jr_base64url rt) (toUrl key))"

section \<open>Strategies\<close>

text \<open>A strategy keeps the keys it has imported (\<open>#key\<close>, \<open>#priv\<close>, \<open>#pub\<close>) until the end of its life.\<close>

datatype 'k strategy =
    HmacStrategy jstr "'k option"
  | RsaStrategy jstr "jstr option" "jstr option" "'k option" "'k option"
  | Ed25519Strategy "jstr option" "jstr option" "'k option" "'k option"
  | CustomStrategy jstr "bytes \<Rightarrow> jstr + bytes" "bytes \<Rightarrow> bytes \<Rightarrow> jstr + bool"

fun strategy_algorithm :: "'k strategy \<Rightarrow> jstr" where
  "strategy_algorithm (HmacStrategy secret c) = HS256"
| "strategy_algorithm (RsaStrategy alg priv pub cpriv cpub) = alg"
| "strategy_algorithm (Ed25519Strategy priv pub cpriv cpub) = EdDSA"
| "strategy_algorithm (CustomStrategy alg f g) = alg"

text \<open>\<open>cache ??= await importKey(...)\<close>: a failed import leaves the cache empty.\<close>

definition load_key :: "'k option \<Rightarrow> jwt_error + 'k \<Rightarrow> (jwt_error + 'k) \<times> 'k option" where
  "load_key cache imported =
     (case cache of
        Some k \<Rightarrow> (Inr k, cache)
      | None \<Rightarrow> (case imported of Inr k \<Rightarrow> (Inr k, Some k) | Inl e \<Rightarrow> (Inl e, None)))"

definition import_secret :: "'k jwt_runtime \<Rightarrow> jstr \<Rightarrow> jwt_error + 'k" where
  "import_secret rt secret = raised (wc_importKey (jr_crypto rt) Raw (utf8_encode secret) Hmac [Sign, Verify])"

definition import_der :: "'k jwt_runtime \<Rightarrow> key_format \<Rightarrow> algorithm \<Rightarrow> key_usage \<Rightarrow> jstr option \<Rightarrow> jwt_error + 'k" where
  "import_der rt format alg usage key =
     and_then (der rt (case key of Some k \<Rightarrow> k | None \<Rightarrow> [])) (\<lambda>raw.
       raised (wc_importKey (jr_crypto rt) format raw alg [usage]))"

definition rsa_params :: "jstr \<Rightarrow> algorithm" where
  "rsa_params alg = (if alg = RS256 then RsaPkcs1 else RsaPss 32)"

fun strategy_sign :: "'k jwt_runtime \<Rightarrow> 'k strategy \<Rightarrow> bytes \<Rightarrow> (jwt_error + bytes) \<times> 'k strategy" where
  "strategy_sign rt (HmacStrategy secret c) input =
     (case load_key c (import_secret rt secret) of (k, c') \<Rightarrow>
        (and_then k (\<lambda>key. raised (wc_sign (jr_crypto rt) Hmac key input)), HmacStrategy secret c'))"
| "strategy_sign rt (RsaStrategy alg priv pub cpriv cpub) input =
     (if missing priv then (Inl (JwtError (js ''jwt: missing RSA private key'')), RsaStrategy alg priv pub cpriv cpub)
      else (case load_key cpriv (import_der rt Pkcs8 (rsa_params alg) Sign priv) of (k, c') \<Rightarrow>
        (and_then k (\<lambda>key. raised (wc_sign (jr_crypto rt) (rsa_params alg) key input)), RsaStrategy alg priv pub c' cpub)))"
| "strategy_sign rt (Ed25519Strategy priv pub cpriv cpub) input =
     (if missing priv then (Inl (JwtError (js ''jwt: missing Ed25519 private key'')), Ed25519Strategy priv pub cpriv cpub)
      else (case load_key cpriv (import_der rt Pkcs8 Ed25519 Sign priv) of (k, c') \<Rightarrow>
        (and_then k (\<lambda>key. raised (wc_sign (jr_crypto rt) Ed25519 key input)), Ed25519Strategy priv pub c' cpub)))"
| "strategy_sign rt (CustomStrategy alg f g) input = (raised (f input), CustomStrategy alg f g)"

fun strategy_verify :: "'k jwt_runtime \<Rightarrow> 'k strategy \<Rightarrow> bytes \<Rightarrow> bytes \<Rightarrow> (jwt_error + bool) \<times> 'k strategy" where
  "strategy_verify rt (HmacStrategy secret c) input signature =
     (case load_key c (import_secret rt secret) of (k, c') \<Rightarrow>
        (and_then k (\<lambda>key. raised (wc_verify (jr_crypto rt) Hmac key signature input)), HmacStrategy secret c'))"
| "strategy_verify rt (RsaStrategy alg priv pub cpriv cpub) input signature =
     (if missing pub then (Inl (JwtError (js ''jwt: missing RSA public key'')), RsaStrategy alg priv pub cpriv cpub)
      else (case load_key cpub (import_der rt Spki (rsa_params alg) Verify pub) of (k, c') \<Rightarrow>
        (and_then k (\<lambda>key. raised (wc_verify (jr_crypto rt) (rsa_params alg) key signature input)),
         RsaStrategy alg priv pub cpriv c')))"
| "strategy_verify rt (Ed25519Strategy priv pub cpriv cpub) input signature =
     (if missing pub then (Inl (JwtError (js ''jwt: missing Ed25519 public key'')), Ed25519Strategy priv pub cpriv cpub)
      else (case load_key cpub (import_der rt Spki Ed25519 Verify pub) of (k, c') \<Rightarrow>
        (and_then k (\<lambda>key. raised (wc_verify (jr_crypto rt) Ed25519 key signature input)),
         Ed25519Strategy priv pub cpriv c')))"
| "strategy_verify rt (CustomStrategy alg f g) input signature = (raised (g input signature), CustomStrategy alg f g)"

section \<open>The service\<close>

type_synonym validator = "jval \<Rightarrow> jstr + unit"

record 'k jwt_service =
  js_strategy :: "'k strategy"
  js_validators :: "validator list"

record jwt_token =
  tok_raw :: jstr
  tok_header :: jval
  tok_claims :: jval
  tok_signature :: bytes

definition algorithm_of :: "'k jwt_service \<Rightarrow> jstr" where
  "algorithm_of s = strategy_algorithm (js_strategy s)"

definition b64 :: "'k jwt_runtime \<Rightarrow> jval \<Rightarrow> jstr" where
  "b64 rt v = b64_encode (jr_base64url rt) (utf8_encode (json_print v))"

definition decodeJSON :: "'k jwt_runtime \<Rightarrow> jstr \<Rightarrow> jwt_error + jval" where
  "decodeJSON rt part =
     and_then (raised (b64_decode (jr_base64url rt) part)) (\<lambda>raw.
       (case json_parse (utf8_decode raw) of
          None \<Rightarrow> Inl (JwtThrown (js ''Unexpected token''))
        | Some v \<Rightarrow> Inr v))"

definition jwt_header :: "jstr \<Rightarrow> jval" where
  "jwt_header alg = JObj [(js ''typ'', JStr (js ''JWT'')), (js ''alg'', JStr alg)]"

definition signing_input :: "jstr \<Rightarrow> jstr \<Rightarrow> jstr" where
  "signing_input h c = h @ 46 # c"

definition service_sign :: "'k jwt_runtime \<Rightarrow> 'k jwt_service \<Rightarrow> jval \<Rightarrow> (jwt_error + jstr) \<times> 'k jwt_service" where
  "service_sign rt s claims =
     (let input = signing_input (b64 rt (jwt_header (algorithm_of s))) (b64 rt claims) in
      case strategy_sign rt (js_strategy s) (utf8_encode input) of (r, st) \<Rightarrow>
        (and_then r (\<lambda>sg. Inr (input @ 46 # b64_encode (jr_base64url rt) sg)), s\<lparr>js_strategy := st\<rparr>))"

fun run_validators :: "validator list \<Rightarrow> jval \<Rightarrow> jwt_error + unit" where
  "run_validators [] claims = Inr ()"
| "run_validators (f # fs) claims = and_then (raised (f claims)) (\<lambda>_. run_validators fs claims)"

text \<open>The \<open>alg\<close> of the parsed header; reading a property of \<open>null\<close> throws.\<close>

definition header_alg :: "jval \<Rightarrow> jwt_error + jval" where
  "header_alg h =
     (if h = JNull then Inl (JwtThrown (js ''Cannot read properties of null'')) else Inr (payload_field h (js ''alg'')))"

definition check_header :: "'k jwt_runtime \<Rightarrow> jstr \<Rightarrow> jstr \<Rightarrow> jwt_error + jval" where
  "check_header rt alg part =
     and_then (decodeJSON rt part) (\<lambda>h.
     and_then (header_alg h) (\<lambda>a.
       if a = JStr alg then Inr h else Inl (JwtError (js ''jwt: algorithm mismatch: '' @ to_text a))))"

definition accepted_claims ::
  "'k jwt_runtime \<Rightarrow> validator list \<Rightarrow> jstr \<Rightarrow> jstr \<Rightarrow> jval \<Rightarrow> bytes \<Rightarrow> bool \<Rightarrow> jwt_error + jwt_token" where
  "accepted_claims rt vs token part h sg ok =
     (if \<not> ok then Inl (JwtError (js ''jwt: signature verification failed''))
      else and_then (decodeJSON rt part) (\<lambda>claims.
           and_then (run_validators vs claims) (\<lambda>_.
             Inr \<lparr>tok_raw = token, tok_header = h, tok_claims = claims, tok_signature = sg\<rparr>)))"

definition service_verify ::
  "'k jwt_runtime \<Rightarrow> 'k jwt_service \<Rightarrow> jstr \<Rightarrow> validator list \<Rightarrow> (jwt_error + jwt_token) \<times> 'k jwt_service" where
  "service_verify rt s token extra =
     (case split_on 46 token of
        [h, c, g] \<Rightarrow>
          (case check_header rt (algorithm_of s) h of
             Inl e \<Rightarrow> (Inl e, s)
           | Inr header \<Rightarrow>
               (case raised (b64_decode (jr_base64url rt) g) of
                  Inl e \<Rightarrow> (Inl e, s)
                | Inr sg \<Rightarrow>
                    (case strategy_verify rt (js_strategy s) (utf8_encode (signing_input h c)) sg of (r, st) \<Rightarrow>
                       (and_then r (accepted_claims rt (js_validators s @ extra) token c header sg),
                        s\<lparr>js_strategy := st\<rparr>))))
      | _ \<Rightarrow> (Inl (JwtError (js ''jwt: malformed token'')), s))"

section \<open>Creation\<close>

record service_config =
  sc_algorithm :: jstr
  sc_hmacSecret :: "jstr option"
  sc_rsaPrivateKey :: "jstr option"
  sc_rsaPublicKey :: "jstr option"
  sc_eddsaPrivateKey :: "jstr option"
  sc_eddsaPublicKey :: "jstr option"
  sc_sign :: "(bytes \<Rightarrow> jstr + bytes) option"
  sc_verify :: "(bytes \<Rightarrow> bytes \<Rightarrow> jstr + bool) option"
  sc_validators :: "validator list"

definition createStrategy :: "service_config \<Rightarrow> jwt_error + 'k strategy" where
  "createStrategy c =
     (if sc_algorithm c = HS256 then
        (if missing (sc_hmacSecret c) then Inl (JwtError (js ''jwt: HS256 requires an hmacSecret''))
         else Inr (HmacStrategy (the (sc_hmacSecret c)) None))
      else if sc_algorithm c = RS256 \<or> sc_algorithm c = PS256 then
        Inr (RsaStrategy (sc_algorithm c) (sc_rsaPrivateKey c) (sc_rsaPublicKey c) None None)
      else if sc_algorithm c = EdDSA then
        Inr (Ed25519Strategy (sc_eddsaPrivateKey c) (sc_eddsaPublicKey c) None None)
      else
        (case (sc_sign c, sc_verify c) of
           (Some f, Some g) \<Rightarrow> Inr (CustomStrategy (sc_algorithm c) f g)
         | _ \<Rightarrow> Inl (JwtError (js ''jwt: custom algorithm '' @ 34 # sc_algorithm c @ 34 # js '' requires sign and verify''))))"

definition createService :: "service_config \<Rightarrow> jwt_error + 'k jwt_service" where
  "createService c =
     and_then (createStrategy c) (\<lambda>st. Inr \<lparr>js_strategy = st, js_validators = sc_validators c\<rparr>)"

end
