(* ===== verification/Security_Jwt_Facts.thy ===== *)
theory Security_Jwt_Facts
  imports Security_Jwt Encrypt_Local
begin

text \<open>
  What a JWT service promises.  A specification that reads the service's configuration only says which signature
  is genuine and which token authentic; whatever a created service did before, it accepts exactly the authentic
  tokens, and the tokens it signs are among them.
\<close>

section \<open>Specification\<close>

text \<open>The keys the configuration names, imported afresh.\<close>

fun verifying_key :: "'k jwt_runtime \<Rightarrow> 'k strategy \<Rightarrow> jwt_error + 'k" where
  "verifying_key rt (HmacStrategy secret c) = import_secret rt secret"
| "verifying_key rt (RsaStrategy alg priv pub c d) = import_der rt Spki (rsa_params alg) Verify pub"
| "verifying_key rt (Ed25519Strategy priv pub c d) = import_der rt Spki Ed25519 Verify pub"
| "verifying_key rt (CustomStrategy alg f g) = Inl (JwtError [])"

fun crypto_algorithm :: "'k strategy \<Rightarrow> algorithm" where
  "crypto_algorithm (RsaStrategy alg priv pub c d) = rsa_params alg"
| "crypto_algorithm (Ed25519Strategy priv pub c d) = Ed25519"
| "crypto_algorithm _ = Hmac"

fun has_public :: "'k strategy \<Rightarrow> bool" where
  "has_public (RsaStrategy alg priv pub c d) = (\<not> missing pub)"
| "has_public (Ed25519Strategy priv pub c d) = (\<not> missing pub)"
| "has_public _ = True"

definition genuine :: "'k jwt_runtime \<Rightarrow> 'k strategy \<Rightarrow> bytes \<Rightarrow> bytes \<Rightarrow> bool" where
  "genuine rt st input sg =
     (case st of
        CustomStrategy alg f g \<Rightarrow> g input sg = Inr True
      | _ \<Rightarrow> has_public st \<and>
          (case verifying_key rt st of
             Inl e \<Rightarrow> False
           | Inr k \<Rightarrow> wc_verify (jr_crypto rt) (crypto_algorithm st) k sg input = Inr True))"

text \<open>
  A token is authentic when it has exactly three parts, a header that names the service's algorithm, a genuine
  signature over the first two parts as written, claims that are JSON, and no validator objects to them.
\<close>

definition authentic :: "'k jwt_runtime \<Rightarrow> 'k jwt_service \<Rightarrow> validator list \<Rightarrow> jstr \<Rightarrow> jwt_token \<Rightarrow> bool" where
  "authentic rt s extra token tok =
     (case split_on 46 token of
        [h, c, g] \<Rightarrow>
          tok_raw tok = token \<and> decodeJSON rt h = Inr (tok_header tok) \<and>
          header_alg (tok_header tok) = Inr (JStr (algorithm_of s)) \<and>
          b64_decode (jr_base64url rt) g = Inr (tok_signature tok) \<and>
          genuine rt (js_strategy s) (utf8_encode (signing_input h c)) (tok_signature tok) \<and>
          decodeJSON rt c = Inr (tok_claims tok) \<and>
          list_all (\<lambda>f. f (tok_claims tok) = Inr ()) (js_validators s @ extra)
      | _ \<Rightarrow> False)"

section \<open>Cached keys\<close>

text \<open>What a service may be asked to do, and the state a history leaves.\<close>

datatype jwt_use = SignClaims jval | VerifyToken jstr "validator list"

fun jwt_after :: "'k jwt_runtime \<Rightarrow> jwt_use list \<Rightarrow> 'k jwt_service \<Rightarrow> 'k jwt_service" where
  "jwt_after rt [] s = s"
| "jwt_after rt (SignClaims claims # us) s = jwt_after rt us (snd (service_sign rt s claims))"
| "jwt_after rt (VerifyToken token extra # us) s = jwt_after rt us (snd (service_verify rt s token extra))"

definition current :: "'k option \<Rightarrow> jwt_error + 'k \<Rightarrow> bool" where
  "current cache imported \<longleftrightarrow> (case cache of None \<Rightarrow> True | Some k \<Rightarrow> imported = Inr k)"

fun keys_current :: "'k jwt_runtime \<Rightarrow> 'k strategy \<Rightarrow> bool" where
  "keys_current rt (HmacStrategy secret c) = current c (import_secret rt secret)"
| "keys_current rt (RsaStrategy alg priv pub c d) =
     (current c (import_der rt Pkcs8 (rsa_params alg) Sign priv) \<and> current d (import_der rt Spki (rsa_params alg) Verify pub))"
| "keys_current rt (Ed25519Strategy priv pub c d) =
     (current c (import_der rt Pkcs8 Ed25519 Sign priv) \<and> current d (import_der rt Spki Ed25519 Verify pub))"
| "keys_current rt (CustomStrategy alg f g) = True"

fun forget :: "'k strategy \<Rightarrow> 'k strategy" where
  "forget (HmacStrategy secret c) = HmacStrategy secret None"
| "forget (RsaStrategy alg priv pub c d) = RsaStrategy alg priv pub None None"
| "forget (Ed25519Strategy priv pub c d) = Ed25519Strategy priv pub None None"
| "forget (CustomStrategy alg f g) = CustomStrategy alg f g"

lemma current_None [simp]: "current None i" by (simp add: current_def)

definition remembered :: "'k option \<Rightarrow> jwt_error + 'k \<Rightarrow> 'k option" where
  "remembered cache imported = (case imported of Inr k \<Rightarrow> Some k | Inl e \<Rightarrow> cache)"

lemma load_current: "current c i \<Longrightarrow> load_key c i = (i, remembered c i)"
  by (auto simp: load_key_def current_def remembered_def split: option.splits sum.splits)

lemma remembered_current [simp]: "current c i \<Longrightarrow> current (remembered c i) i"
  by (auto simp: current_def remembered_def split: option.splits sum.splits)

lemma forget_idem [simp]: "forget (forget st) = forget st" by (cases st) simp_all

lemma forget_same [simp]:
  "verifying_key rt (forget st) = verifying_key rt st"
  "has_public (forget st) = has_public st"
  "crypto_algorithm (forget st) = crypto_algorithm st"
  "strategy_algorithm (forget st) = strategy_algorithm st"
  by (cases st; simp)+

lemma forget_genuine [simp]: "genuine rt (forget st) x sg = genuine rt st x sg"
  by (cases st) (simp_all add: genuine_def split: sum.split)

lemma strategy_sign_keeps:
  "keys_current rt st \<Longrightarrow> keys_current rt (snd (strategy_sign rt st x))"
  "forget (snd (strategy_sign rt st x)) = forget st"
  by (cases st; simp add: load_current) (cases st; simp split: prod.split)

lemma strategy_verify_keeps:
  "keys_current rt st \<Longrightarrow> keys_current rt (snd (strategy_verify rt st x sg))"
  "forget (snd (strategy_verify rt st x sg)) = forget st"
  by (cases st; simp add: load_current) (cases st; simp split: prod.split)

lemma raised_Inr_iff [simp]: "raised r = Inr x \<longleftrightarrow> r = Inr x"
  by (cases r) simp_all

lemma strategy_verify_genuine:
  "keys_current rt st \<Longrightarrow> fst (strategy_verify rt st x sg) = Inr True \<longleftrightarrow> genuine rt st x sg"
  by (cases st) (simp_all add: genuine_def load_current and_then_Inr_iff split: sum.split)

lemma strategy_sign_key:
  "keys_current rt st \<Longrightarrow> fst (strategy_sign rt st x) = fst (strategy_sign rt (forget st) x)"
  by (cases st) (simp_all add: load_current)

lemma keys_forgotten [simp]: "keys_current rt (forget st)"
  by (cases st) simp_all

section \<open>Histories\<close>

definition same_service :: "'k jwt_runtime \<Rightarrow> 'k jwt_service \<Rightarrow> 'k jwt_service \<Rightarrow> bool" where
  "same_service rt s t \<longleftrightarrow>
     keys_current rt (js_strategy t) \<and> forget (js_strategy t) = forget (js_strategy s) \<and> js_validators t = js_validators s"

lemma same_facts:
  assumes "same_service rt s t"
  shows "algorithm_of t = algorithm_of s" "js_validators t = js_validators s"
    "genuine rt (js_strategy t) x sg = genuine rt (js_strategy s) x sg"
    "fst (strategy_sign rt (js_strategy t) y) = fst (strategy_sign rt (forget (js_strategy s)) y)"
  using assms forget_same(4) [of "js_strategy t"] forget_same(4) [of "js_strategy s"]
    forget_genuine [of rt "js_strategy t"] forget_genuine [of rt "js_strategy s"] strategy_sign_key [of rt "js_strategy t"]
  by (simp_all add: same_service_def algorithm_of_def)

lemma service_verify_state:
  "snd (service_verify rt s token extra) = s \<or>
    (\<exists>x sg. snd (service_verify rt s token extra) = s\<lparr>js_strategy := snd (strategy_verify rt (js_strategy s) x sg)\<rparr>)"
  by (auto simp: service_verify_def split: list.split sum.split prod.split) (metis snd_conv)+

lemma same_service_after: "same_service rt s t \<Longrightarrow> same_service rt s (jwt_after rt us t)"
proof (induction us arbitrary: t)
  case (Cons u us)
  have "same_service rt s (snd (service_sign rt t claims))" for claims
    using Cons.prems strategy_sign_keeps [of rt "js_strategy t"]
    by (auto simp: same_service_def service_sign_def Let_def split: prod.split) (metis snd_conv)+
  moreover have "same_service rt s (snd (service_verify rt t token extra))" for token extra
    using service_verify_state [of rt t token extra] Cons.prems strategy_verify_keeps [of rt "js_strategy t"]
    by (auto simp: same_service_def)
  ultimately show ?case using Cons.IH by (cases u) simp_all
qed simp

lemma created_fresh: "createService c = Inr s \<Longrightarrow> same_service rt s s"
  by (auto simp: createService_def createStrategy_def same_service_def split: if_splits option.splits)

lemma created_after: "createService c = Inr s \<Longrightarrow> same_service rt s (jwt_after rt us s)"
  by (rule same_service_after [OF created_fresh])

section \<open>Verification\<close>

lemma validators_pass: "run_validators fs claims = Inr () \<longleftrightarrow> list_all (\<lambda>f. f claims = Inr ()) fs"
  by (induction fs) (auto simp: and_then_Inr_iff)

lemma check_header_iff:
  "check_header rt alg part = Inr h \<longleftrightarrow> decodeJSON rt part = Inr h \<and> header_alg h = Inr (JStr alg)"
  by (auto simp: check_header_def and_then_Inr_iff)

lemma accepted_claims_iff:
  "accepted_claims rt vs token c h sg ok = Inr tok \<longleftrightarrow>
    ok \<and> tok_raw tok = token \<and> tok_header tok = h \<and> tok_signature tok = sg \<and>
    decodeJSON rt c = Inr (tok_claims tok) \<and> list_all (\<lambda>f. f (tok_claims tok) = Inr ()) vs"
  by (cases tok) (auto simp: accepted_claims_def and_then_Inr_iff validators_pass [symmetric])

text \<open>A parsed token is verified in one step.\<close>

lemma service_verify_parts:
  "split_on 46 token = [h, c, g] \<Longrightarrow> fst (service_verify rt s token extra) =
     and_then (check_header rt (algorithm_of s) h) (\<lambda>header.
     and_then (raised (b64_decode (jr_base64url rt) g)) (\<lambda>sg.
     and_then (fst (strategy_verify rt (js_strategy s) (utf8_encode (signing_input h c)) sg))
       (accepted_claims rt (js_validators s @ extra) token c header sg)))"
  by (simp add: service_verify_def split: sum.split prod.split)

lemma malformed_token: "(\<nexists>h c g. split_on 46 token = [h, c, g]) \<Longrightarrow>
    fst (service_verify rt s token extra) = Inl (JwtError (js ''jwt: malformed token'')) \<and> \<not> authentic rt s extra token tok"
  by (auto simp: service_verify_def authentic_def split: list.split)

lemma accepts_authentic:
  assumes "createService config = Inr s"
  shows "fst (service_verify rt (jwt_after rt us s) token extra) = Inr tok \<longleftrightarrow> authentic rt s extra token tok"
proof (cases "\<exists>h c g. split_on 46 token = [h, c, g]")
  case True
  then obtain h c g where parts: "split_on 46 token = [h, c, g]" by blast
  let ?t = "jwt_after rt us s"
  have same: "same_service rt s ?t" by (rule created_after [OF assms])
  then have "keys_current rt (js_strategy ?t)" by (simp add: same_service_def)
  note checked = strategy_verify_genuine [OF this]
  have "fst (service_verify rt ?t token extra) = Inr tok \<longleftrightarrow>
    (\<exists>header sg ok. check_header rt (algorithm_of s) h = Inr header \<and> b64_decode (jr_base64url rt) g = Inr sg \<and>
       fst (strategy_verify rt (js_strategy ?t) (utf8_encode (signing_input h c)) sg) = Inr ok \<and>
       accepted_claims rt (js_validators s @ extra) token c header sg ok = Inr tok)"
    by (auto simp: service_verify_parts [OF parts] and_then_Inr_iff same_facts [OF same])
  then show ?thesis
    by (auto simp: authentic_def parts check_header_iff accepted_claims_iff ex_bool_eq checked same_facts(3) [OF same])
next
  case False
  then show ?thesis using malformed_token [OF False, of rt "jwt_after rt us s" extra tok]
      malformed_token [OF False, of rt s extra tok] by simp
qed

text \<open>
  C35: Whatever a created service has signed and verified before, it accepts exactly the authentic tokens of its
  configuration, and answers with their decoded parts.
\<close>

theorem verify_accepts_authentic:
  assumes "createService config = Inr s"
  shows "fst (service_verify rt (jwt_after rt us s) token extra) = Inr tok \<longleftrightarrow> authentic rt s extra token tok"
  by (rule accepts_authentic [OF assms])

section \<open>Signing\<close>

lemma int_text_plain: "list_all (\<lambda>c. \<not> is_surrogate c) (int_text n)"
proof -
  have d: "\<not> is_surrogate c" if "is_digit c" for c
    using that radix_digit_plain [of c] by (auto simp: is_radix_digit_def digit_value_def is_digit_def word_le_nat_alt
      is_surrogate_def is_high_def is_low_def)
  have "\<not> is_surrogate 45" by code_simp
  then show ?thesis using d decimal_digits [of n] decimal_digits [of "- n"]
    by (auto simp: int_text_def list_all_iff split: if_splits)
qed

lemma mark_plain [simp]: "\<not> is_surrogate 91" "\<not> is_surrogate 93" "\<not> is_surrogate 44" "\<not> is_surrogate 123"
  "\<not> is_surrogate 125" "\<not> is_surrogate 58"
  by code_simp+

lemma joined_well_formed:
  "list_all (\<lambda>p. \<forall>r. well_formed (p @ r) = well_formed r) ps \<Longrightarrow> well_formed (join [44] ps @ r) = well_formed r"
  by (induction "[44 :: 16 word]" ps rule: join.induct) (simp_all add: well_formed_Cons)

text \<open>The text of plain data has no lone surrogate, so the UTF-8 encoder keeps it.\<close>

lemma printed_well_formed: "json_plain v \<Longrightarrow> well_formed (json_print v @ r) = well_formed r"
proof (induction v arbitrary: r)
  case (JBool b)
  have "list_all (\<lambda>c. \<not> is_surrogate c) (js ''true'')" "list_all (\<lambda>c. \<not> is_surrogate c) (js ''false'')" by code_simp+
  then show ?case by (simp add: bool_text_def well_formed_plain)
next
  case JNull
  have "list_all (\<lambda>c. \<not> is_surrogate c) (js ''null'')" by code_simp
  then show ?case by (simp add: well_formed_plain)
next
  case (JNum x)
  then obtain n where "number_text x = int_text n" by (auto elim: plain_number)
  then show ?case using int_text_plain by (simp add: well_formed_plain)
next
  case (JArr vs)
  then have "list_all (\<lambda>p. \<forall>r. well_formed (p @ r) = well_formed r) (map json_print vs)"
    by (simp add: list_all_iff)
  then show ?case by (simp add: well_formed_Cons joined_well_formed)
next
  case (JObj ob)
  have "well_formed ((json_quote k @ 58 # json_print v) @ r) = well_formed r" if "(k, v) \<in> set ob" for k v r
    using JObj that by (auto simp: list_all_iff quoted_well_formed well_formed_Cons)
  then have "list_all (\<lambda>p. \<forall>r. well_formed (p @ r) = well_formed r)
      (map (\<lambda>(k, v). json_quote k @ 58 # json_print v) (filter (\<lambda>(k, v). v \<noteq> JUndef) ob))"
    by (auto simp: list_all_iff)
  then show ?case by (simp add: well_formed_Cons joined_well_formed)
qed (simp_all add: quoted_well_formed)

lemma printed_text: "json_plain v \<Longrightarrow> utf8_decode (utf8_encode (json_print v)) = json_print v"
proof -
  assume p: "json_plain v"
  obtain c t where c: "json_print v = c # t" "\<not> json_space c" "c \<noteq> 93" "c \<noteq> 125" using p by (rule json_print_head)
  have "c \<noteq> 0xFEFF"
  proof
    assume f: "c = 0xFEFF"
    consider r where "v = JNum r" | "\<exists>d u. json_print v = d # u \<and> d \<in> {34, 91, 102, 110, 116, 123}"
      using p by (cases v) (simp_all add: bool_text_def js_def json_quote_def)
    then show False
    proof cases
      case 1
      then obtain n where "number_text r = int_text n" using p by (auto elim: plain_number)
      then show False using 1 c(1) f int_text_head [of n] by (auto simp: is_digit_def)
    qed (use c f in auto)
  qed
  then show ?thesis
    using p printed_well_formed [of v "[]"] c(1) by (intro utf8_round_trip) simp_all
qed

text \<open>A codec that undoes itself and never uses the separator.\<close>

definition url_codec :: "base64 \<Rightarrow> bool" where
  "url_codec b \<longleftrightarrow> (\<forall>x. b64_decode b (b64_encode b x) = Inr x \<and> 46 \<notin> set (b64_encode b x))"

lemma decode_b64: "url_codec (jr_base64url rt) \<Longrightarrow> json_plain v \<Longrightarrow> decodeJSON rt (b64 rt v) = Inr v"
  by (simp add: url_codec_def decodeJSON_def b64_def printed_text json_round_trip)

lemma header_plain: "json_plain (jwt_header alg)"
  by (simp add: jwt_header_def js_def)

lemma header_alg_header [simp]: "header_alg (jwt_header alg) = Inr (JStr alg)"
  by (simp add: header_alg_def jwt_header_def obj_get_def js_def)

text \<open>What the strategy signs afresh is genuine to it: a property of Web Crypto and of the two keys configured.\<close>

definition own_signatures :: "'k jwt_runtime \<Rightarrow> 'k strategy \<Rightarrow> bool" where
  "own_signatures rt st \<longleftrightarrow>
     (\<forall>x sg. fst (strategy_sign rt (forget st) x) = Inr sg \<longrightarrow> genuine rt st x sg)"

text \<open>
  C36: The tokens a service signs verify, whatever it is asked to do before or after, with the claims that were signed.
\<close>

theorem signed_tokens_verify:
  assumes "createService config = Inr s" and codec: "url_codec (jr_base64url rt)"
    and own: "own_signatures rt (js_strategy s)" and plain: "json_plain claims"
    and signed: "fst (service_sign rt (jwt_after rt us s) claims) = Inr token"
    and pass: "list_all (\<lambda>f. f claims = Inr ()) (js_validators s @ extra)"
  shows "\<exists>tok. fst (service_verify rt (jwt_after rt ws s) token extra) = Inr tok \<and>
    tok_claims tok = claims \<and> tok_header tok = jwt_header (sc_algorithm config)"
proof -
  let ?t = "jwt_after rt us s"
  let ?h = "b64 rt (jwt_header (algorithm_of s))" and ?c = "b64 rt claims"
  have same: "same_service rt s ?t" by (rule created_after [OF assms(1)])
  have out: "fst (service_sign rt ?t claims) = and_then (fst (strategy_sign rt (js_strategy ?t) (utf8_encode (signing_input ?h ?c))))
      (\<lambda>sg. Inr (signing_input ?h ?c @ 46 # b64_encode (jr_base64url rt) sg))"
    by (simp add: service_sign_def Let_def same_facts(1) [OF same] split: prod.split)
  then obtain sg where sg: "fst (strategy_sign rt (forget (js_strategy s)) (utf8_encode (signing_input ?h ?c))) = Inr sg"
    and token: "token = signing_input ?h ?c @ 46 # b64_encode (jr_base64url rt) sg"
    using signed unfolding out same_facts(4) [OF same] by auto
  have gen: "genuine rt (js_strategy s) (utf8_encode (signing_input ?h ?c)) sg" using own sg by (simp add: own_signatures_def)
  have "46 \<notin> set ?h" "46 \<notin> set ?c" "46 \<notin> set (b64_encode (jr_base64url rt) sg)"
    using codec by (simp_all add: url_codec_def b64_def)
  then have parts: "split_on 46 token = [?h, ?c, b64_encode (jr_base64url rt) sg]"
    unfolding token signing_input_def by (simp add: split_on_append split_on_no_sep)
  let ?tok = "\<lparr>tok_raw = token, tok_header = jwt_header (algorithm_of s), tok_claims = claims, tok_signature = sg\<rparr>"
  have "b64_decode (jr_base64url rt) (b64_encode (jr_base64url rt) sg) = Inr sg" using codec by (simp add: url_codec_def)
  then have "authentic rt s extra token ?tok"
    using gen pass by (simp add: authentic_def parts decode_b64 [OF codec] header_plain plain)
  then have "fst (service_verify rt (jwt_after rt ws s) token extra) = Inr ?tok"
    by (rule accepts_authentic [OF assms(1), THEN iffD2])
  moreover have "algorithm_of s = sc_algorithm config" using assms(1)
    by (auto simp: createService_def createStrategy_def algorithm_of_def split: if_splits option.splits)
  ultimately show ?thesis by auto
qed


section \<open>Concrete services\<close>

text \<open>Keys are their bytes, a signature is the key before the message, and Base64url shifts every byte by 256.\<close>

definition shift_base64 :: base64 where
  "shift_base64 = \<lparr>b64_encode = map (\<lambda>b. ucast b + 256), b64_decode = (\<lambda>s. Inr (map (\<lambda>c. ucast (c - 256)) s))\<rparr>"

definition plain_jwt :: "bytes jwt_runtime" where
  "plain_jwt = \<lparr>jr_base64url = shift_base64, jr_crypto = plain_crypto\<rparr>"

definition hmac_config :: service_config where
  "hmac_config = \<lparr>sc_algorithm = HS256, sc_hmacSecret = Some (js ''k''), sc_rsaPrivateKey = None, sc_rsaPublicKey = None,
     sc_eddsaPrivateKey = None, sc_eddsaPublicKey = None, sc_sign = None, sc_verify = None,
     sc_validators = [\<lambda>c. if payload_field c (js ''sub'') = JStr (js ''u'') then Inr () else Inl (js ''no'')]\<rparr>"

definition hmac_service :: "bytes jwt_service" where
  "hmac_service = \<lparr>js_strategy = HmacStrategy (js ''k'') None, js_validators = sc_validators hmac_config\<rparr>"

lemma hmac_created: "createService hmac_config = Inr hmac_service"
  by (simp add: createService_def createStrategy_def hmac_config_def hmac_service_def missing_def js_def)

lemma shift_codec: "url_codec shift_base64"
proof -
  have "(ucast b + 256 :: 16 word) \<noteq> 46" for b :: "8 word"
  proof -
    have u: "uint (ucast b :: 16 word) = uint b"
      by (simp add: uint_up_ucast is_up_def source_size_def target_size_def word_size)
    have v: "uint (ucast b + 256 :: 16 word) = uint b + 256"
      using uint_lt2p [of b] by (simp add: uint_word_ariths u)
    show ?thesis
    proof
      assume "(ucast b + 256 :: 16 word) = 46"
      from v [unfolded this] show False using uint_ge_0 [of b] by simp
    qed
  qed
  then show ?thesis by (auto simp: url_codec_def shift_base64_def comp_def)
qed

definition user_claims :: jval where
  "user_claims = JObj [(js ''sub'', JStr (js ''u'')), (js ''n'', JNum 3)]"

theorem signed_tokens_verify_witness:
  "\<exists>token. fst (service_sign plain_jwt (jwt_after plain_jwt [SignClaims JNull] hmac_service) user_claims) = Inr token \<and>
    (\<exists>tok. fst (service_verify plain_jwt (jwt_after plain_jwt [] hmac_service) token []) = Inr tok \<and>
      tok_claims tok = user_claims \<and> tok_header tok = jwt_header (sc_algorithm hmac_config))"
proof -
  let ?t = "jwt_after plain_jwt [SignClaims JNull] hmac_service"
  obtain token where token: "fst (service_sign plain_jwt ?t user_claims) = Inr token"
    by (simp add: service_sign_def hmac_service_def plain_jwt_def plain_crypto_def load_key_def import_secret_def Let_def)
  have own: "own_signatures plain_jwt (js_strategy hmac_service)"
    by (simp add: own_signatures_def hmac_service_def genuine_def plain_jwt_def plain_crypto_def load_key_def import_secret_def)
  have "json_plain user_claims" by (simp add: user_claims_def js_def rat_is_int_def)
  moreover have "list_all (\<lambda>f. f user_claims = Inr ()) (js_validators hmac_service @ [])"
    by (simp add: hmac_service_def hmac_config_def user_claims_def obj_get_def)
  ultimately have "\<exists>tok. fst (service_verify plain_jwt (jwt_after plain_jwt [] hmac_service) token []) = Inr tok \<and>
      tok_claims tok = user_claims \<and> tok_header tok = jwt_header (sc_algorithm hmac_config)"
    by (intro signed_tokens_verify [OF hmac_created _ own _ token]) (simp_all add: plain_jwt_def shift_codec)
  then show ?thesis using token by blast
qed

theorem verify_accepts_authentic_witness:
  "\<forall>tok. fst (service_verify plain_jwt (jwt_after plain_jwt [SignClaims JNull] hmac_service) (js ''a.b.c'') []) = Inr tok \<longleftrightarrow>
    authentic plain_jwt hmac_service [] (js ''a.b.c'') tok"
  using verify_accepts_authentic [OF hmac_created] by blast

end
