(* ===== verification/Security_Middleware.thy ===== *)
theory Security_Middleware
  imports Security_Jwt_Facts Telemetry
begin

text \<open>
  The HTTP middleware of \<^verbatim>\<open>src/security/middlewares\<close> and the cookie service of \<^verbatim>\<open>auth/cookies/cookies.ts\<close>: the
  request and claims stores, bearer and cookie authentication, security headers.  The cookie parser of
  \<^verbatim>\<open>@std/http\<close> is an argument.
\<close>

section \<open>The state the middleware shares\<close>

text \<open>
  The two \<^verbatim>\<open>WeakMap\<close>s keyed by the request's identity, and the JWT services by theirs.  A process adds its own state
  as the record's extension.
\<close>

record ('o, 'k, 'c) web = "'o telemetry" +
  web_claims :: "nat \<Rightarrow> jval option"
  web_contexts :: "nat \<Rightarrow> 'c option"
  web_services :: "nat \<Rightarrow> 'k jwt_service"

definition setRequestContext :: "request \<Rightarrow> 'c \<Rightarrow> ('o, 'k, 'c, 'x) web_scheme \<Rightarrow> ('o, 'k, 'c, 'x) web_scheme" where
  "setRequestContext req c w = w\<lparr>web_contexts := (web_contexts w)(req_id req \<mapsto> c)\<rparr>"

definition getRequestContext :: "request \<Rightarrow> ('o, 'k, 'c, 'x) web_scheme \<Rightarrow> 'c option" where
  "getRequestContext req w = web_contexts w (req_id req)"

definition setClaims :: "request \<Rightarrow> jval \<Rightarrow> ('o, 'k, 'c, 'x) web_scheme \<Rightarrow> ('o, 'k, 'c, 'x) web_scheme" where
  "setClaims req claims w = w\<lparr>web_claims := (web_claims w)(req_id req \<mapsto> claims)\<rparr>"

definition getClaims :: "request \<Rightarrow> ('o, 'k, 'c, 'x) web_scheme \<Rightarrow> jval option" where
  "getClaims req w = web_claims w (req_id req)"

definition unauthorized :: "jstr \<Rightarrow> int \<Rightarrow> exn + response" where
  "unauthorized message st = json_response (JObj [(js ''error'', JStr message)]) st"

text \<open>A JWT service verifies a token and keeps the key it may have imported.\<close>

definition web_verify ::
  "'k jwt_runtime \<Rightarrow> nat \<Rightarrow> jstr \<Rightarrow> validator list \<Rightarrow> ('o, 'k, 'c, 'x) web_scheme \<Rightarrow>
    (jwt_error + jwt_token) \<times> ('o, 'k, 'c, 'x) web_scheme" where
  "web_verify rt sid token vs w =
     (case service_verify rt (web_services w sid) token vs of (r, s) \<Rightarrow>
        (r, w\<lparr>web_services := (web_services w)(sid := s)\<rparr>))"

section \<open>Bearer tokens\<close>

record jwt_options =
  jo_header :: "jstr option"
  jo_scheme :: "jstr option"
  jo_validators :: "validator list option"

definition jwt_scheme :: "jwt_options \<Rightarrow> jstr" where
  "jwt_scheme opts = lower (case jo_scheme opts of Some s \<Rightarrow> s | None \<Rightarrow> js ''Bearer'')"

definition validators_of :: "validator list option \<Rightarrow> validator list" where
  "validators_of v = (case v of Some vs \<Rightarrow> vs | None \<Rightarrow> [])"

text \<open>\<^verbatim>\<open>raw.split(" ", 2)\<close> and the two tests after it: the token, if the scheme is the configured one.\<close>

definition bearer_token :: "jstr \<Rightarrow> jstr \<Rightarrow> jstr option" where
  "bearer_token scheme raw =
     (case take 2 (split_on 32 raw) of
        [p, token] \<Rightarrow> if token = [] \<or> lower p \<noteq> scheme then None else Some token
      | _ \<Rightarrow> None)"

definition jwtMiddleware :: "'k jwt_runtime \<Rightarrow> nat \<Rightarrow> jwt_options \<Rightarrow> ('o, 'k, 'c, 'x) web_scheme middleware" where
  "jwtMiddleware rt sid opts nxt req w =
     (case headers_get (req_headers req) (case jo_header opts of Some h \<Rightarrow> h | None \<Rightarrow> js ''Authorization'') of
        Inl e \<Rightarrow> (Inl e, w)
      | Inr raw \<Rightarrow>
          if missing raw then (unauthorized (js ''authorization header is required'') 401, w)
          else (case bearer_token (jwt_scheme opts) (the raw) of
             None \<Rightarrow> (unauthorized (js ''invalid authorization scheme'') 401, w)
           | Some token \<Rightarrow>
               (case web_verify rt sid token (validators_of (jo_validators opts)) w of
                  (Inl e, w') \<Rightarrow> (unauthorized (js ''invalid or expired token'') 401, w')
                | (Inr tok, w') \<Rightarrow> nxt req (setClaims req (tok_claims tok) w'))))"

section \<open>Cookies\<close>

text \<open>The parser of the \<open>Cookie\<close> header, which throws on a malformed one.\<close>

type_synonym cookie_parser = "header_list \<Rightarrow> jstr + (jstr \<times> jstr) list"

definition DEFAULT_COOKIE_NAME :: jstr where "DEFAULT_COOKIE_NAME = js ''access_token''"

record cookie_service =
  ck_service :: nat
  ck_name :: jstr

definition newCookieService :: "nat option \<Rightarrow> jstr option \<Rightarrow> jstr + cookie_service" where
  "newCookieService service name =
     (case service of
        None \<Rightarrow> Inl (js ''cookies: jwt service is required'')
      | Some sid \<Rightarrow>
          Inr \<lparr>ck_service = sid,
               ck_name = (case name of
                  None \<Rightarrow> DEFAULT_COOKIE_NAME
                | Some n \<Rightarrow> if trim n = [] then DEFAULT_COOKIE_NAME else trim n)\<rparr>)"

definition tokenFromRequest :: "cookie_parser \<Rightarrow> cookie_service \<Rightarrow> request \<Rightarrow> jstr + jstr" where
  "tokenFromRequest parse ck req =
     and_then (parse (req_headers req)) (\<lambda>cookies.
       if missing (map_of cookies (ck_name ck)) then Inl (js ''cookies: auth cookie is required'')
       else Inr (the (map_of cookies (ck_name ck))))"

definition cookie_decode ::
  "'k jwt_runtime \<Rightarrow> cookie_parser \<Rightarrow> cookie_service \<Rightarrow> request \<Rightarrow> validator list \<Rightarrow> ('o, 'k, 'c, 'x) web_scheme \<Rightarrow>
    (jwt_error + jwt_token) \<times> ('o, 'k, 'c, 'x) web_scheme" where
  "cookie_decode rt parse ck req vs w =
     (case tokenFromRequest parse ck req of
        Inl m \<Rightarrow> (Inl (JwtThrown m), w)
      | Inr token \<Rightarrow> web_verify rt (ck_service ck) token vs w)"

definition cookie_read ::
  "'k jwt_runtime \<Rightarrow> cookie_parser \<Rightarrow> cookie_service \<Rightarrow> request \<Rightarrow> validator list \<Rightarrow> ('o, 'k, 'c, 'x) web_scheme \<Rightarrow>
    (jwt_error + jval) \<times> ('o, 'k, 'c, 'x) web_scheme" where
  "cookie_read rt parse ck req vs w =
     (case cookie_decode rt parse ck req vs w of (r, w') \<Rightarrow> (and_then r (\<lambda>tok. Inr (tok_claims tok)), w'))"

definition validateRequest ::
  "'k jwt_runtime \<Rightarrow> cookie_parser \<Rightarrow> cookie_service \<Rightarrow> request \<Rightarrow> validator list \<Rightarrow> ('o, 'k, 'c, 'x) web_scheme \<Rightarrow>
    (jwt_error + unit) \<times> ('o, 'k, 'c, 'x) web_scheme" where
  "validateRequest rt parse ck req vs w =
     (case cookie_decode rt parse ck req vs w of (r, w') \<Rightarrow> (and_then r (\<lambda>tok. Inr ()), w'))"

definition cookieMiddleware ::
  "'k jwt_runtime \<Rightarrow> cookie_parser \<Rightarrow> cookie_service \<Rightarrow> validator list \<Rightarrow> ('o, 'k, 'c, 'x) web_scheme middleware" where
  "cookieMiddleware rt parse ck vs nxt req w =
     (case cookie_read rt parse ck req vs w of
        (Inl e, w') \<Rightarrow> (unauthorized (js ''invalid or missing auth cookie'') 401, w')
      | (Inr claims, w') \<Rightarrow> nxt req (setClaims req claims w'))"

section \<open>Security headers\<close>

definition DEFAULT_HEADERS :: "(jstr \<times> jstr) list" where
  "DEFAULT_HEADERS =
     [(js ''X-Content-Type-Options'', js ''nosniff''), (js ''X-Frame-Options'', js ''DENY''),
      (js ''Referrer-Policy'', js ''no-referrer''),
      (js ''Strict-Transport-Security'', js ''max-age=31536000; includeSubDomains''),
      (js ''X-XSS-Protection'', js ''0'')]"

definition merged_headers :: "(jstr \<times> jstr) list option \<Rightarrow> (jstr \<times> jstr) list" where
  "merged_headers extra = spread_over DEFAULT_HEADERS (case extra of Some hs \<Rightarrow> hs | None \<Rightarrow> [])"

definition securityHeaders :: "(jstr \<times> jstr) list option \<Rightarrow> 'w middleware" where
  "securityHeaders extra nxt req =
     effect_then (nxt req) (\<lambda>res.
       lift_result (and_then (headers_set_all (merged_headers extra) (res_headers res)) (\<lambda>hs.
         new_response (res_body res) (res_status res) (res_statusText res) hs)))"

section \<open>What the guards promise\<close>

text \<open>A service of the process that was created as \<open>s\<close> and used since.\<close>

definition serves_as :: "'k jwt_runtime \<Rightarrow> nat \<Rightarrow> 'k jwt_service \<Rightarrow> ('o, 'k, 'c, 'x) web_scheme \<Rightarrow> bool" where
  "serves_as rt sid s w \<longleftrightarrow> (\<exists>us. web_services w sid = jwt_after rt us s)"

text \<open>
  A guard reads a token from the request.  It lets the request pass with the claims of the token it reads, when the
  token is authentic, and otherwise answers by itself, whatever the handler is, without touching the claims.
\<close>

definition passes :: "'k jwt_runtime \<Rightarrow> nat \<Rightarrow> 'k jwt_service \<Rightarrow> request \<Rightarrow> jval \<Rightarrow> ('o, 'k, 'c, 'x) web_scheme \<Rightarrow>
    ('o, 'k, 'c, 'x) web_scheme middleware \<Rightarrow> bool" where
  "passes rt sid s req claims w mw \<longleftrightarrow>
     (\<exists>w'. serves_as rt sid s w' \<and> getClaims req w' = Some claims \<and> web_contexts w' = web_contexts w \<and>
        (\<forall>i. i \<noteq> req_id req \<longrightarrow> web_claims w' i = web_claims w i) \<and> (\<forall>nxt. mw nxt req w = nxt req w'))"

definition refuses :: "'k jwt_runtime \<Rightarrow> nat \<Rightarrow> 'k jwt_service \<Rightarrow> request \<Rightarrow> ('o, 'k, 'c, 'x) web_scheme \<Rightarrow>
    ('o, 'k, 'c, 'x) web_scheme middleware \<Rightarrow> bool" where
  "refuses rt sid s req w mw \<longleftrightarrow>
     (\<exists>r w'. serves_as rt sid s w' \<and> web_claims w' = web_claims w \<and> web_contexts w' = web_contexts w \<and>
        (case r of Inr res \<Rightarrow> res_status res = 401 | Inl e \<Rightarrow> ex_text e = js ''Invalid header name'') \<and>
        (\<forall>nxt. mw nxt req w = (r, w')))"

definition guards :: "'k jwt_runtime \<Rightarrow> nat \<Rightarrow> 'k jwt_service \<Rightarrow> validator list \<Rightarrow> jstr option \<Rightarrow> request \<Rightarrow>
    ('o, 'k, 'c, 'x) web_scheme \<Rightarrow> ('o, 'k, 'c, 'x) web_scheme middleware \<Rightarrow> bool" where
  "guards rt sid s vs presented req w mw \<longleftrightarrow>
     (\<forall>token tok. presented = Some token \<and> authentic rt s vs token tok \<longrightarrow> passes rt sid s req (tok_claims tok) w mw) \<and>
     ((\<nexists>token tok. presented = Some token \<and> authentic rt s vs token tok) \<longrightarrow> refuses rt sid s req w mw)"

lemma unauthorized_status: "\<exists>res. unauthorized m 401 = Inr res \<and> res_status res = 401"
  by (simp add: unauthorized_def json_response_def new_response_def)

lemma jwt_after_snoc: "jwt_after rt (us @ [VerifyToken token vs]) s = snd (service_verify rt (jwt_after rt us s) token vs)"
proof (induction us arbitrary: s)
  case (Cons u us)
  then show ?case by (cases u) simp_all
qed simp

lemma web_verify_serves:
  assumes "createService config = Inr s" "serves_as rt sid s w"
  shows "\<exists>w'. web_verify rt sid token vs w = (fst (web_verify rt sid token vs w), w') \<and> serves_as rt sid s w' \<and>
      web_claims w' = web_claims w \<and> web_contexts w' = web_contexts w"
    and "fst (web_verify rt sid token vs w) = Inr tok \<longleftrightarrow> authentic rt s vs token tok"
proof -
  obtain us where us: "web_services w sid = jwt_after rt us s" using assms(2) by (auto simp: serves_as_def)
  show "fst (web_verify rt sid token vs w) = Inr tok \<longleftrightarrow> authentic rt s vs token tok"
    using accepts_authentic [OF assms(1)] by (simp add: web_verify_def us split_beta)
  let ?w = "w\<lparr>web_services := (web_services w)(sid := jwt_after rt (us @ [VerifyToken token vs]) s)\<rparr>"
  have "web_verify rt sid token vs w = (fst (web_verify rt sid token vs w), ?w)"
    by (simp add: web_verify_def us jwt_after_snoc split_beta)
  moreover have "serves_as rt sid s ?w" by (auto simp: serves_as_def)
  ultimately show "\<exists>w'. web_verify rt sid token vs w = (fst (web_verify rt sid token vs w), w') \<and> serves_as rt sid s w' \<and>
      web_claims w' = web_claims w \<and> web_contexts w' = web_contexts w" by (intro exI [of _ ?w]) simp
qed

lemma guardsI:
  assumes "createService config = Inr s" "serves_as rt sid s w"
    and some: "\<And>token nxt. presented = Some token \<Longrightarrow> mw nxt req w =
      (case web_verify rt sid token vs w of
         (Inl e, w') \<Rightarrow> (unauthorized m 401, w') | (Inr tok, w') \<Rightarrow> nxt req (setClaims req (tok_claims tok) w'))"
    and none: "presented = None \<Longrightarrow> refuses rt sid s req w mw"
  shows "guards rt sid s vs presented req w mw"
proof (cases presented)
  case None
  then show ?thesis using none by (simp add: guards_def)
next
  case (Some token)
  obtain w' where w': "web_verify rt sid token vs w = (fst (web_verify rt sid token vs w), w')" "serves_as rt sid s w'"
      "web_claims w' = web_claims w" "web_contexts w' = web_contexts w"
    using web_verify_serves(1) [OF assms(1,2)] by metis
  note ok = web_verify_serves(2) [OF assms(1,2), of token vs]
  obtain res where res: "unauthorized m 401 = Inr res" "res_status res = 401" using unauthorized_status by blast
  show ?thesis
  proof (cases "fst (web_verify rt sid token vs w)")
    case (Inl e)
    then have "mw nxt req w = (Inr res, w')" for nxt using some [OF Some] w'(1) res by (simp split: prod.split)
    then have "refuses rt sid s req w mw" unfolding refuses_def using w' res by (intro exI [of _ "Inr res"] exI [of _ w']) simp
    moreover have "\<not> authentic rt s vs token tok" for tok using ok [of tok] Inl by simp
    ultimately show ?thesis using Some by (simp add: guards_def)
  next
    case (Inr tok)
    then have "mw nxt req w = nxt req (setClaims req (tok_claims tok) w')" for nxt
      using some [OF Some] w'(1) by (simp split: prod.split)
    then have "passes rt sid s req (tok_claims tok) w mw"
      unfolding passes_def using w' by (intro exI [of _ "setClaims req (tok_claims tok) w'"])
        (simp add: serves_as_def setClaims_def getClaims_def)
    moreover have "tok' = tok" if "authentic rt s vs token tok'" for tok' using ok [of tok'] Inr that by simp
    moreover have "authentic rt s vs token tok" using ok [of tok] Inr by simp
    ultimately show ?thesis using Some unfolding guards_def by blast
  qed
qed

text \<open>The token a request presents to the bearer guard.\<close>

definition presented_bearer :: "jwt_options \<Rightarrow> request \<Rightarrow> jstr option" where
  "presented_bearer opts req =
     (case headers_get (req_headers req) (case jo_header opts of Some h \<Rightarrow> h | None \<Rightarrow> js ''Authorization'') of
        Inr (Some raw) \<Rightarrow> if raw = [] then None else bearer_token (jwt_scheme opts) raw
      | _ \<Rightarrow> None)"

lemma bearer_guarded:
  assumes "createService config = Inr s" "serves_as rt sid s w"
  shows "guards rt sid s (validators_of (jo_validators opts)) (presented_bearer opts req) req w (jwtMiddleware rt sid opts)"
proof (rule guardsI [OF assms, where m = "js ''invalid or expired token''"])
  fix token nxt
  assume "presented_bearer opts req = Some token"
  then show "jwtMiddleware rt sid opts nxt req w =
      (case web_verify rt sid token (validators_of (jo_validators opts)) w of
         (Inl e, w') \<Rightarrow> (unauthorized (js ''invalid or expired token'') 401, w')
       | (Inr tok, w') \<Rightarrow> nxt req (setClaims req (tok_claims tok) w'))"
    by (auto simp: presented_bearer_def jwtMiddleware_def missing_def split: sum.splits option.splits if_splits)
next
  assume p: "presented_bearer opts req = None"
  have "\<exists>r. (case r of Inr res \<Rightarrow> res_status res = 401 | Inl e \<Rightarrow> ex_text e = js ''Invalid header name'') \<and>
      (\<forall>nxt. jwtMiddleware rt sid opts nxt req w = (r, w))"
  proof (cases "headers_get (req_headers req) (case jo_header opts of Some h \<Rightarrow> h | None \<Rightarrow> js ''Authorization'')")
    case (Inl e)
    then show ?thesis by (auto simp: jwtMiddleware_def headers_get_def plain_error_def split: if_splits)
  next
    case (Inr raw)
    obtain m where "jwtMiddleware rt sid opts nxt req w = (unauthorized m 401, w)" for nxt
    proof (cases "missing raw")
      case True
      then show thesis using that Inr by (simp add: jwtMiddleware_def)
    next
      case False
      then have "bearer_token (jwt_scheme opts) (the raw) = None"
        using p Inr by (cases raw) (simp_all add: presented_bearer_def missing_def)
      then show thesis using that Inr False by (simp add: jwtMiddleware_def)
    qed
    moreover obtain res where "unauthorized m 401 = Inr res" "res_status res = 401" using unauthorized_status by blast
    ultimately show ?thesis by (intro exI [of _ "Inr res"]) simp
  qed
  then show "refuses rt sid s req w (jwtMiddleware rt sid opts)" using assms(2) unfolding refuses_def by blast
qed

theorem bearer_guard:
  assumes "createService config = Inr s" "serves_as rt sid s w"
  shows "guards rt sid s (validators_of (jo_validators opts)) (presented_bearer opts req) req w (jwtMiddleware rt sid opts)"
  by (rule bearer_guarded [OF assms])

theorem cookie_guard:
  assumes "createService config = Inr s" "serves_as rt (ck_service ck) s w"
  shows "guards rt (ck_service ck) s vs
    (case tokenFromRequest parse ck req of Inr token \<Rightarrow> Some token | Inl m \<Rightarrow> None) req w (cookieMiddleware rt parse ck vs)"
proof (rule guardsI [OF assms, where m = "js ''invalid or missing auth cookie''"])
  fix token nxt
  assume "(case tokenFromRequest parse ck req of Inr token \<Rightarrow> Some token | Inl m \<Rightarrow> None) = Some token"
  then show "cookieMiddleware rt parse ck vs nxt req w =
      (case web_verify rt (ck_service ck) token vs w of
         (Inl e, w') \<Rightarrow> (unauthorized (js ''invalid or missing auth cookie'') 401, w')
       | (Inr tok, w') \<Rightarrow> nxt req (setClaims req (tok_claims tok) w'))"
    by (auto simp: cookieMiddleware_def cookie_read_def cookie_decode_def split: sum.splits prod.splits)
next
  assume "(case tokenFromRequest parse ck req of Inr token \<Rightarrow> Some token | Inl m \<Rightarrow> None) = None"
  then have "cookieMiddleware rt parse ck vs nxt req w = (unauthorized (js ''invalid or missing auth cookie'') 401, w)" for nxt
    by (auto simp: cookieMiddleware_def cookie_read_def cookie_decode_def split: sum.splits)
  moreover obtain res where "unauthorized (js ''invalid or missing auth cookie'') 401 = Inr res" "res_status res = 401"
    using unauthorized_status by blast
  ultimately show "refuses rt (ck_service ck) s req w (cookieMiddleware rt parse ck vs)"
    unfolding refuses_def using assms(2) by (intro exI [of _ "Inr res"] exI [of _ w]) simp
qed

end
