(* ===== verification/Http_Auth.thy ===== *)
theory Http_Auth
  imports Http_Server Security_Middleware
begin

text \<open>
  The server and the guards together: a route of a group behind the bearer guard.  The theorems of the two
  components give what a client of the library relies on; the concrete runs apply them.
\<close>

section \<open>A route behind the guard\<close>

lemma annotated [simp]:
  "web_claims (setHttpRoute i m r w) = web_claims w" "web_contexts (setHttpRoute i m r w) = web_contexts w"
  "web_services (setHttpRoute i m r w) = web_services w"
  by (simp_all add: setHttpRoute_def setOtelHttpRoute_def span_call_on_def split: option.split)

lemma serves_annotated [simp]: "serves_as rt sid s (setHttpRoute i m r w) = serves_as rt sid s w"
  by (simp add: serves_as_def)

lemma group_answers:
  assumes "group_handle up g method path h mws st = Inr st'" "gr_server g < length (st_servers st)"
    and "globals_of (gr_server g) st = []" "\<not> list_ex (fits up req) (sv_routes (server_of (gr_server g) st))"
    and "method = req_method req" "up_test up (joinPath (gr_prefix g) path) (req_url req)"
  shows "root_handler up ot (gr_server g) st' req w =
    wrap_with (gr_middleware g @ mws) h req (setHttpRoute (activeSpan ot w) method (joinPath (gr_prefix g) path) w)"
  using handle_routes [OF assms(1) [unfolded group_handle_def] assms(2)] assms(3-6)
  by (simp add: root_handler_def http_handler_def route_append)

text \<open>
  C37: On a server without global middleware, the handlers of a group behind the bearer guard see a request that reaches
  their route only with the claims of an authentic token; to any other request the server gives the same refusal
  whatever the handler would do.
\<close>

theorem protected_group:
  assumes "createService config = Inr s" "serves_as rt ssid s w"
    and group: "g = server_group sid p [jwtMiddleware rt ssid opts]" "sid < length (st_servers st)" "globals_of sid st = []"
    and route: "\<not> list_ex (fits up req) (sv_routes (server_of sid st))" "up_test up (joinPath p path) (req_url req)"
  shows
    "case presented_bearer opts req of
       Some token \<Rightarrow>
         (if \<exists>tok. authentic rt s (validators_of (jo_validators opts)) token tok
          then \<exists>tok w'. authentic rt s (validators_of (jo_validators opts)) token tok \<and> getClaims req w' = Some (tok_claims tok) \<and>
            (\<forall>h mws st'. group_handle up g (req_method req) path h mws st = Inr st' \<longrightarrow>
               root_handler up ot sid st' req w = wrap_with mws h req w')
          else \<exists>r w'. (case r of Inr res \<Rightarrow> res_status res = 401 | Inl e \<Rightarrow> ex_text e = js ''Invalid header name'') \<and>
            web_claims w' = web_claims w \<and>
            (\<forall>h mws st'. group_handle up g (req_method req) path h mws st = Inr st' \<longrightarrow>
               root_handler up ot sid st' req w = (r, w')))
     | None \<Rightarrow>
         \<exists>r w'. (case r of Inr res \<Rightarrow> res_status res = 401 | Inl e \<Rightarrow> ex_text e = js ''Invalid header name'') \<and>
            web_claims w' = web_claims w \<and>
            (\<forall>h mws st'. group_handle up g (req_method req) path h mws st = Inr st' \<longrightarrow>
               root_handler up ot sid st' req w = (r, w'))"
proof -
  let ?v = "setHttpRoute (activeSpan ot w) (req_method req) (joinPath p path) w"
  let ?mw = "jwtMiddleware rt ssid opts"
  have g: "gr_server g = sid" "gr_prefix g = p" "gr_middleware g = [?mw]" by (simp_all add: group server_group_def)
  have ans: "root_handler up ot sid st' req w = ?mw (wrap_with mws h) req ?v"
    if "group_handle up g (req_method req) path h mws st = Inr st'" for h mws st'
    using group_answers [OF that, of req ot w] group(2,3) route by (simp add: g)
  have guard: "guards rt ssid s (validators_of (jo_validators opts)) (presented_bearer opts req) req ?v ?mw"
    by (rule bearer_guarded [OF assms(1)]) (simp add: assms(2))
  have refusal: "\<exists>r w'. (case r of Inr res \<Rightarrow> res_status res = 401 | Inl e \<Rightarrow> ex_text e = js ''Invalid header name'') \<and>
      web_claims w' = web_claims w \<and>
      (\<forall>h mws st'. group_handle up g (req_method req) path h mws st = Inr st' \<longrightarrow>
         root_handler up ot sid st' req w = (r, w'))" if ref: "refuses rt ssid s req ?v ?mw"
  proof -
    obtain r w' where "case r of Inr res \<Rightarrow> res_status res = 401 | Inl e \<Rightarrow> ex_text e = js ''Invalid header name''"
      "web_claims w' = web_claims w" "\<And>nxt. ?mw nxt req ?v = (r, w')"
      using ref unfolding refuses_def by auto
    then show ?thesis using ans by (intro exI [of _ r] exI [of _ w']) simp
  qed
  show ?thesis
  proof (cases "presented_bearer opts req")
    case None
    then show ?thesis using guard refusal by (simp add: guards_def)
  next
    case (Some token)
    show ?thesis
    proof (cases "\<exists>tok. authentic rt s (validators_of (jo_validators opts)) token tok")
      case False
      then show ?thesis using guard refusal Some by (simp add: guards_def)
    next
      case True
      then obtain tok where tok: "authentic rt s (validators_of (jo_validators opts)) token tok" by blast
      then have "passes rt ssid s req (tok_claims tok) ?v ?mw" using guard Some by (simp add: guards_def)
      then obtain w' where "getClaims req w' = Some (tok_claims tok)" "\<And>nxt. ?mw nxt req ?v = nxt req w'"
        unfolding passes_def by blast
      then have "\<exists>tok w'. authentic rt s (validators_of (jo_validators opts)) token tok \<and> getClaims req w' = Some (tok_claims tok) \<and>
            (\<forall>h mws st'. group_handle up g (req_method req) path h mws st = Inr st' \<longrightarrow>
               root_handler up ot sid st' req w = wrap_with mws h req w')"
        using tok ans by (intro exI [of _ tok] exI [of _ w']) simp
      then show ?thesis using Some True by simp
    qed
  qed
qed

section \<open>A concrete server\<close>

definition any_pattern :: url_pattern where
  "any_pattern = \<lparr>up_valid = (\<lambda>p. True), up_test = (\<lambda>p url. p = url)\<rparr>"

type_synonym plain_web = "(unit, bytes, unit) web"

definition plain_world :: plain_web where
  "plain_world = \<lparr>tel_context = (), tel_next = 0, tel_calls = [], tel_durations = [], tel_now = 0, web_claims = (\<lambda>_. None),
     web_contexts = (\<lambda>_. None), web_services = (\<lambda>_. hmac_service)\<rparr>"

definition plain_options :: "nat option \<Rightarrow> plain_web server_options" where
  "plain_options r = \<lparr>so_port = None, so_hostname = None, so_healthPath = Some [], so_healthHandler = None, so_middleware = r\<rparr>"

definition one_server :: "plain_web http_store" where
  "one_server = \<lparr>st_arrays = [[]], st_servers = [\<lparr>sv_port = 8080, sv_hostname = [], sv_healthPath = [], sv_global = 0,
     sv_routes = [], sv_root = None\<rparr>]\<rparr>"

definition plain_jwt_options :: jwt_options where
  "plain_jwt_options = \<lparr>jo_header = None, jo_scheme = None, jo_validators = None\<rparr>"

definition api_request :: request where
  "api_request = \<lparr>req_id = 7, req_method = js ''GET'', req_url = js ''/api/me'',
     req_headers = [(js ''authorization'', js ''bearer a.b'')]\<rparr>"

lemma api_token: "presented_bearer plain_jwt_options api_request = Some (js ''a.b'')"
  by code_simp

lemma api_path: "joinPath (js ''/api'') (js ''me'') = js ''/api/me''"
  by code_simp

theorem protected_group_witness:
  "\<exists>r w'. (case r of Inr res \<Rightarrow> res_status res = 401 | Inl e \<Rightarrow> ex_text e = js ''Invalid header name'') \<and>
    web_claims w' = web_claims plain_world \<and>
    (\<forall>h mws st'. group_handle any_pattern (server_group 0 (js ''/api'') [jwtMiddleware plain_jwt 0 plain_jwt_options])
        (req_method api_request) (js ''me'') h mws one_server = Inr st' \<longrightarrow>
      root_handler any_pattern no_otel 0 st' api_request plain_world = (r, w'))"
proof -
  have serves: "serves_as plain_jwt 0 hmac_service plain_world"
    unfolding serves_as_def by (rule exI [of _ "[]"]) (simp add: plain_world_def)
  have parts: "split_on 46 (js ''a.b'') = [js ''a'', js ''b'']" by code_simp
  have no: "\<not> (\<exists>tok. authentic plain_jwt hmac_service (validators_of (jo_validators plain_jwt_options)) (js ''a.b'') tok)"
    by (simp add: authentic_def parts)
  have st: "0 < length (st_servers one_server)" "globals_of 0 one_server = []"
    "\<not> list_ex (fits any_pattern api_request) (sv_routes (server_of 0 one_server))"
    by (simp_all add: one_server_def globals_of_def server_of_def)
  have "up_test any_pattern (joinPath (js ''/api'') (js ''me'')) (req_url api_request)"
    by (simp add: any_pattern_def api_path api_request_def)
  from protected_group [OF hmac_created serves refl st this, of plain_jwt_options no_otel]
  show ?thesis by (simp only: api_token option.case no if_False)
qed

theorem bearer_guard_witness:
  "guards plain_jwt 0 hmac_service [] (presented_bearer plain_jwt_options api_request) api_request plain_world
    (jwtMiddleware plain_jwt 0 plain_jwt_options)"
proof -
  have "serves_as plain_jwt 0 hmac_service plain_world"
    unfolding serves_as_def by (rule exI [of _ "[]"]) (simp add: plain_world_def)
  from bearer_guard [OF hmac_created this, of plain_jwt_options api_request] show ?thesis
    by (simp add: plain_jwt_options_def validators_of_def)
qed

definition stop_middleware :: "plain_web middleware" where
  "stop_middleware nxt req w = (json_response JNull 503, w)"

theorem use_leaks_between_servers_witness:
  "\<exists>a b st. newHttpServer any_pattern (plain_options (Some 0)) one_server = Inr (a, one_server\<lparr>st_servers := st_servers one_server @
        [(st_servers one_server ! 0)\<lparr>sv_hostname := js ''0.0.0.0''\<rparr>]\<rparr>) \<and>
     a \<noteq> b \<and> globals_of b (use_middleware a [stop_middleware] st) = globals_of b st @ [stop_middleware]"
proof -
  let ?st1 = "one_server\<lparr>st_servers := st_servers one_server @ [(st_servers one_server ! 0)\<lparr>sv_hostname := js ''0.0.0.0''\<rparr>]\<rparr>"
  have a: "newHttpServer any_pattern (plain_options (Some 0)) one_server = Inr (1, ?st1)"
    by (simp add: newHttpServer_def plain_options_def one_server_def)
  obtain st where b: "newHttpServer any_pattern (plain_options (Some 0)) ?st1 = Inr (2, st)"
    by (simp add: newHttpServer_def plain_options_def one_server_def Let_def)
  have "store_ok one_server" by (simp add: store_ok_def one_server_def)
  moreover have "so_middleware (plain_options (Some 0)) = Some 0" "0 < length (st_arrays one_server)"
    by (simp_all add: plain_options_def one_server_def)
  ultimately show ?thesis using use_leaks_between_servers [OF _ _ _ a b] a by blast
qed

end
