(* ===== verification/Http_Context.thy ===== *)
theory Http_Context
  imports Http_Auth
begin

text \<open>
  The request context and W3C trace propagation of \<^verbatim>\<open>src/config/server/http/context.ts\<close>.  The random bytes, the
  UUID, the URL parser and the propagator are the runtime's, arguments of the middleware.
\<close>

section \<open>W3C syntax\<close>

text \<open>The groups of \<^verbatim>\<open>/^([0-9a-f]{2})-([0-9a-f]{32})-([0-9a-f]{16})-([0-9a-f]{2})$/\<close>.\<close>

definition traceparent_match :: "jstr \<Rightarrow> (jstr \<times> jstr \<times> jstr \<times> jstr) option" where
  "traceparent_match s =
     (let v = take 2 s; t = take 32 (drop 3 s); p = take 16 (drop 36 s); f = drop 53 s
      in if low_hex 2 v \<and> low_hex 32 t \<and> low_hex 16 p \<and> low_hex 2 f \<and> s = v @ 45 # t @ 45 # p @ 45 # f
         then Some (v, t, p, f) else None)"

definition isValidTraceparent :: "jstr \<Rightarrow> bool" where
  "isValidTraceparent s =
     (case traceparent_match s of
        None \<Rightarrow> False
      | Some (v, t, p, f) \<Rightarrow> v \<noteq> js ''ff'' \<and> t \<noteq> replicate 32 48 \<and> p \<noteq> replicate 16 48)"

definition state_key_unit :: "16 word \<Rightarrow> bool" where
  "state_key_unit c \<longleftrightarrow> is_lower c \<or> is_digit c \<or> c = 95 \<or> c = 45"

text \<open>A first unit of a class, then at most \<open>n\<close> of the key units.\<close>

definition key_part :: "(16 word \<Rightarrow> bool) \<Rightarrow> nat \<Rightarrow> jstr \<Rightarrow> bool" where
  "key_part first n k = (case k of [] \<Rightarrow> False | c # cs \<Rightarrow> first c \<and> length cs \<le> n \<and> list_all state_key_unit cs)"

definition isValidTracestateKey :: "jstr \<Rightarrow> bool" where
  "isValidTracestateKey k \<longleftrightarrow> key_part is_lower 255 k \<or>
     (case split_on 64 k of [a, b] \<Rightarrow> key_part (\<lambda>c. is_lower c \<or> is_digit c) 240 a \<and> key_part is_lower 13 b | _ \<Rightarrow> False)"

definition state_value_unit :: "16 word \<Rightarrow> bool" where
  "state_value_unit c \<longleftrightarrow> (0x20 \<le> c \<and> c \<le> 0x2B) \<or> (0x2D \<le> c \<and> c \<le> 0x3C) \<or> (0x3E \<le> c \<and> c \<le> 0x7E)"

definition isValidTracestateValue :: "jstr \<Rightarrow> bool" where
  "isValidTracestateValue v \<longleftrightarrow>
     0 < length v \<and> length v \<le> 256 \<and> hd v \<noteq> 32 \<and> last v \<noteq> 32 \<and> list_all state_value_unit v"

text \<open>The loop over the members, with the keys seen so far.\<close>

fun valid_members :: "jstr list \<Rightarrow> jstr list \<Rightarrow> bool" where
  "valid_members keys [] = True"
| "valid_members keys (raw # raws) =
     (let member = trim raw in
      case index_of 61 member of
        None \<Rightarrow> False
      | Some i \<Rightarrow>
          if i = 0 \<or> last_index_of 61 member \<noteq> Some i then False
          else (let key = take i member; v = drop (i + 1) member
                in isValidTracestateKey key \<and> isValidTracestateValue v \<and> key \<notin> set keys \<and> valid_members (key # keys) raws))"

definition isValidTracestate :: "jstr \<Rightarrow> bool" where
  "isValidTracestate s \<longleftrightarrow>
     \<not> (length s = 0 \<or> length s > 512 \<or> trim s \<noteq> s) \<and>
     length (split_on 44 s) \<le> 32 \<and> valid_members [] (split_on 44 s)"

section \<open>Fresh identifiers\<close>

definition hex_byte :: "8 word \<Rightarrow> jstr" where
  "hex_byte b = pad_zeros 2 (int_digits 16 (uint b))"

definition hex_of_bytes :: "bytes \<Rightarrow> jstr" where
  "hex_of_bytes bs = concat (map hex_byte bs)"

text \<open>The loop draws until the bytes are not all zero: it may never end.\<close>

partial_function (option) randomNonZeroHex :: "(nat \<Rightarrow> bytes) \<Rightarrow> nat \<Rightarrow> jstr option" where
  "randomNonZeroHex draws k =
     (if all_zero (hex_of_bytes (draws k)) then randomNonZeroHex draws (Suc k) else Some (hex_of_bytes (draws k)))"

record http_random =
  hx_trace :: "nat \<Rightarrow> bytes"
  hx_span :: "nat \<Rightarrow> bytes"
  hx_uuid :: jstr

definition newTraceparent :: "http_random \<Rightarrow> jstr option" where
  "newTraceparent rnd =
     Option.bind (randomNonZeroHex (hx_trace rnd) 0) (\<lambda>t.
     Option.bind (randomNonZeroHex (hx_span rnd) 0) (\<lambda>p.
       Some (js ''00-'' @ t @ 45 # p @ js ''-01'')))"

section \<open>The middleware\<close>

record request_context =
  cx_requestId :: jstr
  cx_traceparent :: jstr
  cx_traceId :: jstr
  cx_spanId :: jstr
  cx_traceFlags :: jstr
  cx_tracestate :: "jstr option"
  cx_startedAt :: rat
  cx_method :: jstr
  cx_pathname :: jstr
  cx_attributes :: jobj
  cx_process :: "jval list"
  cx_skipLogging :: bool

datatype context_attributes = FixedAttributes jobj | AttributesOf "request \<Rightarrow> exn + jobj"

record context_options =
  co_requestIdHeader :: "jstr option"
  co_requestIdFactory :: "(request \<Rightarrow> exn + jstr) option"
  co_attributes :: "context_attributes option"

definition setResponseHeader :: "response \<Rightarrow> jstr \<Rightarrow> jstr \<Rightarrow> exn + response" where
  "setResponseHeader res n v =
     (case (if res_immutable res then Inl (plain_error (js ''Cannot change header: headers are immutable''))
            else headers_set n v (res_headers res)) of
        Inr hs \<Rightarrow> Inr (res\<lparr>res_headers := hs\<rparr>)
      | Inl _ \<Rightarrow>
          and_then (headers_set n v (res_headers res)) (\<lambda>hs.
            new_response (res_body res) (res_status res) (res_statusText res) hs))"

definition field_of :: "nat \<Rightarrow> jstr list \<Rightarrow> jstr" where
  "field_of i parts = (if i < length parts then parts ! i else [])"

definition id_header :: "context_options \<Rightarrow> jstr" where
  "id_header opts = (case co_requestIdHeader opts of Some h \<Rightarrow> h | None \<Rightarrow> js ''x-request-id'')"

text \<open>\<open>supplied || generated || randomUUID()\<close>; the factory is asked in any case.\<close>

definition request_id :: "http_random \<Rightarrow> context_options \<Rightarrow> request \<Rightarrow> exn + jstr" where
  "request_id rnd opts req =
     and_then (headers_get (req_headers req) (id_header opts)) (\<lambda>supplied.
     and_then (case co_requestIdFactory opts of None \<Rightarrow> Inr [] | Some f \<Rightarrow> f req) (\<lambda>generated.
       Inr (if trim (case supplied of Some v \<Rightarrow> v | None \<Rightarrow> []) \<noteq> [] then trim (the supplied)
            else if trim generated \<noteq> [] then trim generated else hx_uuid rnd)))"

definition context_attributes_of :: "context_options \<Rightarrow> request \<Rightarrow> exn + jobj" where
  "context_attributes_of opts req =
     (case co_attributes opts of
        None \<Rightarrow> Inr []
      | Some (FixedAttributes ob) \<Rightarrow> Inr ob
      | Some (AttributesOf f) \<Rightarrow> f req)"

definition incoming_traceparent :: "request \<Rightarrow> jstr option" where
  "incoming_traceparent req =
     (case map_of (req_headers req) (js ''traceparent'') of
        Some tp \<Rightarrow> if tp \<noteq> [] \<and> isValidTraceparent tp then Some tp else None
      | None \<Rightarrow> None)"

definition incoming_tracestate :: "request \<Rightarrow> jstr option" where
  "incoming_tracestate req =
     (if incoming_traceparent req = None then None
      else (case map_of (req_headers req) (js ''tracestate'') of
        Some ts \<Rightarrow> if ts \<noteq> [] \<and> isValidTracestate ts then Some ts else None
      | None \<Rightarrow> None))"

text \<open>The ambient span wins, then a valid incoming header, then a fresh identifier.\<close>

definition chosen_traceparent :: "'o otel \<Rightarrow> http_random \<Rightarrow> request \<Rightarrow> ('o, 'k, request_context, 'x) web_scheme \<Rightarrow> jstr option" where
  "chosen_traceparent ot rnd req w =
     (case traceparent (activeSpanContext ot w) of
        Some tp \<Rightarrow> Some tp
      | None \<Rightarrow> (case incoming_traceparent req of Some tp \<Rightarrow> Some tp | None \<Rightarrow> newTraceparent rnd))"

definition request_context_of ::
  "(jstr \<Rightarrow> jstr) \<Rightarrow> jstr \<Rightarrow> jstr \<Rightarrow> jobj \<Rightarrow> request \<Rightarrow> rat \<Rightarrow> request_context" where
  "request_context_of pathname_of tp rid attrs req now =
     (let parts = split_on 45 tp
      in \<lparr>cx_requestId = rid, cx_traceparent = tp, cx_traceId = field_of 1 parts, cx_spanId = field_of 2 parts,
          cx_traceFlags = field_of 3 parts, cx_tracestate = incoming_tracestate req, cx_startedAt = now,
          cx_method = req_method req, cx_pathname = pathname_of (req_url req), cx_attributes = attrs, cx_process = [],
          cx_skipLogging = False\<rparr>)"

text \<open>\<open>None\<close>: the fresh identifier was never drawn, so the request is not answered.\<close>

definition httpContext ::
  "'o otel \<Rightarrow> (jstr \<Rightarrow> jstr) \<Rightarrow> http_random \<Rightarrow> context_options \<Rightarrow> ('o, 'k, request_context, 'x) web_scheme handler \<Rightarrow> request \<Rightarrow>
    ('o, 'k, request_context, 'x) web_scheme \<Rightarrow> ((exn + response) \<times> ('o, 'k, request_context, 'x) web_scheme) option" where
  "httpContext ot pathname_of rnd opts nxt req w =
     (let extracted = ot_extract ot (tel_context w) (map (\<lambda>(k, v). (k, [v])) (req_headers req));
          ambient = traceparent (activeSpanContext ot w)
      in map_option (\<lambda>tp.
           case and_then (request_id rnd opts req) (\<lambda>rid. and_then (context_attributes_of opts req) (\<lambda>attrs. Inr (rid, attrs))) of
             Inl e \<Rightarrow> (Inl e, w)
           | Inr (rid, attrs) \<Rightarrow>
               (let w1 = setRequestContext req (request_context_of pathname_of tp rid attrs req (tel_now w)) w;
                    execution = (if ambient = None then extracted else tel_context w)
                in effect_then (with_context execution (nxt req)) (\<lambda>res. lift_result (setResponseHeader res (id_header opts) rid)) w1))
         (chosen_traceparent ot rnd req w))"

section \<open>Trace identifiers\<close>

lemma low_hex_not_dash: "low_hex n s \<Longrightarrow> 45 \<notin> set s"
  by (auto simp: low_hex_def is_low_hex_def is_digit_def list_all_iff word_le_nat_alt dest!: bspec)

lemma traceparent_match_text:
  assumes "low_hex 2 v" "low_hex 32 t" "low_hex 16 p" "low_hex 2 f"
  shows "traceparent_match (v @ 45 # t @ 45 # p @ 45 # f) = Some (v, t, p, f)"
  using assms by (simp add: traceparent_match_def low_hex_def)

lemma traceparent_match_parts:
  "traceparent_match s = Some (v, t, p, f) \<Longrightarrow>
    s = v @ 45 # t @ 45 # p @ 45 # f \<and> low_hex 2 v \<and> low_hex 32 t \<and> low_hex 16 p \<and> low_hex 2 f"
  by (auto simp: traceparent_match_def Let_def split: if_splits)

lemma all_zero_eq: "length s = n \<Longrightarrow> 0 < n \<Longrightarrow> all_zero s \<longleftrightarrow> s = replicate n 48"
  by (auto simp: all_zero_def list_all_iff intro: replicate_eqI) (metis in_set_replicate)

text \<open>A well-formed value has four fields between its dashes.\<close>

lemma valid_fields:
  assumes "isValidTraceparent s"
  shows "\<exists>v t p f. split_on 45 s = [v, t, p, f] \<and> s = v @ 45 # t @ 45 # p @ 45 # f \<and>
    low_hex 32 t \<and> \<not> all_zero t \<and> low_hex 16 p \<and> \<not> all_zero p \<and> low_hex 2 f"
proof -
  obtain v t p f where m: "traceparent_match s = Some (v, t, p, f)" "t \<noteq> replicate 32 48" "p \<noteq> replicate 16 48"
    using assms by (auto simp: isValidTraceparent_def split: option.splits)
  note parts = traceparent_match_parts [OF m(1)]
  then have "45 \<notin> set v" "45 \<notin> set t" "45 \<notin> set p" "45 \<notin> set f" by (auto dest: low_hex_not_dash)
  then have "split_on 45 s = [v, t, p, f]"
    using parts by (simp add: split_on_append split_on_no_sep)
  then show ?thesis using parts m(2,3) all_zero_eq [of t 32] all_zero_eq [of p 16] by (auto simp: low_hex_def)
qed

lemma valid_text:
  assumes "low_hex 32 t" "\<not> all_zero t" "low_hex 16 p" "\<not> all_zero p" "low_hex 2 f"
  shows "isValidTraceparent (js ''00-'' @ t @ 45 # p @ 45 # f)"
proof -
  have "low_hex 2 (js ''00'')" by code_simp
  from traceparent_match_text [OF this assms(1,3,5)]
  have "traceparent_match (js ''00-'' @ t @ 45 # p @ 45 # f) = Some (js ''00'', t, p, f)" by (simp add: js_def)
  moreover have "t \<noteq> replicate 32 48" "p \<noteq> replicate 16 48"
    using assms all_zero_eq [of t 32] all_zero_eq [of p 16] by (simp_all add: low_hex_def)
  ultimately show ?thesis by (simp add: isValidTraceparent_def js_def)
qed

lemma hex_digit_low: "0 \<le> d \<Longrightarrow> d < 16 \<Longrightarrow> is_low_hex (digit_unit d)"
proof -
  assume "0 \<le> d" "d < 16"
  then have "d \<in> set [0, 1, 2, 3, 4, 5, 6, 7, 8, 9, 10, 11, 12, 13, 14, 15]" by (simp, presburger)
  moreover have "list_all (\<lambda>d. is_low_hex (digit_unit d)) [0, 1, 2, 3, 4, 5, 6, 7, 8, 9, 10, 11, 12, 13, 14, 15]"
    by code_simp
  ultimately show ?thesis unfolding list_all_iff by blast
qed

lemma hex_digits_low: "0 \<le> n \<Longrightarrow> list_all is_low_hex (int_digits 16 n)"
proof (induction "nat n" arbitrary: n rule: less_induct)
  case less
  show ?case
  proof (cases "n < 16")
    case True
    then show ?thesis using less.prems hex_digit_low [of n] by (simp add: int_digits.simps [of 16 n])
  next
    case False
    have "list_all is_low_hex (int_digits 16 (n div 16))" using less.hyps [of "n div 16"] less.prems False by simp
    then show ?thesis using False hex_digit_low [of "n mod 16"] by (simp add: int_digits.simps [of 16 n])
  qed
qed

lemma two_hex: "0 \<le> n \<Longrightarrow> n < 256 \<Longrightarrow> low_hex 2 (pad_zeros 2 (int_digits 16 n))"
proof -
  assume n: "0 \<le> n" "n < 256"
  have "is_low_hex 48" by code_simp
  then show ?thesis using digits_length [of 16 n 1] hex_digits_low [of n] n
    by (auto simp: low_hex_def pad_zeros_def list_all_iff)
qed

lemma hex_of_bytes_low: "low_hex (2 * length bs) (hex_of_bytes bs)"
proof (induction bs)
  case Nil
  then show ?case by (simp add: hex_of_bytes_def low_hex_def)
next
  case (Cons b bs)
  have "low_hex 2 (hex_byte b)" unfolding hex_byte_def using uint_lt2p [of b] by (intro two_hex) simp_all
  then show ?case using Cons by (simp add: hex_of_bytes_def low_hex_def)
qed

section \<open>What a request is given\<close>

lemma drawn_hex:
  assumes "\<And>j. length (draws j) = n" "randomNonZeroHex draws k = Some h"
  shows "low_hex (2 * n) h \<and> \<not> all_zero h"
proof -
  have "(\<forall>j. length (draws j) = n) \<longrightarrow> low_hex (2 * n) h \<and> \<not> all_zero h"
  proof (rule randomNonZeroHex.raw_induct [of "\<lambda>draws k h. (\<forall>j. length (draws j) = n) \<longrightarrow> low_hex (2 * n) h \<and> \<not> all_zero h",
        OF _ assms(2)])
    fix rec d i g
    assume "\<And>d k h. rec d k = Some h \<Longrightarrow> (\<forall>j. length (d j) = n) \<longrightarrow> low_hex (2 * n) h \<and> \<not> all_zero h"
      and "(if all_zero (hex_of_bytes (d i)) then rec d (Suc i) else Some (hex_of_bytes (d i))) = Some g"
    then show "(\<forall>j. length (d j) = n) \<longrightarrow> low_hex (2 * n) g \<and> \<not> all_zero g"
      using hex_of_bytes_low [of "d i"] by (auto split: if_splits)
  qed
  then show ?thesis using assms(1) by blast
qed

text \<open>A draw that is not zero ends the loop.\<close>

lemma draw_ends: "\<not> all_zero (hex_of_bytes (draws (k + d))) \<Longrightarrow> \<exists>h. randomNonZeroHex draws k = Some h"
proof (induction d arbitrary: k)
  case 0
  then show ?case by (simp add: randomNonZeroHex.simps [of draws k])
next
  case (Suc d)
  then have "\<exists>h. randomNonZeroHex draws (Suc k) = Some h" by simp
  then show ?case by (simp add: randomNonZeroHex.simps [of draws k])
qed

lemma hex_byte_zero: "list_all (\<lambda>c. c = 48) (hex_byte b) \<longleftrightarrow> b = 0"
proof
  assume z: "list_all (\<lambda>c. c = 48) (hex_byte b)"
  have "digits_int 16 (hex_byte b) = uint b"
    using digits_value [of 16 "uint b"] by (simp add: hex_byte_def pad_zeros_def digits_int_zeros)
  moreover have "hex_byte b = replicate (length (hex_byte b)) 48 @ []"
    using z by (auto simp: list_all_iff intro: replicate_eqI)
  then have "digits_int 16 (hex_byte b) = 0" by (metis digits_int_zeros digits_int_def foldl_Nil)
  ultimately show "b = 0" by (simp add: uint_0_iff)
qed (simp, code_simp)

lemma hex_zero: "all_zero (hex_of_bytes bs) \<longleftrightarrow> bs \<noteq> [] \<and> list_all (\<lambda>b. b = 0) bs"
proof -
  have "hex_byte b \<noteq> []" for b using hex_of_bytes_low [of "[b]"] by (auto simp: hex_of_bytes_def low_hex_def)
  then have "hex_of_bytes bs = [] \<longleftrightarrow> bs = []" by (cases bs) (simp_all add: hex_of_bytes_def)
  moreover have "list_all (\<lambda>c. c = 48) (hex_of_bytes bs) \<longleftrightarrow> list_all (\<lambda>b. b = 0) bs"
    by (induction bs) (simp_all add: hex_of_bytes_def hex_byte_zero)
  ultimately show ?thesis by (simp add: all_zero_def)
qed

text \<open>What the random source documents, and when it suffices.\<close>

definition random_sizes :: "http_random \<Rightarrow> bool" where
  "random_sizes rnd \<longleftrightarrow> (\<forall>k. length (hx_trace rnd k) = 16 \<and> length (hx_span rnd k) = 8)"

lemma fresh_valid:
  assumes "random_sizes rnd"
  shows "case newTraceparent rnd of
      Some tp \<Rightarrow> isValidTraceparent tp
    | None \<Rightarrow> (\<forall>k. list_all (\<lambda>b. b = 0) (hx_trace rnd k)) \<or> (\<forall>k. list_all (\<lambda>b. b = 0) (hx_span rnd k))"
proof (cases "newTraceparent rnd")
  case (Some tp)
  then obtain t p where tp: "randomNonZeroHex (hx_trace rnd) 0 = Some t" "randomNonZeroHex (hx_span rnd) 0 = Some p"
    "tp = js ''00-'' @ t @ 45 # p @ js ''-01''" by (auto simp: newTraceparent_def bind_eq_Some_conv)
  have h: "low_hex 32 t \<and> \<not> all_zero t" "low_hex 16 p \<and> \<not> all_zero p"
    using drawn_hex [OF _ tp(1), of 16] drawn_hex [OF _ tp(2), of 8] assms by (simp_all add: random_sizes_def)
  have "low_hex 2 (js ''01'')" by code_simp
  then have "isValidTraceparent (js ''00-'' @ t @ 45 # p @ 45 # js ''01'')" using h by (intro valid_text) simp_all
  moreover have "js ''-01'' = 45 # js ''01''" by (simp add: js_def)
  ultimately show ?thesis using Some tp(3) by simp
next
  case None
  then have "randomNonZeroHex (hx_trace rnd) 0 = None \<or> randomNonZeroHex (hx_span rnd) 0 = None"
    by (auto simp: newTraceparent_def bind_eq_None_conv)
  moreover have "list_all (\<lambda>b. b = 0) (draws k)" if "randomNonZeroHex draws 0 = None" for draws k
    using draw_ends [of draws 0 k] that hex_zero [of "draws k"] by auto
  ultimately show ?thesis using None by auto
qed

text \<open>The flags of a span context are a byte.\<close>

definition byte_flags :: "'o otel \<Rightarrow> bool" where
  "byte_flags ot \<longleftrightarrow> (\<forall>i. 0 \<le> sx_traceFlags (ot_spanContext ot i) \<and> sx_traceFlags (ot_spanContext ot i) < 256)"

lemma ambient_valid:
  assumes "byte_flags ot" "traceparent (activeSpanContext ot w) = Some tp"
  shows "isValidTraceparent tp"
proof -
  obtain i where "activeSpanContext ot w = Some (ot_spanContext ot i)"
    using assms(2) by (auto simp: traceparent_def activeSpanContext_def split: option.splits if_splits)
  moreover have "\<not> sx_traceFlags (ot_spanContext ot i) < 0" "sx_traceFlags (ot_spanContext ot i) < 256"
    using assms(1) by (simp_all add: byte_flags_def not_less)
  moreover from this have "low_hex 2 (pad_zeros 2 (hex_text (sx_traceFlags (ot_spanContext ot i))))"
    using two_hex [of "sx_traceFlags (ot_spanContext ot i)"] by (simp add: hex_text_def)
  ultimately show ?thesis using assms(2)
    by (auto simp: traceparent_def isValidSpanContext_def split: if_splits intro!: valid_text)
qed

lemma chosen_valid:
  assumes "byte_flags ot" "random_sizes rnd" "chosen_traceparent ot rnd req w = Some tp"
  shows "isValidTraceparent tp"
proof (cases "traceparent (activeSpanContext ot w)")
  case (Some t)
  then show ?thesis using assms ambient_valid [OF assms(1) Some] by (simp add: chosen_traceparent_def)
next
  case None
  then show ?thesis
    using assms fresh_valid [OF assms(2)]
    by (auto simp: chosen_traceparent_def incoming_traceparent_def split: option.splits if_splits)
qed

lemma request_id_ok:
  "request_id rnd opts req = Inr rid \<Longrightarrow> hx_uuid rnd \<noteq> [] \<Longrightarrow> rid \<noteq> []"
  by (auto simp: request_id_def split: if_splits option.splits)

lemma incoming_tracestate_valid: "incoming_tracestate req = Some ts \<Longrightarrow> isValidTracestate ts"
  by (auto simp: incoming_tracestate_def split: if_splits option.splits)

lemma set_header_response:
  "setResponseHeader res n v = Inr res' \<Longrightarrow> map_of (res_headers res') (lower n) = Some (header_text v) \<and>
    res_status res' = res_status res \<and> res_body res' = res_body res"
  by (auto simp: setResponseHeader_def headers_set_get new_response_def split: sum.splits if_splits)

text \<open>
  C39: A request that is answered reached its handler with a context whose trace identifiers are the fields of a valid
  \<^verbatim>\<open>traceparent\<close>, whose request id is not empty and whose \<^verbatim>\<open>tracestate\<close>, if any, is valid; the response carries that
  request id, and the status and the body the handler gave it.  Its other headers are not pinned here.
\<close>

theorem request_sees_context:
  assumes "byte_flags ot" "random_sizes rnd" "hx_uuid rnd \<noteq> []"
    and "httpContext ot pathname_of rnd opts nxt req w = Some (Inr res, w')"
  shows "\<exists>cx w1 w2 res0 v. getRequestContext req w1 = Some cx \<and> nxt req w1 = (Inr res0, w2) \<and>
    isValidTraceparent (cx_traceparent cx) \<and>
    split_on 45 (cx_traceparent cx) = [v, cx_traceId cx, cx_spanId cx, cx_traceFlags cx] \<and> cx_requestId cx \<noteq> [] \<and>
    list_all isValidTracestate (case cx_tracestate cx of Some ts \<Rightarrow> [ts] | None \<Rightarrow> []) \<and>
    map_of (res_headers res) (lower (id_header opts)) = Some (header_text (cx_requestId cx)) \<and>
    res_status res = res_status res0 \<and> res_body res = res_body res0"
proof -
  obtain tp where tp: "chosen_traceparent ot rnd req w = Some tp" using assms(4) by (auto simp: httpContext_def)
  obtain rid attrs where ids: "request_id rnd opts req = Inr rid" "context_attributes_of opts req = Inr attrs"
    using assms(4) by (cases "request_id rnd opts req"; cases "context_attributes_of opts req") (auto simp: httpContext_def tp)
  let ?cx = "request_context_of pathname_of tp rid attrs req (tel_now w)"
  obtain c where c: "Some (effect_then (with_context c (nxt req)) (\<lambda>res. lift_result (setResponseHeader res (id_header opts) rid))
      (setRequestContext req ?cx w)) = Some (Inr res, w')"
    using assms(4) by (auto simp: httpContext_def tp ids Let_def split: if_splits)
  let ?w1 = "setRequestContext req ?cx w\<lparr>tel_context := c\<rparr>"
  obtain r w2 where run: "nxt req ?w1 = (r, w2)" by (cases "nxt req ?w1")
  then obtain res0 where res0: "r = Inr res0" "setResponseHeader res0 (id_header opts) rid = Inr res"
    using c by (cases r) (auto simp: effect_then_def with_context_def lift_result_def setRequestContext_def)
  have valid: "isValidTraceparent tp" by (rule chosen_valid [OF assms(1,2) tp])
  obtain v t p f where fields: "split_on 45 tp = [v, t, p, f]" using valid_fields [OF valid] by blast
  have "getRequestContext req ?w1 = Some ?cx" by (simp add: getRequestContext_def setRequestContext_def)
  moreover have "cx_traceparent ?cx = tp" "cx_requestId ?cx = rid" "cx_tracestate ?cx = incoming_tracestate req"
    "[v, t, p, f] = [v, cx_traceId ?cx, cx_spanId ?cx, cx_traceFlags ?cx]"
    by (simp_all add: request_context_of_def Let_def fields field_of_def)
  ultimately show ?thesis
    using run res0 valid fields set_header_response [OF res0(2)] request_id_ok [OF ids(1) assms(3)]
      incoming_tracestate_valid [of req]
    by (intro exI [of _ ?cx] exI [of _ ?w1] exI [of _ w2] exI [of _ res0] exI [of _ v]) (auto split: option.split)
qed

text \<open>A fresh identifier is valid; it is missing only when the random source yields nothing but zeros.\<close>

theorem newTraceparent_valid:
  assumes "random_sizes rnd"
  shows "case newTraceparent rnd of
      Some tp \<Rightarrow> isValidTraceparent tp
    | None \<Rightarrow> (\<forall>k. list_all (\<lambda>b. b = 0) (hx_trace rnd k)) \<or> (\<forall>k. list_all (\<lambda>b. b = 0) (hx_span rnd k))"
  by (rule fresh_valid [OF assms])

section \<open>Trace state\<close>

lemma member_parts:
  assumes "61 \<notin> set k" "61 \<notin> set v"
  shows "index_of 61 (k @ 61 # v) = Some (length k)" "last_index_of 61 (k @ 61 # v) = Some (length k)"
proof -
  have i: "index_of 61 (a @ 61 # b) = Some (length a)" if "61 \<notin> set a" for a b :: jstr
    using that by (induction a) auto
  show "index_of 61 (k @ 61 # v) = Some (length k)" using i assms by simp
  show "last_index_of 61 (k @ 61 # v) = Some (length k)" using i [of "rev v" "rev k"] assms by (simp add: last_index_of_def)
qed

text \<open>The members of a list of keys and texts, none of which holds a separator or white space at its ends.\<close>

definition state_member :: "jstr \<times> jstr \<Rightarrow> jstr" where
  "state_member m = fst m @ 61 # snd m"

definition clean_member :: "jstr \<times> jstr \<Rightarrow> bool" where
  "clean_member m \<longleftrightarrow> 44 \<notin> set (state_member m) \<and> 61 \<notin> set (fst m) \<and> 61 \<notin> set (snd m) \<and>
     trim (state_member m) = state_member m"

definition legal_member :: "jstr \<times> jstr \<Rightarrow> bool" where
  "legal_member m \<longleftrightarrow> isValidTracestateKey (fst m) \<and> isValidTracestateValue (snd m)"

lemma valid_key_nonempty: "\<not> isValidTracestateKey []"
  by (simp add: isValidTracestateKey_def key_part_def)

lemma valid_members_text:
  "list_all clean_member ms \<Longrightarrow>
    valid_members keys (map state_member ms) \<longleftrightarrow>
      list_all legal_member ms \<and> distinct (map fst ms) \<and> set (map fst ms) \<inter> set keys = {}"
proof (induction ms arbitrary: keys)
  case (Cons m ms)
  then have m: "61 \<notin> set (fst m)" "61 \<notin> set (snd m)" "trim (state_member m) = state_member m" by (simp_all add: clean_member_def)
  show ?case
  proof (cases "fst m = []")
    case True
    then show ?thesis using m member_parts(1) [OF m(1,2)]
      by (simp add: state_member_def legal_member_def valid_key_nonempty del: index_of.simps)
  next
    case False
    have "valid_members keys (map state_member (m # ms)) \<longleftrightarrow>
      legal_member m \<and> fst m \<notin> set keys \<and> valid_members (fst m # keys) (map state_member ms)"
      using False member_parts [OF m(1,2)] m(3)
      by (simp add: state_member_def legal_member_def Let_def del: index_of.simps)
    then show ?thesis using Cons.IH [of "fst m # keys"] Cons.prems by auto
  qed
qed simp

theorem tracestate_members:
  assumes "ms \<noteq> []" "list_all clean_member ms" "trim (join [44] (map state_member ms)) = join [44] (map state_member ms)"
  shows "isValidTracestate (join [44] (map state_member ms)) \<longleftrightarrow>
    length ms \<le> 32 \<and> length (join [44] (map state_member ms)) \<le> 512 \<and> distinct (map fst ms) \<and> list_all legal_member ms"
proof -
  have "split_on 44 (join [44] (map state_member ms)) = map state_member ms"
    using assms(1,2) by (intro split_join) (auto simp: list_all_iff clean_member_def)
  moreover have "join [44] (map state_member ms) \<noteq> []"
    using assms(1) by (cases ms rule: remdups_adj.cases) (simp_all add: state_member_def)
  ultimately show ?thesis
    using assms(3) valid_members_text [OF assms(2), of "[]"] by (auto simp: isValidTracestate_def not_less)
qed

section \<open>A concrete request\<close>

definition traced_request :: request where
  "traced_request = \<lparr>req_id = 3, req_method = js ''GET'', req_url = js ''/x'',
     req_headers = [(js ''traceparent'', js ''00-0af7651916cd43dd8448eb211c80319c-b7ad6b7169203331-01''),
       (js ''tracestate'', js ''a=1,b@c=2'')]\<rparr>"

definition fixed_random :: http_random where
  "fixed_random = \<lparr>hx_trace = (\<lambda>_. replicate 16 5), hx_span = (\<lambda>_. replicate 8 6), hx_uuid = js ''id''\<rparr>"

definition plain_context_options :: context_options where
  "plain_context_options = \<lparr>co_requestIdHeader = None, co_requestIdFactory = None, co_attributes = None\<rparr>"

definition context_world :: "(unit, bytes, request_context) web" where
  "context_world = \<lparr>tel_context = (), tel_next = 0, tel_calls = [], tel_durations = [], tel_now = 0, web_claims = (\<lambda>_. None),
     web_contexts = (\<lambda>_. None), web_services = (\<lambda>_. hmac_service)\<rparr>"

theorem request_sees_context_witness:
  "\<exists>res w' cx (w1 :: (unit, bytes, request_context) web) w2 res0 v.
    httpContext no_otel (\<lambda>u. u) fixed_random plain_context_options default_health traced_request context_world = Some (Inr res, w') \<and>
    getRequestContext traced_request w1 = Some cx \<and> default_health traced_request w1 = (Inr res0, w2) \<and>
    isValidTraceparent (cx_traceparent cx) \<and>
    split_on 45 (cx_traceparent cx) = [v, cx_traceId cx, cx_spanId cx, cx_traceFlags cx] \<and>
    map_of (res_headers res) (lower (id_header plain_context_options)) = Some (header_text (cx_requestId cx))"
proof -
  have "incoming_traceparent traced_request = Some (snd (hd (req_headers traced_request)))" by code_simp
  then have tp: "chosen_traceparent no_otel fixed_random traced_request context_world = Some (snd (hd (req_headers traced_request)))"
    by (simp add: chosen_traceparent_def activeSpanContext_def getActiveOtelSpan_def no_otel_def traceparent_def)
  have rid: "request_id fixed_random plain_context_options traced_request = Inr (js ''id'')" by code_simp
  have attrs: "context_attributes_of plain_context_options traced_request = Inr []"
    by (simp add: context_attributes_of_def plain_context_options_def)
  have h: "id_header plain_context_options = js ''x-request-id''" by (simp add: id_header_def plain_context_options_def)
  have "header_name_ok (js ''x-request-id'')" "header_text_ok (js ''id'')" by code_simp+
  then obtain res w' where run: "httpContext no_otel (\<lambda>u. u) fixed_random plain_context_options default_health traced_request
      context_world = Some (Inr res, w')"
    by (simp add: httpContext_def tp rid attrs h effect_then_def with_context_def Let_def
      default_health_def json_response_def new_response_def lift_result_def setResponseHeader_def headers_set_def)
  have "byte_flags no_otel" "random_sizes fixed_random" "hx_uuid fixed_random \<noteq> []"
    by (simp_all add: byte_flags_def no_otel_def random_sizes_def fixed_random_def js_def)
  from request_sees_context [OF this run] run show ?thesis by blast
qed

end
