(* ===== verification/Grpc_Server.thy ===== *)
theory Grpc_Server
  imports Security_Middleware
begin

text \<open>
  The gRPC adapter: the contracts of \<^verbatim>\<open>src/config/grpc/contracts.ts\<close>, the unary handler composer and the server of
  \<^verbatim>\<open>config/server/grpc\<close>, the client of \<^verbatim>\<open>config/client/grpc\<close>, the JWT interceptor of
  \<^verbatim>\<open>security/middlewares/grpc_jwt.ts\<close> and the instrumentation they carry.  \<^verbatim>\<open>@grpc/grpc-js\<close> delivers calls and
  takes their callbacks.
\<close>

section \<open>Contracts\<close>

definition grpc_status_names :: "jstr list" where
  "grpc_status_names =
     [js ''OK'', js ''CANCELLED'', js ''UNKNOWN'', js ''INVALID_ARGUMENT'', js ''DEADLINE_EXCEEDED'', js ''NOT_FOUND'',
      js ''ALREADY_EXISTS'', js ''PERMISSION_DENIED'', js ''RESOURCE_EXHAUSTED'', js ''FAILED_PRECONDITION'', js ''ABORTED'',
      js ''OUT_OF_RANGE'', js ''UNIMPLEMENTED'', js ''INTERNAL'', js ''UNAVAILABLE'', js ''DATA_LOSS'', js ''UNAUTHENTICATED'']"

text \<open>\<open>status\<close> maps names to codes and codes to names.\<close>

definition status_code :: "jstr \<Rightarrow> nat option" where
  "status_code nm = map_of (zip grpc_status_names [0..<17]) nm"

definition status_name :: "nat \<Rightarrow> jstr option" where
  "status_name c = (if c < 17 then Some (grpc_status_names ! c) else None)"

definition UNKNOWN :: nat where "UNKNOWN = 2"
definition INTERNAL :: nat where "INTERNAL = 13"
definition UNAUTHENTICATED :: nat where "UNAUTHENTICATED = 16"

definition GrpcError :: "nat \<Rightarrow> jstr \<Rightarrow> exn" where
  "GrpcError code m = \<lparr>ex_kind = GrpcErrorClass, ex_text = m, ex_code = JNum (of_nat code)\<rparr>"

text \<open>The mutable bag \<open>state\<close> of a context lives in the process, under the identity of its call.\<close>

record ('o, 'k, 'c) grpc_web = "('o, 'k, 'c) web" +
  gw_states :: "nat \<Rightarrow> jobj"

record 'r grpc_call =
  gc_id :: nat
  gc_path :: "jstr option"
  gc_metadata :: metadata
  gc_request :: 'r

record grpc_context =
  gx_id :: nat
  gx_method :: jstr
  gx_metadata :: metadata

type_synonym ('w, 'b) interceptor = "grpc_context \<Rightarrow> ('w, 'b) effect \<Rightarrow> ('w, 'b) effect"
type_synonym ('w, 'r, 'b) unary_handler = "'r \<Rightarrow> grpc_context \<Rightarrow> ('w, 'b) effect"

section \<open>interceptors.ts\<close>

record service_error =
  se_code :: jval
  se_message :: jstr

definition toServiceError :: "exn \<Rightarrow> service_error" where
  "toServiceError e =
     \<lparr>se_code = (if ex_kind e = GrpcErrorClass then ex_code e else JNum (of_nat INTERNAL)), se_message = ex_text e\<rparr>"

definition context_of_call :: "'r grpc_call \<Rightarrow> grpc_context" where
  "context_of_call call =
     \<lparr>gx_id = gc_id call, gx_method = (case gc_path call of Some p \<Rightarrow> p | None \<Rightarrow> []), gx_metadata = gc_metadata call\<rparr>"

definition interceptor_chain :: "grpc_context \<Rightarrow> ('w, 'b) interceptor list \<Rightarrow> ('w, 'b) effect \<Rightarrow> ('w, 'b) effect" where
  "interceptor_chain ctx is = wrap_with (map (\<lambda>i. i ctx) is)"

text \<open>A call is answered by exactly one callback: an error, or a response.\<close>

definition unary ::
  "(('o, 'k, 'c, 'x) grpc_web_scheme, 'r, 'b) unary_handler \<Rightarrow> (('o, 'k, 'c, 'x) grpc_web_scheme, 'b) interceptor list \<Rightarrow>
    'r grpc_call \<Rightarrow> ('o, 'k, 'c, 'x) grpc_web_scheme \<Rightarrow> (service_error + 'b) \<times> ('o, 'k, 'c, 'x) grpc_web_scheme" where
  "unary h is call w =
     (let ctx = context_of_call call
      in case interceptor_chain ctx is (h (gc_request call) ctx) (w\<lparr>gw_states := (gw_states w)(gc_id call := [])\<rparr>) of
           (Inl e, w') \<Rightarrow> (Inl (toServiceError e), w')
         | (Inr res, w') \<Rightarrow> (Inr res, w'))"

section \<open>server.ts\<close>

text \<open>A server keeps its interceptors; \<open>gs_services\<close> is what it has handed to \<^verbatim>\<open>grpc.Server\<close>.\<close>

record ('w, 'r, 'b) grpc_server =
  gs_interceptors :: "('w, 'b) interceptor list"
  gs_services :: "(jstr \<times> (jstr \<times> ('r grpc_call \<Rightarrow> 'w \<Rightarrow> (service_error + 'b) \<times> 'w)) list) list"

definition telemetry_interceptor ::
  "'o otel \<Rightarrow> (bytes \<Rightarrow> jstr) \<Rightarrow> (('o, 'x) telemetry_scheme, 'b) interceptor" where
  "telemetry_interceptor ot dec ctx nxt = grpcTelemetry ot dec (gx_method ctx) (gx_metadata ctx) nxt"

definition newGrpcServer ::
  "'o otel \<Rightarrow> (bytes \<Rightarrow> jstr) \<Rightarrow> bool option \<Rightarrow> (('o, 'x) telemetry_scheme, 'b) interceptor list option \<Rightarrow>
    (('o, 'x) telemetry_scheme, 'r, 'b) grpc_server" where
  "newGrpcServer ot dec telemetry is =
     \<lparr>gs_interceptors = (if telemetry = Some False then [] else [telemetry_interceptor ot dec]) @
        (case is of None \<Rightarrow> [] | Some l \<Rightarrow> l), gs_services = []\<rparr>"

definition addService ::
  "jstr \<Rightarrow> (jstr \<times> (('o, 'k, 'c, 'x) grpc_web_scheme, 'r, 'b) unary_handler) list \<Rightarrow>
    (('o, 'k, 'c, 'x) grpc_web_scheme, 'b) interceptor list \<Rightarrow>
    (('o, 'k, 'c, 'x) grpc_web_scheme, 'r, 'b) grpc_server \<Rightarrow> (('o, 'k, 'c, 'x) grpc_web_scheme, 'r, 'b) grpc_server" where
  "addService service handlers is s =
     s\<lparr>gs_services := gs_services s @ [(service, map (\<lambda>(nm, h). (nm, unary h (gs_interceptors s @ is))) handlers)]\<rparr>"

section \<open>grpc_jwt.ts\<close>

record grpc_jwt_options =
  go_metadataKey :: "jstr option"
  go_scheme :: "jstr option"
  go_validators :: "validator list option"

text \<open>
  \<^verbatim>\<open>String(value)\<close>: bytes become their decimal numbers between commas, as for the \<^verbatim>\<open>Uint8Array\<close> the
  contract of \<^verbatim>\<open>src/config/grpc/contracts.ts\<close> names.  The keys of metadata are compared as given: what a concrete
  metadata class does with the case of a key or with its \<^verbatim>\<open>-bin\<close> keys is not code of the repository.
\<close>

fun md_string :: "metadata_value \<Rightarrow> jstr" where
  "md_string (MdText s) = s"
| "md_string (MdBytes b) = join [44] (map (\<lambda>x. number_text (of_int (uint x))) b)"

definition metadata_text :: "metadata \<Rightarrow> jstr \<Rightarrow> jstr" where
  "metadata_text md k = (case md_get md k of [] \<Rightarrow> [] | v # vs \<Rightarrow> md_string v)"

definition CLAIMS_KEY :: jstr where "CLAIMS_KEY = js ''claims''"

definition grpcJwtInterceptor ::
  "'k jwt_runtime \<Rightarrow> nat \<Rightarrow> grpc_jwt_options \<Rightarrow> (('o, 'k, 'c, 'x) grpc_web_scheme, 'b) interceptor" where
  "grpcJwtInterceptor rt sid opts ctx nxt w =
     (let raw = metadata_text (gx_metadata ctx) (case go_metadataKey opts of Some k \<Rightarrow> k | None \<Rightarrow> js ''authorization'');
          scheme = lower (case go_scheme opts of Some s \<Rightarrow> s | None \<Rightarrow> js ''Bearer'')
      in if raw = [] then (Inl (GrpcError UNAUTHENTICATED (js ''authorization metadata is required'')), w)
         else (case bearer_token scheme raw of
            None \<Rightarrow> (Inl (GrpcError UNAUTHENTICATED (js ''invalid authorization scheme'')), w)
          | Some token \<Rightarrow>
              (case web_verify rt sid token (validators_of (go_validators opts)) w of
                 (Inl e, w') \<Rightarrow> (Inl (GrpcError UNAUTHENTICATED (js ''invalid or expired token'')), w')
               | (Inr tok, w') \<Rightarrow>
                   nxt (w'\<lparr>gw_states := (gw_states w')(gx_id ctx := obj_set CLAIMS_KEY (tok_claims tok) (gw_states w' (gx_id ctx)))\<rparr>))))"

definition grpcClaims :: "grpc_context \<Rightarrow> ('o, 'k, 'c, 'x) grpc_web_scheme \<Rightarrow> jval" where
  "grpcClaims ctx w = obj_get (gw_states w (gx_id ctx)) CLAIMS_KEY"

section \<open>client.ts\<close>

text \<open>The generated client: its methods take the request, the metadata and the deadline.\<close>

record ('w, 'r, 'b) grpc_client =
  cl_methods :: "(jstr \<times> ('r \<Rightarrow> metadata \<Rightarrow> rat option \<Rightarrow> ('w, 'b) effect)) list"
  cl_target :: jstr
  cl_telemetry :: bool

record call_options =
  ca_metadata :: "(jstr \<times> jstr) list option"
  ca_bearer :: "jstr option"
  ca_deadlineMs :: "rat option"
  ca_telemetry :: "bool option"

definition newGrpcClient ::
  "(jstr \<times> ('r \<Rightarrow> metadata \<Rightarrow> rat option \<Rightarrow> ('w, 'b) effect)) list \<Rightarrow> jstr \<Rightarrow> bool option \<Rightarrow> ('w, 'r, 'b) grpc_client" where
  "newGrpcClient methods address telemetry =
     \<lparr>cl_methods = methods, cl_target = address, cl_telemetry = (case telemetry of Some b \<Rightarrow> b | None \<Rightarrow> True)\<rparr>"

definition call_metadata :: "call_options \<Rightarrow> metadata" where
  "call_metadata opts =
     (let md = foldl (\<lambda>m (k, v). md_set k (MdText v) m) [] (case ca_metadata opts of Some kvs \<Rightarrow> kvs | None \<Rightarrow> [])
      in if missing (ca_bearer opts) then md
         else md_set (js ''authorization'') (MdText (js ''Bearer '' @ the (ca_bearer opts))) md)"

definition call_deadline :: "rat \<Rightarrow> call_options \<Rightarrow> rat option" where
  "call_deadline now opts =
     (case ca_deadlineMs opts of None \<Rightarrow> None | Some d \<Rightarrow> if d > 0 then Some (now + d) else None)"

definition client_unary ::
  "'o otel \<Rightarrow> rat \<Rightarrow> (('o, 'x) telemetry_scheme, 'r, 'b) grpc_client \<Rightarrow> jstr \<Rightarrow> 'r \<Rightarrow> call_options \<Rightarrow> (('o, 'x) telemetry_scheme, 'b) effect" where
  "client_unary ot now c method request opts w =
     (case map_of (cl_methods c) method of
        None \<Rightarrow> (Inl (plain_error (js ''grpc client: unknown unary method '' @ 34 # method @ [34])), w)
      | Some f \<Rightarrow>
          (let invoke = (\<lambda>md. f request md (call_deadline now opts))
           in if ca_telemetry opts = Some False \<or> (ca_telemetry opts = None \<and> \<not> cl_telemetry c)
              then invoke (call_metadata opts) w
              else withGrpcClientSpan ot method (cl_target c) (call_metadata opts) invoke w))"

section \<open>What a call is told\<close>

lemma chain_simps [simp]:
  "interceptor_chain ctx [] m = m" "interceptor_chain ctx (i # is) m = i ctx (interceptor_chain ctx is m)"
  "interceptor_chain ctx (is @ ks) m = interceptor_chain ctx is (interceptor_chain ctx ks m)"
  by (simp_all add: interceptor_chain_def)

definition fresh_bag :: "'r grpc_call \<Rightarrow> ('o, 'k, 'c, 'x) grpc_web_scheme \<Rightarrow> ('o, 'k, 'c, 'x) grpc_web_scheme" where
  "fresh_bag call w = w\<lparr>gw_states := (gw_states w)(gc_id call := [])\<rparr>"

lemma unary_alt:
  "unary h is call w = map_prod (map_sum toServiceError (\<lambda>x. x))  (\<lambda>w. w)
     (interceptor_chain (context_of_call call) is (h (gc_request call) (context_of_call call)) (fresh_bag call w))"
  by (simp add: unary_def fresh_bag_def Let_def split: prod.split sum.split)

text \<open>The token a call presents to the JWT interceptor.\<close>

definition presented_metadata :: "grpc_jwt_options \<Rightarrow> metadata \<Rightarrow> jstr option" where
  "presented_metadata opts md =
     (let raw = metadata_text md (case go_metadataKey opts of Some k \<Rightarrow> k | None \<Rightarrow> js ''authorization'')
      in if raw = [] then None
         else bearer_token (lower (case go_scheme opts of Some s \<Rightarrow> s | None \<Rightarrow> js ''Bearer'')) raw)"

text \<open>An authentic token lets a call pass with its claims in the bag; otherwise the interceptor answers by itself.\<close>

lemma jwt_interceptor_passes:
  assumes "createService config = Inr s" "serves_as rt sid s w"
    and "presented_metadata opts (gx_metadata ctx) = Some token"
    and "authentic rt s (validators_of (go_validators opts)) token tok"
  shows "\<exists>w'. grpcClaims ctx w' = tok_claims tok \<and> (\<forall>nxt. grpcJwtInterceptor rt sid opts ctx nxt w = nxt w')"
proof -
  have "fst (web_verify rt sid token (validators_of (go_validators opts)) w) = Inr tok"
    using web_verify_serves(2) [OF assms(1,2)] assms(4) by blast
  then obtain v where v: "web_verify rt sid token (validators_of (go_validators opts)) w = (Inr tok, v)"
    by (cases "web_verify rt sid token (validators_of (go_validators opts)) w") simp
  let ?w = "v\<lparr>gw_states := (gw_states v)(gx_id ctx := obj_set CLAIMS_KEY (tok_claims tok) (gw_states v (gx_id ctx)))\<rparr>"
  have "grpcJwtInterceptor rt sid opts ctx nxt w = nxt ?w" for nxt
    using assms(3) v by (auto simp: grpcJwtInterceptor_def presented_metadata_def Let_def split: if_splits option.splits)
  moreover have "grpcClaims ctx ?w = tok_claims tok" by (simp add: grpcClaims_def obj_get_def obj_set_def update_conv)
  ultimately show ?thesis by blast
qed

lemma jwt_interceptor_refuses:
  assumes "createService config = Inr s" "serves_as rt sid s w"
    and none: "\<nexists>token tok. presented_metadata opts (gx_metadata ctx) = Some token \<and>
      authentic rt s (validators_of (go_validators opts)) token tok"
  shows "\<exists>m w'. \<forall>nxt. grpcJwtInterceptor rt sid opts ctx nxt w = (Inl (GrpcError UNAUTHENTICATED m), w')"
proof (cases "presented_metadata opts (gx_metadata ctx)")
  case None
  then show ?thesis
    by (cases "metadata_text (gx_metadata ctx) (case go_metadataKey opts of Some k \<Rightarrow> k | None \<Rightarrow> js ''authorization'') = []")
      (auto simp: grpcJwtInterceptor_def presented_metadata_def Let_def)
next
  case (Some token)
  obtain r v where v: "web_verify rt sid token (validators_of (go_validators opts)) w = (r, v)" by fastforce
  then have "r \<noteq> Inr tok" for tok
    using web_verify_serves(2) [OF assms(1,2), of token "validators_of (go_validators opts)" tok] none Some by auto
  then obtain e where "r = Inl e" by (cases r) auto
  then show ?thesis using Some v
    by (auto simp: grpcJwtInterceptor_def presented_metadata_def Let_def split: if_splits)
qed

section \<open>Instrumented calls\<close>

text \<open>What the instrumentation says of a call, given its failure: its status, then the end of the span.\<close>

fun span_report :: "exn option \<Rightarrow> span_call list" where
  "span_report None = [SetAttribute (js ''rpc.grpc.status_code'') (JNum 0), SetStatus StatusOk, EndSpan]"
| "span_report (Some e) =
     [SetAttribute (js ''rpc.grpc.status_code'') (JNum (grpcErrorCode e)), RecordException (ex_text e),
      SetStatus (StatusError (ex_text e)), EndSpan]"

fun failed_with :: "exn + 'a \<Rightarrow> exn option" where
  "failed_with (Inl e) = Some e"
| "failed_with (Inr x) = None"

lemma measured_call_reports:
  "measured_call instrument i attrs active call w =
    (case call (w\<lparr>tel_context := active\<rparr>) of (r, w') \<Rightarrow>
      (r, w'\<lparr>tel_context := tel_context w, tel_calls := tel_calls w' @ map (Pair i) (span_report (failed_with r)),
           tel_durations := tel_durations w' @ [(instrument, tel_now w' - tel_now w, attrs)]\<rparr>))"
  by (auto simp: measured_call_def with_context_def span_call_on_def record_duration_def recordOtelSuccess_def
      recordOtelError_def Let_def split: prod.splits sum.splits)

text \<open>The state in which an instrumented server call runs its handler.\<close>

definition server_span :: "'o otel \<Rightarrow> (bytes \<Rightarrow> jstr) \<Rightarrow> jstr \<Rightarrow> metadata \<Rightarrow> ('o, 'x) telemetry_scheme \<Rightarrow> ('o, 'x) telemetry_scheme" where
  "server_span ot dec method md w =
     (let m = (if method = [] then js ''grpc.unknown'' else method)
      in w\<lparr>tel_next := tel_next w + 1,
           tel_calls := tel_calls w @ [(tel_next w, StartSpan m ServerSpan (rpcAttributes (snd (splitMethod m)) (fst (splitMethod m))))],
           tel_context := ot_setSpan ot (ot_extract ot (tel_context w) (metadata_carrier dec md)) (tel_next w)\<rparr>)"

text \<open>The state it leaves, from the states it began in and the handler ended in.\<close>

definition server_end :: "jstr \<Rightarrow> ('o, 'x) telemetry_scheme \<Rightarrow> exn option \<Rightarrow> ('o, 'x) telemetry_scheme \<Rightarrow> ('o, 'x) telemetry_scheme" where
  "server_end method w r w' =
     (let m = (if method = [] then js ''grpc.unknown'' else method)
      in w'\<lparr>tel_context := tel_context w, tel_calls := tel_calls w' @ map (Pair (tel_next w)) (span_report r),
            tel_durations := tel_durations w' @ [(js ''rpc.server.duration'', tel_now w' - tel_now w,
              rpcAttributes (snd (splitMethod m)) (fst (splitMethod m)))]\<rparr>)"

lemma grpcTelemetry_runs:
  "grpcTelemetry ot dec method md nxt w = (case nxt (server_span ot dec method md w) of (r, w') \<Rightarrow> (r, server_end method w (failed_with r) w'))"
  by (simp add: grpcTelemetry_def startSpan_def measured_call_reports server_span_def server_end_def Let_def span_call_on_def)

text \<open>A chain whose first interceptor is the instrumentation answers as the rest of it does in the span's state.\<close>

lemma instrumented_chain:
  "interceptor_chain ctx (telemetry_interceptor ot dec # is) m w =
    (case interceptor_chain ctx is m (server_span ot dec (gx_method ctx) (gx_metadata ctx) w) of
       (r, w') \<Rightarrow> (r, server_end (gx_method ctx) w (failed_with r) w'))"
  by (simp add: telemetry_interceptor_def grpcTelemetry_runs)

lemma serves_span [simp]:
  "serves_as rt sid s (server_span ot dec m md w) = serves_as rt sid s w"
  "serves_as rt sid s (fresh_bag call w) = serves_as rt sid s w"
  by (simp_all add: serves_as_def server_span_def fresh_bag_def Let_def)

text \<open>The state a server call leaves: as the chain left it, or with the span of an instrumented server ended.\<close>

definition call_end ::
  "bool option \<Rightarrow> jstr \<Rightarrow> ('o, 'x) telemetry_scheme \<Rightarrow> exn option \<Rightarrow> ('o, 'x) telemetry_scheme \<Rightarrow> ('o, 'x) telemetry_scheme" where
  "call_end telemetry method w r w' = (if telemetry = Some False then w' else server_end method w r w')"

text \<open>What a server whose only interceptor is \<open>i\<close> does with a call, handlers and further interceptors unknown.\<close>

lemma server_call:
  fixes server :: "(('o, 'k, 'c, 'x) grpc_web_scheme, 'r, 'b) grpc_server"
  assumes "ctx = context_of_call call" "server = newGrpcServer ot dec telemetry (Some [i])" "serves_as rt sid s w"
  shows "\<exists>v. serves_as rt sid s v \<and> (\<forall>h is. unary h (gs_interceptors server @ is) call w =
    (case i ctx (interceptor_chain ctx is (h (gc_request call) ctx)) v of (r, v') \<Rightarrow>
      (map_sum toServiceError (\<lambda>x. x) r, call_end telemetry (gx_method ctx) (fresh_bag call w) (failed_with r) v')))"
proof (cases "telemetry = Some False")
  case True
  then show ?thesis using assms(3)
    by (intro exI [of _ "fresh_bag call w"])
      (simp add: assms(1,2) newGrpcServer_def unary_alt call_end_def split: prod.split)
next
  case False
  then have "gs_interceptors server = [telemetry_interceptor ot dec, i]" by (simp add: assms(2) newGrpcServer_def)
  then show ?thesis using False assms(3)
    by (intro exI [of _ "server_span ot dec (gx_method ctx) (gx_metadata ctx) (fresh_bag call w)"])
      (simp add: unary_alt assms(1) [symmetric] instrumented_chain call_end_def split_beta del: chain_simps(2);
       simp add: chain_simps)
qed

text \<open>
  C40: On a server whose interceptors end with the JWT interceptor, instrumented or not, the rest of a call runs exactly
  when its metadata present an authentic token.  Then the further interceptors and the handler run once, from a state in
  which the call's bag holds the token's claims, and the client gets their answer, the state being theirs with the span
  ended.  Otherwise the client gets \<open>UNAUTHENTICATED\<close>, and both this answer and the state left are
  the same for every handler and every further interceptor: none of them runs, not even with its answer discarded.
\<close>

theorem grpc_jwt_enforced:
  fixes server :: "(('o, 'k, 'c, 'x) grpc_web_scheme, 'r, 'b) grpc_server"
  assumes "createService config = Inr s" "serves_as rt sid s w"
    and ctx: "ctx = context_of_call call"
    and srv: "server = newGrpcServer ot dec telemetry (Some [grpcJwtInterceptor rt sid opts])"
  shows "if \<exists>token tok. presented_metadata opts (gc_metadata call) = Some token \<and>
       authentic rt s (validators_of (go_validators opts)) token tok
     then \<exists>token tok w'. presented_metadata opts (gc_metadata call) = Some token \<and>
       authentic rt s (validators_of (go_validators opts)) token tok \<and> grpcClaims ctx w' = tok_claims tok \<and>
       (\<forall>h is. unary h (gs_interceptors server @ is) call w =
          (case interceptor_chain ctx is (h (gc_request call) ctx) w' of (r, v) \<Rightarrow>
            (map_sum toServiceError (\<lambda>x. x) r, call_end telemetry (gx_method ctx) (fresh_bag call w) (failed_with r) v)))
     else \<exists>m v. \<forall>h is. unary h (gs_interceptors server @ is) call w = (Inl \<lparr>se_code = JNum 16, se_message = m\<rparr>, v)"
proof -
  let ?jwt = "grpcJwtInterceptor rt sid opts"
  have md: "gx_metadata ctx = gc_metadata call" by (simp add: ctx context_of_call_def)
  from server_call [OF ctx srv assms(2)] obtain v where v: "serves_as rt sid s v"
    and run: "\<And>h is. unary h (gs_interceptors server @ is) call w =
      (case ?jwt ctx (interceptor_chain ctx is (h (gc_request call) ctx)) v of (r, v') \<Rightarrow>
        (map_sum toServiceError (\<lambda>x. x) r, call_end telemetry (gx_method ctx) (fresh_bag call w) (failed_with r) v'))"
    by blast
  show ?thesis
  proof (cases "\<exists>token tok. presented_metadata opts (gc_metadata call) = Some token \<and>
      authentic rt s (validators_of (go_validators opts)) token tok")
    case True
    then obtain token tok where t: "presented_metadata opts (gc_metadata call) = Some token"
      "authentic rt s (validators_of (go_validators opts)) token tok" by blast
    then obtain w' where w': "grpcClaims ctx w' = tok_claims tok"
      and pass: "\<And>nxt :: (('o, 'k, 'c, 'x) grpc_web_scheme, 'b) effect. ?jwt ctx nxt v = nxt w'"
      using jwt_interceptor_passes [OF assms(1) v, of opts ctx] md by metis
    show ?thesis unfolding if_P [OF True] run pass
      using t w' by (intro exI [of _ token] exI [of _ tok] exI [of _ w']) simp
  next
    case False
    then obtain m w' where "\<And>nxt :: (('o, 'k, 'c, 'x) grpc_web_scheme, 'b) effect. ?jwt ctx nxt v = (Inl (GrpcError UNAUTHENTICATED m), w')"
      using jwt_interceptor_refuses [OF assms(1) v, of opts ctx] md by metis
    then show ?thesis unfolding if_not_P [OF False] run by (auto simp: toServiceError_def GrpcError_def UNAUTHENTICATED_def)
  qed
qed

text \<open>
  The status the span of a failed call reports is the one the client receives exactly when the handler failed with a
  \<^verbatim>\<open>GrpcError\<close> (or its error happens to carry code 13): for any other error the span says UNKNOWN, or the error's own
  code, and the client gets INTERNAL.
\<close>

theorem telemetry_status_differs:
  assumes "h (gc_request call) (context_of_call call)
      (server_span ot dec (gx_method (context_of_call call)) (gc_metadata call) (fresh_bag call w)) = (Inl e, v)"
    and "ex_kind e = GrpcErrorClass \<Longrightarrow> ex_code e = JNum n"
  shows "\<exists>w' c. unary h [telemetry_interceptor ot dec] call w = (Inl \<lparr>se_code = c, se_message = ex_text e\<rparr>, w') \<and>
    tel_calls w' = tel_calls v @ map (Pair (tel_next w)) (span_report (Some e)) \<and>
    (c = JNum (grpcErrorCode e) \<longleftrightarrow> ex_kind e = GrpcErrorClass \<or> ex_code e = JNum 13)"
proof -
  have "unary h [telemetry_interceptor ot dec] call w =
      (Inl (toServiceError e), server_end (gx_method (context_of_call call)) (fresh_bag call w) (Some e) v)"
    using assms(1) by (simp add: unary_alt instrumented_chain context_of_call_def del: chain_simps(2))
  moreover have "tel_calls (server_end m (fresh_bag call w) r v) = tel_calls v @ map (Pair (tel_next w)) (span_report r)" for m r
    by (simp add: server_end_def fresh_bag_def Let_def)
  ultimately show ?thesis using assms(2)
    by (auto simp: toServiceError_def grpcErrorCode_def INTERNAL_def split: jval.split)
qed

section \<open>A concrete call\<close>

definition grpc_world :: "(unit, bytes, unit) grpc_web" where
  "grpc_world = \<lparr>tel_context = (), tel_next = 0, tel_calls = [], tel_durations = [], tel_now = 0, web_claims = (\<lambda>_. None),
     web_contexts = (\<lambda>_. None), web_services = (\<lambda>_. hmac_service), gw_states = (\<lambda>_. [])\<rparr>"

definition plain_grpc_options :: grpc_jwt_options where
  "plain_grpc_options = \<lparr>go_metadataKey = None, go_scheme = None, go_validators = None\<rparr>"

definition echo_call :: "jstr grpc_call" where
  "echo_call = \<lparr>gc_id = 1, gc_path = Some (js ''/v1.Methods/Echo''),
     gc_metadata = [(js ''authorization'', [MdText (js ''Bearer a.b'')])], gc_request = js ''hi''\<rparr>"

theorem grpc_jwt_enforced_witness:
  "\<exists>m v. \<forall>(h :: ((unit, bytes, unit) grpc_web, jstr, jstr) unary_handler) is.
    unary h (gs_interceptors (newGrpcServer no_otel (\<lambda>b. []) None (Some [grpcJwtInterceptor plain_jwt 0 plain_grpc_options]) ::
      ((unit, bytes, unit) grpc_web, jstr, jstr) grpc_server) @ is) echo_call grpc_world = (Inl \<lparr>se_code = JNum 16, se_message = m\<rparr>, v)"
proof -
  have "serves_as plain_jwt 0 hmac_service grpc_world"
    unfolding serves_as_def by (rule exI [of _ "[]"]) (simp add: grpc_world_def)
  note enforced = grpc_jwt_enforced [OF hmac_created this refl refl, of plain_grpc_options echo_call]
  have "presented_metadata plain_grpc_options (gc_metadata echo_call) = Some (js ''a.b'')" by code_simp
  moreover have "split_on 46 (js ''a.b'') = [js ''a'', js ''b'']" by code_simp
  ultimately have "\<not> (\<exists>token tok. presented_metadata plain_grpc_options (gc_metadata echo_call) = Some token \<and>
      authentic plain_jwt hmac_service (validators_of (go_validators plain_grpc_options)) token tok)"
    by (simp add: authentic_def)
  from enforced [unfolded if_not_P [OF this]] show ?thesis by blast
qed

theorem telemetry_status_differs_witness:
  "\<exists>w' c. unary (\<lambda>r ctx. lift_result (Inl (plain_error (js ''boom'')) :: exn + jstr)) [telemetry_interceptor no_otel (\<lambda>b. [])] echo_call
      grpc_world = (Inl \<lparr>se_code = c, se_message = ex_text (plain_error (js ''boom''))\<rparr>, w') \<and> c \<noteq> JNum (grpcErrorCode (plain_error (js ''boom'')))"
  using telemetry_status_differs [of "\<lambda>r ctx. lift_result (Inl (plain_error (js ''boom'')) :: exn + jstr)" echo_call no_otel "\<lambda>b. []"
      grpc_world "plain_error (js ''boom'')"]
  by (auto simp: lift_result_def plain_error_def)

end
