(* ===== verification/Logger_Middleware.thy ===== *)
theory Logger_Middleware
  imports Logger_Builder Http_Context Grpc_Server
begin

text \<open>
  The logging middleware of \<^verbatim>\<open>src/logger/middlewares\<close>: the HTTP log entry, the HTTP logger and the gRPC logging
  interceptor, over the logger of \<open>Logger_Builder\<close>.  The logger's environment and what its sink does with a line are
  arguments: a sink may throw.
\<close>

section \<open>Logging as an effect\<close>

record 'w log_host =
  lh_env :: "'w \<Rightarrow> log_env"
  lh_testMode :: bool
  lh_write :: "sink \<Rightarrow> jstr \<Rightarrow> ('w, unit) effect"

definition log_effect :: "'w log_host \<Rightarrow> logger \<Rightarrow> log_level \<Rightarrow> jstr \<Rightarrow> lobj \<Rightarrow> ('w, unit) effect" where
  "log_effect host lg level message attrs w =
     (case log_record (lh_testMode host) (lh_env host w) lg level message attrs of
        Inl f \<Rightarrow> (Inl (plain_error (js ''TypeError'')), w)
      | Inr None \<Rightarrow> (Inr (), w)
      | Inr (Some (sk, line)) \<Rightarrow> lh_write host sk line w)"

section \<open>http.ts\<close>

text \<open>A regular expression is tested without its \<open>g\<close> and \<open>y\<close> flags, so it is a predicate.\<close>

datatype path_matcher = ExactPath jstr | PathPattern "jstr \<Rightarrow> bool"

datatype log_outcome = ResponseOutcome response | ErrorOutcome exn "int option"

record http_log_options =
  hl_requestIdHeader :: "jstr option"
  hl_skipPaths :: "path_matcher list option"
  hl_shouldLog :: "(request \<Rightarrow> log_outcome \<Rightarrow> exn + bool) option"
  hl_includeHeaders :: "bool option"
  hl_startedAt :: "rat option"
  hl_process :: "lval list option"

record http_log_entry =
  he_error :: bool
  he_message :: jstr
  he_details :: lobj

fun path_matches :: "jstr \<Rightarrow> path_matcher \<Rightarrow> bool" where
  "path_matches p (ExactPath q) = (p = q)"
| "path_matches p (PathPattern f) = f p"

definition matchesSkippedPath :: "jstr \<Rightarrow> path_matcher list option \<Rightarrow> bool" where
  "matchesSkippedPath p ms = (case ms of None \<Rightarrow> False | Some l \<Rightarrow> list_ex (path_matches p) l)"

text \<open>The correlation id: the span's, else the header's, else the context's.\<close>

definition log_trace_id ::
  "'o otel \<Rightarrow> request \<Rightarrow> http_log_options \<Rightarrow> ('o, 'k, request_context, 'x) web_scheme \<Rightarrow> exn + jstr option" where
  "log_trace_id ot req opts w =
     (case activeSpanContext ot w of
        Some sx \<Rightarrow> Inr (Some (sx_traceId sx))
      | None \<Rightarrow>
          and_then (headers_get (req_headers req) (case hl_requestIdHeader opts of Some h \<Rightarrow> h | None \<Rightarrow> js ''x-trace-id'')) (\<lambda>hv.
            Inr (case hv of Some v \<Rightarrow> Some v | None \<Rightarrow> map_option cx_requestId (getRequestContext req w))))"

definition log_latency :: "request \<Rightarrow> http_log_options \<Rightarrow> ('o, 'k, request_context, 'x) web_scheme \<Rightarrow> lval" where
  "log_latency req opts w =
     (case (case hl_startedAt opts of Some t \<Rightarrow> Some t | None \<Rightarrow> map_option cx_startedAt (getRequestContext req w)) of
        None \<Rightarrow> number 0
      | Some t \<Rightarrow> normalizeLatency (number (tel_now w - t)))"

definition optional_text :: "string \<Rightarrow> jstr option \<Rightarrow> lobj" where
  "optional_text k v = (if missing v then [] else [(js k, LStr (the v))])"

definition log_process :: "request \<Rightarrow> http_log_options \<Rightarrow> ('o, 'k, request_context, 'x) web_scheme \<Rightarrow> lobj" where
  "log_process req opts w =
     (case (case hl_process opts of Some ps \<Rightarrow> ps
            | None \<Rightarrow> (case getRequestContext req w of Some cx \<Rightarrow> map parsed (cx_process cx) | None \<Rightarrow> [])) of
        [] \<Rightarrow> []
      | ps \<Rightarrow> [(js ''process'', LArr (map normalizeProcessLatency ps))])"

definition log_details ::
  "'o otel \<Rightarrow> (jstr \<Rightarrow> jstr) \<Rightarrow> request \<Rightarrow> http_log_options \<Rightarrow> ('o, 'k, request_context, 'x) web_scheme \<Rightarrow> jstr option \<Rightarrow> lobj" where
  "log_details ot pathname_of req opts w tid =
     (let private = hl_includeHeaders opts = Some False;
          attrs = (case getRequestContext req w of Some cx \<Rightarrow> map (\<lambda>(k, v). (k, parsed v)) (cx_attributes cx) | None \<Rightarrow> []);
          full = spread attrs
            ([(js ''method'', LStr (req_method req)), (js ''path'', LStr (pathname_of (req_url req)))] @
             (if private then [] else [(js ''headers'', LHeaders (req_headers req))]) @
             [(js ''latency'', log_latency req opts w)] @ optional_text ''traceID'' tid @
             optional_text ''spanID'' (map_option sx_spanId (activeSpanContext ot w)) @ log_process req opts w)
      in if private then filter (\<lambda>(k, v). k \<noteq> js ''headers'') full else full)"

definition finish_entry :: "log_outcome \<Rightarrow> lobj \<Rightarrow> http_log_entry" where
  "finish_entry out details =
     (case out of
        ResponseOutcome res \<Rightarrow>
          \<lparr>he_error = False, he_message = js ''http.request'',
           he_details = set_prop (js ''status'') (number (of_int (res_status res))) details\<rparr>
      | ErrorOutcome e st \<Rightarrow>
          \<lparr>he_error = True, he_message = js ''http.request.error'',
           he_details = set_prop (js ''error'') (LStr (ex_text e))
             (case st of None \<Rightarrow> details | Some n \<Rightarrow> set_prop (js ''status'') (number (of_int n)) details)\<rparr>)"

text \<open>\<open>Inr None\<close>: the request is not logged.  A \<open>shouldLog\<close> that throws suppresses the entry.\<close>

definition buildHttpLogEntry ::
  "'o otel \<Rightarrow> (jstr \<Rightarrow> jstr) \<Rightarrow> request \<Rightarrow> log_outcome \<Rightarrow> http_log_options \<Rightarrow> ('o, 'k, request_context, 'x) web_scheme \<Rightarrow>
    exn + http_log_entry option" where
  "buildHttpLogEntry ot pathname_of req out opts w =
     (if matchesSkippedPath (pathname_of (req_url req)) (hl_skipPaths opts) then Inr None
      else if (case getRequestContext req w of Some cx \<Rightarrow> cx_skipLogging cx | None \<Rightarrow> False) then Inr None
      else if (case hl_shouldLog opts of None \<Rightarrow> False | Some f \<Rightarrow> f req out \<noteq> Inr True) then Inr None
      else and_then (log_trace_id ot req opts w) (\<lambda>tid.
             Inr (Some (finish_entry out (log_details ot pathname_of req opts w tid)))))"

definition emit :: "'w log_host \<Rightarrow> logger \<Rightarrow> http_log_entry option \<Rightarrow> ('w, unit) effect" where
  "emit host lg entry w =
     (case entry of
        None \<Rightarrow> (Inr (), w)
      | Some e \<Rightarrow> log_effect host lg (if he_error e then LevelError else LevelInfo) (he_message e) (he_details e) w)"

definition log_outcome_effect ::
  "('o, 'k, request_context, 'x) web_scheme log_host \<Rightarrow> 'o otel \<Rightarrow> (jstr \<Rightarrow> jstr) \<Rightarrow> logger \<Rightarrow> request \<Rightarrow> http_log_options \<Rightarrow>
    log_outcome \<Rightarrow> (('o, 'k, request_context, 'x) web_scheme, unit) effect" where
  "log_outcome_effect host ot pathname_of lg req opts out w =
     (case buildHttpLogEntry ot pathname_of req out opts w of Inl e \<Rightarrow> (Inl e, w) | Inr entry \<Rightarrow> emit host lg entry w)"

text \<open>
  The logging of a response is inside the \<open>try\<close>: a failure to log a response is handled like a failure of the
  handler.
\<close>

definition httpLogger ::
  "('o, 'k, request_context, 'x) web_scheme log_host \<Rightarrow> 'o otel \<Rightarrow> (jstr \<Rightarrow> jstr) \<Rightarrow> logger \<Rightarrow> http_log_options \<Rightarrow>
    ('o, 'k, request_context, 'x) web_scheme middleware" where
  "httpLogger host ot pathname_of lg options nxt req w =
     (let opts = options\<lparr>hl_startedAt := Some (tel_now w)\<rparr>;
          log = log_outcome_effect host ot pathname_of lg req opts;
          caught = (\<lambda>e v. case log (ErrorOutcome e None) v of (Inl f, v') \<Rightarrow> (Inl f, v') | (Inr _, v') \<Rightarrow> (Inl e, v'))
      in case nxt req w of
           (Inl e, v) \<Rightarrow> caught e v
         | (Inr res, v) \<Rightarrow> (case log (ResponseOutcome res) v of (Inl f, v') \<Rightarrow> caught f v' | (Inr _, v') \<Rightarrow> (Inr res, v')))"

section \<open>grpc.ts\<close>

text \<open>\<^verbatim>\<open>Math.round(performance.now() - start)\<close>, halves up.\<close>

definition elapsed :: "rat \<Rightarrow> ('o, 'x) telemetry_scheme \<Rightarrow> lval" where
  "elapsed start w = number (of_int \<lfloor>tel_now w - start + 1 / 2\<rfloor>)"

definition grpcLogger ::
  "('o, 'x) telemetry_scheme log_host \<Rightarrow> logger \<Rightarrow> (('o, 'x) telemetry_scheme, 'b) interceptor" where
  "grpcLogger host lg ctx nxt w =
     (let start = tel_now w;
          caught = (\<lambda>e v.
            case log_effect host lg LevelError (js ''grpc.request.error'')
              [(js ''method'', LStr (gx_method ctx)), (js ''latency'', elapsed start v), (js ''error'', LStr (ex_text e))] v of
              (Inl f, v') \<Rightarrow> (Inl f, v') | (Inr _, v') \<Rightarrow> (Inl e, v'))
      in case nxt w of
           (Inl e, v) \<Rightarrow> caught e v
         | (Inr res, v) \<Rightarrow>
             (case log_effect host lg LevelInfo (js ''grpc.request'')
                [(js ''method'', LStr (gx_method ctx)), (js ''status'', LStr (js ''OK'')), (js ''latency'', elapsed start v)] v of
                (Inl f, v') \<Rightarrow> caught f v' | (Inr _, v') \<Rightarrow> (Inr res, v')))"

section \<open>What the middleware promises\<close>

text \<open>The logger and the configured header name never fail.\<close>

definition logs_quietly :: "'w log_host \<Rightarrow> logger \<Rightarrow> bool" where
  "logs_quietly host lg \<longleftrightarrow> (\<forall>level m attrs w. \<exists>v. log_effect host lg level m attrs w = (Inr (), v))"

lemma quiet_emit: "logs_quietly host lg \<Longrightarrow> \<exists>v. emit host lg entry w = (Inr (), v)"
  by (auto simp: emit_def logs_quietly_def split: option.split)

lemma build_ok:
  assumes "header_name_ok (case hl_requestIdHeader opts of Some h \<Rightarrow> h | None \<Rightarrow> js ''x-trace-id'')"
  shows "\<exists>entry. buildHttpLogEntry ot pathname_of req out opts w = Inr entry"
  using assms by (auto simp: buildHttpLogEntry_def log_trace_id_def headers_get_def split: option.split)

theorem logger_keeps_outcome:
  assumes "logs_quietly host lg" "header_name_ok (case hl_requestIdHeader opts of Some h \<Rightarrow> h | None \<Rightarrow> js ''x-trace-id'')"
  shows "fst (httpLogger host ot pathname_of lg opts nxt req w) = fst (nxt req w)"
proof -
  have l: "\<exists>u. log_outcome_effect host ot pathname_of lg req (opts\<lparr>hl_startedAt := Some t\<rparr>) out v = (Inr (), u)" for t out v
    using build_ok [of "opts\<lparr>hl_startedAt := Some t\<rparr>" ot pathname_of req out v] quiet_emit [OF assms(1)] assms(2)
    by (auto simp: log_outcome_effect_def)
  obtain r v where n: "nxt req w = (r, v)" by (cases "nxt req w")
  show ?thesis
  proof (cases r)
    case (Inl e)
    then show ?thesis using n l [of "tel_now w" "ErrorOutcome e None" v] by (auto simp: httpLogger_def)
  next
    case (Inr res)
    then show ?thesis using n l [of "tel_now w" "ResponseOutcome res" v] by (auto simp: httpLogger_def)
  qed
qed

text \<open>With \<open>includeHeaders: false\<close> no entry holds the headers, not even from an attribute of the context.\<close>

lemma names_set: "fst ` set (set_prop k v ob) = insert k (fst ` set ob)"
  by (simp add: set_prop_def dom_update)

theorem private_entry:
  assumes "hl_includeHeaders opts = Some False" "buildHttpLogEntry ot pathname_of req out opts w = Inr (Some entry)"
  shows "js ''headers'' \<notin> fst ` set (he_details entry)"
proof -
  obtain tid where "entry = finish_entry out (log_details ot pathname_of req opts w tid)"
    using assms(2) by (auto simp: buildHttpLogEntry_def split: if_splits)
  moreover have "js ''headers'' \<notin> fst ` set (log_details ot pathname_of req opts w tid)"
    using assms(1) by (auto simp: log_details_def Let_def)
  ultimately show ?thesis
    by (simp add: finish_entry_def names_set js_def split: log_outcome.split option.split)
qed

text \<open>
  A failing logger costs the caller the response: with a sanitizer that counts \<open>process\<close> among the sensitive names
  every logged response of an enabled logger becomes a \<^verbatim>\<open>TypeError\<close>.
\<close>

theorem logger_failure_replaces_response:
  assumes "isSensitive (lg_sanitizer lg) (js ''process'')" "enabled (lh_testMode host) lg LevelInfo"
    and "nxt req w = (Inr res, v)"
    and "buildHttpLogEntry ot pathname_of req (ResponseOutcome res) (opts\<lparr>hl_startedAt := Some (tel_now w)\<rparr>) v = Inr (Some entry)"
    and "header_name_ok (case hl_requestIdHeader opts of Some h \<Rightarrow> h | None \<Rightarrow> js ''x-trace-id'')"
  shows "httpLogger host ot pathname_of lg opts nxt req w = (Inl (plain_error (js ''TypeError'')), v)"
proof -
  have "LevelInfo \<le> LevelError" by code_simp
  then have e: "enabled (lh_testMode host) lg LevelError" using assms(2) by (auto simp: enabled_def)
  have fails: "log_effect host lg level m attrs u = (Inl (plain_error (js ''TypeError'')), u)"
    if "level = LevelInfo \<or> level = LevelError" for level m attrs u
    using that sensitive_process_throws [OF assms(1)] assms(2) e by (auto simp: log_effect_def)
  let ?opts = "opts\<lparr>hl_startedAt := Some (tel_now w)\<rparr>"
  have "he_error entry = False" using assms(4) by (auto simp: buildHttpLogEntry_def finish_entry_def split: if_splits)
  then have first: "log_outcome_effect host ot pathname_of lg req ?opts (ResponseOutcome res) v = (Inl (plain_error (js ''TypeError'')), v)"
    by (simp add: log_outcome_effect_def assms(4) emit_def fails)
  obtain entry' where b: "buildHttpLogEntry ot pathname_of req (ErrorOutcome (plain_error (js ''TypeError'')) None) ?opts v = Inr entry'"
    using build_ok [of ?opts ot pathname_of req "ErrorOutcome (plain_error (js ''TypeError'')) None" v] assms(5) by auto
  have "fst (log_outcome_effect host ot pathname_of lg req ?opts (ErrorOutcome (plain_error (js ''TypeError'')) None) v)
      \<in> {Inl (plain_error (js ''TypeError'')), Inr ()}"
    "snd (log_outcome_effect host ot pathname_of lg req ?opts (ErrorOutcome (plain_error (js ''TypeError'')) None) v) = v"
    by (cases entry'; simp add: log_outcome_effect_def b emit_def fails)+
  then show ?thesis using first assms(3)
    by (cases "log_outcome_effect host ot pathname_of lg req ?opts (ErrorOutcome (plain_error (js ''TypeError'')) None) v")
      (auto simp: httpLogger_def Let_def)
qed

end
