(* ===== verification/Http_Client.thy ===== *)
theory Http_Client
  imports Http_Values Json_Round_Trip
begin

text \<open>
  The REST client of \<^verbatim>\<open>src/config/client/http\<close>: the URL, headers, payload and signal of a request, and the body of a
  response.  \<^verbatim>\<open>fetch\<close> and the URL parser are arguments.
\<close>

section \<open>Values\<close>

record 'sig request_options =
  rq_headers :: "(jstr \<times> jstr) list option"
  rq_query :: "(jstr \<times> jval) list option"
  rq_signal :: "'sig option"
  rq_timeoutMs :: "rat option"

record http_envelope =
  hr_status :: int
  hr_ok :: bool
  hr_data :: jval
  hr_headers :: header_list

record client_options =
  cn_baseUrl :: "jstr option"
  cn_headers :: "(jstr \<times> jstr) list option"
  cn_timeoutMs :: "rat option"

record http_client =
  hc_baseUrl :: jstr
  hc_headers :: "(jstr \<times> jstr) list"
  hc_timeoutMs :: "rat option"

datatype payload = NoPayload | TextPayload jstr | RawPayload jval

datatype 'sig composed_signal = NoAbort | CallerAbort 'sig | TimeoutAbort rat | EitherAbort 'sig rat

record 'sig fetch_request =
  fq_url :: jstr
  fq_method :: jstr
  fq_headers :: header_list
  fq_body :: payload
  fq_signal :: "'sig composed_signal"

text \<open>A fetched response; reading its body may still fail.\<close>

record fetched =
  fs_status :: int
  fs_headers :: header_list
  fs_text :: "exn + jstr"

section \<open>client.ts\<close>

definition newClientHTTP :: "client_options \<Rightarrow> http_client" where
  "newClientHTTP opts =
     \<lparr>hc_baseUrl = (case cn_baseUrl opts of None \<Rightarrow> [] | Some u \<Rightarrow> rev (dropWhile (\<lambda>c. c = 47) (rev u))),
      hc_headers = (case cn_headers opts of None \<Rightarrow> [] | Some h \<Rightarrow> h), hc_timeoutMs = cn_timeoutMs opts\<rparr>"

definition buildUrl ::
  "(jstr \<Rightarrow> (jstr \<times> jstr) list \<Rightarrow> exn + jstr) \<Rightarrow> http_client \<Rightarrow> jstr \<Rightarrow> (jstr \<times> jval) list option \<Rightarrow> exn + jstr" where
  "buildUrl with_query c path query =
     (let base = (if starts_with (js ''http'') path then path
                  else hc_baseUrl c @ (if starts_with (js ''/'') path then [] else js ''/'') @ path)
      in case query of None \<Rightarrow> Inr base | Some q \<Rightarrow> with_query base (map (\<lambda>(k, v). (k, to_text v)) q))"

text \<open>\<^verbatim>\<open>new Headers(record)\<close> appends: names that differ only in case share one entry, their texts joined.\<close>

definition headers_append :: "jstr \<Rightarrow> jstr \<Rightarrow> header_list \<Rightarrow> exn + header_list" where
  "headers_append n v hs =
     (if \<not> header_name_ok n then Inl (plain_error (js ''Invalid header name''))
      else if \<not> header_text_ok v then Inl (plain_error (js ''Invalid header value''))
      else Inr (AList.update (lower n)
        (case map_of hs (lower n) of None \<Rightarrow> header_text v | Some old \<Rightarrow> old @ js '', '' @ header_text v) hs))"

fun new_headers :: "(jstr \<times> jstr) list \<Rightarrow> header_list \<Rightarrow> exn + header_list" where
  "new_headers [] hs = Inr hs"
| "new_headers ((n, v) # nvs) hs = and_then (headers_append n v hs) (new_headers nvs)"

fun contains_text :: "jstr \<Rightarrow> jstr \<Rightarrow> bool" where
  "contains_text p [] = (p = [])"
| "contains_text p (c # s) = (starts_with p (c # s) \<or> contains_text p s)"

definition content_type :: jstr where "content_type = js ''content-type''"
definition application_json :: jstr where "application_json = js ''application/json''"

text \<open>The payload of a body, and the headers with the content type it was given.\<close>

definition body_payload :: "jval \<Rightarrow> header_list \<Rightarrow> payload \<times> header_list" where
  "body_payload body hs =
     (if body = JUndef then (NoPayload, hs)
      else (let hs' = (if map_of hs content_type = None then AList.update content_type application_json hs else hs)
            in (case map_of hs' content_type of
                  Some ct \<Rightarrow> if contains_text application_json ct then TextPayload (json_print body) else RawPayload body
                | None \<Rightarrow> RawPayload body, hs')))"

definition composeSignal :: "'sig option \<Rightarrow> rat option \<Rightarrow> 'sig composed_signal" where
  "composeSignal signal timeout =
     (case timeout of
        Some t \<Rightarrow> if t > 0 then (case signal of Some s \<Rightarrow> EitherAbort s t | None \<Rightarrow> TimeoutAbort t)
                 else (case signal of Some s \<Rightarrow> CallerAbort s | None \<Rightarrow> NoAbort)
      | None \<Rightarrow> (case signal of Some s \<Rightarrow> CallerAbort s | None \<Rightarrow> NoAbort))"

definition parseBody :: "fetched \<Rightarrow> exn + jval" where
  "parseBody r =
     and_then (fs_text r) (\<lambda>txt.
       if txt = [] then Inr JUndef
       else if contains_text application_json (case map_of (fs_headers r) content_type of Some ct \<Rightarrow> ct | None \<Rightarrow> [])
         then Inr (case json_parse txt of Some v \<Rightarrow> v | None \<Rightarrow> JStr txt)
         else Inr (JStr txt))"

definition client_error :: "jstr \<Rightarrow> jstr \<Rightarrow> exn" where
  "client_error method path =
     \<lparr>ex_kind = HttpClientErrorClass, ex_text = js ''http client: '' @ method @ 32 # path @ js '' failed'', ex_code = JUndef\<rparr>"

definition envelope :: "fetched \<Rightarrow> exn + http_envelope" where
  "envelope r =
     and_then (parseBody r) (\<lambda>d.
       Inr \<lparr>hr_status = fs_status r, hr_ok = (200 \<le> fs_status r \<and> fs_status r \<le> 299), hr_data = d, hr_headers = fs_headers r\<rparr>)"

definition client_request ::
  "(jstr \<Rightarrow> (jstr \<times> jstr) list \<Rightarrow> exn + jstr) \<Rightarrow> ('sig fetch_request \<Rightarrow> ('w, fetched) effect) \<Rightarrow> http_client \<Rightarrow>
    jstr \<Rightarrow> jstr \<Rightarrow> jval \<Rightarrow> 'sig request_options \<Rightarrow> ('w, http_envelope) effect" where
  "client_request with_query fetch c method path body opts w =
     (case new_headers (spread_over (hc_headers c) (case rq_headers opts of Some h \<Rightarrow> h | None \<Rightarrow> [])) [] of
        Inl e \<Rightarrow> (Inl e, w)
      | Inr hs0 \<Rightarrow>
          (case body_payload body hs0 of (payload, hs) \<Rightarrow>
           case buildUrl with_query c path (rq_query opts) of
             Inl e \<Rightarrow> (Inl (client_error method path), w)
           | Inr url \<Rightarrow>
               (case fetch \<lparr>fq_url = url, fq_method = method, fq_headers = hs, fq_body = payload,
                   fq_signal = composeSignal (rq_signal opts)
                     (case rq_timeoutMs opts of Some t \<Rightarrow> Some t | None \<Rightarrow> hc_timeoutMs c)\<rparr> w of
                  (Inl e, w') \<Rightarrow> (Inl (client_error method path), w')
                | (Inr r, w') \<Rightarrow> (envelope r, w'))))"

text \<open>The verbs: the ones without a body pass \<open>undefined\<close>.\<close>

definition client_get where
  "client_get wq fetch c path opts = client_request wq fetch c (js ''GET'') path JUndef opts"
definition client_post where
  "client_post wq fetch c path body opts = client_request wq fetch c (js ''POST'') path body opts"
definition client_put where
  "client_put wq fetch c path body opts = client_request wq fetch c (js ''PUT'') path body opts"
definition client_patch where
  "client_patch wq fetch c path body opts = client_request wq fetch c (js ''PATCH'') path body opts"
definition client_delete where
  "client_delete wq fetch c path opts = client_request wq fetch c (js ''DELETE'') path JUndef opts"

section \<open>Facts\<close>

text \<open>A server that sends back what it was sent.\<close>

definition echo :: "'sig fetch_request \<Rightarrow> ('w, fetched) effect" where
  "echo q w = (Inr \<lparr>fs_status = 200, fs_headers = fq_headers q,
     fs_text = Inr (case fq_body q of NoPayload \<Rightarrow> [] | TextPayload t \<Rightarrow> t | RawPayload v \<Rightarrow> to_text v)\<rparr>, w)"

lemma json_is_json: "contains_text application_json application_json"
  by code_simp

lemma printed_nonempty: "json_plain v \<Longrightarrow> json_print v \<noteq> []"
  by (erule json_print_head) simp

text \<open>
  A plain value posted by a client without a content type of its own comes back from the echo as it was sent; the
  query and the signal do not matter.
\<close>

theorem posted_value_returns:
  assumes "json_plain body"
    and "new_headers (spread_over (hc_headers c) (case rq_headers opts of Some h \<Rightarrow> h | None \<Rightarrow> [])) [] = Inr hs"
    and "map_of hs content_type = None" "buildUrl wq c path (rq_query opts) = Inr url"
  shows "\<exists>env. client_post wq echo c path body opts w = (Inr env, w) \<and> hr_data env = body \<and> hr_ok env"
proof -
  let ?hs = "AList.update content_type application_json hs"
  have u: "body \<noteq> JUndef" using assms(1) by auto
  then have "body_payload body hs = (TextPayload (json_print body), ?hs)"
    by (simp add: body_payload_def assms(3) update_conv json_is_json)
  moreover have "parseBody \<lparr>fs_status = 200, fs_headers = ?hs, fs_text = Inr (json_print body)\<rparr> = Inr body"
    by (simp add: parseBody_def printed_nonempty [OF assms(1)] json_round_trip [OF assms(1)] update_conv json_is_json
      del: json_print.simps)
  ultimately show ?thesis by (simp add: client_post_def client_request_def assms(2,4) echo_def envelope_def)
qed

text \<open>Whatever fetch throws becomes a client error; a body that cannot be read does not.\<close>

theorem client_error_classes:
  assumes "client_request wq fetch c method path body opts w = (Inl e, w')"
    and "new_headers (spread_over (hc_headers c) (case rq_headers opts of Some h \<Rightarrow> h | None \<Rightarrow> [])) [] = Inr hs"
  shows "e = client_error method path \<or>
    (\<exists>q r. fetch q w = (Inr r, w') \<and> fs_text r = Inl e)"
proof (cases "buildUrl wq c path (rq_query opts)")
  case (Inl e')
  then show ?thesis using assms by (simp add: client_request_def split: prod.splits)
next
  case (Inr url)
  obtain payload ks where p: "body_payload body hs = (payload, ks)" by fastforce
  define q where "q = \<lparr>fq_url = url, fq_method = method, fq_headers = ks, fq_body = payload,
    fq_signal = composeSignal (rq_signal opts) (case rq_timeoutMs opts of Some t \<Rightarrow> Some t | None \<Rightarrow> hc_timeoutMs c)\<rparr>"
  obtain r v where f: "fetch q w = (r, v)" by fastforce
  have run: "(case r of Inl e \<Rightarrow> (Inl (client_error method path), v) | Inr x \<Rightarrow> (envelope x, v)) = (Inl e, w')"
    using assms Inr p f by (simp add: client_request_def q_def)
  show ?thesis
  proof (cases r)
    case (Inr x)
    then have "envelope x = Inl e" "v = w'" using run by simp_all
    then have "fs_text x = Inl e" by (auto simp: envelope_def parseBody_def and_then_Inl_iff split: if_splits)
    then show ?thesis using f Inr \<open>v = w'\<close> by blast
  qed (use run in simp)
qed

text \<open>
  Headers of a request that repeat a default under another spelling do not override it: the two texts are joined.
\<close>

theorem header_spelling_joins:
  assumes "lower n = lower m" "n \<noteq> m" "header_name_ok n" "header_name_ok m" "header_text_ok u" "header_text_ok v"
  shows "\<exists>hs. new_headers (spread_over [(n, u)] [(m, v)]) [] = Inr hs \<and>
    map_of hs (lower m) = Some (header_text u @ js '', '' @ header_text v)"
  using assms by (simp add: spread_over_def headers_append_def)

end
