(* ===== verification/Encrypt_Kms.thy ===== *)
theory Encrypt_Kms
  imports Encrypt_Local Http_Client
begin

text \<open>
  The cloud providers: the shared logic of \<^verbatim>\<open>src/encrypt/common/kms.ts\<close> and the adapters of \<^verbatim>\<open>aws-kms\<close>,
  \<^verbatim>\<open>gcp-kms\<close> and \<^verbatim>\<open>azure-key-vault\<close>.  The cloud SDKs are records of functions over the state of their service;
  what the code relies on of them is stated by locales.
\<close>

section \<open>kms.ts\<close>

record kms_description =
  kx_keyId :: jstr
  kx_keyRef :: "jstr option"
  kx_publicKey :: "jstr option"

record 's kms_api =
  ka_encrypt :: "jstr \<Rightarrow> bytes \<Rightarrow> ('s, bytes) operation"
  ka_decrypt :: "bytes \<Rightarrow> jstr \<Rightarrow> ('s, bytes) operation"
  ka_sign :: "jstr \<Rightarrow> bytes \<Rightarrow> jstr \<Rightarrow> ('s, bytes) operation"
  ka_verify :: "jstr \<Rightarrow> bytes \<Rightarrow> bytes \<Rightarrow> jstr \<Rightarrow> ('s, bool) operation"
  ka_describeKey :: "jstr \<Rightarrow> ('s, kms_description) operation"
  ka_disableKey :: "jstr \<Rightarrow> ('s, unit) operation"
  ka_rotateKey :: "jstr \<Rightarrow> ('s, unit) operation"

text \<open>A provider: its name, its default signing algorithm and how its adapter is made.\<close>

record 's kms_provider =
  kp_provider :: jstr
  kp_signing :: jstr
  kp_createApi :: "('s, 's kms_api) operation"

text \<open>\<open>#api\<close> and the state of the service it talks to.\<close>

record 's kms_state =
  ks_api :: "'s kms_api option"
  ks_service :: 's

definition on_service :: "('s, 'a) operation \<Rightarrow> ('s kms_state, 'a) operation" where
  "on_service m st = (case m (ks_service st) of (r, s) \<Rightarrow> (r, st\<lparr>ks_service := s\<rparr>))"

text \<open>One caller at a time: the adapter is kept when its creation succeeds.\<close>

definition resolveApi :: "'s kms_provider \<Rightarrow> ('s kms_state, 's kms_api) operation" where
  "resolveApi p st =
     (case ks_api st of
        Some api \<Rightarrow> (Inr api, st)
      | None \<Rightarrow>
          (case on_service (kp_createApi p) st of
             (Inl e, st') \<Rightarrow> (Inl e, st')
           | (Inr api, st') \<Rightarrow> (Inr api, st'\<lparr>ks_api := Some api\<rparr>)))"

definition toKeyData :: "'s kms_provider \<Rightarrow> kms_description \<Rightarrow> key_data" where
  "toKeyData p d =
     \<lparr> kd_publicKey = (case kx_publicKey d of Some k \<Rightarrow> k | None \<Rightarrow> []), kd_keyId = kx_keyId d,
       kd_keyRef = (case kx_keyRef d of Some r \<Rightarrow> r | None \<Rightarrow> kx_keyId d), kd_provider = kp_provider p \<rparr>"

definition kms_describe :: "'s kms_provider \<Rightarrow> 's kms_api \<Rightarrow> jstr \<Rightarrow> ('s kms_state, key_data) operation" where
  "kms_describe p api keyId = chain (on_service (ka_describeKey api keyId)) (\<lambda>d. settled (Inr (toKeyData p d)))"

definition kms_getKey :: "'s kms_provider \<Rightarrow> jstr \<Rightarrow> signal \<Rightarrow> ('s kms_state, key_data) operation" where
  "kms_getKey p keyId sig = runWithSignal sig (chain (resolveApi p) (\<lambda>api. kms_describe p api keyId))"

definition kms_rotateKey :: "'s kms_provider \<Rightarrow> jstr \<Rightarrow> signal \<Rightarrow> ('s kms_state, key_data) operation" where
  "kms_rotateKey p keyId sig =
     runWithSignal sig (chain (resolveApi p) (\<lambda>api.
       chain (on_service (ka_rotateKey api keyId)) (\<lambda>_. kms_describe p api keyId)))"

definition kms_deactivateKey :: "'s kms_provider \<Rightarrow> jstr \<Rightarrow> signal \<Rightarrow> ('s kms_state, unit) operation" where
  "kms_deactivateKey p keyId sig =
     runWithSignal sig (chain (resolveApi p) (\<lambda>api. on_service (ka_disableKey api keyId)))"

definition kms_encrypt :: "base64 \<Rightarrow> 's kms_provider \<Rightarrow> jstr \<Rightarrow> jstr \<Rightarrow> signal \<Rightarrow> ('s kms_state, jstr) operation" where
  "kms_encrypt b p keyId plaintext sig =
     runWithSignal sig (chain (resolveApi p) (\<lambda>api.
       chain (on_service (ka_encrypt api keyId (bytesOf plaintext))) (\<lambda>c. settled (Inr (toBase64 b c)))))"

definition kms_decrypt :: "base64 \<Rightarrow> 's kms_provider \<Rightarrow> jstr \<Rightarrow> jstr \<Rightarrow> signal \<Rightarrow> ('s kms_state, jstr) operation" where
  "kms_decrypt b p keyId ciphertext sig =
     runWithSignal sig (chain (resolveApi p) (\<lambda>api.
       chain (settled (fromBase64 b ciphertext)) (\<lambda>c.
       chain (on_service (ka_decrypt api c keyId)) (\<lambda>t. settled (Inr (textOf t))))))"

definition signing_algorithm :: "'s kms_provider \<Rightarrow> jstr option \<Rightarrow> jstr" where
  "signing_algorithm p alg = (case alg of Some a \<Rightarrow> a | None \<Rightarrow> kp_signing p)"

definition kms_sign ::
  "base64 \<Rightarrow> 's kms_provider \<Rightarrow> jstr \<Rightarrow> jstr \<Rightarrow> jstr option \<Rightarrow> signal \<Rightarrow> ('s kms_state, jstr) operation" where
  "kms_sign b p keyId message alg sig =
     runWithSignal sig (chain (resolveApi p) (\<lambda>api.
       chain (on_service (ka_sign api keyId (bytesOf message) (signing_algorithm p alg))) (\<lambda>s. settled (Inr (toBase64 b s)))))"

definition kms_verify ::
  "base64 \<Rightarrow> 's kms_provider \<Rightarrow> jstr \<Rightarrow> jstr \<Rightarrow> jstr \<Rightarrow> jstr option \<Rightarrow> signal \<Rightarrow> ('s kms_state, bool) operation" where
  "kms_verify b p keyId message signature alg sig =
     runWithSignal sig (chain (resolveApi p) (\<lambda>api.
       chain (settled (fromBase64 b signature)) (\<lambda>s.
         on_service (ka_verify api keyId (bytesOf message) s (signing_algorithm p alg)))))"

section \<open>aws-kms\<close>

definition AWS_PROVIDER :: jstr where "AWS_PROVIDER = js ''aws-kms''"
definition AWS_SIGNING :: jstr where "AWS_SIGNING = js ''RSASSA_PSS_SHA_256''"

datatype aws_command =
    AwsEncrypt jstr bytes
  | AwsDecrypt bytes jstr
  | AwsSign jstr bytes jstr
  | AwsVerify jstr bytes bytes jstr
  | AwsDescribeKey jstr
  | AwsDisableKey jstr
  | AwsGetPublicKey jstr
  | AwsRotateKeyOnDemand jstr

text \<open>The fields of an answer the code reads.\<close>

record aws_output =
  ao_CiphertextBlob :: "bytes option"
  ao_Plaintext :: "bytes option"
  ao_Signature :: "bytes option"
  ao_SignatureValid :: bool
  ao_KeyId :: "jstr option"
  ao_Arn :: "jstr option"
  ao_PublicKey :: "bytes option"

type_synonym 's aws_client = "aws_command \<Rightarrow> ('s, aws_output) operation"

text \<open>\<^verbatim>\<open>new Uint8Array(undefined)\<close> is empty.\<close>

definition blob :: "bytes option \<Rightarrow> bytes" where
  "blob b = (case b of Some x \<Rightarrow> x | None \<Rightarrow> [])"

definition aws_describe :: "base64 \<Rightarrow> 's aws_client \<Rightarrow> jstr \<Rightarrow> ('s, kms_description) operation" where
  "aws_describe b send keyId =
     chain (send (AwsDescribeKey keyId)) (\<lambda>out.
     chain (handle (chain (send (AwsGetPublicKey keyId)) (\<lambda>pub. settled (Inr (map_option (toBase64 b) (ao_PublicKey pub)))))
         (\<lambda>e. settled (Inr None))) (\<lambda>publicKey.
       settled (Inr \<lparr> kx_keyId = (case ao_KeyId out of Some k \<Rightarrow> k | None \<Rightarrow> keyId), kx_keyRef = ao_Arn out,
         kx_publicKey = publicKey \<rparr>)))"

definition aws_api :: "base64 \<Rightarrow> 's aws_client \<Rightarrow> 's kms_api" where
  "aws_api b send =
     \<lparr> ka_encrypt = (\<lambda>keyId plaintext. chain (send (AwsEncrypt keyId plaintext)) (\<lambda>out. settled (Inr (blob (ao_CiphertextBlob out))))),
       ka_decrypt = (\<lambda>ciphertext keyId. chain (send (AwsDecrypt ciphertext keyId)) (\<lambda>out. settled (Inr (blob (ao_Plaintext out))))),
       ka_sign = (\<lambda>keyId message alg. chain (send (AwsSign keyId message alg)) (\<lambda>out. settled (Inr (blob (ao_Signature out))))),
       ka_verify = (\<lambda>keyId message signature alg.
         chain (send (AwsVerify keyId message signature alg)) (\<lambda>out. settled (Inr (ao_SignatureValid out)))),
       ka_describeKey = aws_describe b send,
       ka_disableKey = (\<lambda>keyId. chain (send (AwsDisableKey keyId)) (\<lambda>_. settled (Inr ()))),
       ka_rotateKey = (\<lambda>keyId. chain (send (AwsRotateKeyOnDemand keyId)) (\<lambda>_. settled (Inr ()))) \<rparr>"

text \<open>\<open>load\<close> imports the SDK and makes its client.\<close>

definition aws_provider :: "base64 \<Rightarrow> jstr option \<Rightarrow> ('s, 's aws_client) operation \<Rightarrow> 's kms_provider" where
  "aws_provider b alg load =
     \<lparr> kp_provider = AWS_PROVIDER, kp_signing = (case alg of Some a \<Rightarrow> a | None \<Rightarrow> AWS_SIGNING),
       kp_createApi = chain load (\<lambda>send. settled (Inr (aws_api b send))) \<rparr>"

text \<open>The constructor keeps an injected adapter.\<close>

definition new_kms_state :: "'s kms_api option \<Rightarrow> 's \<Rightarrow> 's kms_state" where
  "new_kms_state injected s = \<lparr> ks_api = injected, ks_service = s \<rparr>"

section \<open>azure-key-vault\<close>

definition AZURE_PROVIDER :: jstr where "AZURE_PROVIDER = js ''azure-key-vault''"
definition AZURE_ENCRYPTION :: jstr where "AZURE_ENCRYPTION = js ''RSA-OAEP-256''"
definition AZURE_SIGNING :: jstr where "AZURE_SIGNING = js ''PS256''"

record 's azure_client =
  az_encrypt :: "jstr \<Rightarrow> jstr \<Rightarrow> bytes \<Rightarrow> ('s, bytes) operation"
  az_decrypt :: "jstr \<Rightarrow> jstr \<Rightarrow> bytes \<Rightarrow> ('s, bytes) operation"
  az_signData :: "jstr \<Rightarrow> jstr \<Rightarrow> bytes \<Rightarrow> ('s, bytes) operation"
  az_verifyData :: "jstr \<Rightarrow> jstr \<Rightarrow> bytes \<Rightarrow> bytes \<Rightarrow> ('s, bool) operation"
  az_getKey :: "jstr \<Rightarrow> ('s, jstr \<times> jstr option) operation"
  az_rotateKey :: "jstr \<Rightarrow> ('s, unit) operation"
  az_setEnabled :: "jstr \<Rightarrow> bool \<Rightarrow> ('s, unit) operation"

definition azure_api :: "jstr \<Rightarrow> 's azure_client \<Rightarrow> 's kms_api" where
  "azure_api encryption az =
     \<lparr> ka_encrypt = (\<lambda>keyId plaintext. az_encrypt az keyId encryption plaintext),
       ka_decrypt = (\<lambda>ciphertext keyId.
         if keyId = [] then settled (Inl (OtherFailure (js ''azure-key-vault: keyId is required to decrypt'')))
         else az_decrypt az keyId encryption ciphertext),
       ka_sign = (\<lambda>keyId message alg. az_signData az keyId alg message),
       ka_verify = (\<lambda>keyId message signature alg. az_verifyData az keyId alg message signature),
       ka_describeKey = (\<lambda>keyId. chain (az_getKey az keyId) (\<lambda>(nm, ref).
         settled (Inr \<lparr> kx_keyId = nm, kx_keyRef = Some (case ref of Some r \<Rightarrow> r | None \<Rightarrow> nm), kx_publicKey = None \<rparr>))),
       ka_disableKey = (\<lambda>keyId. az_setEnabled az keyId False),
       ka_rotateKey = (\<lambda>keyId. az_rotateKey az keyId) \<rparr>"

definition azure_provider ::
  "jstr option \<Rightarrow> bool \<Rightarrow> jstr option \<Rightarrow> jstr option \<Rightarrow> ('s, 's azure_client) operation \<Rightarrow> 's kms_provider" where
  "azure_provider vaultUrl credential encryption alg load =
     \<lparr> kp_provider = AZURE_PROVIDER, kp_signing = (case alg of Some a \<Rightarrow> a | None \<Rightarrow> AZURE_SIGNING),
       kp_createApi =
         (if vaultUrl = None \<or> vaultUrl = Some [] then settled (Inl (OtherFailure (js ''azure-key-vault: vaultUrl is required'')))
          else if \<not> credential then settled (Inl (OtherFailure (js ''azure-key-vault: credential is required'')))
          else chain load (\<lambda>az. settled (Inr (azure_api (case encryption of Some e \<Rightarrow> e | None \<Rightarrow> AZURE_ENCRYPTION) az)))) \<rparr>"

section \<open>gcp-kms\<close>

definition GCP_PROVIDER :: jstr where "GCP_PROVIDER = js ''gcp-kms''"
definition GCP_SIGNING :: jstr where "GCP_SIGNING = js ''RSA_SIGN_PSS_2048_SHA256''"

record 's gcp_client =
  gc_encrypt :: "jstr \<Rightarrow> bytes \<Rightarrow> ('s, bytes option) operation"
  gc_decrypt :: "jstr \<Rightarrow> bytes \<Rightarrow> ('s, bytes option) operation"
  gc_asymmetricSign :: "jstr \<Rightarrow> bytes \<Rightarrow> ('s, bytes option) operation"
  gc_getPublicKey :: "jstr \<Rightarrow> ('s, jstr option) operation"
  gc_createVersion :: "jstr \<Rightarrow> ('s, unit) operation"
  gc_disableVersion :: "jstr \<Rightarrow> ('s, unit) operation"

text \<open>\<^verbatim>\<open>/-----[A-Z ]+-----/\<close> at the head of a text: what follows the mark.\<close>

definition pem_mark :: "jstr \<Rightarrow> jstr option" where
  "pem_mark s =
     (if starts_with (js ''-----'') s
      then (let label = takeWhile (\<lambda>c. is_upper c \<or> c = 32) (drop 5 s);
                rest = drop (5 + length label) s
            in if label \<noteq> [] \<and> starts_with (js ''-----'') rest then Some (drop 5 rest) else None)
      else None)"

lemma pem_mark_shorter: "pem_mark s = Some r \<Longrightarrow> length r < length s"
  by (cases s) (auto simp: pem_mark_def Let_def starts_with_def js_def split: if_splits)

function strip_marks :: "jstr \<Rightarrow> jstr" where
  "strip_marks s =
     (case pem_mark s of
        Some r \<Rightarrow> strip_marks r
      | None \<Rightarrow> (case s of [] \<Rightarrow> [] | c # t \<Rightarrow> c # strip_marks t))"
  by auto
termination
  by (relation "measure length") (auto dest: pem_mark_shorter)

declare strip_marks.simps [simp del]

definition pemToBase64 :: "jstr \<Rightarrow> jstr" where
  "pemToBase64 pem = filter (\<lambda>c. \<not> is_space c) (strip_marks pem)"

text \<open>RSA-PSS unless the label says PKCS1 and not PSS.\<close>

definition label_pss :: "jstr \<Rightarrow> bool" where
  "label_pss alg \<longleftrightarrow> contains_text (js ''PSS'') (upper alg) \<or> \<not> contains_text (js ''PKCS1'') (upper alg)"

definition verifyWithPublicKey ::
  "base64 \<Rightarrow> 'k web_crypto \<Rightarrow> jstr \<Rightarrow> bytes \<Rightarrow> bytes \<Rightarrow> jstr \<Rightarrow> failure + bool" where
  "verifyWithPublicKey b wc pem message signature alg =
     (let params = (if label_pss alg then RsaPss 32 else RsaPkcs1)
      in and_then (fromBase64 b (pemToBase64 pem)) (\<lambda>der.
         and_then (thrown (wc_importKey wc Spki der params [Verify])) (\<lambda>key.
           thrown (wc_verify wc params key signature message))))"

definition gcp_api :: "base64 \<Rightarrow> 'k web_crypto \<Rightarrow> 's gcp_client \<Rightarrow> 's kms_api" where
  "gcp_api b wc gc =
     \<lparr> ka_encrypt = (\<lambda>keyId plaintext. chain (gc_encrypt gc keyId plaintext) (\<lambda>c. settled (Inr (blob c)))),
       ka_decrypt = (\<lambda>ciphertext keyId. chain (gc_decrypt gc keyId ciphertext) (\<lambda>t. settled (Inr (blob t)))),
       ka_sign = (\<lambda>keyId message alg.
         chain (settled (thrown (wc_digest wc message))) (\<lambda>digest.
         chain (gc_asymmetricSign gc keyId digest) (\<lambda>s. settled (Inr (blob s))))),
       ka_verify = (\<lambda>keyId message signature alg.
         chain (gc_getPublicKey gc keyId) (\<lambda>pem.
           settled (if pem = None \<or> pem = Some [] then Inl (OtherFailure (js ''gcp-kms: no public key available to verify''))
             else verifyWithPublicKey b wc (the pem) message signature alg))),
       ka_describeKey = (\<lambda>keyId.
         handle (chain (gc_getPublicKey gc keyId) (\<lambda>pem.
             settled (Inr \<lparr> kx_keyId = keyId, kx_keyRef = Some keyId,
               kx_publicKey = (if pem = None \<or> pem = Some [] then None else Some (pemToBase64 (the pem))) \<rparr>)))
           (\<lambda>e. settled (Inr \<lparr> kx_keyId = keyId, kx_keyRef = Some keyId, kx_publicKey = None \<rparr>))),
       ka_disableKey = (\<lambda>keyId. gc_disableVersion gc keyId),
       ka_rotateKey = (\<lambda>keyId. gc_createVersion gc keyId) \<rparr>"

definition gcp_provider ::
  "base64 \<Rightarrow> 'k web_crypto \<Rightarrow> jstr option \<Rightarrow> ('s, 's gcp_client) operation \<Rightarrow> 's kms_provider" where
  "gcp_provider b wc alg load =
     \<lparr> kp_provider = GCP_PROVIDER, kp_signing = (case alg of Some a \<Rightarrow> a | None \<Rightarrow> GCP_SIGNING),
       kp_createApi = chain load (\<lambda>gc. settled (Inr (gcp_api b wc gc))) \<rparr>"

section \<open>Concurrent callers\<close>

text \<open>
  \<open>resolveApi\<close> above is one caller that waits.  Here the callers interleave: \<open>#api\<close>, \<open>#apiInitialization\<close> (the
  attempt in flight, by its number), and for each call what it was answered: the adapter, or the attempt it joined.
\<close>

datatype 'a attempt = Creating | Created 'a | CreateFailed failure

datatype 'a api_answer = Ready 'a | Joined nat

record 'a api_cell =
  ac_api :: "'a option"
  ac_init :: "nat option"
  ac_attempts :: "'a attempt list"
  ac_answers :: "'a api_answer list"

definition newCell :: "'a option \<Rightarrow> 'a api_cell" where
  "newCell injected = \<lparr> ac_api = injected, ac_init = None, ac_attempts = [], ac_answers = [] \<rparr>"

definition cell_call :: "'a api_cell \<Rightarrow> 'a api_cell" where
  "cell_call c =
     (case ac_api c of
        Some a \<Rightarrow> c\<lparr>ac_answers := ac_answers c @ [Ready a]\<rparr>
      | None \<Rightarrow>
          (case ac_init c of
             Some i \<Rightarrow> c\<lparr>ac_answers := ac_answers c @ [Joined i]\<rparr>
           | None \<Rightarrow>
               (let i = length (ac_attempts c)
                in c\<lparr>ac_init := Some i, ac_attempts := ac_attempts c @ [Creating],
                     ac_answers := ac_answers c @ [Joined i]\<rparr>)))"

text \<open>The two handlers of \<open>then\<close>, for attempt \<open>i\<close>.\<close>

definition cell_settles :: "nat \<Rightarrow> failure + 'a \<Rightarrow> 'a api_cell \<Rightarrow> 'a api_cell" where
  "cell_settles i r c =
     (case r of
        Inr a \<Rightarrow> c\<lparr>ac_api := Some a, ac_init := None, ac_attempts := (ac_attempts c)[i := Created a]\<rparr>
      | Inl e \<Rightarrow> c\<lparr>ac_init := None, ac_attempts := (ac_attempts c)[i := CreateFailed e]\<rparr>)"

datatype 'a cell_event = Resolve | Settles nat "failure + 'a"

fun cell_exec :: "'a api_cell \<Rightarrow> 'a cell_event \<Rightarrow> 'a api_cell option" where
  "cell_exec c Resolve = Some (cell_call c)"
| "cell_exec c (Settles i r) =
     (if i < length (ac_attempts c) \<and> (case ac_attempts c ! i of Creating \<Rightarrow> True | _ \<Rightarrow> False)
      then Some (cell_settles i r c) else None)"

end
