(* ===== verification/Encrypt_Kms_Facts.thy ===== *)
theory Encrypt_Kms_Facts
  imports Encrypt_Kms
begin

text \<open>
  What the cloud providers promise: the adapter is made once and shared, text encrypted under a managed key
  decrypts to itself, signatures verify, each under what the code relies on of the service.
\<close>

section \<open>One adapter\<close>

definition made :: "'a attempt \<Rightarrow> bool" where
  "made t \<longleftrightarrow> (case t of Created a \<Rightarrow> True | _ \<Rightarrow> False)"

lemma made_simps [simp]: "made (Created a)" "\<not> made Creating" "\<not> made (CreateFailed e)"
  by (simp_all add: made_def)

text \<open>
  The attempt in flight is the only one that has not settled, and there is none once there is an adapter; at most
  one attempt made an adapter, the one every call gets.
\<close>

definition cell_inv :: "'a api_cell \<Rightarrow> bool" where
  "cell_inv c \<longleftrightarrow>
     (\<forall>i < length (ac_attempts c). ac_attempts c ! i = Creating \<longleftrightarrow> ac_init c = Some i) \<and>
     (\<forall>i. ac_init c = Some i \<longrightarrow> i < length (ac_attempts c) \<and> ac_api c = None) \<and>
     (\<forall>a. Created a \<in> set (ac_attempts c) \<longrightarrow> ac_api c = Some a) \<and>
     length (filter made (ac_attempts c)) \<le> (if ac_api c = None then 0 else 1) \<and>
     (\<forall>x \<in> set (ac_answers c). case x of Ready a \<Rightarrow> ac_api c = Some a | Joined i \<Rightarrow> i < length (ac_attempts c))"

lemma made_update:
  "i < length ts \<Longrightarrow> ts ! i = Creating \<Longrightarrow>
   length (filter made (ts[i := t])) = length (filter made ts) + (if made t then 1 else 0)"
proof (induction ts arbitrary: i)
  case (Cons u ts)
  then show ?case by (cases i) auto
qed simp

lemma cell_call_inv: "cell_inv c \<Longrightarrow> cell_inv (cell_call c)"
  by (cases "ac_api c"; cases "ac_init c")
     (auto simp: cell_inv_def cell_call_def Let_def nth_append less_Suc_eq split: api_answer.splits)

lemma no_adapter_yet: "cell_inv c \<Longrightarrow> ac_api c = None \<Longrightarrow> filter made (ac_attempts c) = []"
  by (simp add: cell_inv_def)

lemma cell_settles_inv:
  assumes c: "cell_inv c" and i: "i < length (ac_attempts c)" "ac_attempts c ! i = Creating"
  shows "cell_inv (cell_settles i r c)"
proof -
  have p: "ac_init c = Some i" using c i by (simp add: cell_inv_def)
  then have api: "ac_api c = None" using c by (auto simp: cell_inv_def)
  have none: "\<not> made t" if "t \<in> set (ac_attempts c)" for t
    using no_adapter_yet [OF c api] that by (auto simp: filter_empty_conv)
  have new: "Created a \<in> set ((ac_attempts c)[i := t]) \<Longrightarrow> t = Created a" for a t
    using none set_update_subset_insert [of "ac_attempts c" i t] by fastforce
  have answers: "\<forall>x \<in> set (ac_answers c). case x of Ready a \<Rightarrow> False | Joined i \<Rightarrow> i < length (ac_attempts c)"
    using c api by (fastforce simp: cell_inv_def split: api_answer.splits)
  show ?thesis
  proof (cases r)
    case (Inl e)
    then show ?thesis using c i p api answers new [of _ "CreateFailed e"]
      by (auto simp: cell_inv_def cell_settles_def made_update nth_list_update split: api_answer.splits)
  next
    case (Inr a)
    then show ?thesis using c i p api answers new [of _ "Created a"] no_adapter_yet [OF c api]
      by (fastforce simp: cell_inv_def cell_settles_def made_update nth_list_update split: api_answer.splits)
  qed
qed

lemma new_cell_inv: "cell_inv (newCell injected)"
  by (simp add: cell_inv_def newCell_def)

interpretation adapters: event_system "\<lambda>c e d. cell_exec c e = Some d" "newCell injected" cell_inv
proof
  show "cell_inv (newCell injected)" by (rule new_cell_inv)
next
  fix c d :: "'a api_cell" and e
  assume "cell_inv c" "cell_exec c e = Some d"
  then show "cell_inv d"
    by (cases e) (auto intro: cell_call_inv cell_settles_inv split: if_splits attempt.splits)
qed

text \<open>An adapter, once there, stays.\<close>

lemma adapter_step:
  assumes "cell_inv c" "ac_api c = Some a" "cell_exec c e = Some d"
  shows "ac_api d = Some a"
proof (cases e)
  case (Settles i r)
  have "i < length (ac_attempts c)" "ac_attempts c ! i = Creating" "ac_init c = None"
    using assms Settles by (auto simp: cell_inv_def split: if_splits attempt.splits)
  then show ?thesis using assms(1) by (simp add: cell_inv_def)
next
  case Resolve
  then show ?thesis using assms by (auto simp: cell_call_def)
qed

lemma adapter_stays:
  "trace (\<lambda>c e d. cell_exec c e = Some d) c es d \<Longrightarrow> cell_inv c \<Longrightarrow> ac_api c = Some a \<Longrightarrow> ac_api d = Some a"
proof (induction rule: trace.induct)
  case (trace_snoc s es t e u)
  have "cell_inv t" using trace_snoc.hyps(1) trace_snoc.prems(1) by (rule adapters.trace_keeps)
  moreover have "ac_api t = Some a" using trace_snoc.IH trace_snoc.prems by simp
  ultimately show ?case using trace_snoc.hyps(2) by (rule adapter_step)
qed simp

text \<open>What a call ends with: the adapter it was given, or the outcome of the attempt it joined.\<close>

definition outcome_of :: "'a api_cell \<Rightarrow> 'a api_answer \<Rightarrow> (failure + 'a) option" where
  "outcome_of c x =
     (case x of
        Ready a \<Rightarrow> Some (Inr a)
      | Joined i \<Rightarrow> (case ac_attempts c ! i of Creating \<Rightarrow> None | Created a \<Rightarrow> Some (Inr a) | CreateFailed e \<Rightarrow> Some (Inl e)))"

text \<open>
  The adapter of a provider is made once.  Whatever the interleaving of callers and settling attempts: at most one
  attempt is in flight, at most one ever makes an adapter, none is started once there is one, and two calls that
  end well end with the same adapter.
\<close>

theorem one_adapter:
  assumes run: "trace (\<lambda>c e d. cell_exec c e = Some d) (newCell injected) es c"
  shows "\<forall>i j. i < length (ac_attempts c) \<longrightarrow> j < length (ac_attempts c) \<longrightarrow>
      ac_attempts c ! i = Creating \<longrightarrow> ac_attempts c ! j = Creating \<longrightarrow> i = j"
    and "length (filter made (ac_attempts c)) \<le> 1"
    and "\<forall>x \<in> set (ac_answers c). \<forall>a. outcome_of c x = Some (Inr a) \<longrightarrow> ac_api c = Some a"
    and "ac_api c = Some a \<Longrightarrow> ac_attempts (cell_call c) = ac_attempts c \<and> ac_answers (cell_call c) = ac_answers c @ [Ready a]"
proof -
  have c: "cell_inv c" by (rule adapters.reachable_inv [OF run])
  show "\<forall>i j. i < length (ac_attempts c) \<longrightarrow> j < length (ac_attempts c) \<longrightarrow>
      ac_attempts c ! i = Creating \<longrightarrow> ac_attempts c ! j = Creating \<longrightarrow> i = j"
    using c by (auto simp: cell_inv_def)
  show "length (filter made (ac_attempts c)) \<le> 1" using c by (auto simp: cell_inv_def split: if_splits)
  show "\<forall>x \<in> set (ac_answers c). \<forall>a. outcome_of c x = Some (Inr a) \<longrightarrow> ac_api c = Some a"
  proof (intro ballI allI impI)
    fix x a assume x: "x \<in> set (ac_answers c)" and o: "outcome_of c x = Some (Inr a)"
    have k: "case x of Ready a \<Rightarrow> ac_api c = Some a | Joined i \<Rightarrow> i < length (ac_attempts c)"
      using c x by (simp add: cell_inv_def)
    have given: "Created a \<in> set (ac_attempts c) \<Longrightarrow> ac_api c = Some a" using c by (simp add: cell_inv_def)
    show "ac_api c = Some a"
    proof (cases x)
      case (Ready b)
      then show ?thesis using k o by (simp add: outcome_of_def)
    next
      case (Joined i)
      then have "ac_attempts c ! i = Created a" using o by (simp add: outcome_of_def split: attempt.splits)
      then show ?thesis using k Joined nth_mem [of i "ac_attempts c"] given by simp
    qed
  qed
  show "ac_api c = Some a \<Longrightarrow> ac_attempts (cell_call c) = ac_attempts c \<and> ac_answers (cell_call c) = ac_answers c @ [Ready a]"
    by (simp add: cell_call_def)
qed

text \<open>A failed attempt is forgotten: the next call starts another.\<close>

lemma failure_retried:
  assumes "cell_inv c" "ac_init c = Some i"
  shows "ac_init (cell_call (cell_settles i (Inl e) c)) = Some (length (ac_attempts c))"
  using assms by (auto simp: cell_inv_def cell_settles_def cell_call_def Let_def)

text \<open>A caller alone: its call and the settling of the attempt it starts are \<open>resolveApi\<close>.\<close>

theorem resolve_refines:
  assumes "ks_api st = ac_api c" "ac_init c = None"
  shows "case resolveApi p st of (r, st') \<Rightarrow>
     (case ks_api st of
        Some api \<Rightarrow> r = Inr api \<and> st' = st \<and> ac_api (cell_call c) = ks_api st'
      | None \<Rightarrow> (case kp_createApi p (ks_service st) of (made_r, s) \<Rightarrow>
          r = made_r \<and> ks_service st' = s \<and>
          ac_api (cell_settles (length (ac_attempts c)) made_r (cell_call c)) = ks_api st'))"
  using assms by (auto simp: resolveApi_def on_service_def cell_call_def cell_settles_def Let_def
    split: option.splits sum.splits prod.splits)

section \<open>Ciphertexts\<close>

text \<open>
  What the logic above the adapters needs of a service that encrypts: under a usable key, what it encrypted it
  decrypts, in every later state in which the key still serves.
\<close>

locale managed_cipher =
  fixes enc :: "jstr \<Rightarrow> bytes \<Rightarrow> ('s, bytes) operation"
    and dec :: "bytes \<Rightarrow> jstr \<Rightarrow> ('s, bytes) operation"
    and usable :: "jstr \<Rightarrow> bool"
    and later :: "'s \<Rightarrow> 's \<Rightarrow> bool"
  assumes undoes: "usable k \<Longrightarrow> enc k p s = (Inr c, t) \<Longrightarrow> later t u \<Longrightarrow> fst (dec c k u) = Inr p"
begin

lemma text_returns:
  assumes api: "ka_encrypt api = enc" "ka_decrypt api = dec" "ks_api st = Some api"
    and base64: "\<And>x. b64_decode b (b64_encode b x) = Inr x"
    and out: "kms_encrypt b p k v sig st = (Inr out, st')"
    and wf: "well_formed v" "v = [] \<or> hd v \<noteq> 0xFEFF"
    and k: "usable k" "later (ks_service st') u"
  shows "fst (kms_decrypt b p k out Quiet (st'\<lparr>ks_service := u\<rparr>)) = Inr v"
proof -
  have v: "textOf (bytesOf v) = v" using wf by (simp add: textOf_def bytesOf_def utf8_round_trip)
  obtain c t where e: "enc k (bytesOf v) (ks_service st) = (Inr c, t)"
    and st': "out = toBase64 b c" "st' = st\<lparr>ks_service := t\<rparr>"
    using out api by (auto simp: kms_encrypt_def resolveApi_def on_service_def operation_defs
      split: signal.splits sum.splits prod.splits)
  have "fst (dec c k u) = Inr (bytesOf v)" using undoes [OF k(1) e] k(2) st' by simp
  then obtain w where "dec c k u = (Inr (bytesOf v), w)" by (metis prod.collapse)
  then show ?thesis using api st'
    by (simp add: kms_decrypt_def resolveApi_def on_service_def operation_defs v fromBase64_def toBase64_def base64)
qed

end

section \<open>Signatures\<close>

locale managed_signer =
  fixes sgn_op :: "jstr \<Rightarrow> bytes \<Rightarrow> jstr \<Rightarrow> ('s, bytes) operation"
    and ver :: "jstr \<Rightarrow> bytes \<Rightarrow> bytes \<Rightarrow> jstr \<Rightarrow> ('s, bool) operation"
    and suits :: "jstr \<Rightarrow> jstr \<Rightarrow> bool"
    and later :: "'s \<Rightarrow> 's \<Rightarrow> bool"
  assumes accepts: "suits k alg \<Longrightarrow> sgn_op k m alg s = (Inr g, t) \<Longrightarrow> later t u \<Longrightarrow> fst (ver k m g alg u) = Inr True"
begin

lemma signature_verifies:
  assumes api: "ka_sign api = sgn_op" "ka_verify api = ver" "ks_api st = Some api"
    and base64: "\<And>x. b64_decode b (b64_encode b x) = Inr x"
    and out: "kms_sign b p k m alg sig st = (Inr out, st')"
    and k: "suits k (signing_algorithm p alg)" "later (ks_service st') u"
  shows "fst (kms_verify b p k m out alg Quiet (st'\<lparr>ks_service := u\<rparr>)) = Inr True"
proof -
  obtain g t where e: "sgn_op k (bytesOf m) (signing_algorithm p alg) (ks_service st) = (Inr g, t)"
    and st': "out = toBase64 b g" "st' = st\<lparr>ks_service := t\<rparr>"
    using out api by (auto simp: kms_sign_def resolveApi_def on_service_def operation_defs
      split: signal.splits sum.splits prod.splits)
  have "fst (ver k (bytesOf m) g (signing_algorithm p alg) u) = Inr True"
    using accepts [OF k(1) e] k(2) st' by simp
  then obtain w where "ver k (bytesOf m) g (signing_algorithm p alg) u = (Inr True, w)" by (metis prod.collapse)
  then show ?thesis using api st'
    by (simp add: kms_verify_def resolveApi_def on_service_def operation_defs fromBase64_def toBase64_def base64)
qed

end

section \<open>The adapters\<close>

text \<open>Each adapter keeps the contract when its SDK does.\<close>

lemma aws_cipher:
  assumes "\<And>k p s x t u. send (AwsEncrypt k p) s = (Inr x, t) \<Longrightarrow> later t u \<Longrightarrow>
    \<exists>y w. send (AwsDecrypt (blob (ao_CiphertextBlob x)) k) u = (Inr y, w) \<and> ao_Plaintext y = Some p"
  shows "managed_cipher (ka_encrypt (aws_api b send)) (ka_decrypt (aws_api b send)) (\<lambda>k. True) later"
proof
  fix k p s c t u
  assume "ka_encrypt (aws_api b send) k p s = (Inr c, t)" and l: "later t u"
  then obtain x where "send (AwsEncrypt k p) s = (Inr x, t)" and c: "c = blob (ao_CiphertextBlob x)"
    by (auto simp: aws_api_def operation_defs split: sum.splits prod.splits)
  then obtain y w where "send (AwsDecrypt c k) u = (Inr y, w)" "ao_Plaintext y = Some p" using assms l by blast
  then show "fst (ka_decrypt (aws_api b send) c k u) = Inr p" by (simp add: aws_api_def operation_defs blob_def)
qed

lemma azure_cipher:
  assumes "\<And>k p s c t u. az_encrypt az k e p s = (Inr c, t) \<Longrightarrow> later t u \<Longrightarrow> fst (az_decrypt az k e c u) = Inr p"
  shows "managed_cipher (ka_encrypt (azure_api e az)) (ka_decrypt (azure_api e az)) (\<lambda>k. k \<noteq> []) later"
  by standard (auto simp: azure_api_def dest: assms)

lemma gcp_cipher:
  assumes "\<And>k p s c t u. gc_encrypt gc k p s = (Inr c, t) \<Longrightarrow> later t u \<Longrightarrow> fst (gc_decrypt gc k (blob c) u) = Inr (Some p)"
  shows "managed_cipher (ka_encrypt (gcp_api b wc gc)) (ka_decrypt (gcp_api b wc gc)) (\<lambda>k. True) later"
proof
  fix k p s c t u
  assume "ka_encrypt (gcp_api b wc gc) k p s = (Inr c, t)" and l: "later t u"
  then obtain x where x: "gc_encrypt gc k p s = (Inr x, t)" and c: "c = blob x"
    by (auto simp: gcp_api_def operation_defs split: sum.splits prod.splits)
  have "fst (gc_decrypt gc k c u) = Inr (Some p)" using assms [OF x l] c by simp
  then show "fst (ka_decrypt (gcp_api b wc gc) c k u) = Inr p"
    by (cases "gc_decrypt gc k c u") (simp add: gcp_api_def operation_defs blob_def)
qed

lemma aws_signer:
  assumes "\<And>k m alg s x t u. send (AwsSign k m alg) s = (Inr x, t) \<Longrightarrow> later t u \<Longrightarrow>
    \<exists>y w. send (AwsVerify k m (blob (ao_Signature x)) alg) u = (Inr y, w) \<and> ao_SignatureValid y"
  shows "managed_signer (ka_sign (aws_api b send)) (ka_verify (aws_api b send)) (\<lambda>k alg. True) later"
proof
  fix k m alg s g t u
  assume "ka_sign (aws_api b send) k m alg s = (Inr g, t)" and l: "later t u"
  then obtain x where "send (AwsSign k m alg) s = (Inr x, t)" and g: "g = blob (ao_Signature x)"
    by (auto simp: aws_api_def operation_defs split: sum.splits prod.splits)
  then obtain y w where "send (AwsVerify k m g alg) u = (Inr y, w)" "ao_SignatureValid y" using assms l by blast
  then show "fst (ka_verify (aws_api b send) k m g alg u) = Inr True" by (simp add: aws_api_def operation_defs)
qed

lemma azure_signer:
  assumes "\<And>k m alg s g t u. az_signData az k alg m s = (Inr g, t) \<Longrightarrow> later t u \<Longrightarrow> fst (az_verifyData az k alg m g u) = Inr True"
  shows "managed_signer (ka_sign (azure_api e az)) (ka_verify (azure_api e az)) (\<lambda>k alg. True) later"
  by standard (auto simp: azure_api_def dest: assms)

text \<open>
  The GCP adapter verifies on its own, with the scheme it reads off the label: it keeps the contract only for the
  labels of the scheme of the key version.
\<close>

definition label_scheme :: "jstr \<Rightarrow> algorithm" where
  "label_scheme alg = (if label_pss alg then RsaPss 32 else RsaPkcs1)"

lemma gcp_signer:
  assumes "\<And>k m d s g t u. wc_digest wc m = Inr d \<Longrightarrow> gc_asymmetricSign gc k d s = (Inr g, t) \<Longrightarrow> later t u \<Longrightarrow>
    \<exists>pem w der key. gc_getPublicKey gc k u = (Inr (Some pem), w) \<and> pem \<noteq> [] \<and> fromBase64 b (pemToBase64 pem) = Inr der \<and>
      wc_importKey wc Spki der (scheme k) [Verify] = Inr key \<and> wc_verify wc (scheme k) key (blob g) m = Inr True"
  shows "managed_signer (ka_sign (gcp_api b wc gc)) (ka_verify (gcp_api b wc gc)) (\<lambda>k alg. label_scheme alg = scheme k) later"
proof
  fix k alg m s g t u
  assume scheme: "label_scheme alg = scheme k" and l: "later t u"
  assume "ka_sign (gcp_api b wc gc) k m alg s = (Inr g, t)"
  then obtain d x where d: "wc_digest wc m = Inr d" "gc_asymmetricSign gc k d s = (Inr x, t)" and g: "g = blob x"
    by (cases "wc_digest wc m") (auto simp: gcp_api_def operation_defs split: sum.splits prod.splits)
  obtain pem w der key where "gc_getPublicKey gc k u = (Inr (Some pem), w)" "pem \<noteq> []"
    "fromBase64 b (pemToBase64 pem) = Inr der" "wc_importKey wc Spki der (scheme k) [Verify] = Inr key"
    "wc_verify wc (scheme k) key g m = Inr True"
    using assms [OF d l] g by blast
  then show "fst (ka_verify (gcp_api b wc gc) k m g alg u) = Inr True"
    by (simp add: gcp_api_def operation_defs verifyWithPublicKey_def label_scheme_def [symmetric] scheme)
qed

section \<open>PEM\<close>

lemma no_mark: "c \<noteq> 45 \<Longrightarrow> pem_mark (c # s) = None"
  by (simp add: pem_mark_def starts_with_def js_def)

lemma strip_plain: "45 \<notin> set s \<Longrightarrow> strip_marks (s @ t) = s @ strip_marks t"
proof (induction s)
  case (Cons c s)
  then have "pem_mark (c # s @ t) = None" by (intro no_mark) auto
  then show ?case using Cons by (simp add: strip_marks.simps [of "c # s @ t"])
qed simp

lemma strip_mark:
  assumes "label \<noteq> []" "list_all (\<lambda>c. is_upper c \<or> c = 32) label"
  shows "strip_marks (js ''-----'' @ label @ js ''-----'' @ t) = strip_marks t"
proof -
  have dash: "\<not> is_upper 45" by (simp add: is_upper_def)
  then have "takeWhile (\<lambda>c. is_upper c \<or> c = 32) (label @ js ''-----'' @ t) = label"
    using assms(2) by (subst takeWhile_append2) (auto simp: list_all_iff js_def)
  then have "pem_mark (js ''-----'' @ label @ js ''-----'' @ t) = Some t"
    using assms(1) by (simp add: pem_mark_def Let_def starts_with_def)
  then show ?thesis by (subst strip_marks.simps) simp
qed

text \<open>A PEM block, split over lines, reads back as the Base64 text it holds.\<close>

theorem pem_body:
  assumes "45 \<notin> set body" "list_all is_space gap" "45 \<notin> set gap"
  shows "pemToBase64 (js ''-----BEGIN PUBLIC KEY-----'' @ gap @ body @ gap @ js ''-----END PUBLIC KEY-----'' @ gap) =
    filter (\<lambda>c. \<not> is_space c) body"
proof -
  have b: "strip_marks (js ''-----BEGIN PUBLIC KEY-----'' @ t) = strip_marks t" for t
    using strip_mark [of "js ''BEGIN PUBLIC KEY''" t] by (simp add: js_def is_upper_def)
  have e: "strip_marks (js ''-----END PUBLIC KEY-----'' @ t) = strip_marks t" for t
    using strip_mark [of "js ''END PUBLIC KEY''" t] by (simp add: js_def is_upper_def)
  have n: "strip_marks gap = gap"
    using strip_plain [OF assms(3), of "[]"] by (simp add: strip_marks.simps [of "[]"] pem_mark_def starts_with_def js_def)
  have "filter (\<lambda>c. \<not> is_space c) gap = []" using assms(2) by (simp add: filter_empty_conv list_all_iff)
  then show ?thesis
    by (simp add: pemToBase64_def b e n strip_plain [OF assms(1)] strip_plain [OF assms(3)])
qed

section \<open>Instances\<close>

text \<open>Services that keep one key: the state is \<open>unit\<close>.\<close>

definition no_output :: aws_output where
  "no_output = \<lparr> ao_CiphertextBlob = None, ao_Plaintext = None, ao_Signature = None, ao_SignatureValid = False,
     ao_KeyId = None, ao_Arn = None, ao_PublicKey = None \<rparr>"

fun sample_send :: "unit aws_client" where
  "sample_send (AwsEncrypt k p) = settled (Inr (no_output\<lparr>ao_CiphertextBlob := Some (9 # p)\<rparr>))"
| "sample_send (AwsDecrypt c k) = settled (Inr (no_output\<lparr>ao_Plaintext := Some (tl c)\<rparr>))"
| "sample_send (AwsSign k m alg) = settled (Inr (no_output\<lparr>ao_Signature := Some (8 # m)\<rparr>))"
| "sample_send (AwsVerify k m g alg) = settled (Inr (no_output\<lparr>ao_SignatureValid := (g = 8 # m)\<rparr>))"
| "sample_send _ = settled (Inr no_output)"

definition sample_azure :: "unit azure_client" where
  "sample_azure =
     \<lparr> az_encrypt = (\<lambda>k e p. settled (Inr (9 # p))), az_decrypt = (\<lambda>k e c. settled (Inr (tl c))),
       az_signData = (\<lambda>k alg m. settled (Inr (8 # m))), az_verifyData = (\<lambda>k alg m g. settled (Inr (g = 8 # m))),
       az_getKey = (\<lambda>k. settled (Inr (k, None))), az_rotateKey = (\<lambda>k. settled (Inr ())), az_setEnabled = (\<lambda>k on. settled (Inr ())) \<rparr>"

text \<open>A key version of PKCS #1: a runtime whose verification depends on the scheme.\<close>

definition sample_gcp :: "unit gcp_client" where
  "sample_gcp =
     \<lparr> gc_encrypt = (\<lambda>k p. settled (Inr (Some (9 # p)))), gc_decrypt = (\<lambda>k c. settled (Inr (Some (tl c)))),
       gc_asymmetricSign = (\<lambda>k d. settled (Inr (Some (1 # d)))), gc_getPublicKey = (\<lambda>k. settled (Inr (Some (js ''key'')))),
       gc_createVersion = (\<lambda>k. settled (Inr ())), gc_disableVersion = (\<lambda>k. settled (Inr ())) \<rparr>"

definition pkcs1_crypto :: "bytes web_crypto" where
  "pkcs1_crypto = plain_crypto\<lparr>wc_verify := (\<lambda>alg k g m. Inr (alg = RsaPkcs1 \<and> g = 1 # m))\<rparr>"

interpretation aws_texts: managed_cipher "ka_encrypt (aws_api plain_base64 sample_send)"
    "ka_decrypt (aws_api plain_base64 sample_send)" "\<lambda>k. True" "(=)"
  by (rule aws_cipher) (auto simp: settled_def blob_def)

interpretation azure_texts: managed_cipher "ka_encrypt (azure_api AZURE_ENCRYPTION sample_azure)"
    "ka_decrypt (azure_api AZURE_ENCRYPTION sample_azure)" "\<lambda>k. k \<noteq> []" "(=)"
  by (rule azure_cipher) (auto simp: settled_def sample_azure_def)

interpretation gcp_texts: managed_cipher "ka_encrypt (gcp_api plain_base64 pkcs1_crypto sample_gcp)"
    "ka_decrypt (gcp_api plain_base64 pkcs1_crypto sample_gcp)" "\<lambda>k. True" "(=)"
  by (rule gcp_cipher) (auto simp: settled_def sample_gcp_def blob_def)

interpretation aws_signatures: managed_signer "ka_sign (aws_api plain_base64 sample_send)"
    "ka_verify (aws_api plain_base64 sample_send)" "\<lambda>k alg. True" "(=)"
  by (rule aws_signer) (auto simp: settled_def blob_def)

interpretation azure_signatures: managed_signer "ka_sign (azure_api AZURE_ENCRYPTION sample_azure)"
    "ka_verify (azure_api AZURE_ENCRYPTION sample_azure)" "\<lambda>k alg. True" "(=)"
  by (rule azure_signer) (auto simp: settled_def sample_azure_def)

interpretation gcp_signatures: managed_signer "ka_sign (gcp_api plain_base64 pkcs1_crypto sample_gcp)"
    "ka_verify (gcp_api plain_base64 pkcs1_crypto sample_gcp)" "\<lambda>k alg. label_scheme alg = RsaPkcs1" "(=)"
proof (rule gcp_signer [where scheme = "\<lambda>k. RsaPkcs1"])
  fix k m d g and s t u :: unit
  assume "wc_digest pkcs1_crypto m = Inr d" "gc_asymmetricSign sample_gcp k d s = (Inr g, t)"
  then have "blob g = 1 # m" by (auto simp: settled_def sample_gcp_def pkcs1_crypto_def plain_crypto_def blob_def)
  then show "\<exists>pem w der key. gc_getPublicKey sample_gcp k u = (Inr (Some pem), w) \<and> pem \<noteq> [] \<and>
      fromBase64 plain_base64 (pemToBase64 pem) = Inr der \<and> wc_importKey pkcs1_crypto Spki der RsaPkcs1 [Verify] = Inr key \<and>
      wc_verify pkcs1_crypto RsaPkcs1 key (blob g) m = Inr True"
    by (simp add: settled_def sample_gcp_def pkcs1_crypto_def plain_crypto_def fromBase64_def plain_base64_def js_def)
qed

section \<open>Properties\<close>

text \<open>
  A text encrypted by a cloud provider decrypts to itself, in any later state in which the key serves, when the
  service decrypts what it encrypted.
\<close>

theorem kms_round_trip:
  assumes "managed_cipher (ka_encrypt api) (ka_decrypt api) usable later" "ks_api st = Some api"
    and "\<And>x. b64_decode b (b64_encode b x) = Inr x"
    and "kms_encrypt b p k v sig st = (Inr out, st')"
    and "well_formed v" "v = [] \<or> hd v \<noteq> 0xFEFF" "usable k" "later (ks_service st') u"
  shows "fst (kms_decrypt b p k out Quiet (st'\<lparr>ks_service := u\<rparr>)) = Inr v"
  by (rule managed_cipher.text_returns [OF assms(1) refl refl assms(2-8)])

theorem kms_signatures:
  assumes "managed_signer (ka_sign api) (ka_verify api) suits later" "ks_api st = Some api"
    and "\<And>x. b64_decode b (b64_encode b x) = Inr x"
    and "kms_sign b p k m alg sig st = (Inr out, st')"
    and "suits k (signing_algorithm p alg)" "later (ks_service st') u"
  shows "fst (kms_verify b p k m out alg Quiet (st'\<lparr>ks_service := u\<rparr>)) = Inr True"
  by (rule managed_signer.signature_verifies [OF assms(1) refl refl assms(2-6)])

text \<open>
  The label decides what the GCP provider verifies: what a PKCS #1 key version signs under the default label is
  refused by the same provider.
\<close>

lemma default_label_pss: "label_pss GCP_SIGNING"
  by code_simp

lemma gcp_label_decides:
  defines "p \<equiv> gcp_provider plain_base64 pkcs1_crypto None (settled (Inr sample_gcp))"
  shows "\<exists>g st. kms_sign plain_base64 p (js ''k'') (js ''m'') None Quiet (new_kms_state None ()) = (Inr g, st) \<and>
    fst (kms_verify plain_base64 p (js ''k'') (js ''m'') g None Quiet st) = Inr False"
  by (simp add: p_def gcp_provider_def kms_sign_def kms_verify_def resolveApi_def new_kms_state_def on_service_def
    operation_defs gcp_api_def sample_gcp_def pkcs1_crypto_def plain_crypto_def verifyWithPublicKey_def fromBase64_def
    toBase64_def plain_base64_def signing_algorithm_def default_label_pss blob_def js_def)

text \<open>The Azure provider never has public material to return.\<close>

lemma azure_no_public_key:
  assumes "ks_api st = Some (azure_api e az)" "kms_getKey p k sig st = (Inr d, st')"
  shows "kd_publicKey d = []"
  using assms by (auto simp: kms_getKey_def kms_describe_def azure_api_def resolveApi_def on_service_def operation_defs
    toKeyData_def split: signal.splits sum.splits prod.splits)

end
