(* ===== verification/Wasm_Native.thy ===== *)
theory Wasm_Native
  imports Wasm_Runtime Encrypt_Common
begin

text \<open>
  The native implementation of the eight portable operations, \<^verbatim>\<open>src/wasm/native.ts\<close>, and its parity
  qualification.  Payloads and results are JSON values; Web Crypto and Base64 are the runtime's.
\<close>

section \<open>Limits and failures\<close>

definition GOFORGE_NATIVE_ADAPTER_NAME :: jstr where
  "GOFORGE_NATIVE_ADAPTER_NAME = js ''native.deno.portable''"

definition native_maxBinaryBytes :: int where "native_maxBinaryBytes = 512 * 1024"
definition native_maxStringBytes :: int where "native_maxStringBytes = 64 * 1024"
definition AES_GCM_NONCE_BYTES :: int where "AES_GCM_NONCE_BYTES = 12"
definition AES_GCM_TAG_BYTES :: int where "AES_GCM_TAG_BYTES = 16"
definition MINIMUM_HMAC_KEY_BYTES :: int where "MINIMUM_HMAC_KEY_BYTES = 16"

text \<open>A \<open>PayloadError\<close> with its code and field, or what the runtime or the codec throws.\<close>

datatype native_failure =
    PayloadError jstr "jstr option"
  | WasmThrown wasm_error
  | RuntimeThrown jstr

fun from_runtime :: "jstr + 'a \<Rightarrow> native_failure + 'a" where
  "from_runtime (Inl m) = Inl (RuntimeThrown m)"
| "from_runtime (Inr x) = Inr x"

fun from_codec :: "wasm_error + 'a \<Rightarrow> native_failure + 'a" where
  "from_codec (Inl e) = Inl (WasmThrown e)"
| "from_codec (Inr x) = Inr x"

definition payload_error :: "string \<Rightarrow> jstr \<Rightarrow> native_failure + 'a" where
  "payload_error code fld = Inl (PayloadError (js code) (Some fld))"

definition payload_fails :: "string \<Rightarrow> native_failure + 'a" where
  "payload_fails code = Inl (PayloadError (js code) None)"

text \<open>\<^verbatim>\<open>if (c) throw ...\<close>\<close>

definition unless :: "bool \<Rightarrow> native_failure + unit \<Rightarrow> native_failure + unit" where
  "unless bad failure = (if bad then failure else Inr ())"

section \<open>Payload decoding\<close>

definition payload_object :: "jval \<Rightarrow> jstr list \<Rightarrow> jstr list \<Rightarrow> native_failure + jobj" where
  "payload_object payload required optionals =
     (case payload of
        JObj ob \<Rightarrow>
          (if \<exists>k \<in> set (keys_of ob). k \<notin> set required \<union> set optionals then payload_fails ''unknown_field''
           else
             (case find (\<lambda>k. k \<notin> set (keys_of ob) \<or> obj_get ob k = JNull) required of
                Some k \<Rightarrow> payload_error ''invalid_request'' (js ''payload.'' @ k)
              | None \<Rightarrow> Inr ob))
      | _ \<Rightarrow> payload_error ''invalid_json'' (js ''payload''))"

definition payload_text :: "jobj \<Rightarrow> jstr \<Rightarrow> native_failure + jstr" where
  "payload_text ob k = (case obj_get ob k of JStr s \<Rightarrow> Inr s | _ \<Rightarrow> payload_fails ''invalid_json'')"

definition payload_flag :: "jobj \<Rightarrow> jstr \<Rightarrow> native_failure + bool" where
  "payload_flag ob k =
     (case obj_get ob k of JUndef \<Rightarrow> Inr False | JNull \<Rightarrow> Inr False | JBool b \<Rightarrow> Inr b | _ \<Rightarrow> payload_fails ''invalid_json'')"

definition payload_integer :: "jobj \<Rightarrow> jstr \<Rightarrow> native_failure + int" where
  "payload_integer ob k =
     (case obj_get ob k of
        JUndef \<Rightarrow> Inr 0
      | JNull \<Rightarrow> Inr 0
      | JNum r \<Rightarrow> if rat_is_int r then Inr \<lfloor>r\<rfloor> else payload_fails ''invalid_json''
      | _ \<Rightarrow> payload_fails ''invalid_json'')"

definition optionalText :: "jobj \<Rightarrow> jstr \<Rightarrow> native_failure + jstr" where
  "optionalText ob k =
     (case obj_get ob k of JUndef \<Rightarrow> Inr [] | JNull \<Rightarrow> Inr [] | JStr s \<Rightarrow> Inr s | _ \<Rightarrow> payload_fails ''invalid_json'')"

section \<open>Binary values\<close>

definition encodedLength :: "int \<Rightarrow> int" where
  "encodedLength n = (n + 2) div 3 * 4"

text \<open>\<^verbatim>\<open>/^[A-Za-z0-9+/]*={0,2}$/\<close>\<close>

definition loose_base64 :: "jstr \<Rightarrow> bool" where
  "loose_base64 s = (let tail = dropWhile is_b64 s in tail = [] \<or> tail = [61] \<or> tail = [61, 61])"

definition native_binary :: "base64 \<Rightarrow> jstr \<Rightarrow> jstr \<Rightarrow> int \<Rightarrow> native_failure + bytes" where
  "native_binary b encoded fld maxBytes =
     (if int (length encoded) > encodedLength maxBytes then payload_error ''input_too_large'' fld
      else if length encoded mod 4 \<noteq> 0 \<or> \<not> loose_base64 encoded then payload_error ''invalid_base64'' fld
      else
        (case b64_decode b encoded of
           Inl _ \<Rightarrow> payload_error ''invalid_base64'' fld
         | Inr decoded \<Rightarrow>
             if b64_encode b decoded \<noteq> encoded then payload_error ''invalid_base64'' fld
             else if int (length decoded) > maxBytes then payload_error ''input_too_large'' fld
             else Inr decoded))"

section \<open>Code points\<close>

text \<open>The lone-surrogate pattern, with what stands before the position.\<close>

fun lone_surrogate :: "bool \<Rightarrow> jstr \<Rightarrow> bool" where
  "lone_surrogate after_high [] = False"
| "lone_surrogate after_high (c # s) =
     ((is_high c \<and> \<not> (s \<noteq> [] \<and> is_low (hd s))) \<or> (is_low c \<and> \<not> after_high) \<or> lone_surrogate (is_high c) s)"

definition assertUtf8 :: "jstr \<Rightarrow> jstr \<Rightarrow> native_failure + unit" where
  "assertUtf8 v fld = unless (lone_surrogate False v) (payload_error ''invalid_utf8'' fld)"

text \<open>\<^verbatim>\<open>[...value]\<close>: the characters of a text.\<close>

fun runes :: "jstr \<Rightarrow> jstr list" where
  "runes [] = []"
| "runes [c] = [[c]]"
| "runes (c # d # s) = (if is_high c \<and> is_low d then [c, d] # runes s else [c] # runes (d # s))"

definition codePoint :: "jstr \<Rightarrow> int" where
  "codePoint r =
     (case r of
        c # d # _ \<Rightarrow> if is_high c \<and> is_low d then 0x10000 + (uint c - 0xD800) * 0x400 + (uint d - 0xDC00) else uint c
      | [c] \<Rightarrow> uint c
      | [] \<Rightarrow> 0)"

definition isGoSpace :: "int \<Rightarrow> bool" where
  "isGoSpace p \<longleftrightarrow>
     p \<in> {0x09, 0x0A, 0x0B, 0x0C, 0x0D, 0x20, 0x85, 0xA0, 0x1680, 0x2028, 0x2029, 0x202F, 0x205F, 0x3000} \<or>
     (0x2000 \<le> p \<and> p \<le> 0x200A)"

definition isGoControl :: "int \<Rightarrow> bool" where
  "isGoControl p \<longleftrightarrow> p < 0x20 \<or> (0x7F \<le> p \<and> p \<le> 0x9F)"

definition rune_space :: "jstr \<Rightarrow> bool" where
  "rune_space r = isGoSpace (codePoint r)"

section \<open>text.normalize\<close>

definition trimGoSpace :: "jstr \<Rightarrow> jstr" where
  "trimGoSpace v = concat (rev (dropWhile rune_space (rev (dropWhile rune_space (runes v)))))"

fun collapse :: "bool \<Rightarrow> jstr list \<Rightarrow> jstr" where
  "collapse inWhitespace [] = []"
| "collapse inWhitespace (r # rs) =
     (if rune_space r then (if inWhitespace then [] else [32]) @ collapse True rs
      else r @ collapse False rs)"

definition collapseWhitespace :: "jstr \<Rightarrow> jstr" where
  "collapseWhitespace v = collapse False (runes v)"

definition lower_rune :: "jstr \<Rightarrow> jstr" where
  "lower_rune r = (if 0x41 \<le> codePoint r \<and> codePoint r \<le> 0x5A then utf16_point (codePoint r + 0x20) else r)"

definition lowercaseAscii :: "jstr \<Rightarrow> jstr" where
  "lowercaseAscii v = concat (map lower_rune (runes v))"

definition normalize_text :: "bool \<Rightarrow> bool \<Rightarrow> bool \<Rightarrow> jstr \<Rightarrow> jstr" where
  "normalize_text trims collapses lowers v =
     (let v1 = (if trims then trimGoSpace v else v);
          v2 = (if collapses then collapseWhitespace v1 else v1)
      in if lowers then lowercaseAscii v2 else v2)"

definition normalize :: "jval \<Rightarrow> native_failure + jval" where
  "normalize payload =
     and_then (payload_object payload [js ''value''] [js ''trim'', js ''collapse_whitespace'', js ''lowercase_ascii'']) (\<lambda>input.
     and_then (payload_text input (js ''value'')) (\<lambda>v.
     and_then (assertUtf8 v (js ''payload.value'')) (\<lambda>_.
     and_then (unless (byte_length v > native_maxStringBytes) (payload_error ''input_too_large'' (js ''payload.value''))) (\<lambda>_.
     and_then (payload_flag input (js ''trim'')) (\<lambda>trims.
     and_then (payload_flag input (js ''collapse_whitespace'')) (\<lambda>collapses.
     and_then (payload_flag input (js ''lowercase_ascii'')) (\<lambda>lowers.
       Inr (JObj [(js ''value'', JStr (normalize_text trims collapses lowers v))]))))))))"

section \<open>text.validate\<close>

record text_rules =
  tr_required :: bool
  tr_ascii :: bool
  tr_forbid_control :: bool
  tr_forbid_whitespace :: bool
  tr_minBytes :: int
  tr_maxBytes :: int
  tr_minRunes :: int
  tr_maxRunes :: int
  tr_prefix :: jstr
  tr_suffix :: jstr

definition rule_names :: "jstr list" where
  "rule_names = [js ''required'', js ''ascii'', js ''forbid_control'', js ''forbid_whitespace'', js ''min_bytes'',
     js ''max_bytes'', js ''min_runes'', js ''max_runes'', js ''prefix'', js ''suffix'']"

text \<open>Each check with its code, in the order of the code.\<close>

definition checks :: "text_rules \<Rightarrow> jstr \<Rightarrow> (bool \<times> string) list" where
  "checks r v =
     (let rs = runes v; bs = byte_length v; n = int (length rs)
      in [(tr_required r \<and> v = [], ''required''),
          (tr_minBytes r > 0 \<and> bs < tr_minBytes r, ''min_bytes''),
          (tr_maxBytes r > 0 \<and> bs > tr_maxBytes r, ''max_bytes''),
          (tr_minRunes r > 0 \<and> n < tr_minRunes r, ''min_runes''),
          (tr_maxRunes r > 0 \<and> n > tr_maxRunes r, ''max_runes''),
          (tr_ascii r \<and> list_ex (\<lambda>c. codePoint c > 0x7F) rs, ''ascii''),
          (tr_forbid_control r \<and> list_ex (\<lambda>c. isGoControl (codePoint c)) rs, ''control''),
          (tr_forbid_whitespace r \<and> list_ex rune_space rs, ''whitespace''),
          (tr_prefix r \<noteq> [] \<and> \<not> starts_with (tr_prefix r) v, ''prefix''),
          (tr_suffix r \<noteq> [] \<and> \<not> ends_with (tr_suffix r) v, ''suffix'')])"

definition violations :: "text_rules \<Rightarrow> jstr \<Rightarrow> string list" where
  "violations r v = map snd (filter fst (checks r v))"

definition outside :: "int \<Rightarrow> bool" where
  "outside n \<longleftrightarrow> n < 0 \<or> n > native_maxStringBytes"

definition invalid_bounds :: "int \<Rightarrow> int \<Rightarrow> int \<Rightarrow> int \<Rightarrow> bool" where
  "invalid_bounds minBytes maxBytes minRunes maxRunes \<longleftrightarrow>
     outside minBytes \<or> outside maxBytes \<or> outside minRunes \<or> outside maxRunes \<or>
     (maxBytes > 0 \<and> minBytes > maxBytes) \<or> (maxRunes > 0 \<and> minRunes > maxRunes)"

definition too_long :: "jstr \<Rightarrow> bool" where
  "too_long v \<longleftrightarrow> byte_length v > native_maxStringBytes"

definition read_rules :: "jobj \<Rightarrow> jstr \<Rightarrow> native_failure + text_rules" where
  "read_rules rules v =
     and_then (optionalText rules (js ''prefix'')) (\<lambda>pre.
     and_then (optionalText rules (js ''suffix'')) (\<lambda>suf.
     and_then (assertUtf8 v (js ''payload'')) (\<lambda>_.
     and_then (assertUtf8 pre (js ''payload'')) (\<lambda>_.
     and_then (assertUtf8 suf (js ''payload'')) (\<lambda>_.
     and_then (unless (too_long v \<or> too_long pre \<or> too_long suf) (payload_error ''input_too_large'' (js ''payload''))) (\<lambda>_.
     and_then (payload_integer rules (js ''min_bytes'')) (\<lambda>minBytes.
     and_then (payload_integer rules (js ''max_bytes'')) (\<lambda>maxBytes.
     and_then (payload_integer rules (js ''min_runes'')) (\<lambda>minRunes.
     and_then (payload_integer rules (js ''max_runes'')) (\<lambda>maxRunes.
     and_then (unless (invalid_bounds minBytes maxBytes minRunes maxRunes)
       (payload_error ''invalid_request'' (js ''payload.rules''))) (\<lambda>_.
     and_then (payload_flag rules (js ''required'')) (\<lambda>required.
     and_then (payload_flag rules (js ''ascii'')) (\<lambda>ascii.
     and_then (payload_flag rules (js ''forbid_control'')) (\<lambda>control.
     and_then (payload_flag rules (js ''forbid_whitespace'')) (\<lambda>whitespace.
       Inr \<lparr> tr_required = required, tr_ascii = ascii, tr_forbid_control = control, tr_forbid_whitespace = whitespace,
         tr_minBytes = minBytes, tr_maxBytes = maxBytes, tr_minRunes = minRunes, tr_maxRunes = maxRunes,
         tr_prefix = pre, tr_suffix = suf \<rparr>)))))))))))))))"

definition validate :: "jval \<Rightarrow> native_failure + jval" where
  "validate payload =
     and_then (payload_object payload [js ''value'', js ''rules''] []) (\<lambda>input.
     and_then (payload_text input (js ''value'')) (\<lambda>v.
     and_then (payload_object (obj_get input (js ''rules'')) [] rule_names) (\<lambda>rules.
     and_then (read_rules rules v) (\<lambda>r.
       Inr (JObj [(js ''valid'', JBool (violations r v = [])),
         (js ''violations'', JArr (map (\<lambda>code. JObj [(js ''code'', JStr (js code))]) (violations r v)))])))))"

section \<open>Cryptography\<close>

definition payload_binary :: "base64 \<Rightarrow> jobj \<Rightarrow> string \<Rightarrow> int \<Rightarrow> native_failure + bytes" where
  "payload_binary b input k maxBytes =
     and_then (payload_text input (js k)) (\<lambda>s. native_binary b s (js ''payload.'' @ js k) maxBytes)"

definition single :: "string \<Rightarrow> jstr \<Rightarrow> jval" where
  "single k s = JObj [(js k, JStr s)]"

definition sha256 :: "base64 \<Rightarrow> 'k web_crypto \<Rightarrow> jval \<Rightarrow> native_failure + jval" where
  "sha256 b wc payload =
     and_then (payload_object payload [js ''data''] []) (\<lambda>input.
     and_then (payload_binary b input ''data'' native_maxBinaryBytes) (\<lambda>bs.
     and_then (from_runtime (wc_digest wc bs)) (\<lambda>d. Inr (single ''digest'' (b64_encode b d)))))"

definition hmacSha256 :: "base64 \<Rightarrow> 'k web_crypto \<Rightarrow> jval \<Rightarrow> native_failure + jval" where
  "hmacSha256 b wc payload =
     and_then (payload_object payload [js ''key'', js ''data''] []) (\<lambda>input.
     and_then (payload_binary b input ''key'' native_maxBinaryBytes) (\<lambda>keyBytes.
     and_then (unless (int (length keyBytes) < MINIMUM_HMAC_KEY_BYTES) (payload_error ''invalid_key'' (js ''payload.key''))) (\<lambda>_.
     and_then (payload_binary b input ''data'' native_maxBinaryBytes) (\<lambda>bs.
     and_then (from_runtime (wc_importKey wc Raw keyBytes Hmac [Sign])) (\<lambda>key.
     and_then (from_runtime (wc_sign wc Hmac key bs)) (\<lambda>mac. Inr (single ''mac'' (b64_encode b mac))))))))"

text \<open>The key, the nonce, the additional data and the text of the AES operations, in the order they are checked.\<close>

definition aesInputs ::
  "base64 \<Rightarrow> 'k web_crypto \<Rightarrow> jobj \<Rightarrow> string \<Rightarrow> bool \<Rightarrow> native_failure + ('k \<times> bytes \<times> bytes \<times> bytes)" where
  "aesInputs b wc input valueField decrypting =
     and_then (payload_binary b input ''key'' native_maxBinaryBytes) (\<lambda>keyBytes.
     and_then (unless (int (length keyBytes) \<notin> {16, 24, 32}) (payload_error ''invalid_key'' (js ''payload.key''))) (\<lambda>_.
     and_then (payload_binary b input ''nonce'' native_maxBinaryBytes) (\<lambda>nonce.
     and_then (unless (int (length nonce) \<noteq> AES_GCM_NONCE_BYTES) (payload_error ''invalid_nonce'' (js ''payload.nonce''))) (\<lambda>_.
     and_then (payload_binary b input ''aad'' native_maxBinaryBytes) (\<lambda>aad.
     and_then (payload_binary b input valueField
       (if decrypting then native_maxBinaryBytes else max 0 (native_maxBinaryBytes - AES_GCM_TAG_BYTES))) (\<lambda>v.
     and_then (unless (decrypting \<and> int (length v) < AES_GCM_TAG_BYTES)
       (payload_error ''authentication_failed'' (js ''payload.'' @ js valueField))) (\<lambda>_.
       (case wc_importKey wc Raw keyBytes Aes [if decrypting then Decrypt else Encrypt] of
          Inl _ \<Rightarrow> payload_error ''invalid_key'' (js ''payload.key'')
        | Inr key \<Rightarrow> Inr (key, nonce, aad, v)))))))))"

definition aes_keys :: "string \<Rightarrow> jstr list" where
  "aes_keys valueField = [js ''key'', js ''nonce'', js ''aad'', js valueField]"

definition aesGcmEncrypt :: "base64 \<Rightarrow> 'k web_crypto \<Rightarrow> jval \<Rightarrow> native_failure + jval" where
  "aesGcmEncrypt b wc payload =
     and_then (payload_object payload (aes_keys ''plaintext'') []) (\<lambda>input.
     and_then (aesInputs b wc input ''plaintext'' False) (\<lambda>(key, nonce, aad, v).
     and_then (from_runtime (wc_encrypt wc (AesGcm nonce (Some aad)) key v)) (\<lambda>c.
       Inr (single ''ciphertext'' (b64_encode b c)))))"

definition aesGcmDecrypt :: "base64 \<Rightarrow> 'k web_crypto \<Rightarrow> jval \<Rightarrow> native_failure + jval" where
  "aesGcmDecrypt b wc payload =
     and_then (payload_object payload (aes_keys ''ciphertext'') []) (\<lambda>input.
     and_then (aesInputs b wc input ''ciphertext'' True) (\<lambda>(key, nonce, aad, v).
       (case wc_decrypt wc (AesGcm nonce (Some aad)) key v of
          Inl _ \<Rightarrow> payload_error ''authentication_failed'' (js ''payload.ciphertext'')
        | Inr p \<Rightarrow> Inr (single ''plaintext'' (b64_encode b p)))))"

section \<open>Base64\<close>

definition base64Encode :: "base64 \<Rightarrow> jval \<Rightarrow> native_failure + jval" where
  "base64Encode b payload =
     and_then (payload_object payload [js ''text''] []) (\<lambda>input.
     and_then (payload_text input (js ''text'')) (\<lambda>v.
     and_then (assertUtf8 v (js ''payload.text'')) (\<lambda>_.
     and_then (unless (byte_length v > native_maxStringBytes) (payload_error ''input_too_large'' (js ''payload.text''))) (\<lambda>_.
       Inr (single ''encoded'' (b64_encode b (utf8_encode v)))))))"

definition base64Decode :: "base64 \<Rightarrow> jval \<Rightarrow> native_failure + jval" where
  "base64Decode b payload =
     and_then (payload_object payload [js ''encoded''] []) (\<lambda>input.
     and_then (payload_binary b input ''encoded'' native_maxStringBytes) (\<lambda>bs.
       (case utf8_decode_fatal bs of
          None \<Rightarrow> payload_error ''invalid_utf8'' (js ''payload.encoded'')
        | Some t \<Rightarrow> Inr (single ''text'' t))))"

section \<open>The adapter\<close>

definition native_execute :: "base64 \<Rightarrow> 'k web_crypto \<Rightarrow> jstr \<Rightarrow> jval \<Rightarrow> native_failure + jval" where
  "native_execute b wc operation payload =
     (if operation = js ''text.normalize'' then normalize payload
      else if operation = js ''text.validate'' then validate payload
      else if operation = js ''crypto.sha256'' then sha256 b wc payload
      else if operation = js ''crypto.hmac-sha256'' then hmacSha256 b wc payload
      else if operation = js ''crypto.aes-gcm.encrypt'' then aesGcmEncrypt b wc payload
      else if operation = js ''crypto.aes-gcm.decrypt'' then aesGcmDecrypt b wc payload
      else if operation = js ''encoding.base64.encode'' then base64Encode b payload
      else if operation = js ''encoding.base64.decode'' then base64Decode b payload
      else payload_fails ''unknown_operation'')"

record native_context =
  nc_aborted :: bool
  nc_deadlineUnixMs :: "rat option"

definition failed_response :: "jstr \<Rightarrow> jstr \<Rightarrow> jstr option \<Rightarrow> native_failure + abi_response" where
  "failed_response rid code fld = from_codec (createAbiFailureResponse rid code fld None None)"

definition native_dispatch ::
  "base64 \<Rightarrow> 'k web_crypto \<Rightarrow> rat \<Rightarrow> abi_request \<Rightarrow> native_context \<Rightarrow> native_failure + abi_response" where
  "native_dispatch b wc now request ctx =
     (let attempt =
        (if nc_aborted ctx then failed_response (rq_id request) (js ''cancellation_requested'') None
         else if (case nc_deadlineUnixMs ctx of None \<Rightarrow> False | Some d \<Rightarrow> now > d)
         then failed_response (rq_id request) (js ''deadline_exceeded'') None
         else
           and_then (native_execute b wc (rq_operation request) (rq_payload request)) (\<lambda>result.
             from_codec (createAbiSuccessResponse (rq_id request) result)))
      in case attempt of
           Inl (PayloadError code fld) \<Rightarrow> failed_response (rq_id request) code fld
         | r \<Rightarrow> r)"

definition createNativeGoforgeAdapter :: "nat \<Rightarrow> jstr option \<Rightarrow> adapter" where
  "createNativeGoforgeAdapter ref nm =
     \<lparr> ad_ref = ref, ad_name = (case nm of Some n \<Rightarrow> n | None \<Rightarrow> GOFORGE_NATIVE_ADAPTER_NAME),
       ad_operations = Some GOFORGE_ABI_V1_OPERATIONS, ad_parityQualified = Some False, ad_invokes = True, ad_closes = False \<rparr>"

section \<open>Qualification\<close>

text \<open>
  \<^verbatim>\<open>canonical\<close>: keys sorted, then printed.  JavaScript prints integer-like keys before the others whatever the
  order they were written in; texts compared here are both printed from sorted keys, so that the comparison is the
  same.  The text of \<^verbatim>\<open>undefined\<close> is only reached in messages.
\<close>

fun sort_fields :: "jval \<Rightarrow> jval" where
  "sort_fields (JArr vs) = JArr (map sort_fields vs)"
| "sort_fields (JObj ob) = JObj (sort_entries (<) (map (\<lambda>(k, v). (k, sort_fields v)) ob))"
| "sort_fields v = v"

definition canonical :: "jval \<Rightarrow> jstr" where
  "canonical v = (if v = JUndef then js ''undefined'' else json_print (sort_fields v))"

record shared_vector =
  sv_name :: jstr
  sv_operation :: jstr
  sv_payload :: jval
  sv_id :: "jstr option"
  sv_response :: jobj

definition vector_id :: "shared_vector \<Rightarrow> jstr" where
  "vector_id v = (case sv_id v of Some i \<Rightarrow> i | None \<Rightarrow> js ''parity'')"

definition vector_request :: "shared_vector \<Rightarrow> abi_request" where
  "vector_request v =
     \<lparr> rq_abi = GOFORGE_ABI_V1, rq_id = vector_id v, rq_operation = sv_operation v, rq_metadata = None,
       rq_payload = sv_payload v \<rparr>"

definition expected_text :: "shared_vector \<Rightarrow> jstr" where
  "expected_text v = canonical (JObj (obj_set (js ''id'') (JStr (vector_id v)) (sv_response v)))"

text \<open>The complaint about a vector, if it does not reproduce; what the adapter throws is given as its text.\<close>

definition vector_failure :: "(abi_request \<Rightarrow> jstr + jval) \<Rightarrow> shared_vector \<Rightarrow> jstr option" where
  "vector_failure ask v =
     (case ask (vector_request v) of
        Inl cause \<Rightarrow> Some (sv_name v @ js '': threw '' @ cause)
      | Inr r \<Rightarrow>
          if canonical r = expected_text v then None
          else Some (sv_name v @ js '': expected '' @ expected_text v @ js '' but produced '' @ canonical r))"

definition covered :: "(abi_request \<Rightarrow> jstr + jval) \<Rightarrow> shared_vector list \<Rightarrow> jstr list" where
  "covered ask vs = map sv_operation (filter (\<lambda>v. vector_failure ask v = None) vs)"

text \<open>The qualified copy is a new object, \<open>ref\<close>.\<close>

definition qualifyNativeAdapter ::
  "nat list \<Rightarrow> nat \<Rightarrow> adapter \<Rightarrow> (abi_request \<Rightarrow> jstr + jval) \<Rightarrow> shared_vector list \<Rightarrow> native_failure + (nat list \<times> adapter)" where
  "qualifyNativeAdapter ledger ref a ask vs =
     (if vs = [] then Inl (WasmThrown (adapter_error (js ''parity qualification requires at least one shared vector'') None))
      else
        (let failures = List.map_filter (vector_failure ask) vs
         in if failures \<noteq> [] then
              Inl (WasmThrown (adapter_fails (ad_name a)
                (js ''failed parity qualification:'' @ [10, 32, 32] @ join [10, 32, 32] failures)))
            else
              (case ad_operations a of
                 None \<Rightarrow> Inl (RuntimeThrown (js ''operations is undefined''))
               | Some ops \<Rightarrow>
                   (let uncovered = filter (\<lambda>x. x \<notin> set (covered ask vs)) ops
                    in if uncovered \<noteq> [] then
                         Inl (WasmThrown (adapter_fails (ad_name a)
                           (js ''claims operations with no qualifying vector: '' @ join (js '', '') uncovered)))
                       else
                         (let q = a\<lparr>ad_ref := ref, ad_parityQualified := Some True\<rparr>
                          in and_then (from_codec (recordParityQualification ledger q)) (\<lambda>l. Inr (l, q)))))))"

end
