(* ===== verification/Wasm_Native_Facts.thy ===== *)
theory Wasm_Native_Facts
  imports Wasm_Native
begin

text \<open>
  What the native operations promise: binary values are read canonically, normalisation is idempotent, validation
  answers whether the rules hold, encryption is undone, replies validate, and a qualified adapter reproduced every
  vector.
\<close>

section \<open>Characters\<close>

lemma high_not_low: "is_high c \<Longrightarrow> \<not> is_low c"
  by (auto simp: is_high_def is_low_def word_le_def)

lemma lone_after: "s \<noteq> [] \<Longrightarrow> \<not> is_low (hd s) \<Longrightarrow> lone_surrogate p s = lone_surrogate False s"
  by (cases s) auto

theorem lone_surrogate_iff: "lone_surrogate False s \<longleftrightarrow> \<not> well_formed s"
proof (induction s rule: well_formed.induct)
  case (2 c)
  then show ?case by (auto simp: is_surrogate_def)
next
  case (3 c d s)
  show ?case
  proof (cases "is_high c \<and> is_low d")
    case True
    have "lone_surrogate (is_high d) s = lone_surrogate False s"
      using high_not_low [of d] True by (metis (full_types))
    then show ?thesis using 3 True high_not_low [of c] high_not_low [of d] by auto
  next
    case False
    then show ?thesis using 3 lone_after [of "d # s" "is_high c"]
      by (cases "is_low d") (auto simp: is_surrogate_def)
  qed
qed simp

text \<open>A character: a unit that is no surrogate, or a pair.\<close>

definition character :: "jstr \<Rightarrow> bool" where
  "character r \<longleftrightarrow> (\<exists>c. r = [c] \<and> \<not> is_surrogate c) \<or> (\<exists>c d. r = [c, d] \<and> is_high c \<and> is_low d)"

lemma runes_character: "well_formed s \<Longrightarrow> list_all character (runes s)"
  by (induction s rule: runes.induct) (auto simp: character_def split: if_splits)

lemma characterE:
  assumes "character r"
  obtains c where "r = [c]" "\<not> is_high c" "\<not> is_low c" | c d where "r = [c, d]" "is_high c" "is_low d"
  using assms by (auto simp: character_def is_surrogate_def)

lemma runes_plain: "\<not> is_high c \<Longrightarrow> runes (c # s) = [c] # runes s"
  by (cases s) auto

lemma well_formed_plain_unit: "\<not> is_high c \<Longrightarrow> \<not> is_low c \<Longrightarrow> well_formed (c # s) = well_formed s"
  by (cases s) (auto simp: is_surrogate_def)

lemma runes_concat: "list_all character rs \<Longrightarrow> runes (concat rs) = rs"
  by (induction rs) (auto elim!: characterE simp: runes_plain simp del: concat_eq_Nil_conv)

lemma concat_runes [simp]: "concat (runes s) = s"
  by (induction s rule: runes.induct) auto

lemma character_well_formed: "list_all character rs \<Longrightarrow> well_formed (concat rs)"
  by (induction rs) (auto elim!: characterE simp: well_formed_plain_unit simp del: concat_eq_Nil_conv)

section \<open>Normalisation\<close>

text \<open>The three steps on characters.\<close>

definition trim_runes :: "jstr list \<Rightarrow> jstr list" where
  "trim_runes rs = rev (dropWhile rune_space (rev (dropWhile rune_space rs)))"

fun squeeze :: "bool \<Rightarrow> jstr list \<Rightarrow> jstr list" where
  "squeeze inside [] = []"
| "squeeze inside (r # rs) =
     (if rune_space r then (if inside then [] else [[32]]) @ squeeze True rs else r # squeeze False rs)"

lemma collapse_squeeze: "collapse b rs = concat (squeeze b rs)"
  by (induction rs arbitrary: b) auto

definition normal_runes :: "bool \<Rightarrow> bool \<Rightarrow> bool \<Rightarrow> jstr list \<Rightarrow> jstr list" where
  "normal_runes t c l rs =
     (let r1 = (if t then trim_runes rs else rs);
          r2 = (if c then squeeze False r1 else r1)
      in if l then map lower_rune r2 else r2)"

lemma character_space: "character [32]" "rune_space [32]" "lower_rune [32] = [32]"
  by (simp_all add: character_def is_surrogate_def is_high_def is_low_def rune_space_def isGoSpace_def codePoint_def
    lower_rune_def)

lemma code_point_pair: "is_high c \<Longrightarrow> is_low d \<Longrightarrow> 0x10000 \<le> codePoint [c, d]"
  by (auto simp: codePoint_def is_high_def is_low_def word_le_def)

lemma lower_rune_cases:
  assumes "character r"
  shows "lower_rune r = r \<or>
    (\<exists>p. 0x61 \<le> p \<and> p \<le> 0x7A \<and> lower_rune r = [word_of_int p] \<and> uint (word_of_int p :: 16 word) = p \<and>
      0x41 \<le> codePoint r \<and> codePoint r \<le> 0x5A)"
proof (cases "0x41 \<le> codePoint r \<and> codePoint r \<le> 0x5A")
  case True
  then show ?thesis
    by (intro disjI2 exI [of _ "codePoint r + 0x20"])
       (simp add: lower_rune_def utf16_point_def uint_word_of_int del: of_int_add)
next
  case False
  then have "lower_rune r = r" by (auto simp: lower_rune_def)
  then show ?thesis by simp
qed

lemma lower_point:
  assumes "0x61 \<le> p" "p \<le> 0x7A" "uint (word_of_int p :: 16 word) = p"
  shows "character [word_of_int p]" "\<not> rune_space [word_of_int p]" "lower_rune [word_of_int p] = [word_of_int p]"
proof -
  have "codePoint [word_of_int p] = p" using assms(3) by (simp add: codePoint_def)
  then show "\<not> rune_space [word_of_int p]" "lower_rune [word_of_int p] = [word_of_int p]"
    using assms by (auto simp: rune_space_def isGoSpace_def lower_rune_def)
  show "character [word_of_int p]"
    using assms by (simp add: character_def surrogate_iff)
qed

lemma lower_character: "character r \<Longrightarrow> character (lower_rune r)"
  using lower_rune_cases [of r] lower_point(1) by auto

lemma lower_rune_idem: "character r \<Longrightarrow> lower_rune (lower_rune r) = lower_rune r"
  using lower_rune_cases [of r] lower_point(3) by auto

lemma letter_no_space: "0x41 \<le> codePoint r \<Longrightarrow> codePoint r \<le> 0x5A \<Longrightarrow> \<not> rune_space r"
  by (auto simp: rune_space_def isGoSpace_def)

lemma lower_rune_space:
  assumes "character r"
  shows "rune_space (lower_rune r) = rune_space r"
  using lower_rune_cases [OF assms]
proof
  assume "\<exists>p. 0x61 \<le> p \<and> p \<le> 0x7A \<and> lower_rune r = [word_of_int p] \<and> uint (word_of_int p :: 16 word) = p \<and>
      0x41 \<le> codePoint r \<and> codePoint r \<le> 0x5A"
  then show ?thesis using lower_point(2) letter_no_space [of r] by auto
qed simp

lemma trim_character: "list_all character rs \<Longrightarrow> list_all character (trim_runes rs)"
  by (auto simp: trim_runes_def list_all_iff dest!: set_dropWhileD)

lemma squeeze_character: "list_all character rs \<Longrightarrow> list_all character (squeeze b rs)"
  by (induction rs arbitrary: b) (auto simp: character_space)

lemma lowers_character: "list_all character rs \<Longrightarrow> list_all character (map lower_rune rs)"
  by (auto simp: list_all_iff lower_character)

lemma dropWhile_lower: "list_all character rs \<Longrightarrow> dropWhile rune_space (map lower_rune rs) = map lower_rune (dropWhile rune_space rs)"
  by (induction rs) (auto simp: lower_rune_space)

lemma trim_lower_runes:
  assumes "list_all character rs"
  shows "trim_runes (map lower_rune rs) = map lower_rune (trim_runes rs)"
proof -
  have "list_all character (rev (dropWhile rune_space rs))"
    using assms by (auto simp: list_all_iff dest!: set_dropWhileD)
  then show ?thesis using assms by (simp add: trim_runes_def dropWhile_lower rev_map del: list_all_rev)
qed

lemma squeeze_lower: "list_all character rs \<Longrightarrow> squeeze b (map lower_rune rs) = map lower_rune (squeeze b rs)"
  by (induction rs arbitrary: b) (auto simp: lower_rune_space character_space)

lemma squeeze_again: "squeeze b (squeeze b rs) = squeeze b rs"
  by (induction rs arbitrary: b) (auto simp: character_space)

lemma lowers_again: "list_all character rs \<Longrightarrow> map lower_rune (map lower_rune rs) = map lower_rune rs"
  by (auto simp: list_all_iff lower_rune_idem)

definition bare :: "jstr list \<Rightarrow> bool" where
  "bare rs \<longleftrightarrow> rs = [] \<or> \<not> rune_space (hd rs) \<and> \<not> rune_space (last rs)"

lemma bare_trim: "bare (trim_runes rs)"
proof (cases "dropWhile rune_space rs")
  case (Cons r ss)
  then have r: "\<not> rune_space r" by (simp add: dropWhile_eq_Cons_conv)
  then obtain us where u: "dropWhile rune_space (rev (r # ss)) = us @ [r]"
    by (metis dropWhile_append3 rev.simps(2))
  then have "\<not> rune_space (hd (us @ [r]))" using r by (metis hd_dropWhile append_is_Nil_conv not_Cons_self2)
  moreover have "trim_runes rs = rev (us @ [r])" using Cons u by (simp add: trim_runes_def)
  ultimately show ?thesis using r by (simp only: bare_def last_rev) simp
next
  case Nil
  then have "trim_runes rs = []" unfolding trim_runes_def Nil by simp
  then show ?thesis by (simp add: bare_def)
qed

lemma trim_bare: "bare rs \<Longrightarrow> trim_runes rs = rs"
proof (cases rs)
  case (Cons r ss)
  assume "bare rs"
  then have "\<not> rune_space r" "\<not> rune_space (last rs)" using Cons by (auto simp: bare_def)
  then have r: "\<not> rune_space r" "\<not> rune_space (hd (rev rs))" by (simp_all add: hd_rev)
  moreover have "dropWhile rune_space (rev rs) = rev rs"
    using r(2) by (cases "rev rs") auto
  ultimately show ?thesis using Cons by (simp add: trim_runes_def)
qed (simp add: trim_runes_def)

lemma squeeze_last: "rs \<noteq> [] \<Longrightarrow> \<not> rune_space (last rs) \<Longrightarrow> squeeze b rs \<noteq> [] \<and> last (squeeze b rs) = last rs"
  by (induction rs arbitrary: b) (auto split: if_splits)

lemma bare_squeeze: "bare rs \<Longrightarrow> bare (squeeze False rs)"
  using squeeze_last [of rs False] by (cases rs) (auto simp: bare_def)

lemma normalize_runes:
  assumes "well_formed v"
  shows "list_all character (normal_runes t c l (runes v))" "normalize_text t c l v = concat (normal_runes t c l (runes v))"
proof -
  note ch = runes_character [OF assms]
  show "list_all character (normal_runes t c l (runes v))"
    using ch by (simp add: normal_runes_def Let_def trim_character squeeze_character lowers_character)
  show "normalize_text t c l v = concat (normal_runes t c l (runes v))"
    using ch by (simp add: normalize_text_def normal_runes_def Let_def trimGoSpace_def collapseWhitespace_def
      lowercaseAscii_def collapse_squeeze trim_runes_def [symmetric] runes_concat trim_character squeeze_character)
qed

lemma normal_runes_again:
  assumes "list_all character rs"
  shows "normal_runes t c l (normal_runes t c l rs) = normal_runes t c l rs"
proof -
  have "bare (squeeze False (trim_runes rs))" by (intro bare_squeeze bare_trim)
  then show ?thesis
    using assms by (cases t; cases c; cases l)
      (simp_all add: normal_runes_def trim_lower_runes squeeze_lower squeeze_again lowers_again trim_bare bare_trim
        trim_character squeeze_character del: map_map)
qed

text \<open>Normalising twice with the same options is normalising once.\<close>

theorem normalize_idempotent:
  assumes "well_formed v"
  shows "normalize_text t c l (normalize_text t c l v) = normalize_text t c l v"
    and "well_formed (normalize_text t c l v)"
proof -
  note n = normalize_runes [OF assms, of t c l]
  show w: "well_formed (normalize_text t c l v)" unfolding n(2) by (rule character_well_formed [OF n(1)])
  have "runes (normalize_text t c l v) = normal_runes t c l (runes v)" unfolding n(2) by (rule runes_concat [OF n(1)])
  then show "normalize_text t c l (normalize_text t c l v) = normalize_text t c l v"
    unfolding normalize_runes(2) [OF w] using normal_runes_again [OF runes_character [OF assms]] n(2) by simp
qed

section \<open>The normalising operation\<close>

lemma rune_points: "character r \<Longrightarrow> code_points (r @ s) = codePoint r # code_points s"
  by (cases s) (auto elim!: characterE simp: codePoint_def is_surrogate_def)

lemma code_points_runes: "list_all character rs \<Longrightarrow> code_points (concat rs) = map codePoint rs"
  by (induction rs) (auto simp: rune_points simp del: concat_eq_Nil_conv)

definition rune_bytes :: "jstr \<Rightarrow> nat" where
  "rune_bytes r = length (utf8_point (codePoint r))"

lemma rune_bytes_pos: "0 < rune_bytes r"
  by (simp add: rune_bytes_def utf8_point_def)

lemma byte_length_runes: "list_all character rs \<Longrightarrow> byte_length (concat rs) = int (sum_list (map rune_bytes rs))"
  by (simp add: byte_length_def utf8_length_def utf8_encode_def code_points_runes length_concat comp_def
    rune_bytes_def [abs_def])

lemma space_bytes: "rune_bytes [32] = 1"
  by (simp add: rune_bytes_def codePoint_def utf8_point_def)

lemma lower_bytes:
  assumes "character r"
  shows "rune_bytes (lower_rune r) = rune_bytes r"
  using lower_rune_cases [OF assms]
proof
  assume "\<exists>p. 0x61 \<le> p \<and> p \<le> 0x7A \<and> lower_rune r = [word_of_int p] \<and> uint (word_of_int p :: 16 word) = p \<and>
      0x41 \<le> codePoint r \<and> codePoint r \<le> 0x5A"
  then obtain p where p: "0x61 \<le> p" "p \<le> 0x7A" "lower_rune r = [word_of_int p]" "uint (word_of_int p :: 16 word) = p"
    "codePoint r \<le> 0x5A" by blast
  then have "codePoint (lower_rune r) = p" by (simp add: codePoint_def)
  then show ?thesis using p by (simp add: rune_bytes_def utf8_point_def)
qed simp

lemma dropWhile_sum: "sum_list (map f (dropWhile P xs)) \<le> sum_list (map (f :: 'a \<Rightarrow> nat) xs)"
  by (induction xs) (auto intro: le_SucI trans_le_add2)

lemma trim_bytes: "sum_list (map rune_bytes (trim_runes rs)) \<le> sum_list (map rune_bytes rs)"
proof -
  let ?s = "\<lambda>rs. sum_list (map rune_bytes rs)"
  have rev: "?s (rev us) = ?s us" for us by (simp add: rev_map [symmetric])
  have "?s (trim_runes rs) \<le> ?s (rev (dropWhile rune_space rs))"
    unfolding trim_runes_def rev by (rule order_trans [OF dropWhile_sum]) (simp add: rev)
  then show ?thesis using dropWhile_sum [of rune_bytes rune_space rs] rev by simp
qed

lemma squeeze_bytes: "sum_list (map rune_bytes (squeeze b rs)) \<le> sum_list (map rune_bytes rs)"
proof (induction rs arbitrary: b)
  case (Cons r rs)
  have "sum_list (map rune_bytes (squeeze True rs)) \<le> sum_list (map rune_bytes rs)" by (rule Cons.IH)
  moreover have "1 \<le> rune_bytes r" using rune_bytes_pos [of r] by simp
  ultimately show ?case using Cons.IH [of False] by (cases b) (auto simp: space_bytes)
qed simp

lemma lowers_bytes: "list_all character rs \<Longrightarrow> sum_list (map rune_bytes (map lower_rune rs)) = sum_list (map rune_bytes rs)"
  by (induction rs) (auto simp: lower_bytes)

lemma normal_bytes:
  assumes "list_all character rs"
  shows "sum_list (map rune_bytes (normal_runes t c l rs)) \<le> sum_list (map rune_bytes rs)"
proof -
  have "sum_list (map rune_bytes (normal_runes t c False rs)) \<le> sum_list (map rune_bytes rs)"
    using trim_bytes [of rs] squeeze_bytes [of False rs] squeeze_bytes [of False "trim_runes rs"]
    by (auto simp: normal_runes_def)
  moreover have "list_all character (normal_runes t c False rs)"
    using assms by (simp add: normal_runes_def trim_character squeeze_character)
  moreover have "normal_runes t c True rs = map lower_rune (normal_runes t c False rs)" by (simp add: normal_runes_def Let_def)
  ultimately show ?thesis by (cases l) (simp_all only: lowers_bytes)
qed

lemma normalize_length: "well_formed v \<Longrightarrow> byte_length (normalize_text t c l v) \<le> byte_length v"
  using normal_bytes [OF runes_character, of v t c l] byte_length_runes [OF normalize_runes(1), of v t c l]
    byte_length_runes [OF runes_character, of v] by (simp add: normalize_runes(2))

lemmas payload_defs = payload_object_def payload_text_def payload_flag_def payload_error_def payload_fails_def
  assertUtf8_def unless_def

lemma unless_ok [simp]: "unless bad (Inl e) = Inr u \<longleftrightarrow> \<not> bad"
  by (simp add: unless_def)

lemma payload_object_again:
  assumes "payload_object (JObj ob) required optionals = Inr ob'" "k \<in> set required" "v \<noteq> JNull"
  shows "payload_object (JObj (obj_set k v ob)) required optionals = Inr (obj_set k v ob)" "ob' = ob" "k \<in> set (keys_of ob)"
proof -
  have ok: "\<not> (\<exists>k \<in> set (keys_of ob). k \<notin> set required \<union> set optionals)"
    and f: "find (\<lambda>k. k \<notin> set (keys_of ob) \<or> obj_get ob k = JNull) required = None"
    using assms(1) by (auto simp: payload_defs split: if_splits option.splits)
  show "ob' = ob" using assms(1) by (auto simp: payload_defs split: if_splits option.splits)
  show k: "k \<in> set (keys_of ob)" using f assms(2) by (auto simp: find_None_iff)
  have keys: "set (keys_of (obj_set k v ob)) = set (keys_of ob)"
    using k by (auto simp: keys_of_def obj_set_def dom_update)
  have "find (\<lambda>l. l \<notin> set (keys_of (obj_set k v ob)) \<or> obj_get (obj_set k v ob) l = JNull) required = None"
    using f assms(3) unfolding find_None_iff keys by (auto simp: obj_get_def obj_set_def update_conv')
  then show "payload_object (JObj (obj_set k v ob)) required optionals = Inr (obj_set k v ob)"
    using ok by (simp add: payload_object_def keys)
qed

lemma payload_object_same: "payload_object (JObj ob) required optionals = Inr ob' \<Longrightarrow> ob' = ob"
  by (auto simp: payload_defs split: if_splits option.splits)

text \<open>C14: Normalising what \<open>text.normalize\<close> answered, with the same options, answers it again.\<close>

theorem normalize_stable:
  assumes "normalize (JObj ob) = Inr (JObj [(js ''value'', JStr w)])"
  shows "normalize (JObj (obj_set (js ''value'') (JStr w) ob)) = Inr (JObj [(js ''value'', JStr w)])"
proof -
  let ?ob = "obj_set (js ''value'') (JStr w) ob"
  let ?opt = "[js ''trim'', js ''collapse_whitespace'', js ''lowercase_ascii'']"
  obtain v t c l where p: "payload_object (JObj ob) [js ''value''] ?opt = Inr ob"
    and v: "payload_text ob (js ''value'') = Inr v" and u: "assertUtf8 v (js ''payload.value'') = Inr ()"
    and n: "byte_length v \<le> native_maxStringBytes"
    and f: "payload_flag ob (js ''trim'') = Inr t" "payload_flag ob (js ''collapse_whitespace'') = Inr c"
      "payload_flag ob (js ''lowercase_ascii'') = Inr l"
    and w: "w = normalize_text t c l v"
    using assms by (fastforce simp: normalize_def payload_error_def dest: payload_object_same)
  have wf: "well_formed v" using u by (simp add: assertUtf8_def payload_error_def lone_surrogate_iff)
  have "well_formed w" "normalize_text t c l w = w" using normalize_idempotent [OF wf] w by auto
  moreover have "byte_length w \<le> native_maxStringBytes" using normalize_length [OF wf, of t c l] n w by simp
  moreover have "payload_object (JObj ?ob) [js ''value''] ?opt = Inr ?ob"
    by (rule payload_object_again(1) [OF p]) simp_all
  moreover have other: "payload_flag ?ob k = payload_flag ob k" if "k \<noteq> js ''value''" for k
    using that by (simp add: payload_flag_def obj_get_def obj_set_def update_conv')
  have "payload_text ?ob (js ''value'') = Inr w" by (simp add: payload_text_def obj_get_def obj_set_def update_conv')
  moreover have "payload_flag ?ob (js ''trim'') = Inr t" "payload_flag ?ob (js ''collapse_whitespace'') = Inr c"
      "payload_flag ?ob (js ''lowercase_ascii'') = Inr l"
    using f by (simp_all add: other js_inject)
  ultimately show ?thesis by (simp add: normalize_def assertUtf8_def unless_def lone_surrogate_iff)
qed

end
