(* ===== verification/Wasm_Native_Crypto.thy ===== *)
theory Wasm_Native_Crypto
  imports Wasm_Native_Facts
begin

text \<open>
  Binary values and the cryptographic operations of the native adapter: what is accepted is the canonical encoding,
  what is encrypted is decrypted, and every reply is a valid response.
\<close>

section \<open>Base64\<close>

text \<open>What the operations rely on of the Base64 package: standard padded Base64.\<close>

locale padded_base64 =
  fixes b :: base64
  assumes decodes: "b64_decode b (b64_encode b bs) = Inr bs"
    and encodes_length: "int (length (b64_encode b bs)) = encodedLength (int (length bs))"
    and encodes_loose: "loose_base64 (b64_encode b bs)"
begin

lemma encoded_mono: "m \<le> n \<Longrightarrow> encodedLength m \<le> encodedLength n"
  by (simp add: encodedLength_def zdiv_mono1)

lemma encodes_mod: "length (b64_encode b bs) mod 4 = 0"
proof -
  have "int (length (b64_encode b bs)) mod 4 = 0" by (simp add: encodes_length encodedLength_def)
  then show ?thesis by presburger
qed

text \<open>A binary field is accepted exactly when it is the canonical encoding of a value within the limit.\<close>

lemma binary_exact:
  "native_binary b s fld maxBytes = Inr bs \<longleftrightarrow> s = b64_encode b bs \<and> int (length bs) \<le> maxBytes"
proof
  assume "native_binary b s fld maxBytes = Inr bs"
  then show "s = b64_encode b bs \<and> int (length bs) \<le> maxBytes"
    by (auto simp: native_binary_def payload_error_def split: if_splits sum.splits)
next
  assume s: "s = b64_encode b bs \<and> int (length bs) \<le> maxBytes"
  then have "\<not> int (length s) > encodedLength maxBytes" using encoded_mono encodes_length by (simp add: not_less)
  then show "native_binary b s fld maxBytes = Inr bs"
    using s by (simp add: native_binary_def encodes_mod encodes_loose decodes)
qed

end

section \<open>AES-GCM\<close>

lemma payload_object_ok:
  assumes "set (keys_of ob) = set required" "list_all (\<lambda>k. obj_get ob k \<noteq> JNull) required"
  shows "payload_object (JObj ob) required optionals = Inr ob"
proof -
  have "find (\<lambda>k. k \<notin> set (keys_of ob) \<or> obj_get ob k = JNull) required = None"
    using assms by (auto simp: find_None_iff list_all_iff)
  then show ?thesis using assms(1) by (simp add: payload_object_def)
qed

lemma key_case_iff: "(case r of Inl _ \<Rightarrow> payload_error c f | Inr k \<Rightarrow> Inr (k, x, y, z)) = Inr (key, x', y', z') \<longleftrightarrow>
    r = Inr key \<and> x = x' \<and> y = y' \<and> z = z'"
  by (cases r) (auto simp: payload_error_def)

lemma unless_error [simp]: "unless bad (payload_error c f) = Inr u \<longleftrightarrow> \<not> bad"
  by (simp add: unless_def payload_error_def)

lemma aes_inputs_iff:
  "aesInputs b wc input valueField decrypting = Inr (key, nonce, aad, v) \<longleftrightarrow>
    (\<exists>keyBytes. payload_binary b input ''key'' native_maxBinaryBytes = Inr keyBytes \<and> int (length keyBytes) \<in> {16, 24, 32} \<and>
      payload_binary b input ''nonce'' native_maxBinaryBytes = Inr nonce \<and> int (length nonce) = AES_GCM_NONCE_BYTES \<and>
      payload_binary b input ''aad'' native_maxBinaryBytes = Inr aad \<and>
      payload_binary b input valueField
        (if decrypting then native_maxBinaryBytes else max 0 (native_maxBinaryBytes - AES_GCM_TAG_BYTES)) = Inr v \<and>
      \<not> (decrypting \<and> int (length v) < AES_GCM_TAG_BYTES) \<and>
      wc_importKey wc Raw keyBytes Aes [if decrypting then Decrypt else Encrypt] = Inr key)"
  (is "?l \<longleftrightarrow> ?r")
proof
  show "?l \<Longrightarrow> ?r" unfolding aesInputs_def by (auto simp: key_case_iff not_less)
next
  assume ?r
  then obtain keyBytes where k: "payload_binary b input ''key'' native_maxBinaryBytes = Inr keyBytes"
    "int (length keyBytes) \<in> {16, 24, 32}"
    and o: "payload_binary b input ''nonce'' native_maxBinaryBytes = Inr nonce" "int (length nonce) = AES_GCM_NONCE_BYTES"
      "payload_binary b input ''aad'' native_maxBinaryBytes = Inr aad"
      "payload_binary b input valueField
        (if decrypting then native_maxBinaryBytes else max 0 (native_maxBinaryBytes - AES_GCM_TAG_BYTES)) = Inr v"
      "\<not> (decrypting \<and> int (length v) < AES_GCM_TAG_BYTES)"
      "wc_importKey wc Raw keyBytes Aes [if decrypting then Decrypt else Encrypt] = Inr key"
    by blast
  have "\<not> int (length keyBytes) \<notin> {16, 24, 32}" using k by simp
  then show ?l unfolding aesInputs_def k(1) o(1,3,4) using o by (simp only: and_then.simps unless_def if_False simp_thms) simp
qed

lemma payload_binary_field: "obj_get ob (js k) = obj_get ob' (js k) \<Longrightarrow> payload_binary b ob k n = payload_binary b ob' k n"
  by (simp add: payload_binary_def payload_text_def)

lemma payload_binary_iff:
  "payload_binary b ob k n = Inr bs \<longleftrightarrow> (\<exists>s. obj_get ob (js k) = JStr s \<and> native_binary b s (js ''payload.'' @ js k) n = Inr bs)"
  by (auto simp: payload_binary_def payload_text_def and_then_Inr_iff payload_fails_def split: jval.splits)

definition decrypt_payload :: "jobj \<Rightarrow> jstr \<Rightarrow> jobj" where
  "decrypt_payload ob c =
     [(js ''key'', obj_get ob (js ''key'')), (js ''nonce'', obj_get ob (js ''nonce'')), (js ''aad'', obj_get ob (js ''aad'')),
      (js ''ciphertext'', JStr c)]"

text \<open>
  What \<open>crypto.aes-gcm.encrypt\<close> answers, \<open>crypto.aes-gcm.decrypt\<close> turns back into the plaintext of the request,
  under the same key, nonce and additional data, when the runtime's AES-GCM undoes itself and adds its tag.
\<close>

theorem native_aes_round_trip:
  assumes b64: "padded_base64 b"
    and gcm: "\<And>raw k iv aad p c. wc_importKey wc Raw raw Aes [Encrypt] = Inr k \<Longrightarrow>
      wc_encrypt wc (AesGcm iv aad) k p = Inr c \<Longrightarrow>
      int (length c) = int (length p) + AES_GCM_TAG_BYTES \<and>
      (\<exists>d. wc_importKey wc Raw raw Aes [Decrypt] = Inr d \<and> wc_decrypt wc (AesGcm iv aad) d c = Inr p)"
    and e: "native_execute b wc (js ''crypto.aes-gcm.encrypt'') (JObj ob) = Inr (single ''ciphertext'' c)"
  shows "\<exists>p. obj_get ob (js ''plaintext'') = JStr p \<and>
    native_execute b wc (js ''crypto.aes-gcm.decrypt'') (JObj (decrypt_payload ob c)) = Inr (single ''plaintext'' p)"
proof -
  have exact: "native_binary b s fld n = Inr bs \<longleftrightarrow> s = b64_encode b bs \<and> int (length bs) \<le> n" for s fld n bs
    by (rule padded_base64.binary_exact [OF b64])
  have e': "aesGcmEncrypt b wc (JObj ob) = Inr (single ''ciphertext'' c)"
    using e by (simp add: native_execute_def js_inject)
  then obtain key nonce aad v x where inputs: "aesInputs b wc ob ''plaintext'' False = Inr (key, nonce, aad, v)"
    and x: "wc_encrypt wc (AesGcm nonce (Some aad)) key v = Inr x" "c = b64_encode b x"
    unfolding aesGcmEncrypt_def
    by (auto simp: and_then_Inr_iff single_def dest!: payload_object_same)
       (metis from_runtime.simps sum.exhaust sum.inject(2) Inl_Inr_False)
  then obtain raw where raw: "payload_binary b ob ''key'' native_maxBinaryBytes = Inr raw" "int (length raw) \<in> {16, 24, 32}"
    and nonce: "payload_binary b ob ''nonce'' native_maxBinaryBytes = Inr nonce" "int (length nonce) = AES_GCM_NONCE_BYTES"
    and aad: "payload_binary b ob ''aad'' native_maxBinaryBytes = Inr aad"
    and v: "payload_binary b ob ''plaintext'' (max 0 (native_maxBinaryBytes - AES_GCM_TAG_BYTES)) = Inr v"
    and k: "wc_importKey wc Raw raw Aes [Encrypt] = Inr key"
    unfolding aes_inputs_iff by auto
  obtain d where len: "int (length x) = int (length v) + AES_GCM_TAG_BYTES"
    and d: "wc_importKey wc Raw raw Aes [Decrypt] = Inr d" "wc_decrypt wc (AesGcm nonce (Some aad)) d x = Inr v"
    using gcm [OF k x(1)] by blast
  obtain p where p: "obj_get ob (js ''plaintext'') = JStr p" "p = b64_encode b v"
    and small: "int (length v) \<le> native_maxBinaryBytes - AES_GCM_TAG_BYTES"
    using v by (auto simp: payload_binary_iff exact native_maxBinaryBytes_def AES_GCM_TAG_BYTES_def)
  let ?ob = "decrypt_payload ob c"
  have same: "obj_get ?ob (js k) = obj_get ob (js k)" if "k \<in> {''key'', ''nonce'', ''aad''}" for k
    using that by (auto simp: decrypt_payload_def obj_get_def js_inject)
  have "payload_binary b ?ob ''ciphertext'' native_maxBinaryBytes = Inr x"
    using len small x(2) by (simp add: payload_binary_iff exact decrypt_payload_def obj_get_def js_inject)
  then have "aesInputs b wc ?ob ''ciphertext'' True = Inr (d, nonce, aad, x)"
    unfolding aes_inputs_iff using raw nonce aad d len
    by (simp add: payload_binary_field [OF same])
  moreover have "payload_object (JObj ?ob) (aes_keys ''ciphertext'') [] = Inr ?ob"
  proof (rule payload_object_ok)
    have "obj_get ob (js k) \<noteq> JNull" if "k \<in> {''key'', ''nonce'', ''aad''}" for k
      using that raw(1) nonce(1) aad by (auto simp: payload_binary_iff)
    then show "list_all (\<lambda>k. obj_get ?ob k \<noteq> JNull) (aes_keys ''ciphertext'')"
      by (simp add: aes_keys_def same) (simp add: decrypt_payload_def obj_get_def js_inject)
  qed (simp add: decrypt_payload_def keys_of_def aes_keys_def)
  ultimately show ?thesis
    using d p by (simp add: native_execute_def js_inject aesGcmDecrypt_def)
qed

section \<open>Base64 texts\<close>

lemma fatal_round_trip:
  assumes "well_formed s" "s = [] \<or> hd s \<noteq> 0xFEFF"
  shows "utf8_decode_fatal (utf8_encode s) = Some s"
proof -
  have "strip_bom (utf8_encode s) = utf8_encode s"
  proof (cases s)
    case Nil
    then show ?thesis by (simp add: utf8_encode_def strip_bom_def)
  next
    case (Cons c t)
    then obtain p ps where p: "code_points s = p # ps" "p \<noteq> 0xFEFF"
      using code_points_head [of c t] assms by auto
    then have "scalar p" using code_points_utf16 [OF assms(1)] by simp
    then have "take 3 (utf8_encode s) \<noteq> [0xEF, 0xBB, 0xBF]"
      using utf8_point_bom [of p "concat (map utf8_point ps)"] p by (auto simp: utf8_encode_def)
    then show ?thesis by (simp add: strip_bom_def)
  qed
  then show ?thesis
    using code_points_utf16 [OF assms(1)] by (simp add: utf8_decode_fatal_def utf8_encode_def decode_points_encode)
qed

lemma bom_plain: "\<not> is_high 0xFEFF" "\<not> is_low 0xFEFF"
  by (simp_all add: is_high_def is_low_def)

lemma bom_dropped:
  assumes "well_formed (0xFEFF # s)"
  shows "utf8_decode_fatal (utf8_encode (0xFEFF # s)) = Some s"
proof -
  have w: "well_formed s" using assms by (simp add: well_formed_plain_unit bom_plain)
  have "code_points (0xFEFF # s) = 0xFEFF # code_points s" by (cases s) (auto simp: bom_plain is_surrogate_def)
  then have "utf8_encode (0xFEFF # s) = [0xEF, 0xBB, 0xBF] @ utf8_encode s"
    by (simp add: utf8_encode_def utf8_point_def)
  then have "strip_bom (utf8_encode (0xFEFF # s)) = utf8_encode s" by (simp add: strip_bom_def)
  then show ?thesis
    using code_points_utf16 [OF w] by (simp add: utf8_decode_fatal_def utf8_encode_def decode_points_encode)
qed

text \<open>
  C15: Decoding what \<open>encoding.base64.encode\<close> answered gives the text back, except that a leading byte-order mark is
  lost.
\<close>

theorem base64_text_round_trip:
  assumes b64: "padded_base64 b"
    and e: "native_execute b wc (js ''encoding.base64.encode'') (JObj [(js ''text'', JStr v)]) = Inr (single ''encoded'' x)"
  shows "native_execute b wc (js ''encoding.base64.decode'') (JObj [(js ''encoded'', JStr x)]) =
    Inr (single ''text'' (if v \<noteq> [] \<and> hd v = 0xFEFF then tl v else v))"
proof -
  have ob: "payload_object (JObj [(js k, JStr s)]) [js k] [] = Inr [(js k, JStr s)]" for k s
    by (rule payload_object_ok) (simp_all add: keys_of_def obj_get_def)
  have tx: "payload_text [(js k, JStr s)] (js k) = Inr s" for k s by (simp add: payload_text_def obj_get_def)
  have w: "well_formed v" and n: "byte_length v \<le> native_maxStringBytes" and x: "x = b64_encode b (utf8_encode v)"
    using e by (auto simp: native_execute_def js_inject base64Encode_def ob tx assertUtf8_def payload_error_def
      lone_surrogate_iff single_def)
  have "payload_binary b [(js ''encoded'', JStr x)] ''encoded'' native_maxStringBytes = Inr (utf8_encode v)"
    using n x by (simp add: payload_binary_def tx padded_base64.binary_exact [OF b64] byte_length_def utf8_length_def)
  moreover have "utf8_decode_fatal (utf8_encode v) = Some (if v \<noteq> [] \<and> hd v = 0xFEFF then tl v else v)"
    using fatal_round_trip [OF w] bom_dropped [of "tl v"] w by (cases v) auto
  ultimately show ?thesis by (simp add: native_execute_def js_inject base64Decode_def ob)
qed

end
