(* ===== verification/Wasm_Native_Replies.thy ===== *)
theory Wasm_Native_Replies
  imports Wasm_Native_Crypto
begin

text \<open>
  Replies of the native adapter and its qualification: every reply is a response the runtime accepts, and an adapter
  that was qualified reproduced every vector and covers every operation it claims.
\<close>

section \<open>Replies\<close>

text \<open>A failure the codec can put in a response: a catalog code with a short, control-free field; or the runtime's.\<close>

definition field_ok :: "jstr option \<Rightarrow> bool" where
  "field_ok f \<longleftrightarrow> (case f of None \<Rightarrow> True | Some t \<Rightarrow> bounded_text 512 (JStr t))"

definition reportable :: "native_failure + 'a \<Rightarrow> bool" where
  "reportable r \<longleftrightarrow>
     (case r of
        Inr x \<Rightarrow> True
      | Inl (PayloadError code f) \<Rightarrow> map_of GOFORGE_ABI_ERROR_CATALOG code \<noteq> None \<and> field_ok f
      | Inl (WasmThrown e) \<Rightarrow> False
      | Inl (RuntimeThrown m) \<Rightarrow> True)"

named_theorems reports

lemma reportable_and_then [reports]:
  "reportable r \<Longrightarrow> (\<And>x. reportable (f x)) \<Longrightarrow> reportable (and_then r f)"
  by (cases r) (auto simp: reportable_def)

lemma reportable_ok [reports]: "reportable (Inr x)"
  by (simp add: reportable_def)

lemma reportable_runtime [reports]: "reportable (from_runtime r)"
  by (cases r) (auto simp: reportable_def)

lemma reportable_unless [reports]: "reportable r \<Longrightarrow> reportable (unless bad r)"
  by (simp add: unless_def reportable_def)

definition known_code :: "string \<Rightarrow> bool" where
  "known_code code \<longleftrightarrow> map_of GOFORGE_ABI_ERROR_CATALOG (js code) \<noteq> None"

lemma known_codes [simp]:
  "known_code ''invalid_json''" "known_code ''unknown_field''" "known_code ''invalid_request''"
  "known_code ''input_too_large''" "known_code ''invalid_base64''" "known_code ''invalid_utf8''" "known_code ''invalid_key''"
  "known_code ''invalid_nonce''" "known_code ''authentication_failed''" "known_code ''unknown_operation''"
  by (simp_all add: known_code_def GOFORGE_ABI_ERROR_CATALOG_def js_inject)

lemma reportable_error: "known_code code \<Longrightarrow> field_ok (Some f) \<Longrightarrow> reportable (payload_error code f)"
  by (simp add: reportable_def payload_error_def known_code_def)

lemma reportable_fails: "known_code code \<Longrightarrow> reportable (payload_fails code)"
  by (simp add: reportable_def payload_fails_def known_code_def field_ok_def)

definition payload_names :: "string list" where
  "payload_names = [''value'', ''rules'', ''data'', ''key'', ''nonce'', ''aad'', ''plaintext'', ''ciphertext'', ''text'', ''encoded'']"

lemma field_names: "list_all (\<lambda>k. field_ok (Some (js ''payload.'' @ js k))) payload_names"
  by code_simp

lemma field_of [simp]: "k \<in> set payload_names \<Longrightarrow> field_ok (Some (js ''payload.'' @ js k))"
  using field_names by (simp add: list_all_iff)

lemma whole_fields: "list_all (\<lambda>f. field_ok (Some (js f)))
    [''payload'', ''payload.value'', ''payload.rules'', ''payload.text'', ''payload.key'', ''payload.nonce'', ''payload.encoded'',
     ''payload.ciphertext'']"
  by code_simp

lemma fields [simp]:
  "field_ok (Some (js ''payload''))" "field_ok (Some (js ''payload.value''))" "field_ok (Some (js ''payload.rules''))"
  "field_ok (Some (js ''payload.text''))" "field_ok (Some (js ''payload.key''))" "field_ok (Some (js ''payload.nonce''))"
  "field_ok (Some (js ''payload.encoded''))" "field_ok (Some (js ''payload.ciphertext''))"
  using whole_fields by simp_all

lemma reportable_object:
  assumes "list_all (\<lambda>k. k \<in> set payload_names) ks" "rs = map js ks"
  shows "reportable (payload_object payload rs optionals)"
proof -
  have "field_ok (Some (js ''payload.'' @ k))" if "k \<in> set rs" for k using that assms by (auto simp: list_all_iff)
  moreover have "find P rs = Some k \<Longrightarrow> k \<in> set rs" for P k by (auto simp: find_Some_iff)
  ultimately show ?thesis
    by (auto simp: payload_object_def intro: reportable_error reportable_fails reportable_ok split: jval.split option.split)
qed

lemma reportable_objects [reports]:
  "reportable (payload_object p [js ''value''] opt)" "reportable (payload_object p [js ''value'', js ''rules''] opt)"
  "reportable (payload_object p [] opt)" "reportable (payload_object p [js ''data''] opt)"
  "reportable (payload_object p [js ''key'', js ''data''] opt)" "reportable (payload_object p [js ''text''] opt)"
  "reportable (payload_object p [js ''encoded''] opt)" "reportable (payload_object p (aes_keys ''plaintext'') opt)"
  "reportable (payload_object p (aes_keys ''ciphertext'') opt)"
  by (rule reportable_object [of "[''value'']"] reportable_object [of "[''value'', ''rules'']"] reportable_object [of "[]"]
    reportable_object [of "[''data'']"] reportable_object [of "[''key'', ''data'']"] reportable_object [of "[''text'']"]
    reportable_object [of "[''encoded'']"] reportable_object [of "[''key'', ''nonce'', ''aad'', ''plaintext'']"]
    reportable_object [of "[''key'', ''nonce'', ''aad'', ''ciphertext'']"]; simp add: payload_names_def aes_keys_def; fail)+

lemma reportable_fields [reports]:
  "reportable (payload_text ob k)" "reportable (payload_flag ob k)" "reportable (payload_integer ob k)"
  "reportable (optionalText ob k)"
  by (auto simp: payload_text_def payload_flag_def payload_integer_def optionalText_def
    intro: reportable_fails reportable_ok split: jval.split)

lemma reportable_binary [reports]: "field_ok (Some f) \<Longrightarrow> reportable (native_binary b s f n)"
  by (auto simp: native_binary_def intro: reportable_error reportable_ok split: sum.split)

lemma reportable_payload_binary [reports]: "k \<in> set payload_names \<Longrightarrow> reportable (payload_binary b ob k n)"
  unfolding payload_binary_def by (intro reports) simp

lemma reportable_utf8 [reports]: "field_ok (Some f) \<Longrightarrow> reportable (assertUtf8 v f)"
  unfolding assertUtf8_def by (intro reports reportable_error) simp_all

lemma names_known [simp]: "''data'' \<in> set payload_names" "''key'' \<in> set payload_names" "''nonce'' \<in> set payload_names"
  "''aad'' \<in> set payload_names" "''plaintext'' \<in> set payload_names" "''ciphertext'' \<in> set payload_names"
  "''encoded'' \<in> set payload_names" "''text'' \<in> set payload_names"
  by (simp_all add: payload_names_def)

lemma reportable_texts: "reportable (normalize p)" "reportable (read_rules rules v)"
  unfolding normalize_def read_rules_def by (intro reports reportable_error reportable_fails; simp)+

lemma reportable_validate: "reportable (validate p)"
  unfolding validate_def by (intro reports reportable_texts)

lemma reportable_aes: "vf \<in> {''plaintext'', ''ciphertext''} \<Longrightarrow> reportable (aesInputs b wc ob vf d)"
  unfolding aesInputs_def
  by (intro reports reportable_error; (simp; fail)?)
     (auto intro!: reportable_error reportable_ok split: sum.split)

lemma reportable_crypto:
  "reportable (sha256 b wc p)" "reportable (hmacSha256 b wc p)" "reportable (aesGcmEncrypt b wc p)"
  "reportable (aesGcmDecrypt b wc p)" "reportable (base64Encode b p)" "reportable (base64Decode b p)"
  unfolding sha256_def hmacSha256_def aesGcmEncrypt_def aesGcmDecrypt_def base64Encode_def base64Decode_def
  by (auto intro!: reports reportable_error reportable_aes split: prod.split sum.split option.split)

lemma reportable_execute: "reportable (native_execute b wc operation p)"
  by (simp add: native_execute_def reportable_texts reportable_validate reportable_crypto reportable_fails)

text \<open>The results are values of the ABI.\<close>

lemma no_reserved [simp]: "\<not> reserved_key (js k) \<longleftrightarrow> k \<notin> {''__proto__'', ''constructor'', ''prototype''}"
  by (simp add: reserved_key_def js_inject)

lemma single_ok: "k \<notin> {''__proto__'', ''constructor'', ''prototype''} \<Longrightarrow> abi_ok 0 (single k s)"
  by (simp add: single_def MAX_JSON_DEPTH_def js_inject reserved_key_def)

lemma violations_ok: "abi_ok 0 (JObj [(js ''valid'', JBool v), (js ''violations'', JArr (map (\<lambda>c. JObj [(js ''code'', JStr (js c))]) cs))])"
  by (simp add: MAX_JSON_DEPTH_def reserved_key_def js_inject)

lemma execute_result:
  assumes "native_execute b wc operation p = Inr v"
  shows "abi_ok 0 v"
proof -
  have "abi_ok 0 (JObj [(js ''value'', JStr s)])" for s using single_ok [of "''value''" s] by (simp add: single_def)
  then show ?thesis
    using assms
    by (auto simp: native_execute_def normalize_def validate_def sha256_def hmacSha256_def aesGcmEncrypt_def aesGcmDecrypt_def
      base64Encode_def base64Decode_def payload_fails_def payload_error_def single_ok violations_ok MAX_JSON_DEPTH_def
      split: if_splits prod.splits sum.splits option.splits)
qed

lemma failed_response_ok:
  assumes "bounded_text MAX_ID_BYTES (JStr rid)" "map_of GOFORGE_ABI_ERROR_CATALOG code \<noteq> None" "field_ok f"
  shows "\<exists>r. failed_response rid code f = Inr r \<and> response_ok rid r"
proof -
  obtain msg retry where "map_of GOFORGE_ABI_ERROR_CATALOG code = Some (msg, retry)" using assms(2) by auto
  then have "createAbiFailureResponse rid code f None None =
      Inr (AbiFailure rid \<lparr> ae_code = code, ae_message = Some msg, ae_retryable = Some retry, ae_field = f \<rparr>)"
    using assms by (auto simp: catalog_entry_def createAbiFailureResponse_def assertIdentifier_def assertErrorField_def field_ok_def
      split: option.splits)
  then show ?thesis using created_ok(2) assms(2) by (auto simp: failed_response_def)
qed

lemma catalog_states:
  "map_of GOFORGE_ABI_ERROR_CATALOG (js ''cancellation_requested'') \<noteq> None"
  "map_of GOFORGE_ABI_ERROR_CATALOG (js ''deadline_exceeded'') \<noteq> None"
  by (simp_all add: GOFORGE_ABI_ERROR_CATALOG_def js_inject)

lemma dispatch_executes:
  assumes i: "bounded_text MAX_ID_BYTES (JStr (rq_id q))"
    and e: "native_execute b wc (rq_operation q) (rq_payload q) = r"
    and run: "\<not> nc_aborted ctx" "case nc_deadlineUnixMs ctx of None \<Rightarrow> True | Some d \<Rightarrow> now \<le> d"
  shows "native_dispatch b wc now q ctx =
    (case r of
       Inr v \<Rightarrow> Inr (AbiSuccess (rq_id q) v)
     | Inl (PayloadError code f) \<Rightarrow> failed_response (rq_id q) code f
     | Inl x \<Rightarrow> Inl x)"
proof -
  have n: "\<not> (case nc_deadlineUnixMs ctx of None \<Rightarrow> False | Some d \<Rightarrow> now > d)"
    using run(2) by (auto split: option.splits)
  show ?thesis
  proof (cases r)
    case (Inr v)
    then have "encodeAbiValue v = Inr v" using execute_result [of b wc] e by (simp add: encode_ok)
    then have "createAbiSuccessResponse (rq_id q) v = Inr (AbiSuccess (rq_id q) v)"
      using i by (simp add: createAbiSuccessResponse_def assertIdentifier_def)
    then show ?thesis using Inr e run(1) n by (simp add: native_dispatch_def Let_def)
  next
    case (Inl x)
    then show ?thesis using e run(1) n by (cases x) (simp_all add: native_dispatch_def Let_def)
  qed
qed

text \<open>
  C13: Every reply is accepted.  For a request with a valid id, whatever its operation and payload, the native adapter
  answers with a response the runtime's validation accepts unchanged; the only other outcome is what Web Crypto
  itself throws.
\<close>

theorem native_replies_accepted:
  assumes i: "bounded_text MAX_ID_BYTES (JStr (rq_id q))"
  shows "case native_dispatch b wc now q ctx of
      Inr r \<Rightarrow> validateAbiResponse (response_object r) (rq_id q) = Inr r
    | Inl e \<Rightarrow> (\<exists>m. e = RuntimeThrown m \<and> native_execute b wc (rq_operation q) (rq_payload q) = Inl e)"
proof (cases "nc_aborted ctx \<or> (case nc_deadlineUnixMs ctx of None \<Rightarrow> False | Some d \<Rightarrow> now > d)")
  case True
  then obtain code where c: "map_of GOFORGE_ABI_ERROR_CATALOG code \<noteq> None"
    and d: "native_dispatch b wc now q ctx = (case failed_response (rq_id q) code None of
       Inl (PayloadError code f) \<Rightarrow> failed_response (rq_id q) code f | r \<Rightarrow> r)"
    using catalog_states by (cases "nc_aborted ctx") (auto simp: native_dispatch_def Let_def)
  obtain r where "failed_response (rq_id q) code None = Inr r" "response_ok (rq_id q) r"
    using failed_response_ok [OF i c, of None] by (auto simp: field_ok_def)
  then show ?thesis unfolding d by (simp add: response_accepted)
next
  case False
  let ?r = "native_execute b wc (rq_operation q) (rq_payload q)"
  have d: "native_dispatch b wc now q ctx = (case ?r of Inr v \<Rightarrow> Inr (AbiSuccess (rq_id q) v)
      | Inl (PayloadError code f) \<Rightarrow> failed_response (rq_id q) code f | Inl x \<Rightarrow> Inl x)"
    by (rule dispatch_executes [OF i refl]) (use False in \<open>auto split: option.splits\<close>)
  have rep: "reportable ?r" by (rule reportable_execute)
  show ?thesis
  proof (cases ?r)
    case (Inr v)
    then have "response_ok (rq_id q) (AbiSuccess (rq_id q) v)" using i execute_result [OF Inr] by (simp add: response_ok_def)
    then show ?thesis using d Inr by (simp add: response_accepted del: response_object.simps)
  next
    case (Inl x)
    show ?thesis
    proof (cases x)
      case (PayloadError code f)
      then have "map_of GOFORGE_ABI_ERROR_CATALOG code \<noteq> None" "field_ok f" using rep Inl by (simp_all add: reportable_def)
      then obtain r where "failed_response (rq_id q) code f = Inr r" "response_ok (rq_id q) r"
        using failed_response_ok [OF i] by blast
      then show ?thesis using d Inl PayloadError by (simp add: response_accepted)
    next
      case (WasmThrown e)
      then show ?thesis using rep Inl by (simp add: reportable_def)
    next
      case (RuntimeThrown m)
      then show ?thesis using d Inl by simp
    qed
  qed
qed

section \<open>Qualification\<close>

text \<open>
  A qualified adapter is a new object with the fields of the one that was run, in the ledger; that one reproduced
  every vector, and a vector covers every operation it claims.
\<close>

theorem qualified_reproduces:
  assumes "qualifyNativeAdapter ledger ref a ask vs = Inr (ledger', q)"
  shows "q = a\<lparr>ad_ref := ref, ad_parityQualified := Some True\<rparr> \<and> ledger' = List.insert ref ledger \<and>
    list_all (\<lambda>v. \<exists>r. ask (vector_request v) = Inr r \<and> canonical r = expected_text v) vs \<and>
    (\<exists>ops. ad_operations a = Some ops \<and> set ops \<subseteq> sv_operation ` set vs)"
proof -
  have f: "List.map_filter (vector_failure ask) vs = []" and n: "vs \<noteq> []"
    using assms by (auto simp: qualifyNativeAdapter_def Let_def split: if_splits)
  obtain ops where ops: "ad_operations a = Some ops" "filter (\<lambda>x. x \<notin> set (covered ask vs)) ops = []"
    and q: "q = a\<lparr>ad_ref := ref, ad_parityQualified := Some True\<rparr>" "recordParityQualification ledger q = Inr ledger'"
    using assms f n by (auto simp: qualifyNativeAdapter_def Let_def split: option.splits if_splits)
      (metis from_codec.simps sum.exhaust sum.inject(2) Inl_Inr_False)
  have "vector_failure ask v = None" if "v \<in> set vs" for v
    using f that by (auto simp: List.map_filter_def filter_empty_conv)
  then have all: "\<exists>r. ask (vector_request v) = Inr r \<and> canonical r = expected_text v" if "v \<in> set vs" for v
    using that by (fastforce simp: vector_failure_def split: sum.splits if_splits)
  have "set ops \<subseteq> sv_operation ` set vs"
    using ops(2) by (auto simp: covered_def filter_empty_conv)
  then show ?thesis using all ops(1) q by (auto simp: list_all_iff recordParityQualification_def)
qed

text \<open>The adapter as it is made is not routed to, although it can be registered.\<close>

lemma unqualified_registers:
  "register (newRegistry []) (createNativeGoforgeAdapter 1 None) =
     Inr ((newRegistry [])\<lparr>rg_adapters := [(GOFORGE_NATIVE_ADAPTER_NAME, createNativeGoforgeAdapter 1 None)]\<rparr>)"
  by code_simp

end
