(* ===== verification/Wasm_Native_Vectors.thy ===== *)
theory Wasm_Native_Vectors
  imports Wasm_Native_Replies
begin

text \<open>
  Standard Base64, as an instance of what the native adapter relies on; GoForge's shared vectors
  (\<^verbatim>\<open>src/wasm/testdata/vectors/v1.json\<close>) run through the model; instances of the properties.
\<close>

section \<open>Standard Base64\<close>

definition sextet :: "int \<Rightarrow> 16 word" where
  "sextet n = word_of_int
     (if n < 26 then n + 65 else if n < 52 then n + 71 else if n < 62 then n - 4 else if n = 62 then 43 else 47)"

definition sextet_value :: "16 word \<Rightarrow> int" where
  "sextet_value c =
     (let n = uint c
      in if n = 43 then 62 else if n = 47 then 63 else if n < 58 then n + 4 else if n < 91 then n - 65 else n - 71)"

fun std_encode :: "bytes \<Rightarrow> jstr" where
  "std_encode [] = []"
| "std_encode [x] = [sextet (uint x div 4), sextet (uint x mod 4 * 16), 61, 61]"
| "std_encode [x, y] =
     [sextet (uint x div 4), sextet (uint x mod 4 * 16 + uint y div 16), sextet (uint y mod 16 * 4), 61]"
| "std_encode (x # y # z # s) =
     sextet (uint x div 4) # sextet (uint x mod 4 * 16 + uint y div 16) # sextet (uint y mod 16 * 4 + uint z div 64) #
     sextet (uint z mod 64) # std_encode s"

definition first_byte :: "16 word \<Rightarrow> 16 word \<Rightarrow> 8 word" where
  "first_byte p q = word_of_int (sextet_value p * 4 + sextet_value q div 16)"

definition second_byte :: "16 word \<Rightarrow> 16 word \<Rightarrow> 8 word" where
  "second_byte q r = word_of_int (sextet_value q mod 16 * 16 + sextet_value r div 4)"

definition third_byte :: "16 word \<Rightarrow> 16 word \<Rightarrow> 8 word" where
  "third_byte r t = word_of_int (sextet_value r mod 4 * 64 + sextet_value t)"

fun std_decode :: "jstr \<Rightarrow> jstr + bytes" where
  "std_decode [] = Inr []"
| "std_decode (p # q # r # t # s) =
     (if s = [] \<and> r = 61 \<and> t = 61 then Inr [first_byte p q]
      else if s = [] \<and> t = 61 then Inr [first_byte p q, second_byte q r]
      else and_then (std_decode s) (\<lambda>bs. Inr (first_byte p q # second_byte q r # third_byte r t # bs)))"
| "std_decode _ = Inl (js ''Invalid Base64'')"

definition std_base64 :: base64 where
  "std_base64 = \<lparr> b64_encode = std_encode, b64_decode = std_decode \<rparr>"

lemma sextet_point: "0 \<le> n \<Longrightarrow> n < 64 \<Longrightarrow> uint (sextet n) =
    (if n < 26 then n + 65 else if n < 52 then n + 71 else if n < 62 then n - 4 else if n = 62 then 43 else 47)"
  by (simp add: sextet_def uint_word_of_int del: of_int_add of_int_diff)

lemma sextet_value [simp]: "0 \<le> n \<Longrightarrow> n < 64 \<Longrightarrow> sextet_value (sextet n) = n"
  by (simp add: sextet_value_def sextet_point)

lemma sextet_b64 [simp]: "0 \<le> n \<Longrightarrow> n < 64 \<Longrightarrow> is_b64 (sextet n)"
  by (simp add: is_b64_def is_alpha_def is_upper_def is_lower_def is_digit_def word_le_def word_uint_eq_iff sextet_point)

lemma b64_no_pad: "is_b64 c \<Longrightarrow> c \<noteq> 61"
  by (auto simp: is_b64_def is_alpha_def is_upper_def is_lower_def is_digit_def)

lemma byte_parts [simp]:
  fixes x :: "8 word"
  shows "uint x div 4 < 64" "uint x div 16 < 16" "uint x div 64 < 4" "0 \<le> uint x div 4" "0 \<le> uint x div 16" "0 \<le> uint x div 64"
  using uint_lt2p [of x] by (simp_all add: div_less_iff_less_mult pos_imp_zdiv_nonneg_iff)

lemma sextet_ranges [simp]:
  fixes x y :: "8 word"
  shows "uint x mod 4 * 16 + uint y div 16 < 64" "uint x mod 16 * 4 + uint y div 64 < 64" "uint x mod 4 * 16 < 64"
    "uint x mod 16 * 4 < 64"
  using byte_parts [of y] pos_mod_bound [of 4 "uint x"] pos_mod_bound [of 16 "uint x"] by linarith+

lemma first_byte: "0 \<le> e \<Longrightarrow> e < 16 \<Longrightarrow> first_byte (sextet (uint x div 4)) (sextet (uint x mod 4 * 16 + e)) = x"
proof -
  assume e: "0 \<le> e" "e < 16"
  have r: "uint x mod 4 * 16 + e < 64" using e pos_mod_bound [of 4 "uint x"] by linarith
  have "(uint x mod 4 * 16 + e) div 16 = uint x mod 4" using e by simp
  then show ?thesis using e r by (simp add: first_byte_def)
qed

lemma second_byte: "0 \<le> d \<Longrightarrow> d < 4 \<Longrightarrow> 0 \<le> e \<Longrightarrow> e < 4 \<Longrightarrow>
    second_byte (sextet (d * 16 + uint y div 16)) (sextet (uint y mod 16 * 4 + e)) = y"
proof -
  assume d: "0 \<le> d" "d < 4" and e: "0 \<le> e" "e < 4"
  have r: "uint y mod 16 * 4 + e < 64" "d * 16 + uint y div 16 < 64"
    using d e pos_mod_bound [of 16 "uint y"] byte_parts(2) [of y] by linarith+
  have "(d * 16 + uint y div 16) mod 16 = uint y div 16" "(uint y mod 16 * 4 + e) div 4 = uint y mod 16"
    using e byte_parts(2,5) [of y] by simp_all
  then show ?thesis using d e r by (simp add: second_byte_def del: of_int_add of_int_mult)
qed

lemma third_byte: "0 \<le> d \<Longrightarrow> d < 16 \<Longrightarrow> third_byte (sextet (d * 4 + uint z div 64)) (sextet (uint z mod 64)) = z"
proof -
  assume d: "0 \<le> d" "d < 16"
  have r: "d * 4 + uint z div 64 < 64" using d byte_parts(3) [of z] by linarith
  have "(d * 4 + uint z div 64) mod 4 = uint z div 64" using byte_parts(3,6) [of z] by simp
  then show ?thesis using d r by (simp add: third_byte_def del: of_int_add of_int_mult)
qed

lemma mod_parts [simp]: "0 \<le> uint (x :: 8 word) mod n \<or> n \<le> 0"
  by (cases "0 < n") auto

lemma sextet_not_pad [simp]: "0 \<le> n \<Longrightarrow> n < 64 \<Longrightarrow> sextet n \<noteq> 61"
  using b64_no_pad sextet_b64 by blast

lemma std_round_trip: "std_decode (std_encode bs) = Inr bs"
proof (induction bs rule: std_encode.induct)
  case (2 x)
  show ?case using first_byte [of 0 x] by simp
next
  case (3 x y)
  show ?case using first_byte [of "uint y div 16" x] second_byte [of "uint x mod 4" 0 y] by simp
next
  case (4 x y z s)
  then show ?case
    using first_byte [of "uint y div 16" x] second_byte [of "uint x mod 4" "uint z div 64" y]
      third_byte [of "uint y mod 16" z] by simp
qed simp

lemma std_length: "int (length (std_encode bs)) = encodedLength (int (length bs))"
proof (induction bs rule: std_encode.induct)
  case (4 x y z s)
  have "(int (length s) + 5) div 3 = (int (length s) + 2) div 3 + 1" by presburger
  then show ?case using 4 by (simp add: encodedLength_def algebra_simps)
qed (simp_all add: encodedLength_def)

lemma loose_unit: "is_b64 c \<Longrightarrow> loose_base64 (c # s) = loose_base64 s"
  by (simp add: loose_base64_def)

lemma loose_pads: "loose_base64 []" "loose_base64 [61]" "loose_base64 [61, 61]"
proof -
  have "\<not> is_b64 61" using b64_no_pad by blast
  then show "loose_base64 []" "loose_base64 [61]" "loose_base64 [61, 61]" by (simp_all add: loose_base64_def)
qed

lemma std_loose: "loose_base64 (std_encode bs)"
  by (induction bs rule: std_encode.induct) (simp_all add: loose_unit loose_pads)

interpretation std: padded_base64 std_base64
  by standard (simp_all add: std_base64_def std_round_trip std_length std_loose)

section \<open>Shared vectors\<close>

definition sample_crypto :: "bytes web_crypto" where
  "sample_crypto =
     \<lparr> wc_importKey = (\<lambda>_ raw _ _. Inr raw), wc_exportKey = (\<lambda>_ k. Inr k), wc_generateKey = (\<lambda>_ _ _ _. Inr ([], [])),
       wc_encrypt = (\<lambda>_ k p. Inr (p @ replicate 16 0)), wc_decrypt = (\<lambda>_ k c. Inr (take (length c - 16) c)),
       wc_sign = (\<lambda>_ k m. Inr (k @ m)), wc_verify = (\<lambda>_ k g m. Inr (g = k @ m)), wc_digest = (\<lambda>m. Inr m),
       wc_deriveBits = (\<lambda>_ _ _. Inr []), wc_deriveKey = (\<lambda>k _ _. Inr k) \<rparr>"

definition shared :: "string \<Rightarrow> string \<Rightarrow> jobj \<Rightarrow> jobj \<Rightarrow> shared_vector" where
  "shared i operation payload result =
     \<lparr> sv_name = js i, sv_operation = js operation, sv_payload = JObj payload, sv_id = Some (js i),
       sv_response = [(js ''abi'', JStr GOFORGE_ABI_V1), (js ''id'', JStr (js i)), (js ''ok'', JBool True), (js ''result'', JObj result)] \<rparr>"

text \<open>Four of the vectors; the sequence \<open>[0xE9]\<close> is the accented letter of the first.\<close>

definition normalize_vector :: shared_vector where
  "normalize_vector = shared ''normalize-1'' ''text.normalize''
     [(js ''value'', JStr (js ''  H'' @ [0xE9] @ js ''LLo '' @ [9] @ js '' WORLD'' @ [10])), (js ''trim'', JBool True),
      (js ''collapse_whitespace'', JBool True), (js ''lowercase_ascii'', JBool True)]
     [(js ''value'', JStr (js ''h'' @ [0xE9] @ js ''llo world''))]"

definition validate_vector :: shared_vector where
  "validate_vector = shared ''validate-1'' ''text.validate''
     [(js ''value'', JStr (js ''abc 1'')), (js ''rules'', JObj [(js ''required'', JBool True), (js ''ascii'', JBool True),
       (js ''forbid_control'', JBool True), (js ''forbid_whitespace'', JBool True), (js ''min_bytes'', JNum 4),
       (js ''max_bytes'', JNum 8), (js ''min_runes'', JNum 4), (js ''max_runes'', JNum 8), (js ''prefix'', JStr (js ''abc'')),
       (js ''suffix'', JStr (js ''1''))])]
     [(js ''valid'', JBool False), (js ''violations'', JArr [JObj [(js ''code'', JStr (js ''whitespace''))]])]"

definition encode_vector :: shared_vector where
  "encode_vector = shared ''base64-encode-1'' ''encoding.base64.encode'' [(js ''text'', JStr (js ''hello''))]
     [(js ''encoded'', JStr (js ''aGVsbG8=''))]"

definition decode_vector :: shared_vector where
  "decode_vector = shared ''base64-decode-1'' ''encoding.base64.decode'' [(js ''encoded'', JStr (js ''aGVsbG8=''))]
     [(js ''text'', JStr (js ''hello''))]"

definition native_run :: "shared_vector \<Rightarrow> native_failure + jval" where
  "native_run v = native_execute std_base64 sample_crypto (sv_operation v) (sv_payload v)"

definition vector_result :: "shared_vector \<Rightarrow> jval" where
  "vector_result v = obj_get (sv_response v) (js ''result'')"

text \<open>The model reproduces them.\<close>

lemma vectors_reproduced:
  "native_run normalize_vector = Inr (vector_result normalize_vector)"
  "native_run validate_vector = Inr (vector_result validate_vector)"
  "native_run encode_vector = Inr (vector_result encode_vector)"
  "native_run decode_vector = Inr (vector_result decode_vector)"
  by code_simp+

section \<open>Instances\<close>

theorem normalize_stable_witness:
  "normalize (JObj (obj_set (js ''value'') (JStr (js ''a b'')) [(js ''value'', JStr (js '' A  B'')), (js ''trim'', JBool True),
      (js ''collapse_whitespace'', JBool True), (js ''lowercase_ascii'', JBool True)])) =
    Inr (JObj [(js ''value'', JStr (js ''a b''))])"
  by (rule normalize_stable) code_simp

text \<open>A text with a leading byte-order mark comes back without it.\<close>

theorem base64_text_round_trip_witness:
  "native_execute std_base64 sample_crypto (js ''encoding.base64.decode'') (JObj [(js ''encoded'', JStr (js ''77u/aGk=''))]) =
    Inr (single ''text'' (js ''hi''))"
proof -
  have "native_execute std_base64 sample_crypto (js ''encoding.base64.encode'') (JObj [(js ''text'', JStr (0xFEFF # js ''hi''))]) =
      Inr (single ''encoded'' (js ''77u/aGk=''))"
    by code_simp
  from base64_text_round_trip [OF std.padded_base64_axioms this] show ?thesis by simp
qed

theorem native_replies_accepted_witness:
  "validateAbiResponse (response_object (AbiSuccess (js ''base64-encode-1'') (vector_result encode_vector)))
    (js ''base64-encode-1'') = Inr (AbiSuccess (js ''base64-encode-1'') (vector_result encode_vector))"
proof -
  let ?q = "vector_request encode_vector" and ?ctx = "\<lparr> nc_aborted = False, nc_deadlineUnixMs = None \<rparr>"
  have i: "bounded_text MAX_ID_BYTES (JStr (rq_id ?q))" by code_simp
  have "rq_id ?q = js ''base64-encode-1''" by code_simp
  moreover have "native_dispatch std_base64 sample_crypto 0 ?q ?ctx =
      Inr (AbiSuccess (js ''base64-encode-1'') (vector_result encode_vector))"
    by code_simp
  ultimately show ?thesis using native_replies_accepted [OF i, of std_base64 sample_crypto 0 ?ctx] by simp
qed

theorem native_aes_round_trip_witness:
  "\<exists>c. native_execute std_base64 sample_crypto (js ''crypto.aes-gcm.decrypt'') (JObj (decrypt_payload
      [(js ''key'', JStr (js ''AAAAAAAAAAAAAAAAAAAAAA=='')), (js ''nonce'', JStr (js ''AAAAAAAAAAAAAAAA'')), (js ''aad'', JStr []),
       (js ''plaintext'', JStr (js ''aGk=''))] c)) = Inr (single ''plaintext'' (js ''aGk=''))"
proof -
  let ?ob = "[(js ''key'', JStr (js ''AAAAAAAAAAAAAAAAAAAAAA=='')), (js ''nonce'', JStr (js ''AAAAAAAAAAAAAAAA'')), (js ''aad'', JStr []),
       (js ''plaintext'', JStr (js ''aGk=''))]"
  have e: "native_execute std_base64 sample_crypto (js ''crypto.aes-gcm.encrypt'') (JObj ?ob) =
      Inr (single ''ciphertext'' (js ''aGkAAAAAAAAAAAAAAAAAAAAA''))"
    by code_simp
  have "\<exists>p. obj_get ?ob (js ''plaintext'') = JStr p \<and> native_execute std_base64 sample_crypto (js ''crypto.aes-gcm.decrypt'')
      (JObj (decrypt_payload ?ob (js ''aGkAAAAAAAAAAAAAAAAAAAAA''))) = Inr (single ''plaintext'' p)"
    by (rule native_aes_round_trip [OF std.padded_base64_axioms _ e]) (auto simp: sample_crypto_def AES_GCM_TAG_BYTES_def)
  then show ?thesis by (auto simp: obj_get_def js_inject)
qed

end
