(* ===== verification/Wasm_Component.thy ===== *)
theory Wasm_Component
  imports Wasm_Runtime
begin

text \<open>
  The factory of generated components, \<^verbatim>\<open>src/wasm/component.ts\<close>, and the WASI host it gives them,
  \<^verbatim>\<open>src/wasm/wasi.ts\<close>.  Importing a glue module and compiling a core module are the runtime's; what a glue
  module does while it instantiates is a tree of its requests.  Calls of \<open>create\<close> are taken one at a time.
\<close>

section \<open>Glue modules\<close>

text \<open>A run of \<open>instantiate\<close>: it requests core modules, one after the other, and ends.\<close>

datatype ('m, 'r) glue_run =
    Finished "cause + 'r"
  | Request jstr "cause + 'm \<Rightarrow> ('m, 'r) glue_run"

primrec run_glue :: "('m, 'r) glue_run \<Rightarrow> (jstr \<Rightarrow> 'c \<Rightarrow> (cause + 'm) \<times> 'c) \<Rightarrow> 'c \<Rightarrow> (cause + 'r) \<times> 'c" where
  "run_glue (Finished r) getCoreModule c = (r, c)"
| "run_glue (Request name k) getCoreModule c =
     (case getCoreModule name c of (m, c') \<Rightarrow> run_glue (k m) getCoreModule c')"

record generated_state =
  gs_clockChecked :: bool
  gs_nowUnixMilliseconds :: int
  gs_cancellationChecked :: bool
  gs_cancellationToken :: jstr
  gs_cancellationRequested :: bool

text \<open>The operations of a component; a missing field is not a function.\<close>

record generated_operations =
  go_manifest :: "(cause + jstr) option"
  go_dispatch :: "(jstr \<Rightarrow> generated_state \<Rightarrow> cause + jstr) option"

record generated_root =
  gr_operations :: "generated_operations option"
  gr_versioned :: "generated_operations option"

section \<open>The factory\<close>

text \<open>
  The two caches, by the reference of the bundle, and what was imported and compiled.  A cache keeps promises: a
  failure is cached too.
\<close>

type_synonym 'm modules = "(jstr \<times> (cause + 'm)) list"

record ('g, 'm) factory =
  fa_glue :: "(nat \<times> (cause + 'g)) list"
  fa_modules :: "(nat \<times> 'm modules) list"
  fa_imported :: "bytes list"
  fa_compiled :: "bytes list"

definition newFactory :: "('g, 'm) factory" where
  "newFactory = \<lparr> fa_glue = [], fa_modules = [], fa_imported = [], fa_compiled = [] \<rparr>"

text \<open>The runtime: \<^verbatim>\<open>import\<close> of a blob (None: the module has no \<open>instantiate\<close>) and \<^verbatim>\<open>WebAssembly.compile\<close>.\<close>

record ('g, 'm) module_host =
  mh_import :: "bytes \<Rightarrow> unit + 'g option"
  mh_compile :: "bytes \<Rightarrow> cause + 'm"

definition is_compatibility :: "cause \<Rightarrow> bool" where
  "is_compatibility c \<longleftrightarrow> (case c of RuntimeCause e \<Rightarrow> we_class e = CompatibilityErr | OtherCause \<Rightarrow> False)"

definition incompatible :: "string \<Rightarrow> cause" where
  "incompatible m = RuntimeCause (compatibility_error (js m))"

definition invocation_failure :: "string \<Rightarrow> cause" where
  "invocation_failure m = RuntimeCause (invocation_error (js m) None)"

definition importGlue :: "('g, 'm) module_host \<Rightarrow> bytes \<Rightarrow> cause + 'g" where
  "importGlue host bs =
     (case mh_import host bs of
        Inl _ \<Rightarrow> Inl (invocation_failure ''the verified component glue could not be imported'')
      | Inr None \<Rightarrow> Inl (incompatible ''the verified glue does not export a jco async instantiate function'')
      | Inr (Some g) \<Rightarrow> Inr g)"

definition resolveGlue ::
  "('g, 'm) module_host \<Rightarrow> nat \<Rightarrow> verified_bundle \<Rightarrow> ('g, 'm) factory \<Rightarrow> (cause + 'g) \<times> ('g, 'm) factory" where
  "resolveGlue host ref bundle fa =
     (case map_of (fa_glue fa) ref of
        Some g \<Rightarrow> (g, fa)
      | None \<Rightarrow>
          (let g = importGlue host (vb_glueBytes bundle)
           in (g, fa\<lparr>fa_glue := (ref, g) # fa_glue fa, fa_imported := fa_imported fa @ [vb_glueBytes bundle]\<rparr>)))"

definition unmanifested :: "jstr \<Rightarrow> cause" where
  "unmanifested name = RuntimeCause (compatibility_error
     (js ''the generated glue requested unmanifested core module '' @ json_quote name))"

text \<open>\<^verbatim>\<open>getCoreModule\<close>, over the modules compiled so far and the bytes handed to the compiler.\<close>

definition getCoreModule ::
  "('g, 'm) module_host \<Rightarrow> verified_bundle \<Rightarrow> jstr \<Rightarrow> 'm modules \<times> bytes list \<Rightarrow> (cause + 'm) \<times> ('m modules \<times> bytes list)" where
  "getCoreModule host bundle name c =
     (case c of (compiled, done_bytes) \<Rightarrow>
        (case map_of compiled name of
           Some m \<Rightarrow> (m, c)
         | None \<Rightarrow>
             (case map_of (vb_coreModuleBytes bundle) name of
                None \<Rightarrow> (Inl (unmanifested name), c)
              | Some bs \<Rightarrow> (mh_compile host bs, ((name, mh_compile host bs) # compiled, done_bytes @ [bs])))))"

record component_instance =
  ci_operations :: generated_operations
  ci_closed :: bool

definition usable_operations :: "generated_root \<Rightarrow> cause + generated_operations" where
  "usable_operations r =
     (case (case gr_operations r of Some x \<Rightarrow> Some x | None \<Rightarrow> gr_versioned r) of
        Some ops \<Rightarrow>
          if go_manifest ops = None \<or> go_dispatch ops = None
          then Inl (incompatible ''the generated component does not export pointerbyte:goforge/operations@0.1.0'')
          else Inr ops
      | None \<Rightarrow> Inl (incompatible ''the generated component does not export pointerbyte:goforge/operations@0.1.0''))"

definition createComponent ::
  "('g, 'm) module_host \<Rightarrow> bool \<Rightarrow> ('g \<Rightarrow> ('m, generated_root) glue_run) \<Rightarrow> nat \<Rightarrow> verified_bundle \<Rightarrow> ('g, 'm) factory \<Rightarrow>
   (cause + component_instance) \<times> ('g, 'm) factory" where
  "createComponent host cacheCompiledModules instantiate ref bundle fa =
     (case resolveGlue host ref bundle fa of
        (Inl e, fa1) \<Rightarrow> (Inl e, fa1)
      | (Inr g, fa1) \<Rightarrow>
          (let known = (case map_of (fa_modules fa1) ref of Some ms \<Rightarrow> ms | None \<Rightarrow> []);
               (r, compiled, bs) = run_glue (instantiate g) (getCoreModule host bundle) (known, []);
               fa2 = fa1\<lparr>fa_compiled := fa_compiled fa1 @ bs,
                 fa_modules := (if cacheCompiledModules then AList.update ref compiled (fa_modules fa1) else fa_modules fa1)\<rparr>
           in case r of
                Inl cause \<Rightarrow>
                  (Inl (if is_compatibility cause then cause else invocation_failure ''generated component instantiation failed''), fa2)
              | Inr exported \<Rightarrow>
                  (case usable_operations exported of
                     Inl e \<Rightarrow> (Inl e, fa2)
                   | Inr ops \<Rightarrow> (Inr \<lparr> ci_operations = ops, ci_closed = False \<rparr>, fa2))))"

section \<open>Instances\<close>

definition toGeneratedState :: "execution_state \<Rightarrow> generated_state" where
  "toGeneratedState st =
     \<lparr> gs_clockChecked = clockChecked st,
       gs_nowUnixMilliseconds = (if nowUnixMilliseconds st < 0 then - \<lfloor>- nowUnixMilliseconds st\<rfloor> else \<lfloor>nowUnixMilliseconds st\<rfloor>),
       gs_cancellationChecked = cancellationChecked st, gs_cancellationToken = cancellationToken st,
       gs_cancellationRequested = cancellationRequested st \<rparr>"

definition assertOpen :: "bool \<Rightarrow> cause + unit" where
  "assertOpen was_closed = (if was_closed then Inl (invocation_failure ''the generated component instance is closed'') else Inr ())"

definition instance_manifest :: "component_instance \<Rightarrow> cause + jstr" where
  "instance_manifest i = and_then (assertOpen (ci_closed i)) (\<lambda>_. the (go_manifest (ci_operations i)))"

definition instance_dispatch :: "component_instance \<Rightarrow> jstr \<Rightarrow> execution_state \<Rightarrow> cause + jstr" where
  "instance_dispatch i request st =
     and_then (assertOpen (ci_closed i)) (\<lambda>_. the (go_dispatch (ci_operations i)) request (toGeneratedState st))"

definition instance_close :: "component_instance \<Rightarrow> component_instance" where
  "instance_close i = i\<lparr>ci_closed := True\<rparr>"

section \<open>Properties\<close>

text \<open>Compiled modules are those of the bundle, each name once.\<close>

definition compiled_inv :: "('g, 'm) module_host \<Rightarrow> verified_bundle \<Rightarrow> 'm modules \<Rightarrow> bool" where
  "compiled_inv host b ms \<longleftrightarrow>
     distinct (map fst ms) \<and>
     list_all (\<lambda>(name, m). \<exists>bs. map_of (vb_coreModuleBytes b) name = Some bs \<and> m = mh_compile host bs) ms"

text \<open>A run compiles what was not compiled before, from the bytes of the bundle.\<close>

definition extends :: "('g, 'm) module_host \<Rightarrow> verified_bundle \<Rightarrow> 'm modules \<times> bytes list \<Rightarrow> 'm modules \<times> bytes list \<Rightarrow> bool" where
  "extends host b c c' \<longleftrightarrow>
     (compiled_inv host b (fst c) \<longrightarrow> compiled_inv host b (fst c')) \<and>
     (\<exists>new extra. fst c' = new @ fst c \<and> snd c' = snd c @ extra \<and> length extra = length new \<and>
       set extra \<subseteq> snd ` set (vb_coreModuleBytes b))"

lemma extends_refl: "extends host b c c"
  by (auto simp: extends_def)

lemma extends_trans:
  assumes c: "extends host b c d" and d: "extends host b d e"
  shows "extends host b c e"
proof -
  obtain n1 x1 where 1: "fst d = n1 @ fst c" "snd d = snd c @ x1" "length x1 = length n1" "set x1 \<subseteq> snd ` set (vb_coreModuleBytes b)"
    using c unfolding extends_def by blast
  obtain n2 x2 where 2: "fst e = n2 @ fst d" "snd e = snd d @ x2" "length x2 = length n2" "set x2 \<subseteq> snd ` set (vb_coreModuleBytes b)"
    using d unfolding extends_def by blast
  have "fst e = (n2 @ n1) @ fst c \<and> snd e = snd c @ (x1 @ x2) \<and> length (x1 @ x2) = length (n2 @ n1) \<and>
      set (x1 @ x2) \<subseteq> snd ` set (vb_coreModuleBytes b)"
    using 1 2 by simp
  moreover have "compiled_inv host b (fst c) \<longrightarrow> compiled_inv host b (fst e)" using c d by (simp add: extends_def)
  ultimately show ?thesis unfolding extends_def by blast
qed

lemma get_core_module: "extends host b c (snd (getCoreModule host b name c))"
proof (cases c)
  case (Pair ms done_bytes)
  show ?thesis
  proof (cases "map_of ms name")
    case None
    then have fresh: "name \<notin> fst ` set ms" by (simp add: map_of_eq_None_iff)
    show ?thesis
    proof (cases "map_of (vb_coreModuleBytes b) name")
      case (Some bs)
      then have "bs \<in> snd ` set (vb_coreModuleBytes b)" by (force dest: map_of_SomeD)
      then show ?thesis using Pair None Some fresh
        by (auto simp: getCoreModule_def extends_def compiled_inv_def intro!: exI [of _ "[(name, mh_compile host bs)]"] exI [of _ "[bs]"])
    qed (simp add: Pair None getCoreModule_def extends_refl)
  qed (simp add: Pair getCoreModule_def extends_refl)
qed

lemma run_extends: "extends host b c (snd (run_glue r (getCoreModule host b) c))"
proof (induction r arbitrary: c)
  case (Request name k)
  obtain m c' where g: "getCoreModule host b name c = (m, c')" by (metis surj_pair)
  have "extends host b c' (snd (run_glue (k m) (getCoreModule host b) c'))" by (rule Request.IH) simp
  moreover have "extends host b c c'" using get_core_module [of host b c name] g by simp
  ultimately show ?case using g by (auto intro: extends_trans)
qed (simp add: extends_refl)

text \<open>What the modules of a run are: those of the bundle, or refused.\<close>

definition right_module :: "('g, 'm) module_host \<Rightarrow> verified_bundle \<Rightarrow> jstr \<Rightarrow> cause + 'm \<Rightarrow> bool" where
  "right_module host b name m \<longleftrightarrow>
     (case map_of (vb_coreModuleBytes b) name of Some bs \<Rightarrow> m = mh_compile host bs | None \<Rightarrow> m = Inl (unmanifested name))"

lemma served_right: "compiled_inv host b (fst c) \<Longrightarrow> right_module host b name (fst (getCoreModule host b name c))"
proof (cases c)
  case (Pair ms done_bytes)
  assume inv: "compiled_inv host b (fst c)"
  show ?thesis
  proof (cases "map_of ms name")
    case (Some m)
    then have "(name, m) \<in> set ms" by (rule map_of_SomeD)
    then show ?thesis using inv Pair Some by (fastforce simp: compiled_inv_def list_all_iff right_module_def getCoreModule_def)
  qed (simp add: Pair getCoreModule_def right_module_def split: option.split)
qed

section \<open>Histories\<close>

text \<open>
  The caches between calls: each bundle, known by its reference, had its glue imported once, and its compiled modules
  are those of its bytes; with the cache of modules on, nothing was compiled twice.
\<close>

definition factory_inv :: "('g, 'm) module_host \<Rightarrow> (nat \<Rightarrow> verified_bundle) \<Rightarrow> ('g, 'm) factory \<Rightarrow> bool" where
  "factory_inv host bundles fa \<longleftrightarrow>
     distinct (map fst (fa_glue fa)) \<and>
     list_all (\<lambda>(ref, g). g = importGlue host (vb_glueBytes (bundles ref))) (fa_glue fa) \<and>
     fa_imported fa = rev (map (\<lambda>(ref, g). vb_glueBytes (bundles ref)) (fa_glue fa)) \<and>
     distinct (map fst (fa_modules fa)) \<and>
     list_all (\<lambda>(ref, ms). compiled_inv host (bundles ref) ms) (fa_modules fa) \<and>
     length (fa_compiled fa) = sum_list (map (\<lambda>(ref, ms). length ms) (fa_modules fa)) \<and>
     list_all (\<lambda>bs. \<exists>ref. bs \<in> snd ` set (vb_coreModuleBytes (bundles ref))) (fa_compiled fa)"

lemma resolve_glue_inv:
  assumes "factory_inv host bundles fa" "resolveGlue host ref (bundles ref) fa = (r, fa')"
  shows "factory_inv host bundles fa'" "r = importGlue host (vb_glueBytes (bundles ref))"
proof (atomize (full), cases "map_of (fa_glue fa) ref")
  case None
  then have "ref \<notin> fst ` set (fa_glue fa)" by (simp add: map_of_eq_None_iff)
  then show "factory_inv host bundles fa' \<and> r = importGlue host (vb_glueBytes (bundles ref))"
    using assms None by (auto simp: resolveGlue_def Let_def factory_inv_def)
next
  case (Some g)
  then have "(ref, g) \<in> set (fa_glue fa)" by (rule map_of_SomeD)
  then show "factory_inv host bundles fa' \<and> r = importGlue host (vb_glueBytes (bundles ref))"
    using assms Some by (auto simp: resolveGlue_def factory_inv_def list_all_iff)
qed

lemma update_modules:
  assumes d: "distinct (map fst ms)" and m: "(case map_of ms ref of Some old \<Rightarrow> old | None \<Rightarrow> []) = old"
  shows "distinct (map fst (AList.update ref (new @ old) ms))"
    "sum_list (map (\<lambda>(ref, ms). length ms) (AList.update ref (new @ old) ms)) =
       sum_list (map (\<lambda>(ref, ms). length ms) ms) + length new"
    "set (AList.update ref (new @ old) ms) \<subseteq> insert (ref, new @ old) (set ms)"
proof -
  show "distinct (map fst (AList.update ref (new @ old) ms))" using d by (rule distinct_update)
  show "sum_list (map (\<lambda>(ref, ms). length ms) (AList.update ref (new @ old) ms)) =
       sum_list (map (\<lambda>(ref, ms). length ms) ms) + length new"
    using m by (induction ms) auto
  show "set (AList.update ref (new @ old) ms) \<subseteq> insert (ref, new @ old) (set ms)"
    by (induction ms) auto
qed

lemma create_inv:
  assumes inv: "factory_inv host bundles fa"
    and c: "createComponent host True instantiate ref (bundles ref) fa = (r, fa')"
  shows "factory_inv host bundles fa'"
proof -
  obtain g fa1 where g: "resolveGlue host ref (bundles ref) fa = (g, fa1)" by (metis surj_pair)
  have inv1: "factory_inv host bundles fa1" by (rule resolve_glue_inv(1) [OF inv g])
  show ?thesis
  proof (cases g)
    case (Inl e)
    then show ?thesis using c g inv1 by (simp add: createComponent_def)
  next
    case (Inr glue)
    let ?known = "case map_of (fa_modules fa1) ref of Some ms \<Rightarrow> ms | None \<Rightarrow> []"
    obtain res compiled bs where run: "run_glue (instantiate glue) (getCoreModule host (bundles ref)) (?known, []) = (res, compiled, bs)"
      by (metis surj_pair)
    have known: "compiled_inv host (bundles ref) ?known"
      using inv1 by (auto simp: factory_inv_def list_all_iff compiled_inv_def split: option.splits dest!: map_of_SomeD)
    have "extends host (bundles ref) (?known, []) (compiled, bs)"
      using run_extends [of host "bundles ref" "(?known, [])" "instantiate glue"] run by simp
    then obtain new where new: "compiled = new @ ?known" "length bs = length new" "compiled_inv host (bundles ref) compiled"
      "set bs \<subseteq> snd ` set (vb_coreModuleBytes (bundles ref))"
      using known by (auto simp: extends_def)
    let ?fa2 = "fa1\<lparr>fa_compiled := fa_compiled fa1 @ bs, fa_modules := AList.update ref compiled (fa_modules fa1)\<rparr>"
    have "distinct (map fst (fa_modules fa1))" using inv1 by (simp add: factory_inv_def)
    note u = update_modules [OF this refl, of ref new, folded new(1)]
    have "factory_inv host bundles ?fa2"
      using inv1 u new unfolding factory_inv_def by (auto simp: list_all_iff)
    moreover have "fa' = ?fa2"
      using c g Inr run by (auto simp: createComponent_def Let_def split: sum.splits)
    ultimately show ?thesis by simp
  qed
qed

interpretation components: event_system "\<lambda>fa ref fa'. fa' = snd (createComponent host True instantiate ref (bundles ref) fa)"
    newFactory "factory_inv host bundles"
proof
  show "factory_inv host bundles newFactory" by (simp add: factory_inv_def newFactory_def)
next
  fix fa fa' ref
  assume "factory_inv host bundles fa" "fa' = snd (createComponent host True instantiate ref (bundles ref) fa)"
  then show "factory_inv host bundles fa'" by (metis create_inv surjective_pairing)
qed

text \<open>
  Only verified code runs.  Whatever sequence of instances a factory creates from whatever bundles, the glue it
  imported is the glue of those bundles, once for each; what it compiled are core modules of bundles; and no
  module of a bundle was compiled twice.
\<close>

theorem only_verified_code:
  assumes run: "trace (\<lambda>fa ref fa'. fa' = snd (createComponent host True instantiate ref (bundles ref) fa)) newFactory refs fa"
  shows "fa_imported fa = rev (map (\<lambda>(ref, g). vb_glueBytes (bundles ref)) (fa_glue fa)) \<and> distinct (map fst (fa_glue fa)) \<and>
    list_all (\<lambda>bs. \<exists>ref. bs \<in> snd ` set (vb_coreModuleBytes (bundles ref))) (fa_compiled fa) \<and>
    length (fa_compiled fa) = sum_list (map (\<lambda>(ref, ms). length ms) (fa_modules fa)) \<and>
    list_all (\<lambda>(ref, ms). distinct (map fst ms)) (fa_modules fa)"
  using components.reachable_inv [OF run] by (auto simp: factory_inv_def compiled_inv_def list_all_iff)

text \<open>An instance that was closed answers nothing any more.\<close>

lemma closed_instance:
  "instance_manifest (instance_close i) = Inl (invocation_failure ''the generated component instance is closed'')"
  "instance_dispatch (instance_close i) request st = Inl (invocation_failure ''the generated component instance is closed'')"
  "instance_close (instance_close i) = instance_close i"
  by (simp_all add: instance_manifest_def instance_dispatch_def instance_close_def assertOpen_def)

text \<open>
  A promise that rejected stays in the cache: once the glue of a bundle could not be imported, no later call for that
  bundle tries again, whatever the runtime would answer then.
\<close>

lemma failed_import_cached:
  assumes "createComponent host c instantiate ref bundle newFactory = (Inl e, fa)" "fa_compiled fa = []"
    and "importGlue host (vb_glueBytes bundle) = Inl e"
  shows "createComponent host' c' instantiate ref bundle fa = (Inl e, fa)"
  using assms by (auto simp: createComponent_def resolveGlue_def newFactory_def Let_def)

end
