(* ===== verification/Wasm_Wasi.thy ===== *)
theory Wasm_Wasi
  imports Wasm_Component
begin

text \<open>
  The WASI host of \<^verbatim>\<open>src/wasm/wasi.ts\<close>: every interface is supplied in its denied form, except the clocks and
  the random source.  The clock readings and the bytes of the CSPRNG are arguments.
\<close>

section \<open>Values and failures\<close>

datatype wasi_value =
    VUnit
  | VUndefined
  | VBool bool
  | VInt int
  | VNumber rat
  | VText jstr
  | VBytes bytes
  | VList "wasi_value list"
  | VFields "(string \<times> wasi_value) list"
  | VInputStream
  | VOutputStream
  | VPollable

datatype wasi_failure =
    StreamClosed
  | NotPermitted
  | CapabilityDenied wasm_error
  | InvalidLength int

section \<open>Resources\<close>

datatype input_call = InRead int | InBlockingRead int | InSkip int | InBlockingSkip int | InSubscribe

fun closed_input :: "input_call \<Rightarrow> wasi_failure + wasi_value" where
  "closed_input (InRead n) = Inr (VBytes [])"
| "closed_input (InBlockingRead n) = Inl StreamClosed"
| "closed_input (InSkip n) = Inr (VInt 0)"
| "closed_input (InBlockingSkip n) = Inl StreamClosed"
| "closed_input InSubscribe = Inr VPollable"

datatype output_call =
    OutCheckWrite | OutWrite bytes | OutBlockingWriteAndFlush bytes | OutFlush | OutBlockingFlush | OutWriteZeroes int
  | OutBlockingWriteZeroesAndFlush int | OutSplice int | OutBlockingSplice int | OutSubscribe

fun closed_output :: "output_call \<Rightarrow> wasi_failure + wasi_value" where
  "closed_output OutCheckWrite = Inr (VInt 0)"
| "closed_output OutSubscribe = Inr VPollable"
| "closed_output _ = Inl StreamClosed"

datatype poll_call = PollReady | PollBlock

fun pollable :: "poll_call \<Rightarrow> wasi_value" where
  "pollable PollReady = VBool True"
| "pollable PollBlock = VUnit"

datatype descriptor_call =
    DReadViaStream int | DWriteViaStream int | DAppendViaStream | DAdvise int int | DSyncData | DGetFlags | DGetType
  | DSetSize int | DSetTimes | DRead int int | DWrite bytes int | DReadDirectory | DSync | DCreateDirectoryAt jstr | DStat
  | DStatAt jstr | DSetTimesAt jstr | DLinkAt jstr jstr | DOpenAt jstr | DReadlinkAt jstr | DRemoveDirectoryAt jstr
  | DRenameAt jstr jstr | DSymlinkAt jstr jstr | DUnlinkFileAt jstr | DIsSameObject | DMetadataHash | DMetadataHashAt jstr

fun denied_descriptor :: "descriptor_call \<Rightarrow> wasi_failure + wasi_value" where
  "denied_descriptor DIsSameObject = Inr (VBool False)"
| "denied_descriptor _ = Inl NotPermitted"

section \<open>Random bytes\<close>

definition CHUNK_BYTES :: nat where "CHUNK_BYTES = 65536"

text \<open>The ranges the loop fills, from \<open>offset\<close> on.\<close>

function chunks :: "nat \<Rightarrow> nat \<Rightarrow> (nat \<times> nat) list" where
  "chunks n offset =
     (if offset < n then (offset, min (offset + CHUNK_BYTES) n) # chunks n (offset + CHUNK_BYTES) else [])"
  by auto
termination
  by (relation "measure (\<lambda>(n, offset). n - offset)") (auto simp: CHUNK_BYTES_def)

declare chunks.simps [simp del]

text \<open>\<^verbatim>\<open>getRandomValues\<close> answers the bytes of a range; \<open>draw i j\<close> are those of positions \<open>i\<close> to \<open>j\<close>.\<close>

definition fill :: "(nat \<Rightarrow> nat \<Rightarrow> bytes) \<Rightarrow> nat \<Rightarrow> bytes" where
  "fill draw n = concat (map (\<lambda>(i, j). draw i j) (chunks n 0))"

definition randomBytes :: "(nat \<Rightarrow> nat \<Rightarrow> bytes) \<Rightarrow> int \<Rightarrow> wasi_failure + bytes" where
  "randomBytes draw n =
     (if n < 0 \<or> 2 ^ 53 - 1 < n then Inl (InvalidLength n) else Inr (fill draw (nat n)))"

fun little_endian :: "bytes \<Rightarrow> int" where
  "little_endian [] = 0"
| "little_endian (b # bs) = uint b + 256 * little_endian bs"

definition randomU64 :: "(nat \<Rightarrow> nat \<Rightarrow> bytes) \<Rightarrow> wasi_failure + int" where
  "randomU64 draw = and_then (randomBytes draw 8) (\<lambda>bs. Inr (little_endian bs))"

section \<open>The imports\<close>

text \<open>What the host reads: \<^verbatim>\<open>performance.now()\<close> and \<^verbatim>\<open>Date.now()\<close> in milliseconds, and the CSPRNG.\<close>

record wasi_host =
  wh_performanceNow :: rat
  wh_dateNow :: int
  wh_draw :: "nat \<Rightarrow> nat \<Rightarrow> bytes"

datatype wasi_call =
    GetArguments | GetEnvironment | InitialCwd
  | Exit bool
  | GetStderr | GetStdin | GetStdout
  | GetTerminalStderr | GetTerminalStdin | GetTerminalStdout
  | MonotonicNow | MonotonicResolution | SubscribeDuration int | SubscribeInstant int
  | WallNow | WallResolution
  | GetDirectories
  | Descriptor descriptor_call | ReadDirectoryEntry | FilesystemErrorCode
  | ErrorDebugString
  | PollableCall poll_call | Poll nat
  | InputStream input_call | OutputStream output_call
  | GetRandomBytes int | GetRandomU64

text \<open>The host of \<open>createDeniedWasiImports\<close>; \<open>onExit\<close> says whether a handler was given.\<close>

fun denied_wasi :: "wasi_host \<Rightarrow> bool \<Rightarrow> wasi_call \<Rightarrow> wasi_failure + wasi_value" where
  "denied_wasi h onExit GetArguments = Inr (VList [])"
| "denied_wasi h onExit GetEnvironment = Inr (VList [])"
| "denied_wasi h onExit InitialCwd = Inr VUndefined"
| "denied_wasi h onExit (Exit ok) =
     (if onExit then Inr VUnit else Inl (CapabilityDenied (capability_denied_error (js ''wasi:cli/exit''))))"
| "denied_wasi h onExit GetStderr = Inr VOutputStream"
| "denied_wasi h onExit GetStdin = Inr VInputStream"
| "denied_wasi h onExit GetStdout = Inr VOutputStream"
| "denied_wasi h onExit GetTerminalStderr = Inr VUndefined"
| "denied_wasi h onExit GetTerminalStdin = Inr VUndefined"
| "denied_wasi h onExit GetTerminalStdout = Inr VUndefined"
| "denied_wasi h onExit MonotonicNow = Inr (VInt \<lfloor>wh_performanceNow h * 1000000\<rfloor>)"
| "denied_wasi h onExit MonotonicResolution = Inr (VInt 1000)"
| "denied_wasi h onExit (SubscribeDuration n) = Inr VPollable"
| "denied_wasi h onExit (SubscribeInstant n) = Inr VPollable"
| "denied_wasi h onExit WallNow =
     Inr (VFields [(''seconds'', VInt (wh_dateNow h div 1000)),
       (''nanoseconds'', VInt ((wh_dateNow h - 1000 * (if wh_dateNow h < 0 then - (- wh_dateNow h div 1000) else wh_dateNow h div 1000)) * 1000000))])"
| "denied_wasi h onExit WallResolution = Inr (VFields [(''seconds'', VInt 0), (''nanoseconds'', VInt 1000000)])"
| "denied_wasi h onExit GetDirectories = Inr (VList [])"
| "denied_wasi h onExit (Descriptor c) = denied_descriptor c"
| "denied_wasi h onExit ReadDirectoryEntry = Inr VUndefined"
| "denied_wasi h onExit FilesystemErrorCode = Inr VUndefined"
| "denied_wasi h onExit ErrorDebugString = Inr (VText (js ''denied''))"
| "denied_wasi h onExit (PollableCall c) = Inr (pollable c)"
| "denied_wasi h onExit (Poll n) = Inr (VList (map (\<lambda>i. VInt (int i)) [0..<n]))"
| "denied_wasi h onExit (InputStream c) = closed_input c"
| "denied_wasi h onExit (OutputStream c) = closed_output c"
| "denied_wasi h onExit (GetRandomBytes n) = and_then (randomBytes (wh_draw h) n) (\<lambda>bs. Inr (VBytes bs))"
| "denied_wasi h onExit GetRandomU64 = and_then (randomU64 (wh_draw h)) (\<lambda>n. Inr (VInt n))"

definition GOFORGE_WASI_INTERFACES :: "string list" where
  "GOFORGE_WASI_INTERFACES =
     [''wasi:cli/environment'', ''wasi:cli/exit'', ''wasi:cli/stderr'', ''wasi:cli/stdin'', ''wasi:cli/stdout'',
      ''wasi:cli/terminal-input'', ''wasi:cli/terminal-output'', ''wasi:cli/terminal-stderr'', ''wasi:cli/terminal-stdin'',
      ''wasi:cli/terminal-stdout'', ''wasi:clocks/monotonic-clock'', ''wasi:clocks/wall-clock'', ''wasi:filesystem/preopens'',
      ''wasi:filesystem/types'', ''wasi:io/error'', ''wasi:io/poll'', ''wasi:io/streams'', ''wasi:random/random'']"

text \<open>The interface of a call.\<close>

fun interface_of :: "wasi_call \<Rightarrow> string" where
  "interface_of GetArguments = ''wasi:cli/environment''"
| "interface_of GetEnvironment = ''wasi:cli/environment''"
| "interface_of InitialCwd = ''wasi:cli/environment''"
| "interface_of (Exit ok) = ''wasi:cli/exit''"
| "interface_of GetStderr = ''wasi:cli/stderr''"
| "interface_of GetStdin = ''wasi:cli/stdin''"
| "interface_of GetStdout = ''wasi:cli/stdout''"
| "interface_of GetTerminalStderr = ''wasi:cli/terminal-stderr''"
| "interface_of GetTerminalStdin = ''wasi:cli/terminal-stdin''"
| "interface_of GetTerminalStdout = ''wasi:cli/terminal-stdout''"
| "interface_of MonotonicNow = ''wasi:clocks/monotonic-clock''"
| "interface_of MonotonicResolution = ''wasi:clocks/monotonic-clock''"
| "interface_of (SubscribeDuration n) = ''wasi:clocks/monotonic-clock''"
| "interface_of (SubscribeInstant n) = ''wasi:clocks/monotonic-clock''"
| "interface_of WallNow = ''wasi:clocks/wall-clock''"
| "interface_of WallResolution = ''wasi:clocks/wall-clock''"
| "interface_of GetDirectories = ''wasi:filesystem/preopens''"
| "interface_of (Descriptor c) = ''wasi:filesystem/types''"
| "interface_of ReadDirectoryEntry = ''wasi:filesystem/types''"
| "interface_of FilesystemErrorCode = ''wasi:filesystem/types''"
| "interface_of ErrorDebugString = ''wasi:io/error''"
| "interface_of (PollableCall c) = ''wasi:io/poll''"
| "interface_of (Poll n) = ''wasi:io/poll''"
| "interface_of (InputStream c) = ''wasi:io/streams''"
| "interface_of (OutputStream c) = ''wasi:io/streams''"
| "interface_of (GetRandomBytes n) = ''wasi:random/random''"
| "interface_of GetRandomU64 = ''wasi:random/random''"

section \<open>Properties\<close>

lemma interfaces_supplied: "interface_of c \<in> set GOFORGE_WASI_INTERFACES"
  by (cases c) (simp_all add: GOFORGE_WASI_INTERFACES_def)

text \<open>The random loop asks for consecutive ranges that make up the length, none over the quota.\<close>

lemma chunks_cover:
  "offset \<le> n \<Longrightarrow> concat (map (\<lambda>(i, j). [i..<j]) (chunks n offset)) = [offset..<n] \<and>
   list_all (\<lambda>(i, j). i < j \<and> j - i \<le> CHUNK_BYTES \<and> j \<le> n) (chunks n offset)"
proof (induction n offset rule: chunks.induct)
  case (1 n offset)
  show ?case
  proof (cases "offset < n")
    case True
    note less = True
    show ?thesis
    proof (cases "offset + CHUNK_BYTES \<le> n")
      case True
      then have "min (offset + CHUNK_BYTES) n = offset + CHUNK_BYTES" by simp
      moreover have "[offset..<n] = [offset..<offset + CHUNK_BYTES] @ [offset + CHUNK_BYTES..<n]"
        using True upt_add_eq_append [of offset "offset + CHUNK_BYTES" "n - (offset + CHUNK_BYTES)"] by simp
      ultimately show ?thesis using 1 less True by (subst (1 2) chunks.simps) (simp add: CHUNK_BYTES_def)
    next
      case False
      then have "chunks n (offset + CHUNK_BYTES) = []" by (subst chunks.simps) simp
      then show ?thesis using less False by (subst (1 2) chunks.simps) (simp add: min_def)
    qed
  qed (use 1 in \<open>simp add: chunks.simps\<close>)
qed

text \<open>
  The random source.  For every length up to the largest safe integer the guest gets that many bytes, filled in
  consecutive ranges of at most 65536 bytes, the quota of \<^verbatim>\<open>getRandomValues\<close>; any other length is refused.
\<close>

theorem random_bytes_exact:
  assumes draw: "\<And>i j. i < j \<Longrightarrow> j - i \<le> CHUNK_BYTES \<Longrightarrow> length (draw i j) = j - i"
  shows "case randomBytes draw n of
      Inl e \<Rightarrow> e = InvalidLength n \<and> (n < 0 \<or> 2 ^ 53 \<le> n)
    | Inr bs \<Rightarrow> int (length bs) = n \<and> list_all (\<lambda>(i, j). i < j \<and> j - i \<le> CHUNK_BYTES) (chunks (nat n) 0)"
proof (cases "n < 0 \<or> 2 ^ 53 - 1 < n")
  case False
  have c: "concat (map (\<lambda>(i, j). [i..<j]) (chunks (nat n) 0)) = [0..<nat n]"
    "list_all (\<lambda>(i, j). i < j \<and> j - i \<le> CHUNK_BYTES \<and> j \<le> nat n) (chunks (nat n) 0)"
    using chunks_cover [of 0 "nat n"] by simp_all
  have "map (\<lambda>x. length (case x of (i, j) \<Rightarrow> draw i j)) (chunks (nat n) 0) =
      map (\<lambda>x. length (case x of (i, j) \<Rightarrow> [i..<j])) (chunks (nat n) 0)"
    using c(2) draw by (auto simp: list_all_iff)
  then have "sum_list (map (\<lambda>x. length (case x of (i, j) \<Rightarrow> draw i j)) (chunks (nat n) 0)) = nat n"
    using arg_cong [OF c(1), of length] by (simp only: length_concat map_map comp_def length_upt minus_nat.diff_0)
  then have "length (fill draw (nat n)) = nat n" by (simp add: fill_def length_concat comp_def)
  then show ?thesis using False c(2) by (auto simp: randomBytes_def list_all_iff)
qed (auto simp: randomBytes_def)

text \<open>
  What a guest can learn.  Apart from the two clocks and the random source no call depends on the host, and no call
  on a stream or a descriptor transfers a byte: reads are empty, writes and every operation on files are refused.
\<close>

fun granted :: "wasi_call \<Rightarrow> bool" where
  "granted MonotonicNow = True"
| "granted WallNow = True"
| "granted (GetRandomBytes n) = True"
| "granted GetRandomU64 = True"
| "granted _ = False"

theorem denied_by_default:
  "(granted c \<or> denied_wasi h onExit c = denied_wasi h' onExit c) \<and>
   (case c of
      Descriptor d \<Rightarrow> denied_wasi h onExit c = (if d = DIsSameObject then Inr (VBool False) else Inl NotPermitted)
    | InputStream i \<Rightarrow> denied_wasi h onExit c \<in> {Inr (VBytes []), Inr (VInt 0), Inr VPollable, Inl StreamClosed}
    | OutputStream i \<Rightarrow> denied_wasi h onExit c \<in> {Inr (VInt 0), Inr VPollable, Inl StreamClosed}
    | GetDirectories \<Rightarrow> denied_wasi h onExit c = Inr (VList [])
    | _ \<Rightarrow> True)"
proof -
  have d: "denied_descriptor d = (if d = DIsSameObject then Inr (VBool False) else Inl NotPermitted)" for d
    by (cases d) simp_all
  have i: "closed_input i \<in> {Inr (VBytes []), Inr (VInt 0), Inr VPollable, Inl StreamClosed}" for i by (cases i) simp_all
  have o: "closed_output i \<in> {Inr (VInt 0), Inr VPollable, Inl StreamClosed}" for i by (cases i) simp_all
  show ?thesis by (cases c) (use d i o in \<open>simp_all only: denied_wasi.simps granted.simps wasi_call.case simp_thms\<close>)
qed

end
