(* ===== verification/Pkcs11_Ffi.thy ===== *)
theory Pkcs11_Ffi
  imports Pkcs11_Token
begin

text \<open>
  The foreign-function binding of \<^verbatim>\<open>src/encrypt/pkcs11/ffi.ts\<close>: C structures laid out in memory, the
  function list of a module, and the operations of the module interface over it.

  Memory maps addresses to bytes.  The runtime places a buffer at addresses no other buffer has; here it takes the
  next free ones.  The vendor library is an argument: a function called through its address takes 64-bit arguments
  and may change the memory and its own state.
\<close>

section \<open>Constants\<close>

definition SESSION_FLAGS :: int where "SESSION_FLAGS = 6"
definition OS_LOCKING_OK :: int where "OS_LOCKING_OK = 2"
definition USER_TYPE_USER :: int where "USER_TYPE_USER = 1"
definition SLOT_FLAG_TOKEN_PRESENT :: int where "SLOT_FLAG_TOKEN_PRESENT = 1"
definition UNAVAILABLE_INFORMATION :: int where "UNAVAILABLE_INFORMATION = 2 ^ 64 - 1"
definition POINTER_SIZE :: int where "POINTER_SIZE = 8"
definition ULONG_SIZE :: int where "ULONG_SIZE = 8"
definition ATTRIBUTE_SIZE :: int where "ATTRIBUTE_SIZE = 24"
definition MECHANISM_SIZE :: int where "MECHANISM_SIZE = 24"
definition FIND_BATCH :: int where "FIND_BATCH = 32"

definition FUNCTION_INDEX :: "(string \<times> int) list" where
  "FUNCTION_INDEX =
     [(''C_Initialize'', 1), (''C_Finalize'', 2), (''C_GetSlotList'', 5), (''C_GetSlotInfo'', 6), (''C_GetTokenInfo'', 7),
      (''C_GetMechanismList'', 8), (''C_OpenSession'', 13), (''C_CloseSession'', 14), (''C_Login'', 19), (''C_Logout'', 20),
      (''C_DestroyObject'', 23), (''C_GetAttributeValue'', 25), (''C_SetAttributeValue'', 26), (''C_FindObjectsInit'', 27),
      (''C_FindObjects'', 28), (''C_FindObjectsFinal'', 29), (''C_EncryptInit'', 30), (''C_Encrypt'', 31),
      (''C_DecryptInit'', 34), (''C_Decrypt'', 35), (''C_SignInit'', 43), (''C_Sign'', 44), (''C_VerifyInit'', 49),
      (''C_Verify'', 50), (''C_GenerateKey'', 59), (''C_GenerateKeyPair'', 60), (''C_DeriveKey'', 63)]"

section \<open>Memory\<close>

type_synonym memory = "int \<Rightarrow> 8 word"

record 't ffi =
  ff_next :: int
  ff_mem :: memory
  ff_lib :: 't
  ff_open :: bool

text \<open>
  A failure is one of the module's errors, or a read outside a buffer; \<open>Unending\<close> only says that the bound given
  to a loop was used up.
\<close>

datatype ffi_failure = FfiError pkcs11_error | OutOfBounds | Unending

type_synonym ('t, 'a) ffi_op = "'t ffi \<Rightarrow> (ffi_failure + 'a) \<times> 't ffi"

definition ffi_return :: "'a \<Rightarrow> ('t, 'a) ffi_op" where
  "ffi_return x s = (Inr x, s)"

definition ffi_fail :: "ffi_failure \<Rightarrow> ('t, 'a) ffi_op" where
  "ffi_fail e s = (Inl e, s)"

definition ffi_throw :: "pkcs11_error \<Rightarrow> ('t, 'a) ffi_op" where
  "ffi_throw e = ffi_fail (FfiError e)"

definition ffi_bind :: "('t, 'a) ffi_op \<Rightarrow> ('a \<Rightarrow> ('t, 'b) ffi_op) \<Rightarrow> ('t, 'b) ffi_op" where
  "ffi_bind m f s = (case m s of (Inl e, t) \<Rightarrow> (Inl e, t) | (Inr x, t) \<Rightarrow> f x t)"

text \<open>\<^verbatim>\<open>finally\<close>\<close>

definition ffi_finally :: "('t, 'a) ffi_op \<Rightarrow> ('t, unit) ffi_op \<Rightarrow> ('t, 'a) ffi_op" where
  "ffi_finally m cleanup s = (case m s of (r, t) \<Rightarrow> (case cleanup t of (Inl e, u) \<Rightarrow> (Inl e, u) | (Inr _, u) \<Rightarrow> (r, u)))"

definition read_bytes :: "memory \<Rightarrow> int \<Rightarrow> nat \<Rightarrow> bytes" where
  "read_bytes m a n = map (\<lambda>i. m (a + int i)) [0..<n]"

definition write_bytes :: "int \<Rightarrow> bytes \<Rightarrow> memory \<Rightarrow> memory" where
  "write_bytes a bs m = (\<lambda>x. if a \<le> x \<and> x < a + int (length bs) then bs ! nat (x - a) else m x)"

text \<open>A buffer with the given contents; a zero-length one gets one byte, so that its address is its own.\<close>

definition own :: "bytes \<Rightarrow> bytes" where
  "own bs = (if bs = [] then [0] else bs)"

definition place :: "bytes \<Rightarrow> ('t, int) ffi_op" where
  "place bs s =
     (Inr (ff_next s), s\<lparr>ff_next := ff_next s + int (length (own bs)), ff_mem := write_bytes (ff_next s) (own bs) (ff_mem s)\<rparr>)"

definition alloc :: "int \<Rightarrow> ('t, int) ffi_op" where
  "alloc n = place (replicate (nat n) 0)"

definition ulong :: "int \<Rightarrow> bytes" where
  "ulong n = le_bytes 8 n"

definition ulong_at :: "memory \<Rightarrow> int \<Rightarrow> int" where
  "ulong_at m a = le_value (read_bytes m a 8)"

section \<open>Numbers\<close>

text \<open>\<^verbatim>\<open>Number(bigint)\<close>: the nearest double, ties to even.\<close>

function bit_length :: "int \<Rightarrow> nat" where
  "bit_length n = (if n \<le> 0 then 0 else Suc (bit_length (n div 2)))"
  by auto
termination by (relation "measure nat") auto

declare bit_length.simps [simp del]

definition to_double :: "int \<Rightarrow> int" where
  "to_double n =
     (if n \<le> 2 ^ 53 then n
      else
        (let e = bit_length n - 53; q = n div 2 ^ e; r = n mod 2 ^ e; half = 2 ^ (e - 1)
         in (if half < r \<or> (r = half \<and> odd q) then q + 1 else q) * 2 ^ e))"

definition readUlong :: "int \<Rightarrow> ('t, int) ffi_op" where
  "readUlong a s = (Inr (to_double (ulong_at (ff_mem s) a)), s)"

text \<open>\<^verbatim>\<open>getBigUint64\<close>, where the code keeps the bigint.\<close>

definition readBigUlong :: "int \<Rightarrow> ('t, int) ffi_op" where
  "readBigUlong a s = (Inr (ulong_at (ff_mem s) a), s)"

definition readBytes :: "int \<Rightarrow> int \<Rightarrow> ('t, bytes) ffi_op" where
  "readBytes a n s = (Inr (read_bytes (ff_mem s) a (nat n)), s)"

definition check :: "string \<Rightarrow> int \<Rightarrow> ('t, unit) ffi_op" where
  "check fn code =
     (let v = to_double code
      in if v = return_value_code CkrOk then ffi_return ()
         else ffi_throw (TokenError (js fn) v (returnValueName v)))"

definition ckr_ok :: "int \<Rightarrow> bool" where
  "ckr_ok code \<longleftrightarrow> to_double code = return_value_code CkrOk"

text \<open>Null bytes are removed wherever they stand, then the padding at the end.\<close>

definition trimmedText :: "bytes \<Rightarrow> jstr" where
  "trimmedText bs = trim_end (filter (\<lambda>c. c \<noteq> 0) (utf8_decode bs))"

section \<open>Structures\<close>

definition encodeParams :: "mechanism_params \<Rightarrow> ('t, bytes) ffi_op" where
  "encodeParams ps =
     (case ps of
        Gcm iv aad tagBits \<Rightarrow>
          ffi_bind (place iv) (\<lambda>iv_at. ffi_bind (place aad) (\<lambda>aad_at.
            ffi_return (ulong iv_at @ ulong (int (length iv)) @ ulong (int (length iv) * 8) @
              ulong aad_at @ ulong (int (length aad)) @ ulong tagBits)))
      | Oaep hashAlg mgf source \<Rightarrow> ffi_return (ulong hashAlg @ ulong mgf @ ulong source @ ulong 0 @ ulong 0)
      | Pss hashAlg mgf saltLen \<Rightarrow> ffi_return (ulong hashAlg @ ulong mgf @ ulong saltLen)
      | Ecdh1 kdf sharedData publicData \<Rightarrow>
          ffi_bind (place sharedData) (\<lambda>shared_at. ffi_bind (place publicData) (\<lambda>public_at.
            ffi_return (ulong kdf @ ulong (int (length sharedData)) @ ulong (if sharedData = [] then 0 else shared_at) @
              ulong (int (length publicData)) @ ulong public_at)))
      | HkdfParams extract expand prf saltType info \<Rightarrow>
          ffi_bind (place info) (\<lambda>info_at.
            ffi_return ([if extract then 1 else 0, if expand then 1 else 0] @ replicate 6 0 @ ulong prf @ ulong saltType @
              ulong 0 @ ulong 0 @ ulong 0 @ ulong info_at @ ulong (int (length info))))
      | Eddsa phFlag \<Rightarrow> ffi_return ([if phFlag then 1 else 0] @ replicate 7 0 @ ulong 0 @ ulong 0))"

text \<open>A \<^verbatim>\<open>CK_MECHANISM\<close>, placed; the answer is its address.\<close>

definition encodeMechanism :: "int \<Rightarrow> mechanism_params option \<Rightarrow> ('t, int) ffi_op" where
  "encodeMechanism mechanism params =
     (case params of
        None \<Rightarrow> place (ulong mechanism @ ulong 0 @ ulong 0)
      | Some ps \<Rightarrow>
          ffi_bind (encodeParams ps) (\<lambda>block. ffi_bind (place block) (\<lambda>block_at.
            place (ulong mechanism @ ulong block_at @ ulong (int (length block))))))"

fun encode_attributes :: "attribute list \<Rightarrow> ('t, bytes) ffi_op" where
  "encode_attributes [] = ffi_return []"
| "encode_attributes (a # as) =
     ffi_bind (place (at_value a)) (\<lambda>value_at. ffi_bind (encode_attributes as) (\<lambda>rest.
       ffi_return (ulong (at_type a) @ ulong value_at @ ulong (int (length (at_value a))) @ rest)))"

definition encodeTemplate :: "attribute list \<Rightarrow> ('t, int) ffi_op" where
  "encodeTemplate template =
     ffi_bind (encode_attributes template) (\<lambda>bs. place (if template = [] then replicate (nat ATTRIBUTE_SIZE) 0 else bs))"

section \<open>Loading\<close>

text \<open>
  The library as \<^verbatim>\<open>dlopen\<close> finds it: \<^verbatim>\<open>C_GetFunctionList\<close> and the functions behind the addresses of
  its list.
\<close>

record 't library =
  lb_getFunctionList :: "int \<Rightarrow> memory \<Rightarrow> 't \<Rightarrow> int \<times> memory \<times> 't"
  lb_invoke :: "int \<Rightarrow> int list \<Rightarrow> memory \<Rightarrow> 't \<Rightarrow> int \<times> memory \<times> 't"

type_synonym calls = "(string \<times> int) list"

record 't ffi_module =
  fm_call :: calls
  fm_library :: "'t library"

definition enter :: "(memory \<Rightarrow> 't \<Rightarrow> int \<times> memory \<times> 't) \<Rightarrow> ('t, int) ffi_op" where
  "enter f s = (case f (ff_mem s) (ff_lib s) of (code, m, t) \<Rightarrow> (Inr code, s\<lparr>ff_mem := m, ff_lib := t\<rparr>))"

definition ffi_call :: "'t ffi_module \<Rightarrow> string \<Rightarrow> int list \<Rightarrow> ('t, int) ffi_op" where
  "ffi_call fm fn args = enter (lb_invoke (fm_library fm) (the (map_of (fm_call fm) fn)) args)"

definition close_library :: "('t, unit) ffi_op" where
  "close_library s = (Inr (), s\<lparr>ff_open := False\<rparr>)"

definition open_library :: "('t, unit) ffi_op" where
  "open_library s = (Inr (), s\<lparr>ff_open := True\<rparr>)"

fun bind_functions :: "int \<Rightarrow> (string \<times> int) list \<Rightarrow> ('t, calls) ffi_op" where
  "bind_functions list_at [] = ffi_return []"
| "bind_functions list_at ((fn, index) # rest) =
     ffi_bind (readBigUlong (list_at + index * POINTER_SIZE)) (\<lambda>address.
       if address = 0 then
         ffi_bind close_library (\<lambda>_. ffi_throw (UnavailableError (js ''the module does not implement '' @ js fn)))
       else ffi_bind (bind_functions list_at rest) (\<lambda>cs. ffi_return ((fn, address) # cs)))"

definition bindFunctionList :: "bool \<Rightarrow> (jstr \<Rightarrow> jstr + 't library) \<Rightarrow> jstr \<Rightarrow> ('t, 't ffi_module) ffi_op" where
  "bindFunctionList windows dlopen path =
     (if windows then
        ffi_throw (UnavailableError
          (js ''Cryptoki on Windows uses a 4-byte CK_ULONG and packed structs, which this binding does not encode''))
      else
        (case dlopen path of
           Inl reason \<Rightarrow> ffi_throw (UnavailableError reason)
         | Inr lib \<Rightarrow>
             ffi_bind open_library (\<lambda>_.
             ffi_bind (alloc POINTER_SIZE) (\<lambda>holder.
             ffi_bind (enter (lb_getFunctionList lib holder)) (\<lambda>code.
             ffi_bind (check ''C_GetFunctionList'' code) (\<lambda>_.
             ffi_bind (readBigUlong holder) (\<lambda>list_at.
               if list_at = 0 then
                 ffi_bind close_library (\<lambda>_. ffi_throw (UnavailableError (js ''C_GetFunctionList returned a null function list'')))
               else
                 ffi_bind (bind_functions list_at FUNCTION_INDEX) (\<lambda>cs.
                   ffi_return \<lparr> fm_call = cs, fm_library = lib \<rparr>))))))))"

definition loadModule :: "bool \<Rightarrow> bool \<Rightarrow> (jstr \<Rightarrow> jstr + 't library) \<Rightarrow> jstr \<Rightarrow> ('t, 't ffi_module) ffi_op" where
  "loadModule has_dlopen windows dlopen path =
     (if \<not> has_dlopen then ffi_throw (UnavailableError (js ''Deno.dlopen is not implemented by this runtime''))
      else bindFunctionList windows dlopen path)"

section \<open>The two calls\<close>

definition twoPhase :: "string \<Rightarrow> (int \<Rightarrow> int \<Rightarrow> ('t, int) ffi_op) \<Rightarrow> int \<Rightarrow> ('t, bytes) ffi_op" where
  "twoPhase name call elementSize =
     ffi_bind (alloc ULONG_SIZE) (\<lambda>length_at.
     ffi_bind (call 0 length_at) (\<lambda>code.
     ffi_bind (check name code) (\<lambda>_.
     ffi_bind (readUlong length_at) (\<lambda>n.
     ffi_bind (alloc (max (n * elementSize) 1)) (\<lambda>out.
     ffi_bind (call out length_at) (\<lambda>code2.
     ffi_bind (check name code2) (\<lambda>_.
     ffi_bind (readUlong length_at) (\<lambda>n2. readBytes out (min (n2 * elementSize) (max (n * elementSize) 1))))))))))"

section \<open>The module\<close>

definition ffi_initialize :: "'t ffi_module \<Rightarrow> ('t, unit) ffi_op" where
  "ffi_initialize fm =
     ffi_bind (place (replicate 32 0 @ ulong OS_LOCKING_OK @ replicate 8 0)) (\<lambda>args.
     ffi_bind (ffi_call fm ''C_Initialize'' [args]) (\<lambda>code.
       if \<not> ckr_ok code \<and> to_double code \<noteq> return_value_code CkrCryptokiAlreadyInitialized
       then check ''C_Initialize'' code else ffi_return ()))"

definition ffi_finalize :: "'t ffi_module \<Rightarrow> ('t, unit) ffi_op" where
  "ffi_finalize fm =
     ffi_bind (ffi_call fm ''C_Finalize'' [0]) (\<lambda>code. ffi_bind close_library (\<lambda>_. check ''C_Finalize'' code))"

definition slotInfo :: "'t ffi_module \<Rightarrow> int \<Rightarrow> ('t, slot_info) ffi_op" where
  "slotInfo fm slot =
     (let nothing = \<lparr> si_id = of_int (to_double slot), si_tokenLabel = [], si_tokenPresent = False, si_maxSessions = 0 \<rparr>
      in ffi_bind (alloc 112) (\<lambda>slot_at.
         ffi_bind (ffi_call fm ''C_GetSlotInfo'' [slot, slot_at]) (\<lambda>code.
         ffi_bind (readBigUlong (slot_at + 96)) (\<lambda>flags.
           if \<not> (ckr_ok code \<and> odd flags) then ffi_return nothing
           else
             ffi_bind (alloc 224) (\<lambda>token_at.
             ffi_bind (ffi_call fm ''C_GetTokenInfo'' [slot, token_at]) (\<lambda>code2.
             ffi_bind (readBytes token_at 32) (\<lambda>label.
             ffi_bind (readBigUlong (token_at + 104)) (\<lambda>maxSessions.
               ffi_return (if ckr_ok code2
                 then nothing\<lparr>si_tokenPresent := True, si_tokenLabel := trimmedText label,
                   si_maxSessions := (if maxSessions = UNAVAILABLE_INFORMATION then 0 else of_int (to_double maxSessions))\<rparr>
                 else nothing\<lparr>si_tokenPresent := True\<rparr>)))))))))"

fun slot_infos :: "'t ffi_module \<Rightarrow> int \<Rightarrow> nat \<Rightarrow> ('t, slot_info list) ffi_op" where
  "slot_infos fm at_ids 0 = ffi_return []"
| "slot_infos fm at_ids (Suc n) =
     ffi_bind (readBigUlong at_ids) (\<lambda>slot. ffi_bind (slotInfo fm slot) (\<lambda>info.
       ffi_bind (slot_infos fm (at_ids + ULONG_SIZE) n) (\<lambda>rest. ffi_return (info # rest))))"

definition ffi_slots :: "'t ffi_module \<Rightarrow> bool \<Rightarrow> ('t, slot_info list) ffi_op" where
  "ffi_slots fm tokenPresent =
     (let flag = (if tokenPresent then 1 else 0)
      in ffi_bind (alloc ULONG_SIZE) (\<lambda>count_at.
         ffi_bind (ffi_call fm ''C_GetSlotList'' [flag, 0, count_at]) (\<lambda>code.
         ffi_bind (check ''C_GetSlotList'' code) (\<lambda>_.
         ffi_bind (readUlong count_at) (\<lambda>total.
           if total = 0 then ffi_return []
           else
             ffi_bind (alloc (total * ULONG_SIZE)) (\<lambda>ids_at.
             ffi_bind (ffi_call fm ''C_GetSlotList'' [flag, ids_at, count_at]) (\<lambda>code2.
             ffi_bind (check ''C_GetSlotList'' code2) (\<lambda>_.
             ffi_bind (readUlong count_at) (\<lambda>resolved. slot_infos fm ids_at (nat (min total resolved)))))))))))"

fun ulongs_of :: "bytes \<Rightarrow> int list" where
  "ulongs_of bs = (if length bs < 8 then [] else to_double (le_value (take 8 bs)) # ulongs_of (drop 8 bs))"

declare ulongs_of.simps [simp del]

definition ffi_mechanisms :: "'t ffi_module \<Rightarrow> int \<Rightarrow> ('t, int list) ffi_op" where
  "ffi_mechanisms fm slot =
     ffi_bind (twoPhase ''C_GetMechanismList'' (\<lambda>out length_at. ffi_call fm ''C_GetMechanismList'' [slot, out, length_at]) ULONG_SIZE)
       (\<lambda>raw. ffi_return (ulongs_of raw))"

definition ffi_openSession :: "'t ffi_module \<Rightarrow> int \<Rightarrow> ('t, int) ffi_op" where
  "ffi_openSession fm slot =
     ffi_bind (alloc ULONG_SIZE) (\<lambda>handle_at.
     ffi_bind (ffi_call fm ''C_OpenSession'' [slot, SESSION_FLAGS, 0, 0, handle_at]) (\<lambda>code.
     ffi_bind (check ''C_OpenSession'' code) (\<lambda>_. readUlong handle_at)))"

definition checked :: "'t ffi_module \<Rightarrow> string \<Rightarrow> int list \<Rightarrow> ('t, unit) ffi_op" where
  "checked fm fn args = ffi_bind (ffi_call fm fn args) (\<lambda>code. check fn code)"

definition ffi_closeSession :: "'t ffi_module \<Rightarrow> int \<Rightarrow> ('t, unit) ffi_op" where
  "ffi_closeSession fm session = checked fm ''C_CloseSession'' [session]"

definition wipe :: "int \<Rightarrow> bytes \<Rightarrow> ('t, unit) ffi_op" where
  "wipe a bs s = (Inr (), s\<lparr>ff_mem := write_bytes a (replicate (length (own bs)) 0) (ff_mem s)\<rparr>)"

definition ffi_login :: "'t ffi_module \<Rightarrow> int \<Rightarrow> jstr \<Rightarrow> ('t, unit) ffi_op" where
  "ffi_login fm session pin =
     (let encoded = utf8_encode pin
      in ffi_bind (place encoded) (\<lambda>pin_at.
         ffi_finally
           (ffi_bind (ffi_call fm ''C_Login'' [session, USER_TYPE_USER, pin_at, int (length encoded)]) (\<lambda>code.
             if \<not> ckr_ok code \<and> to_double code \<noteq> return_value_code CkrUserAlreadyLoggedIn then check ''C_Login'' code
             else ffi_return ()))
           (wipe pin_at encoded)))"

definition ffi_logout :: "'t ffi_module \<Rightarrow> int \<Rightarrow> ('t, unit) ffi_op" where
  "ffi_logout fm session = checked fm ''C_Logout'' [session]"

fun read_handles :: "int \<Rightarrow> nat \<Rightarrow> ('t, int list) ffi_op" where
  "read_handles a 0 = ffi_return []"
| "read_handles a (Suc n) = ffi_bind (readUlong a) (\<lambda>h. ffi_bind (read_handles (a + ULONG_SIZE) n) (\<lambda>hs. ffi_return (h # hs)))"

text \<open>The batches of a search; a count beyond the batch reads outside it.\<close>

fun find_batches :: "nat \<Rightarrow> 't ffi_module \<Rightarrow> int \<Rightarrow> int \<Rightarrow> int \<Rightarrow> ('t, int list) ffi_op" where
  "find_batches 0 fm session batch_at count_at = ffi_fail Unending"
| "find_batches (Suc fuel) fm session batch_at count_at =
     ffi_bind (ffi_call fm ''C_FindObjects'' [session, batch_at, FIND_BATCH, count_at]) (\<lambda>code.
     ffi_bind (check ''C_FindObjects'' code) (\<lambda>_.
     ffi_bind (readUlong count_at) (\<lambda>found.
       if found > FIND_BATCH then ffi_fail OutOfBounds
       else
         ffi_bind (read_handles batch_at (nat found)) (\<lambda>hs.
           if found < FIND_BATCH then ffi_return hs
           else ffi_bind (find_batches fuel fm session batch_at count_at) (\<lambda>rest. ffi_return (hs @ rest))))))"

definition ffi_findObjects :: "nat \<Rightarrow> 't ffi_module \<Rightarrow> int \<Rightarrow> attribute list \<Rightarrow> ('t, int list) ffi_op" where
  "ffi_findObjects fuel fm session template =
     ffi_bind (encodeTemplate template) (\<lambda>template_at.
     ffi_bind (checked fm ''C_FindObjectsInit'' [session, template_at, int (length template)]) (\<lambda>_.
       ffi_finally
         (ffi_bind (alloc (FIND_BATCH * ULONG_SIZE)) (\<lambda>batch_at. ffi_bind (alloc ULONG_SIZE) (\<lambda>count_at.
           find_batches fuel fm session batch_at count_at)))
         (ffi_bind (ffi_call fm ''C_FindObjectsFinal'' [session]) (\<lambda>_. ffi_return ()))))"

text \<open>The second array of a read, with the buffer of each value and its size.\<close>

fun fill_entries :: "int \<Rightarrow> int list \<Rightarrow> ('t, (bytes \<times> int \<times> int \<times> bool) list) ffi_op" where
  "fill_entries sizes_at [] = ffi_return []"
| "fill_entries sizes_at (t # ts) =
     ffi_bind (readBigUlong (sizes_at + 16)) (\<lambda>len.
       let unavailable = (len = UNAVAILABLE_INFORMATION);
           n = (if unavailable then 0 else to_double len)
       in ffi_bind (alloc (max n 1)) (\<lambda>value_at.
          ffi_bind (fill_entries (sizes_at + ATTRIBUTE_SIZE) ts) (\<lambda>rest.
            ffi_return ((ulong t @ ulong (if unavailable then 0 else value_at) @
                ulong (if unavailable then UNAVAILABLE_INFORMATION else n), value_at, max n 1, \<not> unavailable) # rest))))"

fun read_values :: "int \<Rightarrow> int list \<Rightarrow> (bytes \<times> int \<times> int \<times> bool) list \<Rightarrow> ('t, attribute list) ffi_op" where
  "read_values fill_at (t # ts) ((entry, value_at, n, wanted) # es) =
     ffi_bind (readBigUlong (fill_at + 16)) (\<lambda>len.
     ffi_bind (if len = UNAVAILABLE_INFORMATION then ffi_return \<lparr> at_type = t, at_value = [], at_present = False \<rparr>
       else ffi_bind (readBytes value_at (min (to_double len) n)) (\<lambda>bs.
         ffi_return \<lparr> at_type = t, at_value = bs, at_present = True \<rparr>)) (\<lambda>a.
     ffi_bind (read_values (fill_at + ATTRIBUTE_SIZE) ts es) (\<lambda>rest. ffi_return (a # rest))))"
| "read_values fill_at _ _ = ffi_return []"

definition padded_array :: "bytes \<Rightarrow> bytes" where
  "padded_array bs = (if bs = [] then replicate (nat ATTRIBUTE_SIZE) 0 else bs)"

definition ffi_getAttributes :: "'t ffi_module \<Rightarrow> int \<Rightarrow> int \<Rightarrow> int list \<Rightarrow> ('t, attribute list) ffi_op" where
  "ffi_getAttributes fm session object types =
     ffi_bind (place (padded_array (concat (map (\<lambda>t. ulong t @ ulong 0 @ ulong 0) types)))) (\<lambda>sizes_at.
     ffi_bind (ffi_call fm ''C_GetAttributeValue'' [session, object, sizes_at, int (length types)]) (\<lambda>_.
     ffi_bind (fill_entries sizes_at types) (\<lambda>es.
     ffi_bind (place (padded_array (concat (map fst es)))) (\<lambda>fill_at.
     ffi_bind (if list_ex (\<lambda>(entry, value_at, n, wanted). wanted) es
       then ffi_bind (ffi_call fm ''C_GetAttributeValue'' [session, object, fill_at, int (length types)]) (\<lambda>_. ffi_return ())
       else ffi_return ()) (\<lambda>_.
       read_values fill_at types es)))))"

definition ffi_setAttributes :: "'t ffi_module \<Rightarrow> int \<Rightarrow> int \<Rightarrow> attribute list \<Rightarrow> ('t, unit) ffi_op" where
  "ffi_setAttributes fm session object template =
     ffi_bind (encodeTemplate template) (\<lambda>template_at.
       checked fm ''C_SetAttributeValue'' [session, object, template_at, int (length template)])"

definition ffi_destroyObject :: "'t ffi_module \<Rightarrow> int \<Rightarrow> int \<Rightarrow> ('t, unit) ffi_op" where
  "ffi_destroyObject fm session object = checked fm ''C_DestroyObject'' [session, object]"

definition ffi_generateKey :: "'t ffi_module \<Rightarrow> int \<Rightarrow> int \<Rightarrow> attribute list \<Rightarrow> ('t, int) ffi_op" where
  "ffi_generateKey fm session mechanism template =
     ffi_bind (encodeMechanism mechanism None) (\<lambda>mech_at.
     ffi_bind (encodeTemplate template) (\<lambda>template_at.
     ffi_bind (alloc ULONG_SIZE) (\<lambda>handle_at.
     ffi_bind (checked fm ''C_GenerateKey'' [session, mech_at, template_at, int (length template), handle_at]) (\<lambda>_.
       readUlong handle_at))))"

definition ffi_generateKeyPair ::
  "'t ffi_module \<Rightarrow> int \<Rightarrow> int \<Rightarrow> attribute list \<Rightarrow> attribute list \<Rightarrow> ('t, int \<times> int) ffi_op" where
  "ffi_generateKeyPair fm session mechanism publicTemplate privateTemplate =
     ffi_bind (encodeMechanism mechanism None) (\<lambda>mech_at.
     ffi_bind (encodeTemplate publicTemplate) (\<lambda>public_template.
     ffi_bind (encodeTemplate privateTemplate) (\<lambda>private_template.
     ffi_bind (alloc ULONG_SIZE) (\<lambda>public_at.
     ffi_bind (alloc ULONG_SIZE) (\<lambda>private_at.
     ffi_bind (checked fm ''C_GenerateKeyPair'' [session, mech_at, public_template, int (length publicTemplate),
       private_template, int (length privateTemplate), public_at, private_at]) (\<lambda>_.
     ffi_bind (readUlong public_at) (\<lambda>pub. ffi_bind (readUlong private_at) (\<lambda>priv. ffi_return (pub, priv)))))))))"

definition ffi_deriveKey ::
  "'t ffi_module \<Rightarrow> int \<Rightarrow> int \<Rightarrow> mechanism_params option \<Rightarrow> int \<Rightarrow> attribute list \<Rightarrow> ('t, int) ffi_op" where
  "ffi_deriveKey fm session mechanism params base template =
     ffi_bind (encodeMechanism mechanism params) (\<lambda>mech_at.
     ffi_bind (encodeTemplate template) (\<lambda>template_at.
     ffi_bind (alloc ULONG_SIZE) (\<lambda>handle_at.
     ffi_bind (checked fm ''C_DeriveKey'' [session, mech_at, base, template_at, int (length template), handle_at]) (\<lambda>_.
       readUlong handle_at))))"

text \<open>Encryption, decryption and signing: an initialisation, then the two calls.\<close>

definition single_part ::
  "string \<Rightarrow> string \<Rightarrow> 't ffi_module \<Rightarrow> int \<Rightarrow> int \<Rightarrow> mechanism_params option \<Rightarrow> int \<Rightarrow> bytes \<Rightarrow> ('t, bytes) ffi_op" where
  "single_part start fn fm session mechanism params key input =
     ffi_bind (encodeMechanism mechanism params) (\<lambda>mech_at.
     ffi_bind (checked fm start [session, mech_at, key]) (\<lambda>_.
     ffi_bind (place input) (\<lambda>input_at.
       twoPhase fn (\<lambda>out length_at. ffi_call fm fn [session, input_at, int (length input), out, length_at]) 1)))"

definition ffi_encrypt where "ffi_encrypt = single_part ''C_EncryptInit'' ''C_Encrypt''"
definition ffi_decrypt where "ffi_decrypt = single_part ''C_DecryptInit'' ''C_Decrypt''"
definition ffi_sign where "ffi_sign = single_part ''C_SignInit'' ''C_Sign''"

definition ffi_verify ::
  "'t ffi_module \<Rightarrow> int \<Rightarrow> int \<Rightarrow> mechanism_params option \<Rightarrow> int \<Rightarrow> bytes \<Rightarrow> bytes \<Rightarrow> ('t, unit) ffi_op" where
  "ffi_verify fm session mechanism params key message signature =
     ffi_bind (encodeMechanism mechanism params) (\<lambda>mech_at.
     ffi_bind (checked fm ''C_VerifyInit'' [session, mech_at, key]) (\<lambda>_.
     ffi_bind (place message) (\<lambda>message_at. ffi_bind (place signature) (\<lambda>signature_at.
       checked fm ''C_Verify'' [session, message_at, int (length message), signature_at, int (length signature)]))))"

end
