(* ===== verification/Pkcs11_Ffi_Facts.thy ===== *)
theory Pkcs11_Ffi_Facts
  imports Pkcs11_Ffi
begin

text \<open>
  What the binding promises: the structures a module sees hold what the caller gave, output buffers have the room
  they announce, searches end and are closed, and the PIN is wiped.
\<close>

lemmas ffi_defs = ffi_bind_def ffi_return_def ffi_throw_def ffi_fail_def

section \<open>Memory\<close>

lemma read_length [simp]: "length (read_bytes m a n) = n"
  by (simp add: read_bytes_def)

lemma read_append: "read_bytes m a (n + k) = read_bytes m a n @ read_bytes m (a + int n) k"
  by (rule nth_equalityI) (auto simp: read_bytes_def nth_append algebra_simps)

lemma read_written: "read_bytes (write_bytes a bs m) a (length bs) = bs"
  by (auto simp: read_bytes_def write_bytes_def intro: nth_equalityI)

lemma read_elsewhere:
  "(\<And>x. a \<le> x \<Longrightarrow> x < a + int n \<Longrightarrow> m' x = m x) \<Longrightarrow> read_bytes m' a n = read_bytes m a n"
  by (auto simp: read_bytes_def)

lemma own_length: "length (own bs) = max 1 (length bs)"
  by (cases bs) (auto simp: own_def)

text \<open>A placed buffer holds its bytes; what was there before is untouched.\<close>

definition keeps :: "'t ffi \<Rightarrow> 't ffi \<Rightarrow> bool" where
  "keeps s t \<longleftrightarrow> ff_next s \<le> ff_next t \<and> (\<forall>x < ff_next s. ff_mem t x = ff_mem s x) \<and> ff_lib t = ff_lib s \<and> ff_open t = ff_open s"

lemma keeps_refl [simp]: "keeps s s"
  by (simp add: keeps_def)

lemma keeps_trans: "keeps s t \<Longrightarrow> keeps t u \<Longrightarrow> keeps s u"
  by (auto simp: keeps_def)

lemma keeps_read: "keeps s t \<Longrightarrow> a + int n \<le> ff_next s \<Longrightarrow> read_bytes (ff_mem t) a n = read_bytes (ff_mem s) a n"
  by (rule read_elsewhere) (auto simp: keeps_def)

lemma place_spec:
  assumes "place bs s = (r, t)"
  shows "r = Inr (ff_next s)" "keeps s t" "ff_next t = ff_next s + int (max 1 (length bs))"
    "read_bytes (ff_mem t) (ff_next s) (length bs) = bs"
proof -
  have t: "t = s\<lparr>ff_next := ff_next s + int (length (own bs)), ff_mem := write_bytes (ff_next s) (own bs) (ff_mem s)\<rparr>"
    and "r = Inr (ff_next s)"
    using assms by (auto simp: place_def)
  then show "r = Inr (ff_next s)" by simp
  show "keeps s t" "ff_next t = ff_next s + int (max 1 (length bs))"
    unfolding t by (auto simp: keeps_def write_bytes_def own_length)
  show "read_bytes (ff_mem t) (ff_next s) (length bs) = bs"
    using read_written [of "ff_next s" bs] unfolding t by (cases bs) (auto simp: own_def read_bytes_def)
qed

section \<open>What a module sees\<close>

text \<open>The C side of a template: at each entry a type, a pointer and a length.\<close>

fun seen_template :: "memory \<Rightarrow> int \<Rightarrow> nat \<Rightarrow> (int \<times> bytes) list" where
  "seen_template m a 0 = []"
| "seen_template m a (Suc n) =
     (ulong_at m a, read_bytes m (ulong_at m (a + 8)) (nat (ulong_at m (a + 16)))) # seen_template m (a + 24) n"

lemma ulong_length [simp]: "length (ulong n) = 8"
  by (simp add: ulong_def del: le_bytes.simps)

lemma ulong_value: "0 \<le> n \<Longrightarrow> n < 2 ^ 64 \<Longrightarrow> le_value (ulong n) = n"
  by (simp add: ulong_def le_round_trip del: le_bytes.simps)

text \<open>Three words side by side.\<close>

lemma read_entry:
  assumes "read_bytes m a (24 + k) = ulong x @ ulong y @ ulong z @ rest" "length rest = k"
  shows "ulong_at m a = le_value (ulong x)" "ulong_at m (a + 8) = le_value (ulong y)" "ulong_at m (a + 16) = le_value (ulong z)"
    "read_bytes m (a + 24) k = rest"
proof -
  have "read_bytes m a (8 + (8 + (8 + k))) = ulong x @ ulong y @ ulong z @ rest" using assms(1) by simp
  then have "read_bytes m a 8 @ read_bytes m (a + 8) 8 @ read_bytes m (a + 16) 8 @ read_bytes m (a + 24) k =
      ulong x @ ulong y @ ulong z @ rest"
    by (simp only: read_append) (simp add: add.assoc)
  then show "ulong_at m a = le_value (ulong x)" "ulong_at m (a + 8) = le_value (ulong y)"
    "ulong_at m (a + 16) = le_value (ulong z)" "read_bytes m (a + 24) k = rest"
    by (simp_all add: ulong_at_def)
qed

text \<open>The entries of a template point below the next free address, at the values.\<close>

fun entries_ok :: "memory \<Rightarrow> int \<Rightarrow> attribute list \<Rightarrow> bytes \<Rightarrow> bool" where
  "entries_ok m top_at [] bs = (bs = [])"
| "entries_ok m top_at (a # as) bs =
     (\<exists>value_at rest. bs = ulong (at_type a) @ ulong value_at @ ulong (int (length (at_value a))) @ rest \<and>
       0 < value_at \<and> value_at + int (length (at_value a)) \<le> top_at \<and>
       read_bytes m value_at (length (at_value a)) = at_value a \<and> entries_ok m top_at as rest)"

lemma entries_move:
  assumes "entries_ok m n as bs" "n \<le> k"
    "\<And>a l. a + int l \<le> n \<Longrightarrow> read_bytes m' a l = read_bytes m a l"
  shows "entries_ok m' k as bs"
  using assms(1)
proof (induction as arbitrary: bs)
  case (Cons x as)
  then obtain value_at rest where *: "bs = ulong (at_type x) @ ulong value_at @ ulong (int (length (at_value x))) @ rest"
    "0 < value_at" "value_at + int (length (at_value x)) \<le> n" "read_bytes m value_at (length (at_value x)) = at_value x"
    "entries_ok m n as rest"
    by auto
  then show ?case using Cons.IH [OF *(5)] assms(2) assms(3) [OF *(3)] by simp (intro exI [of _ value_at] exI [of _ rest], simp)
qed simp

lemma entries_keep: "entries_ok (ff_mem s) (ff_next s) as bs \<Longrightarrow> keeps s t \<Longrightarrow> entries_ok (ff_mem t) (ff_next t) as bs"
  by (erule entries_move) (auto simp: keeps_def intro: keeps_read [unfolded keeps_def])

lemma entries_length: "entries_ok m n as bs \<Longrightarrow> length bs = 24 * length as"
  by (induction as arbitrary: bs) auto

lemma encode_attributes_spec:
  assumes "encode_attributes as s = (r, t)" "0 < ff_next s"
  shows "keeps s t \<and> (\<exists>bs. r = Inr bs \<and> entries_ok (ff_mem t) (ff_next t) as bs)"
  using assms
proof (induction as arbitrary: s r t)
  case Nil
  then show ?case by (auto simp: ffi_defs)
next
  case (Cons a as)
  obtain q u where p: "place (at_value a) s = (q, u)" by (metis surj_pair)
  note ps = place_spec [OF p]
  obtain q' w where e: "encode_attributes as u = (q', w)" by (metis surj_pair)
  have u: "0 < ff_next u" using ps(3) Cons.prems(2) by simp
  obtain bs where w: "keeps u w" "q' = Inr bs" "entries_ok (ff_mem w) (ff_next w) as bs"
    using Cons.IH [OF e u] by blast
  have t: "t = w" "r = Inr (ulong (at_type a) @ ulong (ff_next s) @ ulong (int (length (at_value a))) @ bs)"
    using Cons.prems(1) p ps(1) e w(2) by (simp_all add: ffi_defs)
  have "ff_next s + int (length (at_value a)) \<le> ff_next u" using ps(3) by simp
  moreover have "ff_next u \<le> ff_next w" using w(1) by (simp add: keeps_def)
  moreover have "read_bytes (ff_mem w) (ff_next s) (length (at_value a)) = at_value a"
    using keeps_read [OF w(1)] ps(4) calculation(1) by simp
  ultimately show ?case using t w keeps_trans [OF ps(2) w(1)] Cons.prems(2) by auto
qed

lemma seen_entries:
  assumes "entries_ok m k as bs" "read_bytes m a (length bs) = bs" "k \<le> 2 ^ 64"
  shows "seen_template m a (length as) = map (\<lambda>x. (at_type x mod 2 ^ 64, at_value x)) as"
  using assms
proof (induction as arbitrary: bs a)
  case (Cons x as)
  then obtain value_at rest where bs: "bs = ulong (at_type x) @ ulong value_at @ ulong (int (length (at_value x))) @ rest"
    and v: "0 < value_at" "value_at + int (length (at_value x)) \<le> k" "read_bytes m value_at (length (at_value x)) = at_value x"
    and rest: "entries_ok m k as rest"
    by auto
  have "read_bytes m a (24 + length rest) = ulong (at_type x) @ ulong value_at @ ulong (int (length (at_value x))) @ rest"
    using Cons.prems(2) bs by simp
  note e = read_entry [OF this refl]
  have l: "int (length (at_value x)) < 2 ^ 64" and w: "value_at = 2 ^ 64 \<Longrightarrow> at_value x = []" "value_at \<le> 2 ^ 64"
    using v(1,2) Cons.prems(3) by (linarith, simp add: length_0_conv [symmetric] del: length_0_conv, linarith)
  have t: "le_value (ulong n) = n mod 2 ^ 64" for n by (simp add: ulong_def le_round_trip del: le_bytes.simps)
  have "read_bytes m (value_at mod 2 ^ 64) (length (at_value x)) = at_value x"
    using w v(1,3) by (cases "value_at = 2 ^ 64") (auto simp: read_bytes_def)
  then show ?case using e t l Cons.IH [OF rest e(4) Cons.prems(3)] by simp
qed simp

lemma encoded_template:
  assumes "encodeTemplate as s = (r, t)" "0 < ff_next s"
  shows "keeps s t \<and> (\<exists>a bs. r = Inr a \<and> entries_ok (ff_mem t) (ff_next t) as bs \<and> read_bytes (ff_mem t) a (length bs) = bs)"
proof -
  obtain q u where e: "encode_attributes as s = (q, u)" by (metis surj_pair)
  obtain bs where u: "keeps s u" "q = Inr bs" "entries_ok (ff_mem u) (ff_next u) as bs"
    using encode_attributes_spec [OF e assms(2)] by blast
  define block where "block = (if as = [] then replicate (nat ATTRIBUTE_SIZE) 0 else bs)"
  have p: "place block u = (r, t)" using assms(1) e u(2) by (simp add: encodeTemplate_def ffi_defs block_def)
  note ps = place_spec [OF p]
  have "read_bytes (ff_mem t) (ff_next u) (length bs) = bs"
    using ps(4) u(3) by (cases as) (auto simp: block_def read_bytes_def)
  then show ?thesis using ps(1) entries_keep [OF u(3) ps(2)] keeps_trans [OF u(1) ps(2)] by blast
qed

text \<open>C22: The module reads from a template the types and values the caller gave, in their order; nothing older changed.\<close>

theorem template_seen:
  assumes "0 < ff_next s" "ff_next (snd (encodeTemplate as s)) \<le> 2 ^ 64"
  shows "case encodeTemplate as s of
      (Inl e, t) \<Rightarrow> False
    | (Inr a, t) \<Rightarrow> keeps s t \<and> seen_template (ff_mem t) a (length as) = map (\<lambda>x. (at_type x mod 2 ^ 64, at_value x)) as"
proof -
  obtain r t where e: "encodeTemplate as s = (r, t)" by (metis surj_pair)
  obtain a bs where "keeps s t" "r = Inr a" "entries_ok (ff_mem t) (ff_next t) as bs" "read_bytes (ff_mem t) a (length bs) = bs"
    using encoded_template [OF e assms(1)] by blast
  then show ?thesis using seen_entries [of "ff_mem t" "ff_next t" as bs a] assms(2) e by simp
qed

section \<open>The PIN\<close>

lemma finally_state: "snd (ffi_finally m (wipe a bs) s) = snd (wipe a bs (snd (m s)))"
  by (simp add: ffi_finally_def wipe_def split: prod.split)

text \<open>However a login ends, the PIN is gone from the memory it was placed in.\<close>

theorem login_wipes:
  "read_bytes (ff_mem (snd (ffi_login fm session pin s))) (ff_next s) (length (utf8_encode pin)) =
   replicate (length (utf8_encode pin)) 0"
proof -
  obtain u where t: "snd (ffi_login fm session pin s) = snd (wipe (ff_next s) (utf8_encode pin) u)"
    by (simp add: ffi_login_def Let_def ffi_bind_def place_def finally_state)
  show ?thesis unfolding t
    by (rule nth_equalityI) (auto simp: wipe_def read_bytes_def write_bytes_def own_length)
qed

section \<open>Output buffers\<close>

lemma written_elsewhere: "b + int n \<le> a \<or> a + int (length bs) \<le> b \<Longrightarrow> read_bytes (write_bytes a bs m) b n = read_bytes m b n"
  by (rule read_elsewhere) (auto simp: write_bytes_def)

lemma double_small: "n \<le> 2 ^ 53 \<Longrightarrow> to_double n = n"
  by (simp add: to_double_def)

lemma ulong_written: "0 \<le> n \<Longrightarrow> n < 2 ^ 64 \<Longrightarrow> ulong_at (write_bytes a (ulong n) m) a = n"
  using read_written [of a "ulong n" m] by (simp add: ulong_at_def ulong_value)

lemma check_ok: "check fn 0 = ffi_return ()"
  by (simp add: check_def to_double_def)

theorem two_phase_returns:
  assumes size: "\<And>a u. call 0 a u = (Inr 0, u\<lparr>ff_mem := write_bytes a (ulong (int (length out))) (ff_mem u)\<rparr>)"
    and fill: "\<And>b a u. b \<noteq> 0 \<Longrightarrow>
      call b a u = (Inr 0, u\<lparr>ff_mem := write_bytes a (ulong (int (length out))) (write_bytes b out (ff_mem u))\<rparr>)"
    and room: "int (length out) \<le> 2 ^ 53" "0 < ff_next s"
  shows "fst (twoPhase name call 1 s) = Inr out"
proof -
  have l: "ulong_at (write_bytes a (ulong (int (length out))) m) a = int (length out)" for a m
    using room(1) by (simp add: ulong_written)
  have d: "to_double (int (length out)) = int (length out)" using room(1) by (rule double_small)
  have r: "read_bytes (write_bytes a (ulong k) (write_bytes (a + 8) out m)) (a + 8) (length out) = out" for a k m
    by (simp add: written_elsewhere read_written)
  show ?thesis
    using room(2)
    by (simp add: twoPhase_def ffi_bind_def alloc_def place_def own_def ULONG_SIZE_def size fill check_ok ffi_return_def
        readUlong_def readBytes_def l d r)
qed

section \<open>Searches\<close>

text \<open>A search that was begun is ended, whatever the batches gave.\<close>

theorem search_closed:
  "case encodeTemplate template s of
     (Inl e, u) \<Rightarrow> ffi_findObjects fuel fm session template s = (Inl e, u)
   | (Inr a, u) \<Rightarrow>
       (case checked fm ''C_FindObjectsInit'' [session, a, int (length template)] u of
          (Inl e, v) \<Rightarrow> ffi_findObjects fuel fm session template s = (Inl e, v)
        | (Inr _, v) \<Rightarrow>
            \<exists>w. snd (ffi_findObjects fuel fm session template s) = snd (ffi_call fm ''C_FindObjectsFinal'' [session] w))"
proof -
  have final: "\<exists>w. snd (ffi_finally m (ffi_bind (ffi_call fm ''C_FindObjectsFinal'' [session]) (\<lambda>_. ffi_return ())) v) =
      snd (ffi_call fm ''C_FindObjectsFinal'' [session] w)" for m :: "('a, int list) ffi_op" and v
    by (rule exI [of _ "snd (m v)"])
      (simp add: ffi_finally_def ffi_bind_def ffi_return_def ffi_call_def enter_def split: prod.split)
  show ?thesis
    by (auto simp: ffi_findObjects_def ffi_bind_def split: prod.splits sum.splits intro: final)
qed

text \<open>Handles written side by side are read back.\<close>

lemma concat_ulongs [simp]: "length (concat (map ulong hs)) = 8 * length hs"
  by (induction hs) auto

lemma handles_read:
  "\<lbrakk> read_bytes (ff_mem s) a (8 * length hs) = concat (map ulong hs); list_all (\<lambda>h. 0 \<le> h \<and> h \<le> 2 ^ 53) hs \<rbrakk> \<Longrightarrow>
   read_handles a (length hs) s = (Inr hs, s)"
proof (induction hs arbitrary: a)
  case (Cons h hs)
  have "read_bytes (ff_mem s) a (8 + 8 * length hs) = ulong h @ concat (map ulong hs)" using Cons.prems(1) by simp
  then have r: "read_bytes (ff_mem s) a 8 = ulong h" "read_bytes (ff_mem s) (a + 8) (8 * length hs) = concat (map ulong hs)"
    by (simp_all add: read_append)
  have "to_double (ulong_at (ff_mem s) a) = h" using r(1) Cons.prems(2) by (simp add: ulong_at_def ulong_value double_small)
  then show ?case using Cons.IH [OF r(2)] Cons.prems(2) by (simp add: ffi_defs readUlong_def ULONG_SIZE_def)
qed (simp add: ffi_defs)

text \<open>One batch of a module.\<close>

lemma batch_read:
  assumes "list_all (\<lambda>h. 0 \<le> h \<and> h \<le> 2 ^ 53) l" "c = b + 256" "length l \<le> 32"
    "ff_mem s = write_bytes c (ulong (int (length l))) (write_bytes b (concat (map ulong l)) m)"
  shows "ulong_at (ff_mem s) c = int (length l)" "read_handles b (length l) s = (Inr l, s)"
proof -
  show "ulong_at (ff_mem s) c = int (length l)" using assms(3,4) by (simp add: ulong_written)
  have "read_bytes (ff_mem s) b (8 * length l) = concat (map ulong l)"
    using assms(2-4) read_written [of b "concat (map ulong l)" m] by (simp add: written_elsewhere)
  then show "read_handles b (length l) s = (Inr l, s)" by (rule handles_read) (rule assms(1))
qed

text \<open>The loop returns the batches up to and including the first that is not full.\<close>

lemma all_batches:
  assumes step: "\<And>u. ffi_call fm ''C_FindObjects'' [session, b, FIND_BATCH, b + 256] u =
      (Inr 0, u\<lparr>ff_mem := write_bytes (b + 256) (ulong (int (length (batch (ff_lib u)))))
          (write_bytes b (concat (map ulong (batch (ff_lib u)))) (ff_mem u)),
        ff_lib := forth (ff_lib u)\<rparr>)"
    and "\<And>i. i \<le> k \<Longrightarrow> list_all (\<lambda>h. 0 \<le> h \<and> h \<le> 2 ^ 53) (batch ((forth ^^ i) (ff_lib s)))"
    and "\<And>i. i < k \<Longrightarrow> length (batch ((forth ^^ i) (ff_lib s))) = 32"
    and "length (batch ((forth ^^ k) (ff_lib s))) < 32" and "k < fuel"
  shows "fst (find_batches fuel fm session b (b + 256) s) =
    Inr (concat (map (\<lambda>i. batch ((forth ^^ i) (ff_lib s))) [0..<Suc k]))"
  using assms(2-5)
proof (induction fuel arbitrary: s k)
  case (Suc fuel)
  define l where "l = batch (ff_lib s)"
  define t where "t = s\<lparr>ff_mem := write_bytes (b + 256) (ulong (int (length l)))
          (write_bytes b (concat (map ulong l)) (ff_mem s)), ff_lib := forth (ff_lib s)\<rparr>"
  have ok: "list_all (\<lambda>h. 0 \<le> h \<and> h \<le> 2 ^ 53) l" using Suc.prems(1) [of 0] by (simp add: l_def)
  have n: "length l \<le> 32" using Suc.prems(2) [of 0] Suc.prems(3) by (cases k) (auto simp: l_def)
  have m: "ff_mem t = write_bytes (b + 256) (ulong (int (length l))) (write_bytes b (concat (map ulong l)) (ff_mem s))"
    by (simp add: t_def)
  note b = batch_read [where s = t and m = "ff_mem s", OF ok refl n m]
  have d: "to_double (int (length l)) = int (length l)" by (rule double_small) (use n in simp)
  have c: "ffi_call fm ''C_FindObjects'' [session, b, 32, b + 256] s = (Inr 0, t)"
    unfolding t_def l_def FIND_BATCH_def [symmetric] by (rule step)
  have lib: "ff_lib t = forth (ff_lib s)" by (simp add: t_def)
  show ?case
  proof (cases k)
    case 0
    then have "length l < 32" using Suc.prems(3) by (simp add: l_def)
    then show ?thesis using b d 0
      by (simp add: c ffi_bind_def check_ok ffi_return_def readUlong_def FIND_BATCH_def)
        (simp add: l_def)
  next
    case (Suc j)
    have full: "length l = 32" using Suc.prems(2) [of 0] Suc by (simp add: l_def)
    have shift: "(forth ^^ i) (ff_lib t) = (forth ^^ Suc i) (ff_lib s)" for i
      unfolding lib by (simp add: funpow_swap1)
    have IH: "fst (find_batches fuel fm session b (b + 256) t) =
        Inr (concat (map (\<lambda>i. batch ((forth ^^ i) (ff_lib t))) [0..<Suc j]))"
    proof (rule Suc.IH)
      show "list_all (\<lambda>h. 0 \<le> h \<and> h \<le> 2 ^ 53) (batch ((forth ^^ i) (ff_lib t)))" if "i \<le> j" for i
        unfolding shift by (rule Suc.prems(1)) (use that Suc in simp)
      show "length (batch ((forth ^^ i) (ff_lib t))) = 32" if "i < j" for i
        unfolding shift by (rule Suc.prems(2)) (use that Suc in simp)
      show "length (batch ((forth ^^ j) (ff_lib t))) < 32"
        unfolding shift using Suc.prems(3) Suc by simp
      show "j < fuel" using Suc.prems(4) Suc by simp
    qed
    obtain r v where f: "find_batches fuel fm session b (b + 256) t = (r, v)" by (metis surj_pair)
    have all: "concat (map (\<lambda>i. batch ((forth ^^ i) (ff_lib s))) [0..<Suc k]) =
        l @ concat (map (\<lambda>i. batch ((forth ^^ i) (ff_lib t))) [0..<Suc j])"
      unfolding Suc shift by (subst map_upt_Suc) (simp add: l_def)
    show ?thesis unfolding all using IH f b d full
      by (simp add: c ffi_bind_def check_ok ffi_return_def readUlong_def FIND_BATCH_def del: upt_Suc)
  qed
qed simp

lemma more_batches:
  assumes "\<And>i. i < m \<Longrightarrow> b i \<noteq> []" "b m = []" "\<And>i. i < k \<Longrightarrow> b i \<noteq> []"
  shows "concat (map b [0..<Suc k]) = concat (map b [0..<m]) \<longleftrightarrow> m \<le> Suc k"
proof
  assume e: "concat (map b [0..<Suc k]) = concat (map b [0..<m])"
  show "m \<le> Suc k"
  proof (rule ccontr)
    assume "\<not> m \<le> Suc k"
    then have less: "Suc k < m" by simp
    have "[0..<m] = [0..<Suc k] @ Suc k # [Suc (Suc k)..<m]"
      using upt_add_eq_append [of 0 "Suc k" "m - Suc k"] upt_conv_Cons [OF less] less by (simp del: upt_Suc)
    then show False using e assms(1) [OF less] by (simp del: upt_Suc)
  qed
next
  assume "m \<le> Suc k"
  moreover have "k \<le> m" using assms(2,3) by (metis not_le)
  ultimately consider "m = Suc k" | "m = k" by linarith
  then show "concat (map b [0..<Suc k]) = concat (map b [0..<m])"
    by cases (use assms(2) in auto)
qed

text \<open>
  C23: A search against a module that hands out its handles in batches of any sizes up to 32 ends with the
  handles of the batches up to and including the first that is not full, in order; one round more
  than the full batches is enough.  PKCS#11 ends a search only with an empty batch; so what
  the search returns is all the module had to give exactly when nothing was left after the first short batch.
\<close>

theorem search_complete:
  fixes batch :: "'t \<Rightarrow> int list" and forth :: "'t \<Rightarrow> 't" and started :: 't and k :: nat
  defines "given \<equiv> \<lambda>i. batch ((forth ^^ i) started)"
  assumes start: "\<And>a u. ffi_call fm ''C_FindObjectsInit'' [session, a, int (length template)] u = (Inr 0, u\<lparr>ff_lib := started\<rparr>)"
    and step: "\<And>b u. ffi_call fm ''C_FindObjects'' [session, b, FIND_BATCH, b + 256] u =
      (Inr 0, u\<lparr>ff_mem := write_bytes (b + 256) (ulong (int (length (batch (ff_lib u)))))
          (write_bytes b (concat (map ulong (batch (ff_lib u)))) (ff_mem u)),
        ff_lib := forth (ff_lib u)\<rparr>)"
    and final: "\<And>u. ffi_call fm ''C_FindObjectsFinal'' [session] u = (Inr code, u)"
    and small: "\<And>i. i \<le> k \<Longrightarrow> list_all (\<lambda>h. 0 \<le> h \<and> h \<le> 2 ^ 53) (given i)"
    and full: "\<And>i. i < k \<Longrightarrow> length (given i) = 32" and short: "length (given k) < 32"
    and fuel: "k < fuel" and place: "0 < ff_next s"
  shows "fst (ffi_findObjects fuel fm session template s) = Inr (concat (map given [0..<Suc k])) \<and>
    (\<forall>m. given m = [] \<and> (\<forall>i<m. given i \<noteq> []) \<longrightarrow>
      (fst (ffi_findObjects fuel fm session template s) = Inr (concat (map given [0..<m])) \<longleftrightarrow> m \<le> Suc k))"
proof -
  obtain r u where e: "encodeTemplate template s = (r, u)" by (metis surj_pair)
  obtain a where a: "r = Inr a" using encoded_template [OF e place] by blast
  define v where "v = u\<lparr>ff_lib := started, ff_next := 264 + ff_next u,
    ff_mem := write_bytes (ff_next u + 256) (replicate 8 0) (write_bytes (ff_next u) (replicate 256 0) (ff_mem u))\<rparr>"
  have lib: "ff_lib v = started" by (simp add: v_def)
  have "fst (find_batches fuel fm session (ff_next u) (ff_next u + 256) v) = Inr (concat (map given [0..<Suc k]))"
    using all_batches [where batch = batch and forth = forth and s = v and k = k, OF step] small full short fuel
    unfolding lib given_def by blast
  then have found: "fst (ffi_findObjects fuel fm session template s) = Inr (concat (map given [0..<Suc k]))"
    by (simp add: ffi_findObjects_def e a ffi_bind_def checked_def start check_ok ffi_return_def ffi_finally_def final
        alloc_def place_def own_def ULONG_SIZE_def FIND_BATCH_def v_def split: prod.split del: upt_Suc)
  have "given i \<noteq> []" if "i < k" for i using full [OF that] by auto
  then show ?thesis using found more_batches [of _ given k] by auto
qed

section \<open>Failures\<close>

text \<open>A read whose code says that it failed, and which left the memory alone, answers present and empty values.\<close>

lemma empty_values:
  "list_all (\<lambda>(entry, value_at, n, wanted). 0 \<le> n) es \<Longrightarrow> length es = length ts \<Longrightarrow>
   (\<And>i. i < length ts \<Longrightarrow> ulong_at (ff_mem s) (a + 24 * int i + 16) = 0) \<Longrightarrow>
   read_values a ts es s = (Inr (map (\<lambda>t. \<lparr> at_type = t, at_value = [], at_present = True \<rparr>) ts), s)"
proof (induction ts arbitrary: es a)
  case (Cons t ts)
  then obtain entry value_at n wanted es' where es: "es = (entry, value_at, n, wanted) # es'" by (cases es) auto
  have "ulong_at (ff_mem s) (a + 24 + 24 * int i + 16) = 0" if "i < length ts" for i
    using Cons.prems(3) [of "Suc i"] that by (simp add: algebra_simps)
  then have "read_values (a + 24) ts es' s = (Inr (map (\<lambda>t. \<lparr> at_type = t, at_value = [], at_present = True \<rparr>) ts), s)"
    using Cons.IH [of es' "a + 24"] Cons.prems(1,2) es by simp
  then show ?case using Cons.prems(1) Cons.prems(3) [of 0] es
    by (simp add: ffi_defs readBigUlong_def UNAVAILABLE_INFORMATION_def ATTRIBUTE_SIZE_def readBytes_def double_small read_bytes_def)
qed (simp add: ffi_defs)

theorem failed_read_present:
  assumes "\<And>n args m l. lb_invoke (fm_library fm) n args m l = (code, m, l)"
  shows "fst (ffi_getAttributes fm session object [t] s) = Inr [\<lparr> at_type = t, at_value = [], at_present = True \<rparr>]"
proof -
  have call: "ffi_call fm fn args u = (Inr code, u)" for fn args u
    by (simp add: ffi_call_def enter_def assms)
  have z: "ulong_at (write_bytes b (ulong x @ ulong y @ ulong 0) m) c = 0" if "c = b + 16" for b c x y m
  proof -
    have "read_bytes (write_bytes b (ulong x @ ulong y @ ulong 0) m) b (24 + 0) = ulong x @ ulong y @ ulong 0 @ []"
      using read_written [of b "ulong x @ ulong y @ ulong 0" m] by simp
    from read_entry(3) [OF this] show ?thesis using that by (simp add: ulong_value)
  qed
  have ne: "ulong x \<noteq> []" for x by (metis list.size(3) ulong_length zero_neq_numeral)
  show ?thesis
    by (simp add: ffi_getAttributes_def ffi_bind_def ffi_return_def place_def own_def padded_array_def ne call alloc_def
        readBigUlong_def readBytes_def z double_small UNAVAILABLE_INFORMATION_def read_bytes_def)
qed

lemma rounded_handle: "to_double (2 ^ 53 + 1) = 2 ^ 53"
  by code_simp

text \<open>The failure of the first call leaves the library open; the later failures close it.\<close>

lemma unlisted_stays_open:
  assumes "dlopen path = Inr lib"
    "lb_getFunctionList lib (ff_next s) (write_bytes (ff_next s) (replicate 8 0) (ff_mem s)) (ff_lib s) = (5, m, l)"
  shows "ff_open (snd (bindFunctionList False dlopen path s))"
    "fst (bindFunctionList False dlopen path s) = Inl (FfiError (TokenError (js ''C_GetFunctionList'') 5 (returnValueName 5)))"
  using assms
  by (simp_all add: bindFunctionList_def ffi_bind_def open_library_def alloc_def place_def own_def POINTER_SIZE_def enter_def
      check_def double_small ffi_throw_def ffi_fail_def)

lemma missing_function_closes:
  "fst (bind_functions a fs s) = Inl e \<Longrightarrow> \<not> ff_open (snd (bind_functions a fs s))"
proof (induction a fs arbitrary: s rule: bind_functions.induct)
  case (2 a fn index rest)
  obtain r t where rest: "bind_functions a rest s = (r, t)" by (metis surj_pair)
  show ?case
  proof (cases "ulong_at (ff_mem s) (a + index * POINTER_SIZE) = 0")
    case True
    then show ?thesis by (simp add: ffi_defs readBigUlong_def close_library_def)
  next
    case False
    then show ?thesis using "2.IH" [OF False, of s] "2.prems" rest
      by (cases r) (simp_all add: ffi_defs readBigUlong_def)
  qed
qed (simp add: ffi_return_def)

section \<open>Concrete runs\<close>

definition blank :: "'t \<Rightarrow> 't ffi" where
  "blank t = \<lparr> ff_next = 4096, ff_mem = (\<lambda>_. 0), ff_lib = t, ff_open = True \<rparr>"

theorem template_seen_witness:
  "case encodeTemplate [ulongAttribute 0 3, \<lparr> at_type = 258, at_value = [7, 9], at_present = True \<rparr>] (blank ()) of
     (Inl e, t) \<Rightarrow> False
   | (Inr a, t) \<Rightarrow> seen_template (ff_mem t) a (Suc (Suc 0)) = [(0, [3, 0, 0, 0, 0, 0, 0, 0]), (258, [7, 9])]"
proof -
  let ?as = "[ulongAttribute 0 3, \<lparr> at_type = 258, at_value = [7, 9], at_present = True \<rparr>]"
  have "ff_next (snd (encodeTemplate ?as (blank ()))) = 4154" by code_simp
  then have "ff_next (snd (encodeTemplate ?as (blank ()))) \<le> 2 ^ 64" by simp
  moreover have "0 < ff_next (blank ())" by (simp add: blank_def)
  moreover have "map (\<lambda>x. (at_type x mod 2 ^ 64, at_value x)) ?as = [(0, [3, 0, 0, 0, 0, 0, 0, 0]), (258, [7, 9])]" by code_simp
  ultimately show ?thesis using template_seen [of "blank ()" ?as] by (auto simp del: map_eq_Cons_conv seen_template.simps list.map split: prod.splits sum.splits)
qed

text \<open>A module that hands out forty keys in a full and a short batch, and would have handed out one more.\<close>

definition searched :: "int list list library" where
  "searched = \<lparr> lb_getFunctionList = (\<lambda>a m t. (0, m, t)), lb_invoke = (\<lambda>n args m t.
     if n = 27 then (0, m, [map int [1..<33], map int [33..<41], [41]])
     else if n = 28 then
       (let l = (case t of [] \<Rightarrow> [] | b # _ \<Rightarrow> b)
        in (0, write_bytes (args ! 3) (ulong (int (length l))) (write_bytes (args ! 1) (concat (map ulong l)) m), tl t))
     else (0, m, t)) \<rparr>"

theorem search_complete_witness:
  "fst (ffi_findObjects 2 \<lparr> fm_call = FUNCTION_INDEX, fm_library = searched \<rparr> 1 [] (blank [])) = Inr (map int [1..<41]) \<and>
   fst (ffi_findObjects 2 \<lparr> fm_call = FUNCTION_INDEX, fm_library = searched \<rparr> 1 [] (blank [])) \<noteq> Inr (map int [1..<42])"
proof -
  let ?st = "[map int [1..<33], map int [33..<41], [41]]"
  let ?b = "\<lambda>t. case t of [] \<Rightarrow> [] | b # _ \<Rightarrow> b" and ?fm = "\<lparr> fm_call = FUNCTION_INDEX, fm_library = searched \<rparr>"
  have g: "?b ((tl ^^ 0) ?st) = map int [1..<33]" "?b ((tl ^^ 1) ?st) = map int [33..<41]"
    "?b ((tl ^^ 2) ?st) = [41]" "?b ((tl ^^ 3) ?st) = []"
    by (simp_all add: numeral_2_eq_2 numeral_3_eq_3 del: upt.simps)
  have i1: "i = 0 \<or> i = 1" if "i \<le> 1" for i :: nat using that by linarith
  have small: "list_all (\<lambda>h. 0 \<le> h \<and> h \<le> 2 ^ 53) (?b ((tl ^^ i) ?st))" if "i \<le> 1" for i
    using i1 [OF that] g(1,2) by (auto simp: list_all_iff simp del: upt.simps)
  have full: "length (?b ((tl ^^ i) ?st)) = 32" if "i < 1" for i
    using that g(1) by (simp del: upt.simps)
  have short: "length (?b ((tl ^^ 1) ?st)) < 32" using g(2) by (simp del: upt.simps)
  have found: "fst (ffi_findObjects 2 ?fm 1 [] (blank [])) =
      Inr (concat (map (\<lambda>i. ?b ((tl ^^ i) ?st)) [0..<Suc 1]))"
    by (rule search_complete [where batch = ?b and forth = tl and k = 1 and code = 0 and started = ?st, THEN conjunct1])
      (insert small full short, simp_all add: ffi_call_def enter_def searched_def FUNCTION_INDEX_def blank_def Let_def del: upt.simps)
  have u: "[0..<Suc 1] = [0, 1]" by simp
  have "map int [1..<33] @ map int [33..<41] = map int [1..<41]"
    by (simp only: map_append [symmetric]) (simp add: upt_add_eq_append [of 1 33 8, simplified] del: upt.simps)
  then have "fst (ffi_findObjects 2 ?fm 1 [] (blank [])) = Inr (map int [1..<41])"
    using found unfolding u using g(1,2) by (simp del: upt.simps)
  moreover have "length (map int [1..<41]) \<noteq> length (map int [1..<42])" by simp
  then have "map int [1..<41] \<noteq> map int [1..<42]" by metis
  ultimately show ?thesis by (simp del: upt.simps)
qed

theorem two_phase_returns_witness:
  "fst (twoPhase ''C_Sign'' (\<lambda>b a u. (Inr 0, u\<lparr>ff_mem := write_bytes a (ulong 3)
     (if b = 0 then ff_mem u else write_bytes b [5, 6, 7] (ff_mem u))\<rparr>)) 1 (blank ())) = Inr [5, 6, 7]"
  by (rule two_phase_returns) (simp_all add: blank_def)

theorem failed_read_present_witness:
  "fst (ffi_getAttributes \<lparr> fm_call = FUNCTION_INDEX, fm_library =
      \<lparr> lb_getFunctionList = (\<lambda>a m t. (0, m, t)), lb_invoke = (\<lambda>n args m t. (179, m, t)) \<rparr> \<rparr> 1 4 [17] (blank ())) =
   Inr [\<lparr> at_type = 17, at_value = [], at_present = True \<rparr>]"
  by (rule failed_read_present [where code = 179]) simp

end
