(* ===== verification/Pkcs11_Soft.thy ===== *)
theory Pkcs11_Soft
  imports Pkcs11_Repository
begin

text \<open>
  The in-memory token of \<^verbatim>\<open>src/encrypt/pkcs11/test_support.ts\<close>, the module the repository's own tests run the provider
  on: objects with their attributes and key material, over Web Crypto.  It makes the module interface concrete, so
  that what the provider relies on of a module can be discharged, and the provider be run to the end.

  Web Crypto's steps (importing a key and using it) are the fields of a record; what it draws at random is a function
  of the next object's handle.  An exception of the runtime is carried as an error with its message and no code.
\<close>

section \<open>State\<close>

record soft_object =
  so_attributes :: "(int \<times> bytes) list"
  so_secret :: "bytes option"
  so_pkcs8 :: "bytes option"
  so_curve :: "jstr option"

record soft_token =
  st_mechanisms :: "int list"
  st_label :: jstr
  st_slot :: rat
  st_refuseExtraction :: bool
  st_objects :: "(nat \<times> soft_object) list"
  st_nextObject :: nat
  st_nextSession :: nat
  st_logins :: nat
  st_openSessions :: int
  st_peakSessions :: int

record soft_crypto =
  sc_random :: "nat \<Rightarrow> int \<Rightarrow> jstr + bytes"
  sc_rsaPair :: "nat \<Rightarrow> int \<Rightarrow> jstr + jstr \<times> jstr \<times> bytes"
  sc_curvePair :: "nat \<Rightarrow> algorithm \<Rightarrow> jstr + bytes \<times> bytes"
  sc_atob :: "jstr \<Rightarrow> jstr + bytes"
  sc_ecdh :: "jstr \<Rightarrow> bytes \<Rightarrow> bytes \<Rightarrow> int \<Rightarrow> jstr + bytes"
  sc_hkdf :: "bytes \<Rightarrow> bytes \<Rightarrow> int \<Rightarrow> jstr + bytes"
  sc_seal :: "bytes \<Rightarrow> bytes \<Rightarrow> bytes \<Rightarrow> int \<Rightarrow> bytes \<Rightarrow> jstr + bytes"
  sc_unseal :: "bytes \<Rightarrow> bytes \<Rightarrow> bytes \<Rightarrow> int \<Rightarrow> bytes \<Rightarrow> jstr + bytes"
  sc_oaep :: "bytes \<Rightarrow> bytes \<Rightarrow> jstr + bytes"
  sc_hmac :: "bytes \<Rightarrow> bytes \<Rightarrow> jstr + bytes"
  sc_pkcs1 :: "bytes \<Rightarrow> bytes \<Rightarrow> jstr + bytes"
  sc_pss :: "int \<Rightarrow> bytes \<Rightarrow> bytes \<Rightarrow> jstr + bytes"
  sc_ed25519 :: "bytes \<Rightarrow> bytes \<Rightarrow> jstr + bytes"

type_synonym ('z, 'a) soft_op = "'z soft_token_scheme \<Rightarrow> (pkcs11_error + 'a) \<times> 'z soft_token_scheme"

definition FULL_MECHANISMS :: "int list" where
  "FULL_MECHANISMS = map ckm
     [CkmAesKeyGen, CkmAesGcm, CkmRsaPkcsKeyPairGen, CkmRsaPkcsOaep, CkmSha256RsaPkcs, CkmSha256RsaPkcsPss, CkmSha256Hmac,
      CkmSha256, CkmEcKeyPairGen, CkmEcdh1Derive, CkmEcEdwardsKeyPairGen, CkmEdDsa, CkmGenericSecretKeyGen, CkmHkdfDerive]"

definition newSoftToken :: "int list option \<Rightarrow> jstr option \<Rightarrow> rat option \<Rightarrow> bool option \<Rightarrow> soft_token" where
  "newSoftToken mechanisms tokenLabel slotId refuseSecretExtraction =
     \<lparr> st_mechanisms = or_default mechanisms FULL_MECHANISMS, st_label = or_default tokenLabel (js ''forge-test''),
       st_slot = or_default slotId 0, st_refuseExtraction = or_default refuseSecretExtraction False,
       st_objects = [], st_nextObject = 1, st_nextSession = 1, st_logins = 0, st_openSessions = 0, st_peakSessions = 0 \<rparr>"

section \<open>Helpers\<close>

fun runs :: "jstr + 'a \<Rightarrow> pkcs11_error + 'a" where
  "runs (Inl m) = Inl (Pkcs11Error m)"
| "runs (Inr x) = Inr x"

definition soft_error :: "string \<Rightarrow> return_value \<Rightarrow> pkcs11_error" where
  "soft_error fn code = TokenError (js fn) (return_value_code code) (returnValueName (return_value_code code))"

text \<open>\<^verbatim>\<open>Uint8Array.from\<close> of something missing throws.\<close>

definition present :: "bytes option \<Rightarrow> pkcs11_error + bytes" where
  "present v = (case v of Some bs \<Rightarrow> Inr bs | None \<Rightarrow> runs (Inl (js ''TypeError'')))"

definition isSensitive :: "(int \<times> bytes) list \<Rightarrow> bool" where
  "isSensitive as \<longleftrightarrow>
     (case map_of as (cka CkaSensitive) of Some (b # _) \<Rightarrow> b = 1 | _ \<Rightarrow> False) \<or>
     (case map_of as (cka CkaExtractable) of Some (b # _) \<Rightarrow> b = 0 | _ \<Rightarrow> False)"

definition withClass :: "(int \<times> bytes) list \<Rightarrow> object_class \<Rightarrow> (int \<times> bytes) list" where
  "withClass as c =
     (if map_of as (cka CkaClass) = None then AList.update (cka CkaClass) (at_value (ulongAttribute 0 (class_code c))) as else as)"

definition toMap :: "attribute list \<Rightarrow> (int \<times> bytes) list" where
  "toMap template = foldl (\<lambda>as a. AList.update (at_type a) (at_value a) as) [] template"

definition wrapOctetString :: "bytes \<Rightarrow> bytes" where
  "wrapOctetString v =
     [4] @ (if length v < 0x80 then [of_nat (length v)] else [0x81, of_nat (length v)]) @ v"

definition curveOf :: "bytes option \<Rightarrow> jstr" where
  "curveOf params =
     (case params of
        None \<Rightarrow> js ''P-256''
      | Some ps \<Rightarrow> (case find (\<lambda>(name, encoded). ps = encoded) EC_PARAMS of Some (name, _) \<Rightarrow> name | None \<Rightarrow> js ''P-256''))"

definition base64UrlBytes :: "soft_crypto \<Rightarrow> jstr \<Rightarrow> jstr + bytes" where
  "base64UrlBytes sc v =
     sc_atob sc (map (\<lambda>c. if c = 45 then 43 else if c = 95 then 47 else c) v @ replicate ((4 - length v mod 4) mod 4) 61)"

definition value_length :: "(int \<times> bytes) list \<Rightarrow> attribute_type \<Rightarrow> int \<Rightarrow> int" where
  "value_length as t fallback =
     (case map_of as (cka t) of None \<Rightarrow> fallback | Some raw \<Rightarrow> or_default (ulongValue raw) fallback)"

text \<open>Storing an object exposes the value of a secret that is not sensitive.\<close>

definition store :: "soft_object \<Rightarrow> 'z soft_token_scheme \<Rightarrow> nat \<times> 'z soft_token_scheme" where
  "store ob t =
     (let h = st_nextObject t;
          kept = (case so_secret ob of
            Some s \<Rightarrow> if isSensitive (so_attributes ob) then ob
              else ob\<lparr>so_attributes := AList.update (cka CkaValue) s (so_attributes ob)\<rparr>
          | None \<Rightarrow> ob)
      in (h, t\<lparr>st_nextObject := h + 1, st_objects := st_objects t @ [(h, kept)]\<rparr>))"

definition require_object :: "nat \<Rightarrow> 'z soft_token_scheme \<Rightarrow> pkcs11_error + soft_object" where
  "require_object h t =
     (case map_of (st_objects t) h of Some ob \<Rightarrow> Inr ob | None \<Rightarrow> Inl (soft_error ''C_GetAttributeValue'' CkrKeyHandleInvalid))"

definition require_mechanism :: "int \<Rightarrow> 'z soft_token_scheme \<Rightarrow> pkcs11_error + unit" where
  "require_mechanism m t =
     (if m \<in> set (st_mechanisms t) then Inr () else Inl (soft_error ''C_GetMechanismInfo'' CkrMechanismInvalid))"

section \<open>Slots and sessions\<close>

definition soft_slots :: "'z soft_token_scheme \<Rightarrow> slot_info list" where
  "soft_slots t = [\<lparr> si_id = st_slot t, si_tokenLabel = st_label t, si_tokenPresent = True, si_maxSessions = 0 \<rparr>]"

definition soft_mechanisms :: "'z soft_token_scheme \<Rightarrow> int list" where
  "soft_mechanisms = st_mechanisms"

definition soft_openSession :: "'z soft_token_scheme \<Rightarrow> nat \<times> 'z soft_token_scheme" where
  "soft_openSession t =
     (st_nextSession t,
      t\<lparr>st_openSessions := st_openSessions t + 1, st_peakSessions := max (st_peakSessions t) (st_openSessions t + 1),
        st_nextSession := st_nextSession t + 1\<rparr>)"

definition soft_closeSession :: "'z soft_token_scheme \<Rightarrow> 'z soft_token_scheme" where
  "soft_closeSession t = t\<lparr>st_openSessions := st_openSessions t - 1\<rparr>"

definition soft_login :: "'z soft_token_scheme \<Rightarrow> 'z soft_token_scheme" where
  "soft_login t = t\<lparr>st_logins := st_logins t + 1\<rparr>"

section \<open>Objects\<close>

definition matches :: "soft_object \<Rightarrow> attribute list \<Rightarrow> bool" where
  "matches ob template \<longleftrightarrow> list_all (\<lambda>w. map_of (so_attributes ob) (at_type w) = Some (at_value w)) template"

definition soft_findObjects :: "nat \<Rightarrow> attribute list \<Rightarrow> 'z soft_token_scheme \<Rightarrow> pkcs11_error + nat list" where
  "soft_findObjects s template t = Inr (map fst (filter (\<lambda>(h, ob). matches ob template) (st_objects t)))"

definition soft_getAttributes :: "nat \<Rightarrow> nat \<Rightarrow> int list \<Rightarrow> ('z, attribute list) soft_op" where
  "soft_getAttributes s h types t =
     (and_then (require_object h t) (\<lambda>ob. Inr (map (\<lambda>ty.
        (case if ty = cka CkaValue \<and> st_refuseExtraction t then None else map_of (so_attributes ob) ty of
           None \<Rightarrow> \<lparr> at_type = ty, at_value = [], at_present = False \<rparr>
         | Some v \<Rightarrow> \<lparr> at_type = ty, at_value = v, at_present = True \<rparr>)) types)), t)"

definition soft_setAttributes :: "nat \<Rightarrow> nat \<Rightarrow> attribute list \<Rightarrow> ('z, unit) soft_op" where
  "soft_setAttributes s h template t =
     (case require_object h t of
        Inl e \<Rightarrow> (Inl e, t)
      | Inr ob \<Rightarrow>
          if \<not> list_all (\<lambda>a. map_of (so_attributes ob) (at_type a) \<noteq> None) template
          then (Inl (soft_error ''C_SetAttributeValue'' CkrAttributeTypeInvalid), t)
          else (Inr (), t\<lparr>st_objects := AList.update h
            (ob\<lparr>so_attributes := foldl (\<lambda>as a. AList.update (at_type a) (at_value a) as) (so_attributes ob) template\<rparr>)
            (st_objects t)\<rparr>))"

definition soft_destroyObject :: "nat \<Rightarrow> nat \<Rightarrow> ('z, unit) soft_op" where
  "soft_destroyObject s h t = (Inr (), t\<lparr>st_objects := AList.delete h (st_objects t)\<rparr>)"

definition store_as :: "soft_object \<Rightarrow> ('z, nat) soft_op" where
  "store_as ob t = (let (h, u) = store ob t in (Inr h, u))"

definition soft_generateKey :: "soft_crypto \<Rightarrow> nat \<Rightarrow> int \<Rightarrow> attribute list \<Rightarrow> ('z, nat) soft_op" where
  "soft_generateKey sc s mechanism template t =
     (case and_then (require_mechanism mechanism t) (\<lambda>_.
             runs (sc_random sc (st_nextObject t) (value_length (toMap template) CkaValueLen 32))) of
        Inl e \<Rightarrow> (Inl e, t)
      | Inr secret \<Rightarrow>
          store_as \<lparr> so_attributes = withClass (toMap template) SecretKey, so_secret = Some secret, so_pkcs8 = None,
            so_curve = None \<rparr> t)"

definition attribute_value :: "attribute_type \<Rightarrow> bytes \<Rightarrow> (int \<times> bytes) list \<Rightarrow> (int \<times> bytes) list" where
  "attribute_value ty v as = AList.update (cka ty) v as"

definition store_pair ::
  "(int \<times> bytes) list \<Rightarrow> (int \<times> bytes) list \<Rightarrow> bytes \<Rightarrow> jstr option \<Rightarrow> ('z, nat \<times> nat) soft_op" where
  "store_pair pub priv pkcs8 curve t =
     (let (h, u) = store \<lparr> so_attributes = pub, so_secret = None, so_pkcs8 = None, so_curve = curve \<rparr> t;
          (k, v) = store \<lparr> so_attributes = priv, so_secret = None, so_pkcs8 = Some pkcs8, so_curve = curve \<rparr> u
      in (Inr (h, k), v))"

definition soft_generateKeyPair ::
  "soft_crypto \<Rightarrow> nat \<Rightarrow> int \<Rightarrow> attribute list \<Rightarrow> attribute list \<Rightarrow> ('z, nat \<times> nat) soft_op" where
  "soft_generateKeyPair sc s mechanism publicTemplate privateTemplate t =
     (let pub = withClass (toMap publicTemplate) PublicKey; priv = withClass (toMap privateTemplate) PrivateKey;
          kind = (\<lambda>k. at_value (ulongAttribute 0 (key_type_code k)))
      in case require_mechanism mechanism t of
           Inl e \<Rightarrow> (Inl e, t)
         | Inr _ \<Rightarrow>
             if mechanism = ckm CkmRsaPkcsKeyPairGen then
               (case runs (and_then (sc_rsaPair sc (st_nextObject t) (value_length pub CkaModulusBits 2048)) (\<lambda>(n, e, pkcs8).
                       and_then (base64UrlBytes sc n) (\<lambda>modulus. and_then (base64UrlBytes sc e) (\<lambda>expo. Inr (modulus, expo, pkcs8))))) of
                  Inl e \<Rightarrow> (Inl e, t)
                | Inr (modulus, expo, pkcs8) \<Rightarrow>
                    store_pair
                      (attribute_value CkaPublicExponent expo (attribute_value CkaModulus modulus (attribute_value CkaKeyType (kind CkkRsa) pub)))
                      (attribute_value CkaKeyType (kind CkkRsa) priv) pkcs8 None t)
             else
               (let edwards = (mechanism = ckm CkmEcEdwardsKeyPairGen);
                    curve = (if edwards then js ''Ed25519'' else curveOf (map_of pub (cka CkaEcParams)));
                    k = kind (if edwards then CkkEcEdwards else CkkEc);
                    params = the (map_of EC_PARAMS curve)
                in case runs (sc_curvePair sc (st_nextObject t) (if edwards then Ed25519 else Ecdh curve)) of
                     Inl e \<Rightarrow> (Inl e, t)
                   | Inr (point, pkcs8) \<Rightarrow>
                       store_pair
                         (attribute_value CkaEcParams params (attribute_value CkaEcPoint (wrapOctetString point) (attribute_value CkaKeyType k pub)))
                         (attribute_value CkaEcParams params (attribute_value CkaKeyType k priv)) pkcs8 (Some curve) t))"

definition derive_bits :: "jstr \<Rightarrow> int" where
  "derive_bits curve = or_default (map_of [(js ''P-256'', 256), (js ''P-384'', 384), (js ''P-521'', 528)] curve) 256"

definition soft_deriveKey :: "soft_crypto \<Rightarrow> nat \<Rightarrow> int \<Rightarrow> mechanism_params \<Rightarrow> nat \<Rightarrow> attribute list \<Rightarrow> ('z, nat) soft_op" where
  "soft_deriveKey sc s mechanism params base template t =
     (case and_then (require_mechanism mechanism t) (\<lambda>_. require_object base t) of
        Inl e \<Rightarrow> (Inl e, t)
      | Inr ob \<Rightarrow>
          (case
             if mechanism = ckm CkmEcdh1Derive then
               (case params of
                  Ecdh1 kdf sharedData publicData \<Rightarrow>
                    (let curve = or_default (so_curve ob) (js ''P-256'')
                     in and_then (present (so_pkcs8 ob)) (\<lambda>pkcs8.
                        and_then (runs (sc_ecdh sc curve pkcs8 publicData (derive_bits curve))) (\<lambda>shared. Inr (shared, Some curve))))
                | _ \<Rightarrow> Inl (soft_error ''C_DeriveKey'' CkrArgumentsBad))
             else if mechanism = ckm CkmHkdfDerive then
               (case params of
                  HkdfParams extract expand prf saltType info \<Rightarrow>
                    and_then (present (so_secret ob)) (\<lambda>secret.
                    and_then (runs (sc_hkdf sc secret info (value_length (toMap template) CkaValueLen 32 * 8))) (\<lambda>derived. Inr (derived, None)))
                | _ \<Rightarrow> Inl (soft_error ''C_DeriveKey'' CkrArgumentsBad))
             else Inl (soft_error ''C_DeriveKey'' CkrMechanismInvalid)
           of Inl e \<Rightarrow> (Inl e, t)
            | Inr (secret, curve) \<Rightarrow>
                store_as \<lparr> so_attributes = withClass (toMap template) SecretKey, so_secret = Some secret, so_pkcs8 = None,
                  so_curve = curve \<rparr> t))"

section \<open>Cryptography\<close>

definition aesKey :: "nat \<Rightarrow> 'z soft_token_scheme \<Rightarrow> pkcs11_error + bytes" where
  "aesKey h t =
     and_then (require_object h t) (\<lambda>ob.
       case so_secret ob of Some k \<Rightarrow> Inr k | None \<Rightarrow> Inl (soft_error ''C_EncryptInit'' CkrKeyHandleInvalid))"

definition soft_encrypt :: "soft_crypto \<Rightarrow> nat \<Rightarrow> int \<Rightarrow> mechanism_params option \<Rightarrow> nat \<Rightarrow> bytes \<Rightarrow> ('z, bytes) soft_op" where
  "soft_encrypt sc s mechanism params key plaintext t =
     (and_then (require_mechanism mechanism t) (\<lambda>_.
        case (if mechanism = ckm CkmAesGcm then params else None) of
          Some (Gcm iv aad tagBits) \<Rightarrow> and_then (aesKey key t) (\<lambda>k. runs (sc_seal sc k iv aad tagBits plaintext))
        | _ \<Rightarrow> Inl (soft_error ''C_EncryptInit'' CkrMechanismInvalid)), t)"

definition soft_decrypt :: "soft_crypto \<Rightarrow> nat \<Rightarrow> int \<Rightarrow> mechanism_params option \<Rightarrow> nat \<Rightarrow> bytes \<Rightarrow> ('z, bytes) soft_op" where
  "soft_decrypt sc s mechanism params key ciphertext t =
     (and_then (require_mechanism mechanism t) (\<lambda>_.
        if mechanism = ckm CkmRsaPkcsOaep then
          (case params of
             Some (Oaep hashAlg mgf source) \<Rightarrow>
               if hashAlg \<noteq> ckm CkmSha256 then Inl (soft_error ''C_DecryptInit'' CkrMechanismParamInvalid)
               else and_then (require_object key t) (\<lambda>ob. and_then (present (so_pkcs8 ob)) (\<lambda>k. runs (sc_oaep sc k ciphertext)))
           | _ \<Rightarrow> Inl (soft_error ''C_DecryptInit'' CkrMechanismParamInvalid))
        else
          (case (if mechanism = ckm CkmAesGcm then params else None) of
             Some (Gcm iv aad tagBits) \<Rightarrow> and_then (aesKey key t) (\<lambda>k. runs (sc_unseal sc k iv aad tagBits ciphertext))
           | _ \<Rightarrow> Inl (soft_error ''C_DecryptInit'' CkrMechanismInvalid))), t)"

definition soft_sign :: "soft_crypto \<Rightarrow> nat \<Rightarrow> int \<Rightarrow> mechanism_params option \<Rightarrow> nat \<Rightarrow> bytes \<Rightarrow> ('z, bytes) soft_op" where
  "soft_sign sc s mechanism params key message t =
     (and_then (require_mechanism mechanism t) (\<lambda>_. and_then (require_object key t) (\<lambda>ob.
        if mechanism = ckm CkmSha256Hmac then and_then (present (so_secret ob)) (\<lambda>k. runs (sc_hmac sc k message))
        else if mechanism = ckm CkmSha256RsaPkcs then and_then (present (so_pkcs8 ob)) (\<lambda>k. runs (sc_pkcs1 sc k message))
        else if mechanism = ckm CkmSha256RsaPkcsPss then
          (case params of
             Some (Pss hashAlg mgf saltLen) \<Rightarrow> and_then (present (so_pkcs8 ob)) (\<lambda>k. runs (sc_pss sc saltLen k message))
           | _ \<Rightarrow> Inl (soft_error ''C_SignInit'' CkrMechanismParamInvalid))
        else if mechanism = ckm CkmEdDsa then and_then (present (so_pkcs8 ob)) (\<lambda>k. runs (sc_ed25519 sc k message))
        else Inl (soft_error ''C_SignInit'' CkrMechanismInvalid))), t)"

text \<open>The token behind the module interface.\<close>

definition soft_module :: "soft_crypto \<Rightarrow> 'z soft_token_scheme pkcs11_module" where
  "soft_module sc =
     \<lparr> pm_findObjects = soft_findObjects, pm_getAttributes = soft_getAttributes, pm_setAttributes = soft_setAttributes,
       pm_destroyObject = soft_destroyObject, pm_generateKey = soft_generateKey sc,
       pm_generateKeyPair = soft_generateKeyPair sc, pm_deriveKey = soft_deriveKey sc, pm_encrypt = soft_encrypt sc,
       pm_decrypt = soft_decrypt sc, pm_sign = soft_sign sc \<rparr>"

section \<open>Sessions of one caller\<close>

text \<open>
  What \<^verbatim>\<open>session.ts\<close> does over this token when operations follow one another: the last idle session is reused, the
  slot logs in once, a dead session is closed.  (The interleavings are the subject of \<open>Pkcs11_Session\<close>.)
\<close>

record soft_site = soft_token +
  ss_idle :: "nat list"
  ss_loggedIn :: bool

definition site_open ::
  "(rat option \<Rightarrow> jstr) \<Rightarrow> (jstr \<Rightarrow> jstr) \<Rightarrow> resolved_options \<Rightarrow> soft_site \<Rightarrow> (pkcs11_error + slot_state \<times> nat) \<times> soft_site" where
  "site_open show_number json_text c t =
     (case resolveSlot show_number json_text c (Inr (soft_slots t)) (\<lambda>_. Inr (soft_mechanisms t)) of
        Inl e \<Rightarrow> (Inl e, t)
      | Inr slot \<Rightarrow>
          if ss_idle t = [] then (let (h, u) = soft_openSession t in (Inr (slot, h), u))
          else (Inr (slot, last (ss_idle t)), t\<lparr>ss_idle := butlast (ss_idle t)\<rparr>))"

definition site_login :: "nat \<Rightarrow> soft_site \<Rightarrow> (pkcs11_error + unit) \<times> soft_site" where
  "site_login h t = (Inr (), if ss_loggedIn t then t else (soft_login t)\<lparr>ss_loggedIn := True\<rparr>)"

definition site_release :: "nat \<Rightarrow> jstr option option \<Rightarrow> soft_site \<Rightarrow> soft_site" where
  "site_release h failure t =
     (case failure of
        Some ckr \<Rightarrow> if sessionIsDead ckr then soft_closeSession t else t\<lparr>ss_idle := ss_idle t @ [h]\<rparr>
      | None \<Rightarrow> t\<lparr>ss_idle := ss_idle t @ [h]\<rparr>)"

definition soft_sessions ::
  "(rat option \<Rightarrow> jstr) \<Rightarrow> (jstr \<Rightarrow> jstr) \<Rightarrow> resolved_options \<Rightarrow> soft_site session_service" where
  "soft_sessions show_number json_text c =
     \<lparr> ss_open = site_open show_number json_text c, ss_login = site_login, ss_release = site_release,
       ss_resetLogin = (\<lambda>t. t\<lparr>ss_loggedIn := False\<rparr>) \<rparr>"

end
