(* ===== verification/Pkcs11_Soft_Facts.thy ===== *)
theory Pkcs11_Soft_Facts
  imports Pkcs11_Soft Wasm_Native_Vectors
begin

text \<open>
  The provider over a module: what it relies on of one is a locale, inside which text encrypted under a key reference
  decrypts to itself; the in-memory token satisfies it, so that the whole life of a key can be followed on it.
\<close>

section \<open>A module that encrypts\<close>

definition aad_bytes :: "jstr option \<Rightarrow> bytes" where
  "aad_bytes additional = (case additional of Some a \<Rightarrow> if a \<noteq> [] then bytesOf a else [] | None \<Rightarrow> [])"

lemma gcm_aad: "gcm nonce additional = Gcm nonce (aad_bytes additional) GCM_TAG_BITS"
  by (simp add: gcm_def aad_bytes_def)

text \<open>
  \<open>view\<close> is what a token's searches and ciphers depend on; sessions and logins leave it alone.
\<close>

locale aes_token =
  fixes m :: "'t pkcs11_module" and ss :: "'t session_service" and ok :: "'t \<Rightarrow> bool" and view :: "'t \<Rightarrow> 'v"
    and mechanisms :: "'v \<Rightarrow> int list" and found :: "'v \<Rightarrow> attribute list \<Rightarrow> nat list"
    and seal unseal :: "'v \<Rightarrow> nat \<Rightarrow> bytes \<Rightarrow> bytes \<Rightarrow> int \<Rightarrow> bytes \<Rightarrow> pkcs11_error + bytes"
  assumes opens: "ok t \<Longrightarrow> \<exists>slot s u. ss_open ss t = (Inr (slot, s), u) \<and> ok u \<and> view u = view t \<and> sl_mechanisms slot = mechanisms (view t)"
    and logs_in: "ok t \<Longrightarrow> \<exists>u. ss_login ss s t = (Inr (), u) \<and> ok u \<and> view u = view t"
    and releases: "ok t \<Longrightarrow> ok (ss_release ss s None t) \<and> view (ss_release ss s None t) = view t"
    and searches: "pm_findObjects m s template t = Inr (found (view t) template)"
    and encrypts: "pm_encrypt m s (ckm CkmAesGcm) (Some (Gcm iv aad n)) h p t = (seal (view t) h iv aad n p, t)"
    and decrypts: "pm_decrypt m s (ckm CkmAesGcm) (Some (Gcm iv aad n)) h p t = (unseal (view t) h iv aad n p, t)"
    and unseals: "seal v h iv aad n p = Inr c \<Longrightarrow> unseal v h iv aad n c = Inr p"
begin

text \<open>An operation that succeeds in every session succeeds on the token.\<close>

lemma succeeds:
  assumes pr: "pr_sessions pr = ss" "validateOptions (pr_options pr) = Inr ()" and w: "ok (w_token w)"
    and f: "\<And>slot s u. ok (w_token u) \<Longrightarrow> view (w_token u) = view (w_token w) \<Longrightarrow>
      sl_mechanisms slot = mechanisms (view (w_token w)) \<Longrightarrow> \<exists>z. f slot s u = (Inr x, z) \<and> ok (w_token z) \<and> view (w_token z) = v"
  shows "\<exists>z. onToken pr Quiet f w = (Inr x, z) \<and> ok (w_token z) \<and> view (w_token z) = v"
proof -
  obtain slot s t where o: "ss_open ss (w_token w) = (Inr (slot, s), t)" "ok t" "view t = view (w_token w)"
    "sl_mechanisms slot = mechanisms (view (w_token w))"
    using opens [OF w] by blast
  obtain u where l: "ss_login ss s t = (Inr (), u)" "ok u" "view u = view (w_token w)"
    using logs_in [OF o(2), of s] o(3) by auto
  let ?u = "\<lparr> w_token = u, w_calls = w_calls w @ [SessionAcquired s] \<rparr>"
  obtain z where z: "f slot s ?u = (Inr x, z)" "ok (w_token z)" "view (w_token z) = v"
    using f [of ?u slot s] l o(4) by auto
  have "onToken pr Quiet f w = (Inr x, release_session ss s None z)"
    by (simp add: onToken_def pr operation_defs withSession_def o(1) session_login_def l(1) z(1))
  then show ?thesis using releases [OF z(2), of s] z(3) by (simp add: release_session_def)
qed

lemma token_round_trip:
  assumes pr: "pr_module pr = m" "pr_sessions pr = ss" "validateOptions (pr_options pr) = Inr ()"
    and ref: "routesToToken pr ref" "resolveKeyUri (pr_options pr) ref = Inr u"
    and w: "ok (w_token w)" "ckm CkmAesGcm \<in> set (mechanisms (view (w_token w)))"
    and obj: "resolveObject (\<lambda>t. Inr (found (view (w_token w)) t)) u SecretKey = Inr h"
    and sealed: "seal (view (w_token w)) h nonce (aad_bytes additional) GCM_TAG_BITS (bytesOf v) = Inr c" "c \<noteq> []"
    and b64: "\<And>bs. b64_decode (lp_base64 (pr_local pr)) (b64_encode (lp_base64 (pr_local pr)) bs) = Inr bs"
    and written: "int (length nonce) = GCM_NONCE_BYTES" "well_formed v" "v = [] \<or> hd v \<noteq> 0xFEFF"
  shows "\<exists>cipher w'. encryptAES pr nonce ref v additional Quiet w = (Inr cipher, w') \<and>
    fst (decryptAES pr ref cipher additional Quiet w') = Inr v"
proof -
  have reads: "textOf (bytesOf v) = v" using written(2,3) by (simp add: textOf_def bytesOf_def utf8_round_trip)
  have n: "nat GCM_NONCE_BYTES = length nonce" using written(1) by simp
  have l: "\<not> int (length nonce) + int (length c) \<le> GCM_NONCE_BYTES" using sealed(2) written(1) by (cases c) auto
  have dec: "fromBase64 (lp_base64 (pr_local pr)) (b64 pr (nonce @ c)) = Inr (nonce @ c)"
    by (simp add: fromBase64_def b64_def toBase64_def b64)
  have "\<exists>z. encryptAES pr nonce ref v additional Quiet w = (Inr (b64 pr (nonce @ c)), z) \<and> ok (w_token z) \<and>
      view (w_token z) = view (w_token w)"
    unfolding encryptAES_def using ref(1)
    by (simp del: mechanism_code.simps, intro succeeds [OF pr(2,3) w(1)])
      (simp add: operation_defs the_uri_def ref(2) needs_def requireMechanism_def supports_def w(2) object_for_def lookup_def
        pr(1) searches obj gcm_aad token_encrypt_def perform_def encrypts sealed(1) del: mechanism_code.simps)
  then obtain z where z: "encryptAES pr nonce ref v additional Quiet w = (Inr (b64 pr (nonce @ c)), z)" "ok (w_token z)"
    "view (w_token z) = view (w_token w)" by blast
  have "\<exists>y. decryptAES pr ref (b64 pr (nonce @ c)) additional Quiet z = (Inr v, y) \<and> ok (w_token y) \<and>
      view (w_token y) = view (w_token w)"
    unfolding decryptAES_def using ref(1)
    by (simp del: mechanism_code.simps, intro succeeds [OF pr(2,3) z(2)])
      (simp add: operation_defs the_uri_def ref(2) needs_def requireMechanism_def supports_def w(2) z(3) object_for_def lookup_def
        pr(1) searches obj gcm_aad token_decrypt_def perform_def decrypts unseals [OF sealed(1)] dec l n reads del: mechanism_code.simps)
  then show ?thesis using z(1) by auto
qed

end

section \<open>The in-memory token is one\<close>

text \<open>Decryption undoes encryption under the same key, nonce, additional data and tag length.\<close>

locale sealing =
  fixes sc :: soft_crypto
  assumes opens_sealed: "sc_seal sc k iv aad n p = Inr c \<Longrightarrow> sc_unseal sc k iv aad n c = Inr p"

type_synonym site_view = "int list \<times> (nat \<times> soft_object) list \<times> nat"

definition site_view :: "soft_site \<Rightarrow> site_view" where
  "site_view t = (st_mechanisms t, st_objects t, st_nextObject t)"

definition selected :: "resolved_options \<Rightarrow> soft_site \<Rightarrow> bool" where
  "selected c t \<longleftrightarrow> (if ro_tokenLabel c \<noteq> [] then st_label t = ro_tokenLabel c else ro_slotId c = Some (st_slot t))"

definition site_found :: "site_view \<Rightarrow> attribute list \<Rightarrow> nat list" where
  "site_found v template = map fst (filter (\<lambda>(h, ob). matches ob template) (fst (snd v)))"

definition site_cipher ::
  "(bytes \<Rightarrow> bytes \<Rightarrow> bytes \<Rightarrow> int \<Rightarrow> bytes \<Rightarrow> jstr + bytes) \<Rightarrow> site_view \<Rightarrow> nat \<Rightarrow> bytes \<Rightarrow> bytes \<Rightarrow> int \<Rightarrow> bytes \<Rightarrow> pkcs11_error + bytes" where
  "site_cipher f v h iv aad n p =
     and_then (if ckm CkmAesGcm \<in> set (fst v) then Inr () else Inl (soft_error ''C_GetMechanismInfo'' CkrMechanismInvalid)) (\<lambda>_.
     and_then
       (case map_of (fst (snd v)) h of
          None \<Rightarrow> Inl (soft_error ''C_GetAttributeValue'' CkrKeyHandleInvalid)
        | Some ob \<Rightarrow> (case so_secret ob of Some k \<Rightarrow> Inr k | None \<Rightarrow> Inl (soft_error ''C_EncryptInit'' CkrKeyHandleInvalid)))
       (\<lambda>k. runs (f k iv aad n p)))"

lemmas soft_fields = site_view_def selected_def soft_openSession_def soft_closeSession_def soft_login_def

lemma soft_cipher:
  "soft_encrypt sc s (ckm CkmAesGcm) (Some (Gcm iv aad n)) h p t = (site_cipher (sc_seal sc) (site_view t) h iv aad n p, t)"
  "soft_decrypt sc s (ckm CkmAesGcm) (Some (Gcm iv aad n)) h p t = (site_cipher (sc_unseal sc) (site_view t) h iv aad n p, t)"
  by (simp_all add: soft_encrypt_def soft_decrypt_def site_cipher_def site_view_def require_mechanism_def aesKey_def
      require_object_def split: option.splits)

lemma site_opens:
  "selected c t \<Longrightarrow> \<exists>slot s u. site_open f g c t = (Inr (slot, s), u) \<and> selected c u \<and> site_view u = site_view t \<and>
    sl_mechanisms slot = fst (site_view t)"
  by (cases "ss_idle t = []")
    (auto simp: site_open_def resolveSlot_def select_slot_def soft_slots_def soft_mechanisms_def newSlotState_def soft_fields)

sublocale sealing \<subseteq> soft: aes_token "soft_module sc" "soft_sessions f g c" "selected c" site_view fst site_found
    "site_cipher (sc_seal sc)" "site_cipher (sc_unseal sc)" for f g c
proof
  show "selected c t \<Longrightarrow> \<exists>slot s u. ss_open (soft_sessions f g c) t = (Inr (slot, s), u) \<and> selected c u \<and>
      site_view u = site_view t \<and> sl_mechanisms slot = fst (site_view t)" for t
    using site_opens by (simp add: soft_sessions_def)
  show "pm_findObjects (soft_module sc) s template t = Inr (site_found (site_view t) template)" for s template t
    by (simp add: soft_module_def soft_findObjects_def site_found_def site_view_def)
  show "pm_encrypt (soft_module sc) s (ckm CkmAesGcm) (Some (Gcm iv aad n)) h p t =
      (site_cipher (sc_seal sc) (site_view t) h iv aad n p, t)"
    "pm_decrypt (soft_module sc) s (ckm CkmAesGcm) (Some (Gcm iv aad n)) h p t =
      (site_cipher (sc_unseal sc) (site_view t) h iv aad n p, t)" for s iv aad n h p t
    using soft_cipher [of sc s iv aad n h p t] by (simp_all add: soft_module_def del: mechanism_code.simps)
  show "selected c t \<Longrightarrow> \<exists>u. ss_login (soft_sessions f g c) s t = (Inr (), u) \<and> selected c u \<and> site_view u = site_view t" for s t
    by (simp add: soft_sessions_def site_login_def soft_fields)
  show "selected c t \<Longrightarrow> selected c (ss_release (soft_sessions f g c) s None t) \<and>
      site_view (ss_release (soft_sessions f g c) s None t) = site_view t" for s t
    by (simp add: soft_sessions_def site_release_def soft_fields)
  show "site_cipher (sc_seal sc) v h iv aad n p = Inr x \<Longrightarrow> site_cipher (sc_unseal sc) v h iv aad n x = Inr p" for v h iv aad n p x
  proof -
    have r: "runs q = Inr y \<longleftrightarrow> q = Inr y" for q :: "jstr + bytes" and y by (cases q) auto
    assume "site_cipher (sc_seal sc) v h iv aad n p = Inr x"
    then show "site_cipher (sc_unseal sc) v h iv aad n x = Inr p"
      by (auto simp: site_cipher_def r opens_sealed split: if_splits option.splits)
  qed
qed

section \<open>The life of a key\<close>

text \<open>The object a generated AES key is stored as.\<close>

definition aes_object :: "jstr \<Rightarrow> bytes \<Rightarrow> int \<Rightarrow> bytes \<Rightarrow> soft_object" where
  "aes_object label i n k =
     \<lparr> so_attributes = toMap (aes_template label i n), so_secret = Some k, so_pkcs8 = None, so_curve = None \<rparr>"

lemma aes_map: "toMap (aes_template label i n) =
    [(cka CkaToken, [1]), (cka CkaPrivate, [1]), (cka CkaSensitive, [1]), (cka CkaExtractable, [0]), (cka CkaLabel, utf8_encode label),
     (cka CkaId, i), (cka CkaKeyType, le_bytes 8 (key_type_code CkkAes)), (cka CkaClass, le_bytes 8 (class_code SecretKey)),
     (cka CkaValueLen, le_bytes 8 n), (cka CkaEncrypt, [1]), (cka CkaDecrypt, [1])]"
  by (simp add: toMap_def aes_template_def tokenKeyTemplate_def boolAttribute_def textAttribute_def bytesAttribute_def
      ulongAttribute_def del: le_bytes.simps)

lemma aes_stored:
  assumes "ckm CkmAesKeyGen \<in> set (st_mechanisms t)" "sc_random sc (st_nextObject t) n = Inr k" "0 \<le> n" "n < 2 ^ 64"
  shows "soft_generateKey sc s (ckm CkmAesKeyGen) (aes_template label i n) t =
    (Inr (st_nextObject t),
     t\<lparr>st_nextObject := st_nextObject t + 1, st_objects := st_objects t @ [(st_nextObject t, aes_object label i n k)]\<rparr>)"
proof -
  have l: "value_length (toMap (aes_template label i n)) CkaValueLen 32 = n"
    using assms(3,4) by (simp add: value_length_def aes_map ulongValue_def or_default_def le_round_trip del: le_bytes.simps)
  have "isSensitive (toMap (aes_template label i n))" by (simp add: isSensitive_def aes_map del: le_bytes.simps)
  moreover have "withClass (toMap (aes_template label i n)) SecretKey = toMap (aes_template label i n)"
    by (simp add: withClass_def aes_map del: le_bytes.simps)
  ultimately show ?thesis
    using assms(1,2) l
    by (simp add: soft_generateKey_def require_mechanism_def store_as_def store_def aes_object_def Let_def del: mechanism_code.simps)
qed

lemma aes_matches: "i \<noteq> [] \<Longrightarrow> label \<noteq> [] \<Longrightarrow> matches (aes_object label i n k) (lookup_template (new_uri label i SecretKey) (Some SecretKey))"
  by (simp add: matches_def lookup_template_def new_uri_def aes_object_def aes_map ulongAttribute_def bytesAttribute_def
      del: le_bytes.simps)

text \<open>The value of a key generated in the token is never among its attributes.\<close>

lemma aes_value_hidden: "map_of (so_attributes (aes_object label i n k)) (cka CkaValue) = None"
  by (simp add: aes_object_def aes_map del: le_bytes.simps)

context sealing
begin

text \<open>A key generated in the token, used under the reference it was given.\<close>

lemma life_cycle:
  assumes pr: "pr_module pr = soft_module sc" "pr_sessions pr = soft_sessions f g (pr_options pr)" "validateOptions (pr_options pr) = Inr ()"
    and w: "selected (pr_options pr) (w_token w)" "ckm CkmAesKeyGen \<in> set (st_mechanisms (w_token w))"
      "ckm CkmAesGcm \<in> set (st_mechanisms (w_token w))"
    and label: "label = newObjectLabel SymmetricPrefix uid now" "text_ok (Some label)" and i: "i \<noteq> []"
    and fresh: "list_all (\<lambda>(h, ob). h < st_nextObject (w_token w) \<and> \<not> matches ob (lookup_template (new_uri label i SecretKey) (Some SecretKey)))
      (st_objects (w_token w))"
    and n: "n = Key128Bits \<or> n = Key256Bits" and key: "sc_random sc (st_nextObject (w_token w)) n = Inr k"
    and sealed: "sc_seal sc k nonce (aad_bytes additional) GCM_TAG_BITS (bytesOf v) = Inr c" "c \<noteq> []"
    and b64: "\<And>bs. b64_decode (lp_base64 (pr_local pr)) (b64_encode (lp_base64 (pr_local pr)) bs) = Inr bs"
    and written: "int (length nonce) = GCM_NONCE_BYTES" "well_formed v" "v = [] \<or> hd v \<noteq> 0xFEFF"
  shows "\<exists>kd w1 cipher w2. generateSymmetricKeys pr i now n uid Quiet w = (Inr kd, w1) \<and>
    encryptAES pr nonce (kd_keyRef kd) v additional Quiet w1 = (Inr cipher, w2) \<and>
    fst (decryptAES pr (kd_keyRef kd) cipher additional Quiet w2) = Inr v"
proof -
  define u where "u = new_uri label i SecretKey"
  define h where "h = st_nextObject (w_token w)"
  define objects where "objects = st_objects (w_token w) @ [(h, aes_object label i n k)]"
  have l: "label \<noteq> []" using label(2) by (simp add: text_ok_def)
  have size: "aesValueLen n = Inr n" "0 \<le> n" "n < 2 ^ 64" using n by (auto simp: aesValueLen_def Key128Bits_def Key256Bits_def)
  have "uri_ok u" using label(2) i by (simp add: u_def uri_ok_def new_uri_def text_ok_def)
  then obtain ref where ref: "formatKeyUri u = Inr ref" "isKeyUri ref" "trim ref = ref" "parseKeyUri ref = Inr u"
    using uri_reads by blast
  have "ref \<noteq> []" using ref(2) by (auto simp: isKeyUri_def starts_with_def trim_def trim_start_def trim_end_def URI_SCHEME_def js_def)
  then have resolves: "resolveKeyUri (pr_options pr) ref = Inr u" "routesToToken pr ref"
    using ref by (simp_all add: resolveKeyUri_def routesToToken_def)
  obtain kd where kd: "keyDataFor u [] = Inr kd" "kd_keyRef kd = ref" using ref(1) by (simp add: keyDataFor_def)
  have "\<exists>z. onToken pr Quiet (\<lambda>slot s. chain (settled (from_token (aesValueLen n))) (\<lambda>len.
           chain (needs slot CkmAesKeyGen) (\<lambda>_.
           chain (generateKey (pr_module pr) s (ckm CkmAesKeyGen) (aes_template label i len)) (\<lambda>_.
             described (new_uri label i SecretKey) [])))) w = (Inr kd, z) \<and>
      selected (pr_options pr) (w_token z) \<and> site_view (w_token z) = (st_mechanisms (w_token w), objects, h + 1)"
  proof (rule soft.succeeds [OF pr(2,3) w(1)])
    fix slot :: slot_state and s :: nat and x :: "soft_site world"
    assume x: "selected (pr_options pr) (w_token x)" "site_view (w_token x) = site_view (w_token w)"
      and slot: "sl_mechanisms slot = fst (site_view (w_token w))"
    then have t: "st_mechanisms (w_token x) = st_mechanisms (w_token w)" "st_objects (w_token x) = st_objects (w_token w)"
      "st_nextObject (w_token x) = h" by (simp_all add: site_view_def h_def)
    have sup: "ckm CkmAesKeyGen \<in> set (sl_mechanisms slot)" using slot w(2) by (simp add: site_view_def)
    have g: "pm_generateKey (pr_module pr) s (ckm CkmAesKeyGen) (aes_template label i n) (w_token x) =
        (Inr h, (w_token x)\<lparr>st_nextObject := h + 1, st_objects := objects\<rparr>)"
      using aes_stored [of "w_token x" sc n k s label i] w(2) key size(2,3)
      by (simp add: pr(1) soft_module_def t objects_def h_def [symmetric] del: mechanism_code.simps)
    show "\<exists>z. chain (settled (from_token (aesValueLen n))) (\<lambda>len. chain (needs slot CkmAesKeyGen) (\<lambda>_.
           chain (generateKey (pr_module pr) s (ckm CkmAesKeyGen) (aes_template label i len)) (\<lambda>_.
             described (new_uri label i SecretKey) []))) x = (Inr kd, z) \<and>
        selected (pr_options pr) (w_token z) \<and> site_view (w_token z) = (st_mechanisms (w_token w), objects, h + 1)"
      using x(1) kd(1)
      by (simp add: operation_defs size(1) needs_def requireMechanism_def supports_def sup generateKey_def perform_def g
          described_def u_def site_view_def selected_def t del: mechanism_code.simps)
  qed
  then obtain w1 where w1: "generateSymmetricKeys pr i now n uid Quiet w = (Inr kd, w1)" "selected (pr_options pr) (w_token w1)"
    "site_view (w_token w1) = (st_mechanisms (w_token w), objects, h + 1)"
    unfolding generateSymmetricKeys_def Let_def label(1) [symmetric] by blast
  have "filter (\<lambda>(h, ob). matches ob (lookup_template u (Some SecretKey))) (st_objects (w_token w)) = []"
    using fresh by (auto simp: filter_empty_conv list_all_iff u_def)
  then have "site_found (site_view (w_token w1)) (lookup_template u (Some SecretKey)) = [h]"
    using aes_matches [OF i l] by (simp add: site_found_def w1(3) objects_def u_def)
  then have obj: "resolveObject (\<lambda>t. Inr (site_found (site_view (w_token w1)) t)) u SecretKey = Inr h"
    by (simp add: resolveObject_def findObject_def u_def new_uri_def)
  have "map_of (st_objects (w_token w)) h = None"
    using fresh by (auto simp: map_of_eq_None_iff list_all_iff h_def)
  then have "map_of objects h = Some (aes_object label i n k)" by (simp add: objects_def map_add_def)
  then have "site_cipher (sc_seal sc) (site_view (w_token w1)) h nonce (aad_bytes additional) GCM_TAG_BITS (bytesOf v) = Inr c"
    using w(3) sealed(1) by (simp add: site_cipher_def w1(3) aes_object_def del: mechanism_code.simps)
  moreover have "ckm CkmAesGcm \<in> set (fst (site_view (w_token w1)))" using w(3) w1(3) by simp
  ultimately show ?thesis
    using soft.token_round_trip [OF pr resolves(2,1) w1(2) _ obj _ sealed(2) b64 written] w1(1) kd(2) by blast
qed

end
text \<open>
  C24: The life of a key.  A key generated in a token whose cipher undoes itself can be used under the reference it was
  given: what is encrypted under it decrypts to itself, for any nonce of twelve bytes, any additional data and any text
  that is well formed and does not begin with U+FEFF (a leading one is dropped when the plaintext is
  decoded, and an unpaired surrogate is replaced when it is encoded).  The reference survives formatting
  and parsing, and the search under it finds the new object.
\<close>

theorem key_life_cycle:
  assumes sealing: "sealing sc"
    and pr: "pr_module pr = soft_module sc" "pr_sessions pr = soft_sessions f g (pr_options pr)" "validateOptions (pr_options pr) = Inr ()"
    and w: "selected (pr_options pr) (w_token w)" "ckm CkmAesKeyGen \<in> set (st_mechanisms (w_token w))"
      "ckm CkmAesGcm \<in> set (st_mechanisms (w_token w))"
    and label: "label = newObjectLabel SymmetricPrefix uid now" "text_ok (Some label)" and i: "i \<noteq> []"
    and fresh: "list_all (\<lambda>(h, ob). h < st_nextObject (w_token w) \<and> \<not> matches ob (lookup_template (new_uri label i SecretKey) (Some SecretKey)))
      (st_objects (w_token w))"
    and n: "n = Key128Bits \<or> n = Key256Bits" and key: "sc_random sc (st_nextObject (w_token w)) n = Inr k"
    and sealed: "sc_seal sc k nonce (aad_bytes additional) GCM_TAG_BITS (bytesOf v) = Inr c" "c \<noteq> []"
    and b64: "\<And>bs. b64_decode (lp_base64 (pr_local pr)) (b64_encode (lp_base64 (pr_local pr)) bs) = Inr bs"
    and written: "int (length nonce) = GCM_NONCE_BYTES" "well_formed v" "v = [] \<or> hd v \<noteq> 0xFEFF"
  shows "\<exists>kd w1 cipher w2. generateSymmetricKeys pr i now n uid Quiet w = (Inr kd, w1) \<and>
    encryptAES pr nonce (kd_keyRef kd) v additional Quiet w1 = (Inr cipher, w2) \<and>
    fst (decryptAES pr (kd_keyRef kd) cipher additional Quiet w2) = Inr v"
  by (rule sealing.life_cycle [OF sealing pr w label i fresh n key sealed b64 written])

text \<open>A token whose cipher appends the key and the nonce.\<close>

definition sample_soft :: soft_crypto where
  "sample_soft =
     \<lparr> sc_random = (\<lambda>h n. Inr (replicate (nat n) (of_nat h))), sc_rsaPair = (\<lambda>_ _. Inl []), sc_curvePair = (\<lambda>_ _. Inl []),
       sc_atob = (\<lambda>_. Inl []), sc_ecdh = (\<lambda>_ _ _ _. Inl []), sc_hkdf = (\<lambda>_ _ _. Inl []),
       sc_seal = (\<lambda>k iv aad n p. Inr (p @ k @ iv)),
       sc_unseal = (\<lambda>k iv aad n c. if drop (length c - length (k @ iv)) c = k @ iv then Inr (take (length c - length (k @ iv)) c) else Inl []),
       sc_oaep = (\<lambda>_ _. Inl []), sc_hmac = (\<lambda>k x. Inr (k @ x)), sc_pkcs1 = (\<lambda>k x. Inr (k @ x)), sc_pss = (\<lambda>_ k x. Inr (k @ x)),
       sc_ed25519 = (\<lambda>k x. Inr (k @ x)) \<rparr>"

interpretation sample_sealing: sealing sample_soft
  by standard (auto simp: sample_soft_def)

definition sample_provider :: "(soft_site, bytes) provider" where
  "sample_provider =
     \<lparr> pr_options = plain_options, pr_module = soft_module sample_soft,
       pr_sessions = soft_sessions (\<lambda>_. []) (\<lambda>t. t) plain_options, pr_local = plain_local\<lparr>lp_base64 := std_base64\<rparr> \<rparr>"

definition sample_site :: "soft_site world" where
  "sample_site =
     \<lparr> w_token = soft_token.extend (newSoftToken None (Some (js ''t'')) None None) \<lparr> ss_idle = [], ss_loggedIn = False \<rparr>, w_calls = [] \<rparr>"

theorem key_life_cycle_witness:
  "\<exists>kd w1 cipher w2. generateSymmetricKeys sample_provider [7, 7] (js ''now'') 32 (Some (js ''k'')) Quiet sample_site = (Inr kd, w1) \<and>
    encryptAES sample_provider twelve (kd_keyRef kd) (js ''hello'') (Some (js ''aad'')) Quiet w1 = (Inr cipher, w2) \<and>
    fst (decryptAES sample_provider (kd_keyRef kd) cipher (Some (js ''aad'')) Quiet w2) = Inr (js ''hello'')"
proof (rule key_life_cycle [OF sample_sealing.sealing_axioms, where f = "\<lambda>_. []" and g = "\<lambda>t. t" and
    k = "replicate 32 1" and c = "bytesOf (js ''hello'') @ replicate 32 1 @ twelve"])
  show "text_ok (Some (newObjectLabel SymmetricPrefix (Some (js ''k'')) (js ''now'')))" "well_formed (js ''hello'')"
    "js ''hello'' = [] \<or> hd (js ''hello'') \<noteq> 0xFEFF" "int (length twelve) = GCM_NONCE_BYTES"
    by code_simp+
  show "b64_decode (lp_base64 (pr_local sample_provider)) (b64_encode (lp_base64 (pr_local sample_provider)) bs) = Inr bs" for bs
    by (simp add: sample_provider_def std.decodes)
  show "validateOptions (pr_options sample_provider) = Inr ()"
    by (simp add: sample_provider_def validateOptions_def plain_options_def js_def)
  show "selected (pr_options sample_provider) (w_token sample_site)"
    by (simp add: sample_provider_def plain_options_def sample_site_def selected_def newSoftToken_def soft_token.defs or_default_def js_def)
qed (simp_all add: sample_provider_def sample_site_def newSoftToken_def soft_token.defs or_default_def FULL_MECHANISMS_def
    Key256Bits_def sample_soft_def twelve_def)

end
