(* ===== verification/Cmd_Openssl.thy ===== *)
theory Cmd_Openssl
  imports Encrypt_Common
begin

text \<open>
  The key tooling command \<^verbatim>\<open>src/cmd/deno-openssl\<close>: PEM text, key and certificate generation, the argument parser and
  the commands.  Web Crypto, the certificate package, the clock, random bytes, the file system and Base64 are the
  fields of a record; what the commands print and write is a log.

  Flags and commands are looked up in plain objects; names that every object inherits (\<^verbatim>\<open>constructor\<close>, \<^verbatim>\<open>toString\<close>)
  are outside the model.
\<close>

section \<open>PEM\<close>

definition dashes :: jstr where "dashes = js ''-----''"

definition line_terminator :: "16 word \<Rightarrow> bool" where
  "line_terminator c \<longleftrightarrow> c = 10 \<or> c = 13 \<or> c = 0x2028 \<or> c = 0x2029"

text \<open>\<^verbatim>\<open>match(/.{1,64}/g)\<close>\<close>

function columns :: "jstr \<Rightarrow> jstr list" where
  "columns s =
     (let t = dropWhile line_terminator s; l = takeWhile (\<lambda>c. \<not> line_terminator c) t
      in if t = [] then [] else take 64 l # columns (drop (length (take 64 l)) t))"
  by auto
termination
proof (relation "measure length")
  fix s :: jstr and t l
  assume t: "t = dropWhile line_terminator s" and l: "l = takeWhile (\<lambda>c. \<not> line_terminator c) t" and ne: "t \<noteq> []"
  have "\<not> line_terminator (hd t)" using hd_dropWhile [of line_terminator s] t ne by simp
  then have "l \<noteq> []" using l ne by (cases t) auto
  moreover have "length t \<le> length s" unfolding t by (rule length_dropWhile_le)
  moreover have "length l \<le> length t" unfolding l by (rule length_takeWhile_le)
  ultimately show "(drop (length (take 64 l)) t, s) \<in> measure length" by (cases l) auto
qed simp

declare columns.simps [simp del]

definition toPem :: "base64 \<Rightarrow> jstr \<Rightarrow> bytes \<Rightarrow> jstr" where
  "toPem b label der =
     dashes @ js ''BEGIN '' @ label @ dashes @ [10] @ join [10] (columns (b64_encode b der)) @ [10] @
     dashes @ js ''END '' @ label @ dashes @ [10]"

definition label_unit :: "16 word \<Rightarrow> bool" where
  "label_unit c \<longleftrightarrow> is_upper c \<or> is_digit c \<or> c = 32"

text \<open>A mark at the head of a text, \<^verbatim>\<open>-----[A-Z0-9 ]+-----\<close>: what follows it.\<close>

definition after_mark :: "jstr \<Rightarrow> jstr option" where
  "after_mark s =
     (if starts_with dashes s then
        (let r = drop 5 s; e = dropWhile label_unit r
         in if takeWhile label_unit r \<noteq> [] \<and> starts_with dashes e then Some (drop 5 e) else None)
      else None)"

lemma after_mark_shorter: "after_mark s = Some r \<Longrightarrow> length r < length s"
proof -
  assume "after_mark s = Some r"
  then have "starts_with dashes s" "r = drop 5 (dropWhile label_unit (drop 5 s))"
    by (auto simp: after_mark_def Let_def split: if_splits)
  moreover have "length (dropWhile label_unit (drop 5 s)) \<le> length (drop 5 s)" by (rule length_dropWhile_le)
  moreover have "starts_with dashes s \<Longrightarrow> s \<noteq> []" by (auto simp: starts_with_def dashes_def js_def)
  ultimately show ?thesis by (cases s) auto
qed

text \<open>\<^verbatim>\<open>test\<close> with the opening mark, anywhere in the text.\<close>

fun has_begin :: "jstr \<Rightarrow> bool" where
  "has_begin [] = False"
| "has_begin (c # s) =
     ((starts_with (dashes @ js ''BEGIN '') (c # s) \<and>
       (let r = drop 11 (c # s) in takeWhile label_unit r \<noteq> [] \<and> starts_with dashes (dropWhile label_unit r))) \<or> has_begin s)"

function strip_marks :: "jstr \<Rightarrow> jstr" where
  "strip_marks [] = []"
| "strip_marks (c # s) = (case after_mark (c # s) of Some r \<Rightarrow> strip_marks r | None \<Rightarrow> c # strip_marks s)"
  by pat_completeness auto
termination by (relation "measure length") (auto dest: after_mark_shorter)

declare strip_marks.simps(2) [simp del]

definition fromPem :: "base64 \<Rightarrow> jstr \<Rightarrow> jstr + bytes" where
  "fromPem b pem =
     (if \<not> has_begin pem then Inl (js ''deno-openssl: input is not a PEM block'')
      else
        (let body = filter (\<lambda>c. \<not> is_space c) (strip_marks pem)
         in if body = [] then Inl (js ''deno-openssl: empty PEM body'') else b64_decode b body))"

section \<open>Keys and certificates\<close>

text \<open>A number is finite or not (None).\<close>

datatype key_spec = RsaSpec "rat option" | EcSpec jstr | Ed25519Spec

record 'k cert_request =
  cq_serialNumber :: jstr
  cq_name :: jstr
  cq_notBefore :: int
  cq_notAfter :: "int option"
  cq_keys :: "'k \<times> 'k"
  cq_signingAlgorithm :: key_spec

record 'k openssl =
  os_base64 :: base64
  os_generateKey :: "key_spec \<Rightarrow> jstr + 'k \<times> 'k"
  os_exportKey :: "key_format \<Rightarrow> 'k \<Rightarrow> jstr + bytes"
  os_loadX509 :: "jstr + unit"
  os_createSelfSigned :: "'k cert_request \<Rightarrow> jstr + jstr"
  os_now :: int
  os_random :: bytes
  os_writeFile :: "jstr \<Rightarrow> jstr \<Rightarrow> jstr + unit"
  os_readFile :: "jstr \<Rightarrow> jstr + jstr"

definition importParams :: "jstr \<Rightarrow> rat option option \<Rightarrow> jstr option \<Rightarrow> jstr + key_spec" where
  "importParams algorithm modulusLength namedCurve =
     (if algorithm = js ''rsa'' then Inr (RsaSpec (case modulusLength of None \<Rightarrow> Some 2048 | Some n \<Rightarrow> n))
      else if algorithm = js ''ec'' then Inr (EcSpec (case namedCurve of None \<Rightarrow> js ''P-256'' | Some c \<Rightarrow> c))
      else if algorithm = js ''ed25519'' then Inr Ed25519Spec
      else Inl (js ''deno-openssl: unsupported algorithm \"'' @ algorithm @ js ''\"''))"

definition export_pair :: "'k openssl \<Rightarrow> 'k \<times> 'k \<Rightarrow> jstr + bytes \<times> bytes" where
  "export_pair os pair =
     and_then (os_exportKey os Spki (fst pair)) (\<lambda>spki. and_then (os_exportKey os Pkcs8 (snd pair)) (\<lambda>pkcs8. Inr (spki, pkcs8)))"

definition pair_pem :: "'k openssl \<Rightarrow> bytes \<times> bytes \<Rightarrow> jstr \<times> jstr" where
  "pair_pem os p = (toPem (os_base64 os) (js ''PUBLIC KEY'') (fst p), toPem (os_base64 os) (js ''PRIVATE KEY'') (snd p))"

text \<open>The public and the private key.\<close>

definition generateKeyPair :: "'k openssl \<Rightarrow> jstr \<Rightarrow> rat option option \<Rightarrow> jstr option \<Rightarrow> jstr + jstr \<times> jstr" where
  "generateKeyPair os algorithm modulusLength namedCurve =
     and_then (importParams algorithm modulusLength namedCurve) (\<lambda>spec.
     and_then (os_generateKey os spec) (\<lambda>pair.
     and_then (export_pair os pair) (\<lambda>p. Inr (pair_pem os p))))"

text \<open>A \<^verbatim>\<open>Date\<close> holds whole milliseconds within its range.\<close>

definition date_value :: "rat option \<Rightarrow> int option" where
  "date_value t =
     (case t of
        None \<Rightarrow> None
      | Some r \<Rightarrow> if \<bar>r\<bar> \<le> 8640000000000000 then Some (if 0 \<le> r then \<lfloor>r\<rfloor> else \<lceil>r\<rceil>) else None)"

definition serial_number :: "bytes \<Rightarrow> jstr" where
  "serial_number bs = concat (map (\<lambda>b. int_digits 16 (uint b)) bs)"

text \<open>The certificate, the public and the private key.\<close>

definition generateSelfSignedCertificate ::
  "'k openssl \<Rightarrow> jstr \<Rightarrow> rat option option \<Rightarrow> jstr option \<Rightarrow> jstr + jstr \<times> jstr \<times> jstr" where
  "generateSelfSignedCertificate os name days algorithm =
     and_then (os_loadX509 os) (\<lambda>_.
     and_then (importParams (case algorithm of None \<Rightarrow> js ''ec'' | Some a \<Rightarrow> a) None None) (\<lambda>spec.
     and_then (os_generateKey os spec) (\<lambda>keys.
     and_then (os_createSelfSigned os
       \<lparr> cq_serialNumber = serial_number (os_random os), cq_name = name, cq_notBefore = os_now os,
         cq_notAfter = date_value (map_option (\<lambda>d. of_int (os_now os) + d * 86400000) (case days of None \<Rightarrow> Some 365 | Some d \<Rightarrow> d)),
         cq_keys = keys, cq_signingAlgorithm = spec \<rparr>) (\<lambda>cert.
     and_then (export_pair os keys) (\<lambda>p. Inr (cert, pair_pem os p))))))"

section \<open>Arguments\<close>

datatype flag = FlagText jstr | FlagTrue

record parsed_args =
  pa_command :: jstr
  pa_positionals :: "jstr list"
  pa_flags :: "(jstr \<times> flag) list"

fun parse_rest :: "jstr list \<Rightarrow> jstr list \<Rightarrow> (jstr \<times> flag) list \<Rightarrow> jstr list \<times> (jstr \<times> flag) list" where
  "parse_rest [] ps fs = (ps, fs)"
| "parse_rest (token # rest) ps fs =
     (if starts_with (js ''--'') token then
        (let body = drop 2 token
         in case index_of 61 body of
              Some eq \<Rightarrow> parse_rest rest ps (AList.update (take eq body) (FlagText (drop (eq + 1) body)) fs)
            | None \<Rightarrow>
                (case rest of
                   nxt # others \<Rightarrow>
                     if \<not> starts_with (js ''--'') nxt then parse_rest others ps (AList.update body (FlagText nxt) fs)
                     else parse_rest rest ps (AList.update body FlagTrue fs)
                 | [] \<Rightarrow> (ps, AList.update body FlagTrue fs)))
      else parse_rest rest (ps @ [token]) fs)"

declare parse_rest.simps(2) [simp del]

definition parseArgs :: "jstr list \<Rightarrow> parsed_args" where
  "parseArgs argv =
     (let (ps, fs) = parse_rest (drop 1 argv) [] []
      in \<lparr> pa_command = (case argv of [] \<Rightarrow> js ''help'' | c # _ \<Rightarrow> c), pa_positionals = ps, pa_flags = fs \<rparr>)"

section \<open>Commands\<close>

datatype effect_line = Out jstr | Err jstr | Wrote jstr jstr

type_synonym command_run = "(jstr + int) \<times> effect_line list"

definition flagString :: "parsed_args \<Rightarrow> string \<Rightarrow> jstr option \<Rightarrow> jstr option" where
  "flagString args name fallback =
     (case map_of (pa_flags args) (js name) of Some (FlagText t) \<Rightarrow> Some t | _ \<Rightarrow> fallback)"

text \<open>\<^verbatim>\<open>args.flags.bits ? Number(args.flags.bits) : undefined\<close>\<close>

definition flagNumber :: "parsed_args \<Rightarrow> string \<Rightarrow> rat option option" where
  "flagNumber args name =
     (case map_of (pa_flags args) (js name) of
        None \<Rightarrow> None
      | Some FlagTrue \<Rightarrow> Some (Some 1)
      | Some (FlagText t) \<Rightarrow> if t = [] then None else Some (js_number t))"

fun emit :: "'k openssl \<Rightarrow> jstr option \<Rightarrow> (jstr \<times> jstr) list \<Rightarrow> command_run" where
  "emit os pre [] = (Inr 0, [])"
| "emit os pre ((ext, content) # parts) =
     (if pre \<noteq> None \<and> pre \<noteq> Some [] then
        (let path = the pre @ js ''.'' @ ext
         in case os_writeFile os path content of
              Inl e \<Rightarrow> (Inl e, [])
            | Inr _ \<Rightarrow> (let (r, ls) = emit os pre parts in (r, Wrote path content # Out (js ''wrote '' @ path) # ls)))
      else (let (r, ls) = emit os pre parts in (r, Out (trim_end content) # ls)))"

definition keypair :: "'k openssl \<Rightarrow> parsed_args \<Rightarrow> command_run" where
  "keypair os args =
     (case generateKeyPair os (case flagString args ''algorithm'' (Some (js ''ec'')) of None \<Rightarrow> js ''ec'' | Some a \<Rightarrow> a)
         (flagNumber args ''bits'') (flagString args ''curve'' None) of
        Inl e \<Rightarrow> (Inl e, [])
      | Inr (pub, priv) \<Rightarrow> emit os (flagString args ''out'' None) [(js ''key.pem'', priv), (js ''pub.pem'', pub)])"

definition cert :: "'k openssl \<Rightarrow> parsed_args \<Rightarrow> command_run" where
  "cert os args =
     (case generateSelfSignedCertificate os (the (flagString args ''name'' (Some (js ''CN=localhost''))))
         (flagNumber args ''days'') (flagString args ''algorithm'' None) of
        Inl e \<Rightarrow> (Inl e, [])
      | Inr (crt, pub, priv) \<Rightarrow>
          emit os (flagString args ''out'' None) [(js ''crt.pem'', crt), (js ''key.pem'', priv), (js ''pub.pem'', pub)])"

definition pemInfo :: "'k openssl \<Rightarrow> parsed_args \<Rightarrow> command_run" where
  "pemInfo os args =
     (case pa_positionals args of
        path # _ \<Rightarrow>
          if path = [] then (Inr 1, [Err (js ''deno-openssl: pem-info requires a file path'')])
          else
            (case and_then (os_readFile os path) (fromPem (os_base64 os)) of
               Inl e \<Rightarrow> (Inl e, [])
             | Inr der \<Rightarrow> (Inr 0, [Out (js ''DER length: '' @ decimal_text (int (length der)) @ js '' bytes'')]))
      | [] \<Rightarrow> (Inr 1, [Err (js ''deno-openssl: pem-info requires a file path'')]))"

definition help_text :: jstr where
  "help_text = join [10]
     [js ''deno-openssl '' @ [0x2014] @ js '' key & certificate tooling'',
      [],
      js ''Usage:'',
      js ''  deno-openssl keypair  [--algorithm rsa|ec|ed25519] [--bits 2048] [--curve P-256] [--out <prefix>]'',
      js ''  deno-openssl cert     [--name CN=localhost] [--days 365] [--algorithm ec] [--out <prefix>]'',
      js ''  deno-openssl pem-info <file.pem>'',
      js ''  deno-openssl help'',
      [],
      js ''Without --out, PEM material is printed to stdout.'']"

definition help_command :: "'k openssl \<Rightarrow> parsed_args \<Rightarrow> command_run" where
  "help_command os args = (Inr 0, [Out help_text])"

definition commands :: "(jstr \<times> ('k openssl \<Rightarrow> parsed_args \<Rightarrow> command_run)) list" where
  "commands = [(js ''keypair'', keypair), (js ''cert'', cert), (js ''pem-info'', pemInfo), (js ''help'', help_command)]"

text \<open>The exit code, and everything printed and written.\<close>

definition run :: "'k openssl \<Rightarrow> jstr list \<Rightarrow> int \<times> effect_line list" where
  "run os argv =
     (let args = parseArgs argv
      in case map_of commands (pa_command args) of
           None \<Rightarrow>
             (1, Err (js ''deno-openssl: unknown command \"'' @ pa_command args @ js ''\"'') # snd (help_command os args))
         | Some handler \<Rightarrow>
             (case handler os args of
                (Inr code, ls) \<Rightarrow> (code, ls)
              | (Inl e, ls) \<Rightarrow> (1, ls @ [Err (js ''deno-openssl: '' @ e)])))"

end
