(* ===== verification/Cmd_Openssl_Facts.thy ===== *)
theory Cmd_Openssl_Facts
  imports Cmd_Openssl Wasm_Native_Vectors
begin

text \<open>
  What the key tooling promises: PEM text reads back, exit codes tell whether an error was reported, and the files it
  writes hold the generated keys.
\<close>

section \<open>PEM round trip\<close>

lemma starts_with_append [simp]: "starts_with p (p @ s)"
  by (simp add: starts_with_def)

lemma dashes_units: "dashes = [45, 45, 45, 45, 45]"
  by (simp add: dashes_def js_def)

lemma label_not_dash: "list_all label_unit w \<Longrightarrow> 45 \<notin> set w"
  by (auto simp: list_all_iff label_unit_def is_upper_def is_digit_def)

lemma dash_not_label [simp]: "\<not> label_unit 45"
  by (simp add: label_unit_def is_upper_def is_digit_def)

lemma takes_label:
  "list_all label_unit w \<Longrightarrow> takeWhile label_unit (w @ 45 # s) = w \<and> dropWhile label_unit (w @ 45 # s) = 45 # s"
  by (induction w) auto

lemma mark_found: "list_all label_unit w \<Longrightarrow> w \<noteq> [] \<Longrightarrow> after_mark (dashes @ w @ dashes @ r) = Some r"
  using takes_label [of w "45 # 45 # 45 # 45 # r"] by (simp add: after_mark_def dashes_units starts_with_def Let_def)

lemma strip_pem_mark: "list_all label_unit w \<Longrightarrow> w \<noteq> [] \<Longrightarrow> strip_marks (dashes @ w @ dashes @ r) = strip_marks r"
  using mark_found [of w r] by (simp add: dashes_units strip_marks.simps(2))

lemma no_mark_here: "c \<noteq> 45 \<Longrightarrow> after_mark (c # s) = None"
  by (auto simp: after_mark_def starts_with_def dashes_units)

lemma strip_text: "45 \<notin> set p \<Longrightarrow> strip_marks (p @ r) = p @ strip_marks r"
  by (induction p) (auto simp: strip_marks.simps(2) no_mark_here)

lemma begins:
  assumes "list_all label_unit w" "w \<noteq> []"
  shows "has_begin (dashes @ js ''BEGIN '' @ w @ dashes @ r)"
proof -
  have *: "takeWhile label_unit (w @ dashes @ r) \<noteq> []" "starts_with dashes (dropWhile label_unit (w @ dashes @ r))"
    using takes_label [OF assms(1), of "45 # 45 # 45 # 45 # r"] assms(2) by (simp_all add: dashes_units starts_with_def)
  have "drop 11 (dashes @ js ''BEGIN '' @ w @ dashes @ r) = w @ dashes @ r" by (simp add: dashes_units js_def)
  moreover have "starts_with (dashes @ js ''BEGIN '') (dashes @ js ''BEGIN '' @ w @ dashes @ r)"
    using starts_with_append [of "dashes @ js ''BEGIN ''"] by simp
  ultimately show ?thesis using * by (simp add: dashes_units)
qed

lemma columns_text: "list_all (\<lambda>c. \<not> line_terminator c) s \<Longrightarrow> concat (columns s) = s"
proof (induction s rule: columns.induct)
  case (1 s)
  have t: "dropWhile line_terminator s = s" "takeWhile (\<lambda>c. \<not> line_terminator c) s = s"
    using "1.prems" by (cases s; simp add: list_all_iff)+
  have "list_all (\<lambda>c. \<not> line_terminator c) (drop (length (take 64 s)) s)"
    using "1.prems" by (auto simp: list_all_iff dest: in_set_dropD)
  then have "s = [] \<or> concat (columns (drop (length (take 64 s)) s)) = drop (length (take 64 s)) s"
    using "1.IH" [OF refl refl] t by auto
  moreover have "take 64 s @ drop (length (take 64 s)) s = s" by (cases "length s \<le> 64") auto
  ultimately show ?case using t by (subst columns.simps) (simp only: Let_def t, auto simp del: length_take)
qed

lemma joined_lines: "list_all (list_all (\<lambda>c. \<not> is_space c)) ls \<Longrightarrow> filter (\<lambda>c. \<not> is_space c) (join [10] ls) = concat ls"
  by (induction "[10] :: jstr" ls rule: join.induct) (auto simp: is_space_def list_all_iff filter_id_conv)

lemma columns_all: "list_all P s \<Longrightarrow> list_all (list_all P) (columns s)"
proof (induction s rule: columns.induct)
  case (1 s)
  define t where "t = dropWhile line_terminator s"
  have t: "list_all P t" using "1.prems" set_dropWhileD unfolding t_def list_all_iff by fastforce
  have l: "list_all P (take 64 (takeWhile (\<lambda>c. \<not> line_terminator c) t))"
    using t unfolding list_all_iff by (meson in_set_takeD set_takeWhileD)
  have "list_all P (drop (length (take 64 (takeWhile (\<lambda>c. \<not> line_terminator c) t))) t)"
    using t unfolding list_all_iff by (meson in_set_dropD)
  then show ?case using "1.IH" [OF t_def refl] l
    by (subst columns.simps) (simp add: Let_def t_def [symmetric])
qed

lemma join_no: "c \<noteq> 10 \<Longrightarrow> list_all (list_all (\<lambda>d. d \<noteq> c)) ls \<Longrightarrow> c \<notin> set (join [10] ls)"
  by (induction "[10] :: jstr" ls rule: join.induct) (auto simp: list_all_iff)

context padded_base64
begin

text \<open>The units of an encoding are neither spaces, line terminators nor dashes.\<close>

lemma encoded_units: "list_all (\<lambda>c. \<not> is_space c \<and> \<not> line_terminator c \<and> c \<noteq> 45) (b64_encode b bs)"
proof -
  have u: "\<not> is_space c \<and> \<not> line_terminator c \<and> c \<noteq> 45" if "is_b64 c \<or> c = 61" for c
    using that by (auto simp: is_b64_def is_alpha_def is_upper_def is_lower_def is_digit_def is_space_def line_terminator_def word_le_def)
  have "set (b64_encode b bs) \<subseteq> set (takeWhile is_b64 (b64_encode b bs)) \<union> set (dropWhile is_b64 (b64_encode b bs))"
    by (metis set_append subset_refl takeWhile_dropWhile_id)
  then have "is_b64 c \<or> c = 61" if "c \<in> set (b64_encode b bs)" for c
    using that encodes_loose [of bs] by (auto simp: loose_base64_def Let_def dest: set_takeWhileD)
  then show ?thesis using u by (auto simp: list_all_iff)
qed

text \<open>What stands before the block, without dashes and spaces, is read as part of its body.\<close>

lemma pem_body_read:
  assumes "list_all label_unit label" "label \<noteq> []" "list_all (\<lambda>c. \<not> is_space c \<and> c \<noteq> 45) p"
  shows "filter (\<lambda>c. \<not> is_space c) (strip_marks (p @ toPem b label der)) = p @ b64_encode b der"
proof -
  define e where "e = b64_encode b der"
  define ls where "ls = columns e"
  note u = encoded_units [of der, folded e_def]
  have sp: "list_all (\<lambda>c. \<not> is_space c) e" and lt: "list_all (\<lambda>c. \<not> line_terminator c) e" and da: "list_all (\<lambda>c. c \<noteq> 45) e"
    using u by (simp_all add: list_all_iff)
  have w: "list_all label_unit (js ''BEGIN '' @ label)" "list_all label_unit (js ''END '' @ label)"
    using assms(1) by (simp_all add: js_def label_unit_def is_upper_def is_digit_def)
  have "45 \<notin> set ([10] @ join [10] ls @ [10])" "45 \<notin> set p"
    using join_no [of 45 ls] columns_all [OF da] assms(3) by (auto simp: ls_def list_all_iff)
  then have "strip_marks (p @ toPem b label der) = p @ [10] @ join [10] ls @ [10] @ [10]"
    using strip_pem_mark [OF w(1)] strip_pem_mark [OF w(2)] strip_text [of "[10] @ join [10] ls @ [10]"] strip_text [of "[10]" "[]"]
      strip_text [of p] assms(2)
    by (simp add: toPem_def e_def [symmetric] ls_def [symmetric])
  moreover have "filter (\<lambda>c. \<not> is_space c) (join [10] ls) = e"
    using joined_lines [OF columns_all [OF sp]] columns_text [OF lt] by (simp add: ls_def)
  moreover have "filter (\<lambda>c. \<not> is_space c) p = p" using assms(3) by (simp add: filter_id_conv list_all_iff)
  ultimately show ?thesis by (simp add: is_space_def e_def)
qed

lemma pem_reads_back:
  assumes "list_all label_unit label" "label \<noteq> []" "der \<noteq> []"
  shows "fromPem b (toPem b label der) = Inr der"
proof -
  have "0 < length der" using assms(3) by simp
  then have "(int (length der) + 2) div 3 \<noteq> 0" by presburger
  then have "b64_encode b der \<noteq> []" using encodes_length [of der] by (auto simp: encodedLength_def)
  moreover have "has_begin (toPem b label der)"
    using begins [OF assms(1,2)] by (simp add: toPem_def)
  ultimately show ?thesis using pem_body_read [OF assms(1,2), of "[]"] decodes [of der] by (simp add: fromPem_def Let_def)
qed

end

interpretation std_pem: padded_base64 std_base64
  by (rule std.padded_base64_axioms)

text \<open>DER bytes put in a PEM block under a label of capitals, digits and spaces come back.\<close>

theorem pem_round_trip:
  assumes "padded_base64 b" "list_all label_unit label" "label \<noteq> []" "der \<noteq> []"
  shows "fromPem b (toPem b label der) = Inr der"
  by (rule padded_base64.pem_reads_back) fact+

theorem pem_round_trip_witness:
  "fromPem std_base64 (toPem std_base64 (js ''PUBLIC KEY'') [1, 2, 3, 4]) = Inr [1, 2, 3, 4]"
  by (rule pem_round_trip [OF std.padded_base64_axioms])
    (simp_all add: js_def label_unit_def is_upper_def is_digit_def)

section \<open>Exit codes\<close>

fun is_err :: "effect_line \<Rightarrow> bool" where
  "is_err (Err _) = True"
| "is_err _ = False"

text \<open>A command that returns reports an error exactly when its code is 1.\<close>

fun honest :: "command_run \<Rightarrow> bool" where
  "honest (Inl _, ls) = True"
| "honest (Inr code, ls) = ((code = 0 \<or> code = 1) \<and> (code = 1 \<longleftrightarrow> list_ex is_err ls))"

lemma honest_line [simp]: "honest (r, Out t # ls) = honest (r, ls)" "honest (r, Wrote path t # ls) = honest (r, ls)"
  by (cases r; simp)+

lemma honest_emit: "honest (emit os pre parts) \<and> \<not> list_ex is_err (snd (emit os pre parts)) \<and> fst (emit os pre parts) \<noteq> Inr 1"
  by (induction os pre parts rule: emit.induct) (auto simp: Let_def split: sum.splits prod.splits)

lemma honest_commands: "map_of commands name = Some handler \<Longrightarrow> honest (handler os args)"
  using honest_emit [of os, THEN conjunct1]
  by (auto simp: commands_def keypair_def cert_def pemInfo_def help_command_def simp del: emit.simps
      split: if_splits sum.splits list.splits)

theorem exit_reports:
  "fst (run os argv) \<in> {0, 1} \<and> (fst (run os argv) = 1 \<longleftrightarrow> list_ex is_err (snd (run os argv)))"
proof (cases "map_of commands (pa_command (parseArgs argv)) :: ('a openssl \<Rightarrow> parsed_args \<Rightarrow> command_run) option")
  case None
  then show ?thesis by (simp add: run_def Let_def)
next
  case (Some handler)
  obtain r ls where h: "handler os (parseArgs argv) = (r, ls)" by (metis surj_pair)
  have "honest (r, ls)" using honest_commands [OF Some] h by metis
  then show ?thesis using Some h by (cases r) (auto simp: run_def Let_def)
qed

section \<open>Key files\<close>

lemma out_argument: "parse_rest [js ''--out='' @ p] [] [] = ([], [(js ''out'', FlagText p)])"
proof -
  have "starts_with (js ''--'') (js ''--out='' @ p)" "index_of 61 (drop 2 (js ''--out='' @ p)) = Some 3"
    "take 3 (drop 2 (js ''--out='' @ p)) = js ''out''" "drop 4 (drop 2 (js ''--out='' @ p)) = p"
    by (simp_all add: starts_with_def js_def)
  then show ?thesis by (simp add: parse_rest.simps(2) Let_def)
qed

theorem key_files:
  fixes os :: "'a openssl"
  assumes b64: "padded_base64 (os_base64 os)" and p: "p \<noteq> []"
    and gen: "os_generateKey os (EcSpec (js ''P-256'')) = Inr (pub, priv)"
    and spki: "os_exportKey os Spki pub = Inr spki" "spki \<noteq> []" and pkcs8: "os_exportKey os Pkcs8 priv = Inr pkcs8" "pkcs8 \<noteq> []"
    and writes: "\<And>path content. os_writeFile os path content = Inr ()"
  shows "\<exists>t1 t2. run os [js ''keypair'', js ''--out='' @ p] =
      (0, [Wrote (p @ js ''.key.pem'') t1, Out (js ''wrote '' @ p @ js ''.key.pem''),
           Wrote (p @ js ''.pub.pem'') t2, Out (js ''wrote '' @ p @ js ''.pub.pem'')]) \<and>
      fromPem (os_base64 os) t1 = Inr pkcs8 \<and> fromPem (os_base64 os) t2 = Inr spki"
proof -
  have reads: "fromPem (os_base64 os) (toPem (os_base64 os) (js ''PRIVATE KEY'') pkcs8) = Inr pkcs8"
    "fromPem (os_base64 os) (toPem (os_base64 os) (js ''PUBLIC KEY'') spki) = Inr spki"
    using spki(2) pkcs8(2) by (simp_all add: padded_base64.pem_reads_back [OF b64] js_def label_unit_def is_upper_def is_digit_def)
  have dot: "js ''.'' @ js k = js (CHR ''.'' # k)" for k
    by (simp add: js_def)
  have args: "parseArgs [js ''keypair'', js ''--out='' @ p] =
      \<lparr> pa_command = js ''keypair'', pa_positionals = [], pa_flags = [(js ''out'', FlagText p)] \<rparr>"
    by (simp add: parseArgs_def out_argument)
  have "generateKeyPair os (js ''ec'') None None =
      Inr (toPem (os_base64 os) (js ''PUBLIC KEY'') spki, toPem (os_base64 os) (js ''PRIVATE KEY'') pkcs8)"
    by (simp add: generateKeyPair_def importParams_def js_inject gen export_pair_def spki(1) pkcs8(1) pair_pem_def)
  then have "keypair os (parseArgs [js ''keypair'', js ''--out='' @ p]) =
      (Inr 0, [Wrote (p @ js ''.key.pem'') (toPem (os_base64 os) (js ''PRIVATE KEY'') pkcs8), Out (js ''wrote '' @ p @ js ''.key.pem''),
        Wrote (p @ js ''.pub.pem'') (toPem (os_base64 os) (js ''PUBLIC KEY'') spki), Out (js ''wrote '' @ p @ js ''.pub.pem'')])"
    using p by (simp add: keypair_def args flagString_def flagNumber_def js_inject writes Let_def dot)
  moreover have "map_of commands (js ''keypair'') = Some (keypair :: 'a openssl \<Rightarrow> parsed_args \<Rightarrow> command_run)"
    by (simp add: commands_def)
  ultimately show ?thesis using reads by (simp add: run_def args Let_def)
qed

section \<open>What falls short\<close>

text \<open>Text that stands before the block is decoded with it.\<close>

lemma text_before_block:
  assumes "padded_base64 b" "list_all label_unit label" "label \<noteq> []" "list_all (\<lambda>c. \<not> is_space c \<and> c \<noteq> 45) p" "p \<noteq> []"
    "has_begin (p @ toPem b label der)"
  shows "fromPem b (p @ toPem b label der) = b64_decode b (p @ b64_encode b der)"
  using padded_base64.pem_body_read [OF assms(1-4), of der] assms(5,6) by (simp add: fromPem_def)

text \<open>Digits of a serial number are not padded, so that different bytes give the same number.\<close>

lemma serials_collide: "serial_number [1, 0x23] = serial_number [0x12, 3]"
  by code_simp

end
