(* ===== verification/Wasm_Contract.thy ===== *)
theory Wasm_Contract
  imports Wasm_Native
begin

text \<open>
  The contract generated from the GoForge release bundle, \<^verbatim>\<open>src/wasm/generated/goforge-contract.ts\<close>, and its
  generator \<^verbatim>\<open>src/tools/wasm/component/wit_contract.ts\<close>.  The runtime does not import the generated module; it is
  there to be compared with the published constants, which the first theorem does.  The formatter of the runtime, the
  file system and the shape of the parsed manifest are arguments of the generator.
\<close>

section \<open>The generated contract\<close>

definition GENERATED_PORTABLE_PACKAGE :: jstr where
  "GENERATED_PORTABLE_PACKAGE = js ''pointerbyte:goforge''"

definition GENERATED_PORTABLE_VERSION :: jstr where
  "GENERATED_PORTABLE_VERSION = js ''0.1.0''"

definition GENERATED_PORTABLE_MANIFEST_SCHEMA :: jstr where
  "GENERATED_PORTABLE_MANIFEST_SCHEMA = js ''goforge.manifest.v1''"

definition GENERATED_ABI :: jstr where
  "GENERATED_ABI = js ''goforge.abi.v1''"

definition GENERATED_WIT_INTERFACE :: jstr where
  "GENERATED_WIT_INTERFACE = js ''pointerbyte:goforge/operations@0.1.0''"

definition GENERATED_OPERATIONS :: "jstr list" where
  "GENERATED_OPERATIONS =
     [js ''text.normalize'', js ''text.validate'', js ''crypto.sha256'', js ''crypto.hmac-sha256'',
      js ''crypto.aes-gcm.encrypt'', js ''crypto.aes-gcm.decrypt'', js ''encoding.base64.encode'',
      js ''encoding.base64.decode'']"

definition GENERATED_CAPABILITIES :: "jstr list" where
  "GENERATED_CAPABILITIES =
     [js ''portable.normalize'', js ''portable.validate'', js ''crypto.sha256'', js ''crypto.hmac-sha256'',
      js ''crypto.aes-gcm'', js ''encoding.base64'', js ''control.deadline'', js ''control.cancellation'']"

definition GENERATED_HOST_CAPABILITIES :: "jstr list" where
  "GENERATED_HOST_CAPABILITIES =
     [js ''control.deadline'', js ''control.cancellation'']"

definition GENERATED_ERROR_CODES :: "jstr list" where
  "GENERATED_ERROR_CODES =
     [js ''invalid_json'', js ''unknown_field'', js ''duplicate_field'', js ''request_too_large'',
      js ''response_too_large'', js ''invalid_abi'', js ''invalid_request'', js ''unknown_operation'',
      js ''capability_unavailable'', js ''execution_state_required'', js ''deadline_exceeded'',
      js ''cancellation_requested'', js ''invalid_base64'', js ''invalid_utf8'', js ''input_too_large'',
      js ''invalid_key'', js ''invalid_nonce'', js ''authentication_failed'', js ''internal'']"

definition GENERATED_EXECUTION_STATE_FIELDS :: "jstr list" where
  "GENERATED_EXECUTION_STATE_FIELDS =
     [js ''clock-checked'', js ''now-unix-milliseconds'', js ''cancellation-checked'',
      js ''cancellation-token'', js ''cancellation-requested'']"

definition GENERATED_ENCODING :: "(jstr \<times> jstr) list" where
  "GENERATED_ENCODING =
     [(js ''json'', js ''RFC 8259; UTF-8; unique object fields; unknown fields rejected''),
      (js ''binary'', js ''RFC 4648 standard alphabet with required padding'')]"

definition GENERATED_OPERATION_CAPABILITIES :: "(jstr \<times> jstr) list" where
  "GENERATED_OPERATION_CAPABILITIES =
     [(js ''text.normalize'', js ''portable.normalize''), (js ''text.validate'', js ''portable.validate''),
      (js ''crypto.sha256'', js ''crypto.sha256''), (js ''crypto.hmac-sha256'', js ''crypto.hmac-sha256''),
      (js ''crypto.aes-gcm.encrypt'', js ''crypto.aes-gcm''),
      (js ''crypto.aes-gcm.decrypt'', js ''crypto.aes-gcm''),
      (js ''encoding.base64.encode'', js ''encoding.base64''),
      (js ''encoding.base64.decode'', js ''encoding.base64'')]"

definition GENERATED_LIMITS :: "(jstr \<times> int) list" where
  "GENERATED_LIMITS =
     [(js ''max_request_bytes'', 1048576), (js ''max_response_bytes'', 1048576),
      (js ''max_binary_bytes'', 524288), (js ''max_string_bytes'', 65536), (js ''max_id_bytes'', 128),
      (js ''max_cancellation_token_bytes'', 256), (js ''max_required_capabilities'', 32),
      (js ''max_json_depth'', 32)]"

definition GENERATED_ERROR_CATALOG :: "(jstr \<times> (jstr \<times> bool)) list" where
  "GENERATED_ERROR_CATALOG =
     [(js ''invalid_json'', js ''JSON is malformed or not canonical ABI input'', False),
      (js ''unknown_field'', js ''JSON contains an unknown field'', False),
      (js ''duplicate_field'', js ''JSON contains a duplicate object field'', False),
      (js ''request_too_large'', js ''request exceeds the configured byte limit'', False),
      (js ''response_too_large'', js ''response exceeds the configured byte limit'', False),
      (js ''invalid_abi'', js ''request ABI version is unsupported'', False),
      (js ''invalid_request'', js ''request does not satisfy the ABI contract'', False),
      (js ''unknown_operation'', js ''operation is unsupported'', False),
      (js ''capability_unavailable'', js ''required capability is unavailable'', False),
      (js ''execution_state_required'', js ''host did not provide checked execution state'', False),
      (js ''deadline_exceeded'', js ''request deadline has been exceeded'', True),
      (js ''cancellation_requested'', js ''request cancellation was requested'', False),
      (js ''invalid_base64'', js ''value is not canonical standard padded Base64'', False),
      (js ''invalid_utf8'', js ''value is not valid UTF-8'', False),
      (js ''input_too_large'', js ''operation input exceeds the configured byte limit'', False),
      (js ''invalid_key'', js ''cryptographic key has an invalid length'', False),
      (js ''invalid_nonce'', js ''AES-GCM nonce must be exactly 12 bytes'', False),
      (js ''authentication_failed'', js ''AES-GCM authentication failed'', False),
      (js ''internal'', js ''portable operation failed without a safe public detail'', False)]"

text \<open>
  The published constants agree with the generated contract: identity, operations and their capabilities, error codes
  with messages and retryability, and every limit the codec and the native adapter enforce.
\<close>

theorem contract_agrees:
  "GOFORGE_PORTABLE_PACKAGE = GENERATED_PORTABLE_PACKAGE \<and> GOFORGE_PORTABLE_VERSION = GENERATED_PORTABLE_VERSION \<and>
   GOFORGE_PORTABLE_MANIFEST_SCHEMA_V1 = GENERATED_PORTABLE_MANIFEST_SCHEMA \<and> GOFORGE_ABI_V1 = GENERATED_ABI \<and>
   GENERATED_WIT_INTERFACE = GENERATED_PORTABLE_PACKAGE @ js ''/operations@'' @ GENERATED_PORTABLE_VERSION \<and>
   GOFORGE_ABI_V1_OPERATIONS = GENERATED_OPERATIONS \<and>
   GOFORGE_ABI_V1_OPERATION_CAPABILITIES = GENERATED_OPERATION_CAPABILITIES \<and>
   GOFORGE_ABI_V1_ERROR_CODES = GENERATED_ERROR_CODES \<and>
   GOFORGE_ABI_ERROR_CATALOG = GENERATED_ERROR_CATALOG \<and>
   map (map_of GENERATED_LIMITS) [js ''max_binary_bytes'', js ''max_string_bytes'', js ''max_id_bytes'',
     js ''max_cancellation_token_bytes'', js ''max_required_capabilities'', js ''max_json_depth''] =
   map Some [native_maxBinaryBytes, native_maxStringBytes, MAX_ID_BYTES, MAX_CANCELLATION_TOKEN_BYTES,
     int MAX_REQUIRED_CAPABILITIES, int MAX_JSON_DEPTH]"
proof -
  have "map (map_of GENERATED_LIMITS) [js ''max_binary_bytes'', js ''max_string_bytes'', js ''max_id_bytes'',
     js ''max_cancellation_token_bytes'', js ''max_required_capabilities'', js ''max_json_depth''] =
   map Some [524288, 65536, 128, 256, 32, 32]"
    by (simp add: GENERATED_LIMITS_def js_inject)
  then have limits: "map (map_of GENERATED_LIMITS) [js ''max_binary_bytes'', js ''max_string_bytes'', js ''max_id_bytes'',
     js ''max_cancellation_token_bytes'', js ''max_required_capabilities'', js ''max_json_depth''] =
   map Some [native_maxBinaryBytes, native_maxStringBytes, MAX_ID_BYTES, MAX_CANCELLATION_TOKEN_BYTES,
     int MAX_REQUIRED_CAPABILITIES, int MAX_JSON_DEPTH]"
    by (simp add: native_maxBinaryBytes_def native_maxStringBytes_def MAX_ID_BYTES_def MAX_CANCELLATION_TOKEN_BYTES_def
        MAX_REQUIRED_CAPABILITIES_def MAX_JSON_DEPTH_def)
  show ?thesis
    by (intro conjI limits)
      (simp_all add: GOFORGE_PORTABLE_PACKAGE_def GENERATED_PORTABLE_PACKAGE_def GOFORGE_PORTABLE_VERSION_def
        GENERATED_PORTABLE_VERSION_def GOFORGE_PORTABLE_MANIFEST_SCHEMA_V1_def GENERATED_PORTABLE_MANIFEST_SCHEMA_def
        GOFORGE_ABI_V1_def GENERATED_ABI_def GENERATED_WIT_INTERFACE_def js_append [symmetric] GOFORGE_ABI_V1_OPERATIONS_def
        GENERATED_OPERATIONS_def GOFORGE_ABI_V1_OPERATION_CAPABILITIES_def GENERATED_OPERATION_CAPABILITIES_def
        GOFORGE_ABI_V1_ERROR_CODES_def GENERATED_ERROR_CODES_def GOFORGE_ABI_ERROR_CATALOG_def GENERATED_ERROR_CATALOG_def)
qed

section \<open>The generator\<close>

record portable_capability =
  pc_name :: jstr
  pc_host :: bool

record portable_manifest =
  pm_schema :: jstr
  pm_package :: jstr
  pm_version :: jstr
  pm_abi :: jstr
  pm_encoding :: "jstr \<times> jstr"
  pm_limits :: "(jstr \<times> rat) list"
  pm_operations :: "(jstr \<times> jstr) list"
  pm_capabilities :: "portable_capability list"
  pm_errors :: "(jstr \<times> jstr \<times> bool) list"

definition bundleDirectory :: "jstr option \<Rightarrow> jstr" where
  "bundleDirectory override =
     (case override of
        Some d \<Rightarrow>
          if d \<noteq> [] then (if ends_with (js ''/'') d then d else d @ js ''/'')
          else js ''../../../../forge-go-private/share/component/artifacts/''
      | None \<Rightarrow> js ''../../../../forge-go-private/share/component/artifacts/'')"

text \<open>A literal at the head of a text: what follows it.\<close>

definition after :: "jstr \<Rightarrow> jstr \<Rightarrow> jstr option" where
  "after p s = (if starts_with p s then Some (drop (length p) s) else None)"

text \<open>One or more units of a class, as many as there are.\<close>

definition many :: "(16 word \<Rightarrow> bool) \<Rightarrow> jstr \<Rightarrow> (jstr \<times> jstr) option" where
  "many p s = (if takeWhile p s = [] then None else Some (takeWhile p s, dropWhile p s))"

definition interface_prefix :: jstr where
  "interface_prefix = js ''pointerbyte:goforge/operations@''"

definition interface_here :: "jstr \<Rightarrow> jstr option" where
  "interface_here s =
     Option.bind (after (js ''export'') s) (\<lambda>a.
     Option.bind (many is_space a) (\<lambda>(_, b).
     Option.bind (after interface_prefix b) (\<lambda>c.
     Option.bind (many is_digit c) (\<lambda>(x, d).
     Option.bind (after (js ''.'') d) (\<lambda>e.
     Option.bind (many is_digit e) (\<lambda>(y, f).
     Option.bind (after (js ''.'') f) (\<lambda>g.
     Option.bind (many is_digit g) (\<lambda>(z, _).
       Some (interface_prefix @ x @ js ''.'' @ y @ js ''.'' @ z)))))))))"

definition record_here :: "jstr \<Rightarrow> jstr option" where
  "record_here s =
     Option.bind (after (js ''record'') s) (\<lambda>a.
     Option.bind (many is_space a) (\<lambda>(_, b).
     Option.bind (after (js ''execution-state'') b) (\<lambda>c.
     Option.bind (after (js ''{'') (dropWhile is_space c)) (\<lambda>d.
       if dropWhile (\<lambda>u. u \<noteq> 125) d = [] then None else Some (takeWhile (\<lambda>u. u \<noteq> 125) d)))))"

text \<open>\<^verbatim>\<open>match\<close>: at the first place where the expression holds.\<close>

fun first_match :: "(jstr \<Rightarrow> jstr option) \<Rightarrow> jstr \<Rightarrow> jstr option" where
  "first_match f [] = f []"
| "first_match f (c # s) = (case f (c # s) of Some m \<Rightarrow> Some m | None \<Rightarrow> first_match f s)"

definition witInterface :: "jstr \<Rightarrow> jstr + jstr" where
  "witInterface wit =
     (case first_match interface_here wit of
        Some m \<Rightarrow> Inr m
      | None \<Rightarrow> Inl (js ''the extracted WIT does not export pointerbyte:goforge/operations''))"

definition record_fields :: "jstr \<Rightarrow> jstr list" where
  "record_fields body = filter (\<lambda>n. n \<noteq> []) (map (\<lambda>line. trim (hd (split_on 58 line))) (split_on 44 body))"

definition witExecutionStateFields :: "jstr \<Rightarrow> jstr + jstr list" where
  "witExecutionStateFields wit =
     (case first_match record_here wit of
        Some body \<Rightarrow> Inr (record_fields body)
      | None \<Rightarrow> Inl (js ''the extracted WIT does not declare an execution-state record''))"

definition entries :: "jstr list \<Rightarrow> jstr" where
  "entries names = join [10] (map (\<lambda>n. js ''  '' @ json_quote n @ js '','') names)"

definition capability_entries :: "portable_manifest \<Rightarrow> jstr" where
  "capability_entries m =
     join [10] (map (\<lambda>(n, c). js ''  '' @ json_quote n @ js '': '' @ json_quote c @ js '','') (pm_operations m))"

definition error_entries :: "portable_manifest \<Rightarrow> jstr" where
  "error_entries m =
     join [10] (map (\<lambda>(code, message, retryable).
       js ''  '' @ json_quote code @ js '': { message: '' @ json_quote message @ js '', retryable: '' @ bool_text retryable @ js '' },'')
       (pm_errors m))"

definition limit_entries :: "portable_manifest \<Rightarrow> jstr" where
  "limit_entries m =
     join [10] (map (\<lambda>(n, v). js ''  '' @ json_quote n @ js '': '' @ number_text v @ js '','') (pm_limits m))"

definition render_text :: "portable_manifest \<Rightarrow> jstr \<Rightarrow> jstr list \<Rightarrow> jstr" where
  "render_text m iface fs =
     js ''// Copyright 2026 PointerByte Contributors'' @ [10] @
     js ''// SPDX-License-Identifier: Apache-2.0'' @ [10] @
     js ''//'' @ [10] @
     js ''// GENERATED FILE '' @ [0x2014] @ js '' DO NOT EDIT.'' @ [10] @
     js ''// Produced by tools/wasm/component/wit_contract.ts from the GoForge release bundle:'' @ [10] @
     js ''//   '' @ pm_schema m @ js '' / '' @ pm_package m @ js ''@'' @ pm_version m @ js '' / '' @ pm_abi m @
     [10] @
     js ''//   WIT export: '' @ iface @ [10] @
     js ''// Regenerate with `deno task contract`; `deno task contract:check` fails when this is stale.'' @
     [10] @
     [10] @
     js ''/** Contract identity as declared by GoForge. */'' @ [10] @
     js ''export const GENERATED_PORTABLE_PACKAGE = '' @ json_quote (pm_package m) @ js '' as const;'' @ [10] @
     js ''/** Contract version as declared by GoForge. */'' @ [10] @
     js ''export const GENERATED_PORTABLE_VERSION = '' @ json_quote (pm_version m) @ js '' as const;'' @ [10] @
     js ''/** Portable contract manifest schema as declared by GoForge. */'' @ [10] @
     js ''export const GENERATED_PORTABLE_MANIFEST_SCHEMA = '' @ json_quote (pm_schema m) @ js '' as const;'' @
     [10] @
     js ''/** JSON bridge ABI as declared by GoForge. */'' @ [10] @
     js ''export const GENERATED_ABI = '' @ json_quote (pm_abi m) @ js '' as const;'' @ [10] @
     js ''/** Versioned WIT interface exported by the built component. */'' @ [10] @
     js ''export const GENERATED_WIT_INTERFACE = '' @ json_quote iface @ js '' as const;'' @ [10] @
     [10] @
     js ''/** Serialization profile GoForge accepts. */'' @ [10] @
     js ''export const GENERATED_ENCODING = Object.freeze({'' @ [10] @
     js ''  json: '' @ json_quote (fst (pm_encoding m)) @ js '','' @ [10] @
     js ''  binary: '' @ json_quote (snd (pm_encoding m)) @ js '','' @ [10] @
     js ''});'' @ [10] @
     [10] @
     js ''/** Every operation, in GoForge's declaration order. */'' @ [10] @
     js ''export const GENERATED_OPERATIONS = ['' @ [10] @
     entries (map fst (pm_operations m)) @ [10] @
     js ''] as const;'' @ [10] @
     [10] @
     js ''/** An operation name derived from the GoForge contract. */'' @ [10] @
     js ''export type GeneratedOperation = typeof GENERATED_OPERATIONS[number];'' @ [10] @
     [10] @
     js ''/** Required capability per operation. */'' @ [10] @
     js ''export const GENERATED_OPERATION_CAPABILITIES: Readonly<Record<GeneratedOperation, string>> = Object'' @
     [10] @
     js ''  .freeze({'' @ [10] @
     capability_entries m @ [10] @
     js ''});'' @ [10] @
     [10] @
     js ''/** Every capability GoForge declares, including host-supplied controls. */'' @ [10] @
     js ''export const GENERATED_CAPABILITIES = ['' @ [10] @
     entries (map pc_name (pm_capabilities m)) @ [10] @
     js ''] as const;'' @ [10] @
     [10] @
     js ''/** Host-supplied control capabilities, which the guest cannot satisfy alone. */'' @ [10] @
     js ''export const GENERATED_HOST_CAPABILITIES = ['' @ [10] @
     entries (map pc_name (filter pc_host (pm_capabilities m))) @ [10] @
     js ''] as const;'' @ [10] @
     [10] @
     js ''/** Resource bounds the guest enforces. */'' @ [10] @
     js ''export const GENERATED_LIMITS: Readonly<Record<string, number>> = Object.freeze({'' @ [10] @
     limit_entries m @ [10] @
     js ''});'' @ [10] @
     [10] @
     js ''/** Error codes in GoForge's catalog order; the guest manifest is compared position by position. */'' @
     [10] @
     js ''export const GENERATED_ERROR_CODES = ['' @ [10] @
     entries (map fst (pm_errors m)) @ [10] @
     js ''] as const;'' @ [10] @
     [10] @
     js ''/** A canonical error code derived from the GoForge contract. */'' @ [10] @
     js ''export type GeneratedErrorCode = typeof GENERATED_ERROR_CODES[number];'' @ [10] @
     [10] @
     js ''/** The immutable error catalog, message and retryability included. */'' @ [10] @
     js ''export const GENERATED_ERROR_CATALOG: Readonly<'' @ [10] @
     js ''  Record<GeneratedErrorCode, { readonly message: string; readonly retryable: boolean }>'' @ [10] @
     js ''> = Object.freeze({'' @ [10] @
     error_entries m @ [10] @
     js ''});'' @ [10] @
     [10] @
     js ''/** Execution-state record fields, in WIT declaration order. */'' @ [10] @
     js ''export const GENERATED_EXECUTION_STATE_FIELDS = ['' @ [10] @
     entries fs @ [10] @
     js ''] as const;'' @ [10]"

definition render :: "portable_manifest \<Rightarrow> jstr \<Rightarrow> jstr + jstr" where
  "render m wit = and_then (witInterface wit) (\<lambda>iface. and_then (witExecutionStateFields wit) (\<lambda>fs. Inr (render_text m iface fs)))"

text \<open>
  A run: with no bundle the committed module is kept; \<^verbatim>\<open>--check\<close> compares, otherwise the module is written.  The
  formatter answers the formatted source or the error it is reported with.
\<close>

datatype contract_outcome =
    KeptCommitted
  | ExitOne jstr
  | ContractCurrent
  | WroteContract jstr
  | ContractThrew jstr

definition contract_main ::
  "bool \<Rightarrow> (jstr \<times> jstr) option \<Rightarrow> (jstr \<Rightarrow> jstr + portable_manifest) \<Rightarrow> (jstr \<Rightarrow> jstr + jstr) \<Rightarrow> jstr option \<Rightarrow> contract_outcome" where
  "contract_main check_only bundle parse fmt committed =
     (case bundle of
        None \<Rightarrow> KeptCommitted
      | Some (manifestText, wit) \<Rightarrow>
          (case and_then (parse manifestText) (\<lambda>m. and_then (render m wit) fmt) of
             Inl e \<Rightarrow> ContractThrew e
           | Inr rendered \<Rightarrow>
               if check_only then
                 (case committed of
                    None \<Rightarrow> ExitOne (js ''contract: the generated contract is missing; run `deno task contract`'')
                  | Some t \<Rightarrow>
                      if t \<noteq> rendered then ExitOne (js ''contract: the generated contract is stale; run `deno task contract`'')
                      else ContractCurrent)
               else WroteContract rendered))"

section \<open>What the generator reads\<close>

lemma first_found: "f s = Some m \<Longrightarrow> first_match f s = Some m"
  by (cases s) auto

lemma split_at: "d \<notin> set p \<Longrightarrow> split_on d (p @ d # s) = p # split_on d s"
  by (induction p) auto

lemma split_fields: "list_all (\<lambda>p. d \<notin> set p) ps \<Longrightarrow> ps \<noteq> [] \<Longrightarrow> split_on d (join [d] ps) = ps"
  by (induction "[d]" ps rule: join.induct) (auto simp: split_at split_on_no_sep)

definition field_name :: "jstr \<Rightarrow> bool" where
  "field_name n \<longleftrightarrow> n \<noteq> [] \<and> trimmed n \<and> list_all (\<lambda>c. c \<noteq> 44 \<and> c \<noteq> 58 \<and> c \<noteq> 125) n"

definition field_type :: "jstr \<Rightarrow> bool" where
  "field_type t \<longleftrightarrow> list_all (\<lambda>c. c \<noteq> 44 \<and> c \<noteq> 125) t"

lemma trim_padded: "list_all is_space pad \<Longrightarrow> trimmed n \<Longrightarrow> trim (pad @ n) = n"
  using trimmed_trim [of n] by (simp add: trim_def trim_start_def dropWhile_append2 list_all_iff)

text \<open>
  The fields of a record declaration are read in their order, whatever their types, the space before each, and what
  follows the declaration; the space after the last comma is no field.
\<close>

theorem fields_read:
  assumes "list_all (\<lambda>(pad, n, t). list_all is_space pad \<and> field_name n \<and> field_type t) fs" "list_all is_space gap"
  shows "witExecutionStateFields (js ''record execution-state {'' @
      join [44] (map (\<lambda>(pad, n, t). pad @ n @ 58 # t) fs @ [gap]) @ 125 # post) = Inr (map (\<lambda>(pad, n, t). n) fs)"
proof -
  define ps where "ps = map (\<lambda>(pad, n, t). pad @ n @ 58 # t) fs @ [gap]"
  define body where "body = join [44] ps"
  have ok: "list_all is_space pad \<and> field_name n \<and> field_type t" if "(pad, n, t) \<in> set fs" for pad n t
    using that assms(1) by (auto simp: list_all_iff)
  have sp: "44 \<notin> set q" "58 \<notin> set q" "125 \<notin> set q" if "list_all is_space q" for q
    using that by (auto simp: list_all_iff is_space_def)
  have p: "44 \<notin> set p" "125 \<notin> set p" if listed: "p \<in> set ps" for p
  proof -
    have "p = gap \<or> (\<exists>pad n t. p = pad @ n @ 58 # t \<and> (pad, n, t) \<in> set fs)" using listed by (auto simp: ps_def)
    then have "44 \<notin> set p \<and> 125 \<notin> set p"
    proof
      assume "p = gap"
      then show ?thesis using sp [OF assms(2)] by simp
    next
      assume "\<exists>pad n t. p = pad @ n @ 58 # t \<and> (pad, n, t) \<in> set fs"
      then obtain pad n t where f: "p = pad @ n @ 58 # t" "(pad, n, t) \<in> set fs" by blast
      show ?thesis using ok [OF f(2)] sp [of pad] by (auto simp: f(1) field_name_def field_type_def list_all_iff)
    qed
    then show "44 \<notin> set p" "125 \<notin> set p" by simp_all
  qed
  have "set (join [44] qs) \<subseteq> insert 44 (\<Union> (set ` set qs))" for qs :: "jstr list"
    by (induction "[44 :: 16 word]" qs rule: join.induct) auto
  then have b: "u \<noteq> 125" if "u \<in> set body" for u using that p(2) unfolding body_def by force
  have split: "split_on 44 body = ps" unfolding body_def
    using p by (intro split_fields) (auto simp: list_all_iff ps_def)
  have one: "trim (hd (split_on 58 (pad @ n @ 58 # t))) = n" "n \<noteq> []" if f: "(pad, n, t) \<in> set fs" for pad n t
  proof -
    have "58 \<notin> set (pad @ n)" "trimmed n" "n \<noteq> []" "list_all is_space pad"
      using ok [OF f] sp(2) by (auto simp: field_name_def list_all_iff)
    then show "trim (hd (split_on 58 (pad @ n @ 58 # t))) = n" "n \<noteq> []"
      using split_at [of 58 "pad @ n" t] by (simp_all add: trim_padded)
  qed
  have "trim (hd (split_on 58 gap)) = []"
    using assms(2) sp(2) [OF assms(2)] trim_padded [of gap "[]"] by (simp add: split_on_no_sep trimmed_def)
  then have "map (\<lambda>line. trim (hd (split_on 58 line))) ps = map (\<lambda>(pad, n, t). n) fs @ [[]]"
    using one(1) by (auto simp: ps_def)
  moreover have "filter (\<lambda>n. n \<noteq> []) (map (\<lambda>(pad, n, t). n) fs) = map (\<lambda>(pad, n, t). n) fs"
    using one(2) by (auto simp: filter_id_conv)
  ultimately have "record_fields body = map (\<lambda>(pad, n, t). n) fs" by (simp add: record_fields_def split)
  moreover have "record_here (js ''record execution-state {'' @ body @ 125 # post) = Some body"
  proof -
    have "takeWhile (\<lambda>u. u \<noteq> 125) (body @ 125 # post) = body" "dropWhile (\<lambda>u. u \<noteq> 125) (body @ 125 # post) = 125 # post"
      using b by (simp_all add: takeWhile_append2 dropWhile_append2)
    then show ?thesis
      by (simp add: record_here_def after_def many_def starts_with_def js_def is_space_def)
  qed
  ultimately show ?thesis
    using first_found [of record_here] by (simp add: witExecutionStateFields_def body_def ps_def)
qed

theorem fields_read_witness:
  "witExecutionStateFields (js ''record execution-state { clock-checked: bool, now: u64, }'') = Inr [js ''clock-checked'', js ''now'']"
  using fields_read [of "[([32], js ''clock-checked'', js '' bool''), ([32], js ''now'', js '' u64'')]" "[32]" "[]"]
  by (simp add: field_name_def field_type_def trimmed_def is_space_def js_def)

text \<open>A run that wrote the contract leaves nothing for the check to report.\<close>

lemma written_is_current:
  "contract_main False bundle parse fmt committed = WroteContract t \<Longrightarrow>
   contract_main True bundle parse fmt (Some t) = ContractCurrent"
  by (auto simp: contract_main_def split: option.splits sum.splits prod.splits)

end
