(* ===== verification/Spec2Isabelle.thy ===== *)
theory Spec2Isabelle
  imports Workers Jobs Config Wasm_Runtime Wasm_Pool_Refinement Pkcs11_Repository Logger_File_Facts Logger_Middleware Http_Client Encrypt_Kms_Facts Wasm_Native_Vectors Wasm_Wasi Pkcs11_Ffi_Facts Pkcs11_Soft_Facts Cmd_Openssl_Facts Wasm_Contract
begin

text \<open>
  A model of forge-deno, a TypeScript library of server components for Deno: configuration, logging, encryption with
  software and managed keys, JWT authentication, HTTP and gRPC, background work, and a runtime for WebAssembly
  components.  Every theory translates source files under \<^verbatim>\<open>src/\<close>; this one imports them all.

  \<^bold>\<open>How the program is put together.\<close>  The tools (configuration, workers, jobs) stand alone.  The HTTP server builds a
  router over handlers; its middleware adds the request context, logs entries through the logger, and guards routes
  with the JWT service, which signs and verifies with Web Crypto.  The gRPC adapter carries the same guard and the same
  logging as interceptors.  Encryption has one contract and five providers: a local one over Web Crypto, three over the
  key services of AWS, Google and Azure that share one repository, and one over a PKCS#11 token, which reaches the
  vendor's library through a foreign-function binding, keeps a pool of sessions and answers in the shape of the local
  one.  The WASM runtime verifies a release bundle, opens component instances in a pool, and sends them requests in a
  JSON envelope; an operation may be routed to a native adapter instead once it has reproduced the shared vectors.

  \<^bold>\<open>Conventions.\<close>  A JavaScript string is the list of its UTF-16 code units, a \<^verbatim>\<open>Uint8Array\<close> the list of its bytes.  A
  function that throws answers \<open>Inl\<close> with the error.  Objects are property lists in insertion order; what is changed
  in place is a record passed along, or a store of references where two parts of the program share an object.
  Concurrency is that of the event loop: a synchronous stretch between two awaits is one event, and an execution is any
  list of events whose guards hold.  Third-party packages, Web Crypto, the cloud SDKs, clocks, random bytes and the
  vendor's library are arguments; what the code relies on of them is a hypothesis or the assumption of a locale.

  \<^bold>\<open>Shared vocabulary.\<close>
  \<^item> \<open>JS_Prelude\<close>: strings, results, event systems with their reachable states, and the interfaces that several
    components implement (locales \<open>event_system\<close>, \<open>path_store\<close> and the others; each is interpreted on a component).
  \<^item> \<open>JS_Text\<close>, \<open>JS_Values\<close>, \<open>Json_Round_Trip\<close>: the string operations, values, numbers and JSON of the language, with
    the round trip of printing and parsing.
  \<^item> \<open>Utf\<close>, \<open>Utf_Lossy\<close>: \<^verbatim>\<open>TextEncoder\<close> and both forms of \<^verbatim>\<open>TextDecoder\<close>.
  \<^item> \<open>Lease_Spec\<close>: the abstract service of leasing resources, which both pools refine.
  \<^item> \<open>Http_Values\<close>: headers, requests, responses and thrown values.

  \<^bold>\<open>Tools\<close> (\<^verbatim>\<open>src/tools\<close>).
  \<^item> \<open>Workers\<close> (\<^verbatim>\<open>workers/workers.ts\<close>): the dispatch loop fills its slots and no more, serves in order and drains;
    lowering the limit cancels nothing, so the bound then holds for what is dispatched from there on.
  \<^item> \<open>Jobs\<close> (\<^verbatim>\<open>jobs/jobs.ts\<close>, \<^verbatim>\<open>utilities/mode.ts\<close>): controls in a store, shared by registry and closures; no job
    overlaps itself and timers belong to registered jobs.
  \<^item> \<open>Settings\<close>, \<open>Ini\<close>, \<open>Config\<close> (\<^verbatim>\<open>utilities/values.ts\<close>, \<^verbatim>\<open>ini.ts\<close>, \<^verbatim>\<open>config.ts\<close>): typed values, key paths, the INI
    reader with located errors against a grammar of malformed lines, the loader as layers that lie over
    each other.  The upward search for a directory recurses on the path's length.

  \<^bold>\<open>WebAssembly\<close> (\<^verbatim>\<open>src/wasm\<close>).
  \<^item> \<open>Wasm_Abi\<close>, \<open>Wasm_Codec\<close> (\<^verbatim>\<open>errors.ts\<close>, \<^verbatim>\<open>contracts.ts\<close>, \<^verbatim>\<open>codec.ts\<close>): error classes, envelopes, their validation;
    an accepted response is legal and is accepted unchanged again.  The error catalog is indexed as the object it is,
    so the inherited name \<^verbatim>\<open>constructor\<close> is found too (\<open>inherited_code_accepted\<close>).
  \<^item> \<open>Wasm_Manifest\<close> (\<^verbatim>\<open>manifest.ts\<close>): only bytes with the declared digests leave the verification.
  \<^item> \<open>Wasm_Adapters\<close> (\<^verbatim>\<open>adapters.ts\<close>): the registry with object identity; what resolves was
    qualified, then registered, and lists the operation itself.
  \<^item> \<open>Wasm_Pool\<close>, \<open>Wasm_Pool_Refinement\<close> (\<^verbatim>\<open>InstancePool\<close> in \<^verbatim>\<open>runtime.ts\<close>): each handler is an event; the invariant,
    fairness, progress, and the refinement of the leasing service.
  \<^item> \<open>Wasm_Runtime\<close> (\<^verbatim>\<open>runtime.ts\<close>): options, abort scopes, one call, the retry loop and the lifecycle.  Fuel of the
    retry loop is the number of attempts, which the validated policy bounds by ten.
  \<^item> \<open>Wasm_Component\<close>, \<open>Wasm_Wasi\<close> (\<^verbatim>\<open>component.ts\<close>, \<^verbatim>\<open>wasi.ts\<close>): the generated glue is a tree of requests, so its
    run is structural recursion; only verified core modules are compiled, and every denied interface refuses.
  \<^item> \<open>Wasm_Native\<close> and its \<open>_Facts\<close>, \<open>_Crypto\<close>, \<open>_Replies\<close>, \<open>_Vectors\<close> (\<^verbatim>\<open>native.ts\<close>): the portable operations; replies
    are responses the runtime accepts, normalisation is stable, Base64 and AES round trips hold, and the vectors of
    \<^verbatim>\<open>testdata/vectors/v1.json\<close> are computed by the model.

  \<^item> \<open>Wasm_Contract\<close> (\<^verbatim>\<open>generated/goforge-contract.ts\<close>, \<^verbatim>\<open>src/tools/wasm/component/wit_contract.ts\<close>): the generated
    tables, which the published constants and limits agree with, and the generator with what it reads from the WIT.

  \<^bold>\<open>Encryption\<close> (\<^verbatim>\<open>src/encrypt\<close>).
  \<^item> \<open>Encrypt_Common\<close>, \<open>Encrypt_Local\<close> (\<^verbatim>\<open>utilities\<close>, \<^verbatim>\<open>common/enums.ts\<close>, \<^verbatim>\<open>local/repository.ts\<close>): failures, signals,
    payloads, every operation of the local provider and its round trips.
  \<^item> \<open>Encrypt_Kms\<close>, \<open>Encrypt_Kms_Facts\<close> (\<^verbatim>\<open>common/kms.ts\<close> and the three repositories): the lazily made adapter under
    any interleaving, envelopes and signatures of managed keys.
  \<^item> \<open>Pkcs11_Uri\<close>, \<open>Pkcs11_Cryptoki\<close>, \<open>Pkcs11_Keys\<close> (\<^verbatim>\<open>pkcs11/uri.ts\<close>, \<^verbatim>\<open>config.ts\<close>, \<^verbatim>\<open>errors.ts\<close>, \<^verbatim>\<open>cryptoki.ts\<close>,
    \<^verbatim>\<open>keys.ts\<close>): key URIs, constants, attributes, DER and public keys, with the round trips of URIs and RSA keys.  The
    walk through a certificate skips the fixed number of elements that stand before the key.
  \<^item> \<open>Pkcs11_Session\<close>, \<open>Pkcs11_Slot\<close> (\<^verbatim>\<open>session.ts\<close>): the session pool as an event system that refines the leasing
    service, and the promise caches around it.
  \<^item> \<open>Pkcs11_Token\<close>, \<open>Pkcs11_Repository\<close> (\<^verbatim>\<open>interface.ts\<close>, \<^verbatim>\<open>repository.ts\<close>): the calls of a module with their log, and
    every operation of the provider; keys stay in the token, a reference to it is not
    handled in software except where a public key suffices, and ECDH asks for the destruction of all it derives; the
    log records whether the token destroyed it.
  \<^item> \<open>Pkcs11_Ffi\<close>, \<open>Pkcs11_Ffi_Facts\<close> (\<^verbatim>\<open>ffi.ts\<close>): C structures in a byte memory.  A search takes fuel, one round per
    batch; \<open>search_complete\<close> shows how much is enough for batches of any sizes, and that a short batch before the
    last loses handles.  A vendor's library may indeed never end a search.

  \<^item> \<open>Pkcs11_Soft\<close>, \<open>Pkcs11_Soft_Facts\<close> (\<^verbatim>\<open>test_support.ts\<close>): the in-memory token of the tests as a concrete module, and the
    life of a key on it: generated, found under its reference, used to encrypt and to decrypt.

  \<^bold>\<open>Logging\<close> (\<^verbatim>\<open>src/logger\<close>).
  \<^item> \<open>Logger_Values\<close>, \<open>Logger_Sanitizer\<close> (\<^verbatim>\<open>common/enums.ts\<close>, \<^verbatim>\<open>formatter/latency.ts\<close>, \<^verbatim>\<open>sanitizer/sanitizer.ts\<close>):
    severities and redaction; the depth of redaction counts down from the code's own maximum, below which, as in
    documents inside headers, secrets are kept.
  \<^item> \<open>Logger_Format\<close>, \<open>Logger_Template\<close>, \<open>Logger_Json_Template\<close> (\<^verbatim>\<open>formatter/format.ts\<close>): both layouts and the template
    language, with the equivalence of the JSON layout and the template of the whole entry.
  \<^item> \<open>Logger_Builder\<close> (\<^verbatim>\<open>builder/builder.ts\<close>): loggers and their children.
  \<^item> \<open>Logger_File\<close>, \<open>Logger_File_Facts\<close> (\<^verbatim>\<open>sink/file.ts\<close>): rotation, retention and failure; what counts as a backup is
    the code's test of the name, which other logs' files can pass.  The search for a free
    backup name is bounded by the number of files plus one, which suffices because candidate names are distinct.
  \<^item> \<open>Logger_Middleware\<close> (\<^verbatim>\<open>middlewares/http.ts\<close>, \<^verbatim>\<open>grpc.ts\<close>): one entry per request, and failing sinks.

  \<^bold>\<open>Security, servers and clients\<close> (\<^verbatim>\<open>src/security\<close>, \<^verbatim>\<open>src/config\<close>, \<^verbatim>\<open>src/telemetry\<close>).
  \<^item> \<open>Security_Jwt\<close>, \<open>Security_Jwt_Facts\<close> (\<^verbatim>\<open>auth/jwt/jwt.ts\<close>): signing strategies with cached keys, and the
    specification of an authentic token, which the service accepts exactly.
  \<^item> \<open>Security_Middleware\<close>, \<open>Http_Auth\<close> (\<^verbatim>\<open>middlewares\<close>, \<^verbatim>\<open>auth/cookies\<close>): the guards, and a guarded group of routes.
  \<^item> \<open>Http_Server\<close>, \<open>Http_Context\<close>, \<open>Http_Client\<close> (\<^verbatim>\<open>config/server/http\<close>, \<^verbatim>\<open>config/client/http\<close>): routes, nested groups,
    middleware arrays shared by reference, trace context, and the REST client.
  \<^item> \<open>Grpc_Server\<close>, \<open>Telemetry\<close> (\<^verbatim>\<open>config/grpc\<close>, \<^verbatim>\<open>config/server/grpc\<close>, \<^verbatim>\<open>config/client/grpc\<close>, \<^verbatim>\<open>telemetry\<close>): unary calls with
    their interceptors and error mapping, spans and instruments.

  \<^bold>\<open>Commands\<close> (\<^verbatim>\<open>src/cmd\<close>).
  \<^item> \<open>Cmd_Openssl\<close>, \<open>Cmd_Openssl_Facts\<close> (\<^verbatim>\<open>deno-openssl\<close>): PEM text that reads back, exit codes, and the key files.

  \<^bold>\<open>Kinds of result.\<close>  Invariants and safety are proved over every execution of the event systems; functional lemmas
  give each operation on each branch, failures included; refinement compares the pools, the adapter cache and the
  structures in memory with what their clients see; round trips pair the encoders with the decoders; and where the code
  falls short of its documentation, a lemma states what it does instead.  A theorem with hypotheses is followed by an
  instance at a concrete input.

  \<^bold>\<open>Not modelled.\<close>
  \<^item> Binding sockets, shutting down, and channels: \<^verbatim>\<open>Deno.serve\<close> and grpc-js own them.
  \<^item> The OpenTelemetry exporters, YAML, dotenv, URL parsing and \<^verbatim>\<open>URLPattern\<close>: packages or the runtime, arguments here.
  \<^item> Prototypes, getters, cyclic objects and keys that look like array indices: outside the object model.
  \<^item> Rounding of decimal literals to doubles; numbers are exact except where the code converts 64-bit handles.
  \<^item> Type declarations and re-exporting modules, which leave no behaviour.
  \<^item> The reports and repository checks under \<^verbatim>\<open>src/tools\<close>, the scaffolding command, benchmarks, examples and research,
    which the library does not call.
\<close>

end
